(* ===== verification/Py_Prelude.thy ===== *)
theory Py_Prelude
  imports Complex_Main "HOL-Library.AList" "HOL-Library.Char_ord" "HOL-Library.List_Lexorder"
begin

text \<open>
  The vocabulary the component theories share: Python's dynamic values, its insertion-ordered
  dictionaries and the string methods the services call.

  A Python \<open>str\<close> is a \<open>string\<close> (its UTF-8 bytes, so \<open>.encode("utf-8")\<close> is the identity and
  the order of two strings is the order of their code points); case folding and white space are
  those of ASCII. A Python \<open>int\<close> is an \<open>int\<close>. A \<open>float\<close> is the rational number it denotes:
  comparisons are exact, the rounding of arithmetic is not modelled, and NaN and the infinities
  (which the services reject at the edge) are outside the model. A \<open>dict\<close> is an association
  list in insertion order: an assignment to a present key keeps its position.
\<close>

named_theorems dict_simps \<open>lookup after an update of a dictionary\<close>
named_theorems str_simps \<open>evaluation of the string methods\<close>

section \<open>Dynamic values\<close>

datatype pyval =
    PNone
  | PBool bool
  | PInt int
  | PFloat rat
  | PStr string
  | PList "pyval list"
  | PDict "(string \<times> pyval) list"

type_synonym pydict = "(string \<times> pyval) list"

text \<open>
  The standard library's conversions between text and values, for the values whose text the
  services never inspect: \<open>repr_of\<close> is \<open>repr\<close> of floats and containers, \<open>float_of\<close> is
  \<open>float(text)\<close>, \<open>iso_of\<close> is \<open>datetime.fromisoformat\<close> as seconds since the epoch (a naive
  time read as UTC) with a flag for an explicit time zone, \<open>json_of\<close> is the compact JSON text.
  \<open>None\<close> is a raised \<open>ValueError\<close>.
\<close>

record pyrt =
  repr_of :: "pyval \<Rightarrow> string"
  float_of :: "string \<Rightarrow> rat option"
  iso_of :: "string \<Rightarrow> (rat \<times> bool) option"
  json_of :: "pyval \<Rightarrow> string"

fun truthy :: "pyval \<Rightarrow> bool" where
  "truthy PNone = False"
| "truthy (PBool b) = b"
| "truthy (PInt i) = (i \<noteq> 0)"
| "truthy (PFloat r) = (r \<noteq> 0)"
| "truthy (PStr s) = (s \<noteq> [])"
| "truthy (PList xs) = (xs \<noteq> [])"
| "truthy (PDict d) = (d \<noteq> [])"

text \<open>Python's \<open>a or b\<close>.\<close>

definition py_or :: "pyval \<Rightarrow> pyval \<Rightarrow> pyval" where
  "py_or a b = (if truthy a then a else b)"

definition is_dict :: "pyval \<Rightarrow> bool" where
  "is_dict v = (case v of PDict _ \<Rightarrow> True | _ \<Rightarrow> False)"

text \<open>\<open>isinstance(v, int)\<close>: a \<open>bool\<close> is an \<open>int\<close>.\<close>

definition is_int :: "pyval \<Rightarrow> bool" where
  "is_int v = (case v of PInt _ \<Rightarrow> True | PBool _ \<Rightarrow> True | _ \<Rightarrow> False)"

lemma py_or_simps [simp]:
  "truthy a \<Longrightarrow> py_or a b = a"
  "\<not> truthy a \<Longrightarrow> py_or a b = b"
  by (simp_all add: py_or_def)

section \<open>Dictionaries in insertion order\<close>

abbreviation dict_set :: "('k \<times> 'v) list \<Rightarrow> 'k \<Rightarrow> 'v \<Rightarrow> ('k \<times> 'v) list" where
  "dict_set d k v \<equiv> AList.update k v d"

abbreviation dict_del :: "('k \<times> 'v) list \<Rightarrow> 'k \<Rightarrow> ('k \<times> 'v) list" where
  "dict_del d k \<equiv> AList.delete k d"

definition dict_has :: "('k \<times> 'v) list \<Rightarrow> 'k \<Rightarrow> bool" where
  "dict_has d k = (case map_of d k of None \<Rightarrow> False | Some _ \<Rightarrow> True)"

abbreviation wf_dict :: "('k \<times> 'v) list \<Rightarrow> bool" where
  "wf_dict d \<equiv> distinct (map fst d)"

text \<open>\<open>d.get(k, default)\<close>, \<open>d.get(k)\<close> and \<open>d.setdefault(k, v)\<close>.\<close>

definition dict_getd :: "('k \<times> 'v) list \<Rightarrow> 'k \<Rightarrow> 'v \<Rightarrow> 'v" where
  "dict_getd d k v = (case map_of d k of None \<Rightarrow> v | Some w \<Rightarrow> w)"

definition pget :: "pydict \<Rightarrow> string \<Rightarrow> pyval" where
  "pget d k = dict_getd d k PNone"

definition dict_default :: "('k \<times> 'v) list \<Rightarrow> 'k \<Rightarrow> 'v \<Rightarrow> ('k \<times> 'v) list" where
  "dict_default d k v = (case map_of d k of None \<Rightarrow> dict_set d k v | Some _ \<Rightarrow> d)"

text \<open>\<open>a.update(b)\<close>, the literal \<open>{**a, **b}\<close>: the assignments of \<open>b\<close> in order.\<close>

definition dict_merge :: "('k \<times> 'v) list \<Rightarrow> ('k \<times> 'v) list \<Rightarrow> ('k \<times> 'v) list" where
  "dict_merge a b = foldl (\<lambda>d (k, v). dict_set d k v) a b"

text \<open>\<open>dict.fromkeys(xs)\<close> read back as a list: the first occurrences, in order.\<close>

definition fromkeys :: "'a list \<Rightarrow> 'a list" where
  "fromkeys xs = map fst (foldl (\<lambda>d k. dict_set d k ()) [] xs)"

lemma map_of_dict_set [simp, dict_simps]: "map_of (dict_set d k v) = (map_of d)(k \<mapsto> v)"
  by (rule AList.update_conv')

lemma map_of_dict_del [dict_simps]: "map_of (dict_del d k) = (map_of d)(k := None)"
  by (rule AList.delete_conv')

lemma dict_has_iff: "dict_has d k \<longleftrightarrow> map_of d k \<noteq> None"
  by (simp add: dict_has_def split: option.split)

lemma dict_has_keys: "dict_has d k \<longleftrightarrow> k \<in> set (map fst d)"
  by (simp only: dict_has_iff map_of_eq_None_iff) auto

lemma dict_has_set [simp]: "dict_has (dict_set d k v) j \<longleftrightarrow> j = k \<or> dict_has d j"
  by (simp add: dict_has_iff)

lemma dict_has_Nil [simp]: "\<not> dict_has [] k"
  by (simp add: dict_has_def)

lemma wf_dict_set [simp, intro]: "wf_dict d \<Longrightarrow> wf_dict (dict_set d k v)"
  by (rule AList.distinct_update)

lemma wf_dict_del [simp, intro]: "wf_dict d \<Longrightarrow> wf_dict (dict_del d k)"
  by (rule AList.distinct_delete)

lemma set_dict_set: "set (dict_set d k v) \<subseteq> insert (k, v) (set d)"
  by (induction d) auto

lemma distinct_sort_map: "distinct (map f (sort_key g xs)) = distinct (map f xs)"
  by (simp add: distinct_map)

lemma dict_set_fresh: "k \<notin> fst ` set d \<Longrightarrow> dict_set d k v = d @ [(k, v)]"
  by (induction d) auto

lemma length_dict_set:
  "length (dict_set d k v) = (if dict_has d k then length d else Suc (length d))"
  by (induction d) (auto simp: dict_has_def)

lemma keys_dict_set:
  "map fst (dict_set d k v) = (if dict_has d k then map fst d else map fst d @ [k])"
  by (induction d) (auto simp: dict_has_def)

lemma dict_getd_set [simp]: "dict_getd (dict_set d k v) j w = (if j = k then v else dict_getd d j w)"
  by (simp add: dict_getd_def)

lemma pget_set [simp]: "pget (dict_set d k v) j = (if j = k then v else pget d j)"
  by (simp add: pget_def)

lemma map_of_dict_default [dict_simps]:
  "map_of (dict_default d k v) j = (if j = k \<and> map_of d k = None then Some v else map_of d j)"
  by (auto simp: dict_default_def split: option.splits)

lemma dict_default_keeps: "map_of d k = Some v \<Longrightarrow> map_of (dict_default d j w) k = Some v"
  by (auto simp: dict_default_def split: option.split)

lemma map_of_dict_merge [dict_simps]:
  "wf_dict b \<Longrightarrow> map_of (dict_merge a b) = map_of a ++ map_of b"
proof -
  have "foldl (\<lambda>d (k, v). dict_set d k v) a b = foldl (\<lambda>d p. dict_set d (fst p) (snd p)) a b"
    for a b :: "('a \<times> 'b) list"
    by (simp add: case_prod_beta')
  moreover have "wf_dict b \<Longrightarrow>
      map_of (foldl (\<lambda>d p. dict_set d (fst p) (snd p)) a b) = map_of a ++ map_of b"
    for a b :: "('a \<times> 'b) list"
  proof (induction b arbitrary: a)
    case Nil
    then show ?case by simp
  next
    case (Cons p b)
    then have "map_of b (fst p) = None" by (simp add: map_of_eq_None_iff)
    with Cons show ?case
      by (cases p) (auto simp: map_add_def fun_eq_iff split: option.splits)
  qed
  ultimately show "wf_dict b \<Longrightarrow> map_of (dict_merge a b) = map_of a ++ map_of b"
    by (simp add: dict_merge_def)
qed

lemma foldl_set_keys:
  "set (map fst (foldl (\<lambda>d k. dict_set d k ()) d xs)) = set (map fst d) \<union> set xs"
  by (induction xs arbitrary: d) (auto simp: AList.dom_update)

lemma fromkeys_set [simp]: "set (fromkeys xs) = set xs"
  using foldl_set_keys [of "[]" xs] by (simp add: fromkeys_def)

lemma fromkeys_distinct [simp]: "distinct (fromkeys xs)"
proof -
  have "wf_dict d \<Longrightarrow> wf_dict (foldl (\<lambda>d k. dict_set d k ()) d xs)" for d
    by (induction xs arbitrary: d) auto
  then show ?thesis by (simp add: fromkeys_def)
qed

lemma fromkeys_length: "length (fromkeys xs) \<le> length xs"
  by (metis card_length distinct_card fromkeys_distinct fromkeys_set)

section \<open>String methods\<close>

definition py_space :: "char \<Rightarrow> bool" where
  "py_space c = (let n = of_char c :: nat in (9 \<le> n \<and> n \<le> 13) \<or> (28 \<le> n \<and> n \<le> 32))"

definition lower_char :: "char \<Rightarrow> char" where
  "lower_char c = (let n = of_char c :: nat in if 65 \<le> n \<and> n \<le> 90 then char_of (n + 32) else c)"

definition upper_char :: "char \<Rightarrow> char" where
  "upper_char c = (let n = of_char c :: nat in if 97 \<le> n \<and> n \<le> 122 then char_of (n - 32) else c)"

definition py_lower :: "string \<Rightarrow> string" where
  "py_lower s = map lower_char s"

definition py_upper :: "string \<Rightarrow> string" where
  "py_upper s = map upper_char s"

definition py_lstrip :: "string \<Rightarrow> string" where
  "py_lstrip s = dropWhile py_space s"

definition py_rstrip :: "string \<Rightarrow> string" where
  "py_rstrip s = rev (dropWhile py_space (rev s))"

definition py_strip :: "string \<Rightarrow> string" where
  "py_strip s = py_rstrip (py_lstrip s)"

text \<open>\<open>s.split(sep)\<close> for a one-character separator and \<open>sep.join(xs)\<close>.\<close>

fun split_on :: "char \<Rightarrow> string \<Rightarrow> string list" where
  "split_on sep [] = [[]]"
| "split_on sep (c # cs) =
     (if c = sep then [] # split_on sep cs
      else (case split_on sep cs of [] \<Rightarrow> [[c]] | w # ws \<Rightarrow> (c # w) # ws))"

fun join :: "string \<Rightarrow> string list \<Rightarrow> string" where
  "join sep [] = []"
| "join sep [x] = x"
| "join sep (x # y # xs) = x @ sep @ join sep (y # xs)"

text \<open>\<open>re.findall\<close> of one repeated class: the maximal runs of its characters; with the class of
  non-spaces, \<open>s.split()\<close>.\<close>

function runs :: "(char \<Rightarrow> bool) \<Rightarrow> string \<Rightarrow> string list" where
  "runs P s = (case dropWhile (Not \<circ> P) s of
     [] \<Rightarrow> [] | c # cs \<Rightarrow> (c # takeWhile P cs) # runs P (dropWhile P cs))"
  by pat_completeness auto

lemma dropWhile_length: "dropWhile P s = c # cs \<Longrightarrow> length (dropWhile Q cs) < length s"
  by (metis Suc_le_lessD length_Cons length_dropWhile_le less_le_trans not_less_eq_eq le_trans)

termination runs
  by (relation "measure (length \<circ> snd)") (auto intro: dropWhile_length)

declare runs.simps [simp del]

lemma runs_Nil [simp]: "runs P [] = []"
  by (simp add: runs.simps)

lemma runs_skip: "\<not> P c \<Longrightarrow> runs P (c # cs) = runs P cs"
  by (subst (1 2) runs.simps) simp

lemma runs_take: "P c \<Longrightarrow> runs P (c # cs) = (c # takeWhile P cs) # runs P (dropWhile P cs)"
  by (subst runs.simps) simp

lemma runs_word:
  assumes "w \<noteq> []" "\<forall>c \<in> set w. P c" "\<not> P d"
  shows "runs P (w @ d # cs) = w # runs P cs"
proof (cases w)
  case (Cons c w')
  have "takeWhile P (w' @ d # cs) = w'" "dropWhile P (w' @ d # cs) = d # cs"
    using assms(2,3) Cons by (simp_all add: takeWhile_append2 dropWhile_append2)
  then show ?thesis using assms(2,3) Cons by (simp add: runs_take runs_skip)
qed (use assms in simp)

lemma runs_all:
  assumes "w \<noteq> []" "\<forall>c \<in> set w. P c" shows "runs P w = [w]"
proof (cases w)
  case (Cons c w')
  have t: "takeWhile P w' = w'" and d: "dropWhile P w' = []" and c: "P c" using assms(2) Cons by simp_all
  show ?thesis unfolding Cons runs_take [where P = P, OF c] t d by simp
qed (use assms in simp)

lemma runs_set: "w \<in> set (runs P s) \<Longrightarrow> w \<noteq> [] \<and> (\<forall>c \<in> set w. P c)"
proof (induction P s rule: runs.induct)
  case (1 P s)
  show ?case
  proof (cases "dropWhile (Not \<circ> P) s")
    case Nil
    have "runs P s = []" unfolding runs.simps [of P s] Nil by simp
    then show ?thesis using "1.prems" by simp
  next
    case (Cons c cs)
    have c: "P c" using hd_dropWhile [of "Not \<circ> P" s] Cons by simp
    have "w = c # takeWhile P cs \<or> w \<in> set (runs P (dropWhile P cs))"
      using "1.prems" unfolding runs.simps [of P s] Cons by simp
    then show ?thesis
    proof
      assume "w = c # takeWhile P cs"
      then show ?thesis using c set_takeWhileD [of _ P cs] by simp
    next
      assume "w \<in> set (runs P (dropWhile P cs))"
      then show ?thesis by (rule "1.IH" [OF Cons])
    qed
  qed
qed

text \<open>Words joined by one separator are read back.\<close>

lemma runs_join:
  assumes "\<not> P d" "\<forall>w \<in> set ws. w \<noteq> [] \<and> (\<forall>c \<in> set w. P c)"
  shows "runs P (join [d] ws) = ws"
  using assms by (induction "[d]" ws rule: join.induct) (simp_all add: runs_all runs_word)

definition py_words :: "string \<Rightarrow> string list" where
  "py_words s = runs (Not \<circ> py_space) s"

lemma lstrip_fix: "xs = [] \<or> \<not> py_space (hd xs) \<Longrightarrow> py_lstrip xs = xs"
  by (cases xs) (auto simp: py_lstrip_def)

lemma rstrip_fix: "xs = [] \<or> \<not> py_space (last xs) \<Longrightarrow> py_rstrip xs = xs"
  by (cases xs rule: rev_cases) (auto simp: py_rstrip_def)

lemma lstrip_hd: "py_lstrip s = [] \<or> \<not> py_space (hd (py_lstrip s))"
  using hd_dropWhile [of py_space s] by (auto simp: py_lstrip_def)

lemma rstrip_last: "py_rstrip s = [] \<or> \<not> py_space (last (py_rstrip s))"
  using hd_dropWhile [of py_space "rev s"] by (auto simp: py_rstrip_def last_rev)

lemma rstrip_prefix: "\<exists>t. s = py_rstrip s @ t"
  by (metis (no_types) py_rstrip_def rev_append rev_rev_ident takeWhile_dropWhile_id)

lemma py_strip_idem: "py_strip (py_strip s) = py_strip s"
proof -
  let ?u = "py_lstrip s"
  obtain t where t: "?u = py_rstrip ?u @ t" using rstrip_prefix by blast
  have "py_rstrip ?u = [] \<or> \<not> py_space (hd (py_rstrip ?u))"
    using lstrip_hd [of s] t by (metis append_is_Nil_conv hd_append2)
  then have "py_lstrip (py_rstrip ?u) = py_rstrip ?u" by (rule lstrip_fix)
  moreover have "py_rstrip (py_rstrip ?u) = py_rstrip ?u" by (rule rstrip_fix [OF rstrip_last])
  ultimately show ?thesis by (simp add: py_strip_def)
qed

lemma py_strip_Nil: "py_strip [] = []"
  by (simp add: py_strip_def py_rstrip_def py_lstrip_def)

fun starts_with :: "string \<Rightarrow> string \<Rightarrow> bool" where
  "starts_with s [] = True"
| "starts_with [] (p # ps) = False"
| "starts_with (c # cs) (p # ps) = (c = p \<and> starts_with cs ps)"

definition ends_with :: "string \<Rightarrow> string \<Rightarrow> bool" where
  "ends_with s p = starts_with (rev s) (rev p)"

text \<open>\<open>p in s\<close> on strings.\<close>

fun contains :: "string \<Rightarrow> string \<Rightarrow> bool" where
  "contains [] p = (p = [])"
| "contains (c # cs) p = (starts_with (c # cs) p \<or> contains cs p)"

lemma starts_with_iff: "starts_with s p \<longleftrightarrow> (\<exists>t. s = p @ t)"
  by (induction s p rule: starts_with.induct) auto

lemma split_on_nonempty [simp]: "split_on sep s \<noteq> []"
  by (cases s) (auto split: list.splits)

lemma split_on_join:
  "xs \<noteq> [] \<Longrightarrow> \<forall>x \<in> set xs. sep \<notin> set x \<Longrightarrow> split_on sep (join [sep] xs) = xs"
proof (induction xs rule: induct_list012)
  case 1
  then show ?case by simp
next
  case (2 x)
  then have "sep \<notin> set x" by simp
  then have "split_on sep x = [x]"
    by (induction x) auto
  then show ?case by simp
next
  case (3 x y xs)
  then have "sep \<notin> set x" by simp
  then have "split_on sep (x @ sep # t) = x # split_on sep t" for t
    by (induction x) auto
  with 3 show ?case by simp
qed

lemma join_inject:
  assumes "join [sep] xs = join [sep] ys" "length xs = length ys"
    and "\<forall>x \<in> set xs. sep \<notin> set x" "\<forall>y \<in> set ys. sep \<notin> set y"
  shows "xs = ys"
proof (cases "xs = []")
  case True
  with assms(2) show ?thesis by simp
next
  case False
  with assms(2) have "ys \<noteq> []" by auto
  with False assms split_on_join show ?thesis by metis
qed

section \<open>Text of integers\<close>

fun nat_str :: "nat \<Rightarrow> string" where
  "nat_str n = (if n < 10 then [char_of (48 + n)] else nat_str (n div 10) @ [char_of (48 + n mod 10)])"

declare nat_str.simps [simp del]

definition int_str :: "int \<Rightarrow> string" where
  "int_str i = (if i < 0 then CHR ''-'' # nat_str (nat (- i)) else nat_str (nat i))"

definition digit :: "char \<Rightarrow> bool" where
  "digit c = (48 \<le> (of_char c :: nat) \<and> (of_char c :: nat) \<le> 57)"

definition digits_val :: "string \<Rightarrow> nat" where
  "digits_val s = foldl (\<lambda>n c. n * 10 + (of_char c - 48)) 0 s"

lemma nat_str_digits: "nat_str n \<noteq> [] \<and> (\<forall>c \<in> set (nat_str n). digit c)"
proof (induction n rule: nat_str.induct)
  case (1 n)
  have "digit (char_of (48 + m))" if "m < 10" for m :: nat
    using that by (simp add: digit_def)
  with 1 show ?case
    by (cases "n < 10") (auto simp: nat_str.simps [of n])
qed

lemma digits_val_append: "digits_val (s @ [c]) = digits_val s * 10 + (of_char c - 48)"
  by (simp add: digits_val_def)

lemma digits_val_nat_str: "digits_val (nat_str n) = n"
proof (induction n rule: nat_str.induct)
  case (1 n)
  show ?case
  proof (cases "n < 10")
    case True
    then show ?thesis by (simp add: nat_str.simps [of n] digits_val_def)
  next
    case False
    with 1 show ?thesis
      by (simp add: nat_str.simps [of n] digits_val_append)
  qed
qed

lemma nat_str_inject [simp]: "nat_str m = nat_str n \<longleftrightarrow> m = n"
  by (metis digits_val_nat_str)

text \<open>\<open>int(text)\<close>: an optional sign and decimal digits, with surrounding white space
  (digit groups joined by underscores are not used by the services and are refused).\<close>

definition int_of_text :: "string \<Rightarrow> int option" where
  "int_of_text t =
     (let s = py_strip t in
      case s of
        [] \<Rightarrow> None
      | c # cs \<Rightarrow>
          (let body = (if c = CHR ''-'' \<or> c = CHR ''+'' then cs else s) in
           if body = [] \<or> \<not> list_all digit body then None
           else Some (if c = CHR ''-'' then - int (digits_val body) else int (digits_val body))))"

text \<open>\<open>int(v)\<close> and \<open>float(v)\<close>; \<open>None\<close> is a raised \<open>TypeError\<close> or \<open>ValueError\<close>.\<close>

definition trunc :: "rat \<Rightarrow> int" where
  "trunc r = (if r < 0 then \<lceil>r\<rceil> else \<lfloor>r\<rfloor>)"

definition py_int :: "pyval \<Rightarrow> int option" where
  "py_int v =
     (case v of
        PBool b \<Rightarrow> Some (if b then 1 else 0)
      | PInt i \<Rightarrow> Some i
      | PFloat r \<Rightarrow> Some (trunc r)
      | PStr s \<Rightarrow> int_of_text s
      | _ \<Rightarrow> None)"

definition py_float :: "pyrt \<Rightarrow> pyval \<Rightarrow> rat option" where
  "py_float R v =
     (case v of
        PBool b \<Rightarrow> Some (if b then 1 else 0)
      | PInt i \<Rightarrow> Some (of_int i)
      | PFloat r \<Rightarrow> Some r
      | PStr s \<Rightarrow> float_of R s
      | _ \<Rightarrow> None)"

definition py_str :: "pyrt \<Rightarrow> pyval \<Rightarrow> string" where
  "py_str R v =
     (case v of
        PNone \<Rightarrow> ''None''
      | PBool b \<Rightarrow> (if b then ''True'' else ''False'')
      | PInt i \<Rightarrow> int_str i
      | PStr s \<Rightarrow> s
      | _ \<Rightarrow> repr_of R v)"

lemma py_str_PStr [simp]: "py_str R (PStr s) = s"
  by (simp add: py_str_def)

text \<open>A concrete library for the witnesses.\<close>

definition demo_rt :: pyrt where
  "demo_rt = \<lparr>repr_of = (\<lambda>_. ''?''), float_of = (\<lambda>_. None), iso_of = (\<lambda>_. None), json_of = (\<lambda>_. ''{}'')\<rparr>"

section \<open>Results\<close>

text \<open>A raised exception is \<open>Inl\<close>; the next statement runs on the value of the last one.\<close>

definition res_bind :: "'e + 'a \<Rightarrow> ('a \<Rightarrow> 'e + 'b) \<Rightarrow> 'e + 'b" where
  "res_bind r f = (case r of Inl e \<Rightarrow> Inl e | Inr a \<Rightarrow> f a)"

definition is_ok :: "'e + 'a \<Rightarrow> bool" where
  "is_ok r = (case r of Inl _ \<Rightarrow> False | Inr _ \<Rightarrow> True)"

lemma res_bind_simps [simp]: "res_bind (Inl e) f = Inl e" "res_bind (Inr a) f = f a"
  by (simp_all add: res_bind_def)

lemma res_bind_Inr: "res_bind r f = Inr b \<longleftrightarrow> (\<exists>a. r = Inr a \<and> f a = Inr b)"
  by (simp add: res_bind_def split: sum.split)

lemma res_bind_InrE [elim!]:
  assumes "res_bind r f = Inr b"
  obtains a where "r = Inr a" "f a = Inr b"
  using assms by (auto simp: res_bind_Inr)

section \<open>Bounded tails\<close>

text \<open>\<open>xs[-n:]\<close> for positive \<open>n\<close>: the last \<open>n\<close> elements.\<close>

definition last_n :: "nat \<Rightarrow> 'a list \<Rightarrow> 'a list" where
  "last_n n xs = drop (length xs - n) xs"

lemma length_last_n [simp]: "length (last_n n xs) = min n (length xs)"
  by (simp add: last_n_def)

lemma last_n_short [simp]: "length xs \<le> n \<Longrightarrow> last_n n xs = xs"
  by (simp add: last_n_def)

lemma set_last_n: "set (last_n n xs) \<subseteq> set xs"
  by (simp add: last_n_def set_drop_subset)

lemma last_n_snoc: "0 < n \<Longrightarrow> last_n n (xs @ [x]) = last_n (n - 1) xs @ [x]"
  by (cases n) (auto simp: last_n_def)

end
