(* ===== verification/Disk_Spool.thy ===== *)
theory Disk_Spool
  imports Py_Prelude
begin

text \<open>
  The store-and-forward spool of the edge publisher (\<open>services/edge_ingest/disk_spool.py\<close>): a
  file \<open>pending.ndjson\<close> with one JSON record per line, the key and the value of a Kafka message
  in Base64. The file is the list of its lines, \<open>None\<close> when it does not exist; a line is a JSON
  document, or what an interrupted write leaves behind. The interface the publisher relies on is
  the locale \<open>event_spool\<close>.
\<close>

type_synonym msg = "string \<times> string \<times> string"  \<comment> \<open>topic, key, value\<close>

section \<open>Base64\<close>

definition b64_char :: "nat \<Rightarrow> char" where
  "b64_char n =
     (if n < 26 then char_of (65 + n)
      else if n < 52 then char_of (97 + (n - 26))
      else if n < 62 then char_of (48 + (n - 52))
      else if n = 62 then CHR ''+'' else CHR ''/'')"

definition b64_val :: "char \<Rightarrow> nat option" where
  "b64_val c =
     (let n = of_char c :: nat in
      if 65 \<le> n \<and> n \<le> 90 then Some (n - 65)
      else if 97 \<le> n \<and> n \<le> 122 then Some (n - 97 + 26)
      else if 48 \<le> n \<and> n \<le> 57 then Some (n - 48 + 52)
      else if c = CHR ''+'' then Some 62
      else if c = CHR ''/'' then Some 63 else None)"

fun b64encode :: "string \<Rightarrow> string" where
  "b64encode [] = []"
| "b64encode [a] =
     (let x = of_char a :: nat in
      [b64_char (x div 4), b64_char (x mod 4 * 16), CHR ''='', CHR ''=''])"
| "b64encode [a, b] =
     (let x = of_char a :: nat; y = of_char b :: nat in
      [b64_char (x div 4), b64_char (x mod 4 * 16 + y div 16), b64_char (y mod 16 * 4), CHR ''=''])"
| "b64encode (a # b # c # r) =
     (let x = of_char a :: nat; y = of_char b :: nat; z = of_char c :: nat in
      b64_char (x div 4) # b64_char (x mod 4 * 16 + y div 16)
        # b64_char (y mod 16 * 4 + z div 64) # b64_char (z mod 64) # b64encode r)"

text \<open>Decoding of padded text; \<open>None\<close> is \<open>binascii.Error\<close>.\<close>

fun b64decode :: "string \<Rightarrow> string option" where
  "b64decode [] = Some []"
| "b64decode (p # q # r # s # rest) =
     (case (b64_val p, b64_val q) of
        (Some i, Some j) \<Rightarrow>
          (if r = CHR ''='' \<and> s = CHR ''='' then Some [char_of (i * 4 + j div 16)]
           else (case b64_val r of
             None \<Rightarrow> None
           | Some k \<Rightarrow>
               (if s = CHR ''='' then
                  Some [char_of (i * 4 + j div 16), char_of (j mod 16 * 16 + k div 4)]
                else (case b64_val s of
                  None \<Rightarrow> None
                | Some l \<Rightarrow>
                    map_option (\<lambda>t. char_of (i * 4 + j div 16) # char_of (j mod 16 * 16 + k div 4)
                                 # char_of (k mod 4 * 64 + l) # t)
                      (b64decode rest)))))
      | _ \<Rightarrow> None)"
| "b64decode _ = None"

lemma char_nat_less: "(of_char c :: nat) < 256"
proof -
  have "(of_char c :: nat) \<in> {0..<256}"
    by (subst range_nat_of_char [symmetric]) (rule rangeI)
  then show ?thesis by simp
qed

lemma b64_val_char: "n < 64 \<Longrightarrow> b64_val (b64_char n) = Some n"
proof -
  assume "n < 64"
  then consider "n < 26" | "26 \<le> n" "n < 52" | "52 \<le> n" "n < 62" | "n = 62" | "n = 63"
    by linarith
  then show ?thesis
    by cases (auto simp: b64_val_def b64_char_def Let_def)
qed

lemma b64_char_pad: "n < 64 \<Longrightarrow> b64_char n \<noteq> CHR ''=''"
  using b64_val_char [of n] by (auto simp: b64_val_def)

lemma char_div_bounds:
  "(of_char a :: nat) div 4 < 64" "(of_char a :: nat) div 16 < 16" "(of_char a :: nat) div 64 < 4"
  using char_nat_less [of a] by (simp_all add: less_mult_imp_div_less)

lemma char_mod_bounds:
  "(of_char a :: nat) mod 4 < 4" "(of_char a :: nat) mod 16 < 16" "(of_char a :: nat) mod 64 < 64"
  by simp_all

lemma sextet_bounds:
  "(of_char a :: nat) div 4 < 64"
  "(of_char a :: nat) mod 4 * 16 + (of_char b :: nat) div 16 < 64"
  "(of_char a :: nat) mod 16 * 4 + (of_char b :: nat) div 64 < 64"
  "(of_char a :: nat) mod 64 < 64"
  "(of_char a :: nat) mod 4 * 16 < 64"
  "(of_char a :: nat) mod 16 * 4 < 64"
  using char_div_bounds [of a] char_div_bounds [of b] char_mod_bounds [of a] by linarith+

lemma regroup:
  "(of_char b :: nat) div 16 div 16 = 0"
  "(of_char b :: nat) div 16 mod 16 = of_char b div 16"
  "(of_char b :: nat) div 64 div 4 = 0"
  "(of_char b :: nat) div 64 mod 4 = of_char b div 64"
  using char_div_bounds [of b] by simp_all

lemmas b64_facts = b64_val_char b64_char_pad sextet_bounds regroup

lemma b64_roundtrip: "b64decode (b64encode s) = Some s"
proof (induction s rule: b64encode.induct)
  case 1
  then show ?case by simp
next
  case (2 a)
  then show ?case by (simp add: Let_def b64_facts)
next
  case (3 a b)
  then show ?case by (simp add: Let_def b64_facts)
next
  case (4 a b c r)
  then show ?case by (simp add: Let_def b64_facts)
qed

section \<open>The spool file\<close>

text \<open>
  \<open>Doc\<close> is a complete line holding a JSON object; \<open>Partial\<close> is a last line cut short by a
  crash (a strict prefix of a record, without its newline); \<open>Garbled\<close> is a complete line that is
  no JSON document.
\<close>

datatype spool_line = Doc pydict | Partial | Garbled

type_synonym spool = "spool_line list option"

definition spool_record :: "msg \<Rightarrow> pydict" where
  "spool_record m = (case m of (topic, key, value) \<Rightarrow>
     [(''topic'', PStr topic), (''key'', PStr (b64encode key)), (''value'', PStr (b64encode value))])"

definition spool_lines :: "spool \<Rightarrow> spool_line list" where
  "spool_lines s = (case s of None \<Rightarrow> [] | Some ls \<Rightarrow> ls)"

text \<open>Appending to a file whose last line was cut short lengthens that line.\<close>

definition spool_append :: "spool \<Rightarrow> msg \<Rightarrow> spool" where
  "spool_append s m =
     (let ls = spool_lines s in
      if ls \<noteq> [] \<and> last ls = Partial then Some (butlast ls @ [Garbled])
      else Some (ls @ [Doc (spool_record m)]))"

text \<open>The process dies while \<open>append\<close> writes.\<close>

definition spool_crash_append :: "spool \<Rightarrow> spool" where
  "spool_crash_append s =
     (let ls = spool_lines s in
      if ls \<noteq> [] \<and> last ls = Partial then Some ls else Some (ls @ [Partial]))"

fun parse_lines :: "spool_line list \<Rightarrow> pydict list option" where
  "parse_lines [] = Some []"
| "parse_lines (Doc d # ls) = map_option ((#) d) (parse_lines ls)"
| "parse_lines (Partial # ls) = None"
| "parse_lines (Garbled # ls) = None"

text \<open>\<open>None\<close>: \<open>json.loads\<close> raises on a line.\<close>

definition spool_read_all :: "spool \<Rightarrow> pydict list option" where
  "spool_read_all s = parse_lines (spool_lines s)"

definition spool_count :: "spool \<Rightarrow> nat" where
  "spool_count s = length (spool_lines s)"

definition spool_replace :: "spool \<Rightarrow> pydict list \<Rightarrow> spool" where
  "spool_replace s records = (if records = [] then None else Some (map Doc records))"

definition spool_decode :: "pydict \<Rightarrow> msg option" where
  "spool_decode d =
     (case (map_of d ''topic'', map_of d ''key'', map_of d ''value'') of
        (Some (PStr t), Some (PStr k), Some (PStr v)) \<Rightarrow>
          (case (b64decode k, b64decode v) of
             (Some k', Some v') \<Rightarrow> Some (t, k', v')
           | _ \<Rightarrow> None)
      | _ \<Rightarrow> None)"

lemma spool_decode_record [simp]: "spool_decode (spool_record m) = Some m"
  by (cases m) (simp add: spool_decode_def spool_record_def b64_roundtrip)

lemma parse_lines_append:
  "parse_lines (xs @ ys) =
     (case parse_lines xs of None \<Rightarrow> None | Some a \<Rightarrow> map_option ((@) a) (parse_lines ys))"
  by (cases "parse_lines ys"; induction xs rule: parse_lines.induct) (auto split: option.splits)

lemma parse_lines_docs [simp]: "parse_lines (map Doc ds) = Some ds"
  by (induction ds) auto

lemma parse_lines_Some: "parse_lines ls = Some ds \<Longrightarrow> ls = map Doc ds"
  by (induction ls arbitrary: ds rule: parse_lines.induct) auto

section \<open>The interface the publisher relies on\<close>

locale event_spool =
  fixes append :: "'s \<Rightarrow> 'm \<Rightarrow> 's"
    and read_all :: "'s \<Rightarrow> 'r list option"
    and replace_all :: "'s \<Rightarrow> 'r list \<Rightarrow> 's"
    and count :: "'s \<Rightarrow> nat"
    and decode :: "'r \<Rightarrow> 'm option"
    and encode :: "'m \<Rightarrow> 'r"
  assumes decode_encode: "decode (encode m) = Some m"
    and read_append: "read_all s = Some rs \<Longrightarrow> read_all (append s m) = Some (rs @ [encode m])"
    and read_replace: "read_all (replace_all s rs) = Some rs"
    and count_read: "read_all s = Some rs \<Longrightarrow> count s = length rs"
begin

text \<open>Several appends in a row.\<close>

lemma read_append_all:
  "read_all s = Some rs \<Longrightarrow> read_all (foldl append s ms) = Some (rs @ map encode ms)"
  by (induction ms arbitrary: s rs) (simp_all add: read_append)

lemma decode_append_all:
  assumes "read_all s = Some (map encode ns)"
  shows "map_option (map decode) (read_all (foldl append s ms)) = Some (map Some (ns @ ms))"
  using read_append_all [OF assms] by (simp add: decode_encode)

lemma replace_append:
  "read_all (append (replace_all s rs) m) = Some (rs @ [encode m])"
  by (rule read_append [OF read_replace])

lemma count_append:
  "read_all s = Some rs \<Longrightarrow> count (append s m) = Suc (count s)"
  using count_read read_append by fastforce

end

lemma read_append_doc:
  assumes "spool_read_all s = Some rs"
  shows "spool_read_all (spool_append s m) = Some (rs @ [spool_record m])"
proof -
  have ls: "spool_lines s = map Doc rs"
    using assms by (auto simp: spool_read_all_def dest: parse_lines_Some)
  have "\<not> (map Doc rs \<noteq> [] \<and> last (map Doc rs) = Partial)"
    by (auto simp: last_map)
  with ls have "spool_append s m = Some (map Doc (rs @ [spool_record m]))"
    by (simp add: spool_append_def Let_def)
  then show ?thesis
    by (simp add: spool_read_all_def spool_lines_def del: map_append)
qed

interpretation disk: event_spool spool_append spool_read_all spool_replace spool_count
  spool_decode spool_record
proof
  show "spool_read_all (spool_append s m) = Some (rs @ [spool_record m])"
    if "spool_read_all s = Some rs" for s rs m
    using that by (rule read_append_doc)
  show "spool_read_all (spool_replace s rs) = Some rs" for s rs
    by (simp add: spool_read_all_def spool_replace_def spool_lines_def)
  show "spool_count s = length rs" if "spool_read_all s = Some rs" for s rs
    using that by (auto simp: spool_read_all_def spool_count_def dest: parse_lines_Some)
qed simp

section \<open>Properties\<close>

text \<open>
  What the publisher spools comes back: after any sequence of appends to a readable
  spool, \<open>read_all\<close> succeeds, and decoding its records gives what was there before followed by
  the appended messages, in order.
\<close>

theorem spool_fifo_roundtrip:
  assumes "spool_read_all s = Some (map spool_record ns)"
  shows "map_option (map spool_decode) (spool_read_all (foldl spool_append s ms))
         = Some (map Some (ns @ ms))"
  using assms by (rule disk.decode_append_all)

theorem spool_fifo_roundtrip_witness:
  "map_option (map spool_decode)
     (spool_read_all (foldl spool_append None [(''t'', ''k'', ''abc''), (''u'', '''', ''x'')]))
   = Some [Some (''t'', ''k'', ''abc''), Some (''u'', '''', ''x'')]"
proof -
  have "spool_read_all None = Some (map spool_record [])"
    by (simp add: spool_read_all_def spool_lines_def)
  from spool_fifo_roundtrip [OF this, of "[(''t'', ''k'', ''abc''), (''u'', '''', ''x'')]"]
  show ?thesis by simp
qed

text \<open>A line that does not parse stays in the file under every later append.\<close>

lemma append_keeps_bad:
  assumes "spool_read_all s = None"
  shows "spool_read_all (spool_append s m) = None"
proof (cases "spool_lines s \<noteq> [] \<and> last (spool_lines s) = Partial")
  case True
  then show ?thesis
    by (simp add: spool_append_def spool_read_all_def spool_lines_def Let_def
        parse_lines_append split: option.splits)
next
  case False
  then have "spool_lines (spool_append s m) = spool_lines s @ [Doc (spool_record m)]"
    by (simp add: spool_append_def Let_def spool_lines_def)
  with assms show ?thesis
    by (simp add: spool_read_all_def parse_lines_append)
qed

text \<open>
  A crash in the middle of an append leaves a spool that no later append repairs:
  \<open>read_all\<close> raises from then on (until the file is replaced, which the publisher does only after
  a successful \<open>read_all\<close>), although the module calls the spool crash-tolerant.
\<close>

theorem spool_crash_unreadable:
  "spool_read_all (foldl spool_append (spool_crash_append s) ms) = None"
proof -
  have "spool_read_all (spool_crash_append s) = None"
  proof (cases "spool_lines s \<noteq> [] \<and> last (spool_lines s) = Partial")
    case True
    then have "spool_lines s = butlast (spool_lines s) @ [Partial]"
      by (metis append_butlast_last_id)
    then have "parse_lines (spool_lines s) = None"
      by (metis option.case_eq_if option.map(1) parse_lines.simps(3) parse_lines_append)
    with True show ?thesis
      by (auto simp: spool_crash_append_def Let_def spool_read_all_def spool_lines_def
          split: option.splits)
  next
    case False
    then have "spool_lines (spool_crash_append s) = spool_lines s @ [Partial]"
      by (simp add: spool_crash_append_def Let_def spool_lines_def)
    then show ?thesis
      by (simp add: spool_read_all_def parse_lines_append split: option.splits)
  qed
  then show ?thesis
    by (induction ms rule: rev_induct) (auto simp: append_keeps_bad)
qed

end
