(* ===== verification/Stream_Scope.thy ===== *)
theory Stream_Scope
  imports Py_Prelude
begin

text \<open>
  Stream identity and normalization: \<open>services/common/stream_scope.py\<close> (the partition key of an
  event), \<open>services/common/device_compat.py\<close> (protocol profiles, legacy tag names) and
  \<open>services/common/normalize.py\<close> (the flattened event of the runtime and the legacy IoT event).
  Events are dictionaries: an event object is turned into its dictionary by \<open>model_dump\<close> first.
\<close>

section \<open>Protocol profiles and legacy tag names\<close>

text \<open>Two profiles write their note without the comma that would make it a tuple.\<close>

datatype pp_note = NTuple "string list" | NText string

record protocol_profile =
  pp_protocol :: string
  pp_transport :: string
  pp_devices :: "string list"
  pp_strengths :: "string list"
  pp_edge_cases :: "string list"
  pp_notes :: pp_note

definition PROTOCOL_PROFILES :: "(string \<times> protocol_profile) list" where
  "PROTOCOL_PROFILES =
     [(''opcua'',
        \<lparr>pp_protocol = ''opcua'', pp_transport = ''TCP'',
         pp_devices =
           [''Siemens'', ''Beckhoff'', ''Schneider'', ''B&R'', ''Phoenix Contact'', ''industrial sensors with UA servers''],
         pp_strengths =
           [''rich information models'', ''built-in security and discovery'', ''good fit for mixed vendors and multi-site integration''],
         pp_edge_cases =
           [''namespace and node-id drift across vendors'', ''certificate trust management'', ''subscription rate and sampling limits on small PLCs''],
         pp_notes = NTuple [''best default for heterogeneous PLC fleets'', ''works well when vendor-specific tags must be normalized into a common model'']\<rparr>),
      (''modbus'',
        \<lparr>pp_protocol = ''modbus'', pp_transport = ''TCP'',
         pp_devices =
           [''Modicon/Schneider'', ''generic PLCs'', ''gateways'', ''meters'', ''simple sensors''],
         pp_strengths =
           [''simple register model'', ''widely supported by PLCs and meters'', ''easy to simulate and bridge''],
         pp_edge_cases =
           [''endianness and word-order mismatches'', ''ambiguous register maps'', ''polling latency and register churn''],
         pp_notes = NTuple [''good compatibility baseline for brownfield plants'', ''best used behind a gateway when multiple devices share one bus'']\<rparr>),
      (''modbus_rtu'',
        \<lparr>pp_protocol = ''modbus_rtu'', pp_transport = ''serial'',
         pp_devices =
           [''legacy PLCs'', ''RTUs'', ''serial meters'', ''remote I/O'', ''field instruments''],
         pp_strengths =
           [''cheap legacy coverage'', ''works over RS-485 plant wiring'', ''useful for brownfield retrofits''],
         pp_edge_cases =
           [''baud and framing mismatches'', ''bus contention on shared serial trunks'', ''long cable noise and timing sensitivity''],
         pp_notes = NTuple [''important for older industrial units'', ''usually benefits from a protocol gateway for scalable ingestion'']\<rparr>),
      (''mqtt'',
        \<lparr>pp_protocol = ''mqtt'', pp_transport = ''TCP'',
         pp_devices =
           [''edge gateways'', ''IIoT sensors'', ''vendor bridges'', ''SPC/utility devices''],
         pp_strengths =
           [''lightweight publish/subscribe'', ''good for edge-to-platform fan-out'', ''easy to bridge across sites''],
         pp_edge_cases =
           [''topic design drift'', ''QoS semantics across brokers'', ''payload shape variation between vendors''],
         pp_notes = NTuple [''works well when PLCs publish through an edge gateway'', ''Sparkplug B is preferred when a stricter industrial MQTT contract is needed'']\<rparr>),
      (''sparkplug_b'',
        \<lparr>pp_protocol = ''sparkplug_b'', pp_transport = ''MQTT'',
         pp_devices =
           [''Ignition ecosystems'', ''sparkplug-enabled gateways'', ''IIoT edge nodes''],
         pp_strengths =
           [''structured MQTT telemetry'', ''birth/death model for device lifecycle'', ''good for fleet-wide consistency''],
         pp_edge_cases =
           [''protobuf/schema compatibility'', ''birth/death state handling'', ''payload version drift''],
         pp_notes = NTuple [''better than plain MQTT when device identity and lifecycle matter'', ''good fit for large multi-site rollouts with edge gateways'']\<rparr>),
      (''api'',
        \<lparr>pp_protocol = ''api'', pp_transport = ''HTTP'',
         pp_devices =
           [''external systems'', ''MES/ERP bridges'', ''manual integrations''],
         pp_strengths =
           [''integration flexibility'', ''simple operator-driven ingestion''],
         pp_edge_cases =
           [''caller responsibility for payload correctness'', ''rate limiting and idempotency''],
         pp_notes = NText ''not a device protocol, but a useful ingest contract for integrations''\<rparr>),
      (''dataset'',
        \<lparr>pp_protocol = ''dataset'', pp_transport = ''file/batch'',
         pp_devices =
           [''replay packs'', ''benchmark inputs'', ''historical exports''],
         pp_strengths =
           [''repeatable testing'', ''easy benchmark generation''],
         pp_edge_cases =
           [''schema drift'', ''timestamp normalization''],
         pp_notes = NText ''used for offline replay and benchmarking''\<rparr>),
      (''mock'',
        \<lparr>pp_protocol = ''mock'', pp_transport = ''local'',
         pp_devices =
           [''test rigs'', ''protocol gateways''],
         pp_strengths =
           [''fast local smoke tests'', ''deterministic benchmark input''],
         pp_edge_cases =
           [''not representative of field wiring''],
         pp_notes = NText ''useful for CI and local validation''\<rparr>)]"

definition DEVICE_PROFILES :: "(string \<times> pydict) list" where
  "DEVICE_PROFILES =
     [(''amd_versal_v1'',
       [(''name'', PStr ''AMD Versal gateway''),
        (''protocols'', PList [PStr ''sparkplug_b'', PStr ''opcua'']),
        (''telemetry'', PList [PStr ''health'', PStr ''dma'', PStr ''kernel_latency'',
           PStr ''inference'', PStr ''condition_monitoring'']),
        (''artifact_modalities'', PList [PStr ''waveform'', PStr ''image'', PStr ''video'', PStr ''tensor'']),
        (''control_plane'',
           PStr ''gateway-owned; Ravan telemetry and artifact ingestion is read-only'')])]"

definition supported_protocols :: "string list" where
  "supported_protocols = map fst PROTOCOL_PROFILES"

definition device_profile :: "string \<Rightarrow> pydict option" where
  "device_profile p = map_of DEVICE_PROFILES (py_lower (py_strip p))"

definition find_protocol_profile :: "string \<Rightarrow> protocol_profile option" where
  "find_protocol_profile p = map_of PROTOCOL_PROFILES (py_lower (py_strip p))"

definition tag_to_legacy_field :: "string \<Rightarrow> string option" where
  "tag_to_legacy_field tag =
     (let lowered = py_lower tag in
      if contains lowered ''temp'' then Some ''temperature_c''
      else if contains lowered ''vibration'' then Some ''vibration_mm_s''
      else if contains lowered ''pressure'' then Some ''pressure_bar''
      else None)"

definition unit_for_tag :: "string \<Rightarrow> string" where
  "unit_for_tag tag =
     (let lowered = py_lower tag in
      if contains lowered ''temp'' then ''c''
      else if contains lowered ''vibration'' then ''mm/s''
      else if contains lowered ''pressure'' then ''bar''
      else [])"

section \<open>Stream scope\<close>

record stream_scope =
  sc_site :: string
  sc_line :: string
  sc_source_protocol :: string
  sc_source_id :: string
  sc_asset_id :: string
  sc_tag :: string
  sc_project_id :: string

definition scope_to_dict :: "stream_scope \<Rightarrow> pydict" where
  "scope_to_dict s =
     [(''site'', PStr (sc_site s)), (''line'', PStr (sc_line s)),
      (''source_protocol'', PStr (sc_source_protocol s)), (''source_id'', PStr (sc_source_id s)),
      (''asset_id'', PStr (sc_asset_id s)), (''tag'', PStr (sc_tag s)),
      (''project_id'', PStr (sc_project_id s))]"

text \<open>\<open>str(get(k1) or get(k2) or ... or default)\<close>.\<close>

definition first_str :: "pyrt \<Rightarrow> pydict \<Rightarrow> string list \<Rightarrow> string \<Rightarrow> string" where
  "first_str R d ks dflt = py_str R (foldr (\<lambda>k v. py_or (pget d k) v) ks (PStr dflt))"

definition derive_stream_scope :: "pyrt \<Rightarrow> pydict \<Rightarrow> stream_scope" where
  "derive_stream_scope R e =
     \<lparr>sc_site = first_str R e [''site'', ''site_id''] ''demo-site'',
      sc_line = first_str R e [''line'', ''line_id''] ''line-01'',
      sc_source_protocol = first_str R e [''source_protocol''] ''unknown'',
      sc_source_id = first_str R e [''source_id'', ''plc_id'', ''device_id'', ''asset_id''] ''unknown-source'',
      sc_asset_id = first_str R e [''asset_id'', ''device_id''] ''unknown-asset'',
      sc_tag = first_str R e [''tag''] ''unknown'',
      sc_project_id = first_str R e [''project_id'', ''site'', ''site_id''] []\<rparr>"

definition scope_key :: "stream_scope \<Rightarrow> string" where
  "scope_key s = join ''|''
     [sc_project_id s, sc_site s, sc_line s, sc_source_protocol s, sc_source_id s, sc_asset_id s, sc_tag s]"

text \<open>
  The partition key of a dictionary. \<open>native\<close> is the optional compiled accelerator
  (\<open>None\<close> when it is not loaded or raises).
\<close>

definition stream_partition_key :: "pyrt \<Rightarrow> (pydict \<Rightarrow> string option) \<Rightarrow> pydict \<Rightarrow> string" where
  "stream_partition_key R native e =
     (case native e of
        Some k \<Rightarrow> k
      | None \<Rightarrow> join ''|''
          [first_str R e [''project_id'', ''site'', ''site_id''] [],
           first_str R e [''site'', ''site_id''] ''demo-site'',
           first_str R e [''line'', ''line_id''] ''line-01'',
           first_str R e [''source_protocol''] ''unknown'',
           first_str R e [''source_id'', ''plc_id'', ''device_id'', ''asset_id''] ''unknown-source'',
           first_str R e [''asset_id'', ''device_id''] ''unknown-asset'',
           first_str R e [''tag''] ''unknown''])"

definition correlation_group_key :: "pyrt \<Rightarrow> pydict \<Rightarrow> string" where
  "correlation_group_key R e = join ''|''
     [first_str R e [''project_id'', ''site'', ''site_id''] [],
      first_str R e [''site'', ''site_id''] ''demo-site'',
      first_str R e [''asset_id'', ''device_id''] ''unknown-asset'',
      first_str R e [''tag''] ''unknown'']"

definition bar_free :: "stream_scope \<Rightarrow> bool" where
  "bar_free s \<longleftrightarrow> list_all (\<lambda>t. CHR ''|'' \<notin> set t)
     [sc_project_id s, sc_site s, sc_line s, sc_source_protocol s, sc_source_id s, sc_asset_id s, sc_tag s]"

lemma partition_key_scope:
  "native e = None \<Longrightarrow> stream_partition_key R native e = scope_key (derive_stream_scope R e)"
  by (simp add: stream_partition_key_def scope_key_def derive_stream_scope_def)

lemma group_key_scope:
  "correlation_group_key R e =
     (let s = derive_stream_scope R e in join ''|'' [sc_project_id s, sc_site s, sc_asset_id s, sc_tag s])"
  by (simp add: correlation_group_key_def derive_stream_scope_def)

lemma scope_key_inject:
  assumes "scope_key s = scope_key t" "bar_free s" "bar_free t"
  shows "s = t"
proof -
  have "[sc_project_id s, sc_site s, sc_line s, sc_source_protocol s, sc_source_id s, sc_asset_id s, sc_tag s]
      = [sc_project_id t, sc_site t, sc_line t, sc_source_protocol t, sc_source_id t, sc_asset_id t, sc_tag t]"
    by (rule join_inject [of "CHR ''|''"])
      (use assms in \<open>simp_all add: scope_key_def bar_free_def\<close>)
  then show ?thesis
    by (simp add: stream_scope.equality)
qed

text \<open>The source of every scope field is the first truthy candidate, so no identity field is empty.\<close>

lemma first_str_nonempty:
  assumes "dflt \<noteq> []" "\<And>k s. map_of e k = Some s \<Longrightarrow> truthy s \<Longrightarrow> py_str R s \<noteq> []"
  shows "first_str R e ks dflt \<noteq> []"
proof (induction ks)
  case Nil
  then show ?case using assms(1) by (simp add: first_str_def)
next
  case (Cons k ks)
  show ?case
  proof (cases "truthy (pget e k)")
    case True
    then obtain s where "map_of e k = Some s" "truthy s" "pget e k = s"
      by (cases "map_of e k") (auto simp: pget_def dict_getd_def)
    with assms(2) True show ?thesis by (simp add: first_str_def)
  next
    case False
    with Cons show ?thesis by (simp add: first_str_def)
  qed
qed

section \<open>Normalization\<close>

text \<open>\<open>float(value)\<close>, or 0 where it raises.\<close>

definition to_float :: "pyrt \<Rightarrow> pyval \<Rightarrow> rat" where
  "to_float R v = (case py_float R v of None \<Rightarrow> 0 | Some r \<Rightarrow> r)"

definition normalized_base :: "pyrt \<Rightarrow> pydict \<Rightarrow> pydict" where
  "normalized_base R e =
     [(''event_id'', pget e ''event_id''),
      (''device_id'', dict_getd e ''asset_id'' (PStr ''unknown-asset'')),
      (''asset_id'', dict_getd e ''asset_id'' (PStr ''unknown-asset'')),
      (''site_id'', dict_getd e ''site'' (PStr ''demo-site'')),
      (''timestamp'', py_or (pget e ''ts_source'') (pget e ''ts_ingest'')),
      (''source_protocol'', dict_getd e ''source_protocol'' (PStr ''unknown'')),
      (''quality'', dict_getd e ''quality'' (PStr ''unknown'')),
      (''schema_version'', dict_getd e ''schema_version'' (PInt 1)),
      (''temperature_c'', PFloat 0),
      (''vibration_mm_s'', PFloat 0),
      (''pressure_bar'', PFloat 0),
      (''tag'', PStr (py_str R (dict_getd e ''tag'' (PStr [])))),
      (''value'', PFloat (to_float R (dict_getd e ''value'' (PInt 0)))),
      (''unit'', dict_getd e ''unit'' (PStr [])),
      (''fault_type'', dict_getd e ''fault_type'' (PStr ''normal'')),
      (''scenario_id'', dict_getd e ''scenario_id'' (PStr ''sc-000'')),
      (''ground_truth_severity'', dict_getd e ''ground_truth_severity'' (PStr ''normal''))]"

definition normalize_runtime_event :: "pyrt \<Rightarrow> pydict \<Rightarrow> pydict" where
  "normalize_runtime_event R e =
     (if dict_has e ''device_id'' then e
      else (case tag_to_legacy_field (py_str R (dict_getd e ''tag'' (PStr []))) of
              Some f \<Rightarrow> dict_set (normalized_base R e) f
                          (PFloat (to_float R (dict_getd e ''value'' (PInt 0))))
            | None \<Rightarrow> normalized_base R e))"

lemma normalized_base_zero:
  "f \<in> {''temperature_c'', ''vibration_mm_s'', ''pressure_bar''} \<Longrightarrow>
     map_of (normalized_base R e) f = Some (PFloat 0)"
  by (auto simp: normalized_base_def)

lemma normalized_base_device: "dict_has (normalized_base R e) ''device_id''"
  by (simp add: normalized_base_def dict_has_def)

definition to_legacy_iot_event :: "pyrt \<Rightarrow> pydict \<Rightarrow> pydict" where
  "to_legacy_iot_event R e =
     (let tag = py_str R (dict_getd e ''tag'' (PStr []));
          v = dict_getd e ''value'' (PInt 0);
          base =
            [(''event_id'', pget e ''event_id''),
             (''device_id'', dict_getd e ''asset_id'' (PStr ''unknown-asset'')),
             (''site_id'', dict_getd e ''site'' (PStr ''demo-site'')),
             (''timestamp'', pget e ''ts_source''),
             (''source_protocol'', dict_getd e ''source_protocol'' (PStr ''unknown'')),
             (''quality'', dict_getd e ''quality'' (PStr ''unknown'')),
             (''schema_version'', dict_getd e ''schema_version'' (PInt 1)),
             (''temperature_c'', PFloat 0),
             (''vibration_mm_s'', PFloat 0),
             (''pressure_bar'', PFloat 0)]
      in case tag_to_legacy_field tag of
           Some f \<Rightarrow> dict_set base f (PFloat (to_float R v))
         | None \<Rightarrow> base)"

lemma legacy_field_cases:
  "tag_to_legacy_field t \<in> {None, Some ''temperature_c'', Some ''vibration_mm_s'', Some ''pressure_bar''}"
  by (simp add: tag_to_legacy_field_def Let_def)

lemma unit_for_tag_iff: "unit_for_tag t = [] \<longleftrightarrow> tag_to_legacy_field t = None"
  by (simp add: unit_for_tag_def tag_to_legacy_field_def Let_def)

section \<open>Properties\<close>

text \<open>
  The partition key identifies the stream: without the native accelerator, two events
  whose scope fields contain no vertical bar get the same key exactly when they have the same
  stream scope, and then they also fall into the same correlation group.
\<close>

theorem partition_key_identifies_stream:
  assumes "native e = None" "native f = None"
    and "bar_free (derive_stream_scope R e)" "bar_free (derive_stream_scope R f)"
  shows "(stream_partition_key R native e = stream_partition_key R native f
            \<longleftrightarrow> derive_stream_scope R e = derive_stream_scope R f)
       \<and> (stream_partition_key R native e = stream_partition_key R native f
            \<longrightarrow> correlation_group_key R e = correlation_group_key R f)"
  using assms by (metis scope_key_inject partition_key_scope group_key_scope)

definition demo_event :: "string \<Rightarrow> pydict" where
  "demo_event tag = [(''site'', PStr ''s1''), (''asset_id'', PStr ''pump-1''), (''tag'', PStr tag)]"

theorem partition_key_identifies_stream_witness:
  "stream_partition_key demo_rt (\<lambda>_. None) (demo_event ''temp'')
     \<noteq> stream_partition_key demo_rt (\<lambda>_. None) (demo_event ''flow'')"
proof -
  have "bar_free (derive_stream_scope demo_rt (demo_event ''temp''))"
    and "bar_free (derive_stream_scope demo_rt (demo_event ''flow''))"
    by (simp_all add: bar_free_def derive_stream_scope_def demo_event_def first_str_def pget_def
        dict_getd_def py_or_def)
  moreover have "derive_stream_scope demo_rt (demo_event ''temp'')
      \<noteq> derive_stream_scope demo_rt (demo_event ''flow'')"
    by (simp add: derive_stream_scope_def demo_event_def first_str_def pget_def
        dict_getd_def py_or_def)
  ultimately show ?thesis
    using partition_key_identifies_stream
      [of "\<lambda>_. None" "demo_event ''temp''" "demo_event ''flow''" demo_rt] by simp
qed

text \<open>
  Without the condition on vertical bars the key is not injective: two events of different
  streams (different line and protocol) can share a partition key, hence a Kafka partition and the
  keyed runtime state.
\<close>

theorem partition_key_collision:
  "\<exists>e f. derive_stream_scope demo_rt e \<noteq> derive_stream_scope demo_rt f
       \<and> stream_partition_key demo_rt (\<lambda>_. None) e = stream_partition_key demo_rt (\<lambda>_. None) f"
proof -
  let ?e = "[(''site'', PStr ''s''), (''line'', PStr ''l|mqtt''), (''source_protocol'', PStr ''x'')]"
  let ?f = "[(''site'', PStr ''s''), (''line'', PStr ''l''), (''source_protocol'', PStr ''mqtt|x'')]"
  have "derive_stream_scope demo_rt ?e \<noteq> derive_stream_scope demo_rt ?f"
    and "stream_partition_key demo_rt (\<lambda>_. None) ?e = stream_partition_key demo_rt (\<lambda>_. None) ?f"
    by (simp_all add: derive_stream_scope_def stream_partition_key_def first_str_def pget_def
        dict_getd_def py_or_def)
  then show ?thesis by blast
qed

text \<open>
  Normalization is total and idempotent and never invents a process value: the result
  always has a device id, normalizing again changes nothing, and at most the legacy field the tag
  names differs from 0 among the three process values of a fresh event.
\<close>

theorem normalize_idempotent:
  "normalize_runtime_event R (normalize_runtime_event R e) = normalize_runtime_event R e
   \<and> dict_has (normalize_runtime_event R e) ''device_id''
   \<and> (dict_has e ''device_id'' \<or>
      (\<forall>f \<in> {''temperature_c'', ''vibration_mm_s'', ''pressure_bar''}.
         map_of (normalize_runtime_event R e) f
           = Some (PFloat (if tag_to_legacy_field (py_str R (dict_getd e ''tag'' (PStr []))) = Some f
                           then to_float R (dict_getd e ''value'' (PInt 0)) else 0))))"
proof -
  have dev: "dict_has (normalize_runtime_event R e) ''device_id''"
    by (simp add: normalize_runtime_event_def normalized_base_device split: option.split)
  then have "normalize_runtime_event R (normalize_runtime_event R e) = normalize_runtime_event R e"
    by (subst normalize_runtime_event_def) simp
  moreover have "dict_has e ''device_id'' \<or>
      (\<forall>f \<in> {''temperature_c'', ''vibration_mm_s'', ''pressure_bar''}.
         map_of (normalize_runtime_event R e) f
           = Some (PFloat (if tag_to_legacy_field (py_str R (dict_getd e ''tag'' (PStr []))) = Some f
                           then to_float R (dict_getd e ''value'' (PInt 0)) else 0)))"
    by (auto simp: normalize_runtime_event_def normalized_base_zero split: option.split)
  ultimately show ?thesis using dev by blast
qed

theorem normalize_idempotent_witness:
  "normalize_runtime_event demo_rt (normalize_runtime_event demo_rt (demo_event ''flow''))
     = normalize_runtime_event demo_rt (demo_event ''flow'')"
  using normalize_idempotent [of demo_rt "demo_event ''flow''"] by blast

end
