(* ===== verification/Edge_Model.thy ===== *)
theory Edge_Model
  imports Py_Prelude
begin

text \<open>
  What the edge does to one event before it is published: the source mapping of a connection
  (\<open>services/edge_ingest/settings.py\<close>), the validation that separates industrial events from dead
  letters (\<open>services/edge_ingest/model.py\<close>) and the clock-quality check
  (\<open>services/common/clock_quality.py\<close>). Pydantic's own checking of the declared field types, its
  coercions and defaults are the parameter \<open>pyd\<close>, which returns the dumped model or an error
  text; the validators the class declares are modelled. NaN and infinite values, which the last
  validator rejects, are outside the value model.
\<close>

section \<open>Validation\<close>

definition PROTOCOLS :: "string list" where
  "PROTOCOLS = [''opcua'', ''mqtt'', ''modbus'', ''modbus_rtu'', ''sparkplug_b'', ''rest'', ''http_push'',
     ''dataset'', ''mock'', ''api'']"

text \<open>\<open>value.replace("Z", "+00:00")\<close>.\<close>

definition utc_offset :: "string \<Rightarrow> string" where
  "utc_offset s = concat (map (\<lambda>c. if c = CHR ''Z'' then ''+00:00'' else [c]) s)"

definition require_non_empty :: "pyval \<Rightarrow> string list" where
  "require_non_empty v =
     (case v of PStr s \<Rightarrow> if py_strip s = [] then [''value must not be empty''] else [] | _ \<Rightarrow> [])"

definition require_timezone :: "pyrt \<Rightarrow> pyval \<Rightarrow> string list" where
  "require_timezone R v =
     (case v of
        PStr s \<Rightarrow>
          (case iso_of R (utc_offset s) of
             None \<Rightarrow> [''ts_source must be an ISO-8601 timestamp'']
           | Some (_, aware) \<Rightarrow> if aware then [] else [''ts_source must include a timezone''])
      | _ \<Rightarrow> [])"

definition validator_errors :: "pyrt \<Rightarrow> pydict \<Rightarrow> string list" where
  "validator_errors R ev =
     require_non_empty (pget ev ''source_id'') @ require_non_empty (pget ev ''asset_id'')
     @ require_non_empty (pget ev ''tag'') @ require_timezone R (pget ev ''ts_source'')"

definition dead_letter :: "string \<Rightarrow> string \<Rightarrow> string \<Rightarrow> string \<Rightarrow> string \<Rightarrow> pydict \<Rightarrow> pydict" where
  "dead_letter uuid now protocol source err payload =
     [(''event_id'', PStr uuid), (''source_protocol'', PStr protocol), (''source_id'', PStr source),
      (''error'', PStr err), (''payload'', PDict payload), (''ts_ingest'', PStr now),
      (''schema_version'', PInt 1)]"

text \<open>\<open>Inl\<close>: the dead letter; \<open>Inr\<close>: the dumped event. The error text is the validators' messages.\<close>

definition validate_event ::
    "pyrt \<Rightarrow> (pydict \<Rightarrow> string + pydict) \<Rightarrow> string \<Rightarrow> string \<Rightarrow> pydict \<Rightarrow> pydict + pydict" where
  "validate_event R pyd uuid now payload =
     (let reject = (\<lambda>err. Inl (dead_letter uuid now
            (py_str R (dict_getd payload ''source_protocol'' (PStr ''unknown'')))
            (py_str R (dict_getd payload ''source_id'' (PStr ''unknown''))) err payload))
      in case pyd payload of
           Inl err \<Rightarrow> reject err
         | Inr ev \<Rightarrow>
             (case validator_errors R ev of [] \<Rightarrow> Inr ev | errs \<Rightarrow> reject (join ''; '' errs)))"

section \<open>Clock quality\<close>

text \<open>The format \<open>.3f\<close> of a non-negative number: rounded half to even on the last digit.\<close>

definition round_half_even :: "rat \<Rightarrow> int" where
  "round_half_even r =
     (let f = \<lfloor>r\<rfloor>; d = r - of_int f in
      if d < 1 / 2 then f else if 1 / 2 < d then f + 1 else if even f then f else f + 1)"

definition fixed3 :: "rat \<Rightarrow> string" where
  "fixed3 r =
     (let n = nat (round_half_even (r * 1000)); f = n mod 1000 in
      nat_str (n div 1000) @ ''.'' @ nat_str (f div 100) @ nat_str (f div 10 mod 10) @ nat_str (f mod 10))"

definition clock_quality_issue :: "pyrt \<Rightarrow> string \<Rightarrow> rat \<Rightarrow> rat \<Rightarrow> string option" where
  "clock_quality_issue R timestamp max_offset now =
     (case iso_of R (utc_offset timestamp) of
        None \<Rightarrow> Some ''source timestamp is not a valid ISO-8601 timestamp''
      | Some (t, _) \<Rightarrow>
          (let offset = now - t in
           if \<bar>offset\<bar> \<le> max_offset then None
           else Some (''source timestamp is '' @ (if 0 < offset then ''behind'' else ''ahead'')
                 @ '' by '' @ fixed3 \<bar>offset\<bar> @ ''s; maximum allowed offset is '' @ fixed3 max_offset @ ''s'')))"

section \<open>Source mappings\<close>

record source_runtime =
  sr_connection_id :: string
  sr_site_id :: string
  sr_config_version :: int
  sr_mapping_version :: string
  sr_mappings :: "pydict list"

definition sr_enrich :: "pyrt \<Rightarrow> source_runtime \<Rightarrow> pydict \<Rightarrow> pydict" where
  "sr_enrich R s payload =
     (let e1 = dict_default payload ''source_connection_id'' (PStr (sr_connection_id s));
          e2 = dict_default e1 ''source_config_version'' (PInt (sr_config_version s));
          e3 = dict_default e2 ''mapping_version''
                 (PStr (if sr_mapping_version s \<noteq> [] then sr_mapping_version s
                        else sr_connection_id s @ '':v'' @ int_str (sr_config_version s)))
      in dict_default e3 ''lineage_id'' (PStr (py_str R (dict_getd e3 ''event_id'' (PStr [])))))"

definition sr_relabel :: "source_runtime \<Rightarrow> pydict \<Rightarrow> pydict \<Rightarrow> pydict" where
  "sr_relabel s enriched mapping =
     (let m1 = dict_set enriched ''asset_id''
                 (dict_getd mapping ''asset_id'' (dict_getd enriched ''asset_id'' (PStr [])));
          m2 = dict_set m1 ''tag'' (dict_getd mapping ''tag'' (dict_getd m1 ''tag'' (PStr [])));
          m3 = dict_set m2 ''site'' (py_or (dict_getd mapping ''site_id''
                 (dict_getd m2 ''site'' (PStr (sr_site_id s)))) (PStr (sr_site_id s)));
          m4 = (if truthy (pget mapping ''line'') then dict_set m3 ''line'' (pget mapping ''line'') else m3)
      in if truthy (pget mapping ''unit'') then dict_set m4 ''unit'' (pget mapping ''unit'') else m4)"

text \<open>\<open>None\<close>: \<open>mapped["value"]\<close> raises \<open>KeyError\<close>, which the handler does not catch.\<close>

definition sr_apply :: "pyrt \<Rightarrow> source_runtime \<Rightarrow> pydict \<Rightarrow> pydict \<Rightarrow> pydict option" where
  "sr_apply R s enriched mapping =
     (let m = sr_relabel s enriched mapping in
      case map_of m ''value'' of
        None \<Rightarrow> None
      | Some v \<Rightarrow>
          Some (case (py_float R v, py_float R (dict_getd mapping ''scale'' (PFloat 1)),
                      py_float R (dict_getd mapping ''offset'' (PFloat 0))) of
                  (Some x, Some a, Some b) \<Rightarrow> dict_set m ''value'' (PFloat (x * a + b))
                | _ \<Rightarrow> m))"

fun sr_first_match :: "pyrt \<Rightarrow> source_runtime \<Rightarrow> string list \<Rightarrow> pydict \<Rightarrow> pydict list \<Rightarrow> (pydict \<times> bool \<times> string) option" where
  "sr_first_match R s fs enriched [] = Some (enriched, False, [])"
| "sr_first_match R s fs enriched (m # ms) =
     (let f = py_str R (dict_getd m ''source_field'' (PStr [])) in
      if f \<notin> set fs then sr_first_match R s fs enriched ms
      else map_option (\<lambda>d. (d, True, f)) (sr_apply R s enriched m))"

definition map_event_with_status :: "pyrt \<Rightarrow> source_runtime \<Rightarrow> pydict \<Rightarrow> (pydict \<times> bool \<times> string) option" where
  "map_event_with_status R s payload =
     (let text = (\<lambda>k. py_str R (dict_getd payload k (PStr [])))
      in sr_first_match R s [text ''source_id'', text ''tag'', text ''topic''] (sr_enrich R s payload) (sr_mappings s))"

definition map_event :: "pyrt \<Rightarrow> source_runtime \<Rightarrow> pydict \<Rightarrow> pydict option" where
  "map_event R s payload = map_option fst (map_event_with_status R s payload)"

lemma sr_relabel_frame:
  "k \<notin> {''asset_id'', ''tag'', ''site'', ''line'', ''unit''} \<Longrightarrow> map_of (sr_relabel s e m) k = map_of e k"
  by (simp add: sr_relabel_def Let_def)

lemma sr_apply_frame:
  assumes "sr_apply R s e m = Some d"
    and k: "k \<notin> {''asset_id'', ''tag'', ''site'', ''line'', ''unit'', ''value''}"
  shows "map_of d k = map_of e k"
proof -
  have "map_of d k = map_of (sr_relabel s e m) k"
    using assms by (auto simp: sr_apply_def Let_def split: option.splits)
  then show ?thesis using k by (simp add: sr_relabel_frame)
qed

lemma sr_first_match_frame:
  assumes "sr_first_match R s fs e ms = Some (d, matched, f)"
    and "k \<notin> {''asset_id'', ''tag'', ''site'', ''line'', ''unit'', ''value''}"
  shows "map_of d k = map_of e k"
  using assms(1)
proof (induction ms)
  case Nil
  then show ?case by simp
next
  case (Cons m ms)
  from Cons.prems consider "sr_first_match R s fs e ms = Some (d, matched, f)" | "sr_apply R s e m = Some d"
    by (cases "py_str R (dict_getd m ''source_field'' (PStr [])) \<in> set fs") (auto simp: Let_def)
  then show ?case
    by cases (rule Cons.IH, assumption, rule sr_apply_frame [OF _ assms(2)])
qed

lemma sr_enrich_keeps: "map_of payload k = Some v \<Longrightarrow> map_of (sr_enrich R s payload) k = Some v"
  unfolding sr_enrich_def Let_def by (intro dict_default_keeps)

lemma sr_first_match_skip:
  "\<forall>m \<in> set ms. py_str R (dict_getd m ''source_field'' (PStr [])) \<notin> set fs \<Longrightarrow>
   sr_first_match R s fs e ms = Some (e, False, [])"
  by (induction ms) (auto simp: Let_def)

section \<open>Properties\<close>

text \<open>
  Validation splits the input: an accepted event is what pydantic made of the payload, its
  identity fields are not blank and its source time is an ISO time with a zone; a rejected payload
  becomes a dead letter that carries the whole payload, its protocol and source, and a reason.
\<close>

theorem validate_event_split:
  assumes "pyd payload = Inr ev"
    and "\<forall>k \<in> {''source_id'', ''asset_id'', ''tag'', ''ts_source''}. \<exists>s. pget ev k = PStr s"
  shows "(case validate_event R pyd uuid now payload of
      Inr e \<Rightarrow> e = ev
        \<and> (\<forall>k \<in> {''source_id'', ''asset_id'', ''tag''}. \<exists>s. pget e k = PStr s \<and> py_strip s \<noteq> [])
        \<and> (\<exists>s t. pget e ''ts_source'' = PStr s \<and> iso_of R (utc_offset s) = Some (t, True))
    | Inl d \<Rightarrow> map_of d ''payload'' = Some (PDict payload)
        \<and> map_of d ''source_id'' = Some (PStr (py_str R (dict_getd payload ''source_id'' (PStr ''unknown''))))
        \<and> validator_errors R ev \<noteq> [])"
proof -
  obtain a b c d where v: "pget ev ''source_id'' = PStr a" "pget ev ''asset_id'' = PStr b"
      "pget ev ''tag'' = PStr c" "pget ev ''ts_source'' = PStr d"
    using assms(2) by auto
  show ?thesis
  proof (cases "validator_errors R ev")
    case Nil
    then have "py_strip a \<noteq> []" "py_strip b \<noteq> []" "py_strip c \<noteq> []"
      and "require_timezone R (PStr d) = []"
      using v by (auto simp: validator_errors_def require_non_empty_def split: if_splits)
    with Nil v assms(1) show ?thesis
      by (auto simp: validate_event_def require_timezone_def split: option.splits if_splits)
  next
    case (Cons e es)
    with assms(1) show ?thesis
      by (simp add: validate_event_def dead_letter_def)
  qed
qed

definition clock_rt :: pyrt where
  "clock_rt = \<lparr>repr_of = (\<lambda>_. ''?''), float_of = (\<lambda>_. None), iso_of = (\<lambda>_. Some (100, True)), json_of = (\<lambda>_. ''{}'')\<rparr>"

definition pump_event :: pydict where
  "pump_event = [(''source_protocol'', PStr ''mqtt''), (''source_id'', PStr ''plc''), (''asset_id'', PStr ''pump''),
     (''tag'', PStr ''temp''), (''value'', PInt 7), (''ts_source'', PStr ''2026-01-01T00:00:00Z''), (''site'', PStr ''s1'')]"

theorem validate_event_split_witness:
  "validate_event clock_rt Inr ''u'' ''n'' pump_event = Inr pump_event"
proof -
  have "\<forall>k \<in> {''source_id'', ''asset_id'', ''tag'', ''ts_source''}. \<exists>s. pget pump_event k = PStr s"
    by (simp add: pump_event_def pget_def dict_getd_def)
  moreover have "validator_errors clock_rt pump_event = []"
    by (simp add: validator_errors_def require_non_empty_def require_timezone_def pump_event_def pget_def
        dict_getd_def clock_rt_def py_strip_def py_lstrip_def py_rstrip_def py_space_def)
  ultimately show ?thesis
    using validate_event_split [of Inr pump_event pump_event clock_rt "''u''" "''n''"]
    by (auto split: sum.splits)
qed

text \<open>
  A source mapping never touches raw data it does not own: every key of the payload other
  than asset, tag, site, line, unit and value survives mapping unchanged; and when no mapping of the
  connection names the event's source id, tag or topic, the whole payload does, and the event is
  reported as unmatched.
\<close>

theorem map_event_preserves:
  assumes "map_event_with_status R s payload = Some (d, matched, f)" "map_of payload k = Some v"
  shows "(k \<notin> {''asset_id'', ''tag'', ''site'', ''line'', ''unit'', ''value''} \<longrightarrow> map_of d k = Some v)
    \<and> ((\<forall>m \<in> set (sr_mappings s). py_str R (dict_getd m ''source_field'' (PStr [])) \<notin>
          {py_str R (dict_getd payload ''source_id'' (PStr [])), py_str R (dict_getd payload ''tag'' (PStr [])),
           py_str R (dict_getd payload ''topic'' (PStr []))})
        \<longrightarrow> \<not> matched \<and> map_of d k = Some v)"
  using assms sr_first_match_frame [of R s _ "sr_enrich R s payload" "sr_mappings s" d matched f k]
    sr_first_match_skip [of "sr_mappings s" R] sr_enrich_keeps [OF assms(2), of R s]
  unfolding map_event_with_status_def Let_def by auto

definition demo_source :: source_runtime where
  "demo_source = \<lparr>sr_connection_id = ''c1'', sr_site_id = ''s1'', sr_config_version = 3, sr_mapping_version = [],
     sr_mappings = [[(''source_field'', PStr ''temp''), (''asset_id'', PStr ''pump-1''), (''tag'', PStr ''temperature''),
       (''scale'', PInt 2), (''offset'', PInt 1)]]\<rparr>"

theorem map_event_preserves_witness:
  "\<exists>d. map_event_with_status clock_rt demo_source pump_event = Some (d, True, ''temp'')
     \<and> map_of d ''ts_source'' = Some (PStr ''2026-01-01T00:00:00Z'')"
proof -
  obtain d where d: "map_event_with_status clock_rt demo_source pump_event = Some (d, True, ''temp'')"
    by (simp add: map_event_with_status_def demo_source_def pump_event_def sr_enrich_def sr_apply_def
        sr_relabel_def dict_default_def dict_getd_def py_or_def pget_def py_float_def Let_def)
  from map_event_preserves [OF d, of "''ts_source''"] show ?thesis
    using d by (simp add: pump_event_def)
qed

text \<open>
  The clock check flags exactly the source times that do not parse or lie further from now
  than the bound, on either side.
\<close>

theorem clock_issue_iff:
  "clock_quality_issue R timestamp max_offset now = None \<longleftrightarrow>
     (\<exists>t aware. iso_of R (utc_offset timestamp) = Some (t, aware) \<and> now - max_offset \<le> t \<and> t \<le> now + max_offset)"
  by (auto simp: clock_quality_issue_def Let_def abs_le_iff split: option.split)

end
