(* ===== verification/Edge_Publisher.thy ===== *)
theory Edge_Publisher
  imports Disk_Spool Stream_Scope Edge_Model "HOL-Library.Multiset"
begin

text \<open>
  The Kafka publisher of the edge (\<open>services/edge_ingest/publisher.py\<close>): the batch buffer, the table
  of messages in flight, the store-and-forward spool, the dead-letter route for oversize messages,
  the replay of the spool and the final flush. The producer library is the environment: a message it
  accepts sits in \<open>pb_queue\<close> with the data of its delivery callback until a report for it is
  served, inside \<open>poll\<close> or \<open>flush\<close>. What the library answers is an argument: one \<open>kresp\<close> per
  call of \<open>produce\<close>, the reports served by each \<open>poll\<close>. Prometheus counters are the list of their
  increments. Local file writes succeed. \<open>pb_delivered\<close> records what the broker acknowledged.
\<close>

section \<open>State\<close>

record settings =
  raw_topic :: string
  normalized_topic :: string
  legacy_topic :: string
  dlq_topic :: string
  max_message_bytes :: int
  clock_mode :: string
  max_clock_offset_seconds :: rat
  batch_size :: int
  flush_interval_ms :: rat

record handle =
  h_msg :: msg
  h_token :: "nat option"
  h_spool :: bool           \<comment> \<open>\<open>spool_on_failure\<close>\<close>

record publisher =
  pb_buffer :: "msg list"
  pb_last_flush :: rat
  pb_inflight :: "(nat \<times> msg) list"
  pb_next_token :: nat
  pb_spool :: "spool option"   \<comment> \<open>\<open>None\<close>: store and forward is not configured\<close>
  pb_queue :: "handle list"
  pb_delivered :: "msg list"
  pb_overflow :: "msg list"    \<comment> \<open>messages given to the dead-letter route\<close>
  pb_metrics :: "(string \<times> string list) list"

text \<open>Delivery reports served by one poll: the position of the message in the queue, the error.\<close>

type_synonym reports = "(nat \<times> string option) list"

datatype kresp = KAccept | KFull reports | KError string reports

datatype 's outcome = Returned 's | Raised string 's | Blocked

definition count_metric :: "string \<Rightarrow> string list \<Rightarrow> publisher \<Rightarrow> publisher" where
  "count_metric name labels p = p\<lparr>pb_metrics := pb_metrics p @ [(name, labels)]\<rparr>"

definition spool_message :: "publisher \<Rightarrow> msg \<Rightarrow> publisher" where
  "spool_message p m =
     (case pb_spool p of
        None \<Rightarrow> p
      | Some s \<Rightarrow> count_metric ''edge_store_forward_spooled_total'' [fst m] (p\<lparr>pb_spool := Some (spool_append s m)\<rparr>))"

section \<open>Delivery reports\<close>

definition delivery_report :: "publisher \<Rightarrow> handle \<Rightarrow> string option \<Rightarrow> publisher" where
  "delivery_report p h err =
     (let p1 = (case h_token h of None \<Rightarrow> p | Some t \<Rightarrow> p\<lparr>pb_inflight := dict_del (pb_inflight p) t\<rparr>)
      in case err of
           None \<Rightarrow> p1
         | Some _ \<Rightarrow>
             (let p2 = count_metric ''edge_ingest_delivery_failures_total'' [fst (h_msg h)] p1
              in if h_spool h then spool_message p2 (h_msg h) else p2))"

definition serve_report :: "publisher \<Rightarrow> nat \<times> string option \<Rightarrow> publisher" where
  "serve_report p r =
     (case r of (i, err) \<Rightarrow>
        if length (pb_queue p) \<le> i then p
        else (let h = pb_queue p ! i;
                  q = take i (pb_queue p) @ drop (Suc i) (pb_queue p);
                  d = (case err of None \<Rightarrow> pb_delivered p @ [h_msg h] | Some _ \<Rightarrow> pb_delivered p)
              in delivery_report (p\<lparr>pb_queue := q, pb_delivered := d\<rparr>) h err))"

definition serve :: "publisher \<Rightarrow> reports \<Rightarrow> publisher" where
  "serve p rs = foldl serve_report p rs"

section \<open>Producing\<close>

definition enqueue :: "publisher \<Rightarrow> msg \<Rightarrow> nat option \<Rightarrow> bool \<Rightarrow> publisher" where
  "enqueue p m token spool =
     p\<lparr>pb_queue := pb_queue p @ [\<lparr>h_msg = m, h_token = token, h_spool = spool\<rparr>]\<rparr>"

definition oversize_payload :: "string \<Rightarrow> string \<Rightarrow> string \<Rightarrow> string \<Rightarrow> pydict" where
  "oversize_payload now origin err val =
     [(''source_protocol'', PStr ''producer''), (''source_id'', PStr origin), (''error'', PStr err),
      (''payload'', PStr (take 4096 val)), (''ts_ingest'', PStr now), (''schema_version'', PInt 1)]"

text \<open>\<open>_route_oversize\<close>; on an exception of \<open>produce\<close> it polls once and gives the record up.\<close>

definition route_oversize ::
    "pyrt \<Rightarrow> string \<Rightarrow> settings \<Rightarrow> publisher \<Rightarrow> msg \<Rightarrow> string \<Rightarrow> string \<Rightarrow> kresp \<Rightarrow> publisher" where
  "route_oversize R now S p m origin err resp =
     (let p1 = count_metric ''edge_ingest_dlq_total'' [''producer'']
                 (count_metric ''edge_ingest_overflow_total'' [err] (p\<lparr>pb_overflow := pb_overflow p @ [m]\<rparr>));
          key = fst (snd m);
          body = json_of R (PDict (oversize_payload now origin err (snd (snd m))))
      in case resp of
           KAccept \<Rightarrow> enqueue p1 (dlq_topic S, key, body) None False
         | KFull rs \<Rightarrow> serve p1 rs
         | KError _ rs \<Rightarrow> serve p1 rs)"

text \<open>
  \<open>_produce_safe\<close>: each attempt takes a new token and enters the message in the in-flight table
  before calling \<open>produce\<close>. The result keeps the answers not yet used; \<open>None\<close> means that every
  answer so far was a full queue and the call is still retrying.
\<close>

fun produce_attempts ::
    "pyrt \<Rightarrow> string \<Rightarrow> settings \<Rightarrow> publisher \<Rightarrow> msg \<Rightarrow> string \<Rightarrow> kresp list \<Rightarrow> (publisher \<times> kresp list) option" where
  "produce_attempts R now S p m origin [] = None"
| "produce_attempts R now S p m origin (KAccept # rs) =
     (let t = Suc (pb_next_token p)
      in Some (enqueue (p\<lparr>pb_next_token := t, pb_inflight := dict_set (pb_inflight p) t m\<rparr>) m (Some t) True, rs))"
| "produce_attempts R now S p m origin (KFull reports # rs) =
     (let t = Suc (pb_next_token p);
          p1 = p\<lparr>pb_next_token := t, pb_inflight := dict_del (dict_set (pb_inflight p) t m) t\<rparr>
      in produce_attempts R now S (serve p1 reports) m origin rs)"
| "produce_attempts R now S p m origin (KError e reports # rs) =
     (let t = Suc (pb_next_token p);
          p1 = p\<lparr>pb_next_token := t, pb_inflight := dict_del (dict_set (pb_inflight p) t m) t\<rparr>
      in if pb_spool p1 \<noteq> None then Some (spool_message p1 m, rs)
         else (case rs of
                 [] \<Rightarrow> None
               | r # rs' \<Rightarrow> Some (route_oversize R now S p1 m origin e r, rs')))"

definition produce_safe ::
    "pyrt \<Rightarrow> string \<Rightarrow> settings \<Rightarrow> publisher \<Rightarrow> msg \<Rightarrow> string \<Rightarrow> kresp list \<Rightarrow> (publisher \<times> kresp list) option" where
  "produce_safe R now S p m origin rs =
     (if int (length (snd (snd m))) > max_message_bytes S then
        (case rs of
           [] \<Rightarrow> None
         | r # rs' \<Rightarrow> Some (route_oversize R now S p m origin ''message_too_large'' r, rs'))
      else produce_attempts R now S p m origin rs)"

fun produce_all ::
    "pyrt \<Rightarrow> string \<Rightarrow> settings \<Rightarrow> publisher \<Rightarrow> msg list \<Rightarrow> kresp list \<Rightarrow> (publisher \<times> kresp list) option" where
  "produce_all R now S p [] rs = Some (p, rs)"
| "produce_all R now S p (m # ms) rs =
     (case produce_safe R now S p m ''batch'' rs of
        None \<Rightarrow> None
      | Some (p', rs') \<Rightarrow> produce_all R now S p' ms rs')"

section \<open>Replaying the spool\<close>

text \<open>
  What happens to one replayed record: \<open>produce\<close> raises, or it is accepted and the polls of the
  next ten seconds serve the given reports of other messages and then its own report, or none.
\<close>

datatype rresp = RRaise | RTimeout reports | RReport reports "string option"

definition replay_one :: "publisher \<Rightarrow> msg \<Rightarrow> rresp \<Rightarrow> publisher \<times> bool" where
  "replay_one p m resp =
     (case resp of
        RRaise \<Rightarrow> (p, False)
      | RTimeout rs \<Rightarrow> (serve (enqueue p m None False) rs, False)
      | RReport rs err \<Rightarrow>
          (let h = \<lparr>h_msg = m, h_token = None, h_spool = False\<rparr>;
               p1 = serve p rs;
               p2 = (case err of None \<Rightarrow> p1\<lparr>pb_delivered := pb_delivered p1 @ [m]\<rparr> | Some _ \<Rightarrow> p1)
           in (delivery_report p2 h err, err = None)))"

text \<open>
  The loop over the records read at the start. After a delivery it executes
  \<open>remaining = remaining[index + 1 :]\<close> on the list that earlier deliveries have already shortened.
  \<open>None\<close>: a record does not decode.
\<close>

fun replay_loop :: "publisher \<Rightarrow> nat \<Rightarrow> pydict list \<Rightarrow> pydict list \<Rightarrow> rresp list \<Rightarrow> (publisher \<times> pydict list) option" where
  "replay_loop p i [] remaining resps = Some (p, remaining)"
| "replay_loop p i (r # rs) remaining resps =
     (case spool_decode r of
        None \<Rightarrow> None
      | Some m \<Rightarrow>
          (let resp = (case resps of [] \<Rightarrow> RTimeout [] | x # _ \<Rightarrow> x);
               (p', ok) = replay_one p m resp
           in if ok then
                replay_loop (count_metric ''edge_store_forward_replayed_total'' [fst m] p')
                  (Suc i) rs (drop (Suc i) remaining) (tl resps)
              else Some (p', remaining)))"

definition replay_spool :: "publisher \<Rightarrow> rresp list \<Rightarrow> publisher outcome" where
  "replay_spool p resps =
     (case pb_spool p of
        None \<Rightarrow> Returned p
      | Some s \<Rightarrow>
          (case spool_read_all s of
             None \<Rightarrow> Raised ''JSONDecodeError'' p
           | Some records \<Rightarrow>
               (case replay_loop p 0 records records resps of
                  None \<Rightarrow> Raised ''KeyError'' p
                | Some (p', remaining) \<Rightarrow>
                    Returned (p'\<lparr>pb_spool := map_option (\<lambda>s. spool_replace s remaining) (pb_spool p')\<rparr>))))"

section \<open>Flushing\<close>

record flush_env =
  fe_replay :: "rresp list"
  fe_resps :: "kresp list"
  fe_reports :: reports
  fe_now :: rat
  fe_text :: string

definition flush_buffer :: "pyrt \<Rightarrow> settings \<Rightarrow> flush_env \<Rightarrow> publisher \<Rightarrow> publisher outcome" where
  "flush_buffer R S E p =
     (case replay_spool p (fe_replay E) of
        Raised e q \<Rightarrow> Raised e q
      | Blocked \<Rightarrow> Blocked
      | Returned q \<Rightarrow>
          (case produce_all R (fe_text E) S q (pb_buffer q) (fe_resps E) of
             None \<Rightarrow> Blocked
           | Some (q', _) \<Rightarrow>
               Returned ((serve (q'\<lparr>pb_buffer := []\<rparr>) (fe_reports E))\<lparr>pb_last_flush := fe_now E\<rparr>)))"

definition maybe_flush :: "pyrt \<Rightarrow> settings \<Rightarrow> rat \<Rightarrow> flush_env \<Rightarrow> publisher \<Rightarrow> publisher outcome" where
  "maybe_flush R S now E p =
     (let elapsed_ms = (now - pb_last_flush p) * 1000 in
      if batch_size S \<le> int (length (pb_buffer p)) \<or> flush_interval_ms S \<le> elapsed_ms
      then flush_buffer R S E p else Returned p)"

definition service :: "pyrt \<Rightarrow> settings \<Rightarrow> rat \<Rightarrow> flush_env \<Rightarrow> reports \<Rightarrow> publisher \<Rightarrow> publisher outcome" where
  "service R S now E rs p =
     (case maybe_flush R S now E p of
        Returned q \<Rightarrow> Returned (serve q rs)
      | other \<Rightarrow> other)"

text \<open>
  The final flush: \<open>rs\<close> are the reports \<open>producer.flush(10)\<close> serves; what is still in flight then
  goes to the spool, or the flush raises.
\<close>

definition final_flush :: "pyrt \<Rightarrow> settings \<Rightarrow> flush_env \<Rightarrow> reports \<Rightarrow> publisher \<Rightarrow> publisher outcome" where
  "final_flush R S E rs p =
     (case flush_buffer R S E p of
        Returned q \<Rightarrow>
          (let q1 = serve q rs;
               remaining = length (pb_queue q1);
               unresolved = map snd (pb_inflight q1);
               q2 = q1\<lparr>pb_inflight := []\<rparr>
           in if remaining = 0 \<and> unresolved = [] then Returned q2
              else if pb_spool q2 \<noteq> None then Returned (foldl spool_message q2 unresolved)
              else Raised ''Kafka delivery incomplete'' q2)
      | other \<Rightarrow> other)"

section \<open>Publishing an event\<close>

definition publish_raw ::
    "pyrt \<Rightarrow> string \<Rightarrow> settings \<Rightarrow> publisher \<Rightarrow> string \<Rightarrow> string \<Rightarrow> pydict \<Rightarrow> kresp list \<Rightarrow> (publisher \<times> kresp list) option" where
  "publish_raw R now S p protocol source payload rs =
     (let key = protocol @ '':'' @ source
      in produce_safe R now S p (raw_topic S, key, json_of R (PDict payload)) key rs)"

record event_env =
  ee_pyd :: "pydict \<Rightarrow> string + pydict"
  ee_native_bundle :: "pydict \<Rightarrow> (string \<times> string \<times> string) option"
  ee_native_key :: "pydict \<Rightarrow> string option"
  ee_uuid :: string
  ee_text :: string
  ee_now :: rat

definition buffer_message :: "publisher \<Rightarrow> msg \<Rightarrow> publisher" where
  "buffer_message p m = p\<lparr>pb_buffer := pb_buffer p @ [m]\<rparr>"

text \<open>The effective clock mode: an unknown mode is read as \<open>observe\<close>.\<close>

definition effective_clock_mode :: "settings \<Rightarrow> string" where
  "effective_clock_mode S =
     (if clock_mode S \<in> {''observe'', ''warn'', ''reject''} then clock_mode S else ''observe'')"

definition event_bundle :: "pyrt \<Rightarrow> event_env \<Rightarrow> pydict \<Rightarrow> string \<times> string \<times> string" where
  "event_bundle R V ev =
     (case ee_native_bundle V ev of
        Some b \<Rightarrow> b
      | None \<Rightarrow> (stream_partition_key R (ee_native_key V) ev, json_of R (PDict ev),
                 json_of R (PDict (to_legacy_iot_event R ev))))"

definition buffer_valid :: "pyrt \<Rightarrow> settings \<Rightarrow> event_env \<Rightarrow> publisher \<Rightarrow> pydict \<Rightarrow> publisher" where
  "buffer_valid R S V p ev =
     (case event_bundle R V ev of (key, normalized, legacy) \<Rightarrow>
        count_metric ''edge_ingest_source_events_total''
            [py_str R (py_or (pget ev ''source_connection_id'') (pget ev ''source_id'')),
             py_str R (pget ev ''source_protocol''), py_str R (pget ev ''site'')]
        (count_metric ''edge_ingest_events_total'' [py_str R (pget ev ''source_protocol'')]
          (buffer_message (buffer_message p (normalized_topic S, key, normalized)) (legacy_topic S, key, legacy))))"

text \<open>What \<open>publish_event\<close> puts into the buffer.\<close>

definition buffer_event :: "pyrt \<Rightarrow> settings \<Rightarrow> event_env \<Rightarrow> publisher \<Rightarrow> pydict \<Rightarrow> publisher" where
  "buffer_event R S V p payload =
     (case validate_event R (ee_pyd V) (ee_uuid V) (ee_text V) payload of
        Inl dlq \<Rightarrow>
          count_metric ''edge_ingest_dlq_total'' [py_str R (dict_getd payload ''source_protocol'' (PStr ''unknown''))]
            (buffer_message p (dlq_topic S, py_str R (dict_getd payload ''source_id'' (PStr ''unknown'')),
               json_of R (PDict dlq)))
      | Inr ev \<Rightarrow>
          (case clock_quality_issue R (py_str R (pget ev ''ts_source''))
                  (max (max_clock_offset_seconds S) 0) (ee_now V) of
             None \<Rightarrow> buffer_valid R S V p ev
           | Some issue \<Rightarrow>
               (let mode = effective_clock_mode S;
                    p1 = count_metric ''edge_ingest_clock_violations_total''
                           [mode, if mode = ''reject'' then ''rejected'' else ''accepted''] p
                in if mode = ''reject'' then
                     (let source = py_str R (pget ev ''source_id'')
                      in count_metric ''edge_ingest_dlq_total'' [py_str R (pget ev ''source_protocol'')]
                           (buffer_message p1 (dlq_topic S, source,
                              json_of R (PDict (dead_letter (ee_uuid V) (ee_text V)
                                (py_str R (pget ev ''source_protocol'')) source
                                (''clock_policy_reject: '' @ issue) ev)))))
                   else buffer_valid R S V p1 ev)))"

definition publish_event ::
    "pyrt \<Rightarrow> settings \<Rightarrow> event_env \<Rightarrow> kresp list \<Rightarrow> flush_env \<Rightarrow> pydict \<Rightarrow> publisher \<Rightarrow> publisher outcome" where
  "publish_event R S V rs E payload p =
     (case publish_raw R (ee_text V) S p
             (py_str R (dict_getd payload ''source_protocol'' (PStr ''unknown'')))
             (py_str R (dict_getd payload ''source_id'' (PStr ''unknown''))) payload rs of
        None \<Rightarrow> Blocked
      | Some (q, _) \<Rightarrow> maybe_flush R S (ee_now V) E (buffer_event R S V q payload))"

section \<open>Conservation of messages\<close>

definition spool_contents :: "spool \<Rightarrow> msg list" where
  "spool_contents s = (case spool_read_all s of None \<Rightarrow> [] | Some rs \<Rightarrow> List.map_filter spool_decode rs)"

text \<open>Where a message is safe: buffered, queued with a callback that spools it on failure,
  acknowledged, in the spool, or counted as overflow.\<close>

definition kept :: "publisher \<Rightarrow> msg multiset" where
  "kept p = mset (map h_msg (filter h_spool (pb_queue p))) + mset (pb_delivered p)
     + (case pb_spool p of None \<Rightarrow> {#} | Some s \<Rightarrow> mset (spool_contents s)) + mset (pb_overflow p)"

definition secured :: "publisher \<Rightarrow> msg multiset" where
  "secured p = kept p + mset (pb_buffer p)"

definition decodable :: "pydict \<Rightarrow> bool" where
  "decodable r = (spool_decode r \<noteq> None)"

text \<open>Store and forward is configured and its file reads back, with decodable records.\<close>

definition spool_ready :: "publisher \<Rightarrow> bool" where
  "spool_ready p \<longleftrightarrow> (\<exists>s rs. pb_spool p = Some s \<and> spool_read_all s = Some rs
     \<and> list_all decodable rs)"

lemma decodable_record [simp]: "decodable (spool_record m)"
  by (simp add: decodable_def del: not_None_eq)

lemma spool_contents_append:
  "spool_read_all s = Some rs \<Longrightarrow> spool_contents (spool_append s m) = spool_contents s @ [m]"
  by (simp add: spool_contents_def disk.read_append map_filter_def del: not_None_eq split_paired_Ex)

lemma spool_ready_append:
  "spool_ready p \<Longrightarrow> pb_spool p = Some s \<Longrightarrow> spool_ready (p\<lparr>pb_spool := Some (spool_append s m)\<rparr>)"
  by (auto simp: spool_ready_def dest: disk.read_append)

lemma count_metric_kept [simp]:
  "kept (count_metric n l p) = kept p" "secured (count_metric n l p) = secured p"
  "spool_ready (count_metric n l p) = spool_ready p" "pb_buffer (count_metric n l p) = pb_buffer p"
  "pb_spool (count_metric n l p) = pb_spool p" "pb_queue (count_metric n l p) = pb_queue p"
  by (simp_all add: count_metric_def kept_def secured_def spool_ready_def)

lemma spool_message_kept:
  assumes "spool_ready p"
  shows "kept (spool_message p m) = add_mset m (kept p)" "spool_ready (spool_message p m)"
    "pb_buffer (spool_message p m) = pb_buffer p"
proof -
  obtain s rs where s: "pb_spool p = Some s" "spool_read_all s = Some rs"
    using assms by (auto simp: spool_ready_def)
  then show "kept (spool_message p m) = add_mset m (kept p)"
    by (simp add: spool_message_def) (simp add: kept_def spool_contents_append)
  show "spool_ready (spool_message p m)"
    using assms s by (simp add: spool_message_def spool_ready_append)
  show "pb_buffer (spool_message p m) = pb_buffer p"
    using s by (simp add: spool_message_def)
qed

text \<open>Serving a report keeps every message safe.\<close>

lemma queue_split:
  "i < length q \<Longrightarrow> mset (map h_msg (filter h_spool q))
     = mset (map h_msg (filter h_spool (take i q @ drop (Suc i) q)))
       + (if h_spool (q ! i) then {#h_msg (q ! i)#} else {#})"
  by (subst id_take_nth_drop [of i q]) simp_all

lemma delivery_report_frame [simp]:
  "pb_buffer (delivery_report p h err) = pb_buffer p"
  by (simp add: delivery_report_def Let_def spool_message_def count_metric_def split: option.split)

lemma serve_report_kept:
  assumes "spool_ready p"
  shows "kept p \<subseteq># kept (serve_report p r) \<and> spool_ready (serve_report p r)
    \<and> pb_buffer (serve_report p r) = pb_buffer p"
proof -
  obtain i err where r: "r = (i, err)" by (cases r)
  show ?thesis
  proof (cases "i < length (pb_queue p)")
    case False
    then show ?thesis using assms by (simp add: serve_report_def r)
  next
    case True
    let ?h = "pb_queue p ! i"
    let ?q = "take i (pb_queue p) @ drop (Suc i) (pb_queue p)"
    define p1 where "p1 = p\<lparr>pb_queue := ?q,
        pb_delivered := (case err of None \<Rightarrow> pb_delivered p @ [h_msg ?h] | Some _ \<Rightarrow> pb_delivered p)\<rparr>"
    define p2 where "p2 = (case h_token ?h of None \<Rightarrow> p1 | Some t \<Rightarrow> p1\<lparr>pb_inflight := dict_del (pb_inflight p1) t\<rparr>)"
    have sr: "serve_report p r = delivery_report p1 ?h err"
      using True by (simp add: serve_report_def r p1_def Let_def)
    have p2: "kept p2 = kept p1" "spool_ready p2" "pb_buffer p2 = pb_buffer p"
      using assms by (auto simp: p2_def p1_def kept_def spool_ready_def split: option.split)
    have k: "kept p + (if err = None then {#h_msg ?h#} else {#})
        = kept p1 + (if h_spool ?h then {#h_msg ?h#} else {#})"
      using queue_split [OF True] by (auto simp: kept_def p1_def split: option.split)
    show ?thesis
    proof (cases err)
      case None
      then have "serve_report p r = p2" by (simp add: sr delivery_report_def p2_def Let_def)
      moreover have "kept p \<subseteq># kept p1"
      proof (cases "h_spool ?h")
        case True
        with k None have "kept p = kept p1" by simp
        then show ?thesis by simp
      next
        case False
        with k None have "kept p1 = add_mset (h_msg ?h) (kept p)" by simp
        then show ?thesis by (simp add: subset_mset.le_iff_add)
      qed
      ultimately show ?thesis using p2 by simp
    next
      case (Some e)
      let ?p3 = "count_metric ''edge_ingest_delivery_failures_total'' [fst (h_msg ?h)] p2"
      have "serve_report p r = (if h_spool ?h then spool_message ?p3 (h_msg ?h) else ?p3)"
        by (simp add: sr Some delivery_report_def p2_def Let_def)
      then show ?thesis
        using k Some p2 spool_message_kept [of ?p3 "h_msg ?h"] by auto
    qed
  qed
qed

lemma serve_kept:
  "spool_ready p \<Longrightarrow> kept p \<subseteq># kept (serve p rs) \<and> spool_ready (serve p rs) \<and> pb_buffer (serve p rs) = pb_buffer p"
proof (induction rs arbitrary: p)
  case Nil
  then show ?case by (simp add: serve_def)
next
  case (Cons r rs)
  from serve_report_kept [OF Cons.prems, of r] Cons.IH [of "serve_report p r"] show ?case
    by (simp add: serve_def) (metis subset_mset.order_trans)
qed

lemma enqueue_kept [simp]:
  "kept (enqueue p m t b) = kept p + (if b then {#m#} else {#})"
  "spool_ready (enqueue p m t b) = spool_ready p" "pb_buffer (enqueue p m t b) = pb_buffer p"
  by (simp_all add: enqueue_def kept_def spool_ready_def)

lemma route_oversize_kept:
  assumes "spool_ready p"
  shows "add_mset m (kept p) \<subseteq># kept (route_oversize R now S p m origin err resp)
    \<and> spool_ready (route_oversize R now S p m origin err resp)
    \<and> pb_buffer (route_oversize R now S p m origin err resp) = pb_buffer p"
proof -
  let ?p = "p\<lparr>pb_overflow := pb_overflow p @ [m]\<rparr>"
  have "kept ?p = add_mset m (kept p)" "spool_ready ?p" "pb_buffer ?p = pb_buffer p"
    using assms by (simp_all add: kept_def spool_ready_def)
  then show ?thesis
    using serve_kept [of "count_metric ''edge_ingest_dlq_total'' [''producer'']
        (count_metric ''edge_ingest_overflow_total'' [err] ?p)"]
    by (cases resp) (auto simp: route_oversize_def Let_def)
qed

lemma token_kept [simp]:
  "kept (p\<lparr>pb_next_token := t, pb_inflight := fl\<rparr>) = kept p"
  "spool_ready (p\<lparr>pb_next_token := t, pb_inflight := fl\<rparr>) = spool_ready p"
  by (simp_all add: kept_def spool_ready_def)

lemma produce_attempts_kept:
  assumes "produce_attempts R now S p m origin rs = Some (q, rs')" "spool_ready p"
  shows "add_mset m (kept p) \<subseteq># kept q \<and> spool_ready q \<and> pb_buffer q = pb_buffer p"
  using assms
proof (induction R now S p m origin rs rule: produce_attempts.induct)
  case (3 R now S p m origin reports rs)
  let ?p1 = "p\<lparr>pb_next_token := Suc (pb_next_token p),
      pb_inflight := dict_del (dict_set (pb_inflight p) (Suc (pb_next_token p)) m) (Suc (pb_next_token p))\<rparr>"
  have s: "kept p \<subseteq># kept (serve ?p1 reports)" "spool_ready (serve ?p1 reports)"
      "pb_buffer (serve ?p1 reports) = pb_buffer p"
    using serve_kept [of ?p1 reports] "3.prems"(2) by simp_all
  have IH: "add_mset m (kept (serve ?p1 reports)) \<subseteq># kept q \<and> spool_ready q
      \<and> pb_buffer q = pb_buffer (serve ?p1 reports)"
    using "3.IH" [OF refl refl _ s(2)] "3.prems"(1) by (simp add: Let_def)
  have "add_mset m (kept p) \<subseteq># add_mset m (kept (serve ?p1 reports))"
    using s(1) by simp
  then have "add_mset m (kept p) \<subseteq># kept q"
    using IH by (elim conjE) (rule subset_mset.order_trans)
  with IH s(3) show ?case by simp
next
  case (4 R now S p m origin e reports rs)
  let ?p1 = "p\<lparr>pb_next_token := Suc (pb_next_token p),
      pb_inflight := dict_del (dict_set (pb_inflight p) (Suc (pb_next_token p)) m) (Suc (pb_next_token p))\<rparr>"
  have "pb_spool ?p1 \<noteq> None" using "4.prems"(2) by (auto simp: spool_ready_def)
  then have "q = spool_message ?p1 m" using "4.prems"(1) by (auto simp: Let_def)
  with spool_message_kept [of ?p1 m] "4.prems"(2) show ?case by simp
qed (auto simp: Let_def)

lemma produce_safe_kept:
  assumes "produce_safe R now S p m origin rs = Some (q, rs')" "spool_ready p"
  shows "add_mset m (kept p) \<subseteq># kept q \<and> spool_ready q \<and> pb_buffer q = pb_buffer p"
proof (cases "int (length (snd (snd m))) > max_message_bytes S")
  case True
  then obtain r where "q = route_oversize R now S p m origin ''message_too_large'' r"
    using assms(1) by (auto simp: produce_safe_def split: list.splits)
  then show ?thesis using route_oversize_kept [OF assms(2)] by blast
next
  case False
  then show ?thesis
    using assms(1) produce_attempts_kept [OF _ assms(2)] by (simp add: produce_safe_def)
qed

lemma produce_all_kept:
  assumes "produce_all R now S p ms rs = Some (q, rs')" "spool_ready p"
  shows "mset ms + kept p \<subseteq># kept q \<and> spool_ready q \<and> pb_buffer q = pb_buffer p"
  using assms
proof (induction ms arbitrary: p rs)
  case Nil
  then show ?case by simp
next
  case (Cons m ms)
  then obtain p1 rs1 where p1: "produce_safe R now S p m ''batch'' rs = Some (p1, rs1)"
    and rest: "produce_all R now S p1 ms rs1 = Some (q, rs')"
    by (auto split: option.splits)
  from produce_safe_kept [OF p1 Cons.prems(2)]
  have k: "add_mset m (kept p) \<subseteq># kept p1" and "spool_ready p1" "pb_buffer p1 = pb_buffer p" by auto
  with Cons.IH [OF rest] have IH: "mset ms + kept p1 \<subseteq># kept q" "spool_ready q" "pb_buffer q = pb_buffer p"
    by auto
  have "mset ms + add_mset m (kept p) \<subseteq># mset ms + kept p1"
    using k by (rule subset_mset.add_left_mono)
  then have "mset ms + add_mset m (kept p) \<subseteq># kept q"
    using IH(1) by (rule subset_mset.order_trans)
  with IH show ?case by simp
qed

section \<open>The table of messages in flight\<close>

text \<open>The table holds exactly the queued messages whose callback carries a token.\<close>

definition tokened :: "publisher \<Rightarrow> (nat \<times> msg) list" where
  "tokened p = map (\<lambda>h. (the (h_token h), h_msg h)) (filter h_spool (pb_queue p))"

definition inflight_ok :: "publisher \<Rightarrow> bool" where
  "inflight_ok p \<longleftrightarrow> mset (tokened p) = mset (pb_inflight p) \<and> wf_dict (pb_inflight p)
     \<and> (\<forall>h \<in> set (pb_queue p). h_spool h \<longleftrightarrow> h_token h \<noteq> None)
     \<and> (\<forall>t \<in> fst ` set (pb_inflight p). t \<le> pb_next_token p)"

lemma dict_del_fresh: "t \<notin> fst ` set d \<Longrightarrow> dict_del (dict_set d t m) t = d"
  by (induction d) (auto simp: AList.delete_eq filter_id_conv)

lemma mset_dict_del:
  "wf_dict d \<Longrightarrow> (t, m) \<in> set d \<Longrightarrow> mset d = add_mset (t, m) (mset (dict_del d t))"
proof (induction d)
  case Nil
  then show ?case by simp
next
  case (Cons x d)
  show ?case
  proof (cases "x = (t, m)")
    case True
    with Cons.prems have "t \<notin> fst ` set d" by auto
    then have "dict_del d t = d" by (force simp: AList.delete_eq filter_id_conv)
    with True show ?thesis by simp
  next
    case False
    with Cons.prems have "(t, m) \<in> set d" by auto
    moreover from this have "t \<in> fst ` set d" by force
    ultimately have "(t, m) \<in> set d" "fst x \<noteq> t" using Cons.prems(1) by auto
    with Cons show ?thesis by (cases x) auto
  qed
qed

lemma inflight_frame:
  assumes "inflight_ok p" "pb_queue p' = pb_queue p" "pb_inflight p' = pb_inflight p"
    and "pb_next_token p' = pb_next_token p"
  shows "inflight_ok p'"
  using assms by (simp add: inflight_ok_def tokened_def)

lemma count_metric_inflight [simp]: "inflight_ok (count_metric n l p) = inflight_ok p"
  by (simp add: count_metric_def inflight_ok_def tokened_def)

lemma spool_message_inflight [simp]: "inflight_ok (spool_message p m) = inflight_ok p"
proof (cases "pb_spool p")
  case (Some s)
  then show ?thesis
    by (simp add: spool_message_def) (simp add: inflight_ok_def tokened_def)
qed (simp add: spool_message_def)

lemma serve_report_inflight:
  assumes "inflight_ok p"
  shows "inflight_ok (serve_report p r)"
proof -
  obtain i err where r: "r = (i, err)" by (cases r)
  show ?thesis
  proof (cases "i < length (pb_queue p)")
    case False
    then show ?thesis using assms by (simp add: serve_report_def r)
  next
    case True
    let ?h = "pb_queue p ! i"
    let ?q = "take i (pb_queue p) @ drop (Suc i) (pb_queue p)"
    define fl where "fl = (case h_token ?h of None \<Rightarrow> pb_inflight p | Some t \<Rightarrow> dict_del (pb_inflight p) t)"
    define p1 where "p1 = p\<lparr>pb_queue := ?q,
        pb_delivered := (case err of None \<Rightarrow> pb_delivered p @ [h_msg ?h] | Some _ \<Rightarrow> pb_delivered p),
        pb_inflight := fl\<rparr>"
    have sr: "inflight_ok (serve_report p r) = inflight_ok p1"
      using True by (auto simp: serve_report_def r p1_def fl_def Let_def delivery_report_def split: option.split)
    have split: "pb_queue p = take i (pb_queue p) @ ?h # drop (Suc i) (pb_queue p)"
      using True by (rule id_take_nth_drop)
    have sub: "set ?q \<subseteq> set (pb_queue p)"
      by (auto dest: in_set_takeD in_set_dropD)
    have hin: "?h \<in> set (pb_queue p)" using True by simp
    have tk: "mset (tokened p) = mset (tokened p1) + (if h_spool ?h then {#(the (h_token ?h), h_msg ?h)#} else {#})"
      unfolding tokened_def p1_def by (subst split) simp
    show ?thesis
    proof (cases "h_token ?h")
      case None
      then have "\<not> h_spool ?h" using assms hin by (auto simp: inflight_ok_def)
      with None tk assms sub show ?thesis
        unfolding sr by (auto simp: inflight_ok_def p1_def fl_def)
    next
      case (Some t)
      then have hs: "h_spool ?h" using assms hin by (auto simp: inflight_ok_def)
      have eq: "mset (pb_inflight p) = add_mset (t, h_msg ?h) (mset (tokened p1))"
        using tk hs Some assms by (simp add: inflight_ok_def)
      then have "(t, h_msg ?h) \<in> set (pb_inflight p)"
        by (metis set_mset_mset union_single_eq_member)
      then have "mset (pb_inflight p) = add_mset (t, h_msg ?h) (mset fl)"
        using mset_dict_del [of "pb_inflight p" t "h_msg ?h"] assms Some by (simp add: inflight_ok_def fl_def)
      with eq have "mset (tokened p1) = mset fl" by simp
      moreover have "wf_dict fl"
        using assms Some by (simp add: inflight_ok_def fl_def)
      moreover have "\<forall>t \<in> fst ` set fl. t \<le> pb_next_token p"
        using Some assms by (auto simp: fl_def AList.delete_eq inflight_ok_def)
      ultimately show ?thesis
        using assms sub unfolding sr by (auto simp: inflight_ok_def p1_def)
    qed
  qed
qed

lemma serve_inflight: "inflight_ok p \<Longrightarrow> inflight_ok (serve p rs)"
  by (induction rs arbitrary: p) (simp_all add: serve_def serve_report_inflight)

lemma enqueue_plain_inflight: "inflight_ok p \<Longrightarrow> inflight_ok (enqueue p m None False)"
  by (auto simp: inflight_ok_def enqueue_def tokened_def)

lemma fresh_token: "inflight_ok p \<Longrightarrow> Suc (pb_next_token p) \<notin> fst ` set (pb_inflight p)"
  by (auto simp: inflight_ok_def)

lemma enqueue_token_inflight:
  assumes "inflight_ok p"
  defines "t \<equiv> Suc (pb_next_token p)"
  shows "inflight_ok (enqueue (p\<lparr>pb_next_token := t, pb_inflight := dict_set (pb_inflight p) t m\<rparr>) m (Some t) True)"
  using assms fresh_token [OF assms(1)]
  by (auto simp: inflight_ok_def enqueue_def tokened_def dict_set_fresh)

lemma retry_inflight:
  assumes "inflight_ok p"
  defines "t \<equiv> Suc (pb_next_token p)"
  shows "inflight_ok (p\<lparr>pb_next_token := t, pb_inflight := dict_del (dict_set (pb_inflight p) t m) t\<rparr>)"
  using assms fresh_token [OF assms(1)]
  by (auto simp: inflight_ok_def tokened_def dict_del_fresh)

lemma route_oversize_inflight:
  assumes "inflight_ok p"
  shows "inflight_ok (route_oversize R now S p m origin err resp)"
proof -
  let ?p = "p\<lparr>pb_overflow := pb_overflow p @ [m]\<rparr>"
  have "inflight_ok ?p" by (rule inflight_frame [OF assms]) simp_all
  then show ?thesis
    by (cases resp) (simp_all add: route_oversize_def Let_def serve_inflight enqueue_plain_inflight)
qed

lemma produce_attempts_inflight:
  "produce_attempts R now S p m origin rs = Some (q, rs') \<Longrightarrow> inflight_ok p \<Longrightarrow> inflight_ok q"
proof (induction R now S p m origin rs rule: produce_attempts.induct)
  case (2 R now S p m origin rs)
  then show ?case using enqueue_token_inflight [of p m] by (auto simp: Let_def)
next
  case (3 R now S p m origin reports rs)
  then show ?case using serve_inflight [OF retry_inflight [of p m], of reports] by (simp add: Let_def)
next
  case (4 R now S p m origin e reports rs)
  then show ?case
    using retry_inflight [of p m]
    by (auto simp: Let_def route_oversize_inflight split: if_splits list.splits)
qed simp

lemma produce_safe_inflight:
  "produce_safe R now S p m origin rs = Some (q, rs') \<Longrightarrow> inflight_ok p \<Longrightarrow> inflight_ok q"
  by (auto simp: produce_safe_def route_oversize_inflight split: if_splits list.splits
      intro: produce_attempts_inflight)

lemma produce_all_inflight:
  "produce_all R now S p ms rs = Some (q, rs') \<Longrightarrow> inflight_ok p \<Longrightarrow> inflight_ok q"
  by (induction ms arbitrary: p rs) (auto split: option.splits dest: produce_safe_inflight)

section \<open>Flushing and shutting down\<close>

text \<open>What survives the process: acknowledged, in the spool file, or counted as overflow.\<close>

definition durable :: "publisher \<Rightarrow> msg multiset" where
  "durable p = mset (pb_delivered p)
     + (case pb_spool p of None \<Rightarrow> {#} | Some s \<Rightarrow> mset (spool_contents s)) + mset (pb_overflow p)"

lemma kept_durable: "kept p = mset (map snd (tokened p)) + durable p"
  by (simp add: kept_def durable_def tokened_def comp_def)

lemma spool_message_durable:
  assumes "spool_ready p"
  shows "durable (spool_message p m) = add_mset m (durable p)"
proof -
  have "tokened (spool_message p m) = tokened p"
    by (simp add: tokened_def spool_message_def count_metric_def split: option.split)
  then show ?thesis
    using spool_message_kept(1) [OF assms, of m] by (simp add: kept_durable)
qed

lemma spool_messages_durable:
  "spool_ready p \<Longrightarrow> durable (foldl spool_message p ms) = mset ms + durable p"
  by (induction ms arbitrary: p) (simp_all add: spool_message_durable spool_message_kept(2))

text \<open>With an empty spool file the replay changes nothing of interest.\<close>

definition spool_empty :: "publisher \<Rightarrow> bool" where
  "spool_empty p \<longleftrightarrow> (\<exists>s. pb_spool p = Some s \<and> spool_read_all s = Some [])"

lemma replay_empty:
  "spool_empty p \<Longrightarrow> replay_spool p resps = Returned (p\<lparr>pb_spool := Some None\<rparr>)"
  by (auto simp: spool_empty_def replay_spool_def spool_replace_def)

lemma flush_empty:
  assumes "spool_empty p" "flush_buffer R S E p = Returned q"
  shows "secured p \<subseteq># kept q \<and> spool_ready q \<and> pb_buffer q = [] \<and> (inflight_ok p \<longrightarrow> inflight_ok q)"
proof -
  let ?p0 = "p\<lparr>pb_spool := Some None\<rparr>"
  obtain q1 rs' where all: "produce_all R (fe_text E) S ?p0 (pb_buffer p) (fe_resps E) = Some (q1, rs')"
    and q: "q = (serve (q1\<lparr>pb_buffer := []\<rparr>) (fe_reports E))\<lparr>pb_last_flush := fe_now E\<rparr>"
    using assms(2) replay_empty [OF assms(1)] by (auto simp: flush_buffer_def split: option.splits)
  have p0: "kept ?p0 = kept p" "spool_ready ?p0" "inflight_ok p \<longrightarrow> inflight_ok ?p0"
    using assms(1) by (auto simp: kept_def spool_empty_def spool_ready_def spool_contents_def
        spool_read_all_def spool_lines_def map_filter_def inflight_ok_def tokened_def)
  have all': "mset (pb_buffer p) + kept p \<subseteq># kept q1" "spool_ready q1"
    using produce_all_kept [OF all] p0 by simp_all
  let ?q2 = "q1\<lparr>pb_buffer := []\<rparr>"
  have q2: "kept ?q2 = kept q1" "spool_ready ?q2" "inflight_ok q1 \<longrightarrow> inflight_ok ?q2"
    using all' by (auto simp: kept_def spool_ready_def inflight_ok_def tokened_def)
  have q3: "kept q1 \<subseteq># kept (serve ?q2 (fe_reports E))" "spool_ready (serve ?q2 (fe_reports E))"
      "pb_buffer (serve ?q2 (fe_reports E)) = []"
    using serve_kept [OF q2(2), of "fe_reports E"] q2(1) by simp_all
  have eq: "kept q = kept (serve ?q2 (fe_reports E))" "spool_ready q = spool_ready (serve ?q2 (fe_reports E))"
      "pb_buffer q = pb_buffer (serve ?q2 (fe_reports E))"
      "inflight_ok q = inflight_ok (serve ?q2 (fe_reports E))"
    by (simp_all add: q kept_def spool_ready_def inflight_ok_def tokened_def)
  have "secured p \<subseteq># kept q"
    using subset_mset.order_trans [OF all'(1) q3(1)] by (simp add: secured_def eq add.commute)
  moreover have "inflight_ok p \<longrightarrow> inflight_ok q"
    using p0(3) produce_all_inflight [OF all] q2(3) serve_inflight eq(4) by blast
  ultimately show ?thesis using q3 eq by simp
qed

lemma final_flush_durable:
  assumes "spool_empty p" "inflight_ok p" "final_flush R S E rs p = Returned q"
  shows "secured p \<subseteq># durable q \<and> spool_ready q \<and> pb_buffer q = [] \<and> pb_inflight q = []"
proof -
  obtain q0 where fl: "flush_buffer R S E p = Returned q0"
    using assms(3) by (auto simp: final_flush_def split: outcome.splits)
  have q0: "secured p \<subseteq># kept q0" "spool_ready q0" "pb_buffer q0 = []" "inflight_ok q0"
    using flush_empty [OF assms(1) fl] assms(2) by auto
  define q1 where "q1 = serve q0 rs"
  define q2 where "q2 = q1\<lparr>pb_inflight := []\<rparr>"
  have q1: "kept q0 \<subseteq># kept q1" "spool_ready q1" "pb_buffer q1 = []" "inflight_ok q1"
    using serve_kept [OF q0(2), of rs] q0 by (simp_all add: q1_def serve_inflight)
  have q2: "spool_ready q2" "durable q2 = durable q1" "pb_inflight q2 = []" "pb_buffer q2 = []"
    "pb_spool q2 \<noteq> None"
    using q1 by (auto simp: q2_def spool_ready_def durable_def)
  have q: "q = foldl spool_message q2 (map snd (pb_inflight q1))"
    using assms(3) q2(5) fl by (auto simp: final_flush_def Let_def q1_def q2_def split: if_splits)
  have "kept q1 = mset (map snd (pb_inflight q1)) + durable q1"
    using q1(4) by (simp add: kept_durable inflight_ok_def mset_map)
  also have "\<dots> = durable q"
    using spool_messages_durable [OF q2(1)] by (simp add: q q2(2))
  finally have "secured p \<subseteq># durable q"
    using subset_mset.order_trans [OF q0(1) q1(1)] by simp
  moreover have "spool_ready r \<Longrightarrow> spool_ready (foldl spool_message r ms)
      \<and> pb_buffer (foldl spool_message r ms) = pb_buffer r
      \<and> pb_inflight (foldl spool_message r ms) = pb_inflight r" for r ms
  proof (induction ms arbitrary: r)
    case (Cons m ms)
    have "pb_inflight (spool_message r m) = pb_inflight r"
      by (simp add: spool_message_def count_metric_def split: option.split)
    with Cons show ?case by (simp add: spool_message_kept)
  qed simp
  ultimately show ?thesis using q2 by (simp add: q)
qed

text \<open>A retry ends as soon as the queue has room or the library reports any other error.\<close>

text \<open>Where the last answer puts the message: at the end of the queue with its entry in the in-flight
  table, or at the end of the spool file.\<close>

definition message_settled :: "kresp \<Rightarrow> msg \<Rightarrow> publisher \<Rightarrow> bool" where
  "message_settled r m q \<longleftrightarrow>
     (case r of
        KAccept \<Rightarrow> (\<exists>hs. pb_queue q = hs @ [\<lparr>h_msg = m, h_token = Some (pb_next_token q), h_spool = True\<rparr>])
          \<and> map_of (pb_inflight q) (pb_next_token q) = Some m
      | KFull reports \<Rightarrow> False
      | KError e reports \<Rightarrow> (\<exists>s ms. pb_spool q = Some s \<and> spool_contents s = ms @ [m]))"

lemma spool_message_settled:
  assumes "spool_ready p"
  shows "message_settled (KError e reports) m (spool_message p m)"
proof -
  obtain s rs where s: "pb_spool p = Some s" "spool_read_all s = Some rs"
    using assms by (auto simp: spool_ready_def)
  then show ?thesis by (simp add: message_settled_def spool_message_def spool_contents_append count_metric_def)
qed

lemma produce_attempts_returns:
  assumes "spool_ready p" "\<forall>rep. r \<noteq> KFull rep"
  shows "\<exists>q. produce_attempts R now S p m origin (map KFull fulls @ r # rs) = Some (q, rs) \<and> message_settled r m q"
  using assms(1)
proof (induction fulls arbitrary: p)
  case Nil
  show ?case
  proof (cases r)
    case KAccept
    then show ?thesis by (simp add: Let_def message_settled_def enqueue_def update_conv)
  next
    case (KFull rep)
    with assms(2) show ?thesis by blast
  next
    case (KError e rep)
    let ?p1 = "p\<lparr>pb_next_token := Suc (pb_next_token p),
      pb_inflight := dict_del (dict_set (pb_inflight p) (Suc (pb_next_token p)) m) (Suc (pb_next_token p))\<rparr>"
    have "spool_ready ?p1" using Nil by simp
    moreover from this have "pb_spool ?p1 \<noteq> None" by (auto simp: spool_ready_def)
    ultimately show ?thesis using spool_message_settled [of ?p1 e rep m] KError by (simp add: Let_def)
  qed
next
  case (Cons f fulls)
  have "spool_ready (serve (p\<lparr>pb_next_token := t, pb_inflight := fl\<rparr>) f)" for t fl
    using Cons.prems serve_kept [of "p\<lparr>pb_next_token := t, pb_inflight := fl\<rparr>" f] by simp
  from Cons.IH [OF this] show ?case by (simp add: Let_def)
qed

section \<open>Replay, message by message\<close>

text \<open>The number of records cut by \<open>k\<close> deliveries in a row, from position \<open>i\<close> on.\<close>

fun cut_by :: "nat \<Rightarrow> nat \<Rightarrow> nat" where
  "cut_by i 0 = 0"
| "cut_by i (Suc k) = Suc i + cut_by (Suc i) k"

lemma replay_delivers:
  "k \<le> length ms \<Longrightarrow>
   \<exists>p'. replay_loop p i (map spool_record ms) remaining (replicate k (RReport [] None) @ [RRaise])
        = Some (p', drop (cut_by i k) remaining)
      \<and> pb_delivered p' = pb_delivered p @ take k ms \<and> pb_spool p' = pb_spool p
      \<and> pb_queue p' = pb_queue p \<and> pb_overflow p' = pb_overflow p"
proof (induction k arbitrary: p i ms remaining)
  case 0
  then show ?case by (cases ms) (simp_all add: replay_one_def)
next
  case (Suc k)
  then obtain m ms' where ms: "ms = m # ms'" "k \<le> length ms'" by (cases ms) auto
  let ?p = "count_metric ''edge_store_forward_replayed_total'' [fst m] (p\<lparr>pb_delivered := pb_delivered p @ [m]\<rparr>)"
  from Suc.IH [OF ms(2), of ?p "Suc i" "drop (Suc i) remaining"]
  show ?case
    by (auto simp: ms replay_one_def serve_def delivery_report_def Let_def count_metric_def add.commute)
qed

lemma cut_by_double: "2 * cut_by i k = 2 * k * i + k * (k + 1)"
proof (induction k arbitrary: i)
  case (Suc k)
  from Suc [of "Suc i"] show ?case by simp
qed simp

lemma triangle: "cut_by 0 k = k * (k + 1) div 2"
  using cut_by_double [of 0 k] by simp

lemma replay_loop_suffix:
  "replay_loop p i rs remaining resps = Some (q, out) \<Longrightarrow> \<exists>n. out = drop n remaining"
proof (induction p i rs remaining resps rule: replay_loop.induct)
  case (1 p i remaining resps)
  then show ?case using drop0 by (metis option.inject prod.inject replay_loop.simps(1))
next
  case (2 p i r rs remaining resps)
  obtain m where m: "spool_decode r = Some m" using "2.prems" by (auto split: option.splits)
  define resp where "resp = (case resps of [] \<Rightarrow> RTimeout [] | x # _ \<Rightarrow> x)"
  obtain p' ok where one: "replay_one p m resp = (p', ok)" by fastforce
  show ?case
  proof (cases ok)
    case True
    have "\<exists>n. out = drop n (drop (Suc i) remaining)"
      using "2.IH" [OF m resp_def one [symmetric] refl True] "2.prems" m one True
      unfolding resp_def by (simp add: Let_def)
    then show ?thesis by (metis drop_drop)
  next
    case False
    then have "out = drop 0 remaining"
      using "2.prems" m one unfolding resp_def by (simp add: Let_def)
    then show ?thesis ..
  qed
qed

section \<open>Properties\<close>

text \<open>
  Claim C1. A shutdown loses nothing: with store and forward configured and an empty spool file, when
  the final flush returns, every message that was buffered, queued, acknowledged or counted as
  overflow before is acknowledged, in the spool file, or counted as overflow, whatever the producer
  answered; the buffer and the in-flight table are empty and the spool file reads back.
\<close>

theorem shutdown_loses_nothing:
  assumes "spool_empty p" "inflight_ok p" "final_flush R S E rs p = Returned q"
  shows "secured p \<subseteq># durable q \<and> spool_ready q \<and> pb_buffer q = [] \<and> pb_inflight q = []"
  using assms by (rule final_flush_durable)

definition demo_settings :: settings where
  "demo_settings = \<lparr>raw_topic = ''raw'', normalized_topic = ''norm'', legacy_topic = ''leg'',
     dlq_topic = ''dlq'', max_message_bytes = 100, clock_mode = ''observe'',
     max_clock_offset_seconds = 300, batch_size = 2, flush_interval_ms = 1000\<rparr>"

definition demo_publisher :: publisher where
  "demo_publisher = \<lparr>pb_buffer = [(''norm'', ''k'', ''a''), (''leg'', ''k'', ''b'')], pb_last_flush = 0,
     pb_inflight = [], pb_next_token = 0, pb_spool = Some None, pb_queue = [], pb_delivered = [],
     pb_overflow = [], pb_metrics = []\<rparr>"

definition demo_env :: flush_env where
  "demo_env = \<lparr>fe_replay = [], fe_resps = [KFull [], KAccept, KAccept], fe_reports = [(0, None)],
     fe_now = 1, fe_text = ''now''\<rparr>"

lemma demo_ok: "spool_empty demo_publisher" "inflight_ok demo_publisher"
  by (simp_all add: demo_publisher_def spool_empty_def spool_read_all_def spool_lines_def
      inflight_ok_def tokened_def)

lemma demo_shutdown: "\<exists>q. final_flush demo_rt demo_settings demo_env [] demo_publisher = Returned q"
  by (simp add: final_flush_def flush_buffer_def replay_empty [OF demo_ok(1)] demo_env_def
      produce_safe_def Let_def serve_def serve_report_def enqueue_def)
    (simp add: demo_publisher_def demo_settings_def produce_safe_def Let_def enqueue_def
      serve_def serve_report_def delivery_report_def)

theorem shutdown_loses_nothing_witness:
  "\<exists>q. final_flush demo_rt demo_settings demo_env [] demo_publisher = Returned q
     \<and> {#(''norm'', ''k'', ''a''), (''leg'', ''k'', ''b'')#} \<subseteq># durable q"
proof -
  obtain q where q: "final_flush demo_rt demo_settings demo_env [] demo_publisher = Returned q"
    using demo_shutdown by blast
  from shutdown_loses_nothing [OF demo_ok q]
  have "secured demo_publisher \<subseteq># durable q" by blast
  moreover have "secured demo_publisher = {#(''norm'', ''k'', ''a''), (''leg'', ''k'', ''b'')#}"
    by (simp add: secured_def kept_def demo_publisher_def spool_contents_def spool_read_all_def
        spool_lines_def map_filter_def)
  ultimately show ?thesis using q by auto
qed

text \<open>
  Claim C40. The backpressure loop ends and keeps the message: with store and forward on and a message
  within the size limit, after any number of full-queue answers, whatever deliveries and failures each
  of them reports, the first other answer of the producer makes the call return, having used exactly
  those answers. The message is then at the end of the queue with its in-flight entry when that answer
  accepts it, and at the end of the spool file when it is an error; every message that was queued,
  acknowledged, spooled or counted still is, and the in-flight table has one entry per queued message.
\<close>

theorem backpressure_returns:
  assumes "spool_ready p" "inflight_ok p" "\<forall>rep. r \<noteq> KFull rep"
    and "int (length (snd (snd m))) \<le> max_message_bytes S"
  shows "\<exists>q. produce_safe R now S p m origin (map KFull fulls @ r # rs) = Some (q, rs) \<and> message_settled r m q
    \<and> add_mset m (kept p) \<subseteq># kept q \<and> spool_ready q \<and> inflight_ok q \<and> pb_buffer q = pb_buffer p"
proof -
  obtain q where q: "produce_safe R now S p m origin (map KFull fulls @ r # rs) = Some (q, rs)" "message_settled r m q"
    using produce_attempts_returns [OF assms(1,3), of R now S m origin fulls rs] assms(4)
    unfolding produce_safe_def by (metis not_less)
  from q produce_safe_kept [OF q(1) assms(1)] produce_safe_inflight [OF q(1) assms(2)] show ?thesis by blast
qed

theorem backpressure_returns_witness:
  "\<exists>q. produce_safe demo_rt ''now'' demo_settings demo_publisher (''t'', ''k'', ''v'') ''o''
     ([KFull [], KFull [(0, None)]] @ KError ''KafkaException'' [] # []) = Some (q, [])
     \<and> message_settled (KError ''KafkaException'' []) (''t'', ''k'', ''v'') q"
proof -
  have "spool_ready demo_publisher" "\<forall>rep. KError ''KafkaException'' [] \<noteq> KFull rep"
    "int (length (snd (snd (''t'', ''k'', ''v'')))) \<le> max_message_bytes demo_settings"
    by (simp_all add: demo_publisher_def demo_settings_def spool_ready_def spool_read_all_def spool_lines_def)
  from backpressure_returns [OF this(1) demo_ok(2) this(2,3), of demo_rt "''now''" "''o''" "[[], [(0, None)]]" "[]"]
  show ?thesis by auto
qed

text \<open>
  What a partial replay leaves: when the broker acknowledges the first \<open>k\<close> spooled
  messages and the next \<open>produce\<close> fails, \<open>k\<close> messages are delivered but the spool file keeps only
  the records from position \<open>k (k + 1) / 2\<close> on, because each delivery cuts the list that the
  earlier ones have already shortened. From \<open>k = 2\<close> on, records in between are lost.
\<close>

theorem partial_replay:
  assumes "pb_spool p = Some s" "spool_read_all s = Some (map spool_record ms)" "k \<le> length ms"
  shows "\<exists>q s'. replay_spool p (replicate k (RReport [] None) @ [RRaise]) = Returned q
    \<and> pb_delivered q = pb_delivered p @ take k ms \<and> pb_queue q = pb_queue p \<and> pb_overflow q = pb_overflow p
    \<and> pb_spool q = Some s' \<and> spool_contents s' = drop (k * (k + 1) div 2) ms"
proof -
  obtain p' where p': "replay_loop p 0 (map spool_record ms) (map spool_record ms)
        (replicate k (RReport [] None) @ [RRaise])
      = Some (p', drop (k * (k + 1) div 2) (map spool_record ms))"
    and f: "pb_delivered p' = pb_delivered p @ take k ms" "pb_spool p' = pb_spool p"
      "pb_queue p' = pb_queue p" "pb_overflow p' = pb_overflow p"
    using replay_delivers [OF assms(3), of p 0 "map spool_record ms"] unfolding triangle by blast
  have "spool_contents (spool_replace s (map spool_record xs)) = xs" for xs
    by (simp add: spool_contents_def disk.read_replace map_filter_map_filter map_filter_def
        comp_def del: not_None_eq split_paired_Ex)
  then show ?thesis
    using f by (simp add: replay_spool_def assms p' drop_map)
qed

theorem partial_replay_witness:
  "\<exists>q s'. replay_spool (demo_publisher\<lparr>pb_spool := Some (foldl spool_append None
       [(''t'', ''k'', ''1''), (''t'', ''k'', ''2''), (''t'', ''k'', ''3''), (''t'', ''k'', ''4'')])\<rparr>)
     [RReport [] None, RReport [] None, RRaise] = Returned q
   \<and> pb_delivered q = [(''t'', ''k'', ''1''), (''t'', ''k'', ''2'')]
   \<and> pb_spool q = Some s' \<and> spool_contents s' = [(''t'', ''k'', ''4'')]"
proof -
  let ?ms = "[(''t'', ''k'', ''1''), (''t'', ''k'', ''2''), (''t'', ''k'', ''3''), (''t'', ''k'', ''4'')]"
  let ?s = "foldl spool_append None ?ms"
  have "spool_read_all None = Some []" by (simp add: spool_read_all_def spool_lines_def)
  from disk.read_append_all [OF this, of ?ms]
  have "spool_read_all ?s = Some (map spool_record ?ms)" by simp
  moreover have "replicate 2 x = [x, x]" for x :: rresp
    by (simp add: numeral_2_eq_2)
  ultimately show ?thesis
    using partial_replay [of "demo_publisher\<lparr>pb_spool := Some ?s\<rparr>" ?s ?ms 2]
    by (auto simp: demo_publisher_def)
qed

text \<open>
  A replay only ever shortens the spool: when it returns, the file holds a suffix of the
  records it held before. So a message whose delivery failure is spooled while the replay polls is
  not in the file afterwards.
\<close>

theorem replay_shortens:
  assumes "pb_spool p = Some s" "spool_read_all s = Some rs" "replay_spool p resps = Returned q"
    and "pb_spool q = Some s'"
  shows "\<exists>n. spool_read_all s' = Some (drop n rs)"
proof -
  obtain p' out where loop: "replay_loop p 0 rs rs resps = Some (p', out)"
    and q: "q = p'\<lparr>pb_spool := map_option (\<lambda>s. spool_replace s out) (pb_spool p')\<rparr>"
    using assms(1-3) by (auto simp: replay_spool_def split: option.splits)
  obtain n where "out = drop n rs" using replay_loop_suffix [OF loop] by blast
  moreover have "spool_read_all s' = Some out"
    using q assms(4) by (auto simp: disk.read_replace)
  ultimately show ?thesis by blast
qed

theorem replay_shortens_witness:
  "\<exists>q. replay_spool (demo_publisher\<lparr>
        pb_spool := Some (Some [Doc (spool_record (''t'', ''k'', ''old''))]),
        pb_queue := [\<lparr>h_msg = (''t'', ''k'', ''new''), h_token = Some 1, h_spool = True\<rparr>],
        pb_inflight := [(1, (''t'', ''k'', ''new''))]\<rparr>)
      [RReport [(0, Some ''timed out'')] None] = Returned q
    \<and> pb_spool q = Some None \<and> pb_queue q = [] \<and> pb_inflight q = []
    \<and> pb_delivered q = [(''t'', ''k'', ''old'')]"
proof -
  let ?p = "demo_publisher\<lparr>
        pb_spool := Some (Some [Doc (spool_record (''t'', ''k'', ''old''))]),
        pb_queue := [\<lparr>h_msg = (''t'', ''k'', ''new''), h_token = Some 1, h_spool = True\<rparr>],
        pb_inflight := [(1, (''t'', ''k'', ''new''))]\<rparr>"
  let ?r = "spool_record (''t'', ''k'', ''old'')"
  obtain q where q: "replay_spool ?p [RReport [(0, Some ''timed out'')] None] = Returned q
      \<and> pb_spool q = Some None \<and> pb_queue q = [] \<and> pb_inflight q = []
      \<and> pb_delivered q = [(''t'', ''k'', ''old'')]"
    by (simp add: replay_spool_def spool_read_all_def spool_lines_def replay_one_def serve_def
        serve_report_def delivery_report_def spool_message_def count_metric_def Let_def demo_publisher_def
        spool_replace_def)
  have "spool_read_all (Some [Doc ?r]) = Some [?r]"
    by (simp add: spool_read_all_def spool_lines_def)
  then have "\<exists>n. spool_read_all None = Some (drop n [?r])"
    using replay_shortens [of ?p "Some [Doc ?r]" "[?r]" "[RReport [(0, Some ''timed out'')] None]" q None] q by simp
  with q show ?thesis by blast
qed

end
