(* ===== verification/Threshold_Policy.thy ===== *)
theory Threshold_Policy
  imports Py_Prelude
begin

text \<open>
  Alarm evaluation (\<open>services/common/threshold_policy.py\<close>): validation of a policy, the instant
  evaluation of a value, the debounced transition with deadband and on/off delays, and the
  process-local runtime that keeps the transition state per stream. A policy is the dictionary the
  API and the synchronization exchange; \<open>policy_view\<close> reads from it the fields evaluation uses.
  The tag limits of an asset manifest (\<open>services/assets/model.py\<close>) grade a value the same way.
\<close>

section \<open>Severities\<close>

datatype severity = Normal | Warning | Critical

text \<open>\<open>severity_rank\<close> of the runtime pipeline; severities are compared by it.\<close>

definition severity_rank :: "severity \<Rightarrow> nat" where
  "severity_rank s = (case s of Normal \<Rightarrow> 0 | Warning \<Rightarrow> 1 | Critical \<Rightarrow> 2)"

lemma severity_rank_inject: "severity_rank s = severity_rank t \<longleftrightarrow> s = t"
  by (cases s; cases t) (simp_all add: severity_rank_def)

instantiation severity :: linorder
begin

definition less_eq_severity :: "severity \<Rightarrow> severity \<Rightarrow> bool" where
  "less_eq_severity s t \<longleftrightarrow> severity_rank s \<le> severity_rank t"

definition less_severity :: "severity \<Rightarrow> severity \<Rightarrow> bool" where
  "less_severity s t \<longleftrightarrow> severity_rank s < severity_rank t"

instance
  by standard (auto simp: less_eq_severity_def less_severity_def severity_rank_inject)

end

lemma severity_order [simp]:
  "Normal \<le> s" "s \<le> Critical" "Warning \<le> Normal \<longleftrightarrow> False" "Critical \<le> Warning \<longleftrightarrow> False"
  "Critical \<le> Normal \<longleftrightarrow> False" "Warning \<le> Critical" "Normal < Warning" "Warning < Critical"
  by (cases s; simp add: less_eq_severity_def less_severity_def severity_rank_def)+

definition severity_text :: "severity \<Rightarrow> string" where
  "severity_text s = (case s of Normal \<Rightarrow> ''normal'' | Warning \<Rightarrow> ''warning'' | Critical \<Rightarrow> ''critical'')"

section \<open>Policies\<close>

definition POLICY_MODES :: "string list" where
  "POLICY_MODES = [''above'', ''below'', ''outside_range'', ''between_range'', ''bad_quality'']"

datatype policy_error =
    UnsupportedMode string
  | NotNumeric string
  | NegativeField string
  | WarningOrder
  | CriticalOrder
  | ScopeRequired
  | KeyError string

text \<open>\<open>_number\<close>.\<close>

definition number :: "pyrt \<Rightarrow> string \<Rightarrow> pyval \<Rightarrow> policy_error + rat option" where
  "number R field v =
     (if v = PNone \<or> v = PStr [] then Inr None
      else (case py_float R v of None \<Rightarrow> Inl (NotNumeric field) | Some r \<Rightarrow> Inr (Some r)))"

definition num_val :: "rat option \<Rightarrow> pyval" where
  "num_val r = (case r of None \<Rightarrow> PNone | Some x \<Rightarrow> PFloat x)"

fun set_limits :: "pyrt \<Rightarrow> pydict \<Rightarrow> string list \<Rightarrow> pydict \<Rightarrow> policy_error + pydict" where
  "set_limits R policy [] acc = Inr acc"
| "set_limits R policy (f # fs) acc =
     res_bind (number R f (pget policy f)) (\<lambda>v. set_limits R policy fs (dict_set acc f (num_val v)))"

fun set_durations :: "pyrt \<Rightarrow> pydict \<Rightarrow> string list \<Rightarrow> pydict \<Rightarrow> policy_error + pydict" where
  "set_durations R policy [] acc = Inr acc"
| "set_durations R policy (f # fs) acc =
     (case py_float R (py_or (dict_getd policy f (PInt 0)) (PInt 0)) of
        None \<Rightarrow> Inl (NotNumeric f)
      | Some v \<Rightarrow>
          if v < 0 then Inl (NegativeField f)
          else set_durations R policy fs (dict_set acc f (PFloat v)))"

definition limit_of :: "pydict \<Rightarrow> string \<Rightarrow> rat option" where
  "limit_of d f = (case pget d f of PFloat r \<Rightarrow> Some r | PInt i \<Rightarrow> Some (of_int i) | _ \<Rightarrow> None)"

definition out_of_order :: "rat option \<Rightarrow> rat option \<Rightarrow> bool" where
  "out_of_order low high = (case (low, high) of (Some l, Some h) \<Rightarrow> h < l | _ \<Rightarrow> False)"

definition LIMIT_FIELDS :: "string list" where
  "LIMIT_FIELDS = [''warning_low'', ''warning_high'', ''critical_low'', ''critical_high'']"

definition DURATION_FIELDS :: "string list" where
  "DURATION_FIELDS = [''deadband'', ''on_delay_seconds'', ''off_delay_seconds'']"

definition validate_policy :: "pyrt \<Rightarrow> pydict \<Rightarrow> policy_error + pydict" where
  "validate_policy R policy =
     (let mode = py_str R (dict_getd policy ''mode'' (PStr ''outside_range'')) in
      if mode \<notin> set POLICY_MODES then Inl (UnsupportedMode mode)
      else res_bind
        (set_limits R policy LIMIT_FIELDS policy)
        (\<lambda>n1. res_bind
          (set_durations R policy DURATION_FIELDS n1)
          (\<lambda>n. if out_of_order (limit_of n ''warning_low'') (limit_of n ''warning_high'') then Inl WarningOrder
               else if out_of_order (limit_of n ''critical_low'') (limit_of n ''critical_high'') then Inl CriticalOrder
               else Inr (dict_set
                 (dict_set n ''enabled'' (PBool (truthy (dict_getd policy ''enabled'' (PBool True)))))
                 ''source'' (PStr (py_str R (dict_getd policy ''source'' (PStr ''user''))))))))"

text \<open>What evaluation reads of a policy; an absent key reads as the default the code gives it.\<close>

record tpolicy =
  p_enabled :: bool
  p_configured :: bool
  p_mode :: string
  warning_low :: "rat option"
  warning_high :: "rat option"
  critical_low :: "rat option"
  critical_high :: "rat option"
  p_deadband :: rat
  on_delay :: rat
  off_delay :: rat

definition duration_of :: "pydict \<Rightarrow> string \<Rightarrow> rat" where
  "duration_of d f = (case limit_of d f of None \<Rightarrow> 0 | Some r \<Rightarrow> r)"

definition policy_view :: "pyrt \<Rightarrow> pydict \<Rightarrow> tpolicy" where
  "policy_view R d =
     \<lparr>p_enabled = truthy (dict_getd d ''enabled'' (PBool False)),
      p_configured = truthy (dict_getd d ''configured'' (PBool False)),
      p_mode = py_str R (dict_getd d ''mode'' (PStr ''outside_range'')),
      warning_low = limit_of d ''warning_low'', warning_high = limit_of d ''warning_high'',
      critical_low = limit_of d ''critical_low'', critical_high = limit_of d ''critical_high'',
      p_deadband = duration_of d ''deadband'',
      on_delay = duration_of d ''on_delay_seconds'', off_delay = duration_of d ''off_delay_seconds''\<rparr>"

definition wf_policy :: "tpolicy \<Rightarrow> bool" where
  "wf_policy p \<longleftrightarrow> p_mode p \<in> set POLICY_MODES
     \<and> \<not> out_of_order (warning_low p) (warning_high p)
     \<and> \<not> out_of_order (critical_low p) (critical_high p)
     \<and> 0 \<le> p_deadband p \<and> 0 \<le> on_delay p \<and> 0 \<le> off_delay p"

lemma set_limits_frame:
  "set_limits R policy fs acc = Inr n \<Longrightarrow> k \<notin> set fs \<Longrightarrow> map_of n k = map_of acc k"
  by (induction fs arbitrary: acc) (auto simp: fun_upd_apply)

lemma set_durations_frame:
  "set_durations R policy fs acc = Inr n \<Longrightarrow> k \<notin> set fs \<Longrightarrow> map_of n k = map_of acc k"
  by (induction fs arbitrary: acc) (auto split: option.splits if_splits)

lemma set_durations_nonneg:
  "set_durations R policy fs acc = Inr n \<Longrightarrow> k \<in> set fs \<Longrightarrow> \<exists>r\<ge>0. map_of n k = Some (PFloat r)"
proof (induction fs arbitrary: acc)
  case Nil
  then show ?case by simp
next
  case (Cons f fs)
  then obtain v where v: "0 \<le> v"
    and rest: "set_durations R policy fs (dict_set acc f (PFloat v)) = Inr n"
    by (auto simp: not_less split: option.splits if_splits)
  show ?case
  proof (cases "k \<in> set fs")
    case True
    with rest Cons.IH show ?thesis by blast
  next
    case False
    with Cons.prems have "k = f" by simp
    with False rest v show ?thesis
      using set_durations_frame [OF rest False] by auto
  qed
qed

lemma validated_duration:
  assumes "set_durations R policy fs acc = Inr n" "k \<in> set fs"
  shows "0 \<le> duration_of n k"
  using set_durations_nonneg [OF assms]
  by (auto simp: duration_of_def limit_of_def pget_def dict_getd_def)

lemma dict_getd_cong: "map_of d k = map_of e k \<Longrightarrow> dict_getd d k v = dict_getd e k v"
  by (simp add: dict_getd_def)

section \<open>Instant evaluation\<close>

datatype tstatus = StUnconfigured | StDisabled | StNormal | StBreached | StPending

record tresult =
  t_severity :: severity
  t_status :: tstatus
  t_breached :: bool

definition at_or_above :: "rat \<Rightarrow> rat option \<Rightarrow> bool" where
  "at_or_above v b = (case b of None \<Rightarrow> False | Some x \<Rightarrow> x \<le> v)"

definition at_or_below :: "rat \<Rightarrow> rat option \<Rightarrow> bool" where
  "at_or_below v b = (case b of None \<Rightarrow> False | Some x \<Rightarrow> v \<le> x)"

text \<open>\<open>_outside\<close>.\<close>

definition outside :: "rat \<Rightarrow> rat option \<Rightarrow> rat option \<Rightarrow> bool" where
  "outside v low high = (at_or_below v low \<or> at_or_above v high)"

definition between :: "rat \<Rightarrow> rat option \<Rightarrow> rat option \<Rightarrow> bool" where
  "between v low high =
     (case (low, high) of (Some l, Some h) \<Rightarrow> l \<le> v \<and> v \<le> h | _ \<Rightarrow> False)"

definition breach_result :: "severity \<Rightarrow> tresult" where
  "breach_result s =
     \<lparr>t_severity = s, t_status = (if s \<noteq> Normal then StBreached else StNormal), t_breached = (s \<noteq> Normal)\<rparr>"

definition grade :: "bool \<Rightarrow> bool \<Rightarrow> severity" where
  "grade critical warning = (if critical then Critical else if warning then Warning else Normal)"

definition evaluate_threshold :: "rat \<Rightarrow> tpolicy \<Rightarrow> string \<Rightarrow> tresult" where
  "evaluate_threshold v p quality =
     (if \<not> p_enabled p then
        \<lparr>t_severity = Normal, t_status = (if p_configured p then StDisabled else StUnconfigured),
         t_breached = False\<rparr>
      else if p_mode p = ''bad_quality'' then
        breach_result (if py_lower quality \<notin> {''good'', ''ok'', ''valid''} then Critical else Normal)
      else if p_mode p = ''above'' then
        breach_result (grade (at_or_above v (critical_high p)) (at_or_above v (warning_high p)))
      else if p_mode p = ''below'' then
        breach_result (grade (at_or_below v (critical_low p)) (at_or_below v (warning_low p)))
      else if p_mode p = ''between_range'' then
        breach_result (grade (between v (critical_low p) (critical_high p))
          (between v (warning_low p) (warning_high p)))
      else
        breach_result (grade (outside v (critical_low p) (critical_high p))
          (outside v (warning_low p) (warning_high p))))"

text \<open>The manifest's own grading of a tag value (\<open>TagMetadata.severity_for\<close>).\<close>

record tag_metadata =
  tm_name :: string
  tm_unit :: string
  tm_warning_low :: rat
  tm_warning_high :: rat
  tm_critical_low :: rat
  tm_critical_high :: rat

definition tag_severity_for :: "tag_metadata \<Rightarrow> rat \<Rightarrow> severity" where
  "tag_severity_for m v =
     (if v \<le> tm_critical_low m \<or> tm_critical_high m \<le> v then Critical
      else if v \<le> tm_warning_low m \<or> tm_warning_high m \<le> v then Warning
      else Normal)"

lemma breach_result_sel [simp]:
  "t_severity (breach_result s) = s"
  "t_breached (breach_result s) \<longleftrightarrow> s \<noteq> Normal"
  "t_status (breach_result s) = (if s \<noteq> Normal then StBreached else StNormal)"
  by (simp_all add: breach_result_def)

lemma grade_mono: "c \<le> c' \<Longrightarrow> w \<le> w' \<Longrightarrow> grade c w \<le> grade c' w'"
  by (auto simp: grade_def)

lemma evaluate_coherent:
  "t_breached (evaluate_threshold v p q) \<longleftrightarrow> t_severity (evaluate_threshold v p q) \<noteq> Normal"
  "t_status (evaluate_threshold v p q) = StBreached \<longleftrightarrow> t_severity (evaluate_threshold v p q) \<noteq> Normal"
  "t_status (evaluate_threshold v p q) \<noteq> StPending"
  by (simp_all add: evaluate_threshold_def)

section \<open>Transitions\<close>

definition near_boundary :: "rat \<Rightarrow> tpolicy \<Rightarrow> bool" where
  "near_boundary v p =
     (\<exists>b \<in> set [warning_low p, warning_high p].
        case b of None \<Rightarrow> False | Some x \<Rightarrow> \<bar>v - x\<bar> \<le> p_deadband p)"

definition hold_candidate :: "severity \<Rightarrow> rat \<Rightarrow> tpolicy \<Rightarrow> severity \<Rightarrow> severity" where
  "hold_candidate prev v p candidate =
     (if candidate = Normal \<and> prev \<noteq> Normal \<and> p_deadband p \<noteq> 0 \<and> near_boundary v p then prev
      else candidate)"

definition transition_threshold_state ::
    "severity \<Rightarrow> rat option \<Rightarrow> rat \<Rightarrow> tpolicy \<Rightarrow> string \<Rightarrow> rat \<Rightarrow> tresult \<times> severity option \<times> rat option" where
  "transition_threshold_state prev since0 v p quality clock =
     (let instant = evaluate_threshold v p quality;
          candidate = hold_candidate prev v p (t_severity instant)
      in if candidate = prev then
           (\<lparr>t_severity = prev,
             t_status = (if prev \<noteq> Normal then StBreached else t_status instant),
             t_breached = (prev \<noteq> Normal)\<rparr>, None, None)
         else
           (let delay = (if candidate = Normal then off_delay p else on_delay p);
                since = (case since0 of None \<Rightarrow> clock | Some t \<Rightarrow> t)
            in if 0 < delay \<and> clock - since < delay then
                 (\<lparr>t_severity = prev, t_status = StPending, t_breached = (prev \<noteq> Normal)\<rparr>,
                  Some candidate, Some since)
               else (breach_result candidate, None, None)))"

record tstate =
  s_severity :: severity
  s_candidate :: "severity option"
  s_since :: "rat option"

definition initial_tstate :: tstate where
  "initial_tstate = \<lparr>s_severity = Normal, s_candidate = None, s_since = None\<rparr>"

type_synonym runtime_state = "(string \<times> tstate) list"

text \<open>The step of one stream, and the process-wide dictionary of streams.\<close>

definition tstate_step :: "tpolicy \<Rightarrow> tstate \<Rightarrow> rat \<times> rat \<times> string \<Rightarrow> tresult \<times> tstate" where
  "tstate_step p s x =
     (case x of (clock, v, quality) \<Rightarrow>
        (let candidate = t_severity (evaluate_threshold v p quality);
             since = (if s_candidate s = Some candidate then s_since s else None);
             (result, c, t) = transition_threshold_state (s_severity s) since v p quality clock
         in (result, \<lparr>s_severity = t_severity result, s_candidate = c, s_since = t\<rparr>)))"

definition evaluate_threshold_runtime ::
    "runtime_state \<Rightarrow> string \<Rightarrow> rat \<Rightarrow> tpolicy \<Rightarrow> string \<Rightarrow> rat \<Rightarrow> tresult \<times> runtime_state" where
  "evaluate_threshold_runtime st key v p quality clock =
     (let previous = dict_getd st key initial_tstate;
          (result, s) = tstate_step p previous (clock, v, quality)
      in (result, dict_set st key s))"

definition clear_threshold_runtime_state :: "runtime_state \<Rightarrow> string \<Rightarrow> runtime_state" where
  "clear_threshold_runtime_state st key = dict_del st key"

text \<open>A run of one stream: samples (clock, value, quality), oldest first.\<close>

definition tstate_run :: "tpolicy \<Rightarrow> tstate \<Rightarrow> (rat \<times> rat \<times> string) list \<Rightarrow> tstate" where
  "tstate_run p s xs = foldl (\<lambda>s x. snd (tstate_step p s x)) s xs"

definition instant :: "tpolicy \<Rightarrow> rat \<times> rat \<times> string \<Rightarrow> severity" where
  "instant p x = (case x of (_, v, quality) \<Rightarrow> t_severity (evaluate_threshold v p quality))"

definition delay_for :: "tpolicy \<Rightarrow> severity \<Rightarrow> rat" where
  "delay_for p s = (if s = Normal then off_delay p else on_delay p)"

lemma tstate_run_snoc [simp]: "tstate_run p s (xs @ [x]) = snd (tstate_step p (tstate_run p s xs) x)"
  by (simp add: tstate_run_def)

lemma tstate_run_Nil [simp]: "tstate_run p s [] = s"
  by (simp add: tstate_run_def)

lemma hold_candidate_cases: "hold_candidate prev v p c = prev \<or> hold_candidate prev v p c = c"
  by (simp add: hold_candidate_def)

lemma hold_candidate_alarm [simp]: "c \<noteq> Normal \<Longrightarrow> hold_candidate prev v p c = c"
  by (simp add: hold_candidate_def)

text \<open>What a pending state remembers: the samples since which the candidate has held.\<close>

definition holds_since :: "tpolicy \<Rightarrow> (rat \<times> rat \<times> string) list \<Rightarrow> severity \<Rightarrow> rat \<Rightarrow> bool" where
  "holds_since p xs c t \<longleftrightarrow>
     (\<exists>ys zs. xs = ys @ zs \<and> zs \<noteq> [] \<and> (\<forall>z \<in> set zs. instant p z = c) \<and> fst (hd zs) = t)"

definition pending_ok :: "tpolicy \<Rightarrow> (rat \<times> rat \<times> string) list \<Rightarrow> tstate \<Rightarrow> bool" where
  "pending_ok p xs s \<longleftrightarrow>
     (case s_candidate s of None \<Rightarrow> s_since s = None
      | Some c \<Rightarrow> (\<exists>t. s_since s = Some t \<and> holds_since p xs c t))"

lemma holds_since_single: "instant p x = c \<Longrightarrow> holds_since p (xs @ [x]) c (fst x)"
  unfolding holds_since_def by (intro exI [of _ xs] exI [of _ "[x]"]) simp

lemma holds_since_snoc:
  assumes "holds_since p xs c t" "instant p x = c"
  shows "holds_since p (xs @ [x]) c t"
proof -
  obtain ys zs where "xs = ys @ zs" "zs \<noteq> []" "\<forall>z \<in> set zs. instant p z = c" "fst (hd zs) = t"
    using assms(1) by (auto simp: holds_since_def)
  with assms(2) show ?thesis
    unfolding holds_since_def by (intro exI [of _ ys] exI [of _ "zs @ [x]"]) simp
qed

text \<open>One step, by cases: the severity stays and nothing is pending, it stays and the instant
  severity is pending, or it becomes the instant severity.\<close>

lemma tstate_step_cases:
  fixes s :: tstate and x :: "rat \<times> rat \<times> string" and p :: tpolicy
  defines "c \<equiv> instant p x"
  defines "since \<equiv> (if s_candidate s = Some c then s_since s else None)"
  defines "t \<equiv> (case since of None \<Rightarrow> fst x | Some u \<Rightarrow> u)"
  shows "s_severity (snd (tstate_step p s x)) = t_severity (fst (tstate_step p s x))"
    and "snd (tstate_step p s x) = \<lparr>s_severity = s_severity s, s_candidate = None, s_since = None\<rparr>
       \<or> snd (tstate_step p s x) = \<lparr>s_severity = s_severity s, s_candidate = Some c, s_since = Some t\<rparr>
       \<or> (snd (tstate_step p s x) = \<lparr>s_severity = c, s_candidate = None, s_since = None\<rparr>
            \<and> (delay_for p c \<le> 0 \<or> delay_for p c \<le> fst x - t))"
proof -
  obtain clock v q where x: "x = (clock, v, q)" by (cases x)
  have c: "t_severity (evaluate_threshold v p q) = c"
    by (simp add: c_def x instant_def)
  show "s_severity (snd (tstate_step p s x)) = t_severity (fst (tstate_step p s x))"
    by (simp add: tstate_step_def x Let_def split: prod.split)
  show "snd (tstate_step p s x) = \<lparr>s_severity = s_severity s, s_candidate = None, s_since = None\<rparr>
       \<or> snd (tstate_step p s x) = \<lparr>s_severity = s_severity s, s_candidate = Some c, s_since = Some t\<rparr>
       \<or> (snd (tstate_step p s x) = \<lparr>s_severity = c, s_candidate = None, s_since = None\<rparr>
            \<and> (delay_for p c \<le> 0 \<or> delay_for p c \<le> fst x - t))"
    using hold_candidate_cases [of "s_severity s" v p c]
    by (auto simp: tstate_step_def x transition_threshold_state_def c Let_def since_def t_def
        delay_for_def not_less split: option.split)
qed

lemma pending_ok_step:
  assumes "pending_ok p xs s"
  shows "pending_ok p (xs @ [x]) (snd (tstate_step p s x))"
proof -
  let ?c = "instant p x"
  have "holds_since p (xs @ [x]) ?c
      (case (if s_candidate s = Some ?c then s_since s else None) of None \<Rightarrow> fst x | Some u \<Rightarrow> u)"
    using assms by (auto simp: pending_ok_def holds_since_single holds_since_snoc split: option.splits)
  then show ?thesis
    using tstate_step_cases(2) [where p = p and s = s and x = x] by (auto simp: pending_ok_def)
qed

lemma pending_ok_run: "pending_ok p xs (tstate_run p initial_tstate xs)"
proof (induction xs rule: rev_induct)
  case Nil
  then show ?case by (simp add: pending_ok_def initial_tstate_def)
next
  case (snoc x xs)
  then show ?case by (simp add: pending_ok_step)
qed

lemma validate_policy_facts:
  assumes "validate_policy R policy = Inr n"
  shows "wf_policy (policy_view R n)
    \<and> (\<forall>k. k \<notin> {''warning_low'', ''warning_high'', ''critical_low'', ''critical_high'', ''deadband'',
          ''on_delay_seconds'', ''off_delay_seconds'', ''enabled'', ''source''} \<longrightarrow> map_of n k = map_of policy k)"
proof -
  obtain n1 n2 where mode: "py_str R (dict_getd policy ''mode'' (PStr ''outside_range'')) \<in> set POLICY_MODES"
    and n1: "set_limits R policy LIMIT_FIELDS policy = Inr n1"
    and n2: "set_durations R policy DURATION_FIELDS n1 = Inr n2"
    and ord: "\<not> out_of_order (limit_of n2 ''warning_low'') (limit_of n2 ''warning_high'')"
      "\<not> out_of_order (limit_of n2 ''critical_low'') (limit_of n2 ''critical_high'')"
    and n: "n = dict_set (dict_set n2 ''enabled'' (PBool (truthy (dict_getd policy ''enabled'' (PBool True)))))
        ''source'' (PStr (py_str R (dict_getd policy ''source'' (PStr ''user''))))"
    using assms by (auto simp: validate_policy_def Let_def split: if_splits)
  have keep: "map_of n2 k = map_of policy k" if "k \<notin> set LIMIT_FIELDS \<union> set DURATION_FIELDS" for k
    using that set_durations_frame [OF n2] set_limits_frame [OF n1] by auto
  have same: "map_of n k = map_of n2 k" if "k \<noteq> ''enabled''" "k \<noteq> ''source''" for k
    using that by (simp add: n)
  have lim: "limit_of n k = limit_of n2 k" if "k \<noteq> ''enabled''" "k \<noteq> ''source''" for k
    using dict_getd_cong [OF same [OF that]] by (simp add: limit_of_def pget_def)
  have "dict_getd n ''mode'' v = dict_getd policy ''mode'' v" for v
    by (rule dict_getd_cong) (simp add: same keep LIMIT_FIELDS_def DURATION_FIELDS_def)
  moreover have "0 \<le> duration_of n k" if "k \<in> set DURATION_FIELDS" for k
    using that validated_duration [OF n2 that] lim [of k]
    by (auto simp: duration_of_def DURATION_FIELDS_def)
  ultimately have "wf_policy (policy_view R n)"
    using mode ord by (simp add: wf_policy_def policy_view_def lim DURATION_FIELDS_def)
  with same keep show ?thesis by (auto simp: LIMIT_FIELDS_def DURATION_FIELDS_def)
qed

lemma validate_policy_sound_aux: "validate_policy R policy = Inr n \<Longrightarrow> wf_policy (policy_view R n)"
  using validate_policy_facts by blast

lemma validate_policy_sound_frame:
  "validate_policy R policy = Inr n \<Longrightarrow>
   k \<notin> {''warning_low'', ''warning_high'', ''critical_low'', ''critical_high'', ''deadband'',
          ''on_delay_seconds'', ''off_delay_seconds'', ''enabled'', ''source''} \<Longrightarrow> map_of n k = map_of policy k"
  by (rule validate_policy_facts [THEN conjunct2, THEN spec, THEN mp])

section \<open>Properties\<close>

text \<open>
  Validation is sound: a policy it accepts evaluates as a well-formed policy (a known mode,
  low limits not above high limits, non-negative deadband and delays), and every key other than
  the limits, durations, \<open>enabled\<close> and \<open>source\<close> is kept as given.
\<close>

theorem validate_policy_sound:
  assumes "validate_policy R policy = Inr n"
  shows "wf_policy (policy_view R n)
    \<and> (\<forall>k. k \<notin> {''warning_low'', ''warning_high'', ''critical_low'', ''critical_high'', ''deadband'',
          ''on_delay_seconds'', ''off_delay_seconds'', ''enabled'', ''source''} \<longrightarrow> map_of n k = map_of policy k)"
  using validate_policy_facts [OF assms] .

definition demo_policy :: pydict where
  "demo_policy = [(''site_id'', PStr ''s1''), (''asset_id'', PStr ''pump-1''), (''tag'', PStr ''temp''),
     (''mode'', PStr ''above''), (''warning_high'', PInt 80), (''critical_high'', PInt 100),
     (''on_delay_seconds'', PInt 5), (''off_delay_seconds'', PInt 3)]"

lemma demo_policy_valid: "\<exists>n. validate_policy demo_rt demo_policy = Inr n"
  by (simp add: validate_policy_def demo_policy_def POLICY_MODES_def LIMIT_FIELDS_def
      DURATION_FIELDS_def pget_def dict_getd_def number_def
      py_float_def out_of_order_def limit_of_def num_val_def py_or_def)

theorem validate_policy_sound_witness:
  "\<exists>n. validate_policy demo_rt demo_policy = Inr n \<and> wf_policy (policy_view demo_rt n)"
  using demo_policy_valid validate_policy_sound by blast

text \<open>
  Claim C10. Debouncing is safe: when a step of a stream changes the reported severity to one whose
  delay is positive, the instant evaluation has been that severity on every sample of a final
  stretch of the run (the current one included) that spans at least the delay.
\<close>

theorem debounce_safety:
  fixes xs :: "(rat \<times> rat \<times> string) list" and p :: tpolicy
  defines "s \<equiv> tstate_run p initial_tstate xs"
  assumes "t_severity (fst (tstate_step p s x)) = c" "c \<noteq> s_severity s" "0 < delay_for p c"
  shows "\<exists>ys zs. xs @ [x] = ys @ zs \<and> zs \<noteq> [] \<and> (\<forall>z \<in> set zs. instant p z = c)
           \<and> delay_for p c \<le> fst x - fst (hd zs)"
proof -
  let ?t = "case (if s_candidate s = Some (instant p x) then s_since s else None)
            of None \<Rightarrow> fst x | Some u \<Rightarrow> u"
  have c: "c = instant p x" and d: "delay_for p c \<le> fst x - ?t"
    using tstate_step_cases [where p = p and s = s and x = x] assms(2-4)
    by (auto split del: if_split)
  have "pending_ok p xs s"
    unfolding s_def by (rule pending_ok_run)
  then have "holds_since p (xs @ [x]) c ?t"
    by (auto simp: c pending_ok_def holds_since_single holds_since_snoc split: option.splits)
  then show ?thesis
    unfolding holds_since_def using d by metis
qed

definition demo_view :: tpolicy where
  "demo_view = \<lparr>p_enabled = True, p_configured = True, p_mode = ''above'', warning_low = None,
     warning_high = Some 80, critical_low = None, critical_high = Some 100, p_deadband = 0,
     on_delay = 5, off_delay = 3\<rparr>"

lemmas demo_eval = demo_view_def tstate_run_def tstate_step_def transition_threshold_state_def
  evaluate_threshold_def grade_def at_or_above_def initial_tstate_def hold_candidate_def
  breach_result_def delay_for_def instant_def

theorem debounce_safety_witness:
  "\<exists>ys zs. [(0, 90, ''good''), (3, 85, ''good''), (6, 95, ''good'')] = ys @ zs \<and> zs \<noteq> []
     \<and> (\<forall>z \<in> set zs. instant demo_view z = Warning) \<and> 5 \<le> 6 - fst (hd zs)"
proof -
  let ?xs = "[(0, 90, ''good''), (3, 85, ''good'')] :: (rat \<times> rat \<times> string) list"
  let ?x = "(6, 95, ''good'') :: rat \<times> rat \<times> string"
  have "t_severity (fst (tstate_step demo_view (tstate_run demo_view initial_tstate ?xs) ?x)) = Warning"
    and "Warning \<noteq> s_severity (tstate_run demo_view initial_tstate ?xs)"
    and "0 < delay_for demo_view Warning"
    by (simp_all add: demo_eval)
  from debounce_safety [OF this] show ?thesis
    by (simp add: demo_view_def delay_for_def)
qed

text \<open>
  Claim C38. Debouncing is live: an alarm severity the instant evaluation reports on every sample of a
  stretch that spans the delay is the reported severity at its end, whatever the state before
  (if that state was not already waiting for it).
\<close>

theorem debounce_liveness:
  assumes "zs \<noteq> []" "\<forall>z \<in> set zs. instant p z = c" "c \<noteq> Normal" "s_candidate s \<noteq> Some c"
    and "on_delay p \<le> fst (last zs) - fst (hd zs)"
  shows "s_severity (tstate_run p s zs) = c"
proof -
  have step: "s_severity (snd (tstate_step p u z)) = c
      \<or> (snd (tstate_step p u z) = \<lparr>s_severity = s_severity u, s_candidate = Some c, s_since = Some t\<rparr>
          \<and> fst z - t < on_delay p)"
    if "instant p z = c"
      and "t = (case (if s_candidate u = Some c then s_since u else None) of None \<Rightarrow> fst z | Some w \<Rightarrow> w)"
    for u z t
  proof -
    obtain clock v q where z: "z = (clock, v, q)" by (cases z)
    with that(1) have "t_severity (evaluate_threshold v p q) = c" by (simp add: instant_def)
    with that(2) assms(3) show ?thesis
      by (auto simp: tstate_step_def z transition_threshold_state_def Let_def split: option.split)
  qed
  have "s_severity (tstate_run p s ys) = c
      \<or> (s_candidate (tstate_run p s ys) = Some c \<and> s_since (tstate_run p s ys) = Some (fst (hd ys))
          \<and> fst (last ys) - fst (hd ys) < on_delay p)"
    if "ys \<noteq> []" "set ys \<subseteq> set zs" for ys
    using that
  proof (induction ys rule: rev_nonempty_induct)
    case (single x)
    then have "instant p x = c" using assms(2) by simp
    from step [OF this refl, of s] assms(4) show ?case
      by (auto simp: tstate_run_def)
  next
    case (snoc x ys)
    then have i: "instant p x = c" using assms(2) by simp
    let ?u = "tstate_run p s ys"
    from snoc have "s_severity ?u = c \<or> (s_candidate ?u = Some c \<and> s_since ?u = Some (fst (hd ys)))"
      by auto
    moreover have "s_severity (snd (tstate_step p ?u x)) = c" if "s_severity ?u = c"
      using tstate_step_cases(2) [where p = p and s = ?u and x = x] that i by auto
    ultimately show ?case
      using step [OF i refl, of ?u] snoc.hyps by (auto simp: hd_append)
  qed
  from this [OF assms(1) subset_refl] assms(5) show ?thesis by auto
qed

theorem debounce_liveness_witness:
  "s_severity (tstate_run demo_view initial_tstate [(0, 90, ''good''), (3, 85, ''good''), (6, 95, ''good'')])
     = Warning"
  by (rule debounce_liveness) (simp_all add: demo_eval)

text \<open>
  Raising the value never lowers the severity in mode \<open>above\<close>, lowering it never lowers
  the severity in mode \<open>below\<close>, and in mode \<open>outside_range\<close> moving further out on the side
  where the limits are broken never does.
\<close>

theorem severity_monotone:
  assumes "v \<le> w"
  shows "(p_mode p = ''above'' \<longrightarrow>
            t_severity (evaluate_threshold v p q) \<le> t_severity (evaluate_threshold w p q))
       \<and> (p_mode p = ''below'' \<longrightarrow>
            t_severity (evaluate_threshold w p q) \<le> t_severity (evaluate_threshold v p q))
       \<and> (p_mode p = ''outside_range'' \<and> warning_low p = None \<and> critical_low p = None \<longrightarrow>
            t_severity (evaluate_threshold v p q) \<le> t_severity (evaluate_threshold w p q))"
  using assms
  by (auto simp: evaluate_threshold_def grade_def at_or_above_def at_or_below_def outside_def
      split: option.splits)

theorem severity_monotone_witness:
  "t_severity (evaluate_threshold 70 demo_view ''good'') \<le> t_severity (evaluate_threshold 90 demo_view ''good'')"
proof -
  have "(70 :: rat) \<le> 90" by simp
  from severity_monotone [OF this, of demo_view "''good''"] show ?thesis
    by (simp add: demo_view_def)
qed

text \<open>
  The policy the runtime derives from an asset manifest (mode \<open>outside_range\<close>, no delays)
  grades every value as the manifest's own \<open>TagMetadata.severity_for\<close> does, at once and whatever
  the state of the stream.
\<close>

definition manifest_view :: "tag_metadata \<Rightarrow> tpolicy" where
  "manifest_view m =
     \<lparr>p_enabled = True, p_configured = True, p_mode = ''outside_range'',
      warning_low = Some (tm_warning_low m), warning_high = Some (tm_warning_high m),
      critical_low = Some (tm_critical_low m), critical_high = Some (tm_critical_high m),
      p_deadband = 0, on_delay = 0, off_delay = 0\<rparr>"

theorem manifest_grading_agrees:
  "t_severity (evaluate_threshold v (manifest_view m) q) = tag_severity_for m v
   \<and> t_severity (fst (tstate_step (manifest_view m) s (clock, v, q))) = tag_severity_for m v"
proof -
  have "t_severity (evaluate_threshold v (manifest_view m) q) = tag_severity_for m v"
    by (simp add: evaluate_threshold_def manifest_view_def tag_severity_for_def grade_def outside_def
        at_or_below_def at_or_above_def)
  moreover have "t_severity (fst (tstate_step (manifest_view m) s (clock, v, q)))
      = t_severity (evaluate_threshold v (manifest_view m) q)"
    by (simp add: tstate_step_def transition_threshold_state_def Let_def manifest_view_def
        hold_candidate_def split: prod.split)
  ultimately show ?thesis by simp
qed

end
