(* ===== verification/Threshold_Sync.thy ===== *)
theory Threshold_Sync
  imports Threshold_Policy
begin

text \<open>
  Distribution of threshold policies (\<open>services/common/threshold_policy_sync.py\<close> and the storage
  half of \<open>threshold_policy.py\<close>): the process-wide policy cache with its versions, the consumer of
  the policy topic, the resolution of a signal's policy (user, then manifest, then a disabled
  default), the versioned upsert with its transactional outbox, and the relay that drains it.
  PostgreSQL and Kafka are the environment: the database is a value (\<open>None\<close> when it cannot be
  reached), the broker's answer to each publication is an argument. \<open>now\<close> is the clock's text.
\<close>

section \<open>State\<close>

type_synonym pkey = "string \<times> string \<times> string"  \<comment> \<open>site, asset, tag\<close>

record policy_store =
  sync_cache :: "(pkey \<times> pydict) list"        \<comment> \<open>\<open>_POLICY_CACHE\<close> of the sync module\<close>
  sync_versions :: "(pkey \<times> int) list"
  sync_status :: string
  sync_source :: "string option"
  sync_version :: int
  sync_published :: int
  sync_consumed :: int
  sync_pending :: int
  sync_error :: string
  sync_published_at :: "string option"
  sync_consumed_at :: "string option"
  explicit_cache :: "(pkey \<times> pydict) list option"   \<comment> \<open>\<open>_POLICY_CACHE\<close> of the policy module\<close>
  manifest_cache :: "(string \<times> (rat \<times> (pkey \<times> pydict) list)) list"
  resolved_cache :: "(pkey \<times> pydict) list"

definition initial_store :: policy_store where
  "initial_store =
     \<lparr>sync_cache = [], sync_versions = [], sync_status = ''bootstrap'', sync_source = None,
      sync_version = 0, sync_published = 0, sync_consumed = 0, sync_pending = 0, sync_error = [],
      sync_published_at = None, sync_consumed_at = None, explicit_cache = None,
      manifest_cache = [], resolved_cache = []\<rparr>"

definition str_key :: "string \<Rightarrow> string \<Rightarrow> string \<Rightarrow> string" where
  "str_key site asset tag = join ''|'' [site, asset, tag]"   \<comment> \<open>\<open>policy_key\<close>\<close>

definition key_of :: "pyrt \<Rightarrow> pydict \<Rightarrow> pkey" where
  "key_of R p =
     (py_str R (dict_getd p ''site_id'' (PStr [])), py_str R (dict_getd p ''asset_id'' (PStr [])),
      py_str R (dict_getd p ''tag'' (PStr [])))"

text \<open>\<open>int(policy.get("version", 0) or 0)\<close>.\<close>

definition version_of :: "pydict \<Rightarrow> int option" where
  "version_of p = py_int (py_or (dict_getd p ''version'' (PInt 0)) (PInt 0))"

definition version_or_0 :: "pydict \<Rightarrow> int" where
  "version_or_0 p = (case version_of p of None \<Rightarrow> 0 | Some v \<Rightarrow> v)"

section \<open>The policy cache\<close>

definition put_policy :: "pyrt \<Rightarrow> policy_store \<Rightarrow> pydict \<Rightarrow> policy_store" where
  "put_policy R s p =
     s\<lparr>sync_cache := dict_set (sync_cache s) (key_of R p) p,
       sync_versions := dict_set (sync_versions s) (key_of R p) (version_or_0 p),
       sync_version := max (sync_version s) (version_or_0 p)\<rparr>"

text \<open>\<open>None\<close>: the version is not a number and nothing is cached.\<close>

definition cache_policy :: "pyrt \<Rightarrow> policy_store \<Rightarrow> pydict \<Rightarrow> policy_store option" where
  "cache_policy R s p = (case version_of p of None \<Rightarrow> None | Some _ \<Rightarrow> Some (put_policy R s p))"

fun cache_each :: "pyrt \<Rightarrow> policy_store \<Rightarrow> pydict list \<Rightarrow> policy_store option" where
  "cache_each R s [] = Some s"
| "cache_each R s (p # ps) = Option.bind (cache_policy R s p) (\<lambda>t. cache_each R t ps)"

definition cache_policies :: "pyrt \<Rightarrow> string \<Rightarrow> policy_store \<Rightarrow> pydict list \<Rightarrow> policy_store option" where
  "cache_policies R now s ps =
     map_option (\<lambda>t. t\<lparr>sync_status := ''synced'', sync_consumed_at := Some now\<rparr>) (cache_each R s ps)"

definition clear_cache :: "policy_store \<Rightarrow> policy_store" where
  "clear_cache s = s\<lparr>sync_cache := [], sync_versions := []\<rparr>"

definition get_cached_policy :: "policy_store \<Rightarrow> pkey \<Rightarrow> pydict option" where
  "get_cached_policy s k = map_of (sync_cache s) k"

definition get_cached_version :: "policy_store \<Rightarrow> pkey \<Rightarrow> int" where
  "get_cached_version s k = dict_getd (sync_versions s) k 0"

definition list_cached_policies :: "policy_store \<Rightarrow> pydict list" where
  "list_cached_policies s = map snd (sync_cache s)"

definition apply_threshold_snapshot ::
    "pyrt \<Rightarrow> string \<Rightarrow> policy_store \<Rightarrow> pydict list \<Rightarrow> string \<Rightarrow> string \<Rightarrow> policy_store option" where
  "apply_threshold_snapshot R now s ps source status =
     map_option (\<lambda>t. t\<lparr>sync_status := status, sync_source := Some source, sync_error := [],
                       sync_consumed_at := Some now\<rparr>)
       (cache_policies R now (clear_cache s) ps)"

definition set_sync_error :: "policy_store \<Rightarrow> string \<Rightarrow> policy_store" where
  "set_sync_error s e = s\<lparr>sync_status := ''degraded'', sync_error := e\<rparr>"

definition threshold_policy_sync_state :: "policy_store \<Rightarrow> pydict" where
  "threshold_policy_sync_state s =
     [(''topic'', PStr ''platform.metadata.threshold-policies''), (''status'', PStr (sync_status s)),
      (''version'', PInt (sync_version s)), (''published'', PInt (sync_published s)),
      (''consumed'', PInt (sync_consumed s)), (''pending_outbox'', PInt (sync_pending s)),
      (''last_error'', PStr (sync_error s)),
      (''last_published_at'', (case sync_published_at s of None \<Rightarrow> PNone | Some t \<Rightarrow> PStr t)),
      (''last_consumed_at'', (case sync_consumed_at s of None \<Rightarrow> PNone | Some t \<Rightarrow> PStr t))]
     @ (case sync_source s of None \<Rightarrow> [] | Some t \<Rightarrow> [(''source'', PStr t)])
     @ [(''policy_count'', PInt (int (length (sync_cache s))))]"

definition invalidate_explicit_policy_cache :: "policy_store \<Rightarrow> policy_store" where
  "invalidate_explicit_policy_cache s = s\<lparr>explicit_cache := None\<rparr>"

definition invalidate_policy_cache :: "policy_store \<Rightarrow> policy_store" where
  "invalidate_policy_cache s = s\<lparr>explicit_cache := None, manifest_cache := [], resolved_cache := []\<rparr>"

section \<open>The consumer of the policy topic\<close>

text \<open>What \<open>poll\<close> hands over: an error, bytes that do not decode, or a JSON value.\<close>

datatype policy_message = MError string | MUndecodable string | MJson pyval

definition message_policy :: "pyval \<Rightarrow> pydict option" where
  "message_policy v =
     (case v of
        PDict d \<Rightarrow> (case pget d ''policy'' of PDict p \<Rightarrow> Some p | _ \<Rightarrow> Some d)
      | _ \<Rightarrow> None)"

definition consume_policy :: "pyrt \<Rightarrow> string \<Rightarrow> policy_store \<Rightarrow> pydict \<Rightarrow> policy_store" where
  "consume_policy R now s p =
     (case version_of p of
        None \<Rightarrow> set_sync_error s ''invalid policy version''
      | Some incoming \<Rightarrow>
          if incoming < get_cached_version s (key_of R p) then s
          else (put_policy R (invalidate_explicit_policy_cache s) p)
                 \<lparr>sync_status := ''synced'', sync_error := [], sync_consumed_at := Some now,
                  sync_consumed := sync_consumed s + 1\<rparr>)"

fun consume_message :: "pyrt \<Rightarrow> string \<Rightarrow> policy_store \<Rightarrow> policy_message \<Rightarrow> policy_store" where
  "consume_message R now s (MError e) = set_sync_error s e"
| "consume_message R now s (MUndecodable e) = set_sync_error s e"
| "consume_message R now s (MJson v) =
     (case message_policy v of
        None \<Rightarrow> set_sync_error s ''policy event must be a JSON object''
      | Some p \<Rightarrow> consume_policy R now s p)"

text \<open>The loop body over the messages polled before the stop event; times are the clock readings.\<close>

fun consume_all :: "pyrt \<Rightarrow> policy_store \<Rightarrow> (string \<times> policy_message) list \<Rightarrow> policy_store" where
  "consume_all R s [] = s"
| "consume_all R s ((now, m) # ms) = consume_all R (consume_message R now s m) ms"

text \<open>The policies the messages carry, in order.\<close>

definition carried :: "(string \<times> policy_message) list \<Rightarrow> pydict list" where
  "carried ms = List.map_filter
     (\<lambda>(_, m). case m of MJson v \<Rightarrow>
        (case message_policy v of Some p \<Rightarrow> if version_of p = None then None else Some p | None \<Rightarrow> None)
      | _ \<Rightarrow> None) ms"

subsection \<open>The contract of a versioned store, and what its client gets\<close>

locale versioned_store =
  fixes lookup :: "'s \<Rightarrow> 'k \<Rightarrow> 'p option"
    and version :: "'s \<Rightarrow> 'k \<Rightarrow> int"
    and store :: "'s \<Rightarrow> 'p \<Rightarrow> 's"
    and key :: "'p \<Rightarrow> 'k"
    and ver :: "'p \<Rightarrow> int"
  assumes lookup_store: "lookup (store s p) k = (if k = key p then Some p else lookup s k)"
    and version_store: "version (store s p) k = (if k = key p then ver p else version s k)"
begin

text \<open>A client offers policies one by one and lets a stale one pass.\<close>

abbreviation offer :: "'s \<Rightarrow> 'p \<Rightarrow> 's" where
  "offer s p \<equiv> (if ver p < version s (key p) then s else store s p)"

lemma offer_version: "version (offer s p) k = (if k = key p then max (version s k) (ver p) else version s k)"
  by (simp add: version_store)

lemma offers_version_mono: "version s k \<le> version (foldl offer s ps) k"
proof (induction ps arbitrary: s)
  case Nil
  then show ?case by simp
next
  case (Cons p ps)
  have "version s k \<le> version (offer s p) k" by (simp only: offer_version) simp
  also have "\<dots> \<le> version (foldl offer (offer s p) ps) k" by (rule Cons.IH)
  finally show ?case by (simp only: foldl_Cons)
qed

lemma offers_version_upper: "p \<in> set ps \<Longrightarrow> ver p \<le> version (foldl offer s ps) (key p)"
proof (induction ps arbitrary: s)
  case Nil
  then show ?case by simp
next
  case (Cons q ps)
  show ?case
  proof (cases "p \<in> set ps")
    case True
    then show ?thesis using Cons.IH by (simp only: foldl_Cons)
  next
    case False
    with Cons.prems have "p = q" by simp
    then have "ver p \<le> version (offer s q) (key p)" by (simp only: offer_version) simp
    also have "\<dots> \<le> version (foldl offer (offer s q) ps) (key p)" by (rule offers_version_mono)
    finally show ?thesis by (simp only: foldl_Cons)
  qed
qed

text \<open>The value under a key is the old one or a newest offer for it.\<close>

lemma offers_lookup:
  "(lookup (foldl offer s ps) k = lookup s k \<and> version (foldl offer s ps) k = version s k)
   \<or> (\<exists>p \<in> set ps. key p = k \<and> lookup (foldl offer s ps) k = Some p \<and> version (foldl offer s ps) k = ver p)"
proof (induction ps arbitrary: s)
  case Nil
  then show ?case by simp
next
  case (Cons q ps)
  define t where "t = offer s q"
  define F where "F = foldl offer t ps"
  have "(lookup t k = lookup s k \<and> version t k = version s k)
      \<or> (key q = k \<and> lookup t k = Some q \<and> version t k = ver q)"
    by (auto simp: t_def lookup_store version_store)
  moreover have "(lookup F k = lookup t k \<and> version F k = version t k)
      \<or> (\<exists>p \<in> set ps. key p = k \<and> lookup F k = Some p \<and> version F k = ver p)"
    unfolding F_def by (rule Cons.IH)
  moreover have "foldl offer s (q # ps) = F" by (simp only: foldl_Cons F_def t_def)
  ultimately show ?case by auto
qed

lemma offers_taken:
  assumes "p \<in> set ps" "key p = k" "version s k \<le> ver p"
  shows "\<exists>q \<in> set ps. key q = k \<and> lookup (foldl offer s ps) k = Some q \<and> version (foldl offer s ps) k = ver q"
  using assms
proof (induction ps arbitrary: s)
  case Nil
  then show ?case by simp
next
  case (Cons r ps)
  define t where "t = offer s r"
  define F where "F = foldl offer t ps"
  have F: "foldl offer s (r # ps) = F" by (simp only: foldl_Cons F_def t_def)
  have later: "(lookup F k = lookup t k \<and> version F k = version t k)
      \<or> (\<exists>p \<in> set ps. key p = k \<and> lookup F k = Some p \<and> version F k = ver p)"
    unfolding F_def by (rule offers_lookup)
  show ?case
  proof (cases "p \<in> set ps \<and> version t k \<le> ver p")
    case True
    with Cons.IH [of t] Cons.prems(2)
    have "\<exists>q \<in> set ps. key q = k \<and> lookup F k = Some q \<and> version F k = ver q"
      by (simp only: F_def)
    then show ?thesis by (simp only: F) auto
  next
    case False
    with Cons.prems have "key r = k \<and> lookup t k = Some r \<and> version t k = ver r"
      by (auto simp: t_def lookup_store version_store split: if_splits)
    with later show ?thesis by (simp only: F) auto
  qed
qed

text \<open>Order and duplication of the offers do not matter.\<close>

lemma offers_converge:
  assumes same: "set ps = set qs"
    and fresh: "\<forall>p \<in> set ps. version s (key p) \<le> ver p"
    and unique: "\<forall>p \<in> set ps. \<forall>q \<in> set ps. key p = key q \<and> ver p = ver q \<longrightarrow> p = q"
  shows "lookup (foldl offer s ps) k = lookup (foldl offer s qs) k"
proof (cases "\<exists>p \<in> set ps. key p = k")
  case True
  then obtain p where p: "p \<in> set ps" "key p = k" by blast
  with fresh have v: "version s k \<le> ver p" by auto
  obtain a where a: "a \<in> set ps" "key a = k" "lookup (foldl offer s ps) k = Some a"
      "version (foldl offer s ps) k = ver a"
    using offers_taken [OF p v] by blast
  obtain b where b: "b \<in> set qs" "key b = k" "lookup (foldl offer s qs) k = Some b"
      "version (foldl offer s qs) k = ver b"
    using offers_taken [of p qs k s] p v same by blast
  have "ver b \<le> ver a" using offers_version_upper [of b ps s] a b same by auto
  moreover have "ver a \<le> ver b" using offers_version_upper [of a qs s] a b same by auto
  ultimately have "a = b" using unique a b same by auto
  with a b show ?thesis by simp
next
  case False
  with offers_lookup [of s ps k] offers_lookup [of s qs k] same show ?thesis by auto
qed

end

interpretation policies: versioned_store get_cached_policy get_cached_version "put_policy R"
  "key_of R" version_or_0 for R
  by unfold_locales (simp_all add: get_cached_policy_def get_cached_version_def put_policy_def)

lemma consume_policy_offer:
  assumes "version_of p = Some v"
  shows "get_cached_policy (consume_policy R now s p) k
           = get_cached_policy (if version_or_0 p < get_cached_version s (key_of R p) then s else put_policy R s p) k"
    and "get_cached_version (consume_policy R now s p) k
           = get_cached_version (if version_or_0 p < get_cached_version s (key_of R p) then s else put_policy R s p) k"
  using assms
  by (simp_all add: consume_policy_def version_or_0_def put_policy_def get_cached_policy_def
      get_cached_version_def invalidate_explicit_policy_cache_def)

lemma set_sync_error_frame [simp]:
  "get_cached_policy (set_sync_error s e) = get_cached_policy s"
  "get_cached_version (set_sync_error s e) = get_cached_version s"
  by (simp_all add: fun_eq_iff set_sync_error_def get_cached_policy_def get_cached_version_def)

text \<open>Two stores agree when they cache the same policies at the same versions.\<close>

definition same_cache :: "policy_store \<Rightarrow> policy_store \<Rightarrow> bool" where
  "same_cache s t \<longleftrightarrow> get_cached_policy s = get_cached_policy t \<and> get_cached_version s = get_cached_version t"

lemma same_cache_trans: "same_cache s t \<Longrightarrow> same_cache t u \<Longrightarrow> same_cache s u"
  by (simp add: same_cache_def)

lemma same_cache_put:
  "same_cache s t \<Longrightarrow> same_cache (put_policy R s p) (put_policy R t p)"
  by (simp add: same_cache_def fun_eq_iff policies.lookup_store policies.version_store)

lemma same_cache_offers:
  "same_cache s t \<Longrightarrow> same_cache (foldl (policies.offer R) s ps) (foldl (policies.offer R) t ps)"
proof (induction ps arbitrary: s t)
  case Nil
  then show ?case by simp
next
  case (Cons p ps)
  have "same_cache (policies.offer R s p) (policies.offer R t p)"
    using Cons.prems same_cache_put [OF Cons.prems] by (simp add: same_cache_def)
  from Cons.IH [OF this] show ?case by (simp only: foldl_Cons)
qed

lemma consume_all_offers:
  "same_cache (consume_all R s ms) (foldl (policies.offer R) s (carried ms))"
proof (induction ms arbitrary: s)
  case Nil
  then show ?case by (simp add: carried_def same_cache_def)
next
  case (Cons x ms)
  obtain now m where x: "x = (now, m)" by (cases x)
  show ?case
  proof (cases "carried [x]")
    case Nil
    then have "same_cache (consume_message R now s m) s"
      by (auto simp: x carried_def same_cache_def consume_policy_def
          split: policy_message.splits option.splits if_splits)
    moreover have "carried (x # ms) = carried ms"
      using Nil by (auto simp: carried_def split: option.splits)
    ultimately show ?thesis
      using same_cache_trans [OF Cons.IH [of "consume_message R now s m"]
          same_cache_offers [of "consume_message R now s m" s R "carried ms"]]
      by (simp only: x consume_all.simps)
  next
    case (Cons p ps)
    then obtain v where v: "version_of p = Some v" and "ps = []"
      and m: "consume_message R now s m = consume_policy R now s p"
      by (auto simp: x carried_def split: policy_message.splits option.splits if_splits)
    then have "same_cache (consume_message R now s m) (policies.offer R s p)"
      using consume_policy_offer [OF v] by (simp add: same_cache_def fun_eq_iff)
    moreover have "carried (x # ms) = p # carried ms"
      using Cons \<open>ps = []\<close> by (auto simp: carried_def split: option.splits)
    ultimately show ?thesis
      using same_cache_trans [OF Cons.IH [of "consume_message R now s m"]
          same_cache_offers [of "consume_message R now s m" "policies.offer R s p" R "carried ms"]]
      by (simp only: x consume_all.simps foldl_Cons)
  qed
qed

end
