(* ===== verification/Threshold_Store.thy ===== *)
theory Threshold_Store
  imports Threshold_Sync
begin

text \<open>
  Resolution, storage and relay of threshold policies (\<open>services/common/threshold_policy.py\<close>,
  \<open>threshold_policy_sync.py\<close>), and the properties of the whole distribution. The asset manifest is
  the nested dictionary its loader returns; reading and parsing the file is the parameter \<open>load\<close>
  (\<open>None\<close> where it raises), its modification time the parameter \<open>mtime\<close>.
\<close>

section \<open>Policies of the asset manifest\<close>

text \<open>Site, area, line, cell, asset, tag, as \<open>AssetHierarchy\<close> nests them.\<close>

type_synonym cell_assets = "(string \<times> (string \<times> tag_metadata) list) list"
type_synonym hierarchy =
  "(string \<times> (string \<times> (string \<times> (string \<times> cell_assets) list) list) list) list"

definition manifest_entries :: "hierarchy \<Rightarrow> (string \<times> string \<times> string \<times> tag_metadata) list" where
  "manifest_entries h =
     [(site, asset, tag, m). (site, areas) \<leftarrow> h, (_, lns) \<leftarrow> areas, (_, cells) \<leftarrow> lns,
        (_, assets) \<leftarrow> cells, (asset, tags) \<leftarrow> assets, (tag, m) \<leftarrow> tags]"

definition manifest_policy_dict :: "string \<Rightarrow> string \<Rightarrow> string \<Rightarrow> tag_metadata \<Rightarrow> pydict" where
  "manifest_policy_dict site asset name m =
     [(''site_id'', PStr site), (''asset_id'', PStr asset), (''tag'', PStr name),
      (''unit'', PStr (tm_unit m)), (''mode'', PStr ''outside_range''),
      (''warning_low'', PFloat (tm_warning_low m)), (''warning_high'', PFloat (tm_warning_high m)),
      (''critical_low'', PFloat (tm_critical_low m)), (''critical_high'', PFloat (tm_critical_high m)),
      (''deadband'', PInt 0), (''on_delay_seconds'', PInt 0), (''off_delay_seconds'', PInt 0),
      (''enabled'', PBool True), (''source'', PStr ''manifest''), (''version'', PInt 0),
      (''configured'', PBool True)]"

definition manifest_policies :: "hierarchy \<Rightarrow> (pkey \<times> pydict) list" where
  "manifest_policies h = foldl
     (\<lambda>d (site, asset, tag, m).
        (let name = (if tm_name m \<noteq> [] then tm_name m else tag);
             policy = manifest_policy_dict site asset name m
         in dict_set (dict_set d (site, asset, name) policy) (site, asset, tag) policy))
     [] (manifest_entries h)"

text \<open>The cached load: the hierarchy is walked again only when the file's time changes.\<close>

definition manifest_policy ::
    "(string \<Rightarrow> hierarchy option) \<Rightarrow> (string \<Rightarrow> rat) \<Rightarrow> policy_store \<Rightarrow> pkey \<Rightarrow> string
       \<Rightarrow> pydict option \<times> policy_store" where
  "manifest_policy load mtime s k path =
     (let fresh =
        (case load path of
           None \<Rightarrow> (None, s\<lparr>manifest_cache := dict_set (manifest_cache s) path (mtime path, [])\<rparr>)
         | Some h \<Rightarrow>
             (map_of (manifest_policies h) k,
              s\<lparr>manifest_cache := dict_set (manifest_cache s) path (mtime path, manifest_policies h)\<rparr>))
      in case map_of (manifest_cache s) path of
           Some (time, ps) \<Rightarrow> if time = mtime path then (map_of ps k, s) else fresh
         | None \<Rightarrow> fresh)"

section \<open>The database\<close>

record outbox_row =
  ob_id :: nat
  ob_policy_key :: string
  ob_version :: int
  ob_payload :: pydict
  ob_status :: string
  ob_attempts :: nat
  ob_error :: "string option"
  ob_published_at :: "string option"

record policy_db =
  policy_table :: "(pkey \<times> pydict) list"   \<comment> \<open>\<open>metadata_threshold_policies\<close>\<close>
  outbox :: "outbox_row list"               \<comment> \<open>in the order of \<open>outbox_id\<close>\<close>
  next_outbox_id :: nat

definition load_explicit_policies ::
    "pyrt \<Rightarrow> string \<Rightarrow> policy_db option \<Rightarrow> policy_store \<Rightarrow> (pkey \<times> pydict) list \<times> policy_store" where
  "load_explicit_policies R now db s =
     (case explicit_cache s of
        Some ps \<Rightarrow> (ps, s)
      | None \<Rightarrow>
          (let cached = list_cached_policies s in
           if cached \<noteq> [] then
             (let ps = foldl (\<lambda>d p. dict_set d (key_of R p) p) [] cached
              in (ps, s\<lparr>explicit_cache := Some ps\<rparr>))
           else
             (case db of
                None \<Rightarrow> ([], s)
              | Some D \<Rightarrow>
                  (let ps = foldl (\<lambda>d (_, row). let item = dict_set row ''configured'' (PBool True)
                                    in dict_set d (key_of R item) item) [] (policy_table D);
                       t = s\<lparr>explicit_cache := Some ps\<rparr>
                   in (ps, case apply_threshold_snapshot R now t (map snd ps) ''bootstrap'' ''synced'' of
                             None \<Rightarrow> t | Some u \<Rightarrow> u)))))"

definition fallback_policy :: "pkey \<Rightarrow> pydict" where
  "fallback_policy k = (case k of (site, asset, tag) \<Rightarrow>
     [(''site_id'', PStr site), (''asset_id'', PStr asset), (''tag'', PStr tag), (''unit'', PStr []),
      (''mode'', PStr ''outside_range''), (''enabled'', PBool False),
      (''source'', PStr ''unconfigured''), (''version'', PInt 0), (''configured'', PBool False)])"

text \<open>An empty dictionary is falsy: it counts as no policy.\<close>

definition nonempty :: "pydict option \<Rightarrow> pydict option" where
  "nonempty d = (case d of Some (x # xs) \<Rightarrow> Some (x # xs) | _ \<Rightarrow> None)"

definition resolve_threshold_policy ::
    "pyrt \<Rightarrow> string \<Rightarrow> policy_db option \<Rightarrow> (string \<Rightarrow> hierarchy option) \<Rightarrow> (string \<Rightarrow> rat)
       \<Rightarrow> string \<Rightarrow> policy_store \<Rightarrow> pkey \<Rightarrow> pydict \<times> policy_store" where
  "resolve_threshold_policy R now db load mtime path s k =
     (case nonempty (get_cached_policy s k) of
        Some p \<Rightarrow> (p, s)
      | None \<Rightarrow>
     (case nonempty (map_of (resolved_cache s) k) of
        Some p \<Rightarrow> (p, s)
      | None \<Rightarrow>
     (let (ps, s1) = load_explicit_policies R now db s in
      case nonempty (map_of ps k) of
        Some p \<Rightarrow> (p, s1)
      | None \<Rightarrow>
     (let (m, s2) = manifest_policy load mtime s1 k path;
          p = (case nonempty m of Some q \<Rightarrow> q | None \<Rightarrow> fallback_policy k)
      in (p, s2\<lparr>resolved_cache := dict_set (resolved_cache s2) k p\<rparr>)))))"

section \<open>Upsert with a transactional outbox\<close>

text \<open>
  The row the statement writes; \<open>normalized["mode"]\<close> raises where the key is absent. The
  statement and the outbox insert are one transaction.
\<close>

definition policy_row :: "string \<Rightarrow> pydict \<Rightarrow> pydict \<Rightarrow> pyval \<Rightarrow> int \<Rightarrow> pydict" where
  "policy_row now policy n mode version =
     [(''site_id'', pget policy ''site_id''), (''asset_id'', pget policy ''asset_id''),
      (''tag'', pget policy ''tag''), (''unit'', dict_getd policy ''unit'' (PStr [])), (''mode'', mode),
      (''warning_low'', pget n ''warning_low''), (''warning_high'', pget n ''warning_high''),
      (''critical_low'', pget n ''critical_low''), (''critical_high'', pget n ''critical_high''),
      (''deadband'', pget n ''deadband''), (''on_delay_seconds'', pget n ''on_delay_seconds''),
      (''off_delay_seconds'', pget n ''off_delay_seconds''), (''enabled'', pget n ''enabled''),
      (''source'', pget n ''source''), (''version'', PInt version),
      (''effective_from'', PStr now), (''updated_at'', PStr now)]"

definition upsert_payload :: "pydict \<Rightarrow> pydict \<Rightarrow> int \<Rightarrow> pydict" where
  "upsert_payload policy n version = dict_merge n
     [(''site_id'', pget policy ''site_id''), (''asset_id'', pget policy ''asset_id''),
      (''tag'', pget policy ''tag''), (''version'', PInt version), (''configured'', PBool True)]"

definition next_version :: "policy_db \<Rightarrow> pkey \<Rightarrow> int" where
  "next_version D k = (case map_of (policy_table D) k of None \<Rightarrow> 1 | Some row \<Rightarrow> version_or_0 row + 1)"

definition key_text :: "pkey \<Rightarrow> string" where
  "key_text k = (case k of (a, b, c) \<Rightarrow> str_key a b c)"

definition db_upsert :: "string \<Rightarrow> policy_db \<Rightarrow> pkey \<Rightarrow> pydict \<Rightarrow> pydict \<Rightarrow> pyval \<Rightarrow> policy_db" where
  "db_upsert now D k policy n mode =
     (let version = next_version D k in
      D\<lparr>policy_table := dict_set (policy_table D) k (policy_row now policy n mode version),
        outbox := outbox D @
          [\<lparr>ob_id = next_outbox_id D, ob_policy_key = key_text k,
            ob_version = version, ob_payload = upsert_payload policy n version,
            ob_status = ''pending'', ob_attempts = 0, ob_error = None, ob_published_at = None\<rparr>],
        next_outbox_id := Suc (next_outbox_id D)\<rparr>)"

definition scope_missing :: "pkey \<Rightarrow> bool" where
  "scope_missing k = (case k of (a, b, c) \<Rightarrow> py_strip a = [] \<or> py_strip b = [] \<or> py_strip c = [])"

definition upsert_threshold_policy ::
    "pyrt \<Rightarrow> string \<Rightarrow> policy_db \<Rightarrow> policy_store \<Rightarrow> pydict \<Rightarrow> policy_error + (pydict \<times> policy_db \<times> policy_store)" where
  "upsert_threshold_policy R now D s policy =
     (let k = key_of R policy in
      if scope_missing k then Inl ScopeRequired
      else res_bind (validate_policy R policy) (\<lambda>n.
        case map_of n ''mode'' of
          None \<Rightarrow> Inl (KeyError ''mode'')
        | Some mode \<Rightarrow>
            (let version = next_version D k;
                 payload = upsert_payload policy n version;
                 s1 = invalidate_explicit_policy_cache (put_policy R s payload)
             in Inr (payload @ [(''policy_key'', PStr (key_text k)),
                                (''sync_status'', PStr ''pending'')],
                     db_upsert now D k policy n mode,
                     s1\<lparr>resolved_cache := dict_set (resolved_cache s1) k payload\<rparr>))))"

definition list_threshold_policies ::
    "pyrt \<Rightarrow> string \<Rightarrow> policy_db option \<Rightarrow> policy_store \<Rightarrow> string option \<Rightarrow> pydict \<times> policy_store" where
  "list_threshold_policies R now db s site =
     (let (ps, t) = load_explicit_policies R now db s;
          chosen = (case site of
              Some (c # cs) \<Rightarrow> filter (\<lambda>p. pget p ''site_id'' = PStr (c # cs)) (map snd ps)
            | _ \<Rightarrow> map snd ps);
          augment = (\<lambda>p. let q = dict_set p ''policy_key'' (PStr (str_key
                (py_str R (dict_getd p ''site_id'' (PStr []))) (py_str R (dict_getd p ''asset_id'' (PStr [])))
                (py_str R (dict_getd p ''tag'' (PStr [])))))
             in dict_set q ''sync_status'' (dict_getd q ''sync_status'' (PStr (sync_status t))))
      in ([(''policies'', PList (map (\<lambda>p. PDict (augment p)) chosen)),
           (''source_precedence'', PList [PStr ''user'', PStr ''external_import'', PStr ''manifest'',
              PStr ''anomaly_score'']),
           (''contracts'', PDict [(''user_policy_wins'', PBool True), (''manifest_is_default_only'', PBool True),
              (''runtime_does_not_query_historian'', PBool True)]),
           (''sync'', PDict (threshold_policy_sync_state t))], t))"

section \<open>The outbox relay\<close>

text \<open>What becomes of one publication: the record arrives, the client gives it up, or it is still in the queue when
  \<open>flush\<close> returns. Without a delivery callback the first two look alike: the queue is empty.\<close>

datatype relay_answer = Delivered | GivenUp | StillQueued string

type_synonym relay_broker = "nat \<Rightarrow> relay_answer"

definition publish_error :: "relay_broker \<Rightarrow> outbox_row \<Rightarrow> string option" where
  "publish_error broker r =
     (if \<not> (dict_has (ob_payload r) ''site_id'' \<and> dict_has (ob_payload r) ''asset_id''
             \<and> dict_has (ob_payload r) ''tag'')
      then Some ''KeyError'' else (case broker (ob_id r) of StillQueued e \<Rightarrow> Some e | _ \<Rightarrow> None))"

definition relay_row :: "relay_broker \<Rightarrow> string \<Rightarrow> outbox_row \<Rightarrow> outbox_row" where
  "relay_row broker now r =
     (case publish_error broker r of
        None \<Rightarrow> r\<lparr>ob_status := ''published'', ob_attempts := Suc (ob_attempts r),
                  ob_published_at := Some now, ob_error := None\<rparr>
      | Some e \<Rightarrow> r\<lparr>ob_status := ''failed'', ob_attempts := Suc (ob_attempts r), ob_error := Some e\<rparr>)"

definition due :: "outbox_row \<Rightarrow> bool" where
  "due r \<longleftrightarrow> ob_status r = ''pending'' \<or> ob_status r = ''failed''"

text \<open>The rows of one batch: the first \<open>max 1 batch_size\<close> due rows in the order of their ids.\<close>

fun relay_batch :: "relay_broker \<Rightarrow> string \<Rightarrow> nat \<Rightarrow> outbox_row list \<Rightarrow> outbox_row list" where
  "relay_batch broker now n [] = []"
| "relay_batch broker now n (r # rs) =
     (if due r then
        (case n of 0 \<Rightarrow> r # rs | Suc m \<Rightarrow> relay_row broker now r # relay_batch broker now m rs)
      else r # relay_batch broker now n rs)"

definition count_relay :: "relay_broker \<Rightarrow> string \<Rightarrow> policy_store \<Rightarrow> outbox_row \<Rightarrow> policy_store" where
  "count_relay broker now s r =
     (case publish_error broker r of
        None \<Rightarrow> s\<lparr>sync_published := sync_published s + 1, sync_pending := max 0 (sync_pending s - 1),
                  sync_published_at := Some now, sync_status := ''synced'', sync_error := []\<rparr>
      | Some e \<Rightarrow> s\<lparr>sync_status := ''degraded'', sync_error := e\<rparr>)"

definition drain_policy_outbox ::
    "relay_broker \<Rightarrow> string \<Rightarrow> int \<Rightarrow> policy_db \<Rightarrow> policy_store \<Rightarrow> nat \<times> policy_db \<times> policy_store" where
  "drain_policy_outbox broker now batch_size D s =
     (let n = nat (max 1 batch_size);
          rows = take n (filter due (outbox D))
      in (length (filter (\<lambda>r. publish_error broker r = None) rows),
          D\<lparr>outbox := relay_batch broker now n (outbox D)\<rparr>,
          foldl (count_relay broker now) s rows))"

text \<open>The body of the relay loop, repeated until the stop event.\<close>

fun relay_loop :: "relay_broker list \<Rightarrow> string \<Rightarrow> int \<Rightarrow> policy_db \<Rightarrow> policy_store \<Rightarrow> policy_db \<times> policy_store" where
  "relay_loop [] now batch_size D s = (D, s)"
| "relay_loop (b # bs) now batch_size D s =
     (case drain_policy_outbox b now (max 1 batch_size) D s of (_, D', s') \<Rightarrow> relay_loop bs now batch_size D' s')"

lemma relay_row_frame [simp]:
  "ob_id (relay_row b now r) = ob_id r" "ob_payload (relay_row b now r) = ob_payload r"
  "ob_version (relay_row b now r) = ob_version r"
  by (simp_all add: relay_row_def split: option.split)

lemma relay_batch_payloads: "map ob_payload (relay_batch b now n rs) = map ob_payload rs"
  by (induction b now n rs rule: relay_batch.induct) (auto split: nat.split)

lemma relay_batch_set:
  "r \<in> set (relay_batch b now n rs) \<Longrightarrow> r \<in> set rs \<or> (\<exists>q \<in> set rs. due q \<and> r = relay_row b now q)"
  by (induction b now n rs rule: relay_batch.induct) (auto split: nat.splits if_splits)

lemma relay_batch_length: "length (relay_batch b now n rs) = length rs"
  by (induction b now n rs rule: relay_batch.induct) (auto split: nat.split)

lemma relay_row_due: "due (relay_row b now r) \<longleftrightarrow> publish_error b r \<noteq> None"
  by (simp add: relay_row_def due_def split: option.split)

lemma relay_batch_due:
  assumes "\<And>r. r \<in> set rs \<Longrightarrow> due r \<Longrightarrow> publish_error b r = None"
  shows "length (filter due (relay_batch b now n rs)) = length (filter due rs) - n"
  using assms
proof (induction b now n rs rule: relay_batch.induct)
  case (1 b now n)
  then show ?case by simp
next
  case (2 b now n r rs)
  have IH: "length (filter due (relay_batch b now m rs)) = length (filter due rs) - m"
    if "due r \<Longrightarrow> n = Suc m" "\<not> due r \<Longrightarrow> n = m" for m
    using "2.IH" that "2.prems" by (cases "due r") auto
  show ?case
  proof (cases "due r")
    case True
    with "2.prems" have "publish_error b r = None" by simp
    with True IH show ?thesis by (cases n) (auto simp: relay_row_due)
  next
    case False
    with IH [of n] show ?thesis by simp
  qed
qed

section \<open>Properties\<close>

text \<open>
  Claim C7. The consumer converges: two processes that start empty and receive the same policy
  messages, in any order and with any duplicates and interleaved errors, end with the same cached
  policy for every signal, provided that no version is negative and that one signal's messages of
  equal version are equal. The second condition fails when two upserts of one signal run at the same
  time and read the same version (\<open>equal_versions_diverge\<close>).
\<close>

theorem consumer_converges:
  assumes "set (carried ms) = set (carried ns)"
    and "\<forall>p \<in> set (carried ms). 0 \<le> version_or_0 p"
    and "\<forall>p \<in> set (carried ms). \<forall>q \<in> set (carried ms).
           key_of R p = key_of R q \<and> version_or_0 p = version_or_0 q \<longrightarrow> p = q"
  shows "get_cached_policy (consume_all R initial_store ms) k = get_cached_policy (consume_all R initial_store ns) k"
proof -
  have "\<forall>p \<in> set (carried ms). get_cached_version initial_store (key_of R p) \<le> version_or_0 p"
    using assms(2) by (simp add: get_cached_version_def initial_store_def dict_getd_def)
  from policies.offers_converge [OF assms(1) this assms(3)]
  show ?thesis
    using consume_all_offers [of R initial_store ms] consume_all_offers [of R initial_store ns]
    by (simp add: same_cache_def)
qed

definition demo_update :: "int \<Rightarrow> int \<Rightarrow> pydict" where
  "demo_update v limit = [(''site_id'', PStr ''s1''), (''asset_id'', PStr ''a''), (''tag'', PStr ''t''),
     (''warning_high'', PInt limit), (''version'', PInt v)]"

definition demo_message :: "int \<Rightarrow> int \<Rightarrow> string \<times> policy_message" where
  "demo_message v limit = (''12:00'', MJson (PDict (demo_update v limit)))"

lemma carried_demo: "carried (demo_message v l # ms) = demo_update v l # carried ms"
  by (simp add: carried_def demo_message_def demo_update_def message_policy_def pget_def dict_getd_def
      version_of_def py_int_def py_or_def)

lemma carried_Nil [simp]: "carried [] = []"
  by (simp add: carried_def)

lemma demo_update_version: "version_or_0 (demo_update v l) = v"
  by (simp add: version_or_0_def version_of_def demo_update_def dict_getd_def py_or_def py_int_def)

theorem consumer_converges_witness:
  "get_cached_policy (consume_all demo_rt initial_store [demo_message 1 80, demo_message 2 90]) (''s1'', ''a'', ''t'')
     = get_cached_policy (consume_all demo_rt initial_store
         [demo_message 2 90, demo_message 1 80, demo_message 2 90]) (''s1'', ''a'', ''t'')"
  by (rule consumer_converges)
    (auto simp: carried_demo demo_update_version)

text \<open>
  The condition on equal versions is needed: of two different messages of one signal with the same
  version the later one wins, so two processes that receive them in different orders keep different
  policies. The upsert of the policy table reads the current version and writes the next one without a
  lock, so two concurrent upserts of one signal can publish such a pair.
\<close>

lemma equal_versions_diverge:
  "get_cached_policy (consume_all demo_rt initial_store [demo_message 1 80, demo_message 1 90]) (''s1'', ''a'', ''t'')
     = Some (demo_update 1 90)
   \<and> get_cached_policy (consume_all demo_rt initial_store [demo_message 1 90, demo_message 1 80]) (''s1'', ''a'', ''t'')
     = Some (demo_update 1 80)"
  by (simp add: demo_message_def demo_update_def message_policy_def consume_policy_def version_of_def
      pget_def dict_getd_def py_or_def py_int_def get_cached_policy_def get_cached_version_def
      put_policy_def key_of_def initial_store_def version_or_0_def invalidate_explicit_policy_cache_def)

text \<open>
  A stale message never wins: over any sequence of messages the cached version of every
  signal only grows, it is at least the version of every message consumed for the signal, and the
  cached policy is the one that was there or one of the messages at exactly the cached version.
\<close>

theorem consumer_version_monotone:
  "get_cached_version s k \<le> get_cached_version (consume_all R s ms) k
   \<and> (\<forall>p \<in> set (carried ms). version_or_0 p \<le> get_cached_version (consume_all R s ms) (key_of R p))
   \<and> ((get_cached_policy (consume_all R s ms) k = get_cached_policy s k
         \<and> get_cached_version (consume_all R s ms) k = get_cached_version s k)
      \<or> (\<exists>p \<in> set (carried ms). key_of R p = k \<and> get_cached_policy (consume_all R s ms) k = Some p
            \<and> get_cached_version (consume_all R s ms) k = version_or_0 p))"
proof -
  have v: "get_cached_version (consume_all R s ms) = get_cached_version (foldl (policies.offer R) s (carried ms))"
    and l: "get_cached_policy (consume_all R s ms) = get_cached_policy (foldl (policies.offer R) s (carried ms))"
    using consume_all_offers [of R s ms] by (simp_all only: same_cache_def)
  show ?thesis
    unfolding v l
    using policies.offers_version_mono policies.offers_version_upper policies.offers_lookup by blast
qed

theorem consumer_version_monotone_witness:
  "2 \<le> get_cached_version (consume_all demo_rt initial_store [demo_message 2 90, demo_message 1 80]) (''s1'', ''a'', ''t'')"
proof -
  have "key_of demo_rt (demo_update 2 90) = (''s1'', ''a'', ''t'')"
    by (simp add: key_of_def demo_update_def dict_getd_def)
  moreover have "demo_update 2 90 \<in> set (carried [demo_message 2 90, demo_message 1 80])"
    by (simp add: carried_demo)
  ultimately show ?thesis
    using consumer_version_monotone [of initial_store "(''s1'', ''a'', ''t'')" demo_rt
        "[demo_message 2 90, demo_message 1 80]"] demo_update_version [of 2 90] by auto
qed

lemma version_of_payload:
  "version_of (upsert_payload policy n v) = Some v"
  by (simp add: upsert_payload_def dict_merge_def version_of_def py_or_def py_int_def)

lemma key_of_payload [simp]:
  assumes "dict_has policy ''site_id''" "dict_has policy ''asset_id''" "dict_has policy ''tag''"
  shows "key_of R (upsert_payload policy n v) = key_of R policy"
  using assms by (auto simp: key_of_def upsert_payload_def dict_merge_def pget_def dict_getd_def dict_has_def
      split: option.splits)

lemma upsert_payload_nonempty: "nonempty (Some (upsert_payload policy n v)) = Some (upsert_payload policy n v)"
proof (cases "upsert_payload policy n v")
  case Nil
  then have "version_of ([] :: pydict) = Some v" using version_of_payload [of policy n v] by simp
  then have "upsert_payload policy n (v + 1) = [] \<Longrightarrow> False"
    using version_of_payload [of policy n "v + 1"] by simp
  moreover have "length (upsert_payload policy n (v + 1)) = length (upsert_payload policy n v)"
    by (simp add: upsert_payload_def dict_merge_def length_dict_set dict_has_set)
  ultimately show ?thesis using Nil by simp
qed (simp add: nonempty_def)

text \<open>
  A user policy wins: after a successful upsert the signal resolves, without asking the
  database or the manifest, to a policy that evaluates as the validated input and carries a version
  one above the stored one; the table holds that version and the outbox holds it, pending, in the
  same transaction, with every older row as it was.
\<close>

theorem upsert_resolves:
  assumes up: "upsert_threshold_policy R now D s policy = Inr (result, D', s')"
    and has: "dict_has policy ''site_id''" "dict_has policy ''asset_id''" "dict_has policy ''tag''"
  shows "\<exists>n. validate_policy R policy = Inr n
    \<and> (let k = key_of R policy; v = next_version D k; p = upsert_payload policy n v in
        resolve_threshold_policy R now db load mtime path s' k = (p, s')
        \<and> wf_policy (policy_view R p)
        \<and> map_option version_or_0 (map_of (policy_table D') k) = Some v
        \<and> (\<exists>row. outbox D' = outbox D @ [row] \<and> due row \<and> ob_payload row = p \<and> ob_version row = v))"
proof -
  let ?k = "key_of R policy" and ?v = "next_version D (key_of R policy)"
  obtain n mode where n: "validate_policy R policy = Inr n" and mode: "map_of n ''mode'' = Some mode"
    and D': "D' = db_upsert now D ?k policy n mode"
    and s': "s' = (invalidate_explicit_policy_cache (put_policy R s (upsert_payload policy n ?v)))
      \<lparr>resolved_cache := dict_set (resolved_cache (invalidate_explicit_policy_cache
          (put_policy R s (upsert_payload policy n ?v)))) ?k (upsert_payload policy n ?v)\<rparr>"
    using up by (auto simp: upsert_threshold_policy_def Let_def split: if_splits option.splits)
  let ?p = "upsert_payload policy n ?v"
  have "get_cached_policy s' ?k = Some ?p"
    using has by (simp add: s' get_cached_policy_def invalidate_explicit_policy_cache_def put_policy_def)
  then have res: "resolve_threshold_policy R now db load mtime path s' ?k = (?p, s')"
    by (simp add: resolve_threshold_policy_def upsert_payload_nonempty)
  have "dict_getd ?p f w = dict_getd n f w"
    if "f \<notin> {''site_id'', ''asset_id'', ''tag'', ''version'', ''configured''}" for f w
    using that by (simp add: upsert_payload_def dict_merge_def)
  then have "wf_policy (policy_view R ?p) = wf_policy (policy_view R n)"
    by (simp add: wf_policy_def policy_view_def limit_of_def duration_of_def pget_def)
  then have wf: "wf_policy (policy_view R ?p)"
    using validate_policy_sound_aux [OF n] by simp
  have tab: "map_option version_or_0 (map_of (policy_table D') ?k) = Some ?v"
    by (simp add: D' db_upsert_def Let_def policy_row_def version_or_0_def version_of_def dict_getd_def
        py_or_def py_int_def)
  have "\<exists>row. outbox D' = outbox D @ [row] \<and> due row \<and> ob_payload row = ?p \<and> ob_version row = ?v"
    by (simp add: D' db_upsert_def Let_def due_def)
  with n res wf tab show ?thesis by (simp add: Let_def)
qed

definition empty_db :: policy_db where
  "empty_db = \<lparr>policy_table = [], outbox = [], next_outbox_id = 1\<rparr>"

theorem upsert_resolves_witness:
  "\<exists>result D' s'. upsert_threshold_policy demo_rt ''12:00'' empty_db initial_store demo_policy = Inr (result, D', s')
     \<and> length (outbox D') = 1"
proof -
  obtain n where n: "validate_policy demo_rt demo_policy = Inr n" using demo_policy_valid by blast
  then have "map_of n ''mode'' = Some (PStr ''above'')"
    using validate_policy_sound_frame [OF n, of "''mode''"] by (simp add: demo_policy_def)
  moreover have "key_of demo_rt demo_policy = (''s1'', ''pump-1'', ''temp'')"
    by (simp add: key_of_def demo_policy_def dict_getd_def)
  ultimately obtain result D' s'
    where up: "upsert_threshold_policy demo_rt ''12:00'' empty_db initial_store demo_policy = Inr (result, D', s')"
    using n by (auto simp: upsert_threshold_policy_def Let_def scope_missing_def py_strip_def py_lstrip_def py_rstrip_def py_space_def)
  have "dict_has demo_policy ''site_id''" "dict_has demo_policy ''asset_id''" "dict_has demo_policy ''tag''"
    by (simp_all add: demo_policy_def dict_has_def)
  from upsert_resolves [OF up this, of None "\<lambda>_. None" "\<lambda>_. 0" "[]"]
  obtain row where "outbox D' = outbox empty_db @ [row]" by (auto simp: Let_def)
  with up show ?thesis by (auto simp: empty_db_def)
qed

lemma relay_batch_nth:
  "i < length rs \<Longrightarrow> relay_batch b now n rs ! i = rs ! i \<or> due (rs ! i) \<and> relay_batch b now n rs ! i = relay_row b now (rs ! i)"
proof (induction b now n rs arbitrary: i rule: relay_batch.induct)
  case (2 b now n r rs)
  show ?case
  proof (cases i)
    case 0
    then show ?thesis by (auto split: nat.split)
  next
    case (Suc j)
    have "relay_batch b now m rs ! j = rs ! j \<or> due (rs ! j) \<and> relay_batch b now m rs ! j = relay_row b now (rs ! j)"
      if "due r \<Longrightarrow> n = Suc m" "\<not> due r \<Longrightarrow> n = m" for m
      using "2.IH" that "2.prems" Suc by (cases "due r") auto
    then show ?thesis using Suc by (cases n) auto
  qed
qed simp

text \<open>A row that a round takes off the queue left the producer's queue in that round.\<close>

definition taken_by :: "relay_broker \<Rightarrow> outbox_row \<Rightarrow> bool" where
  "taken_by b r \<longleftrightarrow> publish_error b r = None \<and> (b (ob_id r) = Delivered \<or> b (ob_id r) = GivenUp)"

lemma publish_error_taken: "publish_error b r = None \<Longrightarrow> taken_by b r"
  by (simp add: taken_by_def publish_error_def split: if_splits relay_answer.splits)

lemma publish_error_frame: "ob_id r = ob_id q \<Longrightarrow> ob_payload r = ob_payload q \<Longrightarrow> publish_error b r = publish_error b q"
  by (simp add: publish_error_def)

lemma relay_loop_Cons:
  "fst (relay_loop (b # bs) now batch D s)
     = fst (relay_loop bs now batch (D\<lparr>outbox := relay_batch b now (nat (max 1 batch)) (outbox D)\<rparr>)
         (foldl (count_relay b now) s (take (nat (max 1 batch)) (filter due (outbox D)))))"
  by (simp add: drain_policy_outbox_def Let_def)

definition row_settled :: "relay_broker list \<Rightarrow> outbox_row \<Rightarrow> outbox_row \<Rightarrow> bool" where
  "row_settled bs r r' \<longleftrightarrow> ob_id r' = ob_id r \<and> ob_payload r' = ob_payload r \<and> (\<not> due r \<longrightarrow> r' = r)
     \<and> (due r \<and> \<not> due r' \<longrightarrow> (\<exists>b \<in> set bs. taken_by b r))"

lemma relay_loop_settles: "list_all2 (row_settled bs) (outbox D) (outbox (fst (relay_loop bs now batch D s)))"
proof (induction bs arbitrary: D s)
  case Nil
  show ?case by (simp add: row_settled_def list.rel_refl)
next
  case (Cons b bs)
  let ?rs = "outbox D" and ?mid = "relay_batch b now (nat (max 1 batch)) (outbox D)"
  have tail: "list_all2 (row_settled bs) ?mid (outbox (fst (relay_loop (b # bs) now batch D s)))"
    unfolding relay_loop_Cons using Cons.IH [of "D\<lparr>outbox := ?mid\<rparr>"] by simp
  show ?case
  proof (rule list_all2_all_nthI)
    show "length ?rs = length (outbox (fst (relay_loop (b # bs) now batch D s)))"
      using list_all2_lengthD [OF tail] by (simp add: relay_batch_length)
    fix i assume i: "i < length ?rs"
    let ?r = "?rs ! i" and ?m = "?mid ! i" and ?e = "outbox (fst (relay_loop (b # bs) now batch D s)) ! i"
    have step: "row_settled bs ?m ?e" using list_all2_nthD [OF tail] i by (simp add: relay_batch_length)
    consider "?m = ?r" | "due ?r" "?m = relay_row b now ?r" using relay_batch_nth [OF i] by blast
    then show "row_settled (b # bs) ?r ?e"
    proof cases
      case 1
      then show ?thesis using step by (auto simp: row_settled_def)
    next
      case 2
      have frame: "taken_by c ?m = taken_by c ?r" for c
        by (simp add: taken_by_def 2(2) publish_error_frame [of "relay_row b now ?r" ?r])
      show ?thesis
      proof (cases "due ?m")
        case True
        then show ?thesis using step 2 frame by (auto simp: row_settled_def)
      next
        case False
        then have "taken_by b ?r" using 2(2) publish_error_taken by (simp add: relay_row_due)
        then show ?thesis using step 2 False by (auto simp: row_settled_def)
      qed
    qed
  qed
qed

lemma relay_loop_drains:
  "(\<forall>b \<in> set bs. b = (\<lambda>_. Delivered)) \<Longrightarrow> (\<forall>r \<in> set (outbox D). dict_has (ob_payload r) ''site_id''
       \<and> dict_has (ob_payload r) ''asset_id'' \<and> dict_has (ob_payload r) ''tag'')
    \<Longrightarrow> length (filter due (outbox D)) \<le> length bs * nat (max 1 batch)
    \<Longrightarrow> \<not> (\<exists>r \<in> set (outbox (fst (relay_loop bs now batch D s))). due r)"
proof (induction bs arbitrary: D s)
  case Nil
  then show ?case by (auto simp: filter_empty_conv)
next
  case (Cons b bs)
  let ?n = "nat (max 1 batch)"
  let ?D = "D\<lparr>outbox := relay_batch b now ?n (outbox D)\<rparr>"
  have "\<And>r. r \<in> set (outbox D) \<Longrightarrow> due r \<Longrightarrow> publish_error b r = None"
    using Cons.prems(1,2) by (simp add: publish_error_def)
  from relay_batch_due [OF this] Cons.prems(3)
  have len: "length (filter due (outbox ?D)) \<le> length bs * ?n" by simp
  have has: "\<forall>r \<in> set (outbox ?D). dict_has (ob_payload r) ''site_id'' \<and> dict_has (ob_payload r) ''asset_id'' \<and> dict_has (ob_payload r) ''tag''"
    using Cons.prems(2) by (auto dest!: relay_batch_set)
  show ?case unfolding relay_loop_Cons by (rule Cons.IH [OF _ has len]) (use Cons.prems(1) in simp)
qed

text \<open>
  Claim C39. The relay is safe and live. Whatever the broker does in each round, the outbox keeps its rows in order with
  their identifiers and payloads, a row that is not due is not touched, and a row that was due and no longer is was
  published in one of the rounds: it carries its signal and left the producer's queue, delivered or given up by the
  client, which the relay cannot tell apart. Against a broker that delivers everything (the rows carry their signal),
  enough rounds publish every due row.
\<close>

theorem relay_safe_and_live:
  "list_all2 (\<lambda>r r'. ob_id r' = ob_id r \<and> ob_payload r' = ob_payload r \<and> (\<not> due r \<longrightarrow> r' = r)
        \<and> (due r \<and> \<not> due r' \<longrightarrow> (\<exists>b \<in> set bs. publish_error b r = None \<and> (b (ob_id r) = Delivered \<or> b (ob_id r) = GivenUp))))
      (outbox D) (outbox (fst (relay_loop bs now batch D s)))
   \<and> ((\<forall>b \<in> set bs. b = (\<lambda>_. Delivered)) \<and> (\<forall>r \<in> set (outbox D). dict_has (ob_payload r) ''site_id''
         \<and> dict_has (ob_payload r) ''asset_id'' \<and> dict_has (ob_payload r) ''tag'')
      \<and> length (filter due (outbox D)) \<le> length bs * nat (max 1 batch)
      \<longrightarrow> \<not> (\<exists>r \<in> set (outbox (fst (relay_loop bs now batch D s))). due r))"
proof (intro conjI)
  show "list_all2 (\<lambda>r r'. ob_id r' = ob_id r \<and> ob_payload r' = ob_payload r \<and> (\<not> due r \<longrightarrow> r' = r)
        \<and> (due r \<and> \<not> due r' \<longrightarrow> (\<exists>b \<in> set bs. publish_error b r = None \<and> (b (ob_id r) = Delivered \<or> b (ob_id r) = GivenUp))))
      (outbox D) (outbox (fst (relay_loop bs now batch D s)))"
    using relay_loop_settles [of bs D now batch s] unfolding row_settled_def taken_by_def .
  show "(\<forall>b \<in> set bs. b = (\<lambda>_. Delivered)) \<and> (\<forall>r \<in> set (outbox D). dict_has (ob_payload r) ''site_id''
         \<and> dict_has (ob_payload r) ''asset_id'' \<and> dict_has (ob_payload r) ''tag'')
      \<and> length (filter due (outbox D)) \<le> length bs * nat (max 1 batch)
      \<longrightarrow> \<not> (\<exists>r \<in> set (outbox (fst (relay_loop bs now batch D s))). due r)"
    using relay_loop_drains by blast
qed

definition demo_row :: "nat \<Rightarrow> outbox_row" where
  "demo_row i = \<lparr>ob_id = i, ob_policy_key = ''s1|a|t'', ob_version = 1, ob_payload = demo_update 1 80,
     ob_status = ''pending'', ob_attempts = 0, ob_error = None, ob_published_at = None\<rparr>"

theorem relay_safe_and_live_witness:
  "\<not> (\<exists>r \<in> set (outbox (fst (relay_loop [\<lambda>_. Delivered, \<lambda>_. Delivered] ''12:00'' 1
        \<lparr>policy_table = [], outbox = [demo_row 1, demo_row 2], next_outbox_id = 3\<rparr> initial_store))). due r)"
  using relay_safe_and_live [of "[\<lambda>_. Delivered, \<lambda>_. Delivered]"
      "\<lparr>policy_table = [], outbox = [demo_row 1, demo_row 2], next_outbox_id = 3\<rparr>" "''12:00''" 1 initial_store]
  by (simp add: demo_row_def demo_update_def dict_has_def due_def)

text \<open>A publication the client gave up is marked as published.\<close>

lemma given_up_marked: "\<not> due (relay_row (\<lambda>_. GivenUp) now (demo_row i))"
  by (simp add: relay_row_due publish_error_def demo_row_def demo_update_def dict_has_def)

text \<open>
  A signal first resolved while the database cannot be reached (and not in the manifest)
  stays unconfigured when the database comes back with a policy for it: the negative answer is
  cached before the explicit policies are looked up again.
\<close>

theorem outage_resolution_sticks:
  assumes "sync_cache s = []" "resolved_cache s = []" "explicit_cache s = None" "manifest_cache s = []"
    and "load path = None"
  shows "resolve_threshold_policy R now (Some D) load mtime path
           (snd (resolve_threshold_policy R now None load mtime path s k)) k
         = (fallback_policy k, snd (resolve_threshold_policy R now None load mtime path s k))"
  using assms
  by (cases k) (simp add: resolve_threshold_policy_def get_cached_policy_def nonempty_def Let_def
      load_explicit_policies_def list_cached_policies_def manifest_policy_def fallback_policy_def)

theorem outage_resolution_sticks_witness:
  "fst (resolve_threshold_policy demo_rt ''12:00''
      (Some \<lparr>policy_table = [((''s1'', ''a'', ''t''), demo_update 1 80)], outbox = [], next_outbox_id = 1\<rparr>)
      (\<lambda>_. None) (\<lambda>_. 0) ''assets.yaml''
      (snd (resolve_threshold_policy demo_rt ''12:00'' None (\<lambda>_. None) (\<lambda>_. 0) ''assets.yaml''
        initial_store (''s1'', ''a'', ''t''))) (''s1'', ''a'', ''t''))
   = fallback_policy (''s1'', ''a'', ''t'')"
  by (subst outage_resolution_sticks) (simp_all add: initial_store_def)

text \<open>
  Validation supplies a default mode that the upsert does not use: for a policy with a
  scope but no \<open>mode\<close> key, whatever validation accepts, the upsert raises \<open>KeyError\<close> and stores
  nothing.
\<close>

theorem upsert_requires_mode:
  assumes "validate_policy R policy = Inr n" "map_of policy ''mode'' = None"
    and "\<not> scope_missing (key_of R policy)"
  shows "upsert_threshold_policy R now D s policy = Inl (KeyError ''mode'')"
proof -
  have "map_of n ''mode'' = None"
    using validate_policy_sound_frame [OF assms(1), of "''mode''"] assms(2) by simp
  with assms show ?thesis
    by (simp add: upsert_threshold_policy_def Let_def)
qed

theorem upsert_requires_mode_witness:
  "upsert_threshold_policy demo_rt ''12:00'' empty_db initial_store (demo_update 1 80) = Inl (KeyError ''mode'')"
proof -
  obtain n where "validate_policy demo_rt (demo_update 1 80) = Inr n"
    by (simp add: validate_policy_def demo_update_def POLICY_MODES_def LIMIT_FIELDS_def
        DURATION_FIELDS_def pget_def dict_getd_def number_def py_float_def out_of_order_def
        limit_of_def num_val_def py_or_def)
  then show ?thesis
    by (rule upsert_requires_mode)
      (simp_all add: demo_update_def key_of_def dict_getd_def scope_missing_def py_strip_def py_lstrip_def py_rstrip_def py_space_def)
qed

text \<open>
  The runtime reads a manifest entry as the limits of its tag: the policy dictionary built
  from a tag's metadata evaluates as \<open>manifest_view\<close> of that metadata, under the tag's key and
  under its display name.
\<close>

theorem manifest_policy_reads_back:
  assumes "(site, asset, tag, m) \<in> set (manifest_entries h)"
    and "\<And>site' asset' tag' m'. (site', asset', tag', m') \<in> set (manifest_entries h) \<Longrightarrow>
           (site', asset') = (site, asset) \<Longrightarrow> tag' = tag \<or> tm_name m' = tag \<Longrightarrow> m' = m"
  shows "\<exists>p. map_of (manifest_policies h) (site, asset, tag) = Some p \<and> policy_view R p = manifest_view m"
proof -
  let ?k = "(site, asset, tag)"
  define step where "step = (\<lambda>d (site, asset, tag, m).
        (let name = (if tm_name m \<noteq> [] then tm_name m else tag);
             policy = manifest_policy_dict site asset name m
         in dict_set (dict_set d (site, asset, name) policy) (site, asset, tag) policy))"
  have view: "policy_view R (manifest_policy_dict a b c m') = manifest_view m'" for a b c m'
    by (simp add: policy_view_def manifest_policy_dict_def manifest_view_def dict_getd_def limit_of_def
        duration_of_def pget_def)
  have hit: "map_of (step d (site, asset, tag, m)) ?k
      = Some (manifest_policy_dict site asset (if tm_name m \<noteq> [] then tm_name m else tag) m)" for d
    by (simp add: step_def Let_def)
  have keep: "\<exists>p. map_of (step d x) ?k = Some p \<and> policy_view R p = manifest_view m"
    if "x \<in> set (manifest_entries h)" "map_of d ?k = Some q" "policy_view R q = manifest_view m" for d x q
  proof -
    obtain a b c m' where x: "x = (a, b, c, m')" by (metis prod.exhaust)
    with that assms(2) [of a b c m'] show ?thesis
      by (auto simp: step_def Let_def view)
  qed
  have "\<exists>p. map_of (foldl step d xs) ?k = Some p \<and> policy_view R p = manifest_view m"
    if "set xs \<subseteq> set (manifest_entries h)"
      and "(site, asset, tag, m) \<in> set xs \<or>
           (\<exists>q. map_of d ?k = Some q \<and> policy_view R q = manifest_view m)" for xs d
    using that
  proof (induction xs arbitrary: d)
    case Nil
    then show ?case by simp
  next
    case (Cons x xs)
    then have x: "x \<in> set (manifest_entries h)" by simp
    have "(site, asset, tag, m) \<in> set xs \<or>
        (\<exists>q. map_of (step d x) ?k = Some q \<and> policy_view R q = manifest_view m)"
      using Cons.prems(2) hit [of d] keep [OF x, of d] view by auto
    with Cons show ?case by simp
  qed
  from this [of "manifest_entries h" "[]"] assms(1) show ?thesis
    by (simp add: manifest_policies_def step_def)
qed

definition demo_tag :: tag_metadata where
  "demo_tag = \<lparr>tm_name = ''temp'', tm_unit = ''C'', tm_warning_low = 5, tm_warning_high = 80,
     tm_critical_low = 0, tm_critical_high = 100\<rparr>"

definition demo_hierarchy :: hierarchy where
  "demo_hierarchy = [(''s1'', [(''area'', [(''line'', [(''cell'', [(''a'', [(''t1'', demo_tag)])])])])])]"

theorem manifest_policy_reads_back_witness:
  "\<exists>p. map_of (manifest_policies demo_hierarchy) (''s1'', ''a'', ''t1'') = Some p
     \<and> policy_view demo_rt p = manifest_view demo_tag"
  by (rule manifest_policy_reads_back) (auto simp: demo_hierarchy_def manifest_entries_def)

end
