(* ===== verification/Scoring.thy ===== *)
theory Scoring
  imports Edge_Model
begin

text \<open>
  Anomaly scoring: the statistical detector of \<open>services/analytics/baseline.py\<close>
  (\<open>BaselineDetector\<close>, its per-tag dictionaries and \<open>update\<close>) and the rule score of
  \<open>services/processor/scoring.py\<close>. The square root of the standard library is the parameter \<open>sqrt_of\<close>;
  window lengths and sample counts are natural numbers. The wrapper around the PyOD package is not
  modelled.
\<close>

section \<open>The baseline detector\<close>

definition round_to :: "nat \<Rightarrow> rat \<Rightarrow> rat" where
  "round_to n r = of_int (round_half_even (r * 10 ^ n)) / 10 ^ n"

record detector =
  bd_window_size :: nat
  bd_z_threshold :: rat
  bd_ewma_alpha :: rat
  bd_roc_threshold :: rat
  bd_stuck_threshold :: rat
  bd_stuck_min_samples :: nat
  bd_ewma_deviation_threshold :: rat
  bd_roc_min_window :: nat
  bd_windows :: "(string \<times> rat list) list"
  bd_ewma :: "(string \<times> rat) list"
  bd_last :: "(string \<times> rat) list"
  bd_stuck_counts :: "(string \<times> nat) list"
  bd_roc_history :: "(string \<times> rat list) list"

definition new_detector :: detector where
  "new_detector =
     \<lparr>bd_window_size = 25, bd_z_threshold = 3, bd_ewma_alpha = 3 / 10, bd_roc_threshold = 5,
      bd_stuck_threshold = 1 / 100, bd_stuck_min_samples = 10, bd_ewma_deviation_threshold = 10,
      bd_roc_min_window = 5, bd_windows = [], bd_ewma = [], bd_last = [], bd_stuck_counts = [],
      bd_roc_history = []\<rparr>"

record detection =
  br_tag :: string
  br_value :: rat
  br_z_score :: rat
  br_z_anomaly :: bool
  br_ewma :: rat
  br_ewma_deviation :: rat
  br_ewma_anomaly :: bool
  br_roc :: rat
  br_roc_anomaly :: bool
  br_stuck_count :: nat
  br_stuck_anomaly :: bool
  br_anomaly_score :: int
  br_severity :: string

definition mean_of :: "rat list \<Rightarrow> rat" where
  "mean_of xs = sum_list xs / of_nat (length xs)"

text \<open>The window of a tag after the sample, a \<open>deque(maxlen=window_size)\<close>.\<close>

definition push_window :: "detector \<Rightarrow> string \<Rightarrow> rat \<Rightarrow> rat list" where
  "push_window d tag v = last_n (bd_window_size d) (dict_getd (bd_windows d) tag [] @ [v])"

definition z_part :: "(rat \<Rightarrow> rat) \<Rightarrow> detector \<Rightarrow> rat list \<Rightarrow> rat \<Rightarrow> rat \<times> bool" where
  "z_part sqrt_of d w v =
     (if length w < 3 then (0, False)
      else (let mean = mean_of w;
                variance = mean_of (map (\<lambda>x. (x - mean)\<^sup>2) w);
                std = (if variance > 0 then sqrt_of variance else 1 / 10 ^ 9);
                z = (v - mean) / std
            in (round_to 3 z, \<bar>z\<bar> > bd_z_threshold d \<and> std < mean * (2 / 10))))"

definition ewma_part :: "detector \<Rightarrow> string \<Rightarrow> rat \<Rightarrow> rat" where
  "ewma_part d tag v =
     (case map_of (bd_ewma d) tag of
        Some e \<Rightarrow> bd_ewma_alpha d * v + (1 - bd_ewma_alpha d) * e
      | None \<Rightarrow> v)"

text \<open>\<open>h[-k:]\<close> is the whole list for \<open>k = 0\<close>.\<close>

definition roc_part :: "detector \<Rightarrow> string \<Rightarrow> rat \<Rightarrow> rat \<times> bool \<times> (string \<times> rat list) list" where
  "roc_part d tag v =
     (case map_of (bd_last d) tag of
        None \<Rightarrow> (0, False, bd_roc_history d)
      | Some l \<Rightarrow>
          (let roc = \<bar>v - l\<bar>;
               h = dict_getd (bd_roc_history d) tag [] @ [roc];
               h' = (if bd_window_size d < length h then tl h else h);
               recent = (if bd_roc_min_window d = 0 then h' else last_n (bd_roc_min_window d) h');
               avg = (if recent = [] then 0 else mean_of recent)
           in (round_to 3 roc, bd_roc_threshold d < avg \<and> bd_roc_min_window d \<le> length recent,
               dict_set (bd_roc_history d) tag h')))"

text \<open>The stuck counter; \<open>last\<close> is the dictionary of last values after the assignment.\<close>

definition stuck_part :: "detector \<Rightarrow> (string \<times> rat) list \<Rightarrow> string \<Rightarrow> rat \<Rightarrow> nat" where
  "stuck_part d last_vals tag v =
     (case map_of (bd_stuck_counts d) tag of
        None \<Rightarrow> 0
      | Some c \<Rightarrow> (if \<bar>v - dict_getd last_vals tag v\<bar> < bd_stuck_threshold d then Suc c else 0))"

definition combined_score :: "bool \<Rightarrow> bool \<Rightarrow> bool \<Rightarrow> bool \<Rightarrow> int" where
  "combined_score z e r s =
     (if z then 40 else 0) + (if e then 30 else 0) + (if r then 20 else 0) + (if s then 10 else 0)"

definition detector_update :: "(rat \<Rightarrow> rat) \<Rightarrow> detector \<Rightarrow> string \<Rightarrow> rat \<Rightarrow> detection \<times> detector" where
  "detector_update sqrt_of d tag v =
     (let w = push_window d tag v;
          (z, z_anomaly) = z_part sqrt_of d w v;
          e = ewma_part d tag v;
          ewma_dev = \<bar>v - e\<bar>;
          e_anomaly = (bd_ewma_deviation_threshold d < ewma_dev \<and> bd_roc_min_window d \<le> length w);
          (roc, r_anomaly, history) = roc_part d tag v;
          lasts = dict_set (bd_last d) tag v;
          stuck = stuck_part d lasts tag v;
          s_anomaly = (bd_stuck_min_samples d \<le> stuck);
          score = combined_score z_anomaly e_anomaly r_anomaly s_anomaly
      in (\<lparr>br_tag = tag, br_value = v, br_z_score = z, br_z_anomaly = z_anomaly,
           br_ewma = round_to 3 e, br_ewma_deviation = round_to 3 ewma_dev, br_ewma_anomaly = e_anomaly,
           br_roc = roc, br_roc_anomaly = r_anomaly, br_stuck_count = stuck, br_stuck_anomaly = s_anomaly,
           br_anomaly_score = score,
           br_severity = (if 70 \<le> score then ''critical'' else if 30 \<le> score then ''warning'' else ''normal'')\<rparr>,
          d\<lparr>bd_windows := dict_set (bd_windows d) tag w, bd_ewma := dict_set (bd_ewma d) tag e,
            bd_roc_history := history, bd_last := lasts,
            bd_stuck_counts := dict_set (bd_stuck_counts d) tag stuck\<rparr>))"

fun detect_all :: "(rat \<Rightarrow> rat) \<Rightarrow> detector \<Rightarrow> (string \<times> rat) list \<Rightarrow> detection list \<times> detector" where
  "detect_all sqrt_of d [] = ([], d)"
| "detect_all sqrt_of d ((tag, v) # xs) =
     (let (r, d1) = detector_update sqrt_of d tag v; (rs, d2) = detect_all sqrt_of d1 xs in (r # rs, d2))"

definition VALUE_FIELDS :: "string list" where
  "VALUE_FIELDS = [''temperature_c'', ''vibration_mm_s'', ''pressure_bar'']"

text \<open>\<open>None\<close>: a value does not convert to a float.\<close>

fun field_values :: "pyrt \<Rightarrow> pydict \<Rightarrow> string list \<Rightarrow> (string \<times> rat) list option" where
  "field_values R e [] = Some []"
| "field_values R e (f # fs) =
     (case py_float R (dict_getd e f (PInt 0)) of
        None \<Rightarrow> None
      | Some v \<Rightarrow> map_option ((#) (f, v)) (field_values R e fs))"

definition update_event :: "pyrt \<Rightarrow> (rat \<Rightarrow> rat) \<Rightarrow> detector \<Rightarrow> pydict \<Rightarrow> (detection list \<times> detector) option" where
  "update_event R sqrt_of d e = map_option (detect_all sqrt_of d) (field_values R e VALUE_FIELDS)"

definition detect_baseline_anomalies :: "(rat \<Rightarrow> rat) \<Rightarrow> rat list \<Rightarrow> string \<Rightarrow> detection list" where
  "detect_baseline_anomalies sqrt_of vs tag = fst (detect_all sqrt_of new_detector (map (Pair tag) vs))"

section \<open>The rule score\<close>

definition severity_for :: "rat \<Rightarrow> string" where
  "severity_for score =
     (if 8 / 10 \<le> score then ''critical'' else if 4 / 10 \<le> score then ''warning'' else ''normal'')"

definition rule_score :: "rat \<Rightarrow> rat \<Rightarrow> rat \<Rightarrow> rat \<Rightarrow> rat \<Rightarrow> rat" where
  "rule_score temp vib press temp_avg vib_avg =
     (if 65 \<le> temp then 35 / 100 else 0) + (if 7 \<le> vib then 35 / 100 else 0)
     + (if 8 \<le> press then 20 / 100 else 0)
     + (if 58 \<le> temp_avg \<or> 5 \<le> vib_avg then 10 / 100 else 0)"

text \<open>The detector's samples: the three fields, and the event's own tag when it is another one.\<close>

definition detector_samples :: "pyrt \<Rightarrow> pydict \<Rightarrow> (string \<times> rat) list option" where
  "detector_samples R e =
     (case field_values R e VALUE_FIELDS of
        None \<Rightarrow> None
      | Some xs \<Rightarrow>
          (let tag = py_strip (py_str R (dict_getd e ''tag'' (PStr []))) in
           if tag \<noteq> [] \<and> tag \<notin> set VALUE_FIELDS then
             map_option (\<lambda>v. xs @ [(tag, v)]) (py_float R (dict_getd e ''value'' (PInt 0)))
           else Some xs))"

definition detector_bonus :: "detection list \<Rightarrow> rat" where
  "detector_bonus rs = min (of_int (foldl max 0 (map br_anomaly_score rs)) / 100) (3 / 10)"

definition score_event ::
    "pyrt \<Rightarrow> (rat \<Rightarrow> rat) \<Rightarrow> pydict \<Rightarrow> rat \<Rightarrow> rat \<Rightarrow> detector option \<Rightarrow> (rat \<times> detector option) option" where
  "score_event R sqrt_of e temp_avg vib_avg det =
     (case (py_float R (dict_getd e ''temperature_c'' (PInt 0)), py_float R (dict_getd e ''vibration_mm_s'' (PInt 0)),
            py_float R (dict_getd e ''pressure_bar'' (PInt 0))) of
        (Some temp, Some vib, Some press) \<Rightarrow>
          (let score = rule_score temp vib press temp_avg vib_avg in
           case det of
             None \<Rightarrow> Some (min (round_to 2 score) 1, None)
           | Some d \<Rightarrow>
               map_option (\<lambda>xs. let (rs, d') = detect_all sqrt_of d xs in
                   (min (round_to 2 (score + detector_bonus rs)) 1, Some d'))
                 (detector_samples R e))
      | _ \<Rightarrow> None)"

section \<open>Lemmas\<close>

lemma round_half_even_int [simp]: "round_half_even (of_int i) = i"
  by (simp add: round_half_even_def)

lemma round_hundredths: "round_to 2 (of_int i / 100) = of_int i / 100"
  by (simp add: round_to_def)

lemma rule_score_hundredths:
  "rule_score t v p ta va = of_int ((if 65 \<le> t then 35 else 0) + (if 7 \<le> v then 35 else 0)
     + (if 8 \<le> p then 20 else 0) + (if 58 \<le> ta \<or> 5 \<le> va then 10 else 0)) / 100"
  by (simp add: rule_score_def)

lemma round_rule_score: "round_to 2 (rule_score t v p ta va) = rule_score t v p ta va"
  by (subst (1 2) rule_score_hundredths) (rule round_hundredths)

lemma rule_score_le_1: "rule_score t v p ta va \<le> 1"
  by (simp add: rule_score_def)

lemma detect_all_length: "length (fst (detect_all sqrt_of d xs)) = length xs"
  by (induction sqrt_of d xs rule: detect_all.induct) (auto simp: Let_def split: prod.split)

lemma update_stuck:
  assumes "0 < bd_stuck_threshold d"
  shows "br_stuck_count (fst (detector_update sqrt_of d tag v))
      = (case map_of (bd_stuck_counts d) tag of None \<Rightarrow> 0 | Some c \<Rightarrow> Suc c)"
    "br_stuck_anomaly (fst (detector_update sqrt_of d tag v))
      \<longleftrightarrow> bd_stuck_min_samples d \<le> br_stuck_count (fst (detector_update sqrt_of d tag v))"
    "map_of (bd_stuck_counts (snd (detector_update sqrt_of d tag v))) tag
      = Some (br_stuck_count (fst (detector_update sqrt_of d tag v)))"
    "bd_stuck_threshold (snd (detector_update sqrt_of d tag v)) = bd_stuck_threshold d"
    "bd_stuck_min_samples (snd (detector_update sqrt_of d tag v)) = bd_stuck_min_samples d"
  using assms by (simp_all add: detector_update_def stuck_part_def Let_def split: prod.split option.split)

lemma detect_all_stuck:
  assumes "0 < bd_stuck_threshold d" "i < length vs"
  shows "br_stuck_count (fst (detect_all sqrt_of d (map (Pair tag) vs)) ! i)
      = (case map_of (bd_stuck_counts d) tag of None \<Rightarrow> i | Some c \<Rightarrow> Suc c + i)
    \<and> (br_stuck_anomaly (fst (detect_all sqrt_of d (map (Pair tag) vs)) ! i)
      \<longleftrightarrow> bd_stuck_min_samples d \<le> br_stuck_count (fst (detect_all sqrt_of d (map (Pair tag) vs)) ! i))"
  using assms
proof (induction vs arbitrary: d i)
  case Nil
  then show ?case by simp
next
  case (Cons v vs)
  let ?u = "detector_update sqrt_of d tag v"
  show ?case
  proof (cases i)
    case 0
    then show ?thesis
      using update_stuck [OF Cons.prems(1), of sqrt_of tag v]
      by (auto simp: 0 Let_def case_prod_beta split: option.splits)
  next
    case (Suc j)
    with Cons.prems have "j < length vs" by simp
    moreover have "0 < bd_stuck_threshold (snd ?u)"
      using update_stuck(4) [OF Cons.prems(1)] Cons.prems(1) by simp
    moreover note Cons.IH [of "snd ?u" j] update_stuck [OF Cons.prems(1), of sqrt_of tag v]
    ultimately show ?thesis
      by (auto simp: Suc Let_def case_prod_beta split: option.splits)
  qed
qed

section \<open>Properties\<close>

text \<open>
  The stuck detector counts samples, not repetitions: in any series, whatever its values,
  the counter at sample \<open>i\<close> is \<open>i\<close>, so from the eleventh sample on every signal is
  reported as stuck. \<open>update\<close> assigns the last value before it compares the sample with it.
\<close>

theorem stuck_counts_samples:
  assumes "i < length vs"
  shows "br_stuck_count (detect_baseline_anomalies sqrt_of vs tag ! i) = i
    \<and> (br_stuck_anomaly (detect_baseline_anomalies sqrt_of vs tag ! i) \<longleftrightarrow> 10 \<le> i)"
proof -
  have "0 < bd_stuck_threshold new_detector" "map_of (bd_stuck_counts new_detector) tag = None"
    "bd_stuck_min_samples new_detector = 10"
    by (simp_all add: new_detector_def)
  with detect_all_stuck [of new_detector i vs sqrt_of tag] assms show ?thesis
    by (auto simp: detect_baseline_anomalies_def)
qed

theorem stuck_counts_samples_witness:
  "br_stuck_anomaly (detect_baseline_anomalies (\<lambda>x. x) [0, 9, 2, 8, 1, 7, 3, 9, 0, 6, 4] ''flow'' ! 10)"
  using stuck_counts_samples [of 10 "[0, 9, 2, 8, 1, 7, 3, 9, 0, 6, 4]" "\<lambda>x. x" "''flow''"] by simp

text \<open>
  What the rule score means: without a detector the score of an event with numeric fields lies
  between 0 and 1, and its severity is critical exactly when temperature and vibration are both
  high and the pressure or one of the averages is high too, and normal exactly when
  neither of the two is high, or not both are and no weaker rule (pressure, averages) applies.
\<close>

theorem severity_characterised:
  assumes "py_float R (dict_getd e ''temperature_c'' (PInt 0)) = Some t"
    and "py_float R (dict_getd e ''vibration_mm_s'' (PInt 0)) = Some v"
    and "py_float R (dict_getd e ''pressure_bar'' (PInt 0)) = Some p"
  shows "\<exists>s. score_event R sqrt_of e ta va None = Some (s, None) \<and> 0 \<le> s \<and> s \<le> 1
    \<and> (severity_for s = ''critical'' \<longleftrightarrow> 65 \<le> t \<and> 7 \<le> v \<and> (8 \<le> p \<or> 58 \<le> ta \<or> 5 \<le> va))
    \<and> (severity_for s = ''normal'' \<longleftrightarrow>
         (t < 65 \<and> v < 7) \<or> (\<not> (65 \<le> t \<and> 7 \<le> v) \<and> p < 8 \<and> ta < 58 \<and> va < 5))"
proof -
  have "score_event R sqrt_of e ta va None = Some (rule_score t v p ta va, None)"
    using assms rule_score_le_1 [of t v p ta va] by (simp add: score_event_def round_rule_score Let_def min_def)
  moreover have "0 \<le> rule_score t v p ta va" "rule_score t v p ta va \<le> 1"
    by (simp_all add: rule_score_def)
  moreover have "severity_for (rule_score t v p ta va) = ''critical''
      \<longleftrightarrow> 65 \<le> t \<and> 7 \<le> v \<and> (8 \<le> p \<or> 58 \<le> ta \<or> 5 \<le> va)"
    by (simp add: rule_score_def severity_for_def)
  moreover have "severity_for (rule_score t v p ta va) = ''normal'' \<longleftrightarrow>
      (t < 65 \<and> v < 7) \<or> (\<not> (65 \<le> t \<and> 7 \<le> v) \<and> p < 8 \<and> ta < 58 \<and> va < 5)"
    by (auto simp: rule_score_def severity_for_def split: if_splits)
  ultimately show ?thesis by blast
qed

theorem severity_characterised_witness:
  "\<exists>s. score_event demo_rt (\<lambda>x. x)
      [(''temperature_c'', PInt 70), (''vibration_mm_s'', PInt 8)] 60 1 None = Some (s, None)
    \<and> severity_for s = ''critical''"
  using severity_characterised [of demo_rt "[(''temperature_c'', PInt 70), (''vibration_mm_s'', PInt 8)]" 70 8 0
      "\<lambda>x. x" 60 1]
  by (auto simp: py_float_def dict_getd_def)

end
