(* ===== verification/Runtime_Event.thy ===== *)
theory Runtime_Event
  imports Stream_Scope
begin

text \<open>
  The runtime record of \<open>services/common/runtime_event.py\<close>: building it from a decoded message,
  its partition key, the processing results, its serialisation, and the rolling window with running
  sums. Sums of floats are sums of rationals.
\<close>

section \<open>The record\<close>

record runtime_event =
  re_event_id :: string
  re_source_protocol :: string
  re_source_id :: string
  re_asset_id :: string
  re_tag :: string
  re_value :: rat
  re_quality :: string
  re_unit :: string
  re_site_id :: string
  re_line :: string
  re_schema_version :: int
  re_timestamp :: string
  re_device_id :: string
  re_value_text_raw :: "string option"
  re_value_bool :: "bool option"
  re_value_type :: string
  re_project_id :: string
  re_source_connection_id :: string
  re_source_config_version :: int
  re_mapping_version :: string
  re_lineage_id :: string
  re_temperature_c :: rat
  re_vibration_mm_s :: rat
  re_pressure_bar :: rat
  re_fault_type :: string
  re_scenario_id :: string
  re_ground_truth_severity :: string
  re_processed_at :: string
  re_window_size :: int
  re_temperature_avg_c :: rat
  re_vibration_avg_mm_s :: rat
  re_anomaly_score :: rat
  re_severity :: string
  re_threshold_severity :: string
  re_threshold_status :: string
  re_threshold_source :: string
  re_threshold_policy_version :: int
  re_threshold_breached :: bool
  re_triggered_rules :: "string list"
  re_baseline :: "pydict option"
  re_evaluation :: "pydict option"
  re_partition_key_cache :: string

definition to_int_or :: "pyval \<Rightarrow> int \<Rightarrow> int" where
  "to_int_or v dflt = (case py_int v of None \<Rightarrow> dflt | Some i \<Rightarrow> i)"

text \<open>The numeric projection, the raw text, the Boolean, and the type of a scalar.\<close>

definition typed_scalar :: "pyrt \<Rightarrow> pyval \<Rightarrow> rat \<times> string option \<times> bool option \<times> string" where
  "typed_scalar R v =
     (case v of
        PBool b \<Rightarrow> (if b then 1 else 0, None, Some b, ''boolean'')
      | PInt i \<Rightarrow> (of_int i, None, None, ''number'')
      | PFloat r \<Rightarrow> (r, None, None, ''number'')
      | _ \<Rightarrow> (case float_of R (py_str R v) of
               Some r \<Rightarrow> (r, None, None, ''number'')
             | None \<Rightarrow> (0, Some (py_str R v), None, ''string'')))"

text \<open>\<open>str(get(k, d))\<close> and \<open>__post_init__\<close>.\<close>

definition str_get :: "pyrt \<Rightarrow> pydict \<Rightarrow> string \<Rightarrow> string \<Rightarrow> string" where
  "str_get R d k dflt = py_str R (dict_getd d k (PStr dflt))"

definition runtime_key :: "runtime_event \<Rightarrow> string" where
  "runtime_key e = join ''|''
     [if re_project_id e \<noteq> [] then re_project_id e else re_site_id e, re_site_id e, re_line e,
      re_source_protocol e, re_source_id e, re_asset_id e, re_tag e]"

definition post_init :: "runtime_event \<Rightarrow> runtime_event" where
  "post_init e = e\<lparr>re_partition_key_cache := runtime_key e\<rparr>"

definition set_process_value :: "runtime_event \<Rightarrow> string option \<Rightarrow> rat \<Rightarrow> runtime_event" where
  "set_process_value e f v =
     (if f = Some ''temperature_c'' then e\<lparr>re_temperature_c := v\<rparr>
      else if f = Some ''vibration_mm_s'' then e\<lparr>re_vibration_mm_s := v\<rparr>
      else if f = Some ''pressure_bar'' then e\<lparr>re_pressure_bar := v\<rparr> else e)"

definition raw_record :: "pyrt \<Rightarrow> pydict \<Rightarrow> runtime_event" where
  "raw_record R d =
     (let has_value = dict_has d ''value'';
          tag = py_str R (py_or (pget d ''tag'') (PStr (if has_value then [] else ''__composite__'')));
          (v, raw, b, t) = (if has_value then typed_scalar R (pget d ''value'') else (0, None, None, ''composite''));
          asset = first_str R d [''asset_id'', ''device_id''] ''unknown-asset'';
          device = py_str R (py_or (pget d ''device_id'') (PStr asset));
          site_or = (\<lambda>dflt. dict_getd d ''site'' (dict_getd d ''site_id'' (PStr dflt)))
      in \<lparr>re_event_id = str_get R d ''event_id'' [],
          re_source_protocol = str_get R d ''source_protocol'' ''unknown'',
          re_source_id = py_str R (py_or (pget d ''source_id'')
             (PStr (if device \<noteq> [] then device else if asset \<noteq> [] then asset else ''unknown-source''))),
          re_asset_id = asset, re_tag = tag, re_value = v,
          re_quality = str_get R d ''quality'' ''good'',
          re_unit = py_str R (py_or (dict_getd d ''unit'' (PStr [])) (PStr [])),
          re_site_id = py_str R (site_or ''demo-site''),
          re_line = py_str R (dict_getd d ''line'' (dict_getd d ''line_id'' (PStr ''line-01''))),
          re_schema_version = to_int_or (dict_getd d ''schema_version'' (PInt 1)) 1,
          re_timestamp = first_str R d [''ts_source'', ''timestamp'', ''ts_ingest''] [],
          re_device_id = device, re_value_text_raw = raw, re_value_bool = b, re_value_type = t,
          re_project_id = py_str R (py_or (dict_getd d ''project_id'' (site_or [])) (PStr [])),
          re_source_connection_id = str_get R d ''source_connection_id'' [],
          re_source_config_version = to_int_or (dict_getd d ''source_config_version'' (PInt 0)) 0,
          re_mapping_version = str_get R d ''mapping_version'' [],
          re_lineage_id = py_str R (dict_getd d ''lineage_id'' (dict_getd d ''event_id'' (PStr []))),
          re_temperature_c = to_float R (dict_getd d ''temperature_c'' (PInt 0)),
          re_vibration_mm_s = to_float R (dict_getd d ''vibration_mm_s'' (PInt 0)),
          re_pressure_bar = to_float R (dict_getd d ''pressure_bar'' (PInt 0)),
          re_fault_type = str_get R d ''fault_type'' ''normal'',
          re_scenario_id = str_get R d ''scenario_id'' ''sc-000'',
          re_ground_truth_severity = str_get R d ''ground_truth_severity'' ''normal'',
          re_processed_at = [], re_window_size = 0, re_temperature_avg_c = 0, re_vibration_avg_mm_s = 0,
          re_anomaly_score = 0, re_severity = ''normal'', re_threshold_severity = ''normal'',
          re_threshold_status = ''unconfigured'', re_threshold_source = ''unconfigured'',
          re_threshold_policy_version = 0, re_threshold_breached = False, re_triggered_rules = [],
          re_baseline = None, re_evaluation = None, re_partition_key_cache = []\<rparr>)"

definition build_record :: "pyrt \<Rightarrow> pydict \<Rightarrow> runtime_event" where
  "build_record R d =
     (let e = post_init (raw_record R d) in
      if dict_has d ''value'' then set_process_value e (tag_to_legacy_field (re_tag e)) (re_value e) else e)"

definition partition_key :: "runtime_event \<Rightarrow> string" where
  "partition_key e = re_partition_key_cache e"

section \<open>Processing results and serialisation\<close>

record processing =
  pr_processed_at :: "string option"
  pr_window_size :: int
  pr_temperature_avg_c :: rat
  pr_vibration_avg_mm_s :: rat
  pr_anomaly_score :: rat
  pr_severity :: string
  pr_threshold_severity :: string
  pr_threshold_status :: string
  pr_threshold_source :: string
  pr_threshold_policy_version :: int
  pr_threshold_breached :: bool
  pr_triggered_rules :: "string list option"
  pr_baseline :: "pydict option"
  pr_evaluation :: "pydict option"

definition mark_processed :: "string \<Rightarrow> runtime_event \<Rightarrow> processing \<Rightarrow> runtime_event" where
  "mark_processed now e p =
     e\<lparr>re_processed_at := (case pr_processed_at p of Some (c # cs) \<Rightarrow> c # cs | _ \<Rightarrow> now),
       re_window_size := pr_window_size p, re_temperature_avg_c := pr_temperature_avg_c p,
       re_vibration_avg_mm_s := pr_vibration_avg_mm_s p, re_anomaly_score := pr_anomaly_score p,
       re_severity := pr_severity p, re_threshold_severity := pr_threshold_severity p,
       re_threshold_status := pr_threshold_status p, re_threshold_source := pr_threshold_source p,
       re_threshold_policy_version := pr_threshold_policy_version p,
       re_threshold_breached := pr_threshold_breached p,
       re_triggered_rules := (case pr_triggered_rules p of None \<Rightarrow> re_triggered_rules e | Some r \<Rightarrow> r),
       re_baseline := pr_baseline p, re_evaluation := pr_evaluation p\<rparr>"

definition opt_val :: "('a \<Rightarrow> pyval) \<Rightarrow> 'a option \<Rightarrow> pyval" where
  "opt_val f x = (case x of None \<Rightarrow> PNone | Some y \<Rightarrow> f y)"

definition event_fields :: "runtime_event \<Rightarrow> pydict" where
  "event_fields e =
     [(''event_id'', PStr (re_event_id e)), (''source_protocol'', PStr (re_source_protocol e)),
      (''source_id'', PStr (re_source_id e)), (''asset_id'', PStr (re_asset_id e)),
      (''tag'', PStr (re_tag e)), (''value'', PFloat (re_value e)),
      (''value_text_raw'', opt_val PStr (re_value_text_raw e)), (''value_bool'', opt_val PBool (re_value_bool e)),
      (''value_type'', PStr (re_value_type e)), (''quality'', PStr (re_quality e)),
      (''unit'', PStr (re_unit e)), (''site_id'', PStr (re_site_id e)), (''line'', PStr (re_line e)),
      (''schema_version'', PInt (re_schema_version e)), (''timestamp'', PStr (re_timestamp e)),
      (''device_id'', PStr (re_device_id e)), (''project_id'', PStr (re_project_id e)),
      (''source_connection_id'', PStr (re_source_connection_id e)),
      (''source_config_version'', PInt (re_source_config_version e)),
      (''mapping_version'', PStr (re_mapping_version e)), (''lineage_id'', PStr (re_lineage_id e)),
      (''temperature_c'', PFloat (re_temperature_c e)), (''vibration_mm_s'', PFloat (re_vibration_mm_s e)),
      (''pressure_bar'', PFloat (re_pressure_bar e)), (''fault_type'', PStr (re_fault_type e)),
      (''scenario_id'', PStr (re_scenario_id e)), (''ground_truth_severity'', PStr (re_ground_truth_severity e)),
      (''processed_at'', PStr (re_processed_at e)), (''window_size'', PInt (re_window_size e)),
      (''temperature_avg_c'', PFloat (re_temperature_avg_c e)),
      (''vibration_avg_mm_s'', PFloat (re_vibration_avg_mm_s e)),
      (''anomaly_score'', PFloat (re_anomaly_score e)), (''severity'', PStr (re_severity e)),
      (''threshold_severity'', PStr (re_threshold_severity e)), (''threshold_status'', PStr (re_threshold_status e)),
      (''threshold_source'', PStr (re_threshold_source e)),
      (''threshold_policy_version'', PInt (re_threshold_policy_version e)),
      (''threshold_breached'', PBool (re_threshold_breached e)),
      (''triggered_rules'', PList (map PStr (re_triggered_rules e)))]"

definition event_to_dict :: "runtime_event \<Rightarrow> pydict" where
  "event_to_dict e =
     (let d = (case re_baseline e of None \<Rightarrow> event_fields e | Some b \<Rightarrow> event_fields e @ [(''baseline'', PDict b)])
      in case re_evaluation e of None \<Rightarrow> d | Some v \<Rightarrow> d @ [(''evaluation'', PDict v)])"

section \<open>The rolling window\<close>

record rolling_window =
  rw_maxlen :: int
  rw_records :: "runtime_event list"
  rw_temperature_sum :: rat
  rw_vibration_sum :: rat

definition new_window :: "int \<Rightarrow> rolling_window" where
  "new_window n = \<lparr>rw_maxlen = n, rw_records = [], rw_temperature_sum = 0, rw_vibration_sum = 0\<rparr>"

definition window_evict :: "rolling_window \<Rightarrow> rolling_window" where
  "window_evict w =
     (case rw_records w of
        [] \<Rightarrow> w
      | e # es \<Rightarrow>
          (if rw_maxlen w \<le> int (length (rw_records w)) then
             w\<lparr>rw_records := es, rw_temperature_sum := rw_temperature_sum w - re_temperature_c e,
               rw_vibration_sum := rw_vibration_sum w - re_vibration_mm_s e\<rparr>
           else w))"

definition window_append :: "rolling_window \<Rightarrow> runtime_event \<Rightarrow> (rat \<times> rat \<times> nat) \<times> rolling_window" where
  "window_append w0 e =
     (let w1 = (if rw_maxlen w0 \<le> 0 then w0\<lparr>rw_maxlen := 1\<rparr> else w0);
          w2 = window_evict w1;
          w = w2\<lparr>rw_records := rw_records w2 @ [e],
                 rw_temperature_sum := rw_temperature_sum w2 + re_temperature_c e,
                 rw_vibration_sum := rw_vibration_sum w2 + re_vibration_mm_s e\<rparr>;
          size = length (rw_records w)
      in ((rw_temperature_sum w / of_nat size, rw_vibration_sum w / of_nat size, size), w))"

definition window_run :: "rolling_window \<Rightarrow> runtime_event list \<Rightarrow> rolling_window" where
  "window_run w es = foldl (\<lambda>w e. snd (window_append w e)) w es"

text \<open>The contract of a bounded window: it holds the last \<open>n\<close> records and their exact sums.\<close>

definition window_holds :: "rolling_window \<Rightarrow> runtime_event list \<Rightarrow> bool" where
  "window_holds w es \<longleftrightarrow> rw_records w = last_n (nat (max 1 (rw_maxlen w))) es
     \<and> rw_temperature_sum w = sum_list (map re_temperature_c (rw_records w))
     \<and> rw_vibration_sum w = sum_list (map re_vibration_mm_s (rw_records w))"

lemma window_append_holds:
  assumes "window_holds w es"
  shows "window_holds (snd (window_append w e)) (es @ [e])
    \<and> max 1 (rw_maxlen (snd (window_append w e))) = max 1 (rw_maxlen w)"
proof -
  define n where "n = nat (max 1 (rw_maxlen w))"
  define w1 where "w1 = (if rw_maxlen w \<le> 0 then w\<lparr>rw_maxlen := 1\<rparr> else w)"
  have n: "0 < n" "int n = max 1 (rw_maxlen w)" "rw_maxlen w1 = int n"
    by (auto simp: n_def w1_def)
  have w1: "rw_records w1 = last_n n es" "rw_temperature_sum w1 = sum_list (map re_temperature_c (rw_records w1))"
      "rw_vibration_sum w1 = sum_list (map re_vibration_mm_s (rw_records w1))"
    using assms by (auto simp: window_holds_def w1_def n_def)
  have ev: "rw_records (window_evict w1) = last_n (n - 1) es \<and> rw_maxlen (window_evict w1) = int n
     \<and> rw_temperature_sum (window_evict w1) = sum_list (map re_temperature_c (rw_records (window_evict w1)))
     \<and> rw_vibration_sum (window_evict w1) = sum_list (map re_vibration_mm_s (rw_records (window_evict w1)))"
  proof (cases "n \<le> length es")
    case True
    then have "last_n n es \<noteq> []" using n(1) by (simp add: last_n_def)
    then obtain x xs where x: "last_n n es = x # xs" by (cases "last_n n es") auto
    have "xs = tl (drop (length es - n) es)" using x by (simp add: last_n_def)
    also have "\<dots> = last_n (n - 1) es"
      using True n(1) by (simp add: last_n_def tl_drop drop_Suc [symmetric] Suc_diff_le)
    finally have "xs = last_n (n - 1) es" .
    moreover have "length (last_n n es) = n" using True by simp
    ultimately show ?thesis
      using w1 n(3) x by (simp add: window_evict_def)
  next
    case False
    then have "window_evict w1 = w1"
      using w1(1) n(3) by (cases es) (simp_all add: window_evict_def)
    with False w1 n show ?thesis by simp
  qed
  let ?v = "snd (window_append w e)"
  have v: "rw_records ?v = rw_records (window_evict w1) @ [e]" "rw_maxlen ?v = rw_maxlen (window_evict w1)"
      "rw_temperature_sum ?v = rw_temperature_sum (window_evict w1) + re_temperature_c e"
      "rw_vibration_sum ?v = rw_vibration_sum (window_evict w1) + re_vibration_mm_s e"
    by (simp_all add: window_append_def Let_def w1_def [symmetric])
  have sums: "rw_temperature_sum ?v = sum_list (map re_temperature_c (rw_records ?v))"
      "rw_vibration_sum ?v = sum_list (map re_vibration_mm_s (rw_records ?v))"
    using ev v(1,3,4) by simp_all
  have len: "rw_maxlen ?v = int n" using ev v(2) by simp
  have rec: "rw_records ?v = last_n n (es @ [e])"
    using ev v(1) last_n_snoc [OF n(1), of es e] by simp
  have m: "max 1 (int n) = int n" using n(1) by simp
  show ?thesis
    unfolding window_holds_def len m nat_int using rec sums n(2) by blast
qed

lemma window_run_holds:
  "window_holds w es \<Longrightarrow> window_holds (window_run w fs) (es @ fs)
     \<and> max 1 (rw_maxlen (window_run w fs)) = max 1 (rw_maxlen w)"
proof (induction fs arbitrary: w es)
  case Nil
  then show ?case by (simp add: window_run_def)
next
  case (Cons f fs)
  from Cons.IH [of "snd (window_append w f)" "es @ [f]"] window_append_holds [OF Cons.prems, of f]
  show ?case by (simp add: window_run_def)
qed

lemma new_window_holds: "window_holds (new_window n) []"
  by (simp add: window_holds_def new_window_def last_n_def)

section \<open>The two partition keys\<close>

text \<open>An identity field of a validated event: present, a non-empty text.\<close>

definition text_field :: "pydict \<Rightarrow> string \<Rightarrow> bool" where
  "text_field d k = (case map_of d k of Some (PStr s) \<Rightarrow> s \<noteq> [] | _ \<Rightarrow> False)"

definition identified :: "pydict \<Rightarrow> bool" where
  "identified d \<longleftrightarrow> list_all (text_field d) [''site'', ''line'', ''source_protocol'', ''source_id'', ''asset_id'', ''tag'']
     \<and> (case map_of d ''project_id'' of None \<Rightarrow> True | Some PNone \<Rightarrow> True | Some (PStr _) \<Rightarrow> True | _ \<Rightarrow> False)"

lemma text_fieldE:
  assumes "text_field d k"
  obtains s where "map_of d k = Some (PStr s)" "s \<noteq> []"
  using assms by (auto simp: text_field_def split: option.splits pyval.splits)

lemma first_str_hit: "map_of d k = Some (PStr s) \<Longrightarrow> s \<noteq> [] \<Longrightarrow> first_str R d (k # ks) dflt = s"
  by (simp add: first_str_def pget_def dict_getd_def)

lemma set_process_value_key: "re_partition_key_cache (set_process_value e f v) = re_partition_key_cache e"
  by (simp add: set_process_value_def)

lemma partition_key_raw: "partition_key (build_record R d) = runtime_key (raw_record R d)"
  by (simp add: build_record_def partition_key_def post_init_def Let_def set_process_value_key)

lemma raw_record_sel:
  "re_site_id (raw_record R d) = py_str R (dict_getd d ''site'' (dict_getd d ''site_id'' (PStr ''demo-site'')))"
  "re_line (raw_record R d) = py_str R (dict_getd d ''line'' (dict_getd d ''line_id'' (PStr ''line-01'')))"
  "re_source_protocol (raw_record R d) = str_get R d ''source_protocol'' ''unknown''"
  "re_asset_id (raw_record R d) = first_str R d [''asset_id'', ''device_id''] ''unknown-asset''"
  "re_tag (raw_record R d)
     = py_str R (py_or (pget d ''tag'') (PStr (if dict_has d ''value'' then [] else ''__composite__'')))"
  "re_project_id (raw_record R d)
     = py_str R (py_or (dict_getd d ''project_id'' (dict_getd d ''site'' (dict_getd d ''site_id'' (PStr [])))) (PStr []))"
  by (simp_all only: raw_record_def Let_def case_prod_beta runtime_event.simps)

lemma raw_record_source:
  "map_of d ''source_id'' = Some (PStr s) \<Longrightarrow> s \<noteq> [] \<Longrightarrow> re_source_id (raw_record R d) = s"
proof -
  assume s: "map_of d ''source_id'' = Some (PStr s)" "s \<noteq> []"
  have "\<exists>x. re_source_id (raw_record R d) = py_str R (py_or (pget d ''source_id'') x)"
    by (simp only: raw_record_def Let_def case_prod_beta runtime_event.simps) blast
  with s show ?thesis by (auto simp: pget_def dict_getd_def)
qed

section \<open>Properties\<close>

text \<open>
  The rolling averages are exact at every step: after any sequence of records, appending
  one more returns the averages of temperature and vibration over the last \<open>max(1, maxlen)\<close> records
  and their number, and the window never holds more records than that. No drift is carried by the
  running sums.
\<close>

theorem window_averages_exact:
  "fst (window_append (window_run (new_window n) es) e)
     = (let last = last_n (nat (max 1 n)) (es @ [e]) in
        (sum_list (map re_temperature_c last) / of_nat (length last),
         sum_list (map re_vibration_mm_s last) / of_nat (length last),
         min (nat (max 1 n)) (Suc (length es))))"
proof -
  let ?w = "window_run (new_window n) es"
  have run: "window_holds ?w es" "max 1 (rw_maxlen ?w) = max 1 n"
    using window_run_holds [OF new_window_holds, of n es] by (simp_all add: new_window_def)
  from window_append_holds [OF run(1), of e]
  have "window_holds (snd (window_append ?w e)) (es @ [e])"
    "max 1 (rw_maxlen (snd (window_append ?w e))) = max 1 n"
    using run(2) by auto
  moreover have "fst (window_append ?w e)
      = (rw_temperature_sum (snd (window_append ?w e)) / of_nat (length (rw_records (snd (window_append ?w e)))),
         rw_vibration_sum (snd (window_append ?w e)) / of_nat (length (rw_records (snd (window_append ?w e)))),
         length (rw_records (snd (window_append ?w e))))"
    by (simp add: window_append_def Let_def)
  ultimately show ?thesis
    by (simp add: window_holds_def Let_def)
qed

text \<open>
  The processor keys its state as the edge keys the topic: for an event whose identity
  fields are non-empty texts, the partition key of the runtime record is the partition key the edge
  publisher computes (without the native accelerator).
\<close>

theorem runtime_key_agrees:
  assumes "identified d" "native d = None"
  shows "partition_key (build_record R d) = stream_partition_key R native d"
proof -
  obtain si l p so a t where f:
    "map_of d ''site'' = Some (PStr si)" "si \<noteq> []" "map_of d ''line'' = Some (PStr l)" "l \<noteq> []"
    "map_of d ''source_protocol'' = Some (PStr p)" "p \<noteq> []" "map_of d ''source_id'' = Some (PStr so)" "so \<noteq> []"
    "map_of d ''asset_id'' = Some (PStr a)" "a \<noteq> []" "map_of d ''tag'' = Some (PStr t)" "t \<noteq> []"
    using assms(1) by (auto simp: identified_def elim!: text_fieldE)
  have proj: "map_of d ''project_id'' = None \<or> map_of d ''project_id'' = Some PNone
      \<or> (\<exists>q. map_of d ''project_id'' = Some (PStr q))"
    using assms(1) by (auto simp: identified_def split: option.splits pyval.splits)
  have "stream_partition_key R native d = join ''|''
      [first_str R d [''project_id'', ''site'', ''site_id''] [], si, l, p, so, a, t]"
    using assms(2) f by (simp add: stream_partition_key_def first_str_hit)
  moreover have "(if re_project_id (raw_record R d) \<noteq> [] then re_project_id (raw_record R d) else si)
      = first_str R d [''project_id'', ''site'', ''site_id''] []"
    using proj f(1,2)
    by (elim disjE exE) (simp_all add: raw_record_sel dict_getd_def pget_def first_str_def py_or_def)
  moreover have "re_site_id (raw_record R d) = si" "re_line (raw_record R d) = l"
      "re_source_protocol (raw_record R d) = p" "re_source_id (raw_record R d) = so"
      "re_asset_id (raw_record R d) = a" "re_tag (raw_record R d) = t"
    using f by (simp_all add: raw_record_sel raw_record_source str_get_def dict_getd_def pget_def first_str_hit)
  ultimately have "runtime_key (raw_record R d) = stream_partition_key R native d"
    by (simp only: runtime_key_def)
  then show ?thesis by (simp add: partition_key_raw)
qed

theorem runtime_key_agrees_witness:
  "partition_key (build_record demo_rt
      [(''site'', PStr ''s''), (''line'', PStr ''l''), (''source_protocol'', PStr ''mqtt''),
       (''source_id'', PStr ''x''), (''asset_id'', PStr ''a''), (''tag'', PStr ''t''), (''value'', PInt 3)])
    = ''s|s|l|mqtt|x|a|t''"
proof -
  let ?d = "[(''site'', PStr ''s''), (''line'', PStr ''l''), (''source_protocol'', PStr ''mqtt''),
       (''source_id'', PStr ''x''), (''asset_id'', PStr ''a''), (''tag'', PStr ''t''), (''value'', PInt 3)]"
  have "identified ?d" by (simp add: identified_def text_field_def)
  from runtime_key_agrees [OF this, of "\<lambda>_. None" demo_rt] show ?thesis
    by (simp add: stream_partition_key_def first_str_def pget_def dict_getd_def)
qed

text \<open>An empty line is not an identity: the edge substitutes the default, the processor does not.\<close>

lemma runtime_key_diverges:
  "\<exists>d. partition_key (build_record demo_rt d) \<noteq> stream_partition_key demo_rt (\<lambda>_. None) d
     \<and> map_of d ''line'' = Some (PStr [])"
proof -
  let ?d = "[(''site'', PStr ''s''), (''line'', PStr []), (''source_protocol'', PStr ''mqtt''),
       (''source_id'', PStr ''x''), (''asset_id'', PStr ''a''), (''tag'', PStr ''t'')]"
  have "partition_key (build_record demo_rt ?d) \<noteq> stream_partition_key demo_rt (\<lambda>_. None) ?d"
    by (simp add: partition_key_raw runtime_key_def raw_record_sel raw_record_source str_get_def dict_getd_def
        pget_def first_str_def stream_partition_key_def dict_has_def)
  then show ?thesis by (intro exI [of _ ?d]) simp
qed

end
