(* ===== verification/Runtime_Processor.thy ===== *)
theory Runtime_Processor
  imports Runtime_Event Scoring Threshold_Store "HOL-Library.Multiset"
begin

text \<open>
  The stream processor: the enrichment of one event (\<open>services/processor/runtime_pipeline.py\<close>) and
  the consumer loop of \<open>services/processor/runtime_processor.py\<close> with its rolling windows, its
  pruning, its write batch and its offset commits. Kafka and the historian are the environment: the
  queue of the producer is state, the reports a flush or poll serves and the answers of the
  historian are arguments. \<open>ps_log\<close>, \<open>ps_acked\<close> and \<open>ps_lost\<close> record what was handled,
  acknowledged and given up by the producer library; the code cannot see the last two.
\<close>

section \<open>Enrichment of one event\<close>

definition status_text :: "tstatus \<Rightarrow> string" where
  "status_text s =
     (case s of StUnconfigured \<Rightarrow> ''unconfigured'' | StDisabled \<Rightarrow> ''disabled'' | StNormal \<Rightarrow> ''normal''
      | StBreached \<Rightarrow> ''breached'' | StPending \<Rightarrow> ''pending'')"

definition text_rank :: "string \<Rightarrow> nat" where
  "text_rank s = (if s = ''critical'' then 2 else if s = ''warning'' then 1 else 0)"

text \<open>\<open>max((a, b), key=...)\<close> keeps the first of equals.\<close>

definition worse :: "string \<Rightarrow> string \<Rightarrow> string" where
  "worse a b = (if text_rank a < text_rank b then b else a)"

text \<open>\<open>score_event\<close> of a record, which has no \<open>get\<close>: the attributes, without a detector.\<close>

definition score_record :: "runtime_event \<Rightarrow> rat \<Rightarrow> rat \<Rightarrow> rat" where
  "score_record e ta va =
     min (round_to 2 (rule_score (re_temperature_c e) (re_vibration_mm_s e) (re_pressure_bar e) ta va)) 1"

record enrichment =
  en_temperature_avg_c :: rat
  en_vibration_avg_mm_s :: rat
  en_window_size :: int
  en_anomaly_score :: rat
  en_severity :: string
  en_threshold_severity :: string
  en_threshold_status :: string
  en_threshold_source :: string
  en_threshold_policy_version :: int
  en_threshold_breached :: bool

text \<open>
  The result, the marked record and the threshold states. \<open>given\<close> is \<open>threshold_result\<close>; \<open>None\<close> is
  the \<open>ValueError\<close> of a policy version that is no number.
\<close>

definition enrich_runtime_event ::
    "pyrt \<Rightarrow> string \<Rightarrow> rat \<Rightarrow> runtime_state \<Rightarrow> runtime_event \<Rightarrow> rat \<Rightarrow> rat \<Rightarrow> nat \<Rightarrow> pydict \<Rightarrow> tresult option
       \<Rightarrow> (enrichment \<times> runtime_event \<times> runtime_state) option" where
  "enrich_runtime_event R now clock st e ta va n policy given =
     (case version_of policy of
        None \<Rightarrow> None
      | Some version \<Rightarrow>
          (let score = score_record e ta va;
               anomaly_severity = severity_for score;
               (threshold, st') = (case given of
                  Some t \<Rightarrow> (t, st)
                | None \<Rightarrow> evaluate_threshold_runtime st (partition_key e) (re_value e) (policy_view R policy)
                            (re_quality e) clock);
               threshold_severity = severity_text (t_severity threshold);
               severity = worse anomaly_severity threshold_severity;
               source = dict_getd policy ''source'' (PStr ''unconfigured'');
               evaluation =
                 [(''anomaly_severity'', PStr anomaly_severity), (''threshold_severity'', PStr threshold_severity),
                  (''threshold_status'', PStr (status_text (t_status threshold))), (''threshold_source'', source),
                  (''threshold_policy_version'', PInt version)];
               e' = mark_processed now e
                 \<lparr>pr_processed_at = None, pr_window_size = int n, pr_temperature_avg_c = round_to 2 ta,
                  pr_vibration_avg_mm_s = round_to 2 va, pr_anomaly_score = score, pr_severity = severity,
                  pr_threshold_severity = threshold_severity,
                  pr_threshold_status = status_text (t_status threshold),
                  pr_threshold_source = py_str R source, pr_threshold_policy_version = version,
                  pr_threshold_breached = t_breached threshold, pr_triggered_rules = None, pr_baseline = None,
                  pr_evaluation = Some evaluation\<rparr>
           in Some (\<lparr>en_temperature_avg_c = round_to 2 ta, en_vibration_avg_mm_s = round_to 2 va,
                     en_window_size = int n, en_anomaly_score = score, en_severity = severity,
                     en_threshold_severity = threshold_severity,
                     en_threshold_status = status_text (t_status threshold),
                     en_threshold_source = py_str R source, en_threshold_policy_version = version,
                     en_threshold_breached = t_breached threshold\<rparr>, e', st')))"

definition enrichment_fields :: "enrichment \<Rightarrow> pydict" where
  "enrichment_fields r =
     [(''temperature_avg_c'', PFloat (en_temperature_avg_c r)),
      (''vibration_avg_mm_s'', PFloat (en_vibration_avg_mm_s r)),
      (''window_size'', PInt (en_window_size r)), (''anomaly_score'', PFloat (en_anomaly_score r)),
      (''severity'', PStr (en_severity r)), (''threshold_severity'', PStr (en_threshold_severity r)),
      (''threshold_status'', PStr (en_threshold_status r)), (''threshold_source'', PStr (en_threshold_source r)),
      (''threshold_policy_version'', PInt (en_threshold_policy_version r)),
      (''threshold_breached'', PBool (en_threshold_breached r))]"

definition build_runtime_event_payload ::
    "pyrt \<Rightarrow> string \<Rightarrow> rat \<Rightarrow> runtime_state \<Rightarrow> runtime_event \<Rightarrow> rat \<Rightarrow> rat \<Rightarrow> nat \<Rightarrow> pydict \<Rightarrow> tresult option
       \<Rightarrow> (pydict \<times> runtime_state) option" where
  "build_runtime_event_payload R now clock st e ta va n policy given =
     map_option (\<lambda>(r, e', st'). (dict_merge (event_to_dict e') (enrichment_fields r), st'))
       (enrich_runtime_event R now clock st e ta va n policy given)"

lemma payload_total:
  "version_of policy = Some v \<Longrightarrow> \<exists>d st'. build_runtime_event_payload R now clock st e ta va n policy given = Some (d, st')"
  by (simp only: build_runtime_event_payload_def enrich_runtime_event_def option.case Let_def case_prod_beta
      option.map option.inject prod.inject) blast

section \<open>State of the processor\<close>

type_synonym offset = "string \<times> int \<times> int"  \<comment> \<open>topic, partition, offset\<close>

record processor =
  ps_windows :: "(string \<times> rolling_window) list"
  ps_last_seen :: "(string \<times> rat) list"
  ps_states :: runtime_state
  ps_policies :: policy_store
  ps_buffer :: "pydict list"
  ps_offsets :: "offset list"
  ps_last_db_flush :: rat
  ps_processed :: nat
  ps_queue :: "pydict list"         \<comment> \<open>produced, no delivery report yet\<close>
  ps_acked :: "pydict list"
  ps_lost :: "pydict list"          \<comment> \<open>delivery failed; the code registers no callback\<close>
  ps_historian :: "pydict list"
  ps_committed :: "offset list"
  ps_log :: "(offset \<times> pydict) list"

record proc_config =
  pc_window_limit :: int
  pc_db_batch_size :: int
  pc_db_flush_seconds :: rat
  pc_persist :: bool
  pc_max_idle_seconds :: int
  pc_max_devices :: int
  pc_asset_config :: string

text \<open>Delivery reports served by a call of the producer: the position in its queue, success.\<close>

type_synonym deliveries = "(nat \<times> bool) list"

definition serve_delivery :: "processor \<Rightarrow> nat \<times> bool \<Rightarrow> processor" where
  "serve_delivery p r =
     (case r of (i, ok) \<Rightarrow>
        if length (ps_queue p) \<le> i then p
        else (let m = ps_queue p ! i; q = take i (ps_queue p) @ drop (Suc i) (ps_queue p) in
              if ok then p\<lparr>ps_queue := q, ps_acked := ps_acked p @ [m]\<rparr>
              else p\<lparr>ps_queue := q, ps_lost := ps_lost p @ [m]\<rparr>))"

definition serve_deliveries :: "processor \<Rightarrow> deliveries \<Rightarrow> processor" where
  "serve_deliveries p rs = foldl serve_delivery p rs"

section \<open>Flushing the write batch\<close>

text \<open>The answers of one flush: reports served by \<open>producer.flush\<close>, the batch insert, the single
  inserts, the clock before and after, and whether the commit succeeds.\<close>

record flush_io =
  fi_reports :: deliveries
  fi_batch_ok :: bool
  fi_single_ok :: "pydict \<Rightarrow> bool"
  fi_now :: rat
  fi_done :: rat
  fi_commit_ok :: bool

definition next_offset :: "offset \<Rightarrow> offset" where
  "next_offset o' = (case o' of (t, p, n) \<Rightarrow> (t, p, n + 1))"

text \<open>The historian after the writes of a batch, and whether all events are in.\<close>

definition persist_batch :: "flush_io \<Rightarrow> pydict list \<Rightarrow> pydict list \<times> bool" where
  "persist_batch io events =
     (if fi_batch_ok io then (events, True)
      else (filter (fi_single_ok io) events, list_all (fi_single_ok io) events))"

definition flush_processed_batch ::
    "proc_config \<Rightarrow> bool \<Rightarrow> flush_io \<Rightarrow> processor \<Rightarrow> processor \<times> string option" where
  "flush_processed_batch C force io p =
     (if ps_buffer p = [] then (p, None)
      else if \<not> force \<and> int (length (ps_buffer p)) < pc_db_batch_size C
              \<and> fi_now io - ps_last_db_flush p < pc_db_flush_seconds C then (p, None)
      else
        (let p1 = serve_deliveries p (fi_reports io) in
         if ps_queue p1 \<noteq> [] then (p1, Some ''processed Kafka delivery incomplete'')
         else
           (let (stored, all_in) = (if pc_persist C then persist_batch io (ps_buffer p) else ([], True));
                p2 = p1\<lparr>ps_historian := ps_historian p1 @ stored\<rparr>
            in if \<not> all_in then (p2, Some ''historian rejected processed events'')
               else if ps_offsets p \<noteq> [] \<and> \<not> fi_commit_ok io then (p2, Some ''commit failed'')
               else (p2\<lparr>ps_committed := ps_committed p2 @ map next_offset (ps_offsets p),
                        ps_buffer := [], ps_offsets := [], ps_last_db_flush := fi_done io\<rparr>, None))))"

section \<open>Pruning\<close>

definition forget :: "processor \<Rightarrow> string \<Rightarrow> processor" where
  "forget p k =
     p\<lparr>ps_windows := dict_del (ps_windows p) k, ps_last_seen := dict_del (ps_last_seen p) k,
       ps_states := clear_threshold_runtime_state (ps_states p) k\<rparr>"

definition prune_idle :: "int \<Rightarrow> rat \<Rightarrow> processor \<Rightarrow> processor" where
  "prune_idle max_idle now p =
     (if 0 < max_idle then
        foldl forget p (map fst (filter (\<lambda>(k, t). now - t > of_int max_idle) (ps_last_seen p)))
      else p)"

definition prune_oldest :: "int \<Rightarrow> processor \<Rightarrow> processor" where
  "prune_oldest max_devices p =
     (if 0 < max_devices \<and> max_devices < int (length (ps_last_seen p)) then
        foldl forget p (map fst (take (length (ps_last_seen p) - nat max_devices)
                                   (sort_key snd (ps_last_seen p))))
      else p)"

definition prune_windows :: "int \<Rightarrow> int \<Rightarrow> rat \<Rightarrow> processor \<Rightarrow> processor" where
  "prune_windows max_devices max_idle now p =
     (if max_devices \<le> 0 \<and> max_idle \<le> 0 then p
      else prune_oldest max_devices (prune_idle max_idle now p))"

section \<open>The consumer loop\<close>

text \<open>
  What one turn of the loop meets: no message, a consumer error, or a message whose value decodes to
  an object or not. The remaining fields are the answers of the environment during the turn.
\<close>

datatype polled = PollNone | PollError | PollBad | PollMessage offset pydict

record turn =
  tn_polled :: polled
  tn_io :: flush_io
  tn_reports :: deliveries          \<comment> \<open>served by \<open>producer.poll(0)\<close>\<close>
  tn_produce_ok :: bool
  tn_now :: rat
  tn_clock :: rat
  tn_text :: string
  tn_db :: "policy_db option"
  tn_load :: "string \<Rightarrow> hierarchy option"
  tn_mtime :: "string \<Rightarrow> rat"

definition window_of :: "proc_config \<Rightarrow> processor \<Rightarrow> string \<Rightarrow> rolling_window" where
  "window_of C p k = dict_getd (ps_windows p) k (new_window (pc_window_limit C))"

text \<open>From the decoded message to the payload; \<open>None\<close>: enrichment raises.\<close>

definition process_event :: "pyrt \<Rightarrow> proc_config \<Rightarrow> turn \<Rightarrow> processor \<Rightarrow> pydict \<Rightarrow> processor \<times> pydict option" where
  "process_event R C tn p raw =
     (let e = build_record R raw;
          k = partition_key e;
          ((ta, va, n), w) = window_append (window_of C p k) e;
          p1 = p\<lparr>ps_windows := dict_set (ps_windows p) k w, ps_last_seen := dict_set (ps_last_seen p) k (tn_now tn)\<rparr>;
          (policy, store) = resolve_threshold_policy R (tn_text tn) (tn_db tn) (tn_load tn) (tn_mtime tn)
             (pc_asset_config C) (ps_policies p1) (re_site_id e, re_asset_id e, re_tag e);
          p2 = p1\<lparr>ps_policies := store\<rparr>
      in case build_runtime_event_payload R (tn_text tn) (tn_clock tn) (ps_states p2) e ta va n policy None of
           None \<Rightarrow> (p2, None)
         | Some (payload, st) \<Rightarrow> (p2\<lparr>ps_states := st\<rparr>, Some payload))"

text \<open>\<open>PRUNE_EVERY_N_MESSAGES\<close>.\<close>

definition prune_every :: nat where
  "prune_every = 128"

definition maybe_prune :: "proc_config \<Rightarrow> rat \<Rightarrow> processor \<Rightarrow> processor" where
  "maybe_prune C now p =
     (if ps_processed p mod prune_every = 0 \<and> (0 < pc_max_devices C \<or> 0 < pc_max_idle_seconds C)
      then prune_windows (pc_max_devices C) (pc_max_idle_seconds C) now p else p)"

text \<open>The payload is produced, batched with its offset, and the batch is flushed when it is due.\<close>

definition emit :: "proc_config \<Rightarrow> turn \<Rightarrow> offset \<Rightarrow> pydict \<Rightarrow> processor \<Rightarrow> processor \<times> string option" where
  "emit C tn off payload p =
     (if \<not> tn_produce_ok tn then (p, Some ''BufferError'')
      else
        (let p1 = p\<lparr>ps_queue := ps_queue p @ [payload]\<rparr>;
             p2 = (if ps_processed p1 mod prune_every = 0 then serve_deliveries p1 (tn_reports tn) else p1);
             p3 = p2\<lparr>ps_buffer := ps_buffer p2 @ [payload], ps_offsets := ps_offsets p2 @ [off],
                     ps_log := ps_log p2 @ [(off, payload)]\<rparr>
         in case flush_processed_batch C False (tn_io tn) p3 of
              (p4, Some err) \<Rightarrow> (p4, Some err)
            | (p4, None) \<Rightarrow> (maybe_prune C (tn_now tn) (p4\<lparr>ps_processed := Suc (ps_processed p4)\<rparr>), None)))"

definition turn_step :: "pyrt \<Rightarrow> proc_config \<Rightarrow> processor \<Rightarrow> turn \<Rightarrow> processor \<times> string option" where
  "turn_step R C p tn =
     (case tn_polled tn of
        PollNone \<Rightarrow> flush_processed_batch C False (tn_io tn) (serve_deliveries p (tn_reports tn))
      | PollError \<Rightarrow> (p, None)
      | PollBad \<Rightarrow> (p, Some ''JSONDecodeError'')
      | PollMessage off raw \<Rightarrow>
          (case process_event R C tn p raw of
             (p1, None) \<Rightarrow> (p1, Some ''ValueError'')
           | (p1, Some payload) \<Rightarrow> emit C tn off payload p1))"

text \<open>The loop ends at a stop signal or an exception; then the batch is flushed by force.\<close>

fun turns :: "pyrt \<Rightarrow> proc_config \<Rightarrow> processor \<Rightarrow> turn list \<Rightarrow> processor \<times> string option" where
  "turns R C p [] = (p, None)"
| "turns R C p (tn # tns) =
     (case turn_step R C p tn of
        (q, Some err) \<Rightarrow> (q, Some err)
      | (q, None) \<Rightarrow> turns R C q tns)"

definition run_processor :: "pyrt \<Rightarrow> proc_config \<Rightarrow> flush_io \<Rightarrow> processor \<Rightarrow> turn list \<Rightarrow> processor" where
  "run_processor R C final p tns = fst (flush_processed_batch C True final (fst (turns R C p tns)))"

definition new_processor :: "rat \<Rightarrow> processor" where
  "new_processor now =
     \<lparr>ps_windows = [], ps_last_seen = [], ps_states = [], ps_policies = initial_store, ps_buffer = [],
      ps_offsets = [], ps_last_db_flush = now, ps_processed = 0, ps_queue = [], ps_acked = [], ps_lost = [],
      ps_historian = [], ps_committed = [], ps_log = []\<rparr>"

section \<open>What commits rest on\<close>

text \<open>
  The log of handled messages splits into the committed part and the pending batch; a committed
  payload has left the producer's queue and, when the historian is written, is stored there.
\<close>

definition settled :: "proc_config \<Rightarrow> processor \<Rightarrow> pydict \<Rightarrow> bool" where
  "settled C p m \<longleftrightarrow> m \<in> set (ps_acked p) \<union> set (ps_lost p) \<and> (pc_persist C \<longrightarrow> m \<in> set (ps_historian p))"

definition commit_inv :: "proc_config \<Rightarrow> processor \<Rightarrow> bool" where
  "commit_inv C p \<longleftrightarrow> length (ps_offsets p) = length (ps_buffer p)
     \<and> snd ` set (ps_log p) \<subseteq> set (ps_queue p) \<union> set (ps_acked p) \<union> set (ps_lost p)
     \<and> (\<exists>done. ps_log p = done @ zip (ps_offsets p) (ps_buffer p)
          \<and> ps_committed p = map (next_offset \<circ> fst) done \<and> (\<forall>x \<in> set done. settled C p (snd x)))"

text \<open>Two states with the same delivery state.\<close>

definition same_delivery :: "processor \<Rightarrow> processor \<Rightarrow> bool" where
  "same_delivery p q \<longleftrightarrow> ps_buffer q = ps_buffer p \<and> ps_offsets q = ps_offsets p \<and> ps_queue q = ps_queue p
     \<and> ps_acked q = ps_acked p \<and> ps_lost q = ps_lost p \<and> ps_historian q = ps_historian p
     \<and> ps_committed q = ps_committed p \<and> ps_log q = ps_log p"

lemma commit_inv_same: "same_delivery p q \<Longrightarrow> commit_inv C q = commit_inv C p"
  by (simp add: same_delivery_def commit_inv_def settled_def)

lemma same_delivery_trans: "same_delivery p q \<Longrightarrow> same_delivery q r \<Longrightarrow> same_delivery p r"
  by (simp add: same_delivery_def)

lemma forget_same: "same_delivery p (foldl forget p ks)"
proof (induction ks arbitrary: p)
  case (Cons k ks)
  have "same_delivery p (forget p k)" by (simp add: same_delivery_def forget_def)
  with Cons [of "forget p k"] show ?case by (simp add: same_delivery_trans)
qed (simp add: same_delivery_def)

lemma prune_same: "same_delivery p (maybe_prune C now p)"
proof -
  have i: "same_delivery p (prune_idle m now p)" for m p
    by (simp add: prune_idle_def forget_same) (simp add: same_delivery_def)
  have o': "same_delivery p (prune_oldest m p)" for m p
    by (simp add: prune_oldest_def forget_same) (simp add: same_delivery_def)
  have "same_delivery p p" by (simp add: same_delivery_def)
  then show ?thesis
    using same_delivery_trans [OF i o'] by (simp add: maybe_prune_def prune_windows_def)
qed

lemma process_event_same: "same_delivery p (fst (process_event R C tn p raw))"
  by (simp add: process_event_def Let_def same_delivery_def case_prod_beta split: option.split)

text \<open>Reports move payloads out of the queue and lose none from sight.\<close>

lemma set_remove_nth: "i < length q \<Longrightarrow> set q = insert (q ! i) (set (take i q @ drop (Suc i) q))"
  by (subst (1) id_take_nth_drop [of i q]) auto

lemma serve_delivery_frame:
  "ps_buffer (serve_delivery p r) = ps_buffer p \<and> ps_offsets (serve_delivery p r) = ps_offsets p
   \<and> ps_committed (serve_delivery p r) = ps_committed p \<and> ps_log (serve_delivery p r) = ps_log p
   \<and> ps_historian (serve_delivery p r) = ps_historian p
   \<and> set (ps_acked p) \<subseteq> set (ps_acked (serve_delivery p r)) \<and> set (ps_lost p) \<subseteq> set (ps_lost (serve_delivery p r))
   \<and> set (ps_queue p) \<union> set (ps_acked p) \<union> set (ps_lost p)
     \<subseteq> set (ps_queue (serve_delivery p r)) \<union> set (ps_acked (serve_delivery p r)) \<union> set (ps_lost (serve_delivery p r))"
proof -
  obtain i ok where r: "r = (i, ok)" by (cases r)
  show ?thesis
  proof (cases "i < length (ps_queue p)")
    case True
    with set_remove_nth [OF True] show ?thesis by (auto simp: serve_delivery_def r Let_def)
  next
    case False
    then show ?thesis by (simp add: serve_delivery_def r)
  qed
qed

lemma serve_deliveries_inv:
  "commit_inv C p \<Longrightarrow> commit_inv C (serve_deliveries p rs)
     \<and> ps_buffer (serve_deliveries p rs) = ps_buffer p \<and> ps_offsets (serve_deliveries p rs) = ps_offsets p"
proof (induction rs arbitrary: p)
  case Nil
  then show ?case by (simp add: serve_deliveries_def)
next
  case (Cons r rs)
  note f = serve_delivery_frame [of p r]
  obtain dn where d: "ps_log p = dn @ zip (ps_offsets p) (ps_buffer p)"
      "ps_committed p = map (next_offset \<circ> fst) dn" "\<forall>x \<in> set dn. settled C p (snd x)"
    using Cons.prems by (auto simp: commit_inv_def)
  have "\<forall>x \<in> set dn. settled C (serve_delivery p r) (snd x)"
  proof
    fix x assume "x \<in> set dn"
    with d(3) have "settled C p (snd x)" by blast
    with f show "settled C (serve_delivery p r) (snd x)" unfolding settled_def by auto
  qed
  moreover have "snd ` set (ps_log p) \<subseteq> set (ps_queue (serve_delivery p r))
      \<union> set (ps_acked (serve_delivery p r)) \<union> set (ps_lost (serve_delivery p r))"
    using Cons.prems f unfolding commit_inv_def by blast
  ultimately have "commit_inv C (serve_delivery p r)"
    using Cons.prems d f unfolding commit_inv_def by auto
  from Cons.IH [OF this] f show ?case by (simp add: serve_deliveries_def)
qed

lemma persist_batch_all: "persist_batch io events = (stored, True) \<Longrightarrow> stored = events"
  by (auto simp: persist_batch_def list_all_iff filter_id_conv split: if_splits)

lemma historian_more:
  "commit_inv C p \<Longrightarrow> commit_inv C (p\<lparr>ps_historian := ps_historian p @ xs\<rparr>)"
  by (auto simp: commit_inv_def settled_def)

lemma commit_all:
  assumes inv: "commit_inv C p" and q: "ps_queue p = []"
    and h: "pc_persist C \<longrightarrow> set (ps_buffer p) \<subseteq> set (ps_historian p)"
  shows "commit_inv C (p\<lparr>ps_committed := ps_committed p @ map next_offset (ps_offsets p),
      ps_buffer := [], ps_offsets := [], ps_last_db_flush := t\<rparr>)"
proof -
  obtain dn where d: "ps_log p = dn @ zip (ps_offsets p) (ps_buffer p)"
      "ps_committed p = map (next_offset \<circ> fst) dn" "\<forall>x \<in> set dn. settled C p (snd x)"
    and len: "length (ps_offsets p) = length (ps_buffer p)"
    and log: "snd ` set (ps_log p) \<subseteq> set (ps_queue p) \<union> set (ps_acked p) \<union> set (ps_lost p)"
    using inv by (auto simp: commit_inv_def)
  have "settled C p m" if mem: "m \<in> set (ps_buffer p)" for m
  proof -
    obtain i where i: "i < length (ps_buffer p)" "ps_buffer p ! i = m"
      using mem unfolding in_set_conv_nth by blast
    then have "(ps_offsets p ! i, m) \<in> set (zip (ps_offsets p) (ps_buffer p))"
      using len by (auto simp: in_set_zip)
    then have "m \<in> snd ` set (ps_log p)" using d(1) by force
    with log q h mem show ?thesis by (auto simp: settled_def)
  qed
  then have "\<forall>x \<in> set (ps_log p). settled C p (snd x)"
    using d(1,3) by (auto dest: set_zip_rightD)
  moreover have "map (next_offset \<circ> fst) (ps_log p) = ps_committed p @ map next_offset (ps_offsets p)"
    using len by (simp add: d(1,2) flip: map_map)
  ultimately show ?thesis
    using log by (simp add: commit_inv_def settled_def)
qed

lemma flush_inv:
  assumes "commit_inv C p"
  shows "commit_inv C (fst (flush_processed_batch C force io p))"
proof -
  let ?p1 = "serve_deliveries p (fi_reports io)"
  have s: "commit_inv C ?p1" "ps_buffer ?p1 = ps_buffer p" "ps_offsets ?p1 = ps_offsets p"
    using serve_deliveries_inv [OF assms] by auto
  obtain stored all_in where st: "(if pc_persist C then persist_batch io (ps_buffer p) else ([], True)) = (stored, all_in)"
    by fastforce
  let ?p2 = "?p1\<lparr>ps_historian := ps_historian ?p1 @ stored\<rparr>"
  have p2: "commit_inv C ?p2" using historian_more [OF s(1)] .
  have "commit_inv C (?p2\<lparr>ps_committed := ps_committed ?p2 @ map next_offset (ps_offsets ?p2),
      ps_buffer := [], ps_offsets := [], ps_last_db_flush := fi_done io\<rparr>)" if "ps_queue ?p1 = []" all_in
  proof (rule commit_all [OF p2])
    show "pc_persist C \<longrightarrow> set (ps_buffer ?p2) \<subseteq> set (ps_historian ?p2)"
      using st that(2) s(2) by (auto dest: persist_batch_all)
  qed (use that in simp)
  with assms s p2 st show ?thesis
    by (auto simp: flush_processed_batch_def Let_def)
qed

lemma emit_inv:
  assumes "commit_inv C p"
  shows "commit_inv C (fst (emit C tn off payload p))"
proof (cases "tn_produce_ok tn")
  case False
  then show ?thesis using assms by (simp add: emit_def)
next
  case True
  let ?p1 = "p\<lparr>ps_queue := ps_queue p @ [payload]\<rparr>"
  have q: "commit_inv C ?p1" using assms by (auto simp: commit_inv_def settled_def)
  define p2 where "p2 = (if ps_processed ?p1 mod prune_every = 0 then serve_deliveries ?p1 (tn_reports tn) else ?p1)"
  have sub: "set (ps_queue ?p1) \<union> set (ps_acked ?p1) \<union> set (ps_lost ?p1)
      \<subseteq> set (ps_queue (serve_deliveries ?p1 rs)) \<union> set (ps_acked (serve_deliveries ?p1 rs))
        \<union> set (ps_lost (serve_deliveries ?p1 rs))" for rs
  proof (induction rs rule: rev_induct)
    case Nil
    then show ?case by (simp add: serve_deliveries_def)
  next
    case (snoc r rs)
    then show ?case
      using serve_delivery_frame [of "serve_deliveries ?p1 rs" r]
      by (simp add: serve_deliveries_def) blast
  qed
  have p2: "commit_inv C p2" "payload \<in> set (ps_queue p2) \<union> set (ps_acked p2) \<union> set (ps_lost p2)"
    using q serve_deliveries_inv [OF q] sub by (auto simp: p2_def)
  let ?p3 = "p2\<lparr>ps_buffer := ps_buffer p2 @ [payload], ps_offsets := ps_offsets p2 @ [off],
      ps_log := ps_log p2 @ [(off, payload)]\<rparr>"
  have "commit_inv C ?p3"
    using p2 by (auto simp: commit_inv_def settled_def)
  then have f: "commit_inv C (fst (flush_processed_batch C False (tn_io tn) ?p3))" by (rule flush_inv)
  have "commit_inv C (p4\<lparr>ps_processed := n\<rparr>) = commit_inv C p4" for p4 n
    by (rule commit_inv_same) (simp add: same_delivery_def)
  then have m: "commit_inv C (maybe_prune C now (p4\<lparr>ps_processed := n\<rparr>)) = commit_inv C p4" for p4 n now
    using commit_inv_same [OF prune_same] by blast
  show ?thesis
    using True f unfolding emit_def Let_def p2_def [symmetric]
    by (auto simp: m split: prod.splits option.splits)
qed

lemma turn_step_inv:
  assumes "commit_inv C p"
  shows "commit_inv C (fst (turn_step R C p tn))"
proof (cases "tn_polled tn")
  case PollNone
  then show ?thesis
    using flush_inv serve_deliveries_inv [OF assms] by (simp add: turn_step_def)
next
  case (PollMessage off raw)
  have pe: "commit_inv C (fst (process_event R C tn p raw))"
    using commit_inv_same [OF process_event_same] assms by blast
  then show ?thesis
    using emit_inv [where C = C and tn = tn and off = off]
    by (auto simp: turn_step_def PollMessage split: prod.splits option.splits)
qed (use assms in \<open>simp_all add: turn_step_def\<close>)

lemma turns_inv: "commit_inv C p \<Longrightarrow> commit_inv C (fst (turns R C p tns))"
proof (induction tns arbitrary: p)
  case (Cons tn tns)
  from turn_step_inv [OF Cons.prems, of R tn] Cons.IH show ?case
    by (auto split: prod.splits option.splits)
qed simp

lemma run_inv: "commit_inv C (run_processor R C final (new_processor now) tns)"
proof -
  have "commit_inv C (new_processor now)" by (simp add: commit_inv_def new_processor_def)
  from flush_inv [OF turns_inv [OF this]] show ?thesis by (simp add: run_processor_def)
qed

section \<open>Pruning bounds the state\<close>

lemma forget_last_seen:
  "ps_last_seen (foldl forget p ks) = filter (\<lambda>x. fst x \<notin> set ks) (ps_last_seen p)"
proof (induction ks arbitrary: p)
  case (Cons k ks)
  show ?case
    by (simp add: Cons) (auto simp: forget_def AList.delete_eq intro!: filter_cong)
qed simp

lemma forget_windows:
  "ps_windows (foldl forget p ks) = filter (\<lambda>x. fst x \<notin> set ks) (ps_windows p)"
proof (induction ks arbitrary: p)
  case (Cons k ks)
  show ?case
    by (simp add: Cons) (auto simp: forget_def AList.delete_eq intro!: filter_cong)
qed simp

lemma drop_oldest_length:
  assumes "wf_dict d" "m \<le> length d"
  shows "length (filter (\<lambda>x. fst x \<notin> set (map fst (take m (sort_key f d)))) d) = length d - m"
proof -
  let ?s = "sort_key f d"
  let ?P = "\<lambda>x. fst x \<notin> set (map fst (take m ?s))"
  have "mset (map fst ?s) = mset (map fst d)" by (metis mset_map mset_sort)
  then have "distinct (map fst ?s)" using assms(1) mset_eq_imp_distinct_iff by blast
  then have dis: "distinct (map fst (take m ?s) @ map fst (drop m ?s))"
    by (metis append_take_drop_id map_append)
  have "length (filter ?P d) = size (filter_mset ?P (mset d))" by (metis mset_filter size_mset)
  also have "\<dots> = length (filter ?P ?s)" by (metis mset_filter mset_sort size_mset)
  also have "filter ?P ?s = filter ?P (take m ?s) @ filter ?P (drop m ?s)"
    by (metis append_take_drop_id filter_append)
  also have "filter ?P (take m ?s) = []" by (auto simp: filter_empty_conv)
  also have "filter ?P (drop m ?s) = drop m ?s" using dis by (auto simp: filter_id_conv)
  finally show ?thesis by simp
qed

lemma tracked_forget:
  assumes "fst ` set (ps_windows p) \<subseteq> fst ` set (ps_last_seen p)"
  shows "fst ` set (ps_windows (foldl forget p ks)) \<subseteq> fst ` set (ps_last_seen (foldl forget p ks))"
proof
  fix k assume "k \<in> fst ` set (ps_windows (foldl forget p ks))"
  then have "k \<in> fst ` set (ps_windows p)" "k \<notin> set ks"
    unfolding forget_windows by auto
  with assms show "k \<in> fst ` set (ps_last_seen (foldl forget p ks))"
    unfolding forget_last_seen by force
qed

section \<open>Properties\<close>

text \<open>
  Claim C2. Offsets follow their results: whatever messages, clock and answers of Kafka and the
  historian a run meets, and however it ends, the committed positions are exactly the successors of
  a prefix of the handled messages in order, the rest is the pending batch, and every payload of that
  prefix has left the producer's queue (acknowledged or given up) and, when the historian is written,
  is stored there.
\<close>

theorem commits_follow_results:
  assumes "q = run_processor R C final (new_processor now) tns"
  shows "\<exists>done. ps_log q = done @ zip (ps_offsets q) (ps_buffer q)
    \<and> ps_committed q = map (next_offset \<circ> fst) done
    \<and> (\<forall>x \<in> set done. snd x \<in> set (ps_acked q) \<union> set (ps_lost q)
         \<and> (pc_persist C \<longrightarrow> snd x \<in> set (ps_historian q)))"
  using run_inv [of C R final now tns] assms unfolding commit_inv_def settled_def by blast

definition demo_config :: proc_config where
  "demo_config = \<lparr>pc_window_limit = 3, pc_db_batch_size = 2, pc_db_flush_seconds = 1, pc_persist = True,
     pc_max_idle_seconds = 0, pc_max_devices = 10, pc_asset_config = ''assets.yml''\<rparr>"

definition demo_io :: "deliveries \<Rightarrow> flush_io" where
  "demo_io rs = \<lparr>fi_reports = rs, fi_batch_ok = True, fi_single_ok = (\<lambda>_. True), fi_now = 0, fi_done = 0,
     fi_commit_ok = True\<rparr>"

definition demo_turn :: turn where
  "demo_turn = \<lparr>tn_polled = PollMessage (''industrial.normalized'', 0, 41)
       [(''asset_id'', PStr ''pump''), (''tag'', PStr ''temp''), (''value'', PInt 3)],
     tn_io = demo_io [], tn_reports = [], tn_produce_ok = True, tn_now = 0, tn_clock = 0,
     tn_text = ''now'', tn_db = None, tn_load = (\<lambda>_. None), tn_mtime = (\<lambda>_. 0)\<rparr>"

theorem commits_follow_results_witness:
  "\<exists>q done. q = run_processor demo_rt demo_config (demo_io [(0, True)]) (new_processor 0) [demo_turn]
    \<and> ps_log q = done @ zip (ps_offsets q) (ps_buffer q)
    \<and> ps_committed q = map (next_offset \<circ> fst) done"
  using commits_follow_results [OF refl, of demo_rt demo_config "demo_io [(0, True)]" 0 "[demo_turn]"] by blast

text \<open>
  A failed delivery is committed all the same: when the library gives the only payload of
  the batch up during the flush, its queue is empty, \<open>flush\<close> reports nothing left, and the offset is
  committed although the payload was never acknowledged; \<open>produce\<close> is called without a delivery
  callback.
\<close>

theorem failed_delivery_committed:
  assumes "ps_queue p = [m]" "ps_buffer p = [m]" "ps_offsets p = [off]"
    and "fi_reports io = [(0, False)]" "fi_batch_ok io" "fi_commit_ok io"
  shows "\<exists>q. flush_processed_batch C True io p = (q, None)
    \<and> ps_committed q = ps_committed p @ [next_offset off] \<and> ps_acked q = ps_acked p
    \<and> ps_lost q = ps_lost p @ [m] \<and> ps_buffer q = []"
  using assms
  by (simp add: flush_processed_batch_def serve_deliveries_def serve_delivery_def persist_batch_def Let_def)

theorem failed_delivery_committed_witness:
  "\<exists>q. flush_processed_batch demo_config True (demo_io [(0, False)])
      ((new_processor 0)\<lparr>ps_queue := [[]], ps_buffer := [[]], ps_offsets := [(''t'', 0, 41)]\<rparr>) = (q, None)
    \<and> ps_committed q = [(''t'', 0, 42)] \<and> ps_acked q = []"
  using failed_delivery_committed [of "(new_processor 0)\<lparr>ps_queue := [[]], ps_buffer := [[]],
      ps_offsets := [(''t'', 0, 41)]\<rparr>" "[]" "(''t'', 0, 41)" "demo_io [(0, False)]" demo_config]
  by (auto simp: new_processor_def demo_io_def next_offset_def)

text \<open>
  Pruning bounds the memory: when a limit on devices is set and every window is tracked by
  its last activity, at most that many streams are tracked and at most that many windows are kept
  after a pruning, and every kept window is still tracked.
\<close>

theorem prune_bounds_state:
  assumes "0 < max_devices" "wf_dict (ps_last_seen p)" "wf_dict (ps_windows p)"
    and "fst ` set (ps_windows p) \<subseteq> fst ` set (ps_last_seen p)"
  shows "int (length (ps_last_seen (prune_windows max_devices max_idle now p))) \<le> max_devices
    \<and> int (length (ps_windows (prune_windows max_devices max_idle now p))) \<le> max_devices
    \<and> fst ` set (ps_windows (prune_windows max_devices max_idle now p))
        \<subseteq> fst ` set (ps_last_seen (prune_windows max_devices max_idle now p))"
proof -
  define p1 where "p1 = prune_idle max_idle now p"
  have p1: "wf_dict (ps_last_seen p1)" "wf_dict (ps_windows p1)"
    using assms(2,3) by (simp_all add: p1_def prune_idle_def forget_last_seen forget_windows distinct_map_filter)
  have t1: "fst ` set (ps_windows p1) \<subseteq> fst ` set (ps_last_seen p1)"
    unfolding p1_def prune_idle_def using tracked_forget [OF assms(4)] assms(4) by (simp split: if_split)
  define p2 where "p2 = prune_oldest max_devices p1"
  have w2: "wf_dict (ps_windows p2)"
    using p1 by (simp add: p2_def prune_oldest_def forget_windows distinct_map_filter)
  have t2: "fst ` set (ps_windows p2) \<subseteq> fst ` set (ps_last_seen p2)"
    unfolding p2_def prune_oldest_def using tracked_forget [OF t1] t1 by (simp split: if_split)
  note p2 = w2 t2
  have len: "int (length (ps_last_seen p2)) \<le> max_devices"
  proof (cases "max_devices < int (length (ps_last_seen p1))")
    case True
    let ?m = "length (ps_last_seen p1) - nat max_devices"
    have "length (ps_last_seen p2) = length (ps_last_seen p1) - ?m"
      using drop_oldest_length [OF p1(1), of ?m snd] True assms(1)
      by (simp add: p2_def prune_oldest_def forget_last_seen)
    with True assms(1) show ?thesis by simp
  next
    case False
    then show ?thesis by (simp add: p2_def prune_oldest_def)
  qed
  have "length (ps_windows p2) = card (fst ` set (ps_windows p2))"
    using p2(1) by (metis distinct_card length_map list.set_map)
  also have "\<dots> \<le> card (fst ` set (ps_last_seen p2))" by (rule card_mono [OF _ p2(2)]) simp
  also have "\<dots> \<le> length (ps_last_seen p2)" by (metis card_length length_map list.set_map)
  finally have "length (ps_windows p2) \<le> length (ps_last_seen p2)" .
  moreover have "prune_windows max_devices max_idle now p = p2"
    using assms(1) by (simp add: prune_windows_def p2_def p1_def)
  ultimately show ?thesis using len p2(2) by simp
qed

theorem prune_bounds_state_witness:
  "length (ps_windows (prune_windows 1 0 9 ((new_processor 0)\<lparr>
      ps_windows := [(''a'', new_window 3), (''b'', new_window 3)],
      ps_last_seen := [(''a'', 5), (''b'', 2)]\<rparr>))) \<le> 1"
  using prune_bounds_state [of 1 "(new_processor 0)\<lparr>ps_windows := [(''a'', new_window 3), (''b'', new_window 3)],
      ps_last_seen := [(''a'', 5), (''b'', 2)]\<rparr>" 0 9] by simp

text \<open>
  The published severity is the worse of the two verdicts: the payload of a processed event
  carries a severity whose rank is the maximum of the ranks of the anomaly score's severity and of
  the threshold's severity after debouncing, so neither hides the other.
\<close>

theorem payload_severity_is_worst:
  assumes "build_runtime_event_payload R now clock st e ta va n policy None = Some (d, st')"
  shows "\<exists>s. map_of d ''severity'' = Some (PStr s)
    \<and> text_rank s = max (text_rank (severity_for (score_record e ta va)))
        (severity_rank (t_severity (fst (evaluate_threshold_runtime st (partition_key e) (re_value e)
           (policy_view R policy) (re_quality e) clock))))"
proof -
  obtain r e' where en: "enrich_runtime_event R now clock st e ta va n policy None = Some (r, e', st')"
    and d: "d = dict_merge (event_to_dict e') (enrichment_fields r)"
    using assms by (auto simp: build_runtime_event_payload_def)
  let ?t = "fst (evaluate_threshold_runtime st (partition_key e) (re_value e)
           (policy_view R policy) (re_quality e) clock)"
  have "en_severity r = worse (severity_for (score_record e ta va)) (severity_text (t_severity ?t))"
    using en by (auto simp: enrich_runtime_event_def Let_def split: option.splits prod.splits)
  moreover have "text_rank (severity_text x) = severity_rank x" for x
    by (cases x) (simp_all add: text_rank_def severity_text_def severity_rank_def)
  moreover have "text_rank (worse a b) = max (text_rank a) (text_rank b)" for a b
    by (simp add: worse_def)
  moreover have "wf_dict (enrichment_fields r)" "map_of (enrichment_fields r) ''severity'' = Some (PStr (en_severity r))"
    by (simp_all add: enrichment_fields_def)
  ultimately show ?thesis by (simp add: d map_of_dict_merge map_add_def)
qed

theorem payload_severity_is_worst_witness:
  "\<exists>d st. build_runtime_event_payload demo_rt ''now'' 0 []
      (build_record demo_rt [(''tag'', PStr ''flow''), (''value'', PInt 3)]) 0 0 1
      [(''enabled'', PBool True), (''mode'', PStr ''above''), (''critical_high'', PFloat 2)] None = Some (d, st)
    \<and> (\<exists>s. map_of d ''severity'' = Some (PStr s) \<and> text_rank s \<le> 2)"
proof -
  let ?e = "build_record demo_rt [(''tag'', PStr ''flow''), (''value'', PInt 3)]"
  let ?p = "[(''enabled'', PBool True), (''mode'', PStr ''above''), (''critical_high'', PFloat 2)]"
  have "version_of ?p = Some 0" by (simp add: version_of_def dict_getd_def py_int_def)
  then obtain d st where b: "build_runtime_event_payload demo_rt ''now'' 0 [] ?e 0 0 1 ?p None = Some (d, st)"
    using payload_total by blast
  from payload_severity_is_worst [OF b] obtain s where s: "map_of d ''severity'' = Some (PStr s)"
    by (elim exE conjE)
  have "text_rank s \<le> 2" by (simp add: text_rank_def)
  with b s show ?thesis by (intro exI conjI)
qed

end
