(* ===== verification/Federation.thy ===== *)
theory Federation
  imports Py_Prelude
begin

text \<open>
  Federation between deployments: the envelope contract
  (\<open>services/common/federation_contract.py\<close>), the delivery ledger
  (\<open>services/federation/delivery_ledger.py\<close>), the topic policy and the central consumer that
  writes forwarded events to the lakehouse (\<open>policy.py\<close>, \<open>kafka_lakehouse_bridge.py\<close>). The ledger
  file is its dictionary of records (a file that does not parse reads as empty); the broker's log is
  a list of messages, the consumer a position in it; the answers of the sink are arguments.
\<close>

section \<open>The envelope contract\<close>

definition FEDERATION_ENVELOPE_VERSION :: int where
  "FEDERATION_ENVELOPE_VERSION = 1"

definition FEDERATION_ENVELOPE_TYPE :: string where
  "FEDERATION_ENVELOPE_TYPE = ''ravan.federated_event''"

definition REQUIRED_ORIGIN_FIELDS :: "string list" where
  "REQUIRED_ORIGIN_FIELDS =
     [''site_id'', ''deployment_id'', ''source_id'', ''event_id'', ''topic'', ''schema_version'',
      ''processing_version'', ''forwarded_at'']"

definition text_of :: "pyrt \<Rightarrow> pyval \<Rightarrow> string" where
  "text_of R v = (if v = PNone then [] else py_strip (py_str R v))"

text \<open>\<open>value == n\<close> for an integer literal.\<close>

definition eq_int :: "pyval \<Rightarrow> int \<Rightarrow> bool" where
  "eq_int v n =
     (case v of PInt i \<Rightarrow> i = n | PFloat r \<Rightarrow> r = of_int n | PBool b \<Rightarrow> (if b then 1 else 0) = n | _ \<Rightarrow> False)"

text \<open>The errors are \<open>FederationContractError\<close> and the failure of \<open>int(schema_version)\<close>.\<close>

definition wrap_event ::
    "pyrt \<Rightarrow> string \<Rightarrow> pydict \<Rightarrow> string \<Rightarrow> string \<Rightarrow> string \<Rightarrow> string \<Rightarrow> string option \<Rightarrow> string + pydict" where
  "wrap_event R now event site deployment topic version forwarded_at =
     (let event_id = text_of R (pget event ''event_id'');
          source_id = text_of R (pget event ''source_id'');
          schema = dict_getd event ''schema_version'' (PInt 1)
      in if event_id = [] \<or> source_id = [] then Inl ''event_id and source_id are required before forwarding''
         else (case py_int schema of
           None \<Rightarrow> Inl ''schema_version''
         | Some n \<Rightarrow> Inr
            [(''envelope_type'', PStr FEDERATION_ENVELOPE_TYPE),
             (''envelope_version'', PInt FEDERATION_ENVELOPE_VERSION),
             (''origin'', PDict
                [(''site_id'', PStr (py_strip site)), (''deployment_id'', PStr (py_strip deployment)),
                 (''source_id'', PStr source_id), (''event_id'', PStr event_id),
                 (''topic'', PStr (py_strip topic)), (''schema_version'', PInt n),
                 (''processing_version'', PStr (if py_strip version \<noteq> [] then py_strip version else ''unknown'')),
                 (''forwarded_at'', PStr (case forwarded_at of Some (c # cs) \<Rightarrow> c # cs | _ \<Rightarrow> now))]),
             (''payload'', PDict event)]))"

definition payload_errors :: "pyrt \<Rightarrow> pydict \<Rightarrow> pyval \<Rightarrow> string list" where
  "payload_errors R origin payload =
     (case payload of
        PDict d \<Rightarrow>
          (if text_of R (pget d ''event_id'') \<noteq> text_of R (pget origin ''event_id'')
           then [''origin.event_id does not match payload.event_id'']
           else if text_of R (pget d ''source_id'') \<noteq> text_of R (pget origin ''source_id'')
           then [''origin.source_id does not match payload.source_id''] else [])
      | _ \<Rightarrow> [''payload must be an object''])"

definition origin_errors :: "pyrt \<Rightarrow> pydict \<Rightarrow> string list" where
  "origin_errors R origin =
     map (\<lambda>f. ''origin.'' @ f @ '' is missing'')
       (filter (\<lambda>f. text_of R (pget origin f) = []) REQUIRED_ORIGIN_FIELDS)
     @ (if is_int (pget origin ''schema_version'') then [] else [''origin.schema_version must be an integer''])"

definition validate_envelope :: "pyrt \<Rightarrow> pyval \<Rightarrow> string list" where
  "validate_envelope R v =
     (case v of
        PDict d \<Rightarrow>
          (if pget d ''envelope_type'' \<noteq> PStr FEDERATION_ENVELOPE_TYPE then [''unsupported envelope_type'']
           else if \<not> eq_int (pget d ''envelope_version'') FEDERATION_ENVELOPE_VERSION
           then [''unsupported envelope_version'']
           else (case pget d ''origin'' of
                   PDict origin \<Rightarrow> origin_errors R origin @ payload_errors R origin (pget d ''payload'')
                 | _ \<Rightarrow> [''origin must be an object'']))
      | _ \<Rightarrow> [''envelope must be an object''])"

definition as_dict :: "pyval \<Rightarrow> pydict" where
  "as_dict v = (case v of PDict d \<Rightarrow> d | _ \<Rightarrow> [])"

text \<open>The payload and the forwarding metadata; a validated envelope has both as objects.\<close>

definition unwrap_event :: "pyrt \<Rightarrow> bool \<Rightarrow> pydict \<Rightarrow> string + pydict \<times> pydict" where
  "unwrap_event R allow_legacy d =
     (if pget d ''envelope_type'' = PNone then
        (if allow_legacy then Inr (d, [(''legacy'', PBool True)])
         else Inl ''legacy unwrapped event is not allowed'')
      else
        (let errors = validate_envelope R (PDict d) in
         if errors \<noteq> [] then Inl (join ''; '' errors)
         else Inr (as_dict (pget d ''payload''),
                   dict_merge [(''legacy'', PBool False)] (as_dict (pget d ''origin'')))))"

definition dedup_parts :: "pydict \<Rightarrow> string option \<Rightarrow> pyval list" where
  "dedup_parts d topic =
     (if truthy (pget d ''envelope_type'') then
        (let origin = as_dict (pget d ''origin'')
         in [pget origin ''site_id'', pget origin ''source_id'', pget origin ''topic'', pget origin ''event_id''])
      else [py_or (pget d ''site_id'') (pget d ''site''), pget d ''source_id'',
            PStr (case topic of None \<Rightarrow> [] | Some t \<Rightarrow> t), pget d ''event_id''])"

definition deduplication_key :: "pyrt \<Rightarrow> pydict \<Rightarrow> string option \<Rightarrow> string + string" where
  "deduplication_key R d topic =
     (let parts = map (text_of R) (dedup_parts d topic) in
      if [] \<in> set parts then Inl ''site_id, source_id, topic, and event_id are required for deduplication''
      else Inr (join ''|'' parts))"

section \<open>The delivery ledger\<close>

type_synonym ledger = "(string \<times> pydict) list"

definition ledger_prune :: "nat \<Rightarrow> ledger \<Rightarrow> ledger" where
  "ledger_prune cap l = drop (length l - cap) l"

definition succeeded :: "ledger \<Rightarrow> string \<Rightarrow> bool" where
  "succeeded l k =
     (case map_of l k of None \<Rightarrow> False | Some e \<Rightarrow> pget e ''status'' = PStr ''succeeded'')"

text \<open>\<open>max_records\<close>: at least one.\<close>

definition ledger_cap :: "int \<Rightarrow> nat" where
  "ledger_cap n = nat (max 1 n)"

definition ledger_claim :: "nat \<Rightarrow> string \<Rightarrow> ledger \<Rightarrow> string \<Rightarrow> bool \<times> ledger" where
  "ledger_claim cap now l k =
     (if succeeded l k then (False, l)
      else (True, ledger_prune cap
              (dict_set l k [(''status'', PStr ''claimed''), (''updated_at'', PStr now)])))"

definition ledger_record ::
    "nat \<Rightarrow> string \<Rightarrow> ledger \<Rightarrow> string \<Rightarrow> string \<Rightarrow> pydict \<Rightarrow> ledger" where
  "ledger_record cap now l k status metadata =
     (let entry = dict_getd l k [];
          e1 = dict_set (dict_set entry ''status'' (PStr status)) ''updated_at'' (PStr now);
          e2 = (if metadata \<noteq> [] then dict_set e1 ''metadata'' (PDict metadata) else e1)
      in ledger_prune cap (dict_set l k e2))"

definition ledger_snapshot :: "ledger \<Rightarrow> int \<Rightarrow> nat \<times> pydict list" where
  "ledger_snapshot l limit =
     (length l, map (\<lambda>(k, e). dict_merge [(''key'', PStr k)] e) (last_n (nat (max 1 limit)) l))"

section \<open>Topic policy\<close>

definition DEFAULT_FEDERATION_TOPICS :: "string list" where
  "DEFAULT_FEDERATION_TOPICS = [''industrial.normalized'', ''industrial.operational'']"

text \<open>\<open>manifest\<close> is the topics of the project manifest, when its file exists.\<close>

definition allowed_topics :: "string list option \<Rightarrow> string \<Rightarrow> string list" where
  "allowed_topics manifest configured =
     (if py_strip configured \<noteq> [] then
        map py_strip (filter (\<lambda>t. py_strip t \<noteq> []) (split_on CHR '','' configured))
      else (case manifest of Some ts \<Rightarrow> ts | None \<Rightarrow> DEFAULT_FEDERATION_TOPICS))"

definition topic_allowed :: "string \<Rightarrow> string list \<Rightarrow> bool" where
  "topic_allowed topic topics = (topic \<in> set topics)"

definition original_topic :: "string \<Rightarrow> string" where
  "original_topic topic = (if starts_with topic ''local.'' then drop 6 topic else topic)"

section \<open>The central consumer\<close>

text \<open>The value of a broker record: not UTF-8 or not JSON, or a JSON document.\<close>

datatype raw_value = Undecodable | Json pyval

definition decode_forwarded_message ::
    "pyrt \<Rightarrow> string \<Rightarrow> bool \<Rightarrow> raw_value \<Rightarrow> string + pydict \<times> pydict \<times> string" where
  "decode_forwarded_message R topic allow_legacy raw =
     (case raw of
        Undecodable \<Rightarrow> Inl ''JSONDecodeError''
      | Json v \<Rightarrow>
          (case v of
             PDict d \<Rightarrow>
               res_bind (unwrap_event R allow_legacy d) (\<lambda>(event, metadata).
               res_bind (deduplication_key R d (Some topic)) (\<lambda>key.
                 (let e1 = dict_set event ''federation_source_topic'' (PStr topic);
                      e2 = (if truthy (pget metadata ''legacy'') then dict_set e1 ''federation_legacy'' (PBool True)
                            else dict_set e1 ''federation_origin'' (PDict metadata))
                  in Inr (e2, metadata, key))))
           | _ \<Rightarrow> Inl ''forwarded event must be a JSON object''))"

record bridge =
  fb_pos :: nat                \<comment> \<open>messages consumed\<close>
  fb_committed :: nat          \<comment> \<open>position the group resumes from\<close>
  fb_batch :: "pydict list"
  fb_keys :: "string list"
  fb_ledger :: ledger
  fb_sink :: "pydict list"     \<comment> \<open>rows the lakehouse holds\<close>
  fb_duplicates :: nat
  fb_invalid :: nat

record bridge_config =
  bc_topic :: string
  bc_allow_legacy :: bool
  bc_batch_size :: nat         \<comment> \<open>at least 1\<close>
  bc_cap :: nat                \<comment> \<open>at least 1\<close>

text \<open>The sink writes all rows or raises; a \<open>TypeError\<close> raised while a message is handled is caught
  with the invalid messages.\<close>

datatype sink_answer = SinkOk | SinkError string | SinkTypeError string

definition record_all :: "nat \<Rightarrow> string \<Rightarrow> string list \<Rightarrow> string \<Rightarrow> pydict \<Rightarrow> ledger \<Rightarrow> ledger" where
  "record_all cap now keys status metadata l = foldl (\<lambda>l k. ledger_record cap now l k status metadata) l keys"

definition bridge_flush :: "bridge_config \<Rightarrow> string \<Rightarrow> sink_answer \<Rightarrow> bridge \<Rightarrow> bridge \<times> sink_answer" where
  "bridge_flush C now ans b =
     (if fb_batch b = [] then (b, SinkOk)
      else (case ans of
        SinkOk \<Rightarrow>
          (b\<lparr>fb_sink := fb_sink b @ fb_batch b,
             fb_ledger := record_all (bc_cap C) now (fb_keys b) ''succeeded'' [] (fb_ledger b),
             fb_batch := [], fb_keys := [], fb_committed := fb_pos b\<rparr>, SinkOk)
      | SinkError e \<Rightarrow>
          (b\<lparr>fb_ledger := record_all (bc_cap C) now (fb_keys b) ''failed'' [(''error'', PStr (take 500 e))] (fb_ledger b)\<rparr>,
           SinkError e)
      | SinkTypeError e \<Rightarrow>
          (b\<lparr>fb_ledger := record_all (bc_cap C) now (fb_keys b) ''failed'' [(''error'', PStr (take 500 e))] (fb_ledger b)\<rparr>,
           SinkTypeError e)))"

text \<open>Handling one valid event.\<close>

definition bridge_accept ::
    "bridge_config \<Rightarrow> string \<Rightarrow> sink_answer \<Rightarrow> bridge \<Rightarrow> pydict \<Rightarrow> pydict \<Rightarrow> string \<Rightarrow> bridge \<times> bool" where
  "bridge_accept C now ans b event metadata key =
     (case ledger_claim (bc_cap C) now (fb_ledger b) key of
        (False, l) \<Rightarrow> (b\<lparr>fb_ledger := l, fb_duplicates := Suc (fb_duplicates b), fb_committed := fb_pos b\<rparr>, True)
      | (True, l) \<Rightarrow>
          (let b1 = b\<lparr>fb_ledger := ledger_record (bc_cap C) now l key ''claimed'' metadata,
                      fb_batch := fb_batch b @ [event], fb_keys := fb_keys b @ [key]\<rparr>
           in if bc_batch_size C \<le> length (fb_batch b1) then
                (case bridge_flush C now ans b1 of
                   (b2, SinkOk) \<Rightarrow> (b2, True)
                 | (b2, SinkTypeError _) \<Rightarrow> (b2\<lparr>fb_invalid := Suc (fb_invalid b2)\<rparr>, True)
                 | (b2, SinkError _) \<Rightarrow> (b2, False))
              else (b1, True)))"

text \<open>One turn: the next message, or none before the timeout; \<open>False\<close>: an exception leaves the loop.\<close>

definition bridge_step ::
    "pyrt \<Rightarrow> bridge_config \<Rightarrow> string \<Rightarrow> sink_answer \<Rightarrow> raw_value option \<Rightarrow> bridge \<Rightarrow> bridge \<times> bool" where
  "bridge_step R C now ans polled b =
     (case polled of
        None \<Rightarrow> (case bridge_flush C now ans b of (b1, a) \<Rightarrow> (b1, a = SinkOk))
      | Some raw \<Rightarrow>
          (let b1 = b\<lparr>fb_pos := Suc (fb_pos b)\<rparr> in
           case decode_forwarded_message R (bc_topic C) (bc_allow_legacy C) raw of
             Inl _ \<Rightarrow> (b1\<lparr>fb_invalid := Suc (fb_invalid b1)\<rparr>, True)
           | Inr (event, metadata, key) \<Rightarrow> bridge_accept C now ans b1 event metadata key))"

text \<open>
  A run over the broker's log \<open>ms\<close>: each entry says whether a message arrives in time and what the
  sink answers. The loop ends with the list or at an exception; then the batch is flushed once more.
\<close>

fun bridge_run ::
    "pyrt \<Rightarrow> bridge_config \<Rightarrow> string \<Rightarrow> raw_value list \<Rightarrow> (bool \<times> sink_answer) list \<Rightarrow> bridge \<Rightarrow> bridge" where
  "bridge_run R C now ms [] b = b"
| "bridge_run R C now ms ((arrives, ans) # es) b =
     (case bridge_step R C now ans (if arrives \<and> fb_pos b < length ms then Some (ms ! fb_pos b) else None) b of
        (b1, True) \<Rightarrow> bridge_run R C now ms es b1
      | (b1, False) \<Rightarrow> b1)"

definition bridge_main ::
    "pyrt \<Rightarrow> bridge_config \<Rightarrow> string \<Rightarrow> raw_value list \<Rightarrow> (bool \<times> sink_answer) list \<Rightarrow> sink_answer \<Rightarrow> bridge \<Rightarrow> bridge" where
  "bridge_main R C now ms es final b = fst (bridge_flush C now final (bridge_run R C now ms es b))"

text \<open>A new process of the group: it resumes at the committed position with an empty batch.\<close>

definition bridge_restart :: "bridge \<Rightarrow> bridge" where
  "bridge_restart b = b\<lparr>fb_pos := fb_committed b, fb_batch := [], fb_keys := [], fb_duplicates := 0, fb_invalid := 0\<rparr>"

section \<open>Stripping\<close>

declare py_strip_idem [simp] py_strip_Nil [simp]

lemma pget_Cons: "pget ((k, v) # d) j = (if j = k then v else pget d j)"
  by (simp add: pget_def dict_getd_def)

lemma pget_map_of: "map_of d k = Some v \<Longrightarrow> pget d k = v"
  by (simp add: pget_def dict_getd_def)

lemma text_of_PStr [simp]: "text_of R (PStr s) = py_strip s"
  by (simp add: text_of_def)

lemma int_str_text: "py_strip (int_str i) \<noteq> []"
proof -
  obtain c where "c \<in> set (nat_str (nat \<bar>i\<bar>))" "digit c"
    using nat_str_digits [of "nat \<bar>i\<bar>"] by (metis list.set_sel(1))
  moreover have "set (nat_str (nat \<bar>i\<bar>)) \<subseteq> set (int_str i)" by (auto simp: int_str_def)
  moreover have "\<not> py_space c" if "digit c" for c using that by (auto simp: digit_def py_space_def)
  ultimately have "\<exists>c \<in> set (int_str i). \<not> py_space c" by blast
  then obtain c where c: "c \<in> set (int_str i)" "\<not> py_space c" by blast
  then have "py_lstrip (int_str i) \<noteq> []" by (auto simp: py_lstrip_def dropWhile_eq_Nil_conv)
  moreover have "\<not> py_space (hd (py_lstrip (int_str i)))"
    using lstrip_hd [of "int_str i"] calculation by blast
  ultimately have "\<exists>x \<in> set (py_lstrip (int_str i)). \<not> py_space x" by (metis list.set_sel(1))
  then show ?thesis
    by (auto simp: py_strip_def py_rstrip_def dropWhile_eq_Nil_conv)
qed

section \<open>The contract of the ledger\<close>

locale claim_ledger =
  fixes claim :: "'l \<Rightarrow> 'k \<Rightarrow> bool \<times> 'l"
    and record_status :: "'l \<Rightarrow> 'k \<Rightarrow> bool \<Rightarrow> 'l"
    and delivered :: "'l \<Rightarrow> 'k \<Rightarrow> bool"
    and ok :: "'l \<Rightarrow> bool"
  assumes claim_refused: "delivered l k \<Longrightarrow> claim l k = (False, l)"
    and claim_granted: "\<not> delivered l k \<Longrightarrow> fst (claim l k)"
    and claim_ok: "ok l \<Longrightarrow> ok (snd (claim l k))"
    and record_ok: "ok l \<Longrightarrow> ok (record_status l k b)"
    and record_success: "ok l \<Longrightarrow> delivered (record_status l k b) k \<longleftrightarrow> b"
begin

text \<open>Delivery is claimed once: a success is never claimed again at once, a failure always may be.\<close>

lemma claim_after_record:
  "ok l \<Longrightarrow> fst (claim (record_status l k b) k) \<longleftrightarrow> \<not> b"
  using record_success [of l k b] claim_refused [of "record_status l k b" k]
    claim_granted [of "record_status l k b" k] by (cases b) auto

lemma claim_fst: "fst (claim l k) \<longleftrightarrow> \<not> delivered l k"
  using claim_refused [of l k] claim_granted [of l k] by auto

lemma ok_run: "ok l \<Longrightarrow> ok (foldl (\<lambda>l (k, b). record_status (snd (claim l k)) k b) l ks)"
  by (induction ks arbitrary: l) (auto simp: claim_ok record_ok split: prod.split)

end

text \<open>The code's ledger with a bound of \<open>Suc n\<close> records.\<close>

definition ledger_ok :: "nat \<Rightarrow> ledger \<Rightarrow> bool" where
  "ledger_ok cap l \<longleftrightarrow> wf_dict l \<and> length l \<le> cap"

definition ledger_status :: "nat \<Rightarrow> string \<Rightarrow> pydict \<Rightarrow> ledger \<Rightarrow> string \<Rightarrow> bool \<Rightarrow> ledger" where
  "ledger_status cap now metadata l k b =
     ledger_record cap now l k (if b then ''succeeded'' else ''failed'') metadata"

lemma prune_ok: "wf_dict l \<Longrightarrow> ledger_ok cap (ledger_prune cap l)"
  by (simp add: ledger_ok_def ledger_prune_def distinct_drop flip: drop_map)

lemma prune_keeps_set:
  assumes "ledger_ok (Suc n) l"
  shows "map_of (ledger_prune (Suc n) (dict_set l k e)) k = Some e"
proof (cases "dict_has l k")
  case True
  then have "length (dict_set l k e) \<le> Suc n"
    using assms by (simp add: ledger_ok_def length_dict_set)
  then show ?thesis by (simp add: ledger_prune_def)
next
  case False
  then have "k \<notin> fst ` set l" by (simp add: dict_has_keys)
  then have "dict_set l k e = l @ [(k, e)]" by (induction l) auto
  moreover have "length (dict_set l k e) - Suc n \<le> length l"
    using False by (simp add: length_dict_set)
  moreover have "map_of (drop m l) k = None" for m
    using \<open>k \<notin> fst ` set l\<close> by (auto simp: map_of_eq_None_iff dest: in_set_dropD)
  ultimately show ?thesis by (simp add: ledger_prune_def map_add_def)
qed

interpretation fed: claim_ledger "ledger_claim (Suc n) now" "ledger_status (Suc n) now metadata"
  succeeded "ledger_ok (Suc n)" for n now metadata
proof
  show "ledger_claim (Suc n) now l k = (False, l)" if "succeeded l k" for l k
    using that by (simp add: ledger_claim_def)
  show "fst (ledger_claim (Suc n) now l k)" if "\<not> succeeded l k" for l k
    using that by (simp add: ledger_claim_def)
  show "ledger_ok (Suc n) (snd (ledger_claim (Suc n) now l k))" if "ledger_ok (Suc n) l" for l k
  proof -
    have "wf_dict l" using that by (simp add: ledger_ok_def)
    then show ?thesis using that prune_ok [OF wf_dict_set] by (simp add: ledger_claim_def)
  qed
  show "ledger_ok (Suc n) (ledger_status (Suc n) now metadata l k b)" if "ledger_ok (Suc n) l" for l k b
  proof -
    have "wf_dict l" using that by (simp add: ledger_ok_def)
    then show ?thesis using prune_ok [OF wf_dict_set]
      by (simp add: ledger_status_def ledger_record_def Let_def)
  qed
  show "succeeded (ledger_status (Suc n) now metadata l k b) k = b" if "ledger_ok (Suc n) l" for l k b
    using prune_keeps_set [OF that]
    by (cases b) (simp_all add: ledger_status_def ledger_record_def Let_def succeeded_def)
qed

section \<open>What the consumer's commits rest on\<close>

definition event_at :: "pyrt \<Rightarrow> bridge_config \<Rightarrow> raw_value \<Rightarrow> pydict list" where
  "event_at R C raw =
     (case decode_forwarded_message R (bc_topic C) (bc_allow_legacy C) raw of
        Inl _ \<Rightarrow> [] | Inr (e, _, _) \<Rightarrow> [e])"

definition bridge_inv :: "pyrt \<Rightarrow> bridge_config \<Rightarrow> raw_value list \<Rightarrow> bridge \<Rightarrow> bool" where
  "bridge_inv R C ms b \<longleftrightarrow> fb_committed b \<le> fb_pos b \<and> fb_pos b \<le> length ms
     \<and> (\<forall>i < fb_pos b. set (event_at R C (ms ! i)) \<subseteq> set (fb_sink b) \<union> set (fb_batch b))
     \<and> (\<forall>i < fb_committed b. set (event_at R C (ms ! i)) \<subseteq> set (fb_sink b))"

lemma bridge_flush_inv:
  assumes "bridge_inv R C ms b"
  shows "bridge_inv R C ms (fst (bridge_flush C now ans b))
    \<and> fb_duplicates (fst (bridge_flush C now ans b)) = fb_duplicates b
    \<and> fb_pos (fst (bridge_flush C now ans b)) = fb_pos b"
proof (cases "fb_batch b = []")
  case True
  then show ?thesis using assms by (simp add: bridge_flush_def)
next
  case False
  then show ?thesis using assms by (cases ans) (simp_all add: bridge_flush_def bridge_inv_def)
qed

lemma accept_inv:
  assumes inv: "bridge_inv R C ms b" and pos: "fb_pos b < length ms" "event_at R C (ms ! fb_pos b) = [e]"
    and acc: "bridge_accept C now ans (b\<lparr>fb_pos := Suc (fb_pos b)\<rparr>) e md key = (q, r)" and dup: "fb_duplicates q = 0"
  shows "bridge_inv R C ms q"
proof -
  let ?b = "b\<lparr>fb_pos := Suc (fb_pos b)\<rparr>"
  obtain ok l where cl: "ledger_claim (bc_cap C) now (fb_ledger b) key = (ok, l)" by fastforce
  have ok: "ok"
    using acc dup cl by (cases ok) (auto simp: bridge_accept_def)
  let ?b1 = "?b\<lparr>fb_ledger := ledger_record (bc_cap C) now l key ''claimed'' md,
      fb_batch := fb_batch b @ [e], fb_keys := fb_keys b @ [key]\<rparr>"
  have b1: "bridge_inv R C ms ?b1"
    using inv pos by (auto simp: bridge_inv_def less_Suc_eq)
  have up: "bridge_inv R C ms (b2\<lparr>fb_invalid := x\<rparr>) = bridge_inv R C ms b2" for b2 x
    by (simp add: bridge_inv_def)
  show ?thesis
  proof (cases "bc_batch_size C \<le> length (fb_batch ?b1)")
    case False
    then show ?thesis using acc cl ok b1 by (simp add: bridge_accept_def Let_def split: if_splits)
  next
    case True
    obtain b2 a where fl: "bridge_flush C now ans ?b1 = (b2, a)" by fastforce
    with bridge_flush_inv [OF b1, of now ans] have "bridge_inv R C ms b2" by simp
    then show ?thesis
      using acc cl ok True fl by (cases a) (auto simp: bridge_accept_def Let_def up)
  qed
qed

lemma dup_mono:
  "bridge_step R C now ans polled b = (q, r) \<Longrightarrow> fb_duplicates b \<le> fb_duplicates q"
proof -
  have fl: "bridge_flush C now ans b = (b2, a) \<Longrightarrow> fb_duplicates b2 = fb_duplicates b" for b b2 a
    by (auto simp: bridge_flush_def split: sink_answer.splits if_splits)
  have ac: "bridge_accept C now ans b e md key = (q, r) \<Longrightarrow> fb_duplicates b \<le> fb_duplicates q" for b e md key q r
    by (auto simp: bridge_accept_def Let_def split: prod.splits bool.splits sink_answer.splits if_splits
        dest!: fl)
  assume step: "bridge_step R C now ans polled b = (q, r)"
  show ?thesis
  proof (cases polled)
    case None
    obtain b1 a where "bridge_flush C now ans b = (b1, a)" by fastforce
    with fl [OF this] step None show ?thesis by (simp add: bridge_step_def)
  next
    case (Some raw)
    then show ?thesis
      using step ac [of "b\<lparr>fb_pos := Suc (fb_pos b)\<rparr>"]
      by (cases "decode_forwarded_message R (bc_topic C) (bc_allow_legacy C) raw")
        (auto simp: bridge_step_def Let_def)
  qed
qed

lemma step_inv:
  assumes inv: "bridge_inv R C ms b" and polled: "polled = None \<or> fb_pos b < length ms \<and> polled = Some (ms ! fb_pos b)"
    and step: "bridge_step R C now ans polled b = (q, r)" and dup: "fb_duplicates q = 0"
  shows "bridge_inv R C ms q"
proof (cases polled)
  case None
  then show ?thesis using bridge_flush_inv [OF inv, of now ans] step by (auto simp: bridge_step_def split: prod.splits)
next
  case (Some raw)
  with polled have pos: "fb_pos b < length ms" and raw: "raw = ms ! fb_pos b" by auto
  show ?thesis
  proof (cases "decode_forwarded_message R (bc_topic C) (bc_allow_legacy C) raw")
    case (Inl x)
    then have "event_at R C (ms ! fb_pos b) = []" by (simp add: event_at_def raw)
    moreover have "q = b\<lparr>fb_pos := Suc (fb_pos b), fb_invalid := Suc (fb_invalid b)\<rparr>"
      using step Some Inl by (auto simp: bridge_step_def Let_def)
    ultimately show ?thesis using inv pos by (simp add: bridge_inv_def less_Suc_eq le_SucI)
  next
    case (Inr x)
    obtain e md key where x: "x = (e, md, key)" by (metis prod.exhaust)
    have "event_at R C (ms ! fb_pos b) = [e]" using Inr by (simp add: event_at_def raw x)
    with accept_inv [OF inv pos this _ dup] step Some Inr x show ?thesis
      by (simp add: bridge_step_def Let_def)
  qed
qed

lemma bridge_run_inv:
  "bridge_inv R C ms b \<Longrightarrow> fb_duplicates (bridge_run R C now ms es b) = 0
     \<Longrightarrow> bridge_inv R C ms (bridge_run R C now ms es b)"
proof (induction es arbitrary: b)
  case Nil
  then show ?case by simp
next
  case (Cons x es)
  obtain arrives ans where x: "x = (arrives, ans)" by fastforce
  let ?p = "if arrives \<and> fb_pos b < length ms then Some (ms ! fb_pos b) else None"
  obtain b1 r where st: "bridge_step R C now ans ?p b = (b1, r)" by fastforce
  have mono: "fb_duplicates b1 \<le> fb_duplicates (bridge_run R C now ms es b1)" for b1
  proof (induction es arbitrary: b1)
    case (Cons y es)
    obtain ar an where y: "y = (ar, an)" by fastforce
    obtain b2 r2 where st2: "bridge_step R C now an
        (if ar \<and> fb_pos b1 < length ms then Some (ms ! fb_pos b1) else None) b1 = (b2, r2)" by fastforce
    from dup_mono [OF st2] Cons.IH [of b2] st2 show ?case by (cases r2) (auto simp: y)
  qed simp
  have run: "bridge_run R C now ms (x # es) b = (if r then bridge_run R C now ms es b1 else b1)"
    using st by (cases r) (simp_all add: x)
  have "fb_duplicates b1 = 0" using Cons.prems(2) mono [of b1] run by (cases r) auto
  then have "bridge_inv R C ms b1" using step_inv [OF Cons.prems(1) _ st] by simp
  with Cons.IH [of b1] Cons.prems(2) run show ?case by (cases r) auto
qed

definition new_bridge :: "ledger \<Rightarrow> bridge" where
  "new_bridge l = \<lparr>fb_pos = 0, fb_committed = 0, fb_batch = [], fb_keys = [], fb_ledger = l, fb_sink = [],
     fb_duplicates = 0, fb_invalid = 0\<rparr>"

section \<open>Properties\<close>

text \<open>
  Forwarding is lossless: an event wrapped for a site, a deployment and a topic that are
  not blank validates without errors, unwraps to the event unchanged with metadata that is not
  marked legacy and carries the event's identity, and its deduplication key is made of the origin
  site, source, topic and event id.
\<close>

theorem wrap_roundtrip:
  assumes "wrap_event R now event site deployment topic version (Some fwd) = Inr env"
    and "py_strip site \<noteq> []" "py_strip deployment \<noteq> []" "py_strip topic \<noteq> []" "py_strip fwd \<noteq> []"
  shows "validate_envelope R (PDict env) = []
    \<and> (\<exists>md. unwrap_event R al env = Inr (event, md) \<and> pget md ''legacy'' = PBool False
          \<and> pget md ''event_id'' = PStr (text_of R (pget event ''event_id''))
          \<and> pget md ''source_id'' = PStr (text_of R (pget event ''source_id'')))
    \<and> deduplication_key R env t = Inr (join ''|'' [py_strip site, text_of R (pget event ''source_id''),
          py_strip topic, text_of R (pget event ''event_id'')])"
proof -
  let ?eid = "text_of R (pget event ''event_id'')" and ?sid = "text_of R (pget event ''source_id'')"
  obtain n where ids: "?eid \<noteq> []" "?sid \<noteq> []"
    and n: "py_int (dict_getd event ''schema_version'' (PInt 1)) = Some n"
    using assms(1) by (auto simp: wrap_event_def Let_def split: if_splits option.splits)
  define origin where "origin =
    [(''site_id'', PStr (py_strip site)), (''deployment_id'', PStr (py_strip deployment)),
     (''source_id'', PStr ?sid), (''event_id'', PStr ?eid), (''topic'', PStr (py_strip topic)),
     (''schema_version'', PInt n),
     (''processing_version'', PStr (if py_strip version \<noteq> [] then py_strip version else ''unknown'')),
     (''forwarded_at'', PStr fwd)]"
  have fwd: "fwd \<noteq> []" using assms(5) by (auto simp: py_strip_def py_rstrip_def py_lstrip_def)
  have env: "env = [(''envelope_type'', PStr FEDERATION_ENVELOPE_TYPE),
      (''envelope_version'', PInt FEDERATION_ENVELOPE_VERSION), (''origin'', PDict origin), (''payload'', PDict event)]"
    using assms(1) ids n fwd by (auto simp: wrap_event_def Let_def origin_def split: list.splits)
  have strip_ids: "py_strip ?eid = ?eid" "py_strip ?sid = ?sid"
    by (simp_all add: text_of_def)
  have oget: "pget origin ''event_id'' = PStr ?eid" "pget origin ''source_id'' = PStr ?sid"
      "pget origin ''site_id'' = PStr (py_strip site)" "pget origin ''topic'' = PStr (py_strip topic)"
    by (simp_all add: origin_def pget_Cons)
  have unknown: "py_strip ''unknown'' \<noteq> []"
    by (simp add: py_strip_def py_rstrip_def py_lstrip_def py_space_def)
  have oerr: "origin_errors R origin = []"
    using assms(2-5) ids strip_ids int_str_text [of n] unknown
    by (simp add: origin_errors_def REQUIRED_ORIGIN_FIELDS_def origin_def pget_def dict_getd_def text_of_def
        is_int_def py_str_def)
  have perr: "payload_errors R origin (PDict event) = []"
    using strip_ids by (simp add: payload_errors_def oget)
  have get: "pget env ''envelope_type'' = PStr FEDERATION_ENVELOPE_TYPE"
      "pget env ''envelope_version'' = PInt FEDERATION_ENVELOPE_VERSION"
      "pget env ''origin'' = PDict origin" "pget env ''payload'' = PDict event"
    by (simp_all add: env pget_def dict_getd_def)
  have val: "validate_envelope R (PDict env) = []"
    by (simp add: validate_envelope_def get eq_int_def oerr perr)
  have wf: "wf_dict origin" by (simp add: origin_def)
  have md: "map_of (dict_merge [(''legacy'', PBool False)] origin) k
      = ([''legacy'' \<mapsto> PBool False] ++ map_of origin) k" for k
    using wf by (simp add: map_of_dict_merge)
  have unw: "unwrap_event R al env = Inr (event, dict_merge [(''legacy'', PBool False)] origin)"
    by (simp add: unwrap_event_def get val as_dict_def)
  have "deduplication_key R env t = Inr (join ''|'' [py_strip site, ?sid, py_strip topic, ?eid])"
    using assms(2,4) ids strip_ids
    by (simp add: deduplication_key_def dedup_parts_def get as_dict_def FEDERATION_ENVELOPE_TYPE_def oget)
  moreover have "pget (dict_merge [(''legacy'', PBool False)] origin) ''legacy'' = PBool False"
      "pget (dict_merge [(''legacy'', PBool False)] origin) ''event_id'' = PStr ?eid"
      "pget (dict_merge [(''legacy'', PBool False)] origin) ''source_id'' = PStr ?sid"
    by (rule pget_map_of, simp add: md map_add_def, simp add: origin_def)+
  ultimately show ?thesis using val unw by (intro conjI exI)
qed

definition demo_forwarded :: pydict where
  "demo_forwarded = [(''event_id'', PStr '' e1 ''), (''source_id'', PStr ''plc''), (''value'', PInt 3)]"

theorem wrap_roundtrip_witness:
  "\<exists>env. wrap_event demo_rt ''now'' demo_forwarded ''s'' ''d'' ''t'' [] (Some ''f'') = Inr env
     \<and> validate_envelope demo_rt (PDict env) = []"
proof -
  have st: "py_strip '' e1 '' = ''e1''" "py_strip ''plc'' = ''plc''" "py_strip ''s'' = ''s''"
    "py_strip ''d'' = ''d''" "py_strip ''t'' = ''t''" "py_strip ''f'' = ''f''"
    by (simp_all add: py_strip_def py_rstrip_def py_lstrip_def py_space_def)
  have "\<exists>env. wrap_event demo_rt ''now'' demo_forwarded ''s'' ''d'' ''t'' [] (Some ''f'') = Inr env"
    by (simp add: wrap_event_def demo_forwarded_def pget_def dict_getd_def text_of_def py_int_def Let_def st)
  then obtain env where env: "wrap_event demo_rt ''now'' demo_forwarded ''s'' ''d'' ''t'' [] (Some ''f'') = Inr env"
    by (elim exE)
  from wrap_roundtrip [OF env, of True None] st have "validate_envelope demo_rt (PDict env) = []" by simp
  with env show ?thesis by (intro exI conjI)
qed

text \<open>
  The ledger deduplicates: once a delivery is recorded as a success, the next claim of its key
  is refused and changes nothing, while a recorded failure leaves the key claimable, and the ledger
  never grows beyond its bound.
\<close>

theorem ledger_dedup:
  assumes "wf_dict l" "length l \<le> Suc n"
  shows "ledger_claim (Suc n) t (ledger_record (Suc n) now l k ''succeeded'' md) k
      = (False, ledger_record (Suc n) now l k ''succeeded'' md)
    \<and> fst (ledger_claim (Suc n) t (ledger_record (Suc n) now l k ''failed'' md) k)
    \<and> length (ledger_record (Suc n) now l k st md) \<le> Suc n
    \<and> length (snd (ledger_claim (Suc n) t l k)) \<le> Suc n"
proof -
  have l: "ledger_ok (Suc n) l" using assms by (simp add: ledger_ok_def)
  have "succeeded (ledger_status (Suc n) now md l k True) k"
    using fed.record_success [OF l, of now md k True] by simp
  then have "ledger_claim (Suc n) t (ledger_record (Suc n) now l k ''succeeded'' md) k
      = (False, ledger_record (Suc n) now l k ''succeeded'' md)"
    by (simp add: fed.claim_refused ledger_status_def)
  moreover have "fst (ledger_claim (Suc n) t (ledger_record (Suc n) now l k ''failed'' md) k)"
    using fed.record_success [OF l, of now md k False] fed.claim_granted by (simp add: ledger_status_def)
  moreover have "length (ledger_record (Suc n) now l k st md) \<le> Suc n"
    using prune_ok [OF wf_dict_set [OF assms(1)]]
    by (simp add: ledger_record_def Let_def ledger_ok_def)
  moreover have "length (snd (ledger_claim (Suc n) t l k)) \<le> Suc n"
    using fed.claim_ok [OF l] by (simp add: ledger_ok_def)
  ultimately show ?thesis by blast
qed

theorem ledger_dedup_witness:
  "\<not> fst (ledger_claim (Suc 1) ''t'' (ledger_record (Suc 1) ''now'' [(''a'', []), (''b'', [])] ''c'' ''succeeded'' []) ''c'')"
  using ledger_dedup [of "[(''a'', []), (''b'', [])]" 1 "''t''" "''now''" "''c''" "[]"] by simp

text \<open>
  Claim C3. At-least-once delivery while no duplicate arrives: in a run over any broker log, with any
  answers of the sink, that refused no message as a duplicate, every message before the committed
  position is invalid or its event is in the lakehouse.
\<close>

theorem bridge_at_least_once:
  assumes "q = bridge_main R C now ms es final (new_bridge l)" "fb_duplicates q = 0" "i < fb_committed q"
  shows "set (event_at R C (ms ! i)) \<subseteq> set (fb_sink q)"
proof -
  have "bridge_inv R C ms (new_bridge l)" by (simp add: bridge_inv_def new_bridge_def)
  moreover have "fb_duplicates (bridge_run R C now ms es (new_bridge l)) = 0"
    using assms(1,2) by (simp add: bridge_main_def bridge_flush_def split: if_splits sink_answer.splits)
  ultimately have "bridge_inv R C ms (bridge_run R C now ms es (new_bridge l))" by (rule bridge_run_inv)
  then have "bridge_inv R C ms q"
    using bridge_flush_inv assms(1) unfolding bridge_main_def by blast
  with assms(3) show ?thesis by (simp add: bridge_inv_def)
qed

definition demo_bridge_config :: bridge_config where
  "demo_bridge_config = \<lparr>bc_topic = ''t'', bc_allow_legacy = True, bc_batch_size = 2, bc_cap = 10\<rparr>"

definition legacy_event :: "string \<Rightarrow> pydict" where
  "legacy_event i = [(''site'', PStr ''s''), (''source_id'', PStr ''x''), (''event_id'', PStr i)]"

lemma demo_strip: "py_strip ''s'' = ''s''" "py_strip ''x'' = ''x''" "py_strip ''t'' = ''t''" "py_strip ''1'' = ''1''"
  by (simp_all add: py_strip_def py_rstrip_def py_lstrip_def py_space_def)

lemma demo_decode_key:
  "decode_forwarded_message demo_rt ''t'' True (Json (PDict (legacy_event ''1'')))
     = Inr (legacy_event ''1'' @ [(''federation_source_topic'', PStr ''t''), (''federation_legacy'', PBool True)],
            [(''legacy'', PBool True)], ''s|x|t|1'')"
  by (simp add: decode_forwarded_message_def unwrap_event_def deduplication_key_def dedup_parts_def legacy_event_def
      pget_def dict_getd_def text_of_def demo_strip res_bind_def Let_def)

theorem bridge_at_least_once_witness:
  "\<exists>q. q = bridge_main demo_rt demo_bridge_config ''now'' [Json (PDict (legacy_event ''1'')), Undecodable]
        [(True, SinkOk), (True, SinkOk)] SinkOk (new_bridge [])
     \<and> set (event_at demo_rt demo_bridge_config (Json (PDict (legacy_event ''1'')))) \<subseteq> set (fb_sink q)"
proof -
  let ?ms = "[Json (PDict (legacy_event ''1'')), Undecodable]"
  define q where "q = bridge_main demo_rt demo_bridge_config ''now'' ?ms
        [(True, SinkOk), (True, SinkOk)] SinkOk (new_bridge [])"
  have "fb_duplicates q = 0 \<and> 0 < fb_committed q"
    unfolding q_def
    by (simp add: bridge_main_def bridge_step_def bridge_accept_def bridge_flush_def new_bridge_def
        ledger_claim_def succeeded_def Let_def demo_bridge_config_def demo_decode_key)
      (simp add: decode_forwarded_message_def)
  then have "fb_duplicates q = 0" "0 < fb_committed q" by simp_all
  from bridge_at_least_once [OF q_def this]
  have "set (event_at demo_rt demo_bridge_config (Json (PDict (legacy_event ''1'')))) \<subseteq> set (fb_sink q)" by simp
  with q_def show ?thesis by (intro exI conjI)
qed

text \<open>
  A duplicate commits what is not written: when a message arrives whose key the ledger
  already holds as a success while a batch is pending, the offset is committed past the pending
  batch; after a crash at that point the consumer resumes behind those messages, and neither the
  lakehouse nor the new batch holds their events.
\<close>

theorem duplicate_commits_pending:
  assumes "fb_pos b < length ms"
    and "decode_forwarded_message R (bc_topic C) (bc_allow_legacy C) (ms ! fb_pos b) = Inr (e, md, key)"
    and "succeeded (fb_ledger b) key"
  shows "\<exists>b'. bridge_step R C now ans (Some (ms ! fb_pos b)) b = (b', True)
    \<and> fb_batch b' = fb_batch b \<and> fb_sink b' = fb_sink b
    \<and> fb_pos (bridge_restart b') = Suc (fb_pos b)
    \<and> fb_batch (bridge_restart b') = [] \<and> fb_sink (bridge_restart b') = fb_sink b"
  using assms
  by (simp add: bridge_step_def bridge_accept_def ledger_claim_def bridge_restart_def Let_def)

theorem duplicate_commits_pending_witness:
  "\<exists>b'. bridge_step demo_rt demo_bridge_config ''now'' SinkOk (Some (Json (PDict (legacy_event ''1''))))
        ((new_bridge [(''s|x|t|1'', [(''status'', PStr ''succeeded'')])])
           \<lparr>fb_pos := 1, fb_batch := [legacy_event ''0''], fb_keys := [''s|x|t|0'']\<rparr>) = (b', True)
     \<and> fb_pos (bridge_restart b') = 2 \<and> fb_sink (bridge_restart b') = []"
proof -
  let ?b = "(new_bridge [(''s|x|t|1'', [(''status'', PStr ''succeeded'')])])
           \<lparr>fb_pos := 1, fb_batch := [legacy_event ''0''], fb_keys := [''s|x|t|0'']\<rparr>"
  let ?ms = "[Undecodable, Json (PDict (legacy_event ''1''))]"
  have suc: "succeeded (fb_ledger ?b) ''s|x|t|1''"
    by (simp add: succeeded_def new_bridge_def pget_def dict_getd_def)
  have pos: "fb_pos ?b < length ?ms" by simp
  have dec: "decode_forwarded_message demo_rt (bc_topic demo_bridge_config) (bc_allow_legacy demo_bridge_config)
      (?ms ! fb_pos ?b)
    = Inr (legacy_event ''1'' @ [(''federation_source_topic'', PStr ''t''), (''federation_legacy'', PBool True)],
            [(''legacy'', PBool True)], ''s|x|t|1'')"
    by (simp add: demo_bridge_config_def demo_decode_key)
  from duplicate_commits_pending [OF pos dec suc, of "''now''" SinkOk] obtain b'
    where "bridge_step demo_rt demo_bridge_config ''now'' SinkOk (Some (?ms ! fb_pos ?b)) ?b = (b', True)"
      "fb_pos (bridge_restart b') = Suc (fb_pos ?b)" "fb_sink (bridge_restart b') = fb_sink ?b"
    by (elim exE conjE)
  then show ?thesis by (intro exI [of _ b']) (simp add: new_bridge_def)
qed

end
