(* ===== verification/Federation_Sync.thy ===== *)
theory Federation_Sync
  imports Py_Prelude
begin

text \<open>
  The table synchronisation of an edge site (\<open>services/federation/main.py\<close>): each round posts, per
  table, the rows newer than the cursor, oldest first and at most a batch, and moves the cursor to the
  newest posted time. A row carries its time; \<open>fmt\<close> is the text \<open>str\<close> gives a time and \<open>parse\<close> the
  time the database reads from a cursor text. Whether the cloud accepts a post is an argument.
\<close>

record fed_row =
  fr_time :: rat
  fr_data :: pydict

text \<open>\<open>SELECT * FROM table WHERE time > cursor ORDER BY time ASC LIMIT n\<close>.\<close>

definition pending_rows :: "(string \<Rightarrow> rat) \<Rightarrow> fed_row list \<Rightarrow> string \<Rightarrow> fed_row list" where
  "pending_rows parse rows cursor = sort_key fr_time (filter (\<lambda>r. parse cursor < fr_time r) rows)"

text \<open>\<open>max\<close> of texts.\<close>

definition newest :: "string list \<Rightarrow> string" where
  "newest ts = (case ts of [] \<Rightarrow> [] | t # us \<Rightarrow> foldl max t us)"

text \<open>The new cursor and the rows posted; \<open>None\<close>: the post or its status raised.\<close>

definition sync_table ::
    "(rat \<Rightarrow> string) \<Rightarrow> (string \<Rightarrow> rat) \<Rightarrow> nat \<Rightarrow> bool \<Rightarrow> fed_row list \<Rightarrow> string \<Rightarrow> (string \<times> fed_row list) option" where
  "sync_table fmt parse batch ok rows cursor =
     (let sel = take batch (pending_rows parse rows cursor) in
      if sel = [] then Some (cursor, [])
      else if ok then Some (newest (map (fmt \<circ> fr_time) sel), sel) else None)"

text \<open>One round over the tables: the first failure ends it.\<close>

fun sync_round ::
    "(rat \<Rightarrow> string) \<Rightarrow> (string \<Rightarrow> rat) \<Rightarrow> nat \<Rightarrow> (string \<Rightarrow> bool) \<Rightarrow> (string \<Rightarrow> fed_row list) \<Rightarrow> string list
       \<Rightarrow> (string \<times> string) list \<Rightarrow> (string \<times> fed_row list) list \<Rightarrow> (string \<times> string) list \<times> (string \<times> fed_row list) list" where
  "sync_round fmt parse batch ok db [] cursors posted = (cursors, posted)"
| "sync_round fmt parse batch ok db (t # ts) cursors posted =
     (case sync_table fmt parse batch (ok t) (db t) (dict_getd cursors t []) of
        None \<Rightarrow> (cursors, posted)
      | Some (c, rows) \<Rightarrow> sync_round fmt parse batch ok db ts (dict_set cursors t c) (posted @ [(t, rows)]))"

definition initial_cursors :: "string list \<Rightarrow> (string \<times> string) list" where
  "initial_cursors tables = map (\<lambda>t. (t, ''1970-01-01T00:00:00Z'')) tables"

definition federation_tables :: "string \<Rightarrow> string list" where
  "federation_tables configured = map py_strip (filter (\<lambda>t. py_strip t \<noteq> []) (split_on CHR '','' configured))"

text \<open>The rounds seen by one table whose rows do not change: what is posted, and the last cursor.\<close>

fun table_rounds ::
    "(rat \<Rightarrow> string) \<Rightarrow> (string \<Rightarrow> rat) \<Rightarrow> nat \<Rightarrow> bool list \<Rightarrow> fed_row list \<Rightarrow> string \<Rightarrow> fed_row list \<times> string" where
  "table_rounds fmt parse batch [] rows cursor = ([], cursor)"
| "table_rounds fmt parse batch (ok # oks) rows cursor =
     (case sync_table fmt parse batch ok rows cursor of
        None \<Rightarrow> table_rounds fmt parse batch oks rows cursor
      | Some (c, sel) \<Rightarrow>
          (case table_rounds fmt parse batch oks rows c of (posted, c') \<Rightarrow> (sel @ posted, c')))"

section \<open>Lemmas\<close>

text \<open>The documented behaviour of the two conversions: the text order is the time order, and the
  database reads back the time that was written.\<close>

definition faithful_times :: "(rat \<Rightarrow> string) \<Rightarrow> (string \<Rightarrow> rat) \<Rightarrow> fed_row list \<Rightarrow> bool" where
  "faithful_times fmt parse rows \<longleftrightarrow>
     (\<forall>r \<in> set rows. parse (fmt (fr_time r)) = fr_time r
        \<and> (\<forall>s \<in> set rows. fmt (fr_time r) \<le> fmt (fr_time s) \<longleftrightarrow> fr_time r \<le> fr_time s))"

lemma pending_sorted: "sorted (map fr_time (pending_rows parse rows c))"
  by (simp add: pending_rows_def)

lemma pending_set: "r \<in> set (pending_rows parse rows c) \<longleftrightarrow> r \<in> set rows \<and> parse c < fr_time r"
  by (auto simp: pending_rows_def)

lemma newest_fmt:
  assumes "faithful_times fmt parse rows" "set sel \<subseteq> set rows" "sorted (map fr_time sel)" "sel \<noteq> []"
  shows "newest (map (fmt \<circ> fr_time) sel) = fmt (fr_time (last sel))"
proof -
  have fold: "foldl max (fmt (fr_time r)) (map (fmt \<circ> fr_time) us) = fmt (fr_time (last (r # us)))"
    if "sorted (map fr_time (r # us))" "set (r # us) \<subseteq> set rows" for r us
    using that
  proof (induction us arbitrary: r)
    case (Cons u us)
    then have "fmt (fr_time r) \<le> fmt (fr_time u)"
      using assms(1) by (simp add: faithful_times_def)
    then have "max (fmt (fr_time r)) (fmt (fr_time u)) = fmt (fr_time u)" by (rule max_absorb2)
    with Cons.IH [of u] Cons.prems show ?case by simp
  qed simp
  obtain r us where "sel = r # us" using assms(4) by (cases sel) auto
  with fold [of r us] assms(2,3) show ?thesis by (simp add: newest_def)
qed

lemma sync_cursor:
  assumes "faithful_times fmt parse rows" "sync_table fmt parse batch ok rows c = Some (c', sel)" "sel \<noteq> []"
  shows "sel = take batch (pending_rows parse rows c) \<and> parse c' = fr_time (last sel)"
proof -
  have sel: "sel = take batch (pending_rows parse rows c)" "c' = newest (map (fmt \<circ> fr_time) sel)"
    using assms(2,3) by (auto simp: sync_table_def Let_def split: if_splits)
  have "sorted (map fr_time sel)"
    by (simp add: sel(1) take_map [symmetric] sorted_wrt_take pending_sorted)
  moreover have sub: "set sel \<subseteq> set rows"
    unfolding sel(1) by (auto simp: pending_set dest: in_set_takeD)
  ultimately have "c' = fmt (fr_time (last sel))"
    unfolding sel(2) by (intro newest_fmt [OF assms(1)]) (use assms(3) in auto)
  moreover have "last sel \<in> set rows" using sub assms(3) by auto
  ultimately show ?thesis using assms(1) sel(1) by (simp add: faithful_times_def)
qed

lemma cursor_mono:
  assumes "faithful_times fmt parse rows" "sync_table fmt parse batch ok rows c = Some (c', sel)"
  shows "parse c \<le> parse c'"
proof (cases "sel = []")
  case True
  then show ?thesis using assms(2) by (auto simp: sync_table_def Let_def split: if_splits)
next
  case False
  note sc = sync_cursor [OF assms this]
  have "last sel \<in> set sel" using False by simp
  with sc have "last sel \<in> set (pending_rows parse rows c)" by (metis in_set_takeD)
  with sc show ?thesis by (simp add: pending_set)
qed

lemma rounds_newer:
  "faithful_times fmt parse rows \<Longrightarrow> r \<in> set (fst (table_rounds fmt parse batch oks rows c)) \<Longrightarrow> parse c < fr_time r"
proof (induction oks arbitrary: c)
  case (Cons ok oks)
  show ?case
  proof (cases "sync_table fmt parse batch ok rows c")
    case None
    then show ?thesis using Cons by simp
  next
    case (Some x)
    obtain c' sel where x: "x = (c', sel)" by (metis prod.exhaust)
    from Cons.prems(2) Some x
    have "r \<in> set sel \<or> r \<in> set (fst (table_rounds fmt parse batch oks rows c'))"
      by (auto split: prod.splits)
    then show ?thesis
    proof
      assume "r \<in> set sel"
      moreover have "sel = [] \<or> sel = take batch (pending_rows parse rows c)"
        using Some x by (auto simp: sync_table_def Let_def split: if_splits)
      ultimately have "r \<in> set (pending_rows parse rows c)" by (auto dest: in_set_takeD)
      then show ?thesis by (simp add: pending_set)
    next
      assume "r \<in> set (fst (table_rounds fmt parse batch oks rows c'))"
      with Cons.IH [OF Cons.prems(1)] cursor_mono [OF Cons.prems(1)] Some x show ?thesis
        by (meson le_less_trans)
    qed
  qed
qed simp

text \<open>With distinct times a successful round posts the first batch and leaves the rest pending.\<close>

lemma strictly_sorted_filter:
  "sorted_wrt (<) (map f xs) \<Longrightarrow> m < length xs \<Longrightarrow> filter (\<lambda>x. f (xs ! m) < f x) xs = drop (Suc m) (xs :: 'a list)"
  for f :: "'a \<Rightarrow> rat"
proof (induction xs arbitrary: m)
  case (Cons x xs)
  show ?case
  proof (cases m)
    case 0
    with Cons.prems have "\<forall>y \<in> set xs. f x < f y" by auto
    with 0 show ?thesis by (simp add: filter_id_conv)
  next
    case (Suc k)
    with Cons.prems have "f x < f (xs ! k)" by auto
    with Suc Cons show ?thesis by (simp add: not_less less_imp_le)
  qed
qed simp

lemma pending_next:
  assumes "parse c' = fr_time (pending_rows parse rows c ! m)" "m < length (pending_rows parse rows c)"
    and "distinct (map fr_time rows)"
  shows "pending_rows parse rows c' = drop (Suc m) (pending_rows parse rows c)"
proof -
  let ?P = "pending_rows parse rows c"
  have "parse c < parse c'"
    using assms(1,2) nth_mem [OF assms(2)] by (simp add: pending_set)
  then have "filter (\<lambda>r. parse c' < fr_time r) rows
      = filter (\<lambda>r. parse c' < fr_time r) (filter (\<lambda>r. parse c < fr_time r) rows)"
    by (auto intro!: filter_cong)
  then have "pending_rows parse rows c' = filter (\<lambda>r. fr_time (?P ! m) < fr_time r) ?P"
    by (simp add: pending_rows_def filter_sort assms(1) [unfolded pending_rows_def])
  moreover have "distinct (map fr_time ?P)"
  proof -
    have "distinct (map fr_time (filter (\<lambda>r. parse c < fr_time r) rows))"
      using assms(3) by (rule distinct_map_filter)
    moreover have "set ?P = set (filter (\<lambda>r. parse c < fr_time r) rows)" by (simp add: pending_rows_def)
    ultimately show ?thesis
      by (metis (no_types) distinct_map distinct_sort pending_rows_def)
  qed
  then have "sorted_wrt (<) (map fr_time ?P)"
    using pending_sorted strict_sorted_iff by blast
  ultimately show ?thesis using strictly_sorted_filter [of fr_time ?P m] assms(2) by simp
qed

lemma rounds_prefix:
  assumes "faithful_times fmt parse rows" "distinct (map fr_time rows)"
  shows "fst (table_rounds fmt parse batch (replicate k True) rows c) = take (k * batch) (pending_rows parse rows c)"
proof (induction k arbitrary: c)
  case (Suc k)
  let ?P = "pending_rows parse rows c"
  show ?case
  proof (cases "take batch ?P = []")
    case True
    then have "sync_table fmt parse batch True rows c = Some (c, [])" by (simp add: sync_table_def)
    with Suc [of c] True show ?thesis by (cases "batch = 0") (auto split: prod.splits)
  next
    case False
    define m where "m = min batch (length ?P) - 1"
    have "0 < min batch (length ?P)" using False by simp
    then have m: "m < length ?P" "Suc m = min batch (length ?P)"
      unfolding m_def by linarith+
    obtain c' where c': "sync_table fmt parse batch True rows c = Some (c', take batch ?P)"
      using False by (simp add: sync_table_def Let_def)
    have "m < batch" using m(2) by linarith
    moreover have "length (take batch ?P) - 1 = m" by (simp add: m_def min.commute)
    ultimately have "last (take batch ?P) = ?P ! m" using False by (simp add: last_conv_nth)
    with sync_cursor [OF assms(1) c' False] have "parse c' = fr_time (?P ! m)" by simp
    then have P': "pending_rows parse rows c' = drop (Suc m) ?P" using m(1) assms(2) by (rule pending_next)
    have "drop (Suc m) ?P = drop batch ?P" by (simp add: m(2) min_def)
    with Suc [of c'] c' P' show ?thesis
      by (auto simp: take_add split: prod.splits)
  qed
qed simp

section \<open>Properties\<close>

text \<open>
  Synchronisation is complete for distinct times: when no two rows of a table share a time,
  \<open>k\<close> accepted rounds post exactly the first \<open>k\<close> batches of the rows newer than the cursor, in time
  order and each once, so enough rounds post them all.
\<close>

theorem sync_complete:
  assumes "faithful_times fmt parse rows" "distinct (map fr_time rows)"
  shows "fst (table_rounds fmt parse batch (replicate k True) rows c) = take (k * batch) (pending_rows parse rows c)
    \<and> (length rows \<le> k * batch \<longrightarrow>
        fst (table_rounds fmt parse batch (replicate k True) rows c) = pending_rows parse rows c)"
proof -
  have "length (pending_rows parse rows c) \<le> length rows" by (simp add: pending_rows_def)
  with rounds_prefix [OF assms] show ?thesis by simp
qed

text \<open>
  Ties at the edge of a batch are skipped: a row that is newer than the cursor but is cut off
  by the batch limit and shares its time with the last row posted is not posted by any later round,
  because the cursor moves to that time and the query asks for strictly newer rows.
\<close>

theorem sync_skips_ties:
  assumes "faithful_times fmt parse rows" "sync_table fmt parse batch ok rows c = Some (c', sel)" "sel \<noteq> []"
    and "fr_time r = fr_time (last sel)"
  shows "r \<notin> set (fst (table_rounds fmt parse batch oks rows c'))"
proof
  assume "r \<in> set (fst (table_rounds fmt parse batch oks rows c'))"
  then have "parse c' < fr_time r" by (rule rounds_newer [OF assms(1)])
  with sync_cursor [OF assms(1,2,3)] assms(4) show False by simp
qed

definition demo_row :: "rat \<Rightarrow> string \<Rightarrow> fed_row" where
  "demo_row t x = \<lparr>fr_time = t, fr_data = [(''id'', PStr x)]\<rparr>"

definition demo_fmt :: "rat \<Rightarrow> string" where
  "demo_fmt t = (if t = 1 then ''1'' else if t = 2 then ''2'' else ''3'')"

definition demo_parse :: "string \<Rightarrow> rat" where
  "demo_parse s = (if s = ''1'' then 1 else if s = ''2'' then 2 else if s = ''3'' then 3 else 0)"

lemma demo_times: "list_all (\<lambda>r. fr_time r \<in> {1, 2, 3}) rows \<Longrightarrow> faithful_times demo_fmt demo_parse rows"
proof -
  assume rows: "list_all (\<lambda>r. fr_time r \<in> {1, 2, 3}) rows"
  have "demo_parse (demo_fmt a) = a \<and> (demo_fmt a \<le> demo_fmt b \<longleftrightarrow> a \<le> b)"
    if "a \<in> {1, 2, 3}" "b \<in> {1, 2, 3}" for a b
    using that by (auto simp: demo_fmt_def demo_parse_def)
  with rows show ?thesis unfolding faithful_times_def list_all_iff by blast
qed

theorem sync_complete_witness:
  "fst (table_rounds demo_fmt demo_parse 2 (replicate 2 True) [demo_row 3 ''c'', demo_row 1 ''a'', demo_row 2 ''b''] ''0'')
     = [demo_row 1 ''a'', demo_row 2 ''b'', demo_row 3 ''c'']"
proof -
  let ?rows = "[demo_row 3 ''c'', demo_row 1 ''a'', demo_row 2 ''b'']"
  have "faithful_times demo_fmt demo_parse ?rows" by (rule demo_times) (simp add: demo_row_def)
  moreover have "distinct (map fr_time ?rows)" by (simp add: demo_row_def)
  moreover have "length ?rows \<le> 2 * 2" by simp
  ultimately have "fst (table_rounds demo_fmt demo_parse 2 (replicate 2 True) ?rows ''0'')
      = pending_rows demo_parse ?rows ''0''"
    using sync_complete by blast
  also have "\<dots> = [demo_row 1 ''a'', demo_row 2 ''b'', demo_row 3 ''c'']"
    by (simp add: pending_rows_def demo_row_def demo_parse_def)
  finally show ?thesis .
qed

theorem sync_skips_ties_witness:
  "demo_row 1 ''b'' \<notin> set (fst (table_rounds demo_fmt demo_parse 1 [True, True, True]
      [demo_row 1 ''a'', demo_row 1 ''b''] ''1''))
   \<and> sync_table demo_fmt demo_parse 1 True [demo_row 1 ''a'', demo_row 1 ''b''] ''0'' = Some (''1'', [demo_row 1 ''a''])"
proof -
  let ?rows = "[demo_row 1 ''a'', demo_row 1 ''b'']"
  have f: "faithful_times demo_fmt demo_parse ?rows" by (rule demo_times) (simp add: demo_row_def)
  have s: "sync_table demo_fmt demo_parse 1 True ?rows ''0'' = Some (''1'', [demo_row 1 ''a''])"
    by (simp add: sync_table_def pending_rows_def demo_row_def demo_parse_def demo_fmt_def newest_def)
  from sync_skips_ties [OF f s, of "demo_row 1 ''b''" "[True, True, True]"] s show ?thesis
    by (simp add: demo_row_def)
qed

end
