(* ===== verification/Schema_Registry.thy ===== *)
theory Schema_Registry
  imports Py_Prelude
begin

text \<open>
  The schema registry (\<open>services/common/schema_registry.py\<close>): versions of field lists per schema,
  compatibility modes and their check, registration, lookup, validation, and the state file. A field
  is its name, its type and the truth value of \<open>required\<close>; the file is the data last written to it,
  and writing succeeds.
\<close>

section \<open>Data\<close>

definition COMPATIBILITY_MODES :: "string list" where
  "COMPATIBILITY_MODES = [''backward'', ''forward'', ''full'', ''none'']"

record schema_field =
  sf_name :: string
  sf_type :: "string option"
  sf_required :: bool

record schema_version =
  sv_schema_id :: string
  sv_version :: nat
  sv_fields :: "schema_field list"
  sv_created_at :: string

record registry_data =
  rd_schemas :: "(string \<times> schema_version list) list"
  rd_compatibility :: "(string \<times> string) list"
  rd_default :: string

record registry = registry_data +
  rg_persistent :: bool                     \<comment> \<open>a state path is configured\<close>
  rg_disk :: "registry_data option"

definition persist_state :: "registry \<Rightarrow> registry" where
  "persist_state g = (if rg_persistent g then g\<lparr>rg_disk := Some (registry_data.truncate g)\<rparr> else g)"

text \<open>\<open>field_map\<close>: of two fields with one name the later is kept, at the earlier's position.\<close>

definition field_map :: "schema_field list \<Rightarrow> (string \<times> schema_field) list" where
  "field_map fs = foldl (\<lambda>d f. dict_set d (sf_name f) f) [] fs"

section \<open>Compatibility\<close>

definition type_text :: "string option \<Rightarrow> string" where
  "type_text t = (case t of None \<Rightarrow> ''None'' | Some s \<Rightarrow> s)"

definition reader_error :: "schema_field \<Rightarrow> schema_field option \<Rightarrow> string \<Rightarrow> string list" where
  "reader_error prev new name =
     (case new of
        None \<Rightarrow> (if sf_required prev then [''removed required field '' @ name] else [])
      | Some n \<Rightarrow>
          (if sf_type n \<noteq> sf_type prev then
             [''field '' @ name @ '' type changed from '' @ type_text (sf_type prev) @ '' to '' @ type_text (sf_type n)]
           else if \<not> sf_required prev \<and> sf_required n then [''field '' @ name @ '' became required'']
           else []))"

definition check_compatibility :: "schema_field list \<Rightarrow> schema_field list \<Rightarrow> string \<Rightarrow> string list" where
  "check_compatibility prev new mode =
     (if mode \<in> {''backward'', ''full''}
      then concat (map (\<lambda>(name, f). reader_error f (map_of (field_map new) name) name) (field_map prev)) else [])
   @ (if mode \<in> {''forward'', ''full''}
      then map (\<lambda>(name, f). ''added required field '' @ name)
             (filter (\<lambda>(name, f). \<not> dict_has (field_map prev) name \<and> sf_required f) (field_map new))
      else [])"

section \<open>Operations\<close>

definition set_compatibility :: "registry \<Rightarrow> string \<Rightarrow> string \<Rightarrow> string + registry" where
  "set_compatibility g sid mode =
     (if mode \<notin> set COMPATIBILITY_MODES then Inl (''unknown compatibility mode: '' @ mode)
      else Inr (persist_state (g\<lparr>rd_compatibility := dict_set (rd_compatibility g) sid mode\<rparr>)))"

definition get_compatibility :: "registry \<Rightarrow> string \<Rightarrow> string" where
  "get_compatibility g sid = dict_getd (rd_compatibility g) sid (rd_default g)"

text \<open>The result and the registry afterwards: a raised error may already have changed the mode.\<close>

definition append_version ::
    "string \<Rightarrow> registry \<Rightarrow> string \<Rightarrow> schema_field list \<Rightarrow> bool \<Rightarrow> (string + schema_version) \<times> registry" where
  "append_version now g sid fs enforce =
     (let versions = dict_getd (rd_schemas g) sid [];
          g1 = g\<lparr>rd_schemas := dict_default (rd_schemas g) sid []\<rparr>;
          mode = get_compatibility g1 sid;
          errors = (if versions \<noteq> [] \<and> enforce \<and> mode \<noteq> ''none''
                    then check_compatibility (sv_fields (last versions)) fs mode else [])
      in if errors \<noteq> [] then
           (Inl (''schema '' @ sid @ '' is not '' @ mode @ ''-compatible with the previous version: '' @ join ''; '' errors), g1)
         else
           (let v = \<lparr>sv_schema_id = sid, sv_version = length versions + 1, sv_fields = fs, sv_created_at = now\<rparr>
            in (Inr v, persist_state (g1\<lparr>rd_schemas := dict_set (rd_schemas g1) sid (versions @ [v])\<rparr>))))"

definition register ::
    "string \<Rightarrow> registry \<Rightarrow> string \<Rightarrow> schema_field list \<Rightarrow> string option \<Rightarrow> bool \<Rightarrow> (string + schema_version) \<times> registry" where
  "register now g sid fs mode enforce =
     (case mode of
        None \<Rightarrow> append_version now g sid fs enforce
      | Some m \<Rightarrow>
          (case set_compatibility g sid m of
             Inl e \<Rightarrow> (Inl e, g)
           | Inr g1 \<Rightarrow> append_version now g1 sid fs enforce))"

definition versions_of :: "registry \<Rightarrow> string \<Rightarrow> schema_version list" where
  "versions_of g sid = dict_getd (rd_schemas g) sid []"

definition get_schema :: "registry \<Rightarrow> string \<Rightarrow> nat option \<Rightarrow> schema_version option" where
  "get_schema g sid version =
     (let versions = versions_of g sid in
      if versions = [] then None
      else (case version of
              None \<Rightarrow> Some (last versions)
            | Some n \<Rightarrow> List.find (\<lambda>v. sv_version v = n) versions))"

definition version_to_dict :: "schema_version \<Rightarrow> string \<times> nat \<times> schema_field list \<times> string" where
  "version_to_dict v = (sv_schema_id v, sv_version v, sv_fields v, sv_created_at v)"

definition list_schemas ::
    "registry \<Rightarrow> (string \<times> nat \<times> string \<times> (string \<times> nat \<times> schema_field list \<times> string) list) list" where
  "list_schemas g =
     map (\<lambda>(sid, vs). (sid, if vs = [] then 0 else sv_version (last vs), get_compatibility g sid, map version_to_dict vs))
       (rd_schemas g)"

definition missing_fields :: "schema_field list \<Rightarrow> pydict \<Rightarrow> string list" where
  "missing_fields fs data =
     map (\<lambda>f. ''Missing required field: '' @ sf_name f)
       (filter (\<lambda>f. sf_required f \<and> \<not> dict_has data (sf_name f)) fs)"

definition validate_data :: "registry \<Rightarrow> string \<Rightarrow> pydict \<Rightarrow> nat option \<Rightarrow> bool \<times> string list" where
  "validate_data g sid data version =
     (case get_schema g sid version of
        None \<Rightarrow> (False, [''Schema not found''])
      | Some v \<Rightarrow> (let errors = missing_fields (sv_fields v) data in (errors = [], errors)))"

section \<open>Construction\<close>

definition fld :: "string \<Rightarrow> string \<Rightarrow> bool \<Rightarrow> schema_field" where
  "fld n t r = \<lparr>sf_name = n, sf_type = Some t, sf_required = r\<rparr>"

definition ai_common_fields :: "schema_field list" where
  "ai_common_fields =
     [fld ''event_id'' ''string'' True, fld ''event_type'' ''string'' True, fld ''event_version'' ''int'' True,
      fld ''generated_at'' ''datetime'' True, fld ''provider'' ''string'' True, fld ''model_id'' ''string'' True,
      fld ''model_version'' ''string'' True, fld ''prompt_template_id'' ''string'' True,
      fld ''prompt_version'' ''string'' True, fld ''source_event_ids'' ''array'' True,
      fld ''source_event_count'' ''int'' True, fld ''batch_size'' ''int'' True,
      fld ''severity_counts'' ''object'' False]"

definition ai_event_schemas :: "(string \<times> schema_field list) list" where
  "ai_event_schemas =
     [(''ai_summary_event'', ai_common_fields @ [fld ''summary'' ''string'' True]),
      (''ai_prediction_event'', ai_common_fields @ [fld ''predictions'' ''array'' True, fld ''confidence'' ''float'' False]),
      (''ai_recommendation_event'',
         ai_common_fields @ [fld ''recommendations'' ''array'' True, fld ''confidence'' ''float'' False])]"

definition base_schemas :: "(string \<times> schema_field list) list" where
  "base_schemas =
     [(''industrial_event'',
        [fld ''event_id'' ''string'' True, fld ''source_protocol'' ''string'' True, fld ''asset_id'' ''string'' True,
         fld ''tag'' ''string'' True, fld ''value'' ''float'' True, fld ''quality'' ''string'' True,
         fld ''unit'' ''string'' False, fld ''ts_source'' ''datetime'' True,
         fld ''source_connection_id'' ''string'' False, fld ''source_config_version'' ''int'' False,
         fld ''mapping_version'' ''string'' False, fld ''lineage_id'' ''string'' False]),
      (''processed_event'',
        [fld ''event_id'' ''string'' True, fld ''device_id'' ''string'' True, fld ''asset_id'' ''string'' True,
         fld ''tag'' ''string'' True, fld ''value'' ''float'' True, fld ''anomaly_score'' ''float'' True,
         fld ''severity'' ''string'' True, fld ''window_size'' ''int'' True, fld ''timestamp'' ''datetime'' True]),
      (''benchmark_event'',
        [fld ''event_id'' ''string'' True, fld ''fault_type'' ''string'' False, fld ''scenario_id'' ''string'' False,
         fld ''ground_truth_severity'' ''string'' False, fld ''step'' ''int'' False])]"

definition register_defaults :: "string \<Rightarrow> registry \<Rightarrow> registry" where
  "register_defaults now g =
     foldl (\<lambda>g (sid, fs). snd (register now g sid fs None True)) g (base_schemas @ ai_event_schemas)"

text \<open>\<open>__init__\<close>: the state of an existing file, or the defaults.\<close>

definition open_registry :: "string \<Rightarrow> string \<Rightarrow> bool \<Rightarrow> registry_data option \<Rightarrow> registry" where
  "open_registry now dflt persistent disk =
     (case (persistent, disk) of
        (True, Some d) \<Rightarrow>
          \<lparr>rd_schemas = rd_schemas d, rd_compatibility = rd_compatibility d, rd_default = rd_default d,
           rg_persistent = True, rg_disk = Some d\<rparr>
      | _ \<Rightarrow> persist_state (register_defaults now
               \<lparr>rd_schemas = [], rd_compatibility = [], rd_default = dflt, rg_persistent = persistent, rg_disk = None\<rparr>))"

section \<open>Invariants\<close>

text \<open>The versions of a schema are numbered from 1 in order and carry its id.\<close>

definition numbered :: "string \<Rightarrow> schema_version list \<Rightarrow> bool" where
  "numbered sid vs \<longleftrightarrow> map sv_version vs = [1..<Suc (length vs)] \<and> (\<forall>v \<in> set vs. sv_schema_id v = sid)"

lemma versions_persist [simp]:
  "versions_of (persist_state g) sid = versions_of g sid"
  "get_compatibility (persist_state g) sid = get_compatibility g sid"
  "rd_schemas (persist_state g) = rd_schemas g"
  by (simp_all add: persist_state_def versions_of_def get_compatibility_def)

lemma versions_default: "dict_getd (dict_default d k []) j [] = dict_getd d j []"
  by (auto simp: dict_getd_def dict_default_def split: option.splits)

lemma dict_default_wf: "wf_dict d \<Longrightarrow> wf_dict (dict_default d k v)"
  by (simp add: dict_default_def split: option.split)

lemma append_version_result:
  "append_version now g sid fs enforce = (r, g') \<Longrightarrow>
     (\<forall>j. j \<noteq> sid \<longrightarrow> versions_of g' j = versions_of g j) \<and> rd_compatibility g' = rd_compatibility g
   \<and> rd_default g' = rd_default g
   \<and> (case r of
        Inl _ \<Rightarrow> versions_of g' sid = versions_of g sid
      | Inr v \<Rightarrow> versions_of g' sid = versions_of g sid @ [v] \<and> sv_fields v = fs
           \<and> sv_version v = Suc (length (versions_of g sid)) \<and> sv_schema_id v = sid)"
  by (auto simp: append_version_def Let_def versions_of_def versions_default persist_state_def split: if_splits)

lemma numbered_snoc:
  "numbered sid vs \<Longrightarrow> sv_version v = Suc (length vs) \<Longrightarrow> sv_schema_id v = sid \<Longrightarrow> numbered sid (vs @ [v])"
  by (simp add: numbered_def)

lemma append_version_numbered:
  assumes "\<forall>j. numbered j (versions_of g j)"
  shows "\<forall>j. numbered j (versions_of (snd (append_version now g sid fs enforce)) j)"
proof
  fix j
  obtain r g' where r: "append_version now g sid fs enforce = (r, g')" by fastforce
  note res = append_version_result [OF r]
  show "numbered j (versions_of (snd (append_version now g sid fs enforce)) j)"
  proof (cases "j = sid")
    case True
    with res assms numbered_snoc show ?thesis by (cases r) (auto simp: r)
  next
    case False
    with res assms show ?thesis by (simp add: r)
  qed
qed

lemma register_numbered:
  assumes "\<forall>j. numbered j (versions_of g j)"
  shows "\<forall>j. numbered j (versions_of (snd (register now g sid fs mode enforce)) j)"
proof -
  have "\<forall>j. numbered j (versions_of g1 j)" if "set_compatibility g sid m = Inr g1" for m g1
    using that assms by (auto simp: set_compatibility_def versions_of_def persist_state_def split: if_splits)
  with assms append_version_numbered show ?thesis
    by (auto simp: register_def split: option.split sum.split)
qed

lemma numbered_nth: "numbered sid vs \<Longrightarrow> i < length vs \<Longrightarrow> sv_version (vs ! i) = Suc i"
proof -
  assume n: "numbered sid vs" and i: "i < length vs"
  have "sv_version (vs ! i) = map sv_version vs ! i" using i by simp
  also have "\<dots> = [1..<Suc (length vs)] ! i" using n by (simp add: numbered_def)
  also have "\<dots> = Suc i" using i by (simp del: upt_Suc)
  finally show ?thesis .
qed

lemma get_schema_nth:
  assumes "numbered sid (versions_of g sid)" "i < length (versions_of g sid)"
  shows "get_schema g sid (Some (Suc i)) = Some (versions_of g sid ! i)"
proof -
  have ne: "versions_of g sid \<noteq> []" using assms(2) by auto
  have "List.find (\<lambda>v. sv_version v = Suc i) (versions_of g sid) = Some (versions_of g sid ! i)"
    unfolding find_Some_iff using assms numbered_nth [OF assms(1)] by (intro exI [of _ i]) auto
  with ne show ?thesis by (simp add: get_schema_def)
qed

lemma register_Inr:
  assumes "register now g sid fs mode enforce = (Inr v, g')"
  shows "versions_of g' sid = versions_of g sid @ [v] \<and> sv_version v = Suc (length (versions_of g sid))
    \<and> sv_schema_id v = sid \<and> sv_fields v = fs"
proof -
  obtain g1 where "append_version now g1 sid fs enforce = (Inr v, g')" "versions_of g1 sid = versions_of g sid"
    using assms by (auto simp: register_def set_compatibility_def versions_of_def persist_state_def
        split: option.splits sum.splits if_splits)
  with append_version_result [of now g1 sid fs enforce "Inr v" g'] show ?thesis by simp
qed

section \<open>What the full mode guarantees\<close>

lemma field_map_distinct:
  "distinct (map sf_name fs) \<Longrightarrow> field_map fs = map (\<lambda>f. (sf_name f, f)) fs"
proof -
  have "distinct (map fst d @ map sf_name fs) \<Longrightarrow>
      foldl (\<lambda>d f. dict_set d (sf_name f) f) d fs = d @ map (\<lambda>f. (sf_name f, f)) fs" for d
  proof (induction fs arbitrary: d)
    case (Cons f fs)
    then have "sf_name f \<notin> set (map fst d)" by auto
    then have "dict_set d (sf_name f) f = d @ [(sf_name f, f)]" by (induction d) auto
    with Cons show ?case by simp
  qed simp
  from this [of "[]"] show "distinct (map sf_name fs) \<Longrightarrow> ?thesis" by (simp add: field_map_def)
qed

lemma full_reads_previous:
  assumes "check_compatibility prev new ''full'' = []" "distinct (map sf_name prev)" "distinct (map sf_name new)"
    and "missing_fields prev data = []"
  shows "missing_fields new data = []"
proof -
  have "dict_has data (sf_name f)" if f: "f \<in> set new" "sf_required f" for f
  proof -
    have nf: "map_of (field_map new) (sf_name f) = Some f"
      using f(1) assms(3) by (simp add: field_map_distinct map_of_is_SomeI comp_def)
    have "dict_has (field_map prev) (sf_name f)"
    proof (rule ccontr)
      assume "\<not> dict_has (field_map prev) (sf_name f)"
      then have "(sf_name f, f) \<in> set (filter (\<lambda>(name, f). \<not> dict_has (field_map prev) name \<and> sf_required f) (field_map new))"
        using f assms(3) by (auto simp: field_map_distinct)
      with assms(1) show False by (auto simp: check_compatibility_def filter_empty_conv)
    qed
    then obtain p where p: "p \<in> set prev" "sf_name p = sf_name f"
      using assms(2) by (auto simp: field_map_distinct dict_has_keys)
    have "reader_error p (map_of (field_map new) (sf_name p)) (sf_name p) = []"
      using assms(1,2) p(1) by (auto simp: check_compatibility_def field_map_distinct)
    then have "sf_required p" using nf p(2) f(2) by (auto simp: reader_error_def split: if_splits)
    with assms(4) p show ?thesis by (auto simp: missing_fields_def filter_empty_conv)
  qed
  then show ?thesis by (auto simp: missing_fields_def filter_empty_conv)
qed

definition full_chain :: "schema_version list \<Rightarrow> bool" where
  "full_chain vs \<longleftrightarrow> (\<forall>i. Suc i < length vs \<longrightarrow> check_compatibility (sv_fields (vs ! i)) (sv_fields (vs ! Suc i)) ''full'' = [])
     \<and> (\<forall>v \<in> set vs. distinct (map sf_name (sv_fields v)))"

lemma full_chain_reads:
  assumes "full_chain vs" "i \<le> j" "j < length vs" "missing_fields (sv_fields (vs ! i)) data = []"
  shows "missing_fields (sv_fields (vs ! j)) data = []"
  using assms(2-4)
proof (induction j rule: dec_induct)
  case base
  then show ?case by simp
next
  case (step n)
  then have "missing_fields (sv_fields (vs ! n)) data = []" by simp
  moreover have "vs ! n \<in> set vs" "vs ! Suc n \<in> set vs" using step.prems by auto
  ultimately show ?case
    using assms(1) step.prems full_reads_previous unfolding full_chain_def by blast
qed

text \<open>A sequence of enforced registrations; a refused one changes nothing.\<close>

definition register_all :: "string \<Rightarrow> registry \<Rightarrow> string \<Rightarrow> schema_field list list \<Rightarrow> registry" where
  "register_all now g sid fss = foldl (\<lambda>g fs. snd (register now g sid fs None True)) g fss"

lemma register_full_chain:
  assumes "get_compatibility g sid = ''full''" "full_chain (versions_of g sid)" "distinct (map sf_name fs)"
  shows "get_compatibility (snd (register now g sid fs None True)) sid = ''full''
    \<and> full_chain (versions_of (snd (register now g sid fs None True)) sid)"
proof -
  obtain r g' where r: "append_version now g sid fs True = (r, g')" by fastforce
  note res = append_version_result [OF r]
  have mode: "get_compatibility g' sid = ''full''" using assms(1) res by (simp add: get_compatibility_def)
  have "full_chain (versions_of g' sid)"
  proof (cases r)
    case (Inl e)
    then show ?thesis using res assms(2) by simp
  next
    case (Inr v)
    let ?vs = "versions_of g sid"
    have vs': "versions_of g' sid = ?vs @ [v]" "sv_fields v = fs" using res Inr by auto
    have comp: "check_compatibility (sv_fields (last ?vs)) fs ''full'' = []" if "?vs \<noteq> []"
    proof -
      have "get_compatibility (g\<lparr>rd_schemas := d\<rparr>) sid = ''full''" for d
        using assms(1) by (simp add: get_compatibility_def)
      with r Inr that show ?thesis
        by (auto simp: append_version_def Let_def versions_of_def split: if_splits)
    qed
    have "check_compatibility (sv_fields ((?vs @ [v]) ! i)) (sv_fields ((?vs @ [v]) ! Suc i)) ''full'' = []"
      if "Suc i < length (?vs @ [v])" for i
    proof (cases "Suc i < length ?vs")
      case True
      then show ?thesis using assms(2) by (simp add: full_chain_def nth_append)
    next
      case False
      with that have i: "Suc i = length ?vs" by simp
      then have "?vs \<noteq> []" "i = length ?vs - 1" by auto
      then have "?vs \<noteq> []" "last ?vs = ?vs ! i" by (simp_all add: last_conv_nth)
      with comp i vs'(2) show ?thesis by (simp add: nth_append)
    qed
    then show ?thesis using assms(2,3) vs' by (auto simp: full_chain_def)
  qed
  with mode r show ?thesis by (simp add: register_def)
qed

lemma register_all_full:
  "get_compatibility g sid = ''full'' \<Longrightarrow> full_chain (versions_of g sid) \<Longrightarrow> \<forall>j. numbered j (versions_of g j)
     \<Longrightarrow> \<forall>fs \<in> set fss. distinct (map sf_name fs)
     \<Longrightarrow> full_chain (versions_of (register_all now g sid fss) sid)
       \<and> (\<forall>j. numbered j (versions_of (register_all now g sid fss) j))"
proof (induction fss arbitrary: g)
  case Nil
  then show ?case by (simp add: register_all_def)
next
  case (Cons fs fss)
  have "distinct (map sf_name fs)" using Cons.prems(4) by simp
  from register_full_chain [OF Cons.prems(1,2) this, of now] register_numbered [OF Cons.prems(3), of now sid fs None True]
  show ?case using Cons.IH [of "snd (register now g sid fs None True)"] Cons.prems(4)
    by (simp add: register_all_def)
qed

lemma validate_nth:
  assumes "numbered sid (versions_of g sid)" "i < length (versions_of g sid)"
  shows "validate_data g sid data (Some (Suc i))
    = (missing_fields (sv_fields (versions_of g sid ! i)) data = [], missing_fields (sv_fields (versions_of g sid ! i)) data)"
  using get_schema_nth [OF assms] by (simp add: validate_data_def Let_def)

section \<open>Properties\<close>

text \<open>
  Versions are immutable and numbered: a successful registration gets the next number, is
  found under it and as the latest version, and every earlier version is found unchanged under its
  number.
\<close>

theorem registration_appends:
  assumes "\<forall>j. numbered j (versions_of g j)" "register now g sid fs mode enforce = (Inr v, g')"
  shows "sv_version v = Suc (length (versions_of g sid)) \<and> get_schema g' sid None = Some v
    \<and> get_schema g' sid (Some (sv_version v)) = Some v
    \<and> (\<forall>i < length (versions_of g sid). get_schema g' sid (Some (Suc i)) = get_schema g sid (Some (Suc i)))"
proof -
  have vs: "versions_of g' sid = versions_of g sid @ [v]" "sv_version v = Suc (length (versions_of g sid))"
    using register_Inr [OF assms(2)] by auto
  have n': "numbered sid (versions_of g' sid)"
    using register_numbered [OF assms(1), of now sid fs mode enforce] assms(2) by simp
  have "get_schema g' sid (Some (Suc i)) = Some ((versions_of g sid @ [v]) ! i)"
    if "i < Suc (length (versions_of g sid))" for i
    using get_schema_nth [OF n', of i] that vs(1) by simp
  moreover have "get_schema g sid (Some (Suc i)) = Some (versions_of g sid ! i)"
    if "i < length (versions_of g sid)" for i
    using get_schema_nth assms(1) that by blast
  moreover have "get_schema g' sid None = Some v" using vs(1) by (simp add: get_schema_def Let_def)
  ultimately show ?thesis using vs(2) by (simp add: nth_append)
qed

definition empty_registry :: "string \<Rightarrow> registry" where
  "empty_registry mode = \<lparr>rd_schemas = [], rd_compatibility = [], rd_default = mode, rg_persistent = False, rg_disk = None\<rparr>"

lemma empty_numbered: "\<forall>j. numbered j (versions_of (empty_registry m) j)"
  by (simp add: numbered_def versions_of_def empty_registry_def dict_getd_def)

theorem registration_appends_witness:
  "get_schema (snd (register ''now'' (empty_registry ''full'') ''s'' [fld ''a'' ''int'' True] None True)) ''s'' (Some 1)
     = Some \<lparr>sv_schema_id = ''s'', sv_version = 1, sv_fields = [fld ''a'' ''int'' True], sv_created_at = ''now''\<rparr>"
proof -
  let ?v = "\<lparr>sv_schema_id = ''s'', sv_version = 1, sv_fields = [fld ''a'' ''int'' True], sv_created_at = ''now''\<rparr>"
  obtain g' where g': "register ''now'' (empty_registry ''full'') ''s'' [fld ''a'' ''int'' True] None True = (Inr ?v, g')"
    by (simp add: register_def append_version_def Let_def empty_registry_def dict_getd_def)
  from registration_appends [OF empty_numbered this] show ?thesis by (simp add: g')
qed

text \<open>
  Claim C34. The full mode reads history: when a schema that has no version yet is only registered with
  enforcement under the full mode, and no field list offered repeats a name, data valid under any version is
  valid under every later one, whatever field lists were offered and refused in between. A list that repeats a
  name escapes the check (\<open>repeated_name_accepted\<close>), and neither the route nor the registry refuses it.
\<close>

theorem full_mode_reads_history:
  assumes "get_compatibility g sid = ''full''" "versions_of g sid = []" "\<forall>j. numbered j (versions_of g j)"
    and "\<forall>fs \<in> set fss. distinct (map sf_name fs)"
    and "g' = register_all now g sid fss" "i \<le> j" "j < length (versions_of g' sid)"
    and "fst (validate_data g' sid data (Some (Suc i)))"
  shows "fst (validate_data g' sid data (Some (Suc j)))"
proof -
  have "full_chain (versions_of g sid)" by (simp add: full_chain_def assms(2))
  with register_all_full [OF assms(1) _ assms(3,4), of now]
  have chain: "full_chain (versions_of g' sid)" and n: "numbered sid (versions_of g' sid)"
    using assms(5) by auto
  have "i < length (versions_of g' sid)" using assms(6,7) by simp
  then have "missing_fields (sv_fields (versions_of g' sid ! i)) data = []"
    using assms(8) validate_nth [OF n] by simp
  from full_chain_reads [OF chain assms(6,7) this] show ?thesis using validate_nth [OF n assms(7)] by simp
qed

theorem full_mode_reads_history_witness:
  "fst (validate_data (register_all ''now'' (empty_registry ''full'') ''s''
      [[fld ''a'' ''int'' True], [fld ''b'' ''int'' True], [fld ''a'' ''int'' True, fld ''c'' ''int'' False]])
      ''s'' [(''a'', PInt 1)] (Some 2))"
proof -
  let ?fss = "[[fld ''a'' ''int'' True], [fld ''b'' ''int'' True], [fld ''a'' ''int'' True, fld ''c'' ''int'' False]]"
  define g where "g = register_all ''now'' (empty_registry ''full'') ''s'' ?fss"
  have vs: "map sv_fields (versions_of g ''s'') = [[fld ''a'' ''int'' True], [fld ''a'' ''int'' True, fld ''c'' ''int'' False]]"
    by (simp add: g_def register_all_def register_def append_version_def Let_def empty_registry_def versions_of_def
        dict_getd_def dict_default_def get_compatibility_def check_compatibility_def field_map_def reader_error_def
        fld_def dict_has_def persist_state_def)
  have dis: "\<forall>fs \<in> set ?fss. distinct (map sf_name fs)" by (simp add: fld_def)
  have g0: "get_compatibility (empty_registry ''full'') ''s'' = ''full''" "versions_of (empty_registry ''full'') ''s'' = []"
    by (simp_all add: get_compatibility_def empty_registry_def dict_getd_def versions_of_def)
  have n: "numbered ''s'' (versions_of g ''s'')"
    using register_all_full [OF g0(1) _ empty_numbered dis] g0(2) by (simp add: g_def full_chain_def)
  have len: "length (versions_of g ''s'') = 2" using arg_cong [OF vs, of length] by simp
  have f0: "sv_fields (versions_of g ''s'' ! 0) = [fld ''a'' ''int'' True]"
    using arg_cong [OF vs, of "\<lambda>l. l ! 0"] len by simp
  have "missing_fields [fld ''a'' ''int'' True] [(''a'', PInt 1)] = []"
    by (simp add: missing_fields_def fld_def dict_has_def)
  then have v0: "fst (validate_data g ''s'' [(''a'', PInt 1)] (Some (Suc 0)))"
    using validate_nth [OF n, of 0] len f0 by simp
  have "fst (validate_data g ''s'' [(''a'', PInt 1)] (Some (Suc 1)))"
    by (rule full_mode_reads_history [OF g0 empty_numbered dis g_def _ _ v0]) (simp_all add: len)
  then show ?thesis by (simp add: g_def numeral_2_eq_2)
qed

text \<open>
  The compatibility check keeps the last entry of a repeated name and the validation asks for all of them: a
  required entry hidden behind an optional one passes the full mode and rejects the data of the version before.
\<close>

lemma repeated_name_accepted:
  "check_compatibility [fld ''a'' ''int'' False] [fld ''a'' ''int'' True, fld ''a'' ''int'' False] ''full'' = []
   \<and> missing_fields [fld ''a'' ''int'' False] [] = []
   \<and> missing_fields [fld ''a'' ''int'' True, fld ''a'' ''int'' False] [] \<noteq> []"
  by (simp add: check_compatibility_def field_map_def reader_error_def missing_fields_def fld_def dict_has_def)

text \<open>
  The one-sided modes do not deliver what they promise: the backward mode accepts a version
  that rejects data of the previous one (an added required field), the forward mode accepts a
  version whose data the previous one rejects (a removed required field), and the backward mode
  refuses a widening of a type.
\<close>

theorem one_sided_modes_unsound:
  "(\<exists>prev new data. check_compatibility prev new ''backward'' = []
      \<and> missing_fields prev data = [] \<and> missing_fields new data \<noteq> [])
   \<and> (\<exists>prev new data. check_compatibility prev new ''forward'' = []
      \<and> missing_fields new data = [] \<and> missing_fields prev data \<noteq> [])
   \<and> check_compatibility [fld ''v'' ''int'' False] [fld ''v'' ''float'' False] ''backward'' \<noteq> []"
proof (intro conjI)
  show "\<exists>prev new data. check_compatibility prev new ''backward'' = []
      \<and> missing_fields prev data = [] \<and> missing_fields new data \<noteq> []"
    by (rule exI [of _ "[]"], rule exI [of _ "[fld ''a'' ''int'' True]"], rule exI [of _ "[]"])
      (simp add: check_compatibility_def field_map_def missing_fields_def fld_def)
  show "\<exists>prev new data. check_compatibility prev new ''forward'' = []
      \<and> missing_fields new data = [] \<and> missing_fields prev data \<noteq> []"
    by (rule exI [of _ "[fld ''a'' ''int'' True]"], rule exI [of _ "[]"], rule exI [of _ "[]"])
      (simp add: check_compatibility_def field_map_def missing_fields_def fld_def)
  show "check_compatibility [fld ''v'' ''int'' False] [fld ''v'' ''float'' False] ''backward'' \<noteq> []"
    by (simp add: check_compatibility_def field_map_def reader_error_def fld_def)
qed

end
