(* ===== verification/Connection_Registry.thy ===== *)
theory Connection_Registry
  imports Py_Prelude "HOL-Library.Multiset"
begin

text \<open>
  The registry of source connections (\<open>services/common/connection_registry.py\<close>): draft and activation
  validation, and the operations of the file-backed registry. A connection is a record with the
  fields of the dataclass, its configuration a JSON object. The file is the list of connections last
  exported; building the export computes the activation errors of every connection, and \<open>None\<close>
  there is the \<open>AttributeError\<close> of a configuration of an unexpected shape.
\<close>

section \<open>Tables\<close>

definition SUPPORTED_PROTOCOLS :: "string list" where
  "SUPPORTED_PROTOCOLS = [''opcua'', ''mqtt'', ''modbus'', ''modbus_rtu'', ''sparkplug_b'', ''rest'', ''http_push'',
     ''file'', ''dataset'', ''mock'']"

definition RUNTIME_PROTOCOLS :: "string list" where
  "RUNTIME_PROTOCOLS = [''opcua'', ''mqtt'', ''modbus'', ''modbus_rtu'', ''sparkplug_b'', ''rest'', ''http_push'']"

definition METADATA_ONLY_PROTOCOLS :: "string list" where
  "METADATA_ONLY_PROTOCOLS = [''file'', ''dataset'', ''mock'']"

definition CONNECTION_STATES :: "string list" where
  "CONNECTION_STATES = [''draft'', ''disabled'', ''configured'', ''validated'', ''enabled'', ''error'', ''retired'']"

definition PROTOCOL_CAPABILITIES :: "(string \<times> string list) list" where
  "PROTOCOL_CAPABILITIES =
     [(''opcua'', [''browse'', ''read'', ''subscribe'', ''credentials'', ''reconnect'']),
      (''mqtt'', [''subscribe'', ''qos'', ''retained_messages'', ''credentials'', ''reconnect'']),
      (''sparkplug_b'', [''subscribe'', ''birth_death'', ''metrics'', ''credentials'', ''reconnect'']),
      (''modbus'', [''read_holding_registers'', ''scaling'', ''byte_word_order'', ''reconnect'']),
      (''modbus_rtu'', [''serial_read'', ''scaling'', ''byte_word_order'', ''reconnect'']),
      (''rest'', [''poll'', ''json_mapping'', ''pagination'', ''conditional_requests'', ''retries'']),
      (''http_push'', [''push'', ''batch'', ''idempotency'', ''canonical_ingest'']),
      (''file'', [''metadata_reference'']), (''dataset'', [''metadata_reference'']), (''mock'', [''metadata_reference''])]"

definition MODBUS_DATA_TYPES :: "string list" where
  "MODBUS_DATA_TYPES = [''uint16'', ''int16'', ''bool'', ''uint32'', ''int32'', ''float32'', ''uint64'', ''int64'', ''float64'']"

definition MODBUS_BYTE_ORDERS :: "string list" where "MODBUS_BYTE_ORDERS = [''big'', ''little'']"

definition MODBUS_WORD_ORDERS :: "string list" where "MODBUS_WORD_ORDERS = [''big'', ''little'']"

definition OPCUA_SECURITY_MODES :: "string list" where
  "OPCUA_SECURITY_MODES = [''None'', ''Sign'', ''SignAndEncrypt'']"

text \<open>\<open>f"{sorted(names)}"\<close> of a set of names.\<close>

definition sorted_names :: "string list \<Rightarrow> string" where
  "sorted_names xs = ''['' @ join '', '' (map (\<lambda>s. CHR 0x27 # s @ [CHR 0x27]) (sort xs)) @ '']''"

section \<open>Secrets and references\<close>

text \<open>The pattern for secret keys, searched without regard to case.\<close>

definition secret_key :: "string \<Rightarrow> bool" where
  "secret_key k = list_ex (contains (py_lower k))
     [''password'', ''passwd'', ''token'', ''secret'', ''private_key'', ''private-key'', ''privatekey'',
      ''api_key'', ''api-key'', ''apikey'']"

definition reference_key :: "string \<Rightarrow> bool" where
  "reference_key k = (ends_with k ''_ref'' \<or> ends_with k ''_refs'' \<or> k \<in> {''credential_ref'', ''credential_refs''})"

text \<open>The first offence, as the exception's message.\<close>

fun reject_value :: "pyval \<Rightarrow> string \<Rightarrow> string option"
  and reject_fields :: "pydict \<Rightarrow> string \<Rightarrow> string option"
  and reject_items :: "pyval list \<Rightarrow> nat \<Rightarrow> string \<Rightarrow> string option" where
  "reject_value (PDict d) path = reject_fields d path"
| "reject_value (PList vs) path = reject_items vs 0 path"
| "reject_value PNone path = None"
| "reject_value (PBool b) path = None"
| "reject_value (PInt i) path = None"
| "reject_value (PFloat r) path = None"
| "reject_value (PStr s) path = None"
| "reject_fields [] path = None"
| "reject_fields ((k, v) # d) path =
     (if secret_key k \<and> \<not> reference_key k then
        Some (path @ ''.'' @ k @ '' must be a credential reference, not secret material'')
      else (case reject_value v (path @ ''.'' @ k) of Some e \<Rightarrow> Some e | None \<Rightarrow> reject_fields d path))"
| "reject_items [] n path = None"
| "reject_items (v # vs) n path =
     (case reject_value v (path @ ''['' @ nat_str n @ '']'') of Some e \<Rightarrow> Some e | None \<Rightarrow> reject_items vs (Suc n) path)"

definition reference_scheme :: "string \<Rightarrow> bool" where
  "reference_scheme s = list_ex (starts_with s) [''env://'', ''file://'', ''path://'', ''secret://'']"

definition validate_reference :: "pyrt \<Rightarrow> pyval \<Rightarrow> string \<Rightarrow> string list" where
  "validate_reference R v path =
     (if py_strip (py_str R (py_or v (PStr []))) = [] then [path @ '' must be a non-empty credential reference'']
      else if \<not> reference_scheme (py_str R v) then [path @ '' must use env://, file://, path://, or secret://'']
      else [])"

definition required_refs :: "string \<Rightarrow> string list" where
  "required_refs t =
     (if t = ''basic'' then [''username_ref'', ''password_ref''] else if t = ''bearer'' then [''token_ref'']
      else if t = ''api_key'' then [''key_ref'']
      else if t = ''oauth2_client_credentials'' then [''client_id_ref'', ''client_secret_ref'']
      else if t = ''mtls'' then [''client_cert_ref'', ''client_key_ref''] else [])"

definition validate_config_references :: "pyrt \<Rightarrow> pydict \<Rightarrow> string list" where
  "validate_config_references R config =
     (case dict_getd config ''auth'' (PDict []) of
        PDict auth \<Rightarrow>
          (let t = py_lower (py_str R (dict_getd auth ''type'' (PStr ''none''))) in
           if t \<notin> {''none'', ''basic'', ''bearer'', ''api_key'', ''oauth2_client_credentials'', ''mtls''}
           then [''config.auth.type is unsupported'']
           else concat (map (\<lambda>k. validate_reference R (pget auth k) (''config.auth.'' @ k)) (required_refs t))
              @ (let url = py_str R (dict_getd auth ''token_url'' (PStr [])) in
                 if t = ''oauth2_client_credentials'' \<and> \<not> starts_with url ''http://'' \<and> \<not> starts_with url ''https://''
                 then [''config.auth.token_url is required for OAuth2 client credentials''] else []))
      | _ \<Rightarrow> [''config.auth must be an object''])"

section \<open>Connections\<close>

record source_mapping =
  mp_source_field :: string
  mp_asset_id :: string
  mp_tag :: string
  mp_site_id :: string
  mp_line :: string
  mp_unit :: string
  mp_scale :: rat
  mp_offset :: rat
  mp_quality_field :: string
  mp_timestamp_field :: string
  mp_value_kind :: string

record source_connection =
  cn_id :: string
  cn_name :: string
  cn_protocol :: string
  cn_site_id :: string
  cn_endpoint :: string
  cn_source_id :: string
  cn_credential_ref :: string
  cn_credential_refs :: "(string \<times> string) list"
  cn_config :: pydict
  cn_mappings :: "source_mapping list"
  cn_enabled :: bool
  cn_state :: string
  cn_config_version :: int
  cn_last_error :: string
  cn_last_success_at :: "string option"
  cn_retired_at :: "string option"
  cn_retired_reason :: string
  cn_created_at :: string
  cn_updated_at :: string

definition err :: "bool \<Rightarrow> string \<Rightarrow> string list" where
  "err b m = (if b then [m] else [])"

definition blank :: "string \<Rightarrow> bool" where
  "blank s = (py_strip s = [])"

definition credential_errors :: "(string \<times> string) list \<Rightarrow> string list" where
  "credential_errors refs = concat (map (\<lambda>(k, r).
     err (blank k) ''credential_refs keys must not be empty''
     @ (if blank r then [''credential_refs.'' @ k @ '' must be a non-empty reference'']
        else err (\<not> reference_scheme r) (''credential_refs.'' @ k @ '' must use env://, file://, path://, or secret://''))) refs)"

definition mapping_errors :: "source_mapping list \<Rightarrow> string list" where
  "mapping_errors ms = concat (map (\<lambda>(i, m).
     err (blank (mp_source_field m)) (''mappings['' @ nat_str i @ ''].source_field is required'')
     @ err (blank (mp_asset_id m)) (''mappings['' @ nat_str i @ ''].asset_id is required'')
     @ err (blank (mp_tag m)) (''mappings['' @ nat_str i @ ''].tag is required'')) (enumerate 0 ms))"

definition state_errors :: "bool \<Rightarrow> string \<Rightarrow> string list" where
  "state_errors enabled state =
     err (state \<notin> set CONNECTION_STATES) (''state must be one of '' @ sorted_names CONNECTION_STATES)
     @ err (enabled \<and> state \<noteq> ''enabled'') ''enabled connections must have enabled state''
     @ err (state = ''enabled'' \<and> \<not> enabled) ''state enabled requires enabled=true''
     @ err (state = ''retired'' \<and> enabled) ''retired connections cannot be enabled''"

definition identity_errors :: "source_connection \<Rightarrow> string list" where
  "identity_errors c =
     err (blank (cn_id c)) ''connection_id is required'' @ err (blank (cn_name c)) ''name is required''
     @ err (cn_protocol c \<notin> set SUPPORTED_PROTOCOLS) (''source_protocol must be one of '' @ sorted_names SUPPORTED_PROTOCOLS)
     @ err (blank (cn_site_id c)) ''site_id is required''"

definition content_errors :: "source_connection \<Rightarrow> string list" where
  "content_errors c =
     (case reject_value (PDict (cn_config c)) ''config'' of None \<Rightarrow> [] | Some e \<Rightarrow> [e])
     @ credential_errors (cn_credential_refs c) @ mapping_errors (cn_mappings c)"

definition validate_draft :: "source_connection \<Rightarrow> string list" where
  "validate_draft c = identity_errors c @ state_errors (cn_enabled c) (cn_state c) @ content_errors c"

section \<open>Activation\<close>

definition cfg_text :: "pyrt \<Rightarrow> source_connection \<Rightarrow> string \<Rightarrow> string \<Rightarrow> string" where
  "cfg_text R c k dflt = py_str R (dict_getd (cn_config c) k (PStr dflt))"

definition register_errors :: "pyrt \<Rightarrow> string \<Rightarrow> nat \<Rightarrow> pyval \<Rightarrow> string list" where
  "register_errors R protocol i v =
     (case v of
        PDict r \<Rightarrow>
          (let text = (\<lambda>k dflt. py_lower (py_str R (dict_getd r k (PStr dflt))));
               pre = ''Modbus registers['' @ nat_str i @ '']''
           in err (text ''data_type'' ''uint16'' \<notin> set MODBUS_DATA_TYPES) (pre @ ''.data_type must be one of '' @ sorted_names MODBUS_DATA_TYPES)
              @ err (text ''byte_order'' ''big'' \<notin> set MODBUS_BYTE_ORDERS) (pre @ ''.byte_order must be big or little'')
              @ err (text ''word_order'' ''big'' \<notin> set MODBUS_WORD_ORDERS) (pre @ ''.word_order must be big or little''))
      | PStr s \<Rightarrow> err (\<not> (protocol = ''modbus_rtu'' \<and> CHR '':'' \<in> set s))
                     (protocol @ '' config.registers['' @ nat_str i @ ''] must be an object'')
      | _ \<Rightarrow> [protocol @ '' config.registers['' @ nat_str i @ ''] must be an object''])"

definition modbus_errors :: "pyrt \<Rightarrow> source_connection \<Rightarrow> string list" where
  "modbus_errors R c =
     (case pget (cn_config c) ''registers'' of
        PList (v # vs) \<Rightarrow> concat (map (\<lambda>(i, v). register_errors R (cn_protocol c) i v) (enumerate 0 (v # vs)))
      | _ \<Rightarrow> [cn_protocol c @ '' requires an explicit config.registers map; demo registers are not used for registry sources''])"

definition modbus_rtu_errors :: "pyrt \<Rightarrow> source_connection \<Rightarrow> string list" where
  "modbus_rtu_errors R c =
     err (blank (cfg_text R c ''port'' [])) ''Modbus RTU requires config.port''
     @ err (\<not> truthy (pget (cn_config c) ''registers'')) ''Modbus RTU requires an explicit config.registers map''"

definition interval_errors :: "pyrt \<Rightarrow> pyval \<Rightarrow> string list" where
  "interval_errors R v =
     (case py_float R v of
        None \<Rightarrow> [''REST poll_interval_seconds must be numeric'']
      | Some x \<Rightarrow> err (\<not> (1 \<le> x \<and> x \<le> 86400)) ''REST poll_interval_seconds must be between 1 and 86400'')"

text \<open>\<open>field_paths\<close> that is no object has no \<open>get\<close>.\<close>

definition field_path_errors :: "pyrt \<Rightarrow> pydict \<Rightarrow> string list option" where
  "field_path_errors R config =
     (case (case dict_getd config ''response'' (PDict []) of
              PDict r \<Rightarrow> dict_getd r ''field_paths'' (PDict []) | _ \<Rightarrow> PDict []) of
        PDict fp \<Rightarrow> Some (concat (map (\<lambda>f. err (blank (py_str R (dict_getd fp f (PStr []))))
                       (''REST response.field_paths.'' @ f @ '' is required'')) [''value'', ''asset_id'', ''tag'']))
      | _ \<Rightarrow> None)"

definition rest_errors :: "pyrt \<Rightarrow> source_connection \<Rightarrow> string list option" where
  "rest_errors R c =
     (let url = py_strip (py_str R (py_or (pget (cn_config c) ''url'') (PStr (cn_endpoint c))));
          head = err (\<not> starts_with url ''http://'' \<and> \<not> starts_with url ''https://'')
                   ''REST requires an http:// or https:// endpoint''
             @ err (py_upper (cfg_text R c ''method'' ''GET'') \<notin> {''GET'', ''POST''}) ''REST config.method must be GET or POST''
             @ interval_errors R (dict_getd (cn_config c) ''poll_interval_seconds'' (PInt 60))
      in map_option (\<lambda>es. head @ es) (field_path_errors R (cn_config c)))"

definition opcua_node_errors :: "source_connection \<Rightarrow> string list" where
  "opcua_node_errors c =
     err (\<not> truthy (pget (cn_config c) ''nodes'') \<and> cn_mappings c = [])
       ''OPC UA requires config.nodes or at least one mapping after discovery''"

definition opcua_security_errors :: "pyrt \<Rightarrow> source_connection \<Rightarrow> string list" where
  "opcua_security_errors R c =
     (let security = (case dict_getd (cn_config c) ''security'' (PDict []) of PDict d \<Rightarrow> d | _ \<Rightarrow> []);
          mode = py_str R (dict_getd security ''mode'' (PStr ''None''));
          nodes = dict_getd (cn_config c) ''browse_nodes'' (PList [])
      in err (mode \<notin> set OPCUA_SECURITY_MODES) (''OPC UA security.mode must be one of '' @ sorted_names OPCUA_SECURITY_MODES)
         @ err (mode \<noteq> ''None'' \<and> blank (py_str R (dict_getd security ''policy'' (PStr []))))
             ''OPC UA security.policy is required when security.mode is not None''
         @ err (truthy nodes \<and> (case nodes of PList _ \<Rightarrow> False | _ \<Rightarrow> True)) ''OPC UA config.browse_nodes must be a list'')"

definition rebirth_errors :: "pyrt \<Rightarrow> source_connection \<Rightarrow> string list" where
  "rebirth_errors R c =
     (if truthy (dict_getd (cn_config c) ''request_rebirth_on_connect'' (PBool False)) then
        err (blank (cfg_text R c ''group_id'' [])) ''Sparkplug rebirth requires config.group_id''
        @ err (blank (cfg_text R c ''edge_node_id'' [])) ''Sparkplug rebirth requires config.edge_node_id''
      else [])"

definition protocol_errors :: "pyrt \<Rightarrow> source_connection \<Rightarrow> string list option" where
  "protocol_errors R c =
     (let p = cn_protocol c;
          front = err (p \<in> {''opcua'', ''mqtt'', ''sparkplug_b'', ''modbus'', ''rest''} \<and> blank (cn_endpoint c))
                    ''endpoint is required for this protocol''
            @ (if p = ''opcua'' then opcua_node_errors c else [])
            @ (if p \<in> {''mqtt'', ''sparkplug_b''}
               then err (blank (cfg_text R c ''topic'' [])) ''MQTT requires config.topic before activation'' else [])
            @ (if p = ''sparkplug_b'' then rebirth_errors R c else [])
            @ (if p \<in> {''modbus'', ''modbus_rtu''} then modbus_errors R c else [])
            @ (if p = ''modbus_rtu'' then modbus_rtu_errors R c else []);
          back = (if p \<in> {''rest'', ''http_push''} then validate_config_references R (cn_config c) else [])
            @ (if p = ''opcua'' then opcua_security_errors R c else [])
      in map_option (\<lambda>es. front @ es @ back) (if p = ''rest'' then rest_errors R c else Some []))"

definition activation_errors :: "pyrt \<Rightarrow> source_connection \<Rightarrow> string list option" where
  "activation_errors R c = (if validate_draft c \<noteq> [] then Some (validate_draft c) else protocol_errors R c)"

definition capabilities :: "source_connection \<Rightarrow> string list" where
  "capabilities c = dict_getd PROTOCOL_CAPABILITIES (cn_protocol c) []"

definition runtime_supported :: "source_connection \<Rightarrow> bool" where
  "runtime_supported c = (cn_protocol c \<in> set RUNTIME_PROTOCOLS \<and> cn_state c \<noteq> ''retired'')"

definition runtime_note :: "source_connection \<Rightarrow> string" where
  "runtime_note c =
     (if cn_state c = ''retired'' then ''retired; preserved for audit and replacement history''
      else if runtime_supported c then ''runtime-capable''
      else if cn_protocol c \<in> set METADATA_ONLY_PROTOCOLS
      then ''metadata-only; configure it through the relevant dataset or integration workflow''
      else ''unknown protocol'')"

section \<open>The registry\<close>

record conn_registry =
  cr_connections :: "(string \<times> source_connection) list"
  cr_disk :: "source_connection list option"

datatype conn_error = Missing string | Invalid "string list" | AttributeError

type_synonym 'a conn_result = "(conn_error + 'a) \<times> conn_registry"

definition list_connections ::
    "conn_registry \<Rightarrow> string option \<Rightarrow> bool option \<Rightarrow> bool \<Rightarrow> source_connection list" where
  "list_connections g site enabled include_retired =
     sort_key cn_id (filter (\<lambda>c. (include_retired \<or> cn_state c \<noteq> ''retired'')
        \<and> (case site of None \<Rightarrow> True | Some s \<Rightarrow> s = [] \<or> cn_site_id c = s)
        \<and> (case enabled of None \<Rightarrow> True | Some b \<Rightarrow> cn_enabled c = b)) (map snd (cr_connections g)))"

definition get_connection :: "conn_registry \<Rightarrow> string \<Rightarrow> source_connection option" where
  "get_connection g i = map_of (cr_connections g) i"

text \<open>\<open>export\<close> serialises every connection with its activation errors; then the file is replaced.\<close>

definition persist :: "pyrt \<Rightarrow> 'a \<Rightarrow> conn_registry \<Rightarrow> 'a conn_result" where
  "persist R x g =
     (let cs = list_connections g None None True in
      if list_ex (\<lambda>c. activation_errors R c = None) cs then (Inl AttributeError, g)
      else (Inr x, g\<lparr>cr_disk := Some cs\<rparr>))"

definition store_connection :: "pyrt \<Rightarrow> source_connection \<Rightarrow> conn_registry \<Rightarrow> source_connection conn_result" where
  "store_connection R c g = persist R c (g\<lparr>cr_connections := dict_set (cr_connections g) (cn_id c) c\<rparr>)"

text \<open>The errors that refuse a definition; \<open>None\<close>: the check raises.\<close>

definition definition_errors :: "pyrt \<Rightarrow> source_connection \<Rightarrow> string list option" where
  "definition_errors R c =
     (if cn_enabled c \<or> cn_state c = ''enabled''
      then map_option (\<lambda>es. validate_draft c @ es) (activation_errors R c) else Some (validate_draft c))"

definition merge_existing :: "string \<Rightarrow> source_connection \<Rightarrow> source_connection \<Rightarrow> source_connection" where
  "merge_existing now old c =
     (let c1 = c\<lparr>cn_config_version := cn_config_version old + 1, cn_updated_at := now,
                 cn_created_at := cn_created_at old, cn_last_error := cn_last_error old,
                 cn_last_success_at := cn_last_success_at old, cn_retired_reason := cn_retired_reason old\<rparr>
      in if cn_state old = ''retired'' then
           c1\<lparr>cn_state := ''retired'', cn_enabled := False,
              cn_retired_at := (case cn_retired_at old of Some (x # xs) \<Rightarrow> Some (x # xs) | _ \<Rightarrow> Some now)\<rparr>
         else c1\<lparr>cn_enabled := cn_enabled old, cn_state := cn_state old, cn_retired_at := cn_retired_at old\<rparr>)"

definition put :: "pyrt \<Rightarrow> string \<Rightarrow> source_connection \<Rightarrow> conn_registry \<Rightarrow> source_connection conn_result" where
  "put R now c g =
     (case definition_errors R c of
        None \<Rightarrow> (Inl AttributeError, g)
      | Some (e # es) \<Rightarrow> (Inl (Invalid (e # es)), g)
      | Some [] \<Rightarrow>
          store_connection R
            (case get_connection g (cn_id c) of
               None \<Rightarrow> c\<lparr>cn_updated_at := now\<rparr> | Some old \<Rightarrow> merge_existing now old c) g)"

definition retire :: "pyrt \<Rightarrow> string \<Rightarrow> string \<Rightarrow> string \<Rightarrow> conn_registry \<Rightarrow> source_connection conn_result" where
  "retire R now i reason g =
     (case get_connection g i of
        None \<Rightarrow> (Inl (Missing i), g)
      | Some c \<Rightarrow>
          store_connection R (c\<lparr>cn_enabled := False, cn_state := ''retired'', cn_retired_at := Some now,
                               cn_retired_reason := reason, cn_updated_at := now\<rparr>) g)"

definition restore :: "pyrt \<Rightarrow> string \<Rightarrow> string \<Rightarrow> conn_registry \<Rightarrow> source_connection conn_result" where
  "restore R now i g =
     (case get_connection g i of
        None \<Rightarrow> (Inl (Missing i), g)
      | Some c \<Rightarrow>
          store_connection R (c\<lparr>cn_state := ''configured'', cn_enabled := False, cn_retired_at := None,
                               cn_retired_reason := [], cn_updated_at := now\<rparr>) g)"

definition delete_connection :: "pyrt \<Rightarrow> string \<Rightarrow> string \<Rightarrow> conn_registry \<Rightarrow> bool conn_result" where
  "delete_connection R now i g =
     (if \<not> dict_has (cr_connections g) i then (Inr False, g)
      else (case retire R now i ''retired by operator'' g of
              (Inl e, h) \<Rightarrow> (Inl e, h) | (Inr _, h) \<Rightarrow> (Inr True, h)))"

definition set_enabled :: "pyrt \<Rightarrow> string \<Rightarrow> string \<Rightarrow> bool \<Rightarrow> conn_registry \<Rightarrow> source_connection conn_result" where
  "set_enabled R now i b g =
     (case get_connection g i of
        None \<Rightarrow> (Inl (Missing i), g)
      | Some c \<Rightarrow>
          (if cn_state c = ''retired'' then
             (Inl (Invalid [''retired connections must be restored before they can be enabled'']), g)
           else (case (if b then activation_errors R c else Some []) of
                   None \<Rightarrow> (Inl AttributeError, g)
                 | Some (e # es) \<Rightarrow> (Inl (Invalid (e # es)), g)
                 | Some [] \<Rightarrow>
                     store_connection R (c\<lparr>cn_enabled := b, cn_state := (if b then ''enabled'' else ''disabled''),
                                          cn_updated_at := now\<rparr>) g)))"

definition save_opcua_browse_selection ::
    "pyrt \<Rightarrow> string \<Rightarrow> string \<Rightarrow> string list \<Rightarrow> conn_registry \<Rightarrow> source_connection conn_result" where
  "save_opcua_browse_selection R now i node_ids g =
     (case get_connection g i of
        None \<Rightarrow> (Inl (Missing i), g)
      | Some c \<Rightarrow>
          (if cn_protocol c \<noteq> ''opcua'' then
             (Inl (Invalid [''browse selections are supported only for OPC UA connections'']), g)
           else
             (let selected = fromkeys (map py_strip (filter (\<lambda>n. \<not> blank n) node_ids));
                  nodes = PList (map PStr selected)
              in if selected = [] then (Inl (Invalid [''at least one OPC UA node ID is required'']), g)
                 else if 500 < length selected
                 then (Inl (Invalid [''at most 500 OPC UA browse selections may be saved'']), g)
                 else put R now (c\<lparr>cn_config := dict_set (dict_set (cn_config c) ''nodes'' nodes) ''browse_nodes'' nodes\<rparr>) g)))"

text \<open>\<open>__init__\<close>: every stored connection is built and checked again; \<open>None\<close>: the construction raises.\<close>

definition load_registry :: "pyrt \<Rightarrow> source_connection list option \<Rightarrow> conn_registry option" where
  "load_registry R disk =
     (case disk of
        None \<Rightarrow> Some \<lparr>cr_connections = [], cr_disk = None\<rparr>
      | Some cs \<Rightarrow>
          (if list_all (\<lambda>c. definition_errors R c = Some []) cs
           then Some \<lparr>cr_connections = foldl (\<lambda>d c. dict_set d (cn_id c) c) [] cs, cr_disk = disk\<rparr>
           else None))"

text \<open>The operations as the routes call them, each at the time of its call.\<close>

datatype conn_op =
    Put source_connection
  | Retire string string
  | Restore string
  | Delete string
  | SetEnabled string bool
  | Browse string "string list"

fun run_op :: "pyrt \<Rightarrow> string \<Rightarrow> conn_op \<Rightarrow> conn_registry \<Rightarrow> conn_registry" where
  "run_op R now (Put c) g = snd (put R now c g)"
| "run_op R now (Retire i reason) g = snd (retire R now i reason g)"
| "run_op R now (Restore i) g = snd (restore R now i g)"
| "run_op R now (Delete i) g = snd (delete_connection R now i g)"
| "run_op R now (SetEnabled i b) g = snd (set_enabled R now i b g)"
| "run_op R now (Browse i ns) g = snd (save_opcua_browse_selection R now i ns g)"

fun run_ops :: "pyrt \<Rightarrow> (string \<times> conn_op) list \<Rightarrow> conn_registry \<Rightarrow> conn_registry" where
  "run_ops R [] g = g"
| "run_ops R ((now, q) # qs) g = run_ops R qs (run_op R now q g)"

section \<open>Lemmas\<close>

lemma err_Nil: "err b m = [] \<longleftrightarrow> \<not> b"
  by (simp add: err_def)

named_theorems conn_simps \<open>what an update of the stored fields leaves alone\<close>

lemma persist_cases:
  obtains "persist R x g = (Inl AttributeError, g)"
  | "persist R x g = (Inr x, g\<lparr>cr_disk := Some (list_connections g None None True)\<rparr>)"
  by (cases "list_ex (\<lambda>c. activation_errors R c = None) (list_connections g None None True)")
     (simp_all add: persist_def Let_def)

lemma store_conns [conn_simps]:
  "cr_connections (snd (store_connection R c g)) = dict_set (cr_connections g) (cn_id c) c"
  by (rule persist_cases [of R c "g\<lparr>cr_connections := dict_set (cr_connections g) (cn_id c) c\<rparr>"])
     (simp_all add: store_connection_def)

text \<open>Only the flag and the state of a connection enter its state errors.\<close>

lemma validate_draft_split:
  "validate_draft c = [] \<longleftrightarrow> identity_errors c = [] \<and> state_errors (cn_enabled c) (cn_state c) = [] \<and> content_errors c = []"
  by (simp add: validate_draft_def)

definition same_definition :: "source_connection \<Rightarrow> source_connection \<Rightarrow> bool" where
  "same_definition c d = (cn_id c = cn_id d \<and> cn_name c = cn_name d \<and> cn_protocol c = cn_protocol d
     \<and> cn_site_id c = cn_site_id d \<and> cn_endpoint c = cn_endpoint d \<and> cn_credential_refs c = cn_credential_refs d
     \<and> cn_config c = cn_config d \<and> cn_mappings c = cn_mappings d)"

lemma same_definitionD:
  assumes "same_definition c d"
  shows "identity_errors c = identity_errors d" "content_errors c = content_errors d"
    "protocol_errors R c = protocol_errors R d"
proof -
  have e: "cn_id c = cn_id d" "cn_name c = cn_name d" "cn_protocol c = cn_protocol d" "cn_site_id c = cn_site_id d"
    "cn_endpoint c = cn_endpoint d" "cn_credential_refs c = cn_credential_refs d" "cn_config c = cn_config d"
    "cn_mappings c = cn_mappings d"
    using assms by (simp_all add: same_definition_def)
  show "identity_errors c = identity_errors d" unfolding identity_errors_def e by (rule refl)
  show "content_errors c = content_errors d" unfolding content_errors_def e by (rule refl)
  show "protocol_errors R c = protocol_errors R d"
    unfolding protocol_errors_def rest_errors_def cfg_text_def modbus_errors_def modbus_rtu_errors_def
      opcua_node_errors_def opcua_security_errors_def rebirth_errors_def e by (rule refl)
qed

lemma same_validate:
  assumes "same_definition c d" "validate_draft d = []" "state_errors (cn_enabled c) (cn_state c) = []"
  shows "validate_draft c = []"
  using assms same_definitionD [OF assms(1)] by (simp add: validate_draft_split)

lemma merge_definition [conn_simps]: "same_definition (merge_existing now old c) c"
  by (simp add: merge_existing_def same_definition_def Let_def)

lemma merge_state [conn_simps]:
  "cn_state (merge_existing now old c) = cn_state old"
  "cn_enabled (merge_existing now old c) = (cn_enabled old \<and> cn_state old \<noteq> ''retired'')"
  "cn_config_version (merge_existing now old c) = cn_config_version old + 1"
  by (simp_all add: merge_existing_def Let_def)

lemma state_errors_off:
  "state_errors False ''retired'' = []" "state_errors False ''configured'' = []" "state_errors False ''disabled'' = []"
  "state_errors True ''enabled'' = []"
  by (simp_all add: state_errors_def err_def CONNECTION_STATES_def)

lemma definition_errors_draft: "definition_errors R c = Some [] \<Longrightarrow> validate_draft c = []"
  by (auto simp: definition_errors_def split: if_splits)

text \<open>Every operation either leaves the connections alone or stores one that is a valid draft.\<close>

definition registry_ok :: "conn_registry \<Rightarrow> bool" where
  "registry_ok g = (wf_dict (cr_connections g)
     \<and> (\<forall>i c. get_connection g i = Some c \<longrightarrow> cn_id c = i \<and> validate_draft c = []))"

fun puts :: "string \<Rightarrow> conn_op \<Rightarrow> bool" where
  "puts i (Put c) = (cn_id c = i)"
| "puts i _ = False"

definition allowed_update :: "conn_registry \<Rightarrow> conn_op \<Rightarrow> source_connection \<Rightarrow> bool" where
  "allowed_update g q c = (validate_draft c = []
     \<and> (\<forall>old. get_connection g (cn_id c) = Some old \<longrightarrow>
          (cn_state old = ''retired'' \<longrightarrow> q = Restore (cn_id c) \<or> cn_state c = ''retired'')
          \<and> (cn_protocol old = ''rest'' \<longrightarrow> puts (cn_id c) q \<or> same_definition c old)))"

lemma registry_ok_store:
  assumes "registry_ok g" "validate_draft c = []"
  shows "registry_ok (snd (store_connection R c g))"
  using assms by (simp add: registry_ok_def conn_simps get_connection_def)

lemma registry_okD:
  assumes "registry_ok g" "get_connection g i = Some c"
  shows "cn_id c = i" "validate_draft c = []" "identity_errors c = []" "content_errors c = []"
    "state_errors (cn_enabled c) (cn_state c) = []"
proof -
  show id: "cn_id c = i" and v: "validate_draft c = []" using assms by (simp_all add: registry_ok_def)
  show "identity_errors c = []" "content_errors c = []" "state_errors (cn_enabled c) (cn_state c) = []"
    using v by (simp_all add: validate_draft_split)
qed

lemma retired_is_off:
  assumes "validate_draft c = []" "cn_state c = ''retired''" shows "\<not> cn_enabled c"
  using assms by (auto simp: validate_draft_split state_errors_def err_def split: if_splits)

lemma merged_valid:
  assumes "registry_ok g" "get_connection g (cn_id c) = Some old" "validate_draft c = []"
  shows "validate_draft (merge_existing now old c) = []"
proof (rule same_validate [OF merge_definition assms(3)])
  have "cn_state old = ''retired'' \<Longrightarrow> \<not> cn_enabled old"
    by (rule retired_is_off [OF registry_okD(2) [OF assms(1,2)]])
  then show "state_errors (cn_enabled (merge_existing now old c)) (cn_state (merge_existing now old c)) = []"
    using registry_okD(5) [OF assms(1,2)] by (cases "cn_state old = ''retired''") (simp_all add: conn_simps)
qed

lemma updated_validity: "validate_draft (c\<lparr>cn_updated_at := now\<rparr>) = validate_draft c"
  by (simp add: validate_draft_def identity_errors_def content_errors_def)

lemma merge_id: "cn_id (merge_existing now old c) = cn_id c"
  using merge_definition by (simp add: same_definition_def)

text \<open>What \<open>put\<close> stores.\<close>

definition stored_by_put :: "string \<Rightarrow> conn_registry \<Rightarrow> source_connection \<Rightarrow> source_connection" where
  "stored_by_put now g c = (case get_connection g (cn_id c) of
     None \<Rightarrow> c\<lparr>cn_updated_at := now\<rparr> | Some old \<Rightarrow> merge_existing now old c)"

lemma stored_by_put_id: "cn_id (stored_by_put now g c) = cn_id c"
  by (simp add: stored_by_put_def merge_id split: option.split)

lemma put_cases:
  obtains "snd (put R now c g) = g"
  | "definition_errors R c = Some []" "put R now c g = store_connection R (stored_by_put now g c) g"
proof (cases "definition_errors R c")
  case None then show ?thesis using that(1) by (simp add: put_def)
next
  case (Some es)
  then show ?thesis using that by (cases es) (simp_all add: put_def stored_by_put_def)
qed

lemma put_valid:
  assumes "registry_ok g" "definition_errors R c = Some []"
  shows "validate_draft (stored_by_put now g c) = []"
  using definition_errors_draft [OF assms(2)] merged_valid [OF assms(1)]
  by (simp add: stored_by_put_def updated_validity split: option.split)

lemma put_keeps_retired:
  assumes "get_connection g (cn_id c) = Some old" "cn_state old = ''retired''"
  shows "cn_state (stored_by_put now g c) = ''retired''"
  using assms by (simp add: stored_by_put_def conn_simps)

lemma put_allowed:
  assumes "registry_ok g" "definition_errors R c = Some []"
    "\<And>old. get_connection g (cn_id c) = Some old \<Longrightarrow> cn_protocol old = ''rest'' \<Longrightarrow> puts (cn_id c) q"
  shows "allowed_update g q (stored_by_put now g c)"
  using put_valid [OF assms(1,2)] put_keeps_retired assms(3)
  by (simp add: allowed_update_def stored_by_put_id)

definition effect :: "pyrt \<Rightarrow> conn_op \<Rightarrow> conn_registry \<Rightarrow> conn_registry \<Rightarrow> bool" where
  "effect R q g h = (h = g \<or> (\<exists>c. h = snd (store_connection R c g) \<and> allowed_update g q c))"

lemma effect_same: "effect R q g g"
  by (simp add: effect_def)

lemma effect_store: "allowed_update g q c \<Longrightarrow> effect R q g (snd (store_connection R c g))"
  by (auto simp: effect_def)

text \<open>An update of the state fields of a stored connection is allowed when the new state is lawful.\<close>

lemma allowed_state_update:
  assumes "registry_ok g" "get_connection g i = Some old" "same_definition c old"
    "state_errors (cn_enabled c) (cn_state c) = []"
    "cn_state old = ''retired'' \<Longrightarrow> q = Restore i \<or> cn_state c = ''retired''"
  shows "allowed_update g q c"
proof -
  have "cn_id c = i" using registry_okD(1) [OF assms(1,2)] assms(3) by (simp add: same_definition_def)
  moreover have "validate_draft c = []"
    by (rule same_validate [OF assms(3) registry_okD(2) [OF assms(1,2)] assms(4)])
  ultimately show ?thesis using assms(2,3,5) by (simp add: allowed_update_def)
qed

lemma retire_effect:
  assumes "registry_ok g" shows "effect R q g (snd (retire R now i reason g))"
proof (cases "get_connection g i")
  case None then show ?thesis by (simp add: retire_def effect_same)
next
  case (Some c)
  show ?thesis unfolding retire_def Some option.case
    by (rule effect_store, rule allowed_state_update [OF assms Some]) (simp_all add: same_definition_def state_errors_off)
qed

lemma restore_effect:
  assumes "registry_ok g" shows "effect R (Restore i) g (snd (restore R now i g))"
proof (cases "get_connection g i")
  case None then show ?thesis by (simp add: restore_def effect_same)
next
  case (Some c)
  show ?thesis unfolding restore_def Some option.case
    by (rule effect_store, rule allowed_state_update [OF assms Some]) (simp_all add: same_definition_def state_errors_off)
qed

lemma delete_snd:
  "snd (delete_connection R now i g) = g \<or> snd (delete_connection R now i g) = snd (retire R now i ''retired by operator'' g)"
  by (simp add: delete_connection_def split: prod.split sum.split)

lemma delete_effect:
  assumes "registry_ok g" shows "effect R q g (snd (delete_connection R now i g))"
  using delete_snd [of R now i g] retire_effect [OF assms] effect_same by (elim disjE) simp_all

lemma set_enabled_effect:
  assumes "registry_ok g" shows "effect R q g (snd (set_enabled R now i b g))"
proof (cases "get_connection g i")
  case None then show ?thesis by (simp add: set_enabled_def effect_same)
next
  case (Some c)
  show ?thesis
  proof (cases "cn_state c = ''retired'' \<or> (if b then activation_errors R c else Some []) \<noteq> Some []")
    case True
    then have "snd (set_enabled R now i b g) = g"
      by (cases b; cases "cn_state c = ''retired''") (auto simp: set_enabled_def Some split: option.splits list.splits)
    then show ?thesis by (simp add: effect_same)
  next
    case False
    then have "snd (set_enabled R now i b g) = snd (store_connection R (c\<lparr>cn_enabled := b,
        cn_state := (if b then ''enabled'' else ''disabled''), cn_updated_at := now\<rparr>) g)"
      by (simp add: set_enabled_def Some)
    moreover have "allowed_update g q (c\<lparr>cn_enabled := b, cn_state := (if b then ''enabled'' else ''disabled''), cn_updated_at := now\<rparr>)"
      by (rule allowed_state_update [OF assms Some]) (use False in \<open>auto simp: same_definition_def state_errors_off\<close>)
    ultimately show ?thesis by (simp add: effect_store)
  qed
qed

lemma put_effect:
  assumes "registry_ok g"
    "\<And>old. get_connection g (cn_id c) = Some old \<Longrightarrow> cn_protocol old = ''rest'' \<Longrightarrow> puts (cn_id c) q"
  shows "effect R q g (snd (put R now c g))"
  by (rule put_cases [of R now c g]) (simp_all add: effect_same effect_store put_allowed [OF assms(1) _ assms(2)])

lemma browse_effect:
  assumes "registry_ok g" shows "effect R q g (snd (save_opcua_browse_selection R now i ns g))"
proof (cases "get_connection g i")
  case None then show ?thesis by (simp add: save_opcua_browse_selection_def effect_same)
next
  case (Some c)
  have id: "cn_id c = i" by (rule registry_okD(1) [OF assms Some])
  have "snd (save_opcua_browse_selection R now i ns g) = g
      \<or> (cn_protocol c = ''opcua'' \<and> (\<exists>cfg. snd (save_opcua_browse_selection R now i ns g) = snd (put R now (c\<lparr>cn_config := cfg\<rparr>) g)))"
    by (simp add: save_opcua_browse_selection_def Some Let_def) blast
  moreover have "effect R q g (snd (put R now (c\<lparr>cn_config := cfg\<rparr>) g))" if "cn_protocol c = ''opcua''" for cfg
    by (rule put_effect [OF assms]) (use that id Some in simp)
  ultimately show ?thesis by (elim disjE conjE exE) (simp_all add: effect_same)
qed

lemma run_op_effect:
  assumes "registry_ok g" shows "effect R q g (run_op R now q g)"
proof (cases q)
  case (Put c) show ?thesis unfolding Put run_op.simps by (rule put_effect [OF assms]) simp
qed (simp_all add: retire_effect restore_effect delete_effect set_enabled_effect browse_effect assms)

lemma effect_ok: "effect R q g h \<Longrightarrow> registry_ok g \<Longrightarrow> registry_ok h"
  by (auto simp: effect_def allowed_update_def intro: registry_ok_store)

lemma run_ops_ok: "registry_ok g \<Longrightarrow> registry_ok (run_ops R qs g)"
proof (induction qs arbitrary: g)
  case (Cons nq qs)
  then show ?case using effect_ok [OF run_op_effect] by (cases nq) simp
qed simp

lemma load_fold_ok:
  assumes "registry_ok \<lparr>cr_connections = d, cr_disk = x\<rparr>" "\<forall>c \<in> set cs. validate_draft c = []"
  shows "registry_ok \<lparr>cr_connections = foldl (\<lambda>d c. dict_set d (cn_id c) c) d cs, cr_disk = y\<rparr>"
  using assms
proof (induction cs arbitrary: d)
  case Nil then show ?case by (simp add: registry_ok_def get_connection_def)
next
  case (Cons c cs)
  have "registry_ok \<lparr>cr_connections = dict_set d (cn_id c) c, cr_disk = x\<rparr>"
    using Cons.prems by (simp add: registry_ok_def get_connection_def)
  then show ?case unfolding foldl.simps by (rule Cons.IH) (use Cons.prems in simp)
qed

lemma load_ok:
  assumes "load_registry R disk = Some g" shows "registry_ok g"
proof (cases disk)
  case None
  with assms have "g = \<lparr>cr_connections = [], cr_disk = None\<rparr>" by (simp add: load_registry_def)
  then show ?thesis by (simp add: registry_ok_def get_connection_def)
next
  case (Some cs)
  have e: "registry_ok \<lparr>cr_connections = [], cr_disk = None\<rparr>" by (simp add: registry_ok_def get_connection_def)
  from assms Some have a: "list_all (\<lambda>c. definition_errors R c = Some []) cs"
    and g: "g = \<lparr>cr_connections = foldl (\<lambda>d c. dict_set d (cn_id c) c) [] cs, cr_disk = Some cs\<rparr>"
    by (cases "list_all (\<lambda>c. definition_errors R c = Some []) cs"; simp add: load_registry_def)+
  have "\<forall>c \<in> set cs. validate_draft c = []"
  proof
    fix c assume "c \<in> set cs"
    then have "definition_errors R c = Some []" using a unfolding list_all_iff by (rule bspec [rotated])
    then show "validate_draft c = []" by (rule definition_errors_draft)
  qed
  then show ?thesis unfolding g by (rule load_fold_ok [OF e])
qed

lemma valid_draft_meaning:
  assumes "validate_draft c = []"
  shows "cn_state c \<in> set CONNECTION_STATES" "cn_enabled c \<longleftrightarrow> cn_state c = ''enabled''"
    "reject_value (PDict (cn_config c)) ''config'' = None"
proof -
  have st: "state_errors (cn_enabled c) (cn_state c) = []" and co: "content_errors c = []"
    using assms by (simp_all add: validate_draft_split)
  from st show "cn_state c \<in> set CONNECTION_STATES"
    by (cases "cn_state c \<in> set CONNECTION_STATES") (simp_all only: state_errors_def err_def, simp_all)
  from st show "cn_enabled c \<longleftrightarrow> cn_state c = ''enabled''"
    unfolding state_errors_def append_is_Nil_conv err_Nil by argo
  from co show "reject_value (PDict (cn_config c)) ''config'' = None"
    by (cases "reject_value (PDict (cn_config c)) ''config''") (simp_all only: content_errors_def option.case, simp_all)
qed

text \<open>The keys of a value at every depth, and what its acceptance says about them.\<close>

fun value_keys :: "pyval \<Rightarrow> string list" and field_keys :: "pydict \<Rightarrow> string list" and item_keys :: "pyval list \<Rightarrow> string list" where
  "value_keys (PDict d) = field_keys d"
| "value_keys (PList vs) = item_keys vs"
| "value_keys v = []"
| "field_keys [] = []"
| "field_keys ((k, v) # d) = k # value_keys v @ field_keys d"
| "item_keys [] = []"
| "item_keys (v # vs) = value_keys v @ item_keys vs"

lemma accepted_keys:
  "reject_value v p = None \<Longrightarrow> list_all (\<lambda>k. secret_key k \<longrightarrow> reference_key k) (value_keys v)"
  "reject_fields d p = None \<Longrightarrow> list_all (\<lambda>k. secret_key k \<longrightarrow> reference_key k) (field_keys d)"
  "reject_items vs n p = None \<Longrightarrow> list_all (\<lambda>k. secret_key k \<longrightarrow> reference_key k) (item_keys vs)"
  by (induction v p and d p and vs n p rule: reject_value_reject_fields_reject_items.induct)
    (auto split: if_splits option.splits)

text \<open>What the claim means by a secret's key, a reference's key and a reference, written out once more, apart from the code's
  pattern.\<close>

definition names_secret :: "string \<Rightarrow> bool" where
  "names_secret k = (\<exists>w \<in> set [''password'', ''passwd'', ''token'', ''secret'', ''private_key'', ''private-key'', ''privatekey'',
     ''api_key'', ''api-key'', ''apikey'']. contains (py_lower k) w)"

definition names_reference :: "string \<Rightarrow> bool" where
  "names_reference k = (ends_with k ''_ref'' \<or> ends_with k ''_refs'')"

definition known_reference :: "string \<Rightarrow> bool" where
  "known_reference r = (starts_with r ''env://'' \<or> starts_with r ''file://'' \<or> starts_with r ''path://'' \<or> starts_with r ''secret://'')"

lemma names_secret_key: "names_secret k \<Longrightarrow> secret_key k"
  by (simp only: names_secret_def secret_key_def list_ex_iff)

lemma reference_suffix: "reference_key k \<Longrightarrow> names_reference k"
  by (auto simp: reference_key_def names_reference_def ends_with_def)

lemma no_credential_errors:
  assumes "credential_errors refs = []" "(k, r) \<in> set refs"
  shows "known_reference r"
proof -
  have "err (blank k) ''credential_refs keys must not be empty''
     @ (if blank r then [''credential_refs.'' @ k @ '' must be a non-empty reference'']
        else err (\<not> reference_scheme r) (''credential_refs.'' @ k @ '' must use env://, file://, path://, or secret://'')) = []"
    using assms by (auto simp: credential_errors_def)
  then have "reference_scheme r" by (simp add: err_def split: if_splits)
  then show ?thesis by (simp add: reference_scheme_def known_reference_def)
qed

lemma valid_draft_secrets:
  assumes "validate_draft c = []"
  shows "\<forall>k \<in> set (value_keys (PDict (cn_config c))). names_secret k \<longrightarrow> names_reference k"
    and "\<forall>(k, r) \<in> set (cn_credential_refs c). known_reference r"
proof -
  have "credential_errors (cn_credential_refs c) = []" using assms by (simp add: validate_draft_split content_errors_def)
  then show "\<forall>(k, r) \<in> set (cn_credential_refs c). known_reference r" using no_credential_errors by blast
  have "list_all (\<lambda>k. secret_key k \<longrightarrow> reference_key k) (value_keys (PDict (cn_config c)))"
    by (rule accepted_keys(1) [OF valid_draft_meaning(3) [OF assms]])
  then show "\<forall>k \<in> set (value_keys (PDict (cn_config c))). names_secret k \<longrightarrow> names_reference k"
    unfolding list_all_iff using names_secret_key reference_suffix by blast
qed

lemma get_store: "get_connection (snd (store_connection R c g)) i = (if i = cn_id c then Some c else get_connection g i)"
  by (simp add: get_connection_def conn_simps)

lemma effect_retired:
  assumes "effect R q g h" "get_connection g i = Some c" "cn_state c = ''retired''" "q \<noteq> Restore i"
  shows "\<exists>d. get_connection h i = Some d \<and> cn_state d = ''retired''"
proof (cases "h = g")
  case True then show ?thesis using assms by simp
next
  case False
  then obtain e where e: "h = snd (store_connection R e g)" "allowed_update g q e"
    using assms(1) by (auto simp: effect_def)
  show ?thesis
  proof (cases "i = cn_id e")
    case True
    have "q = Restore (cn_id e) \<or> cn_state e = ''retired''"
      using e(2) assms(2,3) unfolding allowed_update_def True by blast
    then have "cn_state e = ''retired''" using assms(4) True by blast
    with True show ?thesis by (simp add: e(1) get_store)
  next
    case False
    then show ?thesis using assms(2,3) by (simp add: e(1) get_store)
  qed
qed

lemma run_ops_retired:
  assumes "registry_ok g" "get_connection g i = Some c" "cn_state c = ''retired''" "\<forall>q \<in> set qs. snd q \<noteq> Restore i"
  shows "\<exists>d. get_connection (run_ops R qs g) i = Some d \<and> cn_state d = ''retired''"
  using assms
proof (induction qs arbitrary: g c)
  case (Cons nq qs)
  obtain n q where nq: "nq = (n, q)" by (cases nq)
  have eff: "effect R q g (run_op R n q g)" by (rule run_op_effect [OF Cons.prems(1)])
  have "q \<noteq> Restore i" using Cons.prems(4) nq by simp
  then obtain d where d: "get_connection (run_op R n q g) i = Some d" "cn_state d = ''retired''"
    using effect_retired [OF eff Cons.prems(2,3)] by blast
  show ?case unfolding nq run_ops.simps
    by (rule Cons.IH [OF effect_ok [OF eff Cons.prems(1)] d]) (use Cons.prems(4) in simp)
qed simp

section \<open>Properties\<close>

definition demo_conn :: source_connection where
  "demo_conn = \<lparr>cn_id = ''c1'', cn_name = ''press'', cn_protocol = ''mqtt'', cn_site_id = ''s'', cn_endpoint = ''mqtt://b'',
     cn_source_id = [], cn_credential_ref = [], cn_credential_refs = [], cn_config = [(''topic'', PStr ''plant'')],
     cn_mappings = [], cn_enabled = True, cn_state = ''enabled'', cn_config_version = 1, cn_last_error = [],
     cn_last_success_at = None, cn_retired_at = None, cn_retired_reason = [], cn_created_at = [], cn_updated_at = []\<rparr>"

definition demo_draft :: source_connection where
  "demo_draft = demo_conn\<lparr>cn_config := [], cn_enabled := False, cn_state := ''configured''\<rparr>"

definition demo_retired :: source_connection where
  "demo_retired = demo_conn\<lparr>cn_enabled := False, cn_state := ''retired''\<rparr>"

definition demo_rest :: source_connection where
  "demo_rest = demo_draft\<lparr>cn_id := ''c2'', cn_protocol := ''rest'',
     cn_config := [(''response'', PDict [(''field_paths'', PList [])])]\<rparr>"

definition registry_of :: "source_connection \<Rightarrow> conn_registry" where
  "registry_of c = \<lparr>cr_connections = [(cn_id c, c)], cr_disk = Some [c]\<rparr>"

lemmas draft_eval = validate_draft_def identity_errors_def state_errors_def content_errors_def credential_errors_def
  err_def blank_def mapping_errors_def SUPPORTED_PROTOCOLS_def CONNECTION_STATES_def

lemma demo_valid: "validate_draft demo_conn = []" "validate_draft demo_draft = []" "validate_draft demo_retired = []"
    "validate_draft demo_rest = []"
  by code_simp+

lemma demo_active: "definition_errors demo_rt demo_conn = Some []"
  by code_simp

lemma demo_inactive: "protocol_errors demo_rt demo_draft = Some [''MQTT requires config.topic before activation'']"
  by code_simp

lemma load_one: "definition_errors R c = Some [] \<Longrightarrow> load_registry R (Some [c]) = Some (registry_of c)"
  by (simp add: load_registry_def registry_of_def)

lemma retired_loads: "definition_errors R demo_retired = Some []"
  by (simp add: definition_errors_def demo_valid) (simp add: demo_retired_def)

text \<open>Claim C33. Whatever sequence of operations runs on a registry that loaded, refused ones and ones
  whose save failed included, every connection is filed under its own identifier, is in one of the known
  states, is enabled exactly when its state says so, has no key of a secret (the listed words, in any case)
  at any depth of its configuration that is not named as a reference, and has only references with a known
  scheme among its credential references. What a key named as a reference holds, the single
  \<open>credential_ref\<close> and the endpoint are not looked at, by the code and by this claim.\<close>

theorem registry_stays_valid:
  assumes "load_registry R disk = Some g" "get_connection (run_ops R qs g) i = Some c"
  shows "cn_id c = i \<and> cn_state c \<in> set CONNECTION_STATES \<and> (cn_enabled c \<longleftrightarrow> cn_state c = ''enabled'')
    \<and> (\<forall>k \<in> set (value_keys (PDict (cn_config c))). names_secret k \<longrightarrow> names_reference k)
    \<and> (\<forall>(k, r) \<in> set (cn_credential_refs c). known_reference r)"
proof -
  have ok: "registry_ok (run_ops R qs g)" by (rule run_ops_ok [OF load_ok [OF assms(1)]])
  note v = registry_okD(2) [OF ok assms(2)]
  show ?thesis by (intro conjI registry_okD(1) [OF ok assms(2)] valid_draft_meaning(1,2) [OF v] valid_draft_secrets [OF v])
qed

theorem registry_stays_valid_witness:
  "\<exists>c. get_connection (run_ops demo_rt [(''t'', SetEnabled ''c1'' False)] (registry_of demo_conn)) ''c1'' = Some c
     \<and> cn_id c = ''c1'' \<and> (cn_enabled c \<longleftrightarrow> cn_state c = ''enabled'')"
proof -
  let ?g = "run_ops demo_rt [(''t'', SetEnabled ''c1'' False)] (registry_of demo_conn)"
  have "get_connection ?g ''c1'' \<noteq> None" by code_simp
  then obtain c where c: "get_connection ?g ''c1'' = Some c" by blast
  with registry_stays_valid [OF load_one [OF demo_active] c] show ?thesis by blast
qed

text \<open>A retired connection stays retired and disabled through every sequence of operations,
  new definitions under the same identifier included, until it is restored by name.\<close>

theorem retired_until_restored:
  assumes "load_registry R disk = Some g" "get_connection g i = Some c" "cn_state c = ''retired''"
    "\<forall>q \<in> set qs. snd q \<noteq> Restore i"
  shows "\<exists>d. get_connection (run_ops R qs g) i = Some d \<and> cn_state d = ''retired'' \<and> \<not> cn_enabled d"
proof -
  obtain d where d: "get_connection (run_ops R qs g) i = Some d" "cn_state d = ''retired''"
    using run_ops_retired [OF load_ok [OF assms(1)] assms(2-4)] by blast
  have "\<not> cn_enabled d"
    by (rule retired_is_off [OF registry_okD(2) [OF run_ops_ok [OF load_ok [OF assms(1)]] d(1)] d(2)])
  with d show ?thesis by blast
qed

theorem retired_until_restored_witness:
  "\<exists>d. get_connection (run_ops demo_rt [(''t'', SetEnabled ''c1'' True)] (registry_of demo_retired)) ''c1'' = Some d
     \<and> cn_state d = ''retired'' \<and> \<not> cn_enabled d"
  by (rule retired_until_restored [OF load_one [OF retired_loads], of "''c1''" demo_retired])
     (simp_all add: get_connection_def registry_of_def demo_retired_def demo_conn_def)

lemma listed: "get_connection g i = Some c \<Longrightarrow> c \<in> set (list_connections g None None True)"
  unfolding list_connections_def get_connection_def
  by (drule map_of_SomeD) (force intro: image_eqI [of _ snd "(i, c)"])

text \<open>The route that creates connections may name an identifier that exists. If that connection is
  enabled and the new definition is a disabled draft that could not be activated, the registry copies the
  enabled state onto it without checking: the stored connection is enabled and fails activation, and the
  file that was saved no longer loads.\<close>

theorem put_skips_activation:
  assumes "load_registry R disk = Some g" "get_connection g (cn_id c) = Some old" "cn_enabled old"
    "validate_draft c = []" "\<not> cn_enabled c" "protocol_errors R c = Some (e # es)"
    "put R now c g = (Inr d, h)"
  shows "cn_enabled d \<and> activation_errors R d = Some (e # es) \<and> get_connection h (cn_id c) = Some d
    \<and> load_registry R (cr_disk h) = None"
proof -
  have ok: "registry_ok g" by (rule load_ok [OF assms(1)])
  have old: "cn_state old = ''enabled''" "cn_state old \<noteq> ''retired''"
    using valid_draft_meaning(2) [OF registry_okD(2) [OF ok assms(2)]] assms(3) by simp_all
  have "cn_state c \<noteq> ''enabled''" using valid_draft_meaning(2) [OF assms(4)] assms(5) by simp
  then have de: "definition_errors R c = Some []" using assms(4,5) by (simp add: definition_errors_def)
  let ?d = "merge_existing now old c"
  have st: "store_connection R ?d g = (Inr d, h)"
    using assms(7) de by (simp add: put_def assms(2))
  have d: "d = ?d" using st
    by (cases rule: persist_cases [of R ?d "g\<lparr>cr_connections := dict_set (cr_connections g) (cn_id ?d) ?d\<rparr>"])
       (simp_all add: store_connection_def)
  have v: "validate_draft d = []" unfolding d by (rule merged_valid [OF ok assms(2,4)])
  have en: "cn_enabled d" using old assms(3) by (simp add: d conn_simps)
  have ae: "activation_errors R d = Some (e # es)"
    using same_definitionD(3) [OF merge_definition] assms(6) v by (simp add: activation_errors_def d)
  have h: "h = snd (store_connection R d g)" using st d by simp
  have g: "get_connection h (cn_id c) = Some d" by (simp add: h get_store d merge_id)
  have "cr_disk h = Some (list_connections h None None True)"
    using st by (cases rule: persist_cases [of R ?d "g\<lparr>cr_connections := dict_set (cr_connections g) (cn_id ?d) ?d\<rparr>"])
       (auto simp: store_connection_def list_connections_def)
  moreover have "d \<in> set (list_connections h None None True)" by (rule listed [OF g])
  moreover have "definition_errors R d \<noteq> Some []" using en ae v by (simp add: definition_errors_def)
  ultimately have "load_registry R (cr_disk h) = None"
    by (auto simp: load_registry_def list_all_iff)
  with en ae g show ?thesis by blast
qed

lemma demo_put_saves: "fst (put demo_rt ''t'' demo_draft (registry_of demo_conn)) \<noteq> Inl AttributeError
    \<and> is_ok (fst (put demo_rt ''t'' demo_draft (registry_of demo_conn)))"
  by code_simp

theorem put_skips_activation_witness:
  "\<exists>d h. put demo_rt ''t'' demo_draft (registry_of demo_conn) = (Inr d, h) \<and> cn_enabled d
     \<and> load_registry demo_rt (cr_disk h) = None"
proof -
  obtain r h where rh: "put demo_rt ''t'' demo_draft (registry_of demo_conn) = (r, h)" by fastforce
  with demo_put_saves obtain d where "r = Inr d" by (cases r) (simp_all add: is_ok_def)
  with rh have p: "put demo_rt ''t'' demo_draft (registry_of demo_conn) = (Inr d, h)" by simp
  have "get_connection (registry_of demo_conn) (cn_id demo_draft) = Some demo_conn"
    by (simp add: get_connection_def registry_of_def demo_draft_def)
  moreover have "cn_enabled demo_conn" by (simp add: demo_conn_def)
  moreover have "\<not> cn_enabled demo_draft" by (simp add: demo_draft_def)
  ultimately show ?thesis
    using put_skips_activation [OF load_one [OF demo_active] _ _ demo_valid(2) _ demo_inactive p] p by blast
qed

text \<open>A connection whose check raises blocks every save.\<close>

definition blocks_saves :: "pyrt \<Rightarrow> source_connection \<Rightarrow> bool" where
  "blocks_saves R c = (cn_protocol c = ''rest'' \<and> field_path_errors R (cn_config c) = None)"

lemma blocked_errors:
  assumes "blocks_saves R c" "validate_draft c = []" shows "activation_errors R c = None"
  using assms by (simp add: blocks_saves_def activation_errors_def protocol_errors_def rest_errors_def Let_def)

lemma store_blocked:
  assumes "get_connection (snd (store_connection R c g)) i = Some d" "blocks_saves R d" "validate_draft d = []"
  shows "store_connection R c g = (Inl AttributeError, g\<lparr>cr_connections := dict_set (cr_connections g) (cn_id c) c\<rparr>)"
proof -
  let ?h = "g\<lparr>cr_connections := dict_set (cr_connections g) (cn_id c) c\<rparr>"
  have "get_connection ?h i = Some d" using assms(1) by (simp add: get_connection_def conn_simps)
  from listed [OF this] blocked_errors [OF assms(2,3)]
  have "list_ex (\<lambda>c. activation_errors R c = None) (list_connections ?h None None True)"
    unfolding list_ex_iff by blast
  then show ?thesis by (simp add: store_connection_def persist_def Let_def)
qed

definition blocked_by :: "pyrt \<Rightarrow> string \<Rightarrow> conn_registry \<Rightarrow> bool" where
  "blocked_by R i g = (registry_ok g \<and> (\<exists>d. get_connection g i = Some d \<and> blocks_saves R d))"

lemma blocked_store:
  assumes "blocked_by R i (snd (store_connection R c g))"
  shows "cr_disk (snd (store_connection R c g)) = cr_disk g"
proof -
  obtain d where "get_connection (snd (store_connection R c g)) i = Some d" "blocks_saves R d" "validate_draft d = []"
    using assms by (auto simp: blocked_by_def registry_ok_def)
  from store_blocked [OF this] show ?thesis by simp
qed

lemma blocked_step:
  assumes "blocked_by R i g" "effect R q g h" "\<not> puts i q"
  shows "blocked_by R i h \<and> cr_disk h = cr_disk g"
proof (cases "h = g")
  case True then show ?thesis using assms(1) by simp
next
  case False
  then obtain c where h: "h = snd (store_connection R c g)" and u: "allowed_update g q c"
    using assms(2) by (auto simp: effect_def)
  obtain d where d: "get_connection g i = Some d" "blocks_saves R d" and ok: "registry_ok g"
    using assms(1) by (auto simp: blocked_by_def)
  have okh: "registry_ok h" by (rule effect_ok [OF assms(2) ok])
  have "\<exists>e. get_connection h i = Some e \<and> blocks_saves R e"
  proof (cases "i = cn_id c")
    case True
    then have "same_definition c d" using u d assms(3) by (auto simp: allowed_update_def blocks_saves_def)
    then have "blocks_saves R c" using d(2) by (simp add: blocks_saves_def same_definition_def)
    with True show ?thesis by (simp add: h get_store)
  next
    case False then show ?thesis using d by (simp add: h get_store)
  qed
  with okh have "blocked_by R i h" by (simp add: blocked_by_def)
  with blocked_store [of R i c g] show ?thesis unfolding h by blast
qed

lemma blocked_run:
  "blocked_by R i g \<Longrightarrow> \<forall>q \<in> set qs. \<not> puts i (snd q) \<Longrightarrow> cr_disk (run_ops R qs g) = cr_disk g"
proof (induction qs arbitrary: g)
  case (Cons nq qs)
  obtain n q where nq: "nq = (n, q)" by (cases nq)
  have ok: "registry_ok g" using Cons.prems(1) by (simp add: blocked_by_def)
  have "blocked_by R i (run_op R n q g) \<and> cr_disk (run_op R n q g) = cr_disk g"
    by (rule blocked_step [OF Cons.prems(1) run_op_effect [OF ok]]) (use Cons.prems(2) nq in simp)
  then show ?case using Cons.IH [of "run_op R n q g"] Cons.prems(2) by (simp add: nq)
qed simp

text \<open>A REST draft whose \<open>response.field_paths\<close> is not an object passes the draft check and is
  filed in memory before the save raises \<open>AttributeError\<close>; from then on no operation reaches the file until a
  new definition replaces that connection, so whatever is changed meanwhile is lost with the process.\<close>

theorem malformed_response_blocks_saves:
  assumes "load_registry R disk = Some g" "validate_draft c = []" "\<not> cn_enabled c"
    "cn_protocol c = ''rest''" "field_path_errors R (cn_config c) = None"
    "\<forall>q \<in> set qs. \<not> puts (cn_id c) (snd q)"
  shows "fst (put R now c g) = Inl AttributeError
    \<and> get_connection (snd (put R now c g)) (cn_id c) \<noteq> None
    \<and> cr_disk (run_ops R ((now, Put c) # qs) g) = cr_disk g"
proof -
  let ?d = "stored_by_put now g c" and ?h = "snd (put R now c g)"
  have ok: "registry_ok g" by (rule load_ok [OF assms(1)])
  have "cn_state c \<noteq> ''enabled''" using valid_draft_meaning(2) [OF assms(2)] assms(3) by simp
  then have de: "definition_errors R c = Some []" using assms(2,3) by (simp add: definition_errors_def)
  then have p: "put R now c g = store_connection R ?d g" by (simp add: put_def stored_by_put_def)
  have g: "get_connection ?h (cn_id c) = Some ?d" by (simp add: p get_store stored_by_put_id)
  have "same_definition ?d c"
    using merge_definition by (auto simp: stored_by_put_def same_definition_def split: option.split)
  then have b: "blocks_saves R ?d" using assms(4,5) by (simp add: blocks_saves_def same_definition_def)
  have f: "fst (put R now c g) = Inl AttributeError"
    unfolding p store_blocked [OF g [unfolded p] b put_valid [OF ok de]] by simp
  have "registry_ok ?h" unfolding p by (rule registry_ok_store [OF ok put_valid [OF ok de]])
  then have bh: "blocked_by R (cn_id c) ?h" using g b by (simp add: blocked_by_def)
  have "cr_disk ?h = cr_disk g" using blocked_store [of R "cn_id c" ?d g] bh by (simp add: p)
  then show ?thesis using f g blocked_run [OF bh assms(6)] by simp
qed

lemma demo_rest_blocks: "field_path_errors demo_rt (cn_config demo_rest) = None"
  by (simp add: field_path_errors_def demo_rest_def dict_getd_def)

theorem malformed_response_blocks_saves_witness:
  "cr_disk (run_ops demo_rt [(''t'', Put demo_rest), (''u'', Retire ''c1'' ''worn'')] (registry_of demo_conn)) = Some [demo_conn]"
proof -
  have "\<not> cn_enabled demo_rest" "cn_protocol demo_rest = ''rest''" by (simp_all add: demo_rest_def demo_draft_def)
  from malformed_response_blocks_saves [OF load_one [OF demo_active] demo_valid(4) this demo_rest_blocks,
      of "[(''u'', Retire ''c1'' ''worn'')]" "''t''"]
  show ?thesis by (simp add: registry_of_def)
qed

end
