(* ===== verification/Replay_State.thy ===== *)
theory Replay_State
  imports Py_Prelude
begin

text \<open>
  The dataset replay of the API (\<open>services/api_service/replay_state.py\<close>): the status, the stop
  event, and the worker threads. Handlers run under the lock, so each is one step. A worker moves in
  steps of its own between them (test of the loop condition, publication, progress, flush, finish), and
  the steps of all threads interleave. A CSV file is the number of its rows; whether a produce, a
  flush or the start of the producer succeeds is part of the step. The clock is the text \<open>now\<close>.
\<close>

section \<open>State\<close>

record replay_status =
  rs_running :: bool
  rs_dataset :: string
  rs_scenario :: string
  rs_progress_percent :: int
  rs_events_emitted :: nat
  rs_started_at :: "string option"
  rs_last_updated_at :: "string option"
  rs_status :: string
  rs_error :: "string option"

definition initial_status :: replay_status where
  "initial_status = \<lparr>rs_running = False, rs_dataset = [], rs_scenario = ''normal'', rs_progress_percent = 0,
     rs_events_emitted = 0, rs_started_at = None, rs_last_updated_at = None, rs_status = ''idle'', rs_error = None\<rparr>"

datatype phase = Starting | Testing | Publishing | Reporting | Flushing | Ended

record worker =
  w_phase :: phase
  w_target :: nat
  w_rows :: nat         \<comment> \<open>rows not yet read\<close>
  w_emitted :: nat

record replay =
  rp_status :: replay_status
  rp_stop :: bool
  rp_workers :: "worker list"
  rp_published :: nat

definition initial_replay :: replay where
  "initial_replay = \<lparr>rp_status = initial_status, rp_stop = False, rp_workers = [], rp_published = 0\<rparr>"

section \<open>Handlers\<close>

definition estimate_event_count :: "string \<Rightarrow> nat" where
  "estimate_event_count d =
     (if d = ''ai4i'' then 1200 else if d = ''industrial-benchmark'' then 1800
      else if d = ''swat'' then 2400 else if d = ''wadi'' then 2400 else if d = ''cmapss'' then 900 else 600)"

text \<open>\<open>DATASET_REPLAY_PATHS\<close>: \<open>loads\<close> parses JSON, \<open>expand\<close> is \<open>expanduser\<close>, \<open>is_file\<close> the test.\<close>

definition configured_dataset_path ::
    "pyrt \<Rightarrow> (string \<Rightarrow> pyval option) \<Rightarrow> (string \<Rightarrow> string) \<Rightarrow> (string \<Rightarrow> bool) \<Rightarrow> string \<Rightarrow> string
       \<Rightarrow> string + string option" where
  "configured_dataset_path R loads expand is_file setting dataset =
     (let raw = py_strip setting in
      if raw = [] then Inr None
      else (case loads raw of
              None \<Rightarrow> Inl ''DATASET_REPLAY_PATHS must be valid JSON''
            | Some v \<Rightarrow>
                (let path = (case v of PDict d \<Rightarrow> pget d dataset | _ \<Rightarrow> PNone) in
                 if \<not> truthy path then Inr None
                 else (let resolved = expand (py_str R path) in
                       if is_file resolved then Inr (Some resolved)
                       else Inl (''Configured replay source does not exist: '' @ resolved)))))"

definition get_replay_status :: "string \<Rightarrow> replay \<Rightarrow> replay_status \<times> replay" where
  "get_replay_status now r =
     (let s = (if rs_running (rp_status r) then (rp_status r)\<lparr>rs_last_updated_at := Some now\<rparr> else rp_status r)
      in (s, r\<lparr>rp_status := s\<rparr>))"

definition running_status :: "string \<Rightarrow> string \<Rightarrow> string \<Rightarrow> replay_status" where
  "running_status now dataset scenario =
     \<lparr>rs_running = True, rs_dataset = dataset, rs_scenario = scenario, rs_progress_percent = 0,
      rs_events_emitted = 0, rs_started_at = Some now, rs_last_updated_at = Some now,
      rs_status = ''running'', rs_error = None\<rparr>"

definition new_worker :: "nat \<Rightarrow> worker" where
  "new_worker rows = \<lparr>w_phase = Starting, w_target = rows, w_rows = rows, w_emitted = 0\<rparr>"

text \<open>\<open>known\<close>: the dataset is in the catalogue; \<open>path\<close>: the result of the lookup of its source;
  \<open>rows\<close>: the rows of the file.\<close>

definition start_replay ::
    "string \<Rightarrow> bool \<Rightarrow> string list \<Rightarrow> string + string option \<Rightarrow> (string \<Rightarrow> nat) \<Rightarrow> string \<Rightarrow> string \<Rightarrow> replay
       \<Rightarrow> (string + replay_status) \<times> replay" where
  "start_replay now known scenarios path rows dataset scenario r =
     (if \<not> known then (Inl (''Unknown dataset: '' @ dataset), r)
      else if scenario \<notin> set scenarios then (Inl (''Unknown scenario: '' @ scenario), r)
      else (case path of
              Inl e \<Rightarrow> (Inl e, r)
            | Inr None \<Rightarrow> (Inl (''No replay source configured for '' @ dataset), r)
            | Inr (Some file) \<Rightarrow>
                (if rs_running (rp_status r) then (Inl ''A replay is already running'', r)
                 else (let s = running_status now dataset scenario in
                       (Inr s, r\<lparr>rp_stop := False, rp_status := s,
                                 rp_workers := rp_workers r @ [new_worker (rows file)]\<rparr>)))))"

definition stop_replay :: "string \<Rightarrow> replay \<Rightarrow> replay" where
  "stop_replay now r =
     r\<lparr>rp_stop := True,
       rp_status := (rp_status r)\<lparr>rs_running := False, rs_status := ''stopped'', rs_last_updated_at := Some now\<rparr>\<rparr>"

definition reset_replay_state :: "replay \<Rightarrow> replay" where
  "reset_replay_state r = r\<lparr>rp_stop := True, rp_status := initial_status\<rparr>"

section \<open>Workers\<close>

definition set_progress :: "string \<Rightarrow> nat \<Rightarrow> nat \<Rightarrow> replay_status \<Rightarrow> replay_status" where
  "set_progress now emitted target s =
     s\<lparr>rs_events_emitted := emitted, rs_progress_percent := min 100 (int (emitted * 100 div max target 1)),
       rs_last_updated_at := Some now\<rparr>"

definition finish :: "string \<Rightarrow> string \<Rightarrow> string option \<Rightarrow> replay_status \<Rightarrow> replay_status" where
  "finish now status err s =
     s\<lparr>rs_running := False, rs_status := status, rs_error := err,
       rs_progress_percent := (if status = ''completed'' then 100 else rs_progress_percent s),
       rs_last_updated_at := Some now\<rparr>"

definition put_worker :: "replay \<Rightarrow> nat \<Rightarrow> worker \<Rightarrow> replay" where
  "put_worker r i w = r\<lparr>rp_workers := (rp_workers r)[i := w]\<rparr>"

definition fail_worker :: "string \<Rightarrow> string \<Rightarrow> replay \<Rightarrow> nat \<Rightarrow> worker \<Rightarrow> replay" where
  "fail_worker now e r i w =
     (put_worker r i (w\<lparr>w_phase := Ended\<rparr>))\<lparr>rp_status := finish now ''error'' (Some e) (rp_status r)\<rparr>"

text \<open>One step of worker \<open>i\<close>; \<open>ok\<close> tells whether the call of the producer succeeds.\<close>

definition worker_step :: "string \<Rightarrow> bool \<Rightarrow> nat \<Rightarrow> replay \<Rightarrow> replay" where
  "worker_step now ok i r =
     (if length (rp_workers r) \<le> i then r
      else (let w = rp_workers r ! i in
        case w_phase w of
          Starting \<Rightarrow>
            (if ok then put_worker r i (w\<lparr>w_phase := Testing\<rparr>) else fail_worker now ''producer'' r i w)
        | Testing \<Rightarrow>
            (if rp_stop r \<or> w_target w \<le> w_emitted w \<or> w_rows w = 0 then put_worker r i (w\<lparr>w_phase := Flushing\<rparr>)
             else put_worker r i (w\<lparr>w_phase := Publishing, w_rows := w_rows w - 1\<rparr>))
        | Publishing \<Rightarrow>
            (if ok then (put_worker r i (w\<lparr>w_phase := Reporting, w_emitted := Suc (w_emitted w)\<rparr>))
                          \<lparr>rp_published := Suc (rp_published r)\<rparr>
             else fail_worker now ''produce'' r i w)
        | Reporting \<Rightarrow>
            (put_worker r i (w\<lparr>w_phase := Testing\<rparr>))
              \<lparr>rp_status := set_progress now (w_emitted w) (w_target w) (rp_status r)\<rparr>
        | Flushing \<Rightarrow>
            (if ok then (put_worker r i (w\<lparr>w_phase := Ended\<rparr>))
                \<lparr>rp_status := finish now (if rp_stop r then ''stopped'' else ''completed'') None (rp_status r)\<rparr>
             else fail_worker now ''replay record(s) were not acknowledged by Kafka'' r i w)
        | Ended \<Rightarrow> r))"

section \<open>Interleaved steps\<close>

datatype action =
    AStatus
  | AStart string string nat        \<comment> \<open>an accepted dataset and scenario, the rows of its file\<close>
  | AStop
  | AReset
  | AWorker nat bool

inductive replay_step :: "string \<Rightarrow> replay \<Rightarrow> action \<Rightarrow> replay \<Rightarrow> bool" for now where
  status: "replay_step now r AStatus (snd (get_replay_status now r))"
| start: "replay_step now r (AStart d s n) (snd (start_replay now True [s] (Inr (Some d)) (\<lambda>_. n) d s r))"
| stop: "replay_step now r AStop (stop_replay now r)"
| reset: "replay_step now r AReset (reset_replay_state r)"
| work: "i < length (rp_workers r) \<Longrightarrow> replay_step now r (AWorker i ok) (worker_step now ok i r)"

inductive_cases replay_stepE: "replay_step now r a q"

inductive_simps replay_step_work: "replay_step now r (AWorker i ok) q"

inductive replay_run :: "string \<Rightarrow> replay \<Rightarrow> action list \<Rightarrow> replay \<Rightarrow> bool" for now where
  nil: "replay_run now r [] r"
| cons: "replay_step now r a q \<Longrightarrow> replay_run now q as s \<Longrightarrow> replay_run now r (a # as) s"

definition live :: "worker \<Rightarrow> bool" where
  "live w \<longleftrightarrow> w_phase w \<noteq> Ended"

definition live_count :: "replay \<Rightarrow> nat" where
  "live_count r = length (filter live (rp_workers r))"

text \<open>Every worker accounts for its rows and emits at most its target; progress is a percentage.\<close>

definition worker_ok :: "worker \<Rightarrow> bool" where
  "worker_ok w \<longleftrightarrow> w_emitted w + w_rows w \<le> w_target w
     \<and> (w_phase w = Publishing \<longrightarrow> w_emitted w + w_rows w < w_target w)"

definition replay_ok :: "replay \<Rightarrow> bool" where
  "replay_ok r \<longleftrightarrow> list_all worker_ok (rp_workers r)
     \<and> rp_published r = sum_list (map w_emitted (rp_workers r))
     \<and> 0 \<le> rs_progress_percent (rp_status r) \<and> rs_progress_percent (rp_status r) \<le> 100"

text \<open>Without stops and resets: at most one worker, running exactly while it lives.\<close>

definition exclusive :: "replay \<Rightarrow> bool" where
  "exclusive r \<longleftrightarrow> live_count r = (if rs_running (rp_status r) then 1 else 0)"

lemma sum_list_update_emitted:
  "i < length ws \<Longrightarrow> sum_list (map w_emitted (ws[i := w])) + w_emitted (ws ! i)
     = sum_list (map w_emitted ws) + w_emitted w"
  by (induction ws arbitrary: i) (auto split: nat.splits)

lemma count_update:
  "i < length ws \<Longrightarrow> length (filter live (ws[i := w])) + (if live (ws ! i) then 1 else 0)
     = length (filter live ws) + (if live w then 1 else 0)"
proof (induction ws arbitrary: i)
  case (Cons a ws)
  then show ?case
  proof (cases i)
    case (Suc j)
    then show ?thesis using Cons.IH [of j] Cons.prems by (cases "live a") simp_all
  qed simp
qed simp

lemma put_worker_ok:
  assumes "replay_ok r" "i < length (rp_workers r)" "worker_ok w"
    and "rp_published q + w_emitted (rp_workers r ! i) = rp_published r + w_emitted w"
    and "rp_workers q = (rp_workers r)[i := w]"
    and "0 \<le> rs_progress_percent (rp_status q)" "rs_progress_percent (rp_status q) \<le> 100"
  shows "replay_ok q"
proof -
  have "list_all worker_ok ((rp_workers r)[i := w])"
    using assms(1-3) by (auto simp: replay_ok_def list_all_iff dest!: set_update_subset_insert [THEN subsetD])
  moreover have "rp_published q = sum_list (map w_emitted ((rp_workers r)[i := w]))"
    using sum_list_update_emitted [OF assms(2), of w] assms(1,4) by (simp add: replay_ok_def)
  ultimately show ?thesis using assms(5-7) by (simp add: replay_ok_def)
qed

lemma progress_bounds: "0 \<le> min 100 (int (n * 100 div max t 1))" "min 100 (int (n * 100 div max t 1)) \<le> (100 :: int)"
  by simp_all

lemma worker_step_ok:
  assumes "replay_ok r" "i < length (rp_workers r)"
  shows "replay_ok (worker_step now ok i r)"
proof -
  let ?w = "rp_workers r ! i"
  have w: "worker_ok ?w" using assms by (auto simp: replay_ok_def list_all_length)
  have p: "0 \<le> rs_progress_percent (rp_status r)" "rs_progress_percent (rp_status r) \<le> 100"
    using assms(1) by (auto simp: replay_ok_def)
  have fail: "replay_ok (fail_worker now e r i ?w)" for e
    by (rule put_worker_ok [OF assms, of "?w\<lparr>w_phase := Ended\<rparr>"])
      (use w p in \<open>auto simp: worker_ok_def fail_worker_def put_worker_def finish_def\<close>)
  have step: "replay_ok ((put_worker r i w')\<lparr>rp_status := s\<rparr>)"
    if "worker_ok w'" "w_emitted w' = w_emitted ?w" "0 \<le> rs_progress_percent s" "rs_progress_percent s \<le> 100" for w' s
    by (rule put_worker_ok [OF assms that(1)]) (use that in \<open>simp_all add: put_worker_def\<close>)
  have keep: "replay_ok (put_worker r i w')" if "worker_ok w'" "w_emitted w' = w_emitted ?w" for w'
    by (rule put_worker_ok [OF assms that(1)]) (use that p in \<open>simp_all add: put_worker_def\<close>)
  show ?thesis
  proof (cases "w_phase ?w")
    case Starting
    then show ?thesis using fail keep w assms(2) by (simp add: worker_step_def Let_def worker_ok_def)
  next
    case Testing
    have "replay_ok (put_worker r i (?w\<lparr>w_phase := Flushing\<rparr>))"
      using w by (intro keep) (simp_all add: worker_ok_def)
    moreover have "replay_ok (put_worker r i (?w\<lparr>w_phase := Publishing, w_rows := w_rows ?w - 1\<rparr>))"
      if "w_rows ?w \<noteq> 0" using w that by (intro keep) (auto simp: worker_ok_def)
    ultimately show ?thesis using Testing assms(2) by (simp add: worker_step_def Let_def)
  next
    case Publishing
    let ?w' = "?w\<lparr>w_phase := Reporting, w_emitted := Suc (w_emitted ?w)\<rparr>"
    have "replay_ok ((put_worker r i ?w')\<lparr>rp_published := Suc (rp_published r)\<rparr>)"
      by (rule put_worker_ok [OF assms, of ?w']) (use w p Publishing in \<open>auto simp: worker_ok_def put_worker_def\<close>)
    then show ?thesis using fail assms(2) Publishing by (simp add: worker_step_def Let_def)
  next
    case Reporting
    then show ?thesis using step w assms(2) progress_bounds
      by (simp add: worker_step_def Let_def worker_ok_def set_progress_def)
  next
    case Flushing
    then show ?thesis using fail step w assms(2) p
      by (simp add: worker_step_def Let_def worker_ok_def finish_def)
  next
    case Ended
    then show ?thesis using assms by (simp add: worker_step_def Let_def)
  qed
qed

lemma step_ok:
  assumes "replay_step now r a q" "replay_ok r"
  shows "replay_ok q"
  using assms
proof cases
  case status
  then show ?thesis using assms(2) by (simp add: get_replay_status_def Let_def replay_ok_def)
next
  case (start d s n)
  then show ?thesis using assms(2)
    by (simp add: start_replay_def Let_def replay_ok_def running_status_def new_worker_def worker_ok_def)
next
  case stop
  then show ?thesis using assms(2) by (simp add: stop_replay_def replay_ok_def)
next
  case reset
  then show ?thesis using assms(2) by (simp add: reset_replay_state_def replay_ok_def initial_status_def)
next
  case (work i ok)
  then show ?thesis using assms(2) by (simp add: worker_step_ok)
qed

lemma run_ok: "replay_run now r as q \<Longrightarrow> replay_ok r \<Longrightarrow> replay_ok q"
  by (induction rule: replay_run.induct) (auto intro: step_ok)

lemma initial_ok: "replay_ok initial_replay"
  by (simp add: replay_ok_def initial_replay_def initial_status_def)

section \<open>Exclusion\<close>

lemma put_worker_count:
  assumes "i < length (rp_workers r)" "rp_workers q = (rp_workers r)[i := w]"
  shows "live_count q + (if live (rp_workers r ! i) then 1 else 0) = live_count r + (if live w then 1 else 0)"
  using count_update [OF assms(1), of w] assms(2) by (simp add: live_count_def)

lemma live_counted:
  assumes "i < length (rp_workers r)" "live (rp_workers r ! i)"
  shows "0 < live_count r"
proof -
  have "rp_workers r ! i \<in> set (filter live (rp_workers r))" using assms by simp
  then show ?thesis unfolding live_count_def by (rule length_pos_if_in_set)
qed

lemma worker_step_exclusive:
  assumes "exclusive r" "i < length (rp_workers r)"
  shows "exclusive (worker_step now ok i r)"
proof (cases "w_phase (rp_workers r ! i) = Ended")
  case True
  then show ?thesis using assms by (simp add: worker_step_def Let_def)
next
  case False
  let ?w = "rp_workers r ! i" and ?q = "worker_step now ok i r"
  have live: "live ?w" using False by (simp add: live_def)
  then have one: "live_count r = 1" "rs_running (rp_status r)"
    using live_counted [OF assms(2)] assms(1) by (auto simp: exclusive_def split: if_splits)
  obtain w where w: "rp_workers ?q = (rp_workers r)[i := w]" "rs_running (rp_status ?q) \<longleftrightarrow> w_phase w \<noteq> Ended"
  proof (cases "w_phase ?w")
    case Starting
    then show ?thesis using assms(2) one that
      by (cases ok) (simp_all add: worker_step_def Let_def put_worker_def fail_worker_def finish_def)
  next
    case Testing
    then show ?thesis using assms(2) one that
      by (cases "rp_stop r \<or> w_target ?w \<le> w_emitted ?w \<or> w_rows ?w = 0")
        (simp_all add: worker_step_def Let_def put_worker_def)
  next
    case Publishing
    then show ?thesis using assms(2) one that
      by (cases ok) (simp_all add: worker_step_def Let_def put_worker_def fail_worker_def finish_def)
  next
    case Reporting
    then show ?thesis using assms(2) one that
      by (simp add: worker_step_def Let_def put_worker_def set_progress_def)
  next
    case Flushing
    then show ?thesis using assms(2) one that
      by (cases ok) (simp_all add: worker_step_def Let_def put_worker_def fail_worker_def finish_def)
  qed (use False in simp)
  from put_worker_count [OF assms(2) w(1)] live one w(2) show ?thesis
    by (simp add: exclusive_def live_def split: if_splits)
qed

lemma step_exclusive:
  assumes "replay_step now r a q" "exclusive r" "a \<notin> {AStop, AReset}"
  shows "exclusive q"
  using assms(1)
proof cases
  case status
  then show ?thesis using assms(2) by (simp add: get_replay_status_def Let_def exclusive_def live_count_def)
next
  case (start d s n)
  then show ?thesis using assms(2)
    by (auto simp: start_replay_def Let_def exclusive_def live_count_def running_status_def new_worker_def live_def)
next
  case (work i ok)
  then show ?thesis using assms(2) by (simp add: worker_step_exclusive)
qed (use assms(3) in simp_all)

lemma run_exclusive:
  "replay_run now r as q \<Longrightarrow> exclusive r \<Longrightarrow> set as \<inter> {AStop, AReset} = {} \<Longrightarrow> exclusive q"
  by (induction rule: replay_run.induct) (auto intro: step_exclusive)

section \<open>Properties\<close>

text \<open>
  One replay at a time, as long as nobody stops one: in any interleaving of status requests,
  starts and worker steps at most one worker lives, and the status says running exactly while it
  does.
\<close>

theorem single_replay:
  assumes "replay_run now initial_replay as q" "set as \<inter> {AStop, AReset} = {}"
  shows "live_count q \<le> 1 \<and> (rs_running (rp_status q) \<longleftrightarrow> live_count q = 1)"
proof -
  have "exclusive initial_replay" by (simp add: exclusive_def live_count_def initial_replay_def initial_status_def)
  from run_exclusive [OF assms(1) this assms(2)] show ?thesis by (simp add: exclusive_def)
qed

definition demo_actions :: "action list" where
  "demo_actions = [AStart ''ai4i'' ''normal'' 2, AWorker 0 True, AStatus]"

lemma demo_run: "\<exists>q. replay_run ''now'' initial_replay demo_actions q \<and> live_count q = 1"
proof -
  let ?r1 = "snd (start_replay ''now'' True [''normal''] (Inr (Some ''ai4i'')) (\<lambda>_. 2) ''ai4i'' ''normal'' initial_replay)"
  let ?r2 = "worker_step ''now'' True 0 ?r1"
  have r1: "rp_workers ?r1 = [new_worker 2]"
    by (simp add: start_replay_def initial_replay_def initial_status_def Let_def)
  have "replay_run ''now'' initial_replay demo_actions (snd (get_replay_status ''now'' ?r2))"
    unfolding demo_actions_def
    by (rule replay_run.cons [OF replay_step.start replay_run.cons [OF replay_step.work
          replay_run.cons [OF replay_step.status replay_run.nil]]]) (simp add: r1)
  moreover have "live_count (snd (get_replay_status ''now'' ?r2)) = 1"
    by (simp add: live_count_def get_replay_status_def Let_def worker_step_def r1 new_worker_def put_worker_def live_def)
  ultimately show ?thesis by blast
qed

theorem single_replay_witness:
  "\<exists>q. replay_run ''now'' initial_replay demo_actions q \<and> rs_running (rp_status q)"
proof -
  obtain q where q: "replay_run ''now'' initial_replay demo_actions q" "live_count q = 1" using demo_run by blast
  have "set demo_actions \<inter> {AStop, AReset} = {}" by (simp add: demo_actions_def)
  from single_replay [OF q(1) this] q show ?thesis by blast
qed

text \<open>
  Publications are accounted for in every interleaving, stops and resets included: the number
  of published events is the sum over the workers, no worker publishes more than the rows of its
  file, and the progress is a percentage.
\<close>

theorem replay_accounts:
  assumes "replay_run now initial_replay as q"
  shows "rp_published q = sum_list (map w_emitted (rp_workers q))
    \<and> list_all (\<lambda>w. w_emitted w \<le> w_target w) (rp_workers q)
    \<and> 0 \<le> rs_progress_percent (rp_status q) \<and> rs_progress_percent (rp_status q) \<le> 100"
proof -
  have "replay_ok q" using run_ok [OF assms initial_ok] .
  then show ?thesis by (auto simp: replay_ok_def worker_ok_def list_all_iff)
qed

theorem replay_accounts_witness:
  "\<exists>q. replay_run ''now'' initial_replay demo_actions q \<and> rs_progress_percent (rp_status q) \<le> 100"
  using demo_run replay_accounts by blast

text \<open>
  Stopping does not wait for the worker: in any state, a stop followed by a start is accepted,
  clears the stop signal the old worker has not seen yet, and leaves one more live worker, so two
  workers can publish into one status.
\<close>

theorem stop_start_adds_worker:
  "\<exists>q. replay_run now r [AStop, AStart d s n] q \<and> live_count q = Suc (live_count r)
     \<and> \<not> rp_stop q \<and> rs_running (rp_status q)"
proof -
  let ?q = "snd (start_replay now True [s] (Inr (Some d)) (\<lambda>_. n) d s (stop_replay now r))"
  have "replay_run now r [AStop, AStart d s n] ?q"
    by (rule replay_run.cons [OF replay_step.stop replay_run.cons [OF replay_step.start replay_run.nil]])
  moreover have "live_count ?q = Suc (live_count r) \<and> \<not> rp_stop ?q \<and> rs_running (rp_status ?q)"
    by (simp add: start_replay_def stop_replay_def Let_def live_count_def running_status_def new_worker_def live_def)
  ultimately show ?thesis by blast
qed

end
