(* ===== verification/Alerts.thy ===== *)
theory Alerts
  imports Py_Prelude "HOL-Library.Multiset"
begin

text \<open>
  Alerts of the API: roles and the audit log (\<open>services/api_service/rbac.py\<close>), the alert store with
  its acknowledgment workflow (\<open>alert_manager.py\<close>) and the escalation engine
  (\<open>alert_escalation.py\<close>). An alert is a record with the keys of its dictionary, the state file the
  data last written; notifications and handler calls are recorded. \<open>now\<close> is the clock's text,
  \<open>clock\<close> its seconds; \<open>search\<close> is \<open>re.search\<close>.
\<close>

section \<open>Roles and the audit log\<close>

datatype role = Admin | Operator | Viewer

datatype permission = PermRead | PermWrite | PermDelete | PermAdmin

definition ROLE_PERMISSIONS :: "role \<Rightarrow> permission list" where
  "ROLE_PERMISSIONS r =
     (case r of Admin \<Rightarrow> [PermRead, PermWrite, PermDelete, PermAdmin]
      | Operator \<Rightarrow> [PermRead, PermWrite] | Viewer \<Rightarrow> [PermRead])"

record user =
  us_id :: string
  us_name :: string
  us_role :: role
  us_email :: "string option"

record audit_entry =
  au_timestamp :: string
  au_user :: string
  au_action :: string
  au_resource :: string
  au_details :: "(string \<times> string) list"

record tenant =
  tn_id :: string
  tn_name :: string
  tn_namespace :: string
  tn_owner :: string
  tn_domains :: "string list"
  tn_created :: string

record rbac =
  rb_users :: "(string \<times> user) list"
  rb_tenants :: "(string \<times> tenant) list"
  rb_log :: "audit_entry list"

definition has_permission :: "user \<Rightarrow> permission \<Rightarrow> bool" where
  "has_permission u p = (p \<in> set (ROLE_PERMISSIONS (us_role u)))"

definition audit :: "string \<Rightarrow> string \<Rightarrow> string \<Rightarrow> string \<Rightarrow> (string \<times> string) list \<Rightarrow> rbac \<Rightarrow> rbac" where
  "audit now u action resource details b =
     b\<lparr>rb_log := rb_log b @ [\<lparr>au_timestamp = now, au_user = u, au_action = action, au_resource = resource,
                               au_details = details\<rparr>]\<rparr>"

text \<open>\<open>logs[-limit:]\<close>: the whole log for limit 0.\<close>

definition get_logs :: "rbac \<Rightarrow> nat \<Rightarrow> audit_entry list" where
  "get_logs b limit = (if limit = 0 then rb_log b else last_n limit (rb_log b))"

definition role_text :: "role \<Rightarrow> string" where
  "role_text r = (case r of Admin \<Rightarrow> ''admin'' | Operator \<Rightarrow> ''operator'' | Viewer \<Rightarrow> ''viewer'')"

definition create_user :: "string \<Rightarrow> string \<Rightarrow> string \<Rightarrow> role \<Rightarrow> string option \<Rightarrow> rbac \<Rightarrow> user \<times> rbac" where
  "create_user now i name r email b =
     (let u = \<lparr>us_id = i, us_name = name, us_role = r, us_email = email\<rparr>
      in (u, audit now i ''user_created'' ''users'' [(''role'', role_text r)]
               (b\<lparr>rb_users := dict_set (rb_users b) i u\<rparr>)))"

definition get_user :: "rbac \<Rightarrow> string \<Rightarrow> user option" where
  "get_user b i = map_of (rb_users b) i"

definition create_tenant ::
    "string \<Rightarrow> string \<Rightarrow> string \<Rightarrow> string \<Rightarrow> string \<Rightarrow> string list \<Rightarrow> rbac \<Rightarrow> tenant \<times> rbac" where
  "create_tenant now i name ns owner domains b =
     (let t = \<lparr>tn_id = i, tn_name = name, tn_namespace = ns, tn_owner = owner, tn_domains = domains, tn_created = now\<rparr>
      in (t, audit now owner ''tenant_created'' ''tenants'' [(''tenant_id'', i), (''namespace'', ns)]
               (b\<lparr>rb_tenants := dict_set (rb_tenants b) i t\<rparr>)))"

text \<open>The demonstration login compares no password.\<close>

definition authenticate_user :: "rbac \<Rightarrow> string \<Rightarrow> string \<Rightarrow> user option" where
  "authenticate_user b name password = List.find (\<lambda>u. us_name u = name) (map snd (rb_users b))"

definition require_permission :: "user \<Rightarrow> permission \<Rightarrow> string + unit" where
  "require_permission u p =
     (if has_permission u p then Inr () else Inl (''User '' @ us_name u @ '' lacks permission''))"

section \<open>The alert store\<close>

record alert =
  al_id :: string
  al_asset_id :: string
  al_tag :: string
  al_severity :: string
  al_message :: string
  al_triggered_rules :: "string list"
  al_state :: string
  al_created_at :: string
  al_acknowledged_at :: "string option"
  al_acknowledged_by :: "string option"
  al_acknowledgment_note :: "string option"
  al_escalated_at :: "string option"
  al_resolved_at :: "string option"
  al_resolved_by :: "string option"
  al_resolution_note :: "string option"
  al_source_event_id :: "string option"

record acknowledgment =
  ak_alert :: string
  ak_user :: string
  ak_username :: string
  ak_timestamp :: string
  ak_note :: "string option"

record alert_manager =
  am_alerts :: "(string \<times> alert) list"
  am_acknowledgments :: "acknowledgment list"
  am_persistent :: bool
  am_disk :: "((string \<times> alert) list \<times> acknowledgment list) option"
  am_rbac :: rbac
  am_notified :: "(string \<times> string) list"   \<comment> \<open>channel, alert\<close>

definition am_persist :: "alert_manager \<Rightarrow> alert_manager" where
  "am_persist m = (if am_persistent m then m\<lparr>am_disk := Some (am_alerts m, am_acknowledgments m)\<rparr> else m)"

definition am_log :: "string \<Rightarrow> string \<Rightarrow> string \<Rightarrow> (string \<times> string) list \<Rightarrow> alert_manager \<Rightarrow> alert_manager" where
  "am_log now u action details m = m\<lparr>am_rbac := audit now u action ''alerts'' details (am_rbac m)\<rparr>"

definition am_set :: "alert_manager \<Rightarrow> string \<Rightarrow> alert \<Rightarrow> alert_manager" where
  "am_set m i a = m\<lparr>am_alerts := dict_set (am_alerts m) i a\<rparr>"

definition open_manager :: "bool \<Rightarrow> ((string \<times> alert) list \<times> acknowledgment list) option \<Rightarrow> rbac \<Rightarrow> alert_manager" where
  "open_manager persistent disk b =
     (case (persistent, disk) of
        (True, Some (as, ks)) \<Rightarrow> \<lparr>am_alerts = as, am_acknowledgments = ks, am_persistent = True, am_disk = disk,
                                   am_rbac = b, am_notified = []\<rparr>
      | _ \<Rightarrow> \<lparr>am_alerts = [], am_acknowledgments = [], am_persistent = persistent, am_disk = disk,
               am_rbac = b, am_notified = []\<rparr>)"

definition create_alert ::
    "string \<Rightarrow> string \<Rightarrow> string \<Rightarrow> string \<Rightarrow> string \<Rightarrow> string \<Rightarrow> string list \<Rightarrow> string option \<Rightarrow> alert_manager
       \<Rightarrow> alert \<times> alert_manager" where
  "create_alert now hex8 asset tag sev msg rules source m =
     (let i = ''ALERT-'' @ hex8;
          a = \<lparr>al_id = i, al_asset_id = asset, al_tag = tag, al_severity = sev, al_message = msg,
               al_triggered_rules = rules, al_state = ''active'', al_created_at = now, al_acknowledged_at = None,
               al_acknowledged_by = None, al_acknowledgment_note = None, al_escalated_at = None,
               al_resolved_at = None, al_resolved_by = None, al_resolution_note = None, al_source_event_id = source\<rparr>;
          m1 = am_persist (am_set m i a)
      in (a, m1\<lparr>am_notified := am_notified m1 @ [(''apprise'', i), (''webhook'', i)]\<rparr>))"

definition username_of :: "alert_manager \<Rightarrow> string \<Rightarrow> string" where
  "username_of m u = (case get_user (am_rbac m) u of None \<Rightarrow> u | Some x \<Rightarrow> us_name x)"

definition note_text :: "string option \<Rightarrow> string" where
  "note_text n = (case n of None \<Rightarrow> ''None'' | Some s \<Rightarrow> s)"

definition acknowledge_alert ::
    "string \<Rightarrow> alert_manager \<Rightarrow> string \<Rightarrow> string \<Rightarrow> string option \<Rightarrow> string + alert \<times> alert_manager" where
  "acknowledge_alert now m i u note =
     (case map_of (am_alerts m) i of
        None \<Rightarrow> Inl (''Alert '' @ i @ '' not found'')
      | Some a \<Rightarrow>
          (if al_state a = ''acknowledged'' then Inl (''Alert '' @ i @ '' already acknowledged'')
           else
             (let a1 = a\<lparr>al_state := ''acknowledged'', al_acknowledged_at := Some now,
                         al_acknowledged_by := Some (username_of m u), al_acknowledgment_note := note\<rparr>;
                  m1 = am_set m i a1;
                  m2 = m1\<lparr>am_acknowledgments := am_acknowledgments m1 @
                            [\<lparr>ak_alert = i, ak_user = u, ak_username = username_of m u, ak_timestamp = now, ak_note = note\<rparr>]\<rparr>;
                  m3 = am_log now u ''alert_acknowledged''
                         [(''alert_id'', i), (''asset_id'', al_asset_id a), (''tag'', al_tag a),
                          (''severity'', al_severity a), (''note'', note_text note)] m2
              in Inr (a1, am_persist m3))))"

definition escalate_alert :: "string \<Rightarrow> alert_manager \<Rightarrow> string \<Rightarrow> string \<Rightarrow> string \<Rightarrow> string + alert \<times> alert_manager" where
  "escalate_alert now m i u reason =
     (case map_of (am_alerts m) i of
        None \<Rightarrow> Inl (''Alert '' @ i @ '' not found'')
      | Some a \<Rightarrow>
          (let a1 = a\<lparr>al_state := ''escalated'', al_escalated_at := Some now\<rparr>
           in Inr (a1, am_persist (am_log now u ''alert_escalated'' [(''alert_id'', i), (''reason'', reason)] (am_set m i a1)))))"

definition resolve_alert ::
    "string \<Rightarrow> alert_manager \<Rightarrow> string \<Rightarrow> string \<Rightarrow> string option \<Rightarrow> string + alert \<times> alert_manager" where
  "resolve_alert now m i u note =
     (case map_of (am_alerts m) i of
        None \<Rightarrow> Inl (''Alert '' @ i @ '' not found'')
      | Some a \<Rightarrow>
          (let a1 = a\<lparr>al_state := ''resolved'', al_resolved_at := Some now,
                      al_resolved_by := Some (username_of m u), al_resolution_note := note\<rparr>
           in Inr (a1, am_persist (am_log now u ''alert_resolved''
                 [(''alert_id'', i), (''asset_id'', al_asset_id a), (''tag'', al_tag a), (''note'', note_text note)]
                 (am_set m i a1)))))"

definition get_alert :: "alert_manager \<Rightarrow> string \<Rightarrow> alert option" where
  "get_alert m i = map_of (am_alerts m) i"

text \<open>A filter that is absent or empty does not restrict; the sort is stable, newest first.\<close>

definition matches :: "string option \<Rightarrow> string \<Rightarrow> bool" where
  "matches f v = (case f of None \<Rightarrow> True | Some s \<Rightarrow> s = [] \<or> v = s)"

definition newest_first :: "alert list \<Rightarrow> alert list" where
  "newest_first as = rev (sort_key al_created_at (rev as))"

definition list_alerts :: "alert_manager \<Rightarrow> string option \<Rightarrow> string option \<Rightarrow> string option \<Rightarrow> nat \<Rightarrow> alert list" where
  "list_alerts m state asset sev limit =
     take limit (newest_first (filter (\<lambda>a. matches state (al_state a) \<and> matches asset (al_asset_id a)
        \<and> matches sev (al_severity a)) (map snd (am_alerts m))))"

definition get_alert_history :: "alert_manager \<Rightarrow> string \<Rightarrow> acknowledgment list" where
  "get_alert_history m i = filter (\<lambda>k. ak_alert k = i) (am_acknowledgments m)"

definition count_states :: "alert list \<Rightarrow> (string \<times> nat) list" where
  "count_states as = foldl (\<lambda>d a. dict_set d (al_state a) (dict_getd d (al_state a) 0 + 1)) [] as"

text \<open>Minutes between creation and resolution of the resolved alerts; \<open>None\<close>: a time does not parse.\<close>

fun sum_minutes :: "pyrt \<Rightarrow> alert list \<Rightarrow> rat option" where
  "sum_minutes R [] = Some 0"
| "sum_minutes R (a # as) =
     (case (iso_of R (al_created_at a), iso_of R (case al_resolved_at a of None \<Rightarrow> [] | Some t \<Rightarrow> t), sum_minutes R as) of
        (Some (c, _), Some (r, _), Some rest) \<Rightarrow> Some ((r - c) / 60 + rest)
      | _ \<Rightarrow> None)"

definition resolved_alerts :: "alert_manager \<Rightarrow> alert list" where
  "resolved_alerts m =
     filter (\<lambda>a. al_state a = ''resolved'' \<and> al_resolved_at a \<notin> {None, Some []} \<and> al_created_at a \<noteq> [])
       (map snd (am_alerts m))"

definition avg_resolution_time :: "pyrt \<Rightarrow> alert_manager \<Rightarrow> rat option" where
  "avg_resolution_time R m =
     (let as = resolved_alerts m in
      if as = [] then Some 0 else map_option (\<lambda>t. t / of_nat (length as)) (sum_minutes R as))"

definition get_statistics :: "pyrt \<Rightarrow> alert_manager \<Rightarrow> (nat \<times> (string \<times> nat) list \<times> rat \<times> rat) option" where
  "get_statistics R m =
     (let n = length (am_alerts m); by_state = count_states (map snd (am_alerts m));
          rate = (if 0 < n then of_nat (dict_getd by_state ''acknowledged'' 0 + dict_getd by_state ''resolved'' 0)
                                   / of_nat n * 100 else 0)
      in map_option (\<lambda>t. (n, by_state, rate, t)) (avg_resolution_time R m))"

section \<open>The escalation engine\<close>

record escalation_rule =
  er_id :: string
  er_name :: string
  er_description :: string
  er_severity_filter :: "string list"
  er_asset_pattern :: "string option"
  er_tag_pattern :: "string option"
  er_auto_escalate_after_minutes :: int
  er_auto_resolve_after_minutes :: "int option"
  er_notify_channels :: "string list"
  er_escalate_to_role :: "string option"
  er_enabled :: bool

record escalation =
  ea_rule_id :: string
  ea_rule_name :: string
  ea_alert_id :: string
  ea_reason :: string
  ea_notify_channels :: "string list"
  ea_escalate_to_role :: "string option"

record engine =
  eg_rules :: "(string \<times> escalation_rule) list"
  eg_handlers :: nat
  eg_calls :: "(nat \<times> escalation) list"

definition add_rule :: "engine \<Rightarrow> escalation_rule \<Rightarrow> engine" where
  "add_rule g r = g\<lparr>eg_rules := dict_set (eg_rules g) (er_id r) r\<rparr>"

definition remove_rule :: "engine \<Rightarrow> string \<Rightarrow> bool \<times> engine" where
  "remove_rule g i = (if dict_has (eg_rules g) i then (True, g\<lparr>eg_rules := dict_del (eg_rules g) i\<rparr>) else (False, g))"

definition list_rules :: "engine \<Rightarrow> (string \<times> string \<times> string \<times> string list \<times> int \<times> bool) list" where
  "list_rules g = map (\<lambda>(_, r). (er_id r, er_name r, er_description r, er_severity_filter r,
     er_auto_escalate_after_minutes r, er_enabled r)) (eg_rules g)"

definition register_handler :: "engine \<Rightarrow> engine" where
  "register_handler g = g\<lparr>eg_handlers := Suc (eg_handlers g)\<rparr>"

definition pattern_ok :: "(string \<Rightarrow> string \<Rightarrow> bool) \<Rightarrow> string option \<Rightarrow> string \<Rightarrow> bool" where
  "pattern_ok search p v = (case p of None \<Rightarrow> True | Some q \<Rightarrow> q = [] \<or> v = [] \<or> search q v)"

definition matches_rule :: "(string \<Rightarrow> string \<Rightarrow> bool) \<Rightarrow> alert \<Rightarrow> escalation_rule \<Rightarrow> bool" where
  "matches_rule search a r =
     (al_severity a \<in> set (er_severity_filter r) \<and> pattern_ok search (er_asset_pattern r) (al_asset_id a)
      \<and> pattern_ok search (er_tag_pattern r) (al_tag a))"

definition utc_text :: "string \<Rightarrow> string" where
  "utc_text t = concat (map (\<lambda>c. if c = CHR ''Z'' then ''+00:00'' else [c]) t)"

definition action_of :: "alert \<Rightarrow> escalation_rule \<Rightarrow> escalation" where
  "action_of a r =
     \<lparr>ea_rule_id = er_id r, ea_rule_name = er_name r, ea_alert_id = al_id a,
      ea_reason = ''Auto-escalated after '' @ int_str (er_auto_escalate_after_minutes r) @ '' minutes'',
      ea_notify_channels = er_notify_channels r, ea_escalate_to_role = er_escalate_to_role r\<rparr>"

definition execute_escalation :: "string \<Rightarrow> alert_manager \<times> engine \<Rightarrow> escalation \<Rightarrow> alert_manager \<times> engine" where
  "execute_escalation now s act =
     (case s of (m, g) \<Rightarrow>
        ((case escalate_alert now m (ea_alert_id act) ''system'' (ea_reason act) of Inl _ \<Rightarrow> m | Inr (_, m1) \<Rightarrow> m1),
         g\<lparr>eg_calls := eg_calls g @ map (\<lambda>h. (h, act)) [0..<eg_handlers g]\<rparr>))"

text \<open>The loop over the rules; \<open>None\<close>: the creation time does not parse or carries no zone.\<close>

fun process_rules ::
    "pyrt \<Rightarrow> (string \<Rightarrow> string \<Rightarrow> bool) \<Rightarrow> string \<Rightarrow> rat \<Rightarrow> alert \<Rightarrow> escalation_rule list \<Rightarrow> alert_manager \<times> engine
       \<Rightarrow> (escalation list \<times> alert_manager \<times> engine) option" where
  "process_rules R search now clock a [] s = Some ([], s)"
| "process_rules R search now clock a (r # rs) s =
     (if \<not> er_enabled r \<or> \<not> matches_rule search a r then process_rules R search now clock a rs s
      else (case iso_of R (utc_text (al_created_at a)) of
              Some (t, True) \<Rightarrow>
                (if of_int (er_auto_escalate_after_minutes r) \<le> (clock - t) / 60 then
                   map_option (\<lambda>(acts, s'). (action_of a r # acts, s'))
                     (process_rules R search now clock a rs (execute_escalation now s (action_of a r)))
                 else process_rules R search now clock a rs s)
            | _ \<Rightarrow> None))"

definition process_alert ::
    "pyrt \<Rightarrow> (string \<Rightarrow> string \<Rightarrow> bool) \<Rightarrow> string \<Rightarrow> rat \<Rightarrow> alert_manager \<times> engine \<Rightarrow> alert
       \<Rightarrow> (escalation list \<times> alert_manager \<times> engine) option" where
  "process_alert R search now clock s a = process_rules R search now clock a (map snd (eg_rules (snd s))) s"

fun process_all ::
    "pyrt \<Rightarrow> (string \<Rightarrow> string \<Rightarrow> bool) \<Rightarrow> string \<Rightarrow> rat \<Rightarrow> alert list \<Rightarrow> alert_manager \<times> engine
       \<Rightarrow> (escalation list \<times> alert_manager \<times> engine) option" where
  "process_all R search now clock [] s = Some ([], s)"
| "process_all R search now clock (a # as) s =
     (case process_alert R search now clock s a of
        None \<Rightarrow> None
      | Some (acts, s1) \<Rightarrow>
          map_option (\<lambda>(acts', s2). (acts @ acts', s2)) (process_all R search now clock as s1))"

text \<open>\<open>list_alerts(state=ACTIVE)\<close> has its default limit.\<close>

definition check_all_pending_alerts ::
    "pyrt \<Rightarrow> (string \<Rightarrow> string \<Rightarrow> bool) \<Rightarrow> string \<Rightarrow> rat \<Rightarrow> alert_manager \<times> engine
       \<Rightarrow> (escalation list \<times> alert_manager \<times> engine) option" where
  "check_all_pending_alerts R search now clock s =
     process_all R search now clock (list_alerts (fst s) (Some ''active'') None None 100) s"

definition default_rules :: "escalation_rule list" where
  "default_rules =
     [\<lparr>er_id = ''escalate-critical-15min'', er_name = ''Escalate Critical After 15 Minutes'',
       er_description = ''Automatically escalate critical alerts that haven't been acknowledged'',
       er_severity_filter = [''critical''], er_asset_pattern = None, er_tag_pattern = None,
       er_auto_escalate_after_minutes = 15, er_auto_resolve_after_minutes = None,
       er_notify_channels = [''email'', ''slack''], er_escalate_to_role = Some ''admin'', er_enabled = True\<rparr>,
      \<lparr>er_id = ''escalate-warning-1hour'', er_name = ''Escalate Warning After 1 Hour'',
       er_description = ''Escalate warning alerts after 1 hour'',
       er_severity_filter = [''warning''], er_asset_pattern = None, er_tag_pattern = None,
       er_auto_escalate_after_minutes = 60, er_auto_resolve_after_minutes = None,
       er_notify_channels = [''email''], er_escalate_to_role = Some ''operator'', er_enabled = True\<rparr>,
      \<lparr>er_id = ''auto-resolve-24hours'', er_name = ''Auto-Resolve After 24 Hours'',
       er_description = ''Automatically resolve stale alerts'',
       er_severity_filter = [''warning'', ''critical''], er_asset_pattern = None, er_tag_pattern = None,
       er_auto_escalate_after_minutes = 1440, er_auto_resolve_after_minutes = Some 1440,
       er_notify_channels = [''email''], er_escalate_to_role = None, er_enabled = True\<rparr>]"

definition default_engine :: engine where
  "default_engine = foldl add_rule \<lparr>eg_rules = [], eg_handlers = 0, eg_calls = []\<rparr> default_rules"

section \<open>What the engine needs of the store\<close>

locale alert_store =
  fixes escalate :: "'s \<Rightarrow> 'a \<Rightarrow> 's" and target :: "'a \<Rightarrow> 'i" and state :: "'s \<Rightarrow> 'i \<Rightarrow> 'st option"
    and escalated :: 'st
  assumes escalate_state: "state s (target a) \<noteq> None \<Longrightarrow> state (escalate s a) (target a) = Some escalated"
    and escalate_other: "i \<noteq> target a \<Longrightarrow> state (escalate s a) i = state s i"
    and escalate_missing: "state s (target a) = None \<Longrightarrow> state (escalate s a) (target a) = None"
begin

lemma escalate_one:
  "state (escalate s a) i = (if i = target a \<and> state s i \<noteq> None then Some escalated else state s i)"
  using escalate_state escalate_other escalate_missing by (cases "i = target a") auto

text \<open>The effect of a list of actions, in any order and with repetitions.\<close>

lemma escalate_all:
  "state (foldl escalate s as) i = (if i \<in> target ` set as \<and> state s i \<noteq> None then Some escalated else state s i)"
  by (induction as arbitrary: s) (auto simp: escalate_one)

end

definition alert_state :: "alert_manager \<Rightarrow> string \<Rightarrow> string option" where
  "alert_state m i = map_option al_state (get_alert m i)"

definition apply_action :: "string \<Rightarrow> alert_manager \<Rightarrow> escalation \<Rightarrow> alert_manager" where
  "apply_action now m act =
     (case escalate_alert now m (ea_alert_id act) ''system'' (ea_reason act) of Inl _ \<Rightarrow> m | Inr (_, m1) \<Rightarrow> m1)"

lemma am_frame [simp]:
  "am_alerts (am_persist m) = am_alerts m" "am_alerts (am_log now u act d m) = am_alerts m"
  by (simp_all add: am_persist_def am_log_def)

lemma apply_action_alerts:
  "am_alerts (apply_action now m act) =
     (case map_of (am_alerts m) (ea_alert_id act) of
        None \<Rightarrow> am_alerts m
      | Some a \<Rightarrow> dict_set (am_alerts m) (ea_alert_id act) (a\<lparr>al_state := ''escalated'', al_escalated_at := Some now\<rparr>))"
  by (simp add: apply_action_def escalate_alert_def am_set_def Let_def split: option.split)

interpretation store: alert_store "apply_action now" ea_alert_id alert_state "''escalated''" for now
proof
  show "alert_state (apply_action now s a) (ea_alert_id a) = Some ''escalated''"
    if "alert_state s (ea_alert_id a) \<noteq> None" for s a
    using that by (auto simp: alert_state_def get_alert_def apply_action_alerts)
  show "alert_state (apply_action now s a) i = alert_state s i" if "i \<noteq> ea_alert_id a" for s a i
    using that by (auto simp: alert_state_def get_alert_def apply_action_alerts split: option.split)
  show "alert_state (apply_action now s a) (ea_alert_id a) = None"
    if "alert_state s (ea_alert_id a) = None" for s a
    using that by (auto simp: alert_state_def get_alert_def apply_action_alerts)
qed

section \<open>Which actions a check triggers\<close>

definition fires :: "pyrt \<Rightarrow> (string \<Rightarrow> string \<Rightarrow> bool) \<Rightarrow> rat \<Rightarrow> alert \<Rightarrow> escalation_rule \<Rightarrow> bool" where
  "fires R search clock a r \<longleftrightarrow> er_enabled r \<and> matches_rule search a r
     \<and> (case iso_of R (utc_text (al_created_at a)) of
          Some (t, True) \<Rightarrow> of_int (er_auto_escalate_after_minutes r) \<le> (clock - t) / 60
        | _ \<Rightarrow> False)"

lemma process_rules_actions:
  "process_rules R search now clock a rs s = Some (acts, s') \<Longrightarrow>
     acts = map (action_of a) (filter (fires R search clock a) rs) \<and> s' = foldl (execute_escalation now) s acts"
  by (induction R search now clock a rs s arbitrary: acts s' rule: process_rules.induct)
    (auto simp: fires_def split: if_splits option.splits bool.splits)

lemma execute_frame: "snd (execute_escalation now s act) = (snd s)\<lparr>eg_calls := eg_calls (snd (execute_escalation now s act))\<rparr>"
  by (cases s) (simp add: execute_escalation_def)

lemma execute_rules: "eg_rules (snd (foldl (execute_escalation now) s acts)) = eg_rules (snd s)"
proof (induction acts arbitrary: s)
  case (Cons a acts)
  have "eg_rules (snd (execute_escalation now s a)) = eg_rules (snd s)"
    by (cases s) (simp add: execute_escalation_def)
  with Cons [of "execute_escalation now s a"] show ?case by simp
qed simp

lemma execute_manager: "fst (foldl (execute_escalation now) s acts) = foldl (apply_action now) (fst s) acts"
proof (induction acts arbitrary: s)
  case (Cons a acts)
  have "fst (execute_escalation now s a) = apply_action now (fst s) a"
    by (cases s) (simp add: execute_escalation_def apply_action_def)
  with Cons show ?case by simp
qed simp

lemma process_all_actions:
  "process_all R search now clock as s = Some (acts, s') \<Longrightarrow>
     acts = concat (map (\<lambda>a. map (action_of a) (filter (fires R search clock a) (map snd (eg_rules (snd s))))) as)
   \<and> s' = foldl (execute_escalation now) s acts"
proof (induction as arbitrary: s acts s')
  case (Cons a as)
  obtain acts1 s1 where one: "process_alert R search now clock s a = Some (acts1, s1)"
    using Cons.prems by (auto split: option.splits)
  then obtain acts2 where two: "process_all R search now clock as s1 = Some (acts2, s')" "acts = acts1 @ acts2"
    using Cons.prems by auto
  note p1 = process_rules_actions [OF one [unfolded process_alert_def]]
  have "eg_rules (snd s1) = eg_rules (snd s)" using p1 execute_rules by auto
  with Cons.IH [OF two(1)] p1 two(2) show ?case by simp
qed simp

section \<open>The newest alerts first\<close>

lemma newest_first_set [simp]: "set (newest_first as) = set as"
  by (simp add: newest_first_def)

lemma newest_first_sorted: "sorted_wrt (\<lambda>a b. al_created_at b \<le> al_created_at a) (newest_first as)"
proof -
  have "sorted (map al_created_at (sort_key al_created_at (rev as)))" by simp
  then show ?thesis by (simp add: newest_first_def sorted_wrt_rev sorted_map)
qed

lemma newest_first_mset: "mset (newest_first as) = mset as"
  by (simp add: newest_first_def)

lemma beyond_limit:
  assumes "n \<le> length (filter (\<lambda>x. al_created_at a < al_created_at x) as)"
  shows "a \<notin> set (take n (newest_first as))"
proof
  let ?L = "newest_first as" and ?P = "\<lambda>x. al_created_at a < al_created_at x"
  assume "a \<in> set (take n ?L)"
  then obtain i where i: "i < n" "i < length ?L" "?L ! i = a" by (auto simp: in_set_conv_nth)
  have "\<not> ?P (?L ! j)" if "i \<le> j" "j < length ?L" for j
    using newest_first_sorted [of as] i that by (cases "i = j") (auto simp: sorted_wrt_iff_nth_less leD)
  then have "filter ?P (drop i ?L) = []" by (auto simp: filter_empty_conv in_set_conv_nth)
  then have "filter ?P ?L = filter ?P (take i ?L)" by (metis append.right_neutral append_take_drop_id filter_append)
  then have "length (filter ?P ?L) \<le> i"
    using length_filter_le [of ?P "take i ?L"] by simp
  moreover have "length (filter ?P ?L) = length (filter ?P as)"
    by (metis mset_filter newest_first_mset size_mset)
  ultimately show False using assms i(1) by simp
qed

text \<open>The store's dictionary is keyed by alert id.\<close>

definition keyed :: "alert_manager \<Rightarrow> bool" where
  "keyed m \<longleftrightarrow> wf_dict (am_alerts m) \<and> (\<forall>(i, a) \<in> set (am_alerts m). al_id a = i)"

lemma keyed_state:
  assumes "keyed m" "a \<in> set (map snd (am_alerts m))"
  shows "alert_state m (al_id a) = Some (al_state a)"
proof -
  obtain i where "(i, a) \<in> set (am_alerts m)" using assms(2) by auto
  moreover from this have "al_id a = i" using assms(1) by (auto simp: keyed_def)
  ultimately show ?thesis using assms(1) by (simp add: keyed_def alert_state_def get_alert_def)
qed

lemma check_state:
  assumes "check_all_pending_alerts R search now clock (m, g) = Some (acts, (m', g'))"
  shows "alert_state m' i =
     (if (\<exists>a \<in> set (list_alerts m (Some ''active'') None None 100). al_id a = i
            \<and> (\<exists>r \<in> set (map snd (eg_rules g)). fires R search clock a r)) \<and> alert_state m i \<noteq> None
      then Some ''escalated'' else alert_state m i)"
proof -
  let ?pend = "list_alerts m (Some ''active'') None None 100"
  have p: "acts = concat (map (\<lambda>a. map (action_of a) (filter (fires R search clock a) (map snd (eg_rules g)))) ?pend)"
    "(m', g') = foldl (execute_escalation now) (m, g) acts"
    using process_all_actions [OF assms [unfolded check_all_pending_alerts_def]] by auto
  have "m' = foldl (apply_action now) m acts" using arg_cong [OF p(2), of fst] execute_manager by simp
  moreover have "i \<in> ea_alert_id ` set acts \<longleftrightarrow> (\<exists>a \<in> set ?pend. al_id a = i
      \<and> (\<exists>r \<in> set (map snd (eg_rules g)). fires R search clock a r))"
  proof -
    have "map ea_alert_id acts = concat (map (\<lambda>a. map (\<lambda>r. al_id a) (filter (fires R search clock a) (map snd (eg_rules g)))) ?pend)"
      unfolding p(1) by (simp add: map_concat comp_def action_of_def)
    then have "ea_alert_id ` set acts
        = set (concat (map (\<lambda>a. map (\<lambda>r. al_id a) (filter (fires R search clock a) (map snd (eg_rules g)))) ?pend))"
      by (metis list.set_map)
    then show ?thesis by auto
  qed
  ultimately show ?thesis using store.escalate_all [of now m acts i] by simp
qed

text \<open>Acknowledging works on a resolved alert too and leaves its resolution in place.\<close>

lemma acknowledge_reopens:
  "get_alert m i = Some a \<Longrightarrow> al_state a = ''resolved'' \<Longrightarrow>
   \<exists>b m'. acknowledge_alert now m i u note = Inr (b, m') \<and> alert_state m' i = Some ''acknowledged''
     \<and> al_resolved_at b = al_resolved_at a"
  by (simp add: acknowledge_alert_def get_alert_def alert_state_def am_set_def Let_def)

section \<open>Properties\<close>

text \<open>
  Claim C35. A check escalates exactly what is due: after a check that does not raise, an alert is
  escalated if it is among the newest hundred active ones and an enabled rule matches it and its
  time has passed, and its state is unchanged otherwise. In particular no rule ever resolves an
  alert, the one named auto-resolve included.
\<close>

theorem check_escalates_due:
  assumes "check_all_pending_alerts R search now clock (m, g) = Some (acts, (m', g'))" "keyed m"
  shows "alert_state m' i =
     (if \<exists>a \<in> set (list_alerts m (Some ''active'') None None 100). al_id a = i
            \<and> (\<exists>r \<in> set (map snd (eg_rules g)). fires R search clock a r)
      then Some ''escalated'' else alert_state m i)"
proof -
  have ex: "alert_state m (al_id a) \<noteq> None" if "a \<in> set (list_alerts m (Some ''active'') None None 100)" for a
  proof -
    have "a \<in> set (map snd (am_alerts m))" using that by (auto simp: list_alerts_def dest!: in_set_takeD)
    with keyed_state [OF assms(2)] show ?thesis by simp
  qed
  have "alert_state m i \<noteq> None" if due: "\<exists>a \<in> set (list_alerts m (Some ''active'') None None 100). al_id a = i
            \<and> (\<exists>r \<in> set (map snd (eg_rules g)). fires R search clock a r)"
  proof -
    obtain a where "a \<in> set (list_alerts m (Some ''active'') None None 100)" "al_id a = i"
      using due by (elim bexE conjE)
    with ex [of a] show ?thesis by simp
  qed
  with check_state [OF assms(1), of i] show ?thesis by argo
qed

text \<open>
  Old alerts starve: an active alert with at least a hundred newer active ones is never
  touched by a check, however long it is overdue, because the engine lists the pending alerts with the
  default limit of a hundred, newest first.
\<close>

theorem old_alerts_starve:
  assumes "check_all_pending_alerts R search now clock (m, g) = Some (acts, (m', g'))" "keyed m"
    and "a \<in> set (map snd (am_alerts m))" "al_state a = ''active''"
    and "100 \<le> length (filter (\<lambda>x. al_created_at a < al_created_at x)
           (filter (\<lambda>x. al_state x = ''active'') (map snd (am_alerts m))))"
  shows "alert_state m' (al_id a) = Some ''active''"
proof -
  let ?act = "filter (\<lambda>x. al_state x = ''active'') (map snd (am_alerts m))"
  have pend: "list_alerts m (Some ''active'') None None 100 = take 100 (newest_first ?act)"
    by (simp add: list_alerts_def matches_def)
  have out: "a \<notin> set (list_alerts m (Some ''active'') None None 100)"
    unfolding pend by (rule beyond_limit [OF assms(5)])
  have "b = a" if "b \<in> set (list_alerts m (Some ''active'') None None 100)" "al_id b = al_id a" for b
  proof -
    have "b \<in> set (map snd (am_alerts m))" using that(1) by (auto simp: list_alerts_def dest!: in_set_takeD)
    then obtain i j where "(i, b) \<in> set (am_alerts m)" "(j, a) \<in> set (am_alerts m)" using assms(3) by auto
    moreover from this have "i = al_id b" "j = al_id a" using assms(2) by (auto simp: keyed_def)
    ultimately show ?thesis using assms(2) that(2) by (auto simp: keyed_def dest: eq_key_imp_eq_value)
  qed
  with out check_state [OF assms(1), of "al_id a"] keyed_state [OF assms(2,3)] assms(4) show ?thesis by auto
qed

definition demo_alert :: "string \<Rightarrow> string \<Rightarrow> string \<Rightarrow> alert" where
  "demo_alert i sev t =
     \<lparr>al_id = i, al_asset_id = ''pump'', al_tag = ''temp'', al_severity = sev, al_message = [],
      al_triggered_rules = [], al_state = ''active'', al_created_at = t, al_acknowledged_at = None,
      al_acknowledged_by = None, al_acknowledgment_note = None, al_escalated_at = None, al_resolved_at = None,
      al_resolved_by = None, al_resolution_note = None, al_source_event_id = None\<rparr>"

definition demo_manager :: "(string \<times> alert) list \<Rightarrow> alert_manager" where
  "demo_manager as = \<lparr>am_alerts = as, am_acknowledgments = [], am_persistent = False, am_disk = None,
     am_rbac = \<lparr>rb_users = [], rb_tenants = [], rb_log = []\<rparr>, am_notified = []\<rparr>"

definition zero_clock :: pyrt where
  "zero_clock = demo_rt\<lparr>iso_of := (\<lambda>_. Some (0, True))\<rparr>"

definition demo_rule :: escalation_rule where
  "demo_rule = \<lparr>er_id = ''r'', er_name = ''R'', er_description = [], er_severity_filter = [''critical''],
     er_asset_pattern = None, er_tag_pattern = None, er_auto_escalate_after_minutes = 15,
     er_auto_resolve_after_minutes = None, er_notify_channels = [], er_escalate_to_role = None, er_enabled = True\<rparr>"

definition demo_engine :: engine where
  "demo_engine = \<lparr>eg_rules = [(''r'', demo_rule)], eg_handlers = 0, eg_calls = []\<rparr>"

lemma process_rules_total:
  "iso_of R (utc_text (al_created_at a)) = Some (t, True) \<Longrightarrow> \<exists>x. process_rules R search now clock a rs s = Some x"
proof (induction rs arbitrary: s)
  case (Cons r rs)
  then show ?case by (auto simp del: split_paired_Ex)
qed simp

lemma zero_clock_total: "\<exists>x. process_all zero_clock search now clock as s = Some x"
proof (induction as arbitrary: s)
  case (Cons a as)
  have "iso_of zero_clock (utc_text (al_created_at a)) = Some (0, True)" by (simp add: zero_clock_def)
  then obtain acts s1 where "process_alert zero_clock search now clock s a = Some (acts, s1)"
    using process_rules_total unfolding process_alert_def by (metis prod.exhaust)
  with Cons [of s1] show ?case by auto
qed simp

lemma check_total: "\<exists>acts m' g'. check_all_pending_alerts zero_clock search now clock s = Some (acts, (m', g'))"
  unfolding check_all_pending_alerts_def using zero_clock_total by (metis prod.exhaust)

theorem check_escalates_due_witness:
  "\<exists>acts m' g'. check_all_pending_alerts zero_clock (\<lambda>_ _. True) ''now'' 1000
      (demo_manager [(''a'', demo_alert ''a'' ''critical'' ''t''), (''b'', demo_alert ''b'' ''info'' ''t'')], demo_engine)
        = Some (acts, (m', g'))
    \<and> alert_state m' ''a'' = Some ''escalated'' \<and> alert_state m' ''b'' = Some ''active''"
proof -
  let ?a = "demo_alert ''a'' ''critical'' ''t''" and ?b = "demo_alert ''b'' ''info'' ''t''"
  let ?m = "demo_manager [(''a'', ?a), (''b'', ?b)]"
  obtain acts m' g' where c: "check_all_pending_alerts zero_clock (\<lambda>_ _. True) ''now'' 1000 (?m, demo_engine)
      = Some (acts, (m', g'))" using check_total by blast
  have k: "keyed ?m" by (simp add: keyed_def demo_manager_def demo_alert_def)
  have pend: "set (list_alerts ?m (Some ''active'') None None 100) = {?a, ?b}"
    by (simp add: list_alerts_def matches_def newest_first_def demo_manager_def demo_alert_def)
  have fa: "fires zero_clock (\<lambda>_ _. True) 1000 ?a demo_rule"
    by (simp add: fires_def demo_rule_def demo_alert_def matches_rule_def pattern_ok_def zero_clock_def)
  have fb: "\<not> fires zero_clock (\<lambda>_ _. True) 1000 ?b demo_rule"
    by (simp add: fires_def demo_rule_def demo_alert_def matches_rule_def)
  have r: "set (eg_rules demo_engine) = {(''r'', demo_rule)}" by (simp add: demo_engine_def)
  have ids: "al_id ?a = ''a''" "al_id ?b = ''b''" by (simp_all add: demo_alert_def)
  have "alert_state m' ''a'' = Some ''escalated''"
    using check_escalates_due [OF c k, of "''a''"] fa by (simp add: pend r ids)
  moreover have "alert_state m' ''b'' = alert_state ?m ''b''"
    using check_escalates_due [OF c k, of "''b''"] fb by (simp add: pend r ids)
  then have "alert_state m' ''b'' = Some ''active''"
    by (simp add: alert_state_def get_alert_def demo_manager_def demo_alert_def)
  ultimately show ?thesis using c by (intro exI conjI)
qed

theorem old_alerts_starve_witness:
  "\<exists>acts m' g'. check_all_pending_alerts zero_clock (\<lambda>_ _. True) ''now'' 1000
      (demo_manager ((''old'', demo_alert ''old'' ''critical'' ''1'')
         # map (\<lambda>n. (nat_str n, demo_alert (nat_str n) ''info'' ''2'')) [0..<100]), demo_engine)
        = Some (acts, (m', g'))
    \<and> alert_state m' ''old'' = Some ''active''"
proof -
  let ?as = "(''old'', demo_alert ''old'' ''critical'' ''1'')
         # map (\<lambda>n. (nat_str n, demo_alert (nat_str n) ''info'' ''2'')) [0..<100]"
  obtain acts m' g' where c: "check_all_pending_alerts zero_clock (\<lambda>_ _. True) ''now'' 1000 (demo_manager ?as, demo_engine)
      = Some (acts, (m', g'))" using check_total by blast
  have old: "\<not> digit CHR ''o''" by (simp add: digit_def)
  have "nat_str n \<noteq> ''old''" for n
  proof
    assume "nat_str n = ''old''"
    with nat_str_digits [of n] have "digit CHR ''o''" by (metis list.set_intros(1))
    with old show False by simp
  qed
  then have d: "''old'' \<notin> set (map nat_str [0..<100])" by (metis (no_types, lifting) imageE list.set_map)
  have k: "keyed (demo_manager ?as)"
    using d by (auto simp: keyed_def demo_manager_def demo_alert_def comp_def distinct_map inj_on_def simp del: upt_Suc)
  have mem: "demo_alert ''old'' ''critical'' ''1'' \<in> set (map snd (am_alerts (demo_manager ?as)))"
    by (simp add: demo_manager_def)
  have newer: "filter (\<lambda>x. al_created_at (demo_alert ''old'' ''critical'' ''1'') < al_created_at x)
      (filter (\<lambda>x. al_state x = ''active'') (map snd (am_alerts (demo_manager ?as))))
    = map (\<lambda>n. demo_alert (nat_str n) ''info'' ''2'') [0..<100]"
    by (simp add: demo_manager_def demo_alert_def comp_def filter_map del: upt_Suc)
  have st: "al_state (demo_alert ''old'' ''critical'' ''1'') = ''active''" by (simp add: demo_alert_def)
  have "100 \<le> length (filter (\<lambda>x. al_created_at (demo_alert ''old'' ''critical'' ''1'') < al_created_at x)
      (filter (\<lambda>x. al_state x = ''active'') (map snd (am_alerts (demo_manager ?as)))))"
    unfolding newer by simp
  from old_alerts_starve [OF c k mem st this]
  have "alert_state m' ''old'' = Some ''active''" by (simp add: demo_alert_def)
  with c show ?thesis by (intro exI conjI)
qed

end
