(* ===== verification/Fanout.thy ===== *)
theory Fanout
  imports Federation
begin

text \<open>
  The fan-out consumers of \<open>services/processor/\<close> (\<open>normalized_fanout.py\<close>, \<open>processed_fanout.py\<close>,
  \<open>operational_fanout.py\<close>, \<open>artifact_fanout.py\<close>, \<open>raw_lakehouse_archive.py\<close>, \<open>ai_enriched_fanout.py\<close>),
  the composite sink they write to (\<open>services/sinks/base.py\<close>), the dead-letter helper
  (\<open>services/common/kafka_dlq.py\<close>) and the policy of the raw archive (\<open>raw_archive_policy.py\<close>).

  A topic is a list of messages per partition; a consumer has a position and a committed offset per
  partition. The answers of the endpoints, of the broker and of the clock are arguments of a turn.
  A raised exception is the text \<open>Some e\<close> beside the state it leaves. Metrics, progress output and
  the lag probe are not modelled.
\<close>

section \<open>Sinks\<close>

text \<open>
  An endpoint holds the batches it accepted in full (an acceptance of fewer events promises
  nothing) and stores what it holds when it is flushed.
\<close>

record sink =
  sk_name :: string
  sk_held :: "pyval list"
  sk_stored :: "pyval list"

text \<open>What \<open>write_batch\<close> of the sink with that index returns, or the exception it raises.\<close>

type_synonym write_answer = "nat \<Rightarrow> string + int"
type_synonym flush_answer = "nat \<Rightarrow> string option"

definition sink_take :: "pyval list \<Rightarrow> string + int \<Rightarrow> sink \<Rightarrow> sink" where
  "sink_take events a k = (if a = Inr (int (length events)) then k\<lparr>sk_held := sk_held k @ events\<rparr> else k)"

definition sink_settle :: "string option \<Rightarrow> sink \<Rightarrow> sink" where
  "sink_settle a k = (if a = None then k\<lparr>sk_held := [], sk_stored := sk_stored k @ sk_held k\<rparr> else k)"

text \<open>\<open>CompositeSink\<close>: the sinks after the call, what was accepted, the failures; \<open>i\<close> is the
  index of the first sink.\<close>

fun write_each :: "pyval list \<Rightarrow> write_answer \<Rightarrow> nat \<Rightarrow> sink list \<Rightarrow> sink list \<times> int \<times> string list" where
  "write_each events w i [] = ([], 0, [])"
| "write_each events w i (k # ks) =
     (case write_each events w (Suc i) ks of (ks', accepted, failures) \<Rightarrow>
       (case w i of
          Inl e \<Rightarrow> (sink_take events (w i) k # ks', accepted, (sk_name k @ '': '' @ e) # failures)
        | Inr n \<Rightarrow> (sink_take events (w i) k # ks', n + accepted,
            (if n \<noteq> int (length events)
             then [sk_name k @ '' accepted '' @ int_str n @ ''/'' @ nat_str (length events)] else []) @ failures)))"

definition write_batch :: "pyval list \<Rightarrow> write_answer \<Rightarrow> sink list \<Rightarrow> sink list \<times> int" where
  "write_batch events w ks =
     (if events = [] then (ks, 0) else (case write_each events w 0 ks of (ks', n, _) \<Rightarrow> (ks', n)))"

definition write_batch_strict :: "pyval list \<Rightarrow> write_answer \<Rightarrow> sink list \<Rightarrow> sink list \<times> (string + int)" where
  "write_batch_strict events w ks =
     (if events = [] then (ks, Inr 0)
      else (case write_each events w 0 ks of (ks', n, failures) \<Rightarrow>
              (ks', if failures \<noteq> [] then Inl (join ''; '' failures) else Inr n)))"

fun flush_each :: "flush_answer \<Rightarrow> nat \<Rightarrow> sink list \<Rightarrow> sink list \<times> string list" where
  "flush_each f i [] = ([], [])"
| "flush_each f i (k # ks) =
     (case flush_each f (Suc i) ks of (ks', failures) \<Rightarrow>
        (sink_settle (f i) k # ks', (case f i of None \<Rightarrow> [] | Some e \<Rightarrow> [sk_name k @ '': '' @ e]) @ failures))"

definition flush_strict :: "flush_answer \<Rightarrow> sink list \<Rightarrow> sink list \<times> string option" where
  "flush_strict f ks =
     (case flush_each f 0 ks of (ks', failures) \<Rightarrow>
        (ks', if failures \<noteq> [] then Some (join ''; '' failures) else None))"

text \<open>The sinks of \<open>SINKS\<close>: the names in order; a name that is unknown or that cannot be built is
  left out with a warning.\<close>

definition sink_names :: "string \<Rightarrow> string list option \<Rightarrow> string list" where
  "sink_names setting routed =
     (let names = map (\<lambda>n. py_lower (py_strip n)) (filter (\<lambda>n. py_strip n \<noteq> []) (split_on (CHR '','') setting))
      in if names = [] then (case routed of None \<Rightarrow> [] | Some rs \<Rightarrow> rs) else names)"

definition sink_build :: "(string \<Rightarrow> bool) \<Rightarrow> string \<Rightarrow> sink option" where
  "sink_build builds name =
     (if name \<in> {''historian'', ''kafka'', ''lakehouse''} \<and> builds name
      then Some \<lparr>sk_name = name, sk_held = [], sk_stored = []\<rparr> else None)"

definition sinks_from_env :: "(string \<Rightarrow> bool) \<Rightarrow> string \<Rightarrow> string list option \<Rightarrow> sink list" where
  "sinks_from_env builds setting routed = List.map_filter (sink_build builds) (sink_names setting routed)"

section \<open>Messages and the state of a consumer\<close>

text \<open>A message: its bytes as text and what \<open>json.loads\<close> makes of them.\<close>

record kmessage =
  km_text :: string
  km_json :: "pyval option"

type_synonym klog = "nat \<Rightarrow> kmessage list"

record fanout =
  fo_pos :: "nat \<Rightarrow> nat"              \<comment> \<open>next offset to poll, per partition\<close>
  fo_committed :: "nat \<Rightarrow> nat"
  fo_buffer :: "pyval list"
  fo_offsets :: "(nat \<times> nat) list"    \<comment> \<open>partition and offset of each buffered event\<close>
  fo_sinks :: "sink list"
  fo_dlq :: "(string \<times> pydict \<times> bool) list"  \<comment> \<open>key and payload of the dead letters taken for published, and whether they arrived\<close>
  fo_running :: bool

text \<open>What the world answers during a turn.\<close>

record fan_env =
  fe_now :: string
  fe_due :: bool                     \<comment> \<open>the flush interval has passed\<close>
  fe_write :: write_answer
  fe_flush :: flush_answer
  fe_commit :: "string option"       \<comment> \<open>the exception of the commit of a batch\<close>
  fe_flushed :: bool                 \<comment> \<open>\<open>flush\<close> of the dead letter answered 0: the queue is empty\<close>
  fe_delivered :: bool               \<comment> \<open>the dead letter arrived; else the client gave it up, which no callback reports\<close>
  fe_commit1 :: "string option"      \<comment> \<open>the exception of the commit of a single message\<close>

definition commit_offsets :: "(nat \<times> nat) list \<Rightarrow> (nat \<Rightarrow> nat) \<Rightarrow> nat \<Rightarrow> nat" where
  "commit_offsets pending c = foldl (\<lambda>c (p, n). c(p := n + 1)) c pending"

definition record_key :: "string \<Rightarrow> nat \<Rightarrow> nat \<Rightarrow> string" where
  "record_key topic p n = topic @ '':'' @ nat_str p @ '':'' @ nat_str n"

definition dlq_payload :: "string \<Rightarrow> string \<Rightarrow> nat \<Rightarrow> nat \<Rightarrow> string \<Rightarrow> string \<Rightarrow> pydict" where
  "dlq_payload now topic p n text error =
     [(''source_protocol'', PStr ''kafka''),
      (''source_id'', PStr (record_key topic p n)),
      (''error'', PStr error),
      (''payload'', PStr (take 16384 text)),
      (''metadata'', PDict [(''source_topic'', PStr topic), (''partition'', PInt (int p)), (''offset'', PInt (int n))]),
      (''ts_ingest'', PStr now),
      (''schema_version'', PInt 1)]"

definition publish_malformed_record ::
    "fan_env \<Rightarrow> string \<Rightarrow> nat \<Rightarrow> nat \<Rightarrow> string \<Rightarrow> string \<Rightarrow> fanout \<Rightarrow> fanout \<times> string option" where
  "publish_malformed_record E topic p n text error s =
     (if fe_flushed E
      then (s\<lparr>fo_dlq := fo_dlq s @ [(record_key topic p n, dlq_payload (fe_now E) topic p n text error, fe_delivered E)]\<rparr>, None)
      else (s, Some ''dead-letter publication was not acknowledged''))"

text \<open>\<open>consumer.commit\<close> of one message.\<close>

definition commit_message :: "fan_env \<Rightarrow> nat \<Rightarrow> nat \<Rightarrow> fanout \<Rightarrow> fanout \<times> string option" where
  "commit_message E p n s =
     (case fe_commit1 E of
        None \<Rightarrow> (s\<lparr>fo_committed := (fo_committed s)(p := n + 1)\<rparr>, None)
      | Some e \<Rightarrow> (s, Some e))"

text \<open>Dead letter, then commit: both end the loop when they raise.\<close>

definition reject_message ::
    "fan_env \<Rightarrow> string \<Rightarrow> nat \<Rightarrow> nat \<Rightarrow> string \<Rightarrow> string \<Rightarrow> fanout \<Rightarrow> fanout \<times> string option" where
  "reject_message E topic p n text error s =
     (case publish_malformed_record E topic p n text error s of
        (s1, None) \<Rightarrow> commit_message E p n s1
      | (s1, Some e) \<Rightarrow> (s1, Some e))"

section \<open>Normalized fan-out\<close>

text \<open>\<open>flush\<close>: the buffer is emptied before the write, and a failed commit is only logged.\<close>

definition normalized_flush :: "nat \<Rightarrow> fan_env \<Rightarrow> bool \<Rightarrow> fanout \<Rightarrow> fanout \<times> string option" where
  "normalized_flush batch_size E force s =
     (if fo_buffer s = [] then (s, None)
      else if \<not> force \<and> length (fo_buffer s) < batch_size \<and> \<not> fe_due E then (s, None)
      else
        (let s1 = s\<lparr>fo_buffer := [], fo_offsets := []\<rparr> in
         case write_batch_strict (fo_buffer s) (fe_write E) (fo_sinks s) of
           (ks, Inl e) \<Rightarrow> (s1\<lparr>fo_sinks := ks\<rparr>, Some e)
         | (ks, Inr accepted) \<Rightarrow>
             (case flush_strict (fe_flush E) ks of
                (ks', Some e) \<Rightarrow> (s1\<lparr>fo_sinks := ks'\<rparr>, Some e)
              | (ks', None) \<Rightarrow>
                  (let s2 = s1\<lparr>fo_sinks := ks'\<rparr> in
                   if fo_offsets s \<noteq> [] \<and> fe_commit E = None
                   then (s2\<lparr>fo_committed := commit_offsets (fo_offsets s) (fo_committed s2)\<rparr>, None)
                   else (s2, None)))))"

definition normalized_decode :: "kmessage \<Rightarrow> string + pyval" where
  "normalized_decode m =
     (case km_json m of None \<Rightarrow> Inl ''normalized fan-out decode failed'' | Some v \<Rightarrow> Inr v)"

definition hold_event :: "nat \<Rightarrow> nat \<Rightarrow> pyval \<Rightarrow> fanout \<Rightarrow> fanout" where
  "hold_event p n v s = s\<lparr>fo_buffer := fo_buffer s @ [v], fo_offsets := fo_offsets s @ [(p, n)]\<rparr>"

definition advance :: "nat \<Rightarrow> fanout \<Rightarrow> fanout" where
  "advance p s = s\<lparr>fo_pos := (fo_pos s)(p := fo_pos s p + 1)\<rparr>"

text \<open>One turn with the message of partition \<open>p\<close> at the position, or with no message.\<close>

definition normalized_turn ::
    "nat \<Rightarrow> string \<Rightarrow> klog \<Rightarrow> fan_env \<Rightarrow> nat option \<Rightarrow> fanout \<Rightarrow> fanout \<times> string option" where
  "normalized_turn batch_size topic msgs E polled s =
     (case polled of
        None \<Rightarrow> normalized_flush batch_size E False s
      | Some p \<Rightarrow>
          (let n = fo_pos s p; m = msgs p ! n; s1 = advance p s in
           case normalized_decode m of
             Inl e \<Rightarrow> reject_message E topic p n (km_text m) e s1
           | Inr v \<Rightarrow> normalized_flush batch_size E False (hold_event p n v s1)))"

text \<open>\<open>reload_sink_routes\<close> when the route file changed: what waits is flushed to the old sinks.\<close>

definition reload_sink_routes ::
    "nat \<Rightarrow> fan_env \<Rightarrow> (string \<Rightarrow> bool) \<Rightarrow> string list \<Rightarrow> fanout \<Rightarrow> fanout \<times> string option" where
  "reload_sink_routes batch_size E builds routed s =
     (case normalized_flush batch_size E True s of
        (s1, None) \<Rightarrow> (s1\<lparr>fo_sinks := sinks_from_env builds [] (Some routed)\<rparr>, None)
      | (s1, Some e) \<Rightarrow> (s1, Some e))"

section \<open>Processed fan-out\<close>

text \<open>The historian takes the batch or raises; whatever happens, the buffer is empty afterwards.\<close>

definition historian_insert :: "pyval list \<Rightarrow> sink list \<Rightarrow> sink list" where
  "historian_insert events ks = map (\<lambda>k. k\<lparr>sk_stored := sk_stored k @ events\<rparr>) ks"

definition processed_flush :: "nat \<Rightarrow> fan_env \<Rightarrow> bool \<Rightarrow> fanout \<Rightarrow> fanout \<times> string option" where
  "processed_flush batch_size E force s =
     (if fo_buffer s = [] then (s, None)
      else if \<not> force \<and> length (fo_buffer s) < batch_size \<and> \<not> fe_due E then (s, None)
      else
        (let s1 = s\<lparr>fo_buffer := [], fo_offsets := []\<rparr> in
         case fe_write E 0 of
           Inl e \<Rightarrow> (s1, Some e)
         | Inr _ \<Rightarrow>
             (let s2 = s1\<lparr>fo_sinks := historian_insert (fo_buffer s) (fo_sinks s)\<rparr> in
              if fo_offsets s = [] then (s2, None)
              else (case fe_commit E of
                      None \<Rightarrow> (s2\<lparr>fo_committed := commit_offsets (fo_offsets s) (fo_committed s2)\<rparr>, None)
                    | Some e \<Rightarrow> (s2, Some e)))))"

definition processed_decode :: "kmessage \<Rightarrow> string + pyval" where
  "processed_decode m =
     (case km_json m of
        Some (PDict d) \<Rightarrow> Inr (PDict d)
      | _ \<Rightarrow> Inl ''processed fan-out decode failed'')"

definition processed_turn ::
    "nat \<Rightarrow> string \<Rightarrow> klog \<Rightarrow> fan_env \<Rightarrow> nat option \<Rightarrow> fanout \<Rightarrow> fanout \<times> string option" where
  "processed_turn batch_size topic msgs E polled s =
     (case polled of
        None \<Rightarrow> processed_flush batch_size E False s
      | Some p \<Rightarrow>
          (let n = fo_pos s p; m = msgs p ! n; s1 = advance p s in
           case processed_decode m of
             Inl e \<Rightarrow> reject_message E topic p n (km_text m) e s1
           | Inr v \<Rightarrow> processed_flush batch_size E False (hold_event p n v s1)))"

section \<open>Archive consumers\<close>

text \<open>
  \<open>flush\<close> of the operational, artifact and raw consumers: the buffer is shortened only after the
  commit, so the final flush of a failed run writes the batch again.
\<close>

definition archive_flush :: "nat \<Rightarrow> fan_env \<Rightarrow> bool \<Rightarrow> fanout \<Rightarrow> fanout \<times> string option" where
  "archive_flush batch_size E force s =
     (if fo_buffer s = [] \<or> \<not> force \<and> length (fo_buffer s) < batch_size \<and> \<not> fe_due E then (s, None)
      else
        (case write_batch_strict (fo_buffer s) (fe_write E) (fo_sinks s) of
           (ks, Inl e) \<Rightarrow> (s\<lparr>fo_sinks := ks\<rparr>, Some e)
         | (ks, Inr accepted) \<Rightarrow>
             (case flush_strict (fe_flush E) ks of
                (ks', Some e) \<Rightarrow> (s\<lparr>fo_sinks := ks'\<rparr>, Some e)
              | (ks', None) \<Rightarrow>
                  (case fe_commit E of
                     Some e \<Rightarrow> (s\<lparr>fo_sinks := ks'\<rparr>, Some e)
                   | None \<Rightarrow>
                       (s\<lparr>fo_sinks := ks',
                          fo_committed := commit_offsets (fo_offsets s) (fo_committed s),
                          fo_buffer := drop (length (fo_buffer s)) (fo_buffer s),
                          fo_offsets := drop (length (fo_offsets s)) (fo_offsets s)\<rparr>, None)))))"

text \<open>A turn: a rejected message waits for the events before it.\<close>

definition archive_turn ::
    "(kmessage \<Rightarrow> string + pyval) \<Rightarrow> nat \<Rightarrow> string \<Rightarrow> klog \<Rightarrow> fan_env \<Rightarrow> nat option \<Rightarrow> fanout \<Rightarrow> fanout \<times> string option" where
  "archive_turn decode batch_size topic msgs E polled s =
     (case polled of
        None \<Rightarrow> archive_flush batch_size E False s
      | Some p \<Rightarrow>
          (let n = fo_pos s p; m = msgs p ! n; s1 = advance p s in
           case decode m of
             Inl e \<Rightarrow>
               (case archive_flush batch_size E True s1 of
                  (s2, None) \<Rightarrow> reject_message E topic p n (km_text m) e s2
                | (s2, Some e) \<Rightarrow> (s2, Some e))
           | Inr v \<Rightarrow> archive_flush batch_size E False (hold_event p n v s1)))"

definition operational_decode :: "kmessage \<Rightarrow> string + pyval" where
  "operational_decode m =
     (case km_json m of
        None \<Rightarrow> Inl ''operational fanout decode failed''
      | Some (PDict d) \<Rightarrow> Inr (PDict (dict_set d ''event_stage'' (PStr ''operational'')))
      | Some _ \<Rightarrow> Inl ''operational event must be a JSON object'')"

definition operational_turn ::
    "nat \<Rightarrow> string \<Rightarrow> klog \<Rightarrow> fan_env \<Rightarrow> nat option \<Rightarrow> fanout \<Rightarrow> fanout \<times> string option" where
  "operational_turn = archive_turn operational_decode"

definition artifact_decode :: "kmessage \<Rightarrow> string + pyval" where
  "artifact_decode m =
     (case km_json m of
        Some (PDict d) \<Rightarrow> Inr (PDict (dict_set d ''event_stage'' (PStr ''artifact-reference'')))
      | _ \<Rightarrow> Inl ''artifact fanout decode failed'')"

definition artifact_turn ::
    "nat \<Rightarrow> string \<Rightarrow> klog \<Rightarrow> fan_env \<Rightarrow> nat option \<Rightarrow> fanout \<Rightarrow> fanout \<times> string option" where
  "artifact_turn = archive_turn artifact_decode"

text \<open>
  The raw archive. \<open>dumps\<close> is \<open>json.dumps(candidate, sort_keys=True, default=str)\<close>, whose text is
  ASCII. A value that is not an object makes the assignment of the stage raise.
\<close>

record raw_policy =
  rp_dumps :: "pydict \<Rightarrow> string"
  rp_max_bytes :: int
  rp_redact :: "string list"

definition redact_all :: "string list \<Rightarrow> pydict \<Rightarrow> pydict" where
  "redact_all redact d = foldl (\<lambda>d f. if dict_has d f then dict_set d f (PStr ''[REDACTED]'') else d) d redact"

definition sanitize_raw_event :: "raw_policy \<Rightarrow> pydict \<Rightarrow> string + pydict" where
  "sanitize_raw_event P event =
     (let c1 = dict_set (redact_all (rp_redact P) event) ''event_stage'' (PStr ''raw'');
          c2 = dict_set c1 ''payload_json'' (PStr (rp_dumps P c1));
          encoded_size = int (length (rp_dumps P c2))
      in if encoded_size > rp_max_bytes P
         then Inl (''raw payload exceeds max bytes ('' @ int_str encoded_size @ ''>'' @ int_str (rp_max_bytes P) @ '')'')
         else Inr c2)"

definition raw_decode :: "raw_policy \<Rightarrow> kmessage \<Rightarrow> string + pyval" where
  "raw_decode P m =
     (case km_json m of
        Some (PDict d) \<Rightarrow>
          (case sanitize_raw_event P d of
             Inl rejection \<Rightarrow> Inl (''raw archive rejected record: '' @ rejection)
           | Inr e \<Rightarrow>
               (let e1 = dict_default e ''site'' (dict_getd e ''site_id'' (PStr []));
                    e2 = dict_default e1 ''ts_ingest'' (dict_getd e1 ''ts_source'' (PStr []))
                in Inr (PDict e2)))
      | _ \<Rightarrow> Inl ''raw archive decode failed'')"

definition raw_turn ::
    "raw_policy \<Rightarrow> nat \<Rightarrow> string \<Rightarrow> klog \<Rightarrow> fan_env \<Rightarrow> nat option \<Rightarrow> fanout \<Rightarrow> fanout \<times> string option" where
  "raw_turn P = archive_turn (raw_decode P)"

section \<open>AI-enriched fan-out\<close>

text \<open>No buffer: a failed insert is logged and the next message follows; a failed commit is logged.\<close>

definition ai_enriched_turn ::
    "string \<Rightarrow> klog \<Rightarrow> fan_env \<Rightarrow> nat option \<Rightarrow> fanout \<Rightarrow> fanout \<times> string option" where
  "ai_enriched_turn topic msgs E polled s =
     (case polled of
        None \<Rightarrow> (s, None)
      | Some p \<Rightarrow>
          (let n = fo_pos s p; m = msgs p ! n; s1 = advance p s in
           case km_json m of
             None \<Rightarrow> reject_message E topic p n (km_text m) ''AI fan-out decode failed'' s1
           | Some v \<Rightarrow>
               (case fe_write E 0 of
                  Inl _ \<Rightarrow> (s1, None)
                | Inr _ \<Rightarrow>
                    (let s2 = s1\<lparr>fo_sinks := historian_insert [v] (fo_sinks s1)\<rparr>
                     in (fst (commit_message E p n s2), None)))))"

section \<open>The loop\<close>

text \<open>
  A turn ends with a message, with a poll that timed out, with a stop signal or with the process
  killed; a raised exception or the signal leave the loop, and \<open>finally\<close> flushes once more, with
  the answers of \<open>fi_last\<close>. A killed or stopped consumer may be started again: it resumes at the
  committed offsets with an empty buffer.
\<close>

datatype fan_event = Turn "nat option" | StopSignal | Kill | Start

record fan_input =
  fi_event :: fan_event
  fi_env :: fan_env
  fi_last :: fan_env

definition fan_stop :: "(fan_env \<Rightarrow> bool \<Rightarrow> fanout \<Rightarrow> fanout \<times> string option) \<Rightarrow> fan_env \<Rightarrow> fanout \<Rightarrow> fanout" where
  "fan_stop flush E s = (fst (flush E True s))\<lparr>fo_running := False\<rparr>"

definition fan_start :: "fanout \<Rightarrow> fanout" where
  "fan_start s = s\<lparr>fo_pos := fo_committed s, fo_buffer := [], fo_offsets := [], fo_sinks := map (\<lambda>k. k\<lparr>sk_held := []\<rparr>) (fo_sinks s),
     fo_running := True\<rparr>"

definition fan_step ::
    "(fan_env \<Rightarrow> bool \<Rightarrow> fanout \<Rightarrow> fanout \<times> string option)
     \<Rightarrow> (fan_env \<Rightarrow> nat option \<Rightarrow> fanout \<Rightarrow> fanout \<times> string option) \<Rightarrow> klog \<Rightarrow> fan_input \<Rightarrow> fanout \<Rightarrow> fanout" where
  "fan_step flush turn msgs I s =
     (case fi_event I of
        Start \<Rightarrow> (if fo_running s then s else fan_start s)
      | Kill \<Rightarrow> s\<lparr>fo_running := False\<rparr>
      | StopSignal \<Rightarrow> (if fo_running s then fan_stop flush (fi_last I) s else s)
      | Turn polled \<Rightarrow>
          (if \<not> fo_running s \<or> (case polled of None \<Rightarrow> False | Some p \<Rightarrow> length (msgs p) \<le> fo_pos s p) then s
           else (case turn (fi_env I) polled s of
                   (s1, None) \<Rightarrow> s1
                 | (s1, Some _) \<Rightarrow> fan_stop flush (fi_last I) s1)))"

definition fan_run ::
    "(fan_env \<Rightarrow> bool \<Rightarrow> fanout \<Rightarrow> fanout \<times> string option)
     \<Rightarrow> (fan_env \<Rightarrow> nat option \<Rightarrow> fanout \<Rightarrow> fanout \<times> string option) \<Rightarrow> klog \<Rightarrow> fan_input list \<Rightarrow> fanout \<Rightarrow> fanout" where
  "fan_run flush turn msgs is s = foldl (\<lambda>s i. fan_step flush turn msgs i s) s is"

definition new_fanout :: "sink list \<Rightarrow> fanout" where
  "new_fanout ks =
     \<lparr>fo_pos = (\<lambda>_. 0), fo_committed = (\<lambda>_. 0), fo_buffer = [], fo_offsets = [], fo_sinks = ks,
      fo_dlq = [], fo_running = True\<rparr>"

section \<open>Growth of the sinks\<close>

definition stores :: "pyval \<Rightarrow> sink list \<Rightarrow> bool" where
  "stores v ks = (\<forall>k \<in> set ks. v \<in> set (sk_stored k))"

definition sink_grows :: "sink \<Rightarrow> sink \<Rightarrow> bool" where
  "sink_grows k k' \<longleftrightarrow> set (sk_stored k) \<subseteq> set (sk_stored k')"

lemma grows_refl [simp]: "list_all2 sink_grows ks ks"
  by (rule list.rel_refl) (simp add: sink_grows_def)

lemma grows_trans: "list_all2 sink_grows ks ks1 \<Longrightarrow> list_all2 sink_grows ks1 ks2 \<Longrightarrow> list_all2 sink_grows ks ks2"
  by (fastforce simp: list_all2_conv_all_nth sink_grows_def)

lemma list_all2_right: "list_all2 P xs ys \<Longrightarrow> y \<in> set ys \<Longrightarrow> \<exists>x \<in> set xs. P x y"
  by (metis list_all2_conv_all_nth in_set_conv_nth)

lemma stores_grows:
  assumes "stores v ks" and "list_all2 sink_grows ks ks'"
  shows "stores v ks'"
  unfolding stores_def
proof
  fix k'
  assume "k' \<in> set ks'"
  from list_all2_right [OF assms(2) this] assms(1) show "v \<in> set (sk_stored k')"
    by (auto simp: stores_def sink_grows_def)
qed

lemma write_each_grows:
  "write_each ev w i ks = (ks', n, fs) \<Longrightarrow>
     list_all2 (\<lambda>k k'. sk_stored k' = sk_stored k \<and> (fs = [] \<longrightarrow> set ev \<subseteq> set (sk_held k'))) ks ks'"
proof (induction ks arbitrary: i ks' n fs)
  case (Cons k ks)
  obtain ks1 n1 fs1 where rest: "write_each ev w (Suc i) ks = (ks1, n1, fs1)" by (metis prod.exhaust)
  from Cons.IH [OF this] Cons.prems rest show ?case
    by (cases "w i") (auto simp: sink_take_def split: if_splits elim!: list.rel_mono_strong)
qed simp

lemma flush_each_grows:
  "flush_each f i ks = (ks', fs) \<Longrightarrow>
     list_all2 (\<lambda>k k'. sink_grows k k' \<and> (fs = [] \<longrightarrow> set (sk_held k) \<subseteq> set (sk_stored k'))) ks ks'"
proof (induction ks arbitrary: i ks' fs)
  case (Cons k ks)
  obtain ks1 fs1 where rest: "flush_each f (Suc i) ks = (ks1, fs1)" by fastforce
  from Cons.IH [OF this] Cons.prems rest show ?case
    by (cases "f i") (auto simp: sink_settle_def sink_grows_def elim!: list.rel_mono_strong)
qed simp

lemma write_strict_grows:
  assumes "write_batch_strict ev w ks = (ks', r)"
  shows "list_all2 sink_grows ks ks'"
proof (cases "ev = []")
  case False
  obtain ks1 n fs where each: "write_each ev w 0 ks = (ks1, n, fs)" by (metis prod.exhaust)
  from write_each_grows [OF this] show ?thesis
    using assms each False by (auto simp: write_batch_strict_def sink_grows_def elim!: list.rel_mono_strong)
qed (use assms in \<open>simp add: write_batch_strict_def\<close>)

lemma flush_strict_grows:
  assumes "flush_strict f ks = (ks', r)"
  shows "list_all2 sink_grows ks ks'"
proof -
  obtain ks1 fs where each: "flush_each f 0 ks = (ks1, fs)" by fastforce
  from flush_each_grows [OF this] show ?thesis
    using assms each by (auto simp: flush_strict_def elim!: list.rel_mono_strong)
qed

lemma strict_delivers:
  assumes "write_batch_strict ev w ks = (ks1, Inr n)" "flush_strict f ks1 = (ks2, None)" and "v \<in> set ev"
  shows "stores v ks2"
proof -
  from assms(3) have "ev \<noteq> []" by auto
  then have w: "write_each ev w 0 ks = (ks1, n, [])"
    using assms(1) by (auto simp: write_batch_strict_def split: prod.splits if_splits)
  have f: "flush_each f 0 ks1 = (ks2, [])"
    using assms(2) by (auto simp: flush_strict_def split: prod.splits if_splits)
  show ?thesis
    unfolding stores_def
  proof
    fix k2
    assume "k2 \<in> set ks2"
    from list_all2_right [OF flush_each_grows [OF f] this] obtain k1 where
      k1: "k1 \<in> set ks1" "set (sk_held k1) \<subseteq> set (sk_stored k2)" by auto
    from list_all2_right [OF write_each_grows [OF w] k1(1)] assms(3) k1(2) show "v \<in> set (sk_stored k2)"
      by auto
  qed
qed

lemma historian_grows: "list_all2 sink_grows ks (historian_insert ev ks)"
  by (auto simp: historian_insert_def sink_grows_def list_all2_conv_all_nth)

lemma historian_stores: "v \<in> set ev \<Longrightarrow> stores v (historian_insert ev ks)"
  by (auto simp: historian_insert_def stores_def)

section \<open>What a committed offset promises\<close>

definition in_dead_letter_topic :: "fanout \<Rightarrow> string \<Rightarrow> bool" where
  "in_dead_letter_topic s k = list_ex (\<lambda>(j, _, arrived). j = k \<and> arrived) (fo_dlq s)"

definition dead_letter_given_up :: "fanout \<Rightarrow> string \<Rightarrow> bool" where
  "dead_letter_given_up s k = list_ex (\<lambda>(j, _, arrived). j = k \<and> \<not> arrived) (fo_dlq s)"

lemma dead_letter_cases: "in_dead_letter_topic s k \<or> dead_letter_given_up s k \<longleftrightarrow> k \<in> fst ` set (fo_dlq s)"
  by (force simp: in_dead_letter_topic_def dead_letter_given_up_def list_ex_iff)

definition handled :: "(kmessage \<Rightarrow> string + pyval) \<Rightarrow> string \<Rightarrow> klog \<Rightarrow> fanout \<Rightarrow> nat \<Rightarrow> nat \<Rightarrow> bool" where
  "handled dec topic msgs s p n =
     (case dec (msgs p ! n) of
        Inl _ \<Rightarrow> in_dead_letter_topic s (record_key topic p n) \<or> dead_letter_given_up s (record_key topic p n)
      | Inr v \<Rightarrow> stores v (fo_sinks s))"

definition fan_safe :: "(kmessage \<Rightarrow> string + pyval) \<Rightarrow> string \<Rightarrow> klog \<Rightarrow> fanout \<Rightarrow> bool" where
  "fan_safe dec topic msgs s \<longleftrightarrow> (\<forall>p. \<forall>n < fo_committed s p. handled dec topic msgs s p n)"

lemma handled_iff:
  "handled dec topic msgs s p n =
     (case dec (msgs p ! n) of Inl _ \<Rightarrow> record_key topic p n \<in> fst ` set (fo_dlq s) | Inr v \<Rightarrow> stores v (fo_sinks s))"
  by (simp only: handled_def dead_letter_cases)

lemma handled_cong:
  "fo_sinks s' = fo_sinks s \<Longrightarrow> fo_dlq s' = fo_dlq s \<Longrightarrow> handled dec topic msgs s' p n = handled dec topic msgs s p n"
  by (simp only: handled_iff)

definition covered :: "(kmessage \<Rightarrow> string + pyval) \<Rightarrow> string \<Rightarrow> klog \<Rightarrow> fanout \<Rightarrow> nat \<Rightarrow> nat \<Rightarrow> bool" where
  "covered dec topic msgs s p n \<longleftrightarrow> handled dec topic msgs s p n \<or> (p, n) \<in> set (fo_offsets s)"

text \<open>The buffer may be written and committed: what its offsets stand for, and that nothing below
  them is missing.\<close>

definition fan_ready :: "(kmessage \<Rightarrow> string + pyval) \<Rightarrow> string \<Rightarrow> klog \<Rightarrow> fanout \<Rightarrow> bool" where
  "fan_ready dec topic msgs s \<longleftrightarrow>
     (\<forall>(p, m) \<in> set (fo_offsets s). \<forall>n \<le> m. covered dec topic msgs s p n)
     \<and> list_all2 (\<lambda>v (p, n). dec (msgs p ! n) = Inr v) (fo_buffer s) (fo_offsets s)"

text \<open>While it runs, what was polled is handled or waits in the buffer.\<close>

definition fan_live :: "(kmessage \<Rightarrow> string + pyval) \<Rightarrow> string \<Rightarrow> klog \<Rightarrow> fanout \<Rightarrow> bool" where
  "fan_live dec topic msgs s \<longleftrightarrow>
     fan_safe dec topic msgs s \<and> fan_ready dec topic msgs s
     \<and> (\<forall>p. \<forall>n < fo_pos s p. covered dec topic msgs s p n)"

lemma handled_grows:
  assumes "handled dec topic msgs s p n" "list_all2 sink_grows (fo_sinks s) (fo_sinks s')"
    "fst ` set (fo_dlq s) \<subseteq> fst ` set (fo_dlq s')"
  shows "handled dec topic msgs s' p n"
  using assms stores_grows by (auto simp: handled_iff split: sum.splits)

lemma commit_offsets_bound:
  "n < commit_offsets pending c p \<Longrightarrow> n < c p \<or> (\<exists>m. (p, m) \<in> set pending \<and> n \<le> m)"
proof (induction pending arbitrary: c)
  case (Cons q pending)
  obtain pq m where q: "q = (pq, m)" by fastforce
  from Cons.prems have "n < commit_offsets pending (c(pq := m + 1)) p"
    by (simp add: commit_offsets_def q)
  from Cons.IH [OF this] show ?case by (auto simp: q split: if_splits)
qed (simp add: commit_offsets_def)

lemma ready_empty: "fan_ready dec topic msgs s \<Longrightarrow> fo_buffer s = [] \<longleftrightarrow> fo_offsets s = []"
  by (auto simp: fan_ready_def)

lemma buffer_stored:
  assumes "fan_ready dec topic msgs s" and "(p, n) \<in> set (fo_offsets s)"
    and "\<And>v. v \<in> set (fo_buffer s) \<Longrightarrow> stores v (fo_sinks s')"
  shows "handled dec topic msgs s' p n"
proof -
  from assms(1) have all: "list_all2 (\<lambda>v (p, n). dec (msgs p ! n) = Inr v) (fo_buffer s) (fo_offsets s)"
    by (simp add: fan_ready_def)
  from assms(2) obtain i where i: "i < length (fo_offsets s)" "fo_offsets s ! i = (p, n)"
    by (auto simp: in_set_conv_nth)
  with list_all2_nthD2 [OF all i(1)] list_all2_lengthD [OF all]
  have "dec (msgs p ! n) = Inr (fo_buffer s ! i)" "fo_buffer s ! i \<in> set (fo_buffer s)" by auto
  with assms(3) show ?thesis by (simp add: handled_def)
qed

text \<open>The buffer reached every sink, its offsets may be committed, it is empty.\<close>

lemma deliver_inv:
  assumes ready: "fan_ready dec topic msgs s" and safe: "fan_safe dec topic msgs s"
    and st: "\<And>v. v \<in> set (fo_buffer s) \<Longrightarrow> stores v (fo_sinks s')"
    and grow: "list_all2 sink_grows (fo_sinks s) (fo_sinks s')" and dlq: "fo_dlq s' = fo_dlq s"
    and empty: "fo_offsets s' = []" "fo_buffer s' = []"
    and com: "fo_committed s' = fo_committed s \<or> fo_committed s' = commit_offsets (fo_offsets s) (fo_committed s)"
  shows "fan_safe dec topic msgs s' \<and> fan_ready dec topic msgs s'
    \<and> (\<forall>p n. covered dec topic msgs s p n \<longrightarrow> covered dec topic msgs s' p n)"
proof -
  have cov: "handled dec topic msgs s' p n" if "covered dec topic msgs s p n" for p n
    using that handled_grows [of dec topic msgs s p n s'] grow dlq buffer_stored [OF ready _ st]
    by (auto simp: covered_def)
  have "handled dec topic msgs s' p n" if n: "n < fo_committed s' p" for p n
  proof -
    from n com commit_offsets_bound [of n "fo_offsets s" "fo_committed s" p]
    consider "n < fo_committed s p" | m where "(p, m) \<in> set (fo_offsets s)" "n \<le> m" by metis
    then show ?thesis
    proof cases
      case 1
      with safe cov show ?thesis by (simp add: fan_safe_def covered_def)
    next
      case (2 m)
      with ready cov show ?thesis by (auto simp: fan_ready_def)
    qed
  qed
  then show ?thesis using cov empty by (simp add: fan_safe_def fan_ready_def covered_def)
qed

text \<open>Nothing was committed and no sink lost anything.\<close>

lemma fail_inv:
  assumes "fan_safe dec topic msgs s" and "list_all2 sink_grows (fo_sinks s) (fo_sinks s')"
    and "fo_dlq s' = fo_dlq s" "fo_committed s' = fo_committed s"
  shows "fan_safe dec topic msgs s'"
  using assms handled_grows [of dec topic msgs s _ _ s'] by (simp add: fan_safe_def)

lemma keep_ready:
  assumes "fan_ready dec topic msgs s" and "list_all2 sink_grows (fo_sinks s) (fo_sinks s')"
    and "fo_dlq s' = fo_dlq s" "fo_offsets s' = fo_offsets s" "fo_buffer s' = fo_buffer s"
  shows "fan_ready dec topic msgs s'"
  using assms handled_grows [of dec topic msgs s _ _ s'] by (fastforce simp: fan_ready_def covered_def)

lemma no_buffer_ready: "fo_buffer s = [] \<Longrightarrow> fo_offsets s = [] \<Longrightarrow> fan_ready dec topic msgs s"
  by (simp add: fan_ready_def)

section \<open>The contract of a flush\<close>

locale fan_flush =
  fixes dec :: "kmessage \<Rightarrow> string + pyval" and topic :: string and msgs :: klog
    and flush :: "fan_env \<Rightarrow> bool \<Rightarrow> fanout \<Rightarrow> fanout \<times> string option"
  assumes keeps: "fan_ready dec topic msgs s \<Longrightarrow> fan_safe dec topic msgs s \<Longrightarrow> flush E f s = (s', r)
      \<Longrightarrow> fan_safe dec topic msgs s' \<and> fan_ready dec topic msgs s'"
    and covers: "fan_ready dec topic msgs s \<Longrightarrow> fan_safe dec topic msgs s \<Longrightarrow> flush E f s = (s', None)
      \<Longrightarrow> covered dec topic msgs s p n \<Longrightarrow> covered dec topic msgs s' p n"
    and position: "flush E f s = (s', r) \<Longrightarrow> fo_pos s' = fo_pos s"
    and forced: "flush E True s = (s', None) \<Longrightarrow> fo_buffer s' = []"
begin

lemma flush_live:
  assumes "fan_live dec topic msgs s" and "flush E f s = (s', None)"
  shows "fan_live dec topic msgs s'"
proof -
  from assms(1) have s: "fan_ready dec topic msgs s" "fan_safe dec topic msgs s"
    and c: "\<And>p n. n < fo_pos s p \<Longrightarrow> covered dec topic msgs s p n" by (auto simp: fan_live_def)
  show ?thesis
    unfolding fan_live_def
    using keeps [OF s assms(2)] covers [OF s assms(2) c] position [OF assms(2)] by simp
qed

text \<open>A decoded message joins the buffer and may set off a flush.\<close>

lemma accept_keeps:
  assumes live: "fan_live dec topic msgs s" and dec: "dec (msgs p ! fo_pos s p) = Inr v"
    and fl: "flush E f (hold_event p (fo_pos s p) v (advance p s)) = (s', r)"
  shows "fan_safe dec topic msgs s' \<and> fan_ready dec topic msgs s' \<and> (r = None \<longrightarrow> fan_live dec topic msgs s')"
proof -
  let ?s = "hold_event p (fo_pos s p) v (advance p s)"
  have h: "handled dec topic msgs ?s q n = handled dec topic msgs s q n" for q n
    by (rule handled_cong) (simp_all add: hold_event_def advance_def)
  have c: "covered dec topic msgs ?s q n \<longleftrightarrow> covered dec topic msgs s q n \<or> q = p \<and> n = fo_pos s p" for q n
    unfolding covered_def h by (auto simp: hold_event_def advance_def)
  have "fan_safe dec topic msgs ?s"
    using live by (simp add: fan_live_def fan_safe_def h) (simp add: hold_event_def advance_def)
  moreover have "fan_ready dec topic msgs ?s"
    using live dec unfolding fan_live_def fan_ready_def c
    by (auto simp: hold_event_def advance_def less_le intro!: list_all2_appendI)
  moreover have "\<forall>q. \<forall>n < fo_pos ?s q. covered dec topic msgs ?s q n"
    using live unfolding fan_live_def c by (auto simp: hold_event_def advance_def less_Suc_eq)
  ultimately have lv: "fan_live dec topic msgs ?s" and rs: "fan_ready dec topic msgs ?s" "fan_safe dec topic msgs ?s"
    by (simp_all add: fan_live_def)
  from keeps [OF rs fl] flush_live [OF lv] fl show ?thesis by blast
qed

text \<open>A rejected message whose predecessors were flushed.\<close>

lemma reject_keeps:
  assumes live: "fan_live dec topic msgs s" and dec: "dec (msgs p ! fo_pos s p) = Inl e"
    and fl: "flush E True (advance p s) = (s2, r2)"
    and rej: "(case r2 of None \<Rightarrow> reject_message E topic p (fo_pos s p) text err s2 | Some e \<Rightarrow> (s2, Some e)) = (s', r)"
  shows "fan_safe dec topic msgs s' \<and> fan_ready dec topic msgs s' \<and> (r = None \<longrightarrow> fan_live dec topic msgs s')"
proof -
  let ?n = "fo_pos s p"
  have h: "handled dec topic msgs (advance p s) q n = handled dec topic msgs s q n" for q n
    by (rule handled_cong) (simp_all add: advance_def)
  have c: "covered dec topic msgs (advance p s) q n = covered dec topic msgs s q n" for q n
    by (simp add: covered_def h) (simp add: advance_def)
  have s1: "fan_safe dec topic msgs (advance p s)" "fan_ready dec topic msgs (advance p s)"
    using live by (simp_all add: fan_live_def fan_safe_def fan_ready_def h c) (simp_all add: advance_def)
  from keeps [OF s1(2) s1(1) fl] have s2: "fan_safe dec topic msgs s2" "fan_ready dec topic msgs s2" by auto
  show ?thesis
  proof (cases r2)
    case (Some e2)
    with rej s2 show ?thesis by auto
  next
    case None
    with forced fl ready_empty [OF s2(2)] have em: "fo_buffer s2 = []" "fo_offsets s2 = []" by auto
    have pos: "fo_pos s2 = (fo_pos s)(p := ?n + 1)" using position [OF fl] by (simp add: advance_def)
    have before: "handled dec topic msgs s2 q n" if "n < fo_pos s q" for q n
    proof -
      from that live have "covered dec topic msgs (advance p s) q n" by (simp add: fan_live_def c)
      from covers [OF s1(2) s1(1) fl [unfolded None] this] em show ?thesis by (simp add: covered_def)
    qed
    define s3 where "s3 = s2\<lparr>fo_dlq := fo_dlq s2 @ [(record_key topic p ?n, dlq_payload (fe_now E) topic p ?n text err, fe_delivered E)]\<rparr>"
    have h3: "handled dec topic msgs s3 q n" if "handled dec topic msgs s2 q n" for q n
      by (rule handled_grows [OF that]) (auto simp: s3_def)
    have here: "handled dec topic msgs s3 p ?n" using dec by (simp add: handled_iff s3_def)
    define s4 where "s4 = s3\<lparr>fo_committed := (fo_committed s3)(p := ?n + 1)\<rparr>"
    have h4: "handled dec topic msgs s4 q n = handled dec topic msgs s3 q n" for q n
      by (rule handled_cong) (simp_all add: s4_def)
    have safe3: "fan_safe dec topic msgs s3" using s2(1) h3 by (simp add: fan_safe_def s3_def)
    have all4: "handled dec topic msgs s4 q n" if "n < fo_pos s4 q" for q n
      using that before h3 here unfolding h4 by (auto simp: s4_def s3_def pos less_Suc_eq split: if_splits)
    have safe4: "fan_safe dec topic msgs s4"
      using safe3 all4 unfolding fan_safe_def h4 by (auto simp: s4_def s3_def pos)
    have rd: "fan_ready dec topic msgs s3" "fan_ready dec topic msgs s4"
      using em by (simp_all add: no_buffer_ready s3_def s4_def)
    have live4: "fan_live dec topic msgs s4" using safe4 rd(2) all4 by (simp add: fan_live_def covered_def)
    have "reject_message E topic p ?n text err s2 =
        (if fe_flushed E then (case fe_commit1 E of None \<Rightarrow> (s4, None) | Some e \<Rightarrow> (s3, Some e))
         else (s2, Some ''dead-letter publication was not acknowledged''))"
      by (simp add: reject_message_def publish_malformed_record_def commit_message_def s3_def s4_def
          split: option.split)
    with rej None have "(s', r) = (s4, None) \<or> (\<exists>e. (s', r) = (s3, Some e)) \<or> (\<exists>e. (s', r) = (s2, Some e))"
      by (auto split: if_splits option.splits)
    then show ?thesis using live4 safe4 rd safe3 s2 by auto
  qed
qed

end

definition loop_inv :: "(kmessage \<Rightarrow> string + pyval) \<Rightarrow> string \<Rightarrow> klog \<Rightarrow> fanout \<Rightarrow> bool" where
  "loop_inv dec topic msgs s \<longleftrightarrow> fan_safe dec topic msgs s \<and> (fo_running s \<longrightarrow> fan_live dec topic msgs s)"

locale fan_loop = fan_flush +
  fixes turn :: "fan_env \<Rightarrow> nat option \<Rightarrow> fanout \<Rightarrow> fanout \<times> string option"
  assumes turn_keeps: "fan_live dec topic msgs s \<Longrightarrow> turn E polled s = (s', r)
      \<Longrightarrow> (\<And>p. polled = Some p \<Longrightarrow> fo_pos s p < length (msgs p))
      \<Longrightarrow> fan_safe dec topic msgs s' \<and> fan_ready dec topic msgs s' \<and> (r = None \<longrightarrow> fan_live dec topic msgs s')"
begin

lemma stop_inv:
  assumes "fan_ready dec topic msgs s" "fan_safe dec topic msgs s"
  shows "loop_inv dec topic msgs (fan_stop flush E s)"
proof -
  obtain s' r where fl: "flush E True s = (s', r)" by fastforce
  from keeps [OF assms fl] have "fan_safe dec topic msgs s'" by simp
  then have "fan_safe dec topic msgs (s'\<lparr>fo_running := False\<rparr>)" by (rule fail_inv) simp_all
  then show ?thesis using fl by (simp add: loop_inv_def fan_stop_def)
qed

lemma start_inv:
  assumes "fan_safe dec topic msgs s"
  shows "loop_inv dec topic msgs (fan_start s)"
proof -
  have "handled dec topic msgs (fan_start s) = handled dec topic msgs s"
    by (intro ext) (simp add: handled_iff fan_start_def stores_def split: sum.split)
  then show ?thesis
    using assms by (simp add: loop_inv_def fan_live_def fan_safe_def covered_def fan_ready_def)
      (simp add: fan_start_def)
qed

lemma loop_step_inv:
  assumes inv: "loop_inv dec topic msgs s"
  shows "loop_inv dec topic msgs (fan_step flush turn msgs I s)"
proof (cases "fi_event I")
  case (Turn polled)
  show ?thesis
  proof (cases "fo_running s \<and> (\<forall>p. polled = Some p \<longrightarrow> fo_pos s p < length (msgs p))")
    case False
    then show ?thesis using inv Turn by (auto simp: fan_step_def split: option.splits)
  next
    case True
    obtain s1 r where t: "turn (fi_env I) polled s = (s1, r)" by fastforce
    from True inv have "fan_live dec topic msgs s" by (simp add: loop_inv_def)
    from turn_keeps [OF this t] True
    have s1: "fan_safe dec topic msgs s1" "fan_ready dec topic msgs s1" "r = None \<longrightarrow> fan_live dec topic msgs s1"
      by auto
    have "fan_step flush turn msgs I s = (case r of None \<Rightarrow> s1 | Some _ \<Rightarrow> fan_stop flush (fi_last I) s1)"
      using Turn True t by (auto simp: fan_step_def split: option.split)
    then show ?thesis using s1 stop_inv by (auto simp: loop_inv_def split: option.split)
  qed
next
  case StopSignal
  then show ?thesis using inv stop_inv by (simp add: fan_step_def loop_inv_def fan_live_def)
next
  case Kill
  have "fan_safe dec topic msgs (s\<lparr>fo_running := False\<rparr>)"
    using inv by (auto simp: loop_inv_def intro: fail_inv)
  then show ?thesis using Kill by (simp add: fan_step_def loop_inv_def)
next
  case Start
  then show ?thesis using inv start_inv by (simp add: fan_step_def loop_inv_def)
qed

lemma loop_run_inv: "loop_inv dec topic msgs s \<Longrightarrow> loop_inv dec topic msgs (fan_run flush turn msgs is s)"
  by (induction "is" arbitrary: s) (simp_all add: fan_run_def loop_step_inv)

lemma run_safe: "fan_safe dec topic msgs (fan_run flush turn msgs is (new_fanout ks))"
proof -
  have "loop_inv dec topic msgs (new_fanout ks)"
    by (simp add: loop_inv_def fan_live_def fan_safe_def fan_ready_def new_fanout_def)
  from loop_run_inv [OF this] show ?thesis by (simp add: loop_inv_def)
qed

end

section \<open>The flushes keep the contract\<close>

text \<open>The three outcomes of a flush: too early, failed, delivered.\<close>

definition flush_outcome :: "bool \<Rightarrow> fanout \<Rightarrow> fanout \<Rightarrow> string option \<Rightarrow> bool" where
  "flush_outcome f s s' r \<longleftrightarrow>
     (s' = s \<and> r = None \<and> (f \<longrightarrow> fo_buffer s = []))
     \<or> (list_all2 sink_grows (fo_sinks s) (fo_sinks s') \<and> fo_dlq s' = fo_dlq s \<and> fo_pos s' = fo_pos s
        \<and> (r \<noteq> None \<and> fo_committed s' = fo_committed s
             \<and> (fo_offsets s' = fo_offsets s \<and> fo_buffer s' = fo_buffer s \<or> fo_offsets s' = [] \<and> fo_buffer s' = [])
           \<or> (\<forall>v \<in> set (fo_buffer s). stores v (fo_sinks s')) \<and> fo_offsets s' = [] \<and> fo_buffer s' = []
             \<and> (fo_committed s' = fo_committed s
                \<or> fo_committed s' = commit_offsets (fo_offsets s) (fo_committed s))))"

lemma outcome_keeps:
  assumes "flush_outcome f s s' r" and "fan_ready dec topic msgs s" and "fan_safe dec topic msgs s"
  shows "fan_safe dec topic msgs s' \<and> fan_ready dec topic msgs s'
    \<and> (r = None \<longrightarrow> (\<forall>p n. covered dec topic msgs s p n \<longrightarrow> covered dec topic msgs s' p n))"
proof -
  from assms(1) consider (early) "s' = s"
    | (failed) "list_all2 sink_grows (fo_sinks s) (fo_sinks s')" "fo_dlq s' = fo_dlq s" "r \<noteq> None"
        "fo_committed s' = fo_committed s"
        "fo_offsets s' = fo_offsets s \<and> fo_buffer s' = fo_buffer s \<or> fo_offsets s' = [] \<and> fo_buffer s' = []"
    | (delivered) "list_all2 sink_grows (fo_sinks s) (fo_sinks s')" "fo_dlq s' = fo_dlq s"
        "\<And>v. v \<in> set (fo_buffer s) \<Longrightarrow> stores v (fo_sinks s')" "fo_offsets s' = []" "fo_buffer s' = []"
        "fo_committed s' = fo_committed s \<or> fo_committed s' = commit_offsets (fo_offsets s) (fo_committed s)"
    unfolding flush_outcome_def by blast
  then show ?thesis
  proof cases
    case early
    then show ?thesis using assms by simp
  next
    case failed
    from fail_inv [OF assms(3) failed(1,2,4)] failed(3,5) keep_ready [OF assms(2) failed(1,2)] no_buffer_ready
    show ?thesis by blast
  next
    case delivered
    from deliver_inv [OF assms(2,3) delivered(3,1,2,4,5,6)] show ?thesis by blast
  qed
qed

lemma outcome_flush:
  assumes "\<And>E f s s' r. flush E f s = (s', r) \<Longrightarrow> flush_outcome f s s' r"
  shows "fan_flush dec topic msgs flush"
proof
  fix E f s s' r p n
  show "fan_safe dec topic msgs s' \<and> fan_ready dec topic msgs s'"
    if "fan_ready dec topic msgs s" "fan_safe dec topic msgs s" "flush E f s = (s', r)"
    using outcome_keeps [OF assms [OF that(3)] that(1,2)] by blast
  show "covered dec topic msgs s' p n"
    if "fan_ready dec topic msgs s" "fan_safe dec topic msgs s" "flush E f s = (s', None)" "covered dec topic msgs s p n"
    using outcome_keeps [OF assms [OF that(3)] that(1,2)] that(4) by blast
  show "fo_pos s' = fo_pos s" if "flush E f s = (s', r)"
    using assms [OF that] by (auto simp: flush_outcome_def)
  show "fo_buffer s' = []" if "flush E True s = (s', None)"
    using assms [OF that] by (auto simp: flush_outcome_def)
qed

lemma outcome_failed:
  "list_all2 sink_grows (fo_sinks s) (fo_sinks s') \<Longrightarrow> fo_dlq s' = fo_dlq s \<Longrightarrow> fo_pos s' = fo_pos s \<Longrightarrow> r \<noteq> None
    \<Longrightarrow> fo_committed s' = fo_committed s
    \<Longrightarrow> fo_offsets s' = fo_offsets s \<and> fo_buffer s' = fo_buffer s \<or> fo_offsets s' = [] \<and> fo_buffer s' = []
    \<Longrightarrow> flush_outcome f s s' r"
  unfolding flush_outcome_def by blast

lemma outcome_delivered:
  "list_all2 sink_grows (fo_sinks s) (fo_sinks s') \<Longrightarrow> fo_dlq s' = fo_dlq s \<Longrightarrow> fo_pos s' = fo_pos s
    \<Longrightarrow> (\<And>v. v \<in> set (fo_buffer s) \<Longrightarrow> stores v (fo_sinks s')) \<Longrightarrow> fo_offsets s' = [] \<Longrightarrow> fo_buffer s' = []
    \<Longrightarrow> fo_committed s' = fo_committed s \<or> fo_committed s' = commit_offsets (fo_offsets s) (fo_committed s)
    \<Longrightarrow> flush_outcome f s s' r"
  unfolding flush_outcome_def by blast

lemma normalized_outcome:
  assumes "normalized_flush bs E f s = (s', r)"
  shows "flush_outcome f s s' r"
proof (cases "fo_buffer s = [] \<or> \<not> f \<and> length (fo_buffer s) < bs \<and> \<not> fe_due E")
  case True
  then have "normalized_flush bs E f s = (s, None)" by (auto simp: normalized_flush_def)
  then show ?thesis using assms True by (auto simp: flush_outcome_def)
next
  case False
  then have no: "fo_buffer s \<noteq> []" "\<not> (\<not> f \<and> length (fo_buffer s) < bs \<and> \<not> fe_due E)" by blast+
  note eq = assms [unfolded normalized_flush_def if_not_P [OF no(1)] if_not_P [OF no(2)] Let_def]
  obtain ks a where w: "write_batch_strict (fo_buffer s) (fe_write E) (fo_sinks s) = (ks, a)" by fastforce
  obtain ks' b where fl: "flush_strict (fe_flush E) ks = (ks', b)" by fastforce
  from write_strict_grows [OF w] flush_strict_grows [OF fl] grows_trans
  have g: "list_all2 sink_grows (fo_sinks s) ks" "list_all2 sink_grows (fo_sinks s) ks'" by blast+
  consider (rejected) e where "a = Inl e" | (unflushed) n e where "a = Inr n" "b = Some e"
    | (stored) n where "a = Inr n" "b = None" by (metis not_None_eq sum.exhaust)
  then show ?thesis
  proof cases
    case (rejected e)
    with eq have "s' = (s\<lparr>fo_buffer := [], fo_offsets := []\<rparr>)\<lparr>fo_sinks := ks\<rparr> \<and> r = Some e" by (simp add: w)
    then show ?thesis using g by (intro outcome_failed) simp_all
  next
    case (unflushed n e)
    with eq have "s' = (s\<lparr>fo_buffer := [], fo_offsets := []\<rparr>)\<lparr>fo_sinks := ks'\<rparr> \<and> r = Some e" by (simp add: w fl)
    then show ?thesis using g by (intro outcome_failed) simp_all
  next
    case (stored n)
    with strict_delivers w fl have d: "\<And>v. v \<in> set (fo_buffer s) \<Longrightarrow> stores v ks'" by blast
    have "s' = s\<lparr>fo_buffer := [], fo_offsets := [], fo_sinks := ks'\<rparr>
        \<or> s' = s\<lparr>fo_buffer := [], fo_offsets := [], fo_sinks := ks',
             fo_committed := commit_offsets (fo_offsets s) (fo_committed s)\<rparr>"
      using eq stored by (simp add: w fl split: if_splits)
    then show ?thesis using g d by (intro outcome_delivered) auto
  qed
qed

lemma processed_outcome:
  assumes "processed_flush bs E f s = (s', r)"
  shows "flush_outcome f s s' r"
proof (cases "fo_buffer s = [] \<or> \<not> f \<and> length (fo_buffer s) < bs \<and> \<not> fe_due E")
  case True
  then have "processed_flush bs E f s = (s, None)" by (auto simp: processed_flush_def)
  then show ?thesis using assms True by (auto simp: flush_outcome_def)
next
  case False
  then have no: "fo_buffer s \<noteq> []" "\<not> (\<not> f \<and> length (fo_buffer s) < bs \<and> \<not> fe_due E)" by blast+
  note eq = assms [unfolded processed_flush_def if_not_P [OF no(1)] if_not_P [OF no(2)] Let_def]
  let ?s1 = "s\<lparr>fo_buffer := [], fo_offsets := []\<rparr>"
  let ?ks = "historian_insert (fo_buffer s) (fo_sinks s)"
  from eq have "(\<exists>e. s' = ?s1 \<and> r = Some e) \<or> s' = ?s1\<lparr>fo_sinks := ?ks\<rparr>
      \<or> s' = ?s1\<lparr>fo_sinks := ?ks, fo_committed := commit_offsets (fo_offsets s) (fo_committed s)\<rparr>"
    by (auto split: sum.splits option.splits if_splits)
  then show ?thesis
  proof (elim disjE exE conjE)
    fix e
    assume "s' = ?s1" "r = Some e"
    then show ?thesis by (intro outcome_failed) simp_all
  qed (intro outcome_delivered, simp_all add: historian_grows historian_stores)+
qed

lemma archive_outcome:
  assumes "archive_flush bs E f s = (s', r)"
  shows "flush_outcome f s s' r"
proof (cases "fo_buffer s = [] \<or> \<not> f \<and> length (fo_buffer s) < bs \<and> \<not> fe_due E")
  case True
  then have "archive_flush bs E f s = (s, None)" by (auto simp: archive_flush_def)
  then show ?thesis using assms True by (auto simp: flush_outcome_def)
next
  case False
  note eq = assms [unfolded archive_flush_def if_not_P [OF False]]
  obtain ks a where w: "write_batch_strict (fo_buffer s) (fe_write E) (fo_sinks s) = (ks, a)" by fastforce
  obtain ks' b where fl: "flush_strict (fe_flush E) ks = (ks', b)" by fastforce
  from write_strict_grows [OF w] flush_strict_grows [OF fl] grows_trans
  have g: "list_all2 sink_grows (fo_sinks s) ks" "list_all2 sink_grows (fo_sinks s) ks'" by blast+
  consider (rejected) e where "a = Inl e" | (unflushed) n e where "a = Inr n" "b = Some e"
    | (stored) n where "a = Inr n" "b = None" by (metis not_None_eq sum.exhaust)
  then show ?thesis
  proof cases
    case (rejected e)
    with eq have "s' = s\<lparr>fo_sinks := ks\<rparr> \<and> r = Some e" by (simp add: w)
    then show ?thesis using g by (intro outcome_failed) simp_all
  next
    case (unflushed n e)
    with eq have "s' = s\<lparr>fo_sinks := ks'\<rparr> \<and> r = Some e" by (simp add: w fl)
    then show ?thesis using g by (intro outcome_failed) simp_all
  next
    case (stored n)
    with strict_delivers w fl have d: "\<And>v. v \<in> set (fo_buffer s) \<Longrightarrow> stores v ks'" by blast
    show ?thesis
    proof (cases "fe_commit E")
      case None
      with eq stored have "s' = s\<lparr>fo_sinks := ks', fo_committed := commit_offsets (fo_offsets s) (fo_committed s),
          fo_buffer := [], fo_offsets := []\<rparr>" by (simp add: w fl)
      then show ?thesis using g d by (intro outcome_delivered) auto
    next
      case (Some e)
      with eq stored have "s' = s\<lparr>fo_sinks := ks'\<rparr> \<and> r = Some e" by (simp add: w fl)
      then show ?thesis using g by (intro outcome_failed) simp_all
    qed
  qed
qed

interpretation normalized: fan_flush dec topic msgs "normalized_flush bs" for dec topic msgs bs
  by (rule outcome_flush) (rule normalized_outcome)

interpretation processed: fan_flush dec topic msgs "processed_flush bs" for dec topic msgs bs
  by (rule outcome_flush) (rule processed_outcome)

interpretation archive: fan_flush dec topic msgs "archive_flush bs" for dec topic msgs bs
  by (rule outcome_flush) (rule archive_outcome)

lemma archive_turn_keeps:
  assumes live: "fan_live dec topic msgs s" and t: "archive_turn dec bs topic msgs E polled s = (s', r)"
  shows "fan_safe dec topic msgs s' \<and> fan_ready dec topic msgs s' \<and> (r = None \<longrightarrow> fan_live dec topic msgs s')"
proof (cases polled)
  case None
  then have fl: "archive_flush bs E False s = (s', r)" using t by (simp add: archive_turn_def)
  from live have "fan_ready dec topic msgs s" "fan_safe dec topic msgs s" by (simp_all add: fan_live_def)
  from archive.keeps [OF this fl] archive.flush_live [OF live] fl show ?thesis by blast
next
  case (Some p)
  show ?thesis
  proof (cases "dec (msgs p ! fo_pos s p)")
    case (Inr v)
    with t Some have "archive_flush bs E False (hold_event p (fo_pos s p) v (advance p s)) = (s', r)"
      by (simp add: archive_turn_def Let_def)
    from archive.accept_keeps [OF live Inr this] show ?thesis .
  next
    case (Inl e)
    obtain s2 r2 where fl: "archive_flush bs E True (advance p s) = (s2, r2)" by fastforce
    have "(case r2 of None \<Rightarrow> reject_message E topic p (fo_pos s p) (km_text (msgs p ! fo_pos s p)) e s2
        | Some e \<Rightarrow> (s2, Some e)) = (s', r)"
      using t Some Inl fl by (simp add: archive_turn_def Let_def split: option.splits)
    from archive.reject_keeps [OF live Inl fl this] show ?thesis .
  qed
qed

interpretation archive: fan_loop dec topic msgs "archive_flush bs" "archive_turn dec bs topic msgs" for dec topic msgs bs
  by unfold_locales (rule archive_turn_keeps)

text \<open>The normalized consumer, when every message decodes.\<close>

definition all_decode :: "(kmessage \<Rightarrow> string + pyval) \<Rightarrow> klog \<Rightarrow> bool" where
  "all_decode dec msgs \<longleftrightarrow> (\<forall>p. list_all (\<lambda>m. is_ok (dec m)) (msgs p))"

lemma normalized_turn_keeps:
  assumes ok: "all_decode normalized_decode msgs" and live: "fan_live normalized_decode topic msgs s"
    and t: "normalized_turn bs topic msgs E polled s = (s', r)"
    and inside: "\<And>p. polled = Some p \<Longrightarrow> fo_pos s p < length (msgs p)"
  shows "fan_safe normalized_decode topic msgs s' \<and> fan_ready normalized_decode topic msgs s'
    \<and> (r = None \<longrightarrow> fan_live normalized_decode topic msgs s')"
proof (cases polled)
  case None
  then have fl: "normalized_flush bs E False s = (s', r)" using t by (simp add: normalized_turn_def)
  from live have "fan_ready normalized_decode topic msgs s" "fan_safe normalized_decode topic msgs s"
    by (simp_all add: fan_live_def)
  from normalized.keeps [OF this fl] normalized.flush_live [OF live] fl show ?thesis by blast
next
  case (Some p)
  from ok inside [OF Some] have "is_ok (normalized_decode (msgs p ! fo_pos s p))"
    by (simp add: all_decode_def list_all_length)
  then obtain v where v: "normalized_decode (msgs p ! fo_pos s p) = Inr v"
    by (cases "normalized_decode (msgs p ! fo_pos s p)") (simp_all add: is_ok_def)
  with t Some have "normalized_flush bs E False (hold_event p (fo_pos s p) v (advance p s)) = (s', r)"
    by (simp add: normalized_turn_def Let_def)
  from normalized.accept_keeps [OF live v this] show ?thesis .
qed

lemma normalized_loop:
  assumes "all_decode normalized_decode msgs"
  shows "fan_loop normalized_decode topic msgs (normalized_flush bs) (normalized_turn bs topic msgs)"
  by (intro fan_loop.intro normalized.fan_flush_axioms fan_loop_axioms.intro)
    (rule normalized_turn_keeps [OF assms])

lemma write_each_shape:
  "write_each ev w i ks = (ks', n, fs) \<Longrightarrow>
     ks' = map2 (\<lambda>j k. sink_take ev (w j) k) [i..<i + length ks] ks
     \<and> (fs = [] \<longleftrightarrow> list_all (\<lambda>j. w j = Inr (int (length ev))) [i..<i + length ks])"
proof (induction ks arbitrary: i ks' n fs)
  case (Cons k ks)
  obtain ks1 n1 fs1 where rest: "write_each ev w (Suc i) ks = (ks1, n1, fs1)" by (metis prod.exhaust)
  have up: "[i..<i + length (k # ks)] = i # [Suc i..<Suc i + length ks]" by (simp add: upt_conv_Cons del: upt_Suc)
  from Cons.IH [OF rest] Cons.prems rest show ?case
    unfolding up by (cases "w i") (auto split: if_splits)
qed simp

lemma dict_set_swap:
  "f \<noteq> g \<Longrightarrow> dict_has d g \<Longrightarrow> dict_set (dict_set d f v) g x = dict_set (dict_set d g x) f v"
  by (induction d) (auto simp: dict_has_def split: if_splits)

section \<open>Properties\<close>

text \<open>
  Claim C5. The operational, artifact and raw archive consumers deliver at least once. Whatever the
  order of messages, time-outs, failing sinks, failing commits, unacknowledged dead letters, stop
  signals, kills and restarts, the event of an offset below the committed one is stored by every sink, or it does not
  decode and its record is in the dead-letter topic, or it does not decode and the Kafka client gave its dead letter up
  after its queue had emptied, which the helper cannot see (it has no delivery callback and only asks whether
  the queue is empty).
\<close>

theorem archive_at_least_once:
  assumes "n < fo_committed (fan_run (archive_flush bs) (archive_turn dec bs topic msgs) msgs is (new_fanout ks)) p"
  shows "handled dec topic msgs (fan_run (archive_flush bs) (archive_turn dec bs topic msgs) msgs is (new_fanout ks)) p n"
  using archive.run_safe [of dec topic msgs bs "is" ks] assms by (simp add: fan_safe_def)

text \<open>Where every dead letter arrives, no record is missing; one that is given up is committed and in no topic.\<close>

lemma arrived_dead_letters:
  assumes "list_all (\<lambda>(_, _, arrived). arrived) (fo_dlq s)" "handled dec topic msgs s p n" "dec (msgs p ! n) = Inl e"
  shows "in_dead_letter_topic s (record_key topic p n)"
  using assms by (auto simp: handled_def dead_letter_given_up_def list_ex_iff list_all_iff)

lemma given_up_committed:
  assumes "fe_flushed E" "\<not> fe_delivered E" "fe_commit1 E = None" "\<not> in_dead_letter_topic s (record_key topic p n)"
  shows "\<exists>s'. reject_message E topic p n text err s = (s', None) \<and> fo_committed s' p = n + 1 \<and> \<not> in_dead_letter_topic s' (record_key topic p n)"
  using assms by (simp add: reject_message_def publish_malformed_record_def commit_message_def in_dead_letter_topic_def)

definition fan_demo_env :: fan_env where
  "fan_demo_env = \<lparr>fe_now = ''t'', fe_due = False, fe_write = (\<lambda>_. Inr 1), fe_flush = (\<lambda>_. None),
     fe_commit = None, fe_flushed = True, fe_delivered = True, fe_commit1 = None\<rparr>"

definition demo_log :: klog where
  "demo_log p = (if p = 0 then [\<lparr>km_text = ''a'', km_json = Some (PDict [])\<rparr>, \<lparr>km_text = ''b'', km_json = None\<rparr>] else [])"

definition fan_demo_turn :: fan_input where
  "fan_demo_turn = \<lparr>fi_event = Turn (Some 0), fi_env = fan_demo_env, fi_last = fan_demo_env\<rparr>"

definition demo_sinks :: "sink list" where
  "demo_sinks = [\<lparr>sk_name = ''lakehouse'', sk_held = [], sk_stored = []\<rparr>]"

lemmas demo_defs = fan_demo_env_def demo_log_def fan_demo_turn_def demo_sinks_def

lemma demo_archive_run:
  "fan_run (archive_flush 8) (archive_turn operational_decode 8 ''t'' demo_log) demo_log
     [fan_demo_turn, fan_demo_turn] (new_fanout demo_sinks)
   = (new_fanout demo_sinks)\<lparr>fo_pos := (\<lambda>_. 0)(0 := 2), fo_committed := (\<lambda>_. 0)(0 := 2),
       fo_sinks := [\<lparr>sk_name = ''lakehouse'', sk_held = [], sk_stored = [PDict [(''event_stage'', PStr ''operational'')]]\<rparr>],
       fo_dlq := [(record_key ''t'' 0 1, dlq_payload ''t'' ''t'' 0 1 ''b'' ''operational fanout decode failed'', True)]\<rparr>"
  by (simp add: fan_run_def fan_step_def archive_turn_def archive_flush_def operational_decode_def demo_defs
      new_fanout_def hold_event_def advance_def write_batch_strict_def flush_strict_def sink_take_def
      sink_settle_def reject_message_def publish_malformed_record_def commit_message_def commit_offsets_def Let_def
      fun_upd_def [symmetric] fun_upd_upd numeral_2_eq_2)

theorem archive_at_least_once_witness:
  "handled operational_decode ''t'' demo_log (fan_run (archive_flush 8) (archive_turn operational_decode 8 ''t'' demo_log)
     demo_log [fan_demo_turn, fan_demo_turn] (new_fanout demo_sinks)) 0 1"
  by (rule archive_at_least_once) (simp add: demo_archive_run)

text \<open>
  The normalized and the processed consumer commit past events that wait: a message that
  does not decode is committed at once, and every event of its partition that was polled before it
  and is still in the buffer is now below the committed offset though no sink has it; a process that
  dies then and is started again resumes behind it with an empty buffer.
\<close>

theorem malformed_commits_pending:
  assumes "normalized_decode (msgs p ! fo_pos s p) = Inl e" and "m < fo_pos s p" and "fe_flushed E" "fe_commit1 E = None"
    and t: "normalized_turn bs topic msgs E (Some p) s = (s', r)"
    and t2: "processed_turn bs topic msgs E (Some p) s = (s2, r2)"
  shows "r = None \<and> fo_sinks s' = fo_sinks s \<and> fo_buffer s' = fo_buffer s \<and> m < fo_committed s' p
    \<and> m < fo_pos (fan_start s') p \<and> fo_buffer (fan_start s') = []
    \<and> r2 = None \<and> fo_sinks s2 = fo_sinks s \<and> fo_buffer s2 = fo_buffer s \<and> m < fo_committed s2 p
    \<and> m < fo_pos (fan_start s2) p"
proof -
  from assms(1) have "km_json (msgs p ! fo_pos s p) = None" by (simp add: normalized_decode_def split: option.splits)
  then have d2: "processed_decode (msgs p ! fo_pos s p) = Inl ''processed fan-out decode failed''"
    by (simp add: processed_decode_def)
  show ?thesis
    using t t2 assms(1-4) d2
    by (auto simp: normalized_turn_def processed_turn_def reject_message_def publish_malformed_record_def
        commit_message_def advance_def fan_start_def Let_def)
qed

definition demo_waiting :: fanout where
  "demo_waiting = fst (normalized_turn 8 ''t'' demo_log fan_demo_env (Some 0) (new_fanout demo_sinks))"

theorem malformed_commits_pending_witness:
  "\<exists>s' r s2 r2. normalized_turn 8 ''t'' demo_log fan_demo_env (Some 0) demo_waiting = (s', r)
     \<and> processed_turn 8 ''t'' demo_log fan_demo_env (Some 0) demo_waiting = (s2, r2)
     \<and> fo_buffer demo_waiting = [PDict []] \<and> fo_offsets demo_waiting = [(0, 0)]
     \<and> fo_sinks s' = demo_sinks \<and> 0 < fo_committed s' 0"
proof -
  have w: "demo_waiting = (new_fanout demo_sinks)\<lparr>fo_pos := (\<lambda>_. 0)(0 := 1), fo_buffer := [PDict []],
      fo_offsets := [(0, 0)]\<rparr>"
    by (simp add: demo_waiting_def normalized_turn_def normalized_flush_def normalized_decode_def demo_defs
        new_fanout_def hold_event_def advance_def Let_def)
  obtain s' r where t: "normalized_turn 8 ''t'' demo_log fan_demo_env (Some 0) demo_waiting = (s', r)" by fastforce
  obtain s2 r2 where t2: "processed_turn 8 ''t'' demo_log fan_demo_env (Some 0) demo_waiting = (s2, r2)" by fastforce
  from malformed_commits_pending [OF _ _ _ _ t t2, of "''normalized fan-out decode failed''" 0]
  have "fo_sinks s' = demo_sinks \<and> 0 < fo_committed s' 0"
    by (simp add: w normalized_decode_def demo_log_def fan_demo_env_def new_fanout_def)
  then show ?thesis using t t2 by (simp add: w)
qed

text \<open>
  Without such messages the normalized consumer delivers at least once too: an event below
  the committed offset is stored by every sink.
\<close>

theorem normalized_at_least_once:
  assumes "all_decode normalized_decode msgs"
    and "n < fo_committed (fan_run (normalized_flush bs) (normalized_turn bs topic msgs) msgs is (new_fanout ks)) p"
  shows "handled normalized_decode topic msgs
    (fan_run (normalized_flush bs) (normalized_turn bs topic msgs) msgs is (new_fanout ks)) p n"
  using fan_loop.run_safe [OF normalized_loop [OF assms(1)], of topic bs "is" ks] assms(2) by (simp add: fan_safe_def)

definition good_log :: klog where
  "good_log p = (if p = 0 then [\<lparr>km_text = ''a'', km_json = Some (PDict [])\<rparr>] else [])"

theorem normalized_at_least_once_witness:
  "handled normalized_decode ''t'' good_log
     (fan_run (normalized_flush 1) (normalized_turn 1 ''t'' good_log) good_log [fan_demo_turn] (new_fanout demo_sinks)) 0 0"
  by (rule normalized_at_least_once)
    (simp_all add: all_decode_def good_log_def normalized_decode_def is_ok_def fan_run_def fan_step_def normalized_turn_def
      normalized_flush_def demo_defs new_fanout_def hold_event_def advance_def write_batch_strict_def
      flush_strict_def sink_take_def sink_settle_def commit_offsets_def Let_def)

text \<open>
  The AI-enriched consumer loses a failed insert: when the insert of one message fails and
  that of the next one succeeds, the committed offset is past both and the sinks have only the
  second.
\<close>

theorem ai_failed_insert_lost:
  assumes "km_json (msgs p ! fo_pos s p) = Some v" "km_json (msgs p ! (fo_pos s p + 1)) = Some v'"
    and "fe_write E 0 = Inl e" "fe_write E' 0 = Inr k" "fe_commit1 E' = None"
    and "ai_enriched_turn topic msgs E (Some p) s = (s1, r1)" "ai_enriched_turn topic msgs E' (Some p) s1 = (s2, r2)"
  shows "r1 = None \<and> r2 = None \<and> fo_committed s2 p = fo_pos s p + 2
    \<and> fo_sinks s2 = historian_insert [v'] (fo_sinks s) \<and> fo_dlq s2 = fo_dlq s"
  using assms by (auto simp: ai_enriched_turn_def commit_message_def advance_def Let_def)

definition ai_log :: klog where
  "ai_log p = [\<lparr>km_text = ''1'', km_json = Some (PInt 1)\<rparr>, \<lparr>km_text = ''2'', km_json = Some (PInt 2)\<rparr>]"

theorem ai_failed_insert_lost_witness:
  "\<exists>s1 r1 s2 r2. ai_enriched_turn ''t'' ai_log (fan_demo_env\<lparr>fe_write := \<lambda>_. Inl ''down''\<rparr>) (Some 0) (new_fanout demo_sinks) = (s1, r1)
     \<and> ai_enriched_turn ''t'' ai_log fan_demo_env (Some 0) s1 = (s2, r2)
     \<and> fo_committed s2 0 = 2 \<and> fo_sinks s2 = [\<lparr>sk_name = ''lakehouse'', sk_held = [], sk_stored = [PInt 2]\<rparr>]"
proof -
  let ?E = "fan_demo_env\<lparr>fe_write := \<lambda>_. Inl ''down''\<rparr>"
  obtain s1 r1 where t1: "ai_enriched_turn ''t'' ai_log ?E (Some 0) (new_fanout demo_sinks) = (s1, r1)" by fastforce
  obtain s2 r2 where t2: "ai_enriched_turn ''t'' ai_log fan_demo_env (Some 0) s1 = (s2, r2)" by fastforce
  from ai_failed_insert_lost [OF _ _ _ _ _ t1 t2, of "PInt 1" "PInt 2" "''down''" 1] t1 t2 show ?thesis
    by (simp add: ai_log_def fan_demo_env_def new_fanout_def demo_sinks_def historian_insert_def)
qed

text \<open>
  One failing sink does not keep the batch from the others: a strict write leaves the sinks
  in the state of the forgiving one, each sink that accepted the whole batch holding it, and it
  raises exactly when some sink did not.
\<close>

theorem strict_write_isolated:
  "fst (write_batch_strict ev w ks) = fst (write_batch ev w ks)
   \<and> fst (write_batch ev w ks) = (if ev = [] then ks else map2 (\<lambda>i k. sink_take ev (w i) k) [0..<length ks] ks)
   \<and> is_ok (snd (write_batch_strict ev w ks))
       = (ev = [] \<or> list_all (\<lambda>i. w i = Inr (int (length ev))) [0..<length ks])"
proof -
  obtain ks' n fs where e: "write_each ev w 0 ks = (ks', n, fs)" by (metis prod.exhaust)
  from write_each_shape [OF e] show ?thesis
    by (simp add: write_batch_strict_def write_batch_def e is_ok_def)
qed

text \<open>
  What the raw archive stores does not depend on a redacted field: two events that differ
  only there are archived, or rejected, alike.
\<close>

theorem redaction_hides:
  assumes "f \<in> set (rp_redact P)"
  shows "sanitize_raw_event P (dict_set d f v) = sanitize_raw_event P (dict_set d f w)"
proof -
  have eq: "redact_all fs (dict_set d f v) = redact_all fs (dict_set d f w)" if "f \<in> set fs" for fs d
    using that
  proof (induction fs arbitrary: d)
    case (Cons g fs)
    show ?case
    proof (cases "g = f")
      case True
      then show ?thesis by (simp add: redact_all_def)
    next
      case False
      then have "f \<in> set fs" using Cons.prems by simp
      from Cons.IH [OF this, of d] Cons.IH [OF this, of "dict_set d g (PStr ''[REDACTED]'')"] False show ?thesis
        by (cases "dict_has d g") (simp_all add: redact_all_def dict_set_swap)
    qed
  qed simp
  from eq [OF assms] show ?thesis by (simp add: sanitize_raw_event_def)
qed

definition demo_raw_policy :: raw_policy where
  "demo_raw_policy = \<lparr>rp_dumps = (\<lambda>_. []), rp_max_bytes = 10, rp_redact = [''user'']\<rparr>"

theorem redaction_hides_witness:
  "sanitize_raw_event demo_raw_policy (dict_set [] ''user'' (PStr ''ann'')) = sanitize_raw_event demo_raw_policy (dict_set [] ''user'' (PStr ''bob''))
   \<and> sanitize_raw_event demo_raw_policy [(''user'', PStr ''ann'')]
     = Inr [(''user'', PStr ''[REDACTED]''), (''event_stage'', PStr ''raw''), (''payload_json'', PStr [])]"
  using redaction_hides [where f = "''user''" and P = demo_raw_policy and d = "[]" and v = "PStr ''ann''" and w = "PStr ''bob''"]
  by (simp add: demo_raw_policy_def sanitize_raw_event_def redact_all_def dict_has_def)

text \<open>The dead letter of a record the archive rejects carries its unredacted text.\<close>

lemma dlq_payload_text: "pget (dlq_payload now topic p n text e) ''payload'' = PStr (take 16384 text)"
  by (simp add: dlq_payload_def pget_def dict_getd_def)

lemma rejected_text_published:
  assumes "raw_decode P (msgs p ! fo_pos s p) = Inl e" "fo_buffer s = []" "fe_flushed E"
  shows "(record_key topic p (fo_pos s p), dlq_payload (fe_now E) topic p (fo_pos s p) (km_text (msgs p ! fo_pos s p)) e, fe_delivered E)
    \<in> set (fo_dlq (fst (raw_turn P bs topic msgs E (Some p) s)))"
  using assms
  by (auto simp: raw_turn_def archive_turn_def archive_flush_def reject_message_def publish_malformed_record_def
      commit_message_def advance_def Let_def split: option.splits)

end
