(* ===== verification/Outbound_Bridge.thy ===== *)
theory Outbound_Bridge
  imports Federation "HOL-Library.Sublist"
begin

text \<open>
  The outbound bridge (\<open>services/edge_ingest/outbound_bridge.py\<close>): messages of a Kafka topic are
  forwarded to an MQTT broker and to an AMQP exchange. The topic and the routing key come from
  templates. The clients of both protocols and the consumer are not part of the repository: what they
  do is an argument of each message. A raised exception is the text \<open>Some e\<close>.
\<close>

section \<open>Templates\<close>

text \<open>\<open>s.replace(old, new)\<close> for a non-empty \<open>old\<close>.\<close>

function py_replace :: "string \<Rightarrow> string \<Rightarrow> string \<Rightarrow> string" where
  "py_replace old new [] = []"
| "py_replace old new (c # cs) =
     (if old \<noteq> [] \<and> starts_with (c # cs) old
      then new @ py_replace old new (drop (length old) (c # cs))
      else c # py_replace old new cs)"
  by pat_completeness auto
termination
  by (relation "measure (\<lambda>(old, new, s). length s)") (auto simp: neq_Nil_conv)

definition placeholder :: "string \<Rightarrow> string" where
  "placeholder k = ''{{'' @ k @ ''}}''"

definition render_template :: "pyrt \<Rightarrow> string \<Rightarrow> pydict \<Rightarrow> string" where
  "render_template R template event =
     foldl (\<lambda>result (key, v). py_replace (placeholder key) (py_str R v) result) template event"

section \<open>The bridge\<close>

text \<open>\<open>_mqtt_client\<close> is set before its \<open>connect\<close> is called.\<close>

datatype mqtt_client = NoClient | Unconnected | Connected

record outbound_config =
  oc_mqtt_host :: "string option"
  oc_mqtt_topic :: string
  oc_amqp_url :: "string option"
  oc_amqp_key :: string

record outbound =
  ob_pos :: nat                                \<comment> \<open>messages polled\<close>
  ob_committed :: nat
  ob_mqtt :: mqtt_client
  ob_amqp :: bool                              \<comment> \<open>\<open>_amqp_connection\<close> is set\<close>
  ob_mqtt_sent :: "(string \<times> pydict) list"    \<comment> \<open>topic and event, by a connected client\<close>
  ob_amqp_sent :: "(string \<times> pydict) list"
  ob_running :: bool

record outbound_env =
  oe_client :: bool                            \<comment> \<open>the MQTT client could be created\<close>
  oe_connect :: bool
  oe_publish :: bool                           \<comment> \<open>\<open>publish\<close> does not raise\<close>
  oe_linked :: bool                            \<comment> \<open>the MQTT connection is up, or comes back while the client holds the message\<close>
  oe_amqp :: bool                              \<comment> \<open>the AMQP connection could be opened\<close>
  oe_channel :: bool
  oe_basic_publish :: bool
  oe_commit :: "string list \<Rightarrow> bool"           \<comment> \<open>a commit with these keywords succeeds\<close>

text \<open>
  A publication that does not raise counts as sent in the code; the broker has it only when the client
  connected at first and the link is up.
\<close>

definition mqtt_publish :: "pyrt \<Rightarrow> outbound_config \<Rightarrow> outbound_env \<Rightarrow> pydict \<Rightarrow> outbound \<Rightarrow> outbound \<times> bool" where
  "mqtt_publish R C E event b =
     (if oe_publish E
      then (if ob_mqtt b = Connected \<and> oe_linked E
            then b\<lparr>ob_mqtt_sent := ob_mqtt_sent b @ [(render_template R (oc_mqtt_topic C) event, event)]\<rparr> else b, True)
      else (b, False))"

definition forward_mqtt :: "pyrt \<Rightarrow> outbound_config \<Rightarrow> outbound_env \<Rightarrow> pydict \<Rightarrow> outbound \<Rightarrow> outbound \<times> bool" where
  "forward_mqtt R C E event b =
     (if ob_mqtt b = NoClient then
        (if \<not> oe_client E then (b, False)
         else if \<not> oe_connect E then (b\<lparr>ob_mqtt := Unconnected\<rparr>, False)
         else mqtt_publish R C E event (b\<lparr>ob_mqtt := Connected\<rparr>))
      else mqtt_publish R C E event b)"

text \<open>
  The name \<open>pika\<close> is local to \<open>_forward_amqp\<close> and bound only by the import that opens the
  connection: with a connection that is already open the construction of the message properties
  raises \<open>UnboundLocalError\<close> inside the \<open>try\<close>. Opening the channel is outside of it.
\<close>

definition forward_amqp ::
    "pyrt \<Rightarrow> outbound_config \<Rightarrow> outbound_env \<Rightarrow> pydict \<Rightarrow> outbound \<Rightarrow> outbound \<times> (string + bool)" where
  "forward_amqp R C E event b =
     (let imports = \<not> ob_amqp b in
      if imports \<and> \<not> oe_amqp E then (b, Inr False)
      else
        (let b1 = b\<lparr>ob_amqp := True\<rparr> in
         if \<not> oe_channel E then (b1, Inl ''channel'')
         else if imports \<and> oe_basic_publish E
         then (b1\<lparr>ob_amqp_sent := ob_amqp_sent b1 @ [(render_template R (oc_amqp_key C) event, event)]\<rparr>, Inr True)
         else (b1, Inr False)))"

text \<open>
  \<open>_commit\<close>: the consumer is called with the keywords \<open>offset\<close> and \<open>asynchronous\<close>, and whatever it
  raises is dropped. The client's documentation names the keywords it takes; a call with another one
  raises \<open>TypeError\<close>.
\<close>

definition commit_call :: "string list" where
  "commit_call = [''offset'', ''asynchronous'']"

definition outbound_commit :: "outbound_env \<Rightarrow> nat \<Rightarrow> outbound \<Rightarrow> outbound" where
  "outbound_commit E n b = (if oe_commit E commit_call then b\<lparr>ob_committed := n + 1\<rparr> else b)"

definition documented_client :: "outbound_env \<Rightarrow> bool" where
  "documented_client E \<longleftrightarrow>
     (\<forall>ks. oe_commit E ks \<longrightarrow> set ks \<subseteq> {''message'', ''offsets'', ''asynchronous''})"

definition configured :: "string option \<Rightarrow> bool" where
  "configured s = (case s of None \<Rightarrow> False | Some t \<Rightarrow> t \<noteq> [])"

text \<open>A decoded value that is not an object has no \<open>items\<close>: the template raises.\<close>

definition handle_object ::
    "pyrt \<Rightarrow> outbound_config \<Rightarrow> outbound_env \<Rightarrow> nat \<Rightarrow> pydict \<Rightarrow> outbound \<Rightarrow> outbound \<times> string option" where
  "handle_object R C E n event b =
     (let (b1, d1) = (if configured (oc_mqtt_host C) then forward_mqtt R C E event b else (b, True));
          (b2, a) = (if configured (oc_amqp_url C) then forward_amqp R C E event b1 else (b1, Inr True))
      in (case a of
            Inl e \<Rightarrow> (b2, Some e)
          | Inr d2 \<Rightarrow> (if d2 \<and> d1 then outbound_commit E n b2 else b2, None)))"

definition handle_other :: "outbound_config \<Rightarrow> outbound_env \<Rightarrow> nat \<Rightarrow> outbound \<Rightarrow> outbound \<times> string option" where
  "handle_other C E n b =
     (let needs_mqtt = configured (oc_mqtt_host C);
          b1 = (if needs_mqtt \<and> ob_mqtt b = NoClient \<and> oe_client E
                then b\<lparr>ob_mqtt := (if oe_connect E then Connected else Unconnected)\<rparr> else b)
      in if needs_mqtt \<and> (ob_mqtt b \<noteq> NoClient \<or> oe_client E \<and> oe_connect E) then (b1, Some ''AttributeError'')
         else if configured (oc_amqp_url C) then
           (if \<not> ob_amqp b1 \<and> \<not> oe_amqp E then (b1, None)
            else (b1\<lparr>ob_amqp := True\<rparr>, Some (if oe_channel E then ''AttributeError'' else ''channel'')))
         else (if needs_mqtt then b1 else outbound_commit E n b1, None))"

definition handle_message ::
    "pyrt \<Rightarrow> outbound_config \<Rightarrow> outbound_env \<Rightarrow> nat \<Rightarrow> raw_value \<Rightarrow> outbound \<Rightarrow> outbound \<times> string option" where
  "handle_message R C E n raw b =
     (case raw of
        Undecodable \<Rightarrow> (outbound_commit E n b, None)
      | Json (PDict event) \<Rightarrow> handle_object R C E n event b
      | Json _ \<Rightarrow> handle_other C E n b)"

text \<open>A poll: nothing or the end of the partition, a consumer error, or the next message.\<close>

datatype outbound_poll = PollNothing | PollError | PollMessage

definition outbound_step ::
    "pyrt \<Rightarrow> outbound_config \<Rightarrow> raw_value list \<Rightarrow> outbound_poll \<times> outbound_env \<Rightarrow> outbound \<Rightarrow> outbound" where
  "outbound_step R C ms p b =
     (if \<not> ob_running b then b
      else (case fst p of
              PollNothing \<Rightarrow> b
            | PollError \<Rightarrow> b\<lparr>ob_running := False\<rparr>
            | PollMessage \<Rightarrow>
                (if length ms \<le> ob_pos b then b
                 else (case handle_message R C (snd p) (ob_pos b) (ms ! ob_pos b) (b\<lparr>ob_pos := ob_pos b + 1\<rparr>) of
                         (b1, None) \<Rightarrow> b1
                       | (b1, Some _) \<Rightarrow> b1\<lparr>ob_running := False\<rparr>))))"

definition outbound_run ::
    "pyrt \<Rightarrow> outbound_config \<Rightarrow> raw_value list \<Rightarrow> (outbound_poll \<times> outbound_env) list \<Rightarrow> outbound \<Rightarrow> outbound" where
  "outbound_run R C ms ps b = foldl (\<lambda>b p. outbound_step R C ms p b) b ps"

definition new_outbound :: outbound where
  "new_outbound = \<lparr>ob_pos = 0, ob_committed = 0, ob_mqtt = NoClient, ob_amqp = False, ob_mqtt_sent = [],
     ob_amqp_sent = [], ob_running = True\<rparr>"

section \<open>Substitution\<close>

text \<open>A template read as literals and placeholders.\<close>

datatype piece = Lit string | Var string

fun piece_text :: "piece \<Rightarrow> string" where
  "piece_text (Lit s) = s"
| "piece_text (Var k) = placeholder k"

definition template_text :: "piece list \<Rightarrow> string" where
  "template_text ps = concat (map piece_text ps)"

definition no_brace :: "string \<Rightarrow> bool" where
  "no_brace s = list_all (\<lambda>c. c \<noteq> CHR ''{'' \<and> c \<noteq> CHR ''}'') s"

fun plain_piece :: "piece \<Rightarrow> bool" where
  "plain_piece (Lit s) = no_brace s"
| "plain_piece (Var k) = no_brace k"

fun fill_piece :: "pyrt \<Rightarrow> pydict \<Rightarrow> piece \<Rightarrow> piece" where
  "fill_piece R event (Lit s) = Lit s"
| "fill_piece R event (Var k) = (case map_of event k of None \<Rightarrow> Var k | Some v \<Rightarrow> Lit (py_str R v))"

lemma replace_Cons_no:
  "\<not> starts_with (c # cs) old \<Longrightarrow> py_replace old new (c # cs) = c # py_replace old new cs"
  by simp

lemma starts_placeholder: "starts_with s (placeholder k) \<longleftrightarrow> (\<exists>t. s = placeholder k @ t)"
  by (rule starts_with_iff)

lemma replace_skip:
  "list_all (\<lambda>c. c \<noteq> CHR ''{'') s \<Longrightarrow> py_replace (placeholder k) v (s @ t) = s @ py_replace (placeholder k) v t"
proof (induction s)
  case (Cons c s)
  then have "\<not> starts_with (c # s @ t) (placeholder k)" by (auto simp: placeholder_def)
  from replace_Cons_no [OF this] Cons show ?case by (simp del: py_replace.simps)
qed simp

lemma replace_hit: "py_replace (placeholder k) v (placeholder k @ t) = v @ py_replace (placeholder k) v t"
proof -
  have "starts_with (placeholder k @ t) (placeholder k)" by (auto simp: starts_with_iff)
  moreover obtain c cs where "placeholder k @ t = c # cs" by (simp add: placeholder_def)
  ultimately show ?thesis
    by (metis append_eq_conv_conj list.distinct(1) placeholder_def py_replace.simps(2) append_Cons)
qed

lemma brace_end:
  assumes "no_brace j" "no_brace k" "j @ ''}}'' @ s = k @ ''}}'' @ t"
  shows "j = k"
proof -
  have "takeWhile (\<lambda>c. c \<noteq> CHR ''}'') (x @ ''}}'' @ u) = x" if "no_brace x" for x u
    using that by (induction x) (auto simp: no_brace_def)
  with assms show ?thesis by metis
qed

lemma replace_miss:
  assumes "no_brace j" "no_brace k" "j \<noteq> k"
  shows "py_replace (placeholder k) v (placeholder j @ t) = placeholder j @ py_replace (placeholder k) v t"
proof -
  have 1: "\<not> starts_with (CHR ''{'' # CHR ''{'' # j @ ''}}'' @ t) (placeholder k)"
  proof
    assume "starts_with (CHR ''{'' # CHR ''{'' # j @ ''}}'' @ t) (placeholder k)"
    then obtain u where "CHR ''{'' # CHR ''{'' # j @ ''}}'' @ t = placeholder k @ u"
      by (auto simp only: starts_placeholder)
    then have "j @ ''}}'' @ t = k @ ''}}'' @ u" by (simp add: placeholder_def)
    with brace_end assms show False by blast
  qed
  have 2: "\<not> starts_with (CHR ''{'' # j @ ''}}'' @ t) (placeholder k)"
    using assms(1) by (cases j) (auto simp: placeholder_def no_brace_def)
  have 3: "list_all (\<lambda>c. c \<noteq> CHR ''{'') (j @ ''}}'')"
    using assms(1) by (auto simp: no_brace_def list_all_iff)
  have "py_replace (placeholder k) v (CHR ''{'' # CHR ''{'' # j @ ''}}'' @ t)
      = CHR ''{'' # CHR ''{'' # py_replace (placeholder k) v (j @ ''}}'' @ t)"
    by (simp only: replace_Cons_no [OF 1] replace_Cons_no [OF 2])
  also have "py_replace (placeholder k) v (j @ ''}}'' @ t) = j @ ''}}'' @ py_replace (placeholder k) v t"
    using replace_skip [OF 3, of k v t] by simp
  finally show ?thesis by (simp add: placeholder_def)
qed

definition fill_one :: "string \<Rightarrow> string \<Rightarrow> piece \<Rightarrow> piece" where
  "fill_one k v p = (if p = Var k then Lit v else p)"

lemma fill_one_simps [simp]:
  "fill_one k v (Lit l) = Lit l"
  "fill_one k v (Var j) = (if j = k then Lit v else Var j)"
  by (simp_all add: fill_one_def)

lemma replace_template:
  assumes "no_brace k" "list_all plain_piece ps"
  shows "py_replace (placeholder k) v (template_text ps) = template_text (map (fill_one k v) ps)"
  using assms(2)
proof (induction ps)
  case Nil
  then show ?case by (simp add: template_text_def)
next
  case (Cons p ps)
  have c: "template_text (q # qs) = piece_text q @ template_text qs" for q qs by (simp add: template_text_def)
  from Cons have ih: "py_replace (placeholder k) v (template_text ps) = template_text (map (fill_one k v) ps)" by simp
  show ?case
  proof (cases p)
    case (Lit l)
    with Cons.prems have "list_all (\<lambda>c. c \<noteq> CHR ''{'') l" by (auto simp: no_brace_def list_all_iff)
    from replace_skip [OF this] ih Lit show ?thesis by (simp add: c)
  next
    case (Var j)
    with Cons.prems have "no_brace j" by simp
    with replace_hit replace_miss assms(1) ih Var show ?thesis by (simp add: c)
  qed
qed

lemma render_pieces:
  "\<forall>(k, w) \<in> set event. no_brace k \<and> no_brace (py_str R w) \<Longrightarrow> wf_dict event \<Longrightarrow> list_all plain_piece ps
   \<Longrightarrow> render_template R (template_text ps) event = template_text (map (fill_piece R event) ps)"
proof (induction event arbitrary: ps)
  case Nil
  have "fill_piece R [] p = p" for p by (cases p) simp_all
  then show ?case by (simp add: render_template_def)
next
  case (Cons e event)
  obtain k w where e: "e = (k, w)" by fastforce
  let ?qs = "map (fill_one k (py_str R w)) ps"
  have plain: "list_all plain_piece ?qs"
    using Cons.prems(1,3) by (auto simp: e fill_one_def list_all_iff)
  have fill: "fill_piece R event (fill_one k (py_str R w) p) = fill_piece R (e # event) p" for p
    by (cases p) (auto simp: fill_one_def e)
  have "render_template R (template_text ps) (e # event)
      = render_template R (py_replace (placeholder k) (py_str R w) (template_text ps)) event"
    by (simp add: render_template_def e)
  also have "\<dots> = render_template R (template_text ?qs) event"
    using replace_template [of k ps] Cons.prems by (simp add: e)
  also have "\<dots> = template_text (map (fill_piece R event) ?qs)"
    using Cons.IH [OF _ _ plain] Cons.prems(1,2) by (simp add: e)
  finally show ?case by (simp add: fill comp_def)
qed

section \<open>Runs\<close>

lemma outbound_run_induct:
  assumes "P b" and "\<And>b p. P b \<Longrightarrow> P (outbound_step R C ms p b)"
  shows "P (outbound_run R C ms ps b)"
  using assms(1) by (induction ps arbitrary: b) (simp_all add: outbound_run_def assms(2))

lemma outbound_step_induct:
  assumes "P b" and "\<And>b E n raw b1 r. P b \<Longrightarrow> handle_message R C E n raw b = (b1, r) \<Longrightarrow> P b1"
    and "\<And>b x. P (b\<lparr>ob_running := x\<rparr>) = P b" "\<And>b x. P (b\<lparr>ob_pos := x\<rparr>) = P b"
  shows "P (outbound_step R C ms p b)"
proof (cases "ob_running b \<and> fst p = PollMessage \<and> ob_pos b < length ms")
  case False
  then show ?thesis using assms(1,3) by (cases "fst p") (auto simp: outbound_step_def)
next
  case True
  obtain b1 r where h: "handle_message R C (snd p) (ob_pos b) (ms ! ob_pos b) (b\<lparr>ob_pos := ob_pos b + 1\<rparr>) = (b1, r)"
    by fastforce
  have "P b1" using assms(2) [OF _ h] assms(1,4) by simp
  then show ?thesis using True h assms(3) by (cases r) (simp_all add: outbound_step_def)
qed

lemmas outbound_defs = handle_message_def handle_object_def handle_other_def outbound_commit_def

text \<open>The AMQP side: one message while the connection is opened, none after it.\<close>

definition amqp_spent :: "outbound \<Rightarrow> bool" where
  "amqp_spent b \<longleftrightarrow> length (ob_amqp_sent b) \<le> (if ob_amqp b then 1 else 0)"

lemma forward_mqtt_amqp:
  "forward_mqtt R C E event b = (b1, d) \<Longrightarrow> ob_amqp b1 = ob_amqp b \<and> ob_amqp_sent b1 = ob_amqp_sent b
     \<and> ob_committed b1 = ob_committed b"
  by (auto simp: forward_mqtt_def mqtt_publish_def split: if_splits)

lemma forward_amqp_spent:
  "forward_amqp R C E event b = (b1, d) \<Longrightarrow> amqp_spent b \<Longrightarrow> amqp_spent b1"
  by (auto simp: forward_amqp_def amqp_spent_def Let_def split: if_splits)

lemma amqp_spent_fields:
  "amqp_spent (b\<lparr>ob_running := x\<rparr>) = amqp_spent b" "amqp_spent (b\<lparr>ob_pos := y\<rparr>) = amqp_spent b"
  "amqp_spent (b\<lparr>ob_committed := y\<rparr>) = amqp_spent b" "amqp_spent (b\<lparr>ob_mqtt := m\<rparr>) = amqp_spent b"
  by (simp_all add: amqp_spent_def)

lemma handle_object_spent:
  assumes "amqp_spent b" "handle_object R C E n event b = (b', r)"
  shows "amqp_spent b'"
proof -
  obtain b1 d1 where m: "(if configured (oc_mqtt_host C) then forward_mqtt R C E event b else (b, True)) = (b1, d1)"
    by fastforce
  obtain b2 a where q: "(if configured (oc_amqp_url C) then forward_amqp R C E event b1 else (b1, Inr True)) = (b2, a)"
    by fastforce
  have "amqp_spent b1"
    using m assms(1) forward_mqtt_amqp [of R C E event b b1 d1] by (auto simp: amqp_spent_def split: if_splits)
  then have "amqp_spent b2" using q forward_amqp_spent by (auto split: if_splits)
  then show ?thesis
    using assms(2) m q by (cases a) (auto simp: handle_object_def outbound_commit_def amqp_spent_fields split: if_splits)
qed

lemma handle_spent:
  assumes "amqp_spent b" "handle_message R C E n raw b = (b', r)"
  shows "amqp_spent b'"
proof -
  have other: "handle_other C E n b = (b', r) \<Longrightarrow> amqp_spent b'"
    using assms(1) by (auto simp: handle_other_def outbound_commit_def amqp_spent_def Let_def split: if_splits)
  show ?thesis
  proof (cases raw)
    case Undecodable
    then show ?thesis using assms by (auto simp: handle_message_def outbound_commit_def amqp_spent_fields split: if_splits)
  next
    case (Json v)
    then show ?thesis using assms handle_object_spent other by (cases v) (auto simp: handle_message_def)
  qed
qed

section \<open>Properties\<close>

text \<open>
  The AMQP side forwards at most one message in the life of a process, whatever arrives and
  however well the broker behaves: from the second message on the construction of its properties
  raises.
\<close>

theorem amqp_forwards_once:
  "length (ob_amqp_sent (outbound_run R C ms ps new_outbound)) \<le> 1"
proof -
  have "amqp_spent (outbound_run R C ms ps new_outbound)"
  proof (rule outbound_run_induct)
    show "amqp_spent new_outbound" by (simp add: amqp_spent_def new_outbound_def)
    show "amqp_spent (outbound_step R C ms p b)" if "amqp_spent b" for b p
      using that by (rule outbound_step_induct) (simp_all add: amqp_spent_fields handle_spent)
  qed
  then show ?thesis by (simp add: amqp_spent_def split: if_splits)
qed

text \<open>
  What a message contributes to a side: an object its text under the rendered template, anything else
  nothing.
\<close>

definition targets :: "pyrt \<Rightarrow> string \<Rightarrow> raw_value \<Rightarrow> (string \<times> pydict) list" where
  "targets R t raw = (case raw of Json (PDict e) \<Rightarrow> [(render_template R t e, e)] | _ \<Rightarrow> [])"

definition step_adds :: "pyrt \<Rightarrow> outbound_config \<Rightarrow> raw_value \<Rightarrow> outbound \<Rightarrow> outbound \<Rightarrow> bool" where
  "step_adds R C raw b b1 \<longleftrightarrow> ob_pos b1 = ob_pos b
     \<and> (\<exists>xs. ob_mqtt_sent b1 = ob_mqtt_sent b @ xs \<and> subseq xs (targets R (oc_mqtt_topic C) raw))
     \<and> (\<exists>xs. ob_amqp_sent b1 = ob_amqp_sent b @ xs \<and> subseq xs (targets R (oc_amqp_key C) raw))"

lemma forward_mqtt_adds:
  "forward_mqtt R C E event b = (b1, d) \<Longrightarrow> ob_pos b1 = ob_pos b \<and> ob_amqp_sent b1 = ob_amqp_sent b
     \<and> (ob_mqtt_sent b1 = ob_mqtt_sent b
        \<or> ob_mqtt_sent b1 = ob_mqtt_sent b @ [(render_template R (oc_mqtt_topic C) event, event)])"
  by (auto simp: forward_mqtt_def mqtt_publish_def split: if_splits)

lemma forward_amqp_adds:
  "forward_amqp R C E event b = (b1, d) \<Longrightarrow> ob_pos b1 = ob_pos b \<and> ob_mqtt_sent b1 = ob_mqtt_sent b
     \<and> ob_committed b1 = ob_committed b
     \<and> (ob_amqp_sent b1 = ob_amqp_sent b
        \<or> ob_amqp_sent b1 = ob_amqp_sent b @ [(render_template R (oc_amqp_key C) event, event)])"
  by (auto simp: forward_amqp_def Let_def split: if_splits)

lemma outbound_commit_fields [simp]:
  "ob_pos (outbound_commit E n b) = ob_pos b" "ob_mqtt_sent (outbound_commit E n b) = ob_mqtt_sent b"
  "ob_amqp_sent (outbound_commit E n b) = ob_amqp_sent b" "ob_mqtt (outbound_commit E n b) = ob_mqtt b"
  "ob_running (outbound_commit E n b) = ob_running b"
  by (simp_all add: outbound_commit_def)

lemma documented_refuses: "documented_client E \<Longrightarrow> outbound_commit E n b = b"
  by (auto simp: outbound_commit_def documented_client_def commit_call_def)

lemma handle_object_adds:
  assumes "handle_object R C E n event b = (b', r)"
  shows "step_adds R C (Json (PDict event)) b b' \<and> (documented_client E \<longrightarrow> ob_committed b' = ob_committed b)"
proof -
  obtain b1 d1 where m: "(if configured (oc_mqtt_host C) then forward_mqtt R C E event b else (b, True)) = (b1, d1)"
    by fastforce
  obtain b2 a where q: "(if configured (oc_amqp_url C) then forward_amqp R C E event b1 else (b1, Inr True)) = (b2, a)"
    by fastforce
  have 1: "ob_pos b1 = ob_pos b \<and> ob_amqp_sent b1 = ob_amqp_sent b \<and> ob_committed b1 = ob_committed b
      \<and> (ob_mqtt_sent b1 = ob_mqtt_sent b
        \<or> ob_mqtt_sent b1 = ob_mqtt_sent b @ [(render_template R (oc_mqtt_topic C) event, event)])"
    using m forward_mqtt_adds [of R C E event b b1 d1] forward_mqtt_amqp [of R C E event b b1 d1]
    by (auto split: if_splits)
  have 2: "ob_pos b2 = ob_pos b1 \<and> ob_mqtt_sent b2 = ob_mqtt_sent b1 \<and> ob_committed b2 = ob_committed b1
      \<and> (ob_amqp_sent b2 = ob_amqp_sent b1
        \<or> ob_amqp_sent b2 = ob_amqp_sent b1 @ [(render_template R (oc_amqp_key C) event, event)])"
    using q forward_amqp_adds [of R C E event b1 b2 a] by (auto split: if_splits)
  have 3: "b' = b2 \<or> b' = outbound_commit E n b2"
    using assms m q by (cases a) (auto simp: handle_object_def split: if_splits)
  then have "documented_client E \<longrightarrow> ob_committed b' = ob_committed b" using 1 2 documented_refuses by auto
  with 1 2 3 show ?thesis by (auto simp: step_adds_def targets_def)
qed

lemma handle_other_adds:
  "handle_other C E n b = (b', r) \<Longrightarrow> ob_pos b' = ob_pos b \<and> ob_mqtt_sent b' = ob_mqtt_sent b
     \<and> ob_amqp_sent b' = ob_amqp_sent b \<and> (documented_client E \<longrightarrow> ob_committed b' = ob_committed b)"
  using documented_refuses by (auto simp: handle_other_def Let_def split: if_splits)

lemma handle_message_adds:
  assumes "handle_message R C E n raw b = (b', r)"
  shows "step_adds R C raw b b' \<and> (documented_client E \<longrightarrow> ob_committed b' = ob_committed b)"
proof (cases "\<exists>e. raw = Json (PDict e)")
  case True
  then show ?thesis using assms handle_object_adds by (auto simp: handle_message_def)
next
  case False
  then have "ob_pos b' = ob_pos b \<and> ob_mqtt_sent b' = ob_mqtt_sent b \<and> ob_amqp_sent b' = ob_amqp_sent b
      \<and> (documented_client E \<longrightarrow> ob_committed b' = ob_committed b)"
    using assms handle_other_adds documented_refuses
    by (cases raw) (auto simp: handle_message_def split: pyval.splits)
  then show ?thesis by (auto simp: step_adds_def)
qed

text \<open>The state of a run after any polls: what each side has, against the messages polled so far.\<close>

definition forwarded_upto :: "pyrt \<Rightarrow> outbound_config \<Rightarrow> raw_value list \<Rightarrow> outbound \<Rightarrow> bool" where
  "forwarded_upto R C ms b \<longleftrightarrow> ob_pos b \<le> length ms
     \<and> subseq (ob_mqtt_sent b) (concat (map (targets R (oc_mqtt_topic C)) (take (ob_pos b) ms)))
     \<and> subseq (ob_amqp_sent b) (concat (map (targets R (oc_amqp_key C)) (take (ob_pos b) ms)))"

lemma step_forwarded:
  assumes "forwarded_upto R C ms b"
  shows "forwarded_upto R C ms (outbound_step R C ms p b)
    \<and> (documented_client (snd p) \<longrightarrow> ob_committed (outbound_step R C ms p b) = ob_committed b)"
proof (cases "ob_running b \<and> fst p = PollMessage \<and> ob_pos b < length ms")
  case False
  then show ?thesis using assms by (cases "fst p") (auto simp: outbound_step_def forwarded_upto_def)
next
  case True
  let ?b = "b\<lparr>ob_pos := ob_pos b + 1\<rparr>"
  obtain b1 r where h: "handle_message R C (snd p) (ob_pos b) (ms ! ob_pos b) ?b = (b1, r)" by fastforce
  from handle_message_adds [OF h]
  have adds: "step_adds R C (ms ! ob_pos b) ?b b1" and keeps: "documented_client (snd p) \<longrightarrow> ob_committed b1 = ob_committed b"
    by simp_all
  have take: "take (ob_pos b + 1) ms = take (ob_pos b) ms @ [ms ! ob_pos b]"
    using True by (simp add: take_Suc_conv_app_nth)
  have "forwarded_upto R C ms b1"
    using adds assms True
    by (auto simp: step_adds_def forwarded_upto_def take [unfolded One_nat_def add_Suc_right add_0_right] intro: list_emb_append_mono)
  moreover have "outbound_step R C ms p b = b1 \<or> outbound_step R C ms p b = b1\<lparr>ob_running := False\<rparr>"
    using True h by (cases r) (simp_all add: outbound_step_def)
  ultimately show ?thesis using keeps by (auto simp: forwarded_upto_def)
qed

lemma run_forwarded:
  "forwarded_upto R C ms b \<Longrightarrow> forwarded_upto R C ms (outbound_run R C ms ps b)
    \<and> ((\<forall>p \<in> set ps. documented_client (snd p)) \<longrightarrow> ob_committed (outbound_run R C ms ps b) = ob_committed b)"
proof (induction ps arbitrary: b)
  case (Cons p ps)
  from step_forwarded [OF Cons.prems, of p] Cons.IH [of "outbound_step R C ms p b"]
  show ?case by (simp add: outbound_run_def)
qed (simp add: outbound_run_def)

text \<open>A run against a broker that takes everything: only the MQTT side is configured.\<close>

definition mqtt_up :: "outbound_env \<Rightarrow> bool" where
  "mqtt_up E \<longleftrightarrow> oe_client E \<and> oe_connect E \<and> oe_publish E \<and> oe_linked E"

definition poll_count :: "(outbound_poll \<times> outbound_env) list \<Rightarrow> nat" where
  "poll_count ps = length (filter (\<lambda>p. fst p = PollMessage) ps)"

lemma up_step:
  assumes "ob_running b" "ob_mqtt b \<noteq> Unconnected" "fst p \<noteq> PollError" "mqtt_up (snd p)"
    and "configured (oc_mqtt_host C)" "\<not> configured (oc_amqp_url C)" "list_all (\<lambda>m. \<exists>e. m = Json (PDict e)) ms"
    and "ob_pos b \<le> length ms"
    and "ob_mqtt_sent b = concat (map (targets R (oc_mqtt_topic C)) (take (ob_pos b) ms))"
  shows "ob_running (outbound_step R C ms p b) \<and> ob_mqtt (outbound_step R C ms p b) \<noteq> Unconnected
    \<and> ob_pos (outbound_step R C ms p b) = min (length ms) (ob_pos b + poll_count [p])
    \<and> ob_mqtt_sent (outbound_step R C ms p b)
        = concat (map (targets R (oc_mqtt_topic C)) (take (ob_pos (outbound_step R C ms p b)) ms))"
proof (cases "fst p = PollMessage \<and> ob_pos b < length ms")
  case False
  then show ?thesis using assms(1-3,8,9) by (cases "fst p") (auto simp: outbound_step_def poll_count_def)
next
  case True
  then obtain e where e: "ms ! ob_pos b = Json (PDict e)" using assms(7) by (auto simp: list_all_length)
  have take: "take (Suc (ob_pos b)) ms = take (ob_pos b) ms @ [ms ! ob_pos b]"
    using True by (simp add: take_Suc_conv_app_nth)
  show ?thesis using True assms(1,2,4-6,9) e
    by (cases "ob_mqtt b") (auto simp: outbound_step_def handle_message_def handle_object_def forward_mqtt_def
        mqtt_publish_def mqtt_up_def poll_count_def take targets_def)
qed

lemma up_run:
  assumes "list_all (\<lambda>p. fst p \<noteq> PollError \<and> mqtt_up (snd p)) ps"
    and "configured (oc_mqtt_host C)" "\<not> configured (oc_amqp_url C)" "list_all (\<lambda>m. \<exists>e. m = Json (PDict e)) ms"
  shows "ob_running b \<and> ob_mqtt b \<noteq> Unconnected \<and> ob_pos b \<le> length ms
      \<and> ob_mqtt_sent b = concat (map (targets R (oc_mqtt_topic C)) (take (ob_pos b) ms))
    \<Longrightarrow> ob_pos (outbound_run R C ms ps b) = min (length ms) (ob_pos b + poll_count ps)
      \<and> ob_mqtt_sent (outbound_run R C ms ps b)
          = concat (map (targets R (oc_mqtt_topic C)) (take (ob_pos (outbound_run R C ms ps b)) ms))"
  using assms(1)
proof (induction ps arbitrary: b)
  case Nil
  then show ?case by (simp add: outbound_run_def poll_count_def)
next
  case (Cons p ps)
  let ?c = "outbound_step R C ms p b"
  from up_step [of b p C ms R] Cons.prems assms(2-4)
  have c: "ob_running ?c \<and> ob_mqtt ?c \<noteq> Unconnected \<and> ob_pos ?c \<le> length ms
      \<and> ob_mqtt_sent ?c = concat (map (targets R (oc_mqtt_topic C)) (take (ob_pos ?c) ms))"
    and pos: "ob_pos ?c = min (length ms) (ob_pos b + poll_count [p])" by simp_all
  have "poll_count (p # ps) = poll_count [p] + poll_count ps" by (simp add: poll_count_def)
  with Cons.IH [OF c] Cons.prems(2) pos show ?case by (simp add: outbound_run_def min_def)
qed

text \<open>
  Claim C37. In every run of a new bridge, whatever the clients and the consumer answer, the MQTT
  broker gets a subsequence of the objects among the polled messages, each under its rendered topic:
  in order, unchanged and at most once per poll of it (what the client library sends again by itself, for
  QoS 1, is the same message); the AMQP exchange likewise. With a consumer
  that takes only the keywords its client documents nothing is ever committed. When only the MQTT side
  is configured, its broker and link are up, no poll is an error and every message is an object, the
  broker has exactly the polled messages.
\<close>

theorem outbound_forwards:
  fixes ms ps R C
  defines "b \<equiv> outbound_run R C ms ps new_outbound"
  shows "subseq (ob_mqtt_sent b) (concat (map (targets R (oc_mqtt_topic C)) (take (ob_pos b) ms)))
    \<and> subseq (ob_amqp_sent b) (concat (map (targets R (oc_amqp_key C)) (take (ob_pos b) ms)))
    \<and> ((\<forall>p \<in> set ps. documented_client (snd p)) \<longrightarrow> ob_committed b = 0)
    \<and> (list_all (\<lambda>p. fst p \<noteq> PollError \<and> mqtt_up (snd p)) ps \<and> configured (oc_mqtt_host C)
        \<and> \<not> configured (oc_amqp_url C) \<and> list_all (\<lambda>m. \<exists>e. m = Json (PDict e)) ms
        \<longrightarrow> ob_mqtt_sent b = concat (map (targets R (oc_mqtt_topic C)) (take (min (length ms) (poll_count ps)) ms)))"
proof -
  have "forwarded_upto R C ms new_outbound" by (simp add: forwarded_upto_def new_outbound_def)
  note upto = run_forwarded [OF this, of ps]
  have "ob_mqtt_sent b = concat (map (targets R (oc_mqtt_topic C)) (take (min (length ms) (poll_count ps)) ms))"
    if "list_all (\<lambda>p. fst p \<noteq> PollError \<and> mqtt_up (snd p)) ps" "configured (oc_mqtt_host C)"
      "\<not> configured (oc_amqp_url C)" "list_all (\<lambda>m. \<exists>e. m = Json (PDict e)) ms"
    using up_run [OF that, of new_outbound R] by (simp add: b_def new_outbound_def)
  with upto show ?thesis by (simp add: forwarded_upto_def b_def new_outbound_def)
qed

definition demo_outbound_env :: outbound_env where
  "demo_outbound_env = \<lparr>oe_client = True, oe_connect = True, oe_publish = True, oe_linked = True, oe_amqp = True, oe_channel = True,
     oe_basic_publish = True,
     oe_commit = (\<lambda>ks. set ks \<subseteq> {''message'', ''offsets'', ''asynchronous''})\<rparr>"

definition demo_outbound_config :: outbound_config where
  "demo_outbound_config = \<lparr>oc_mqtt_host = Some ''h'', oc_mqtt_topic = ''t'', oc_amqp_url = None, oc_amqp_key = ''k''\<rparr>"

lemmas demo_outbound = demo_outbound_env_def demo_outbound_config_def new_outbound_def

theorem outbound_forwards_witness:
  "ob_committed (outbound_run demo_rt demo_outbound_config [Json (PDict [])] [(PollMessage, demo_outbound_env)] new_outbound) = 0
    \<and> ob_mqtt_sent (outbound_run demo_rt demo_outbound_config [Json (PDict [])] [(PollMessage, demo_outbound_env)] new_outbound)
      = [(''t'', [])]"
proof -
  let ?ps = "[(PollMessage, demo_outbound_env)]" and ?ms = "[Json (PDict [])]"
  have d: "\<forall>p \<in> set ?ps. documented_client (snd p)" by (auto simp: documented_client_def demo_outbound)
  from outbound_forwards [of demo_rt demo_outbound_config ?ms ?ps] d show ?thesis
    by (simp add: demo_outbound configured_def mqtt_up_def targets_def render_template_def poll_count_def)
qed

text \<open>
  A first MQTT connect that fails is never repeated, and it hides every later message: the
  client exists from then on, a publish that does not raise counts as delivered, the message is
  handed to the commit, and the broker gets nothing.
\<close>

theorem failed_connect_hides:
  assumes "ob_mqtt b = NoClient" "oe_client E" "\<not> oe_connect E" "forward_mqtt R C E event b = (b1, d)"
    and "configured (oc_mqtt_host C)" "\<not> configured (oc_amqp_url C)" "oe_publish E'"
  shows "\<not> d \<and> handle_object R C E' n event' (b1\<lparr>ob_pos := q\<rparr>) = (outbound_commit E' n (b1\<lparr>ob_pos := q\<rparr>), None)
    \<and> ob_mqtt b1 = Unconnected \<and> ob_mqtt_sent b1 = ob_mqtt_sent b"
  using assms by (auto simp: forward_mqtt_def mqtt_publish_def handle_object_def outbound_commit_def)

theorem failed_connect_hides_witness:
  "\<exists>b1 d. forward_mqtt demo_rt demo_outbound_config (demo_outbound_env\<lparr>oe_connect := False\<rparr>) [] new_outbound = (b1, d)
     \<and> handle_object demo_rt demo_outbound_config demo_outbound_env 6 [] (b1\<lparr>ob_pos := 7\<rparr>)
         = (outbound_commit demo_outbound_env 6 (b1\<lparr>ob_pos := 7\<rparr>), None)
     \<and> ob_mqtt_sent b1 = []"
proof -
  let ?E = "demo_outbound_env\<lparr>oe_connect := False\<rparr>"
  obtain b1 d where f: "forward_mqtt demo_rt demo_outbound_config ?E [] new_outbound = (b1, d)" by fastforce
  from failed_connect_hides [OF _ _ _ f, of demo_outbound_env 6 "[]" 7]
  have "handle_object demo_rt demo_outbound_config demo_outbound_env 6 [] (b1\<lparr>ob_pos := 7\<rparr>)
         = (outbound_commit demo_outbound_env 6 (b1\<lparr>ob_pos := 7\<rparr>), None)
      \<and> ob_mqtt_sent b1 = []" by (simp add: demo_outbound configured_def)
  with f show ?thesis by blast
qed

text \<open>
  A failed forward is not delivered again on the next poll: the poll returns the next
  message, and when that one is forwarded its commit, where a consumer took it, would pass the failed one.
\<close>

theorem failed_forward_skipped:
  assumes "ob_running b" "ob_mqtt b = Connected" "configured (oc_mqtt_host C)" "\<not> configured (oc_amqp_url C)"
    and "ob_pos b + 1 < length ms" "ms ! ob_pos b = Json (PDict e1)" "ms ! (ob_pos b + 1) = Json (PDict e2)"
    and "\<not> oe_publish E1" "oe_publish E2" "oe_linked E2"
  shows "outbound_run R C ms [(PollMessage, E1), (PollMessage, E2)] b
    = outbound_commit E2 (ob_pos b + 1) (b\<lparr>ob_pos := ob_pos b + 2,
        ob_mqtt_sent := ob_mqtt_sent b @ [(render_template R (oc_mqtt_topic C) e2, e2)]\<rparr>)"
  using assms
  by (simp add: outbound_run_def outbound_step_def handle_message_def handle_object_def forward_mqtt_def
      mqtt_publish_def outbound_commit_def)

theorem failed_forward_skipped_witness:
  "ob_mqtt_sent (outbound_run demo_rt demo_outbound_config [Json (PDict []), Json (PDict [])]
      [(PollMessage, demo_outbound_env\<lparr>oe_publish := False\<rparr>), (PollMessage, demo_outbound_env)]
      (new_outbound\<lparr>ob_mqtt := Connected\<rparr>)) = [(''t'', [])]"
  by (subst failed_forward_skipped [where ?e1.0 = "[]" and ?e2.0 = "[]"])
    (simp_all add: demo_outbound configured_def render_template_def)

text \<open>
  A message that is valid JSON but not an object ends the bridge once a client is
  connected: the exception leaves the loop and the offset is not committed, so the message is the
  poison the decoding was meant to pass over.
\<close>

theorem non_object_stops:
  assumes "ob_running b" "ob_mqtt b = Connected" "configured (oc_mqtt_host C)"
    and "ob_pos b < length ms" "ms ! ob_pos b = Json v" "\<not> is_dict v"
  shows "outbound_step R C ms (PollMessage, E) b = b\<lparr>ob_pos := ob_pos b + 1, ob_running := False\<rparr>"
  using assms by (cases v) (auto simp: outbound_step_def handle_message_def handle_other_def is_dict_def Let_def)

theorem non_object_stops_witness:
  "ob_running (outbound_step demo_rt demo_outbound_config [Json (PInt 1)] (PollMessage, demo_outbound_env)
     (new_outbound\<lparr>ob_mqtt := Connected\<rparr>)) = False"
  by (subst non_object_stops [where v = "PInt 1"]) (simp_all add: demo_outbound configured_def is_dict_def)

text \<open>
  For keys and values without braces the successive replacements of a template are one
  simultaneous substitution: each placeholder of a field becomes its text, the others and the
  literals stay.
\<close>

theorem render_substitutes:
  assumes "\<forall>(k, w) \<in> set event. no_brace k \<and> no_brace (py_str R w)" "wf_dict event" "list_all plain_piece ps"
  shows "render_template R (template_text ps) event = template_text (map (fill_piece R event) ps)"
  using assms by (rule render_pieces)

theorem render_substitutes_witness:
  "render_template demo_rt ''a/{{x}}/{{y}}'' [(''x'', PStr ''p''), (''z'', PStr ''q'')] = ''a/p/{{y}}''"
proof -
  let ?ps = "[Lit ''a/'', Var ''x'', Lit ''/'', Var ''y'']"
  let ?e = "[(''x'', PStr ''p''), (''z'', PStr ''q'')]"
  have t: "template_text ?ps = ''a/{{x}}/{{y}}''" by (simp add: template_text_def placeholder_def)
  have "render_template demo_rt (template_text ?ps) ?e = template_text (map (fill_piece demo_rt ?e) ?ps)"
    by (rule render_substitutes) (simp_all add: no_brace_def)
  then show ?thesis unfolding t by (simp add: template_text_def placeholder_def)
qed

end
