(* ===== verification/Modbus.thy ===== *)
theory Modbus
  imports Edge_Model "HOL-Library.Word"
begin

unbundle bit_operations_syntax

text \<open>
  The Modbus connectors of the edge: register decoding
  (\<open>services/edge_ingest/connectors/modbus_registers.py\<close>) and one polling round of the TCP and the
  serial connector (\<open>connectors/modbus.py\<close>, \<open>modbus_rtu.py\<close>). Registers are 16-bit words, the
  bytes handed to \<open>struct.unpack\<close> 8-bit words. A number is the rational it denotes; infinities and NaN
  are the constructor \<open>RNonfinite\<close>. What the device answers to a read is an argument.
\<close>

section \<open>Decoding\<close>

type_synonym byte = "8 word"
type_synonym reg16 = "16 word"

datatype reading = RNum rat | RBool bool | RNonfinite

datatype modbus_error = IndexError | KeyError string | StructError | ModbusTypeError | ModbusAttributeError
  | ModbusValueError | ReadError

definition reg_modbus_types :: "string list" where
  "reg_modbus_types = [''uint16'', ''int16'', ''bool'', ''uint32'', ''int32'', ''float32'', ''uint64'', ''int64'', ''float64'']"

definition register_count :: "string \<Rightarrow> nat" where
  "register_count t = (if t \<in> {''uint64'', ''int64'', ''float64''} then 4
     else if t \<in> {''uint32'', ''int32'', ''float32''} then 2 else 1)"

definition swap_bytes :: "reg16 \<Rightarrow> reg16" where
  "swap_bytes v = push_bit 8 (v AND 0xFF) OR drop_bit 8 v"

definition word_bytes :: "reg16 \<Rightarrow> byte list" where
  "word_bytes v = [ucast (drop_bit 8 v), ucast v]"

fun byte_pairs :: "'a list \<Rightarrow> 'a list list" where
  "byte_pairs (a # b # bs) = [a, b] # byte_pairs bs"
| "byte_pairs [a] = [[a]]"
| "byte_pairs [] = []"

definition register_words :: "int list \<Rightarrow> string \<Rightarrow> reg16 list" where
  "register_words registers byte_order =
     (let values = map word_of_int registers in if byte_order = ''little'' then map swap_bytes values else values)"

definition register_bytes :: "int list \<Rightarrow> string \<Rightarrow> string \<Rightarrow> byte list" where
  "register_bytes registers byte_order word_order =
     (let raw = concat (map word_bytes (register_words registers byte_order))
      in if word_order = ''little'' then concat (rev (byte_pairs raw)) else raw)"

text \<open>Big-endian numbers, two's complement and the IEEE binary formats.\<close>

definition be_value :: "byte list \<Rightarrow> int" where
  "be_value bs = foldl (\<lambda>a b. a * 256 + uint b) 0 bs"

definition signed_value :: "nat \<Rightarrow> int \<Rightarrow> int" where
  "signed_value n v = (if 2 ^ (8 * n - 1) \<le> v then v - 2 ^ (8 * n) else v)"

definition ieee_value :: "nat \<Rightarrow> nat \<Rightarrow> int \<Rightarrow> reading" where
  "ieee_value ebits mbits v =
     (let m = v mod 2 ^ mbits; e = v div 2 ^ mbits mod 2 ^ ebits; s = v div 2 ^ (mbits + ebits);
          bias = 2 ^ (ebits - 1) - 1;
          sign = (if s = 0 then 1 else - 1 :: rat)
      in if e = 2 ^ ebits - 1 then RNonfinite
         else if e = 0 then RNum (sign * of_int m / 2 ^ nat (bias - 1 + int mbits))
         else RNum (sign * of_int (2 ^ mbits + m) * 2 ^ nat e / 2 ^ nat (bias + int mbits)))"

definition unpack_sizes :: "(string \<times> nat) list" where
  "unpack_sizes = [(''uint16'', 2), (''int16'', 2), (''uint32'', 4), (''int32'', 4), (''float32'', 4),
     (''uint64'', 8), (''int64'', 8), (''float64'', 8)]"

definition unpack_value :: "string \<Rightarrow> byte list \<Rightarrow> reading" where
  "unpack_value t bs =
     (if t = ''float32'' then ieee_value 8 23 (be_value bs)
      else if t = ''float64'' then ieee_value 11 52 (be_value bs)
      else if t \<in> {''int16'', ''int32'', ''int64''} then RNum (of_int (signed_value (length bs) (be_value bs)))
      else RNum (of_int (be_value bs)))"

definition decode_registers :: "int list \<Rightarrow> string \<Rightarrow> string \<Rightarrow> string \<Rightarrow> modbus_error + reading" where
  "decode_registers registers data_type byte_order word_order =
     (if data_type = ''bool'' then
        (case register_words registers byte_order of [] \<Rightarrow> Inl IndexError | v # _ \<Rightarrow> Inr (RBool (v \<noteq> 0)))
      else (case map_of unpack_sizes data_type of
              None \<Rightarrow> Inl (KeyError data_type)
            | Some n \<Rightarrow>
                (let raw = take n (register_bytes registers byte_order word_order)
                 in if length raw < n then Inl StructError else Inr (unpack_value data_type raw))))"

section \<open>Register maps\<close>

record modbus_register =
  rg_address :: int
  rg_tag :: string
  rg_unit :: string
  rg_scale :: rat
  rg_offset :: rat
  rg_unit_id :: int
  rg_data_type :: string
  rg_byte_order :: string
  rg_word_order :: string
  rg_count :: nat

definition conv :: "'a option \<Rightarrow> modbus_error + 'a" where
  "conv v = (case v of None \<Rightarrow> Inl ModbusValueError | Some x \<Rightarrow> Inr x)"

definition lower_text :: "pyrt \<Rightarrow> pydict \<Rightarrow> string \<Rightarrow> string \<Rightarrow> string" where
  "lower_text R d k dflt = py_lower (py_str R (dict_getd d k (PStr dflt)))"

text \<open>An item that is no object has no \<open>get\<close>.\<close>

definition normalize_register :: "pyrt \<Rightarrow> pyval \<Rightarrow> modbus_error + modbus_register" where
  "normalize_register R item =
     (case item of
        PDict d \<Rightarrow>
          (case map_of d ''address'' of
             None \<Rightarrow> Inl (KeyError ''address'')
           | Some a \<Rightarrow>
               res_bind (conv (py_int a)) (\<lambda>address.
               res_bind (conv (py_float R (dict_getd d ''scale'' (PFloat 1)))) (\<lambda>scale.
               res_bind (conv (py_float R (dict_getd d ''offset'' (PFloat 0)))) (\<lambda>offset.
               res_bind (conv (py_int (dict_getd d ''unit_id'' (dict_getd d ''slave_id'' (PInt 1))))) (\<lambda>unit_id.
                 Inr \<lparr>rg_address = address, rg_tag = py_str R (dict_getd d ''tag'' (PStr (''register_'' @ py_str R a))),
                      rg_unit = py_str R (dict_getd d ''unit'' (PStr [])), rg_scale = scale, rg_offset = offset,
                      rg_unit_id = unit_id, rg_data_type = lower_text R d ''data_type'' ''uint16'',
                      rg_byte_order = lower_text R d ''byte_order'' ''big'',
                      rg_word_order = lower_text R d ''word_order'' ''big'',
                      rg_count = register_count (lower_text R d ''data_type'' ''uint16'')\<rparr>)))))
      | _ \<Rightarrow> Inl ModbusAttributeError)"

fun normalize_all :: "pyrt \<Rightarrow> pyval list \<Rightarrow> modbus_error + modbus_register list" where
  "normalize_all R [] = Inr []"
| "normalize_all R (v # vs) =
     res_bind (normalize_register R v) (\<lambda>r. res_bind (normalize_all R vs) (\<lambda>rs. Inr (r # rs)))"

section \<open>Polling\<close>

text \<open>The entries of the built-in map are tuples; subscripting one with a name raises \<open>TypeError\<close>.\<close>

datatype map_entry = Entry modbus_register | TupleEntry int string string rat rat int

definition demo_register_map :: "map_entry list" where
  "demo_register_map = [TupleEntry 0 ''Temperature'' ''c'' (1/10) 0 1, TupleEntry 1 ''Vibration'' ''mm/s'' (1/100) 0 1,
     TupleEntry 2 ''Pressure'' ''bar'' (1/10) 0 1]"

definition scaled :: "modbus_register \<Rightarrow> reading \<Rightarrow> reading" where
  "scaled r v = (if rg_data_type r = ''bool'' then v
     else case v of RNum x \<Rightarrow> RNum (x * rg_scale r + rg_offset r) | other \<Rightarrow> other)"

text \<open>The register map a TCP source polls; \<open>None\<close>: a registry source without a map is reported and left.\<close>

definition tcp_register_map :: "pyrt \<Rightarrow> bool \<Rightarrow> pyval \<Rightarrow> (modbus_error + map_entry list) option" where
  "tcp_register_map R registry_managed registers =
     (case py_or registers (PList []) of
        PList (v # vs) \<Rightarrow> Some (res_bind (normalize_all R (v # vs)) (\<lambda>rs. Inr (map Entry rs)))
      | _ \<Rightarrow> if \<not> registry_managed then Some (Inr demo_register_map) else None)"

text \<open>One pass over the map, as \<open>(register, value)\<close> per published event: a device's answer is its registers,
  \<open>None\<close> an error response.\<close>

fun tcp_round :: "(int \<Rightarrow> nat \<Rightarrow> int \<Rightarrow> int list option) \<Rightarrow> map_entry list \<Rightarrow> (modbus_register \<times> reading) list \<times> modbus_error option" where
  "tcp_round dev [] = ([], None)"
| "tcp_round dev (TupleEntry a t u s off i # es) = ([], Some ModbusTypeError)"
| "tcp_round dev (Entry r # es) =
     (case dev (rg_address r) (register_count (rg_data_type r)) (rg_unit_id r) of
        None \<Rightarrow> ([], Some ReadError)
      | Some registers \<Rightarrow>
          (case decode_registers registers (rg_data_type r) (rg_byte_order r) (rg_word_order r) of
             Inl e \<Rightarrow> ([], Some e)
           | Inr v \<Rightarrow> (let (out, e) = tcp_round dev es in ((r, scaled r v) # out, e))))"

text \<open>The event of a reading; \<open>None\<close>: the value is not finite.\<close>

definition tcp_payload :: "modbus_register \<Rightarrow> reading \<Rightarrow> string \<Rightarrow> string \<Rightarrow> string \<Rightarrow> string \<Rightarrow> pydict option" where
  "tcp_payload r v source_id asset site now =
     map_option (\<lambda>value.
      [(''source_protocol'', PStr ''modbus''), (''source_id'', PStr source_id), (''asset_id'', PStr asset),
       (''tag'', PStr (rg_tag r)), (''value'', value), (''quality'', PStr ''good''),
       (''unit'', PStr (rg_unit r)), (''site'', PStr site), (''ts_source'', PStr now)])
      (case v of RNum x \<Rightarrow> Some (PFloat x) | RBool b \<Rightarrow> Some (PBool b) | RNonfinite \<Rightarrow> None)"

text \<open>The serial connector: the client returns \<open>None\<close> instead of an error, an empty answer is skipped. A single
  unsigned register is published from the raw list, everything else from the decoded value.\<close>

definition float_reading :: "reading \<Rightarrow> reading" where
  "float_reading v = (case v of RBool b \<Rightarrow> RNum (if b then 1 else 0) | other \<Rightarrow> other)"

definition rtu_readings :: "modbus_register \<Rightarrow> int list \<Rightarrow> modbus_error + reading list" where
  "rtu_readings r values =
     res_bind (decode_registers (take (rg_count r) values) (rg_data_type r) (rg_byte_order r) (rg_word_order r)) (\<lambda>v.
       Inr (if rg_data_type r = ''uint16'' \<and> rg_count r = 1 then map (\<lambda>x. RNum (of_int x)) values
            else [if rg_data_type r = ''bool'' then v else float_reading (scaled r v)]))"

fun rtu_round :: "(int \<Rightarrow> nat \<Rightarrow> int list option) \<Rightarrow> modbus_register list \<Rightarrow> (modbus_register \<times> reading) list \<times> modbus_error option" where
  "rtu_round dev [] = ([], None)"
| "rtu_round dev (r # rs) =
     (case dev (rg_address r) (rg_count r) of
        None \<Rightarrow> rtu_round dev rs
      | Some [] \<Rightarrow> rtu_round dev rs
      | Some (x # xs) \<Rightarrow>
          (case rtu_readings r (x # xs) of
             Inl e \<Rightarrow> ([], Some e)
           | Inr vs \<Rightarrow> (let (out, e) = rtu_round dev rs in (map (\<lambda>v. (r, v)) vs @ out, e))))"

section \<open>Registers and numbers\<close>

text \<open>How a device lays a number out over \<open>n\<close> registers in the given orders.\<close>

definition device_words :: "nat \<Rightarrow> int \<Rightarrow> reg16 list" where
  "device_words n v = map (\<lambda>i. word_of_int (v div 65536 ^ i)) (rev [0..<n])"

definition device_registers :: "nat \<Rightarrow> int \<Rightarrow> string \<Rightarrow> string \<Rightarrow> int list" where
  "device_registers n v byte_order word_order =
     map uint (map (if byte_order = ''little'' then swap_bytes else id)
       (if word_order = ''little'' then rev (device_words n v) else device_words n v))"

lemma swap_swap [simp]: "swap_bytes (swap_bytes v) = v"
proof -
  have m: "(0xFF :: reg16) = mask 8" by (simp add: mask_eq_exp_minus_1)
  show ?thesis unfolding swap_bytes_def m by (rule bit_word_eqI) (auto simp: bit_simps)
qed

lemma swap_comp [simp]: "swap_bytes \<circ> swap_bytes = id"
  by (rule ext) simp

lemma pairs_of_words [simp]: "byte_pairs (concat (map word_bytes ws)) = map word_bytes ws"
  by (induction ws) (simp_all add: word_bytes_def)

lemma uint_high: "uint (ucast (drop_bit 8 v :: reg16) :: byte) = uint v div 256"
proof -
  have "uint v < 65536" using uint_lt2p [of v] by simp
  then have "uint v div 256 < 256" "0 \<le> uint v div 256" by (simp_all add: pos_imp_zdiv_nonneg_iff)
  moreover have "uint (drop_bit 8 v :: reg16) = uint v div 256"
    unfolding unsigned_drop_bit_eq using uint_lt2p [of v] by (simp add: drop_bit_eq_div take_bit_int_eq_self)
  ultimately show ?thesis by (simp add: unsigned_ucast_eq take_bit_eq_mod)
qed

lemma uint_low: "uint (ucast (v :: reg16) :: byte) = uint v mod 256"
  by (simp add: unsigned_ucast_eq take_bit_eq_mod)

lemma be_fold:
  "foldl (\<lambda>a b. a * 256 + uint b) a (concat (map word_bytes ws)) = foldl (\<lambda>a w. a * 65536 + uint w) a ws"
proof (induction ws arbitrary: a)
  case (Cons w ws)
  have "(a * 256 + uint w div 256) * 256 + uint w mod 256 = a * 65536 + uint w"
    using div_mult_mod_eq [of "uint w" 256] by (simp add: algebra_simps)
  then have "foldl (\<lambda>a b. a * 256 + uint b) a (word_bytes w) = a * 65536 + uint w"
    unfolding word_bytes_def foldl.simps uint_high unfolding uint_low .
  with Cons show ?case by simp
qed simp

lemma fold_device: "foldl (\<lambda>a w. a * 65536 + uint w) a (device_words n v) = a * 65536 ^ n + v mod 65536 ^ n"
proof (induction n arbitrary: a)
  case (Suc n)
  have "device_words (Suc n) v = word_of_int (v div 65536 ^ n) # device_words n v" by (simp add: device_words_def)
  moreover have "v mod (65536 ^ n * 65536) = 65536 ^ n * (v div 65536 ^ n mod 65536) + v mod 65536 ^ n"
    by (rule zmod_zmult2_eq) simp
  ultimately show ?case
    using Suc.IH by (simp add: uint_word_of_int algebra_simps)
qed (simp add: device_words_def)

lemma bytes_of_device:
  "register_bytes (device_registers n v byte_order word_order) byte_order word_order = concat (map word_bytes (device_words n v))"
proof -
  have "register_words (map uint (map (if byte_order = ''little'' then swap_bytes else id) ws)) byte_order = ws" for ws
    by (simp add: register_words_def Let_def comp_def)
  then show ?thesis by (simp add: register_bytes_def device_registers_def Let_def rev_map del: map_map)
qed

lemma be_device:
  "be_value (register_bytes (device_registers n v byte_order word_order) byte_order word_order) = v mod 65536 ^ n"
  unfolding be_value_def bytes_of_device be_fold fold_device by simp

lemma length_bytes [simp]: "length (concat (map word_bytes ws)) = 2 * length ws"
  by (induction ws) (simp_all add: word_bytes_def)

lemma length_device [simp]: "length (register_bytes (device_registers n v byte_order word_order) byte_order word_order) = 2 * n"
  by (simp only: bytes_of_device length_bytes) (simp add: device_words_def)

lemma be_bounds: "0 \<le> be_value bs \<and> be_value bs < 256 ^ length bs"
proof (induction bs rule: rev_induct)
  case (snoc b bs)
  have "uint b < 256" "0 \<le> uint b" using uint_lt2p [of b] by simp_all
  with snoc show ?case by (simp add: be_value_def algebra_simps)
qed (simp add: be_value_def)

section \<open>Properties\<close>

lemma byte_pairs_concat: "concat (byte_pairs bs) = bs"
  by (induction bs rule: byte_pairs.induct) simp_all

lemma bytes_length: "length (register_bytes rs byte_order word_order) = 2 * length rs"
proof -
  have w: "length (register_words rs byte_order) = length rs" by (simp add: register_words_def Let_def)
  have "concat (rev (map word_bytes ws)) = concat (map word_bytes (rev ws))" for ws by (simp add: rev_map)
  then show ?thesis by (simp add: register_bytes_def Let_def w)
qed

lemma unpack_size: "map_of unpack_sizes t = Some n \<Longrightarrow> n = 2 * register_count t \<and> t \<noteq> ''bool''"
  by (auto simp: unpack_sizes_def register_count_def split: if_splits)

lemma decode_number:
  assumes "map_of unpack_sizes t = Some n" "n \<le> 2 * length rs"
  shows "decode_registers rs t byte_order word_order = Inr (unpack_value t (take n (register_bytes rs byte_order word_order)))"
  using assms unpack_size [OF assms(1)] by (simp add: decode_registers_def Let_def bytes_length)

definition unsigned_types :: "string list" where "unsigned_types = [''uint16'', ''uint32'', ''uint64'']"
definition signed_types :: "string list" where "signed_types = [''int16'', ''int32'', ''int64'']"

lemma integer_sizes: "t \<in> set unsigned_types \<union> set signed_types \<Longrightarrow> map_of unpack_sizes t = Some (2 * register_count t)"
  by (auto simp: unsigned_types_def signed_types_def unpack_sizes_def register_count_def)

lemma unpack_unsigned: "t \<in> set unsigned_types \<Longrightarrow> unpack_value t bs = RNum (of_int (be_value bs))"
  by (auto simp: unsigned_types_def unpack_value_def)

lemma unpack_signed: "t \<in> set signed_types \<Longrightarrow> unpack_value t bs = RNum (of_int (signed_value (length bs) (be_value bs)))"
  by (auto simp: signed_types_def unpack_value_def)

lemma register_count_pos: "0 < register_count t"
  by (simp add: register_count_def)

lemma pow_256: "(65536 :: int) ^ n = 2 ^ (8 * (2 * n))" "(256 :: int) ^ m = 2 ^ (8 * m)"
  by (simp_all add: power_mult)

lemma signed_value_mod:
  assumes "0 < n" "- (2 ^ (8 * n - 1)) \<le> v" "v < 2 ^ (8 * n - 1)"
  shows "signed_value n (v mod 2 ^ (8 * n)) = v"
proof -
  have two: "(2 :: int) ^ (8 * n) = 2 * 2 ^ (8 * n - 1)"
    using assms(1) by (simp flip: power_Suc)
  show ?thesis
  proof (cases "0 \<le> v")
    case True
    then have "v mod 2 ^ (8 * n) = v" using assms(3) two by simp
    then show ?thesis using assms(3) by (simp add: signed_value_def)
  next
    case False
    have "v mod 2 ^ (8 * n) = (v + 2 ^ (8 * n)) mod 2 ^ (8 * n)" by simp
    also have "\<dots> = v + 2 ^ (8 * n)"
      by (rule mod_pos_pos_trivial) (use False assms(2) two in linarith)+
    finally show ?thesis using assms(2) two by (simp add: signed_value_def)
  qed
qed

text \<open>Claim C36. Register decoding reads what a device wrote: for every byte order and word order, an integer
  laid out over the registers of its type in those orders decodes to itself, for the three unsigned types over
  their whole range and for the three signed types over theirs.\<close>

theorem decode_reads_device:
  "(t \<in> set unsigned_types \<and> 0 \<le> v \<and> v < 65536 ^ register_count t
    \<or> t \<in> set signed_types \<and> - (2 ^ (16 * register_count t - 1)) \<le> v \<and> v < 2 ^ (16 * register_count t - 1))
   \<Longrightarrow> decode_registers (device_registers (register_count t) v byte_order word_order) t byte_order word_order
     = Inr (RNum (of_int v))"
proof (elim disjE conjE)
  let ?n = "register_count t" and ?rs = "device_registers (register_count t) v byte_order word_order"
  have len: "length ?rs = ?n" by (simp add: device_registers_def device_words_def)
  have all: "take (2 * ?n) (register_bytes ?rs byte_order word_order) = register_bytes ?rs byte_order word_order"
    by simp
  { assume t: "t \<in> set unsigned_types" and v: "0 \<le> v" "v < 65536 ^ ?n"
    have d: "decode_registers ?rs t byte_order word_order = Inr (unpack_value t (register_bytes ?rs byte_order word_order))"
      using decode_number [of t "2 * ?n" ?rs byte_order word_order] integer_sizes [of t] t len all by simp
    show ?thesis unfolding d unpack_unsigned [OF t] be_device using v by simp }
  { assume t: "t \<in> set signed_types" and v: "- (2 ^ (16 * ?n - 1)) \<le> v" "v < 2 ^ (16 * ?n - 1)"
    have d: "decode_registers ?rs t byte_order word_order = Inr (unpack_value t (register_bytes ?rs byte_order word_order))"
      using decode_number [of t "2 * ?n" ?rs byte_order word_order] integer_sizes [of t] t len all by simp
    have "signed_value (2 * ?n) (v mod 65536 ^ ?n) = v"
      unfolding pow_256 by (rule signed_value_mod) (use v register_count_pos [of t] in simp_all)
    then show ?thesis unfolding d unpack_signed [OF t] be_device by simp }
qed

text \<open>Decoded integers stay in the range of their type, whatever integers the device library
  returns as registers, in whatever orders, surplus registers included.\<close>

theorem decode_bounds:
  assumes "decode_registers rs t byte_order word_order = Inr (RNum x)" "t \<in> set unsigned_types \<union> set signed_types"
  shows "\<exists>i. x = of_int i \<and> (if t \<in> set unsigned_types then 0 \<le> i \<and> i < 2 ^ (16 * register_count t)
    else - (2 ^ (16 * register_count t - 1)) \<le> i \<and> i < 2 ^ (16 * register_count t - 1))"
proof -
  let ?n = "2 * register_count t" and ?bs = "take (2 * register_count t) (register_bytes rs byte_order word_order)"
  have s: "map_of unpack_sizes t = Some ?n" by (rule integer_sizes [OF assms(2)])
  have len: "length ?bs = ?n" and x: "unpack_value t ?bs = RNum x"
    using assms(1) s unpack_size [OF s] by (auto simp: decode_registers_def Let_def split: if_splits)
  have b: "0 \<le> be_value ?bs" "be_value ?bs < 2 ^ (16 * register_count t)"
    using be_bounds [of ?bs] unfolding len pow_256 by simp_all
  show ?thesis
  proof (cases "t \<in> set unsigned_types")
    case True
    then show ?thesis using x b by (auto simp: unpack_unsigned)
  next
    case False
    with assms(2) have t: "t \<in> set signed_types" by simp
    have two: "(2 :: int) ^ (16 * register_count t) = 2 * 2 ^ (16 * register_count t - 1)"
      using register_count_pos [of t] by (simp flip: power_Suc)
    have "x = of_int (signed_value ?n (be_value ?bs))" using x unfolding unpack_signed [OF t] len by simp
    moreover have "8 * ?n = 16 * register_count t" by simp
    ultimately show ?thesis using False b two
      by (intro exI [of _ "signed_value ?n (be_value ?bs)"]) (simp add: signed_value_def)
  qed
qed

text \<open>Decoding fails exactly when it must: it returns a value if and only if the data type is one of
  the nine and the device answered at least the number of registers the connector asks for.\<close>

theorem decode_succeeds_iff:
  "is_ok (decode_registers rs t byte_order word_order)
     \<longleftrightarrow> t \<in> set reg_modbus_types \<and> register_count t \<le> length rs"
proof (cases "t = ''bool''")
  case True
  have "register_words rs byte_order = [] \<longleftrightarrow> rs = []" by (simp add: register_words_def Let_def)
  then show ?thesis using True
    by (cases rs) (auto simp: decode_registers_def is_ok_def reg_modbus_types_def register_count_def split: list.split)
next
  case False
  show ?thesis
  proof (cases "map_of unpack_sizes t")
    case None
    then have "t \<notin> set reg_modbus_types" using False
      by (auto simp: unpack_sizes_def reg_modbus_types_def split: if_splits)
    with None False show ?thesis by (simp add: decode_registers_def is_ok_def)
  next
    case (Some n)
    then have "t \<in> set reg_modbus_types" by (auto simp: unpack_sizes_def reg_modbus_types_def split: if_splits)
    with Some False unpack_size [OF Some] show ?thesis
      by (simp add: decode_registers_def is_ok_def Let_def bytes_length min_less_iff_disj not_le)
  qed
qed

theorem decode_reads_device_witness:
  "decode_registers (device_registers 2 (- 70000) ''little'' ''little'') ''int32'' ''little'' ''little'' = Inr (RNum (- 70000))"
proof -
  have c: "register_count ''int32'' = 2" by (simp add: register_count_def)
  have "''int32'' \<in> set signed_types" by (simp add: signed_types_def)
  moreover have "- (2 ^ (16 * register_count ''int32'' - 1)) \<le> (- 70000 :: int)"
      "(- 70000 :: int) < 2 ^ (16 * register_count ''int32'' - 1)" by (simp_all add: c)
  ultimately show ?thesis using decode_reads_device [of "''int32''" "- 70000" "''little''" "''little''"] by (simp add: c)
qed

theorem decode_bounds_witness:
  "\<exists>i. (-1 :: rat) = of_int i \<and> - (2 ^ 15) \<le> i \<and> i < 2 ^ 15"
proof -
  have c: "register_count ''int16'' = 1" by (simp add: register_count_def)
  have "decode_registers (device_registers 1 (- 1) ''big'' ''big'') ''int16'' ''big'' ''big'' = Inr (RNum (- 1))"
    by code_simp
  from decode_bounds [OF this] show ?thesis by (simp add: c signed_types_def unsigned_types_def)
qed

lemma single_register:
  assumes "0 \<le> x" "x < 65536" "byte_order \<noteq> ''little''"
  shows "decode_registers [x] ''uint16'' byte_order word_order = Inr (RNum (of_int x))"
proof -
  have t: "''uint16'' \<in> set unsigned_types" by (simp add: unsigned_types_def)
  have s: "map_of unpack_sizes ''uint16'' = Some 2" by (simp add: unpack_sizes_def)
  have "register_bytes [x] byte_order word_order = word_bytes (word_of_int x)"
    using assms(3) by (simp add: register_bytes_def register_words_def Let_def word_bytes_def)
  moreover have "be_value (word_bytes (word_of_int x)) = x"
    using be_fold [of 0 "[word_of_int x]"] assms(1,2) by (simp add: be_value_def uint_word_of_int)
  ultimately show ?thesis
    unfolding decode_number [OF s, of "[x]", simplified] unpack_unsigned [OF t] by (simp add: word_bytes_def)
qed

text \<open>The two connectors disagree about the same register: for a 16-bit unsigned register the TCP
  connector publishes the scaled value, the serial connector the raw one, whatever scale and offset the map
  configures; the decoded and scaled value it computed is not used.\<close>

theorem rtu_ignores_scale:
  assumes "rg_data_type r = ''uint16''" "rg_count r = 1" "rg_byte_order r \<noteq> ''little''" "0 \<le> x" "x < 65536"
  shows "tcp_round (\<lambda>_ _ _. Some [x]) [Entry r] = ([(r, RNum (of_int x * rg_scale r + rg_offset r))], None)
    \<and> rtu_round (\<lambda>_ _. Some [x]) [r] = ([(r, RNum (of_int x))], None)"
proof -
  have "decode_registers [x] ''uint16'' (rg_byte_order r) (rg_word_order r) = Inr (RNum (of_int x))"
    by (rule single_register [OF assms(4,5,3)])
  with assms(1,2) show ?thesis by (simp add: scaled_def rtu_readings_def)
qed

definition demo_register :: modbus_register where
  "demo_register = \<lparr>rg_address = 0, rg_tag = ''temp'', rg_unit = ''c'', rg_scale = 1/10, rg_offset = 0, rg_unit_id = 1,
     rg_data_type = ''uint16'', rg_byte_order = ''big'', rg_word_order = ''big'', rg_count = 1\<rparr>"

theorem rtu_ignores_scale_witness:
  "tcp_round (\<lambda>_ _ _. Some [215]) [Entry demo_register] = ([(demo_register, RNum (215 / 10))], None)
   \<and> rtu_round (\<lambda>_ _. Some [215]) [demo_register] = ([(demo_register, RNum 215)], None)"
  using rtu_ignores_scale [of demo_register 215] by (simp add: demo_register_def)

text \<open>A source without configured registers polls the built-in map, whose entries are tuples: every round
  fails at its first register and publishes nothing.\<close>

lemma demo_map_fails:
  "tcp_register_map R False PNone = Some (Inr demo_register_map) \<and> tcp_round dev demo_register_map = ([], Some ModbusTypeError)"
  by (simp add: tcp_register_map_def demo_register_map_def py_or_def)

end
