(* ===== verification/Sparkplug.thy ===== *)
theory Sparkplug
  imports Py_Prelude
begin

text \<open>
  Sparkplug B (\<open>services/edge_ingest/mqtt_sparkplug_b.py\<close>): topics, lifecycle packets, and the
  conversions between events, metrics and payloads. The protobuf library is not part of the
  repository: what it parses is an argument. Formatting and parsing of times are functions of
  \<open>spark_time\<close>; values of type \<open>bytes\<close> are outside the model of values.
\<close>

section \<open>Topics\<close>

definition spb :: string where
  "spb = ''spBv1.0''"

definition node_birth :: "string \<Rightarrow> string \<Rightarrow> string" where
  "node_birth group_id node = spb @ ''/'' @ group_id @ ''/NBIRTH/'' @ node"

definition node_death :: "string \<Rightarrow> string \<Rightarrow> string" where
  "node_death group_id node = spb @ ''/'' @ group_id @ ''/NDEATH/'' @ node"

definition device_birth :: "string \<Rightarrow> string \<Rightarrow> string \<Rightarrow> string" where
  "device_birth group_id node device = spb @ ''/'' @ group_id @ ''/DBIRTH/'' @ node @ ''/'' @ device"

definition device_death :: "string \<Rightarrow> string \<Rightarrow> string \<Rightarrow> string" where
  "device_death group_id node device = spb @ ''/'' @ group_id @ ''/DDEATH/'' @ node @ ''/'' @ device"

definition node_data :: "string \<Rightarrow> string \<Rightarrow> string" where
  "node_data group_id node = spb @ ''/'' @ group_id @ ''/NDATA/'' @ node"

definition device_data :: "string \<Rightarrow> string \<Rightarrow> string \<Rightarrow> string" where
  "device_data group_id node device = spb @ ''/'' @ group_id @ ''/DDATA/'' @ node @ ''/'' @ device"

definition node_command :: "string \<Rightarrow> string \<Rightarrow> string" where
  "node_command group_id node = spb @ ''/'' @ group_id @ ''/NCMD/'' @ node"

definition device_command :: "string \<Rightarrow> string \<Rightarrow> string \<Rightarrow> string" where
  "device_command group_id node device = spb @ ''/'' @ group_id @ ''/DCMD/'' @ node @ ''/'' @ device"

definition state_topic :: "string \<Rightarrow> string" where
  "state_topic group_id = spb @ ''/'' @ group_id @ ''/STATE/'' @ group_id"

record lifecycle_packet =
  lp_group :: string
  lp_packet :: string
  lp_state :: string
  lp_node :: string
  lp_device :: string

definition lifecycle_states :: "(string \<times> string) list" where
  "lifecycle_states = [(''NBIRTH'', ''connected''), (''DBIRTH'', ''connected''),
     (''NDEATH'', ''disconnected''), (''DDEATH'', ''disconnected'')]"

definition parse_lifecycle_topic :: "string \<Rightarrow> lifecycle_packet option" where
  "parse_lifecycle_topic topic =
     (let parts = split_on (CHR ''/'') topic in
      if length parts < 4 \<or> parts ! 0 \<noteq> spb then None
      else
        (let packet = py_upper (parts ! 2) in
         case map_of lifecycle_states packet of
           None \<Rightarrow> None
         | Some st \<Rightarrow> Some \<lparr>lp_group = parts ! 1, lp_packet = packet, lp_state = st, lp_node = parts ! 3,
             lp_device = (if length parts > 4 then parts ! 4 else [])\<rparr>))"

definition str_or :: "string \<Rightarrow> string \<Rightarrow> string" where
  "str_or a b = (if a \<noteq> [] then a else b)"

definition lifecycle_event :: "string \<Rightarrow> string \<Rightarrow> string \<Rightarrow> string \<Rightarrow> lifecycle_packet \<Rightarrow> pydict" where
  "lifecycle_event now topic site source_id p =
     [(''source_protocol'', PStr ''sparkplug_b''),
      (''source_id'', PStr (str_or source_id topic)),
      (''asset_id'', PStr (str_or (lp_device p) (str_or (lp_node p) (str_or source_id topic)))),
      (''tag'', PStr ''__sparkplug_lifecycle__''),
      (''value'', PStr (lp_state p)),
      (''value_kind'', PStr ''state''),
      (''quality'', PStr ''good''),
      (''site'', PStr site),
      (''ts_source'', PStr now),
      (''sparkplug_topic'', PStr topic),
      (''sparkplug_packet_type'', PStr (lp_packet p))]"

section \<open>Binary payloads\<close>

text \<open>What the protobuf library makes of a payload.\<close>

record tahu_metric =
  tm_name :: string
  tm_value :: pyval
  tm_null :: bool
  tm_datatype :: int
  tm_timestamp :: int

record spark_time =
  st_now_ms :: int                    \<comment> \<open>\<open>int(time.time() * 1000)\<close>\<close>
  st_gmtime :: "int \<Rightarrow> string"         \<comment> \<open>milliseconds as \<open>%Y-%m-%dT%H:%M:%SZ\<close>\<close>
  st_iso :: "rat \<Rightarrow> string"            \<comment> \<open>milliseconds as \<open>isoformat\<close> in UTC\<close>
  st_strptime :: "string \<Rightarrow> int option" \<comment> \<open>\<open>%Y-%m-%dT%H:%M:%S.%f\<close> as milliseconds; \<open>None\<close>: \<open>ValueError\<close>\<close>

definition decode_binary_payload ::
    "spark_time \<Rightarrow> int \<Rightarrow> tahu_metric list \<Rightarrow> string \<Rightarrow> string \<Rightarrow> string \<Rightarrow> pydict list" where
  "decode_binary_payload T timestamp metrics topic site source_id =
     (let parts = split_on (CHR ''/'') topic;
          asset_id = str_or (last parts) source_id;
          ts = st_gmtime T (if timestamp \<noteq> 0 then timestamp else st_now_ms T)
      in map (\<lambda>m. [(''source_protocol'', PStr ''sparkplug_b''),
                   (''source_id'', PStr (source_id @ '':'' @ tm_name m)),
                   (''asset_id'', PStr asset_id),
                   (''tag'', PStr (tm_name m)),
                   (''value'', tm_value m),
                   (''quality'', PStr ''good''),
                   (''site'', PStr site),
                   (''ts_source'', PStr ts),
                   (''sparkplug_topic'', PStr topic),
                   (''sparkplug_datatype'', PInt (tm_datatype m)),
                   (''sparkplug_timestamp'', PInt (tm_timestamp m))])
           (filter (\<lambda>m. \<not> tm_null m \<and> tm_value m \<noteq> PNone) metrics))"

section \<open>Metrics and payloads\<close>

text \<open>The dataclasses do not check their fields, so each field is a value.\<close>

record spark_metric =
  sm_name :: pyval
  sm_value :: pyval
  sm_datatype :: pyval
  sm_timestamp :: pyval
  sm_historical :: pyval
  sm_transient :: pyval
  sm_null :: pyval
  sm_metadata :: pyval

record spark_payload =
  sp_timestamp :: pyval
  sp_metrics :: "spark_metric list"
  sp_seq :: pyval
  sp_uuid :: pyval

definition encode_metric :: "spark_metric \<Rightarrow> pydict" where
  "encode_metric m =
     [(''name'', sm_name m), (''value'', sm_value m), (''datatype'', sm_datatype m),
      (''timestamp'', sm_timestamp m), (''isHistorical'', sm_historical m),
      (''isTransient'', sm_transient m), (''isNull'', sm_null m), (''metadata'', sm_metadata m)]"

definition encode_payload :: "spark_payload \<Rightarrow> pydict" where
  "encode_payload p =
     [(''timestamp'', sp_timestamp p),
      (''metrics'', PList (map (\<lambda>m. PDict (encode_metric m)) (sp_metrics p))),
      (''seq'', sp_seq p), (''uuid'', sp_uuid p)]"

definition decode_metric :: "spark_time \<Rightarrow> pydict \<Rightarrow> spark_metric" where
  "decode_metric T d =
     \<lparr>sm_name = dict_getd d ''name'' (PStr []), sm_value = pget d ''value'',
      sm_datatype = dict_getd d ''datatype'' (PStr ''Double''),
      sm_timestamp = dict_getd d ''timestamp'' (PInt (st_now_ms T)),
      sm_historical = dict_getd d ''isHistorical'' (PBool False),
      sm_transient = dict_getd d ''isTransient'' (PBool False),
      sm_null = dict_getd d ''isNull'' (PBool False),
      sm_metadata = dict_getd d ''metadata'' (PDict [])\<rparr>"

text \<open>What a \<open>for\<close> over a value visits; an item without \<open>get\<close> raises.\<close>

definition iter_items :: "pyval \<Rightarrow> pyval list option" where
  "iter_items v =
     (case v of
        PList vs \<Rightarrow> Some vs
      | PDict d \<Rightarrow> Some (map (\<lambda>(k, _). PStr k) d)
      | PStr s \<Rightarrow> Some (map (\<lambda>c. PStr [c]) s)
      | _ \<Rightarrow> None)"

fun decode_metrics :: "spark_time \<Rightarrow> pyval list \<Rightarrow> string + spark_metric list" where
  "decode_metrics T [] = Inr []"
| "decode_metrics T (v # vs) =
     (case v of
        PDict d \<Rightarrow> res_bind (decode_metrics T vs) (\<lambda>ms. Inr (decode_metric T d # ms))
      | _ \<Rightarrow> Inl ''AttributeError'')"

definition decode_payload :: "spark_time \<Rightarrow> pydict \<Rightarrow> string + spark_payload" where
  "decode_payload T d =
     (case iter_items (dict_getd d ''metrics'' (PList [])) of
        None \<Rightarrow> Inl ''TypeError''
      | Some vs \<Rightarrow>
          res_bind (decode_metrics T vs) (\<lambda>ms.
            Inr \<lparr>sp_timestamp = dict_getd d ''timestamp'' (PInt (st_now_ms T)), sp_metrics = ms,
                 sp_seq = pget d ''seq'', sp_uuid = pget d ''uuid''\<rparr>))"

section \<open>Events\<close>

definition infer_datatype :: "pyval \<Rightarrow> string" where
  "infer_datatype v =
     (case v of PBool _ \<Rightarrow> ''Boolean'' | PInt _ \<Rightarrow> ''Int64'' | PFloat _ \<Rightarrow> ''Double'' | _ \<Rightarrow> ''String'')"

text \<open>The errors of \<open>strptime\<close>: a text it cannot parse, and a value that is not a text.\<close>

definition event_time :: "spark_time \<Rightarrow> pydict \<Rightarrow> string + int" where
  "event_time T event =
     (if dict_has event ''ts_ingest'' then
        (case pget event ''ts_ingest'' of
           PStr s \<Rightarrow> (case st_strptime T s of None \<Rightarrow> Inl ''ValueError'' | Some n \<Rightarrow> Inr n)
         | _ \<Rightarrow> Inl ''TypeError'')
      else Inr (st_now_ms T))"

definition from_industrial_event :: "pyrt \<Rightarrow> spark_time \<Rightarrow> pydict \<Rightarrow> string + spark_payload" where
  "from_industrial_event R T event =
     res_bind (event_time T event) (\<lambda>ts.
       Inr \<lparr>sp_timestamp = PInt (st_now_ms T),
            sp_metrics = [\<lparr>sm_name = PStr (py_str R (dict_getd event ''asset_id'' (PStr ''unknown'')) @ ''/''
                              @ py_str R (dict_getd event ''tag'' (PStr ''unknown''))),
                           sm_value = dict_getd event ''value'' (PInt 0),
                           sm_datatype = PStr (infer_datatype (pget event ''value'')),
                           sm_timestamp = PInt ts, sm_historical = PBool False, sm_transient = PBool False,
                           sm_null = PBool False,
                           sm_metadata = PDict
                             [(''source_protocol'', dict_getd event ''source_protocol'' (PStr ''unknown'')),
                              (''quality'', dict_getd event ''quality'' (PStr ''good'')),
                              (''unit'', dict_getd event ''unit'' (PStr [])),
                              (''site'', dict_getd event ''site'' (PStr [])),
                              (''line'', dict_getd event ''line'' (PStr []))]\<rparr>],
            sp_seq = PNone, sp_uuid = PNone\<rparr>)"

definition split_name :: "string \<Rightarrow> string \<times> string" where
  "split_name s =
     (case dropWhile (\<lambda>c. c \<noteq> CHR ''/'') s of
        [] \<Rightarrow> (s, ''unknown'')
      | _ # tag \<Rightarrow> (takeWhile (\<lambda>c. c \<noteq> CHR ''/'') s, tag))"

definition as_number :: "pyval \<Rightarrow> rat option" where
  "as_number v =
     (case v of PInt i \<Rightarrow> Some (of_int i) | PFloat r \<Rightarrow> Some r | PBool b \<Rightarrow> Some (if b then 1 else 0) | _ \<Rightarrow> None)"

definition to_industrial_event :: "spark_time \<Rightarrow> spark_payload \<Rightarrow> string + pydict" where
  "to_industrial_event T p =
     (case sp_metrics p of
        [] \<Rightarrow> Inr []
      | m # _ \<Rightarrow>
          (case sm_name m of
             PStr name \<Rightarrow>
               (case as_number (sp_timestamp p) of
                  None \<Rightarrow> Inl ''TypeError''
                | Some ms \<Rightarrow>
                    (case sm_metadata m of
                       PDict md \<Rightarrow> Inr
                         [(''source_protocol'', PStr ''sparkplug_b''),
                          (''asset_id'', PStr (fst (split_name name))),
                          (''tag'', PStr (snd (split_name name))),
                          (''value'', sm_value m),
                          (''quality'', dict_getd md ''quality'' (PStr ''good'')),
                          (''unit'', dict_getd md ''unit'' (PStr [])),
                          (''site'', dict_getd md ''site'' (PStr ''demo-site'')),
                          (''line'', dict_getd md ''line'' (PStr ''line-01'')),
                          (''ts_source'', PStr (st_iso T ms)),
                          (''ts_ingest'', PStr (st_iso T (of_int (st_now_ms T)))),
                          (''schema_version'', PInt 1)]
                     | _ \<Rightarrow> Inl ''AttributeError''))
           | _ \<Rightarrow> Inl ''AttributeError''))"

section \<open>Lemmas\<close>

lemma split_name_plain:
  "CHR ''/'' \<notin> set a \<Longrightarrow> split_name (a @ CHR ''/'' # t) = (a, t)"
proof -
  assume a: "CHR ''/'' \<notin> set a"
  then have "dropWhile (\<lambda>c. c \<noteq> CHR ''/'') (a @ CHR ''/'' # t) = CHR ''/'' # t"
    "takeWhile (\<lambda>c. c \<noteq> CHR ''/'') (a @ CHR ''/'' # t) = a"
    by (induction a) auto
  then show ?thesis by (simp add: split_name_def)
qed

lemma split_slash:
  assumes "CHR ''/'' \<notin> set g" "CHR ''/'' \<notin> set n" "CHR ''/'' \<notin> set d" "CHR ''/'' \<notin> set t"
  shows "split_on (CHR ''/'') (spb @ ''/'' @ g @ ''/'' @ t @ ''/'' @ n) = [spb, g, t, n]"
    "split_on (CHR ''/'') (spb @ ''/'' @ g @ ''/'' @ t @ ''/'' @ n @ ''/'' @ d) = [spb, g, t, n, d]"
  using assms split_on_join [of "[spb, g, t, n]" "CHR ''/''"] split_on_join [of "[spb, g, t, n, d]" "CHR ''/''"]
  by (simp_all add: spb_def)

lemma decode_encoded_metric: "decode_metric T (encode_metric m) = m"
  by (simp add: decode_metric_def encode_metric_def dict_getd_def pget_def)

lemma decode_encoded_metrics: "decode_metrics T (map (\<lambda>m. PDict (encode_metric m)) ms) = Inr ms"
  by (induction ms) (simp_all add: decode_encoded_metric)

section \<open>Properties\<close>

text \<open>
  Decoding an encoded payload gives it back, whatever its fields hold.
\<close>

theorem payload_roundtrip:
  "decode_payload T (encode_payload p) = Inr p"
  by (simp add: decode_payload_def encode_payload_def iter_items_def decode_encoded_metrics dict_getd_def pget_def)

text \<open>
  The lifecycle meaning of a topic is the one it was built with: for identifiers without a
  slash, births read as connected and deaths as disconnected, with the group, the node and the
  device, and data topics have none.
\<close>

theorem lifecycle_topics:
  assumes "CHR ''/'' \<notin> set g" "CHR ''/'' \<notin> set n" "CHR ''/'' \<notin> set d"
  shows "parse_lifecycle_topic (node_birth g n) = Some \<lparr>lp_group = g, lp_packet = ''NBIRTH'', lp_state = ''connected'', lp_node = n, lp_device = []\<rparr>
    \<and> parse_lifecycle_topic (node_death g n) = Some \<lparr>lp_group = g, lp_packet = ''NDEATH'', lp_state = ''disconnected'', lp_node = n, lp_device = []\<rparr>
    \<and> parse_lifecycle_topic (device_birth g n d) = Some \<lparr>lp_group = g, lp_packet = ''DBIRTH'', lp_state = ''connected'', lp_node = n, lp_device = d\<rparr>
    \<and> parse_lifecycle_topic (device_death g n d) = Some \<lparr>lp_group = g, lp_packet = ''DDEATH'', lp_state = ''disconnected'', lp_node = n, lp_device = d\<rparr>
    \<and> parse_lifecycle_topic (node_data g n) = None \<and> parse_lifecycle_topic (device_data g n d) = None"
  using split_slash [OF assms, of "''NBIRTH''"] split_slash [OF assms, of "''NDEATH''"] split_slash [OF assms, of "''DBIRTH''"]
    split_slash [OF assms, of "''DDEATH''"] split_slash [OF assms, of "''NDATA''"] split_slash [OF assms, of "''DDATA''"]
  by (simp add: parse_lifecycle_topic_def node_birth_def node_death_def device_birth_def device_death_def node_data_def
      device_data_def lifecycle_states_def py_upper_def upper_char_def Let_def)

theorem lifecycle_topics_witness:
  "parse_lifecycle_topic ''spBv1.0/g/DDEATH/n/d'' =
     Some \<lparr>lp_group = ''g'', lp_packet = ''DDEATH'', lp_state = ''disconnected'', lp_node = ''n'', lp_device = ''d''\<rparr>"
  using lifecycle_topics [of "''g''" "''n''" "''d''"] by (simp add: device_death_def spb_def)

text \<open>
  Asset and tag survive the conversion to a payload and back up to the first slash of the
  asset: their joint path is the same, the asset is what precedes its first slash, and value,
  quality, unit, site and line are unchanged.
\<close>

theorem event_roundtrip:
  assumes "pget e ''asset_id'' = PStr (a @ b)" "pget e ''tag'' = PStr t" "CHR ''/'' \<notin> set a"
    and "b = [] \<or> hd b = CHR ''/''" "dict_has e ''value''" "dict_has e ''quality''" "dict_has e ''unit''" "dict_has e ''site''"
      "dict_has e ''line''"
    and "from_industrial_event R T e = Inr p"
  shows "\<exists>d. to_industrial_event T p = Inr d \<and> pget d ''asset_id'' = PStr a
    \<and> pget d ''tag'' = PStr (if b = [] then t else tl b @ ''/'' @ t)
    \<and> list_all (\<lambda>k. pget d k = pget e k) [''value'', ''quality'', ''unit'', ''site'', ''line'']"
proof -
  have g: "dict_getd e k v = pget e k" if "dict_has e k" for k v
    using that by (auto simp: dict_has_def pget_def dict_getd_def split: option.splits)
  have s: "dict_getd e k v = PStr u" if "pget e k = PStr u" for k v u
    using that by (auto simp: pget_def dict_getd_def split: option.splits)
  have n: "split_name ((a @ b) @ ''/'' @ t) = (a, if b = [] then t else tl b @ ''/'' @ t)"
    using assms(3,4) split_name_plain [of a] by (cases b) auto
  from assms(10) n show ?thesis
    by (auto simp: from_industrial_event_def to_industrial_event_def as_number_def s [OF assms(1)] s [OF assms(2)]
        g [OF assms(5)] g [OF assms(6)] g [OF assms(7)] g [OF assms(8)] g [OF assms(9)] pget_def [of "_ # _"] dict_getd_def [of "_ # _"])
qed

definition demo_time :: spark_time where
  "demo_time = \<lparr>st_now_ms = 5, st_gmtime = (\<lambda>_. ''z''), st_iso = (\<lambda>_. ''t+00:00''),
     st_strptime = (\<lambda>s. if ends_with s ''+00:00'' then None else Some 1)\<rparr>"

definition demo_spark_event :: pydict where
  "demo_spark_event = [(''asset_id'', PStr ''p/1''), (''tag'', PStr ''rpm''), (''value'', PInt 7), (''quality'', PStr ''good''),
     (''unit'', PStr ''u''), (''site'', PStr ''s''), (''line'', PStr ''l'')]"

theorem event_roundtrip_witness:
  "\<exists>p d. from_industrial_event demo_rt demo_time demo_spark_event = Inr p \<and> to_industrial_event demo_time p = Inr d
     \<and> pget d ''asset_id'' = PStr ''p'' \<and> pget d ''tag'' = PStr ''1/rpm'' \<and> pget d ''value'' = PInt 7"
proof -
  obtain p where p: "from_industrial_event demo_rt demo_time demo_spark_event = Inr p"
    by (simp add: from_industrial_event_def event_time_def demo_spark_event_def dict_has_def)
  from event_roundtrip [of demo_spark_event "''p''" "''/1''" "''rpm''", OF _ _ _ _ _ _ _ _ _ p] p show ?thesis
    by (auto simp: demo_spark_event_def pget_def dict_getd_def dict_has_def)
qed

text \<open>
  The encoder refuses what the decoder produces: the ingest time a decoded event carries is
  in the ISO form with a UTC offset, which the format the encoder parses does not admit.
\<close>

theorem decoded_event_not_encodable:
  assumes "\<forall>r. ends_with (st_iso T r) ''+00:00''" and "\<forall>s. ends_with s ''+00:00'' \<longrightarrow> st_strptime T s = None"
    and "to_industrial_event T p = Inr d" "sp_metrics p \<noteq> []"
  shows "from_industrial_event R T d = Inl ''ValueError''"
proof -
  obtain u where "pget d ''ts_ingest'' = PStr (st_iso T u)" "dict_has d ''ts_ingest''"
    using assms(3,4)
    by (auto simp: to_industrial_event_def pget_def dict_getd_def dict_has_def split: list.splits pyval.splits option.splits)
  then show ?thesis using assms(1,2) by (simp add: from_industrial_event_def event_time_def)
qed

theorem decoded_event_not_encodable_witness:
  "\<exists>d. to_industrial_event demo_time \<lparr>sp_timestamp = PInt 1, sp_metrics = [decode_metric demo_time []], sp_seq = PNone, sp_uuid = PNone\<rparr>
       = Inr d \<and> from_industrial_event demo_rt demo_time d = Inl ''ValueError''"
proof -
  let ?p = "\<lparr>sp_timestamp = PInt 1, sp_metrics = [decode_metric demo_time []], sp_seq = PNone, sp_uuid = PNone\<rparr>"
  obtain d where d: "to_industrial_event demo_time ?p = Inr d"
    by (simp add: to_industrial_event_def decode_metric_def dict_getd_def pget_def as_number_def)
  from decoded_event_not_encodable [OF _ _ d, of demo_rt] d show ?thesis
    by (simp add: demo_time_def ends_with_def)
qed

end
