(* ===== verification/Source_Health.thy ===== *)
theory Source_Health
  imports Py_Prelude
begin

text \<open>
  Health of the edge sources: the states, mapping counters and transition history
  (\<open>services/edge_ingest/source_health.py\<close>), the classification of availability gaps
  (\<open>services/common/runtime_lifecycle.py\<close>) and the delivery history
  (\<open>services/edge_ingest/delivery_history.py\<close>). A history file is the list it holds, \<open>None\<close> when it
  does not parse; the metrics are not modelled. Ages are exact; rounding them to milliseconds is an
  argument.
\<close>

section \<open>Lifecycle\<close>

definition DEFAULT_EXPECTED_INTERVAL_SECONDS :: rat where
  "DEFAULT_EXPECTED_INTERVAL_SECONDS = 10"

definition STALE_MULTIPLIER :: rat where
  "STALE_MULTIPLIER = 3"

record lifecycle_view =
  lv_lifecycle :: string
  lv_last_success :: "string option"
  lv_age :: "rat option"
  lv_interval :: rat
  lv_stale_after :: rat
  lv_stale :: bool
  lv_known :: bool
  lv_planned :: bool

definition parse_success :: "pyrt \<Rightarrow> string option \<Rightarrow> rat option" where
  "parse_success R v =
     (case v of
        None \<Rightarrow> None
      | Some s \<Rightarrow>
          (if s = [] then None
           else map_option fst (iso_of R (concat (map (\<lambda>c. if c = CHR ''Z'' then ''+00:00'' else [c]) s)))))"

definition classify_source_lifecycle ::
    "pyrt \<Rightarrow> (rat \<Rightarrow> rat) \<Rightarrow> string \<Rightarrow> string option \<Rightarrow> rat \<Rightarrow> rat \<Rightarrow> bool \<Rightarrow> lifecycle_view" where
  "classify_source_lifecycle R round3 state last_success_at now expected planned =
     (let interval = max expected (1 / 10);
          stale_after = interval * STALE_MULTIPLIER;
          age = map_option (\<lambda>t. max (now - t) 0) (parse_success R last_success_at);
          stale = (case age of None \<Rightarrow> False | Some a \<Rightarrow> a > stale_after);
          lifecycle =
            (if planned \<or> state \<in> {''planned_downtime'', ''stopped''} then ''planned_downtime''
             else if state = ''reconnecting'' then ''recovering''
             else if state \<in> {''error'', ''disconnected''} \<or> stale then ''interrupted''
             else if state = ''connected'' then ''running''
             else ''unknown'')
      in \<lparr>lv_lifecycle = lifecycle, lv_last_success = last_success_at, lv_age = map_option round3 age,
          lv_interval = round3 interval, lv_stale_after = round3 stale_after, lv_stale = stale,
          lv_known = (age \<noteq> None), lv_planned = (lifecycle = ''planned_downtime'')\<rparr>)"

text \<open>The fields as the dictionary \<open>enriched.update\<close> receives.\<close>

definition view_dict :: "lifecycle_view \<Rightarrow> pydict" where
  "view_dict v =
     [(''lifecycle'', PStr (lv_lifecycle v)),
      (''last_success_at'', (case lv_last_success v of None \<Rightarrow> PNone | Some s \<Rightarrow> PStr s)),
      (''last_success_age_seconds'', (case lv_age v of None \<Rightarrow> PNone | Some a \<Rightarrow> PFloat a)),
      (''expected_interval_seconds'', PFloat (lv_interval v)),
      (''stale_after_seconds'', PFloat (lv_stale_after v)),
      (''stale'', PBool (lv_stale v)),
      (''staleness_known'', PBool (lv_known v)),
      (''planned'', PBool (lv_planned v))]"

text \<open>The last success is written by \<open>mark_source_success\<close> only, as a text.\<close>

definition enrich_source_health :: "pyrt \<Rightarrow> (rat \<Rightarrow> rat) \<Rightarrow> pydict \<Rightarrow> rat \<Rightarrow> rat \<Rightarrow> pydict" where
  "enrich_source_health R round3 d now expected =
     dict_merge d (view_dict (classify_source_lifecycle R round3 (py_str R (dict_getd d ''state'' (PStr ''unknown'')))
        (case pget d ''last_success_at'' of PStr s \<Rightarrow> Some s | _ \<Rightarrow> None) now expected
        (truthy (dict_getd d ''planned_downtime'' (PBool False)))))"

section \<open>States and transitions\<close>

definition MAX_HISTORY :: nat where
  "MAX_HISTORY = 5000"

record source_health =
  hs_states :: "(string \<times> pydict) list"
  hs_path :: bool                        \<comment> \<open>a history path is configured\<close>
  hs_file :: "pydict list option"        \<comment> \<open>its content; \<open>None\<close>: absent or not a list\<close>

definition read_history :: "source_health \<Rightarrow> pydict list" where
  "read_history s = (if hs_path s then (case hs_file s of None \<Rightarrow> [] | Some rs \<Rightarrow> rs) else [])"

text \<open>A write that fails with \<open>OSError\<close> is dropped.\<close>

definition record_transition :: "bool \<Rightarrow> pydict \<Rightarrow> source_health \<Rightarrow> source_health" where
  "record_transition ok v s =
     (if \<not> hs_path s \<or> \<not> ok then s else s\<lparr>hs_file := Some (last_n MAX_HISTORY (read_history s @ [v]))\<rparr>)"

definition mark_source ::
    "string \<Rightarrow> bool \<Rightarrow> string \<Rightarrow> string \<Rightarrow> string \<Rightarrow> string \<Rightarrow> string \<Rightarrow> source_health \<Rightarrow> source_health" where
  "mark_source now ok cid protocol site state error s =
     (let value = [(''connection_id'', PStr cid), (''protocol'', PStr protocol), (''site'', PStr site),
                   (''state'', PStr state), (''error'', PStr error), (''updated_at'', PStr now)];
          previous = map_of (hs_states s) cid;
          current = dict_merge (case previous of None \<Rightarrow> [] | Some d \<Rightarrow> d) value;
          s1 = s\<lparr>hs_states := dict_set (hs_states s) cid current\<rparr>
      in if (case previous of None \<Rightarrow> True
             | Some d \<Rightarrow> pget d ''state'' \<noteq> PStr state \<or> pget d ''error'' \<noteq> PStr error)
         then record_transition ok current s1 else s1)"

definition mark_source_success ::
    "string \<Rightarrow> bool \<Rightarrow> string \<Rightarrow> string \<Rightarrow> string \<Rightarrow> source_health \<Rightarrow> source_health" where
  "mark_source_success now ok cid protocol site s =
     (let s1 = mark_source now ok cid protocol site ''connected'' [] s in
      case map_of (hs_states s1) cid of
        None \<Rightarrow> s1
      | Some d \<Rightarrow> s1\<lparr>hs_states := dict_set (hs_states s1) cid (dict_set d ''last_success_at'' (PStr now))\<rparr>)"

text \<open>\<open>int(state.get(k, 0))\<close> of a counter.\<close>

definition counter :: "pydict \<Rightarrow> string \<Rightarrow> int" where
  "counter d k = (case py_int (dict_getd d k (PInt 0)) of None \<Rightarrow> 0 | Some n \<Rightarrow> n)"

definition mapping_defaults :: "string \<Rightarrow> string \<Rightarrow> string \<Rightarrow> pydict \<Rightarrow> pydict" where
  "mapping_defaults cid protocol site d =
     foldl (\<lambda>d (k, v). dict_default d k v) d
       [(''connection_id'', PStr cid), (''protocol'', PStr protocol), (''site'', PStr site),
        (''state'', PStr ''configured''), (''error'', PStr []), (''mapping_seen'', PInt 0),
        (''mapping_matched'', PInt 0), (''mapping_missed'', PInt 0), (''last_mapping_match'', PStr []),
        (''last_mapping_miss'', PStr [])]"

definition count_mapping :: "string \<Rightarrow> bool \<Rightarrow> string \<Rightarrow> pydict \<Rightarrow> pydict" where
  "count_mapping now matched field d =
     (let d1 = dict_set d ''updated_at'' (PStr now);
          d2 = dict_set d1 ''mapping_seen'' (PInt (counter d1 ''mapping_seen'' + 1))
      in if matched
         then dict_set (dict_set d2 ''mapping_matched'' (PInt (counter d2 ''mapping_matched'' + 1)))
                ''last_mapping_match'' (PStr field)
         else dict_set (dict_set d2 ''mapping_missed'' (PInt (counter d2 ''mapping_missed'' + 1)))
                ''last_mapping_miss'' (PStr field))"

definition mark_mapping_result ::
    "string \<Rightarrow> string \<Rightarrow> string \<Rightarrow> string \<Rightarrow> bool \<Rightarrow> string \<Rightarrow> source_health \<Rightarrow> source_health" where
  "mark_mapping_result now cid protocol site matched field s =
     (let d = (case map_of (hs_states s) cid of None \<Rightarrow> [] | Some d \<Rightarrow> d)
      in s\<lparr>hs_states := dict_set (hs_states s) cid (count_mapping now matched field (mapping_defaults cid protocol site d))\<rparr>)"

definition snapshot_health :: "pyrt \<Rightarrow> (rat \<Rightarrow> rat) \<Rightarrow> rat \<Rightarrow> rat \<Rightarrow> source_health \<Rightarrow> pydict list" where
  "snapshot_health R round3 now expected s = map (\<lambda>(_, d). enrich_source_health R round3 d now expected) (hs_states s)"

text \<open>\<open>records[-max(1, min(limit, MAX_HISTORY)):]\<close>.\<close>

definition history_records :: "int \<Rightarrow> source_health \<Rightarrow> pydict list" where
  "history_records limit s = last_n (nat (max 1 (min limit (int MAX_HISTORY)))) (read_history s)"

datatype health_op =
    MarkSource string bool string string string string string
  | MarkSuccess string bool string string string
  | MarkMapping string string string string bool string

fun health_apply :: "source_health \<Rightarrow> health_op \<Rightarrow> source_health" where
  "health_apply s (MarkSource now ok cid protocol site state error) = mark_source now ok cid protocol site state error s"
| "health_apply s (MarkSuccess now ok cid protocol site) = mark_source_success now ok cid protocol site s"
| "health_apply s (MarkMapping now cid protocol site matched field) = mark_mapping_result now cid protocol site matched field s"

section \<open>Delivery history\<close>

definition MAX_RECORDS :: nat where
  "MAX_RECORDS = 5000"

definition delivery_record ::
    "string \<Rightarrow> string \<Rightarrow> string \<Rightarrow> string \<Rightarrow> string \<Rightarrow> int \<Rightarrow> string \<Rightarrow> int \<Rightarrow> pydict" where
  "delivery_record now cid protocol site status attempts error records =
     [(''connection_id'', PStr cid), (''protocol'', PStr protocol), (''site'', PStr site), (''status'', PStr status),
      (''attempts'', PInt attempts), (''records'', PInt records), (''updated_at'', PStr now)]
     @ (if error \<noteq> [] then [(''error'', PStr (take 500 error))] else [])"

text \<open>The file: absent, text that is not JSON, or a value. A failing write is dropped.\<close>

datatype json_file = Absent | Unparsable | Value pyval

definition record_delivery :: "bool \<Rightarrow> pydict \<Rightarrow> json_file \<Rightarrow> json_file" where
  "record_delivery ok r f =
     (case f of
        Unparsable \<Rightarrow> f
      | _ \<Rightarrow>
          (let values = (case f of Value (PList vs) \<Rightarrow> vs | _ \<Rightarrow> [])
           in if ok then Value (PList (last_n MAX_RECORDS (values @ [PDict r]))) else f))"

fun file_dicts :: "json_file \<Rightarrow> pydict list" where
  "file_dicts (Value (PList vs)) = List.map_filter (\<lambda>v. case v of PDict d \<Rightarrow> Some d | _ \<Rightarrow> None) vs"
| "file_dicts _ = []"

definition recent_deliveries :: "pyrt \<Rightarrow> json_file list \<Rightarrow> int \<Rightarrow> pydict list" where
  "recent_deliveries R files limit =
     rev (last_n (nat (max 1 (min limit (int MAX_RECORDS))))
       (sort_key (\<lambda>d. py_str R (dict_getd d ''updated_at'' (PStr []))) (concat (map file_dicts files))))"

section \<open>Lemmas\<close>

definition new_health :: "bool \<Rightarrow> source_health" where
  "new_health path = \<lparr>hs_states = [], hs_path = path, hs_file = None\<rparr>"

lemma counter_set: "counter (dict_set d k v) j = (if j = k then counter [(k, v)] k else counter d j)"
  by (simp add: counter_def dict_getd_def)

lemma counter_single [simp]: "counter [(k, PInt n)] k = n"
  by (simp add: counter_def dict_getd_def py_int_def)

lemma counter_default: "counter (dict_default d k (PInt 0)) k = counter d k"
  by (simp add: dict_default_def counter_def dict_getd_def py_int_def split: option.split)

lemma counter_default_other: "j \<noteq> k \<Longrightarrow> counter (dict_default d k v) j = counter d j"
  by (simp add: dict_default_def counter_set split: option.split)

definition counts_ok :: "pydict \<Rightarrow> bool" where
  "counts_ok d \<longleftrightarrow> counter d ''mapping_seen'' = counter d ''mapping_matched'' + counter d ''mapping_missed''
     \<and> 0 \<le> counter d ''mapping_matched'' \<and> 0 \<le> counter d ''mapping_missed''"

lemma counts_ok_cong:
  "counter d' ''mapping_seen'' = counter d ''mapping_seen'' \<Longrightarrow> counter d' ''mapping_matched'' = counter d ''mapping_matched''
   \<Longrightarrow> counter d' ''mapping_missed'' = counter d ''mapping_missed'' \<Longrightarrow> counts_ok d \<Longrightarrow> counts_ok d'"
  by (simp add: counts_ok_def)

lemma defaults_counts: "counts_ok d \<Longrightarrow> counts_ok (mapping_defaults cid protocol site d)"
  by (erule counts_ok_cong [rotated 3]) (simp_all add: mapping_defaults_def counter_default counter_default_other)

lemma mark_counts:
  "counts_ok d \<Longrightarrow> counts_ok (dict_merge d [(''connection_id'', a), (''protocol'', b), (''site'', c), (''state'', e), (''error'', f), (''updated_at'', g)])"
  by (erule counts_ok_cong [rotated 3]) (simp_all add: dict_merge_def counter_set)

lemma count_counts: "counts_ok d \<Longrightarrow> counts_ok (count_mapping now matched field d)"
  by (simp add: counts_ok_def count_mapping_def counter_set Let_def)

lemma empty_counts: "counts_ok []"
  by (simp add: counts_ok_def counter_def dict_getd_def py_int_def)

definition health_inv :: "source_health \<Rightarrow> bool" where
  "health_inv s \<longleftrightarrow> (\<forall>cid d. map_of (hs_states s) cid = Some d \<longrightarrow> counts_ok d)
     \<and> length (read_history s) \<le> MAX_HISTORY"

lemma set_state_inv:
  "health_inv s \<Longrightarrow> counts_ok d \<Longrightarrow> health_inv (s\<lparr>hs_states := dict_set (hs_states s) cid d\<rparr>)"
  by (auto simp: health_inv_def read_history_def split: if_splits)

lemma record_inv: "health_inv s \<Longrightarrow> health_inv (record_transition ok v s)"
proof -
  assume inv: "health_inv s"
  show ?thesis
  proof (cases "hs_path s \<and> ok")
    case True
    then show ?thesis using inv by (simp add: health_inv_def record_transition_def read_history_def)
  next
    case False
    then have "record_transition ok v s = s" by (auto simp: record_transition_def)
    then show ?thesis using inv by simp
  qed
qed

lemma mark_source_inv: "health_inv s \<Longrightarrow> health_inv (mark_source now ok cid protocol site state error s)"
proof -
  assume inv: "health_inv s"
  let ?d = "case map_of (hs_states s) cid of None \<Rightarrow> [] | Some d \<Rightarrow> d"
  have "counts_ok ?d" using inv empty_counts by (auto simp: health_inv_def split: option.split)
  then have "health_inv (s\<lparr>hs_states := dict_set (hs_states s) cid (dict_merge ?d
      [(''connection_id'', PStr cid), (''protocol'', PStr protocol), (''site'', PStr site),
       (''state'', PStr state), (''error'', PStr error), (''updated_at'', PStr now)])\<rparr>)"
    by (intro set_state_inv [OF inv] mark_counts)
  with record_inv [OF this] show ?thesis by (simp only: mark_source_def Let_def split: if_splits) simp
qed

lemma mark_success_inv: "health_inv s \<Longrightarrow> health_inv (mark_source_success now ok cid protocol site s)"
proof -
  assume inv: "health_inv s"
  let ?s = "mark_source now ok cid protocol site ''connected'' [] s"
  note i = mark_source_inv [OF inv, of now ok cid protocol site "''connected''" "[]"]
  have "counts_ok (dict_set d ''last_success_at'' v)" if "map_of (hs_states ?s) cid = Some d" for d v
  proof -
    from i that have "counts_ok d" by (auto simp: health_inv_def)
    then show ?thesis by (erule_tac counts_ok_cong [rotated 3]) (simp_all add: counter_set)
  qed
  with i set_state_inv [OF i] show ?thesis by (simp add: mark_source_success_def Let_def split: option.split)
qed

lemma mark_mapping_inv: "health_inv s \<Longrightarrow> health_inv (mark_mapping_result now cid protocol site matched field s)"
proof -
  assume inv: "health_inv s"
  have "counts_ok (case map_of (hs_states s) cid of None \<Rightarrow> [] | Some d \<Rightarrow> d)"
    using inv empty_counts by (auto simp: health_inv_def split: option.split)
  then show ?thesis
    unfolding mark_mapping_result_def Let_def by (intro set_state_inv [OF inv] count_counts defaults_counts)
qed

lemma health_run_inv: "health_inv s \<Longrightarrow> health_inv (foldl health_apply s ops)"
proof (induction ops arbitrary: s)
  case (Cons op ops)
  then have "health_inv (health_apply s op)"
    by (cases op) (simp_all add: mark_source_inv mark_success_inv mark_mapping_inv)
  with Cons.IH show ?case by simp
qed simp

section \<open>Properties\<close>

text \<open>
  The mapping counters of every source add up and the history is bounded: whatever is
  marked, the checks seen are the matches plus the misses, and the file holds at most 5,000
  transitions.
\<close>

theorem health_counters_add_up:
  assumes "map_of (hs_states (foldl health_apply (new_health path) ops)) cid = Some d"
  shows "counter d ''mapping_seen'' = counter d ''mapping_matched'' + counter d ''mapping_missed''
    \<and> 0 \<le> counter d ''mapping_matched'' \<and> 0 \<le> counter d ''mapping_missed''
    \<and> length (read_history (foldl health_apply (new_health path) ops)) \<le> 5000"
proof -
  have "health_inv (new_health path)" by (simp add: health_inv_def new_health_def read_history_def)
  from health_run_inv [OF this, of ops] assms show ?thesis by (auto simp: health_inv_def counts_ok_def MAX_HISTORY_def)
qed

theorem health_counters_add_up_witness:
  "\<exists>d. map_of (hs_states (foldl health_apply (new_health True)
      [MarkMapping ''t'' ''c'' ''mqtt'' ''s'' True ''f'', MarkMapping ''t'' ''c'' ''mqtt'' ''s'' False ''g''])) ''c'' = Some d
     \<and> counter d ''mapping_seen'' = 2"
proof -
  let ?s = "foldl health_apply (new_health True)
      [MarkMapping ''t'' ''c'' ''mqtt'' ''s'' True ''f'', MarkMapping ''t'' ''c'' ''mqtt'' ''s'' False ''g'']"
  let ?d = "the (map_of (hs_states ?s) ''c'')"
  have g: "map_of (hs_states ?s) ''c'' = Some ?d"
    by (simp add: mark_mapping_result_def new_health_def)
  have c: "counter ?d ''mapping_matched'' = 1" "counter ?d ''mapping_missed'' = 1" by code_simp+
  from health_counters_add_up [OF g] c have "counter ?d ''mapping_seen'' = 2" by simp
  with g show ?thesis by blast
qed

text \<open>
  A source is shown as running exactly when it is connected, not planned to be down, and
  its last known success, if any, is at most three expected intervals old, an interval below a tenth
  of a second counting as one.
\<close>

theorem running_iff_fresh:
  "lv_lifecycle (classify_source_lifecycle R round3 state success now expected planned) = ''running''
   \<longleftrightarrow> state = ''connected'' \<and> \<not> planned
     \<and> (case parse_success R success of None \<Rightarrow> True | Some t \<Rightarrow> now - t \<le> 3 * max expected (1 / 10))"
proof -
  have m: "0 \<le> max expected (1 / 10) * 3" by (simp add: max_def)
  show ?thesis
  proof (cases "parse_success R success")
    case None
    then show ?thesis by (simp add: classify_source_lifecycle_def Let_def)
  next
    case (Some t)
    have "max (now - t) 0 > max expected (1 / 10) * STALE_MULTIPLIER \<longleftrightarrow> \<not> (now - t \<le> 3 * max expected (1 / 10))"
      using m by (auto simp: STALE_MULTIPLIER_def max_def)
    with Some show ?thesis by (simp add: classify_source_lifecycle_def Let_def)
  qed
qed

text \<open>A delivery history that does not parse is never written again.\<close>

lemma unparsable_history_dead:
  "foldl (\<lambda>f (ok, r). record_delivery ok r f) Unparsable rs = Unparsable"
  by (induction rs) (auto simp: record_delivery_def)

end
