(* ===== verification/Push_Ingress.thy ===== *)
theory Push_Ingress
  imports Edge_Model Stream_Scope Connection_Registry Source_Health
begin

text \<open>
  Events pushed over HTTP: the idempotency table
  (\<open>services/api_service/http_push_idempotency.py\<close>), the ingestion of one event
  (\<open>_do_ingest_event\<close> of \<open>services/api_service/runtime.py\<close>) and the two push routes of
  \<open>services/api_service/routers/historian.py\<close>, over the connection registry, the validation of the
  edge model and the delivery history. The database, the producer and the clock answer through
  \<open>push_env\<close>. The lineage records of the semantic store are not modelled: their failures are
  dropped.
\<close>

section \<open>The idempotency table\<close>

text \<open>Per key the event id and the stored response.\<close>

type_synonym idem_table = "(string \<times> (string \<times> pydict option)) list"

definition idem_claim :: "bool \<Rightarrow> string \<Rightarrow> string \<Rightarrow> idem_table \<Rightarrow> string + idem_table \<times> pydict option" where
  "idem_claim available key event_id t =
     (if \<not> available then Inl ''durable HTTP Push idempotency unavailable''
      else (case map_of t key of
        None \<Rightarrow> Inr (dict_set t key (event_id, None), None)
      | Some (prior, response) \<Rightarrow>
          Inr (t, Some (case response of
            Some r \<Rightarrow> dict_set r ''status'' (PStr ''duplicate'')
          | None \<Rightarrow> [(''status'', PStr ''duplicate''), (''event_id'', PStr (if prior \<noteq> [] then prior else event_id))]))))"

definition idem_complete :: "bool \<Rightarrow> string \<Rightarrow> pydict \<Rightarrow> idem_table \<Rightarrow> string + idem_table" where
  "idem_complete available key response t =
     (if \<not> available then Inl ''durable HTTP Push response persistence failed''
      else (case map_of t key of
        None \<Rightarrow> Inr t
      | Some (prior, _) \<Rightarrow> Inr (dict_set t key (prior, Some response))))"

definition idem_release :: "bool \<Rightarrow> string \<Rightarrow> idem_table \<Rightarrow> string + idem_table" where
  "idem_release available key t =
     (if \<not> available then Inl ''durable HTTP Push claim release failed'' else Inr (dict_del t key))"

section \<open>Ingestion\<close>

record push_config =
  pc_raw :: string
  pc_normalized :: string
  pc_legacy :: string
  pc_dlq :: string

record push_env =
  pe_claim :: bool
  pe_complete :: bool
  pe_release :: bool
  pe_uuid :: string                 \<comment> \<open>the event id given to an event without one\<close>
  pe_dead_uuid :: string
  pe_now :: string
  pe_pyd :: "pydict \<Rightarrow> string + pydict"
  pe_native_bundle :: "pydict \<Rightarrow> (string \<times> string \<times> string) option"
  pe_native_key :: "pydict \<Rightarrow> string option"
  pe_dead_flush :: nat              \<comment> \<open>how many queued records are delivered before the time-out\<close>
  pe_flush :: nat
  pe_dead_insert :: bool
  pe_file :: bool

type_synonym krecord = "string \<times> string \<times> string"

record push_state =
  ps_table :: idem_table
  ps_kafka :: "krecord list"        \<comment> \<open>topic, key, value of what left the producer's queue: delivered, or given up by
                                         the client, which an empty queue does not tell apart\<close>
  ps_queue :: "krecord list"        \<comment> \<open>in the producer\<close>
  ps_dead :: "pydict list"          \<comment> \<open>dead letters of the historian\<close>
  ps_deliveries :: json_file

text \<open>\<open>produce\<close> and \<open>flush(5)\<close>: false when something is left in the queue, from where it may still
  be delivered by a later flush.\<close>

definition publish_batch :: "nat \<Rightarrow> krecord list \<Rightarrow> push_state \<Rightarrow> push_state \<times> bool" where
  "publish_batch n records s =
     (let q = ps_queue s @ records
      in (s\<lparr>ps_kafka := ps_kafka s @ take n q, ps_queue := drop n q\<rparr>, length q \<le> n))"

definition ingest_payload :: "pyrt \<Rightarrow> push_env \<Rightarrow> pydict \<Rightarrow> pydict" where
  "ingest_payload R E event =
     [(''event_id'', PStr (py_str R (py_or (pget event ''event_id'') (PStr (pe_uuid E))))),
      (''source_protocol'', dict_getd event ''source_protocol'' (PStr ''api'')),
      (''source_id'', dict_getd event ''source_id'' (PStr [])),
      (''asset_id'', dict_getd event ''asset_id'' (PStr [])),
      (''tag'', dict_getd event ''tag'' (PStr [])),
      (''value'', dict_getd event ''value'' (PInt 0)),
      (''quality'', dict_getd event ''quality'' (PStr ''good'')),
      (''unit'', dict_getd event ''unit'' (PStr [])),
      (''site'', dict_getd event ''site'' (PStr ''demo-site'')),
      (''line'', dict_getd event ''line'' (PStr ''line-01'')),
      (''ts_source'', py_or (pget event ''ts_source'') (PStr (pe_now E))),
      (''source_connection_id'', dict_getd event ''source_connection_id'' (PStr [])),
      (''source_config_version'', dict_getd event ''source_config_version'' (PInt 0)),
      (''mapping_version'', dict_getd event ''mapping_version'' (PStr [])),
      (''lineage_id'', dict_getd event ''lineage_id'' (PStr []))]"

definition event_records :: "pyrt \<Rightarrow> push_config \<Rightarrow> push_env \<Rightarrow> pydict \<Rightarrow> krecord list" where
  "event_records R C E ev =
     (case (case pe_native_bundle E ev of
              Some b \<Rightarrow> b
            | None \<Rightarrow> (stream_partition_key R (pe_native_key E) ev, json_of R (PDict ev),
                       json_of R (PDict (to_legacy_iot_event R ev)))) of
        (key, normalized, legacy) \<Rightarrow>
          [(pc_raw C, key, json_of R (PDict ev)), (pc_normalized C, key, normalized), (pc_legacy C, key, legacy)])"

definition do_ingest_event :: "pyrt \<Rightarrow> push_config \<Rightarrow> push_env \<Rightarrow> pydict \<Rightarrow> push_state \<Rightarrow> push_state \<times> pydict" where
  "do_ingest_event R C E event s =
     (let payload = ingest_payload R E event in
      case validate_event R (pe_pyd E) (pe_dead_uuid E) (pe_now E) payload of
        Inl dlq \<Rightarrow>
          (let (s1, _) = publish_batch (pe_dead_flush E)
                 [(pc_dlq C, py_str R (dict_getd payload ''source_id'' (PStr ''api'')), json_of R (PDict dlq))] s;
               s2 = (if pe_dead_insert E then s1\<lparr>ps_dead := ps_dead s1 @ [dict_set dlq ''origin'' (PStr ''api'')]\<rparr> else s1)
           in (s2, [(''status'', PStr ''rejected''), (''event_id'', pget dlq ''event_id''), (''reason'', PStr ''validation_failed'')]))
      | Inr ev \<Rightarrow>
          (let eid = PStr (py_str R (dict_getd ev ''event_id'' (pget payload ''event_id'')))
           in case publish_batch (pe_flush E) (event_records R C E ev) s of
                (s1, True) \<Rightarrow> (s1, [(''status'', PStr ''ingested''), (''event_id'', eid)])
              | (s1, False) \<Rightarrow> (s1, [(''status'', PStr ''publish_failed''), (''event_id'', eid),
                  (''warning'', PStr ''kafka_publish_failed: Kafka delivery timed out for ingest event bundle'')])))"

section \<open>The push routes\<close>

datatype http_answer = HttpOk pydict | HttpError nat

definition push_key :: "pyrt \<Rightarrow> string \<Rightarrow> pydict \<Rightarrow> string option \<Rightarrow> string" where
  "push_key R cid event header =
     (let key = (case header of Some (c # cs) \<Rightarrow> c # cs | _ \<Rightarrow> py_str R (dict_getd event ''event_id'' (PStr [])))
      in if key = [] then [] else cid @ '':'' @ key)"

definition push_payload :: "string \<Rightarrow> source_connection \<Rightarrow> pydict \<Rightarrow> pydict" where
  "push_payload cid c event =
     dict_merge event
       [(''source_protocol'', PStr ''http_push''),
        (''source_connection_id'', PStr cid),
        (''site'', py_or (pget event ''site'') (PStr (cn_site_id c))),
        (''source_id'', py_or (pget event ''source_id'') (py_or (PStr (cn_source_id c)) (PStr cid)))]"

definition try_release :: "push_env \<Rightarrow> string \<Rightarrow> push_state \<Rightarrow> push_state" where
  "try_release E key s = (case idem_release (pe_release E) key (ps_table s) of Inl _ \<Rightarrow> s | Inr t \<Rightarrow> s\<lparr>ps_table := t\<rparr>)"

text \<open>What follows the claim: ingestion, then the outcome is stored, or the claim released.\<close>

definition push_claimed ::
    "pyrt \<Rightarrow> push_config \<Rightarrow> push_env \<Rightarrow> string \<Rightarrow> source_connection \<Rightarrow> string \<Rightarrow> pydict \<Rightarrow> push_state
     \<Rightarrow> push_state \<times> http_answer" where
  "push_claimed R C E cid c key event s =
     (case do_ingest_event R C E (push_payload cid c event) s of (s1, result) \<Rightarrow>
        (if pget result ''status'' = PStr ''publish_failed''
         then (if key \<noteq> [] then try_release E key s1 else s1, HttpError 503)
         else
           (let answer = dict_set result ''connection_id'' (PStr cid);
                delivered = (\<lambda>s. s\<lparr>ps_deliveries := record_delivery (pe_file E)
                    (delivery_record (pe_now E) cid ''http_push'' (cn_site_id c) ''accepted'' 1 [] 1) (ps_deliveries s)\<rparr>)
            in if key = [] then (delivered s1, HttpOk answer)
               else (case idem_complete (pe_complete E) key answer (ps_table s1) of
                       Inl _ \<Rightarrow> (try_release E key s1, HttpError 503)
                     | Inr t \<Rightarrow> (delivered (s1\<lparr>ps_table := t\<rparr>), HttpOk answer)))))"

definition push_connection_event ::
    "pyrt \<Rightarrow> push_config \<Rightarrow> conn_registry \<Rightarrow> push_env \<Rightarrow> string \<Rightarrow> pydict \<Rightarrow> string option \<Rightarrow> push_state
     \<Rightarrow> push_state \<times> http_answer" where
  "push_connection_event R C G E cid event header s =
     (case get_connection G cid of
        None \<Rightarrow> (s, HttpError 404)
      | Some c \<Rightarrow>
          (if cn_protocol c \<noteq> ''http_push'' then (s, HttpError 422)
           else if \<not> cn_enabled c then (s, HttpError 409)
           else
             (let key = push_key R cid event header in
              if key = [] then push_claimed R C E cid c key event s
              else (case idem_claim (pe_claim E) key (py_str R (dict_getd event ''event_id'' (PStr []))) (ps_table s) of
                      Inl _ \<Rightarrow> (s, HttpError 503)
                    | Inr (_, Some duplicate) \<Rightarrow> (s, HttpOk duplicate)
                    | Inr (t, None) \<Rightarrow> push_claimed R C E cid c key event (s\<lparr>ps_table := t\<rparr>)))))"

text \<open>A batch: an error of one event ends it, what came before stays done.\<close>

fun push_each ::
    "pyrt \<Rightarrow> push_config \<Rightarrow> conn_registry \<Rightarrow> string \<Rightarrow> string option \<Rightarrow> nat \<Rightarrow> (pydict \<times> push_env) list \<Rightarrow> push_state
     \<Rightarrow> push_state \<times> (nat + pydict list)" where
  "push_each R C G cid header i [] s = (s, Inr [])"
| "push_each R C G cid header i ((event, E) # rest) s =
     (case push_connection_event R C G E cid event
             (case header of Some (c # cs) \<Rightarrow> Some ((c # cs) @ '':'' @ nat_str i) | _ \<Rightarrow> None) s of
        (s1, HttpError n) \<Rightarrow> (s1, Inl n)
      | (s1, HttpOk r) \<Rightarrow>
          (case push_each R C G cid header (Suc i) rest s1 of
             (s2, Inl n) \<Rightarrow> (s2, Inl n)
           | (s2, Inr rs) \<Rightarrow> (s2, Inr (r # rs))))"

definition counts_accepted :: "pydict \<Rightarrow> bool" where
  "counts_accepted r = (pget r ''status'' \<in> {PStr ''ingested'', PStr ''duplicate''})"

definition push_connection_events ::
    "pyrt \<Rightarrow> push_config \<Rightarrow> conn_registry \<Rightarrow> string \<Rightarrow> string option \<Rightarrow> (pydict \<times> push_env) list \<Rightarrow> push_state
     \<Rightarrow> push_state \<times> http_answer" where
  "push_connection_events R C G cid header body s =
     (if length body > 1000 then (s, HttpError 413)
      else (case push_each R C G cid header 0 body s of
        (s1, Inl n) \<Rightarrow> (s1, HttpError n)
      | (s1, Inr rs) \<Rightarrow>
          (s1, HttpOk [(''status'', PStr ''accepted''), (''connection_id'', PStr cid),
                       (''accepted'', PInt (int (length (filter counts_accepted rs)))),
                       (''results'', PList (map PDict rs))])))"

section \<open>Lemmas\<close>

definition accepts_push :: "conn_registry \<Rightarrow> string \<Rightarrow> bool" where
  "accepts_push G cid =
     (case get_connection G cid of None \<Rightarrow> False | Some c \<Rightarrow> cn_protocol c = ''http_push'' \<and> cn_enabled c)"

lemma publish_table [simp]: "publish_batch n rs s = (s', b) \<Longrightarrow> ps_table s' = ps_table s"
  by (auto simp: publish_batch_def Let_def)

lemma publish_parts:
  assumes "publish_batch n rs s = (s', b)"
  shows "ps_kafka s' = ps_kafka s @ take n (ps_queue s @ rs)" and "ps_queue s' = drop n (ps_queue s @ rs)"
    and "b = (length (ps_queue s) + length rs \<le> n)"
proof -
  have s: "s' = fst (publish_batch n rs s)" and b: "b = snd (publish_batch n rs s)" using assms by simp_all
  show "ps_kafka s' = ps_kafka s @ take n (ps_queue s @ rs)" unfolding s by (simp add: publish_batch_def Let_def)
  show "ps_queue s' = drop n (ps_queue s @ rs)" unfolding s by (simp add: publish_batch_def Let_def)
  show "b = (length (ps_queue s) + length rs \<le> n)" unfolding b by (simp add: publish_batch_def Let_def)
qed

lemma publish_result:
  assumes "publish_batch n rs s = (s', b)"
  shows "(b \<longleftrightarrow> length (ps_queue s) + length rs \<le> n) \<and> length (ps_queue s') = length (ps_queue s) + length rs - n"
  unfolding publish_parts [OF assms] by simp

lemma event_records_length: "length (event_records R C E ev) = 3"
  by (simp add: event_records_def split: prod.split)

lemma ingest_table: "do_ingest_event R C E event s = (s', r) \<Longrightarrow> ps_table s' = ps_table s"
  by (auto simp: do_ingest_event_def Let_def split: sum.splits prod.splits bool.splits if_splits dest!: publish_table)

lemma ingest_status:
  "do_ingest_event R C E event s = (s', r) \<Longrightarrow>
     pget r ''status'' \<in> {PStr ''rejected'', PStr ''ingested'', PStr ''publish_failed''}"
  by (auto simp: do_ingest_event_def pget_def dict_getd_def Let_def split: sum.splits prod.splits bool.splits)

lemma release_table:
  "ps_table (try_release E key s) = (if pe_release E then dict_del (ps_table s) key else ps_table s)"
  by (simp add: try_release_def idem_release_def)

lemma claimed_ok:
  assumes "push_claimed R C E cid c key event s = (s1, HttpOk r)" and "key \<noteq> []"
    and "map_of (ps_table s) key = Some (eid, x)"
  shows "map_of (ps_table s1) key = Some (eid, Some r)"
proof -
  obtain s0 res where i: "do_ingest_event R C E (push_payload cid c event) s = (s0, res)" by fastforce
  note t = ingest_table [OF i]
  show ?thesis
    using assms i t by (auto simp: push_claimed_def idem_complete_def Let_def split: if_splits sum.splits)
qed

lemma claimed_503:
  assumes "push_claimed R C E cid c key event s = (s1, HttpError n)" and "\<not> pe_release E"
  shows "ps_table s1 = ps_table s"
proof -
  obtain s0 res where i: "do_ingest_event R C E (push_payload cid c event) s = (s0, res)" by fastforce
  note t = ingest_table [OF i]
  show ?thesis
    using assms i t by (auto simp: push_claimed_def release_table Let_def split: if_splits sum.splits)
qed

lemma push_duplicate:
  assumes "accepts_push G cid" "push_key R cid event header = key" "key \<noteq> []" "pe_claim E"
    and "map_of (ps_table s) key = Some (eid, x)"
  shows "push_connection_event R C G E cid event header s =
    (s, HttpOk (case x of
       Some r \<Rightarrow> dict_set r ''status'' (PStr ''duplicate'')
     | None \<Rightarrow> [(''status'', PStr ''duplicate''),
         (''event_id'', PStr (if eid \<noteq> [] then eid else py_str R (dict_getd event ''event_id'' (PStr []))))]))"
  using assms by (auto simp: push_connection_event_def accepts_push_def idem_claim_def Let_def split: option.splits)

lemma push_first:
  assumes "accepts_push G cid" "push_key R cid event header = key" "key \<noteq> []" "pe_claim E"
    and "map_of (ps_table s) key = None"
  shows "\<exists>c eid. push_connection_event R C G E cid event header s =
    push_claimed R C E cid c key event (s\<lparr>ps_table := dict_set (ps_table s) key (eid, None)\<rparr>)"
  using assms by (auto simp: push_connection_event_def accepts_push_def idem_claim_def Let_def split: option.splits)

lemma ingest_valid:
  assumes "validate_event R (pe_pyd E) (pe_dead_uuid E) (pe_now E) (ingest_payload R E event) = Inr ev"
    and "publish_batch (pe_flush E) (event_records R C E ev) s = (s1, b)"
  shows "\<exists>r. do_ingest_event R C E event s = (s1, r) \<and> pget r ''status'' = PStr (if b then ''ingested'' else ''publish_failed'')"
  using assms by (cases b) (simp_all add: do_ingest_event_def Let_def pget_def dict_getd_def)

lemma ingest_invalid:
  assumes "validate_event R (pe_pyd E) (pe_dead_uuid E) (pe_now E) (ingest_payload R E event) = Inl d"
  shows "\<exists>s1 r. do_ingest_event R C E event s = (s1, r) \<and> pget r ''status'' = PStr ''rejected''"
  using assms by (simp add: do_ingest_event_def Let_def pget_def dict_getd_def split: prod.split)

lemma push_succeeds:
  assumes "accepts_push G cid" "push_key R cid event header = key" "key \<noteq> []" "pe_claim E" "pe_complete E"
    and "map_of (ps_table s) key = None" "st \<noteq> ''publish_failed''"
    and "\<And>c t. \<exists>s1 r. do_ingest_event R C E (push_payload cid c event) (s\<lparr>ps_table := t\<rparr>) = (s1, r) \<and> pget r ''status'' = PStr st"
  shows "\<exists>s1 r. push_connection_event R C G E cid event header s = (s1, HttpOk r) \<and> pget r ''status'' = PStr st"
proof -
  from push_first [OF assms(1-4,6)] obtain c eid where
    p: "push_connection_event R C G E cid event header s =
      push_claimed R C E cid c key event (s\<lparr>ps_table := dict_set (ps_table s) key (eid, None)\<rparr>)" by blast
  obtain s1 r where i: "do_ingest_event R C E (push_payload cid c event) (s\<lparr>ps_table := dict_set (ps_table s) key (eid, None)\<rparr>) = (s1, r)"
    "pget r ''status'' = PStr st" using assms(8) by blast
  have "map_of (ps_table s1) key = Some (eid, None)" using ingest_table [OF i(1)] by simp
  with i assms(3,5,7) show ?thesis unfolding p by (simp add: push_claimed_def idem_complete_def Let_def)
qed

lemma push_fails:
  assumes "accepts_push G cid" "push_key R cid event header = key" "key \<noteq> []" "pe_claim E"
    and "map_of (ps_table s) key = None"
    and "\<And>c t. \<exists>s1 r. do_ingest_event R C E (push_payload cid c event) (s\<lparr>ps_table := t\<rparr>) = (s1, r)
      \<and> pget r ''status'' = PStr ''publish_failed''"
  shows "\<exists>s1. push_connection_event R C G E cid event header s = (s1, HttpError 503)"
proof -
  from push_first [OF assms(1-5)] obtain c eid where
    p: "push_connection_event R C G E cid event header s =
      push_claimed R C E cid c key event (s\<lparr>ps_table := dict_set (ps_table s) key (eid, None)\<rparr>)" by blast
  obtain s1 r where i: "do_ingest_event R C E (push_payload cid c event) (s\<lparr>ps_table := dict_set (ps_table s) key (eid, None)\<rparr>) = (s1, r)"
    "pget r ''status'' = PStr ''publish_failed''" using assms(6) by blast
  then show ?thesis unfolding p by (simp add: push_claimed_def)
qed

section \<open>A small deployment\<close>

definition demo_push_env :: push_env where
  "demo_push_env = \<lparr>pe_claim = True, pe_complete = True, pe_release = True, pe_uuid = ''u'', pe_dead_uuid = ''d'', pe_now = ''t'',
     pe_pyd = (\<lambda>_. Inr pump_event), pe_native_bundle = (\<lambda>_. Some (''k'', ''n'', ''l'')), pe_native_key = (\<lambda>_. None),
     pe_dead_flush = 9, pe_flush = 9, pe_dead_insert = True, pe_file = True\<rparr>"

definition demo_push_config :: push_config where
  "demo_push_config = \<lparr>pc_raw = ''r'', pc_normalized = ''i'', pc_legacy = ''o'', pc_dlq = ''q''\<rparr>"

definition demo_push_reg :: conn_registry where
  "demo_push_reg = \<lparr>cr_connections = [(''c'', demo_conn\<lparr>cn_protocol := ''http_push'', cn_enabled := True\<rparr>)], cr_disk = None\<rparr>"

definition demo_push_state :: push_state where
  "demo_push_state = \<lparr>ps_table = [], ps_kafka = [], ps_queue = [], ps_dead = [], ps_deliveries = Absent\<rparr>"

definition demo_pushed :: pydict where
  "demo_pushed = [(''event_id'', PStr ''e'')]"

lemma demo_push_valid: "validate_event clock_rt (\<lambda>_. Inr pump_event) u n p = Inr pump_event"
proof -
  have "validator_errors clock_rt pump_event = []"
    by (simp add: validator_errors_def require_non_empty_def require_timezone_def pump_event_def pget_def
        dict_getd_def clock_rt_def py_strip_def py_lstrip_def py_rstrip_def py_space_def)
  then show ?thesis by (simp add: validate_event_def)
qed

lemma demo_accepts: "accepts_push demo_push_reg ''c''"
  by (simp add: accepts_push_def demo_push_reg_def get_connection_def)

lemma demo_push_key: "push_key clock_rt ''c'' demo_pushed None = ''c:e''"
  by (simp add: push_key_def demo_pushed_def dict_getd_def)

lemmas demo_push = demo_push_env_def demo_push_config_def demo_push_state_def

lemma demo_push_valid_env:
  "validate_event clock_rt (pe_pyd demo_push_env) (pe_dead_uuid demo_push_env) (pe_now demo_push_env) p = Inr pump_event"
  "validate_event clock_rt (pe_pyd (demo_push_env\<lparr>pe_flush := n, pe_release := x\<rparr>))
     (pe_dead_uuid (demo_push_env\<lparr>pe_flush := n, pe_release := x\<rparr>)) (pe_now (demo_push_env\<lparr>pe_flush := n, pe_release := x\<rparr>)) p
   = Inr pump_event"
  "validate_event clock_rt (pe_pyd (demo_push_env\<lparr>pe_flush := n\<rparr>))
     (pe_dead_uuid (demo_push_env\<lparr>pe_flush := n\<rparr>)) (pe_now (demo_push_env\<lparr>pe_flush := n\<rparr>)) p = Inr pump_event"
  by (simp_all add: demo_push_env_def demo_push_valid)

lemma demo_first_push:
  "\<exists>s1 r. push_connection_event clock_rt demo_push_config demo_push_reg demo_push_env ''c'' demo_pushed None demo_push_state
     = (s1, HttpOk r) \<and> pget r ''status'' = PStr ''ingested''"
proof (rule push_succeeds [OF demo_accepts demo_push_key])
  fix c t
  obtain s1 b where p: "publish_batch (pe_flush demo_push_env) (event_records clock_rt demo_push_config demo_push_env pump_event)
      (demo_push_state\<lparr>ps_table := t\<rparr>) = (s1, b)" by fastforce
  have "b" using publish_result [OF p] by (simp add: event_records_length demo_push)
  then have "(if b then ''ingested'' else ''publish_failed'') = ''ingested''" by simp
  from ingest_valid [OF demo_push_valid_env(1) p, unfolded this] show "\<exists>s1 r. do_ingest_event clock_rt demo_push_config demo_push_env
      (push_payload ''c'' c demo_pushed) (demo_push_state\<lparr>ps_table := t\<rparr>) = (s1, r) \<and> pget r ''status'' = PStr ''ingested''"
    by blast
qed (simp_all add: demo_push_env_def demo_push_state_def)

lemma demo_rejected_push:
  "\<exists>s1 r. push_connection_event clock_rt demo_push_config demo_push_reg (demo_push_env\<lparr>pe_pyd := \<lambda>_. Inl ''bad''\<rparr>) ''c'' demo_pushed None
     demo_push_state = (s1, HttpOk r) \<and> pget r ''status'' = PStr ''rejected''"
proof (rule push_succeeds [OF demo_accepts demo_push_key])
  fix c t
  show "\<exists>s1 r. do_ingest_event clock_rt demo_push_config (demo_push_env\<lparr>pe_pyd := \<lambda>_. Inl ''bad''\<rparr>)
      (push_payload ''c'' c demo_pushed) (demo_push_state\<lparr>ps_table := t\<rparr>) = (s1, r) \<and> pget r ''status'' = PStr ''rejected''"
    by (rule ingest_invalid) (simp add: validate_event_def Let_def)
qed (simp_all add: demo_push_env_def demo_push_state_def)

lemma demo_failed_push:
  "\<exists>s1. push_connection_event clock_rt demo_push_config demo_push_reg (demo_push_env\<lparr>pe_flush := 1, pe_release := False\<rparr>) ''c''
     demo_pushed None demo_push_state = (s1, HttpError 503)"
proof (rule push_fails [OF demo_accepts demo_push_key])
  fix c t
  let ?E = "demo_push_env\<lparr>pe_flush := 1, pe_release := False\<rparr>"
  obtain s1 b where p: "publish_batch (pe_flush ?E) (event_records clock_rt demo_push_config ?E pump_event)
      (demo_push_state\<lparr>ps_table := t\<rparr>) = (s1, b)" by fastforce
  have "\<not> b" using publish_result [OF p] by (simp add: event_records_length demo_push)
  then have "(if b then ''ingested'' else ''publish_failed'') = ''publish_failed''" by simp
  from ingest_valid [OF demo_push_valid_env(2) p, unfolded this] show "\<exists>s1 r. do_ingest_event clock_rt demo_push_config ?E
      (push_payload ''c'' c demo_pushed) (demo_push_state\<lparr>ps_table := t\<rparr>) = (s1, r) \<and> pget r ''status'' = PStr ''publish_failed''"
    by blast
qed (simp_all add: demo_push_env_def demo_push_state_def)

section \<open>Properties\<close>

text \<open>The pushes of any clients, one after the other, each with the registry and the answers of its time.\<close>

type_synonym push_request = "conn_registry \<times> push_env \<times> string \<times> pydict \<times> string option"

definition push_run :: "pyrt \<Rightarrow> push_config \<Rightarrow> push_request list \<Rightarrow> push_state \<Rightarrow> push_state" where
  "push_run R C qs s = foldl (\<lambda>s (G, E, cid, event, header). fst (push_connection_event R C G E cid event header s)) s qs"

text \<open>A push touches no entry but that of its own key, and never an entry that holds a response.\<close>

lemma claimed_elsewhere:
  assumes "push_claimed R C E cid c k event s = (s1, a)" "key \<noteq> k"
  shows "map_of (ps_table s1) key = map_of (ps_table s) key"
proof -
  obtain s0 res where i: "do_ingest_event R C E (push_payload cid c event) s = (s0, res)" by fastforce
  note t = ingest_table [OF i]
  show ?thesis using assms i t
    by (auto simp: push_claimed_def idem_complete_def release_table map_of_dict_del Let_def split: if_splits sum.splits option.splits)
qed

lemma push_keeps_answer:
  assumes "map_of (ps_table s) key = Some (eid, Some r)" "key \<noteq> []"
  shows "map_of (ps_table (fst (push_connection_event R C G E cid event header s))) key = Some (eid, Some r)"
proof -
  obtain s1 a where p: "push_connection_event R C G E cid event header s = (s1, a)" by fastforce
  let ?k = "push_key R cid event header"
  consider "s1 = s" | c where "?k = []" "push_claimed R C E cid c [] event s = (s1, a)"
    | c x where "?k \<noteq> []" "map_of (ps_table s) ?k = None" "push_claimed R C E cid c ?k event (s\<lparr>ps_table := dict_set (ps_table s) ?k x\<rparr>) = (s1, a)"
    using p by (auto simp: push_connection_event_def idem_claim_def Let_def split: option.splits if_splits)
  then have "map_of (ps_table s1) key = map_of (ps_table s) key"
  proof cases
    case 2
    show ?thesis by (rule claimed_elsewhere [OF 2(2) assms(2)])
  next
    case (3 c x)
    have "key \<noteq> ?k" using 3(2) assms(1) by auto
    from claimed_elsewhere [OF 3(3) this] this show ?thesis by simp
  qed simp
  with p assms(1) show ?thesis by simp
qed

lemma run_keeps_answer:
  "key \<noteq> [] \<Longrightarrow> map_of (ps_table s) key = Some (eid, Some r) \<Longrightarrow> map_of (ps_table (push_run R C qs s)) key = Some (eid, Some r)"
proof (induction qs arbitrary: s)
  case (Cons q qs)
  obtain G E cid event header where q: "q = (G, E, cid, event, header)" by (cases q) auto
  from Cons.IH [OF Cons.prems(1) push_keeps_answer [OF Cons.prems(2,1)]] show ?case by (simp add: push_run_def q)
qed (simp add: push_run_def)

lemma answered_stored:
  assumes "push_connection_event R C G E cid event header s = (s1, HttpOk r)" "pget r ''status'' \<noteq> PStr ''duplicate''"
    and "push_key R cid event header \<noteq> []"
  shows "\<exists>eid. map_of (ps_table s1) (push_key R cid event header) = Some (eid, Some r)"
proof -
  let ?key = "push_key R cid event header"
  have dup: "pget (dict_set d ''status'' (PStr ''duplicate'')) ''status'' = PStr ''duplicate''" for d
    by (simp add: pget_def dict_getd_def)
  have none: "pget [(''status'', PStr ''duplicate''), (''event_id'', v)] ''status'' = PStr ''duplicate''" for v
    by (simp add: pget_def dict_getd_def)
  have "accepts_push G cid \<and> pe_claim E"
    using assms(1,3) by (auto simp: push_connection_event_def accepts_push_def idem_claim_def Let_def split: option.splits if_splits)
  note acc = conjunct1 [OF this] and claim = conjunct2 [OF this]
  have "map_of (ps_table s) ?key = None"
  proof (rule ccontr)
    assume "map_of (ps_table s) ?key \<noteq> None"
    then obtain eid x where "map_of (ps_table s) ?key = Some (eid, x)" by auto
    from push_duplicate [OF acc refl assms(3) claim this, of C] assms(1,2) show False
      by (auto simp: pget_def dict_getd_def split: option.splits)
  qed
  from push_first [OF acc refl assms(3) claim this, of C] assms(1) obtain c eid where
    "push_claimed R C E cid c ?key event (s\<lparr>ps_table := dict_set (ps_table s) ?key (eid, None)\<rparr>) = (s1, HttpOk r)" by auto
  from claimed_ok [OF this assms(3), of eid None] show ?thesis by simp
qed

text \<open>
  Claim C32. A push is idempotent: once an event under a key was answered with an outcome, then after any
  further pushes, of any events over any connections and with any failures, a push under this key publishes
  nothing and changes nothing. It is answered with the first outcome marked as duplicate when the connection
  still takes pushes and the table can be reached, and with the code of an error otherwise. (The table has no
  other writer; a key is the connection's identifier with the header or the event identifier.)
\<close>

theorem push_idempotent:
  assumes "push_connection_event R C G E cid event header s = (s1, HttpOk r)" "pget r ''status'' \<noteq> PStr ''duplicate''"
    and "push_key R cid event header \<noteq> []" "push_key R cid event' header' = push_key R cid event header"
    and "s2 = push_run R C qs s1"
  shows "\<exists>a. push_connection_event R C G' E' cid event' header' s2 = (s2, a)
    \<and> (if accepts_push G' cid \<and> pe_claim E' then a = HttpOk (dict_set r ''status'' (PStr ''duplicate''))
       else a \<in> {HttpError 404, HttpError 409, HttpError 422, HttpError 503})"
proof -
  let ?key = "push_key R cid event header"
  obtain eid where "map_of (ps_table s1) ?key = Some (eid, Some r)" using answered_stored [OF assms(1-3)] by blast
  from run_keeps_answer [OF assms(3) this] have t: "map_of (ps_table s2) ?key = Some (eid, Some r)" unfolding assms(5) .
  show ?thesis
  proof (cases "accepts_push G' cid \<and> pe_claim E'")
    case True
    then show ?thesis using push_duplicate [OF _ assms(4,3) _ t, of G' E' C] by simp
  next
    case False
    then show ?thesis using assms(3,4)
      by (auto simp: push_connection_event_def accepts_push_def idem_claim_def Let_def split: option.splits)
  qed
qed

theorem push_idempotent_witness:
  "\<exists>s1 r s2. push_connection_event clock_rt demo_push_config demo_push_reg demo_push_env ''c'' demo_pushed None demo_push_state
       = (s1, HttpOk r)
     \<and> s2 = push_run clock_rt demo_push_config [(demo_push_reg, demo_push_env, ''c'', demo_pushed, Some ''other'')] s1
     \<and> push_connection_event clock_rt demo_push_config demo_push_reg demo_push_env ''c'' demo_pushed None s2
       = (s2, HttpOk (dict_set r ''status'' (PStr ''duplicate'')))"
proof -
  obtain s1 r where f: "push_connection_event clock_rt demo_push_config demo_push_reg demo_push_env ''c'' demo_pushed None
      demo_push_state = (s1, HttpOk r)" "pget r ''status'' = PStr ''ingested''"
    using demo_first_push by blast
  have c: "pe_claim demo_push_env" by (simp add: demo_push_env_def)
  have k: "push_key clock_rt ''c'' demo_pushed None \<noteq> []" by (simp add: demo_push_key)
  have d: "pget r ''status'' \<noteq> PStr ''duplicate''" by (simp add: f(2))
  from push_idempotent [OF f(1) d k refl refl, of demo_push_reg demo_push_env
      "[(demo_push_reg, demo_push_env, ''c'', demo_pushed, Some ''other'')]"] demo_accepts c f(1)
  show ?thesis by auto
qed

text \<open>
  A claim that is not released loses the event: when a push fails with 503 and the release
  of its key fails too, as when the process dies after the claim, every later push under that key is
  answered as a duplicate and publishes nothing.
\<close>

theorem unreleased_claim_loses:
  assumes "accepts_push G cid" "push_key R cid event header \<noteq> []" "pe_claim E" "\<not> pe_release E"
    and "map_of (ps_table s) (push_key R cid event header) = None"
    and "push_connection_event R C G E cid event header s = (s1, HttpError n)"
    and "push_key R cid event' header' = push_key R cid event header" "pe_claim E'"
  shows "\<exists>d. push_connection_event R C G E' cid event' header' s1 = (s1, HttpOk d) \<and> pget d ''status'' = PStr ''duplicate''"
proof -
  let ?key = "push_key R cid event header"
  from push_first [OF assms(1) refl assms(2,3,5), of C] assms(6) obtain c eid where
    "push_claimed R C E cid c ?key event (s\<lparr>ps_table := dict_set (ps_table s) ?key (eid, None)\<rparr>) = (s1, HttpError n)" by auto
  from claimed_503 [OF this assms(4)] have "map_of (ps_table s1) ?key = Some (eid, None)" by simp
  from push_duplicate [OF assms(1,7,2,8) this] show ?thesis by (simp add: pget_def dict_getd_def)
qed

theorem unreleased_claim_loses_witness:
  "\<exists>s1 d. push_connection_event clock_rt demo_push_config demo_push_reg demo_push_env ''c'' demo_pushed None s1 = (s1, HttpOk d)
     \<and> pget d ''status'' = PStr ''duplicate''
     \<and> push_connection_event clock_rt demo_push_config demo_push_reg (demo_push_env\<lparr>pe_flush := 1, pe_release := False\<rparr>) ''c''
         demo_pushed None demo_push_state = (s1, HttpError 503)"
proof -
  let ?E = "demo_push_env\<lparr>pe_flush := 1, pe_release := False\<rparr>"
  obtain s1 where f: "push_connection_event clock_rt demo_push_config demo_push_reg ?E ''c'' demo_pushed None demo_push_state
      = (s1, HttpError 503)" using demo_failed_push by blast
  have k: "push_key clock_rt ''c'' demo_pushed None \<noteq> []" by (simp add: demo_push_key)
  have e: "pe_claim ?E" "\<not> pe_release ?E" "pe_claim demo_push_env" by (simp_all add: demo_push_env_def)
  have t: "map_of (ps_table demo_push_state) (push_key clock_rt ''c'' demo_pushed None) = None"
    by (simp add: demo_push_state_def)
  from unreleased_claim_loses [OF demo_accepts k e(1,2) t f refl e(3)] f show ?thesis by blast
qed

text \<open>
  Retrying a rejected event makes it count as accepted: the rejection is stored as the
  outcome of its key, so the retry is answered as a duplicate, which the batch route counts among the
  accepted events, though the event itself was not.
\<close>

theorem rejected_retry_counts:
  assumes "accepts_push G cid" "push_key R cid event header \<noteq> []" "pe_claim E" "pe_claim E'"
    and "push_connection_event R C G E cid event header s = (s1, HttpOk r)" "pget r ''status'' = PStr ''rejected''"
    and "push_key R cid event' header' = push_key R cid event header"
  shows "\<exists>d. push_connection_event R C G E' cid event' header' s1 = (s1, HttpOk d) \<and> counts_accepted d \<and> \<not> counts_accepted r"
proof -
  let ?key = "push_key R cid event header"
  have "map_of (ps_table s) ?key = None"
  proof (rule ccontr)
    assume "map_of (ps_table s) ?key \<noteq> None"
    then obtain eid x where "map_of (ps_table s) ?key = Some (eid, x)" by auto
    from push_duplicate [OF assms(1) refl assms(2,3) this, of C] assms(5,6) show False
      by (auto simp: pget_def dict_getd_def split: option.splits)
  qed
  from push_first [OF assms(1) refl assms(2,3) this, of C] assms(5) obtain c eid where
    "push_claimed R C E cid c ?key event (s\<lparr>ps_table := dict_set (ps_table s) ?key (eid, None)\<rparr>) = (s1, HttpOk r)" by auto
  from claimed_ok [OF this assms(2), of eid None] have "map_of (ps_table s1) ?key = Some (eid, Some r)" by simp
  from push_duplicate [OF assms(1,7,2,4) this] assms(6) show ?thesis by (simp add: counts_accepted_def)
qed

theorem rejected_retry_counts_witness:
  "\<exists>s1 d. push_connection_event clock_rt demo_push_config demo_push_reg demo_push_env ''c'' demo_pushed None s1 = (s1, HttpOk d)
     \<and> counts_accepted d"
proof -
  let ?E = "demo_push_env\<lparr>pe_pyd := \<lambda>_. Inl ''bad''\<rparr>"
  obtain s1 r where f: "push_connection_event clock_rt demo_push_config demo_push_reg ?E ''c'' demo_pushed None demo_push_state
      = (s1, HttpOk r)" "pget r ''status'' = PStr ''rejected''" using demo_rejected_push by blast
  have k: "push_key clock_rt ''c'' demo_pushed None \<noteq> []" by (simp add: demo_push_key)
  have e: "pe_claim ?E" "pe_claim demo_push_env" by (simp_all add: demo_push_env_def)
  from rejected_retry_counts [OF demo_accepts k e f refl] show ?thesis by blast
qed

text \<open>
  A publication that times out is not withdrawn: with an empty queue before, an ingestion
  that reports failure and a retry that succeeds deliver the records of both, the first ones late.
\<close>

theorem timed_out_records_delivered:
  assumes "validate_event R (pe_pyd E) (pe_dead_uuid E) (pe_now E) (ingest_payload R E event) = Inr ev"
    and "validate_event R (pe_pyd E') (pe_dead_uuid E') (pe_now E') (ingest_payload R E' event) = Inr ev'"
    and "ps_queue s = []"
    and "do_ingest_event R C E event s = (s1, r1)" "pget r1 ''status'' = PStr ''publish_failed''"
    and "do_ingest_event R C E' event s1 = (s2, r2)" "pget r2 ''status'' = PStr ''ingested''"
  shows "ps_kafka s2 = ps_kafka s @ event_records R C E ev @ event_records R C E' ev' \<and> ps_queue s2 = []"
proof -
  let ?a = "event_records R C E ev" and ?b = "event_records R C E' ev'"
  obtain b1 where p1: "publish_batch (pe_flush E) ?a s = (s1, b1)" "\<not> b1"
    using assms(1,4,5) by (auto simp: do_ingest_event_def pget_def dict_getd_def Let_def split: prod.splits bool.splits)
  obtain b2 where p2: "publish_batch (pe_flush E') ?b s1 = (s2, b2)" "b2"
    using assms(2,6,7) by (auto simp: do_ingest_event_def pget_def dict_getd_def Let_def split: prod.splits bool.splits)
  have s1: "ps_kafka s1 = ps_kafka s @ take (pe_flush E) ?a" "ps_queue s1 = drop (pe_flush E) ?a"
    using publish_parts(1,2) [OF p1(1)] assms(3) by simp_all
  have s2: "ps_kafka s2 = ps_kafka s1 @ ps_queue s1 @ ?b \<and> ps_queue s2 = []"
    using publish_parts [OF p2(1)] p2(2) by simp
  show ?thesis using s1 s2 by simp
qed

theorem timed_out_records_delivered_witness:
  "\<exists>s1 r1 s2 r2. do_ingest_event clock_rt demo_push_config (demo_push_env\<lparr>pe_flush := 0\<rparr>) demo_pushed demo_push_state = (s1, r1)
     \<and> do_ingest_event clock_rt demo_push_config demo_push_env demo_pushed s1 = (s2, r2) \<and> length (ps_kafka s2) = 6"
proof -
  let ?E = "demo_push_env\<lparr>pe_flush := 0\<rparr>"
  obtain s1 r1 where i1: "do_ingest_event clock_rt demo_push_config ?E demo_pushed demo_push_state = (s1, r1)" by fastforce
  obtain s2 r2 where i2: "do_ingest_event clock_rt demo_push_config demo_push_env demo_pushed s1 = (s2, r2)" by fastforce
  note v = demo_push_valid_env(3) [where n = 0] demo_push_valid_env(1)
  have q: "ps_queue demo_push_state = []" by (simp add: demo_push_state_def)
  obtain t1 b1 where p1: "publish_batch (pe_flush ?E) (event_records clock_rt demo_push_config ?E pump_event) demo_push_state = (t1, b1)"
    by fastforce
  have b1: "\<not> b1" and q1: "length (ps_queue t1) = 3"
    using publish_result [OF p1] by (simp_all add: event_records_length demo_push)
  obtain r where r: "do_ingest_event clock_rt demo_push_config ?E demo_pushed demo_push_state = (t1, r)"
    "pget r ''status'' = PStr (if b1 then ''ingested'' else ''publish_failed'')" using ingest_valid [OF v(1) p1] by blast
  have t1: "s1 = t1" and "r1 = r" using i1 r(1) by simp_all
  with r(2) b1 have r1: "pget r1 ''status'' = PStr ''publish_failed''" by (simp only: if_False)
  obtain t2 b2 where p2: "publish_batch (pe_flush demo_push_env) (event_records clock_rt demo_push_config demo_push_env pump_event) s1 = (t2, b2)"
    by fastforce
  have b2: "b2" using publish_result [OF p2] q1 t1 by (simp add: event_records_length demo_push)
  obtain r' where r': "do_ingest_event clock_rt demo_push_config demo_push_env demo_pushed s1 = (t2, r')"
    "pget r' ''status'' = PStr (if b2 then ''ingested'' else ''publish_failed'')" using ingest_valid [OF v(2) p2] by blast
  have "r2 = r'" using i2 r'(1) by simp
  with r'(2) b2 have r2: "pget r2 ''status'' = PStr ''ingested''" by (simp only: if_True)
  from timed_out_records_delivered [OF v(1) v(2) q i1 r1 i2 r2]
  have "length (ps_kafka s2) = 6" by (simp add: event_records_length demo_push_state_def)
  with i1 i2 show ?thesis by blast
qed


end
