(* ===== verification/Semantic_Model.thy ===== *)
theory Semantic_Model
  imports Py_Prelude
begin

text \<open>
  The semantic layer over the historian tables (\<open>services/common/semantic_model.py\<close>): fields,
  entities and ontology packs, looking them up, and inferring them from the terms of a question. The
  model loaded from a file is a value; the built-in one is \<open>default_model\<close>.
\<close>

record semantic_field =
  sf_name :: string
  sf_expression :: string
  sf_kind :: string
  sf_searchable :: bool
  sf_aliases :: "string list"

record semantic_entity =
  se_name :: string
  se_table :: string
  se_ontology_pack :: string
  se_kind :: string
  se_time_field :: "string option"
  se_aliases :: "string list"
  se_fields :: "semantic_field list"
  se_default_limit :: int

record ontology_pack =
  op_pack_id :: string
  op_name :: string
  op_layer :: string
  op_version :: string
  op_concepts :: "string list"
  op_notes :: "string list"

record semantic_model =
  sm_name :: string
  sm_version :: string
  sm_packs :: "ontology_pack list"
  sm_entities :: "semantic_entity list"
  sm_notes :: "string list"

text \<open>\<open>{field.name: field}\<close>: the last field of a name wins.\<close>

definition field_dict :: "semantic_entity \<Rightarrow> (string \<times> semantic_field) list" where
  "field_dict e = foldl (\<lambda>d f. dict_set d (sf_name f) f) [] (se_fields e)"

definition entity_field :: "semantic_entity \<Rightarrow> string \<Rightarrow> semantic_field option" where
  "entity_field e n = map_of (field_dict e) n"

definition lower_terms :: "string list \<Rightarrow> string list" where
  "lower_terms ts = map py_lower (filter (\<lambda>t. t \<noteq> []) ts)"

definition search_index_terms :: "semantic_entity \<Rightarrow> string list" where
  "search_index_terms e = lower_terms ([se_name e, se_table e] @ se_aliases e
     @ concat (map (\<lambda>f. sf_name f # sf_aliases f) (se_fields e)))"

text \<open>The score of a set of terms: 3 for a known term, 1 for one that contains or is contained in a known one.\<close>

definition term_score :: "string list \<Rightarrow> string \<Rightarrow> int" where
  "term_score terms t = (if t \<in> set terms then 3 else if list_ex (\<lambda>c. contains c t \<or> contains t c) terms then 1 else 0)"

definition query_score :: "string list \<Rightarrow> string list \<Rightarrow> int" where
  "query_score terms query = sum_list (map (term_score terms) (remdups (map py_lower query)))"

text \<open>The first of the best: a later candidate must score strictly more.\<close>

fun best_of :: "('a \<Rightarrow> int) \<Rightarrow> 'a list \<Rightarrow> 'a option \<Rightarrow> int \<Rightarrow> 'a option" where
  "best_of score [] best best_score = best"
| "best_of score (x # xs) best best_score =
     (if best_score < score x then best_of score xs (Some x) (score x) else best_of score xs best best_score)"

definition find_pack :: "semantic_model \<Rightarrow> string \<Rightarrow> ontology_pack option" where
  "find_pack m pack_id =
     (let k = py_strip (py_lower pack_id) in
      find (\<lambda>p. k = py_lower (op_pack_id p) \<or> k = py_lower (op_name p)) (sm_packs m))"

definition pack_terms :: "ontology_pack \<Rightarrow> string list" where
  "pack_terms p = [py_lower (op_pack_id p), py_lower (op_name p), py_lower (op_layer p)]
     @ map py_lower (op_concepts p) @ concat (map (\<lambda>n. py_words (py_lower n)) (op_notes p))"

definition infer_pack :: "semantic_model \<Rightarrow> string list \<Rightarrow> ontology_pack option" where
  "infer_pack m query = best_of (\<lambda>p. query_score (pack_terms p) query) (sm_packs m) None (- 1)"

definition find_entity :: "semantic_model \<Rightarrow> string \<Rightarrow> semantic_entity option" where
  "find_entity m name =
     (let k = py_strip (py_lower name) in
      find (\<lambda>e. k = py_lower (se_name e) \<or> k = py_lower (se_table e) \<or> k \<in> set (map py_lower (se_aliases e))) (sm_entities m))"

text \<open>\<open>None\<close>: a model without entities, a \<open>ValueError\<close>.\<close>

definition infer_entity :: "semantic_model \<Rightarrow> string list \<Rightarrow> semantic_entity option" where
  "infer_entity m query = best_of (\<lambda>e. query_score (search_index_terms e) query) (sm_entities m) None (- 1)"

section \<open>The built-in model\<close>

definition dim :: "string \<Rightarrow> string list \<Rightarrow> semantic_field" where
  "dim n aliases = \<lparr>sf_name = n, sf_expression = n, sf_kind = ''dimension'', sf_searchable = True, sf_aliases = aliases\<rparr>"

definition measure_field :: "string \<Rightarrow> semantic_field" where
  "measure_field n = \<lparr>sf_name = n, sf_expression = n, sf_kind = ''measure'', sf_searchable = True, sf_aliases = []\<rparr>"

definition entity_of ::
    "string \<Rightarrow> string \<Rightarrow> string \<Rightarrow> string option \<Rightarrow> string list \<Rightarrow> semantic_field list \<Rightarrow> int \<Rightarrow> semantic_entity" where
  "entity_of n pack kind t aliases flds limit =
     \<lparr>se_name = n, se_table = n, se_ontology_pack = pack, se_kind = kind, se_time_field = t, se_aliases = aliases,
      se_fields = flds, se_default_limit = limit\<rparr>"

definition default_entities :: "semantic_entity list" where
  "default_entities =
     [entity_of ''industrial_events'' ''platform.core'' ''fact'' (Some ''time'')
        [''events'', ''historian'', ''telemetry'', ''measurements'']
        [dim ''time'' [''timestamp'', ''datetime''], dim ''asset_id'' [''device'', ''machine'', ''asset''],
         dim ''tag'' [''signal'', ''sensor''], dim ''site'' [''plant''], dim ''line'' [''area'', ''production_line''],
         measure_field ''value'', dim ''quality'' [], dim ''fault_type'' [], dim ''ground_truth_severity'' []] 100,
      entity_of ''processed_events'' ''platform.core'' ''fact'' (Some ''time'') [''alarms'', ''warnings'', ''anomalies'']
        [dim ''time'' [], dim ''asset_id'' [], dim ''tag'' [], dim ''severity'' [], measure_field ''window_size'',
         measure_field ''anomaly_score'', dim ''evaluation'' []] 100,
      entity_of ''assets'' ''industry.manufacturing'' ''dimension'' None [''hierarchy'', ''site topology'', ''equipment'']
        [dim ''id'' [], dim ''name'' [], dim ''type'' [], dim ''path'' [], dim ''parent_id'' []] 500,
      entity_of ''report_templates'' ''platform.core'' ''dimension'' None [''reports'', ''templates'']
        [dim ''template_id'' [], dim ''name'' [], dim ''description'' [], dim ''format'' []] 100,
      entity_of ''scenarios'' ''platform.core'' ''dimension'' None [''replay'', ''test cases'', ''benchmarks'']
        [dim ''scenario_id'' [], dim ''name'' [], dim ''description'' [], dim ''category'' []] 100]"

definition PLATFORM_PRIMITIVES :: "string list" where
  "PLATFORM_PRIMITIVES = [''Entity'', ''Relationship'', ''Event'', ''Observation'', ''Measurement'', ''State'', ''Action'',
     ''Document'', ''Location'', ''Policy'', ''Time'', ''Workflow'', ''Schema'', ''Lineage'']"

definition DEFAULT_ONTOLOGY_PACKS :: "ontology_pack list" where
  "DEFAULT_ONTOLOGY_PACKS =
     [\<lparr>op_pack_id = ''platform.core'', op_name = ''Platform Core'', op_layer = ''platform'', op_version = ''1.0'',
        op_concepts = PLATFORM_PRIMITIVES, op_notes = [''Universal primitives used by every installation.'']\<rparr>,
      \<lparr>op_pack_id = ''industry.manufacturing'', op_name = ''Manufacturing Pack'', op_layer = ''industry'', op_version = ''1.0'',
        op_concepts = [''Site'', ''Area'', ''Line'', ''Cell'', ''Asset'', ''Tag'', ''Shift'', ''Batch'', ''Recipe'', ''Machine'',
          ''Operator'', ''WorkOrder'', ''Product'', ''OEE''],
        op_notes = [''First domain pack for the current industrial app.'']\<rparr>]"

definition default_model :: semantic_model where
  "default_model = \<lparr>sm_name = ''industrial-streaming-semantic-model'', sm_version = ''1.0'', sm_packs = DEFAULT_ONTOLOGY_PACKS,
     sm_entities = default_entities,
     sm_notes = [''Semantic layer is deterministic and provider-neutral.'',
       ''It is designed to compile only validated select queries.'']\<rparr>"

section \<open>Lookup\<close>

lemma field_fold:
  "map_of (foldl (\<lambda>d f. dict_set d (sf_name f) f) d fs) n = Some f \<Longrightarrow> map_of d n = Some f \<or> f \<in> set fs \<and> sf_name f = n"
  by (induction fs arbitrary: d) (force split: if_splits)+

lemma entity_fieldD: "entity_field e n = Some f \<Longrightarrow> f \<in> set (se_fields e) \<and> sf_name f = n"
  using field_fold [of "[]" "se_fields e" n f] by (simp add: entity_field_def field_dict_def)

lemma best_of_mem: "best_of score xs b s = Some x \<Longrightarrow> b = Some x \<or> x \<in> set xs"
  by (induction xs arbitrary: b s) (auto split: if_splits)

lemma best_of_some: "b \<noteq> None \<Longrightarrow> best_of score xs b s \<noteq> None"
  by (induction xs arbitrary: b s) auto

lemma score_nonneg: "0 \<le> query_score terms query"
  unfolding query_score_def by (rule sum_list_nonneg) (auto simp: term_score_def)

lemma infer_entity_mem: "infer_entity m query = Some e \<Longrightarrow> e \<in> set (sm_entities m)"
  using best_of_mem [of _ "sm_entities m" None "- 1" e] by (auto simp: infer_entity_def)

lemma infer_entity_total: "sm_entities m \<noteq> [] \<Longrightarrow> infer_entity m query \<noteq> None"
  unfolding infer_entity_def
  by (cases "sm_entities m") (simp_all add: best_of_some less_le_trans [OF _ score_nonneg])

lemma find_entity_mem: "find_entity m n = Some e \<Longrightarrow> e \<in> set (sm_entities m)"
  by (auto simp: find_entity_def Let_def find_Some_iff)

end
