(* ===== verification/Query_Plan.thy ===== *)
theory Query_Plan
  imports Semantic_Model
begin

text \<open>
  From a question to SQL: the deterministic planner and the compiler
  (\<open>services/common/query_plan.py\<close>) and the check of the text before it is executed
  (\<open>services/common/sql_compiler.py\<close>). Identifiers are text of the semantic model, values are
  parameters; a parameter is a \<open>pyval\<close>, a tuple of values a \<open>PList\<close>.
\<close>

section \<open>Plans\<close>

record query_filter =
  qf_field :: string
  qf_operator :: string
  qf_value :: pyval

record query_order =
  qo_field :: string
  qo_direction :: string

record time_window =
  tw_kind :: string
  tw_count :: int
  tw_unit :: string
  tw_anchor :: "string option"

record query_plan =
  qp_intent :: string
  qp_entity :: string
  qp_table :: string
  qp_ontology_pack :: string
  qp_measure :: "string option"
  qp_select_fields :: "string list"
  qp_filters :: "query_filter list"
  qp_group_by :: "string list"
  qp_order_by :: "query_order list"
  qp_limit :: int
  qp_time_window :: "time_window option"
  qp_search_terms :: "string list"
  qp_notes :: "string list"

record compiled_query =
  cq_sql :: string
  cq_params :: "pyval list"
  cq_entity :: string
  cq_warnings :: "string list"

datatype plan_error = NoEntities | UnknownEntity string | NoValueMeasure string | UnsafeSql string

section \<open>Reading the question\<close>

definition token_char :: "char \<Rightarrow> bool" where
  "token_char c = (CHR ''a'' \<le> c \<and> c \<le> CHR ''z'' \<or> CHR ''0'' \<le> c \<and> c \<le> CHR ''9'')"

definition tokenize :: "string \<Rightarrow> string list" where
  "tokenize text = runs token_char (py_lower text)"

text \<open>\<open>(last|past|previous)\s+(\d+)\s+(minute|...)\<close> matched at a position, then searched. The
  alternatives are tried in order, so the unit matched is the singular.\<close>

definition strip_prefix :: "string \<Rightarrow> string \<Rightarrow> string option" where
  "strip_prefix p s = (if starts_with s p then Some (drop (length p) s) else None)"

fun first_prefix :: "string list \<Rightarrow> string \<Rightarrow> (string \<times> string) option" where
  "first_prefix [] s = None"
| "first_prefix (p # ps) s = (case strip_prefix p s of Some r \<Rightarrow> Some (p, r) | None \<Rightarrow> first_prefix ps s)"

definition spaces1 :: "string \<Rightarrow> string option" where
  "spaces1 s = (case s of c # cs \<Rightarrow> if py_space c then Some (dropWhile py_space cs) else None | [] \<Rightarrow> None)"

definition WINDOW_UNITS :: "string list" where
  "WINDOW_UNITS = [''minute'', ''minutes'', ''hour'', ''hours'', ''day'', ''days'', ''week'', ''weeks'']"

definition window_at :: "string \<Rightarrow> (nat \<times> string) option" where
  "window_at s =
     (case first_prefix [''last'', ''past'', ''previous''] s of
        None \<Rightarrow> None
      | Some (_, r) \<Rightarrow>
          (case spaces1 r of
             None \<Rightarrow> None
           | Some t \<Rightarrow>
               (let ds = takeWhile digit t in
                if ds = [] then None
                else (case spaces1 (dropWhile digit t) of
                        None \<Rightarrow> None
                      | Some u \<Rightarrow> (case first_prefix WINDOW_UNITS u of
                                     None \<Rightarrow> None | Some (n, _) \<Rightarrow> Some (digits_val ds, n))))))"

fun search_window :: "string \<Rightarrow> (nat \<times> string) option" where
  "search_window [] = None"
| "search_window (c # cs) = (case window_at (c # cs) of Some m \<Rightarrow> Some m | None \<Rightarrow> search_window cs)"

definition detect_time_window :: "string list \<Rightarrow> time_window option \<times> string list" where
  "detect_time_window tokens =
     (case search_window (join '' '' tokens) of
        Some (n, u) \<Rightarrow>
          (Some \<lparr>tw_kind = ''relative'', tw_count = int n, tw_unit = u, tw_anchor = None\<rparr>,
           [''time window detected: '' @ nat_str n @ '' '' @ u])
      | None \<Rightarrow>
          (if ''today'' \<in> set tokens
           then (Some \<lparr>tw_kind = ''relative'', tw_count = 1, tw_unit = ''day'', tw_anchor = Some ''today''\<rparr>,
                 [''time window detected: today''])
           else if ''this'' \<in> set tokens \<and> ''week'' \<in> set tokens
           then (Some \<lparr>tw_kind = ''relative'', tw_count = 1, tw_unit = ''week'', tw_anchor = Some ''this_week''\<rparr>,
                 [''time window detected: this week''])
           else (None, [])))"

definition any_of :: "string list \<Rightarrow> string list \<Rightarrow> bool" where
  "any_of words tokens = list_ex (\<lambda>w. w \<in> set tokens) words"

definition entity_words :: "(string list \<times> string) list" where
  "entity_words =
     [([''alarm'', ''alarms'', ''warning'', ''warnings'', ''critical'', ''anomaly''], ''processed_events''),
      ([''trend'', ''history'', ''hist'', ''telemetry'', ''events'', ''measurements''], ''industrial_events''),
      ([''asset'', ''assets'', ''equipment'', ''hierarchy''], ''assets''),
      ([''report'', ''reports'', ''template'', ''templates''], ''report_templates''),
      ([''scenario'', ''scenarios'', ''benchmark'', ''benchmarks''], ''scenarios'')]"

fun pick_by_words :: "semantic_model \<Rightarrow> string list \<Rightarrow> (string list \<times> string) list \<Rightarrow> semantic_entity option" where
  "pick_by_words m tokens [] = infer_entity m tokens"
| "pick_by_words m tokens ((ws, n) # rest) =
     (case (if any_of ws tokens then find_entity m n else None) of
        Some e \<Rightarrow> Some e | None \<Rightarrow> pick_by_words m tokens rest)"

text \<open>With a pack, the entities of the pack when it has any.\<close>

definition pick_entity_with_pack :: "semantic_model \<Rightarrow> string list \<Rightarrow> string option \<Rightarrow> semantic_entity option" where
  "pick_entity_with_pack m tokens pack =
     (let scoped = (case pack of
                      None \<Rightarrow> m
                    | Some p \<Rightarrow> (if p = [] then m
                        else (case filter (\<lambda>e. se_ontology_pack e = p) (sm_entities m) of
                                [] \<Rightarrow> m | es \<Rightarrow> m\<lparr>sm_entities := es\<rparr>)))
      in pick_by_words scoped tokens entity_words)"

definition pick_entity :: "semantic_model \<Rightarrow> string list \<Rightarrow> semantic_entity option" where
  "pick_entity m tokens = pick_entity_with_pack m tokens None"

definition pick_measure :: "string list \<Rightarrow> string option \<times> string list" where
  "pick_measure tokens =
     (if any_of [''count'', ''counts'', ''how'', ''many'', ''number''] tokens then (Some ''count'', [''count aggregate requested''])
      else if any_of [''average'', ''avg'', ''mean''] tokens then (Some ''avg'', [''average aggregate requested''])
      else if any_of [''max'', ''maximum'', ''highest'', ''peak''] tokens then (Some ''max'', [''maximum aggregate requested''])
      else if any_of [''min'', ''minimum'', ''lowest''] tokens then (Some ''min'', [''minimum aggregate requested''])
      else if any_of [''sum'', ''total''] tokens then (Some ''sum'', [''sum aggregate requested''])
      else if any_of [''latest'', ''newest''] tokens \<or> ''most'' \<in> set tokens \<and> ''recent'' \<in> set tokens
      then (Some ''latest'', [''latest record requested''])
      else (None, []))"

definition pick_group_by :: "semantic_entity \<Rightarrow> string list \<Rightarrow> string list" where
  "pick_group_by e tokens = fromkeys (map sf_name (filter (\<lambda>f. sf_kind f = ''dimension''
     \<and> list_ex (\<lambda>a. a \<in> set tokens) (map py_lower (sf_name f # sf_aliases f))) (se_fields e)))"

fun add_dimensions :: "semantic_field list \<Rightarrow> string list \<Rightarrow> string list" where
  "add_dimensions [] sel = sel"
| "add_dimensions (f # fs) sel =
     (let sel' = (if sf_kind f = ''dimension'' \<and> sf_name f \<notin> set sel then sel @ [sf_name f] else sel)
      in if 6 \<le> length sel' then sel' else add_dimensions fs sel')"

definition default_select :: "semantic_entity \<Rightarrow> string list" where
  "default_select e = add_dimensions (se_fields e)
     [if se_time_field e \<notin> {None, Some []} then ''time''
      else (case se_fields e of f # _ \<Rightarrow> sf_name f | [] \<Rightarrow> ''*'')]"

definition severity_filters :: "string list \<Rightarrow> query_filter list" where
  "severity_filters tokens =
     (if ''critical'' \<in> set tokens then [\<lparr>qf_field = ''severity'', qf_operator = ''='', qf_value = PStr ''critical''\<rparr>]
      else if ''warning'' \<in> set tokens
      then [\<lparr>qf_field = ''severity'', qf_operator = ''IN'', qf_value = PList [PStr ''warning'', PStr ''critical'']\<rparr>]
      else [])"

definition time_field_of :: "semantic_entity \<Rightarrow> string option" where
  "time_field_of e = (case se_time_field e of Some (c # cs) \<Rightarrow> Some (c # cs) | _ \<Rightarrow> None)"

definition plan_order :: "semantic_entity \<Rightarrow> string option \<Rightarrow> query_order list" where
  "plan_order e msr =
     (if msr = Some ''latest'' then
        [\<lparr>qo_field = (case time_field_of e of Some t \<Rightarrow> t | None \<Rightarrow> ''time''), qo_direction = ''desc''\<rparr>]
      else (case msr of
              Some x \<Rightarrow> [\<lparr>qo_field = x, qo_direction = ''desc''\<rparr>]
            | None \<Rightarrow> (case time_field_of e of
                         Some t \<Rightarrow> [\<lparr>qo_field = t, qo_direction = ''desc''\<rparr>] | None \<Rightarrow> [])))"

definition plan_limit :: "semantic_entity \<Rightarrow> string option \<Rightarrow> int option \<Rightarrow> int" where
  "plan_limit e msr limit =
     (case limit of
        Some n \<Rightarrow> n
      | None \<Rightarrow> if msr = Some ''count'' then 1 else if se_default_limit e \<noteq> 0 then se_default_limit e else 100)"

definition build_query_plan :: "semantic_model \<Rightarrow> string \<Rightarrow> int option \<Rightarrow> plan_error + query_plan" where
  "build_query_plan m query limit =
     (let tokens = tokenize query;
          pack = (case infer_pack m tokens of Some p \<Rightarrow> Some p | None \<Rightarrow> find_pack m ''platform.core'')
      in case pick_entity m tokens of
           None \<Rightarrow> Inl NoEntities
         | Some e \<Rightarrow>
             (let (msr, measure_notes) = pick_measure tokens;
                  (win, time_notes) = detect_time_window tokens
              in Inr \<lparr>qp_intent = query, qp_entity = se_name e, qp_table = se_table e,
                   qp_ontology_pack = (if se_ontology_pack e \<noteq> [] then se_ontology_pack e
                                       else (case pack of Some p \<Rightarrow> op_pack_id p | None \<Rightarrow> ''platform.core'')),
                   qp_measure = msr,
                   qp_select_fields = fromkeys (case msr of Some x \<Rightarrow> [x] | None \<Rightarrow> default_select e),
                   qp_filters = severity_filters tokens, qp_group_by = pick_group_by e tokens,
                   qp_order_by = plan_order e msr, qp_limit = plan_limit e msr limit,
                   qp_time_window = win, qp_search_terms = tokens,
                   qp_notes = measure_notes @ time_notes
                     @ (case pack of Some p \<Rightarrow> [''ontology pack selected: '' @ op_pack_id p] | None \<Rightarrow> [])\<rparr>))"

section \<open>Compiling\<close>

definition select_item :: "semantic_field \<Rightarrow> string" where
  "select_item f = (if sf_expression f = sf_name f then sf_expression f else sf_expression f @ '' AS '' @ sf_name f)"

definition group_items :: "semantic_entity \<Rightarrow> (semantic_field \<Rightarrow> string) \<Rightarrow> string list \<Rightarrow> string list" where
  "group_items e show names =
     concat (map (\<lambda>n. case entity_field e n of None \<Rightarrow> [] | Some f \<Rightarrow> [show f]) names)"

definition aggregate_name :: "string \<Rightarrow> string" where
  "aggregate_name msr = py_upper msr"

definition plain_items :: "semantic_entity \<Rightarrow> string list \<Rightarrow> string list \<times> string list" where
  "plain_items e names =
     (concat (map (\<lambda>n. if n = ''*'' then [''*''] else (case entity_field e n of None \<Rightarrow> [] | Some f \<Rightarrow> [select_item f])) names),
      concat (map (\<lambda>n. if n \<noteq> ''*'' \<and> entity_field e n = None then [''field not found in semantic model: '' @ n] else []) names))"

text \<open>The select list and the warnings.\<close>

definition select_parts :: "semantic_entity \<Rightarrow> query_plan \<Rightarrow> plan_error + (string list \<times> string list)" where
  "select_parts e p =
     (if qp_measure p = Some ''count'' then Inr (group_items e select_item (qp_group_by p) @ [''COUNT(*) AS count''], [])
      else if qp_measure p \<in> {Some ''avg'', Some ''max'', Some ''min'', Some ''sum''} then
        (case entity_field e ''value'' of
           None \<Rightarrow> Inl (NoValueMeasure (se_name e))
         | Some f \<Rightarrow> Inr (group_items e select_item (qp_group_by p)
             @ [aggregate_name (the (qp_measure p)) @ ''('' @ sf_expression f @ '') AS '' @ the (qp_measure p)], []))
      else Inr (plain_items e (if qp_select_fields p \<noteq> [] then qp_select_fields p
                               else [case time_field_of e of Some t \<Rightarrow> t | None \<Rightarrow> ''*''])))"

definition field_expression :: "semantic_entity \<Rightarrow> string \<Rightarrow> string" where
  "field_expression e n = (case entity_field e n of Some f \<Rightarrow> sf_expression f | None \<Rightarrow> n)"

definition filter_clause :: "semantic_entity \<Rightarrow> query_filter \<Rightarrow> (string \<times> pyval list) list" where
  "filter_clause e item =
     (let expr = field_expression e (qf_field item); op = py_upper (qf_operator item) in
      if op = ''IN'' then
        (case (case qf_value item of PList vs \<Rightarrow> vs | v \<Rightarrow> [v]) of
           [] \<Rightarrow> []
         | vs \<Rightarrow> [(expr @ '' IN ('' @ join '', '' (replicate (length vs) ''%s'') @ '')'', vs)])
      else [(expr @ '' '' @ op @ '' %s'', [qf_value item])])"

definition interval_unit :: "string \<Rightarrow> string" where
  "interval_unit u = (if ends_with u ''s'' then butlast u else u)"

definition window_clause :: "semantic_entity \<Rightarrow> time_window option \<Rightarrow> (string \<times> pyval list) list" where
  "window_clause e w =
     (case (w, time_field_of e) of
        (Some t, Some tf) \<Rightarrow>
          (if tw_kind t = ''relative''
           then [(tf @ '' >= NOW() - (%s * INTERVAL '' @ [CHR 0x27] @ ''1 '' @ interval_unit (tw_unit t) @ [CHR 0x27] @ '')'',
                  [PInt (tw_count t)])]
           else [])
      | _ \<Rightarrow> [])"

definition order_part :: "semantic_entity \<Rightarrow> query_order \<Rightarrow> string" where
  "order_part e q = field_expression e (qo_field q) @ '' '' @ (if py_lower (qo_direction q) = ''desc'' then ''DESC'' else ''ASC'')"

definition clause_line :: "string \<Rightarrow> string \<Rightarrow> string list \<Rightarrow> string list" where
  "clause_line keyword sep parts = (if parts = [] then [] else [keyword @ join sep parts])"

definition compile_query_plan :: "semantic_model \<Rightarrow> query_plan \<Rightarrow> plan_error + compiled_query" where
  "compile_query_plan m p =
     (case (case find_entity m (qp_entity p) of Some e \<Rightarrow> Some e | None \<Rightarrow> find_entity m (qp_table p)) of
        None \<Rightarrow> Inl (UnknownEntity (qp_entity p))
      | Some e \<Rightarrow>
          res_bind (select_parts e p) (\<lambda>(parts, warnings).
            (let wheres = window_clause e (qp_time_window p) @ concat (map (filter_clause e) (qp_filters p));
                 sql = [''SELECT '' @ (if parts \<noteq> [] then join '', '' parts else ''*''), ''FROM '' @ se_table e]
                   @ clause_line ''WHERE '' '' AND '' (map fst wheres)
                   @ clause_line ''GROUP BY '' '', '' (group_items e sf_expression (qp_group_by p))
                   @ clause_line ''ORDER BY '' '', '' (map (order_part e) (qp_order_by p))
                   @ (if 0 < qp_limit p then [''LIMIT %s''] else [])
             in Inr \<lparr>cq_sql = join [CHR 0x0A] sql,
                  cq_params = concat (map snd wheres) @ (if 0 < qp_limit p then [PInt (qp_limit p)] else []),
                  cq_entity = se_name e, cq_warnings = warnings\<rparr>)))"

section \<open>The check of the text\<close>

definition DISALLOWED_KEYWORDS :: "string list" where
  "DISALLOWED_KEYWORDS = [''insert'', ''update'', ''delete'', ''drop'', ''alter'', ''truncate'', ''grant'', ''revoke'',
     ''create'', ''call'', ''copy'', ''do'', ''vacuum'']"

definition word_char :: "char \<Rightarrow> bool" where
  "word_char c = (CHR ''a'' \<le> c \<and> c \<le> CHR ''z'' \<or> CHR ''A'' \<le> c \<and> c \<le> CHR ''Z'' \<or> CHR ''0'' \<le> c \<and> c \<le> CHR ''9'' \<or> c = CHR ''_'')"

text \<open>A keyword between word boundaries is a whole run of word characters.\<close>

definition sql_words :: "string \<Rightarrow> string list" where
  "sql_words s = runs word_char s"

definition normalized_sql :: "string \<Rightarrow> string" where
  "normalized_sql sql = join '' '' (py_words (py_strip sql))"

definition rstrip_semicolons :: "string \<Rightarrow> string" where
  "rstrip_semicolons s = rev (dropWhile (\<lambda>c. c = CHR '';'') (rev s))"

definition validate_readonly_sql :: "string \<Rightarrow> string + unit" where
  "validate_readonly_sql sql =
     (let candidate = normalized_sql sql; lowered = py_lower candidate in
      if lowered = [] then Inl ''empty sql''
      else if CHR '';'' \<in> set (rstrip_semicolons candidate) then Inl ''multiple statements are not allowed''
      else if \<not> (starts_with lowered ''select'' \<or> starts_with lowered ''with'') then Inl ''only select statements are allowed''
      else (case find (\<lambda>k. k \<in> set (sql_words lowered)) DISALLOWED_KEYWORDS of
              Some k \<Rightarrow> Inl (''disallowed keyword: '' @ k) | None \<Rightarrow> Inr ()))"

definition compile_readonly_sql :: "semantic_model \<Rightarrow> query_plan \<Rightarrow> plan_error + compiled_query" where
  "compile_readonly_sql m p =
     res_bind (compile_query_plan m p) (\<lambda>c. case validate_readonly_sql (cq_sql c) of
        Inl reason \<Rightarrow> Inl (UnsafeSql reason) | Inr _ \<Rightarrow> Inr c)"

section \<open>Placeholders\<close>

definition marks :: "string \<Rightarrow> nat" where
  "marks s = count_list s (CHR ''%'')"

lemma marks_simps [simp]: "marks (s @ t) = marks s + marks t" "marks [] = 0"
  by (simp_all add: marks_def)

lemma marks_Cons: "marks (c # s) = (if c = CHR ''%'' then 1 else 0) + marks s"
  by (simp add: marks_def)

lemma marks_join: "marks sep = 0 \<Longrightarrow> marks (join sep ws) = sum_list (map marks ws)"
  by (induction sep ws rule: join.induct) simp_all

lemma upper_mark: "upper_char c = CHR ''%'' \<longleftrightarrow> c = CHR ''%''"
proof (cases "97 \<le> (of_char c :: nat) \<and> (of_char c :: nat) \<le> 122")
  case True
  then have u: "upper_char c = char_of (of_char c - 32 :: nat)" by (simp add: upper_char_def)
  have "of_char c - 32 < (256 :: nat)" using True by linarith
  then have "of_char (upper_char c) = (of_char c - 32 :: nat)" by (simp add: u)
  moreover have "of_char c - 32 \<noteq> (37 :: nat)" using True by arith
  ultimately have "of_char (upper_char c) \<noteq> (37 :: nat)" by simp
  moreover have "of_char c \<noteq> (37 :: nat)" using True by simp
  ultimately show ?thesis by auto
next
  case False
  then have "upper_char c = c" unfolding upper_char_def Let_def by (rule if_not_P)
  then show ?thesis by simp
qed

definition plain :: "string \<Rightarrow> bool" where
  "plain s = (marks s = 0)"

lemma plain_upper: "plain s \<Longrightarrow> marks (py_upper s) = 0"
  by (induction s) (simp_all add: plain_def py_upper_def marks_Cons upper_mark)

definition plain_entity :: "semantic_entity \<Rightarrow> bool" where
  "plain_entity e = (plain (se_table e) \<and> (\<forall>t. se_time_field e = Some t \<longrightarrow> plain t)
     \<and> (\<forall>f \<in> set (se_fields e). plain (sf_name f) \<and> plain (sf_expression f)))"

definition plain_plan :: "query_plan \<Rightarrow> bool" where
  "plain_plan p = ((\<forall>q \<in> set (qp_filters p). plain (qf_field q) \<and> plain (qf_operator q))
     \<and> (\<forall>q \<in> set (qp_order_by p). plain (qo_field q)) \<and> (\<forall>w. qp_time_window p = Some w \<longrightarrow> plain (tw_unit w)))"

lemma plain_field:
  assumes "plain_entity e" "entity_field e n = Some f"
  shows "plain (sf_name f)" "plain (sf_expression f)"
  using assms entity_fieldD [of e n f] by (auto simp: plain_entity_def)

lemma plain_time: "plain_entity e \<Longrightarrow> time_field_of e = Some t \<Longrightarrow> marks t = 0"
  by (auto simp: time_field_of_def plain_entity_def plain_def split: option.splits list.splits)

lemma plain_expression: "plain_entity e \<Longrightarrow> plain n \<Longrightarrow> marks (field_expression e n) = 0"
  using plain_field(2) [of e n] by (auto simp: field_expression_def plain_def split: option.split)

lemma marks_sep: "marks '', '' = 0" "marks '' AND '' = 0" "marks [CHR 0x0A] = 0"
  by (simp_all add: marks_Cons)

lemma marks_select: "plain_entity e \<Longrightarrow> entity_field e n = Some f \<Longrightarrow> marks (select_item f) = 0"
  using plain_field [of e n f] by (simp add: select_item_def plain_def marks_Cons)

lemma sum_zero: "(\<And>x. x \<in> set xs \<Longrightarrow> marks x = 0) \<Longrightarrow> sum_list (map marks xs) = 0"
  by (induction xs) simp_all

lemma marks_group:
  "plain_entity e \<Longrightarrow> (\<And>n f. entity_field e n = Some f \<Longrightarrow> marks (show f) = 0)
     \<Longrightarrow> sum_list (map marks (group_items e show ns)) = 0"
  by (rule sum_zero) (auto simp: group_items_def split: option.splits)

lemma marks_plain_items: "plain_entity e \<Longrightarrow> sum_list (map marks (fst (plain_items e ns))) = 0"
  by (rule sum_zero) (auto simp: plain_items_def marks_select marks_Cons split: if_splits option.splits)

lemma marks_aggregate: "m \<in> {''avg'', ''max'', ''min'', ''sum''} \<Longrightarrow> marks (aggregate_name m) = 0 \<and> marks m = 0"
  using plain_upper [of m] by (auto simp: aggregate_name_def plain_def marks_Cons)

lemma marks_parts:
  assumes "plain_entity e" "select_parts e p = Inr (parts, w)"
  shows "sum_list (map marks parts) = 0"
proof -
  have g: "sum_list (map marks (group_items e select_item (qp_group_by p))) = 0"
    by (rule marks_group [OF assms(1) marks_select [OF assms(1)]])
  consider "qp_measure p = Some ''count''" | m where "qp_measure p = Some m" "m \<in> {''avg'', ''max'', ''min'', ''sum''}"
    | "qp_measure p \<notin> {Some ''count'', Some ''avg'', Some ''max'', Some ''min'', Some ''sum''}" by blast
  then show ?thesis
  proof cases
    case 1
    then show ?thesis using assms(2) g by (auto simp: select_parts_def marks_Cons)
  next
    case (2 m)
    then have nc: "qp_measure p \<noteq> Some ''count''" "qp_measure p \<in> {Some ''avg'', Some ''max'', Some ''min'', Some ''sum''}" by auto
    obtain f where f: "entity_field e ''value'' = Some f"
        and "parts = group_items e select_item (qp_group_by p) @ [aggregate_name m @ ''('' @ sf_expression f @ '') AS '' @ m]"
      using assms(2) nc 2(1) by (auto simp: select_parts_def split: option.splits)
    then show ?thesis
      using g marks_aggregate [OF 2(2)] plain_field(2) [OF assms(1) f] by (simp add: plain_def marks_Cons)
  next
    case 3
    then have "select_parts e p = Inr (plain_items e (if qp_select_fields p \<noteq> [] then qp_select_fields p
        else [case time_field_of e of Some t \<Rightarrow> t | None \<Rightarrow> ''*'']))"
      by (simp add: select_parts_def)
    then show ?thesis using assms(2) marks_plain_items [OF assms(1)] by (metis fst_conv sum.inject(2))
  qed
qed

text \<open>A clause carries as many placeholders as parameters.\<close>

definition aligned :: "string \<times> pyval list \<Rightarrow> bool" where
  "aligned c = (marks (fst c) = length (snd c))"

lemma marks_placeholders: "marks (join '', '' (replicate n ''%s'')) = n"
  by (induction n) (simp_all add: marks_join [OF marks_sep(1)] marks_Cons)

lemma marks_placeholders1: "marks (join '', '' (''%s'' # replicate n ''%s'')) = Suc n"
  using marks_placeholders [of "Suc n"] by simp

lemma filter_aligned:
  assumes "plain_entity e" "plain (qf_field q)" "plain (qf_operator q)" "c \<in> set (filter_clause e q)"
  shows "aligned c"
proof (cases "py_upper (qf_operator q) = ''IN''")
  case True
  then show ?thesis
    using assms plain_expression [OF assms(1,2)] marks_placeholders1
    by (auto simp: filter_clause_def Let_def aligned_def marks_Cons split: list.splits pyval.splits)
next
  case False
  then have "c = (field_expression e (qf_field q) @ '' '' @ py_upper (qf_operator q) @ '' %s'', [qf_value q])"
    using assms(4) by (simp add: filter_clause_def Let_def)
  then show ?thesis
    using plain_expression [OF assms(1,2)] plain_upper [OF assms(3)] by (simp add: aligned_def marks_Cons)
qed

lemma window_aligned:
  assumes "plain_entity e" "\<forall>t. w = Some t \<longrightarrow> plain (tw_unit t)" "c \<in> set (window_clause e w)"
  shows "aligned c"
proof -
  obtain t tf where t: "w = Some t" "time_field_of e = Some tf"
    and c: "c = (tf @ '' >= NOW() - (%s * INTERVAL '' @ [CHR 0x27] @ ''1 '' @ interval_unit (tw_unit t) @ [CHR 0x27] @ '')'', [PInt (tw_count t)])"
    using assms(3) by (cases w; cases "time_field_of e") (auto simp: window_clause_def split: if_splits)
  have "marks (butlast u) = 0" if "marks u = 0" for u :: string
    using that by (induction u) (auto simp: marks_Cons split: if_splits)
  then have "marks (interval_unit (tw_unit t)) = 0" using assms(2) t(1) by (simp add: interval_unit_def plain_def)
  then show ?thesis using plain_time [OF assms(1) t(2)] by (simp add: c aligned_def marks_Cons)
qed

lemma marks_clause: "marks keyword = 0 \<Longrightarrow> marks sep = 0
    \<Longrightarrow> sum_list (map marks (clause_line keyword sep parts)) = sum_list (map marks parts)"
  by (simp add: clause_line_def marks_join)

lemma aligned_sum: "\<forall>c \<in> set cs. aligned c \<Longrightarrow> sum_list (map marks (map fst cs)) = length (concat (map snd cs))"
  by (induction cs) (simp_all add: aligned_def)

text \<open>Values never become text: if the identifiers of the model and of the plan hold no percent sign,
  the SQL of a compiled plan has exactly as many placeholders as parameters, whatever the values are (an \<open>IN\<close> over any
  list, an empty one included, a window, a limit).\<close>

theorem placeholders_match_params:
  assumes "compile_query_plan m p = Inr c" "\<forall>e \<in> set (sm_entities m). plain_entity e" "plain_plan p"
  shows "count_list (cq_sql c) (CHR ''%'') = length (cq_params c)"
proof -
  obtain e where e: "(case find_entity m (qp_entity p) of Some e \<Rightarrow> Some e | None \<Rightarrow> find_entity m (qp_table p)) = Some e"
    using assms(1) by (auto simp: compile_query_plan_def split: option.splits)
  then have "e \<in> set (sm_entities m)" by (auto split: option.splits intro: find_entity_mem)
  then have pe: "plain_entity e" using assms(2) by blast
  obtain parts w where sp: "select_parts e p = Inr (parts, w)"
    using assms(1) e by (auto simp: compile_query_plan_def)
  define wheres where "wheres = window_clause e (qp_time_window p) @ concat (map (filter_clause e) (qp_filters p))"
  have al: "\<forall>c \<in> set wheres. aligned c"
    using filter_aligned [OF pe] window_aligned [OF pe, of "qp_time_window p"] assms(3)
    by (auto simp: wheres_def plain_plan_def)
  have grp: "sum_list (map marks (group_items e sf_expression (qp_group_by p))) = 0"
    by (rule marks_group [OF pe]) (use plain_field(2) [OF pe] in \<open>simp add: plain_def\<close>)
  have ord: "sum_list (map marks (map (order_part e) (qp_order_by p))) = 0"
    by (rule sum_zero) (use plain_expression [OF pe] assms(3) in \<open>auto simp: order_part_def plain_plan_def marks_Cons\<close>)
  have sel: "marks (join '', '' parts) = 0"
    using marks_parts [OF pe sp] by (simp add: marks_join [OF marks_sep(1)])
  have tab: "marks (se_table e) = 0" using pe by (simp add: plain_entity_def plain_def)
  have c: "cq_sql c = join [CHR 0x0A] ([''SELECT '' @ (if parts \<noteq> [] then join '', '' parts else ''*''), ''FROM '' @ se_table e]
        @ clause_line ''WHERE '' '' AND '' (map fst wheres)
        @ clause_line ''GROUP BY '' '', '' (group_items e sf_expression (qp_group_by p))
        @ clause_line ''ORDER BY '' '', '' (map (order_part e) (qp_order_by p))
        @ (if 0 < qp_limit p then [''LIMIT %s''] else []))"
      "cq_params c = concat (map snd wheres) @ (if 0 < qp_limit p then [PInt (qp_limit p)] else [])"
    using assms(1) e sp by (auto simp: compile_query_plan_def Let_def wheres_def)
  have kw: "marks ''WHERE '' = 0" "marks ''GROUP BY '' = 0" "marks ''ORDER BY '' = 0" "marks ''SELECT '' = 0"
      "marks ''FROM '' = 0" "marks ''LIMIT %s'' = 1"
    by (simp_all add: marks_Cons)
  have "marks (cq_sql c) = sum_list (map marks (map fst wheres)) + (if 0 < qp_limit p then 1 else 0)"
    unfolding c(1) marks_join [OF marks_sep(3)]
    by (simp only: map_append list.map sum_list_append sum_list.Cons sum_list.Nil marks_clause kw marks_sep
        marks_simps(1) tab grp ord if_distrib) (simp add: marks_Cons sel tab)
  then have "marks (cq_sql c) = length (cq_params c)" unfolding c(2) using aligned_sum [OF al] by simp
  then show ?thesis by (simp add: marks_def)
qed

definition demo_plan :: query_plan where
  "demo_plan = \<lparr>qp_intent = [], qp_entity = ''processed_events'', qp_table = ''processed_events'', qp_ontology_pack = [],
     qp_measure = Some ''count'', qp_select_fields = [''count''],
     qp_filters = [\<lparr>qf_field = ''severity'', qf_operator = ''in'', qf_value = PList [PStr ''100%'', PStr ''%s'']\<rparr>],
     qp_group_by = [''tag''], qp_order_by = [], qp_limit = 5,
     qp_time_window = Some \<lparr>tw_kind = ''relative'', tw_count = 6, tw_unit = ''hours'', tw_anchor = None\<rparr>,
     qp_search_terms = [], qp_notes = []\<rparr>"

lemma default_plain: "\<forall>e \<in> set (sm_entities default_model). plain_entity e"
  by (simp add: default_model_def default_entities_def entity_of_def dim_def measure_field_def plain_entity_def plain_def marks_Cons)

lemma demo_plain: "plain_plan demo_plan"
  by (simp add: demo_plan_def plain_plan_def plain_def marks_Cons)

theorem placeholders_match_params_witness:
  "\<exists>c. compile_query_plan default_model demo_plan = Inr c \<and> count_list (cq_sql c) (CHR ''%'') = 4"
proof -
  have ok: "is_ok (compile_query_plan default_model demo_plan)" by code_simp
  have len: "map_sum id (\<lambda>c. length (cq_params c)) (compile_query_plan default_model demo_plan) = Inr 4" by code_simp
  obtain c where c: "compile_query_plan default_model demo_plan = Inr c"
    using ok by (cases "compile_query_plan default_model demo_plan") (auto simp: is_ok_def)
  from len c have "length (cq_params c) = 4" by simp
  with placeholders_match_params [OF c default_plain demo_plain] c show ?thesis by simp
qed

section \<open>Built plans\<close>

lemma measure_cases:
  "fst (pick_measure ts) \<in> {None, Some ''count'', Some ''avg'', Some ''max'', Some ''min'', Some ''sum'', Some ''latest''}"
  by (simp add: pick_measure_def)

lemma first_prefix_mem: "first_prefix ps s = Some (p, r) \<Longrightarrow> p \<in> set ps"
  by (induction ps) (auto split: option.splits)

lemma window_units:
  assumes "fst (detect_time_window ts) = Some w"
  shows "tw_kind w = ''relative'' \<and> tw_unit w \<in> set WINDOW_UNITS \<and> 0 \<le> tw_count w"
proof -
  have "n \<in> set WINDOW_UNITS" if "window_at s = Some (k, n)" for s k n
    using that first_prefix_mem [of WINDOW_UNITS] by (auto simp: window_at_def Let_def split: option.splits prod.splits if_splits)
  then have u: "search_window s = Some (k, n) \<Longrightarrow> n \<in> set WINDOW_UNITS" for s k n
    by (induction s) (auto split: option.splits)
  show ?thesis
  proof (cases "search_window (join '' '' ts)")
    case None
    then show ?thesis using assms by (auto simp: detect_time_window_def WINDOW_UNITS_def split: if_splits)
  next
    case (Some kn)
    then obtain k n where "search_window (join '' '' ts) = Some (k, n)" by (cases kn) simp
    then show ?thesis using assms u by (auto simp: detect_time_window_def)
  qed
qed

lemma pick_entity_mem: "pick_entity m ts = Some e \<Longrightarrow> e \<in> set (sm_entities m)"
proof -
  have "pick_by_words m ts wn = Some e \<Longrightarrow> e \<in> set (sm_entities m)" for wn
    by (induction wn) (auto split: option.splits if_splits intro: find_entity_mem infer_entity_mem)
  then show "pick_entity m ts = Some e \<Longrightarrow> e \<in> set (sm_entities m)"
    by (simp add: pick_entity_def pick_entity_with_pack_def)
qed

lemma group_by_mem: "n \<in> set (pick_group_by e ts) \<Longrightarrow> \<exists>f \<in> set (se_fields e). sf_name f = n \<and> sf_kind f = ''dimension''"
  by (auto simp: pick_group_by_def)

text \<open>A plan that fits an entity: what the planner may produce for it.\<close>

definition plan_fits :: "semantic_entity \<Rightarrow> query_plan \<Rightarrow> bool" where
  "plan_fits e p = (qp_entity p = se_name e \<and> qp_table p = se_table e
     \<and> qp_measure p \<in> {None, Some ''count'', Some ''avg'', Some ''max'', Some ''min'', Some ''sum'', Some ''latest''}
     \<and> (\<forall>n \<in> set (qp_group_by p). \<exists>f \<in> set (se_fields e). sf_name f = n \<and> sf_kind f = ''dimension'')
     \<and> (\<forall>q \<in> set (qp_filters p). qf_field q = ''severity'' \<and> qf_operator q \<in> {''='', ''IN''})
     \<and> (\<forall>q \<in> set (qp_order_by p). Some (qo_field q) \<in> {qp_measure p, se_time_field e, Some ''time''} \<and> qo_direction q = ''desc'')
     \<and> (\<forall>w. qp_time_window p = Some w \<longrightarrow> tw_kind w = ''relative'' \<and> tw_unit w \<in> set WINDOW_UNITS \<and> 0 \<le> tw_count w))"

lemma order_fits:
  "q \<in> set (plan_order e msr) \<Longrightarrow> Some (qo_field q) \<in> {msr, se_time_field e, Some ''time''} \<and> qo_direction q = ''desc''"
  by (auto simp: plan_order_def time_field_of_def split: option.splits if_splits list.splits)

lemma build_fits:
  assumes "build_query_plan m query limit = Inr p"
  shows "\<exists>e \<in> set (sm_entities m). plan_fits e p \<and> qp_filters p = severity_filters (tokenize query)
    \<and> qp_order_by p = plan_order e (qp_measure p)"
proof -
  let ?ts = "tokenize query"
  obtain e where e: "pick_entity m ?ts = Some e"
    using assms by (auto simp: build_query_plan_def Let_def split: option.splits)
  have sel: "qp_entity p = se_name e" "qp_table p = se_table e" "qp_measure p = fst (pick_measure ?ts)"
      "qp_group_by p = pick_group_by e ?ts" "qp_filters p = severity_filters ?ts"
      "qp_order_by p = plan_order e (fst (pick_measure ?ts))" "qp_time_window p = fst (detect_time_window ?ts)"
    using assms e by (auto simp: build_query_plan_def Let_def case_prod_beta)
  have "plan_fits e p"
    unfolding plan_fits_def sel
    using measure_cases [of ?ts] group_by_mem [of _ e ?ts] order_fits [of _ e "fst (pick_measure ?ts)"]
      window_units [of ?ts]
    by (intro conjI) (auto simp: severity_filters_def split: if_splits)
  with pick_entity_mem [OF e] sel show ?thesis by (intro bexI [of _ e]) simp_all
qed

text \<open>The names the clauses of a plan refer to, apart from the alias of its measure, and those the entity has: its fields and
  the time column it names.\<close>

definition clause_names :: "query_plan \<Rightarrow> string list" where
  "clause_names p = map qf_field (qp_filters p) @ filter (\<lambda>n. qp_measure p \<noteq> Some n) (map qo_field (qp_order_by p))"

definition exposes :: "semantic_entity \<Rightarrow> string \<Rightarrow> bool" where
  "exposes e n = (entity_field e n \<noteq> None \<or> time_field_of e = Some n)"

lemma severity_names: "set (map qf_field (severity_filters ts)) = (if ''critical'' \<in> set ts \<or> ''warning'' \<in> set ts then {''severity''} else {})"
  by (simp add: severity_filters_def)

lemma order_names:
  "(\<exists>n \<in> set (map qo_field (plan_order e msr)). msr \<noteq> Some n \<and> \<not> exposes e n)
     \<longleftrightarrow> msr = Some ''latest'' \<and> time_field_of e = None \<and> \<not> exposes e ''time''"
  by (auto simp: plan_order_def exposes_def split: option.splits)

lemma unexposed_names:
  assumes "qp_filters p = severity_filters ts" "qp_order_by p = plan_order e (qp_measure p)"
  shows "(\<exists>n \<in> set (clause_names p). \<not> exposes e n)
    \<longleftrightarrow> qp_filters p \<noteq> [] \<and> \<not> exposes e ''severity''
      \<or> qp_measure p = Some ''latest'' \<and> time_field_of e = None \<and> \<not> exposes e ''time''"
proof -
  have f: "(\<exists>n \<in> set (map qf_field (qp_filters p)). \<not> exposes e n) \<longleftrightarrow> qp_filters p \<noteq> [] \<and> \<not> exposes e ''severity''"
    unfolding assms(1) severity_names by (simp add: severity_filters_def)
  have "(\<exists>n \<in> set (clause_names p). \<not> exposes e n) \<longleftrightarrow> (\<exists>n \<in> set (map qf_field (qp_filters p)). \<not> exposes e n)
      \<or> (\<exists>n \<in> set (map qo_field (plan_order e (qp_measure p))). qp_measure p \<noteq> Some n \<and> \<not> exposes e n)"
    unfolding clause_names_def assms(2) by auto
  then show ?thesis unfolding f order_names .
qed


lemma default_found: "list_all (\<lambda>e. find_entity default_model (se_name e) = Some e) (sm_entities default_model)"
  by code_simp

text \<open>The latest record of the assets, which have no time: the statement orders by a column \<open>time\<close> that the table does not have.\<close>

lemma latest_assets:
  "tokenize ''latest assets'' = [''latest'', ''assets'']"
  "fst (pick_measure [''latest'', ''assets'']) = Some ''latest''"
  "(case pick_entity default_model [''latest'', ''assets''] of
      Some e \<Rightarrow> se_name e = ''assets'' \<and> map qo_field (plan_order e (Some ''latest'')) = [''time''] \<and> \<not> exposes e ''time''
    | None \<Rightarrow> False)"
  by (code_simp, code_simp, code_simp)

definition demo_model :: semantic_model where
  "demo_model = \<lparr>sm_name = [], sm_version = [], sm_packs = [],
     sm_entities = [entity_of ''t'' ''p'' ''fact'' None [] [] 10], sm_notes = []\<rparr>"

lemma demo_built:
  "map_sum id (\<lambda>p. (qp_entity p, qp_measure p)) (build_query_plan demo_model ''avg'' (Some 10)) = Inr (''t'', Some ''avg'')"
  by code_simp


end
