(* ===== verification/Text_Chunks.thy ===== *)
theory Text_Chunks
  imports Py_Prelude
begin

text \<open>
  Splitting text into overlapping chunks (\<open>services/common/text_chunking.py\<close>).
\<close>

section \<open>Chunks\<close>

record text_chunk =
  tc_chunk_id :: string
  tc_source_id :: string
  tc_text :: string
  tc_index :: nat
  tc_start_token :: nat
  tc_end_token :: nat
  tc_metadata :: pydict

definition make_chunk :: "string \<Rightarrow> pydict \<Rightarrow> string list \<Rightarrow> nat \<Rightarrow> nat \<Rightarrow> nat \<Rightarrow> text_chunk" where
  "make_chunk source metadata tokens index start stop =
     \<lparr>tc_chunk_id = source @ ''#'' @ nat_str index, tc_source_id = source,
      tc_text = py_strip (join '' '' (drop start (take stop tokens))), tc_index = index,
      tc_start_token = start, tc_end_token = stop, tc_metadata = metadata\<rparr>"

text \<open>The loop, with the normalized sizes; a chunk whose text is empty is not appended.\<close>

function chunk_loop :: "string \<Rightarrow> pydict \<Rightarrow> string list \<Rightarrow> nat \<Rightarrow> nat \<Rightarrow> nat \<Rightarrow> nat \<Rightarrow> text_chunk list" where
  "chunk_loop source metadata tokens width step index start =
     (if start < length tokens then
        (let stop = min (length tokens) (start + width);
             c = make_chunk source metadata tokens index start stop
         in (if tc_text c = [] then [] else [c])
            @ (if length tokens \<le> stop then []
               else chunk_loop source metadata tokens width step (Suc index) (start + max 1 step)))
      else [])"
  by pat_completeness auto

termination chunk_loop
  by (relation "measure (\<lambda>(source, metadata, tokens, width, step, index, start). length tokens - start)") auto

declare chunk_loop.simps [simp del]

definition chunk_width :: "int \<Rightarrow> nat" where
  "chunk_width chunk_size = nat (max chunk_size 4)"

definition chunk_overlap :: "int \<Rightarrow> int \<Rightarrow> nat" where
  "chunk_overlap chunk_size overlap = nat (max 0 (min overlap (max chunk_size 4 - 1)))"

definition split_text_into_chunks :: "string \<Rightarrow> string \<Rightarrow> int \<Rightarrow> int \<Rightarrow> pydict option \<Rightarrow> text_chunk list" where
  "split_text_into_chunks text source chunk_size overlap metadata =
     (let tokens = py_words (py_strip text) in
      if tokens = [] then []
      else (let width = chunk_width chunk_size; step = max 1 (width - chunk_overlap chunk_size overlap)
            in chunk_loop source (case metadata of None \<Rightarrow> [] | Some m \<Rightarrow> m) tokens width step 0 0))"

definition chunk_documents ::
    "pyrt \<Rightarrow> string \<Rightarrow> string \<Rightarrow> int \<Rightarrow> int \<Rightarrow> pydict list \<Rightarrow> text_chunk list" where
  "chunk_documents R text_field source_field chunk_size overlap documents =
     concat (map (\<lambda>d. split_text_into_chunks
        (py_str R (dict_getd d text_field (PStr []))) (py_str R (dict_getd d source_field (PStr ''doc'')))
        chunk_size overlap (Some (filter (\<lambda>(k, v). k \<noteq> text_field) d))) documents)"

section \<open>The chunks in closed form\<close>

definition chunk_count :: "nat \<Rightarrow> nat \<Rightarrow> nat \<Rightarrow> nat" where
  "chunk_count n width step = (if n = 0 then 0 else Suc ((n - width + (step - 1)) div step))"

definition chunk_at :: "string \<Rightarrow> pydict \<Rightarrow> string list \<Rightarrow> nat \<Rightarrow> nat \<Rightarrow> nat \<Rightarrow> text_chunk" where
  "chunk_at source metadata tokens width step i =
     \<lparr>tc_chunk_id = source @ ''#'' @ nat_str i, tc_source_id = source,
      tc_text = join '' '' (take width (drop (i * step) tokens)), tc_index = i, tc_start_token = i * step,
      tc_end_token = min (length tokens) (i * step + width), tc_metadata = metadata\<rparr>"

text \<open>Words: non-empty and without spaces.\<close>

definition wordy :: "string list \<Rightarrow> bool" where
  "wordy ws \<longleftrightarrow> (\<forall>w \<in> set ws. w \<noteq> [] \<and> (\<forall>c \<in> set w. (Not \<circ> py_space) c))"

lemma wordy_words: "wordy (py_words s)"
  unfolding wordy_def py_words_def by (intro ballI runs_set)

lemma wordy_part: "wordy ws \<Longrightarrow> wordy (take n (drop m ws))"
  unfolding wordy_def by (meson in_set_dropD in_set_takeD)

lemma space_is_space: "\<not> (Not \<circ> py_space) CHR '' ''"
  by (simp add: py_space_def)

lemma words_join: "wordy ws \<Longrightarrow> py_words (join '' '' ws) = ws"
  unfolding py_words_def wordy_def by (rule runs_join [where P = "Not \<circ> py_space", OF space_is_space])

lemma join_ends:
  assumes "wordy ws" "ws \<noteq> []"
  shows "join '' '' ws \<noteq> [] \<and> \<not> py_space (hd (join '' '' ws)) \<and> \<not> py_space (last (join '' '' ws))"
  using assms
proof (induction "'' ''" ws rule: join.induct)
  case (2 x)
  then show ?case by (simp add: wordy_def)
next
  case (3 x y xs)
  then have "x \<noteq> []" "\<not> py_space (hd x)" "wordy (y # xs)" by (simp_all add: wordy_def)
  with 3 show ?case by simp
qed simp

lemma strip_join: "wordy ws \<Longrightarrow> py_strip (join '' '' ws) = join '' '' ws"
  by (cases "ws = []") (simp_all add: py_strip_def py_strip_Nil [unfolded py_strip_def] join_ends lstrip_fix rstrip_fix)

lemma make_chunk_at:
  assumes "wordy tokens"
  shows "make_chunk source metadata tokens i (i * step) (min (length tokens) (i * step + width))
    = chunk_at source metadata tokens width step i"
proof -
  have d: "drop (i * step) (take (min (length tokens) (i * step + width)) tokens) = take width (drop (i * step) tokens)"
    by (simp add: drop_take min_def)
  show ?thesis by (simp add: make_chunk_def chunk_at_def d strip_join wordy_part assms)
qed

lemma ceil_div: "0 < step \<Longrightarrow> (m + (step - 1)) div step \<le> i \<longleftrightarrow> m \<le> i * (step :: nat)"
  using div_less_iff_less_mult [of step "m + (step - 1)" "Suc i"] by (auto simp: less_Suc_eq_le)

lemma last_chunk_iff:
  assumes "0 < step" "0 < n" shows "n \<le> i * step + width \<longleftrightarrow> chunk_count n width step \<le> Suc i"
  using assms ceil_div [of step "n - width" i] by (auto simp: chunk_count_def)

lemma chunk_loop_closed:
  assumes "wordy tokens" "0 < step" "step \<le> width" "i * step < length tokens"
  shows "chunk_loop source metadata tokens width step i (i * step)
    = map (chunk_at source metadata tokens width step) [i..<max (Suc i) (chunk_count (length tokens) width step)]"
  using assms(4)
proof (induction "length tokens - i * step" arbitrary: i rule: less_induct)
  case less
  let ?n = "length tokens" and ?c = "chunk_at source metadata tokens width step i"
  have n: "0 < ?n" using less.prems by (rule le_less_trans [OF le0])
  have ne: "tc_text ?c \<noteq> []"
    using join_ends [OF wordy_part [OF assms(1)]] less.prems assms(2,3) by (simp add: chunk_at_def)
  have mk: "make_chunk source metadata tokens i (i * step) (min ?n (i * step + width)) = ?c"
    by (rule make_chunk_at [OF assms(1)])
  have stop: "?n \<le> min ?n (i * step + width) \<longleftrightarrow> ?n \<le> i * step + width" by simp
  have next_start: "i * step + max 1 step = Suc i * step" using assms(2) by simp
  have unf: "chunk_loop source metadata tokens width step i (i * step)
      = ?c # (if ?n \<le> i * step + width then []
              else chunk_loop source metadata tokens width step (Suc i) (Suc i * step))"
    unfolding chunk_loop.simps [of source metadata tokens width step i "i * step"] Let_def mk stop next_start
    using less.prems ne by simp
  show ?case
  proof (cases "?n \<le> i * step + width")
    case True
    then have "chunk_count ?n width step \<le> Suc i" using last_chunk_iff [OF assms(2) n] by blast
    with True unf show ?thesis by (simp add: max_def)
  next
    case False
    then have more: "Suc (Suc i) \<le> chunk_count ?n width step"
      using last_chunk_iff [OF assms(2) n, of i width] by simp
    have lt: "Suc i * step < ?n" using False assms(3) by simp
    have "chunk_loop source metadata tokens width step (Suc i) (Suc i * step)
        = map (chunk_at source metadata tokens width step) [Suc i..<max (Suc (Suc i)) (chunk_count ?n width step)]"
      by (rule less.hyps [OF _ lt]) (use less.prems assms(2) in simp)
    with False more unf show ?thesis by (simp add: max_def upt_conv_Cons)
  qed
qed

lemma width_step: "0 < chunk_width a" "chunk_overlap a b < chunk_width a"
    "max 1 (chunk_width a - chunk_overlap a b) = chunk_width a - chunk_overlap a b"
proof -
  show p: "0 < chunk_width a" by (simp add: chunk_width_def max_def)
  show l: "chunk_overlap a b < chunk_width a" by (simp add: chunk_overlap_def chunk_width_def max_def min_def)
  show "max 1 (chunk_width a - chunk_overlap a b) = chunk_width a - chunk_overlap a b" using l by simp
qed

lemma split_closed:
  "split_text_into_chunks text source chunk_size overlap (Some md) =
     (let tokens = py_words (py_strip text); width = chunk_width chunk_size; step = width - chunk_overlap chunk_size overlap
      in map (chunk_at source md tokens width step) [0..<chunk_count (length tokens) width step])"
proof -
  let ?t = "py_words (py_strip text)" and ?w = "chunk_width chunk_size"
  let ?s = "?w - chunk_overlap chunk_size overlap"
  show ?thesis
  proof (cases "?t = []")
    case True then show ?thesis by (simp add: split_text_into_chunks_def chunk_count_def)
  next
    case False
    have "chunk_loop source md ?t ?w ?s 0 (0 * ?s)
        = map (chunk_at source md ?t ?w ?s) [0..<max (Suc 0) (chunk_count (length ?t) ?w ?s)]"
      by (rule chunk_loop_closed [OF wordy_words]) (use width_step(2) [of chunk_size overlap] False in simp_all)
    moreover have "max (Suc 0) (chunk_count (length ?t) ?w ?s) = chunk_count (length ?t) ?w ?s"
      using False by (simp add: chunk_count_def)
    ultimately show ?thesis
      using False by (simp add: split_text_into_chunks_def Let_def width_step(3) [simplified])
  qed
qed

section \<open>Properties\<close>

lemma take_overlap:
  assumes "overlap < width"
  shows "take (k * (width - overlap) + width) ts @ drop overlap (take width (drop (Suc k * (width - overlap)) ts))
    = take (Suc k * (width - overlap) + width) ts"
proof -
  let ?a = "k * (width - overlap) + width" and ?s = "width - overlap"
  have "drop overlap (take width (drop (Suc k * ?s) ts)) = take ?s (drop (overlap + Suc k * ?s) ts)"
    by (simp add: drop_take add.commute)
  also have "overlap + Suc k * ?s = ?a" using assms by simp
  finally have "take ?a ts @ drop overlap (take width (drop (Suc k * ?s) ts)) = take (?a + ?s) ts"
    by (simp add: take_add)
  also have "?a + ?s = Suc k * ?s + width" by simp
  finally show ?thesis .
qed

lemma fresh_words:
  assumes "overlap < width"
  shows "concat (map (\<lambda>i. drop (if i = 0 then 0 else overlap) (take width (drop (i * (width - overlap)) ts))) [0..<Suc k])
    = take (k * (width - overlap) + width) ts"
proof (induction k)
  case (Suc k)
  let ?f = "\<lambda>i. drop (if i = 0 then 0 else overlap) (take width (drop (i * (width - overlap)) ts))"
  have "concat (map ?f [0..<Suc (Suc k)]) = concat (map ?f [0..<Suc k]) @ ?f (Suc k)"
    unfolding upt_Suc_append [OF le0, of "Suc k"] by simp
  also have "\<dots> = take (k * (width - overlap) + width) ts @ ?f (Suc k)" unfolding Suc.IH by (rule refl)
  also have "\<dots> = take (Suc k * (width - overlap) + width) ts" using take_overlap [OF assms, of k ts] by simp
  finally show ?case .
qed simp

lemma count_covers: "0 < step \<Longrightarrow> n \<le> (chunk_count n width step - 1) * step + width"
  using last_chunk_iff [of step n "chunk_count n width step - 1" width] by (cases n) (simp_all add: chunk_count_def)

text \<open>Chunking loses no text and repeats exactly the overlap: the words of the chunks, the
  first chunk whole and every later one without its first \<open>overlap\<close> words (the normalized overlap), are
  the words of the text in order.\<close>

theorem chunks_rebuild_text:
  "concat (map (\<lambda>c. drop (if tc_index c = 0 then 0 else chunk_overlap chunk_size overlap) (py_words (tc_text c)))
     (split_text_into_chunks text source chunk_size overlap (Some md))) = py_words (py_strip text)"
proof -
  let ?t = "py_words (py_strip text)" and ?w = "chunk_width chunk_size" and ?o = "chunk_overlap chunk_size overlap"
  let ?n = "chunk_count (length ?t) ?w (?w - ?o)"
  have o: "?o < ?w" by (rule width_step)
  have words: "py_words (tc_text (chunk_at source md ?t ?w (?w - ?o) i)) = take ?w (drop (i * (?w - ?o)) ?t)" for i
    by (simp add: chunk_at_def words_join [OF wordy_part [OF wordy_words]])
  have idx: "tc_index (chunk_at source md ?t ?w (?w - ?o) i) = i" for i by (simp add: chunk_at_def)
  show ?thesis
  proof (cases "?t = []")
    case True then show ?thesis by (simp add: split_text_into_chunks_def)
  next
    case False
    then obtain k where k: "?n = Suc k" by (auto simp: chunk_count_def)
    have "length ?t \<le> k * (?w - ?o) + ?w" using count_covers [of "?w - ?o" "length ?t" ?w] o k by simp
    then show ?thesis
      using fresh_words [OF o, of ?t k] by (simp add: split_closed Let_def k words idx comp_def del: upt_Suc)
  qed
qed

text \<open>Chunks are bounded and progress: every chunk is non-empty, lies inside the text, holds at
  most \<open>max(chunk_size, 4)\<close> words, the identifiers are distinct, and there are at most as many chunks as words,
  for any integers as sizes.\<close>

theorem chunk_bounds:
  "distinct (map tc_chunk_id (split_text_into_chunks text source chunk_size overlap (Some md)))
   \<and> length (split_text_into_chunks text source chunk_size overlap (Some md)) \<le> length (py_words (py_strip text))
   \<and> (\<forall>c \<in> set (split_text_into_chunks text source chunk_size overlap (Some md)).
        tc_start_token c < tc_end_token c \<and> tc_end_token c \<le> length (py_words (py_strip text))
        \<and> int (tc_end_token c - tc_start_token c) \<le> max chunk_size 4)"
proof -
  let ?t = "py_words (py_strip text)" and ?w = "chunk_width chunk_size" and ?o = "chunk_overlap chunk_size overlap"
  let ?s = "?w - ?o" and ?n = "length ?t"
  have s: "0 < ?s" "?s \<le> ?w" using width_step(2) [of chunk_size overlap] by simp_all
  have w: "int ?w = max chunk_size 4" by (simp add: chunk_width_def max_def)
  have start: "i * ?s < ?n" if "i < chunk_count ?n ?w ?s" for i
  proof (cases i)
    case 0 then show ?thesis using that by (auto simp: chunk_count_def split: if_splits)
  next
    case (Suc j)
    then have "\<not> ?n \<le> j * ?s + ?w" using that last_chunk_iff [OF s(1), of ?n j ?w] by (auto simp: chunk_count_def split: if_splits)
    then show ?thesis using Suc s(2) by simp
  qed
  have "chunk_count ?n ?w ?s \<le> ?n"
  proof (cases "chunk_count ?n ?w ?s")
    case (Suc j)
    then have "j * ?s < ?n" using start [of j] by simp
    then have "j < ?n" using s(1) by (metis le_less_trans mult.right_neutral mult_le_mono2 Suc_leI One_nat_def)
    then show ?thesis using Suc by simp
  qed simp
  moreover have "inj_on (\<lambda>i. tc_chunk_id (chunk_at source md ?t ?w ?s i)) A" for A
    by (rule inj_onI) (simp add: chunk_at_def)
  ultimately show ?thesis
    using start w s by (auto simp: split_closed Let_def distinct_map chunk_at_def comp_def inj_on_def)
qed

end
