(* ===== verification/Model_Lifecycle.thy ===== *)
theory Model_Lifecycle
  imports Py_Prelude
begin

text \<open>
  The model promotion ledger (\<open>services/common/model_lifecycle.py\<close>): model versions with their
  evaluations, the state transitions, activation, rollback and the history, and the snapshot on
  disk. A record is the dictionary the source builds; the models are a dictionary by id in insertion
  order. The readings of the clock within one operation are one text \<open>now\<close>; an operation returns
  the ledger it leaves and the record or the raised exception, because a failing write of the
  snapshot raises after the ledger changed.
\<close>

section \<open>Records\<close>

definition MODEL_STATES :: "string list" where
  "MODEL_STATES = [''candidate'', ''evaluated'', ''approved'', ''active'', ''rejected'', ''retired'']"

definition ALLOWED_TRANSITIONS :: "(string \<times> string list) list" where
  "ALLOWED_TRANSITIONS =
     [(''candidate'', [''evaluated'', ''rejected'']),
      (''evaluated'', [''candidate'', ''approved'', ''rejected'']),
      (''approved'', [''active'', ''rejected'']),
      (''active'', [''retired'']),
      (''rejected'', [''candidate'']),
      (''retired'', [''candidate''])]"

record evaluation =
  ev_id :: string
  ev_dataset :: string
  ev_metrics :: "(string \<times> rat) list"
  ev_passed :: bool
  ev_evaluator :: string
  ev_notes :: string
  ev_created :: string

record model_version =
  mv_id :: string
  mv_name :: string
  mv_version :: string
  mv_provider :: string
  mv_type :: string
  mv_artifact :: string
  mv_dataset :: string
  mv_manifest :: string
  mv_site :: string
  mv_state :: string
  mv_metadata :: pydict
  mv_evaluations :: "evaluation list"
  mv_created :: string
  mv_updated :: string

record ledger_entry =
  le_model :: string
  le_action :: string
  le_state :: string
  le_related :: string
  le_actor :: string
  le_created :: string

record lifecycle =
  lc_models :: "(string \<times> model_version) list"
  lc_history :: "ledger_entry list"
  lc_path :: bool                                              \<comment> \<open>a state path is configured\<close>
  lc_disk :: "(model_version list \<times> ledger_entry list) option"   \<comment> \<open>the state file\<close>

type_synonym lc_result = "lifecycle \<times> (string + model_version)"

section \<open>Operations\<close>

definition record_history :: "string \<Rightarrow> string \<Rightarrow> string \<Rightarrow> string \<Rightarrow> string \<Rightarrow> string \<Rightarrow> lifecycle \<Rightarrow> lifecycle" where
  "record_history now mid action state related actor s =
     s\<lparr>lc_history := lc_history s @
        [\<lparr>le_model = mid, le_action = action, le_state = state, le_related = related, le_actor = actor,
          le_created = now\<rparr>]\<rparr>"

definition persist_ledger :: "bool \<Rightarrow> lifecycle \<Rightarrow> lifecycle \<times> string option" where
  "persist_ledger ok s =
     (if \<not> lc_path s then (s, None)
      else if ok then (s\<lparr>lc_disk := Some (map snd (lc_models s), lc_history s)\<rparr>, None)
      else (s, Some ''OSError''))"

definition load_ledger :: "lifecycle \<Rightarrow> lifecycle" where
  "load_ledger s =
     (case (if lc_path s then lc_disk s else None) of
        None \<Rightarrow> s\<lparr>lc_models := [], lc_history := []\<rparr>
      | Some (ms, hs) \<Rightarrow>
          s\<lparr>lc_models := foldl (\<lambda>d m. dict_set d (mv_id m) m) [] ms, lc_history := hs\<rparr>)"

text \<open>Writing a changed record and returning it: \<open>finish_call\<close> persists and yields the record.\<close>

definition finish_call :: "bool \<Rightarrow> string \<Rightarrow> lifecycle \<Rightarrow> lc_result" where
  "finish_call ok mid s =
     (case persist_ledger ok s of
        (s1, Some e) \<Rightarrow> (s1, Inl e)
      | (s1, None) \<Rightarrow>
          (case map_of (lc_models s1) mid of None \<Rightarrow> (s1, Inl ''KeyError'') | Some m \<Rightarrow> (s1, Inr m)))"

definition require_model :: "lifecycle \<Rightarrow> string \<Rightarrow> string + model_version" where
  "require_model s mid =
     (case map_of (lc_models s) mid of None \<Rightarrow> Inl (''unknown model version: '' @ mid) | Some m \<Rightarrow> Inr m)"

definition put_model :: "model_version \<Rightarrow> lifecycle \<Rightarrow> lifecycle" where
  "put_model m s = s\<lparr>lc_models := dict_set (lc_models s) (mv_id m) m\<rparr>"

record registration =
  rg_name :: string
  rg_version :: string
  rg_provider :: string
  rg_type :: string
  rg_artifact :: string
  rg_dataset :: string
  rg_manifest :: string
  rg_site :: string
  rg_metadata :: pydict

definition model_id_of :: "string \<Rightarrow> string \<Rightarrow> string" where
  "model_id_of name version = name @ '':'' @ version"

definition register_model :: "string \<Rightarrow> bool \<Rightarrow> registration \<Rightarrow> lifecycle \<Rightarrow> lc_result" where
  "register_model now ok q s =
     (let name = py_strip (rg_name q); version = py_strip (rg_version q) in
      if name = [] \<or> version = [] \<or> py_strip (rg_provider q) = []
      then (s, Inl ''model_name, version, and provider are required'')
      else
        (let mid = model_id_of name version in
         case map_of (lc_models s) mid of
           Some existing \<Rightarrow>
             (if mv_state existing \<notin> {''candidate'', ''rejected'', ''retired''}
              then (s, Inl (''model version already exists in state '' @ mv_state existing @ '': '' @ mid))
              else (s, Inr existing))
         | None \<Rightarrow>
             finish_call ok mid
               (record_history now mid ''registered'' ''candidate'' [] ''system''
                 (put_model
                   \<lparr>mv_id = mid, mv_name = name, mv_version = version, mv_provider = rg_provider q, mv_type = rg_type q,
                    mv_artifact = rg_artifact q, mv_dataset = rg_dataset q, mv_manifest = rg_manifest q,
                    mv_site = rg_site q, mv_state = ''candidate'', mv_metadata = rg_metadata q, mv_evaluations = [],
                    mv_created = now, mv_updated = now\<rparr> s))))"

text \<open>\<open>float(value)\<close> of every metric, or the exception of one of them.\<close>

fun float_metrics :: "pyrt \<Rightarrow> (string \<times> pyval) list \<Rightarrow> (string \<times> rat) list option" where
  "float_metrics R [] = Some []"
| "float_metrics R ((k, v) # ms) =
     (case py_float R v of
        None \<Rightarrow> None
      | Some x \<Rightarrow> (case float_metrics R ms of None \<Rightarrow> None | Some xs \<Rightarrow> Some ((k, x) # xs)))"

definition evaluate_model ::
    "pyrt \<Rightarrow> string \<Rightarrow> bool \<Rightarrow> string \<Rightarrow> string \<Rightarrow> string \<Rightarrow> (string \<times> pyval) list \<Rightarrow> bool \<Rightarrow> string \<Rightarrow> string
     \<Rightarrow> lifecycle \<Rightarrow> lc_result" where
  "evaluate_model R now ok uuid mid dataset metrics passed evaluator notes s =
     (case require_model s mid of
        Inl e \<Rightarrow> (s, Inl e)
      | Inr m \<Rightarrow>
          (if mv_state m \<notin> {''candidate'', ''evaluated''}
           then (s, Inl (''model must be candidate or evaluated before evaluation: '' @ mid))
           else (case float_metrics R metrics of
                   None \<Rightarrow> (s, Inl ''ValueError'')
                 | Some xs \<Rightarrow>
                     finish_call ok mid
                       (record_history now mid ''evaluated'' ''evaluated'' uuid evaluator
                         (put_model
                           (m\<lparr>mv_evaluations := mv_evaluations m @
                                [\<lparr>ev_id = uuid, ev_dataset = dataset, ev_metrics = xs, ev_passed = passed,
                                  ev_evaluator = evaluator, ev_notes = notes, ev_created = now\<rparr>],
                              mv_state := ''evaluated'', mv_updated := now\<rparr>) s)))))"

definition same_slot :: "model_version \<Rightarrow> model_version \<Rightarrow> bool" where
  "same_slot a b \<longleftrightarrow> mv_name a = mv_name b \<and> mv_site a = mv_site b"

definition displaced :: "model_version \<Rightarrow> model_version \<Rightarrow> bool" where
  "displaced m other \<longleftrightarrow> same_slot other m \<and> mv_state other = ''active''"

definition retire_others :: "string \<Rightarrow> string \<Rightarrow> model_version \<Rightarrow> lifecycle \<Rightarrow> lifecycle" where
  "retire_others now actor m s =
     (let s1 = s\<lparr>lc_models := map (\<lambda>(k, r). (k, if displaced m r then r\<lparr>mv_state := ''retired'', mv_updated := now\<rparr> else r))
                   (lc_models s)\<rparr>
      in foldl (\<lambda>s r. record_history now (mv_id r) ''auto-retired-on-activation'' ''retired'' (mv_id m) actor s)
           s1 (filter (displaced m) (map snd (lc_models s))))"

definition transition_model ::
    "string \<Rightarrow> bool \<Rightarrow> string \<Rightarrow> string \<Rightarrow> string \<Rightarrow> string \<Rightarrow> lifecycle \<Rightarrow> lc_result" where
  "transition_model now ok mid target reason actor s =
     (if target \<notin> set MODEL_STATES then (s, Inl (''unsupported model state: '' @ target))
      else (case require_model s mid of
        Inl e \<Rightarrow> (s, Inl e)
      | Inr m \<Rightarrow>
          (if target = ''approved'' \<and> \<not> list_ex ev_passed (mv_evaluations m)
           then (s, Inl ''model requires a passing evaluation before approval'')
           else if target \<notin> set (dict_getd ALLOWED_TRANSITIONS (mv_state m) [])
           then (s, Inl (''invalid model transition: '' @ mv_state m @ '' -> '' @ target))
           else
             (let s1 = (if target = ''active'' then retire_others now actor m s else s)
              in finish_call ok mid
                   (record_history now mid reason target [] actor
                     (put_model (m\<lparr>mv_state := target, mv_updated := now\<rparr>) s1))))))"

text \<open>\<open>max(candidates, key=updated_at)\<close>: the first of the largest.\<close>

fun latest :: "model_version \<Rightarrow> model_version list \<Rightarrow> model_version" where
  "latest best [] = best"
| "latest best (m # ms) = latest (if mv_updated best < mv_updated m then m else best) ms"

definition rollback_candidates :: "lifecycle \<Rightarrow> model_version \<Rightarrow> model_version list" where
  "rollback_candidates s m =
     filter (\<lambda>r. same_slot r m \<and> mv_state r \<in> {''approved'', ''retired''} \<and> mv_id r \<noteq> mv_id m) (map snd (lc_models s))"

definition rollback_model :: "string \<Rightarrow> bool \<Rightarrow> string \<Rightarrow> string \<Rightarrow> string \<Rightarrow> lifecycle \<Rightarrow> lc_result" where
  "rollback_model now ok mid reason actor s =
     (case require_model s mid of
        Inl e \<Rightarrow> (s, Inl e)
      | Inr m \<Rightarrow>
          (if mv_state m \<noteq> ''active'' then (s, Inl ''only an active model can be rolled back'')
           else (case rollback_candidates s m of
                   [] \<Rightarrow> (s, Inl ''no approved or retired rollback target is available'')
                 | c # cs \<Rightarrow>
                     (let t = latest c cs
                      in finish_call ok (mv_id t)
                           (record_history now (mv_id t) ''rollback-target'' ''active'' mid actor
                             (record_history now mid reason ''retired'' (mv_id t) actor
                               (put_model (t\<lparr>mv_state := ''active'', mv_updated := now\<rparr>)
                                 (put_model (m\<lparr>mv_state := ''retired'', mv_updated := now\<rparr>) s))))))))"

definition get_model :: "lifecycle \<Rightarrow> string \<Rightarrow> model_version option" where
  "get_model s mid = map_of (lc_models s) mid"

definition list_models :: "lifecycle \<Rightarrow> string option \<Rightarrow> string option \<Rightarrow> model_version list" where
  "list_models s name site =
     sort_key mv_name (sort_key mv_version
       (filter (\<lambda>m. (case name of None \<Rightarrow> True | Some n \<Rightarrow> mv_name m = n)
                    \<and> (case site of None \<Rightarrow> True | Some n \<Rightarrow> mv_site m = n)) (map snd (lc_models s))))"

definition history_of :: "lifecycle \<Rightarrow> string option \<Rightarrow> ledger_entry list" where
  "history_of s mid = filter (\<lambda>h. case mid of None \<Rightarrow> True | Some i \<Rightarrow> le_model h = i) (lc_history s)"

text \<open>A sequence of calls; \<open>Restart\<close> is a new process that loads the state file.\<close>

datatype lc_op =
    Register registration
  | Evaluate string string "(string \<times> pyval) list" bool string string string
  | Transition string string string string
  | Rollback string string string
  | Restart

fun lc_call :: "pyrt \<Rightarrow> string \<Rightarrow> bool \<Rightarrow> lc_op \<Rightarrow> lifecycle \<Rightarrow> lc_result" where
  "lc_call R now ok (Register q) s = register_model now ok q s"
| "lc_call R now ok (Evaluate mid dataset metrics passed evaluator notes uuid) s =
     evaluate_model R now ok uuid mid dataset metrics passed evaluator notes s"
| "lc_call R now ok (Transition mid target reason actor) s = transition_model now ok mid target reason actor s"
| "lc_call R now ok (Rollback mid reason actor) s = rollback_model now ok mid reason actor s"
| "lc_call R now ok Restart s = (load_ledger s, Inl [])"

definition lc_apply :: "pyrt \<Rightarrow> string \<times> bool \<times> lc_op \<Rightarrow> lifecycle \<Rightarrow> lifecycle" where
  "lc_apply R x s = (case x of (now, ok, op) \<Rightarrow> fst (lc_call R now ok op s))"

definition lc_run :: "pyrt \<Rightarrow> (string \<times> bool \<times> lc_op) list \<Rightarrow> lifecycle \<Rightarrow> lifecycle" where
  "lc_run R ops s = foldl (\<lambda>s op. lc_apply R op s) s ops"

definition new_ledger :: "bool \<Rightarrow> lifecycle" where
  "new_ledger path = \<lparr>lc_models = [], lc_history = [], lc_path = path, lc_disk = None\<rparr>"

section \<open>The invariant\<close>

definition proven :: "model_version \<Rightarrow> bool" where
  "proven m = list_ex ev_passed (mv_evaluations m)"

definition model_ok :: "model_version \<Rightarrow> bool" where
  "model_ok m \<longleftrightarrow> mv_id m = model_id_of (mv_name m) (mv_version m) \<and> mv_state m \<in> set MODEL_STATES
     \<and> (mv_state m \<in> {''approved'', ''active'', ''retired''} \<longrightarrow> proven m)"

definition models_ok :: "(string \<times> model_version) list \<Rightarrow> bool" where
  "models_ok d \<longleftrightarrow> wf_dict d
     \<and> (\<forall>k m. map_of d k = Some m \<longrightarrow> k = mv_id m \<and> model_ok m)
     \<and> (\<forall>k m k' m'. map_of d k = Some m \<longrightarrow> map_of d k' = Some m' \<longrightarrow> mv_state m = ''active''
          \<longrightarrow> mv_state m' = ''active'' \<longrightarrow> same_slot m m' \<longrightarrow> k = k')"

definition ledger_inv :: "lifecycle \<Rightarrow> bool" where
  "ledger_inv s \<longleftrightarrow> models_ok (lc_models s)
     \<and> (case lc_disk s of None \<Rightarrow> True | Some (ms, _) \<Rightarrow> \<exists>d. models_ok d \<and> ms = map snd d)"

lemma models_okD:
  assumes "models_ok d"
  shows "wf_dict d" "map_of d k = Some m \<Longrightarrow> k = mv_id m" "map_of d k = Some m \<Longrightarrow> model_ok m"
    "map_of d k = Some m \<Longrightarrow> map_of d k' = Some m' \<Longrightarrow> mv_state m = ''active'' \<Longrightarrow> mv_state m' = ''active''
     \<Longrightarrow> same_slot m m' \<Longrightarrow> k = k'"
  using assms unfolding models_ok_def by blast+

lemma models_okI:
  assumes "wf_dict d" "\<And>k m. map_of d k = Some m \<Longrightarrow> k = mv_id m \<and> model_ok m"
    "\<And>k m k' m'. map_of d k = Some m \<Longrightarrow> map_of d k' = Some m' \<Longrightarrow> mv_state m = ''active'' \<Longrightarrow> mv_state m' = ''active''
     \<Longrightarrow> same_slot m m' \<Longrightarrow> k = k'"
  shows "models_ok d"
  using assms unfolding models_ok_def by blast

lemma inv_models: "ledger_inv s \<Longrightarrow> models_ok (lc_models s)"
  by (simp add: ledger_inv_def)

lemma inv_put_models: "ledger_inv s \<Longrightarrow> models_ok (lc_models s') \<Longrightarrow> lc_disk s' = lc_disk s \<Longrightarrow> ledger_inv s'"
  by (simp add: ledger_inv_def)

text \<open>Rebuilding the dictionary from the stored records gives it back.\<close>

lemma rebuild_append:
  "distinct (map fst (acc @ d)) \<Longrightarrow> (\<forall>(k, m) \<in> set d. k = mv_id m)
   \<Longrightarrow> foldl (\<lambda>d m. dict_set d (mv_id m) m) acc (map snd d) = acc @ d"
proof (induction d arbitrary: acc)
  case (Cons x d)
  obtain k m where x: "x = (k, m)" by fastforce
  from Cons.prems have k: "k = mv_id m" "k \<notin> set (map fst acc)" by (auto simp: x)
  have "dict_set acc k m = acc @ [(k, m)]" using k(2) by (induction acc) auto
  with Cons.IH [of "acc @ [(k, m)]"] Cons.prems k x show ?case by simp
qed simp

lemma rebuild: "models_ok d \<Longrightarrow> foldl (\<lambda>d m. dict_set d (mv_id m) m) [] (map snd d) = d"
proof -
  assume ok: "models_ok d"
  have "\<forall>(k, m) \<in> set d. k = mv_id m"
    using models_okD(1,2) [OF ok] by auto
  with rebuild_append [of "[]" d] models_okD(1) [OF ok] show ?thesis by simp
qed

lemma load_inv: "ledger_inv s \<Longrightarrow> ledger_inv (load_ledger s)"
proof -
  assume inv: "ledger_inv s"
  have "models_ok []" by (simp add: models_ok_def)
  then show ?thesis
    using inv by (auto simp: ledger_inv_def load_ledger_def rebuild split: option.splits)
qed

lemma persist_inv: "ledger_inv s \<Longrightarrow> persist_ledger ok s = (s', r) \<Longrightarrow> ledger_inv s' \<and> lc_models s' = lc_models s"
  by (auto simp: ledger_inv_def persist_ledger_def split: if_splits)

lemma finish_models: "lc_models (fst (finish_call ok mid s)) = lc_models s"
  by (simp add: finish_call_def persist_ledger_def split: option.split)

lemma finish_inv: "ledger_inv s \<Longrightarrow> ledger_inv (fst (finish_call ok mid s))"
proof -
  assume inv: "ledger_inv s"
  obtain s1 r where p: "persist_ledger ok s = (s1, r)" by fastforce
  with persist_inv [OF inv p] show ?thesis by (simp add: finish_call_def split: option.split)
qed

lemma finish_Inr: "snd (finish_call ok mid s) = Inr m \<Longrightarrow> map_of (lc_models s) mid = Some m"
  by (auto simp: finish_call_def persist_ledger_def split: option.splits if_splits)

lemma history_inv [simp]: "ledger_inv (record_history now mid a st rel act s) = ledger_inv s"
  by (simp add: ledger_inv_def record_history_def)

lemma history_models [simp]: "lc_models (record_history now mid a st rel act s) = lc_models s"
  by (simp add: record_history_def)

lemma history_fold [simp]:
  "lc_models (foldl (\<lambda>s r. record_history now (f r) a st rel act s) s rs) = lc_models s"
  "lc_disk (foldl (\<lambda>s r. record_history now (f r) a st rel act s) s rs) = lc_disk s"
  by (induction rs arbitrary: s) (simp_all add: record_history_def)

lemma put_models [simp]: "lc_models (put_model m s) = dict_set (lc_models s) (mv_id m) m"
  by (simp add: put_model_def)

lemma put_disk [simp]: "lc_disk (put_model m s) = lc_disk s"
  by (simp add: put_model_def)

text \<open>Storing a record: the slot stays single when the record is not active or its slot is free.\<close>

lemma put_inv:
  assumes "ledger_inv s" and "model_ok m"
    and "mv_state m = ''active'' \<Longrightarrow>
      (\<And>k r. map_of (lc_models s) k = Some r \<Longrightarrow> mv_state r = ''active'' \<Longrightarrow> same_slot r m \<Longrightarrow> k = mv_id m)"
  shows "ledger_inv (put_model m s)"
proof -
  have sym: "same_slot a b \<longleftrightarrow> same_slot b a" for a b by (auto simp: same_slot_def)
  note ok = inv_models [OF assms(1)]
  have "models_ok (dict_set (lc_models s) (mv_id m) m)"
  proof (rule models_okI)
    show "wf_dict (dict_set (lc_models s) (mv_id m) m)" using models_okD(1) [OF ok] by simp
  next
    fix k r
    assume "map_of (dict_set (lc_models s) (mv_id m) m) k = Some r"
    then show "k = mv_id r \<and> model_ok r"
      using models_okD(2,3) [OF ok, of k r] assms(2) by (cases "k = mv_id m") auto
  next
    fix k r k' r'
    assume a: "map_of (dict_set (lc_models s) (mv_id m) m) k = Some r"
      "map_of (dict_set (lc_models s) (mv_id m) m) k' = Some r'" "mv_state r = ''active''" "mv_state r' = ''active''"
      "same_slot r r'"
    show "k = k'"
    proof (cases "k = mv_id m"; cases "k' = mv_id m")
      assume "k \<noteq> mv_id m" "k' \<noteq> mv_id m"
      with a models_okD(4) [OF ok, of k r k' r'] show ?thesis by simp
    next
      assume "k = mv_id m" "k' \<noteq> mv_id m"
      with a assms(3) [of k' r'] sym show ?thesis by simp
    next
      assume "k \<noteq> mv_id m" "k' = mv_id m"
      with a assms(3) [of k r] show ?thesis by simp
    qed simp
  qed
  from inv_put_models [OF assms(1), of "put_model m s"] this show ?thesis by simp
qed

lemma retire_map_of:
  "map_of (lc_models (retire_others now actor m s)) k =
     map_option (\<lambda>r. if displaced m r then r\<lparr>mv_state := ''retired'', mv_updated := now\<rparr> else r) (map_of (lc_models s) k)"
  by (simp add: retire_others_def Let_def map_of_map)

lemma retire_disk: "lc_disk (retire_others now actor m s) = lc_disk s"
  by (simp add: retire_others_def Let_def)

lemma retire_inv:
  assumes "ledger_inv s"
  shows "ledger_inv (retire_others now actor m s)"
proof -
  have keys: "map fst (lc_models (retire_others now actor m s)) = map fst (lc_models s)"
    by (simp add: retire_others_def Let_def comp_def case_prod_beta)
  have ok: "model_ok r \<Longrightarrow> mv_state r = ''active'' \<Longrightarrow> model_ok (r\<lparr>mv_state := ''retired'', mv_updated := now\<rparr>)" for r
    by (simp add: model_ok_def proven_def MODEL_STATES_def)
  let ?f = "\<lambda>r. if displaced m r then r\<lparr>mv_state := ''retired'', mv_updated := now\<rparr> else r"
  note d = models_okD [OF inv_models [OF assms]]
  have bk: "\<exists>r0. map_of (lc_models s) k = Some r0 \<and> r = ?f r0"
    if "map_of (lc_models (retire_others now actor m s)) k = Some r" for k r
    using that unfolding retire_map_of by blast
  have act: "?f r0 = r0" if "mv_state (?f r0) = ''active''" for r0
    using that by (simp split: if_splits)
  have "models_ok (lc_models (retire_others now actor m s))"
  proof (rule models_okI)
    show "wf_dict (lc_models (retire_others now actor m s))" unfolding keys by (rule d(1))
  next
    fix k r
    assume "map_of (lc_models (retire_others now actor m s)) k = Some r"
    then obtain r0 where r0: "map_of (lc_models s) k = Some r0" "r = ?f r0" using bk by blast
    from d(2,3) [OF r0(1)] ok [of r0] show "k = mv_id r \<and> model_ok r"
      unfolding r0(2) by (simp add: displaced_def)
  next
    fix k r k' r'
    assume a: "map_of (lc_models (retire_others now actor m s)) k = Some r"
      "map_of (lc_models (retire_others now actor m s)) k' = Some r'"
      "mv_state r = ''active''" "mv_state r' = ''active''" "same_slot r r'"
    from bk [OF a(1)] obtain q where q: "map_of (lc_models s) k = Some q" "r = ?f q" by blast
    from bk [OF a(2)] obtain q' where q': "map_of (lc_models s) k' = Some q'" "r' = ?f q'" by blast
    have "r = q" using act [of q] a(3) unfolding q(2) by simp
    moreover have "r' = q'" using act [of q'] a(4) unfolding q'(2) by simp
    ultimately show "k = k'" using d(4) [OF q(1) q'(1)] a(3-5) by simp
  qed
  from inv_put_models [OF assms this] retire_disk show ?thesis by blast
qed

section \<open>Every call keeps the invariant\<close>

lemma require_Inr: "require_model s mid = Inr m \<longleftrightarrow> map_of (lc_models s) mid = Some m"
  by (simp add: require_model_def split: option.split)

lemma allowed_active: "''active'' \<in> set (dict_getd ALLOWED_TRANSITIONS st []) \<Longrightarrow> st = ''approved''"
  by (simp add: dict_getd_def ALLOWED_TRANSITIONS_def split: if_splits)

lemma allowed_retired: "''retired'' \<in> set (dict_getd ALLOWED_TRANSITIONS st []) \<Longrightarrow> st = ''active''"
  by (simp add: dict_getd_def ALLOWED_TRANSITIONS_def split: if_splits)

lemma register_model_inv:
  assumes "ledger_inv s"
  shows "ledger_inv (fst (register_model now ok q s))"
proof -
  let ?name = "py_strip (rg_name q)" and ?version = "py_strip (rg_version q)"
  let ?m = "\<lparr>mv_id = model_id_of ?name ?version, mv_name = ?name, mv_version = ?version, mv_provider = rg_provider q,
    mv_type = rg_type q, mv_artifact = rg_artifact q, mv_dataset = rg_dataset q, mv_manifest = rg_manifest q,
    mv_site = rg_site q, mv_state = ''candidate'', mv_metadata = rg_metadata q, mv_evaluations = [],
    mv_created = now, mv_updated = now\<rparr>"
  have "model_ok ?m" by (simp add: model_ok_def MODEL_STATES_def)
  then have "ledger_inv (put_model ?m s)" using assms by (intro put_inv) simp_all
  then show ?thesis using assms
    by (simp add: register_model_def Let_def finish_inv split: option.split)
qed

lemma evaluate_inv:
  assumes inv: "ledger_inv s"
  shows "ledger_inv (fst (evaluate_model R now ok uuid mid dataset metrics passed evaluator notes s))"
proof (cases "require_model s mid")
  case (Inr m)
  note m = models_okD(2,3) [OF inv_models [OF inv] Inr [unfolded require_Inr]]
  have "ledger_inv (put_model (m\<lparr>mv_evaluations := mv_evaluations m @ [e], mv_state := ''evaluated'', mv_updated := now\<rparr>) s)" for e
    using m(2) inv by (intro put_inv) (simp_all add: model_ok_def MODEL_STATES_def)
  then show ?thesis using inv Inr by (simp add: evaluate_model_def finish_inv split: option.split)
qed (simp add: evaluate_model_def inv)

lemma transition_eq:
  assumes "require_model s mid = Inr m" "target \<in> set MODEL_STATES"
    "target = ''approved'' \<longrightarrow> list_ex ev_passed (mv_evaluations m)"
    "target \<in> set (dict_getd ALLOWED_TRANSITIONS (mv_state m) [])"
  shows "transition_model now ok mid target reason actor s =
    finish_call ok mid (record_history now mid reason target [] actor
      (put_model (m\<lparr>mv_state := target, mv_updated := now\<rparr>)
        (if target = ''active'' then retire_others now actor m s else s)))"
proof -
  have c: "(target \<notin> set MODEL_STATES) = False" "(target = ''approved'' \<and> \<not> list_ex ev_passed (mv_evaluations m)) = False"
    "(target \<notin> set (dict_getd ALLOWED_TRANSITIONS (mv_state m) [])) = False"
    using assms(2-4) by blast+
  show ?thesis by (simp only: transition_model_def assms(1) c if_False sum.case Let_def)
qed

lemma transition_inv:
  assumes inv: "ledger_inv s"
  shows "ledger_inv (fst (transition_model now ok mid target reason actor s))"
proof (cases "require_model s mid")
  case (Inr m)
  then have get: "map_of (lc_models s) mid = Some m" by (simp add: require_Inr)
  note m = models_okD(2,3) [OF inv_models [OF inv] get]
  let ?m = "m\<lparr>mv_state := target, mv_updated := now\<rparr>"
  let ?s1 = "if target = ''active'' then retire_others now actor m s else s"
  have put: "ledger_inv (put_model ?m ?s1)"
    if t: "target \<in> set MODEL_STATES" "target = ''approved'' \<Longrightarrow> list_ex ev_passed (mv_evaluations m)"
      "target \<in> set (dict_getd ALLOWED_TRANSITIONS (mv_state m) [])"
  proof (rule put_inv)
    show "ledger_inv ?s1" using inv retire_inv by simp
    have "proven m" if "target \<in> {''approved'', ''active'', ''retired''}"
    proof -
      from that consider "target = ''approved''" | "target = ''active''" | "target = ''retired''" by blast
      then show ?thesis
      proof cases
        case 1
        with t(2) show ?thesis by (simp add: proven_def)
      next
        case 2
        with t(3) allowed_active have "mv_state m = ''approved''" by blast
        with m(2) show ?thesis by (simp add: model_ok_def)
      next
        case 3
        with t(3) allowed_retired have "mv_state m = ''active''" by blast
        with m(2) show ?thesis by (simp add: model_ok_def)
      qed
    qed
    then show "model_ok ?m" using m(2) t(1) by (simp add: model_ok_def proven_def)
    show "k = mv_id ?m" if "mv_state ?m = ''active''" "map_of (lc_models ?s1) k = Some r" "mv_state r = ''active''" "same_slot r ?m"
      for k r
    proof -
      from that(1) have act: "target = ''active''" by simp
      from that(2) obtain q where q: "r = (if displaced m q then q\<lparr>mv_state := ''retired'', mv_updated := now\<rparr> else q)"
        by (auto simp: act retire_map_of)
      show ?thesis
      proof (cases "displaced m q")
        case True
        with q have "mv_state r = ''retired''" by simp
        with that(3) show ?thesis by simp
      next
        case False
        with q have "r = q" by (simp only: if_False)
        with False that(3,4) show ?thesis by (simp add: displaced_def same_slot_def)
      qed
    qed
  qed
  show ?thesis
  proof (cases "target \<in> set MODEL_STATES \<and> (target = ''approved'' \<longrightarrow> list_ex ev_passed (mv_evaluations m))
      \<and> target \<in> set (dict_getd ALLOWED_TRANSITIONS (mv_state m) [])")
    case True
    with put have "ledger_inv (put_model ?m ?s1)" by blast
    then have "ledger_inv (fst (finish_call ok mid (record_history now mid reason target [] actor (put_model ?m ?s1))))"
      by (simp only: finish_inv history_inv)
    moreover have "transition_model now ok mid target reason actor s
        = finish_call ok mid (record_history now mid reason target [] actor (put_model ?m ?s1))"
      using True by (intro transition_eq [OF Inr]) blast+
    ultimately show ?thesis by (simp only:)
  next
    case False
    then show ?thesis using inv Inr by (auto simp: transition_model_def)
  qed
qed (simp add: transition_model_def inv)

lemma latest_in: "latest b ms \<in> set (b # ms)"
proof (induction ms arbitrary: b)
  case (Cons m ms)
  then show ?case using Cons.IH [of b] Cons.IH [of m] by (cases "mv_updated b < mv_updated m") auto
qed simp

lemma rollback_target:
  assumes inv: "ledger_inv s" and c: "rollback_candidates s m = c # cs"
  shows "map_of (lc_models s) (mv_id (latest c cs)) = Some (latest c cs) \<and> same_slot (latest c cs) m
    \<and> mv_state (latest c cs) \<in> {''approved'', ''retired''} \<and> mv_id (latest c cs) \<noteq> mv_id m"
proof -
  have "latest c cs \<in> set (rollback_candidates s m)" using latest_in [of c cs] by (simp add: c)
  then have l: "latest c cs \<in> snd ` set (lc_models s)" "same_slot (latest c cs) m"
      "mv_state (latest c cs) \<in> {''approved'', ''retired''}" "mv_id (latest c cs) \<noteq> mv_id m"
    by (simp_all add: rollback_candidates_def)
  from l(1) obtain k where k: "map_of (lc_models s) k = Some (latest c cs)"
    using models_okD(1) [OF inv_models [OF inv]] by (auto intro: map_of_is_SomeI)
  with models_okD(2) [OF inv_models [OF inv] k] l show ?thesis by simp
qed

lemma rollback_eq:
  assumes "require_model s mid = Inr m" "mv_state m = ''active''" "rollback_candidates s m = c # cs"
  shows "rollback_model now ok mid reason actor s =
    finish_call ok (mv_id (latest c cs)) (record_history now (mv_id (latest c cs)) ''rollback-target'' ''active'' mid actor
      (record_history now mid reason ''retired'' (mv_id (latest c cs)) actor
        (put_model ((latest c cs)\<lparr>mv_state := ''active'', mv_updated := now\<rparr>)
          (put_model (m\<lparr>mv_state := ''retired'', mv_updated := now\<rparr>) s))))"
  using assms by (simp add: rollback_model_def Let_def)

lemma rollback_inv:
  assumes inv: "ledger_inv s"
  shows "ledger_inv (fst (rollback_model now ok mid reason actor s))"
proof (cases "require_model s mid")
  case (Inr m)
  then have get: "map_of (lc_models s) mid = Some m" by (simp add: require_Inr)
  note d = models_okD [OF inv_models [OF inv]]
  note m = d(2,3) [OF get]
  show ?thesis
  proof (cases "mv_state m = ''active''")
    case False
    then show ?thesis using Inr inv by (simp add: rollback_model_def)
  next
    case active: True
    show ?thesis
    proof (cases "rollback_candidates s m")
      case Nil
      then show ?thesis using Inr inv by (simp add: rollback_model_def)
    next
      case (Cons c cs)
      let ?t = "latest c cs" and ?m = "m\<lparr>mv_state := ''retired'', mv_updated := now\<rparr>"
      note t = rollback_target [OF inv Cons]
      have "model_ok ?m" using m(2) active by (simp add: model_ok_def proven_def MODEL_STATES_def)
      then have s1: "ledger_inv (put_model ?m s)" using inv by (intro put_inv) simp_all
      have "model_ok ?t" using d(3) t by blast
      then have tok: "model_ok (?t\<lparr>mv_state := ''active'', mv_updated := now\<rparr>)"
        using t by (auto simp: model_ok_def proven_def MODEL_STATES_def)
      have free: "k = mv_id ?t" if "map_of (lc_models (put_model ?m s)) k = Some r" "mv_state r = ''active''" "same_slot r ?t" for k r
      proof (cases "k = mv_id m")
        case True
        with that(1) t have "r = ?m" by simp
        then have "mv_state r = ''retired''" by simp
        with that(2) show ?thesis by simp
      next
        case False
        with that have r: "map_of (lc_models s) k = Some r" by simp
        have "same_slot r m" using that(3) t by (simp add: same_slot_def)
        from d(4) [OF r get that(2) active this] m(1) False show ?thesis by simp
      qed
      have "ledger_inv (put_model (?t\<lparr>mv_state := ''active'', mv_updated := now\<rparr>) (put_model ?m s))"
        using s1 tok by (rule put_inv) (use free in \<open>simp add: same_slot_def\<close>)
      then show ?thesis using Inr active Cons by (simp add: rollback_model_def Let_def finish_inv)
    qed
  qed
qed (simp add: rollback_model_def inv)

lemma call_inv: "ledger_inv s \<Longrightarrow> ledger_inv (fst (lc_call R now ok op s))"
  by (cases op) (simp_all add: register_model_inv evaluate_inv transition_inv rollback_inv load_inv)

lemma ledger_run_inv: "ledger_inv s \<Longrightarrow> ledger_inv (lc_run R ops s)"
  by (induction ops arbitrary: s) (auto simp: lc_run_def lc_apply_def call_inv split: prod.splits)

lemma new_inv: "ledger_inv (new_ledger path)"
  by (simp add: ledger_inv_def new_ledger_def models_ok_def)

section \<open>The abstract ledger\<close>

text \<open>What the ledger promises its readers: at most one active version per model name and site.\<close>

type_synonym slots = "string \<times> string \<Rightarrow> string option"

definition active_of :: "lifecycle \<Rightarrow> slots" where
  "active_of s slot =
     map_option fst (find (\<lambda>(k, m). mv_state m = ''active'' \<and> (mv_name m, mv_site m) = slot) (lc_models s))"

definition slot_of :: "model_version \<Rightarrow> string \<times> string" where
  "slot_of m = (mv_name m, mv_site m)"

fun slots_step :: "lc_op \<Rightarrow> model_version \<Rightarrow> slots \<Rightarrow> slots" where
  "slots_step (Transition mid target reason actor) m A =
     (if target = ''active'' then A(slot_of m \<mapsto> mid)
      else if A (slot_of m) = Some mid then A(slot_of m := None) else A)"
| "slots_step (Rollback mid reason actor) m A = A(slot_of m \<mapsto> mv_id m)"
| "slots_step _ m A = A"

lemma active_iff:
  assumes "ledger_inv s"
  shows "active_of s slot = Some k \<longleftrightarrow> (\<exists>m. map_of (lc_models s) k = Some m \<and> mv_state m = ''active'' \<and> slot_of m = slot)"
proof
  assume "active_of s slot = Some k"
  then obtain m where "(k, m) \<in> set (lc_models s)" "mv_state m = ''active''" "slot_of m = slot"
    by (auto simp: active_of_def slot_of_def find_Some_iff) (metis nth_mem)
  with models_okD(1) [OF inv_models [OF assms]]
  show "\<exists>m. map_of (lc_models s) k = Some m \<and> mv_state m = ''active'' \<and> slot_of m = slot"
    by (auto intro: map_of_is_SomeI)
next
  assume "\<exists>m. map_of (lc_models s) k = Some m \<and> mv_state m = ''active'' \<and> slot_of m = slot"
  then obtain m where m: "map_of (lc_models s) k = Some m" "mv_state m = ''active''" "slot_of m = slot" by blast
  let ?P = "\<lambda>(k, m). mv_state m = ''active'' \<and> (mv_name m, mv_site m) = slot"
  obtain k' m' where f: "find ?P (lc_models s) = Some (k', m')"
    using m map_of_SomeD [OF m(1)] by (cases "find ?P (lc_models s)") (auto simp: find_None_iff slot_of_def)
  then have m': "(k', m') \<in> set (lc_models s)" "mv_state m' = ''active''" "slot_of m' = slot"
    by (auto simp: find_Some_iff slot_of_def) (metis nth_mem)
  have g: "map_of (lc_models s) k' = Some m'"
    using m'(1) models_okD(1) [OF inv_models [OF assms]] by (auto intro: map_of_is_SomeI)
  have "same_slot m m'" using m(3) m'(3) by (auto simp: slot_of_def same_slot_def)
  from models_okD(4) [OF inv_models [OF assms] m(1) g m(2) m'(2) this] f show "active_of s slot = Some k"
    by (simp add: active_of_def)
qed

lemma slots_eqI:
  assumes "ledger_inv s" and "\<And>slot k. A slot = Some k \<longleftrightarrow>
      (\<exists>m. map_of (lc_models s) k = Some m \<and> mv_state m = ''active'' \<and> slot_of m = slot)"
  shows "active_of s = A"
proof
  fix slot
  have "active_of s slot = Some k \<longleftrightarrow> A slot = Some k" for k
    unfolding active_iff [OF assms(1)] assms(2) ..
  then show "active_of s slot = A slot" by (metis not_Some_eq)
qed

text \<open>A changed record that is not active, and was not.\<close>

lemma inactive_put:
  assumes inv: "ledger_inv s" "ledger_inv s'" and models: "lc_models s' = dict_set (lc_models s) (mv_id m) m"
    and new: "mv_state m \<noteq> ''active''" and old: "\<And>r. map_of (lc_models s) (mv_id m) = Some r \<Longrightarrow> mv_state r \<noteq> ''active''"
  shows "active_of s' = active_of s"
  by (rule slots_eqI [OF inv(2)]) (use new old in \<open>auto simp: active_iff [OF inv(1)] models\<close>)

lemma register_refines:
  assumes inv: "ledger_inv s" and r: "snd (register_model now ok q s) = Inr m'"
  shows "active_of (fst (register_model now ok q s)) = active_of s"
proof (cases "map_of (lc_models s) (model_id_of (py_strip (rg_name q)) (py_strip (rg_version q)))")
  case (Some m)
  then have "fst (register_model now ok q s) = s" by (simp add: register_model_def Let_def)
  then show ?thesis by simp
next
  case None
  have models: "\<exists>m. mv_id m = model_id_of (py_strip (rg_name q)) (py_strip (rg_version q)) \<and> mv_state m = ''candidate''
      \<and> lc_models (fst (register_model now ok q s)) = dict_set (lc_models s) (mv_id m) m"
    using r None by (auto simp: register_model_def Let_def finish_models split: if_splits)
      (metis (no_types) model_version.select_convs(1,10))
  then obtain m where m: "mv_id m = model_id_of (py_strip (rg_name q)) (py_strip (rg_version q))" "mv_state m = ''candidate''"
      "lc_models (fst (register_model now ok q s)) = dict_set (lc_models s) (mv_id m) m" by blast
  from inactive_put [OF inv register_model_inv [OF inv] m(3)] m(1,2) None show ?thesis by simp
qed

lemma evaluate_refines:
  assumes inv: "ledger_inv s"
  shows "active_of (fst (evaluate_model R now ok uuid mid dataset metrics passed evaluator notes s)) = active_of s"
proof (cases "require_model s mid")
  case (Inl e)
  then show ?thesis by (simp add: evaluate_model_def)
next
  case (Inr m)
  then have get: "map_of (lc_models s) mid = Some m" by (simp add: require_Inr)
  note mid = models_okD(2) [OF inv_models [OF inv] get]
  show ?thesis
  proof (cases "mv_state m \<in> {''candidate'', ''evaluated''} \<and> float_metrics R metrics \<noteq> None")
    case False
    then have "fst (evaluate_model R now ok uuid mid dataset metrics passed evaluator notes s) = s"
      using Inr by (auto simp: evaluate_model_def)
    then show ?thesis by simp
  next
    case True
    then obtain e where "lc_models (fst (evaluate_model R now ok uuid mid dataset metrics passed evaluator notes s))
        = dict_set (lc_models s) mid (m\<lparr>mv_evaluations := mv_evaluations m @ [e], mv_state := ''evaluated'', mv_updated := now\<rparr>)"
      using Inr mid by (auto simp: evaluate_model_def finish_models)
    from inactive_put [OF inv evaluate_inv [OF inv], of _ _ _ _ _ _ _ _ _ _
        "m\<lparr>mv_evaluations := mv_evaluations m @ [e], mv_state := ''evaluated'', mv_updated := now\<rparr>"] this True get mid
    show ?thesis by auto
  qed
qed

lemma transition_success:
  assumes inv: "ledger_inv s" and r: "snd (transition_model now ok mid target reason actor s) = Inr m'"
  obtains m where "map_of (lc_models s) mid = Some m" "mid = mv_id m"
    "target \<in> set (dict_getd ALLOWED_TRANSITIONS (mv_state m) [])"
    "target = ''approved'' \<Longrightarrow> proven m" "m' = m\<lparr>mv_state := target, mv_updated := now\<rparr>"
    "lc_models (fst (transition_model now ok mid target reason actor s)) =
       dict_set (lc_models (if target = ''active'' then retire_others now actor m s else s)) mid m'"
proof -
  from r obtain m where m: "require_model s mid = Inr m" "target \<in> set MODEL_STATES"
      "target = ''approved'' \<longrightarrow> list_ex ev_passed (mv_evaluations m)"
      "target \<in> set (dict_getd ALLOWED_TRANSITIONS (mv_state m) [])"
    by (auto simp: transition_model_def split: if_splits sum.splits)
  from m(1) have get: "map_of (lc_models s) mid = Some m" by (simp add: require_Inr)
  note mid = models_okD(2) [OF inv_models [OF inv] get]
  from finish_Inr [OF r [unfolded transition_eq [OF m]]] have m': "m' = m\<lparr>mv_state := target, mv_updated := now\<rparr>"
    by (simp add: mid)
  have "lc_models (fst (transition_model now ok mid target reason actor s)) =
       dict_set (lc_models (if target = ''active'' then retire_others now actor m s else s)) mid m'"
    by (simp only: transition_eq [OF m] finish_models history_models put_models m') (simp add: mid)
  with m get mid m' show thesis by (intro that [of m]) (simp_all add: proven_def)
qed

lemma ex_map_option: "(\<exists>r. map_option f x = Some r \<and> P r \<and> Q r) \<longleftrightarrow> (\<exists>r. x = Some r \<and> P (f r) \<and> Q (f r))"
  by (cases x) auto

lemma transition_refines:
  assumes inv: "ledger_inv s" and r: "snd (transition_model now ok mid target reason actor s) = Inr m'"
  shows "active_of (fst (transition_model now ok mid target reason actor s))
    = slots_step (Transition mid target reason actor) m' (active_of s)"
proof -
  obtain m where m: "map_of (lc_models s) mid = Some m" "mid = mv_id m"
      "target \<in> set (dict_getd ALLOWED_TRANSITIONS (mv_state m) [])" "target = ''approved'' \<Longrightarrow> proven m"
      and m': "m' = m\<lparr>mv_state := target, mv_updated := now\<rparr>"
      and models: "lc_models (fst (transition_model now ok mid target reason actor s)) =
         dict_set (lc_models (if target = ''active'' then retire_others now actor m s else s)) mid m'"
    using transition_success [OF inv r] by metis
  have slot: "slot_of m' = slot_of m" by (simp add: m' slot_of_def)
  note inv' = transition_inv [OF inv]
  show ?thesis
  proof (cases "target = ''active''")
    case True
    with m(3) allowed_active have ap: "mv_state m = ''approved''" by blast
    have "active_of (fst (transition_model now ok mid target reason actor s)) = (active_of s)(slot_of m \<mapsto> mid)"
    proof (rule slots_eqI [OF inv'])
      fix slot k
      let ?f = "\<lambda>r. if displaced m r then r\<lparr>mv_state := ''retired'', mv_updated := now\<rparr> else r"
      have f: "mv_state (?f r) = ''active'' \<and> slot_of (?f r) = slot
          \<longleftrightarrow> mv_state r = ''active'' \<and> slot_of r = slot \<and> slot \<noteq> slot_of m" for r
        by (auto simp: displaced_def same_slot_def slot_of_def)
      show "((active_of s)(slot_of m \<mapsto> mid)) slot = Some k
          \<longleftrightarrow> (\<exists>r. map_of (lc_models (fst (transition_model now ok mid target reason actor s))) k = Some r
               \<and> mv_state r = ''active'' \<and> slot_of r = slot)"
      proof (cases "k = mid")
        case True
        then have "(\<exists>r. map_of (lc_models (fst (transition_model now ok mid target reason actor s))) k = Some r
               \<and> mv_state r = ''active'' \<and> slot_of r = slot) \<longleftrightarrow> slot = slot_of m"
          using \<open>target = ''active''\<close> unfolding models by (auto simp: m' slot_of_def)
        moreover have "active_of s slot \<noteq> Some mid"
          using m(1) ap by (simp add: active_iff [OF inv])
        ultimately show ?thesis using True by auto
      next
        case False
        then have "(\<exists>r. map_of (lc_models (fst (transition_model now ok mid target reason actor s))) k = Some r
               \<and> mv_state r = ''active'' \<and> slot_of r = slot)
            \<longleftrightarrow> (\<exists>r. map_of (lc_models s) k = Some r \<and> mv_state (?f r) = ''active'' \<and> slot_of (?f r) = slot)"
        proof -
          have g: "map_of (lc_models (fst (transition_model now ok mid target reason actor s))) k
              = map_option ?f (map_of (lc_models s) k)"
            using \<open>target = ''active''\<close> False unfolding models by (simp add: retire_map_of)
          show ?thesis unfolding g by (rule ex_map_option)
        qed
        with False f show ?thesis by (auto simp: active_iff [OF inv])
      qed
    qed
    then show ?thesis using True slot by simp
  next
    case False
    then have models: "lc_models (fst (transition_model now ok mid target reason actor s)) = dict_set (lc_models s) mid m'"
      by (simp add: models)
    show ?thesis
    proof (cases "mv_state m = ''active''")
      case True
      then have A: "active_of s (slot_of m) = Some mid" using m(1) by (simp add: active_iff [OF inv])
      have "active_of (fst (transition_model now ok mid target reason actor s)) = (active_of s)(slot_of m := None)"
      proof (rule slots_eqI [OF inv'])
        fix slot k
        have "active_of s slot = Some mid \<Longrightarrow> slot = slot_of m" using m(1) by (auto simp: active_iff [OF inv])
        moreover have "active_of s (slot_of m) = Some k \<Longrightarrow> k = mid" using A by simp
        ultimately show "((active_of s)(slot_of m := None)) slot = Some k
            \<longleftrightarrow> (\<exists>r. map_of (lc_models (fst (transition_model now ok mid target reason actor s))) k = Some r
               \<and> mv_state r = ''active'' \<and> slot_of r = slot)"
          using False by (cases "k = mid") (auto simp: models m' active_iff [OF inv])
      qed
      then show ?thesis using False A slot by simp
    next
      case inactive: False
      then have "active_of s (slot_of m) \<noteq> Some mid" using m(1) by (simp add: active_iff [OF inv])
      moreover have "active_of (fst (transition_model now ok mid target reason actor s)) = active_of s"
        using False inactive m(1,2) models by (intro inactive_put [OF inv inv', of _ _ _ _ _ _ m']) (simp_all add: m')
      ultimately show ?thesis using False slot by simp
    qed
  qed
qed

lemma rollback_refines:
  assumes inv: "ledger_inv s" and r: "snd (rollback_model now ok mid reason actor s) = Inr m'"
  shows "active_of (fst (rollback_model now ok mid reason actor s))
    = slots_step (Rollback mid reason actor) m' (active_of s)"
proof -
  from r obtain m where req: "require_model s mid = Inr m" and act: "mv_state m = ''active''"
    by (auto simp: rollback_model_def split: if_splits sum.splits)
  then have get: "map_of (lc_models s) mid = Some m" by (simp add: require_Inr)
  note d = models_okD [OF inv_models [OF inv]]
  note mid = d(2) [OF get]
  from r obtain c cs where Cons: "rollback_candidates s m = c # cs"
    by (cases "rollback_candidates s m") (simp_all add: rollback_model_def req act)
  let ?t = "latest c cs"
  note t = rollback_target [OF inv Cons]
  let ?s' = "fst (rollback_model now ok mid reason actor s)"
  let ?m = "m\<lparr>mv_state := ''retired'', mv_updated := now\<rparr>"
  let ?a = "?t\<lparr>mv_state := ''active'', mv_updated := now\<rparr>"
  note eq = rollback_eq [OF req act Cons, of now ok reason actor]
  have models: "lc_models ?s' = dict_set (dict_set (lc_models s) mid ?m) (mv_id ?t) ?a"
    by (simp only: eq finish_models history_models put_models) (simp add: mid)
  have m': "m' = ?a" using finish_Inr [OF r [unfolded eq]] by simp
  have slot: "slot_of m' = slot_of m" using t by (simp add: m' slot_of_def same_slot_def)
  have A: "active_of s (slot_of m) = Some mid" using get act by (simp add: active_iff [OF inv])
  have diff: "mv_id ?t \<noteq> mid" using t mid by simp
  have "active_of ?s' = (active_of s)(slot_of m \<mapsto> mv_id ?t)"
  proof (rule slots_eqI [OF rollback_inv [OF inv]])
    fix slot k
    have one: "active_of s slot = Some mid \<longleftrightarrow> slot = slot_of m"
      using A get act by (auto simp: active_iff [OF inv])
    have no: "active_of s slot \<noteq> Some (mv_id ?t)" using t by (auto simp: active_iff [OF inv])
    consider "k = mv_id ?t" | "k = mid" "k \<noteq> mv_id ?t" | "k \<noteq> mid" "k \<noteq> mv_id ?t" by blast
    then show "((active_of s)(slot_of m \<mapsto> mv_id ?t)) slot = Some k
        \<longleftrightarrow> (\<exists>r. map_of (lc_models ?s') k = Some r \<and> mv_state r = ''active'' \<and> slot_of r = slot)"
    proof cases
      case 1
      have sa: "slot_of ?a = slot_of m" using slot by (simp only: m')
      show ?thesis using 1 no sa unfolding models by auto
    next
      case 2
      then show ?thesis using one diff unfolding models by auto
    next
      case 3
      have "active_of s (slot_of m) \<noteq> Some k" using A 3 by simp
      with 3 active_iff [OF inv, of slot k] show ?thesis unfolding models by auto
    qed
  qed
  then show ?thesis using slot by (simp add: m')
qed

section \<open>Properties\<close>

text \<open>
  Whatever is called, and whether the state file could be written or not: ids and states
  stay well formed, a version is approved, active or retired only if some evaluation passed, and at
  most one version of a model is active at a site.
\<close>

theorem ledger_stays_valid:
  assumes "map_of (lc_models (lc_run R ops (new_ledger path))) k = Some m"
  shows "k = mv_id m \<and> mv_id m = model_id_of (mv_name m) (mv_version m) \<and> mv_state m \<in> set MODEL_STATES
    \<and> (mv_state m \<in> {''approved'', ''active'', ''retired''} \<longrightarrow> list_ex ev_passed (mv_evaluations m))
    \<and> (map_of (lc_models (lc_run R ops (new_ledger path))) k' = Some m' \<and> mv_state m = ''active''
       \<and> mv_state m' = ''active'' \<and> mv_name m' = mv_name m \<and> mv_site m' = mv_site m \<longrightarrow> k' = k)"
proof -
  note d = models_okD [OF inv_models [OF ledger_run_inv [OF new_inv]], of R ops path]
  from d(2,3) [OF assms] d(4) [OF assms, of k' m'] show ?thesis
    by (auto simp: model_ok_def proven_def same_slot_def)
qed

definition demo_registration :: "string \<Rightarrow> registration" where
  "demo_registration v = \<lparr>rg_name = ''m'', rg_version = v, rg_provider = ''p'', rg_type = ''t'', rg_artifact = [],
     rg_dataset = [], rg_manifest = [], rg_site = ''s'', rg_metadata = []\<rparr>"

definition promote :: "string \<Rightarrow> string \<Rightarrow> string \<Rightarrow> string \<Rightarrow> (string \<times> bool \<times> lc_op) list" where
  "promote v t1 t2 t3 =
     [(t1, True, Register (demo_registration v)),
      (t1, True, Evaluate (''m:'' @ v) ''d'' [] True ''e'' [] ''u''),
      (t2, True, Transition (''m:'' @ v) ''approved'' ''r'' ''a''),
      (t3, True, Transition (''m:'' @ v) ''active'' ''r'' ''a'')]"

definition demo_version :: "string \<Rightarrow> string \<Rightarrow> string \<Rightarrow> model_version" where
  "demo_version v st t = \<lparr>mv_id = ''m:'' @ v, mv_name = ''m'', mv_version = v, mv_provider = ''p'', mv_type = ''t'',
     mv_artifact = [], mv_dataset = [], mv_manifest = [], mv_site = ''s'', mv_state = st, mv_metadata = [],
     mv_evaluations = [\<lparr>ev_id = ''u'', ev_dataset = ''d'', ev_metrics = [], ev_passed = True, ev_evaluator = ''e'',
        ev_notes = [], ev_created = ''1''\<rparr>], mv_created = ''1'', mv_updated = t\<rparr>"

lemmas lifecycle_eval = lc_run_def lc_apply_def promote_def demo_registration_def register_model_def evaluate_model_def
  transition_model_def rollback_model_def finish_call_def persist_ledger_def record_history_def put_model_def retire_others_def
  require_model_def model_id_of_def MODEL_STATES_def ALLOWED_TRANSITIONS_def new_ledger_def displaced_def same_slot_def
  rollback_candidates_def dict_getd_def py_strip_def py_lstrip_def py_rstrip_def py_space_def Let_def demo_version_def

lemma demo_promoted:
  "lc_models (lc_run demo_rt (promote ''1'' ''1'' ''2'' ''3'') (new_ledger False)) = [(''m:1'', demo_version ''1'' ''active'' ''3'')]"
  by (simp add: lifecycle_eval)

theorem ledger_stays_valid_witness:
  "\<exists>m. map_of (lc_models (lc_run demo_rt (promote ''1'' ''1'' ''2'' ''3'') (new_ledger False))) ''m:1'' = Some m
     \<and> mv_state m = ''active'' \<and> list_ex ev_passed (mv_evaluations m)"
proof -
  let ?m = "demo_version ''1'' ''active'' ''3''"
  have g: "map_of (lc_models (lc_run demo_rt (promote ''1'' ''1'' ''2'' ''3'') (new_ledger False))) ''m:1'' = Some ?m"
    unfolding demo_promoted by simp
  have a: "mv_state ?m = ''active''" by (simp add: demo_version_def)
  from ledger_stays_valid [OF g, of "[]" ?m] a have "list_ex ev_passed (mv_evaluations ?m)" by simp
  with g a show ?thesis by blast
qed

text \<open>
  Claim C15. The ledger implements the table of active versions: a successful activation enters the
  version for its model and site whatever was there, leaving the active state clears the entry, a
  rollback enters its target, and no other call changes the table.
\<close>

theorem ledger_refines_slots:
  assumes "ledger_inv s" and "snd (lc_call R now ok op s) = Inr m"
  shows "active_of (fst (lc_call R now ok op s)) = slots_step op m (active_of s)"
proof (cases op)
  case (Register q)
  then show ?thesis using register_refines [OF assms(1)] assms(2) by simp
next
  case (Evaluate mid dataset metrics passed evaluator nt uuid)
  then show ?thesis using evaluate_refines [OF assms(1)] by simp
next
  case (Transition mid target reason actor)
  then show ?thesis using transition_refines [OF assms(1)] assms(2) by simp
next
  case (Rollback mid reason actor)
  then show ?thesis using rollback_refines [OF assms(1)] assms(2) by simp
next
  case Restart
  then show ?thesis using assms(2) by simp
qed

definition demo_two :: lifecycle where
  "demo_two = lc_run demo_rt (promote ''1'' ''1'' ''2'' ''3'' @ promote ''2'' ''1'' ''5'' ''6'') (new_ledger False)"

lemma demo_two_models:
  "lc_models demo_two = [(''m:1'', demo_version ''1'' ''retired'' ''6''), (''m:2'', demo_version ''2'' ''active'' ''6'')]"
  by (simp add: demo_two_def lifecycle_eval)

lemma demo_two_inv: "ledger_inv demo_two"
  unfolding demo_two_def by (rule ledger_run_inv [OF new_inv])

lemma demo_rolled:
  "snd (lc_call demo_rt ''7'' True (Rollback ''m:2'' ''r'' ''a'') demo_two) = Inr (demo_version ''1'' ''active'' ''7'')"
  "lc_models (fst (lc_call demo_rt ''7'' True (Rollback ''m:2'' ''r'' ''a'') demo_two))
     = [(''m:1'', demo_version ''1'' ''active'' ''7''), (''m:2'', demo_version ''2'' ''retired'' ''7'')]"
proof -
  have p: "lc_path demo_two = False" by (simp add: demo_two_def lifecycle_eval)
  show "snd (lc_call demo_rt ''7'' True (Rollback ''m:2'' ''r'' ''a'') demo_two) = Inr (demo_version ''1'' ''active'' ''7'')"
    "lc_models (fst (lc_call demo_rt ''7'' True (Rollback ''m:2'' ''r'' ''a'') demo_two))
     = [(''m:1'', demo_version ''1'' ''active'' ''7''), (''m:2'', demo_version ''2'' ''retired'' ''7'')]"
    by (simp_all add: rollback_model_def require_model_def demo_two_models demo_version_def rollback_candidates_def
        same_slot_def finish_call_def persist_ledger_def record_history_def put_model_def p Let_def)
qed

theorem ledger_refines_slots_witness:
  "active_of (fst (lc_call demo_rt ''7'' True (Rollback ''m:2'' ''r'' ''a'') demo_two)) (''m'', ''s'') = Some ''m:1''"
  using ledger_refines_slots [OF demo_two_inv demo_rolled(1)] by (simp add: slot_of_def demo_version_def)

text \<open>
  A second rollback returns to the version the first one left: after a rollback of one
  version to another, rolling the other back makes the first active again, however many older
  versions there are, because the target is the one that changed last.
\<close>

lemma latest_max:
  assumes "x \<in> set (b # ms)" and "\<forall>y \<in> set (b # ms). y = x \<or> mv_updated y < mv_updated x"
  shows "latest b ms = x"
  using assms
proof (induction ms arbitrary: b)
  case (Cons m ms)
  let ?b = "if mv_updated b < mv_updated m then m else b"
  have "x \<in> set (?b # ms)" using Cons.prems by (auto dest: order.asym)
  moreover have "\<forall>y \<in> set (?b # ms). y = x \<or> mv_updated y < mv_updated x" using Cons.prems(2) by simp
  ultimately show ?case using Cons.IH [of ?b] by simp
qed simp

theorem second_rollback_returns:
  assumes inv: "ledger_inv s" and first: "snd (rollback_model now ok mid r a s) = Inr b"
    and clock: "\<forall>k m. map_of (lc_models s) k = Some m \<longrightarrow> mv_updated m < now"
    and second: "snd (rollback_model now' ok' (mv_id b) r' a' (fst (rollback_model now ok mid r a s))) = Inr c"
  shows "mv_id c = mid \<and> mv_state c = ''active''"
proof -
  let ?s1 = "fst (rollback_model now ok mid r a s)"
  from first obtain m where req: "require_model s mid = Inr m" and act: "mv_state m = ''active''"
    by (auto simp: rollback_model_def split: if_splits sum.splits)
  then have get: "map_of (lc_models s) mid = Some m" by (simp add: require_Inr)
  note mid = models_okD(2) [OF inv_models [OF inv] get]
  from first obtain q qs where q: "rollback_candidates s m = q # qs"
    by (cases "rollback_candidates s m") (simp_all add: rollback_model_def req act)
  let ?t = "latest q qs"
  let ?m = "m\<lparr>mv_state := ''retired'', mv_updated := now\<rparr>" and ?a = "?t\<lparr>mv_state := ''active'', mv_updated := now\<rparr>"
  note t = rollback_target [OF inv q]
  note eq = rollback_eq [OF req act q, of now ok r a]
  have models: "lc_models ?s1 = dict_set (dict_set (lc_models s) mid ?m) (mv_id ?t) ?a"
    by (simp only: eq finish_models history_models put_models) (simp add: mid)
  have b: "b = ?a" using finish_Inr [OF first [unfolded eq]] by simp
  note inv1 = rollback_inv [OF inv, of now ok mid r a]
  have gb: "map_of (lc_models ?s1) (mv_id b) = Some b" unfolding models b by simp
  have diff: "mid \<noteq> mv_id ?t" 
  proof -
    from t have "mv_id ?t \<noteq> mv_id m" by blast
    then show ?thesis unfolding mid by (rule not_sym)
  qed
  have gm: "map_of (lc_models ?s1) mid = Some ?m" unfolding models using diff by simp
  have inm: "?m \<in> set (rollback_candidates ?s1 b)"
  proof -
    have "?m \<in> snd ` set (lc_models ?s1)" using map_of_SomeD [OF gm] by (rule image_eqI [rotated]) simp
    moreover have "same_slot ?m b \<and> mv_id ?m \<noteq> mv_id b" using t by (auto simp: b same_slot_def)
    ultimately show ?thesis by (simp add: rollback_candidates_def)
  qed
  have old: "y = ?m \<or> mv_updated y < mv_updated ?m" if "y \<in> set (rollback_candidates ?s1 b)" for y
  proof -
    from that obtain k where "(k, y) \<in> set (lc_models ?s1)" "mv_id y \<noteq> mv_id b" by (auto simp: rollback_candidates_def)
    with models_okD(1) [OF inv_models [OF inv1]] have k: "map_of (lc_models ?s1) k = Some y" by (auto intro: map_of_is_SomeI)
    with models_okD(2) [OF inv_models [OF inv1] k] \<open>mv_id y \<noteq> mv_id b\<close> have "k \<noteq> mv_id ?t" by (simp add: b)
    with k have "k = mid \<and> y = ?m \<or> map_of (lc_models s) k = Some y" unfolding models by (auto split: if_splits)
    with clock show ?thesis by auto
  qed
  from inm obtain x xs where xs: "rollback_candidates ?s1 b = x # xs" by (cases "rollback_candidates ?s1 b") auto
  with latest_max [of ?m x xs] inm old have l: "latest x xs = ?m" by simp
  have req1: "require_model ?s1 (mv_id b) = Inr b" using gb by (simp only: require_Inr)
  have act1: "mv_state b = ''active''" by (simp add: b)
  note eq1 = rollback_eq [OF req1 act1 xs, of now' ok' r' a', unfolded l]
  from finish_Inr [OF second [unfolded eq1]] show ?thesis by (auto simp: mid)
qed

theorem second_rollback_returns_witness:
  "\<exists>b c. snd (rollback_model ''7'' True ''m:2'' ''r'' ''a'' demo_two) = Inr b
     \<and> snd (rollback_model ''8'' True (mv_id b) ''r'' ''a'' (fst (rollback_model ''7'' True ''m:2'' ''r'' ''a'' demo_two))) = Inr c
     \<and> mv_id c = ''m:2''"
proof -
  let ?b = "demo_version ''1'' ''active'' ''7''"
  obtain s1 x where s1: "rollback_model ''7'' True ''m:2'' ''r'' ''a'' demo_two = (s1, x)" by fastforce
  then have x: "x = Inr ?b" and m1: "lc_models s1 = [(''m:1'', ?b), (''m:2'', demo_version ''2'' ''retired'' ''7'')]"
    using demo_rolled by simp_all
  have "\<exists>c. snd (rollback_model ''8'' True (mv_id ?b) ''r'' ''a'' (s1\<lparr>lc_path := False\<rparr>)) = Inr c"
    by (simp add: rollback_model_def require_model_def m1 demo_version_def rollback_candidates_def same_slot_def
        finish_call_def persist_ledger_def record_history_def put_model_def Let_def)
  moreover have "s1\<lparr>lc_path := False\<rparr> = s1"
  proof -
    have "lc_path s1 = lc_path demo_two"
      using s1 by (simp add: rollback_model_def require_model_def demo_two_models demo_version_def rollback_candidates_def
          same_slot_def finish_call_def persist_ledger_def record_history_def put_model_def Let_def split: if_splits) auto
    moreover have "lc_path demo_two = False" by (simp add: demo_two_def lifecycle_eval)
    ultimately show ?thesis by (cases s1) simp
  qed
  ultimately obtain c where r2: "snd (rollback_model ''8'' True (mv_id ?b) ''r'' ''a'' s1) = Inr c" by auto
  have "\<forall>k m. map_of (lc_models demo_two) k = Some m \<longrightarrow> mv_updated m < ''7''"
    by (simp add: demo_two_models demo_version_def)
  from second_rollback_returns [OF demo_two_inv _ this, of True "''m:2''" "''r''" "''a''" ?b "''8''" True "''r''" "''a''" c]
  show ?thesis using s1 x r2 by auto
qed

text \<open>
  The state file is faithful: loading what was written gives the same versions, in the same
  order, and the same history.
\<close>

theorem persist_roundtrip:
  assumes "ledger_inv s" and "lc_path s" and "persist_ledger True s = (s', r)"
  shows "r = None \<and> load_ledger (s'\<lparr>lc_models := ms, lc_history := hs\<rparr>) = s'"
  using assms by (auto simp: persist_ledger_def load_ledger_def rebuild [OF inv_models])

theorem persist_roundtrip_witness:
  "\<exists>s'. persist_ledger True (demo_two\<lparr>lc_path := True\<rparr>) = (s', None)
     \<and> lc_models (load_ledger (s'\<lparr>lc_models := [], lc_history := []\<rparr>)) = lc_models demo_two"
proof -
  have inv: "ledger_inv (demo_two\<lparr>lc_path := True\<rparr>)" using demo_two_inv by (simp add: ledger_inv_def)
  obtain s' r where p: "persist_ledger True (demo_two\<lparr>lc_path := True\<rparr>) = (s', r)" by fastforce
  from persist_roundtrip [OF inv _ p, of "[]" "[]"] p show ?thesis by (auto simp: persist_ledger_def)
qed

text \<open>
  A write that fails leaves the two copies apart: the caller of a permitted transition gets
  the exception, the process goes on with the new state, and a restarted one has the old state file.
\<close>

theorem failed_write_diverges:
  assumes "ledger_inv s" "lc_path s" "map_of (lc_models s) mid = Some m" "target \<in> set MODEL_STATES"
    "target = ''approved'' \<longrightarrow> list_ex ev_passed (mv_evaluations m)"
    "target \<in> set (dict_getd ALLOWED_TRANSITIONS (mv_state m) [])"
    and t: "transition_model now False mid target reason actor s = (s', r)"
  shows "r = Inl ''OSError'' \<and> map_of (lc_models s') mid = Some (m\<lparr>mv_state := target, mv_updated := now\<rparr>)
    \<and> lc_models (load_ledger s') = lc_models (load_ledger s)"
proof -
  note mid = models_okD(2) [OF inv_models [OF assms(1)] assms(3)]
  from assms(3) have req: "require_model s mid = Inr m" by (simp add: require_Inr)
  let ?s1 = "if target = ''active'' then retire_others now actor m s else s"
  have kept: "lc_path (foldl (\<lambda>s r. record_history now (f r) u st rel act s) s rs) = lc_path s" for f u st rel act rs s
    by (induction rs arbitrary: s) (simp_all add: record_history_def)
  have path: "lc_path ?s1" "lc_disk ?s1 = lc_disk s"
    using assms(2) retire_disk by (simp_all add: retire_others_def Let_def kept)
  let ?s2 = "record_history now mid reason target [] actor (put_model (m\<lparr>mv_state := target, mv_updated := now\<rparr>) ?s1)"
  have "lc_path ?s2" "lc_disk ?s2 = lc_disk s" using path by (simp_all add: record_history_def put_model_def)
  then have "finish_call False mid ?s2 = (?s2, Inl ''OSError'')" by (simp add: finish_call_def persist_ledger_def)
  with t transition_eq [OF req assms(4-6)] have eq: "s' = ?s2" "r = Inl ''OSError''" by simp_all
  have "lc_models (load_ledger s') = lc_models (load_ledger s)"
    unfolding eq(1) load_ledger_def using \<open>lc_path ?s2\<close> \<open>lc_disk ?s2 = lc_disk s\<close> assms(2)
    by (simp split: option.split)
  moreover have "map_of (lc_models s') mid = Some (m\<lparr>mv_state := target, mv_updated := now\<rparr>)"
    unfolding eq(1) history_models put_models by (simp add: mid)
  ultimately show ?thesis using eq(2) by simp
qed

theorem failed_write_diverges_witness:
  "\<exists>s'. transition_model ''9'' False ''m:2'' ''retired'' ''r'' ''a'' (demo_two\<lparr>lc_path := True\<rparr>) = (s', Inl ''OSError'')
     \<and> lc_models (load_ledger s') = []"
proof -
  have inv: "ledger_inv (demo_two\<lparr>lc_path := True\<rparr>)" using demo_two_inv by (simp add: ledger_inv_def)
  have disk: "lc_disk demo_two = None" by (simp add: demo_two_def lifecycle_eval)
  obtain s' r where t: "transition_model ''9'' False ''m:2'' ''retired'' ''r'' ''a'' (demo_two\<lparr>lc_path := True\<rparr>) = (s', r)"
    by fastforce
  have "map_of (lc_models (demo_two\<lparr>lc_path := True\<rparr>)) ''m:2'' = Some (demo_version ''2'' ''active'' ''6'')"
    by (simp add: demo_two_models)
  from failed_write_diverges [OF inv _ this _ _ _ t] t disk show ?thesis
    by (simp add: MODEL_STATES_def ALLOWED_TRANSITIONS_def dict_getd_def demo_version_def load_ledger_def)
qed

text \<open>Name and version are joined by a colon that either may contain: registering one model can answer
  with another.\<close>

lemma registration_collides:
  "map_of (lc_models s) ''a:b:c'' = Some m \<Longrightarrow> mv_state m = ''candidate''
   \<Longrightarrow> rg_name q = ''a'' \<Longrightarrow> rg_version q = ''b:c'' \<Longrightarrow> rg_provider q = ''p''
   \<Longrightarrow> register_model now ok q s = (s, Inr m)"
  by (simp add: register_model_def model_id_of_def py_strip_def py_lstrip_def py_rstrip_def py_space_def)

end
