(* ===== verification/Analytics.thy ===== *)
theory Analytics
  imports Py_Prelude
begin

text \<open>
  The calculation engines of \<open>services/analytics/\<close>: overall equipment effectiveness
  (\<open>oee_engine.py\<close>) and the user-defined indicators (\<open>kpi_engine.py\<close>). Numbers are exact rationals.
  Python's \<open>eval\<close> of an expression in a context of names, and \<open>round(x, 4)\<close>, are arguments; \<open>None\<close>
  is a raised exception. The \<open>to_dict\<close> forms only round.
\<close>

section \<open>Overall equipment effectiveness\<close>

record shift =
  sh_index :: nat             \<comment> \<open>the number in the shift id, from 1\<close>
  sh_start :: rat             \<comment> \<open>hours since midnight\<close>
  sh_end :: rat
  sh_planned :: rat           \<comment> \<open>minutes\<close>

record oee_result =
  oe_availability :: rat
  oe_performance :: rat
  oe_quality :: rat
  oe_oee :: rat
  oe_runtime :: rat
  oe_downtime :: rat
  oe_total :: int
  oe_good :: int

definition oee_calculate :: "rat \<Rightarrow> rat \<Rightarrow> rat \<Rightarrow> int \<Rightarrow> int \<Rightarrow> oee_result" where
  "oee_calculate cycle planned runtime total_count good_count =
     (let availability = (if planned > 0 then (runtime / planned) * 100 else 0);
          runtime_seconds = runtime * 60;
          ideal_output = (if cycle > 0 then runtime_seconds / cycle else 0);
          performance = (if ideal_output > 0 then (of_int total_count / ideal_output) * 100 else 0);
          quality = (if total_count > 0 then (of_int good_count / of_int total_count) * 100 else 0)
      in \<lparr>oe_availability = availability, oe_performance = performance, oe_quality = quality,
          oe_oee = (availability / 100) * (performance / 100) * (quality / 100) * 100,
          oe_runtime = runtime, oe_downtime = planned - runtime, oe_total = total_count, oe_good = good_count\<rparr>)"

text \<open>The hour of the start is truncated; no shifts per day is a division by zero.\<close>

definition generate_shifts :: "int \<Rightarrow> shift list option" where
  "generate_shifts n =
     (if n = 0 then None
      else
        (let shift_hours = 24 / rat_of_int n in
         Some (map (\<lambda>i. let start = rat_of_int \<lfloor>rat_of_int (int i) * shift_hours\<rfloor>
                        in \<lparr>sh_index = i + 1, sh_start = start, sh_end = start + shift_hours,
                            sh_planned = shift_hours * 60\<rparr>) [0..<nat n])))"

section \<open>Indicators\<close>

record kpi =
  kp_id :: string
  kp_name :: string
  kp_inputs :: "string list"
  kp_expression :: string
  kp_unit :: string
  kp_warning :: "rat option"
  kp_critical :: "rat option"
  kp_enabled :: bool

record kpi_engine =
  ke_kpis :: "(string \<times> kpi) list"
  ke_windows :: "(string \<times> (string \<times> rat list) list) list"   \<comment> \<open>tag, then indicator\<close>

record kpi_result =
  kr_id :: string
  kr_name :: string
  kr_value :: rat
  kr_unit :: string
  kr_severity :: string
  kr_inputs :: "(string \<times> rat) list"

definition KPI_WINDOW :: nat where
  "KPI_WINDOW = 10000"

definition kpi_windows :: "kpi_engine \<Rightarrow> string \<Rightarrow> (string \<times> rat list) list" where
  "kpi_windows s tag = (case map_of (ke_windows s) tag of None \<Rightarrow> [] | Some w \<Rightarrow> w)"

definition set_window :: "string \<Rightarrow> string \<Rightarrow> rat list \<Rightarrow> kpi_engine \<Rightarrow> kpi_engine" where
  "set_window tag kid xs s = s\<lparr>ke_windows := dict_set (ke_windows s) tag (dict_set (kpi_windows s tag) kid xs)\<rparr>"

definition reset_windows :: "string \<Rightarrow> string list \<Rightarrow> kpi_engine \<Rightarrow> kpi_engine" where
  "reset_windows kid tags s = foldl (\<lambda>s tag. set_window tag kid [] s) s tags"

definition register_kpi :: "kpi \<Rightarrow> kpi_engine \<Rightarrow> kpi_engine" where
  "register_kpi k s = reset_windows (kp_id k) (kp_inputs k) (s\<lparr>ke_kpis := dict_set (ke_kpis s) (kp_id k) k\<rparr>)"

definition delete_window :: "string \<Rightarrow> kpi_engine \<Rightarrow> string \<Rightarrow> kpi_engine" where
  "delete_window kid s tag =
     (if dict_has (ke_windows s) tag \<and> dict_has (kpi_windows s tag) kid
      then s\<lparr>ke_windows := dict_set (ke_windows s) tag (dict_del (kpi_windows s tag) kid)\<rparr> else s)"

definition unregister_kpi :: "string \<Rightarrow> kpi_engine \<Rightarrow> kpi_engine \<times> bool" where
  "unregister_kpi kid s =
     (case map_of (ke_kpis s) kid of
        None \<Rightarrow> (s, False)
      | Some k \<Rightarrow> (foldl (delete_window kid) (s\<lparr>ke_kpis := dict_del (ke_kpis s) kid\<rparr>) (kp_inputs k), True))"

definition has_all_inputs :: "kpi_engine \<Rightarrow> kpi \<Rightarrow> bool" where
  "has_all_inputs s k =
     list_all (\<lambda>tag. case map_of (kpi_windows s tag) (kp_id k) of None \<Rightarrow> False | Some xs \<Rightarrow> xs \<noteq> []) (kp_inputs k)"

definition tag_name :: "string \<Rightarrow> string" where
  "tag_name tag = map (\<lambda>c. if c = CHR ''.'' \<or> c = CHR ''-'' then CHR ''_'' else c) tag"

fun least :: "rat list \<Rightarrow> rat" where
  "least [] = 0"
| "least (x # xs) = foldl min x xs"

fun greatest :: "rat list \<Rightarrow> rat" where
  "greatest [] = 0"
| "greatest (x # xs) = foldl max x xs"

definition average :: "rat list \<Rightarrow> rat" where
  "average xs = (if xs = [] then 0 else sum_list xs / of_nat (length xs))"

definition tag_values :: "string \<Rightarrow> rat list \<Rightarrow> (string \<times> rat) list" where
  "tag_values tag xs =
     [(tag_name tag, (if xs = [] then 0 else last xs)),
      (tag_name tag @ ''_avg'', average xs),
      (tag_name tag @ ''_sum'', sum_list xs),
      (tag_name tag @ ''_min'', least xs),
      (tag_name tag @ ''_max'', greatest xs),
      (tag_name tag @ ''_count'', of_nat (length xs))]"

text \<open>The context of an indicator; \<open>None\<close>: a window is missing (\<open>KeyError\<close>).\<close>

fun kpi_context :: "kpi_engine \<Rightarrow> string \<Rightarrow> string list \<Rightarrow> (string \<times> rat) list \<Rightarrow> (string \<times> rat) list option" where
  "kpi_context s kid [] ctx = Some ctx"
| "kpi_context s kid (tag # tags) ctx =
     (case map_of (kpi_windows s tag) kid of
        None \<Rightarrow> None
      | Some xs \<Rightarrow> kpi_context s kid tags (dict_merge ctx (tag_values tag xs)))"

record kpi_rt =
  kt_eval :: "string \<Rightarrow> (string \<times> rat) list \<Rightarrow> rat option"
  kt_round4 :: "rat \<Rightarrow> rat"

definition name_char :: "char \<Rightarrow> bool" where
  "name_char c = (c = CHR ''_'' \<or> (CHR ''a'' \<le> c \<and> c \<le> CHR ''z'') \<or> (CHR ''A'' \<le> c \<and> c \<le> CHR ''Z'') \<or> (CHR ''0'' \<le> c \<and> c \<le> CHR ''9''))"

definition expression_char :: "char \<Rightarrow> bool" where
  "expression_char c = (name_char c \<or> py_space c \<or> c \<in> set ''+-*/().,='')"

definition safe_eval :: "kpi_rt \<Rightarrow> string \<Rightarrow> (string \<times> rat) list \<Rightarrow> rat option" where
  "safe_eval T expression ctx =
     (if expression = [] then None
      else if \<not> list_all expression_char expression then None
      else kt_eval T expression ctx)"

definition kpi_severity :: "kpi \<Rightarrow> rat \<Rightarrow> string" where
  "kpi_severity k r =
     (if (case kp_critical k of None \<Rightarrow> False | Some c \<Rightarrow> r \<ge> c) then ''critical''
      else if (case kp_warning k of None \<Rightarrow> False | Some w \<Rightarrow> r \<ge> w) then ''warning'' else ''normal'')"

definition plain_input :: "string \<Rightarrow> bool" where
  "plain_input k = (\<not> list_ex (\<lambda>e. ends_with k e) [''_avg'', ''_sum'', ''_min'', ''_max'', ''_count''])"

definition evaluate_kpi :: "kpi_rt \<Rightarrow> kpi_engine \<Rightarrow> kpi \<Rightarrow> kpi_result option" where
  "evaluate_kpi T s k =
     (case kpi_context s (kp_id k) (kp_inputs k) [] of
        None \<Rightarrow> None
      | Some ctx \<Rightarrow>
          (case safe_eval T (kp_expression k) ctx of
             None \<Rightarrow> None
           | Some r \<Rightarrow> Some
               \<lparr>kr_id = kp_id k, kr_name = kp_name k, kr_value = kt_round4 T r, kr_unit = kp_unit k,
                kr_severity = kpi_severity k r, kr_inputs = filter (\<lambda>(n, _). plain_input n) ctx\<rparr>))"

text \<open>The indicators that depend on the tag, in the order of its windows.\<close>

fun ingest_each :: "kpi_rt \<Rightarrow> string \<Rightarrow> rat \<Rightarrow> string list \<Rightarrow> kpi_engine \<Rightarrow> kpi_engine \<times> kpi_result list" where
  "ingest_each T tag v [] s = (s, [])"
| "ingest_each T tag v (kid # kids) s =
     (case map_of (ke_kpis s) kid of
        None \<Rightarrow> ingest_each T tag v kids s
      | Some k \<Rightarrow>
          (if \<not> kp_enabled k then ingest_each T tag v kids s
           else
             (let xs = (case map_of (kpi_windows s tag) kid of None \<Rightarrow> [] | Some xs \<Rightarrow> xs);
                  s1 = set_window tag kid (last_n KPI_WINDOW (xs @ [v])) s;
                  rs = (if has_all_inputs s1 k then (case evaluate_kpi T s1 k of None \<Rightarrow> [] | Some r \<Rightarrow> [r]) else [])
              in (case ingest_each T tag v kids s1 of (s2, rs2) \<Rightarrow> (s2, rs @ rs2)))))"

definition ingest_value :: "kpi_rt \<Rightarrow> string \<Rightarrow> rat \<Rightarrow> kpi_engine \<Rightarrow> kpi_engine \<times> kpi_result list" where
  "ingest_value T tag v s =
     (if \<not> dict_has (ke_windows s) tag then (s, []) else ingest_each T tag v (map fst (kpi_windows s tag)) s)"

definition sample_kpi :: "string \<Rightarrow> string \<Rightarrow> string list \<Rightarrow> string \<Rightarrow> string \<Rightarrow> rat \<Rightarrow> rat \<Rightarrow> kpi" where
  "sample_kpi kid name inputs expression unit w c =
     \<lparr>kp_id = kid, kp_name = name, kp_inputs = inputs, kp_expression = expression, kp_unit = unit,
      kp_warning = Some w, kp_critical = Some c, kp_enabled = True\<rparr>"

definition sample_kpis :: "kpi list" where
  "sample_kpis =
     [sample_kpi ''pump_efficiency'' ''Pump Efficiency'' [''PUMP-01.Flow'', ''PUMP-01.Pressure'', ''PUMP-01.Power'']
        ''(Flow_PUMP_01 * Pressure_PUMP_01) / Power_PUMP_01 * 100'' ''%'' 70 50,
      sample_kpi ''motor_temperature_rise'' ''Motor Temperature Rise'' [''PUMP-01.Temperature'', ''Ambient.Temperature'']
        ''Temperature_PUMP_01 - Ambient_Temperature'' [CHR 0xC2, CHR 0xB0, CHR ''C''] 40 60,
      sample_kpi ''vibration_severity'' ''Vibration Severity''
        [''PUMP-01.Vibration_X'', ''PUMP-01.Vibration_Y'', ''PUMP-01.Vibration_Z'']
        ''(Vibration_X_PUMP_01 + Vibration_Y_PUMP_01 + Vibration_Z_PUMP_01) / 3'' ''mm/s'' (45 / 10) (71 / 10),
      sample_kpi ''oee_availability'' ''OEE Availability'' [''Line-01.Runtime'', ''Line-01.Downtime'']
        ''Runtime_Line_01 / (Runtime_Line_01 + Downtime_Line_01) * 100'' ''%'' 85 70]"

datatype kpi_op = RegisterKpi kpi | UnregisterKpi string | IngestValue string rat

fun kpi_apply :: "kpi_rt \<Rightarrow> kpi_engine \<Rightarrow> kpi_op \<Rightarrow> kpi_engine" where
  "kpi_apply T s (RegisterKpi k) = register_kpi k s"
| "kpi_apply T s (UnregisterKpi kid) = fst (unregister_kpi kid s)"
| "kpi_apply T s (IngestValue tag v) = fst (ingest_value T tag v s)"

definition new_kpi_engine :: kpi_engine where
  "new_kpi_engine = \<lparr>ke_kpis = [], ke_windows = []\<rparr>"

section \<open>Windows\<close>

lemma windows_set [simp]:
  "kpi_windows (set_window tag kid xs s) t = (if t = tag then dict_set (kpi_windows s tag) kid xs else kpi_windows s t)"
  by (simp add: kpi_windows_def set_window_def)

lemma kpis_set [simp]: "ke_kpis (set_window tag kid xs s) = ke_kpis s"
  by (simp add: set_window_def)

definition kpi_inv :: "kpi_engine \<Rightarrow> bool" where
  "kpi_inv s \<longleftrightarrow>
     (\<forall>tag kid xs. map_of (kpi_windows s tag) kid = Some xs \<longrightarrow> length xs \<le> KPI_WINDOW)
     \<and> (\<forall>kid k. map_of (ke_kpis s) kid = Some k \<longrightarrow> kp_id k = kid
          \<and> (\<forall>tag \<in> set (kp_inputs k). map_of (kpi_windows s tag) kid \<noteq> None))"

lemma kpi_invI:
  assumes "\<And>tag kid xs. map_of (kpi_windows s tag) kid = Some xs \<Longrightarrow> length xs \<le> KPI_WINDOW"
    and "\<And>kid k. map_of (ke_kpis s) kid = Some k \<Longrightarrow> kp_id k = kid"
    and "\<And>kid k tag. map_of (ke_kpis s) kid = Some k \<Longrightarrow> tag \<in> set (kp_inputs k) \<Longrightarrow> map_of (kpi_windows s tag) kid \<noteq> None"
  shows "kpi_inv s"
  using assms unfolding kpi_inv_def by blast

lemma kpi_invD:
  assumes "kpi_inv s"
  shows "map_of (kpi_windows s tag) kid = Some xs \<Longrightarrow> length xs \<le> KPI_WINDOW"
    "map_of (ke_kpis s) kid = Some k \<Longrightarrow> kp_id k = kid"
    "map_of (ke_kpis s) kid = Some k \<Longrightarrow> tag \<in> set (kp_inputs k) \<Longrightarrow> map_of (kpi_windows s tag) kid \<noteq> None"
  using assms unfolding kpi_inv_def by blast+

text \<open>Resetting the windows of a list of tags.\<close>

lemma reset_windows:
  "ke_kpis (reset_windows kid tags s) = ke_kpis s"
  "map_of (kpi_windows (reset_windows kid tags s) t) k =
     (if k = kid \<and> t \<in> set tags then Some [] else map_of (kpi_windows s t) k)"
  unfolding reset_windows_def by (induction tags arbitrary: s) auto

lemma windows_kpis [simp]: "kpi_windows (s\<lparr>ke_kpis := ks\<rparr>) t = kpi_windows s t"
  by (simp add: kpi_windows_def)

lemma register_kpi_inv:
  assumes "kpi_inv s"
  shows "kpi_inv (register_kpi k s)"
proof -
  note r = reset_windows [where kid = "kp_id k" and tags = "kp_inputs k" and s = "s\<lparr>ke_kpis := dict_set (ke_kpis s) (kp_id k) k\<rparr>",
      folded register_kpi_def, simplified]
  note d = kpi_invD [OF assms]
  show ?thesis
  proof (rule kpi_invI)
    fix tag kid xs
    assume "map_of (kpi_windows (register_kpi k s) tag) kid = Some xs"
    then show "length xs \<le> KPI_WINDOW" using r(2) [of tag kid] d(1) by (auto split: if_splits)
  next
    fix kid k'
    assume "map_of (ke_kpis (register_kpi k s)) kid = Some k'"
    then show "kp_id k' = kid" using r(1) d(2) by (auto split: if_splits)
  next
    fix kid k' tag
    assume "map_of (ke_kpis (register_kpi k s)) kid = Some k'" "tag \<in> set (kp_inputs k')"
    then show "map_of (kpi_windows (register_kpi k s) tag) kid \<noteq> None"
      using r(1) r(2) [of tag kid] d(3) by (auto split: if_splits)
  qed
qed

lemma delete_windows:
  "ke_kpis (foldl (delete_window kid) s tags) = ke_kpis s
   \<and> (map_of (kpi_windows (foldl (delete_window kid) s tags) t) k = map_of (kpi_windows s t) k
      \<or> k = kid \<and> map_of (kpi_windows (foldl (delete_window kid) s tags) t) k = None)"
proof (induction tags arbitrary: s)
  case (Cons tag tags)
  have "ke_kpis (delete_window kid s tag) = ke_kpis s
      \<and> (map_of (kpi_windows (delete_window kid s tag) t) k = map_of (kpi_windows s t) k
         \<or> k = kid \<and> map_of (kpi_windows (delete_window kid s tag) t) k = None)"
    by (auto simp: delete_window_def kpi_windows_def dict_simps)
  with Cons.IH [of "delete_window kid s tag"] show ?case by (simp only: foldl_Cons) metis
qed simp

lemma unregister_inv:
  assumes "kpi_inv s"
  shows "kpi_inv (fst (unregister_kpi kid s))"
proof (cases "map_of (ke_kpis s) kid")
  case None
  then show ?thesis using assms by (simp add: unregister_kpi_def)
next
  case (Some k0)
  have eq: "fst (unregister_kpi kid s)
      = foldl (delete_window kid) (s\<lparr>ke_kpis := dict_del (ke_kpis s) kid\<rparr>) (kp_inputs k0)"
    using Some by (simp add: unregister_kpi_def)
  note r = delete_windows [where s = "s\<lparr>ke_kpis := dict_del (ke_kpis s) kid\<rparr>" and kid = kid and tags = "kp_inputs k0",
      folded eq, simplified]
  note d = kpi_invD [OF assms]
  have k: "map_of (ke_kpis (fst (unregister_kpi kid s))) = (map_of (ke_kpis s))(kid := None)"
    using r by (simp add: dict_simps)
  show ?thesis
  proof (rule kpi_invI)
    fix tag i xs
    assume "map_of (kpi_windows (fst (unregister_kpi kid s)) tag) i = Some xs"
    with r [of tag i] d(1) [of tag i xs] show "length xs \<le> KPI_WINDOW" by auto
  next
    fix i k'
    assume "map_of (ke_kpis (fst (unregister_kpi kid s))) i = Some k'"
    then show "kp_id k' = i" unfolding k using d(2) by (auto split: if_splits)
  next
    fix i k' tag
    assume a: "map_of (ke_kpis (fst (unregister_kpi kid s))) i = Some k'" "tag \<in> set (kp_inputs k')"
    then have "i \<noteq> kid" "map_of (ke_kpis s) i = Some k'" unfolding k by (auto split: if_splits)
    with r [of tag i] d(3) [OF this(2) a(2)] show "map_of (kpi_windows (fst (unregister_kpi kid s)) tag) i \<noteq> None" by auto
  qed
qed

lemma set_window_inv:
  assumes "kpi_inv s" and "length xs \<le> KPI_WINDOW"
  shows "kpi_inv (set_window tag kid xs s)"
proof (rule kpi_invI)
  fix t i ys
  assume "map_of (kpi_windows (set_window tag kid xs s) t) i = Some ys"
  then show "length ys \<le> KPI_WINDOW" using assms kpi_invD(1) [OF assms(1)] by (auto split: if_splits)
next
  fix i k
  assume "map_of (ke_kpis (set_window tag kid xs s)) i = Some k"
  then show "kp_id k = i" using kpi_invD(2) [OF assms(1)] by simp
next
  fix i k t
  assume "map_of (ke_kpis (set_window tag kid xs s)) i = Some k" "t \<in> set (kp_inputs k)"
  then show "map_of (kpi_windows (set_window tag kid xs s) t) i \<noteq> None"
    using kpi_invD(3) [OF assms(1), of i k t] by auto
qed

lemma ingest_each_inv: "kpi_inv s \<Longrightarrow> kpi_inv (fst (ingest_each T tag v kids s))"
proof (induction kids arbitrary: s)
  case (Cons kid kids)
  show ?case
  proof (cases "map_of (ke_kpis s) kid")
    case None
    then show ?thesis using Cons by simp
  next
    case (Some k)
    let ?xs = "case map_of (kpi_windows s tag) kid of None \<Rightarrow> [] | Some xs \<Rightarrow> xs"
    have "kpi_inv (set_window tag kid (last_n KPI_WINDOW (?xs @ [v])) s)"
      by (rule set_window_inv [OF Cons.prems]) simp
    from Cons.IH [OF this] Cons.IH [OF Cons.prems] Some show ?thesis
      by (simp add: Let_def case_prod_beta)
  qed
qed simp

lemma kpi_apply_inv: "kpi_inv s \<Longrightarrow> kpi_inv (kpi_apply T s op)"
  by (cases op) (simp_all add: register_kpi_inv unregister_inv ingest_value_def ingest_each_inv)

lemma kpi_run_inv: "kpi_inv s \<Longrightarrow> kpi_inv (foldl (kpi_apply T) s ops)"
  by (induction ops arbitrary: s) (simp_all add: kpi_apply_inv)

lemma new_kpi_inv: "kpi_inv new_kpi_engine"
  by (simp add: kpi_inv_def new_kpi_engine_def kpi_windows_def)

lemma context_defined:
  "\<forall>tag \<in> set tags. map_of (kpi_windows s tag) kid \<noteq> None \<Longrightarrow> kpi_context s kid tags ctx \<noteq> None"
  by (induction tags arbitrary: ctx) (auto split: option.split)

definition names_in :: "string \<Rightarrow> string list" where
  "names_in e = filter (\<lambda>w. \<not> digit (hd w)) (runs name_char e)"

lemma shift_hours_int:
  assumes "n > 0" "n dvd 24"
  shows "24 / rat_of_int n = of_int (24 div n)"
proof -
  from assms(2) obtain k where k: "24 = n * k" by (auto simp: dvd_def)
  then have "24 div n = k" using assms(1) by (metis nonzero_mult_div_cancel_left less_irrefl)
  moreover have "(24 :: rat) = of_int n * of_int k" using k by (metis of_int_mult of_int_numeral)
  ultimately show ?thesis using assms(1) by (simp add: divide_eq_eq mult.commute)
qed

section \<open>Properties\<close>

text \<open>
  However indicators are registered, replaced and removed and values ingested, no window
  holds more than 10,000 values, and an enabled indicator always has a window for each of its
  inputs, so building its context never fails.
\<close>

theorem kpi_windows_bounded:
  assumes "map_of (ke_kpis (foldl (kpi_apply T) new_kpi_engine ops)) kid = Some k"
  shows "(map_of (kpi_windows (foldl (kpi_apply T) new_kpi_engine ops) tag) i = Some xs \<longrightarrow> length xs \<le> 10000)
    \<and> kpi_context (foldl (kpi_apply T) new_kpi_engine ops) (kp_id k) (kp_inputs k) [] \<noteq> None"
proof -
  note d = kpi_invD [OF kpi_run_inv [OF new_kpi_inv, of T ops]]
  have "\<forall>tag \<in> set (kp_inputs k). map_of (kpi_windows (foldl (kpi_apply T) new_kpi_engine ops) tag) (kp_id k) \<noteq> None"
    using d(3) [OF assms] d(2) [OF assms] by blast
  from context_defined [OF this] d(1) [of tag i xs] show ?thesis by (simp add: KPI_WINDOW_def)
qed

definition demo_kpi :: kpi where
  "demo_kpi = \<lparr>kp_id = ''k'', kp_name = ''n'', kp_inputs = [''a''], kp_expression = ''a_avg'', kp_unit = [],
     kp_warning = None, kp_critical = None, kp_enabled = True\<rparr>"

definition demo_kpi_rt :: kpi_rt where
  "demo_kpi_rt = \<lparr>kt_eval = (\<lambda>e ctx. map_of ctx e), kt_round4 = (\<lambda>x. x)\<rparr>"

theorem kpi_windows_bounded_witness:
  "kpi_context (foldl (kpi_apply demo_kpi_rt) new_kpi_engine [RegisterKpi demo_kpi, IngestValue ''a'' 3]) ''k'' [''a''] [] \<noteq> None"
proof -
  have "map_of (ke_kpis (foldl (kpi_apply demo_kpi_rt) new_kpi_engine [RegisterKpi demo_kpi, IngestValue ''a'' 3])) ''k'' = Some demo_kpi"
    by (simp add: demo_kpi_def register_kpi_def reset_windows_def set_window_def kpi_windows_def new_kpi_engine_def
        ingest_value_def dict_has_def Let_def)
  from kpi_windows_bounded [OF this] show ?thesis by (simp add: demo_kpi_def)
qed

text \<open>
  An indicator whose critical threshold is not above its warning threshold never warns: it
  is critical from the critical threshold upwards and normal below, so an indicator where low values
  are the bad ones, as the efficiency and the availability of the samples, reports its good values
  as critical.
\<close>

theorem inverted_thresholds:
  assumes "kp_warning k = Some w" "kp_critical k = Some c" "c \<le> w"
  shows "kpi_severity k r = (if r \<ge> c then ''critical'' else ''normal'')"
  using assms by (auto simp: kpi_severity_def)

theorem inverted_thresholds_witness:
  "map (\<lambda>r. kpi_severity (sample_kpis ! 0) r) [95, 60, 40] = [''critical'', ''critical'', ''normal'']"
proof -
  have "kpi_severity (sample_kpis ! 0) r = (if r \<ge> 50 then ''critical'' else ''normal'')" for r
    by (rule inverted_thresholds [where w = 70]) (simp_all add: sample_kpis_def sample_kpi_def)
  then show ?thesis by simp
qed

text \<open>
  The expression of every sample indicator names a variable that its context does not have:
  the context writes the asset before the measurement.
\<close>

definition context_names :: "kpi \<Rightarrow> string list" where
  "context_names k = concat (map (\<lambda>tag. map fst (tag_values tag [])) (kp_inputs k)) @ [''abs'', ''round'', ''min'', ''max'', ''sum'', ''len'']"

theorem sample_kpis_unbound:
  "list_all (\<lambda>k. list_ex (\<lambda>n. \<not> list_ex ((=) n) (context_names k)) (names_in (kp_expression k))) sample_kpis"
  by code_simp

text \<open>
  The product of the three factors is the good output against the planned time: for
  positive times and counts the effectiveness is the ideal time of the good pieces over the planned
  production time, whatever the runtime and the total.
\<close>

theorem oee_closed_form:
  assumes "cycle > 0" "planned > 0" "runtime > 0" "total_count > 0"
  shows "oe_oee (oee_calculate cycle planned runtime total_count good_count)
    = of_int good_count * cycle / (planned * 60) * 100"
proof -
  have i: "runtime * 60 / cycle > 0" "rat_of_int total_count \<noteq> 0" using assms by simp_all
  show ?thesis using assms i by (simp add: oee_calculate_def Let_def field_simps)
qed

theorem oee_closed_form_witness:
  "oe_oee (oee_calculate 60 480 400 380 360) = 75"
  by (subst oee_closed_form) simp_all

text \<open>
  The percentages are bounded when the inputs are consistent: with a runtime within the
  planned time, a total the ideal cycle allows and good pieces among the total, availability,
  performance, quality and effectiveness all lie between 0 and 100.
\<close>

theorem oee_bounds:
  assumes "cycle > 0" "0 < runtime" "runtime \<le> planned" "0 \<le> good_count" "good_count \<le> total_count"
    and "of_int total_count * cycle \<le> runtime * 60" and r: "oee_calculate cycle planned runtime total_count good_count = r"
  shows "0 \<le> oe_availability r \<and> oe_availability r \<le> 100 \<and> 0 \<le> oe_performance r \<and> oe_performance r \<le> 100
    \<and> 0 \<le> oe_quality r \<and> oe_quality r \<le> 100 \<and> 0 \<le> oe_oee r \<and> oe_oee r \<le> 100"
proof -
  have a: "0 \<le> oe_availability r" "oe_availability r \<le> 100"
    using assms by (auto simp: oee_calculate_def Let_def divide_le_eq)
  have "runtime * 60 / cycle > 0" using assms by simp
  moreover have "of_int total_count / (runtime * 60 / cycle) = of_int total_count * cycle / (runtime * 60)" by simp
  ultimately have p: "oe_performance r = of_int total_count * cycle / (runtime * 60) * 100"
    using r assms(1) by (auto simp: oee_calculate_def Let_def)
  have p1: "0 \<le> oe_performance r" unfolding p using assms by simp
  have "of_int total_count * cycle / (runtime * 60) \<le> 1" using assms by (simp add: divide_le_eq)
  then have p2: "oe_performance r \<le> 100" unfolding p by (metis mult_left_mono mult.commute mult_1 zero_le_numeral)
  have q: "0 \<le> oe_quality r" "oe_quality r \<le> 100"
    using assms by (auto simp: oee_calculate_def Let_def divide_le_eq)
  have o: "oe_oee r = (oe_availability r / 100) * (oe_performance r / 100) * (oe_quality r / 100) * 100"
    using r by (auto simp: oee_calculate_def Let_def)
  have "(oe_availability r / 100) * (oe_performance r / 100) * (oe_quality r / 100) \<le> 1 * 1 * 1"
    by (intro mult_mono) (use a p1 p2 q in simp_all)
  moreover have "0 \<le> (oe_availability r / 100) * (oe_performance r / 100) * (oe_quality r / 100)"
    using a p1 q by simp
  ultimately have "0 \<le> oe_oee r" "oe_oee r \<le> 100" unfolding o by linarith+
  then show ?thesis using a p1 p2 q by simp
qed

theorem oee_bounds_witness:
  "oe_oee (oee_calculate 60 480 400 380 360) \<le> 100"
  using oee_bounds [of 60 400 480 360 380 "oee_calculate 60 480 400 380 360"] by simp

text \<open>
  For a number of shifts that divides the day the shifts tile it: each starts where the one
  before ends, from midnight to midnight.
\<close>

theorem shifts_tile:
  assumes "n > 0" "n dvd 24"
  shows "generate_shifts n = Some (map (\<lambda>i. \<lparr>sh_index = i + 1, sh_start = of_int (int i * (24 div n)),
      sh_end = of_int ((int i + 1) * (24 div n)), sh_planned = of_int (24 div n * 60)\<rparr>) [0..<nat n])"
proof -
  have "\<lfloor>rat_of_int (int i) * of_int (24 div n)\<rfloor> = int i * (24 div n)" for i
    by (metis floor_of_int of_int_mult)
  then show ?thesis
    using assms(1) by (simp add: generate_shifts_def shift_hours_int [OF assms] Let_def distrib_right)
qed

theorem shifts_tile_witness:
  "map_option (map (\<lambda>h. (sh_start h, sh_end h))) (generate_shifts 3) = Some [(0, 8), (8, 16), (16, 24)]"
  by (simp add: shifts_tile numeral_3_eq_3)

text \<open>Five shifts overlap and leave gaps: the first ends after the second starts, and the third starts
  after the second ends.\<close>

lemma five_shifts_overlap:
  "map_option (map (\<lambda>h. (sh_start h, sh_end h))) (generate_shifts 5)
   = Some [(0, 24 / 5), (4, 44 / 5), (9, 69 / 5), (14, 94 / 5), (19, 119 / 5)]"
  by code_simp

end
