(* ===== verification/Work_Claims.thy ===== *)
theory Work_Claims
  imports Main
begin

text \<open>
  What makes a status field a lock on a piece of work. A claim succeeds only on the free status and
  leaves another one, and no call but those that reopen the work sets the free status again: then at
  most one claim of a run succeeds. The stores of assistant turns and of dataset build jobs provide it.
\<close>

text \<open>How many calls of a run satisfy a condition in the state they find.\<close>

fun count_calls :: "('c \<Rightarrow> 's \<Rightarrow> bool) \<Rightarrow> ('c \<Rightarrow> 's \<Rightarrow> 's) \<Rightarrow> 'c list \<Rightarrow> 's \<Rightarrow> nat" where
  "count_calls P exec [] s = 0"
| "count_calls P exec (c # cs) s = (if P c s then 1 else 0) + count_calls P exec cs (exec c s)"

locale claimable =
  fixes ok :: "'s \<Rightarrow> bool"
    and holds :: "'c \<Rightarrow> 's \<Rightarrow> bool"
    and is_free :: "'s \<Rightarrow> bool"
    and reopens :: "'c \<Rightarrow> bool"
    and exec :: "'c \<Rightarrow> 's \<Rightarrow> 's"
  assumes keeps_ok: "ok s \<Longrightarrow> ok (exec c s)"
    and needs_free: "ok s \<Longrightarrow> holds c s \<Longrightarrow> is_free s"
    and takes: "ok s \<Longrightarrow> holds c s \<Longrightarrow> \<not> is_free (exec c s)"
    and stays_taken: "ok s \<Longrightarrow> \<not> reopens c \<Longrightarrow> \<not> is_free s \<Longrightarrow> \<not> is_free (exec c s)"
begin

lemma none_when_taken:
  "ok s \<Longrightarrow> \<not> is_free s \<Longrightarrow> list_all (\<lambda>c. \<not> reopens c) cs \<Longrightarrow> count_calls holds exec cs s = 0"
proof (induction cs arbitrary: s)
  case (Cons c cs)
  have "\<not> holds c s" using needs_free [of s c] Cons.prems(1,2) by blast
  moreover have "\<not> is_free (exec c s)" using stays_taken [of s c] Cons.prems by simp
  ultimately show ?case using Cons.IH [OF keeps_ok] Cons.prems by simp
qed simp

lemma at_most_one: "ok s \<Longrightarrow> list_all (\<lambda>c. \<not> reopens c) cs \<Longrightarrow> count_calls holds exec cs s \<le> 1"
proof (induction cs arbitrary: s)
  case (Cons c cs)
  show ?case
  proof (cases "holds c s")
    case True
    then have "count_calls holds exec cs (exec c s) = 0"
      using none_when_taken [OF keeps_ok takes] Cons.prems by simp
    then show ?thesis using True by simp
  next
    case False
    then show ?thesis using Cons.IH [OF keeps_ok] Cons.prems by simp
  qed
qed simp

end

end
