(* ===== verification/Assistant_Store.thy ===== *)
theory Assistant_Store
  imports Py_Prelude Work_Claims "HOL-Library.Product_Lexorder"
begin

text \<open>
  The store of the assistant (\<open>AssistantStore\<close> of \<open>services/common/assistant_store.py\<close>): threads
  with their messages, turns, tool calls, memories and action intents in memory, written as one JSON
  file after every change. The records that callers extend by arbitrary keys are dictionaries. The
  clock, the random identifiers and whether a write succeeds are the environment \<open>call_env\<close>: the
  i-th reading of the clock and the i-th identifier of a call are \<open>ce_now E i\<close> and
  \<open>ce_uuid E i\<close>.
\<close>

section \<open>State\<close>

record thread =
  th_id :: string
  th_actor :: string
  th_title :: string
  th_created :: string
  th_updated :: string
  th_archived :: bool
  th_messages :: "pydict list"

record astate =
  as_threads :: "(string \<times> thread) list"
  as_memories :: "pydict list"
  as_intents :: "pydict list"
  as_turns :: "(string \<times> pydict) list"
  as_calls :: "pydict list"

datatype store_file = NoFile | Garbled | Saved astate

record astore =
  st_state :: astate
  st_file :: store_file

record call_env =
  ce_now :: "nat \<Rightarrow> string"
  ce_uuid :: "nat \<Rightarrow> string"
  ce_clock :: rat                          \<comment> \<open>the same clock as seconds\<close>
  ce_later :: "string \<Rightarrow> string option"   \<comment> \<open>a time ten minutes later\<close>
  ce_write :: bool

text \<open>
  What a method does to the memory before it returns or raises: nothing, a change that is then
  persisted, nothing and an exception, or a change and an exception before the write.
\<close>

datatype 'a store_outcome = Unchanged 'a | Written astate 'a | Raised string | Half astate string

definition settle :: "call_env \<Rightarrow> 'a store_outcome \<Rightarrow> astore \<Rightarrow> astore \<times> (string + 'a)" where
  "settle E r s =
     (case r of
        Unchanged x \<Rightarrow> (s, Inr x)
      | Raised e \<Rightarrow> (s, Inl e)
      | Half st e \<Rightarrow> (s\<lparr>st_state := st\<rparr>, Inl e)
      | Written st x \<Rightarrow>
          (if ce_write E then (s\<lparr>st_state := st, st_file := Saved st\<rparr>, Inr x)
           else (s\<lparr>st_state := st\<rparr>, Inl ''OSError'')))"

definition empty_state :: astate where
  "empty_state = \<lparr>as_threads = [], as_memories = [], as_intents = [], as_turns = [], as_calls = []\<rparr>"

text \<open>\<open>__init__\<close> and \<open>reload\<close>: a file that cannot be read or parsed counts as empty.\<close>

definition load_state :: "store_file \<Rightarrow> astate" where
  "load_state f = (case f of Saved st \<Rightarrow> st | _ \<Rightarrow> empty_state)"

definition reload_store :: "astore \<Rightarrow> astore" where
  "reload_store s = s\<lparr>st_state := load_state (st_file s)\<rparr>"

section \<open>Threads and messages\<close>

text \<open>\<open>sorted(..., key=..., reverse=True)\<close> keeps the order of equal keys.\<close>

definition sorted_reverse :: "('a \<Rightarrow> 'k::linorder) \<Rightarrow> 'a list \<Rightarrow> 'a list" where
  "sorted_reverse f xs = rev (sort_key f (rev xs))"

definition list_threads :: "string \<Rightarrow> bool \<Rightarrow> astate \<Rightarrow> thread list" where
  "list_threads actor include_archived st =
     sorted_reverse th_updated (filter (\<lambda>r. th_actor r = actor \<and> (include_archived \<or> \<not> th_archived r)) (map snd (as_threads st)))"

definition title_or_default :: "string \<Rightarrow> string" where
  "title_or_default t = (if take 120 t \<noteq> [] then take 120 t else ''New conversation'')"

definition put_thread :: "thread \<Rightarrow> string \<Rightarrow> astate \<Rightarrow> astate" where
  "put_thread r tid st = st\<lparr>as_threads := dict_set (as_threads st) tid r\<rparr>"

definition create_thread :: "call_env \<Rightarrow> string \<Rightarrow> string \<Rightarrow> astate \<Rightarrow> thread store_outcome" where
  "create_thread E actor title st =
     (let tid = ''thread-'' @ ce_uuid E 0;
          r = \<lparr>th_id = tid, th_actor = actor, th_title = title_or_default title, th_created = ce_now E 0,
               th_updated = ce_now E 1, th_archived = False, th_messages = []\<rparr>
      in Written (put_thread r tid st) r)"

definition get_thread :: "string \<Rightarrow> string \<Rightarrow> astate \<Rightarrow> thread option" where
  "get_thread tid actor st =
     (case map_of (as_threads st) tid of
        None \<Rightarrow> None
      | Some r \<Rightarrow> (if th_actor r \<noteq> actor \<or> th_archived r then None else Some r))"

definition add_message :: "thread \<Rightarrow> string \<Rightarrow> pydict \<Rightarrow> string \<Rightarrow> astate \<Rightarrow> astate" where
  "add_message r tid m now st = put_thread (r\<lparr>th_messages := th_messages r @ [m], th_updated := now\<rparr>) tid st"

definition or_empty :: "pydict option \<Rightarrow> pydict" where
  "or_empty d = (case d of None \<Rightarrow> [] | Some x \<Rightarrow> x)"

definition append_message ::
    "call_env \<Rightarrow> string \<Rightarrow> string \<Rightarrow> string \<Rightarrow> string \<Rightarrow> pydict option \<Rightarrow> astate \<Rightarrow> pydict store_outcome" where
  "append_message E tid actor role content metadata st =
     (case get_thread tid actor st of
        None \<Rightarrow> Raised ''KeyError''
      | Some r \<Rightarrow>
          (let m = [(''message_id'', PStr (''msg-'' @ ce_uuid E 0)), (''role'', PStr role), (''content'', PStr content),
                    (''created_at'', PStr (ce_now E 0)), (''metadata'', PDict (or_empty metadata))]
           in Written (add_message r tid m (ce_now E 0) st) m))"

text \<open>The first element that satisfies a condition is changed and returned.\<close>

fun update_first :: "('a \<Rightarrow> bool) \<Rightarrow> ('a \<Rightarrow> 'a) \<Rightarrow> 'a list \<Rightarrow> ('a \<times> 'a list) option" where
  "update_first P f [] = None"
| "update_first P f (x # xs) =
     (if P x then Some (f x, f x # xs) else map_option (\<lambda>(y, ys). (y, x # ys)) (update_first P f xs))"

definition add_metadata :: "pydict \<Rightarrow> pydict \<Rightarrow> pydict" where
  "add_metadata metadata m =
     dict_set m ''metadata''
       (PDict (dict_merge (case py_or (pget m ''metadata'') (PDict []) of PDict d \<Rightarrow> d | _ \<Rightarrow> []) metadata))"

definition update_message_metadata ::
    "call_env \<Rightarrow> string \<Rightarrow> string \<Rightarrow> string \<Rightarrow> pydict \<Rightarrow> astate \<Rightarrow> pydict option store_outcome" where
  "update_message_metadata E tid mid actor metadata st =
     (case get_thread tid actor st of
        None \<Rightarrow> Unchanged None
      | Some r \<Rightarrow>
          (case update_first (\<lambda>m. pget m ''message_id'' = PStr mid) (add_metadata metadata) (th_messages r) of
             None \<Rightarrow> Unchanged None
           | Some (m, ms) \<Rightarrow> Written (put_thread (r\<lparr>th_messages := ms, th_updated := ce_now E 0\<rparr>) tid st) (Some m)))"

definition archive_thread :: "call_env \<Rightarrow> string \<Rightarrow> string \<Rightarrow> astate \<Rightarrow> bool store_outcome" where
  "archive_thread E tid actor st =
     (case get_thread tid actor st of
        None \<Rightarrow> Unchanged False
      | Some r \<Rightarrow> Written (put_thread (r\<lparr>th_archived := True, th_updated := ce_now E 0\<rparr>) tid st) True)"

definition own_thread :: "string \<Rightarrow> string \<Rightarrow> astate \<Rightarrow> thread option" where
  "own_thread tid actor st =
     (case map_of (as_threads st) tid of None \<Rightarrow> None | Some r \<Rightarrow> (if th_actor r \<noteq> actor then None else Some r))"

definition restore_thread :: "call_env \<Rightarrow> string \<Rightarrow> string \<Rightarrow> astate \<Rightarrow> bool store_outcome" where
  "restore_thread E tid actor st =
     (case own_thread tid actor st of
        None \<Rightarrow> Unchanged False
      | Some r \<Rightarrow> Written (put_thread (r\<lparr>th_archived := False, th_updated := ce_now E 0\<rparr>) tid st) True)"

definition delete_thread_permanently :: "string \<Rightarrow> string \<Rightarrow> astate \<Rightarrow> bool store_outcome" where
  "delete_thread_permanently tid actor st =
     (case own_thread tid actor st of
        None \<Rightarrow> Unchanged False
      | Some r \<Rightarrow>
          (if \<not> th_archived r then Unchanged False
           else
             (let of_thread = (\<lambda>d. pget d ''thread_id'' = PStr tid);
                  gone = map (\<lambda>(_, t). pget t ''turn_id'') (filter (\<lambda>(_, t). of_thread t) (as_turns st))
              in Written
                   (st\<lparr>as_threads := dict_del (as_threads st) tid,
                       as_turns := filter (\<lambda>(_, t). \<not> of_thread t) (as_turns st),
                       as_calls := filter (\<lambda>c. \<not> of_thread c \<and> pget c ''turn_id'' \<notin> set gone) (as_calls st)\<rparr>) True)))"

definition rename_thread :: "call_env \<Rightarrow> string \<Rightarrow> string \<Rightarrow> string \<Rightarrow> astate \<Rightarrow> thread option store_outcome" where
  "rename_thread E tid actor title st =
     (case get_thread tid actor st of
        None \<Rightarrow> Unchanged None
      | Some r \<Rightarrow>
          (let r' = r\<lparr>th_title := title_or_default (py_strip title), th_updated := ce_now E 0\<rparr>
           in Written (put_thread r' tid st) (Some r')))"

section \<open>Turns\<close>

definition get_turn :: "string \<Rightarrow> string \<Rightarrow> astate \<Rightarrow> pydict option" where
  "get_turn k actor st =
     (case map_of (as_turns st) k of
        None \<Rightarrow> None
      | Some t \<Rightarrow> (if pget t ''actor_id'' \<noteq> PStr actor then None else Some t))"

definition put_turn :: "string \<Rightarrow> pydict \<Rightarrow> astate \<Rightarrow> astate" where
  "put_turn k t st = st\<lparr>as_turns := dict_set (as_turns st) k t\<rparr>"

definition py_option :: "string option \<Rightarrow> pyval" where
  "py_option s = (case s of None \<Rightarrow> PNone | Some t \<Rightarrow> PStr t)"

definition new_turn ::
    "string \<Rightarrow> string \<Rightarrow> string \<Rightarrow> string \<Rightarrow> pydict option \<Rightarrow> string option \<Rightarrow> int \<Rightarrow> string \<Rightarrow> string \<Rightarrow> pydict" where
  "new_turn k tid actor content context retry_of attempt created updated =
     [(''turn_id'', PStr k), (''thread_id'', PStr tid), (''actor_id'', PStr actor), (''content'', PStr content),
      (''context'', PDict (or_empty context)), (''retry_of'', py_option retry_of), (''attempt'', PInt attempt),
      (''status'', PStr ''running''), (''created_at'', PStr created), (''updated_at'', PStr updated)]"

definition next_attempt :: "string option \<Rightarrow> string \<Rightarrow> astate \<Rightarrow> int option" where
  "next_attempt retry_of actor st =
     (case retry_of of
        Some (c # cs) \<Rightarrow>
          map_option (\<lambda>n. n + 1) (py_int (dict_getd (or_empty (get_turn (c # cs) actor st)) ''attempt'' (PInt 1)))
      | _ \<Rightarrow> Some 1)"

definition start_turn_with_user_message ::
    "call_env \<Rightarrow> string \<Rightarrow> string \<Rightarrow> string \<Rightarrow> pydict option \<Rightarrow> string option \<Rightarrow> astate \<Rightarrow> (pydict \<times> pydict) store_outcome" where
  "start_turn_with_user_message E tid actor content context retry_of st =
     (case get_thread tid actor st of
        None \<Rightarrow> Raised ''KeyError''
      | Some r \<Rightarrow>
          (case next_attempt retry_of actor st of
             None \<Rightarrow> Raised ''ValueError''
           | Some attempt \<Rightarrow>
               (let k = ''turn-'' @ ce_uuid E 0;
                    now = ce_now E 0;
                    t = new_turn k tid actor content context retry_of attempt now now;
                    m = [(''message_id'', PStr (''msg-'' @ ce_uuid E 1)), (''role'', PStr ''user''), (''content'', PStr content),
                         (''created_at'', PStr now),
                         (''metadata'', PDict [(''context'', PDict (or_empty context)), (''turn_id'', PStr k)])]
                in Written (add_message r tid m now (put_turn k t st)) (t, m))))"

definition start_turn ::
    "call_env \<Rightarrow> string \<Rightarrow> string \<Rightarrow> string \<Rightarrow> pydict option \<Rightarrow> string option \<Rightarrow> astate \<Rightarrow> pydict store_outcome" where
  "start_turn E tid actor content context retry_of st =
     (case get_thread tid actor st of
        None \<Rightarrow> Raised ''KeyError''
      | Some r \<Rightarrow>
          (let k = ''turn-'' @ ce_uuid E 0;
               t = new_turn k tid actor content context retry_of 1 (ce_now E 0) (ce_now E 1)
           in Written (put_turn k t st) t))"

definition touch :: "call_env \<Rightarrow> pydict \<Rightarrow> pydict" where
  "touch E d = dict_set d ''updated_at'' (PStr (ce_now E 0))"

definition update_turn :: "call_env \<Rightarrow> string \<Rightarrow> string \<Rightarrow> pydict \<Rightarrow> astate \<Rightarrow> pydict option store_outcome" where
  "update_turn E k actor updates st =
     (case get_turn k actor st of
        None \<Rightarrow> Unchanged None
      | Some t \<Rightarrow> (let t' = touch E (dict_merge t updates) in Written (put_turn k t' st) (Some t')))"

text \<open>The newest turn of a thread that satisfies a condition; \<open>updated_at\<close> is always set, as a string.\<close>

definition string_of :: "pyval \<Rightarrow> string" where
  "string_of v = (case v of PStr s \<Rightarrow> s | _ \<Rightarrow> [])"

definition latest_turn :: "(pydict \<Rightarrow> bool) \<Rightarrow> string \<Rightarrow> string \<Rightarrow> astate \<Rightarrow> pydict option" where
  "latest_turn P tid actor st =
     (case sorted_reverse (\<lambda>t. string_of (dict_getd t ''updated_at'' (PStr [])))
             (filter (\<lambda>t. pget t ''thread_id'' = PStr tid \<and> pget t ''actor_id'' = PStr actor \<and> P t) (map snd (as_turns st))) of
        [] \<Rightarrow> None
      | t # _ \<Rightarrow> Some t)"

definition latest_retryable_turn :: "string \<Rightarrow> string \<Rightarrow> astate \<Rightarrow> pydict option" where
  "latest_retryable_turn = latest_turn (\<lambda>t. pget t ''status'' = PStr ''failed'' \<and> truthy (pget t ''retryable''))"

definition latest_running_turn :: "string \<Rightarrow> string \<Rightarrow> astate \<Rightarrow> pydict option" where
  "latest_running_turn = latest_turn (\<lambda>t. pget t ''status'' = PStr ''running'')"

text \<open>
  \<open>reap_stale_turns\<close>: a time that does not parse is skipped, a naive one cannot be compared with the
  cutoff, so the loop raises with the turns before it already failed.
\<close>

definition reaped :: "call_env \<Rightarrow> pydict \<Rightarrow> pydict" where
  "reaped E t =
     touch E (dict_set (dict_set (dict_set t ''status'' (PStr ''failed'')) ''retryable'' (PBool True)) ''error''
       (PDict [(''code'', PStr ''ASSISTANT_TURN_REAPED''),
               (''message'', PStr ''The assistant turn expired before completion.'')]))"

definition live_status :: "pydict \<Rightarrow> bool" where
  "live_status t = (pget t ''status'' \<in> {PStr ''running'', PStr ''executing''})"

definition is_stale :: "pyrt \<Rightarrow> rat \<Rightarrow> pydict \<Rightarrow> string + bool" where
  "is_stale R cutoff t =
     (if \<not> live_status t then Inr False
      else (case iso_of R (py_str R (dict_getd t ''updated_at'' (PStr []))) of
        None \<Rightarrow> Inr False
      | Some (updated, zoned) \<Rightarrow> (if zoned then Inr (updated < cutoff) else Inl ''TypeError'')))"

fun reap_each :: "pyrt \<Rightarrow> call_env \<Rightarrow> rat \<Rightarrow> (string \<times> pydict) list \<Rightarrow> (string \<times> pydict) list \<times> nat \<times> string option" where
  "reap_each R E cutoff [] = ([], 0, None)"
| "reap_each R E cutoff ((k, t) # ts) =
     (case is_stale R cutoff t of
        Inl e \<Rightarrow> ((k, t) # ts, 0, Some e)
      | Inr stale \<Rightarrow>
          (case reap_each R E cutoff ts of
             (ts', n, e) \<Rightarrow> ((k, if stale then reaped E t else t) # ts', (if stale then Suc n else n), e)))"

definition reap_cutoff :: "call_env \<Rightarrow> int \<Rightarrow> rat" where
  "reap_cutoff E max_age = ce_clock E - of_int (max 30 max_age)"

definition reap_stale_turns :: "pyrt \<Rightarrow> call_env \<Rightarrow> int \<Rightarrow> astate \<Rightarrow> nat store_outcome" where
  "reap_stale_turns R E max_age st =
     (case reap_each R E (reap_cutoff E max_age) (as_turns st) of
        (ts, n, Some e) \<Rightarrow> Half (st\<lparr>as_turns := ts\<rparr>) e
      | (ts, n, None) \<Rightarrow> (if 0 < n then Written (st\<lparr>as_turns := ts\<rparr>) n else Unchanged 0))"

definition claim_turn :: "call_env \<Rightarrow> string \<Rightarrow> string \<Rightarrow> astate \<Rightarrow> pydict option store_outcome" where
  "claim_turn E k actor st =
     (case get_turn k actor st of
        None \<Rightarrow> Unchanged None
      | Some t \<Rightarrow>
          (if pget t ''status'' \<noteq> PStr ''running'' then Unchanged None
           else (let t' = touch E (dict_set t ''status'' (PStr ''executing'')) in Written (put_turn k t' st) (Some t'))))"

definition heartbeat_turn :: "call_env \<Rightarrow> string \<Rightarrow> string \<Rightarrow> astate \<Rightarrow> bool store_outcome" where
  "heartbeat_turn E k actor st =
     (case get_turn k actor st of
        None \<Rightarrow> Unchanged False
      | Some t \<Rightarrow> (if \<not> live_status t then Unchanged False else Written (put_turn k (touch E t) st) True))"

section \<open>Tool calls, memories and action intents\<close>

definition record_tool_call :: "call_env \<Rightarrow> pydict \<Rightarrow> astate \<Rightarrow> pydict store_outcome" where
  "record_tool_call E payload st =
     (let c = dict_merge payload
                [(''tool_call_id'', py_or (pget payload ''tool_call_id'') (PStr (''tool-'' @ ce_uuid E 0))),
                 (''created_at'', py_or (pget payload ''created_at'') (PStr (ce_now E 0))),
                 (''status'', dict_getd payload ''status'' (PStr ''running''))]
      in Written (st\<lparr>as_calls := as_calls st @ [c]\<rparr>) c)"

definition update_tool_call :: "call_env \<Rightarrow> string \<Rightarrow> pydict \<Rightarrow> astate \<Rightarrow> pydict option store_outcome" where
  "update_tool_call E k updates st =
     (case update_first (\<lambda>c. pget c ''tool_call_id'' = PStr k) (\<lambda>c. touch E (dict_merge c updates)) (as_calls st) of
        None \<Rightarrow> Unchanged None
      | Some (c, cs) \<Rightarrow> Written (st\<lparr>as_calls := cs\<rparr>) (Some c))"

definition add_memory_candidate :: "call_env \<Rightarrow> string \<Rightarrow> string \<Rightarrow> string \<Rightarrow> string \<Rightarrow> astate \<Rightarrow> pydict store_outcome" where
  "add_memory_candidate E actor content source_thread_id scope st =
     (let m = [(''candidate_id'', PStr (''memory-'' @ ce_uuid E 0)), (''actor_id'', PStr actor), (''scope'', PStr scope),
               (''content'', PStr (take 1000 content)), (''source_thread_id'', PStr source_thread_id),
               (''status'', PStr ''pending''), (''created_at'', PStr (ce_now E 0))]
      in Written (st\<lparr>as_memories := as_memories st @ [m]\<rparr>) m)"

definition update_memory_candidate :: "call_env \<Rightarrow> string \<Rightarrow> string \<Rightarrow> string \<Rightarrow> astate \<Rightarrow> pydict option store_outcome" where
  "update_memory_candidate E k actor status st =
     (if status \<notin> {''approved'', ''rejected''} then Raised ''memory candidate status must be approved or rejected''
      else (case update_first (\<lambda>m. pget m ''candidate_id'' = PStr k \<and> pget m ''actor_id'' = PStr actor)
                   (\<lambda>m. dict_set (dict_set m ''status'' (PStr status)) ''reviewed_at'' (PStr (ce_now E 0))) (as_memories st) of
        None \<Rightarrow> Unchanged None
      | Some (m, ms) \<Rightarrow> Written (st\<lparr>as_memories := ms\<rparr>) (Some m)))"

definition list_memory_candidates :: "string \<Rightarrow> astate \<Rightarrow> pydict list" where
  "list_memory_candidates actor st = filter (\<lambda>m. pget m ''actor_id'' = PStr actor) (as_memories st)"

definition search_approved_memories :: "pyrt \<Rightarrow> string \<Rightarrow> string \<Rightarrow> int \<Rightarrow> astate \<Rightarrow> pydict list" where
  "search_approved_memories R actor query limit st =
     (let tokens = fromkeys (map py_lower (filter (\<lambda>w. 2 < length (py_strip w)) (py_words query)));
          score = (\<lambda>m. length (filter (contains (py_lower (py_str R (dict_getd m ''content'' (PStr []))))) tokens));
          ranked = filter (\<lambda>m. tokens = [] \<or> 0 < score m)
                     (filter (\<lambda>m. pget m ''status'' = PStr ''approved'') (list_memory_candidates actor st))
      in take (nat (max 1 (min limit 100)))
           (sorted_reverse (\<lambda>m. (score m, string_of (dict_getd m ''created_at'' (PStr [])))) ranked))"

text \<open>An action intent expires ten minutes after its creation, unless it says when.\<close>

definition save_action_intent :: "call_env \<Rightarrow> pydict \<Rightarrow> astate \<Rightarrow> pydict store_outcome" where
  "save_action_intent E payload st =
     (let created = py_or (pget payload ''created_at'') (PStr (ce_now E 0));
          record = (\<lambda>expires. dict_merge payload
            [(''intent_id'', py_or (pget payload ''intent_id'') (PStr (''intent-'' @ ce_uuid E 0))),
             (''created_at'', created), (''expires_at'', expires), (''status'', PStr ''pending_confirmation'')])
      in if truthy (pget payload ''expires_at'')
         then Written (st\<lparr>as_intents := as_intents st @ [record (pget payload ''expires_at'')]\<rparr>)
                (record (pget payload ''expires_at''))
         else (case created of
             PStr s \<Rightarrow> (case ce_later E s of
                 None \<Rightarrow> Raised ''ValueError''
               | Some e \<Rightarrow> Written (st\<lparr>as_intents := as_intents st @ [record (PStr e)]\<rparr>) (record (PStr e)))
           | _ \<Rightarrow> Raised ''TypeError''))"

fun first_match :: "('a \<Rightarrow> bool) \<Rightarrow> 'a list \<Rightarrow> 'a option" where
  "first_match P [] = None"
| "first_match P (x # xs) = (if P x then Some x else first_match P xs)"

definition get_action_intent :: "string \<Rightarrow> astate \<Rightarrow> pydict option" where
  "get_action_intent k st = first_match (\<lambda>i. pget i ''intent_id'' = PStr k) (as_intents st)"

definition claim_action_intent :: "call_env \<Rightarrow> string \<Rightarrow> string \<Rightarrow> astate \<Rightarrow> pydict option store_outcome" where
  "claim_action_intent E k actor st =
     (case update_first (\<lambda>i. pget i ''intent_id'' = PStr k \<and> pget i ''actor_id'' = PStr actor
                   \<and> pget i ''status'' = PStr ''pending_confirmation'')
             (\<lambda>i. touch E (dict_set i ''status'' (PStr ''executing''))) (as_intents st) of
        None \<Rightarrow> Unchanged None
      | Some (i, is) \<Rightarrow> Written (st\<lparr>as_intents := is\<rparr>) (Some i))"

definition update_action_intent :: "call_env \<Rightarrow> string \<Rightarrow> pydict \<Rightarrow> astate \<Rightarrow> pydict option store_outcome" where
  "update_action_intent E k updates st =
     (case update_first (\<lambda>i. pget i ''intent_id'' = PStr k) (\<lambda>i. touch E (dict_merge i updates)) (as_intents st) of
        None \<Rightarrow> Unchanged None
      | Some (i, is) \<Rightarrow> Written (st\<lparr>as_intents := is\<rparr>) (Some i))"

section \<open>Calls\<close>

datatype store_op =
    CreateThread string string
  | AppendMessage string string string string "pydict option"
  | StartTurnMessage string string string "pydict option" "string option"
  | StartTurn string string string "pydict option" "string option"
  | UpdateTurn string string pydict
  | ReapTurns int
  | ClaimTurn string string
  | HeartbeatTurn string string
  | RecordCall pydict
  | UpdateCall string pydict
  | UpdateMessage string string string pydict
  | ArchiveThread string string
  | RestoreThread string string
  | DeleteThread string string
  | RenameThread string string string
  | AddMemory string string string string
  | ReviewMemory string string string
  | SaveIntent pydict
  | ClaimIntent string string
  | UpdateIntent string pydict
  | Reload

definition found :: "'a option \<Rightarrow> bool" where
  "found x = (case x of None \<Rightarrow> False | Some _ \<Rightarrow> True)"

text \<open>What a call does, with its answer reduced to whether it did something.\<close>

definition op_outcome :: "pyrt \<Rightarrow> call_env \<Rightarrow> store_op \<Rightarrow> astate \<Rightarrow> bool store_outcome" where
  "op_outcome R E op st =
     (case op of
        CreateThread a title \<Rightarrow> map_store_outcome (\<lambda>_. True) (create_thread E a title st)
      | AppendMessage tid a role content meta \<Rightarrow> map_store_outcome (\<lambda>_. True) (append_message E tid a role content meta st)
      | StartTurnMessage tid a content context retry_of \<Rightarrow>
          map_store_outcome (\<lambda>_. True) (start_turn_with_user_message E tid a content context retry_of st)
      | StartTurn tid a content context retry_of \<Rightarrow> map_store_outcome (\<lambda>_. True) (start_turn E tid a content context retry_of st)
      | UpdateTurn k a updates \<Rightarrow> map_store_outcome found (update_turn E k a updates st)
      | ReapTurns age \<Rightarrow> map_store_outcome (\<lambda>n. 0 < n) (reap_stale_turns R E age st)
      | ClaimTurn k a \<Rightarrow> map_store_outcome found (claim_turn E k a st)
      | HeartbeatTurn k a \<Rightarrow> heartbeat_turn E k a st
      | RecordCall d \<Rightarrow> map_store_outcome (\<lambda>_. True) (record_tool_call E d st)
      | UpdateCall k d \<Rightarrow> map_store_outcome found (update_tool_call E k d st)
      | UpdateMessage tid mid a meta \<Rightarrow> map_store_outcome found (update_message_metadata E tid mid a meta st)
      | ArchiveThread tid a \<Rightarrow> archive_thread E tid a st
      | RestoreThread tid a \<Rightarrow> restore_thread E tid a st
      | DeleteThread tid a \<Rightarrow> delete_thread_permanently tid a st
      | RenameThread tid a title \<Rightarrow> map_store_outcome found (rename_thread E tid a title st)
      | AddMemory a content src scope \<Rightarrow> map_store_outcome (\<lambda>_. True) (add_memory_candidate E a content src scope st)
      | ReviewMemory k a status \<Rightarrow> map_store_outcome found (update_memory_candidate E k a status st)
      | SaveIntent d \<Rightarrow> map_store_outcome (\<lambda>_. True) (save_action_intent E d st)
      | ClaimIntent k a \<Rightarrow> map_store_outcome found (claim_action_intent E k a st)
      | UpdateIntent k d \<Rightarrow> map_store_outcome found (update_action_intent E k d st)
      | Reload \<Rightarrow> Unchanged True)"

definition store_call :: "pyrt \<Rightarrow> call_env \<times> store_op \<Rightarrow> astore \<Rightarrow> astore \<times> (string + bool)" where
  "store_call R c s =
     (case c of (E, op) \<Rightarrow>
        (if op = Reload then (reload_store s, Inr True) else settle E (op_outcome R E op (st_state s)) s))"

definition store_run :: "pyrt \<Rightarrow> (call_env \<times> store_op) list \<Rightarrow> astore \<Rightarrow> astore" where
  "store_run R cs s = foldl (\<lambda>s c. fst (store_call R c s)) s cs"

section \<open>Lemmas\<close>

text \<open>The state in memory after a call.\<close>

definition after :: "'a store_outcome \<Rightarrow> astate \<Rightarrow> astate" where
  "after r st = (case r of Unchanged _ \<Rightarrow> st | Written st' _ \<Rightarrow> st' | Raised _ \<Rightarrow> st | Half st' _ \<Rightarrow> st')"

lemma after_simps [simp]:
  "after (Unchanged x) st = st" "after (Written st' x) st = st'" "after (Raised e) st = st" "after (Half st' e) st = st'"
  by (simp_all add: after_def)

lemma after_map [simp]: "after (map_store_outcome f r) st = after r st"
  by (cases r) simp_all

lemma settle_state [simp]: "st_state (fst (settle E r s)) = after r (st_state s)"
  by (cases r) (simp_all add: settle_def)

lemma settle_file: "st_file (fst (settle E r s)) = (case r of Written st x \<Rightarrow> (if ce_write E then Saved st else st_file s) | _ \<Rightarrow> st_file s)"
  by (cases r) (simp_all add: settle_def)

lemma call_state:
  "st_state (fst (store_call R (E, op) s)) =
     (if op = Reload then load_state (st_file s) else after (op_outcome R E op (st_state s)) (st_state s))"
  by (simp add: store_call_def reload_store_def)

subsection \<open>Reaping\<close>

lemma reap_lookup:
  assumes "reap_each R E c ts = (ts', n, e)"
  shows "map_of ts' k = (case map_of ts k of None \<Rightarrow> None | Some t \<Rightarrow> map_of ts' k)
    \<and> (map_of ts k = Some t \<longrightarrow> map_of ts' k = Some t \<or> map_of ts' k = Some (reaped E t))"
  using assms
  by (induction R E c ts arbitrary: ts' n e rule: reap_each.induct) (auto split: sum.splits prod.splits option.splits if_splits)

lemma reap_keys: "map fst (fst (reap_each R E c ts)) = map fst ts"
  by (induction R E c ts rule: reap_each.induct) (auto split: sum.splits prod.splits)

lemma reap_Some:
  assumes "map_of (fst (reap_each R E c ts)) k = Some t'"
  obtains t where "map_of ts k = Some t" "t' = t \<or> t' = reaped E t"
proof -
  obtain ts' n e where r: "reap_each R E c ts = (ts', n, e)" by (cases "reap_each R E c ts") auto
  from reap_lookup [OF r, of k] assms r that show thesis
    by (cases "map_of ts k") auto
qed

lemma reap_after:
  "as_turns (after (reap_stale_turns R E age st) st) = fst (reap_each R E (reap_cutoff E age) (as_turns st))"
proof -
  have z: "n = 0 \<Longrightarrow> ts' = ts" if "reap_each R E c ts = (ts', n, None)" for ts' n c ts
    using that by (induction R E c ts arbitrary: ts' n rule: reap_each.induct) (auto split: sum.splits prod.splits if_splits)
  show ?thesis
    by (auto simp: reap_stale_turns_def split: prod.split option.split dest: z)
qed

lemma reaped_status [simp]: "pget (reaped E t) ''status'' = PStr ''failed''"
  by (simp add: reaped_def touch_def)

lemma touch_get [simp]: "pget (touch E d) k = (if k = ''updated_at'' then PStr (ce_now E 0) else pget d k)"
  by (simp add: touch_def)

subsection \<open>What each call changes\<close>

lemma add_message_parts [simp]:
  "as_turns (add_message r tid m now st) = as_turns st" "as_memories (add_message r tid m now st) = as_memories st"
  "as_threads (add_message r tid m now st) = dict_set (as_threads st) tid (r\<lparr>th_messages := th_messages r @ [m], th_updated := now\<rparr>)"
  by (simp_all add: add_message_def put_thread_def)

lemma put_parts [simp]:
  "as_turns (put_thread r tid st) = as_turns st" "as_memories (put_thread r tid st) = as_memories st"
  "as_threads (put_thread r tid st) = dict_set (as_threads st) tid r"
  "as_threads (put_turn k t st) = as_threads st" "as_memories (put_turn k t st) = as_memories st"
  "as_turns (put_turn k t st) = dict_set (as_turns st) k t"
  by (simp_all add: put_thread_def put_turn_def)

lemmas op_defs = create_thread_def append_message_def start_turn_with_user_message_def start_turn_def update_turn_def
  claim_turn_def heartbeat_turn_def record_tool_call_def update_tool_call_def update_message_metadata_def
  archive_thread_def restore_thread_def delete_thread_permanently_def rename_thread_def add_memory_candidate_def
  update_memory_candidate_def save_action_intent_def claim_action_intent_def update_action_intent_def

subsection \<open>Claiming a turn\<close>

definition turn_free :: "string \<Rightarrow> astate \<Rightarrow> bool" where
  "turn_free k st = (case map_of (as_turns st) k of None \<Rightarrow> False | Some t \<Rightarrow> pget t ''status'' = PStr ''running'')"

definition claims_turn :: "string \<Rightarrow> call_env \<times> store_op \<Rightarrow> bool" where
  "claims_turn k c = (case snd c of ClaimTurn k' a \<Rightarrow> k' = k | _ \<Rightarrow> False)"

text \<open>A turn comes back to the state in which it can be claimed only by an update that sets this state, or by a start that
  draws its identifier again.\<close>

definition reopens_turn :: "string \<Rightarrow> call_env \<times> store_op \<Rightarrow> bool" where
  "reopens_turn k c =
     (case snd c of
        UpdateTurn k' a updates \<Rightarrow> k' = k \<and> (''status'', PStr ''running'') \<in> set updates
      | StartTurn tid a content context retry_of \<Rightarrow> ''turn-'' @ ce_uuid (fst c) 0 = k
      | StartTurnMessage tid a content context retry_of \<Rightarrow> ''turn-'' @ ce_uuid (fst c) 0 = k
      | _ \<Rightarrow> False)"

lemma free_reaped: "turn_free k st \<or> \<not> turn_free k (after (reap_stale_turns R E age st) st)"
proof -
  have "\<exists>t. map_of (as_turns st) k = Some t \<and> (t' = t \<or> t' = reaped E t)"
    if "map_of (fst (reap_each R E (reap_cutoff E age) (as_turns st))) k = Some t'" for t'
    using that by (rule reap_Some) blast
  then show ?thesis by (fastforce simp: turn_free_def reap_after split: option.splits)
qed

definition wf_store :: "astore \<Rightarrow> bool" where
  "wf_store s = (wf_dict (as_turns (st_state s)) \<and> wf_dict (as_turns (load_state (st_file s))))"

lemma wf_filter: "wf_dict d \<Longrightarrow> wf_dict (filter P d)"
  by (induction d) auto

lemma map_of_filter: "wf_dict d \<Longrightarrow> map_of (filter P d) k = (case map_of d k of None \<Rightarrow> None | Some v \<Rightarrow> if P (k, v) then Some v else None)"
  by (induction d) (auto split: option.splits simp: map_of_eq_None_iff dest: map_of_SomeD)

lemma op_wf: "wf_dict (as_turns st) \<Longrightarrow> wf_dict (as_turns (after (op_outcome R E op st) st))"
  by (cases op)
    (auto simp: op_outcome_def op_defs Let_def reap_after reap_keys wf_filter simp del: map_of_dict_set
      split: option.splits if_splits pyval.splits prod.splits)

lemma settle_wf:
  assumes "wf_store s" "wf_dict (as_turns (after r (st_state s)))" shows "wf_store (fst (settle E r s))"
  using assms by (cases r) (simp_all add: wf_store_def settle_def load_state_def)

lemma call_wf: "wf_store s \<Longrightarrow> wf_store (fst (store_call R c s))"
proof (cases c)
  case (Pair E op)
  assume "wf_store s"
  then show ?thesis
    using settle_wf [of s "op_outcome R E op (st_state s)" E] op_wf [of "st_state s" R E op] Pair
    by (auto simp: store_call_def reload_store_def wf_store_def)
qed

text \<open>The ways a call changes a turn, or makes one.\<close>

definition turn_steps :: "call_env \<Rightarrow> store_op \<Rightarrow> astate \<Rightarrow> string \<Rightarrow> pydict \<Rightarrow> pydict \<Rightarrow> bool" where
  "turn_steps E op st k t t' =
     (case op of
        UpdateTurn k' a updates \<Rightarrow> k' = k \<and> pget t ''actor_id'' = PStr a \<and> t' = touch E (dict_merge t updates)
      | ClaimTurn k' a \<Rightarrow> k' = k \<and> pget t ''actor_id'' = PStr a \<and> t' = touch E (dict_set t ''status'' (PStr ''executing''))
      | HeartbeatTurn k' a \<Rightarrow> k' = k \<and> pget t ''actor_id'' = PStr a \<and> t' = touch E t
      | ReapTurns age \<Rightarrow> t' = reaped E t
      | _ \<Rightarrow> False)"

definition makes_turn :: "call_env \<Rightarrow> store_op \<Rightarrow> astate \<Rightarrow> string \<Rightarrow> pydict \<Rightarrow> bool" where
  "makes_turn E op st k t =
     (case op of
        StartTurn tid a content context retry_of \<Rightarrow>
          k = ''turn-'' @ ce_uuid E 0 \<and> get_thread tid a st \<noteq> None
          \<and> t = new_turn k tid a content context retry_of 1 (ce_now E 0) (ce_now E 1)
      | StartTurnMessage tid a content context retry_of \<Rightarrow>
          k = ''turn-'' @ ce_uuid E 0 \<and> get_thread tid a st \<noteq> None
          \<and> (\<exists>n. t = new_turn k tid a content context retry_of n (ce_now E 0) (ce_now E 0))
      | _ \<Rightarrow> False)"

lemma turn_origin:
  assumes w: "wf_dict (as_turns st)" and "map_of (as_turns (after (op_outcome R E op st) st)) k = Some t'"
  shows "map_of (as_turns st) k = Some t' \<or> makes_turn E op st k t'
    \<or> (\<exists>t. map_of (as_turns st) k = Some t \<and> turn_steps E op st k t t')"
proof (cases op)
  case (ReapTurns age)
  then have "map_of (fst (reap_each R E (reap_cutoff E age) (as_turns st))) k = Some t'"
    using assms(2) by (simp add: op_outcome_def reap_after)
  then show ?thesis using ReapTurns by (auto elim!: reap_Some simp: turn_steps_def simp del: map_of_eq_Some_iff)
qed (insert assms(2), auto simp: op_outcome_def op_defs Let_def map_of_filter [OF w] get_turn_def
      turn_steps_def makes_turn_def simp del: map_of_eq_Some_iff
      split: option.splits if_splits pyval.splits prod.splits)

lemma merged_lookup: "map_of (dict_merge t u) k = Some v \<Longrightarrow> (k, v) \<in> set u \<or> map_of t k = Some v"
proof (induction u arbitrary: t)
  case (Cons x u)
  obtain j w where x: "x = (j, w)" by fastforce
  from Cons.prems have "map_of (dict_merge (dict_set t j w) u) k = Some v" by (simp add: dict_merge_def x)
  from Cons.IH [OF this] show ?case by (auto simp: x split: if_splits)
qed (simp add: dict_merge_def)

lemma merged_status:
  assumes "pget (touch E (dict_merge t u)) ''status'' = PStr ''running''" "(''status'', PStr ''running'') \<notin> set u"
  shows "pget t ''status'' = PStr ''running''"
proof -
  have "pget (dict_merge t u) ''status'' = PStr ''running''" using assms(1) by (simp add: touch_def pget_def dict_getd_def)
  then show ?thesis using assms(2)
    using merged_lookup [of t u "''status''" "PStr ''running''"]
    by (simp add: pget_def dict_getd_def split: option.splits)
qed

lemma stays_claimed:
  assumes "wf_dict (as_turns st)" "\<not> reopens_turn k (E, op)" "\<not> turn_free k st"
  shows "\<not> turn_free k (after (op_outcome R E op st) st)"
proof
  assume "turn_free k (after (op_outcome R E op st) st)"
  then obtain t' where t': "map_of (as_turns (after (op_outcome R E op st) st)) k = Some t'" "pget t' ''status'' = PStr ''running''"
    by (auto simp: turn_free_def split: option.splits simp del: map_of_eq_Some_iff)
  have merged: "pget (touch E (dict_merge t u)) ''status'' = PStr ''running'' \<Longrightarrow> (''status'', PStr ''running'') \<notin> set u
      \<Longrightarrow> pget t ''status'' = PStr ''running''" for t u
    by (rule merged_status)
  from turn_origin [OF assms(1) t'(1)] show False
    using t'(2) assms(2,3) merged
    by (auto simp: turn_free_def turn_steps_def makes_turn_def reopens_turn_def simp del: map_of_eq_Some_iff split: store_op.splits)
qed

text \<open>A call that leaves the turn taken in memory leaves it taken in the file: a write copies the memory.\<close>

lemma stays_claimed_in_file:
  assumes "\<not> turn_free k (after (op_outcome R E op (st_state s)) (st_state s))" "\<not> turn_free k (load_state (st_file s))"
  shows "\<not> turn_free k (load_state (st_file (fst (settle E (op_outcome R E op (st_state s)) s))))"
  using assms by (cases "op_outcome R E op (st_state s)") (simp_all add: settle_def load_state_def)

lemma claim_effect:
  "snd (settle E (op_outcome R E (ClaimTurn k a) st) s) = Inr True \<Longrightarrow> turn_free k st
     \<and> \<not> turn_free k (after (op_outcome R E (ClaimTurn k a) st) st)"
  by (auto simp: op_outcome_def claim_turn_def settle_def Let_def turn_free_def get_turn_def found_def
      split: option.splits if_splits)

interpretation turn_claims: claimable wf_store
  "\<lambda>c s. claims_turn k c \<and> snd (store_call R c s) = Inr True" "\<lambda>s. turn_free k (st_state s) \<or> turn_free k (load_state (st_file s))" "reopens_turn k"
  "\<lambda>c s. fst (store_call R c s)" for k R
proof
  fix s :: astore and c :: "call_env \<times> store_op"
  assume ok: "wf_store s"
  show "wf_store (fst (store_call R c s))" using ok by (rule call_wf)
  obtain E op where c: "c = (E, op)" by (cases c)
  { assume h: "claims_turn k c \<and> snd (store_call R c s) = Inr True"
    then obtain a where op: "op = ClaimTurn k a" using c by (cases op) (auto simp: claims_turn_def)
    note e = claim_effect [of E R k a "st_state s" s]
    show "turn_free k (st_state s) \<or> turn_free k (load_state (st_file s))" using h e c op by (simp add: store_call_def)
    show "\<not> (turn_free k (st_state (fst (store_call R c s))) \<or> turn_free k (load_state (st_file (fst (store_call R c s)))))"
      using h e c op by (auto simp: store_call_def settle_def load_state_def split: store_outcome.splits if_splits) }
  { assume r: "\<not> reopens_turn k c" and t: "\<not> (turn_free k (st_state s) \<or> turn_free k (load_state (st_file s)))"
    have "\<not> turn_free k (after (op_outcome R E op (st_state s)) (st_state s))"
      using stays_claimed [of "st_state s" k E op R] ok r c t by (simp add: wf_store_def)
    then show "\<not> (turn_free k (st_state (fst (store_call R c s))) \<or> turn_free k (load_state (st_file (fst (store_call R c s)))))"
      using stays_claimed_in_file [of k R E op s] c t by (simp add: store_call_def reload_store_def) }
qed

subsection \<open>Ownership\<close>

text \<open>Every turn belongs to the actor of its thread, which exists.\<close>

definition turn_owned :: "(string \<times> thread) list \<Rightarrow> string \<Rightarrow> pydict \<Rightarrow> bool" where
  "turn_owned ths k t =
     (pget t ''turn_id'' = PStr k
      \<and> (\<exists>tid r. pget t ''thread_id'' = PStr tid \<and> map_of ths tid = Some r \<and> pget t ''actor_id'' = PStr (th_actor r)))"

definition owned :: "astate \<Rightarrow> bool" where
  "owned st = (wf_dict (as_threads st) \<and> wf_dict (as_turns st)
     \<and> (\<forall>k t. map_of (as_turns st) k = Some t \<longrightarrow> turn_owned (as_threads st) k t))"

definition identity_keys :: "string list" where
  "identity_keys = [''turn_id'', ''thread_id'', ''actor_id'']"

text \<open>A new thread gets a new identifier, and an update of a turn does not touch its identity.\<close>

definition op_ok :: "call_env \<Rightarrow> store_op \<Rightarrow> astate \<Rightarrow> bool" where
  "op_ok E op st =
     (case op of
        CreateThread a title \<Rightarrow> \<not> dict_has (as_threads st) (''thread-'' @ ce_uuid E 0)
      | UpdateTurn k a updates \<Rightarrow> list_all (\<lambda>(x, _). x \<notin> set identity_keys) updates
      | _ \<Rightarrow> True)"

fun ok_run :: "pyrt \<Rightarrow> (call_env \<times> store_op) list \<Rightarrow> astore \<Rightarrow> bool" where
  "ok_run R [] s = True"
| "ok_run R (c # cs) s = (op_ok (fst c) (snd c) (st_state s) \<and> ok_run R cs (fst (store_call R c s)))"

lemma merge_identity:
  assumes "list_all (\<lambda>(x, _). x \<notin> set ids) u" "k \<in> set ids" shows "pget (dict_merge d u) k = pget d k"
  using assms unfolding dict_merge_def by (induction u arbitrary: d) auto

lemma get_thread_Some: "get_thread tid a st = Some r \<Longrightarrow> map_of (as_threads st) tid = Some r \<and> th_actor r = a"
  by (auto simp: get_thread_def split: option.splits if_splits)

lemma own_thread_Some: "own_thread tid a st = Some r \<Longrightarrow> map_of (as_threads st) tid = Some r \<and> th_actor r = a"
  by (auto simp: own_thread_def split: option.splits if_splits)

lemmas thread_Some = get_thread_Some own_thread_Some

text \<open>A thread keeps its actor until it is deleted.\<close>

lemma reap_threads [simp]: "as_threads (after (reap_stale_turns R E age st) st) = as_threads st"
  "as_memories (after (reap_stale_turns R E age st) st) = as_memories st"
  by (auto simp: reap_stale_turns_def split: prod.split option.split)

lemma thread_stays:
  assumes w: "wf_dict (as_threads st)" and ok: "op_ok E op st" and r: "map_of (as_threads st) tid = Some r"
    and d: "\<And>a. op = DeleteThread tid a \<Longrightarrow> th_actor r \<noteq> a \<or> \<not> th_archived r"
  shows "\<exists>r'. map_of (as_threads (after (op_outcome R E op st) st)) tid = Some r' \<and> th_actor r' = th_actor r"
proof (cases op)
  case (CreateThread a title)
  then show ?thesis using ok r
    by (auto simp: op_outcome_def op_defs Let_def op_ok_def dict_has_iff simp del: map_of_eq_Some_iff)
next
  case (DeleteThread tid' a)
  then show ?thesis using r d
    by (auto simp: op_outcome_def op_defs Let_def own_thread_def dict_simps split: option.splits if_splits simp del: map_of_eq_Some_iff)
qed (insert r, auto simp: op_outcome_def op_defs Let_def simp del: map_of_eq_Some_iff dest!: thread_Some
      split: option.splits if_splits pyval.splits prod.splits)

lemma threads_wf: "wf_dict (as_threads st) \<Longrightarrow> wf_dict (as_threads (after (op_outcome R E op st) st))"
  by (cases op)
    (auto simp: op_outcome_def op_defs Let_def simp del: map_of_dict_set
      split: option.splits if_splits pyval.splits prod.splits)

lemma turn_owned_mono:
  assumes "turn_owned ths k t" "pget t ''turn_id'' = pget t' ''turn_id''" "pget t ''thread_id'' = pget t' ''thread_id''"
    "pget t ''actor_id'' = pget t' ''actor_id''"
  shows "turn_owned ths k t'"
  using assms by (simp add: turn_owned_def)

lemma steps_identity:
  assumes "turn_steps E op st k t t'" "op_ok E op st" "x \<in> set identity_keys" shows "pget t' x = pget t x"
proof -
  have x: "x \<noteq> ''updated_at'' \<and> x \<noteq> ''status'' \<and> x \<noteq> ''retryable'' \<and> x \<noteq> ''error''"
    using assms(3) by (auto simp: identity_keys_def)
  show ?thesis using assms x
    by (cases op) (auto simp: turn_steps_def op_ok_def reaped_def merge_identity)
qed

lemma owned_before:
  assumes "owned st" "op_ok E op st" "map_of (as_turns (after (op_outcome R E op st) st)) k = Some t'"
  shows "turn_owned (as_threads st) k t'"
proof -
  have w: "wf_dict (as_turns st)" and o: "map_of (as_turns st) k = Some t \<Longrightarrow> turn_owned (as_threads st) k t" for t
    using assms(1) by (simp_all add: owned_def del: map_of_eq_Some_iff)
  from turn_origin [OF w assms(3)] show ?thesis
  proof (elim disjE exE conjE)
    fix t assume t: "map_of (as_turns st) k = Some t" "turn_steps E op st k t t'"
    note i = steps_identity [OF t(2) assms(2)]
    show ?thesis by (rule turn_owned_mono [OF o [OF t(1)]]) (simp_all add: i identity_keys_def)
  next
    assume "makes_turn E op st k t'"
    then show ?thesis
      by (cases op) (auto simp: makes_turn_def turn_owned_def new_turn_def pget_def dict_getd_def dest!: get_thread_Some
          simp del: map_of_eq_Some_iff)
  qed (rule o)
qed

lemma op_owned:
  assumes "owned st" "op_ok E op st" shows "owned (after (op_outcome R E op st) st)"
proof -
  let ?st = "after (op_outcome R E op st) st"
  have w: "wf_dict (as_threads st)" "wf_dict (as_turns st)" using assms(1) by (simp_all add: owned_def)
  have "turn_owned (as_threads ?st) k t" if t: "map_of (as_turns ?st) k = Some t" for k t
  proof -
    obtain tid r where o: "pget t ''turn_id'' = PStr k" "pget t ''thread_id'' = PStr tid" "map_of (as_threads st) tid = Some r"
      "pget t ''actor_id'' = PStr (th_actor r)"
      using owned_before [OF assms t] by (auto simp: turn_owned_def simp del: map_of_eq_Some_iff)
    have "th_actor r \<noteq> a \<or> \<not> th_archived r" if op: "op = DeleteThread tid a" for a
    proof (rule ccontr)
      assume "\<not> (th_actor r \<noteq> a \<or> \<not> th_archived r)"
      then have "as_turns ?st = filter (\<lambda>(_, t). pget t ''thread_id'' \<noteq> PStr tid) (as_turns st)"
        using op o(3) by (simp add: op_outcome_def op_defs own_thread_def Let_def)
      then show False using t o(2) by (auto simp: map_of_filter [OF w(2)] split: option.splits if_splits simp del: map_of_eq_Some_iff)
    qed
    from thread_stays [OF w(1) assms(2) o(3) this] obtain r' where
      "map_of (as_threads ?st) tid = Some r'" "th_actor r' = th_actor r" by blast
    then show ?thesis using o(1,2,4) by (simp add: turn_owned_def del: map_of_eq_Some_iff)
  qed
  then show ?thesis using threads_wf [OF w(1)] op_wf [OF w(2)] by (simp add: owned_def del: map_of_eq_Some_iff)
qed

lemma call_owned:
  assumes "owned (st_state s)" "owned (load_state (st_file s))" "op_ok (fst c) (snd c) (st_state s)"
  shows "owned (st_state (fst (store_call R c s))) \<and> owned (load_state (st_file (fst (store_call R c s))))"
proof (cases c)
  case (Pair E op)
  have "owned (after (op_outcome R E op (st_state s)) (st_state s))" using op_owned assms(1,3) Pair by simp
  then show ?thesis
    using assms(1,2) unfolding Pair
    by (cases "op_outcome R E op (st_state s)") (simp_all add: store_call_def reload_store_def settle_def load_state_def)
qed

lemma run_owned:
  "owned (st_state s) \<Longrightarrow> owned (load_state (st_file s)) \<Longrightarrow> ok_run R cs s \<Longrightarrow> owned (st_state (store_run R cs s))"
  unfolding store_run_def
proof (induction cs arbitrary: s)
  case (Cons c cs)
  then show ?case using call_owned [of s c R] by simp
qed simp

definition new_store :: astore where
  "new_store = \<lparr>st_state = empty_state, st_file = NoFile\<rparr>"

lemma new_owned: "owned (st_state new_store) \<and> owned (load_state (st_file new_store))"
  by (simp add: new_store_def owned_def empty_state_def load_state_def)

lemma filter_dict_set:
  assumes "\<not> P (k, v)" "map_of d k = None \<or> \<not> P (k, the (map_of d k))" shows "filter P (dict_set d k v) = filter P d"
  using assms by (induction d) (auto split: if_splits)

lemma filter_dict_del:
  assumes "map_of d k = None \<or> \<not> P (k, the (map_of d k))" "wf_dict d" shows "filter P (dict_del d k) = filter P d"
proof -
  have "fst x \<noteq> k" if "x \<in> set d" "P x" for x
  proof
    assume "fst x = k"
    then have "map_of d k = Some (snd x)" using that(1) assms(2) by (cases x) simp
    then show False using assms(1) that(2) \<open>fst x = k\<close> by (cases x) auto
  qed
  then have "filter (\<lambda>x. (case x of (k', _) \<Rightarrow> k \<noteq> k') \<and> P x) d = filter P d"
    by (intro filter_cong refl) (auto, metis)
  then show ?thesis by (simp add: AList.delete_eq)
qed

lemma filter_update_first:
  "update_first Q f xs = Some (y, ys) \<Longrightarrow> (\<And>x. Q x \<Longrightarrow> \<not> P x \<and> \<not> P (f x)) \<Longrightarrow> filter P ys = filter P xs"
  by (induction xs arbitrary: ys) (auto split: if_splits)

subsection \<open>Isolation\<close>

definition view_of :: "string \<Rightarrow> astate \<Rightarrow> (string \<times> thread) list \<times> (string \<times> pydict) list \<times> pydict list" where
  "view_of b st =
     (filter (\<lambda>(_, r). th_actor r = b) (as_threads st),
      filter (\<lambda>(_, t). pget t ''actor_id'' = PStr b) (as_turns st),
      list_memory_candidates b st)"

fun op_actor :: "store_op \<Rightarrow> string option" where
  "op_actor (CreateThread a _) = Some a"
| "op_actor (AppendMessage _ a _ _ _) = Some a"
| "op_actor (StartTurnMessage _ a _ _ _) = Some a"
| "op_actor (StartTurn _ a _ _ _) = Some a"
| "op_actor (UpdateTurn _ a _) = Some a"
| "op_actor (ClaimTurn _ a) = Some a"
| "op_actor (HeartbeatTurn _ a) = Some a"
| "op_actor (UpdateMessage _ _ a _) = Some a"
| "op_actor (ArchiveThread _ a) = Some a"
| "op_actor (RestoreThread _ a) = Some a"
| "op_actor (DeleteThread _ a) = Some a"
| "op_actor (RenameThread _ a _) = Some a"
| "op_actor (AddMemory a _ _ _) = Some a"
| "op_actor (ReviewMemory _ a _) = Some a"
| "op_actor (ClaimIntent _ a) = Some a"
| "op_actor _ = None"

text \<open>A new turn gets a new identifier.\<close>

definition fresh_turn :: "call_env \<Rightarrow> store_op \<Rightarrow> astate \<Rightarrow> bool" where
  "fresh_turn E op st =
     (case op of
        StartTurn _ _ _ _ _ \<Rightarrow> \<not> dict_has (as_turns st) (''turn-'' @ ce_uuid E 0)
      | StartTurnMessage _ _ _ _ _ \<Rightarrow> \<not> dict_has (as_turns st) (''turn-'' @ ce_uuid E 0)
      | _ \<Rightarrow> True)"

lemma get_turn_Some: "get_turn k a st = Some t \<Longrightarrow> map_of (as_turns st) k = Some t \<and> pget t ''actor_id'' = PStr a"
  by (auto simp: get_turn_def split: option.splits if_splits)

lemma new_turn_actor [simp]: "pget (new_turn k tid a c x r n t u) ''actor_id'' = PStr a"
  by (simp add: new_turn_def pget_def dict_getd_def)

lemma view_memories:
  assumes "op_actor op \<noteq> Some b"
  shows "list_memory_candidates b (after (op_outcome R E op st) st) = list_memory_candidates b st"
proof (cases op)
  case (ReviewMemory k a status)
  then show ?thesis using assms
    by (auto simp: op_outcome_def op_defs list_memory_candidates_def split: option.splits elim!: filter_update_first)
next
  case (AddMemory a content src scope)
  then show ?thesis using assms
    by (simp add: op_outcome_def op_defs list_memory_candidates_def Let_def pget_def dict_getd_def)
qed (auto simp: op_outcome_def op_defs Let_def list_memory_candidates_def split: option.splits if_splits pyval.splits prod.splits)

lemma view_threads:
  assumes w: "wf_dict (as_threads st)" and ok: "op_ok E op st" and a: "op_actor op \<noteq> Some b"
  shows "filter (\<lambda>(_, r). th_actor r = b) (as_threads (after (op_outcome R E op st) st))
    = filter (\<lambda>(_, r). th_actor r = b) (as_threads st)"
proof (cases op)
  case (CreateThread a' title)
  then show ?thesis using ok a
    by (auto simp: op_outcome_def op_defs Let_def op_ok_def dict_has_iff intro!: filter_dict_set)
next
  case (DeleteThread tid a')
  then show ?thesis using a w
    by (auto simp: op_outcome_def op_defs Let_def split: option.splits intro!: filter_dict_del
        dest!: own_thread_Some simp del: map_of_eq_Some_iff)
qed (insert a, auto simp: op_outcome_def op_defs Let_def simp del: map_of_eq_Some_iff dest!: thread_Some intro!: filter_dict_set
      split: option.splits if_splits pyval.splits prod.splits)

lemma view_turns:
  assumes o: "owned st" and ok: "op_ok E op st" and f: "fresh_turn E op st" and a: "op_actor op \<noteq> Some b"
    and r: "\<And>age. op \<noteq> ReapTurns age"
  shows "filter (\<lambda>(_, t). pget t ''actor_id'' = PStr b) (as_turns (after (op_outcome R E op st) st))
    = filter (\<lambda>(_, t). pget t ''actor_id'' = PStr b) (as_turns st)"
proof (cases op)
  case (DeleteThread tid a')
  have keep: "pget t ''thread_id'' \<noteq> PStr tid"
    if r: "map_of (as_threads st) tid = Some r" "th_actor r = a'" and t: "(k, t) \<in> set (as_turns st)" "pget t ''actor_id'' = PStr b" for k t r
  proof
    assume i: "pget t ''thread_id'' = PStr tid"
    have "map_of (as_turns st) k = Some t" using t(1) o by (simp add: owned_def)
    then have "turn_owned (as_threads st) k t" using o by (simp add: owned_def del: map_of_eq_Some_iff)
    then show False using i r t(2) a DeleteThread by (auto simp: turn_owned_def simp del: map_of_eq_Some_iff)
  qed
  then show ?thesis
    using DeleteThread by (auto simp: op_outcome_def op_defs Let_def split: option.splits
        dest!: own_thread_Some simp del: map_of_eq_Some_iff intro!: filter_cong)
next
  case (UpdateTurn k a' u)
  have "pget (dict_merge t u) ''actor_id'' = pget t ''actor_id''" for t
    by (rule merge_identity [of identity_keys]) (use ok UpdateTurn in \<open>simp add: op_ok_def\<close>, simp add: identity_keys_def)
  then show ?thesis using a UpdateTurn
    by (auto simp: op_outcome_def op_defs Let_def simp del: map_of_eq_Some_iff dest!: get_turn_Some intro!: filter_dict_set
        split: option.splits)
next
  case (ReapTurns age)
  then show ?thesis using r by blast
qed (insert a f, auto simp: op_outcome_def op_defs Let_def fresh_turn_def dict_has_iff simp del: map_of_eq_Some_iff
      dest!: get_turn_Some intro!: filter_dict_set split: option.splits if_splits pyval.splits prod.splits)

subsection \<open>A small deployment\<close>

definition demo_call_env :: "string \<Rightarrow> call_env" where
  "demo_call_env u = \<lparr>ce_now = (\<lambda>_. ''t''), ce_uuid = (\<lambda>_. u), ce_clock = 100, ce_later = (\<lambda>_. None), ce_write = True\<rparr>"

definition demo_thread_state :: astate where
  "demo_thread_state = after (create_thread (demo_call_env ''1'') ''ann'' ''plan'' empty_state) empty_state"

definition demo_turn_state :: astate where
  "demo_turn_state = after (start_turn (demo_call_env ''2'') ''thread-1'' ''ann'' ''hello'' None None demo_thread_state) demo_thread_state"

definition demo_store :: astore where
  "demo_store = \<lparr>st_state = demo_turn_state, st_file = Saved demo_turn_state\<rparr>"

lemma demo_thread_state:
  "demo_thread_state = empty_state\<lparr>as_threads := [(''thread-1'', \<lparr>th_id = ''thread-1'', th_actor = ''ann'', th_title = ''plan'',
     th_created = ''t'', th_updated = ''t'', th_archived = False, th_messages = []\<rparr>)]\<rparr>"
  by (simp add: demo_thread_state_def create_thread_def demo_call_env_def put_thread_def title_or_default_def empty_state_def Let_def)

lemma demo_turn_state:
  "as_threads demo_turn_state = as_threads demo_thread_state"
  "as_turns demo_turn_state = [(''turn-2'', new_turn ''turn-2'' ''thread-1'' ''ann'' ''hello'' None None 1 ''t'' ''t'')]"
  by (simp_all add: demo_turn_state_def demo_thread_state start_turn_def get_thread_def demo_call_env_def put_turn_def empty_state_def Let_def)

lemma new_turn_ids:
  "pget (new_turn k tid a c x r n t u) ''turn_id'' = PStr k" "pget (new_turn k tid a c x r n t u) ''thread_id'' = PStr tid"
  "pget (new_turn k tid a c x r n t u) ''status'' = PStr ''running''"
  by (simp_all add: new_turn_def pget_def dict_getd_def)

lemma demo_owned: "owned demo_turn_state"
  by (simp add: owned_def turn_owned_def demo_turn_state new_turn_ids demo_thread_state empty_state_def)

lemma demo_wf: "wf_store demo_store"
  by (simp add: wf_store_def demo_store_def demo_turn_state load_state_def)

section \<open>Properties\<close>

text \<open>
  Claim C29. A turn is executed at most once: in any sequence of calls, by any workers, at most one claim
  of a turn succeeds, unless a call sets its state back to running or a start draws its identifier again.
  Any other update of the turn (its completion, its failure), heartbeats, reaping, deletions, failing
  writes and restarts from the file may come in between.
\<close>

theorem turn_claimed_once:
  assumes "wf_store s" "list_all (\<lambda>c. \<not> reopens_turn k c) cs"
  shows "count_calls (\<lambda>c s. claims_turn k c \<and> snd (store_call R c s) = Inr True) (\<lambda>c s. fst (store_call R c s)) cs s \<le> 1"
  by (rule turn_claims.at_most_one [OF assms])

theorem turn_claimed_once_witness:
  "let c = (demo_call_env ''9'', ClaimTurn ''turn-2'' ''ann'')
   in snd (store_call demo_rt c demo_store) = Inr True
     \<and> count_calls (\<lambda>c s. claims_turn ''turn-2'' c \<and> snd (store_call demo_rt c s) = Inr True)
         (\<lambda>c s. fst (store_call demo_rt c s)) [c, (demo_call_env ''9'', UpdateTurn ''turn-2'' ''ann'' [(''status'', PStr ''completed'')]),
             (demo_call_env ''9'', Reload), c] demo_store \<le> 1"
proof -
  let ?c = "(demo_call_env ''9'', ClaimTurn ''turn-2'' ''ann'')"
  let ?cs = "[?c, (demo_call_env ''9'', UpdateTurn ''turn-2'' ''ann'' [(''status'', PStr ''completed'')]),
             (demo_call_env ''9'', Reload), ?c]"
  have "snd (store_call demo_rt ?c demo_store) = Inr True"
    by (simp add: store_call_def op_outcome_def claim_turn_def get_turn_def demo_store_def demo_turn_state new_turn_ids
        settle_def Let_def found_def demo_call_env_def)
  moreover have "list_all (\<lambda>c. \<not> reopens_turn ''turn-2'' c) ?cs" by (simp add: reopens_turn_def)
  ultimately show ?thesis using turn_claimed_once [OF demo_wf, of "''turn-2''" ?cs demo_rt] by (simp only: Let_def simp_thms)
qed

text \<open>
  Every turn belongs to the owner of its thread, and its thread exists: this holds after
  any sequence of calls on a new store, restarts from the file and failing writes included, as long
  as identifiers of threads are new and updates leave the identity of a turn alone.
\<close>

theorem turns_belong_to_threads:
  assumes "ok_run R cs new_store" "map_of (as_turns (st_state (store_run R cs new_store))) k = Some t"
  shows "\<exists>tid r. pget t ''thread_id'' = PStr tid
    \<and> map_of (as_threads (st_state (store_run R cs new_store))) tid = Some r \<and> pget t ''actor_id'' = PStr (th_actor r)"
proof -
  have "owned (st_state (store_run R cs new_store))" using run_owned [of new_store R cs] new_owned assms(1) by blast
  then have "turn_owned (as_threads (st_state (store_run R cs new_store))) k t" using assms(2) unfolding owned_def by blast
  then show ?thesis unfolding turn_owned_def by blast
qed

theorem turns_belong_to_threads_witness:
  "\<exists>t tid r. map_of (as_turns (st_state (store_run demo_rt [(demo_call_env ''1'', CreateThread ''ann'' ''plan''),
         (demo_call_env ''2'', StartTurn ''thread-1'' ''ann'' ''hello'' None None)] new_store))) ''turn-2'' = Some t
     \<and> pget t ''thread_id'' = PStr tid
     \<and> map_of (as_threads (st_state (store_run demo_rt [(demo_call_env ''1'', CreateThread ''ann'' ''plan''),
         (demo_call_env ''2'', StartTurn ''thread-1'' ''ann'' ''hello'' None None)] new_store))) tid = Some r
     \<and> pget t ''actor_id'' = PStr (th_actor r)"
proof -
  let ?cs = "[(demo_call_env ''1'', CreateThread ''ann'' ''plan''), (demo_call_env ''2'', StartTurn ''thread-1'' ''ann'' ''hello'' None None)]"
  have r: "st_state (store_run demo_rt ?cs new_store) = demo_turn_state"
    by (simp add: store_run_def call_state op_outcome_def new_store_def demo_turn_state_def demo_thread_state_def)
  have ok: "ok_run demo_rt ?cs new_store" by (simp add: op_ok_def new_store_def empty_state_def)
  have t: "map_of (as_turns (st_state (store_run demo_rt ?cs new_store))) ''turn-2''
    = Some (new_turn ''turn-2'' ''thread-1'' ''ann'' ''hello'' None None 1 ''t'' ''t'')"
    unfolding r by (simp add: demo_turn_state)
  from turns_belong_to_threads [OF ok t] t show ?thesis by blast
qed

text \<open>
  Claim C8. Actors are isolated: a call of one actor leaves the threads, the turns and the memories
  of every other actor as they are, whatever identifiers it names.
\<close>

theorem actors_isolated:
  assumes "owned (st_state s)" "op_ok E op (st_state s)" "fresh_turn E op (st_state s)"
    and "op_actor op \<noteq> Some b" "\<And>age. op \<noteq> ReapTurns age" "op \<noteq> Reload"
  shows "view_of b (st_state (fst (store_call R (E, op) s))) = view_of b (st_state s)"
  using view_threads [of "st_state s" E op b R] view_turns [of "st_state s" E op b R] view_memories [of op b R E "st_state s"] assms
  by (simp add: view_of_def call_state owned_def)

theorem actors_isolated_witness:
  "view_of ''ann'' (st_state (fst (store_call demo_rt (demo_call_env ''3'', DeleteThread ''thread-1'' ''bob'') demo_store)))
     = view_of ''ann'' demo_turn_state \<and> as_turns demo_turn_state \<noteq> []"
proof -
  have "owned (st_state demo_store)" by (simp add: demo_store_def demo_owned)
  from actors_isolated [OF this, of "demo_call_env ''3''" "DeleteThread ''thread-1'' ''bob''" "''ann''" demo_rt] show ?thesis
    by (simp add: op_ok_def fresh_turn_def demo_store_def demo_turn_state(2))
qed

text \<open>\<open>on_token\<close> of \<open>services/assistant_worker/main.py\<close>: before it publishes a token the worker sends
  the heartbeat of the newest running turn of the thread.\<close>

definition worker_heartbeat :: "string \<Rightarrow> string \<Rightarrow> call_env \<Rightarrow> astate \<Rightarrow> bool store_outcome" where
  "worker_heartbeat tid actor E st =
     (case latest_running_turn tid actor st of
        None \<Rightarrow> Unchanged False
      | Some t \<Rightarrow> heartbeat_turn E (string_of (pget t ''turn_id'')) actor st)"

lemma latest_turn_Some:
  "latest_turn P tid a st = Some t \<Longrightarrow> P t \<and> t \<in> set (map snd (as_turns st))"
proof -
  assume "latest_turn P tid a st = Some t"
  then have "t \<in> set (sorted_reverse (\<lambda>t. string_of (dict_getd t ''updated_at'' (PStr [])))
      (filter (\<lambda>t. pget t ''thread_id'' = PStr tid \<and> pget t ''actor_id'' = PStr a \<and> P t) (map snd (as_turns st))))"
    by (auto simp: latest_turn_def split: list.splits)
  then show ?thesis by (auto simp: sorted_reverse_def)
qed

lemma heartbeat_other:
  assumes "owned st" "map_of (as_turns st) k = Some t" "pget t ''status'' = PStr ''executing''"
  shows "map_of (as_turns (after (worker_heartbeat tid a E st) st)) k = Some t
    \<and> owned (after (worker_heartbeat tid a E st) st)"
proof (cases "latest_running_turn tid a st")
  case None
  then show ?thesis using assms by (simp add: worker_heartbeat_def del: map_of_eq_Some_iff)
next
  case (Some u)
  then have u: "pget u ''status'' = PStr ''running''" "u \<in> snd ` set (as_turns st)"
    using latest_turn_Some [of _ tid a st u] by (auto simp: latest_running_turn_def)
  then obtain j where j: "(j, u) \<in> set (as_turns st)" by auto
  have w: "wf_dict (as_turns st)" using assms(1) by (simp add: owned_def)
  have ju: "map_of (as_turns st) j = Some u" using j w by simp
  then have i: "pget u ''turn_id'' = PStr j" using assms(1) by (auto simp: owned_def turn_owned_def simp del: map_of_eq_Some_iff)
  have "j \<noteq> k" using ju assms(2,3) u(1) by auto
  then have "map_of (as_turns (after (worker_heartbeat tid a E st) st)) k = Some t"
    using Some i assms(2) by (simp add: worker_heartbeat_def string_of_def heartbeat_turn_def split: option.split del: map_of_eq_Some_iff)
  moreover have "owned (after (worker_heartbeat tid a E st) st)"
    using op_owned [OF assms(1), of E "HeartbeatTurn j a" undefined] Some i
    by (simp add: worker_heartbeat_def string_of_def op_outcome_def op_ok_def)
  ultimately show ?thesis ..
qed

lemma heartbeats_other:
  "owned st \<Longrightarrow> map_of (as_turns st) k = Some t \<Longrightarrow> pget t ''status'' = PStr ''executing'' \<Longrightarrow>
     map_of (as_turns (foldl (\<lambda>st E. after (worker_heartbeat tid a E st) st) st Es)) k = Some t"
proof (induction Es arbitrary: st)
  case (Cons E Es)
  then show ?case using heartbeat_other [OF Cons.prems, of tid a E] by (simp del: map_of_eq_Some_iff)
qed simp

lemma reap_stale:
  "reap_each R E c ts = (ts', n, None) \<Longrightarrow> map_of ts k = Some t \<Longrightarrow> is_stale R c t = Inr True \<Longrightarrow> map_of ts' k = Some (reaped E t)"
  by (induction R E c ts arbitrary: ts' n rule: reap_each.induct) (auto split: sum.splits prod.splits if_splits)

text \<open>
  Heartbeats do not keep an executing turn alive: the worker looks for running turns
  only, so however many tokens it streams the turn it claimed keeps the time of the claim, and a
  sweep whose cutoff is later fails the turn while it is being answered.
\<close>

theorem executing_turn_reaped:
  assumes "owned st" "map_of (as_turns st) k = Some t" "pget t ''status'' = PStr ''executing''"
    and "iso_of R (py_str R (dict_getd t ''updated_at'' (PStr []))) = Some (u, True)" "u < reap_cutoff E age"
    and "reap_stale_turns R E age (foldl (\<lambda>st E. after (worker_heartbeat tid a E st) st) st Es) = Written st' n"
  shows "map_of (as_turns st') k = Some (reaped E t) \<and> pget (reaped E t) ''status'' = PStr ''failed''"
proof -
  let ?st = "foldl (\<lambda>st E. after (worker_heartbeat tid a E st) st) st Es"
  have t: "map_of (as_turns ?st) k = Some t" by (rule heartbeats_other [OF assms(1-3)])
  obtain ts' where r: "reap_each R E (reap_cutoff E age) (as_turns ?st) = (ts', n, None)" "as_turns st' = ts'"
    using assms(6) by (auto simp: reap_stale_turns_def split: prod.splits option.splits if_splits)
  have "is_stale R (reap_cutoff E age) t = Inr True" using assms(3-5) by (simp add: is_stale_def live_status_def)
  then show ?thesis using reap_stale [OF r(1) t] r(2) by simp
qed

definition late_rt :: pyrt where
  "late_rt = demo_rt\<lparr>iso_of := \<lambda>_. Some (50, True)\<rparr>"

definition demo_claimed :: astate where
  "demo_claimed = after (claim_turn (demo_call_env ''3'') ''turn-2'' ''ann'' demo_turn_state) demo_turn_state"

lemma demo_claimed:
  "as_threads demo_claimed = as_threads demo_turn_state"
  "as_turns demo_claimed = [(''turn-2'', touch (demo_call_env ''3'') (dict_set (new_turn ''turn-2'' ''thread-1'' ''ann'' ''hello''
     None None 1 ''t'' ''t'') ''status'' (PStr ''executing'')))]"
  by (simp_all add: demo_claimed_def claim_turn_def get_turn_def demo_turn_state(2) new_turn_ids Let_def)

theorem executing_turn_reaped_witness:
  "\<exists>st' n t. reap_stale_turns late_rt (demo_call_env ''5'') 30
       (foldl (\<lambda>st E. after (worker_heartbeat ''thread-1'' ''ann'' E st) st) demo_claimed [demo_call_env ''4'', demo_call_env ''4'']) = Written st' n
     \<and> map_of (as_turns st') ''turn-2'' = Some t \<and> pget t ''status'' = PStr ''failed''"
proof -
  let ?hb = "\<lambda>st E. after (worker_heartbeat ''thread-1'' ''ann'' E st) st"
  define u where "u = touch (demo_call_env ''3'') (dict_set (new_turn ''turn-2'' ''thread-1'' ''ann'' ''hello''
     None None 1 ''t'' ''t'') ''status'' (PStr ''executing''))"
  have u: "pget u ''status'' = PStr ''executing''" by (simp add: u_def)
  have ts: "as_turns demo_claimed = [(''turn-2'', u)]" by (simp add: demo_claimed(2) u_def)
  have ow: "owned demo_claimed"
    using op_owned [OF demo_owned, of "demo_call_env ''3''" "ClaimTurn ''turn-2'' ''ann''" demo_rt]
    by (simp add: op_ok_def op_outcome_def demo_claimed_def)
  have "latest_running_turn ''thread-1'' ''ann'' demo_claimed = None"
    by (simp add: latest_running_turn_def latest_turn_def ts u sorted_reverse_def)
  then have h: "foldl ?hb demo_claimed [demo_call_env ''4'', demo_call_env ''4''] = demo_claimed"
    by (simp add: worker_heartbeat_def)
  have c: "reap_cutoff (demo_call_env ''5'') 30 = 70" by (simp add: reap_cutoff_def demo_call_env_def)
  have i: "iso_of late_rt x = Some (50, True)" for x by (simp add: late_rt_def)
  have "is_stale late_rt 70 u = Inr True" by (simp add: is_stale_def live_status_def u i)
  then have w: "reap_stale_turns late_rt (demo_call_env ''5'') 30 demo_claimed
      = Written (demo_claimed\<lparr>as_turns := [(''turn-2'', reaped (demo_call_env ''5'') u)]\<rparr>) 1"
    by (simp add: reap_stale_turns_def c ts)
  have m: "map_of (as_turns demo_claimed) ''turn-2'' = Some u" by (simp add: ts)
  have l: "50 < reap_cutoff (demo_call_env ''5'') 30" by (simp add: c)
  have w': "reap_stale_turns late_rt (demo_call_env ''5'') 30 (foldl ?hb demo_claimed [demo_call_env ''4'', demo_call_env ''4''])
      = Written (demo_claimed\<lparr>as_turns := [(''turn-2'', reaped (demo_call_env ''5'') u)]\<rparr>) 1"
    unfolding h by (rule w)
  from executing_turn_reaped [OF ow m u i l w'] w' show ?thesis by blast
qed

lemma no_new_thread:
  assumes "\<And>a title. op \<noteq> CreateThread a title" "dict_has (as_threads (after (op_outcome R E op st) st)) tid"
  shows "dict_has (as_threads st) tid"
  using assms
  by (cases op)
    (auto simp: op_outcome_def op_defs Let_def dict_has_iff dict_simps simp del: map_of_eq_Some_iff dest!: thread_Some
      split: option.splits if_splits pyval.splits prod.splits)

text \<open>
  Two processes on one file lose updates: a thread created by one process, written to the
  file, is gone from the file after the next write of a process that loaded it before, whatever that
  write is for.
\<close>

theorem stale_process_forgets_thread:
  assumes "store_call R (E, CreateThread a title) s = (s1, Inr True)"
    and "\<not> dict_has (as_threads (st_state w)) (''thread-'' @ ce_uuid E 0)"
    and "op_outcome R E' op (st_state w) = Written st x" "op \<noteq> Reload" "\<And>a title. op \<noteq> CreateThread a title"
    and "store_call R (E', op) (w\<lparr>st_file := st_file s1\<rparr>) = (w1, Inr b)"
  shows "dict_has (as_threads (load_state (st_file s1))) (''thread-'' @ ce_uuid E 0)
    \<and> \<not> dict_has (as_threads (load_state (st_file w1))) (''thread-'' @ ce_uuid E 0)"
proof
  have s1: "st_file s1 = Saved (after (create_thread E a title (st_state s)) (st_state s))"
    using assms(1) by (auto simp: store_call_def op_outcome_def create_thread_def settle_def Let_def split: if_splits)
  show "dict_has (as_threads (load_state (st_file s1))) (''thread-'' @ ce_uuid E 0)"
    by (simp add: s1 load_state_def create_thread_def Let_def)
  have "st_file w1 = Saved st" using assms(3,4,6) by (auto simp: store_call_def settle_def split: if_splits)
  moreover have "after (op_outcome R E' op (st_state w)) (st_state w) = st" using assms(3) by simp
  ultimately show "\<not> dict_has (as_threads (load_state (st_file w1))) (''thread-'' @ ce_uuid E 0)"
    using no_new_thread [OF assms(5), of R E' "st_state w"] assms(2) by (auto simp: load_state_def)
qed

theorem stale_process_forgets_thread_witness:
  "\<exists>s1 w1. store_call demo_rt (demo_call_env ''7'', CreateThread ''ann'' ''x'') demo_store = (s1, Inr True)
     \<and> store_call demo_rt (demo_call_env ''8'', RecordCall []) (demo_store\<lparr>st_file := st_file s1\<rparr>) = (w1, Inr True)
     \<and> \<not> dict_has (as_threads (load_state (st_file w1))) ''thread-7''"
proof -
  obtain s1 where s1: "store_call demo_rt (demo_call_env ''7'', CreateThread ''ann'' ''x'') demo_store = (s1, Inr True)"
    by (simp add: store_call_def op_outcome_def create_thread_def settle_def Let_def demo_call_env_def)
  obtain w1 where w1: "store_call demo_rt (demo_call_env ''8'', RecordCall []) (demo_store\<lparr>st_file := st_file s1\<rparr>) = (w1, Inr True)"
    by (simp add: store_call_def op_outcome_def record_tool_call_def settle_def Let_def demo_call_env_def)
  obtain st x where o: "op_outcome demo_rt (demo_call_env ''8'') (RecordCall []) (st_state demo_store) = Written st x"
    by (simp add: op_outcome_def record_tool_call_def Let_def)
  have n: "\<not> dict_has (as_threads (st_state demo_store)) (''thread-'' @ ce_uuid (demo_call_env ''7'') 0)"
    by (simp add: demo_store_def demo_turn_state(1) demo_thread_state demo_call_env_def dict_has_def)
  have u: "''thread-'' @ ce_uuid (demo_call_env ''7'') 0 = ''thread-7''" by (simp add: demo_call_env_def)
  have "\<not> dict_has (as_threads (load_state (st_file w1))) (''thread-'' @ ce_uuid (demo_call_env ''7'') 0)"
    by (rule conjunct2 [OF stale_process_forgets_thread [where w = demo_store and op = "RecordCall []", OF s1 n o _ _ w1]]) simp_all
  then show ?thesis using s1 w1 unfolding u by blast
qed

end
