(* ===== verification/Model_Dataset.thy ===== *)
theory Model_Dataset
  imports Py_Prelude "HOL-Library.Product_Lexorder"
begin

text \<open>
  Dataset manifests and trajectory compilation: \<open>services/common/model_dataset.py\<close> and the manifest
  validation of \<open>services/common/training_dataset.py\<close>. A source record is a dictionary; \<open>read\<close>
  is the reader of a source file and \<open>digest\<close> the number of the first eight hexadecimal digits of
  SHA-256. Times are seconds since the epoch. The files of the bundle are its components; Parquet,
  YAML and the hash of the manifest are not modelled.
\<close>

section \<open>Searching a channel\<close>

text \<open>\<open>bisect_left(a, x)\<close> of the standard library on the slice from \<open>lo\<close> to \<open>hi\<close>.\<close>

function bisect :: "int list \<Rightarrow> int \<Rightarrow> nat \<Rightarrow> nat \<Rightarrow> nat" where
  "bisect a x lo hi =
     (if lo < hi then
        (let mid = (lo + hi) div 2
         in if a ! mid < x then bisect a x (mid + 1) hi else bisect a x lo mid)
      else lo)"
  by pat_completeness auto
termination by (relation "measure (\<lambda>(a, x, lo, hi). hi - lo)") auto

declare bisect.simps [simp del]

definition bisect_left :: "int list \<Rightarrow> int \<Rightarrow> nat" where
  "bisect_left a x = bisect a x 0 (length a)"

text \<open>\<open>_nearest_sorted\<close>: of the two records around the target the one at the smaller distance, the
  earlier on a tie, unless it is too far away.\<close>

definition nearest_sorted :: "'a list \<Rightarrow> int list \<Rightarrow> int \<Rightarrow> int \<Rightarrow> 'a option" where
  "nearest_sorted records stamps target max_skew =
     (if records = [] then None
      else
        (let index = bisect_left stamps target;
             candidates = (if index < length records then [(\<bar>stamps ! index - target\<bar>, index)] else [])
               @ (if 0 < index then [(\<bar>stamps ! (index - 1) - target\<bar>, index - 1)] else [])
         in (case candidates of
               [] \<Rightarrow> None
             | c # cs \<Rightarrow>
                 (let (distance, selected) = foldl min c cs
                  in if distance \<le> max_skew then Some (records ! selected) else None))))"

text \<open>\<open>_timestamp\<close>: the first non-empty of six keys, a final \<open>Z\<close> (every \<open>Z\<close>) read as UTC.\<close>

definition time_keys :: "string list" where
  "time_keys = [''ts_source'', ''timestamp'', ''occurred_at'', ''effective_at'', ''observed_at'', ''time'']"

definition first_truthy :: "pyval list \<Rightarrow> pyval" where
  "first_truthy vs = foldr py_or vs PNone"

definition zulu :: "string \<Rightarrow> string" where
  "zulu s = concat (map (\<lambda>c. if c = CHR ''Z'' then ''+00:00'' else [c]) s)"

definition record_time :: "pyrt \<Rightarrow> pydict \<Rightarrow> rat option" where
  "record_time R d =
     (let v = first_truthy (map (pget d) time_keys)
      in if \<not> truthy v then None else map_option fst (iso_of R (zulu (py_str R v))))"

definition to_ms :: "rat \<Rightarrow> int" where
  "to_ms t = trunc (t * 1000)"

text \<open>\<open>_nearest\<close>: a scan that keeps the first of the nearest records.\<close>

fun nearest_from :: "pyrt \<Rightarrow> (int \<times> pydict) option \<Rightarrow> pydict list \<Rightarrow> int \<Rightarrow> int \<Rightarrow> (int \<times> pydict) option" where
  "nearest_from R best [] target max_skew = best"
| "nearest_from R best (d # ds) target max_skew =
     nearest_from R
       (case record_time R d of
          None \<Rightarrow> best
        | Some t \<Rightarrow>
            (let distance = \<bar>to_ms t - target\<bar>
             in if distance \<le> max_skew \<and> (case best of None \<Rightarrow> True | Some (b, _) \<Rightarrow> distance < b)
                then Some (distance, d) else best))
       ds target max_skew"

definition nearest :: "pyrt \<Rightarrow> pydict list \<Rightarrow> int \<Rightarrow> int \<Rightarrow> pydict option" where
  "nearest R records target max_skew = map_option snd (nearest_from R None records target max_skew)"

section \<open>Manifests\<close>

record validation =
  va_valid :: bool
  va_errors :: "string list"
  va_warnings :: "string list"

definition verdict :: "string list \<Rightarrow> string list \<Rightarrow> validation" where
  "verdict errors warnings = \<lparr>va_valid = (errors = []), va_errors = errors, va_warnings = warnings\<rparr>"

definition need_int :: "pyval \<Rightarrow> string + int" where
  "need_int v = (case py_int v of None \<Rightarrow> Inl ''int() failed'' | Some i \<Rightarrow> Inr i)"

definition need_dict :: "pyval \<Rightarrow> string + pydict" where
  "need_dict v = (case v of PDict d \<Rightarrow> Inr d | _ \<Rightarrow> Inl ''AttributeError'')"

text \<open>An error message under a condition.\<close>

definition err_if :: "bool \<Rightarrow> string \<Rightarrow> string list" where
  "err_if c msg = (if c then [msg] else [])"

definition manifest_version :: "pydict \<Rightarrow> string + int" where
  "manifest_version m =
     need_int (py_or (dict_getd m ''manifest_version'' (dict_getd m ''schema_version'' (PInt 1))) (PInt 1))"

text \<open>\<open>validate_manifest\<close> of the training datasets, for manifests of version 1.\<close>

definition control_errors :: "string \<Rightarrow> pydict \<Rightarrow> pydict \<Rightarrow> string list" where
  "control_errors purpose m episode =
     err_if (\<not> truthy (pget m ''action_sources'')) (purpose @ '' datasets require action_sources'')
     @ err_if (\<not> truthy (pget m ''outcome_sources'')) (purpose @ '' datasets require outcome_sources'')
     @ err_if (\<not> truthy (pget episode ''boundary'')) (purpose @ '' datasets require episode_definition.boundary'')"

definition nonempty_list :: "pyval \<Rightarrow> bool" where
  "nonempty_list v = (case v of PList (x # xs) \<Rightarrow> True | _ \<Rightarrow> False)"

definition validate_manifest :: "pyrt \<Rightarrow> pydict \<Rightarrow> string + validation" where
  "validate_manifest R m =
     (let missing = filter (\<lambda>k. \<not> dict_has m k) [''dataset_id'', ''observation_sources'', ''purpose'', ''site_id'', ''time_range''];
          purpose = py_str R (dict_getd m ''purpose'' (PStr []));
          alignment = dict_getd m ''alignment'' (PDict [])
      in res_bind (if truthy alignment
                   then res_bind (need_dict alignment)
                          (\<lambda>a. res_bind (need_int (py_or (pget a ''sample_interval_ms'') (PInt 0))) (\<lambda>i. Inr (i \<le> 0)))
                   else Inr False) (\<lambda>bad_interval.
         res_bind (if purpose \<in> {''dreamer'', ''muzero'', ''offline-control''} then need_dict (dict_getd m ''episode_definition'' (PDict [])) else Inr []) (\<lambda>episode.
         Inr (verdict
           (map (\<lambda>k. ''missing required field: '' @ k) missing
            @ err_if (purpose \<noteq> [] \<and> purpose \<notin> {''jepa'', ''dreamer'', ''muzero'', ''analytics'', ''benchmark''})
                ''purpose must be one of ['analytics', 'benchmark', 'dreamer', 'jepa', 'muzero']''
            @ err_if (\<not> nonempty_list (pget m ''observation_sources'')) ''observation_sources must be a non-empty list''
            @ err_if bad_interval ''alignment.sample_interval_ms must be positive''
            @ (if purpose \<in> {''dreamer'', ''muzero'', ''offline-control''} then control_errors purpose m episode else []))
           (err_if (\<not> truthy (pget m ''provenance'')) ''provenance is absent; reproducibility is incomplete''
            @ err_if (\<not> truthy (pget m ''splits'')) ''splits is absent; callers must define train/validation/test boundaries'')))))"

text \<open>\<open>validate_model_manifest\<close>: the checks of versions 2 and 3.\<close>

definition model_purposes :: "string list" where
  "model_purposes = [''jepa'', ''dreamer'', ''muzero'', ''offline-control'', ''analytics'', ''benchmark'']"

definition bad_sites :: "pyrt \<Rightarrow> pyval \<Rightarrow> bool" where
  "bad_sites R v = (case v of PList (x # xs) \<Rightarrow> \<not> list_all (\<lambda>s. py_strip (py_str R s) \<noteq> []) (x # xs) | _ \<Rightarrow> True)"

definition bad_observations :: "pyval \<Rightarrow> bool" where
  "bad_observations v = (\<not> truthy v \<or> (case v of PStr _ \<Rightarrow> False | PList _ \<Rightarrow> False | PDict _ \<Rightarrow> False | _ \<Rightarrow> True))"

definition split_errors :: "pyval \<Rightarrow> string + string list" where
  "split_errors splits =
     (case splits of
        PNone \<Rightarrow> Inr []
      | PDict d \<Rightarrow>
          (case pget d ''strategy'' of
             PList _ \<Rightarrow> Inl ''TypeError''
           | PDict _ \<Rightarrow> Inl ''TypeError''
           | s \<Rightarrow> Inr (err_if (s \<notin> {PNone, PStr ''episode_hash'', PStr ''temporal'', PStr ''explicit''})
                       ''splits.strategy must be episode_hash, temporal, or explicit''))
      | _ \<Rightarrow> Inr [''splits must be a mapping when provided''])"

definition validate_model_manifest :: "pyrt \<Rightarrow> pydict \<Rightarrow> string + validation" where
  "validate_model_manifest R m =
     res_bind (manifest_version m) (\<lambda>version.
       if version < 2 then validate_manifest R m
       else
         (let purpose = py_str R (dict_getd m ''purpose'' (PStr []));
              control = (purpose \<in> {''dreamer'', ''muzero'', ''offline-control''})
          in res_bind (need_dict (py_or (pget m ''alignment'') (PDict []))) (\<lambda>alignment.
             res_bind (need_int (py_or (pget alignment ''sample_interval_ms'') (PInt 0))) (\<lambda>interval.
             res_bind (need_int (py_or (dict_getd alignment ''max_skew_ms'' (PInt (-1))) (PInt (-1)))) (\<lambda>skew.
             res_bind (if control \<or> 3 \<le> version then need_dict (py_or (pget m ''episode_definition'') (PDict [])) else Inr []) (\<lambda>episode.
             res_bind (if 3 \<le> version then split_errors (pget m ''splits'') else Inr []) (\<lambda>split_msgs.
             Inr (verdict
               (map (\<lambda>k. ''missing required field: '' @ k)
                  (filter (\<lambda>k. \<not> dict_has m k)
                     [''dataset_id'', ''site_ids'', ''time_range'', ''observation_sources'', ''purpose'', ''provenance''])
                @ err_if (purpose \<notin> set model_purposes) ''purpose is not supported''
                @ err_if (bad_sites R (pget m ''site_ids'')) ''site_ids must be a non-empty list''
                @ err_if (interval \<le> 0) ''alignment.sample_interval_ms must be positive''
                @ err_if (skew < 0) ''alignment.max_skew_ms must be zero or positive''
                @ err_if (bad_observations (pget m ''observation_sources'')) ''observation_sources must be a non-empty path, mapping, or list''
                @ (if control then control_errors purpose m episode else [])
                @ (if 3 \<le> version
                   then err_if (\<not> truthy (pget episode ''boundary'')) ''v3 datasets require episode_definition.boundary'' @ split_msgs
                   else []))
               (err_if (\<not> truthy (pget m ''splits'')) ''splits is absent; train/test overlap must be checked by the consumer''
                @ err_if (\<not> truthy (pget m ''semantic_context'')) ''semantic_context is absent; topology context is incomplete''
                @ err_if (3 \<le> version \<and> \<not> truthy (pget m ''channel_identity''))
                    ''channel_identity is absent; v3 defaults to site_id + entity_id + tag'')))))))))"

section \<open>Source records\<close>

definition dict_items :: "pyval list \<Rightarrow> pydict list" where
  "dict_items vs = concat (map (\<lambda>v. case v of PDict d \<Rightarrow> [d] | _ \<Rightarrow> []) vs)"

definition source_records :: "pyrt \<Rightarrow> (string \<Rightarrow> pydict list) \<Rightarrow> pyval \<Rightarrow> pydict list" where
  "source_records R read source =
     (case source of
        PStr path \<Rightarrow> read path
      | PList vs \<Rightarrow> dict_items vs
      | PDict d \<Rightarrow> (if dict_has d ''path'' then read (py_str R (pget d ''path'')) else [])
      | _ \<Rightarrow> [])"

definition clean :: "pyrt \<Rightarrow> pyval \<Rightarrow> string" where
  "clean R v = py_strip (py_str R v)"

type_synonym identity = "string \<times> string \<times> string"

definition record_identity :: "pyrt \<Rightarrow> pydict \<Rightarrow> identity option" where
  "record_identity R d =
     (let site = clean R (dict_getd d ''site_id'' (PStr []));
          entity = clean R (dict_getd d ''asset_id'' (dict_getd d ''entity_id'' (PStr [])));
          tag = clean R (dict_getd d ''tag'' (dict_getd d ''channel'' (PStr [])))
      in if site = [] \<or> entity = [] \<or> tag = [] then None else Some (site, entity, tag))"

definition channel_name :: "identity \<Rightarrow> string" where
  "channel_name i = (case i of (site, entity, tag) \<Rightarrow> join ''::'' [site, entity, tag])"

text \<open>\<open>channel.split("::")\<close>.\<close>

fun split_colons :: "string \<Rightarrow> string list" where
  "split_colons [] = [[]]"
| "split_colons [c] = [[c]]"
| "split_colons (c # d # cs) =
     (if c = CHR '':'' \<and> d = CHR '':'' then [] # split_colons cs
      else (case split_colons (d # cs) of [] \<Rightarrow> [[c]] | w # ws \<Rightarrow> (c # w) # ws))"

text \<open>The first of three keys whose text is not blank.\<close>

definition episode_of :: "pyrt \<Rightarrow> pydict \<Rightarrow> string option" where
  "episode_of R d =
     (case filter (\<lambda>s. s \<noteq> []) (map (\<lambda>k. clean R (dict_getd d k (PStr []))) [''episode_id'', ''context_id'', ''lineage_id'']) of
        [] \<Rightarrow> None | e # _ \<Rightarrow> Some e)"

definition record_value :: "pyrt \<Rightarrow> pydict \<Rightarrow> rat option" where
  "record_value R d = py_float R (dict_getd d ''value'' (pget d ''observation_value''))"

section \<open>Splits\<close>

text \<open>\<open>_v3_split_assignments\<close>; without a parseable boundary the earliest time of \<open>datetime\<close>.\<close>

definition first_datetime_ms :: int where
  "first_datetime_ms = -62135596800000"

definition boundary_ms :: "pyrt \<Rightarrow> pyval \<Rightarrow> int" where
  "boundary_ms R v = (case record_time R [(''timestamp'', v)] of None \<Rightarrow> first_datetime_ms | Some t \<Rightarrow> to_ms t)"

definition split_names :: "string list" where
  "split_names = [''train'', ''validation'', ''test'']"

definition explicit_splits :: "pyrt \<Rightarrow> string list \<Rightarrow> pydict \<Rightarrow> string + (string \<times> string) list" where
  "explicit_splits R episodes c =
     (case pget c ''assignments'' of
        PDict a \<Rightarrow>
          (let result = map (\<lambda>e. (e, py_str R (dict_getd a e (PStr [])))) episodes
           in if list_all (\<lambda>(_, s). s \<in> set split_names) result then Inr result
              else Inl ''v3 explicit splits must assign every episode to train, validation, or test'')
      | _ \<Rightarrow> Inl ''v3 explicit splits require splits.assignments'')"

fun temporal_each :: "int \<Rightarrow> int \<Rightarrow> (string \<times> int) list \<Rightarrow> string + (string \<times> string) list" where
  "temporal_each train_end validation_end [] = Inr []"
| "temporal_each train_end validation_end ((e, end_ms) # es) =
     (if end_ms < 0 then Inl ''v3 temporal split compilation requires episode_end_ms''
      else res_bind (temporal_each train_end validation_end es) (\<lambda>rest.
        Inr ((e, if end_ms \<le> train_end then ''train'' else if end_ms \<le> validation_end then ''validation'' else ''test'') # rest)))"

definition temporal_splits :: "pyrt \<Rightarrow> (string \<times> int) list \<Rightarrow> pydict \<Rightarrow> string + (string \<times> string) list" where
  "temporal_splits R episode_ends c =
     (case pget c ''boundaries'' of
        PDict b \<Rightarrow>
          (if b = [] \<or> \<not> truthy (pget b ''train_end'') \<or> \<not> truthy (pget b ''validation_end'')
           then Inl ''v3 temporal splits require boundaries.train_end and boundaries.validation_end''
           else
             (let train_end = boundary_ms R (pget b ''train_end''); validation_end = boundary_ms R (pget b ''validation_end'')
              in if validation_end \<le> train_end then Inl ''v3 temporal split boundaries must be increasing''
                 else temporal_each train_end validation_end episode_ends))
      | _ \<Rightarrow> Inl ''v3 temporal splits require boundaries.train_end and boundaries.validation_end'')"

definition need_float :: "pyrt \<Rightarrow> pyval \<Rightarrow> string + rat" where
  "need_float R v = (case py_float R v of None \<Rightarrow> Inl ''float() failed'' | Some x \<Rightarrow> Inr x)"

definition default_ratios :: pyval where
  "default_ratios = PDict [(''train'', PFloat (7 / 10)), (''validation'', PFloat (15 / 100)), (''test'', PFloat (15 / 100))]"

definition hash_splits :: "pyrt \<Rightarrow> (string \<Rightarrow> nat) \<Rightarrow> string list \<Rightarrow> pydict \<Rightarrow> string + (string \<times> string) list" where
  "hash_splits R digest episodes c =
     (if length episodes < 3 then Inl ''v3 episode_hash splits require at least three episodes; use explicit or temporal splits''
      else (case py_or (pget c ''ratios'') default_ratios of
        PDict ratios \<Rightarrow>
          res_bind (need_float R (dict_getd ratios ''train'' (PInt 0))) (\<lambda>train.
          res_bind (need_float R (dict_getd ratios ''validation'' (PInt 0))) (\<lambda>validation.
            if train \<le> 0 \<or> validation < 0 \<or> 1 \<le> train + validation
            then Inl ''v3 split ratios must leave a positive test partition''
            else
              (let seed = py_str R (dict_getd c ''seed'' (PInt 0));
                   bucket = (\<lambda>e. of_nat (digest (seed @ '':'' @ e)) / of_nat (2 ^ 32 - 1))
               in Inr (map (\<lambda>e. (e, if bucket e < train then ''train''
                                    else if bucket e < train + validation then ''validation'' else ''test'')) episodes))))
      | _ \<Rightarrow> Inl ''v3 episode_hash splits.ratios must be a mapping''))"

text \<open>The compiler passes the end of every episode when the strategy is temporal.\<close>

definition split_assignments ::
    "pyrt \<Rightarrow> (string \<Rightarrow> nat) \<Rightarrow> (string \<times> int) list \<Rightarrow> pyval \<Rightarrow> string + (string \<times> string) list" where
  "split_assignments R digest episode_ends splits =
     res_bind (if truthy splits then need_dict splits else Inr []) (\<lambda>c.
       (let strategy = py_str R (dict_getd c ''strategy'' (PStr ''episode_hash''));
            episodes = map fst episode_ends
        in if strategy = ''explicit'' then explicit_splits R episodes c
           else if strategy = ''temporal'' then temporal_splits R episode_ends c
           else if strategy \<noteq> ''episode_hash'' then Inl (''unsupported v3 split strategy: '' @ strategy)
           else hash_splits R digest episodes c))"

section \<open>Compilation\<close>

record step_row =
  sw_step :: nat
  sw_time :: int
  sw_site :: string
  sw_episode :: string
  sw_split :: string
  sw_values :: "rat option list"
  sw_mask :: "bool list"

text \<open>The times of an episode: a manifest that validates has a positive interval.\<close>

function grid :: "int \<Rightarrow> int \<Rightarrow> int \<Rightarrow> int list" where
  "grid interval cursor end_ms =
     (if 0 < interval \<and> cursor \<le> end_ms then cursor # grid interval (cursor + interval) end_ms else [])"
  by pat_completeness auto
termination by (relation "measure (\<lambda>(interval, cursor, end_ms). nat (end_ms - cursor + 1))") auto

declare grid.simps [simp del]

type_synonym timed = "pydict \<times> rat"

definition timed_records :: "pyrt \<Rightarrow> pydict list \<Rightarrow> timed list" where
  "timed_records R ds = concat (map (\<lambda>d. case record_time R d of None \<Rightarrow> [] | Some t \<Rightarrow> [(d, t)]) ds)"

text \<open>\<open>sorted({...})\<close>.\<close>

definition sorted_set :: "'a::linorder list \<Rightarrow> 'a list" where
  "sorted_set xs = sort (remdups xs)"

definition episode_key :: "pyrt \<Rightarrow> pydict \<Rightarrow> string \<times> string" where
  "episode_key R d =
     (case record_identity R d of Some (site, _, _) \<Rightarrow> site | None \<Rightarrow> [],
      case episode_of R d of Some e \<Rightarrow> e | None \<Rightarrow> [])"

definition channel_of :: "pyrt \<Rightarrow> pydict \<Rightarrow> string" where
  "channel_of R d = (case record_identity R d of Some i \<Rightarrow> channel_name i | None \<Rightarrow> [])"

fun repeats :: "string list \<Rightarrow> string list" where
  "repeats [] = []"
| "repeats (x # xs) = (if x \<noteq> [] \<and> x \<in> set xs then x # repeats xs else repeats xs)"

definition observation_errors :: "pyrt \<Rightarrow> timed list \<Rightarrow> string + unit" where
  "observation_errors R ts =
     (if ts = [] then Inl ''observation_sources contains no parseable timestamps''
      else if list_ex (\<lambda>(d, _). record_identity R d = None) ts
      then Inl ''v3 observations require site_id, asset_id/entity_id, and tag/channel''
      else if list_ex (\<lambda>(d, _). episode_of R d = None) ts
      then Inl ''v3 observations require episode_id, context_id, or lineage_id''
      else (case repeats (map (\<lambda>(d, _). clean R (dict_getd d ''event_id'' (PStr []))) ts) of
        [] \<Rightarrow> Inr ()
      | e # es \<Rightarrow> Inl (''v3 observations contain duplicate event_id values: '' @ join '', '' (take 5 (sorted_set (e # es))))))"

text \<open>The records of a channel in an episode, by time.\<close>

definition channel_records :: "pyrt \<Rightarrow> timed list \<Rightarrow> string \<Rightarrow> string \<Rightarrow> timed list" where
  "channel_records R ts channel episode =
     sort_key (\<lambda>(_, t). to_ms t) (filter (\<lambda>(d, _). channel_of R d = channel \<and> snd (episode_key R d) = episode) ts)"

definition observe :: "pyrt \<Rightarrow> timed list \<Rightarrow> int \<Rightarrow> string \<times> string \<Rightarrow> int \<Rightarrow> string \<Rightarrow> rat option" where
  "observe R ts max_skew key cursor channel =
     (let rs = channel_records R ts channel (snd key)
      in if hd (split_colons channel) = fst key \<and> rs \<noteq> []
         then (case nearest_sorted (map fst rs) (map (\<lambda>(_, t). to_ms t) rs) cursor max_skew of
                 None \<Rightarrow> None | Some d \<Rightarrow> record_value R d)
         else None)"

definition episode_times :: "pyrt \<Rightarrow> timed list \<Rightarrow> string \<times> string \<Rightarrow> int list" where
  "episode_times R ts key = map (\<lambda>(_, t). to_ms t) (filter (\<lambda>(d, _). episode_key R d = key) ts)"

definition episode_grid :: "pyrt \<Rightarrow> timed list \<Rightarrow> int \<Rightarrow> string \<times> string \<Rightarrow> int list" where
  "episode_grid R ts interval key =
     (case episode_times R ts key of
        [] \<Rightarrow> []
      | x # xs \<Rightarrow> grid interval (foldl min x xs) (foldl max x xs))"

definition make_step ::
    "pyrt \<Rightarrow> timed list \<Rightarrow> int \<Rightarrow> string list \<Rightarrow> (string \<times> string) list \<Rightarrow> string \<times> string \<Rightarrow> nat \<Rightarrow> int \<Rightarrow> step_row" where
  "make_step R ts max_skew channels splits key i cursor =
     (let vs = map (observe R ts max_skew key cursor) channels
      in \<lparr>sw_step = i, sw_time = cursor, sw_site = fst key, sw_episode = snd key, sw_split = dict_getd splits (snd key) [],
          sw_values = vs, sw_mask = map (\<lambda>v. v \<noteq> None) vs\<rparr>)"

fun make_episodes ::
    "pyrt \<Rightarrow> timed list \<Rightarrow> int \<Rightarrow> int \<Rightarrow> string list \<Rightarrow> (string \<times> string) list \<Rightarrow> nat \<Rightarrow> (string \<times> string) list
     \<Rightarrow> ((string \<times> string) \<times> step_row list) list" where
  "make_episodes R ts interval max_skew channels splits i [] = []"
| "make_episodes R ts interval max_skew channels splits i (key # keys) =
     (let cursors = episode_grid R ts interval key;
          rows = map (\<lambda>(j, c). make_step R ts max_skew channels splits key (i + j) c) (enumerate 0 cursors)
      in (key, rows) # make_episodes R ts interval max_skew channels splits (i + length cursors) keys)"

text \<open>\<open>event_rows\<close>: the keys of the record itself win over the computed ones.\<close>

definition event_row :: "pyrt \<Rightarrow> (string \<times> string) list \<Rightarrow> pydict \<Rightarrow> pydict option" where
  "event_row R splits d =
     (let site = clean R (dict_getd d ''site_id'' (PStr [])) in
      case (record_time R d, episode_of R d) of
        (Some t, Some e) \<Rightarrow>
          (if site = [] then None
           else Some (dict_merge [(''timestamp_ms'', PInt (to_ms t)), (''site_id'', PStr site), (''episode_id'', PStr e),
                                  (''split'', PStr (dict_getd splits e ''unassigned''))] d))
      | _ \<Rightarrow> None)"

definition event_rows :: "pyrt \<Rightarrow> (string \<times> string) list \<Rightarrow> pydict list \<Rightarrow> pydict list" where
  "event_rows R splits ds = concat (map (\<lambda>d. case event_row R splits d of None \<Rightarrow> [] | Some r \<Rightarrow> [r]) ds)"

record transition =
  tr_step :: nat
  tr_next :: nat
  tr_time :: int
  tr_next_time :: int
  tr_site :: string
  tr_episode :: string
  tr_split :: string
  tr_action :: pyval
  tr_outcome :: pyval
  tr_reward :: pyval
  tr_terminal :: bool
  tr_values :: "rat option list"
  tr_next_values :: "rat option list"
  tr_mask :: "bool list"
  tr_next_mask :: "bool list"

definition of_row :: "pydict option \<Rightarrow> string \<Rightarrow> pyval" where
  "of_row r k = (case r of Some (x # xs) \<Rightarrow> pget (x # xs) k | _ \<Rightarrow> PNone)"

definition make_transition :: "pydict option \<Rightarrow> pydict option \<Rightarrow> step_row \<Rightarrow> step_row \<Rightarrow> transition" where
  "make_transition a out cur nxt =
     \<lparr>tr_step = sw_step cur, tr_next = sw_step nxt, tr_time = sw_time cur, tr_next_time = sw_time nxt,
      tr_site = sw_site cur, tr_episode = sw_episode cur, tr_split = sw_split cur,
      tr_action = of_row a ''action_id'', tr_outcome = of_row out ''outcome_id'', tr_reward = of_row out ''reward'',
      tr_terminal = truthy (of_row out ''terminal''), tr_values = sw_values cur, tr_next_values = sw_values nxt,
      tr_mask = sw_mask cur, tr_next_mask = sw_mask nxt\<rparr>"

fun all_ints :: "pyval list \<Rightarrow> string + int list" where
  "all_ints [] = Inr []"
| "all_ints (v # vs) = res_bind (need_int v) (\<lambda>i. res_bind (all_ints vs) (\<lambda>is. Inr (i # is)))"

definition rows_of :: "string \<times> string \<Rightarrow> pydict list \<Rightarrow> pydict list" where
  "rows_of key rows = filter (\<lambda>r. pget r ''site_id'' = PStr (fst key) \<and> pget r ''episode_id'' = PStr (snd key)) rows"

fun link_steps ::
    "pydict list \<Rightarrow> int list \<Rightarrow> pydict list \<Rightarrow> int list \<Rightarrow> int \<Rightarrow> step_row list \<Rightarrow> transition list" where
  "link_steps actions action_times outcomes outcome_times max_skew (cur # nxt # rest) =
     make_transition (nearest_sorted actions action_times (sw_time cur) max_skew)
       (nearest_sorted outcomes outcome_times (sw_time cur) max_skew) cur nxt
     # link_steps actions action_times outcomes outcome_times max_skew (nxt # rest)"
| "link_steps actions action_times outcomes outcome_times max_skew _ = []"

fun make_transitions ::
    "pydict list \<Rightarrow> pydict list \<Rightarrow> int \<Rightarrow> ((string \<times> string) \<times> step_row list) list \<Rightarrow> string + transition list" where
  "make_transitions actions outcomes max_skew [] = Inr []"
| "make_transitions actions outcomes max_skew ((key, rows) # rest) =
     (let as = rows_of key actions; bs = rows_of key outcomes in
      res_bind (all_ints (map (\<lambda>r. pget r ''timestamp_ms'') as)) (\<lambda>ats.
      res_bind (all_ints (map (\<lambda>r. pget r ''timestamp_ms'') bs)) (\<lambda>bts.
      res_bind (make_transitions actions outcomes max_skew rest) (\<lambda>more.
      Inr (link_steps as ats bs bts max_skew rows @ more)))))"

text \<open>A channel has one unit.\<close>

definition channel_units :: "pyrt \<Rightarrow> timed list \<Rightarrow> string \<Rightarrow> string list" where
  "channel_units R ts channel =
     sorted_set (concat (map (\<lambda>(d, _). let u = dict_getd d ''unit'' (pget d ''units'')
          in if channel_of R d = channel \<and> truthy u
             then [clean R (dict_getd d ''unit'' (dict_getd d ''units'' (PStr [])))] else []) ts))"

definition unit_errors :: "pyrt \<Rightarrow> timed list \<Rightarrow> string list \<Rightarrow> string + unit" where
  "unit_errors R ts channels =
     (case filter (\<lambda>c. 1 < length (channel_units R ts c)) channels of
        [] \<Rightarrow> Inr () | c # _ \<Rightarrow> Inl (''v3 channel '' @ c @ '' changes units''))"

record trajectory =
  bu_channels :: "string list"
  bu_splits :: "(string \<times> string) list"
  bu_episodes :: "((string \<times> string) \<times> step_row list) list"
  bu_actions :: "pydict list"
  bu_outcomes :: "pydict list"
  bu_artifacts :: "pydict list"
  bu_transitions :: "transition list"

definition bu_steps :: "trajectory \<Rightarrow> step_row list" where
  "bu_steps b = concat (map snd (bu_episodes b))"

definition episode_ends :: "pyrt \<Rightarrow> timed list \<Rightarrow> string list \<Rightarrow> (string \<times> int) list" where
  "episode_ends R ts ids =
     map (\<lambda>e. (e, case map (\<lambda>(_, t). to_ms t) (filter (\<lambda>(d, _). episode_of R d = Some e) ts) of
                    [] \<Rightarrow> -1 | x # xs \<Rightarrow> foldl max x xs)) ids"

definition compile_v3 ::
    "pyrt \<Rightarrow> (string \<Rightarrow> pydict list) \<Rightarrow> (string \<Rightarrow> nat) \<Rightarrow> pydict \<Rightarrow> string + trajectory" where
  "compile_v3 R read digest m =
     (let ts = timed_records R (source_records R read (pget m ''observation_sources''));
          source = (\<lambda>k. source_records R read (dict_getd m k (PList [])))
      in res_bind (need_dict (pget m ''alignment'')) (\<lambda>al.
         res_bind (need_int (pget al ''sample_interval_ms'')) (\<lambda>interval.
         res_bind (need_int (pget al ''max_skew_ms'')) (\<lambda>max_skew.
         res_bind (observation_errors R ts) (\<lambda>_.
           (let keys = sorted_set (map (\<lambda>(d, _). episode_key R d) ts);
                channels = sorted_set (map (\<lambda>(d, _). channel_of R d) ts)
            in res_bind (split_assignments R digest (episode_ends R ts (sorted_set (map snd keys))) (pget m ''splits'')) (\<lambda>splits.
               (let episodes = make_episodes R ts interval max_skew channels splits 0 keys;
                    actions = event_rows R splits (source ''action_sources'');
                    outcomes = event_rows R splits (source ''outcome_sources'')
                in res_bind (make_transitions actions outcomes max_skew episodes) (\<lambda>transitions.
                   res_bind (unit_errors R ts channels) (\<lambda>_.
                   Inr \<lparr>bu_channels = channels, bu_splits = splits, bu_episodes = episodes, bu_actions = actions,
                        bu_outcomes = outcomes, bu_artifacts = source ''artifact_sources'', bu_transitions = transitions\<rparr>))))))))))"

section \<open>Lemmas\<close>

subsection \<open>Binary search\<close>

lemma bisect_spec:
  assumes "sorted a" "lo \<le> hi" "hi \<le> length a" "\<forall>i < lo. a ! i < x" "\<forall>i. hi \<le> i \<and> i < length a \<longrightarrow> x \<le> a ! i"
  shows "bisect a x lo hi \<le> length a \<and> (\<forall>i < bisect a x lo hi. a ! i < x)
    \<and> (\<forall>i. bisect a x lo hi \<le> i \<and> i < length a \<longrightarrow> x \<le> a ! i)"
  using assms
proof (induction a x lo hi rule: bisect.induct)
  case (1 a x lo hi)
  let ?mid = "(lo + hi) div 2"
  show ?case
  proof (cases "lo < hi")
    case True
    have mid: "?mid < hi" "lo \<le> ?mid" "?mid < length a" using True "1.prems"(3) by auto
    show ?thesis
    proof (cases "a ! ?mid < x")
      case le: True
      have "\<forall>i < ?mid + 1. a ! i < x"
      proof (intro allI impI)
        fix i assume "i < ?mid + 1"
        then have "a ! i \<le> a ! ?mid" using sorted_nth_mono [OF "1.prems"(1), of i ?mid] mid(3) by simp
        then show "a ! i < x" using le by simp
      qed
      then show ?thesis
        using "1.IH"(1) [OF True refl le "1.prems"(1) _ "1.prems"(3) _ "1.prems"(5)] mid True le
        by (subst (1 2 3) bisect.simps) (simp add: Let_def)
    next
      case ge: False
      have "\<forall>i. ?mid \<le> i \<and> i < length a \<longrightarrow> x \<le> a ! i"
      proof (intro allI impI)
        fix i assume "?mid \<le> i \<and> i < length a"
        then have "a ! ?mid \<le> a ! i" using sorted_nth_mono [OF "1.prems"(1), of ?mid i] by simp
        then show "x \<le> a ! i" using ge by simp
      qed
      then show ?thesis
        using "1.IH"(2) [OF True refl ge "1.prems"(1) mid(2) _ "1.prems"(4)] mid True ge
        by (subst (1 2 3) bisect.simps) (simp add: Let_def)
    qed
  next
    case False
    then show ?thesis using "1.prems" by (subst (1 2 3) bisect.simps) auto
  qed
qed

lemma bisect_left_spec:
  assumes "sorted a"
  shows "bisect_left a x \<le> length a" "i < bisect_left a x \<Longrightarrow> a ! i < x"
    "bisect_left a x \<le> i \<Longrightarrow> i < length a \<Longrightarrow> x \<le> a ! i"
  using bisect_spec [OF assms, of 0 "length a" x] by (auto simp: bisect_left_def)

text \<open>The first of the nearest elements.\<close>

definition first_nearest :: "(nat \<Rightarrow> int) \<Rightarrow> nat \<Rightarrow> nat \<Rightarrow> bool" where
  "first_nearest gap n i = (i < n \<and> (\<forall>j < n. gap i \<le> gap j) \<and> (\<forall>j < i. gap i < gap j))"

lemma first_nearest_unique: "first_nearest gap n i \<Longrightarrow> first_nearest gap n j \<Longrightarrow> i = j"
  by (metis first_nearest_def leD nat_neq_iff)

lemma first_nearest_exists:
  assumes "0 < n" shows "\<exists>i. first_nearest gap n i"
  using assms
proof (induction n)
  case (Suc n)
  show ?case
  proof (cases "n = 0")
    case False
    then obtain i where i: "first_nearest gap n i" using Suc.IH by blast
    show ?thesis
    proof (cases "gap i \<le> gap n")
      case True
      then show ?thesis using i by (intro exI [of _ i]) (auto simp: first_nearest_def less_Suc_eq)
    next
      case lt: False
      then have "gap n < gap j" if "j < n" for j using i that by (force simp: first_nearest_def)
      then show ?thesis by (intro exI [of _ n]) (force simp: first_nearest_def less_Suc_eq)
    qed
  qed (auto simp: first_nearest_def)
qed simp

lemma nearest_sorted_spec:
  assumes s: "sorted_wrt (<) stamps" and n: "length records = length stamps" "records \<noteq> []"
  shows "\<exists>i. first_nearest (\<lambda>j. \<bar>stamps ! j - target\<bar>) (length records) i
    \<and> nearest_sorted records stamps target max_skew
      = (if \<bar>stamps ! i - target\<bar> \<le> max_skew then Some (records ! i) else None)"
proof -
  define d where "d j = \<bar>stamps ! j - target\<bar>" for j
  define k where "k = bisect_left stamps target"
  let ?n = "length records"
  have srt: "sorted stamps" using s by (rule strict_sorted_imp_sorted)
  note b = bisect_left_spec [OF srt, where x = target, folded k_def]
  have mono: "stamps ! i < stamps ! j" if "i < j" "j < ?n" for i j
    using sorted_wrt_nth_less [OF s that(1)] that(2) n(1) by simp
  have below: "d (k - 1) < d j" if "j < k - 1" for j
  proof -
    have "k - 1 < ?n" "k - 1 < k" using that b(1) n(1) by simp_all
    then show ?thesis using b(2) [of "k - 1"] mono [OF that] unfolding d_def by linarith
  qed
  have above: "d k < d j" if "k < j" "j < ?n" for j
  proof -
    have "k < length stamps" using that n(1) by simp
    then show ?thesis using b(3) [of k] mono [OF that] unfolding d_def by linarith
  qed
  have n0: "0 < ?n" using n(2) by simp
  have kn: "k \<le> ?n" using b(1) n(1) by simp
  define c1 where "c1 = (if k < ?n then [(d k, k)] else [])"
  define c2 where "c2 = (if 0 < k then [(d (k - 1), k - 1)] else [])"
  have ns: "nearest_sorted records stamps target max_skew =
      (case c1 @ c2 of [] \<Rightarrow> None | c # cs \<Rightarrow> (let (gap, i) = foldl min c cs in if gap \<le> max_skew then Some (records ! i) else None))"
    using n(2) by (simp add: nearest_sorted_def Let_def c1_def c2_def d_def k_def)
  have split: "j < k - 1 \<or> j = k - 1 \<or> j = k \<or> k < j" if "0 < k" for j using that by arith
  have "\<exists>i. first_nearest d ?n i \<and> nearest_sorted records stamps target max_skew = (if d i \<le> max_skew then Some (records ! i) else None)"
  proof (cases "k = 0")
    case True
    have "first_nearest d ?n 0" using above n0 True unfolding first_nearest_def by (metis gr0I less_imp_le not_less_zero order_refl)
    moreover have "nearest_sorted records stamps target max_skew = (if d 0 \<le> max_skew then Some (records ! 0) else None)"
      using n0 True by (simp add: ns c1_def c2_def)
    ultimately show ?thesis by blast
  next
    case False
    then have k0: "0 < k" by simp
    show ?thesis
    proof (cases "k < ?n \<and> d k < d (k - 1)")
      case True
      have "d k \<le> d j" "j < k \<longrightarrow> d k < d j" if "j < ?n" for j
        using split [OF k0, of j] below [of j] above [of j] that True by auto
      then have "first_nearest d ?n k" using True unfolding first_nearest_def by (meson less_trans)
      moreover have "nearest_sorted records stamps target max_skew = (if d k \<le> max_skew then Some (records ! k) else None)"
        using True k0 by (simp add: ns c1_def c2_def min_def)
      ultimately show ?thesis by blast
    next
      case False
      have "d (k - 1) \<le> d j" if "j < ?n" for j
        using split [OF k0, of j] below [of j] above [of j] that False by auto
      then have "first_nearest d ?n (k - 1)" using below k0 kn unfolding first_nearest_def by auto
      moreover have "nearest_sorted records stamps target max_skew = (if d (k - 1) \<le> max_skew then Some (records ! (k - 1)) else None)"
        using False k0 by (auto simp: ns c1_def c2_def min_def)
      ultimately show ?thesis by blast
    qed
  qed
  then show ?thesis by (simp only: d_def [abs_def])
qed

definition nearest_step :: "pyrt \<Rightarrow> int \<Rightarrow> int \<Rightarrow> (int \<times> pydict) option \<Rightarrow> pydict \<Rightarrow> (int \<times> pydict) option" where
  "nearest_step R target max_skew best d = nearest_from R best [d] target max_skew"

lemma nearest_from_snoc:
  "nearest_from R best (ds @ [d]) target max_skew = nearest_step R target max_skew (nearest_from R best ds target max_skew) d"
  by (induction R best ds target max_skew rule: nearest_from.induct) (simp_all add: nearest_step_def)

lemma first_nearest_snoc:
  assumes "first_nearest f n i" "\<forall>j < n. f j = g j"
  shows "first_nearest g (Suc n) (if g n < g i then n else i)"
  using assms by (auto simp: first_nearest_def less_Suc_eq not_less intro: less_le_trans le_less_trans order_trans)

definition record_ms :: "pyrt \<Rightarrow> pydict \<Rightarrow> int" where
  "record_ms R d = (case record_time R d of None \<Rightarrow> 0 | Some t \<Rightarrow> to_ms t)"

lemma nearest_step_eq:
  "record_time R d \<noteq> None \<Longrightarrow> nearest_step R target max_skew best d =
     (if \<bar>record_ms R d - target\<bar> \<le> max_skew \<and> (case best of None \<Rightarrow> True | Some (b, _) \<Rightarrow> \<bar>record_ms R d - target\<bar> < b)
      then Some (\<bar>record_ms R d - target\<bar>, d) else best)"
  by (auto simp: nearest_step_def record_ms_def Let_def split: option.splits)

lemma nearest_spec:
  "list_all (\<lambda>d. record_time R d \<noteq> None) ds \<Longrightarrow> ds \<noteq> [] \<Longrightarrow>
     \<exists>i. first_nearest (\<lambda>j. \<bar>record_ms R (ds ! j) - target\<bar>) (length ds) i
       \<and> nearest_from R None ds target max_skew
         = (if \<bar>record_ms R (ds ! i) - target\<bar> \<le> max_skew then Some (\<bar>record_ms R (ds ! i) - target\<bar>, ds ! i) else None)"
proof (induction ds rule: rev_induct)
  case (snoc d ds)
  let ?f = "\<lambda>ds j. \<bar>record_ms R (ds ! j) - target\<bar>"
  have d: "record_time R d \<noteq> None" using snoc.prems(1) by simp
  show ?case
  proof (cases "ds = []")
    case True
    then show ?thesis using d
      by (intro exI [of _ 0]) (simp add: first_nearest_def nearest_from_snoc [of R None "[]", simplified] nearest_step_eq)
  next
    case False
    then obtain i where i: "first_nearest (?f ds) (length ds) i"
      "nearest_from R None ds target max_skew = (if ?f ds i \<le> max_skew then Some (?f ds i, ds ! i) else None)"
      using snoc by auto
    have len: "i < length ds" using i(1) by (simp add: first_nearest_def)
    let ?g = "?f (ds @ [d])"
    have "first_nearest ?g (Suc (length ds)) (if ?g (length ds) < ?g i then length ds else i)"
      by (rule first_nearest_snoc [OF i(1)]) (simp add: nth_append)
    moreover have "nearest_from R None (ds @ [d]) target max_skew
        = (let k = (if ?g (length ds) < ?g i then length ds else i)
           in if ?g k \<le> max_skew then Some (?g k, (ds @ [d]) ! k) else None)"
      using len by (simp add: nearest_from_snoc nearest_step_eq [OF d] i(2) nth_append)
    ultimately show ?thesis by (simp only: length_append_singleton Let_def) blast
  qed
qed simp

subsection \<open>Grids and episodes\<close>

definition grid_length :: "int \<Rightarrow> int \<Rightarrow> int \<Rightarrow> nat" where
  "grid_length interval c e = (if c \<le> e then nat ((e - c) div interval) + 1 else 0)"

lemma grid_length_step:
  assumes "0 < interval" "c \<le> e" shows "grid_length interval c e = Suc (grid_length interval (c + interval) e)"
proof (cases "c + interval \<le> e")
  case True
  have "(e - c) div interval = (e - (c + interval)) div interval + 1"
    using div_add_self2 [of interval "e - (c + interval)"] assms(1) by (simp add: algebra_simps)
  moreover have "0 \<le> (e - (c + interval)) div interval" using assms(1) True by (simp add: pos_imp_zdiv_nonneg_iff)
  ultimately show ?thesis using assms True by (simp add: grid_length_def nat_add_distrib)
next
  case False
  then have "(e - c) div interval = 0" using assms by (intro div_pos_pos_trivial) simp_all
  then show ?thesis using assms False by (simp add: grid_length_def)
qed

lemma grid_closed:
  "0 < interval \<Longrightarrow> grid interval c e = map (\<lambda>i. c + int i * interval) [0..<grid_length interval c e]"
proof (induction interval c e rule: grid.induct)
  case (1 interval c e)
  show ?case
  proof (cases "c \<le> e")
    case True
    have "grid interval c e = c # map (\<lambda>i. c + interval + int i * interval) [0..<grid_length interval (c + interval) e]"
      using "1.IH" "1.prems" True by (subst grid.simps) simp
    also have "\<dots> = map (\<lambda>i. c + int i * interval) [0..<Suc (grid_length interval (c + interval) e)]"
      by (simp add: upt_conv_Cons map_Suc_upt [symmetric] algebra_simps del: upt_Suc)
    finally show ?thesis using grid_length_step [OF "1.prems" True] by simp
  next
    case False
    then show ?thesis by (subst grid.simps) (simp add: grid_length_def)
  qed
qed

lemma make_episodes_keys: "map fst (make_episodes R ts interval max_skew channels splits i keys) = keys"
  by (induction R ts interval max_skew channels splits i keys rule: make_episodes.induct) (simp_all add: Let_def)

lemma make_episodes_rows:
  "(key, rows) \<in> set (make_episodes R ts interval max_skew channels splits i keys) \<Longrightarrow>
     \<exists>base. rows = map (\<lambda>(j, c). make_step R ts max_skew channels splits key (base + j) c) (enumerate 0 (episode_grid R ts interval key))"
  by (induction R ts interval max_skew channels splits i keys rule: make_episodes.induct) (auto simp: Let_def)

lemma row_at:
  assumes "(key, rows) \<in> set (make_episodes R ts interval max_skew channels splits i keys)"
  shows "\<exists>base. length rows = length (episode_grid R ts interval key)
    \<and> (\<forall>j < length rows. rows ! j = make_step R ts max_skew channels splits key (base + j) (episode_grid R ts interval key ! j))"
proof -
  obtain base where r: "rows = map (\<lambda>(j, c). make_step R ts max_skew channels splits key (base + j) c) (enumerate 0 (episode_grid R ts interval key))"
    using make_episodes_rows [OF assms] by blast
  then show ?thesis by (intro exI [of _ base]) (simp add: nth_enumerate_eq)
qed

lemma link_steps_pair:
  "tr \<in> set (link_steps as ats bs bts k rows) \<Longrightarrow>
     \<exists>j a b. Suc j < length rows \<and> tr = make_transition a b (rows ! j) (rows ! Suc j)"
proof (induction as ats bs bts k rows rule: link_steps.induct)
  case (1 as ats bs bts k cur nxt rest)
  from "1.prems" consider
    "tr = make_transition (nearest_sorted as ats (sw_time cur) k) (nearest_sorted bs bts (sw_time cur) k) cur nxt"
    | "tr \<in> set (link_steps as ats bs bts k (nxt # rest))" by auto
  then show ?case
  proof cases
    case 1
    then show ?thesis by (intro exI [of _ 0]) auto
  next
    case 2
    from "1.IH" [OF 2] obtain j a b where "Suc j < length (nxt # rest)" "tr = make_transition a b ((nxt # rest) ! j) ((nxt # rest) ! Suc j)"
      by blast
    then show ?thesis by (intro exI [of _ "Suc j"]) auto
  qed
qed simp_all

lemma make_transitions_pair:
  "make_transitions acts outs k eps = Inr trs \<Longrightarrow> tr \<in> set trs \<Longrightarrow>
     \<exists>key rows j a b. (key, rows) \<in> set eps \<and> Suc j < length rows \<and> tr = make_transition a b (rows ! j) (rows ! Suc j)"
proof (induction acts outs k eps arbitrary: trs rule: make_transitions.induct)
  case (2 acts outs k key rows rest)
  from "2.prems"(1) obtain ats bts more where p:
    "all_ints (map (\<lambda>r. pget r ''timestamp_ms'') (rows_of key acts)) = Inr ats"
    "all_ints (map (\<lambda>r. pget r ''timestamp_ms'') (rows_of key outs)) = Inr bts"
    "make_transitions acts outs k rest = Inr more"
    "trs = link_steps (rows_of key acts) ats (rows_of key outs) bts k rows @ more"
    by (auto simp: Let_def)
  from "2.prems"(2) p(4) consider "tr \<in> set (link_steps (rows_of key acts) ats (rows_of key outs) bts k rows)" | "tr \<in> set more" by auto
  then show ?case
  proof cases
    case 1
    from link_steps_pair [OF this] show ?thesis by (metis list.set_intros(1))
  next
    case 2
    from "2.IH" [OF refl refl p(3) 2] show ?thesis by (metis list.set_intros(2))
  qed
qed simp

section \<open>The search is the scan\<close>

text \<open>Claim C26. On the records of a channel, at strictly increasing times, the binary search that version 3
  uses returns what the scan of version 2 returns, for every target and every tolerance.\<close>

theorem nearest_sorted_equals_scan:
  assumes "list_all (\<lambda>d. record_time R d \<noteq> None) ds" "sorted_wrt (<) (map (record_ms R) ds)"
  shows "nearest_sorted ds (map (record_ms R) ds) target max_skew = nearest R ds target max_skew"
proof (cases "ds = []")
  case True
  then show ?thesis by (simp add: nearest_sorted_def nearest_def)
next
  case False
  let ?gap = "\<lambda>j. \<bar>record_ms R (ds ! j) - target\<bar>"
  obtain i where i: "first_nearest ?gap (length ds) i"
      "nearest_from R None ds target max_skew = (if ?gap i \<le> max_skew then Some (?gap i, ds ! i) else None)"
    using nearest_spec [OF assms(1) False] by blast
  obtain j where j: "first_nearest (\<lambda>j. \<bar>map (record_ms R) ds ! j - target\<bar>) (length ds) j"
      "nearest_sorted ds (map (record_ms R) ds) target max_skew
        = (if \<bar>map (record_ms R) ds ! j - target\<bar> \<le> max_skew then Some (ds ! j) else None)"
    using nearest_sorted_spec [OF assms(2) _ False] by force
  have "first_nearest ?gap (length ds) j"
    using j(1) by (auto simp: first_nearest_def)
  then have "j = i" using i(1) by (rule first_nearest_unique)
  moreover have "i < length ds" using i(1) by (simp add: first_nearest_def)
  ultimately show ?thesis using i(2) j(2) by (simp add: nearest_def)
qed

definition sample_rt :: pyrt where
  "sample_rt = demo_rt\<lparr>iso_of := (\<lambda>s. map_option (\<lambda>n. (of_int n, True)) (int_of_text s))\<rparr>"

definition sample :: "string \<Rightarrow> string \<Rightarrow> rat \<Rightarrow> pydict" where
  "sample e t v = [(''site_id'', PStr ''s''), (''asset_id'', PStr ''a''), (''tag'', PStr ''g''), (''episode_id'', PStr e),
     (''timestamp'', PStr t), (''value'', PFloat v)]"

theorem nearest_sorted_equals_scan_witness:
  "nearest_sorted [sample ''e'' ''1'' 5, sample ''e'' ''3'' 7]
      (map (record_ms sample_rt) [sample ''e'' ''1'' 5, sample ''e'' ''3'' 7]) 2000 1000
   = nearest sample_rt [sample ''e'' ''1'' 5, sample ''e'' ''3'' 7] 2000 1000"
  by (rule nearest_sorted_equals_scan) code_simp+

section \<open>Trajectories\<close>

lemma explicit_ok:
  "explicit_splits R es c = Inr r \<Longrightarrow> map fst r = es \<and> (\<forall>p \<in> set r. snd p \<in> set split_names)"
  by (auto simp: explicit_splits_def Let_def list_all_iff comp_def split: pyval.splits if_splits)

lemma temporal_each_ok:
  "temporal_each a b es = Inr r \<Longrightarrow> map fst r = map fst es \<and> (\<forall>p \<in> set r. snd p \<in> set split_names)"
proof (induction a b es arbitrary: r rule: temporal_each.induct)
  case (2 a b e end_ms es)
  then obtain rest s where r: "temporal_each a b es = Inr rest" "r = (e, s) # rest" "\<not> end_ms < 0" "s \<in> set split_names"
    by (auto simp: split_names_def split: if_splits)
  show ?case using "2.IH" [OF r(3,1)] r(2,4) by simp
qed simp

lemma temporal_ok:
  "temporal_splits R es c = Inr r \<Longrightarrow> map fst r = map fst es \<and> (\<forall>p \<in> set r. snd p \<in> set split_names)"
  by (auto simp: temporal_splits_def Let_def dest: temporal_each_ok split: pyval.splits if_splits)

lemma hash_ok:
  "hash_splits R digest es c = Inr r \<Longrightarrow> map fst r = es \<and> (\<forall>p \<in> set r. snd p \<in> set split_names)"
  by (auto simp: hash_splits_def Let_def comp_def split_names_def split: pyval.splits if_splits)

lemma split_assignments_ok:
  "split_assignments R digest ends splits = Inr r \<Longrightarrow> map fst r = map fst ends \<and> (\<forall>p \<in> set r. snd p \<in> set split_names)"
  unfolding split_assignments_def res_bind_Inr Let_def
  by (auto split: if_splits dest: explicit_ok temporal_ok hash_ok)

lemma split_of_episode:
  assumes "split_assignments R digest ends splits = Inr r" "e \<in> set (map fst ends)"
  shows "dict_getd r e d \<in> set split_names"
proof -
  have r: "map fst r = map fst ends" "\<forall>p \<in> set r. snd p \<in> set split_names" using split_assignments_ok [OF assms(1)] by blast+
  have "e \<in> fst ` set r" using assms(2) r(1) by (metis list.set_map)
  then obtain s where s: "map_of r e = Some s" by (cases "map_of r e") (auto simp: map_of_eq_None_iff)
  then have "(e, s) \<in> set r" by (rule map_of_SomeD)
  then show ?thesis using r(2) s by (auto simp: dict_getd_def)
qed

lemma set_sorted_set [simp]: "set (sorted_set xs) = set xs"
  by (simp add: sorted_set_def)

text \<open>What a successful compilation says about its bundle.\<close>

definition observations :: "pyrt \<Rightarrow> (string \<Rightarrow> pydict list) \<Rightarrow> pydict \<Rightarrow> timed list" where
  "observations R read m = timed_records R (source_records R read (pget m ''observation_sources''))"

definition episode_keys :: "pyrt \<Rightarrow> timed list \<Rightarrow> (string \<times> string) list" where
  "episode_keys R ts = sorted_set (map (\<lambda>(d, _). episode_key R d) ts)"

lemma compile_inversion:
  assumes "compile_v3 R read digest m = Inr b"
  obtains al interval max_skew where
    "pget m ''alignment'' = PDict al" "py_int (pget al ''sample_interval_ms'') = Some interval"
    "py_int (pget al ''max_skew_ms'') = Some max_skew"
    "split_assignments R digest (episode_ends R (observations R read m) (sorted_set (map snd (episode_keys R (observations R read m)))))
       (pget m ''splits'') = Inr (bu_splits b)"
    "bu_channels b = sorted_set (map (\<lambda>(d, _). channel_of R d) (observations R read m))"
    "bu_episodes b = make_episodes R (observations R read m) interval max_skew (bu_channels b) (bu_splits b) 0
       (episode_keys R (observations R read m))"
    "make_transitions (bu_actions b) (bu_outcomes b) max_skew (bu_episodes b) = Inr (bu_transitions b)"
    "observation_errors R (observations R read m) = Inr ()"
  using assms unfolding compile_v3_def Let_def observations_def [symmetric] episode_keys_def [symmetric] res_bind_Inr
  by (fastforce simp: need_dict_def need_int_def split: pyval.splits option.splits)

lemma episode_row:
  assumes c: "compile_v3 R read digest m = Inr b" and r: "(key, rows) \<in> set (bu_episodes b)"
  obtains al interval max_skew base where
    "pget m ''alignment'' = PDict al" "py_int (pget al ''sample_interval_ms'') = Some interval"
    "py_int (pget al ''max_skew_ms'') = Some max_skew"
    "key \<in> set (episode_keys R (observations R read m))"
    "length rows = length (episode_grid R (observations R read m) interval key)"
    "\<And>j. j < length rows \<Longrightarrow> rows ! j = make_step R (observations R read m) max_skew (bu_channels b) (bu_splits b) key (base + j)
        (episode_grid R (observations R read m) interval key ! j)"
proof (rule compile_inversion [OF c])
  fix al interval max_skew
  assume a: "pget m ''alignment'' = PDict al" "py_int (pget al ''sample_interval_ms'') = Some interval"
    "py_int (pget al ''max_skew_ms'') = Some max_skew"
    "bu_episodes b = make_episodes R (observations R read m) interval max_skew (bu_channels b) (bu_splits b) 0
       (episode_keys R (observations R read m))"
  note r' = r [unfolded a(4)]
  have key: "key \<in> set (episode_keys R (observations R read m))"
    using r' make_episodes_keys [of R "observations R read m" interval max_skew "bu_channels b" "bu_splits b" 0
        "episode_keys R (observations R read m)"] by (metis fst_conv image_eqI list.set_map)
  from row_at [OF r'] show thesis using that [OF a(1-3) key] by blast
qed

lemma step_split:
  assumes c: "compile_v3 R read digest m = Inr b" and x: "x \<in> set (bu_steps b)"
  shows "sw_split x = dict_getd (bu_splits b) (sw_episode x) [] \<and> sw_split x \<in> set split_names"
proof -
  obtain key rows j where r: "(key, rows) \<in> set (bu_episodes b)" "j < length rows" "x = rows ! j"
    using x by (auto simp: bu_steps_def in_set_conv_nth)
  obtain max_skew base c' where x': "x = make_step R (observations R read m) max_skew (bu_channels b) (bu_splits b) key base c'"
    and key: "key \<in> set (episode_keys R (observations R read m))"
    using episode_row [OF c r(1)] r(2,3) by metis
  have "snd key \<in> set (map fst (episode_ends R (observations R read m) (sorted_set (map snd (episode_keys R (observations R read m))))))"
    using key by (auto simp: episode_ends_def comp_def)
  moreover have "split_assignments R digest (episode_ends R (observations R read m) (sorted_set (map snd (episode_keys R (observations R read m)))))
       (pget m ''splits'') = Inr (bu_splits b)"
    using compile_inversion [OF c] by metis
  ultimately have "dict_getd (bu_splits b) (snd key) [] \<in> set split_names" by (rule split_of_episode [rotated])
  then show ?thesis using x' by (simp add: make_step_def Let_def)
qed

text \<open>Claim C4. A compiled bundle does not leak between its partitions: every step is in train, validation
  or test, the steps of one episode are in the same partition at whatever site, and a transition joins
  two consecutive steps of one episode of one site, both in the partition it is filed under.\<close>

theorem no_split_leakage:
  assumes "compile_v3 R read digest m = Inr b"
  shows "(\<forall>x \<in> set (bu_steps b). sw_split x \<in> {''train'', ''validation'', ''test''}
        \<and> (\<forall>y \<in> set (bu_steps b). sw_episode y = sw_episode x \<longrightarrow> sw_split y = sw_split x))
    \<and> (\<forall>tr \<in> set (bu_transitions b). \<exists>x \<in> set (bu_steps b). \<exists>y \<in> set (bu_steps b).
        tr_step tr = sw_step x \<and> tr_next tr = sw_step y \<and> sw_step y = sw_step x + 1
        \<and> sw_site y = sw_site x \<and> sw_episode y = sw_episode x \<and> tr_site tr = sw_site x \<and> tr_episode tr = sw_episode x
        \<and> tr_split tr = sw_split x \<and> sw_split y = sw_split x)"
proof (intro conjI ballI impI)
  fix x assume x: "x \<in> set (bu_steps b)"
  note sx = step_split [OF assms x]
  show "sw_split x \<in> {''train'', ''validation'', ''test''}" using conjunct2 [OF sx] by (simp only: split_names_def list.set)
  fix y assume y: "y \<in> set (bu_steps b)" "sw_episode y = sw_episode x"
  show "sw_split y = sw_split x" using sx step_split [OF assms y(1)] y(2) by metis
next
  fix tr assume tr: "tr \<in> set (bu_transitions b)"
  obtain max_skew where t: "make_transitions (bu_actions b) (bu_outcomes b) max_skew (bu_episodes b) = Inr (bu_transitions b)"
    using compile_inversion [OF assms] by metis
  obtain key rows j u v where r: "(key, rows) \<in> set (bu_episodes b)" "Suc j < length rows"
      "tr = make_transition u v (rows ! j) (rows ! Suc j)"
    using make_transitions_pair [OF t tr] by metis
  obtain max_skew base cs where at: "\<And>i. i < length rows \<Longrightarrow>
      rows ! i = make_step R (observations R read m) max_skew (bu_channels b) (bu_splits b) key (base + i) (cs i)"
    using episode_row [OF assms r(1)] by metis
  have "set rows \<subseteq> set (bu_steps b)" using r(1) unfolding bu_steps_def by force
  then have "rows ! j \<in> set (bu_steps b)" "rows ! Suc j \<in> set (bu_steps b)" using r(2) by (auto intro!: nth_mem)
  moreover have "tr_step tr = sw_step (rows ! j) \<and> tr_next tr = sw_step (rows ! Suc j) \<and> sw_step (rows ! Suc j) = sw_step (rows ! j) + 1
        \<and> sw_site (rows ! Suc j) = sw_site (rows ! j) \<and> sw_episode (rows ! Suc j) = sw_episode (rows ! j)
        \<and> tr_site tr = sw_site (rows ! j) \<and> tr_episode tr = sw_episode (rows ! j)
        \<and> tr_split tr = sw_split (rows ! j) \<and> sw_split (rows ! Suc j) = sw_split (rows ! j)"
    using at [of j] at [of "Suc j"] r(2,3) by (simp add: make_step_def make_transition_def Let_def)
  ultimately show "\<exists>x \<in> set (bu_steps b). \<exists>y \<in> set (bu_steps b).
        tr_step tr = sw_step x \<and> tr_next tr = sw_step y \<and> sw_step y = sw_step x + 1
        \<and> sw_site y = sw_site x \<and> sw_episode y = sw_episode x \<and> tr_site tr = sw_site x \<and> tr_episode tr = sw_episode x
        \<and> tr_split tr = sw_split x \<and> sw_split y = sw_split x" by blast
qed

definition two_episodes :: pydict where
  "two_episodes =
     [(''alignment'', PDict [(''sample_interval_ms'', PInt 1000), (''max_skew_ms'', PInt 500)]),
      (''observation_sources'', PList [PDict (sample ''e'' ''2'' 7), PDict (sample ''e'' ''1'' 5), PDict (sample ''f'' ''4'' 9)]),
      (''splits'', PDict [(''strategy'', PStr ''explicit''),
                          (''assignments'', PDict [(''e'', PStr ''train''), (''f'', PStr ''test'')])])]"

definition two_bundle :: trajectory where
  "two_bundle = (case compile_v3 sample_rt (\<lambda>_. []) (\<lambda>_. 0) two_episodes of
     Inr b \<Rightarrow> b | Inl _ \<Rightarrow> \<lparr>bu_channels = [], bu_splits = [], bu_episodes = [], bu_actions = [], bu_outcomes = [],
       bu_artifacts = [], bu_transitions = []\<rparr>)"

lemma two_bundle: "compile_v3 sample_rt (\<lambda>_. []) (\<lambda>_. 0) two_episodes = Inr two_bundle"
proof -
  have "is_ok (compile_v3 sample_rt (\<lambda>_. []) (\<lambda>_. 0) two_episodes)" by code_simp
  then show ?thesis by (cases "compile_v3 sample_rt (\<lambda>_. []) (\<lambda>_. 0) two_episodes") (simp_all add: two_bundle_def is_ok_def)
qed

theorem no_split_leakage_witness:
  "\<exists>x \<in> set (bu_steps two_bundle). \<exists>y \<in> set (bu_steps two_bundle).
     sw_split x \<noteq> sw_split y \<and> bu_transitions two_bundle \<noteq> []
     \<and> (\<forall>z \<in> set (bu_steps two_bundle). sw_episode z = sw_episode x \<longrightarrow> sw_split z = sw_split x)"
proof -
  have "list_ex (\<lambda>x. list_ex (\<lambda>y. sw_split x \<noteq> sw_split y) (bu_steps two_bundle)) (bu_steps two_bundle) \<and> bu_transitions two_bundle \<noteq> []"
    by code_simp
  then obtain x y where "x \<in> set (bu_steps two_bundle)" "y \<in> set (bu_steps two_bundle)" "sw_split x \<noteq> sw_split y"
      "bu_transitions two_bundle \<noteq> []" unfolding list_ex_iff by blast
  then show ?thesis using conjunct1 [OF no_split_leakage [OF two_bundle]] by blast
qed

text \<open>The values of a step.\<close>

lemma bisect_bound: "lo \<le> hi \<Longrightarrow> hi \<le> n \<Longrightarrow> bisect a x lo hi \<le> n"
proof (induction a x lo hi rule: bisect.induct)
  case (1 a x lo hi)
  then show ?case by (subst bisect.simps) (auto simp: Let_def)
qed

lemma nearest_sorted_within:
  assumes "nearest_sorted records stamps target k = Some d" "length stamps = length records"
  shows "\<exists>i < length records. d = records ! i \<and> \<bar>stamps ! i - target\<bar> \<le> k"
proof -
  have "bisect_left stamps target \<le> length records"
    using bisect_bound [of 0 "length stamps" "length records"] assms(2) by (simp add: bisect_left_def)
  moreover have "bisect_left stamps target - 1 < length records" if "records \<noteq> []"
    using calculation that by (cases records) auto
  ultimately show ?thesis using assms
    by (auto simp: nearest_sorted_def Let_def min_def split: if_splits intro: exI [of _ "bisect_left stamps target"]
        exI [of _ "bisect_left stamps target - 1"])
qed

lemma observe_within:
  assumes "observe R ts k key cursor channel = Some v"
  shows "\<exists>d t. (d, t) \<in> set ts \<and> channel_of R d = channel \<and> snd (episode_key R d) = snd key \<and> hd (split_colons channel) = fst key
    \<and> record_value R d = Some v \<and> \<bar>to_ms t - cursor\<bar> \<le> k"
proof -
  let ?rs = "channel_records R ts channel (snd key)"
  obtain d where d: "hd (split_colons channel) = fst key"
      "nearest_sorted (map fst ?rs) (map (\<lambda>(_, t). to_ms t) ?rs) cursor k = Some d" "record_value R d = Some v"
    using assms by (auto simp: observe_def Let_def split: if_splits option.splits)
  obtain i where i: "i < length ?rs" "d = fst (?rs ! i)" "\<bar>to_ms (snd (?rs ! i)) - cursor\<bar> \<le> k"
    using nearest_sorted_within [OF d(2)] by (auto simp: case_prod_beta)
  have "?rs ! i \<in> set ?rs" using i(1) by simp
  then have "?rs ! i \<in> set ts" "channel_of R d = channel" "snd (episode_key R d) = snd key"
    using i(2) by (auto simp: channel_records_def case_prod_beta)
  then show ?thesis using d(1,3) i(2,3) by (metis prod.collapse)
qed

lemma observations_have_episodes:
  assumes "observation_errors R ts = Inr ()" "(d, t) \<in> set ts"
  shows "episode_of R d = Some (snd (episode_key R d))"
proof -
  have "\<not> list_ex (\<lambda>(d, _). episode_of R d = None) ts" using assms(1) unfolding observation_errors_def by (metis Inl_Inr_False)
  then have "episode_of R d \<noteq> None" using assms(2) by (auto simp: list_ex_iff)
  then show ?thesis by (auto simp: episode_key_def)
qed

text \<open>Nothing is interpolated and nothing is invented: a value of a step is the value of an
  observation of that channel and that episode, at most \<open>max_skew_ms\<close> away from the step's time.\<close>

theorem values_are_observed:
  assumes "compile_v3 R read digest m = Inr b" "x \<in> set (bu_steps b)" "i < length (bu_channels b)"
    "sw_values x ! i = Some v" "pget m ''alignment'' = PDict al" "py_int (pget al ''max_skew_ms'') = Some max_skew"
  shows "\<exists>d t. (d, t) \<in> set (observations R read m) \<and> channel_of R d = bu_channels b ! i \<and> episode_of R d = Some (sw_episode x)
    \<and> record_value R d = Some v \<and> \<bar>to_ms t - sw_time x\<bar> \<le> max_skew"
proof -
  obtain key rows j where r: "(key, rows) \<in> set (bu_episodes b)" "j < length rows" "x = rows ! j"
    using assms(2) by (auto simp: bu_steps_def in_set_conv_nth)
  obtain base c where x: "x = make_step R (observations R read m) max_skew (bu_channels b) (bu_splits b) key base c"
    and key: "key \<in> set (episode_keys R (observations R read m))"
    using episode_row [OF assms(1) r(1)] r(2,3) assms(5,6) by (metis option.inject pyval.inject(6))
  have "observe R (observations R read m) max_skew key c (bu_channels b ! i) = Some v"
    using assms(3,4) x by (simp add: make_step_def Let_def)
  from observe_within [OF this] obtain d t where d: "(d, t) \<in> set (observations R read m)" "channel_of R d = bu_channels b ! i"
      "snd (episode_key R d) = snd key" "record_value R d = Some v" "\<bar>to_ms t - c\<bar> \<le> max_skew" by blast
  have "observation_errors R (observations R read m) = Inr ()" using compile_inversion [OF assms(1)] by metis
  from observations_have_episodes [OF this d(1)] have "episode_of R d = Some (snd key)" using d(3) by simp
  moreover have "sw_episode x = snd key" "sw_time x = c" using x by (simp_all add: make_step_def Let_def)
  ultimately show ?thesis using d by metis
qed

theorem values_are_observed_witness:
  "\<exists>x v d t. x \<in> set (bu_steps two_bundle) \<and> sw_values x ! 0 = Some v
     \<and> (d, t) \<in> set (observations sample_rt (\<lambda>_. []) two_episodes) \<and> record_value sample_rt d = Some v \<and> \<bar>to_ms t - sw_time x\<bar> \<le> 500"
proof -
  let ?x = "hd (bu_steps two_bundle)"
  have x: "?x \<in> set (bu_steps two_bundle)" by code_simp
  have i: "0 < length (bu_channels two_bundle)" by code_simp
  have v: "sw_values ?x ! 0 = Some 5" by code_simp
  have al: "pget two_episodes ''alignment'' = PDict [(''sample_interval_ms'', PInt 1000), (''max_skew_ms'', PInt 500)]" by code_simp
  have k: "py_int (pget [(''sample_interval_ms'', PInt 1000), (''max_skew_ms'', PInt 500)] ''max_skew_ms'') = Some 500" by code_simp
  from values_are_observed [OF two_bundle x i v al k] show ?thesis using x v by blast
qed

text \<open>The steps of an episode are the times from its first observation, one interval apart, up to its last.\<close>

lemma steps_on_grid:
  assumes "compile_v3 R read digest m = Inr b" "(key, rows) \<in> set (bu_episodes b)" "j < length rows"
    "pget m ''alignment'' = PDict al" "py_int (pget al ''sample_interval_ms'') = Some interval" "0 < interval"
    "episode_times R (observations R read m) key = t # ts"
  shows "sw_time (rows ! j) = foldl min t ts + int j * interval
    \<and> length rows = grid_length interval (foldl min t ts) (foldl max t ts)"
proof -
  obtain max_skew base where g: "length rows = length (episode_grid R (observations R read m) interval key)"
      "rows ! j = make_step R (observations R read m) max_skew (bu_channels b) (bu_splits b) key (base + j)
         (episode_grid R (observations R read m) interval key ! j)"
    using episode_row [OF assms(1,2)] assms(3-5) by (metis option.inject pyval.inject(6))
  have eg: "episode_grid R (observations R read m) interval key =
      map (\<lambda>i. foldl min t ts + int i * interval) [0..<grid_length interval (foldl min t ts) (foldl max t ts)]"
    by (simp add: episode_grid_def assms(7) grid_closed [OF assms(6)])
  show ?thesis using g assms(3) unfolding eg by (simp add: make_step_def Let_def)
qed

section \<open>Where the compiler loses evidence\<close>

text \<open>The actions of an episode are searched by bisection in the order of the source, which need not be
  the order of their times: the action taken exactly at the first step is not found.\<close>

definition late_first :: pydict where
  "late_first = (''action_sources'', PList
      [PDict [(''action_id'', PStr ''late''), (''site_id'', PStr ''s''), (''episode_id'', PStr ''e''), (''timestamp'', PStr ''3'')],
       PDict [(''action_id'', PStr ''first''), (''site_id'', PStr ''s''), (''episode_id'', PStr ''e''), (''timestamp'', PStr ''1'')]])
     # two_episodes"

lemma unsorted_actions_missed:
  "(case compile_v3 sample_rt (\<lambda>_. []) (\<lambda>_. 0) late_first of
      Inl _ \<Rightarrow> False
    | Inr b \<Rightarrow> tr_time (hd (bu_transitions b)) = 1000 \<and> tr_action (hd (bu_transitions b)) = PNone
        \<and> nearest sample_rt (bu_actions b) 1000 0 = Some (last (bu_actions b))
        \<and> pget (last (bu_actions b)) ''action_id'' = PStr ''first'')"
  by code_simp

text \<open>A tolerance of zero is refused, with the message that it must be zero or positive.\<close>

lemma zero_skew_refused:
  assumes "manifest_version m = Inr n" "2 \<le> n" "pget m ''alignment'' = PDict al" "pget al ''max_skew_ms'' = PInt 0"
    "validate_model_manifest R m = Inr v"
  shows "\<not> va_valid v"
proof -
  let ?msg = "''alignment.max_skew_ms must be zero or positive''"
  have skew: "need_int (py_or (dict_getd al ''max_skew_ms'' (PInt (-1))) (PInt (-1))) = Inr (-1)"
    using assms(4) by (cases "map_of al ''max_skew_ms''") (simp_all add: dict_getd_def pget_def need_int_def py_or_def py_int_def)
  have al: "need_dict (py_or (pget m ''alignment'') (PDict [])) = Inr al"
    using assms(3) by (cases al) (simp_all add: need_dict_def py_or_def)
  have "?msg \<in> set (va_errors v) \<and> va_valid v = (va_errors v = [])"
    using assms(1,2,5) unfolding validate_model_manifest_def res_bind_Inr Let_def
    by (auto simp: al skew verdict_def err_if_def)
  then show ?thesis by force
qed

end
