(* ===== verification/Dataset_Builds.thy ===== *)
theory Dataset_Builds
  imports Model_Dataset Work_Claims
begin

text \<open>
  The compiler of dataset manifests of every version (\<open>services/common/model_dataset.py\<close>,
  \<open>training_dataset.py\<close>), the registry of manifests and build jobs in PostgreSQL
  (\<open>dataset_registry.py\<close>) and the worker that builds them (\<open>datasets/dataset_worker.py\<close>).
  The tables are lists in the order of insertion. A call is a transaction; \<open>now()\<close>, the fresh
  identifier, the rows that other transactions hold locked and the files of the output directory are
  parameters. What is left in the output directory by a failed build is not modelled.
\<close>

section \<open>Version 1\<close>

record signals =
  sg_duplicates :: int
  sg_missing :: int
  sg_late :: int

definition is_late :: "pyrt \<Rightarrow> pydict \<Rightarrow> bool" where
  "is_late R d =
     (let source = py_or (pget d ''ts_source'') (pget d ''timestamp''); ingest = pget d ''ts_ingest''
      in truthy source \<and> truthy ingest
         \<and> (case (iso_of R (zulu (py_str R source)), iso_of R (zulu (py_str R ingest))) of
              (Some (s, _), Some (i, _)) \<Rightarrow> 60 < i - s
            | _ \<Rightarrow> False))"

definition quality_signals :: "pyrt \<Rightarrow> pydict list \<Rightarrow> signals" where
  "quality_signals R ds =
     (let ids = map (\<lambda>d. py_str R (pget d ''event_id'')) (filter (\<lambda>d. truthy (pget d ''event_id'')) ds)
      in \<lparr>sg_duplicates = int (length ids) - int (length (remdups ids)),
          sg_missing = int (length (filter (\<lambda>d. \<not> truthy (py_or (pget d ''ts_source'') (py_or (pget d ''timestamp'') (pget d ''time'')))) ds)),
          sg_late = int (length (filter (is_late R) ds))\<rparr>)"

text \<open>The gates of a manifest: key, name of the signal, its value.\<close>

definition gate_fields :: "(string \<times> string \<times> (signals \<Rightarrow> int)) list" where
  "gate_fields =
     [(''max_duplicate_event_ids'', ''duplicate_event_ids'', sg_duplicates),
      (''max_missing_source_timestamps'', ''missing_source_timestamps'', sg_missing),
      (''max_late_events_over_60s'', ''late_events_over_60s'', sg_late)]"

fun gate_limits :: "pydict \<Rightarrow> (string \<times> string \<times> (signals \<Rightarrow> int)) list \<Rightarrow> string + (string \<times> (signals \<Rightarrow> int) \<times> int) list" where
  "gate_limits gates [] = Inr []"
| "gate_limits gates ((key, name, signal) # fs) =
     (if dict_has gates key
      then res_bind (need_int (pget gates key)) (\<lambda>limit.
             res_bind (gate_limits gates fs) (\<lambda>rest. Inr ((name, signal, limit) # rest)))
      else gate_limits gates fs)"

definition gate_errors :: "signals list \<Rightarrow> pydict \<Rightarrow> string + string list" where
  "gate_errors per_source gates =
     res_bind (gate_limits gates gate_fields) (\<lambda>limits.
       Inr (concat (map (\<lambda>(name, signal, limit).
              (let n = sum_list (map signal per_source)
               in if limit < n
                  then [''quality gate exceeded: '' @ name @ ''='' @ int_str n @ '' > '' @ int_str limit] else [])) limits)))"

record bundle_v1 =
  b1_tables :: "(string \<times> pydict list) list"
  b1_sites :: "string list"
  b1_gate_errors :: "string list"
  b1_warnings :: "string list"
  b1_valid :: bool

definition site_names :: "pyrt \<Rightarrow> pydict list \<Rightarrow> string list" where
  "site_names R ds =
     sorted_set (map (\<lambda>d. py_str R (dict_getd d ''site_id'' (dict_getd d ''site'' (PStr []))))
       (filter (\<lambda>d. truthy (dict_getd d ''site_id'' (dict_getd d ''site'' (PStr [])))) ds))"

text \<open>\<open>manifest.get("quality_gates") or {}\<close>, of which only \<open>key in gates\<close> and \<open>gates[key]\<close> are used.\<close>

definition gates_of :: "pyval \<Rightarrow> string + pydict" where
  "gates_of v =
     (let names = map fst gate_fields in
      if \<not> truthy v then Inr []
      else (case v of
        PDict g \<Rightarrow> Inr g
      | PList vs \<Rightarrow> if list_ex (\<lambda>k. PStr k \<in> set vs) names then Inl ''TypeError'' else Inr []
      | PStr s \<Rightarrow> if list_ex (contains s) names then Inl ''TypeError'' else Inr []
      | _ \<Rightarrow> Inl ''TypeError''))"

text \<open>\<open>compile_bundle\<close>: the records come from the arguments of the call, not from the manifest.\<close>

definition compile_bundle :: "pyrt \<Rightarrow> pydict \<Rightarrow> pydict list \<Rightarrow> pydict list \<Rightarrow> pydict list \<Rightarrow> string + bundle_v1" where
  "compile_bundle R m obs events outs =
     res_bind (validate_manifest R m) (\<lambda>v.
       if \<not> va_valid v then Inl (''invalid dataset manifest: '' @ join ''; '' (va_errors v))
       else
         (let tables = [(''observations'', obs), (''operational_events'', events), (''outcomes'', outs)]
          in res_bind (gates_of (pget m ''quality_gates'')) (\<lambda>gates.
             res_bind (gate_errors (map (\<lambda>(_, ds). quality_signals R ds) tables) gates) (\<lambda>errors.
             Inr \<lparr>b1_tables = tables, b1_sites = site_names R (concat (map snd tables)), b1_gate_errors = errors,
                  b1_warnings = va_warnings v, b1_valid = (va_valid v \<and> errors = [])\<rparr>))))"

section \<open>Version 2\<close>

record step_v2 =
  s2_step :: nat
  s2_time :: int
  s2_values :: "rat option list"
  s2_mask :: "bool list"

record bundle_v2 =
  b2_channels :: "string list"
  b2_steps :: "step_v2 list"
  b2_actions :: "pydict list"
  b2_outcomes :: "pydict list"
  b2_artifacts :: "pydict list"

definition channel_v2 :: "pyrt \<Rightarrow> pydict \<Rightarrow> string" where
  "channel_v2 R d =
     py_str R (dict_getd d ''asset_id'' (dict_getd d ''entity_id'' (PStr ''unknown'')))
     @ ''::'' @ py_str R (dict_getd d ''tag'' (dict_getd d ''channel'' (PStr ''value'')))"

definition observe_v2 :: "pyrt \<Rightarrow> pydict list \<Rightarrow> int \<Rightarrow> int \<Rightarrow> string \<Rightarrow> rat option" where
  "observe_v2 R ds max_skew cursor channel =
     (case nearest R (filter (\<lambda>d. channel_v2 R d = channel) ds) cursor max_skew of
        None \<Rightarrow> None | Some d \<Rightarrow> py_float R (pget d ''value''))"

definition timed_rows :: "pyrt \<Rightarrow> pydict list \<Rightarrow> pydict list" where
  "timed_rows R ds = map (\<lambda>(d, t). dict_merge [(''timestamp_ms'', PInt (to_ms t))] d) (timed_records R ds)"

definition compile_v2 :: "pyrt \<Rightarrow> (string \<Rightarrow> pydict list) \<Rightarrow> pydict \<Rightarrow> string + bundle_v2" where
  "compile_v2 R read m =
     (let source = (\<lambda>k. source_records R read (dict_getd m k (PList [])));
          ts = timed_records R (source_records R read (pget m ''observation_sources''))
      in res_bind (need_dict (pget m ''alignment'')) (\<lambda>al.
         res_bind (need_int (pget al ''sample_interval_ms'')) (\<lambda>interval.
         res_bind (need_int (pget al ''max_skew_ms'')) (\<lambda>max_skew.
         (case map snd ts of
            [] \<Rightarrow> Inl ''observation_sources contains no parseable timestamps''
          | t # rest \<Rightarrow>
              (let channels = sorted_set (map (\<lambda>(d, _). channel_v2 R d) ts);
                   cursors = grid interval (to_ms (foldl min t rest)) (to_ms (foldl max t rest));
                   row = (\<lambda>(i, c). let vs = map (observe_v2 R (map fst ts) max_skew c) channels
                            in \<lparr>s2_step = i, s2_time = c, s2_values = vs, s2_mask = map (\<lambda>v. v \<noteq> None) vs\<rparr>)
               in Inr \<lparr>b2_channels = channels, b2_steps = map row (enumerate 0 cursors),
                       b2_actions = timed_rows R (source ''action_sources''),
                       b2_outcomes = timed_rows R (source ''outcome_sources''),
                       b2_artifacts = source ''artifact_sources''\<rparr>))))))"

datatype compiled = Bundle1 bundle_v1 | Bundle2 bundle_v2 | Bundle3 trajectory

definition compile_trajectory_bundle :: "pyrt \<Rightarrow> (string \<Rightarrow> pydict list) \<Rightarrow> (string \<Rightarrow> nat) \<Rightarrow> pydict \<Rightarrow> string + compiled" where
  "compile_trajectory_bundle R read digest m =
     res_bind (validate_model_manifest R m) (\<lambda>v.
       if \<not> va_valid v then Inl (''invalid model dataset manifest: '' @ join ''; '' (va_errors v))
       else
         res_bind (manifest_version m) (\<lambda>version.
           if version < 2 then res_bind (compile_bundle R m [] [] []) (\<lambda>b. Inr (Bundle1 b))
           else if 3 \<le> version then res_bind (compile_v3 R read digest m) (\<lambda>b. Inr (Bundle3 b))
           else res_bind (compile_v2 R read m) (\<lambda>b. Inr (Bundle2 b))))"

section \<open>The registry\<close>

record manifest_row =
  mr_dataset :: string
  mr_version :: int
  mr_manifest :: pydict
  mr_hash :: string
  mr_created :: rat

record build_job =
  bj_id :: string
  bj_dataset :: string
  bj_version :: int
  bj_manifest :: string
  bj_output :: string
  bj_status :: string
  bj_error :: string
  bj_heartbeat :: "rat option"
  bj_created :: rat
  bj_started :: "rat option"
  bj_finished :: "rat option"

record build_artifact =
  ba_job :: string
  ba_name :: string
  ba_path :: string
  ba_size :: nat

record build_db =
  bd_manifests :: "manifest_row list"
  bd_jobs :: "build_job list"
  bd_artifacts :: "build_artifact list"

definition upsert_manifest :: "manifest_row \<Rightarrow> manifest_row list \<Rightarrow> manifest_row list" where
  "upsert_manifest r rs =
     (if list_ex (\<lambda>x. mr_dataset x = mr_dataset r \<and> mr_version x = mr_version r) rs
      then map (\<lambda>x. if mr_dataset x = mr_dataset r \<and> mr_version x = mr_version r
                    then x\<lparr>mr_manifest := mr_manifest r, mr_hash := mr_hash r\<rparr> else x) rs
      else rs @ [r])"

definition save_manifest :: "pyrt \<Rightarrow> rat \<Rightarrow> pydict \<Rightarrow> string \<Rightarrow> build_db \<Rightarrow> string + (string \<times> int) \<times> build_db" where
  "save_manifest R now m content_hash db =
     (if \<not> dict_has m ''dataset_id'' then Inl ''KeyError''
      else res_bind (need_int (dict_getd m ''manifest_version'' (PInt 1))) (\<lambda>version.
        (let dataset = py_str R (pget m ''dataset_id'')
         in Inr ((dataset, version), db\<lparr>bd_manifests := upsert_manifest
              \<lparr>mr_dataset = dataset, mr_version = version, mr_manifest = m, mr_hash = content_hash, mr_created = now\<rparr>
              (bd_manifests db)\<rparr>))))"

definition list_manifests :: "string option \<Rightarrow> build_db \<Rightarrow> manifest_row list" where
  "list_manifests dataset db =
     sort_key (\<lambda>r. (mr_dataset r, - mr_version r))
       (filter (\<lambda>r. case dataset of None \<Rightarrow> True | Some d \<Rightarrow> mr_dataset r = d) (bd_manifests db))"

definition create_build_job ::
    "rat \<Rightarrow> string \<Rightarrow> string \<Rightarrow> int \<Rightarrow> string \<Rightarrow> string \<Rightarrow> build_db \<Rightarrow> string + build_db" where
  "create_build_job now job_id dataset version manifest_path output_dir db =
     (if job_id \<in> set (map bj_id (bd_jobs db)) then Inl ''UniqueViolation''
      else Inr (db\<lparr>bd_jobs := bd_jobs db @
        [\<lparr>bj_id = job_id, bj_dataset = dataset, bj_version = version, bj_manifest = manifest_path, bj_output = output_dir,
          bj_status = ''queued'', bj_error = [], bj_heartbeat = None, bj_created = now, bj_started = None, bj_finished = None\<rparr>]\<rparr>))"

text \<open>The oldest queued job that no other transaction holds.\<close>

definition oldest_queued :: "string list \<Rightarrow> build_db \<Rightarrow> build_job option" where
  "oldest_queued locked db =
     (case sort_key bj_created (filter (\<lambda>j. bj_status j = ''queued'' \<and> bj_id j \<notin> set locked) (bd_jobs db)) of
        [] \<Rightarrow> None | j # _ \<Rightarrow> Some j)"

definition update_job :: "string \<Rightarrow> (build_job \<Rightarrow> build_job) \<Rightarrow> build_db \<Rightarrow> build_db" where
  "update_job k f db = db\<lparr>bd_jobs := map (\<lambda>j. if bj_id j = k then f j else j) (bd_jobs db)\<rparr>"

definition claim_build_job :: "rat \<Rightarrow> string list \<Rightarrow> build_db \<Rightarrow> build_job option \<times> build_db" where
  "claim_build_job now locked db =
     (case oldest_queued locked db of
        None \<Rightarrow> (None, db)
      | Some j \<Rightarrow> (Some j, update_job (bj_id j)
          (\<lambda>j. j\<lparr>bj_status := ''running'', bj_heartbeat := Some now, bj_started := Some now, bj_error := []\<rparr>) db))"

type_synonym dir_file = "string \<times> string \<times> nat"

definition add_artifact :: "string \<Rightarrow> build_artifact list \<Rightarrow> dir_file \<Rightarrow> build_artifact list" where
  "add_artifact k rows f =
     (case f of (name, path, n) \<Rightarrow>
        if list_ex (\<lambda>a. ba_job a = k \<and> ba_name a = name) rows then rows
        else rows @ [\<lparr>ba_job = k, ba_name = name, ba_path = path, ba_size = n\<rparr>])"

text \<open>\<open>finish_build_job\<close>: \<open>None\<close> for an output directory that cannot be listed, and an artifact of
  a job that does not exist, raise and roll back.\<close>

definition finish_build_job ::
    "rat \<Rightarrow> string \<Rightarrow> string \<Rightarrow> string \<Rightarrow> string \<Rightarrow> dir_file list option \<Rightarrow> build_db \<Rightarrow> string + build_db" where
  "finish_build_job now k status error output_dir files db =
     (let db' = update_job k (\<lambda>j. j\<lparr>bj_status := status, bj_error := error, bj_finished := Some now, bj_heartbeat := Some now\<rparr>) db
      in if status = ''succeeded'' \<and> output_dir \<noteq> []
         then (case files of
                 None \<Rightarrow> Inl ''OSError''
               | Some fs \<Rightarrow> if fs \<noteq> [] \<and> k \<notin> set (map bj_id (bd_jobs db)) then Inl ''ForeignKeyViolation''
                   else Inr (db'\<lparr>bd_artifacts := foldl (add_artifact k) (bd_artifacts db') fs\<rparr>))
         else Inr db')"

definition list_build_jobs :: "build_db \<Rightarrow> build_job list" where
  "list_build_jobs db = sort_key (\<lambda>j. - bj_created j) (bd_jobs db)"

definition get_build_job :: "string \<Rightarrow> build_db \<Rightarrow> build_job option" where
  "get_build_job k db = find (\<lambda>j. bj_id j = k) (bd_jobs db)"

definition cancel_build_job :: "rat \<Rightarrow> string \<Rightarrow> build_db \<Rightarrow> bool \<times> build_db" where
  "cancel_build_job now k db =
     (list_ex (\<lambda>j. bj_id j = k \<and> bj_status j = ''queued'') (bd_jobs db),
      db\<lparr>bd_jobs := map (\<lambda>j. if bj_id j = k \<and> bj_status j = ''queued''
                             then j\<lparr>bj_status := ''cancelled'', bj_finished := Some now\<rparr> else j) (bd_jobs db)\<rparr>)"

definition get_build_artifacts :: "string \<Rightarrow> build_db \<Rightarrow> build_artifact list" where
  "get_build_artifacts k db = sort_key ba_name (filter (\<lambda>a. ba_job a = k) (bd_artifacts db))"

section \<open>The worker\<close>

text \<open>A turn of the loop. \<open>build\<close> is what \<open>compile_trajectory_bundle\<close> and the writing of its files
  give, \<open>files\<close> the files of an output directory. The flag says whether the process goes on: an
  exception of the last \<open>finish_build_job\<close> ends it.\<close>

record worker_env =
  we_now :: rat
  we_locked :: "string list"
  we_build :: "build_job \<Rightarrow> string + unit"
  we_files :: "build_job \<Rightarrow> dir_file list option"
  we_down :: bool

definition worker_turn :: "worker_env \<Rightarrow> build_db \<Rightarrow> bool \<times> build_db" where
  "worker_turn E db =
     (case claim_build_job (we_now E) (we_locked E) db of
        (None, db1) \<Rightarrow> (True, db1)
      | (Some j, db1) \<Rightarrow>
          (if we_down E then (False, db1)
           else
             (let failed = (\<lambda>e. case finish_build_job (we_now E) (bj_id j) ''failed'' e [] None db1 of
                                  Inl _ \<Rightarrow> (False, db1) | Inr db2 \<Rightarrow> (True, db2))
              in case we_build E j of
                   Inl e \<Rightarrow> failed e
                 | Inr _ \<Rightarrow>
                     (case finish_build_job (we_now E) (bj_id j) ''succeeded'' [] (bj_output j) (we_files E j) db1 of
                        Inl e \<Rightarrow> failed e
                      | Inr db2 \<Rightarrow> (True, db2)))))"

fun worker_run :: "worker_env list \<Rightarrow> build_db \<Rightarrow> build_db" where
  "worker_run [] db = db"
| "worker_run (E # Es) db = (case worker_turn E db of (True, db') \<Rightarrow> worker_run Es db' | (False, db') \<Rightarrow> db')"

text \<open>The routes of the API.\<close>

record http =
  ht_status :: nat
  ht_detail :: string

definition queue_dataset_build :: "pyrt \<Rightarrow> rat \<Rightarrow> string \<Rightarrow> pydict \<Rightarrow> build_db \<Rightarrow> http \<times> build_db" where
  "queue_dataset_build R now job_id request db =
     (let missing = filter (\<lambda>k. \<not> truthy (pget request k)) [''dataset_id'', ''manifest_version'', ''manifest_path'', ''output_dir'']
      in if missing \<noteq> [] then (\<lparr>ht_status = 422, ht_detail = ''missing fields: '' @ join '', '' missing\<rparr>, db)
         else (case res_bind (need_int (pget request ''manifest_version'')) (\<lambda>version.
                      create_build_job now job_id (py_str R (pget request ''dataset_id'')) version
                        (py_str R (pget request ''manifest_path'')) (py_str R (pget request ''output_dir'')) db) of
                 Inl e \<Rightarrow> (\<lparr>ht_status = 503, ht_detail = ''dataset build queue unavailable: '' @ e\<rparr>, db)
               | Inr db' \<Rightarrow> (\<lparr>ht_status = 200, ht_detail = ''queued''\<rparr>, db')))"

definition register_dataset_manifest :: "pyrt \<Rightarrow> rat \<Rightarrow> (pydict \<Rightarrow> string) \<Rightarrow> pydict \<Rightarrow> build_db \<Rightarrow> http \<times> build_db" where
  "register_dataset_manifest R now hash m db =
     (case validate_model_manifest R m of
        Inl e \<Rightarrow> (\<lparr>ht_status = 500, ht_detail = e\<rparr>, db)
      | Inr v \<Rightarrow>
          (if \<not> va_valid v then (\<lparr>ht_status = 422, ht_detail = join ''; '' (va_errors v)\<rparr>, db)
           else (case save_manifest R now m (hash m) db of
                   Inl e \<Rightarrow> (\<lparr>ht_status = 503, ht_detail = ''dataset metadata unavailable: '' @ e\<rparr>, db)
                 | Inr (_, db') \<Rightarrow> (\<lparr>ht_status = 200, ht_detail = ''saved''\<rparr>, db'))))"

definition cancel_dataset_build :: "rat \<Rightarrow> string \<Rightarrow> build_db \<Rightarrow> http \<times> build_db" where
  "cancel_dataset_build now k db =
     (case cancel_build_job now k db of
        (True, db') \<Rightarrow> (\<lparr>ht_status = 200, ht_detail = ''cancelled''\<rparr>, db')
      | (False, db') \<Rightarrow> (\<lparr>ht_status = 409, ht_detail = ''only queued dataset builds can be cancelled''\<rparr>, db'))"

definition get_dataset_build :: "string \<Rightarrow> build_db \<Rightarrow> http + build_job" where
  "get_dataset_build k db =
     (case get_build_job k db of
        None \<Rightarrow> Inl \<lparr>ht_status = 404, ht_detail = ''dataset build job not found''\<rparr> | Some j \<Rightarrow> Inr j)"

section \<open>Runs of calls\<close>

datatype build_call =
    Create rat string string int string string
  | Claim rat "string list"
  | Finish rat string string string string "dir_file list option"
  | Cancel rat string

fun build_exec :: "build_call \<Rightarrow> build_db \<Rightarrow> build_db" where
  "build_exec (Create now k dataset version path out) db =
     (case create_build_job now k dataset version path out db of Inl _ \<Rightarrow> db | Inr db' \<Rightarrow> db')"
| "build_exec (Claim now locked) db = snd (claim_build_job now locked db)"
| "build_exec (Finish now k status e out files) db =
     (case finish_build_job now k status e out files db of Inl _ \<Rightarrow> db | Inr db' \<Rightarrow> db')"
| "build_exec (Cancel now k) db = snd (cancel_build_job now k db)"

fun claims_job :: "string \<Rightarrow> build_call \<Rightarrow> build_db \<Rightarrow> bool" where
  "claims_job k (Claim now locked) db =
     (case fst (claim_build_job now locked db) of None \<Rightarrow> False | Some j \<Rightarrow> bj_id j = k)"
| "claims_job k _ db = False"

definition wf_jobs :: "build_db \<Rightarrow> bool" where
  "wf_jobs db = distinct (map bj_id (bd_jobs db))"

definition job_queued :: "string \<Rightarrow> build_db \<Rightarrow> bool" where
  "job_queued k db = list_ex (\<lambda>j. bj_id j = k \<and> bj_status j = ''queued'') (bd_jobs db)"

fun requeues :: "string \<Rightarrow> build_call \<Rightarrow> bool" where
  "requeues k (Finish now k' status e out files) = (k' = k \<and> status = ''queued'')"
| "requeues k _ = False"

lemma update_job_jobs [simp]: "bd_jobs (update_job k f db) = map (\<lambda>j. if bj_id j = k then f j else j) (bd_jobs db)"
  by (simp add: update_job_def)

lemma map_update_ids: "(\<And>j. bj_id (f j) = bj_id j) \<Longrightarrow> map bj_id (map (\<lambda>j. if P j then f j else j) js) = map bj_id js"
  by (induction js) auto

lemma finish_jobs:
  "finish_build_job now k status e out files db = Inr db' \<Longrightarrow>
     bd_jobs db' = map (\<lambda>j. if bj_id j = k
       then j\<lparr>bj_status := status, bj_error := e, bj_finished := Some now, bj_heartbeat := Some now\<rparr> else j) (bd_jobs db)"
  by (auto simp: finish_build_job_def Let_def split: if_splits option.splits)

lemma sort_key_hd: "sort_key f xs = x # ys \<Longrightarrow> x \<in> set xs \<and> (\<forall>i \<in> set xs. f x \<le> f i)"
proof -
  assume s: "sort_key f xs = x # ys"
  have e: "set xs = set (x # ys)" using arg_cong [OF s, of set] by simp
  have "sorted (map f (x # ys))" using sorted_sort_key [of f xs] s by simp
  then show ?thesis unfolding e by auto
qed

lemma sort_key_empty: "sort_key f xs = [] \<longleftrightarrow> xs = []"
  by (metis length_0_conv length_sort)

lemma oldest_queued_Some:
  assumes "oldest_queued locked db = Some j"
  shows "j \<in> set (bd_jobs db) \<and> bj_status j = ''queued'' \<and> bj_id j \<notin> set locked
    \<and> (\<forall>i \<in> set (bd_jobs db). bj_status i = ''queued'' \<and> bj_id i \<notin> set locked \<longrightarrow> bj_created j \<le> bj_created i)"
proof -
  let ?P = "\<lambda>j. bj_status j = ''queued'' \<and> bj_id j \<notin> set locked"
  obtain js where s: "sort_key bj_created (filter ?P (bd_jobs db)) = j # js"
    using assms unfolding oldest_queued_def by (cases "sort_key bj_created (filter ?P (bd_jobs db))") auto
  show ?thesis using sort_key_hd [OF s] unfolding set_filter by blast
qed

lemma oldest_queued_None:
  "oldest_queued [] db = None \<longleftrightarrow> (\<forall>j \<in> set (bd_jobs db). bj_status j \<noteq> ''queued'')"
proof -
  let ?P = "\<lambda>j. bj_status j = ''queued'' \<and> bj_id j \<notin> set []"
  have "oldest_queued [] db = None \<longleftrightarrow> sort_key bj_created (filter ?P (bd_jobs db)) = []"
    unfolding oldest_queued_def by (cases "sort_key bj_created (filter ?P (bd_jobs db))") simp_all
  then show ?thesis unfolding sort_key_empty filter_empty_conv by simp
qed

lemma claim_build_effect:
  "claim_build_job now locked db = (Some j, db') \<longleftrightarrow> oldest_queued locked db = Some j \<and> db' = update_job (bj_id j)
     (\<lambda>j. j\<lparr>bj_status := ''running'', bj_heartbeat := Some now, bj_started := Some now, bj_error := []\<rparr>) db"
  by (auto simp: claim_build_job_def split: option.splits)

text \<open>What a call does to the jobs: it keeps the identifiers and every job it is not about.\<close>

lemma build_exec_ids:
  "map bj_id (bd_jobs (build_exec c db)) = map bj_id (bd_jobs db)
   \<or> (\<exists>now k d v p out. c = Create now k d v p out \<and> k \<notin> set (map bj_id (bd_jobs db))
        \<and> map bj_id (bd_jobs (build_exec c db)) = map bj_id (bd_jobs db) @ [k])"
proof (cases c)
  case (Create now k d v p out)
  then show ?thesis by (auto simp: create_build_job_def)
next
  case (Claim now locked)
  then show ?thesis by (auto simp: claim_build_job_def map_update_ids [unfolded comp_def] comp_def split: option.splits intro!: map_cong)
next
  case (Finish now k status e out files)
  then show ?thesis by (cases "finish_build_job now k status e out files db") (auto simp: finish_jobs map_update_ids [unfolded comp_def] comp_def intro!: map_cong)
next
  case (Cancel now k)
  then show ?thesis by (auto simp: cancel_build_job_def comp_def intro!: map_cong)
qed

lemma build_exec_wf: "wf_jobs db \<Longrightarrow> wf_jobs (build_exec c db)"
  using build_exec_ids [of c db] by (auto simp: wf_jobs_def)

lemma build_exec_has: "k \<in> set (map bj_id (bd_jobs db)) \<Longrightarrow> k \<in> set (map bj_id (bd_jobs (build_exec c db)))"
  using build_exec_ids [of c db] by (auto simp del: set_map)

lemma wf_jobs_same: "wf_jobs db \<Longrightarrow> i \<in> set (bd_jobs db) \<Longrightarrow> j \<in> set (bd_jobs db) \<Longrightarrow> bj_id i = bj_id j \<Longrightarrow> i = j"
  unfolding wf_jobs_def distinct_map by (metis inj_onD)

interpretation build_claims: claimable "\<lambda>db. wf_jobs db \<and> k \<in> set (map bj_id (bd_jobs db))"
  "claims_job k" "job_queued k" "requeues k" build_exec for k
proof
  fix db :: build_db and c :: build_call
  assume ok: "wf_jobs db \<and> k \<in> set (map bj_id (bd_jobs db))"
  show "wf_jobs (build_exec c db) \<and> k \<in> set (map bj_id (bd_jobs (build_exec c db)))"
    using ok build_exec_wf build_exec_has by blast
  { assume h: "claims_job k c db"
    then obtain now locked j where c: "c = Claim now locked" "fst (claim_build_job now locked db) = Some j" "bj_id j = k"
      by (cases c) (auto split: option.splits)
    have q: "oldest_queued locked db = Some j" using c(2) by (auto simp: claim_build_job_def split: option.splits)
    show "job_queued k db" using oldest_queued_Some [OF q] c(3) by (auto simp: job_queued_def list_ex_iff)
    show "\<not> job_queued k (build_exec c db)"
      using c(1,3) q by (auto simp: job_queued_def list_ex_iff claim_build_job_def) }
  assume n: "\<not> requeues k c" "\<not> job_queued k db"
  show "\<not> job_queued k (build_exec c db)"
  proof (cases c)
    case (Create now k' d v p out)
    then show ?thesis using n ok by (auto simp: create_build_job_def job_queued_def list_ex_iff)
  next
    case (Claim now locked)
    then show ?thesis using n by (auto simp: job_queued_def list_ex_iff claim_build_job_def split: option.splits)
  next
    case (Finish now k' status e out files)
    then show ?thesis using n
      by (cases "finish_build_job now k' status e out files db") (auto simp: job_queued_def list_ex_iff finish_jobs)
  next
    case (Cancel now k')
    then show ?thesis using n by (auto simp: job_queued_def list_ex_iff cancel_build_job_def)
  qed
qed

text \<open>However the calls of the API and of several workers interleave, with whatever rows locked, a
  build job is handed to at most one worker, as long as nobody finishes it with the status queued.\<close>

theorem build_claimed_once:
  assumes "distinct (map bj_id (bd_jobs db))" "k \<in> set (map bj_id (bd_jobs db))" "list_all (\<lambda>c. \<not> requeues k c) cs"
  shows "count_calls (claims_job k) build_exec cs db \<le> 1"
  by (rule build_claims.at_most_one) (use assms in \<open>auto simp: wf_jobs_def\<close>)

definition one_job :: build_db where
  "one_job = \<lparr>bd_manifests = [], bd_jobs =
     [\<lparr>bj_id = ''j'', bj_dataset = ''d'', bj_version = 3, bj_manifest = ''m'', bj_output = ''o'', bj_status = ''queued'', bj_error = [],
       bj_heartbeat = None, bj_created = 0, bj_started = None, bj_finished = None\<rparr>], bd_artifacts = []\<rparr>"

theorem build_claimed_once_witness:
  "count_calls (claims_job ''j'') build_exec [Claim 1 [], Claim 2 [], Finish 3 ''j'' ''failed'' [] [] None, Claim 4 []] one_job \<le> 1
   \<and> claims_job ''j'' (Claim 1 []) one_job"
proof
  show "count_calls (claims_job ''j'') build_exec [Claim 1 [], Claim 2 [], Finish 3 ''j'' ''failed'' [] [] None, Claim 4 []] one_job \<le> 1"
    by (rule build_claimed_once) (simp_all add: one_job_def)
  show "claims_job ''j'' (Claim 1 []) one_job" by code_simp
qed

section \<open>The worker drains the queue\<close>

text \<open>A turn with the database available, no rows locked by others and an arbitrary outcome of the build.\<close>

definition steady :: "worker_env \<Rightarrow> bool" where
  "steady E = (we_locked E = [] \<and> \<not> we_down E)"

definition job_settled :: "build_job \<Rightarrow> bool" where
  "job_settled j = (bj_status j = ''succeeded'' \<or> bj_status j = ''failed'')"

definition queued_jobs :: "build_db \<Rightarrow> build_job list" where
  "queued_jobs db = filter (\<lambda>j. bj_status j = ''queued'') (bd_jobs db)"

lemma steady_turn:
  assumes "steady E"
  shows "\<exists>db'. worker_turn E db = (True, db')
    \<and> (case oldest_queued [] db of
         None \<Rightarrow> db' = db
       | Some j \<Rightarrow> \<exists>f. (\<forall>i. bj_id (f i) = bj_id i \<and> job_settled (f i))
           \<and> bd_jobs db' = map (\<lambda>i. if bj_id i = bj_id j then f i else i) (bd_jobs db))"
proof (cases "oldest_queued [] db")
  case None
  then show ?thesis using assms by (simp add: worker_turn_def steady_def claim_build_job_def)
next
  case (Some j)
  define g :: "build_job \<Rightarrow> build_job" where "g = (\<lambda>j. j\<lparr>bj_status := ''running'', bj_heartbeat := Some (we_now E), bj_started := Some (we_now E), bj_error := []\<rparr>)"
  define db1 where "db1 = update_job (bj_id j) g db"
  have claim: "claim_build_job (we_now E) (we_locked E) db = (Some j, db1)"
    using Some assms by (simp add: claim_build_effect db1_def g_def steady_def)
  have gid: "bj_id (g i) = bj_id i" for i by (simp add: g_def)
  have result: "\<exists>f. (\<forall>i. bj_id (f i) = bj_id i \<and> job_settled (f i))
      \<and> bd_jobs db2 = map (\<lambda>i. if bj_id i = bj_id j then f i else i) (bd_jobs db)"
    if "finish_build_job (we_now E) (bj_id j) status e out files db1 = Inr db2" "status = ''succeeded'' \<or> status = ''failed''"
    for status e out files db2
  proof -
    let ?f = "\<lambda>i. (g i)\<lparr>bj_status := status, bj_error := e, bj_finished := Some (we_now E), bj_heartbeat := Some (we_now E)\<rparr>"
    have "bd_jobs db2 = map (\<lambda>i. if bj_id i = bj_id j then ?f i else i) (bd_jobs db)"
      using finish_jobs [OF that(1)] gid by (simp add: db1_def)
    moreover have "bj_id (?f i) = bj_id i \<and> job_settled (?f i)" for i using that(2) gid by (simp add: job_settled_def)
    ultimately show ?thesis by (intro exI [of _ ?f]) simp
  qed
  have failed: "\<exists>db2. finish_build_job (we_now E) (bj_id j) ''failed'' e [] None db1 = Inr db2" for e
    by (simp add: finish_build_job_def)
  have turn: "worker_turn E db =
      (case we_build E j of
         Inl e \<Rightarrow> (case finish_build_job (we_now E) (bj_id j) ''failed'' e [] None db1 of Inl _ \<Rightarrow> (False, db1) | Inr db2 \<Rightarrow> (True, db2))
       | Inr _ \<Rightarrow> (case finish_build_job (we_now E) (bj_id j) ''succeeded'' [] (bj_output j) (we_files E j) db1 of
            Inl e \<Rightarrow> (case finish_build_job (we_now E) (bj_id j) ''failed'' e [] None db1 of Inl _ \<Rightarrow> (False, db1) | Inr db2 \<Rightarrow> (True, db2))
          | Inr db2 \<Rightarrow> (True, db2)))"
    using assms unfolding worker_turn_def claim Let_def steady_def by simp
  have "\<exists>status e out files db2. (status = ''succeeded'' \<or> status = ''failed'')
      \<and> finish_build_job (we_now E) (bj_id j) status e out files db1 = Inr db2 \<and> worker_turn E db = (True, db2)"
  proof (cases "we_build E j")
    case (Inl e)
    obtain db2 where "finish_build_job (we_now E) (bj_id j) ''failed'' e [] None db1 = Inr db2" using failed by blast
    then show ?thesis using turn Inl by (metis old.sum.simps(5,6))
  next
    case (Inr u)
    show ?thesis
    proof (cases "finish_build_job (we_now E) (bj_id j) ''succeeded'' [] (bj_output j) (we_files E j) db1")
      case (Inl e)
      obtain db2 where "finish_build_job (we_now E) (bj_id j) ''failed'' e [] None db1 = Inr db2" using failed by blast
      then show ?thesis using turn Inl \<open>we_build E j = Inr u\<close> by (metis old.sum.simps(5,6))
    next
      case (Inr db2)
      then show ?thesis using turn \<open>we_build E j = Inr u\<close> by (metis old.sum.simps(6))
    qed
  qed
  then show ?thesis using result Some by (auto simp: job_settled_def)
qed

lemma queued_after:
  assumes "wf_jobs db" "oldest_queued [] db = Some j" "\<And>i. job_settled (f i)"
    "bd_jobs db' = map (\<lambda>i. if bj_id i = bj_id j then f i else i) (bd_jobs db)"
  shows "length (queued_jobs db) = Suc (length (queued_jobs db'))"
proof -
  let ?Q = "\<lambda>i. bj_status i = ''queued''"
  note q = oldest_queued_Some [OF assms(2)]
  have nq: "\<not> ?Q (f i)" for i using assms(3) [of i] by (auto simp: job_settled_def)
  have gen: "length (filter ?Q js) = Suc (length (filter ?Q (map (\<lambda>i. if bj_id i = bj_id j then f i else i) js)))"
    if "distinct (map bj_id js)" "j \<in> set js" for js
    using that
  proof (induction js)
    case (Cons i js)
    show ?case
    proof (cases "i = j")
      case True
      then have "map (\<lambda>i. if bj_id i = bj_id j then f i else i) js = js"
        using Cons.prems(1) by (intro map_idI) (auto simp: image_iff)
      then show ?thesis using True q nq by simp
    next
      case False
      then have "j \<in> set js" "bj_id i \<noteq> bj_id j" using Cons.prems by (auto simp: image_iff)
      then show ?thesis using Cons.IH Cons.prems(1) by simp
    qed
  qed simp
  show ?thesis using gen [of "bd_jobs db"] assms(1,4) q by (simp add: queued_jobs_def wf_jobs_def)
qed

lemma run_keeps_settled:
  assumes "list_all steady Es" "j \<in> set (bd_jobs db)" "job_settled j" "wf_jobs db"
  shows "j \<in> set (bd_jobs (worker_run Es db))"
  using assms
proof (induction Es arbitrary: db)
  case (Cons E Es)
  obtain db' where t: "worker_turn E db = (True, db')"
      "case oldest_queued [] db of None \<Rightarrow> db' = db
       | Some j \<Rightarrow> \<exists>f. (\<forall>i. bj_id (f i) = bj_id i \<and> job_settled (f i))
           \<and> bd_jobs db' = map (\<lambda>i. if bj_id i = bj_id j then f i else i) (bd_jobs db)"
    using steady_turn [of E db] Cons.prems(1) by auto
  have "j \<in> set (bd_jobs db') \<and> wf_jobs db'"
  proof (cases "oldest_queued [] db")
    case None
    then show ?thesis using t(2) Cons.prems by simp
  next
    case (Some i)
    then obtain f where f: "\<And>i. bj_id (f i) = bj_id i" "bd_jobs db' = map (\<lambda>k. if bj_id k = bj_id i then f k else k) (bd_jobs db)"
      using t(2) by auto
    note q = oldest_queued_Some [OF Some]
    have "bj_id j \<noteq> bj_id i"
      using wf_jobs_same [OF Cons.prems(4) Cons.prems(2), of i] q Cons.prems(3) by (auto simp: job_settled_def)
    then have "j \<in> set (bd_jobs db')" using Cons.prems(2) unfolding f(2) by force
    moreover have "map bj_id (bd_jobs db') = map bj_id (bd_jobs db)" unfolding f(2) by (rule map_update_ids [OF f(1)])
    ultimately show ?thesis using Cons.prems(4) by (simp add: wf_jobs_def)
  qed
  then show ?case using Cons.IH [of db'] Cons.prems(1,3) t(1) by simp
qed simp

text \<open>Claim C20. Whatever each build gives, errors and unreadable output directories included, as many turns
  of one undisturbed worker as there are queued jobs settle every queued job.\<close>

theorem worker_drains:
  assumes "distinct (map bj_id (bd_jobs db))" "list_all steady Es" "length (queued_jobs db) \<le> length Es"
    "j \<in> set (bd_jobs db)" "bj_status j = ''queued''"
  shows "\<exists>j' \<in> set (bd_jobs (worker_run Es db)). bj_id j' = bj_id j \<and> bj_status j' \<in> {''succeeded'', ''failed''}"
  using assms
proof (induction Es arbitrary: db)
  case Nil
  then show ?case by (auto simp: queued_jobs_def filter_empty_conv)
next
  case (Cons E Es)
  have wf: "wf_jobs db" using Cons.prems(1) by (simp add: wf_jobs_def)
  obtain i where i: "oldest_queued [] db = Some i"
    using oldest_queued_None [of db] Cons.prems(4,5) by (cases "oldest_queued [] db") auto
  obtain db' f where t: "worker_turn E db = (True, db')" "\<And>i. bj_id (f i) = bj_id i" "\<And>i. job_settled (f i)"
      "bd_jobs db' = map (\<lambda>k. if bj_id k = bj_id i then f k else k) (bd_jobs db)"
    using steady_turn [of E db] Cons.prems(2) i by auto
  have ids: "map bj_id (bd_jobs db') = map bj_id (bd_jobs db)" unfolding t(4) by (rule map_update_ids [OF t(2)])
  have run: "worker_run (E # Es) db = worker_run Es db'" using t(1) by simp
  show ?case
  proof (cases "bj_id j = bj_id i")
    case True
    then have "f j \<in> set (bd_jobs db')" using Cons.prems(4) unfolding t(4) by force
    moreover have "wf_jobs db'" using wf ids by (simp add: wf_jobs_def)
    ultimately have "f j \<in> set (bd_jobs (worker_run Es db'))"
      using run_keeps_settled [of Es "f j" db'] Cons.prems(2) t(3) by simp
    then show ?thesis using t(2,3) [of j] unfolding run by (auto simp: job_settled_def)
  next
    case False
    then have "j \<in> set (bd_jobs db')" using Cons.prems(4) unfolding t(4) by force
    moreover have "length (queued_jobs db') \<le> length Es"
      using queued_after [OF wf i t(3,4)] Cons.prems(3) by simp
    ultimately show ?thesis using Cons.IH [of db'] Cons.prems(1,2,5) ids unfolding run by simp
  qed
qed

definition plain_turn :: worker_env where
  "plain_turn = \<lparr>we_now = 5, we_locked = [], we_build = (\<lambda>_. Inl ''no records''), we_files = (\<lambda>_. None), we_down = False\<rparr>"

theorem worker_drains_witness:
  "\<exists>j' \<in> set (bd_jobs (worker_run [plain_turn] one_job)). bj_id j' = ''j'' \<and> bj_status j' \<in> {''succeeded'', ''failed''}"
  using worker_drains [of one_job "[plain_turn]" "hd (bd_jobs one_job)"]
  by (simp add: one_job_def plain_turn_def steady_def queued_jobs_def)

section \<open>What the builds get wrong\<close>

fun finishes :: "string \<Rightarrow> build_call \<Rightarrow> bool" where
  "finishes k (Finish now k' status e out files) = (k' = k)"
| "finishes k _ = False"

lemma exec_keeps_running:
  assumes "j \<in> set (bd_jobs db)" "bj_status j = ''running''" "\<not> finishes (bj_id j) c" "wf_jobs db"
  shows "j \<in> set (bd_jobs (build_exec c db))"
proof (cases c)
  case (Create now k d v p out)
  then show ?thesis using assms by (auto simp: create_build_job_def)
next
  case (Claim now locked)
  show ?thesis
  proof (cases "oldest_queued locked db")
    case None
    then show ?thesis using assms Claim by (simp add: claim_build_job_def)
  next
    case (Some i)
    note q = oldest_queued_Some [OF Some]
    have "i \<noteq> j" using q assms(2) by auto
    then have "bj_id j \<noteq> bj_id i" using wf_jobs_same [OF assms(4,1)] q by metis
    then show ?thesis using assms(1) Claim Some by (force simp: claim_build_job_def)
  qed
next
  case (Finish now k status e out files)
  then show ?thesis using assms
    by (cases "finish_build_job now k status e out files db") (force simp: finish_jobs)+
next
  case (Cancel now k)
  then show ?thesis using assms(1,2) by (force simp: cancel_build_job_def)
qed

text \<open>A job whose worker dies stays running for ever: whatever is created, claimed, cancelled or
  finished afterwards, unless that worker reports the job itself, the job keeps its status and its
  heartbeat, and it can not be cancelled. Nothing reads the heartbeat.\<close>

theorem running_job_orphaned:
  assumes "distinct (map bj_id (bd_jobs db))" "j \<in> set (bd_jobs db)" "bj_status j = ''running''"
    "list_all (\<lambda>c. \<not> finishes (bj_id j) c) cs"
  shows "j \<in> set (bd_jobs (foldl (\<lambda>db c. build_exec c db) db cs))
    \<and> ht_status (fst (cancel_dataset_build now (bj_id j) (foldl (\<lambda>db c. build_exec c db) db cs))) = 409"
  using assms
proof (induction cs arbitrary: db)
  case Nil
  have "\<not> list_ex (\<lambda>i. bj_id i = bj_id j \<and> bj_status i = ''queued'') (bd_jobs db)"
  proof
    assume "list_ex (\<lambda>i. bj_id i = bj_id j \<and> bj_status i = ''queued'') (bd_jobs db)"
    then obtain i where i: "i \<in> set (bd_jobs db)" "bj_id i = bj_id j" "bj_status i = ''queued''" unfolding list_ex_iff by blast
    have "i = j" using wf_jobs_same [of db i j] Nil(1,2) i by (simp add: wf_jobs_def)
    then show False using i(3) Nil(3) by simp
  qed
  then show ?case using Nil(2) by (simp add: cancel_dataset_build_def cancel_build_job_def)
next
  case (Cons c cs)
  have wf: "wf_jobs db" using Cons.prems(1) by (simp add: wf_jobs_def)
  have "j \<in> set (bd_jobs (build_exec c db))" using exec_keeps_running [OF Cons.prems(2,3) _ wf] Cons.prems(4) by simp
  moreover have "distinct (map bj_id (bd_jobs (build_exec c db)))" using build_exec_wf [OF wf] by (simp add: wf_jobs_def)
  ultimately show ?case using Cons.IH Cons.prems(3,4) by simp
qed

definition taken_job :: build_db where
  "taken_job = snd (claim_build_job 1 [] one_job)"

theorem running_job_orphaned_witness:
  "ht_status (fst (cancel_dataset_build 9 ''j'' (foldl (\<lambda>db c. build_exec c db) taken_job [Claim 2 [], Cancel 3 ''j''])) ) = 409"
proof -
  have j: "bj_id (hd (bd_jobs taken_job)) = ''j''" by code_simp
  have d: "distinct (map bj_id (bd_jobs taken_job))" by code_simp
  have m: "hd (bd_jobs taken_job) \<in> set (bd_jobs taken_job)" by code_simp
  have r: "bj_status (hd (bd_jobs taken_job)) = ''running''" by code_simp
  show ?thesis using running_job_orphaned [OF d m r, of "[Claim 2 [], Cancel 3 ''j'']" 9] unfolding j by simp
qed

text \<open>A build of a manifest of version 1 never reads its observation sources: when the compiler
  returns at all, the bundle has no records, whatever the sources hold.\<close>

theorem v1_build_empty:
  assumes "compile_trajectory_bundle R read digest m = Inr c" "manifest_version m = Inr n" "n < 2"
  shows "\<exists>b. c = Bundle1 b \<and> map snd (b1_tables b) = [[], [], []]"
  using assms unfolding compile_trajectory_bundle_def compile_bundle_def
  by (auto simp: res_bind_Inr Let_def split: if_splits)

definition old_manifest :: pydict where
  "old_manifest =
     [(''dataset_id'', PStr ''d''), (''observation_sources'', PList [PDict (sample ''e'' ''1'' 5)]), (''purpose'', PStr ''jepa''),
      (''site_id'', PStr ''s''), (''time_range'', PNone), (''provenance'', PStr ''p''), (''splits'', PStr ''s'')]"

theorem v1_build_empty_witness:
  "\<exists>b. compile_trajectory_bundle sample_rt (\<lambda>_. []) (\<lambda>_. 0) old_manifest = Inr (Bundle1 b) \<and> map snd (b1_tables b) = [[], [], []]"
proof -
  have "is_ok (compile_trajectory_bundle sample_rt (\<lambda>_. []) (\<lambda>_. 0) old_manifest)" by code_simp
  then obtain c where c: "compile_trajectory_bundle sample_rt (\<lambda>_. []) (\<lambda>_. 0) old_manifest = Inr c"
    by (cases "compile_trajectory_bundle sample_rt (\<lambda>_. []) (\<lambda>_. 0) old_manifest") (simp_all add: is_ok_def)
  have "manifest_version old_manifest = Inr 1" by code_simp
  from v1_build_empty [OF c this] show ?thesis using c by auto
qed

text \<open>Two manifests of different \<open>schema_version\<close> are both stored as version 1: the second replaces the first.\<close>

lemma schema_version_overwrites:
  assumes "\<not> dict_has m ''manifest_version''" "dict_has m ''dataset_id''" "\<not> dict_has m' ''manifest_version''"
    "pget m' ''dataset_id'' = pget m ''dataset_id''" "dict_has m' ''dataset_id''"
    "save_manifest R now m h db = Inr (k, db1)" "save_manifest R now' m' h' db1 = Inr (k', db2)"
  shows "k' = k \<and> snd k = 1 \<and> m' \<in> mr_manifest ` set (list_manifests (Some (fst k)) db2)
    \<and> (\<forall>r \<in> set (bd_manifests db2). (mr_dataset r, mr_version r) = k \<longrightarrow> mr_manifest r = m')"
proof -
  have one: "dict_getd m ''manifest_version'' (PInt 1) = PInt 1" "dict_getd m' ''manifest_version'' (PInt 1) = PInt 1"
    using assms(1,3) by (simp_all add: dict_has_iff dict_getd_def)
  have k: "k = (py_str R (pget m ''dataset_id''), 1)" "k' = k"
    "bd_manifests db2 = upsert_manifest \<lparr>mr_dataset = fst k, mr_version = 1, mr_manifest = m', mr_hash = h', mr_created = now'\<rparr> (bd_manifests db1)"
    using assms(2,4-7) by (auto simp: save_manifest_def one need_int_def py_int_def Let_def)
  show ?thesis
    by (auto simp: k(1,2) list_manifests_def k(3) upsert_manifest_def list_ex_iff image_iff)
qed

end
