(* ===== verification/Asset_Hierarchy.thy ===== *)
theory Asset_Hierarchy
  imports Py_Prelude "HOL-Library.Product_Lexorder"
begin

text \<open>
  The asset hierarchy (\<open>services/assets/model.py\<close>), the registry over it
  (\<open>common/asset_registry.py\<close>), the catalog of observed tags (\<open>common/asset_tag_catalog.py\<close>) and
  the hierarchy shown to users (\<open>common/asset_hierarchy_projection.py\<close>). Identifiers, names, types and
  units of the YAML file are texts; the catalog is the rows of its table, \<open>now()\<close> and the digest of
  the catalog version are parameters.
\<close>

section \<open>The hierarchy\<close>

record plant_tag =
  pt_id :: string
  pt_name :: string
  pt_unit :: string
  pt_min :: rat
  pt_max :: rat
  pt_warning_low :: rat
  pt_warning_high :: rat
  pt_critical_low :: rat
  pt_critical_high :: rat
  pt_rate :: rat

record plant_asset =
  pa_id :: string
  pa_name :: string
  pa_type :: string
  pa_tags :: "(string \<times> plant_tag) list"

record plant_cell =
  pc_id :: string
  pc_name :: string
  pc_assets :: "(string \<times> plant_asset) list"

record plant_line =
  pl_id :: string
  pl_name :: string
  pl_cells :: "(string \<times> plant_cell) list"

record plant_area =
  pr_id :: string
  pr_name :: string
  pr_lines :: "(string \<times> plant_line) list"

record plant_site =
  ps_id :: string
  ps_name :: string
  ps_areas :: "(string \<times> plant_area) list"

type_synonym plant = "(string \<times> plant_site) list"

definition values_of :: "('k \<times> 'v) list \<Rightarrow> 'v list" where
  "values_of d = map snd d"

text \<open>\<open>AssetHierarchy.tag_for\<close>: the first asset of that name decides.\<close>

definition plant_cells :: "plant \<Rightarrow> plant_cell list" where
  "plant_cells h =
     concat (map (\<lambda>s. concat (map (\<lambda>a. concat (map (\<lambda>l. values_of (pl_cells l)) (values_of (pr_lines a))))
       (values_of (ps_areas s)))) (values_of h))"

fun asset_in_cells :: "plant_cell list \<Rightarrow> string \<Rightarrow> plant_asset option" where
  "asset_in_cells [] k = None"
| "asset_in_cells (c # cs) k = (case map_of (pc_assets c) k of Some a \<Rightarrow> Some a | None \<Rightarrow> asset_in_cells cs k)"

definition tag_for :: "plant \<Rightarrow> string \<Rightarrow> string \<Rightarrow> plant_tag option" where
  "tag_for h asset tag =
     (case asset_in_cells (plant_cells h) asset of
        None \<Rightarrow> None
      | Some a \<Rightarrow> map_of (pa_tags a) (asset @ ''.'' @ tag))"

definition all_tags :: "plant \<Rightarrow> plant_tag list" where
  "all_tags h = concat (map (\<lambda>c. concat (map (\<lambda>a. values_of (pa_tags a)) (values_of (pc_assets c)))) (plant_cells h))"

subsection \<open>Loading\<close>

definition node_text :: "pydict \<Rightarrow> string \<Rightarrow> string + string" where
  "node_text d k = (case map_of d k of None \<Rightarrow> Inl ''KeyError'' | Some (PStr s) \<Rightarrow> Inr s | Some _ \<Rightarrow> Inl ''not a text'')"

definition number_field :: "pyrt \<Rightarrow> pydict \<Rightarrow> string \<Rightarrow> string + rat" where
  "number_field R d k =
     (case map_of d k of
        None \<Rightarrow> Inl ''KeyError''
      | Some v \<Rightarrow> (case py_float R v of None \<Rightarrow> Inl ''float() failed'' | Some x \<Rightarrow> Inr x))"

text \<open>\<open>{c["id"]: load(c) for c in data.get(key, [])}\<close>: a later child of the same identifier wins.\<close>

fun load_each :: "(pydict \<Rightarrow> string + 'a) \<Rightarrow> (string \<times> 'a) list \<Rightarrow> pyval list \<Rightarrow> string + (string \<times> 'a) list" where
  "load_each f acc [] = Inr acc"
| "load_each f acc (v # vs) =
     (case v of
        PDict d \<Rightarrow> res_bind (node_text d ''id'') (\<lambda>k. res_bind (f d) (\<lambda>x. load_each f (dict_set acc k x) vs))
      | _ \<Rightarrow> Inl ''TypeError'')"

definition load_children :: "(pydict \<Rightarrow> string + 'a) \<Rightarrow> pydict \<Rightarrow> string \<Rightarrow> string + (string \<times> 'a) list" where
  "load_children f d key =
     (case dict_getd d key (PList []) of PList vs \<Rightarrow> load_each f [] vs | _ \<Rightarrow> Inl ''TypeError'')"

definition load_tag :: "pyrt \<Rightarrow> pydict \<Rightarrow> string + plant_tag" where
  "load_tag R d =
     res_bind (node_text d ''id'') (\<lambda>i. res_bind (node_text d ''name'') (\<lambda>n. res_bind (node_text d ''unit'') (\<lambda>u.
     res_bind (number_field R d ''min'') (\<lambda>mn. res_bind (number_field R d ''max'') (\<lambda>mx.
     res_bind (number_field R d ''warning_low'') (\<lambda>wl. res_bind (number_field R d ''warning_high'') (\<lambda>wh.
     res_bind (number_field R d ''critical_low'') (\<lambda>cl. res_bind (number_field R d ''critical_high'') (\<lambda>ch.
     res_bind (number_field R d ''sampling_rate_hz'') (\<lambda>hz.
       Inr \<lparr>pt_id = i, pt_name = n, pt_unit = u, pt_min = mn, pt_max = mx, pt_warning_low = wl, pt_warning_high = wh,
            pt_critical_low = cl, pt_critical_high = ch, pt_rate = hz\<rparr>))))))))))"

definition load_asset :: "pyrt \<Rightarrow> pydict \<Rightarrow> string + plant_asset" where
  "load_asset R d =
     res_bind (node_text d ''id'') (\<lambda>i. res_bind (node_text d ''name'') (\<lambda>n. res_bind (node_text d ''type'') (\<lambda>t.
     res_bind (load_children (load_tag R) d ''tags'') (\<lambda>ts.
       Inr \<lparr>pa_id = i, pa_name = n, pa_type = t, pa_tags = ts\<rparr>))))"

definition load_cell :: "pyrt \<Rightarrow> pydict \<Rightarrow> string + plant_cell" where
  "load_cell R d =
     res_bind (node_text d ''id'') (\<lambda>i. res_bind (node_text d ''name'') (\<lambda>n.
     res_bind (load_children (load_asset R) d ''assets'') (\<lambda>xs. Inr \<lparr>pc_id = i, pc_name = n, pc_assets = xs\<rparr>)))"

definition load_line :: "pyrt \<Rightarrow> pydict \<Rightarrow> string + plant_line" where
  "load_line R d =
     res_bind (node_text d ''id'') (\<lambda>i. res_bind (node_text d ''name'') (\<lambda>n.
     res_bind (load_children (load_cell R) d ''cells'') (\<lambda>xs. Inr \<lparr>pl_id = i, pl_name = n, pl_cells = xs\<rparr>)))"

definition load_area :: "pyrt \<Rightarrow> pydict \<Rightarrow> string + plant_area" where
  "load_area R d =
     res_bind (node_text d ''id'') (\<lambda>i. res_bind (node_text d ''name'') (\<lambda>n.
     res_bind (load_children (load_line R) d ''lines'') (\<lambda>xs. Inr \<lparr>pr_id = i, pr_name = n, pr_lines = xs\<rparr>)))"

definition load_site :: "pyrt \<Rightarrow> pydict \<Rightarrow> string + plant_site" where
  "load_site R d =
     res_bind (node_text d ''id'') (\<lambda>i. res_bind (node_text d ''name'') (\<lambda>n.
     res_bind (load_children (load_area R) d ''areas'') (\<lambda>xs. Inr \<lparr>ps_id = i, ps_name = n, ps_areas = xs\<rparr>)))"

definition load_hierarchy :: "pyrt \<Rightarrow> pydict \<Rightarrow> string + plant" where
  "load_hierarchy R data = load_children (load_site R) data ''sites''"

section \<open>The tree\<close>

text \<open>A node of the nested tree: identifier, name, type, the remaining keys, the children.\<close>

datatype tnode = TNode (tn_id: string) (tn_name: string) (tn_type: string) (tn_attrs: pydict) (tn_children: "tnode list")

definition tag_node :: "plant_tag \<Rightarrow> tnode" where
  "tag_node t = TNode (pt_id t) (pt_name t) ''tag''
     [(''unit'', PStr (pt_unit t)), (''min'', PFloat (pt_min t)), (''max'', PFloat (pt_max t)),
      (''warning_low'', PFloat (pt_warning_low t)), (''warning_high'', PFloat (pt_warning_high t)),
      (''critical_low'', PFloat (pt_critical_low t)), (''critical_high'', PFloat (pt_critical_high t)),
      (''sampling_rate_hz'', PFloat (pt_rate t))] []"

definition asset_node :: "plant_asset \<Rightarrow> tnode" where
  "asset_node a = TNode (pa_id a) (pa_name a) (pa_type a) [] (map tag_node (values_of (pa_tags a)))"

definition cell_node :: "plant_cell \<Rightarrow> tnode" where
  "cell_node c = TNode (pc_id c) (pc_name c) ''cell'' [] (map asset_node (values_of (pc_assets c)))"

definition line_node :: "plant_line \<Rightarrow> tnode" where
  "line_node l = TNode (pl_id l) (pl_name l) ''line'' [] (map cell_node (values_of (pl_cells l)))"

definition area_node :: "plant_area \<Rightarrow> tnode" where
  "area_node a = TNode (pr_id a) (pr_name a) ''area'' [] (map line_node (values_of (pr_lines a)))"

definition site_node :: "plant_site \<Rightarrow> tnode" where
  "site_node s = TNode (ps_id s) (ps_name s) ''site'' [] (map area_node (values_of (ps_areas s)))"

definition hierarchy_to_tree :: "plant \<Rightarrow> tnode list" where
  "hierarchy_to_tree h = map site_node (values_of h)"

section \<open>The registry\<close>

record registry_entry =
  re_id :: string
  re_type :: string
  re_name :: string
  re_site :: string
  re_parent :: string
  re_tags :: "string list"
  re_meta :: pydict

definition list_of :: "pyval \<Rightarrow> pyval list" where
  "list_of v = (case v of PList vs \<Rightarrow> vs | _ \<Rightarrow> [])"

fun flatten_node :: "pyrt \<Rightarrow> string \<Rightarrow> tnode \<Rightarrow> registry_entry list" where
  "flatten_node R site (TNode i n t attrs children) =
     (let own = (if t = ''site'' then i else site)
      in \<lparr>re_id = i, re_type = t, re_name = n, re_site = own, re_parent = py_str R (dict_getd attrs ''parent_id'' (PStr [])),
          re_tags = map (py_str R) (filter truthy (list_of (pget attrs ''tags''))), re_meta = attrs\<rparr>
         # concat (map (flatten_node R (if own \<noteq> [] then own else site)) children))"

definition flatten_tree :: "pyrt \<Rightarrow> tnode list \<Rightarrow> registry_entry list" where
  "flatten_tree R nodes = concat (map (flatten_node R []) nodes)"

definition tally :: "string list \<Rightarrow> (string \<times> nat) list" where
  "tally ks = foldl (\<lambda>d k. dict_set d k (dict_getd d k 0 + 1)) [] ks"

record registry_view =
  sn_count :: nat
  sn_by_type :: "(string \<times> nat) list"
  sn_by_site :: "(string \<times> nat) list"
  sn_tree :: "tnode list"
  sn_entries :: "registry_entry list"

definition site_filter :: "string option \<Rightarrow> tnode list \<Rightarrow> tnode list" where
  "site_filter site tree =
     (case site of
        Some (c # cs) \<Rightarrow> filter (\<lambda>n. py_lower (tn_id n) = py_lower (c # cs)) tree
      | _ \<Rightarrow> tree)"

definition registry_snapshot :: "pyrt \<Rightarrow> plant \<Rightarrow> string option \<Rightarrow> registry_view" where
  "registry_snapshot R h site =
     (let tree = site_filter site (hierarchy_to_tree h); entries = flatten_tree R tree
      in \<lparr>sn_count = length entries, sn_by_type = tally (map re_type entries),
          sn_by_site = tally (map re_site (filter (\<lambda>e. re_site e \<noteq> []) entries)), sn_tree = tree, sn_entries = entries\<rparr>)"

section \<open>The catalog of observed tags\<close>

type_synonym tag_key = "string \<times> string \<times> string"

record observed_row =
  ob_key :: tag_key
  ob_unit :: string
  ob_source :: string
  ob_first :: rat
  ob_last :: rat
  ob_active :: bool
  ob_updated :: rat

definition update_rows :: "tag_key \<Rightarrow> (observed_row \<Rightarrow> observed_row) \<Rightarrow> observed_row \<Rightarrow> observed_row list \<Rightarrow> observed_row list" where
  "update_rows k f fresh rows =
     (if list_ex (\<lambda>r. ob_key r = k) rows then map (\<lambda>r. if ob_key r = k then f r else r) rows else rows @ [fresh])"

definition keep_unit :: "string \<Rightarrow> string \<Rightarrow> string" where
  "keep_unit incoming stored = (if incoming = [] then stored else incoming)"

text \<open>The unique keys of a batch; the last event of a key gives the unit.\<close>

definition batch_units :: "pyrt \<Rightarrow> pydict list \<Rightarrow> (tag_key \<times> string) list" where
  "batch_units R events =
     foldl (\<lambda>rows e.
       (let text = (\<lambda>v. py_strip (py_str R v)); site = text (dict_getd e ''site'' (dict_getd e ''site_id'' (PStr [])));
            asset = text (dict_getd e ''asset_id'' (PStr [])); tag = text (dict_getd e ''tag'' (PStr []))
        in if site = [] \<or> asset = [] \<or> tag = [] then rows
           else dict_set rows (site, asset, tag) (py_str R (py_or (dict_getd e ''unit'' (PStr [])) (PStr []))))) [] events"

definition record_observed_asset_tags ::
    "pyrt \<Rightarrow> rat \<Rightarrow> rat \<Rightarrow> pydict list \<Rightarrow> observed_row list \<Rightarrow> nat \<times> observed_row list" where
  "record_observed_asset_tags R now db_now events rows =
     (let us = batch_units R events
      in (length us, foldl (\<lambda>rows (k, u).
            update_rows k (\<lambda>r. r\<lparr>ob_unit := keep_unit u (ob_unit r), ob_last := now, ob_active := True, ob_updated := db_now\<rparr>)
              \<lparr>ob_key = k, ob_unit = u, ob_source = ''observed'', ob_first = now, ob_last = now, ob_active = True, ob_updated = now\<rparr>
              rows) rows us))"

text \<open>\<open>reconcile_observed_asset_tags\<close>; \<open>window\<close> is the answer of the historian.\<close>

definition reconcile_observed_asset_tags ::
    "int \<Rightarrow> rat \<Rightarrow> (tag_key \<times> string option \<times> rat \<times> rat) list \<Rightarrow> observed_row list \<Rightarrow> string + nat \<times> observed_row list" where
  "reconcile_observed_asset_tags hours db_now window rows =
     (if hours < 1 \<or> 24 * 365 < hours then Inl ''hours must be between 1 and 8760''
      else Inr (length window, foldl (\<lambda>rows (k, u, first, latest).
        (let unit = (case u of None \<Rightarrow> [] | Some s \<Rightarrow> s) in
         update_rows k (\<lambda>r. r\<lparr>ob_unit := keep_unit unit (ob_unit r), ob_last := max (ob_last r) latest, ob_active := True, ob_updated := db_now\<rparr>)
           \<lparr>ob_key = k, ob_unit = unit, ob_source = ''reconciled'', ob_first = first, ob_last = latest, ob_active = True, ob_updated = latest\<rparr>
           rows)) rows window))"

record tag_item =
  ti_key :: tag_key
  ti_asset_name :: string
  ti_tag_id :: string
  ti_unit :: pyval
  ti_limits :: "pyval list"
  ti_source :: string
  ti_seen :: "(rat \<times> rat) option"
  ti_active :: bool

fun registry_items :: "string \<Rightarrow> tnode \<Rightarrow> tag_item list" where
  "registry_items site (TNode i n t attrs children) =
     (let own = (if t = ''site'' then i else site);
          is_asset = (t \<notin> {''site'', ''area'', ''line'', ''cell'', ''tag''} \<and> list_ex (\<lambda>c. tn_type c = ''tag'') children)
      in if is_asset
         then map (\<lambda>c. \<lparr>ti_key = (own, i, tn_name c), ti_asset_name = n, ti_tag_id = tn_id c,
                ti_unit = dict_getd (tn_attrs c) ''unit'' (PStr []),
                ti_limits = map (pget (tn_attrs c)) [''warning_low'', ''warning_high'', ''critical_low'', ''critical_high''],
                ti_source = ''registry'', ti_seen = None, ti_active = True\<rparr>) children
         else concat (map (registry_items own) children))"

definition observed_item :: "observed_row \<Rightarrow> tag_item" where
  "observed_item r =
     (case ob_key r of (site, asset, tag) \<Rightarrow>
        \<lparr>ti_key = ob_key r, ti_asset_name = asset, ti_tag_id = asset @ ''.'' @ tag, ti_unit = PStr (ob_unit r),
         ti_limits = [PNone, PNone, PNone, PNone], ti_source = ''observed'', ti_seen = Some (ob_first r, ob_last r), ti_active = ob_active r\<rparr>)"

definition add_observed_row :: "(tag_key \<times> tag_item) list \<Rightarrow> observed_row \<Rightarrow> (tag_key \<times> tag_item) list" where
  "add_observed_row items r =
     (case map_of items (ob_key r) of
        None \<Rightarrow> dict_set items (ob_key r) (observed_item r)
      | Some x \<Rightarrow> dict_set items (ob_key r) (x\<lparr>ti_seen := Some (ob_first r, ob_last r)\<rparr>))"

definition catalog_items :: "tnode list \<Rightarrow> bool \<Rightarrow> observed_row list \<Rightarrow> (tag_key \<times> tag_item) list" where
  "catalog_items tree include_observed rows =
     (let registry = foldl (\<lambda>d x. dict_set d (ti_key x) x) [] (concat (map (registry_items []) tree))
      in if include_observed then foldl add_observed_row registry rows else registry)"

definition select_rows :: "string option \<Rightarrow> bool \<Rightarrow> observed_row list \<Rightarrow> observed_row list" where
  "select_rows site active_only rows =
     sort_key ob_key (filter (\<lambda>r. (case site of None \<Rightarrow> True | Some s \<Rightarrow> fst (ob_key r) = s) \<and> (\<not> active_only \<or> ob_active r)) rows)"

record catalog =
  ct_version :: string
  ct_site :: "string option"
  ct_items :: "tag_item list"
  ct_total :: nat
  ct_registry :: nat
  ct_observed :: nat

definition make_catalog :: "string \<Rightarrow> plant \<Rightarrow> string option \<Rightarrow> bool \<Rightarrow> bool \<Rightarrow> observed_row list \<Rightarrow> catalog" where
  "make_catalog version h site include_observed active_only rows =
     (let items = catalog_items (site_filter site (hierarchy_to_tree h)) include_observed (select_rows site active_only rows)
      in \<lparr>ct_version = version, ct_site = site, ct_items = sort_key ti_key (values_of items), ct_total = length items,
          ct_registry = length (filter (\<lambda>x. ti_source x = ''registry'') (values_of items)),
          ct_observed = length (filter (\<lambda>x. ti_source x = ''observed'') (values_of items))\<rparr>)"

type_synonym catalog_cache = "((string \<times> string \<times> bool) \<times> string \<times> catalog) list"

definition bool_text :: "bool \<Rightarrow> string" where
  "bool_text b = (if b then ''True'' else ''False'')"

definition text_or_empty :: "string option \<Rightarrow> string" where
  "text_or_empty s = (case s of None \<Rightarrow> [] | Some t \<Rightarrow> t)"

definition latest_update :: "(rat \<Rightarrow> string) \<Rightarrow> observed_row list \<Rightarrow> string" where
  "latest_update stamp rows = (case map ob_updated rows of [] \<Rightarrow> [] | t # ts \<Rightarrow> stamp (foldl max t ts))"

definition catalog_version ::
    "(string \<Rightarrow> string) \<Rightarrow> (rat \<Rightarrow> string) \<Rightarrow> string \<Rightarrow> observed_row list \<Rightarrow> bool \<Rightarrow> bool \<Rightarrow> string option \<Rightarrow> string" where
  "catalog_version digest stamp registry_version rows include_observed active_only site =
     digest (join '':'' [registry_version, latest_update stamp rows, nat_str (length rows), bool_text include_observed,
       bool_text active_only, text_or_empty site])"

definition list_asset_tags ::
    "(string \<Rightarrow> string) \<Rightarrow> (rat \<Rightarrow> string) \<Rightarrow> string \<Rightarrow> string \<Rightarrow> plant \<Rightarrow> string option \<Rightarrow> bool \<Rightarrow> bool
     \<Rightarrow> observed_row list \<Rightarrow> catalog_cache \<Rightarrow> catalog \<times> catalog_cache" where
  "list_asset_tags digest stamp config registry_version h site include_observed active_only rows cache =
     (let version = catalog_version digest stamp registry_version rows include_observed active_only site;
          key = (config, text_or_empty site, include_observed);
          fresh = make_catalog version h site include_observed active_only rows;
          miss = (fresh, dict_set cache key (version, fresh))
      in case map_of cache key of
           Some (v, c) \<Rightarrow> if v = version then (c, cache) else miss
         | None \<Rightarrow> miss)"

section \<open>The projection\<close>

fun annotate_configured :: "string \<Rightarrow> tnode \<Rightarrow> tnode" where
  "annotate_configured site (TNode i n t attrs children) =
     (let own = (if t = ''site'' then i else site)
      in TNode i n t (dict_set (dict_set attrs ''origin'' (PStr (if own = ''demo-site'' then ''demo'' else ''configured'')))
           ''site_id'' (PStr own))
           (map (annotate_configured own) children))"

fun update_first_node :: "string \<Rightarrow> (tnode \<Rightarrow> tnode) \<Rightarrow> tnode \<Rightarrow> tnode list \<Rightarrow> tnode list" where
  "update_first_node k f fresh [] = [f fresh]"
| "update_first_node k f fresh (n # ns) = (if tn_id n = k then f n # ns else n # update_first_node k f fresh ns)"

definition with_children :: "tnode \<Rightarrow> tnode list \<Rightarrow> tnode" where
  "with_children n cs = TNode (tn_id n) (tn_name n) (tn_type n) (tn_attrs n) cs"

definition observed_attrs :: "string \<Rightarrow> pydict" where
  "observed_attrs site = [(''origin'', PStr ''observed''), (''site_id'', PStr site)]"

definition seen_text :: "(rat \<Rightarrow> string) \<Rightarrow> tag_item \<Rightarrow> pyval" where
  "seen_text stamp x = (case ti_seen x of None \<Rightarrow> PNone | Some (_, t) \<Rightarrow> PStr (stamp t))"

definition add_tag_node :: "(rat \<Rightarrow> string) \<Rightarrow> string \<Rightarrow> tag_item \<Rightarrow> tnode \<Rightarrow> tnode" where
  "add_tag_node stamp site x asset =
     (case ti_key x of (_, a, tag) \<Rightarrow>
        if list_ex (\<lambda>c. tn_id c = a @ ''.'' @ tag) (tn_children asset) then asset
        else with_children asset (tn_children asset @
          [TNode (a @ ''.'' @ tag) tag ''tag'' (observed_attrs site @ [(''unit'', ti_unit x), (''last_seen'', seen_text stamp x)]) []]))"

definition add_observed_tag :: "(rat \<Rightarrow> string) \<Rightarrow> string \<Rightarrow> tnode list \<Rightarrow> tag_item \<Rightarrow> tnode list" where
  "add_observed_tag stamp site assets x =
     (case ti_key x of (_, a, _) \<Rightarrow>
        update_first_node a (add_tag_node stamp site x)
          (TNode a (if ti_asset_name x \<noteq> [] then ti_asset_name x else a) ''observed-asset'' (observed_attrs site) []) assets)"

definition group_name :: string where
  "group_name = ''observed-sources''"

definition add_site_items :: "(rat \<Rightarrow> string) \<Rightarrow> tnode list \<Rightarrow> string \<times> tag_item list \<Rightarrow> tnode list" where
  "add_site_items stamp tree g =
     (case g of (site, items) \<Rightarrow>
        update_first_node site
          (\<lambda>s. with_children s
             (update_first_node group_name
                (\<lambda>grp. with_children grp (foldl (add_observed_tag stamp site) (tn_children grp) items))
                (TNode group_name ''Observed sources'' ''area'' (observed_attrs site) []) (tn_children s)))
          (TNode site site ''site'' (observed_attrs site) []) tree)"

definition group_by_site :: "tag_item list \<Rightarrow> (string \<times> tag_item list) list" where
  "group_by_site items =
     foldl (\<lambda>d x. (case ti_key x of (site, asset, tag) \<Rightarrow>
         (let s = py_strip site in
          if ti_source x = ''observed'' \<and> s \<noteq> [] \<and> py_strip asset \<noteq> [] \<and> py_strip tag \<noteq> []
          then dict_set d s (dict_getd d s [] @ [x]) else d))) [] items"

definition append_observed :: "(rat \<Rightarrow> string) \<Rightarrow> tnode list \<Rightarrow> tag_item list \<Rightarrow> tnode list" where
  "append_observed stamp tree items = foldl (add_site_items stamp) tree (group_by_site items)"

text \<open>The catalog is \<open>None\<close> when the historian is unavailable.\<close>

definition build_projection :: "(rat \<Rightarrow> string) \<Rightarrow> plant \<Rightarrow> bool \<Rightarrow> catalog option \<Rightarrow> tnode list" where
  "build_projection stamp h include_observed answer =
     (let tree = map (annotate_configured []) (hierarchy_to_tree h)
      in if \<not> include_observed then tree
         else (case answer of None \<Rightarrow> tree | Some c \<Rightarrow> append_observed stamp tree (ct_items c)))"

section \<open>Loaded tags are found\<close>

lemma load_each_entries:
  assumes "load_each f acc vs = Inr xs" "(k, x) \<in> set xs"
  shows "(k, x) \<in> set acc \<or> (\<exists>d. node_text d ''id'' = Inr k \<and> f d = Inr x)"
  using assms
proof (induction f acc vs rule: load_each.induct)
  case (2 f acc v vs)
  from "2.prems"(1) obtain d i y where d: "v = PDict d" "node_text d ''id'' = Inr i" "f d = Inr y"
      "load_each f (dict_set acc i y) vs = Inr xs"
    by (auto split: pyval.splits)
  from "2.IH" [OF d(1,4) "2.prems"(2)] consider "(k, x) \<in> set (dict_set acc i y)" | "\<exists>d. node_text d ''id'' = Inr k \<and> f d = Inr x"
    by blast
  then show ?case
  proof cases
    case 1
    show ?thesis using 1 d(2,3) set_dict_set [where d = acc and k = i and v = y] by blast
  qed simp
qed simp

lemma load_each_distinct: "load_each f acc vs = Inr xs \<Longrightarrow> wf_dict acc \<Longrightarrow> wf_dict xs"
proof (induction f acc vs rule: load_each.induct)
  case (2 f acc v vs)
  from "2.prems"(1) obtain d i y where d: "v = PDict d" "node_text d ''id'' = Inr i" "f d = Inr y"
      "load_each f (dict_set acc i y) vs = Inr xs"
    by (auto split: pyval.splits)
  show ?case by (rule "2.IH" [OF d(1,4)]) (simp add: "2.prems"(2) distinct_update)
qed simp

lemma load_children_entries:
  assumes "load_children f d key = Inr xs" "(k, x) \<in> set xs"
  shows "\<exists>d. node_text d ''id'' = Inr k \<and> f d = Inr x"
  using assms load_each_entries [of f "[]" _ xs k x] by (auto simp: load_children_def split: pyval.splits)

lemma load_children_wf: "load_children f d key = Inr xs \<Longrightarrow> wf_dict xs"
  using load_each_distinct [of f "[]"] by (auto simp: load_children_def split: pyval.splits)

lemma in_values: "x \<in> set (values_of d) \<longleftrightarrow> (\<exists>k. (k, x) \<in> set d)"
  by (force simp: values_of_def)

lemma in_plant_cells:
  "c \<in> set (plant_cells h) \<longleftrightarrow> (\<exists>ks s kr r kl l kc. (ks, s) \<in> set h \<and> (kr, r) \<in> set (ps_areas s)
     \<and> (kl, l) \<in> set (pr_lines r) \<and> (kc, c) \<in> set (pl_cells l))"
  by (simp add: plant_cells_def in_values Bex_def) blast

lemma loaded_asset:
  assumes "load_hierarchy R data = Inr h" "c \<in> set (plant_cells h)" "(k, a) \<in> set (pc_assets c)"
  shows "wf_dict (pc_assets c) \<and> wf_dict (pa_tags a) \<and> pa_id a = k \<and> (\<forall>(j, t) \<in> set (pa_tags a). pt_id t = j)"
proof -
  obtain ks s kr r kl l kc where n: "(ks, s) \<in> set h" "(kr, r) \<in> set (ps_areas s)" "(kl, l) \<in> set (pr_lines r)"
      "(kc, c) \<in> set (pl_cells l)"
    using assms(2) unfolding in_plant_cells by blast
  obtain ds where "load_site R ds = Inr s" using load_children_entries [OF assms(1) [unfolded load_hierarchy_def] n(1)] by blast
  then obtain key where ar: "load_children (load_area R) ds key = Inr (ps_areas s)" by (auto simp: load_site_def)
  obtain dr where "load_area R dr = Inr r" using load_children_entries [OF ar n(2)] by blast
  then obtain key where li: "load_children (load_line R) dr key = Inr (pr_lines r)" by (auto simp: load_area_def)
  obtain dl where "load_line R dl = Inr l" using load_children_entries [OF li n(3)] by blast
  then obtain key where ce: "load_children (load_cell R) dl key = Inr (pl_cells l)" by (auto simp: load_line_def)
  obtain dc where "load_cell R dc = Inr c" using load_children_entries [OF ce n(4)] by blast
  then obtain key where as: "load_children (load_asset R) dc key = Inr (pc_assets c)" by (auto simp: load_cell_def)
  obtain da where da: "node_text da ''id'' = Inr k" "load_asset R da = Inr a" using load_children_entries [OF as assms(3)] by blast
  then obtain key where ta: "load_children (load_tag R) da key = Inr (pa_tags a)" and "pa_id a = k" by (auto simp: load_asset_def)
  moreover have "pt_id t = j" if "(j, t) \<in> set (pa_tags a)" for j t
    using load_children_entries [OF ta that] by (auto simp: load_tag_def)
  ultimately show ?thesis using load_children_wf [OF as] load_children_wf [OF ta] by blast
qed

lemma asset_in_cells_unique:
  assumes "distinct (concat (map (\<lambda>c. map fst (pc_assets c)) cs))" "c \<in> set cs" "(k, a) \<in> set (pc_assets c)"
  shows "asset_in_cells cs k = Some a"
  using assms
proof (induction cs)
  case (Cons d cs)
  show ?case
  proof (cases "c = d")
    case True
    then have "map_of (pc_assets d) k = Some a" using Cons.prems by simp
    then show ?thesis by simp
  next
    case False
    then have c: "c \<in> set cs" using Cons.prems(2) by simp
    have "k \<in> set (concat (map (\<lambda>c. map fst (pc_assets c)) cs))" using c Cons.prems(3) by force
    then have "k \<notin> set (map fst (pc_assets d))" using Cons.prems(1) by auto
    then have "map_of (pc_assets d) k = None" by (simp add: map_of_eq_None_iff)
    then show ?thesis using Cons.IH Cons.prems(1,3) c by simp
  qed
qed simp

text \<open>In a hierarchy that loads and names no asset twice, every tag whose identifier is the
  asset's followed by a dot and a name is the one \<open>tag_for\<close> returns for that asset and name.\<close>

theorem loaded_tags_found:
  assumes "load_hierarchy R data = Inr h" "distinct (concat (map (\<lambda>c. map fst (pc_assets c)) (plant_cells h)))"
    "c \<in> set (plant_cells h)" "(k, a) \<in> set (pc_assets c)" "(j, t) \<in> set (pa_tags a)" "pt_id t = pa_id a @ ''.'' @ name"
  shows "tag_for h (pa_id a) name = Some t"
proof -
  note l = loaded_asset [OF assms(1,3,4)]
  have "asset_in_cells (plant_cells h) (pa_id a) = Some a"
    using asset_in_cells_unique [OF assms(2-4)] l by simp
  moreover have "pt_id t = j" using l assms(5) by blast
  then have "map_of (pa_tags a) (pa_id a @ ''.'' @ name) = Some t" using l assms(5,6) by simp
  ultimately show ?thesis by (simp only: tag_for_def option.case)
qed

definition demo_yaml :: pydict where
  "demo_yaml =
     (let tag = PDict [(''id'', PStr ''P.t''), (''name'', PStr ''t''), (''unit'', PStr ''c''), (''min'', PInt 0), (''max'', PInt 9),
            (''warning_low'', PInt 1), (''warning_high'', PInt 8), (''critical_low'', PInt 0), (''critical_high'', PInt 9), (''sampling_rate_hz'', PInt 1)];
          node = (\<lambda>i key children. PDict [(''id'', PStr i), (''name'', PStr i), (key, PList children), (''type'', PStr ''pump'')])
      in [(''sites'', PList [node ''S'' ''areas'' [node ''A'' ''lines'' [node ''L'' ''cells'' [node ''C'' ''assets'' [node ''P'' ''tags'' [tag]]]]]])])"

definition demo_plant :: plant where
  "demo_plant = (case load_hierarchy demo_rt demo_yaml of Inr h \<Rightarrow> h | Inl _ \<Rightarrow> [])"

lemma demo_plant: "load_hierarchy demo_rt demo_yaml = Inr demo_plant"
proof -
  have "is_ok (load_hierarchy demo_rt demo_yaml)" by code_simp
  then show ?thesis by (cases "load_hierarchy demo_rt demo_yaml") (simp_all add: demo_plant_def is_ok_def)
qed

theorem loaded_tags_found_witness:
  "\<exists>t. tag_for demo_plant ''P'' ''t'' = Some t \<and> pt_unit t = ''c''"
proof -
  let ?c = "hd (plant_cells demo_plant)"
  let ?a = "snd (hd (pc_assets ?c))"
  let ?t = "snd (hd (pa_tags ?a))"
  have "distinct (concat (map (\<lambda>c. map fst (pc_assets c)) (plant_cells demo_plant)))" by code_simp
  moreover have "?c \<in> set (plant_cells demo_plant)" by code_simp
  moreover have "(''P'', ?a) \<in> set (pc_assets ?c)" by code_simp
  moreover have "(''P.t'', ?t) \<in> set (pa_tags ?a)" by code_simp
  moreover have "pt_id ?t = pa_id ?a @ ''.'' @ ''t''" by code_simp
  ultimately have "tag_for demo_plant (pa_id ?a) ''t'' = Some ?t" by (rule loaded_tags_found [OF demo_plant])
  moreover have "pa_id ?a = ''P'' \<and> pt_unit ?t = ''c''" by code_simp
  ultimately show ?thesis by auto
qed

section \<open>The registry is authoritative\<close>

lemma add_observed_keys: "wf_dict items \<Longrightarrow> wf_dict (add_observed_row items r)"
  by (auto simp: add_observed_row_def distinct_update split: option.splits)

definition seen_of :: "tag_item \<Rightarrow> (rat \<times> rat) option \<Rightarrow> tag_item" where
  "seen_of x s = x\<lparr>ti_seen := s\<rparr>"

lemma seen_of_twice: "seen_of (seen_of x s) t = seen_of x t" by (simp add: seen_of_def)

lemma seen_of_id: "seen_of x (ti_seen x) = x" by (simp add: seen_of_def)

lemma add_observed_other: "ob_key r \<noteq> k \<Longrightarrow> map_of (add_observed_row items r) k = map_of items k"
  by (simp add: add_observed_row_def split: option.splits)

lemma add_observed_same:
  "map_of items (ob_key r) = Some x \<Longrightarrow> map_of (add_observed_row items r) (ob_key r) = Some (seen_of x (Some (ob_first r, ob_last r)))"
  "map_of items (ob_key r) = None \<Longrightarrow> map_of (add_observed_row items r) (ob_key r) = Some (observed_item r)"
  by (simp_all add: add_observed_row_def seen_of_def)

lemma add_rows_keep:
  "map_of items k = Some x \<Longrightarrow> \<exists>s. map_of (foldl add_observed_row items rows) k = Some (seen_of x s)"
proof (induction rows rule: rev_induct)
  case Nil
  then show ?case by (auto intro: exI [of _ "ti_seen x"] simp: seen_of_id)
next
  case (snoc r rows)
  then obtain s where s: "map_of (foldl add_observed_row items rows) k = Some (seen_of x s)" by blast
  show ?case
  proof (cases "ob_key r = k")
    case True
    then show ?thesis using add_observed_same(1) [of "foldl add_observed_row items rows" r] s by (auto simp: seen_of_twice)
  next
    case False
    then show ?thesis using s by (auto simp: add_observed_other)
  qed
qed

lemma observed_item_key: "ti_key (observed_item r) = ob_key r" "ti_source (observed_item r) = ''observed''"
  by (simp_all add: observed_item_def split: prod.splits)

lemma add_rows_new:
  assumes "map_of items k = None" "map_of (foldl add_observed_row items rows) k = Some y"
  shows "\<exists>r \<in> set rows. ob_key r = k \<and> (\<exists>s. y = seen_of (observed_item r) s)"
  using assms(2)
proof (induction rows arbitrary: y rule: rev_induct)
  case (snoc r rows)
  show ?case
  proof (cases "ob_key r = k")
    case True
    show ?thesis
    proof (cases "map_of (foldl add_observed_row items rows) k")
      case None
      then have "y = observed_item r" using snoc.prems True add_observed_same(2) [of "foldl add_observed_row items rows" r] by simp
      then show ?thesis using True seen_of_id by (metis in_set_conv_decomp)
    next
      case (Some x)
      then obtain q s where "q \<in> set rows" "ob_key q = k" "x = seen_of (observed_item q) s" using snoc.IH by blast
      moreover have "y = seen_of x (Some (ob_first r, ob_last r))"
        using snoc.prems True Some add_observed_same(1) [of "foldl add_observed_row items rows" r] by simp
      ultimately show ?thesis by (auto simp: seen_of_twice)
    qed
  next
    case False
    then show ?thesis using snoc by (auto simp: add_observed_other)
  qed
qed (simp add: assms(1))

lemma foldl_wf: "wf_dict items \<Longrightarrow> wf_dict (foldl add_observed_row items rows)"
  by (induction rows rule: rev_induct) (auto intro: add_observed_keys)

definition registry_dict :: "tnode list \<Rightarrow> (tag_key \<times> tag_item) list" where
  "registry_dict tree = foldl (\<lambda>d x. dict_set d (ti_key x) x) [] (concat (map (registry_items []) tree))"

lemma fold_items:
  fixes xs :: "tag_item list" and d :: "(tag_key \<times> tag_item) list"
  assumes "wf_dict d" "\<And>k x. map_of d k = Some x \<Longrightarrow> ti_key x = k \<and> P x" "\<And>x. x \<in> set xs \<Longrightarrow> P x"
  shows "wf_dict (foldl (\<lambda>d x. dict_set d (ti_key x) x) d xs)
    \<and> (\<forall>k x. map_of (foldl (\<lambda>d x. dict_set d (ti_key x) x) d xs) k = Some x \<longrightarrow> ti_key x = k \<and> P x)"
  using assms
proof (induction xs arbitrary: d)
  case (Cons y ys)
  show ?case unfolding foldl_Cons
  proof (rule Cons.IH)
    show "wf_dict (dict_set d (ti_key y) y)" using Cons.prems(1) by (rule distinct_update)
    show "ti_key x = k \<and> P x" if "map_of (dict_set d (ti_key y) y) k = Some x" for k x
      using that Cons.prems(2,3) by (auto split: if_splits)
    show "P x" if "x \<in> set ys" for x using that Cons.prems(3) by simp
  qed
qed simp

lemma registry_items_source: "x \<in> set (registry_items site n) \<Longrightarrow> ti_source x = ''registry''"
proof (induction site n arbitrary: x rule: registry_items.induct)
  case (1 site i n t attrs children)
  show ?case
  proof (cases "t \<notin> {''site'', ''area'', ''line'', ''cell'', ''tag''} \<and> list_ex (\<lambda>c. tn_type c = ''tag'') children")
    case True
    then have "registry_items site (TNode i n t attrs children) =
       map (\<lambda>c. \<lparr>ti_key = (if t = ''site'' then i else site, i, tn_name c), ti_asset_name = n, ti_tag_id = tn_id c,
                ti_unit = dict_getd (tn_attrs c) ''unit'' (PStr []),
                ti_limits = map (pget (tn_attrs c)) [''warning_low'', ''warning_high'', ''critical_low'', ''critical_high''],
                ti_source = ''registry'', ti_seen = None, ti_active = True\<rparr>) children"
      unfolding registry_items.simps Let_def by (rule if_P)
    then have "ti_source x = ''registry''" using "1.prems" by (auto simp only: set_map image_iff tag_item.select_convs)
    then show ?thesis .
  next
    case False
    then have "registry_items site (TNode i n t attrs children) = concat (map (registry_items (if t = ''site'' then i else site)) children)"
      unfolding registry_items.simps Let_def by (rule if_not_P)
    then obtain c where "c \<in> set children" "x \<in> set (registry_items (if t = ''site'' then i else site) c)" using "1.prems" by auto
    then show ?thesis using "1.IH" [OF refl refl False] by blast
  qed
qed

lemma registry_dict_ok:
  "wf_dict (registry_dict tree) \<and> (\<forall>k x. map_of (registry_dict tree) k = Some x \<longrightarrow> ti_key x = k \<and> ti_source x = ''registry'')"
  unfolding registry_dict_def by (rule fold_items) (auto intro: registry_items_source)

lemma value_lookup: "wf_dict d \<Longrightarrow> x \<in> set (values_of d) \<longleftrightarrow> (\<exists>k. map_of d k = Some x)"
  by (simp add: in_values)

lemma catalog_items_observed: "catalog_items tree True rows = foldl add_observed_row (registry_dict tree) rows"
  by (simp add: catalog_items_def registry_dict_def Let_def)

lemma catalog_lookup:
  assumes "map_of (catalog_items tree True rows) k = Some y"
  shows "ti_key y = k \<and> (case map_of (registry_dict tree) k of
      Some x \<Rightarrow> ti_source y = ''registry'' | None \<Rightarrow> ti_source y = ''observed'')"
proof (cases "map_of (registry_dict tree) k")
  case None
  obtain r s where "ob_key r = k" "y = seen_of (observed_item r) s"
    using add_rows_new [OF None] assms unfolding catalog_items_observed by blast
  then show ?thesis using None observed_item_key [of r] by (simp add: seen_of_def)
next
  case (Some x)
  obtain s where "y = seen_of x s" using add_rows_keep [OF Some, of rows] assms unfolding catalog_items_observed by auto
  moreover have "ti_key x = k \<and> ti_source x = ''registry''" using Some registry_dict_ok [of tree] by blast
  ultimately show ?thesis using Some by (simp add: seen_of_def)
qed

lemma if_cases_eq: "x = (if b then u else v) \<Longrightarrow> x = u \<or> x = v"
  by (cases b) simp_all

lemma sources_split:
  "list_all (\<lambda>x. ti_source x = ''registry'' \<or> ti_source x = ''observed'') xs \<Longrightarrow>
     length xs = length (filter (\<lambda>x. ti_source x = ''registry'') xs) + length (filter (\<lambda>x. ti_source x = ''observed'') xs)"
  by (induction xs) auto

text \<open>The catalog lists every tag once, in order; a tag of the configured hierarchy is listed with
  the limits, unit and names of its configuration whatever was observed, and every other entry is marked observed.\<close>

theorem registry_is_authoritative:
  assumes "c = make_catalog version h site True active_only rows" "reg = registry_dict (site_filter site (hierarchy_to_tree h))"
  shows "sorted (map ti_key (ct_items c)) \<and> distinct (map ti_key (ct_items c)) \<and> ct_total c = ct_registry c + ct_observed c
    \<and> (\<forall>x \<in> set (values_of reg). \<exists>y \<in> set (ct_items c). seen_of y None = seen_of x None)
    \<and> (\<forall>y \<in> set (ct_items c). ti_source y = (if ti_key y \<in> set (map fst reg) then ''registry'' else ''observed''))"
proof (intro conjI ballI)
  let ?tree = "site_filter site (hierarchy_to_tree h)"
  let ?rs = "select_rows site active_only rows"
  let ?d = "catalog_items ?tree True ?rs"
  have wf: "wf_dict ?d" unfolding catalog_items_observed by (rule foldl_wf) (use registry_dict_ok in blast)
  have items: "ct_items c = sort_key ti_key (values_of ?d)" "ct_total c = length (values_of ?d)"
      "ct_registry c = length (filter (\<lambda>x. ti_source x = ''registry'') (values_of ?d))"
      "ct_observed c = length (filter (\<lambda>x. ti_source x = ''observed'') (values_of ?d))"
    unfolding assms(1) make_catalog_def Let_def catalog.select_convs by (simp_all add: values_of_def)
  have look: "ti_key y = k \<and> (case map_of reg k of Some x \<Rightarrow> ti_source y = ''registry'' | None \<Rightarrow> ti_source y = ''observed'')"
    if "map_of ?d k = Some y" for k y using catalog_lookup [OF that] assms(2) by simp
  have "ti_key (snd p) = fst p" if "p \<in> set ?d" for p
  proof -
    have "map_of ?d (fst p) = Some (snd p)" by (rule map_of_is_SomeI [OF wf]) (use that in simp)
    then show ?thesis using look by blast
  qed
  then have keys: "map ti_key (values_of ?d) = map fst ?d" unfolding values_of_def map_map comp_def by (rule map_cong [OF refl])
  show "sorted (map ti_key (ct_items c))" unfolding items by simp
  have "distinct (map ti_key (values_of ?d))" unfolding keys by (rule wf)
  then show "distinct (map ti_key (ct_items c))" unfolding items(1) distinct_sort_map .
  have src: "ti_source y = (if ti_key y \<in> set (map fst reg) then ''registry'' else ''observed'')" if y: "y \<in> set (values_of ?d)" for y
  proof -
    obtain k where k: "map_of ?d k = Some y" using iffD1 [OF value_lookup [OF wf] y] by (rule exE)
    show ?thesis
    proof (cases "map_of reg k")
      case None
      have "ti_source y = ''observed''" using conjunct2 [OF look [OF k]] unfolding None option.case .
      moreover have "ti_key y \<notin> set (map fst reg)" using None conjunct1 [OF look [OF k]] by (simp add: map_of_eq_None_iff)
      ultimately show ?thesis by (simp only: if_False)
    next
      case (Some x)
      have "ti_source y = ''registry''" using conjunct2 [OF look [OF k]] unfolding Some option.case .
      moreover have "ti_key y \<in> set (map fst reg)" using map_of_SomeD [OF Some] conjunct1 [OF look [OF k]] by force
      ultimately show ?thesis by (simp only: if_True)
    qed
  qed
  then show "ti_source y = (if ti_key y \<in> set (map fst reg) then ''registry'' else ''observed'')" if "y \<in> set (ct_items c)" for y
    using that unfolding items(1) set_sort by blast
  have "list_all (\<lambda>x. ti_source x = ''registry'' \<or> ti_source x = ''observed'') (values_of ?d)"
    unfolding list_all_iff
  proof
    fix y assume "y \<in> set (values_of ?d)"
    from src [OF this] show "ti_source y = ''registry'' \<or> ti_source y = ''observed''" by (rule if_cases_eq)
  qed
  then show "ct_total c = ct_registry c + ct_observed c" unfolding items(2-4) by (rule sources_split)
  fix x assume x: "x \<in> set (values_of reg)"
  have reg: "wf_dict (registry_dict ?tree)" using registry_dict_ok by (rule conjunct1)
  obtain k where "map_of (registry_dict ?tree) k = Some x" using iffD1 [OF value_lookup [OF reg] x [unfolded assms(2)]] by (rule exE)
  from add_rows_keep [OF this, of ?rs] obtain s where s: "map_of ?d k = Some (seen_of x s)"
    unfolding catalog_items_observed by (rule exE)
  have "seen_of x s \<in> set (values_of ?d)" by (rule iffD2 [OF value_lookup [OF wf]]) (rule exI, rule s)
  then have "seen_of x s \<in> set (ct_items c)" unfolding items(1) set_sort .
  then show "\<exists>y \<in> set (ct_items c). seen_of y None = seen_of x None" by (rule bexI [rotated]) (rule seen_of_twice)
qed

definition seen_row :: "string \<Rightarrow> string \<Rightarrow> rat \<Rightarrow> observed_row" where
  "seen_row tag u t = \<lparr>ob_key = (''S'', ''P'', tag), ob_unit = u, ob_source = ''observed'', ob_first = 0, ob_last = t, ob_active = True, ob_updated = t\<rparr>"

theorem registry_is_authoritative_witness:
  "map (\<lambda>y. (ti_source y, ti_unit y)) (ct_items (make_catalog ''v'' demo_plant None True True [seen_row ''t'' ''F'' 3, seen_row ''x'' ''F'' 4]))
     = [(''registry'', PStr ''c''), (''observed'', PStr ''F'')]
   \<and> distinct (map ti_key (ct_items (make_catalog ''v'' demo_plant None True True [seen_row ''t'' ''F'' 3, seen_row ''x'' ''F'' 4])))"
proof
  show "map (\<lambda>y. (ti_source y, ti_unit y)) (ct_items (make_catalog ''v'' demo_plant None True True [seen_row ''t'' ''F'' 3, seen_row ''x'' ''F'' 4]))
     = [(''registry'', PStr ''c''), (''observed'', PStr ''F'')]" by code_simp
qed (use registry_is_authoritative [OF refl refl] in blast)

section \<open>A stale catalog\<close>

text \<open>The cached catalog is served as long as the number of rows and the latest of their update times stay, and
  \<open>now()\<close> is the start of a transaction: what a transaction that started earlier commits afterwards is not seen.\<close>

theorem stale_catalog:
  assumes "list_asset_tags digest stamp config reg h site incl act rows cache = (c, cache')"
    "length rows' = length rows" "latest_update stamp rows' = latest_update stamp rows"
  shows "fst (list_asset_tags digest stamp config reg h site incl act rows' cache') = c"
proof -
  let ?v = "catalog_version digest stamp reg rows incl act site"
  have v: "catalog_version digest stamp reg rows' incl act site = ?v" by (simp add: catalog_version_def assms(2,3))
  have "map_of cache' (config, text_or_empty site, incl) = Some (?v, c)"
    using assms(1) unfolding list_asset_tags_def Let_def by (auto split: option.splits if_splits prod.splits)
  then show ?thesis by (simp add: list_asset_tags_def Let_def v)
qed

theorem stale_catalog_witness:
  "let rows = [seen_row ''t'' ''F'' 3, seen_row ''x'' ''F'' 9];
       rows' = snd (record_observed_asset_tags demo_rt 5 5 [[(''site'', PStr ''S''), (''asset_id'', PStr ''P''), (''tag'', PStr ''t''), (''unit'', PStr ''K'')]] rows);
       r = list_asset_tags id (\<lambda>_. ''9'') ''a'' ''1'' [] None True True rows []
   in fst (list_asset_tags id (\<lambda>_. ''9'') ''a'' ''1'' [] None True True rows' (snd r)) = fst r
      \<and> ti_unit (hd (ct_items (fst r))) = PStr ''F'' \<and> map ob_unit rows' = [''K'', ''F'']"
proof -
  define rows where "rows = [seen_row ''t'' ''F'' 3, seen_row ''x'' ''F'' 9]"
  define rows' where "rows' = snd (record_observed_asset_tags demo_rt 5 5 [[(''site'', PStr ''S''), (''asset_id'', PStr ''P''), (''tag'', PStr ''t''), (''unit'', PStr ''K'')]] rows)"
  have l: "length rows' = length rows" unfolding rows'_def rows_def by code_simp
  have u: "latest_update (\<lambda>_. ''9'') rows' = latest_update (\<lambda>_. ''9'') rows" unfolding rows'_def rows_def by code_simp
  have "ti_unit (hd (ct_items (fst (list_asset_tags id (\<lambda>_. ''9'') ''a'' ''1'' [] None True True rows [])))) = PStr ''F''"
    unfolding rows_def by code_simp
  moreover have "map ob_unit rows' = [''K'', ''F'']" unfolding rows'_def rows_def by code_simp
  ultimately show ?thesis
    using stale_catalog [OF prod.collapse [symmetric] l u] unfolding Let_def rows'_def [symmetric] rows_def [symmetric] by blast
qed

section \<open>The projection keeps what is configured\<close>

text \<open>A node is node_kept when its own data and its children other than the group of observed sources are.\<close>

definition node_kept :: "tnode \<Rightarrow> tnode \<Rightarrow> bool" where
  "node_kept n n' =
     (tn_id n' = tn_id n \<and> tn_name n' = tn_name n \<and> tn_type n' = tn_type n \<and> tn_attrs n' = tn_attrs n
      \<and> filter (\<lambda>c. tn_id c \<noteq> group_name) (tn_children n') = filter (\<lambda>c. tn_id c \<noteq> group_name) (tn_children n))"

definition kept_all :: "tnode list \<Rightarrow> tnode list \<Rightarrow> bool" where
  "kept_all ns ns' = (length ns \<le> length ns' \<and> (\<forall>i < length ns. node_kept (ns ! i) (ns' ! i)))"

lemma kept_refl: "node_kept n n" by (simp add: node_kept_def)

lemma kept_trans: "node_kept a b \<Longrightarrow> node_kept b c \<Longrightarrow> node_kept a c" by (simp add: node_kept_def)

lemma kept_all_refl: "kept_all ns ns" by (simp add: kept_all_def kept_refl)

lemma kept_all_trans: "kept_all a b \<Longrightarrow> kept_all b c \<Longrightarrow> kept_all a c"
  unfolding kept_all_def by (meson kept_trans le_trans less_le_trans)

lemma update_first_kept:
  assumes "\<And>n. node_kept n (f n)" shows "kept_all ns (update_first_node k f fresh ns)"
proof (induction ns)
  case (Cons n ns)
  then show ?case using assms by (auto simp: kept_all_def kept_refl nth_Cons split: nat.splits)
qed (simp add: kept_all_def)

lemma update_group_children:
  "(\<And>n. tn_id (f n) = tn_id n) \<Longrightarrow> tn_id fresh = k \<Longrightarrow>
     filter (\<lambda>c. tn_id c \<noteq> k) (update_first_node k f fresh ns) = filter (\<lambda>c. tn_id c \<noteq> k) ns"
  by (induction ns) auto

lemma add_site_items_kept: "kept_all tree (add_site_items stamp tree g)"
proof -
  obtain site items where g: "g = (site, items)" by (cases g)
  show ?thesis unfolding g add_site_items_def prod.case
    by (rule update_first_kept) (simp add: node_kept_def with_children_def update_group_children)
qed

lemma add_sites_kept: "kept_all tree (foldl (add_site_items stamp) tree gs)"
  by (induction gs arbitrary: tree) (auto intro: kept_all_refl kept_all_trans [OF add_site_items_kept])

text \<open>Discovery never changes the configured hierarchy: every configured site stays at its place with its
  name, its type, its attributes and its areas, only its group of observed sources may grow.\<close>

theorem projection_keeps_configured:
  assumes "i < length (hierarchy_to_tree h)"
  shows "node_kept (annotate_configured [] (hierarchy_to_tree h ! i)) (build_projection stamp h include_observed answer ! i)"
proof -
  let ?tree = "map (annotate_configured []) (hierarchy_to_tree h)"
  have "kept_all ?tree (build_projection stamp h include_observed answer)"
    by (auto simp: build_projection_def Let_def append_observed_def intro: kept_all_refl add_sites_kept split: option.splits)
  then show ?thesis using assms by (simp add: kept_all_def)
qed

theorem projection_keeps_configured_witness:
  "let c = make_catalog ''v'' demo_plant None True True [seen_row ''x'' ''F'' 4];
       n = build_projection (\<lambda>_. ''4'') demo_plant True (Some c) ! 0
   in node_kept (annotate_configured [] (hierarchy_to_tree demo_plant ! 0)) n \<and> map tn_id (tn_children n) = [''A'', ''observed-sources'']"
proof -
  have "0 < length (hierarchy_to_tree demo_plant)" by code_simp
  note k = projection_keeps_configured [OF this]
  have "map tn_id (tn_children (build_projection (\<lambda>_. ''4'') demo_plant True (Some (make_catalog ''v'' demo_plant None True True [seen_row ''x'' ''F'' 4])) ! 0))
     = [''A'', ''observed-sources'']" by code_simp
  then show ?thesis using k unfolding Let_def by blast
qed

end
