(* ===== verification/External_Assets.thy ===== *)
theory External_Assets
  imports Py_Prelude
begin

text \<open>
  Assets created over HTTP: the store of \<open>services/assets/model.py\<close> with its state file and the routes
  of \<open>api_service/routers/external.py\<close>; and the scene of \<open>assets/digital_twin.py\<close>. A flag of each
  call says whether the state file can be written. The order of the assets in the file is not observable.
\<close>

section \<open>The store\<close>

record ext_node =
  xn_id :: string
  xn_name :: string
  xn_type :: string
  xn_parent :: "string option"
  xn_meta :: pydict
  xn_tags :: "pyval list"

definition ext_to_dict :: "ext_node \<Rightarrow> pydict" where
  "ext_to_dict n =
     [(''id'', PStr (xn_id n)), (''name'', PStr (xn_name n)), (''type'', PStr (xn_type n)),
      (''parent_id'', case xn_parent n of None \<Rightarrow> PNone | Some p \<Rightarrow> PStr p), (''metadata'', PDict (xn_meta n)),
      (''tags'', PList (xn_tags n))]"

text \<open>\<open>AssetNode(**data)\<close>: unknown and missing keys raise.\<close>

definition ext_fields :: "string list" where
  "ext_fields = [''id'', ''name'', ''type'', ''parent_id'', ''metadata'', ''tags'']"

definition make_node :: "pydict \<Rightarrow> string + pydict" where
  "make_node d =
     (if list_all (\<lambda>(k, _). k \<in> set ext_fields) d \<and> list_all (dict_has d) [''id'', ''name'', ''type'']
      then Inr (map (\<lambda>k. (k, dict_getd d k (if k = ''metadata'' then PDict [] else if k = ''tags'' then PList [] else PNone))) ext_fields)
      else Inl ''TypeError'')"

record ext_store =
  xs_path :: bool
  xs_assets :: "(string \<times> pydict) list"
  xs_file :: "(string \<times> pydict) list option"

definition ext_load :: "bool \<Rightarrow> (string \<times> pydict) list option \<Rightarrow> ext_store" where
  "ext_load path file =
     \<lparr>xs_path = path, xs_assets = (if path then (case file of None \<Rightarrow> [] | Some a \<Rightarrow> a) else []), xs_file = file\<rparr>"

definition ext_persist :: "bool \<Rightarrow> 'a \<Rightarrow> ext_store \<Rightarrow> (string + 'a) \<times> ext_store" where
  "ext_persist writable r s =
     (if \<not> xs_path s then (Inr r, s)
      else if writable then (Inr r, s\<lparr>xs_file := Some (xs_assets s)\<rparr>)
      else (Inl ''OSError'', s))"

definition add_asset :: "bool \<Rightarrow> ext_node \<Rightarrow> ext_store \<Rightarrow> (string + unit) \<times> ext_store" where
  "add_asset w n s = ext_persist w () (s\<lparr>xs_assets := dict_set (xs_assets s) (xn_id n) (ext_to_dict n)\<rparr>)"

definition get_asset :: "string \<Rightarrow> ext_store \<Rightarrow> string + pydict option" where
  "get_asset k s =
     (case map_of (xs_assets s) k of
        Some (x # xs) \<Rightarrow> res_bind (make_node (x # xs)) (\<lambda>n. Inr (Some n))
      | _ \<Rightarrow> Inr None)"

definition update_asset :: "bool \<Rightarrow> string \<Rightarrow> pydict \<Rightarrow> ext_store \<Rightarrow> (string + pydict option) \<times> ext_store" where
  "update_asset w k kwargs s =
     (case map_of (xs_assets s) k of
        None \<Rightarrow> (Inr None, s)
      | Some d \<Rightarrow>
          (let d' = dict_merge d kwargs
           in case ext_persist w () (s\<lparr>xs_assets := dict_set (xs_assets s) k d'\<rparr>) of
                (Inl e, s') \<Rightarrow> (Inl e, s')
              | (Inr _, s') \<Rightarrow> (res_bind (make_node d') (\<lambda>n. Inr (Some n)), s')))"

definition delete_asset :: "bool \<Rightarrow> string \<Rightarrow> ext_store \<Rightarrow> (string + bool) \<times> ext_store" where
  "delete_asset w k s =
     (if dict_has (xs_assets s) k then ext_persist w True (s\<lparr>xs_assets := dict_del (xs_assets s) k\<rparr>) else (Inr False, s))"

definition add_tag_to_asset :: "bool \<Rightarrow> string \<Rightarrow> pydict \<Rightarrow> ext_store \<Rightarrow> (string + pydict option) \<times> ext_store" where
  "add_tag_to_asset w k tag s =
     (case map_of (xs_assets s) k of
        None \<Rightarrow> (Inr None, s)
      | Some d \<Rightarrow>
          (case map_of d ''tags'' of
             Some (PList ts) \<Rightarrow>
               ext_persist w (Some tag) (s\<lparr>xs_assets := dict_set (xs_assets s) k (dict_set d ''tags'' (PList (ts @ [PDict tag])))\<rparr>)
           | _ \<Rightarrow> (Inl ''KeyError'', s)))"

section \<open>The routes\<close>

record asset_request =
  xr_id :: string
  xr_name :: string
  xr_type :: string
  xr_parent :: "string option"
  xr_meta :: pydict

record tag_request =
  xt_id :: string
  xt_name :: string
  xt_unit :: string
  xt_min :: rat
  xt_max :: rat
  xt_limits :: "rat option list"
  xt_rate :: rat

definition opt_float :: "rat option \<Rightarrow> pyval" where
  "opt_float x = (case x of None \<Rightarrow> PNone | Some r \<Rightarrow> PFloat r)"

definition request_tag :: "tag_request \<Rightarrow> pydict" where
  "request_tag r =
     [(''id'', PStr (xt_id r)), (''name'', PStr (xt_name r)), (''unit'', PStr (xt_unit r)), (''min'', PFloat (xt_min r)),
      (''max'', PFloat (xt_max r))]
     @ zip [''warning_low'', ''warning_high'', ''critical_low'', ''critical_high''] (map opt_float (xt_limits r))
     @ [(''sampling_rate_hz'', PFloat (xt_rate r))]"

datatype route =
    CreateAsset asset_request
  | ReadAsset string
  | UpdateAsset string asset_request
  | DeleteAsset string
  | AddTag string tag_request

datatype reply = Body pydict | NotFound | Raised string

definition reply_of :: "(string + pydict option) \<Rightarrow> reply" where
  "reply_of r = (case r of Inl e \<Rightarrow> Raised e | Inr None \<Rightarrow> NotFound | Inr (Some d) \<Rightarrow> Body d)"

definition request_node :: "asset_request \<Rightarrow> ext_node" where
  "request_node r = \<lparr>xn_id = xr_id r, xn_name = xr_name r, xn_type = xr_type r, xn_parent = xr_parent r, xn_meta = xr_meta r, xn_tags = []\<rparr>"

fun handle_route :: "bool \<Rightarrow> route \<Rightarrow> ext_store \<Rightarrow> reply \<times> ext_store" where
  "handle_route w (CreateAsset r) s =
     (case add_asset w (request_node r) s of
        (Inl e, s') \<Rightarrow> (Raised e, s')
      | (Inr _, s') \<Rightarrow> (Body (ext_to_dict (request_node r)), s'))"
| "handle_route w (ReadAsset k) s = (reply_of (get_asset k s), s)"
| "handle_route w (UpdateAsset k r) s =
     (case update_asset w k [(''name'', PStr (xr_name r)), (''type'', PStr (xr_type r)), (''metadata'', PDict (xr_meta r))] s of
        (res, s') \<Rightarrow> (reply_of res, s'))"
| "handle_route w (DeleteAsset k) s =
     (case delete_asset w k s of
        (Inl e, s') \<Rightarrow> (Raised e, s') | (Inr True, s') \<Rightarrow> (Body [(''asset_id'', PStr k)], s') | (Inr False, s') \<Rightarrow> (NotFound, s'))"
| "handle_route w (AddTag k r) s =
     (case add_tag_to_asset w k (request_tag r) s of (res, s') \<Rightarrow> (reply_of res, s'))"

fun route_run :: "(bool \<times> route) list \<Rightarrow> ext_store \<Rightarrow> ext_store" where
  "route_run [] s = s"
| "route_run ((w, r) # rs) s = route_run rs (snd (handle_route w r s))"

section \<open>The scene\<close>

record twin =
  tw_id :: string
  tw_bindings :: "(string \<times> string) list"
  tw_status :: string
  tw_values :: "(string \<times> rat) list"

definition twin_status :: "twin \<Rightarrow> string \<Rightarrow> rat \<Rightarrow> string" where
  "twin_status e tag v =
     (case map_of (tw_bindings e) tag of
        None \<Rightarrow> tw_status e
      | Some bound \<Rightarrow>
          if contains (py_lower bound) ''temperature'' \<and> 80 < v then ''warning''
          else if contains (py_lower bound) ''vibration'' \<and> 7 < v then ''critical'' else ''normal'')"

definition update_value :: "string \<Rightarrow> string \<Rightarrow> rat \<Rightarrow> (string \<times> twin) list \<Rightarrow> bool \<times> (string \<times> twin) list" where
  "update_value k tag v scene =
     (case map_of scene k of
        None \<Rightarrow> (False, scene)
      | Some e \<Rightarrow> (True, dict_set scene k (e\<lparr>tw_values := dict_set (tw_values e) tag v, tw_status := twin_status e tag v\<rparr>)))"

definition remove_entity :: "string \<Rightarrow> (string \<times> twin) list \<Rightarrow> bool \<times> (string \<times> twin) list" where
  "remove_entity k scene = (if dict_has scene k then (True, dict_del scene k) else (False, scene))"

definition add_entity :: "twin \<Rightarrow> (string \<times> twin) list \<Rightarrow> (string \<times> twin) list" where
  "add_entity e scene = dict_set scene (tw_id e) e"

section \<open>Stored assets stay readable\<close>

definition ext_ok :: "string \<Rightarrow> pydict \<Rightarrow> bool" where
  "ext_ok k d = (map fst d = ext_fields \<and> map_of d ''id'' = Some (PStr k) \<and> (\<exists>ts. map_of d ''tags'' = Some (PList ts)))"

definition store_ok :: "ext_store \<Rightarrow> bool" where
  "store_ok s = (wf_dict (xs_assets s) \<and> (\<forall>k d. map_of (xs_assets s) k = Some d \<longrightarrow> ext_ok k d))"

lemma ext_to_dict_ok: "ext_ok (xn_id n) (ext_to_dict n)"
  by (simp add: ext_ok_def ext_to_dict_def ext_fields_def)

lemma persist_assets [simp]: "xs_assets (snd (ext_persist w r s)) = xs_assets s"
  by (simp add: ext_persist_def)

lemma keys_update_same: "k \<in> set (map fst d) \<Longrightarrow> map fst (dict_set d k v) = map fst d"
  by (induction d) auto

lemma merge_known_keys:
  "list_all (\<lambda>(k, _). k \<in> set (map fst d)) e \<Longrightarrow> map fst (dict_merge d e) = map fst d"
  unfolding dict_merge_def
proof (induction e arbitrary: d)
  case (Cons p e)
  obtain k v where p: "p = (k, v)" by (cases p)
  have "map fst (dict_set d k v) = map fst d" using Cons.prems p by (intro keys_update_same) simp
  then show ?case using Cons.IH [of "dict_set d k v"] Cons.prems p by simp
qed simp

lemma ext_ok_make: "ext_ok k d \<Longrightarrow> \<exists>n. make_node d = Inr n"
proof -
  assume ok: "ext_ok k d"
  have "fst p \<in> set ext_fields" if "p \<in> set d" for p using that ok unfolding ext_ok_def by (metis in_set_zipE list.set_map image_eqI)
  then have "list_all (\<lambda>(k, _). k \<in> set ext_fields) d" by (auto simp: list_all_iff)
  moreover have "set ext_fields \<subseteq> set (map fst d)" using ok by (simp add: ext_ok_def)
  then have "list_all (dict_has d) [''id'', ''name'', ''type'']" unfolding list_all_iff dict_has_keys by (auto simp: ext_fields_def)
  ultimately show ?thesis by (simp add: make_node_def)
qed

lemma store_ok_set:
  assumes "store_ok s" "ext_ok k d" shows "store_ok (s\<lparr>xs_assets := dict_set (xs_assets s) k d\<rparr>)"
  using assms by (auto simp: store_ok_def distinct_update)

lemma store_ok_assets: "xs_assets s' = xs_assets s \<Longrightarrow> store_ok s \<Longrightarrow> store_ok s'"
  by (simp add: store_ok_def)

lemma handle_route_ok:
  assumes "store_ok s" shows "store_ok (snd (handle_route w r s))"
proof (cases r)
  case (CreateAsset q)
  let ?s = "s\<lparr>xs_assets := dict_set (xs_assets s) (xn_id (request_node q)) (ext_to_dict (request_node q))\<rparr>"
  have "store_ok ?s" by (rule store_ok_set [OF assms ext_to_dict_ok])
  then have "store_ok (snd (ext_persist w () ?s))" by (rule store_ok_assets [rotated]) simp
  then show ?thesis using CreateAsset by (auto simp: add_asset_def split: prod.splits sum.splits)
next
  case (UpdateAsset k q)
  let ?kw = "[(''name'', PStr (xr_name q)), (''type'', PStr (xr_type q)), (''metadata'', PDict (xr_meta q))]"
  show ?thesis
  proof (cases "map_of (xs_assets s) k")
    case None
    then show ?thesis using UpdateAsset assms by (simp add: update_asset_def)
  next
    case (Some d)
    have ok: "ext_ok k d" using assms Some by (simp add: store_ok_def)
    have "map fst (dict_merge d ?kw) = map fst d"
      by (rule merge_known_keys) (use ok in \<open>simp add: ext_ok_def ext_fields_def\<close>)
    moreover have "map_of (dict_merge d ?kw) ''id'' = map_of d ''id''" "map_of (dict_merge d ?kw) ''tags'' = map_of d ''tags''"
      by (simp_all add: dict_merge_def)
    ultimately have "ext_ok k (dict_merge d ?kw)" using ok by (simp add: ext_ok_def)
    then have "store_ok (s\<lparr>xs_assets := dict_set (xs_assets s) k (dict_merge d ?kw)\<rparr>)" by (rule store_ok_set [OF assms])
    then have "store_ok (snd (ext_persist w () (s\<lparr>xs_assets := dict_set (xs_assets s) k (dict_merge d ?kw)\<rparr>)))"
      by (rule store_ok_assets [rotated]) simp
    then show ?thesis using UpdateAsset Some by (auto simp: update_asset_def Let_def split: prod.splits sum.splits)
  qed
next
  case (DeleteAsset k)
  have "store_ok (s\<lparr>xs_assets := dict_del (xs_assets s) k\<rparr>)" using assms by (auto simp: store_ok_def delete_conv' distinct_delete)
  then have "store_ok (snd (ext_persist w True (s\<lparr>xs_assets := dict_del (xs_assets s) k\<rparr>)))" by (rule store_ok_assets [rotated]) simp
  then show ?thesis using DeleteAsset assms by (auto simp: delete_asset_def split: prod.splits sum.splits bool.splits)
next
  case (AddTag k q)
  show ?thesis
  proof (cases "map_of (xs_assets s) k")
    case None
    then show ?thesis using AddTag assms by (simp add: add_tag_to_asset_def)
  next
    case (Some d)
    have ok: "ext_ok k d" using assms Some by (simp add: store_ok_def)
    then obtain ts where ts: "map_of d ''tags'' = Some (PList ts)" by (auto simp: ext_ok_def)
    let ?d = "dict_set d ''tags'' (PList (ts @ [PDict (request_tag q)]))"
    have "map fst ?d = map fst d" by (rule keys_update_same) (use ok in \<open>simp add: ext_ok_def ext_fields_def\<close>)
    then have "ext_ok k ?d" using ok by (simp add: ext_ok_def)
    then have "store_ok (s\<lparr>xs_assets := dict_set (xs_assets s) k ?d\<rparr>)" by (rule store_ok_set [OF assms])
    then have "store_ok (snd (ext_persist w (Some (request_tag q)) (s\<lparr>xs_assets := dict_set (xs_assets s) k ?d\<rparr>)))"
      by (rule store_ok_assets [rotated]) simp
    then show ?thesis using AddTag Some ts by (auto simp: add_tag_to_asset_def split: prod.splits)
  qed
qed (use assms in simp)

lemma route_run_ok: "store_ok s \<Longrightarrow> store_ok (route_run rs s)"
  by (induction rs s rule: route_run.induct) (auto intro: handle_route_ok)

lemma if_Inr: "(if b then Inr x else Inl e) = Inr y \<Longrightarrow> y = x"
  by (cases b) simp_all

text \<open>Whatever the routes did, with writes of the state file failing in between, every stored asset can be
  read back under its own identifier: no read ends in an exception.\<close>

theorem external_assets_readable:
  assumes "get_asset k (route_run rs (ext_load path None)) = r"
  shows "r = Inr None \<or> (\<exists>n. r = Inr (Some n) \<and> pget n ''id'' = PStr k)"
proof -
  let ?s = "route_run rs (ext_load path None)"
  have "xs_assets (ext_load path None) = []" by (simp add: ext_load_def)
  then have "store_ok (ext_load path None)" by (simp add: store_ok_def)
  then have ok: "store_ok ?s" by (rule route_run_ok)
  show ?thesis
  proof (cases "map_of (xs_assets ?s) k")
    case None
    then show ?thesis using assms by (simp add: get_asset_def)
  next
    case (Some d)
    have d: "ext_ok k d" using ok Some by (simp add: store_ok_def)
    then obtain n where n: "make_node d = Inr n" using ext_ok_make by blast
    have "d \<noteq> []" using d by (auto simp: ext_ok_def ext_fields_def)
    then have "r = Inr (Some n)" using assms Some n by (cases d) (simp_all add: get_asset_def)
    moreover have "pget n ''id'' = PStr k"
    proof -
      have "n = map (\<lambda>k. (k, dict_getd d k (if k = ''metadata'' then PDict [] else if k = ''tags'' then PList [] else PNone))) ext_fields"
        using n unfolding make_node_def by (rule if_Inr)
      then show ?thesis using d by (simp add: ext_fields_def pget_def dict_getd_def ext_ok_def)
    qed
    ultimately show ?thesis by blast
  qed
qed

definition pump_request :: asset_request where
  "pump_request = \<lparr>xr_id = ''p'', xr_name = ''Pump'', xr_type = ''pump'', xr_parent = Some ''c'', xr_meta = []\<rparr>"

definition temp_request :: tag_request where
  "temp_request = \<lparr>xt_id = ''t'', xt_name = ''t'', xt_unit = ''c'', xt_min = 0, xt_max = 9, xt_limits = [None, None, None, None], xt_rate = 1\<rparr>"

theorem external_assets_readable_witness:
  "\<exists>n. get_asset ''p'' (route_run [(True, CreateAsset pump_request), (False, AddTag ''p'' temp_request), (True, UpdateAsset ''p'' pump_request)]
      (ext_load True None)) = Inr (Some n) \<and> pget n ''id'' = PStr ''p''"
proof -
  let ?r = "get_asset ''p'' (route_run [(True, CreateAsset pump_request), (False, AddTag ''p'' temp_request), (True, UpdateAsset ''p'' pump_request)]
      (ext_load True None))"
  have "?r \<noteq> Inr None" by code_simp
  then show ?thesis using external_assets_readable [OF refl, of "''p''" _ True] by blast
qed

text \<open>Creating an asset again is accepted and drops its tags; updating one keeps its old parent.\<close>

lemma recreate_drops_tags:
  "map_of (xs_assets (snd (handle_route w (CreateAsset r) s))) (xr_id r) = Some (ext_to_dict (request_node r))
   \<and> map_of (ext_to_dict (request_node r)) ''tags'' = Some (PList [])"
  by (auto simp: add_asset_def ext_persist_def request_node_def ext_to_dict_def)

lemma update_keeps_parent:
  assumes "map_of (xs_assets s) k = Some d"
  shows "\<exists>d'. map_of (xs_assets (snd (handle_route w (UpdateAsset k r) s))) k = Some d' \<and> map_of d' ''parent_id'' = map_of d ''parent_id''"
  using assms by (auto simp: update_asset_def Let_def ext_persist_def dict_merge_def split: prod.splits sum.splits)

text \<open>A failed write reports an error and keeps the change in memory: the request that failed took effect.\<close>

lemma failed_write_applied:
  assumes "xs_path s" "dict_has (xs_assets s) k" "wf_dict (xs_assets s)"
  shows "fst (handle_route False (DeleteAsset k) s) = Raised ''OSError''
    \<and> fst (handle_route False (ReadAsset k) (snd (handle_route False (DeleteAsset k) s))) = NotFound"
  using assms by (simp add: delete_asset_def ext_persist_def get_asset_def reply_of_def delete_conv')

text \<open>The status of a twin is the verdict on the last value alone: a critical vibration is gone with the next
  harmless temperature.\<close>

lemma twin_status_masks:
  assumes "map_of scene k = Some e" "map_of (tw_bindings e) ''v'' = Some ''Vibration''" "map_of (tw_bindings e) ''t'' = Some ''Temperature''"
  shows "map_option tw_status (map_of (snd (update_value k ''v'' 9 scene)) k) = Some ''critical''
    \<and> map_option tw_status (map_of (snd (update_value k ''t'' 20 (snd (update_value k ''v'' 9 scene)))) k) = Some ''normal''"
proof -
  have "twin_status e ''v'' 9 = ''critical''" if "map_of (tw_bindings e) ''v'' = Some ''Vibration''" for e :: twin
  proof -
    have "\<not> contains (py_lower ''Vibration'') ''temperature'' \<and> contains (py_lower ''Vibration'') ''vibration''" by code_simp
    then show ?thesis using that by (simp add: twin_status_def)
  qed
  moreover have "twin_status e ''t'' 20 = ''normal''" if "map_of (tw_bindings e) ''t'' = Some ''Temperature''" for e :: twin
  proof -
    have "\<not> contains (py_lower ''Temperature'') ''vibration''" by code_simp
    then show ?thesis using that by (simp add: twin_status_def)
  qed
  ultimately show ?thesis using assms by (simp add: update_value_def)
qed

end
