(* ===== verification/Semantic_Graph.thy ===== *)
theory Semantic_Graph
  imports Asset_Hierarchy
begin

text \<open>
  The semantic graph of \<open>services/common/semantic_core.py\<close>: its primitives with their dictionaries, the
  graph, search over it, and its construction from the asset hierarchy. The dictionaries of the graph are
  association lists keyed by identifier, tuples are lists, and the texts of floats and containers among
  the metadata come from \<open>pyrt\<close>. The locale \<open>item_codec\<close> is what reading a collection back needs of
  a class, and is interpreted for each of the ten.
\<close>

named_theorems codec_simps \<open>reading back a field of an encoded primitive\<close>

section \<open>Primitives\<close>

definition field_text :: "pyrt \<Rightarrow> pydict \<Rightarrow> string \<Rightarrow> string \<Rightarrow> string" where
  "field_text R d k dflt = py_str R (dict_getd d k (PStr dflt))"

definition texts_of :: "pyrt \<Rightarrow> pydict \<Rightarrow> string \<Rightarrow> string list" where
  "texts_of R d k = map (py_str R) (filter truthy (list_of (dict_getd d k (PList []))))"

text \<open>\<open>dict(item.get(key, {}))\<close>.\<close>

definition meta_of :: "pydict \<Rightarrow> string \<Rightarrow> string + pydict" where
  "meta_of d k = (case dict_getd d k (PDict []) of PDict m \<Rightarrow> Inr m | PList [] \<Rightarrow> Inr [] | PStr [] \<Rightarrow> Inr [] | _ \<Rightarrow> Inl ''TypeError'')"

record sem_pack =
  op_id :: string
  op_name :: string
  op_layer :: string
  op_version :: string
  op_concepts :: "string list"
  op_notes :: "string list"

definition pack_dict :: "sem_pack \<Rightarrow> pydict" where
  "pack_dict x =
     [(''pack_id'', PStr (op_id x)), (''name'', PStr (op_name x)), (''layer'', PStr (op_layer x)), (''version'', PStr (op_version x)),
      (''concepts'', PList (map PStr (op_concepts x))), (''notes'', PList (map PStr (op_notes x)))]"

definition pack_of :: "pyrt \<Rightarrow> pydict \<Rightarrow> string + sem_pack" where
  "pack_of R d =
     Inr \<lparr>op_id = field_text R d ''pack_id'' [], op_name = field_text R d ''name'' [], op_layer = field_text R d ''layer'' ''platform'',
          op_version = field_text R d ''version'' ''1.0'', op_concepts = texts_of R d ''concepts'', op_notes = texts_of R d ''notes''\<rparr>"

record sem_entity =
  se_id :: string
  se_type :: string
  se_name :: string
  se_labels :: "string list"
  se_meta :: pydict

definition entity_dict :: "sem_entity \<Rightarrow> pydict" where
  "entity_dict x =
     [(''entity_id'', PStr (se_id x)),
      (''entity_type'', PStr (se_type x)),
      (''name'', PStr (se_name x)),
      (''labels'', PList (map PStr (se_labels x))),
      (''metadata'', PDict (se_meta x))]"

definition read_entity :: "pyrt \<Rightarrow> pydict \<Rightarrow> string + sem_entity" where
  "read_entity R d =
     res_bind (meta_of d ''metadata'') (\<lambda>m0.
       Inr \<lparr>se_id = field_text R d ''entity_id'' [],
            se_type = field_text R d ''entity_type'' ''entity'',
            se_name = field_text R d ''name'' [],
            se_labels = texts_of R d ''labels'',
            se_meta = m0\<rparr>)"

record sem_relationship =
  sr_id :: string
  sr_source :: string
  sr_target :: string
  sr_type :: string
  sr_meta :: pydict

definition relationship_dict :: "sem_relationship \<Rightarrow> pydict" where
  "relationship_dict x =
     [(''relationship_id'', PStr (sr_id x)),
      (''source_id'', PStr (sr_source x)),
      (''target_id'', PStr (sr_target x)),
      (''relationship_type'', PStr (sr_type x)),
      (''metadata'', PDict (sr_meta x))]"

definition relationship_of :: "pyrt \<Rightarrow> pydict \<Rightarrow> string + sem_relationship" where
  "relationship_of R d =
     res_bind (meta_of d ''metadata'') (\<lambda>m0.
       Inr \<lparr>sr_id = field_text R d ''relationship_id'' [],
            sr_source = field_text R d ''source_id'' [],
            sr_target = field_text R d ''target_id'' [],
            sr_type = field_text R d ''relationship_type'' ''related_to'',
            sr_meta = m0\<rparr>)"

record sem_measurement =
  sm_id :: string
  sm_entity :: string
  sm_name :: string
  sm_unit :: string
  sm_min :: pyval
  sm_max :: pyval
  sm_warning_low :: pyval
  sm_warning_high :: pyval
  sm_critical_low :: pyval
  sm_critical_high :: pyval
  sm_rate :: pyval
  sm_meta :: pydict

definition measurement_dict :: "sem_measurement \<Rightarrow> pydict" where
  "measurement_dict x =
     [(''measurement_id'', PStr (sm_id x)),
      (''entity_id'', PStr (sm_entity x)),
      (''name'', PStr (sm_name x)),
      (''unit'', PStr (sm_unit x)),
      (''minimum'', sm_min x),
      (''maximum'', sm_max x),
      (''warning_low'', sm_warning_low x),
      (''warning_high'', sm_warning_high x),
      (''critical_low'', sm_critical_low x),
      (''critical_high'', sm_critical_high x),
      (''sampling_rate_hz'', sm_rate x),
      (''metadata'', PDict (sm_meta x))]"

definition measurement_of :: "pyrt \<Rightarrow> pydict \<Rightarrow> string + sem_measurement" where
  "measurement_of R d =
     res_bind (meta_of d ''metadata'') (\<lambda>m0.
       Inr \<lparr>sm_id = field_text R d ''measurement_id'' [],
            sm_entity = field_text R d ''entity_id'' [],
            sm_name = field_text R d ''name'' [],
            sm_unit = field_text R d ''unit'' [],
            sm_min = pget d ''minimum'',
            sm_max = pget d ''maximum'',
            sm_warning_low = pget d ''warning_low'',
            sm_warning_high = pget d ''warning_high'',
            sm_critical_low = pget d ''critical_low'',
            sm_critical_high = pget d ''critical_high'',
            sm_rate = pget d ''sampling_rate_hz'',
            sm_meta = m0\<rparr>)"

record sem_observation =
  so_id :: string
  so_entity :: string
  so_at :: string
  so_value :: pyval
  so_source :: string
  so_meta :: pydict

definition observation_dict :: "sem_observation \<Rightarrow> pydict" where
  "observation_dict x =
     [(''observation_id'', PStr (so_id x)),
      (''entity_id'', PStr (so_entity x)),
      (''observed_at'', PStr (so_at x)),
      (''value'', so_value x),
      (''source_id'', PStr (so_source x)),
      (''metadata'', PDict (so_meta x))]"

definition observation_of :: "pyrt \<Rightarrow> pydict \<Rightarrow> string + sem_observation" where
  "observation_of R d =
     res_bind (meta_of d ''metadata'') (\<lambda>m0.
       Inr \<lparr>so_id = field_text R d ''observation_id'' [],
            so_entity = field_text R d ''entity_id'' [],
            so_at = field_text R d ''observed_at'' [],
            so_value = pget d ''value'',
            so_source = field_text R d ''source_id'' [],
            so_meta = m0\<rparr>)"

record sem_action =
  sa_id :: string
  sa_actor :: string
  sa_target :: string
  sa_type :: string
  sa_at :: string
  sa_meta :: pydict

definition action_dict :: "sem_action \<Rightarrow> pydict" where
  "action_dict x =
     [(''action_id'', PStr (sa_id x)),
      (''actor_id'', PStr (sa_actor x)),
      (''target_id'', PStr (sa_target x)),
      (''action_type'', PStr (sa_type x)),
      (''occurred_at'', PStr (sa_at x)),
      (''metadata'', PDict (sa_meta x))]"

definition read_action :: "pyrt \<Rightarrow> pydict \<Rightarrow> string + sem_action" where
  "read_action R d =
     res_bind (meta_of d ''metadata'') (\<lambda>m0.
       Inr \<lparr>sa_id = field_text R d ''action_id'' [],
            sa_actor = field_text R d ''actor_id'' [],
            sa_target = field_text R d ''target_id'' [],
            sa_type = field_text R d ''action_type'' [],
            sa_at = field_text R d ''occurred_at'' [],
            sa_meta = m0\<rparr>)"

record sem_document =
  sd_id :: string
  sd_title :: string
  sd_type :: string
  sd_uri :: string
  sd_meta :: pydict

definition document_dict :: "sem_document \<Rightarrow> pydict" where
  "document_dict x =
     [(''document_id'', PStr (sd_id x)),
      (''title'', PStr (sd_title x)),
      (''document_type'', PStr (sd_type x)),
      (''uri'', PStr (sd_uri x)),
      (''metadata'', PDict (sd_meta x))]"

definition document_of :: "pyrt \<Rightarrow> pydict \<Rightarrow> string + sem_document" where
  "document_of R d =
     res_bind (meta_of d ''metadata'') (\<lambda>m0.
       Inr \<lparr>sd_id = field_text R d ''document_id'' [],
            sd_title = field_text R d ''title'' [],
            sd_type = field_text R d ''document_type'' ''document'',
            sd_uri = field_text R d ''uri'' [],
            sd_meta = m0\<rparr>)"

record sem_location =
  sl_id :: string
  sl_name :: string
  sl_type :: string
  sl_parent :: pyval
  sl_meta :: pydict

definition location_dict :: "sem_location \<Rightarrow> pydict" where
  "location_dict x =
     [(''location_id'', PStr (sl_id x)),
      (''name'', PStr (sl_name x)),
      (''location_type'', PStr (sl_type x)),
      (''parent_id'', sl_parent x),
      (''metadata'', PDict (sl_meta x))]"

definition location_of :: "pyrt \<Rightarrow> pydict \<Rightarrow> string + sem_location" where
  "location_of R d =
     res_bind (meta_of d ''metadata'') (\<lambda>m0.
       Inr \<lparr>sl_id = field_text R d ''location_id'' [],
            sl_name = field_text R d ''name'' [],
            sl_type = field_text R d ''location_type'' ''location'',
            sl_parent = pget d ''parent_id'',
            sl_meta = m0\<rparr>)"

record sem_state =
  ss_id :: string
  ss_entity :: string
  ss_state :: string
  ss_from :: string
  ss_to :: pyval
  ss_meta :: pydict

definition state_dict :: "sem_state \<Rightarrow> pydict" where
  "state_dict x =
     [(''state_id'', PStr (ss_id x)),
      (''entity_id'', PStr (ss_entity x)),
      (''state'', PStr (ss_state x)),
      (''valid_from'', PStr (ss_from x)),
      (''valid_to'', ss_to x),
      (''metadata'', PDict (ss_meta x))]"

definition state_of :: "pyrt \<Rightarrow> pydict \<Rightarrow> string + sem_state" where
  "state_of R d =
     res_bind (meta_of d ''metadata'') (\<lambda>m0.
       Inr \<lparr>ss_id = field_text R d ''state_id'' [],
            ss_entity = field_text R d ''entity_id'' [],
            ss_state = field_text R d ''state'' [],
            ss_from = field_text R d ''valid_from'' [],
            ss_to = pget d ''valid_to'',
            ss_meta = m0\<rparr>)"

record sem_workflow =
  sf_id :: string
  sf_name :: string
  sf_type :: string
  sf_meta :: pydict

definition workflow_dict :: "sem_workflow \<Rightarrow> pydict" where
  "workflow_dict x =
     [(''workflow_id'', PStr (sf_id x)),
      (''name'', PStr (sf_name x)),
      (''workflow_type'', PStr (sf_type x)),
      (''metadata'', PDict (sf_meta x))]"

definition workflow_of :: "pyrt \<Rightarrow> pydict \<Rightarrow> string + sem_workflow" where
  "workflow_of R d =
     res_bind (meta_of d ''metadata'') (\<lambda>m0.
       Inr \<lparr>sf_id = field_text R d ''workflow_id'' [],
            sf_name = field_text R d ''name'' [],
            sf_type = field_text R d ''workflow_type'' ''workflow'',
            sf_meta = m0\<rparr>)"

record sem_event =
  sv_id :: string
  sv_type :: string
  sv_at :: string
  sv_source :: string
  sv_entity :: string
  sv_payload :: pydict
  sv_meta :: pydict

definition event_dict :: "sem_event \<Rightarrow> pydict" where
  "event_dict x =
     [(''event_id'', PStr (sv_id x)),
      (''event_type'', PStr (sv_type x)),
      (''occurred_at'', PStr (sv_at x)),
      (''source_id'', PStr (sv_source x)),
      (''entity_id'', PStr (sv_entity x)),
      (''payload'', PDict (sv_payload x)),
      (''metadata'', PDict (sv_meta x))]"

definition event_of :: "pyrt \<Rightarrow> pydict \<Rightarrow> string + sem_event" where
  "event_of R d =
     res_bind (meta_of d ''payload'') (\<lambda>m0.
     res_bind (meta_of d ''metadata'') (\<lambda>m1.
       Inr \<lparr>sv_id = field_text R d ''event_id'' [],
            sv_type = field_text R d ''event_type'' [],
            sv_at = field_text R d ''occurred_at'' [],
            sv_source = field_text R d ''source_id'' [],
            sv_entity = field_text R d ''entity_id'' [],
            sv_payload = m0,
            sv_meta = m1\<rparr>))"

section \<open>The graph\<close>

record sem_graph =
  gr_packs :: "sem_pack list"
  gr_entities :: "(string \<times> sem_entity) list"
  gr_relationships :: "(string \<times> sem_relationship) list"
  gr_measurements :: "(string \<times> sem_measurement) list"
  gr_observations :: "(string \<times> sem_observation) list"
  gr_actions :: "(string \<times> sem_action) list"
  gr_documents :: "(string \<times> sem_document) list"
  gr_locations :: "(string \<times> sem_location) list"
  gr_states :: "(string \<times> sem_state) list"
  gr_workflows :: "(string \<times> sem_workflow) list"
  gr_events :: "(string \<times> sem_event) list"

definition items_list :: "('a \<Rightarrow> pydict) \<Rightarrow> (string \<times> 'a) list \<Rightarrow> pyval" where
  "items_list enc items = PList (map (PDict \<circ> enc) (values_of items))"

text \<open>\<open>{str(item.get(key, "")): Item(...) for item in data.get(name, []) if item.get(key)}\<close>.\<close>

fun read_items :: "pyrt \<Rightarrow> (pydict \<Rightarrow> string + 'a) \<Rightarrow> string \<Rightarrow> (string \<times> 'a) list \<Rightarrow> pyval list \<Rightarrow> string + (string \<times> 'a) list" where
  "read_items R dec key acc [] = Inr acc"
| "read_items R dec key acc (v # vs) =
     (case v of
        PDict d \<Rightarrow>
          (if truthy (pget d key) then res_bind (dec d) (\<lambda>x. read_items R dec key (dict_set acc (field_text R d key []) x) vs)
           else read_items R dec key acc vs)
      | _ \<Rightarrow> Inl ''AttributeError'')"

definition items_of :: "pyrt \<Rightarrow> (pydict \<Rightarrow> string + 'a) \<Rightarrow> string \<Rightarrow> pydict \<Rightarrow> string \<Rightarrow> string + (string \<times> 'a) list" where
  "items_of R dec key d name =
     (case dict_getd d name (PList []) of PList vs \<Rightarrow> read_items R dec key [] vs | _ \<Rightarrow> Inl ''TypeError'')"

fun read_packs :: "pyrt \<Rightarrow> pyval list \<Rightarrow> string + sem_pack list" where
  "read_packs R [] = Inr []"
| "read_packs R (v # vs) =
     (case v of
        PDict d \<Rightarrow>
          (if truthy (pget d ''pack_id'') then res_bind (pack_of R d) (\<lambda>x. res_bind (read_packs R vs) (\<lambda>xs. Inr (x # xs)))
           else read_packs R vs)
      | _ \<Rightarrow> Inl ''AttributeError'')"

definition packs_of :: "pyrt \<Rightarrow> pydict \<Rightarrow> string + sem_pack list" where
  "packs_of R d = (case dict_getd d ''ontology_packs'' (PList []) of PList vs \<Rightarrow> read_packs R vs | _ \<Rightarrow> Inl ''TypeError'')"

definition graph_counts :: "sem_graph \<Rightarrow> pydict" where
  "graph_counts g =
     [(''ontology_packs'', PInt (int (length (gr_packs g)))),
      (''entities'', PInt (int (length (gr_entities g)))),
      (''relationships'', PInt (int (length (gr_relationships g)))),
      (''measurements'', PInt (int (length (gr_measurements g)))),
      (''observations'', PInt (int (length (gr_observations g)))),
      (''actions'', PInt (int (length (gr_actions g)))),
      (''documents'', PInt (int (length (gr_documents g)))),
      (''locations'', PInt (int (length (gr_locations g)))),
      (''states'', PInt (int (length (gr_states g)))),
      (''workflows'', PInt (int (length (gr_workflows g)))),
      (''events'', PInt (int (length (gr_events g))))]"

definition graph_to_dict :: "sem_graph \<Rightarrow> pydict" where
  "graph_to_dict g =
     [(''ontology_packs'', PList (map (PDict \<circ> pack_dict) (gr_packs g))),
      (''entities'', items_list entity_dict (gr_entities g)),
      (''relationships'', items_list relationship_dict (gr_relationships g)),
      (''measurements'', items_list measurement_dict (gr_measurements g)),
      (''observations'', items_list observation_dict (gr_observations g)),
      (''actions'', items_list action_dict (gr_actions g)),
      (''documents'', items_list document_dict (gr_documents g)),
      (''locations'', items_list location_dict (gr_locations g)),
      (''states'', items_list state_dict (gr_states g)),
      (''workflows'', items_list workflow_dict (gr_workflows g)),
      (''events'', items_list event_dict (gr_events g)),
      (''counts'', PDict (graph_counts g))]"

definition graph_from_dict :: "pyrt \<Rightarrow> pydict \<Rightarrow> string + sem_graph" where
  "graph_from_dict R d =
     res_bind (packs_of R d) (\<lambda>packs.
     res_bind (items_of R (read_entity R) ''entity_id'' d ''entities'') (\<lambda>x0.
     res_bind (items_of R (relationship_of R) ''relationship_id'' d ''relationships'') (\<lambda>x1.
     res_bind (items_of R (measurement_of R) ''measurement_id'' d ''measurements'') (\<lambda>x2.
     res_bind (items_of R (observation_of R) ''observation_id'' d ''observations'') (\<lambda>x3.
     res_bind (items_of R (read_action R) ''action_id'' d ''actions'') (\<lambda>x4.
     res_bind (items_of R (document_of R) ''document_id'' d ''documents'') (\<lambda>x5.
     res_bind (items_of R (location_of R) ''location_id'' d ''locations'') (\<lambda>x6.
     res_bind (items_of R (state_of R) ''state_id'' d ''states'') (\<lambda>x7.
     res_bind (items_of R (workflow_of R) ''workflow_id'' d ''workflows'') (\<lambda>x8.
     res_bind (items_of R (event_of R) ''event_id'' d ''events'') (\<lambda>x9.
       Inr \<lparr>gr_packs = packs, gr_entities = x0, gr_relationships = x1, gr_measurements = x2, gr_observations = x3, gr_actions = x4, gr_documents = x5, gr_locations = x6, gr_states = x7, gr_workflows = x8, gr_events = x9\<rparr>)))))))))))"

definition clone :: "pyrt \<Rightarrow> sem_graph \<Rightarrow> string + sem_graph" where
  "clone R g = graph_from_dict R (graph_to_dict g)"

definition empty_graph :: sem_graph where
  "empty_graph = \<lparr>gr_packs = [], gr_entities = [], gr_relationships = [], gr_measurements = [], gr_observations = [], gr_actions = [],
     gr_documents = [], gr_locations = [], gr_states = [], gr_workflows = [], gr_events = []\<rparr>"

definition platform_primitives :: "string list" where
  "platform_primitives =
     [''Entity'', ''Relationship'', ''Event'', ''Observation'', ''Measurement'', ''State'', ''Action'', ''Document'', ''Location'', ''Policy'',
      ''Time'', ''Workflow'', ''Schema'', ''Lineage'']"

definition default_packs :: "sem_pack list" where
  "default_packs =
     [\<lparr>op_id = ''platform.core'', op_name = ''Platform Core'', op_layer = ''platform'', op_version = ''1.0'', op_concepts = platform_primitives,
       op_notes = [''Universal primitives used by every installation.'']\<rparr>,
      \<lparr>op_id = ''industry.manufacturing'', op_name = ''Manufacturing Pack'', op_layer = ''industry'', op_version = ''1.0'',
       op_concepts = [''Site'', ''Area'', ''Line'', ''Cell'', ''Asset'', ''Tag'', ''Shift'', ''Batch'', ''Recipe'', ''Machine'', ''Operator'',
         ''WorkOrder'', ''Product'', ''OEE''],
       op_notes = [''First domain pack for the current industrial app.'']\<rparr>]"

definition default_graph :: sem_graph where
  "default_graph = empty_graph\<lparr>gr_packs := default_packs\<rparr>"

section \<open>Search\<close>

definition query_tokens :: "string \<Rightarrow> string list" where
  "query_tokens query =
     remdups (map py_lower (py_words (map (\<lambda>c. if c = CHR ''/'' \<or> c = CHR ''-'' then CHR '' '' else c) query)))"

definition meta_terms :: "pyrt \<Rightarrow> pydict \<Rightarrow> string list" where
  "meta_terms R m = map (\<lambda>(_, v). py_lower (py_str R v)) (filter (\<lambda>(_, v). v \<noteq> PNone) m)"

definition token_score :: "string list \<Rightarrow> string \<Rightarrow> nat" where
  "token_score terms token =
     (if token \<in> set terms then 3
      else if list_ex (\<lambda>t. contains t token \<or> contains token t) terms then 1 else 0)"

definition match_score :: "string list \<Rightarrow> string list \<Rightarrow> nat" where
  "match_score terms tokens = sum_list (map (token_score terms) tokens)"

definition site_match :: "pyrt \<Rightarrow> string option \<Rightarrow> pydict \<Rightarrow> bool" where
  "site_match R site m =
     (case site of
        Some (c # cs) \<Rightarrow> py_lower (field_text R m ''site_id'' []) = py_lower (c # cs)
      | _ \<Rightarrow> True)"

text \<open>The matches by descending score, then identifier: at least one is asked for.\<close>

definition rank_matches ::
    "pyrt \<Rightarrow> ('a \<Rightarrow> string list) \<Rightarrow> ('a \<Rightarrow> string) \<Rightarrow> ('a \<Rightarrow> pydict) \<Rightarrow> string \<Rightarrow> int \<Rightarrow> string option \<Rightarrow> 'a list \<Rightarrow> 'a list" where
  "rank_matches R terms key meta query limit site xs =
     (let score = (\<lambda>x. match_score (terms x) (query_tokens query))
      in take (nat (max 1 limit))
           (sort_key (\<lambda>x. (- int (score x), key x)) (filter (\<lambda>x. site_match R site (meta x) \<and> 0 < score x) xs)))"

definition entity_terms :: "pyrt \<Rightarrow> sem_entity \<Rightarrow> string list" where
  "entity_terms R e = map py_lower ([se_id e, se_type e, se_name e] @ se_labels e) @ meta_terms R (se_meta e)"

definition relationship_terms :: "pyrt \<Rightarrow> sem_relationship \<Rightarrow> string list" where
  "relationship_terms R r = map py_lower [sr_id r, sr_type r, sr_source r, sr_target r] @ meta_terms R (sr_meta r)"

definition search_entities :: "pyrt \<Rightarrow> string \<Rightarrow> int \<Rightarrow> string option \<Rightarrow> sem_graph \<Rightarrow> sem_entity list" where
  "search_entities R query limit site g = rank_matches R (entity_terms R) se_id se_meta query limit site (values_of (gr_entities g))"

definition search_relationships :: "pyrt \<Rightarrow> string \<Rightarrow> int \<Rightarrow> string option \<Rightarrow> sem_graph \<Rightarrow> sem_relationship list" where
  "search_relationships R query limit site g =
     rank_matches R (relationship_terms R) sr_id sr_meta query limit site (values_of (gr_relationships g))"

definition graph_search :: "pyrt \<Rightarrow> string \<Rightarrow> int \<Rightarrow> string option \<Rightarrow> sem_graph \<Rightarrow> sem_entity list \<times> sem_relationship list" where
  "graph_search R query limit site g = (search_entities R query limit site g, search_relationships R query limit site g)"

section \<open>The graph of a hierarchy\<close>

definition add_graph_entity :: "sem_entity \<Rightarrow> sem_graph \<Rightarrow> sem_graph" where
  "add_graph_entity e g = g\<lparr>gr_entities := dict_set (gr_entities g) (se_id e) e\<rparr>"

definition add_graph_relationship :: "sem_relationship \<Rightarrow> sem_graph \<Rightarrow> sem_graph" where
  "add_graph_relationship r g = g\<lparr>gr_relationships := dict_set (gr_relationships g) (sr_id r) r\<rparr>"

definition add_graph_measurement :: "sem_measurement \<Rightarrow> sem_graph \<Rightarrow> sem_graph" where
  "add_graph_measurement m g = g\<lparr>gr_measurements := dict_set (gr_measurements g) (sm_id m) m\<rparr>"

definition add_graph_location :: "sem_location \<Rightarrow> sem_graph \<Rightarrow> sem_graph" where
  "add_graph_location l g = g\<lparr>gr_locations := dict_set (gr_locations g) (sl_id l) l\<rparr>"

definition add_graph_document :: "sem_document \<Rightarrow> sem_graph \<Rightarrow> sem_graph" where
  "add_graph_document x g = g\<lparr>gr_documents := dict_set (gr_documents g) (sd_id x) x\<rparr>"

definition node_path :: "string list \<Rightarrow> string" where
  "node_path parts = join ''/'' (filter (\<lambda>p. p \<noteq> []) parts)"

definition str_meta :: "(string \<times> string) list \<Rightarrow> pydict" where
  "str_meta kvs = map (\<lambda>(k, v). (k, PStr v)) kvs"

definition contains_edge :: "string \<Rightarrow> string \<Rightarrow> string \<Rightarrow> sem_relationship" where
  "contains_edge parent child layer =
     \<lparr>sr_id = parent @ ''->contains->'' @ child, sr_source = parent, sr_target = child, sr_type = ''contains'', sr_meta = str_meta [(''layer'', layer)]\<rparr>"

definition hierarchy_entity :: "string \<Rightarrow> string \<Rightarrow> string \<Rightarrow> (string \<times> string) list \<Rightarrow> sem_entity" where
  "hierarchy_entity i kind name meta = \<lparr>se_id = i, se_type = kind, se_name = name, se_labels = [kind], se_meta = str_meta ((''source_type'', kind) # meta)\<rparr>"

definition hierarchy_location :: "string \<Rightarrow> string \<Rightarrow> string \<Rightarrow> pyval \<Rightarrow> string \<Rightarrow> sem_location" where
  "hierarchy_location i kind name parent site =
     \<lparr>sl_id = i, sl_name = name, sl_type = kind, sl_parent = parent, sl_meta = str_meta [(''source_type'', kind), (''site_id'', site)]\<rparr>"

definition add_tag :: "string \<Rightarrow> string \<Rightarrow> string \<Rightarrow> plant_asset \<Rightarrow> sem_graph \<Rightarrow> plant_tag \<Rightarrow> sem_graph" where
  "add_tag asset_id site line a g t =
     (let m = node_path [asset_id, ''measurement'', pt_id t] in
      add_graph_relationship
        \<lparr>sr_id = asset_id @ ''->defines_measurement->'' @ m, sr_source = asset_id, sr_target = m, sr_type = ''defines_measurement'',
         sr_meta = str_meta [(''layer'', ''measurement'')]\<rparr>
      (add_graph_measurement
        \<lparr>sm_id = m, sm_entity = asset_id, sm_name = pt_name t, sm_unit = pt_unit t, sm_min = PFloat (pt_min t), sm_max = PFloat (pt_max t),
         sm_warning_low = PFloat (pt_warning_low t), sm_warning_high = PFloat (pt_warning_high t), sm_critical_low = PFloat (pt_critical_low t),
         sm_critical_high = PFloat (pt_critical_high t), sm_rate = PFloat (pt_rate t),
         sm_meta = str_meta [(''source_tag_id'', pt_id t), (''source_asset_id'', pa_id a), (''site_id'', site), (''line_id'', line)]\<rparr> g))"

definition add_asset_node :: "string \<Rightarrow> string \<Rightarrow> string \<Rightarrow> string \<Rightarrow> sem_graph \<Rightarrow> plant_asset \<Rightarrow> sem_graph" where
  "add_asset_node cell_id site line cell g a =
     (let i = node_path [cell_id, ''asset'', pa_id a] in
      foldl (add_tag i site line a)
        (add_graph_relationship (contains_edge cell_id i ''asset'')
           (add_graph_entity
              \<lparr>se_id = i, se_type = (if pa_type a = [] then ''asset'' else pa_type a), se_name = pa_name a,
               se_labels = (if pa_type a = [] then [''asset''] else [pa_type a, ''asset'']),
               se_meta = str_meta [(''source_type'', ''asset''), (''source_asset_id'', pa_id a), (''site_id'', site), (''line_id'', line), (''cell_id'', cell)]\<rparr> g))
        (values_of (pa_tags a)))"

definition add_cell_node :: "string \<Rightarrow> string \<Rightarrow> string \<Rightarrow> sem_graph \<Rightarrow> plant_cell \<Rightarrow> sem_graph" where
  "add_cell_node line_id site line g c =
     (let i = node_path [line_id, ''cell'', pc_id c] in
      foldl (add_asset_node i site line (pc_id c))
        (add_graph_relationship (contains_edge line_id i ''location'')
           (add_graph_entity (hierarchy_entity i ''cell'' (pc_name c) [(''site_id'', site), (''line_id'', line)]) g))
        (values_of (pc_assets c)))"

definition add_line_node :: "string \<Rightarrow> string \<Rightarrow> string \<Rightarrow> sem_graph \<Rightarrow> plant_line \<Rightarrow> sem_graph" where
  "add_line_node area_id site area g l =
     (let i = node_path [area_id, ''line'', pl_id l] in
      foldl (add_cell_node i site (pl_id l))
        (add_graph_relationship (contains_edge area_id i ''location'')
           (add_graph_entity (hierarchy_entity i ''line'' (pl_name l) [(''site_id'', site), (''area_id'', area)])
              (add_graph_location (hierarchy_location i ''line'' (pl_name l) (PStr area_id) site) g)))
        (values_of (pl_cells l)))"

definition add_area_node :: "string \<Rightarrow> string \<Rightarrow> sem_graph \<Rightarrow> plant_area \<Rightarrow> sem_graph" where
  "add_area_node site_key site g a =
     (let i = node_path [site_key, ''area'', pr_id a] in
      foldl (add_line_node i site (pr_id a))
        (add_graph_relationship (contains_edge site_key i ''location'')
           (add_graph_entity (hierarchy_entity i ''area'' (pr_name a) [(''site_id'', site)])
              (add_graph_location (hierarchy_location i ''area'' (pr_name a) (PStr site_key) site) g)))
        (values_of (pr_lines a)))"

definition add_site_node :: "sem_graph \<Rightarrow> plant_site \<Rightarrow> sem_graph" where
  "add_site_node g s =
     (let i = node_path [''site'', ps_id s] in
      foldl (add_area_node i (ps_id s))
        (add_graph_entity (hierarchy_entity i ''site'' (ps_name s) [(''site_id'', ps_id s)])
           (add_graph_location (hierarchy_location i ''site'' (ps_name s) PNone (ps_id s)) g))
        (values_of (ps_areas s)))"

definition graph_of_hierarchy :: "string \<Rightarrow> plant \<Rightarrow> sem_graph" where
  "graph_of_hierarchy uri h =
     foldl add_site_node
       (add_graph_document \<lparr>sd_id = ''document:'' @ uri, sd_title = ''Asset hierarchy source'', sd_type = ''configuration'', sd_uri = uri,
          sd_meta = str_meta [(''source_uri'', uri)]\<rparr> default_graph)
       (values_of h)"

section \<open>Reading back what was written\<close>

lemma field_text_Cons [codec_simps]: "field_text R ((j, v) # d) k dflt = (if j = k then py_str R v else field_text R d k dflt)"
  by (simp add: field_text_def dict_getd_def)

lemma texts_of_Cons [codec_simps]:
  "texts_of R ((j, v) # d) k = (if j = k then map (py_str R) (filter truthy (list_of v)) else texts_of R d k)"
  by (simp add: texts_of_def dict_getd_def)

lemma meta_of_Cons [codec_simps]: "meta_of ((j, PDict m) # d) k = (if j = k then Inr m else meta_of d k)"
  by (simp add: meta_of_def dict_getd_def)

lemma meta_of_skip [codec_simps]: "j \<noteq> k \<Longrightarrow> meta_of ((j, v) # d) k = meta_of d k"
  by (simp add: meta_of_def dict_getd_def)

lemma pget_head [codec_simps]: "pget ((j, v) # d) k = (if j = k then v else pget d k)"
  by (simp add: pget_def dict_getd_def)

lemma texts_back [codec_simps]: "list_all (\<lambda>s. s \<noteq> []) xs \<Longrightarrow> map (py_str R) (filter truthy (list_of (PList (map PStr xs)))) = xs"
  by (induction xs) (auto simp: list_of_def)

text \<open>What reading a collection back needs of a class: its key, its dictionary and its constructor.\<close>

definition collection_ok :: "('a \<Rightarrow> string) \<Rightarrow> ('a \<Rightarrow> bool) \<Rightarrow> (string \<times> 'a) list \<Rightarrow> bool" where
  "collection_ok key_of ok items = (wf_dict items \<and> list_all (\<lambda>(k, x). k = key_of x \<and> k \<noteq> [] \<and> ok x) items)"

lemma collection_ok_Nil [simp]: "collection_ok key_of ok []"
  by (simp add: collection_ok_def)

lemma collection_ok_set:
  assumes "collection_ok key_of ok items" "ok x" "key_of x \<noteq> []"
  shows "collection_ok key_of ok (dict_set items (key_of x) x)"
proof -
  show ?thesis using assms set_dict_set [where d = items and k = "key_of x" and v = x] by (auto simp: collection_ok_def list_all_iff distinct_update)
qed

locale item_codec =
  fixes key_of :: "'a \<Rightarrow> string"
    and enc :: "'a \<Rightarrow> pydict"
    and dec :: "pydict \<Rightarrow> string + 'a"
    and key :: string
    and ok :: "'a \<Rightarrow> bool"
  assumes dec_enc: "ok x \<Longrightarrow> dec (enc x) = Inr x"
    and enc_key: "map_of (enc x) key = Some (PStr (key_of x))"
begin

lemma read_back:
  "collection_ok key_of ok (acc @ items) \<Longrightarrow> read_items R dec key acc (map (PDict \<circ> enc) (values_of items)) = Inr (acc @ items)"
proof (induction items arbitrary: acc)
  case (Cons p items)
  obtain k x where p: "p = (k, x)" by (cases p)
  have x: "k = key_of x" "k \<noteq> []" "ok x" "k \<notin> set (map fst acc)" using Cons.prems p by (auto simp: collection_ok_def)
  have "dict_set acc k x = acc @ [(k, x)]" using x(4) by (induction acc) auto
  moreover have "collection_ok key_of ok ((acc @ [(k, x)]) @ items)" using Cons.prems p by simp
  ultimately show ?case using Cons.IH [of "acc @ [(k, x)]"] x p dec_enc [of x] enc_key [of x]
    by (simp add: values_of_def pget_def dict_getd_def field_text_def)
qed (simp add: values_of_def)

lemma items_back:
  "collection_ok key_of ok items \<Longrightarrow> map_of d name = Some (items_list enc items) \<Longrightarrow> items_of R dec key d name = Inr items"
  using read_back [of "[]" items] by (simp add: items_of_def items_list_def dict_getd_def)

end

interpretation entity_codec: item_codec "se_id" "entity_dict" "read_entity R" "''entity_id''" "\<lambda>x. list_all (\<lambda>s. s \<noteq> []) (se_labels x)" for R
  by unfold_locales (simp_all add: entity_dict_def read_entity_def codec_simps)

interpretation relationship_codec: item_codec "sr_id" "relationship_dict" "relationship_of R" "''relationship_id''" "\<lambda>x. True" for R
  by unfold_locales (simp_all add: relationship_dict_def relationship_of_def codec_simps)

interpretation measurement_codec: item_codec "sm_id" "measurement_dict" "measurement_of R" "''measurement_id''" "\<lambda>x. True" for R
  by unfold_locales (simp_all add: measurement_dict_def measurement_of_def codec_simps)

interpretation observation_codec: item_codec "so_id" "observation_dict" "observation_of R" "''observation_id''" "\<lambda>x. True" for R
  by unfold_locales (simp_all add: observation_dict_def observation_of_def codec_simps)

interpretation action_codec: item_codec "sa_id" "action_dict" "read_action R" "''action_id''" "\<lambda>x. True" for R
  by unfold_locales (simp_all add: action_dict_def read_action_def codec_simps)

interpretation document_codec: item_codec "sd_id" "document_dict" "document_of R" "''document_id''" "\<lambda>x. True" for R
  by unfold_locales (simp_all add: document_dict_def document_of_def codec_simps)

interpretation location_codec: item_codec "sl_id" "location_dict" "location_of R" "''location_id''" "\<lambda>x. True" for R
  by unfold_locales (simp_all add: location_dict_def location_of_def codec_simps)

interpretation state_codec: item_codec "ss_id" "state_dict" "state_of R" "''state_id''" "\<lambda>x. True" for R
  by unfold_locales (simp_all add: state_dict_def state_of_def codec_simps)

interpretation workflow_codec: item_codec "sf_id" "workflow_dict" "workflow_of R" "''workflow_id''" "\<lambda>x. True" for R
  by unfold_locales (simp_all add: workflow_dict_def workflow_of_def codec_simps)

interpretation event_codec: item_codec "sv_id" "event_dict" "event_of R" "''event_id''" "\<lambda>x. True" for R
  by unfold_locales (simp_all add: event_dict_def event_of_def codec_simps)

definition pack_ok :: "sem_pack \<Rightarrow> bool" where
  "pack_ok p = (op_id p \<noteq> [] \<and> list_all (\<lambda>s. s \<noteq> []) (op_concepts p) \<and> list_all (\<lambda>s. s \<noteq> []) (op_notes p))"

lemma packs_back: "list_all pack_ok ps \<Longrightarrow> read_packs R (map (PDict \<circ> pack_dict) ps) = Inr ps"
  by (induction ps) (auto simp: pack_ok_def pack_of_def pack_dict_def codec_simps)

definition graph_ok :: "sem_graph \<Rightarrow> bool" where
  "graph_ok g =
     (list_all pack_ok (gr_packs g)
      \<and> collection_ok se_id (\<lambda>x. list_all (\<lambda>s. s \<noteq> []) (se_labels x)) (gr_entities g)
      \<and> collection_ok sr_id (\<lambda>_. True) (gr_relationships g) \<and> collection_ok sm_id (\<lambda>_. True) (gr_measurements g)
      \<and> collection_ok so_id (\<lambda>_. True) (gr_observations g) \<and> collection_ok sa_id (\<lambda>_. True) (gr_actions g)
      \<and> collection_ok sd_id (\<lambda>_. True) (gr_documents g) \<and> collection_ok sl_id (\<lambda>_. True) (gr_locations g)
      \<and> collection_ok ss_id (\<lambda>_. True) (gr_states g) \<and> collection_ok sf_id (\<lambda>_. True) (gr_workflows g)
      \<and> collection_ok sv_id (\<lambda>_. True) (gr_events g))"

lemma graph_read_back:
  assumes "graph_ok g" shows "graph_from_dict R (graph_to_dict g) = Inr g"
proof -
  let ?d = "graph_to_dict g"
  have look: "map_of ?d ''ontology_packs'' = Some (PList (map (PDict \<circ> pack_dict) (gr_packs g)))"
    "map_of ?d ''entities'' = Some (items_list entity_dict (gr_entities g))"
    "map_of ?d ''relationships'' = Some (items_list relationship_dict (gr_relationships g))"
    "map_of ?d ''measurements'' = Some (items_list measurement_dict (gr_measurements g))"
    "map_of ?d ''observations'' = Some (items_list observation_dict (gr_observations g))"
    "map_of ?d ''actions'' = Some (items_list action_dict (gr_actions g))"
    "map_of ?d ''documents'' = Some (items_list document_dict (gr_documents g))"
    "map_of ?d ''locations'' = Some (items_list location_dict (gr_locations g))"
    "map_of ?d ''states'' = Some (items_list state_dict (gr_states g))"
    "map_of ?d ''workflows'' = Some (items_list workflow_dict (gr_workflows g))"
    "map_of ?d ''events'' = Some (items_list event_dict (gr_events g))"
    by (simp_all add: graph_to_dict_def)
  have packs: "packs_of R ?d = Inr (gr_packs g)"
    using packs_back [of "gr_packs g" R] assms by (simp add: packs_of_def dict_getd_def look(1) graph_ok_def)
  note ok = assms [unfolded graph_ok_def]
  show ?thesis unfolding graph_from_dict_def packs
    using entity_codec.items_back [OF _ look(2), of R] relationship_codec.items_back [OF _ look(3), of R]
      measurement_codec.items_back [OF _ look(4), of R] observation_codec.items_back [OF _ look(5), of R]
      action_codec.items_back [OF _ look(6), of R] document_codec.items_back [OF _ look(7), of R]
      location_codec.items_back [OF _ look(8), of R] state_codec.items_back [OF _ look(9), of R]
      workflow_codec.items_back [OF _ look(10), of R] event_codec.items_back [OF _ look(11), of R] ok
    by simp
qed

section \<open>The graph of a hierarchy is closed\<close>

definition has_entity :: "sem_graph \<Rightarrow> string \<Rightarrow> bool" where
  "has_entity g k = (k \<in> set (map fst (gr_entities g)))"

definition has_location :: "sem_graph \<Rightarrow> string \<Rightarrow> bool" where
  "has_location g k = (k \<in> set (map fst (gr_locations g)))"

definition has_measurement :: "sem_graph \<Rightarrow> string \<Rightarrow> bool" where
  "has_measurement g k = (k \<in> set (map fst (gr_measurements g)))"

text \<open>No dangling identifiers.\<close>

definition graph_closed :: "sem_graph \<Rightarrow> bool" where
  "graph_closed g =
     ((\<forall>r \<in> set (values_of (gr_relationships g)). has_entity g (sr_source r) \<and> (has_entity g (sr_target r) \<or> has_measurement g (sr_target r)))
      \<and> (\<forall>m \<in> set (values_of (gr_measurements g)). has_entity g (sm_entity m))
      \<and> (\<forall>l \<in> set (values_of (gr_locations g)). sl_parent l = PNone \<or> (\<exists>p. sl_parent l = PStr p \<and> has_location g p)))"

lemma values_set: "set (values_of (dict_set d k v)) \<subseteq> insert v (set (values_of d))"
  unfolding values_of_def by (induction d) auto

lemma keys_set: "set (map fst (dict_set d k v)) = insert k (set (map fst d))"
  by (induction d) auto

definition sound :: "sem_graph \<Rightarrow> bool" where
  "sound g = (graph_ok g \<and> graph_closed g)"

text \<open>A sound graph with given entities and locations.\<close>

definition holds_nodes :: "string set \<Rightarrow> string set \<Rightarrow> sem_graph \<Rightarrow> bool" where
  "holds_nodes E L g = (sound g \<and> (\<forall>k \<in> E. has_entity g k) \<and> (\<forall>k \<in> L. has_location g k))"

lemma holds_mono: "holds_nodes E L g \<Longrightarrow> E' \<subseteq> E \<Longrightarrow> L' \<subseteq> L \<Longrightarrow> holds_nodes E' L' g"
  by (auto simp: holds_nodes_def)

lemma has_simps [simp]:
  "has_entity (add_graph_entity e g) k = (k = se_id e \<or> has_entity g k)"
  "has_entity (add_graph_relationship r g) k = has_entity g k" "has_entity (add_graph_measurement m g) k = has_entity g k"
  "has_entity (add_graph_location l g) k = has_entity g k" "has_entity (add_graph_document d g) k = has_entity g k"
  "has_location (add_graph_entity e g) k = has_location g k" "has_location (add_graph_relationship r g) k = has_location g k"
  "has_location (add_graph_measurement m g) k = has_location g k" "has_location (add_graph_location l g) k = (k = sl_id l \<or> has_location g k)"
  "has_location (add_graph_document d g) k = has_location g k"
  "has_measurement (add_graph_entity e g) k = has_measurement g k" "has_measurement (add_graph_relationship r g) k = has_measurement g k"
  "has_measurement (add_graph_measurement m g) k = (k = sm_id m \<or> has_measurement g k)"
  "has_measurement (add_graph_location l g) k = has_measurement g k" "has_measurement (add_graph_document d g) k = has_measurement g k"
  by (simp_all add: has_entity_def has_location_def has_measurement_def keys_set [simplified] add_graph_entity_def add_graph_relationship_def
      add_graph_measurement_def add_graph_location_def add_graph_document_def)

lemma add_entity_holds:
  assumes "holds_nodes E L g" "se_id e = i" "i \<noteq> []" "list_all (\<lambda>s. s \<noteq> []) (se_labels e)"
  shows "holds_nodes (insert i E) L (add_graph_entity e g)"
proof -
  have "graph_ok (add_graph_entity e g)"
    using assms collection_ok_set [of se_id "\<lambda>x. list_all (\<lambda>s. s \<noteq> []) (se_labels x)" "gr_entities g" e]
    by (simp add: holds_nodes_def sound_def graph_ok_def add_graph_entity_def)
  moreover have "gr_relationships (add_graph_entity e g) = gr_relationships g" "gr_measurements (add_graph_entity e g) = gr_measurements g"
    "gr_locations (add_graph_entity e g) = gr_locations g" by (simp_all add: add_graph_entity_def)
  ultimately show ?thesis using assms(1,2) by (auto simp: holds_nodes_def sound_def graph_closed_def)
qed

lemma add_location_holds:
  assumes "holds_nodes E L g" "sl_parent l = PNone \<or> (\<exists>p. sl_parent l = PStr p \<and> p \<in> L)" "sl_id l = i" "i \<noteq> []"
  shows "holds_nodes E (insert i L) (add_graph_location l g)"
proof -
  have "graph_ok (add_graph_location l g)"
    using assms collection_ok_set [of sl_id "\<lambda>_. True" "gr_locations g" l]
    by (simp add: holds_nodes_def sound_def graph_ok_def add_graph_location_def)
  moreover have "gr_relationships (add_graph_location l g) = gr_relationships g" "gr_measurements (add_graph_location l g) = gr_measurements g"
    "set (values_of (gr_locations (add_graph_location l g))) \<subseteq> insert l (set (values_of (gr_locations g)))"
    using values_set by (simp_all add: add_graph_location_def)
  ultimately show ?thesis using assms(1-3) unfolding holds_nodes_def sound_def graph_closed_def by (auto 0 3)
qed

lemma add_measurement_holds:
  assumes "holds_nodes E L g" "sm_id m \<noteq> []" "sm_entity m \<in> E"
  shows "holds_nodes E L (add_graph_measurement m g)"
proof -
  have "graph_ok (add_graph_measurement m g)"
    using assms collection_ok_set [of sm_id "\<lambda>_. True" "gr_measurements g" m]
    by (simp add: holds_nodes_def sound_def graph_ok_def add_graph_measurement_def)
  moreover have "gr_relationships (add_graph_measurement m g) = gr_relationships g" "gr_locations (add_graph_measurement m g) = gr_locations g"
    "set (values_of (gr_measurements (add_graph_measurement m g))) \<subseteq> insert m (set (values_of (gr_measurements g)))"
    using values_set by (simp_all add: add_graph_measurement_def)
  ultimately show ?thesis using assms(1,3) unfolding holds_nodes_def sound_def graph_closed_def by (auto 0 3)
qed

lemma add_relationship_holds:
  assumes "holds_nodes E L g" "sr_id r \<noteq> []" "sr_source r \<in> E" "sr_target r \<in> E \<or> has_measurement g (sr_target r)"
  shows "holds_nodes E L (add_graph_relationship r g)"
proof -
  have "graph_ok (add_graph_relationship r g)"
    using assms collection_ok_set [of sr_id "\<lambda>_. True" "gr_relationships g" r]
    by (simp add: holds_nodes_def sound_def graph_ok_def add_graph_relationship_def)
  moreover have "gr_measurements (add_graph_relationship r g) = gr_measurements g" "gr_locations (add_graph_relationship r g) = gr_locations g"
    "set (values_of (gr_relationships (add_graph_relationship r g))) \<subseteq> insert r (set (values_of (gr_relationships g)))"
    using values_set by (simp_all add: add_graph_relationship_def)
  ultimately show ?thesis using assms(1,3,4) unfolding holds_nodes_def sound_def graph_closed_def by (auto 0 3)
qed

lemma fold_holds:
  assumes "holds_nodes E L g" "\<And>g x. holds_nodes E L g \<Longrightarrow> x \<in> set xs \<Longrightarrow> holds_nodes E L (f g x)"
  shows "holds_nodes E L (foldl f g xs)"
  using assms by (induction xs arbitrary: g) auto

lemma join_Cons_nonempty: "p \<noteq> [] \<Longrightarrow> join sep (p # ps) \<noteq> []"
  by (cases ps) auto

lemma node_path_nonempty: "p \<noteq> [] \<Longrightarrow> node_path (p # ps) \<noteq> []"
  by (simp add: node_path_def join_Cons_nonempty)

lemma add_tag_holds:
  assumes "holds_nodes E L g" "asset \<in> E" "asset \<noteq> []"
  shows "holds_nodes E L (add_tag asset site line a g t)"
  unfolding add_tag_def Let_def
  by (rule add_relationship_holds, rule add_measurement_holds [OF assms(1)]) (use assms node_path_nonempty in simp_all)

lemma add_asset_holds:
  assumes "holds_nodes E L g" "cell_id \<in> E" "cell_id \<noteq> []"
  shows "holds_nodes E L (add_asset_node cell_id site line cell g a)"
proof -
  let ?i = "node_path [cell_id, ''asset'', pa_id a]"
  have i: "?i \<noteq> []" using assms(3) by (rule node_path_nonempty)
  show ?thesis unfolding add_asset_node_def Let_def
    by (rule holds_mono [of "insert ?i E" L], rule fold_holds, rule add_relationship_holds)
      (use assms i in \<open>auto simp: contains_edge_def intro!: add_entity_holds add_tag_holds\<close>)
qed

lemma add_cell_holds:
  assumes "holds_nodes E L g" "line_id \<in> E" "line_id \<noteq> []"
  shows "holds_nodes E L (add_cell_node line_id site line g c)"
proof -
  let ?i = "node_path [line_id, ''cell'', pc_id c]"
  have i: "?i \<noteq> []" using assms(3) by (rule node_path_nonempty)
  show ?thesis unfolding add_cell_node_def Let_def
    by (rule holds_mono [of "insert ?i E" L], rule fold_holds, rule add_relationship_holds)
      (use assms i in \<open>auto simp: contains_edge_def hierarchy_entity_def intro!: add_entity_holds add_asset_holds\<close>)
qed

lemma add_line_holds:
  assumes "holds_nodes E L g" "area_id \<in> E" "area_id \<in> L" "area_id \<noteq> []"
  shows "holds_nodes E L (add_line_node area_id site area g l)"
proof -
  let ?i = "node_path [area_id, ''line'', pl_id l]"
  have i: "?i \<noteq> []" using assms(4) by (rule node_path_nonempty)
  show ?thesis unfolding add_line_node_def Let_def
    by (rule holds_mono [of "insert ?i E" "insert ?i L"], rule fold_holds, rule add_relationship_holds)
      (use assms i in \<open>auto simp: contains_edge_def hierarchy_entity_def hierarchy_location_def
         intro!: add_entity_holds add_location_holds add_cell_holds\<close>)
qed

lemma add_area_holds:
  assumes "holds_nodes E L g" "site_key \<in> E" "site_key \<in> L" "site_key \<noteq> []"
  shows "holds_nodes E L (add_area_node site_key site g a)"
proof -
  let ?i = "node_path [site_key, ''area'', pr_id a]"
  have i: "?i \<noteq> []" using assms(4) by (rule node_path_nonempty)
  show ?thesis unfolding add_area_node_def Let_def
    by (rule holds_mono [of "insert ?i E" "insert ?i L"], rule fold_holds, rule add_relationship_holds)
      (use assms i in \<open>auto simp: contains_edge_def hierarchy_entity_def hierarchy_location_def
         intro!: add_entity_holds add_location_holds add_line_holds\<close>)
qed

lemma add_site_holds:
  assumes "holds_nodes E L g" shows "holds_nodes E L (add_site_node g s)"
proof -
  let ?i = "node_path [''site'', ps_id s]"
  have i: "?i \<noteq> []" by (rule node_path_nonempty) simp
  show ?thesis unfolding add_site_node_def Let_def
    by (rule holds_mono [of "insert ?i E" "insert ?i L"], rule fold_holds)
      (use assms i in \<open>auto simp: hierarchy_entity_def hierarchy_location_def
         intro!: add_entity_holds add_location_holds add_area_holds\<close>)
qed

lemma default_graph_sound: "holds_nodes {} {} (add_graph_document d default_graph)" if "sd_id d \<noteq> []"
proof -
  have "list_all pack_ok default_packs" by code_simp
  moreover have "collection_ok sd_id (\<lambda>_. True) (dict_set [] (sd_id d) d)"
    by (rule collection_ok_set) (use that in simp_all)
  ultimately show ?thesis
    by (simp add: holds_nodes_def sound_def graph_ok_def graph_closed_def add_graph_document_def default_graph_def empty_graph_def values_of_def)
qed

lemma hierarchy_sound: "sound (graph_of_hierarchy uri h)"
proof -
  have "holds_nodes {} {} (graph_of_hierarchy uri h)" unfolding graph_of_hierarchy_def
    by (rule fold_holds, rule default_graph_sound) (auto intro: add_site_holds)
  then show ?thesis by (simp add: holds_nodes_def)
qed

text \<open>Claim C18. The graph of any hierarchy has no dangling identifier: every relationship joins an entity to an
  entity or a measurement of the graph, every measurement has its entity and every location its parent.\<close>

theorem hierarchy_graph_closed:
  "(\<forall>r \<in> set (values_of (gr_relationships (graph_of_hierarchy uri h))).
      has_entity (graph_of_hierarchy uri h) (sr_source r)
      \<and> (has_entity (graph_of_hierarchy uri h) (sr_target r) \<or> has_measurement (graph_of_hierarchy uri h) (sr_target r)))
   \<and> (\<forall>m \<in> set (values_of (gr_measurements (graph_of_hierarchy uri h))). has_entity (graph_of_hierarchy uri h) (sm_entity m))
   \<and> (\<forall>l \<in> set (values_of (gr_locations (graph_of_hierarchy uri h))).
        sl_parent l = PNone \<or> (\<exists>p. sl_parent l = PStr p \<and> has_location (graph_of_hierarchy uri h) p))"
  using conjunct2 [OF hierarchy_sound [of uri h, unfolded sound_def]] unfolding graph_closed_def .

theorem hierarchy_graph_closed_witness:
  "length (gr_relationships (graph_of_hierarchy ''f'' demo_plant)) = 5
   \<and> has_entity (graph_of_hierarchy ''f'' demo_plant) (sm_entity (hd (values_of (gr_measurements (graph_of_hierarchy ''f'' demo_plant)))))"
proof
  show "length (gr_relationships (graph_of_hierarchy ''f'' demo_plant)) = 5" by code_simp
  have "values_of (gr_measurements (graph_of_hierarchy ''f'' demo_plant)) \<noteq> []" by code_simp
  then have "hd (values_of (gr_measurements (graph_of_hierarchy ''f'' demo_plant)))
      \<in> set (values_of (gr_measurements (graph_of_hierarchy ''f'' demo_plant)))" by (rule hd_in_set)
  then show "has_entity (graph_of_hierarchy ''f'' demo_plant)
      (sm_entity (hd (values_of (gr_measurements (graph_of_hierarchy ''f'' demo_plant)))))"
    using hierarchy_graph_closed [of "''f''" demo_plant] by blast
qed

text \<open>A graph whose items are keyed by their non-empty identifiers is what \<open>clone\<close>, and reading the
  dictionary of the graph back, returns: nothing is lost, merged or reordered, for all eleven collections.\<close>

theorem clone_roundtrip:
  assumes "graph_ok g" shows "clone R g = Inr g"
  unfolding clone_def by (rule graph_read_back [OF assms])

theorem clone_roundtrip_witness:
  "clone demo_rt (graph_of_hierarchy ''f'' demo_plant) = Inr (graph_of_hierarchy ''f'' demo_plant)"
  by (rule clone_roundtrip) (use hierarchy_sound in \<open>simp only: sound_def\<close>)

section \<open>Search\<close>

lemma sorted_take_map: "sorted (map f xs) \<Longrightarrow> sorted (map f (take n xs))"
  by (simp add: take_map [symmetric] sorted_wrt_take)

text \<open>A search returns at most the asked number of entities (one at least), all of the graph, of the asked
  site and with a positive score, best first and by identifier among equals; a match that was left out does
  not rank before any that was returned.\<close>

theorem search_ranked:
  assumes "es = search_entities R query limit site g" "score = (\<lambda>e. match_score (entity_terms R e) (query_tokens query))"
  shows "length es \<le> nat (max 1 limit) \<and> sorted (map (\<lambda>e. (- int (score e), se_id e)) es)
    \<and> (\<forall>e \<in> set es. e \<in> set (values_of (gr_entities g)) \<and> site_match R site (se_meta e) \<and> 0 < score e)
    \<and> (\<forall>e \<in> set (values_of (gr_entities g)). site_match R site (se_meta e) \<and> 0 < score e \<and> e \<notin> set es \<longrightarrow>
         length es = nat (max 1 limit) \<and> (\<forall>f \<in> set es. (- int (score f), se_id f) \<le> (- int (score e), se_id e)))"
proof -
  let ?m = "filter (\<lambda>x. site_match R site (se_meta x) \<and> 0 < score x) (values_of (gr_entities g))"
  define r where "r = (\<lambda>e. (- int (score e), se_id e))"
  define xs where "xs = sort_key r ?m"
  define n where "n = nat (max 1 limit)"
  have es: "es = take n xs"
    unfolding assms(1) search_entities_def rank_matches_def Let_def xs_def n_def r_def assms(2) ..
  have srt: "sorted (map r xs)" unfolding xs_def by (rule sorted_sort_key)
  have mem: "set xs = set ?m" unfolding xs_def by (rule set_sort)
  have sub: "set es \<subseteq> set xs" unfolding es by (rule set_take_subset)
  have "length es = n \<and> (\<forall>f \<in> set es. r f \<le> r e)" if e: "e \<in> set xs" "e \<notin> set es" for e
  proof -
    have split: "xs = take n xs @ drop n xs" by simp
    then have d: "e \<in> set (drop n xs)" using e unfolding es by (metis Un_iff set_append)
    then have "n < length xs" by (metis drop_all empty_iff empty_set not_le)
    moreover have "r f \<le> r e" if "f \<in> set (take n xs)" for f
      using srt split that d by (metis (no_types, lifting) image_eqI list.set_map map_append sorted_append)
    ultimately show ?thesis unfolding es by simp
  qed
  moreover have "sorted (map r es)" unfolding es by (rule sorted_take_map [OF srt])
  moreover have "length es \<le> n" unfolding es by simp
  ultimately show ?thesis using sub mem unfolding r_def n_def by auto
qed

definition named_graph :: sem_graph where
  "named_graph = add_graph_entity \<lparr>se_id = ''b'', se_type = ''pump'', se_name = ''Main'', se_labels = [], se_meta = []\<rparr>
     (add_graph_entity \<lparr>se_id = ''a'', se_type = ''tank'', se_name = ''Pump house'', se_labels = [], se_meta = []\<rparr> empty_graph)"

theorem search_ranked_witness:
  "map se_id (search_entities demo_rt ''Pump'' 5 None named_graph) = [''b'', ''a'']
   \<and> length (search_entities demo_rt ''Pump'' 5 None named_graph) \<le> nat (max 1 5)"
proof
  show "map se_id (search_entities demo_rt ''Pump'' 5 None named_graph) = [''b'', ''a'']" by code_simp
  show "length (search_entities demo_rt ''Pump'' 5 None named_graph) \<le> nat (max 1 5)"
    by (rule conjunct1 [OF search_ranked [OF refl refl]])
qed

text \<open>An entity without a name, which is the default, matches every token of every query: the empty text is in
  every text.\<close>

lemma contains_empty: "contains s []"
  by (cases s) auto

theorem unnamed_matches_everything:
  assumes "(k, e) \<in> set (gr_entities g)" "se_name e = []" "query_tokens query \<noteq> []" "site_match R site (se_meta e)"
    "int (length (gr_entities g)) \<le> limit"
  shows "e \<in> set (search_entities R query limit site g)"
proof -
  have "0 < token_score (entity_terms R e) t" for t
  proof -
    have "[] \<in> set (entity_terms R e)" using assms(2) by (simp add: entity_terms_def py_lower_def)
    then have "list_ex (\<lambda>s. contains s t \<or> contains t s) (entity_terms R e)" unfolding list_ex_iff using contains_empty by blast
    then show ?thesis by (simp add: token_score_def)
  qed
  then have "0 < match_score (entity_terms R e) (query_tokens query)"
    using assms(3) by (cases "query_tokens query") (auto simp: match_score_def)
  moreover have "e \<in> set (values_of (gr_entities g))" using assms(1) by (auto simp: in_values)
  ultimately have m: "e \<in> set (filter (\<lambda>x. site_match R site (se_meta x) \<and> 0 < match_score (entity_terms R x) (query_tokens query)) (values_of (gr_entities g)))"
    using assms(4) by simp
  have "length (filter P (values_of (gr_entities g))) \<le> nat (max 1 limit)" for P
  proof -
    have "length (filter P (values_of (gr_entities g))) \<le> length (gr_entities g)"
      using length_filter_le [of P "values_of (gr_entities g)"] by (simp only: values_of_def length_map)
    then show ?thesis using assms(5) by linarith
  qed
  then show ?thesis using m unfolding search_entities_def rank_matches_def Let_def by simp
qed

definition valve :: sem_entity where
  "valve = \<lparr>se_id = ''x'', se_type = ''valve'', se_name = [], se_labels = [], se_meta = []\<rparr>"

theorem unnamed_matches_everything_witness:
  "valve \<in> set (search_entities demo_rt ''boiler'' 10 None (add_graph_entity valve empty_graph))"
proof (rule unnamed_matches_everything)
  show "(''x'', valve) \<in> set (gr_entities (add_graph_entity valve empty_graph))" by (simp add: add_graph_entity_def empty_graph_def valve_def)
  show "query_tokens ''boiler'' \<noteq> []" by code_simp
qed (simp_all add: valve_def add_graph_entity_def empty_graph_def site_match_def)

end
