(* ===== verification/Semantic_Store.thy ===== *)
theory Semantic_Store
  imports Semantic_Graph
begin

text \<open>
  The file-backed semantic store (\<open>services/common/semantic_store.py\<close>): the graph and the lineage in
  memory, the JSON file behind them, and the choice of the backend. A call says whether the file can be
  written. An upsert names the collection of the graph it found before it took the lock; \<open>replace_graph\<close>
  puts a new graph in place, which the model counts.
\<close>

section \<open>State\<close>

record lineage_record =
  ln_id :: string
  ln_kind :: string
  ln_source :: string
  ln_target :: string
  ln_entity :: string
  ln_relationship :: string
  ln_site :: string
  ln_dataset :: string
  ln_model :: string
  ln_processing :: string
  ln_at :: string
  ln_meta :: pydict

definition lineage_dict :: "lineage_record \<Rightarrow> pydict" where
  "lineage_dict x =
     [(''lineage_id'', PStr (ln_id x)), (''kind'', PStr (ln_kind x)), (''source_id'', PStr (ln_source x)),
      (''target_id'', PStr (ln_target x)), (''entity_id'', PStr (ln_entity x)), (''relationship_id'', PStr (ln_relationship x)),
      (''site_id'', PStr (ln_site x)), (''dataset_id'', PStr (ln_dataset x)), (''model_version'', PStr (ln_model x)),
      (''processing_version'', PStr (ln_processing x)), (''occurred_at'', PStr (ln_at x)), (''metadata'', PDict (ln_meta x))]"

definition lineage_of :: "pyrt \<Rightarrow> pydict \<Rightarrow> string + lineage_record" where
  "lineage_of R d =
     res_bind (meta_of d ''metadata'') (\<lambda>m.
       Inr \<lparr>ln_id = field_text R d ''lineage_id'' [], ln_kind = field_text R d ''kind'' ''unknown'', ln_source = field_text R d ''source_id'' [],
            ln_target = field_text R d ''target_id'' [], ln_entity = field_text R d ''entity_id'' [],
            ln_relationship = field_text R d ''relationship_id'' [], ln_site = field_text R d ''site_id'' [],
            ln_dataset = field_text R d ''dataset_id'' [], ln_model = field_text R d ''model_version'' [],
            ln_processing = field_text R d ''processing_version'' [], ln_at = field_text R d ''occurred_at'' [], ln_meta = m\<rparr>)"

datatype store_json = Missing | Garbled | Json pydict

record sem_store =
  sx_graph :: sem_graph
  sx_generation :: nat
  sx_lineage :: "(string \<times> lineage_record) list"
  sx_file :: store_json

text \<open>A file that is missing or can not be parsed is an empty payload, and the graph is that of the assets.\<close>

definition read_payload :: "store_json \<Rightarrow> pydict" where
  "read_payload f = (case f of Json d \<Rightarrow> d | _ \<Rightarrow> [])"

definition coerce_graph :: "pyrt \<Rightarrow> (string + sem_graph) \<Rightarrow> pydict \<Rightarrow> string + sem_graph" where
  "coerce_graph R assets payload =
     (if payload = [] then assets
      else (case pget payload ''graph'' of PDict g \<Rightarrow> graph_from_dict R g | _ \<Rightarrow> graph_from_dict R payload))"

definition load_lineage :: "pyrt \<Rightarrow> pydict \<Rightarrow> string + (string \<times> lineage_record) list" where
  "load_lineage R payload = items_of R (lineage_of R) ''lineage_id'' payload ''lineage''"

definition open_store :: "pyrt \<Rightarrow> (string + sem_graph) \<Rightarrow> store_json \<Rightarrow> string + sem_store" where
  "open_store R assets f =
     res_bind (coerce_graph R assets (read_payload f)) (\<lambda>g.
     res_bind (load_lineage R (read_payload f)) (\<lambda>l.
       Inr \<lparr>sx_graph = g, sx_generation = 0, sx_lineage = l, sx_file = f\<rparr>))"

definition store_payload :: "string \<Rightarrow> sem_store \<Rightarrow> pydict" where
  "store_payload now s =
     [(''version'', PInt 1), (''updated_at'', PStr now), (''graph'', PDict (graph_to_dict (sx_graph s))),
      (''lineage'', items_list lineage_dict (sx_lineage s))]"

text \<open>\<open>_save\<close>: the temporary file replaces the old one, or raises and leaves it.\<close>

definition save_store :: "string \<Rightarrow> bool \<Rightarrow> sem_store \<Rightarrow> bool \<times> sem_store" where
  "save_store now writable s = (if writable then (True, s\<lparr>sx_file := Json (store_payload now s)\<rparr>) else (False, s))"

section \<open>Operations\<close>

datatype upsert =
    UEntity sem_entity
  | URelationship sem_relationship
  | UMeasurement sem_measurement
  | UObservation sem_observation
  | UAction sem_action
  | UDocument sem_document
  | ULocation sem_location
  | UState sem_state
  | UWorkflow sem_workflow
  | UEvent sem_event

fun upsert_graph :: "upsert \<Rightarrow> sem_graph \<Rightarrow> sem_graph" where
  "upsert_graph (UEntity x) g = g\<lparr>gr_entities := dict_set (gr_entities g) (se_id x) x\<rparr>"
| "upsert_graph (URelationship x) g = g\<lparr>gr_relationships := dict_set (gr_relationships g) (sr_id x) x\<rparr>"
| "upsert_graph (UMeasurement x) g = g\<lparr>gr_measurements := dict_set (gr_measurements g) (sm_id x) x\<rparr>"
| "upsert_graph (UObservation x) g = g\<lparr>gr_observations := dict_set (gr_observations g) (so_id x) x\<rparr>"
| "upsert_graph (UAction x) g = g\<lparr>gr_actions := dict_set (gr_actions g) (sa_id x) x\<rparr>"
| "upsert_graph (UDocument x) g = g\<lparr>gr_documents := dict_set (gr_documents g) (sd_id x) x\<rparr>"
| "upsert_graph (ULocation x) g = g\<lparr>gr_locations := dict_set (gr_locations g) (sl_id x) x\<rparr>"
| "upsert_graph (UState x) g = g\<lparr>gr_states := dict_set (gr_states g) (ss_id x) x\<rparr>"
| "upsert_graph (UWorkflow x) g = g\<lparr>gr_workflows := dict_set (gr_workflows g) (sf_id x) x\<rparr>"
| "upsert_graph (UEvent x) g = g\<lparr>gr_events := dict_set (gr_events g) (sv_id x) x\<rparr>"

text \<open>\<open>existing[pack.pack_id] = pack\<close> over the packs keyed by identifier.\<close>

definition upsert_pack :: "sem_pack \<Rightarrow> sem_pack list \<Rightarrow> sem_pack list" where
  "upsert_pack p ps = values_of (dict_set (foldl (\<lambda>d x. dict_set d (op_id x) x) [] ps) (op_id p) p)"

datatype sem_op =
    Upsert nat upsert
  | UpsertPack sem_pack
  | ReplaceGraph sem_graph
  | RecordLineage lineage_record

definition replace_graph :: "pyrt \<Rightarrow> string \<Rightarrow> bool \<Rightarrow> sem_graph \<Rightarrow> sem_store \<Rightarrow> bool \<times> sem_store" where
  "replace_graph R now w g s =
     (case clone R g of
        Inl _ \<Rightarrow> (False, s)
      | Inr g' \<Rightarrow> save_store now w (s\<lparr>sx_graph := g', sx_generation := Suc (sx_generation s)\<rparr>))"

fun store_exec :: "pyrt \<Rightarrow> string \<Rightarrow> bool \<Rightarrow> sem_op \<Rightarrow> sem_store \<Rightarrow> bool \<times> sem_store" where
  "store_exec R now w (Upsert seen u) s =
     save_store now w (if seen = sx_generation s then s\<lparr>sx_graph := upsert_graph u (sx_graph s)\<rparr> else s)"
| "store_exec R now w (UpsertPack p) s =
     save_store now w (s\<lparr>sx_graph := (sx_graph s)\<lparr>gr_packs := upsert_pack p (gr_packs (sx_graph s))\<rparr>\<rparr>)"
| "store_exec R now w (ReplaceGraph g) s = replace_graph R now w g s"
| "store_exec R now w (RecordLineage r) s =
     save_store now w (s\<lparr>sx_lineage := dict_set (sx_lineage s) (ln_id r) r\<rparr>)"

text \<open>\<open>records.sort(key=..., reverse=True)\<close> is stable: a descending sort of the reversed order of keys.\<close>

definition list_lineage :: "string option \<Rightarrow> int \<Rightarrow> sem_store \<Rightarrow> lineage_record list" where
  "list_lineage site limit s =
     (let rs = values_of (sx_lineage s);
          picked = (case site of Some (c # cs) \<Rightarrow> filter (\<lambda>r. ln_site r = c # cs) rs | _ \<Rightarrow> rs)
      in take (nat (max 1 limit)) (rev (sort_key (\<lambda>r. (ln_at r, ln_id r)) (rev picked))))"

section \<open>The choice of the backend\<close>

datatype backend = FileBackend "string option" | DatabaseBackend

text \<open>\<open>get_semantic_store\<close>; \<open>None\<close> of a file backend is the default path, and \<open>available\<close> says whether the
  database answers.\<close>

definition choose_backend :: "string option \<Rightarrow> string option \<Rightarrow> string option \<Rightarrow> bool \<Rightarrow> backend" where
  "choose_backend path env_path env_backend available =
     (case path of
        Some p \<Rightarrow> FileBackend (Some p)
      | None \<Rightarrow>
          (case env_path of
             Some (c # cs) \<Rightarrow> FileBackend (Some (c # cs))
           | _ \<Rightarrow>
               (let b = py_strip (py_lower (case env_backend of None \<Rightarrow> ''auto'' | Some x \<Rightarrow> x))
                in if b = ''file'' \<or> b = ''json'' then FileBackend None
                   else if available then DatabaseBackend else FileBackend None)))"

section \<open>Reopening\<close>

interpretation lineage_codec: item_codec ln_id lineage_dict "lineage_of R" "''lineage_id''" "\<lambda>_. True" for R
  by unfold_locales (simp_all add: lineage_dict_def lineage_of_def codec_simps)

fun upsert_ok :: "upsert \<Rightarrow> bool" where
  "upsert_ok (UEntity x) = (se_id x \<noteq> [] \<and> list_all (\<lambda>s. s \<noteq> []) (se_labels x))"
| "upsert_ok (URelationship x) = (sr_id x \<noteq> [])"
| "upsert_ok (UMeasurement x) = (sm_id x \<noteq> [])"
| "upsert_ok (UObservation x) = (so_id x \<noteq> [])"
| "upsert_ok (UAction x) = (sa_id x \<noteq> [])"
| "upsert_ok (UDocument x) = (sd_id x \<noteq> [])"
| "upsert_ok (ULocation x) = (sl_id x \<noteq> [])"
| "upsert_ok (UState x) = (ss_id x \<noteq> [])"
| "upsert_ok (UWorkflow x) = (sf_id x \<noteq> [])"
| "upsert_ok (UEvent x) = (sv_id x \<noteq> [])"

fun op_fine :: "sem_op \<Rightarrow> bool" where
  "op_fine (Upsert seen u) = upsert_ok u"
| "op_fine (UpsertPack p) = pack_ok p"
| "op_fine (ReplaceGraph g) = graph_ok g"
| "op_fine (RecordLineage r) = (ln_id r \<noteq> [])"

lemma upsert_graph_ok: "graph_ok g \<Longrightarrow> upsert_ok u \<Longrightarrow> graph_ok (upsert_graph u g)"
  by (cases u) (simp_all add: graph_ok_def collection_ok_set)

lemma upsert_pack_ok:
  assumes "list_all pack_ok ps" "pack_ok p" shows "list_all pack_ok (upsert_pack p ps)"
proof -
  have sub: "set (values_of (dict_set d k v)) \<subseteq> insert v (set (values_of d))" for d :: "(string \<times> sem_pack) list" and k v
    by (rule values_set)
  have "set (values_of (foldl (\<lambda>d x. dict_set d (op_id x) x) acc ps)) \<subseteq> set (values_of acc) \<union> set ps" for acc
  proof (induction ps arbitrary: acc)
    case (Cons x xs)
    show ?case using Cons.IH [of "dict_set acc (op_id x) x"] sub [where d = acc and k = "op_id x" and v = x] by auto
  qed simp
  from this [of "[]"] have "set (values_of (foldl (\<lambda>d x. dict_set d (op_id x) x) [] ps)) \<subseteq> set ps" by (simp add: values_of_def)
  then have "set (upsert_pack p ps) \<subseteq> insert p (set ps)"
    unfolding upsert_pack_def using sub [where d = "foldl (\<lambda>d x. dict_set d (op_id x) x) [] ps" and k = "op_id p" and v = p] by blast
  then show ?thesis using assms unfolding list_all_iff by blast
qed

lemma packs_replaced: "graph_ok g \<Longrightarrow> pack_ok p \<Longrightarrow> graph_ok (g\<lparr>gr_packs := upsert_pack p (gr_packs g)\<rparr>)"
  using upsert_pack_ok by (simp add: graph_ok_def)

definition store_fine :: "sem_store \<Rightarrow> bool" where
  "store_fine s = (graph_ok (sx_graph s) \<and> collection_ok ln_id (\<lambda>_. True) (sx_lineage s))"

lemma save_memory [simp]:
  "sx_graph (snd (save_store now w s)) = sx_graph s" "sx_lineage (snd (save_store now w s)) = sx_lineage s"
  "sx_generation (snd (save_store now w s)) = sx_generation s"
  by (simp_all add: save_store_def)

lemma store_exec_fine: "store_fine s \<Longrightarrow> op_fine op \<Longrightarrow> store_fine (snd (store_exec R now w op s))"
  by (cases op) (auto simp: store_fine_def replace_graph_def clone_def graph_read_back upsert_graph_ok collection_ok_set
      packs_replaced)

lemma payload_back:
  assumes "store_fine s"
  shows "open_store R assets (Json (store_payload now s))
    = Inr \<lparr>sx_graph = sx_graph s, sx_generation = 0, sx_lineage = sx_lineage s, sx_file = Json (store_payload now s)\<rparr>"
proof -
  have "graph_from_dict R (graph_to_dict (sx_graph s)) = Inr (sx_graph s)" using assms by (simp add: store_fine_def graph_read_back)
  then have "coerce_graph R assets (store_payload now s) = Inr (sx_graph s)"
    by (simp add: coerce_graph_def store_payload_def pget_def dict_getd_def)
  moreover have "load_lineage R (store_payload now s) = Inr (sx_lineage s)" unfolding load_lineage_def
    by (rule lineage_codec.items_back) (use assms in \<open>simp_all add: store_fine_def store_payload_def\<close>)
  ultimately show ?thesis by (simp add: open_store_def read_payload_def)
qed

fun sem_run :: "pyrt \<Rightarrow> (string \<times> bool \<times> sem_op) list \<Rightarrow> sem_store \<Rightarrow> sem_store" where
  "sem_run R [] s = s"
| "sem_run R ((now, w, op) # ops) s = sem_run R ops (snd (store_exec R now w op s))"

lemma sem_run_fine: "store_fine s \<Longrightarrow> list_all (\<lambda>(_, _, op). op_fine op) ops \<Longrightarrow> store_fine (sem_run R ops s)"
  by (induction R ops s rule: sem_run.induct) (auto intro: store_exec_fine)

lemma sem_run_snoc: "sem_run R (ops @ [(now, w, op)]) s = snd (store_exec R now w op (sem_run R ops s))"
  by (induction R ops s rule: sem_run.induct) auto

lemma exec_saved:
  "fst (store_exec R now w op s) \<Longrightarrow> sx_file (snd (store_exec R now w op s)) = Json (store_payload now (snd (store_exec R now w op s)))"
  by (cases op) (auto simp: save_store_def replace_graph_def store_payload_def split: sum.splits if_splits)


definition fresh_store :: sem_store where
  "fresh_store = \<lparr>sx_graph = default_graph, sx_generation = 0, sx_lineage = [], sx_file = Missing\<rparr>"


section \<open>Where the store loses items\<close>

text \<open>An entity without an identifier and an empty label are in memory and in the file, and not in the graph read back.\<close>

lemma empty_items_lost:
  "(let t = snd (store_exec demo_rt ''now'' True (Upsert 0 (UEntity (valve\<lparr>se_id := []\<rparr>))) fresh_store) in
    map_of (gr_entities (sx_graph t)) [] \<noteq> None
    \<and> (case open_store demo_rt (Inl ''none'') (sx_file t) of Inr s \<Rightarrow> gr_entities (sx_graph s) = [] | Inl _ \<Rightarrow> False))
   \<and> (let t = snd (store_exec demo_rt ''now'' True (Upsert 0 (UEntity (valve\<lparr>se_labels := [[]]\<rparr>))) fresh_store) in
    (case open_store demo_rt (Inl ''none'') (sx_file t) of
       Inr s \<Rightarrow> map_option se_labels (map_of (gr_entities (sx_graph s)) ''x'') = Some [] | Inl _ \<Rightarrow> False))"
  by code_simp

text \<open>An upsert that looked up its collection before a concurrent \<open>replace_graph\<close> is answered as saved and is
  neither in the graph nor in the file.\<close>

lemma raced_upsert_lost:
  assumes "clone R g = Inr g'" "replace_graph R t1 True g s = (True, s1)"
    "store_exec R t2 True (Upsert (sx_generation s) u) s1 = (ok, s2)"
  shows "ok \<and> sx_graph s2 = g' \<and> sx_file s2 = Json (store_payload t2 s1)"
proof -
  have s1: "sx_generation s1 = Suc (sx_generation s)" "sx_graph s1 = g'" using assms(1,2) by (auto simp: replace_graph_def save_store_def)
  then show ?thesis using assms(3) by (auto simp: save_store_def)
qed

text \<open>A file that can not be parsed is silently replaced by the graph of the assets at the next save, and the lineage is gone.\<close>

lemma garbled_file_replaced:
  assumes "open_store R (Inr g) Garbled = Inr s"
  shows "sx_graph s = g \<and> sx_lineage s = [] \<and>
    (\<exists>d. sx_file (snd (store_exec R now True (RecordLineage r) s)) = Json d \<and> map_of d ''lineage'' = Some (items_list lineage_dict [(ln_id r, r)]))"
  using assms by (auto simp: open_store_def read_payload_def coerce_graph_def load_lineage_def items_of_def dict_getd_def save_store_def store_payload_def)

end
