(* ===== verification/Agent_Runtime.thy ===== *)
theory Agent_Runtime
  imports Py_Prelude Work_Claims
begin

text \<open>
  The read-only tools of the agents and the ledger of requests of supervised actions
  (\<open>services/common/agent_tools.py\<close>, \<open>agent_runtime.py\<close>): the registry, the validation of arguments,
  a dispatch with its audit entry, and the ledger of requests with its file. What a tool answers, how long it
  takes, the clock and the availability of the audit trail are parameters. The ledger of requests is opened anew by every
  call, as \<open>from_env\<close> does.
\<close>

section \<open>Tools\<close>

datatype prop_type = PropInt "int option" "int option" | PropString

record tool_spec =
  ts_name :: string
  ts_read_only :: bool
  ts_props :: "(string \<times> prop_type) list"
  ts_required :: "string list"

definition tool_defaults :: "(string \<times> pyval) list" where
  "tool_defaults = [(''limit'', PInt 25), (''hours'', PInt 6), (''table'', PStr ''industrial_events'')]"

definition default_tools :: "tool_spec list" where
  "default_tools =
     (let ranged = (\<lambda>n. PropInt (Some 1) (Some n)) in
      [\<lparr>ts_name = ''sources.list'', ts_read_only = True, ts_props = [(''site_id'', PropString)], ts_required = []\<rparr>,
       \<lparr>ts_name = ''governance.snapshot'', ts_read_only = True, ts_props = [], ts_required = []\<rparr>,
       \<lparr>ts_name = ''historian.recent_events'', ts_read_only = True, ts_props = [(''table'', PropString), (''limit'', ranged 1000)],
        ts_required = [''table'']\<rparr>,
       \<lparr>ts_name = ''historian.trend'', ts_read_only = True,
        ts_props = [(''asset_id'', PropString), (''tag'', PropString), (''hours'', ranged 168)], ts_required = [''asset_id'', ''tag'']\<rparr>,
       \<lparr>ts_name = ''historian.alarms'', ts_read_only = True, ts_props = [(''limit'', ranged 1000)], ts_required = []\<rparr>,
       \<lparr>ts_name = ''assets.hierarchy'', ts_read_only = True, ts_props = [], ts_required = []\<rparr>,
       \<lparr>ts_name = ''reports.templates'', ts_read_only = True, ts_props = [], ts_required = []\<rparr>,
       \<lparr>ts_name = ''scenarios.list'', ts_read_only = True, ts_props = [], ts_required = []\<rparr>,
       \<lparr>ts_name = ''semantic.graph_search'', ts_read_only = True,
        ts_props = [(''query'', PropString), (''limit'', ranged 100), (''site_id'', PropString)], ts_required = [''query'']\<rparr>,
       \<lparr>ts_name = ''semantic.lineage'', ts_read_only = True, ts_props = [(''site_id'', PropString), (''limit'', ranged 1000)], ts_required = []\<rparr>])"

definition tool_registry :: "(string \<times> tool_spec) list" where
  "tool_registry = foldl (\<lambda>d s. dict_set d (ts_name s) s) [] default_tools"

text \<open>One property of the schema.\<close>

definition check_property :: "string \<Rightarrow> prop_type \<Rightarrow> pyval \<Rightarrow> string + pyval" where
  "check_property k t v =
     (case t of
        PropString \<Rightarrow> (case v of PStr s \<Rightarrow> Inr v | _ \<Rightarrow> Inl (k @ '' must be a string''))
      | PropInt lo hi \<Rightarrow>
          (case v of
             PBool b \<Rightarrow> Inl (k @ '' must be an integer'')
           | _ \<Rightarrow>
               (case py_int v of
                  None \<Rightarrow> Inl ''int() failed''
                | Some n \<Rightarrow>
                    if (case lo of None \<Rightarrow> False | Some a \<Rightarrow> n < a) then Inl (k @ '' is below the allowed minimum'')
                    else if (case hi of None \<Rightarrow> False | Some b \<Rightarrow> b < n) then Inl (k @ '' is above the allowed maximum'')
                    else Inr (PInt n))))"

fun check_properties :: "(string \<times> prop_type) list \<Rightarrow> pydict \<Rightarrow> string + pydict" where
  "check_properties [] result = Inr result"
| "check_properties ((k, t) # ps) result =
     (case map_of result k of
        None \<Rightarrow> check_properties ps result
      | Some v \<Rightarrow> res_bind (check_property k t v) (\<lambda>w. check_properties ps (dict_set result k w)))"

definition add_defaults :: "(string \<times> prop_type) list \<Rightarrow> pydict \<Rightarrow> pydict" where
  "add_defaults props args =
     foldl (\<lambda>d (k, v). if dict_has props k \<and> \<not> dict_has d k then dict_set d k v else d) args tool_defaults"

definition arg_names :: "string list \<Rightarrow> string list" where
  "arg_names ks = sort (remdups ks)"

definition validate_tool_arguments :: "tool_spec \<Rightarrow> pyval \<Rightarrow> string + pydict" where
  "validate_tool_arguments spec arguments =
     (case arguments of
        PDict args \<Rightarrow>
          (let unknown = filter (\<lambda>k. \<not> dict_has (ts_props spec) k) (map fst args);
               missing = filter (\<lambda>k. \<not> dict_has args k) (ts_required spec)
           in if unknown \<noteq> [] then Inl (''unsupported arguments for '' @ ts_name spec @ '': '' @ join '', '' (arg_names unknown))
              else if missing \<noteq> [] then Inl (''missing required arguments for '' @ ts_name spec @ '': '' @ join '', '' missing)
              else check_properties (ts_props spec) (add_defaults (ts_props spec) args))
      | _ \<Rightarrow> Inl ''tool arguments must be an object'')"

text \<open>\<open>execute_read_only_tool\<close>: the result and the time that passes. The pool is left by waiting for the
  tool, also when its result came too late.\<close>

record tool_world =
  tk_answer :: "string \<Rightarrow> pydict \<Rightarrow> string + pyval"
  tk_duration :: "string \<Rightarrow> pydict \<Rightarrow> rat"

definition tool_timeout :: "rat \<Rightarrow> rat" where
  "tool_timeout s = min (max s (1 / 10)) 30"

definition execute_read_only_tool :: "tool_world \<Rightarrow> string \<Rightarrow> pyval \<Rightarrow> rat \<Rightarrow> (string + pyval) \<times> rat" where
  "execute_read_only_tool W name arguments timeout_seconds =
     (case map_of tool_registry name of
        None \<Rightarrow> (Inl (''tool is not registered as read-only: '' @ name), 0)
      | Some spec \<Rightarrow>
          (if \<not> ts_read_only spec then (Inl (''tool is not registered as read-only: '' @ name), 0)
           else (case validate_tool_arguments spec arguments of
                   Inl e \<Rightarrow> (Inl e, 0)
                 | Inr args \<Rightarrow>
                     (let d = tk_duration W name args in
                      if tool_timeout timeout_seconds < d then (Inl (''read-only tool timed out: '' @ name), d)
                      else (tk_answer W name args, d)))))"

section \<open>The diagnostic runtime\<close>

definition read_only_prefixes :: "string list" where
  "read_only_prefixes = [''historian.'', ''assets.'', ''reports.'', ''scenarios.'', ''semantic.'', ''sources.'', ''governance.'']"

definition read_only_tool_names :: "string list" where
  "read_only_tool_names =
     sort (map ts_name (filter (\<lambda>s. ts_read_only s \<and> list_ex (starts_with (ts_name s)) read_only_prefixes) default_tools))"

record tool_audit =
  ae_user :: string
  ae_action :: string
  ae_resource :: string
  ae_details :: pydict

record diagnostic =
  dg_actor :: string
  dg_site :: string
  dg_approval :: bool

definition call_entry :: "diagnostic \<Rightarrow> string \<Rightarrow> string \<Rightarrow> pydict \<Rightarrow> string \<Rightarrow> tool_audit" where
  "call_entry g call_id name args summary =
     \<lparr>ae_user = dg_actor g, ae_action = ''agent_tool_call'', ae_resource = name,
      ae_details = [(''call_id'', PStr call_id), (''site_id'', PStr (dg_site g)), (''approved'', PBool (\<not> dg_approval g)),
                    (''arguments'', PDict args), (''result_summary'', PStr summary)]\<rparr>"

text \<open>\<open>audit_tool_call\<close>; the flag says whether the audit trail can be written.\<close>

definition audit_tool_call ::
    "diagnostic \<Rightarrow> bool \<Rightarrow> string \<Rightarrow> string \<Rightarrow> pydict \<Rightarrow> string \<Rightarrow> tool_audit list \<Rightarrow> (string + tool_audit) \<times> tool_audit list" where
  "audit_tool_call g up call_id name args summary trail =
     (if name \<notin> set read_only_tool_names then (Inl (''tool not allowed for diagnostic runtime: '' @ name), trail)
      else if up then (Inr (call_entry g call_id name args summary), trail @ [call_entry g call_id name args summary])
      else (Inl ''audit trail unavailable'', trail))"

datatype dispatch_outcome =
    Refused string
  | PendingApproval
  | Succeeded pyval
  | Failed string

definition result_text :: "pyval \<Rightarrow> string" where
  "result_text v = (case v of PList xs \<Rightarrow> ''returned '' @ nat_str (length xs) @ '' records'' | _ \<Rightarrow> ''returned object'')"

text \<open>\<open>dispatch_tool\<close>: the outcome, the trail and whether the tool ran. A call that is recorded with an error
  and can not be recorded raises.\<close>

definition dispatch_tool ::
    "diagnostic \<Rightarrow> tool_world \<Rightarrow> bool \<times> bool \<Rightarrow> string \<Rightarrow> string \<Rightarrow> pydict \<Rightarrow> rat \<Rightarrow> tool_audit list
     \<Rightarrow> dispatch_outcome \<times> tool_audit list \<times> bool" where
  "dispatch_tool g W up call_id name args timeout_seconds trail =
     (let failed = (\<lambda>e trail'. case audit_tool_call g (snd up) call_id name args (''error: '' @ e) trail' of
                       (Inl e', trail2) \<Rightarrow> (Refused e', trail2, True) | (Inr _, trail2) \<Rightarrow> (Failed e, trail2, True))
      in if name \<notin> set read_only_tool_names then (Refused (''tool not allowed for diagnostic runtime: '' @ name), trail, False)
         else if dg_approval g
         then (case audit_tool_call g (fst up) call_id name args ''approval required'' trail of
                 (Inl e, trail') \<Rightarrow> (Refused e, trail', False) | (Inr _, trail') \<Rightarrow> (PendingApproval, trail', False))
         else (case fst (execute_read_only_tool W name (PDict args) timeout_seconds) of
                 Inl e \<Rightarrow> failed e trail
               | Inr v \<Rightarrow>
                   (case audit_tool_call g (fst up) call_id name args (result_text v) trail of
                      (Inl e, trail') \<Rightarrow> failed e trail'
                    | (Inr _, trail') \<Rightarrow> (Succeeded v, trail', True))))"

section \<open>The ledger of action requests\<close>

record request_ledger =
  lg_path :: bool
  lg_requests :: "(string \<times> pydict) list"

definition load_requests :: "pyrt \<Rightarrow> bool \<Rightarrow> pydict list option \<Rightarrow> request_ledger" where
  "load_requests R path doc =
     \<lparr>lg_path = path,
      lg_requests = (case doc of
          Some items \<Rightarrow> if path then foldl (\<lambda>d i. dict_set d (py_str R (pget i ''action_id'')) i) [] items else []
        | None \<Rightarrow> [])\<rparr>"

definition save_ledger :: "request_ledger \<Rightarrow> pydict list option \<Rightarrow> pydict list option" where
  "save_ledger l doc = (if lg_path l then Some (map snd (lg_requests l)) else doc)"

definition create_request :: "pyrt \<Rightarrow> string \<Rightarrow> pydict \<Rightarrow> request_ledger \<Rightarrow> string + pydict \<times> request_ledger" where
  "create_request R now payload l =
     (let k = py_strip (py_str R (dict_getd payload ''action_id'' (PStr []))) in
      if k = [] then Inl ''action_id is required''
      else if dict_has (lg_requests l) k then Inl (''action request already exists: '' @ k)
      else
        (let r = dict_merge payload [(''status'', PStr ''pending_approval''),
                   (''created_at'', py_or (pget payload ''created_at'') (PStr now)), (''updated_at'', PStr now)]
         in Inr (r, l\<lparr>lg_requests := dict_set (lg_requests l) k r\<rparr>)))"

definition decision_statuses :: "string list" where
  "decision_statuses = [''approved'', ''rejected'', ''cancelled'']"

definition decided :: "string \<Rightarrow> string \<Rightarrow> string \<Rightarrow> string \<Rightarrow> pydict \<Rightarrow> pydict" where
  "decided now status actor reason r =
     dict_merge r [(''status'', PStr status), (''updated_at'', PStr now), (''decision_actor'', PStr actor), (''decision_reason'', PStr reason)]"

definition set_request_status ::
    "pyrt \<Rightarrow> string \<Rightarrow> string \<Rightarrow> string \<Rightarrow> string \<Rightarrow> string \<Rightarrow> request_ledger \<Rightarrow> string + pydict \<times> request_ledger" where
  "set_request_status R now k status actor reason l =
     (if status \<notin> set decision_statuses then Inl (''unsupported action request status: '' @ status)
      else (case map_of (lg_requests l) k of
              None \<Rightarrow> Inl (''unknown action request: '' @ k)
            | Some r \<Rightarrow>
                if pget r ''status'' \<noteq> PStr ''pending_approval''
                then Inl (''action request is already '' @ py_str R (pget r ''status'') @ '': '' @ k)
                else Inr (decided now status actor reason r,
                          l\<lparr>lg_requests := dict_set (lg_requests l) k (decided now status actor reason r)\<rparr>)))"

definition list_requests :: "string option \<Rightarrow> request_ledger \<Rightarrow> pydict list" where
  "list_requests status l =
     (case status of
        Some (c # cs) \<Rightarrow> filter (\<lambda>r. pget r ''status'' = PStr (c # cs)) (map snd (lg_requests l))
      | _ \<Rightarrow> map snd (lg_requests l))"

text \<open>\<open>SupervisedActionRuntime\<close>: a request and a decision each open the ledger of requests, change it and save it.\<close>

record action_env =
  av_path :: bool
  av_now :: string

datatype action_call =
    RequestAction string string string string string pydict
  | Decide string string string string

definition request_payload :: "string \<Rightarrow> string \<Rightarrow> string \<Rightarrow> string \<Rightarrow> string \<Rightarrow> string \<Rightarrow> pydict \<Rightarrow> pydict" where
  "request_payload now k name target requested_by site details =
     [(''action_id'', PStr k), (''action_name'', PStr name), (''target_resource'', PStr target), (''requested_by'', PStr requested_by),
      (''site_id'', PStr site), (''status'', PStr ''pending_approval''), (''details'', PDict details), (''created_at'', PStr now)]"

fun ledger_step :: "pyrt \<Rightarrow> string \<Rightarrow> action_call \<Rightarrow> request_ledger \<Rightarrow> string + pydict \<times> request_ledger" where
  "ledger_step R now (RequestAction k name target by site details) l =
     create_request R now (request_payload now k name target by site details) l"
| "ledger_step R now (Decide k status actor reason) l = set_request_status R now k status actor reason l"

definition runtime_call ::
    "pyrt \<Rightarrow> action_env \<Rightarrow> action_call \<Rightarrow> pydict list option \<Rightarrow> (string + pydict) \<times> pydict list option" where
  "runtime_call R E c doc =
     (case ledger_step R (av_now E) c (load_requests R (av_path E) doc) of
        Inl e \<Rightarrow> (Inl e, doc)
      | Inr (r, l) \<Rightarrow> (Inr r, save_ledger l doc))"

section \<open>Validated arguments fit the schema\<close>

definition conforms :: "prop_type \<Rightarrow> pyval \<Rightarrow> bool" where
  "conforms t v =
     (case t of
        PropString \<Rightarrow> (case v of PStr _ \<Rightarrow> True | _ \<Rightarrow> False)
      | PropInt lo hi \<Rightarrow>
          (case v of
             PInt n \<Rightarrow> (case lo of None \<Rightarrow> True | Some a \<Rightarrow> a \<le> n) \<and> (case hi of None \<Rightarrow> True | Some b \<Rightarrow> n \<le> b)
           | _ \<Rightarrow> False))"

lemma check_property_conforms: "check_property k t v = Inr w \<Longrightarrow> conforms t w"
  by (auto simp: check_property_def conforms_def split: prop_type.splits pyval.splits option.splits if_splits)

lemma check_properties_keeps:
  "check_properties ps d = Inr r \<Longrightarrow> map_of r k = None \<longleftrightarrow> map_of d k = None"
proof (induction ps d rule: check_properties.induct)
  case (2 j u ps d)
  show ?case
  proof (cases "map_of d j")
    case None
    then show ?thesis using 2 by simp
  next
    case (Some x)
    then obtain w where w: "check_properties ps (dict_set d j w) = Inr r" using "2.prems" by auto
    show ?thesis using "2.IH"(2) [OF Some w] Some by auto
  qed
qed simp

lemma check_properties_other:
  "check_properties ps d = Inr r \<Longrightarrow> k \<notin> set (map fst ps) \<Longrightarrow> map_of r k = map_of d k"
  by (induction ps d rule: check_properties.induct) (auto split: option.splits)

lemma check_properties_conform:
  "check_properties ps d = Inr r \<Longrightarrow> distinct (map fst ps) \<Longrightarrow> (k, t) \<in> set ps \<Longrightarrow> map_of r k = Some v \<Longrightarrow> conforms t v"
proof (induction ps d rule: check_properties.induct)
  case (2 j u ps d)
  show ?case
  proof (cases "map_of d j")
    case None
    then have r: "check_properties ps d = Inr r" using "2.prems"(1) by simp
    have "(k, t) \<noteq> (j, u)"
    proof
      assume "(k, t) = (j, u)"
      then show False using check_properties_keeps [OF r, of j] None "2.prems"(4) by simp
    qed
    then show ?thesis using "2.IH"(1) [OF None r] "2.prems"(2-4) by auto
  next
    case (Some x)
    then obtain w where w: "check_property j u x = Inr w" "check_properties ps (dict_set d j w) = Inr r" using "2.prems"(1) by auto
    show ?thesis
    proof (cases "k = j")
      case True
      then have "t = u" using "2.prems"(2,3) by (auto simp: image_iff)
      moreover have "map_of r j = Some w" using check_properties_other [OF w(2), of j] "2.prems"(2) by simp
      ultimately show ?thesis using check_property_conforms [OF w(1)] "2.prems"(4) True by simp
    next
      case False
      then show ?thesis using "2.IH"(2) [OF Some w(2)] "2.prems"(2-4) by auto
    qed
  qed
qed simp

lemma add_defaults_keys:
  "dict_has (add_defaults props args) k \<Longrightarrow> dict_has args k \<or> dict_has props k"
  "dict_has args k \<Longrightarrow> dict_has (add_defaults props args) k"
proof -
  have "(dict_has (foldl (\<lambda>d (k, v). if dict_has props k \<and> \<not> dict_has d k then dict_set d k v else d) d ds) k
      \<longrightarrow> dict_has d k \<or> dict_has props k)
    \<and> (dict_has d k \<longrightarrow> dict_has (foldl (\<lambda>d (k, v). if dict_has props k \<and> \<not> dict_has d k then dict_set d k v else d) d ds) k)"
    for d :: pydict and ds
  proof (induction ds arbitrary: d)
    case (Cons p ds)
    obtain j v where p: "p = (j, v)" by (cases p)
    show ?case using Cons.IH [of "dict_set d j v"] Cons.IH [of d] by (auto simp: p)
  qed simp
  then show "dict_has (add_defaults props args) k \<Longrightarrow> dict_has args k \<or> dict_has props k"
    "dict_has args k \<Longrightarrow> dict_has (add_defaults props args) k"
    unfolding add_defaults_def by blast+
qed

text \<open>Claim C30. Arguments that pass validation fit the tool's schema: only its properties, all required ones, every
  integer property an integer within its bounds and every string property a text.\<close>

theorem validated_arguments_in_schema:
  assumes "validate_tool_arguments spec a = Inr r" "distinct (map fst (ts_props spec))"
  shows "(\<forall>k. dict_has r k \<longrightarrow> dict_has (ts_props spec) k) \<and> (\<forall>k \<in> set (ts_required spec). dict_has r k)
    \<and> (\<forall>(k, t) \<in> set (ts_props spec). \<forall>v. map_of r k = Some v \<longrightarrow> conforms t v)"
proof -
  obtain args where a: "a = PDict args" "filter (\<lambda>k. \<not> dict_has (ts_props spec) k) (map fst args) = []"
      "filter (\<lambda>k. \<not> dict_has args k) (ts_required spec) = []"
      "check_properties (ts_props spec) (add_defaults (ts_props spec) args) = Inr r"
    using assms(1) by (auto simp: validate_tool_arguments_def Let_def split: pyval.splits if_splits)
  have same: "dict_has r k = dict_has (add_defaults (ts_props spec) args) k" for k
    using check_properties_keeps [OF a(4), of k] by (simp add: dict_has_iff)
  have "dict_has args k \<Longrightarrow> dict_has (ts_props spec) k" for k using a(2) by (auto simp: filter_empty_conv dict_has_keys)
  then have "\<forall>k. dict_has r k \<longrightarrow> dict_has (ts_props spec) k" using same add_defaults_keys(1) by blast
  moreover have "\<forall>k \<in> set (ts_required spec). dict_has r k" using a(3) same add_defaults_keys(2) by (auto simp: filter_empty_conv)
  moreover have "\<forall>(k, t) \<in> set (ts_props spec). \<forall>v. map_of r k = Some v \<longrightarrow> conforms t v"
    using check_properties_conform [OF a(4) assms(2)] by blast
  ultimately show ?thesis by blast
qed

definition trend_spec :: tool_spec where
  "trend_spec = \<lparr>ts_name = ''historian.trend'', ts_read_only = True,
     ts_props = [(''asset_id'', PropString), (''tag'', PropString), (''hours'', PropInt (Some 1) (Some 168))], ts_required = [''asset_id'', ''tag'']\<rparr>"

definition trend_args :: pydict where
  "trend_args = [(''asset_id'', PStr ''p''), (''tag'', PStr ''t''), (''hours'', PStr ''24'')]"

theorem validated_arguments_in_schema_witness:
  "map_of tool_registry ''historian.trend'' = Some trend_spec
   \<and> validate_tool_arguments trend_spec (PDict trend_args) = Inr (dict_set trend_args ''hours'' (PInt 24))
   \<and> dict_has (dict_set trend_args ''hours'' (PInt 24)) ''tag''"
proof -
  have r: "map_of tool_registry ''historian.trend'' = Some trend_spec" by code_simp
  have v: "validate_tool_arguments trend_spec (PDict trend_args) = Inr (dict_set trend_args ''hours'' (PInt 24))" by code_simp
  have "distinct (map fst (ts_props trend_spec))" by code_simp
  note fits = validated_arguments_in_schema [OF v this]
  have "''tag'' \<in> set (ts_required trend_spec)" by code_simp
  then have "dict_has (dict_set trend_args ''hours'' (PInt 24)) ''tag''" using fits by blast
  then show ?thesis using r v by (intro conjI)
qed

section \<open>Every dispatch is audited\<close>

text \<open>A name outside the read-only tools is refused without running anything or leaving an entry; while
  approval is required no tool runs; and with the audit log available every other dispatch leaves exactly one
  entry, under the caller, the tool and its arguments, and only tools of the registry run.\<close>

theorem dispatch_audited:
  assumes "dispatch_tool g W (True, True) call_id name args t trail = (out, trail', executed)"
  shows "(name \<notin> set read_only_tool_names \<longrightarrow> trail' = trail \<and> \<not> executed \<and> (\<exists>e. out = Refused e))
    \<and> (dg_approval g \<longrightarrow> \<not> executed)
    \<and> (name \<in> set read_only_tool_names \<longrightarrow> (\<exists>summary. trail' = trail @ [call_entry g call_id name args summary]) \<and> (\<forall>e. out \<noteq> Refused e))"
proof (cases "name \<in> set read_only_tool_names")
  case False
  then show ?thesis using assms by (auto simp: dispatch_tool_def)
next
  case True
  show ?thesis
  proof (cases "dg_approval g")
    case True
    then show ?thesis using assms \<open>name \<in> set read_only_tool_names\<close> by (auto simp: dispatch_tool_def audit_tool_call_def)
  next
    case False
    then show ?thesis using assms True
      by (cases "fst (execute_read_only_tool W name (PDict args) t)") (auto simp: dispatch_tool_def audit_tool_call_def Let_def)
  qed
qed

theorem dispatch_audited_witness:
  "let g = \<lparr>dg_actor = ''ann'', dg_site = ''s'', dg_approval = False\<rparr>;
       W = \<lparr>tk_answer = (\<lambda>_ _. Inr (PList [])), tk_duration = (\<lambda>_ _. 1)\<rparr>;
       r = dispatch_tool g W (True, True) ''c'' ''historian.trend'' trend_args 10 []
   in fst r = Succeeded (PList []) \<and> (\<exists>summary. fst (snd r) = [call_entry g ''c'' ''historian.trend'' trend_args summary])"
proof -
  define g :: diagnostic where "g = \<lparr>dg_actor = ''ann'', dg_site = ''s'', dg_approval = False\<rparr>"
  define W where "W = \<lparr>tk_answer = (\<lambda>_ _. Inr (PList [])), tk_duration = (\<lambda>_ _. 1)\<rparr>"
  let ?r = "dispatch_tool g W (True, True) ''c'' ''historian.trend'' trend_args 10 []"
  have s: "fst ?r = Succeeded (PList [])" unfolding g_def W_def by code_simp
  have n: "''historian.trend'' \<in> set read_only_tool_names" by code_simp
  have "?r = (fst ?r, fst (snd ?r), snd (snd ?r))" by simp
  from dispatch_audited [OF this] n s show ?thesis unfolding g_def [symmetric] W_def [symmetric] Let_def by simp
qed

text \<open>The wait for a tool is not bounded by its timeout: the pool waits for the tool before the error is raised.\<close>

lemma timeout_waits_for_tool:
  assumes "map_of tool_registry name = Some spec" "ts_read_only spec" "validate_tool_arguments spec a = Inr args"
    "30 < tk_duration W name args"
  shows "execute_read_only_tool W name a s = (Inl (''read-only tool timed out: '' @ name), tk_duration W name args)"
proof -
  have "tool_timeout s \<le> 30" by (simp add: tool_timeout_def)
  then have "tool_timeout s < tk_duration W name args" using assms(4) by simp
  then show ?thesis using assms(1-3) by (simp add: execute_read_only_tool_def Let_def)
qed

section \<open>Decisions are final\<close>

definition request_id :: "pyrt \<Rightarrow> pydict \<Rightarrow> string" where
  "request_id R r = py_str R (pget r ''action_id'')"

definition rekey :: "pyrt \<Rightarrow> pydict list \<Rightarrow> (string \<times> pydict) list" where
  "rekey R items = foldl (\<lambda>d i. dict_set d (request_id R i) i) [] items"

lemma load_rekey: "lg_requests (load_requests R True doc) = (case doc of None \<Rightarrow> [] | Some items \<Rightarrow> rekey R items)"
  by (simp add: load_requests_def rekey_def request_id_def split: option.splits)

lemma rekey_keyed: "wf_dict (rekey R items) \<and> (\<forall>(q, r) \<in> set (rekey R items). request_id R r = q)"
proof -
  have "wf_dict d \<Longrightarrow> \<forall>(q, r) \<in> set d. request_id R r = q \<Longrightarrow>
      wf_dict (foldl (\<lambda>d i. dict_set d (request_id R i) i) d items)
      \<and> (\<forall>(q, r) \<in> set (foldl (\<lambda>d i. dict_set d (request_id R i) i) d items). request_id R r = q)" for d
  proof (induction items arbitrary: d)
    case (Cons i items)
    have sub: "set (dict_set d (request_id R i) i) \<subseteq> insert (request_id R i, i) (set d)" by (rule set_dict_set)
    show ?case unfolding foldl_Cons
    proof (rule Cons.IH)
      show "wf_dict (dict_set d (request_id R i) i)" using Cons.prems(1) by (rule distinct_update)
      show "\<forall>(q, r) \<in> set (dict_set d (request_id R i) i). request_id R r = q" using sub Cons.prems(2) by auto
    qed
  qed simp
  from this [of "[]"] show ?thesis by (simp add: rekey_def)
qed

lemma rekey_reload:
  assumes "wf_dict m" "\<forall>(q, r) \<in> set m. request_id R r = k \<longleftrightarrow> q = k"
  shows "map_of (rekey R (map snd m)) k = map_of m k"
  using assms
proof (induction m rule: rev_induct)
  case (snoc p m)
  obtain q r where p: "p = (q, r)" by (cases p)
  have ih: "map_of (rekey R (map snd m)) k = map_of m k" using snoc by simp
  have "map_of (rekey R (map snd (m @ [p]))) k = (if request_id R r = k then Some r else map_of m k)"
    by (simp add: rekey_def p ih [unfolded rekey_def])
  moreover have "map_of (m @ [p]) k = (if q = k then Some r else map_of m k)"
  proof (cases "q = k")
    case True
    then have "map_of m k = None" using snoc.prems(1) p by (simp add: map_of_eq_None_iff)
    then show ?thesis using True p by (simp add: map_add_def)
  qed (simp add: p map_add_def split: option.splits)
  moreover have "request_id R r = k \<longleftrightarrow> q = k" using snoc.prems(2) p by simp
  ultimately show ?case by simp
qed (simp add: rekey_def)

definition request_entry_of :: "pyrt \<Rightarrow> pydict list option \<Rightarrow> string \<Rightarrow> pydict option" where
  "request_entry_of R doc k = map_of (lg_requests (load_requests R True doc)) k"

definition file_env :: "string \<Rightarrow> action_env" where
  "file_env now = \<lparr>av_path = True, av_now = now\<rparr>"

lemma saved_entry:
  assumes "m = dict_set (lg_requests (load_requests R True doc)) q r" "request_id R r = k \<longleftrightarrow> q = k"
  shows "request_entry_of R (save_ledger ((load_requests R True doc)\<lparr>lg_requests := m\<rparr>) doc) k = map_of m k"
proof -
  let ?l = "lg_requests (load_requests R True doc)"
  have l: "wf_dict ?l \<and> (\<forall>(q, r) \<in> set ?l. request_id R r = q)"
    using rekey_keyed by (cases doc) (simp_all add: load_rekey)
  have sub: "set m \<subseteq> insert (q, r) (set ?l)" unfolding assms(1) by (rule set_dict_set)
  have "map_of (rekey R (map snd m)) k = map_of m k"
  proof (rule rekey_reload)
    show "wf_dict m" unfolding assms(1) using l by (simp add: distinct_update)
    show "\<forall>(q, r) \<in> set m. request_id R r = k \<longleftrightarrow> q = k" using sub l assms(2) by fastforce
  qed
  moreover have "save_ledger ((load_requests R True doc)\<lparr>lg_requests := m\<rparr>) doc = Some (map snd m)"
    by (simp add: save_ledger_def load_requests_def)
  ultimately show ?thesis by (simp add: request_entry_of_def load_rekey)
qed

lemma merge_other: "k \<notin> set (map fst e) \<Longrightarrow> map_of (dict_merge d e) k = map_of d k"
  unfolding dict_merge_def by (induction e arbitrary: d) auto

lemma pget_status_decided: "pget (decided now status actor reason r) ''status'' = PStr status"
  by (simp add: decided_def dict_merge_def)

lemma request_id_decided: "request_id R (decided now status actor reason r) = request_id R r"
  by (simp add: request_id_def decided_def dict_merge_def)

lemma decide_entry:
  assumes "runtime_call R (file_env now) (Decide q status actor reason) doc = (Inr v, doc')" "request_entry_of R doc k = Some r"
  shows "request_entry_of R doc q \<noteq> None \<and> pget (the (request_entry_of R doc q)) ''status'' = PStr ''pending_approval''
    \<and> status \<in> set decision_statuses
    \<and> request_entry_of R doc' k = (if q = k then Some (decided now status actor reason r) else Some r)"
proof -
  let ?l = "lg_requests (load_requests R True doc)"
  obtain x where x: "status \<in> set decision_statuses" "map_of ?l q = Some x" "pget x ''status'' = PStr ''pending_approval''"
      "doc' = save_ledger ((load_requests R True doc)\<lparr>lg_requests := dict_set ?l q (decided now status actor reason x)\<rparr>) doc"
    using assms(1) by (auto simp: runtime_call_def file_env_def set_request_status_def split: sum.splits prod.splits if_splits option.splits)
  have keyed: "wf_dict ?l \<and> (\<forall>(q, r) \<in> set ?l. request_id R r = q)"
    using rekey_keyed by (cases doc) (simp_all add: load_rekey)
  have "(q, x) \<in> set ?l" using x(2) by (rule map_of_SomeD)
  then have "request_id R x = q" using keyed by blast
  then have "request_id R (decided now status actor reason x) = k \<longleftrightarrow> q = k" by (simp add: request_id_decided)
  from saved_entry [OF refl this] have "request_entry_of R doc' k = map_of (dict_set ?l q (decided now status actor reason x)) k"
    unfolding x(4) .
  then show ?thesis using x assms(2) by (auto simp: request_entry_of_def)
qed

lemma request_entry:
  assumes "request_entry_of R doc k = Some r" "py_strip k = k"
  shows "request_entry_of R (snd (runtime_call R (file_env now) (RequestAction q name target requester site details) doc)) k = Some r"
proof -
  let ?l = "lg_requests (load_requests R True doc)"
  let ?p = "request_payload now q name target requester site details"
  have pid: "pget ?p ''action_id'' = PStr q" "dict_getd ?p ''action_id'' (PStr []) = PStr q"
    by (simp_all add: request_payload_def pget_def dict_getd_def)
  show ?thesis
  proof (cases "create_request R now ?p (load_requests R True doc)")
    case (Inl e)
    then show ?thesis using assms by (simp add: runtime_call_def file_env_def)
  next
    case (Inr y)
    define v where "v = dict_merge ?p [(''status'', PStr ''pending_approval''), (''created_at'', py_or (pget ?p ''created_at'') (PStr now)), (''updated_at'', PStr now)]"
    have y: "\<not> dict_has ?l (py_strip q)" "y = (v, (load_requests R True doc)\<lparr>lg_requests := dict_set ?l (py_strip q) v\<rparr>)"
      using Inr by (auto simp: create_request_def Let_def pid v_def split: if_splits)
    have "request_id R v = q" using pid by (simp add: request_id_def v_def dict_merge_def)
    moreover have "k \<noteq> py_strip q" using y(1) assms(1) by (auto simp: request_entry_of_def dict_has_iff)
    ultimately have "request_id R v = k \<longleftrightarrow> py_strip q = k" using assms(2) by auto
    from saved_entry [OF refl this, of doc] show ?thesis
      using Inr y(2) assms(1) \<open>k \<noteq> py_strip q\<close> by (simp add: runtime_call_def file_env_def request_entry_of_def)
  qed
qed

definition decides :: "pyrt \<Rightarrow> string \<Rightarrow> string \<times> action_call \<Rightarrow> pydict list option \<Rightarrow> bool" where
  "decides R k c doc =
     (case snd c of
        Decide q status actor reason \<Rightarrow> q = k \<and> is_ok (fst (runtime_call R (file_env (fst c)) (snd c) doc))
      | _ \<Rightarrow> False)"

definition ledger_exec :: "pyrt \<Rightarrow> string \<times> action_call \<Rightarrow> pydict list option \<Rightarrow> pydict list option" where
  "ledger_exec R c doc = snd (runtime_call R (file_env (fst c)) (snd c) doc)"

lemma exec_entry:
  assumes "request_entry_of R doc k = Some r" "py_strip k = k"
  shows "request_entry_of R (ledger_exec R c doc) k = Some r
    \<or> (decides R k c doc \<and> pget r ''status'' = PStr ''pending_approval'' \<and>
       (\<exists>r'. request_entry_of R (ledger_exec R c doc) k = Some r' \<and> pget r' ''status'' \<noteq> PStr ''pending_approval''))"
proof -
  obtain now op where c: "c = (now, op)" by (cases c)
  show ?thesis
  proof (cases op)
    case (RequestAction q name target requester site details)
    then show ?thesis using request_entry [OF assms] c by (simp add: ledger_exec_def)
  next
    case (Decide q status actor reason)
    show ?thesis
    proof (cases "fst (runtime_call R (file_env now) op doc)")
      case (Inl e)
      then have "ledger_exec R c doc = doc" using c
        by (auto simp: ledger_exec_def runtime_call_def split: sum.splits prod.splits)
      then show ?thesis using assms(1) by simp
    next
      case (Inr v)
      then have call: "runtime_call R (file_env now) (Decide q status actor reason) doc = (Inr v, ledger_exec R c doc)"
        using c Decide by (metis fst_conv ledger_exec_def prod.collapse snd_conv)
      note e = decide_entry [OF call assms(1)]
      have "status \<noteq> ''pending_approval''" using e by (auto simp: decision_statuses_def)
      then show ?thesis
        using e assms(1) Inr c Decide by (auto simp: decides_def is_ok_def pget_status_decided)
    qed
  qed
qed

interpretation decision_claims: claimable "\<lambda>doc. py_strip k = k \<and> request_entry_of R doc k \<noteq> None" "decides R k"
  "\<lambda>doc. \<exists>r. request_entry_of R doc k = Some r \<and> pget r ''status'' = PStr ''pending_approval''" "\<lambda>_. False" "ledger_exec R" for k R
proof
  fix doc :: "pydict list option" and c :: "string \<times> action_call"
  assume ok: "py_strip k = k \<and> request_entry_of R doc k \<noteq> None"
  then obtain r where r: "request_entry_of R doc k = Some r" by blast
  note e = exec_entry [OF r conjunct1 [OF ok], of c]
  show "py_strip k = k \<and> request_entry_of R (ledger_exec R c doc) k \<noteq> None" using ok e by auto
  { assume d: "decides R k c doc"
    then obtain now status actor reason v where c: "c = (now, Decide k status actor reason)"
        "runtime_call R (file_env now) (Decide k status actor reason) doc = (Inr v, ledger_exec R c doc)"
      by (cases c, cases "snd c", auto simp: decides_def ledger_exec_def is_ok_def split: sum.splits) (metis prod.collapse)+
    note x = decide_entry [OF c(2) r]
    show "\<exists>r. request_entry_of R doc k = Some r \<and> pget r ''status'' = PStr ''pending_approval''" using x r by auto
    have "status \<noteq> ''pending_approval''" using x by (auto simp: decision_statuses_def)
    then show "\<not> (\<exists>r. request_entry_of R (ledger_exec R c doc) k = Some r \<and> pget r ''status'' = PStr ''pending_approval'')"
      using x by (simp add: pget_status_decided) }
  assume "\<not> (\<exists>r. request_entry_of R doc k = Some r \<and> pget r ''status'' = PStr ''pending_approval'')"
  then show "\<not> (\<exists>r. request_entry_of R (ledger_exec R c doc) k = Some r \<and> pget r ''status'' = PStr ''pending_approval'')"
    using e r by auto
qed

text \<open>Claim C21. A request of the file-backed ledger of requests, under an identifier without surrounding spaces, is decided at most
  once: in any sequence of requests and decisions at most one decision on it is accepted.\<close>

theorem decided_once:
  assumes "py_strip k = k" "request_entry_of R doc k \<noteq> None"
  shows "count_calls (decides R k) (ledger_exec R) cs doc \<le> 1"
  by (rule decision_claims.at_most_one) (use assms in \<open>simp_all add: list_all_iff\<close>)

definition open_request :: "pydict list option" where
  "open_request = ledger_exec demo_rt (''1'', RequestAction ''a'' ''stop'' ''pump'' ''ann'' ''s'' []) None"

theorem decided_once_witness:
  "count_calls (decides demo_rt ''a'') (ledger_exec demo_rt)
     [(''2'', Decide ''a'' ''approved'' ''bob'' []), (''3'', Decide ''a'' ''rejected'' ''eve'' [])] open_request \<le> 1
   \<and> decides demo_rt ''a'' (''2'', Decide ''a'' ''approved'' ''bob'' []) open_request"
proof
  have "py_strip ''a'' = ''a''" by code_simp
  moreover have "request_entry_of demo_rt open_request ''a'' \<noteq> None" by code_simp
  ultimately show "count_calls (decides demo_rt ''a'') (ledger_exec demo_rt)
     [(''2'', Decide ''a'' ''approved'' ''bob'' []), (''3'', Decide ''a'' ''rejected'' ''eve'' [])] open_request \<le> 1"
    by (rule decided_once)
  show "decides demo_rt ''a'' (''2'', Decide ''a'' ''approved'' ''bob'' []) open_request" by code_simp
qed

section \<open>Where the ledger fails\<close>

text \<open>Without a configured path every call opens an empty ledger of requests: a request is accepted and audited, and
  no decision on it can ever be made.\<close>

theorem memory_ledger_forgets:
  assumes "\<not> av_path E" "\<not> av_path E'" "runtime_call R E (RequestAction k name target requester site details) doc = (Inr r, doc')"
  shows "doc' = doc \<and> (\<exists>e. fst (runtime_call R E' (Decide k status actor reason) doc') = Inl e)"
proof
  have empty: "load_requests R False d = \<lparr>lg_path = False, lg_requests = []\<rparr>" for d
    by (simp add: load_requests_def split: option.splits)
  obtain l where "create_request R (av_now E) (request_payload (av_now E) k name target requester site details) \<lparr>lg_path = False, lg_requests = []\<rparr>
      = Inr (r, l)" "doc' = save_ledger l doc"
    using assms(1,3) by (auto simp: runtime_call_def empty split: sum.splits)
  then show "doc' = doc" by (auto simp: create_request_def save_ledger_def Let_def split: if_splits)
  show "\<exists>e. fst (runtime_call R E' (Decide k status actor reason) doc') = Inl e"
    using assms(2) by (simp add: runtime_call_def empty set_request_status_def)
qed

theorem memory_ledger_forgets_witness:
  "\<exists>e. fst (runtime_call demo_rt \<lparr>av_path = False, av_now = ''2''\<rparr> (Decide ''a'' ''approved'' ''bob'' [])
      (snd (runtime_call demo_rt \<lparr>av_path = False, av_now = ''1''\<rparr> (RequestAction ''a'' ''stop'' ''pump'' ''ann'' ''s'' []) None))) = Inl e"
proof -
  let ?c = "runtime_call demo_rt \<lparr>av_path = False, av_now = ''1''\<rparr> (RequestAction ''a'' ''stop'' ''pump'' ''ann'' ''s'' []) None"
  have "is_ok (fst ?c)" by code_simp
  then obtain r where "?c = (Inr r, snd ?c)" by (cases "fst ?c") (auto simp: is_ok_def prod_eq_iff)
  from memory_ledger_forgets [OF _ _ this, of "\<lparr>av_path = False, av_now = ''2''\<rparr>" "''approved''" "''bob''" "[]"]
  show ?thesis unfolding action_env.select_convs by blast
qed

text \<open>Two processes that open the ledger of requests before either saves can approve and reject the same request: both succeed.\<close>

lemma decision_race:
  assumes "map_of (lg_requests l) k = Some r" "pget r ''status'' = PStr ''pending_approval''"
  shows "is_ok (set_request_status R t1 k ''approved'' a1 [] l) \<and> is_ok (set_request_status R t2 k ''rejected'' a2 [] l)"
  using assms by (simp add: set_request_status_def decision_statuses_def is_ok_def)

text \<open>An identifier with a trailing space is checked without it and stored with it: the same request can be made
  again after its decision, and is pending again.\<close>

lemma padded_request_reset:
  "let doc = ledger_exec demo_rt (''2'', Decide ''a '' ''rejected'' ''bob'' [])
         (ledger_exec demo_rt (''1'', RequestAction ''a '' ''stop'' ''pump'' ''ann'' ''s'' []) None);
       doc' = ledger_exec demo_rt (''3'', RequestAction ''a '' ''stop'' ''pump'' ''ann'' ''s'' []) doc
   in map_option (\<lambda>r. pget r ''status'') (request_entry_of demo_rt doc ''a '') = Some (PStr ''rejected'')
      \<and> map_option (\<lambda>r. pget r ''status'') (request_entry_of demo_rt doc' ''a '') = Some (PStr ''pending_approval'')"
  by code_simp

end
