(* ===== verification/Site_Profile.thy ===== *)
theory Site_Profile
  imports Py_Prelude
begin

text \<open>
  Site profiles (\<open>services/common/site_profiles.py\<close>): the nested records of a deployed site, reading
  them from the parsed YAML document, their validation and the environment of the site's services. Parsing YAML
  is a package's work: a file enters as the value it parses to.
\<close>

section \<open>Reading values of a document\<close>

text \<open>\<open>value or {}\<close> used as a dictionary, \<open>str(d.get(k, default)).strip()\<close>, \<open>int(d.get(k, default))\<close>.\<close>

definition or_dict :: "pyval \<Rightarrow> string + pydict" where
  "or_dict v = (if truthy v then (case v of PDict d \<Rightarrow> Inr d | _ \<Rightarrow> Inl ''AttributeError'') else Inr [])"

definition strip_field :: "pyrt \<Rightarrow> pydict \<Rightarrow> string \<Rightarrow> string \<Rightarrow> string" where
  "strip_field R d k default_text = py_strip (py_str R (dict_getd d k (PStr default_text)))"

definition int_field :: "pydict \<Rightarrow> string \<Rightarrow> int \<Rightarrow> string + int" where
  "int_field d k n = (case py_int (dict_getd d k (PInt n)) of None \<Rightarrow> Inl ''ValueError'' | Some i \<Rightarrow> Inr i)"

definition opt_field :: "pyrt \<Rightarrow> pydict \<Rightarrow> string \<Rightarrow> string option" where
  "opt_field R d k = (if truthy (pget d k) then Some (py_strip (py_str R (pget d k))) else None)"

definition as_bool :: "pyrt \<Rightarrow> pyval \<Rightarrow> bool" where
  "as_bool R v =
     (case v of PBool b \<Rightarrow> b
      | _ \<Rightarrow> py_lower (py_strip (py_str R v)) \<in> set [''1'', ''true'', ''yes'', ''on''])"

section \<open>Profiles\<close>

record site_identity =
  sit_id :: string
  sit_name :: string
  sit_region :: string
  sit_zone :: string

record ai_profile =
  aip_provider :: string
  aip_endpoint :: string
  aip_model :: string
  aip_local :: bool

record runtime_profile =
  rtp_tag :: string
  rtp_mode :: string
  rtp_brokers :: string
  rtp_historian :: string
  rtp_ai :: ai_profile

record backup_policy =
  bkp_directory :: string
  bkp_schedule :: string
  bkp_days :: int
  bkp_database :: "string option"
  bkp_owner :: string
  bkp_drill_owner :: string

record federation_profile =
  fdp_enabled :: bool
  fdp_mode :: string
  fdp_endpoint :: "string option"

record site_profile =
  spf_version :: int
  spf_id :: string
  spf_deployment :: string
  spf_site :: site_identity
  spf_runtime :: runtime_profile
  spf_backups :: backup_policy
  spf_federation :: federation_profile

definition deployment_modes :: "string list" where
  "deployment_modes = [''single-site'', ''plant-local'', ''federated'']"

definition runtime_modes :: "string list" where
  "runtime_modes = [''python-fallback'', ''flink-local'', ''flink-production'']"

definition default_runtime_mode :: "string \<Rightarrow> string" where
  "default_runtime_mode m =
     dict_getd [(''single-site'', ''python-fallback''), (''plant-local'', ''flink-local''), (''federated'', ''flink-production'')]
       m ''python-fallback''"

definition or_text :: "string \<Rightarrow> string \<Rightarrow> string" where
  "or_text a b = (if a = [] then b else a)"

definition load_identity :: "pyrt \<Rightarrow> pydict \<Rightarrow> site_identity" where
  "load_identity R d =
     \<lparr>sit_id = strip_field R d ''id'' [], sit_name = strip_field R d ''name'' [],
      sit_region = strip_field R d ''region'' [], sit_zone = strip_field R d ''network_zone'' []\<rparr>"

definition load_ai :: "pyrt \<Rightarrow> pydict \<Rightarrow> ai_profile" where
  "load_ai R d =
     \<lparr>aip_provider = strip_field R d ''provider'' ''openai_compat'', aip_endpoint = strip_field R d ''endpoint_url'' [],
      aip_model = strip_field R d ''model_id'' [], aip_local = as_bool R (dict_getd d ''local_only'' (PBool False))\<rparr>"

definition load_runtime :: "pyrt \<Rightarrow> string \<Rightarrow> pydict \<Rightarrow> pydict \<Rightarrow> runtime_profile" where
  "load_runtime R deployment d ai =
     \<lparr>rtp_tag = strip_field R d ''image_tag'' ''latest'',
      rtp_mode = or_text (strip_field R d ''mode'' (default_runtime_mode deployment)) (default_runtime_mode deployment),
      rtp_brokers = strip_field R d ''kafka_brokers'' [], rtp_historian = strip_field R d ''historian_backend'' ''timescaledb'',
      rtp_ai = load_ai R ai\<rparr>"

definition load_backups :: "pyrt \<Rightarrow> pydict \<Rightarrow> string + backup_policy" where
  "load_backups R d =
     res_bind (int_field d ''retention_days'' 7) (\<lambda>days. Inr
     \<lparr>bkp_directory = strip_field R d ''directory'' ''backups'', bkp_schedule = strip_field R d ''schedule'' ''daily'',
      bkp_days = days, bkp_database = opt_field R d ''restore_test_database'', bkp_owner = strip_field R d ''owner'' [],
      bkp_drill_owner = strip_field R d ''restore_drill_owner'' []\<rparr>)"

definition load_site_federation :: "pyrt \<Rightarrow> pydict \<Rightarrow> federation_profile" where
  "load_site_federation R d =
     \<lparr>fdp_enabled = as_bool R (dict_getd d ''enabled'' (PBool False)), fdp_mode = strip_field R d ''export_mode'' ''none'',
      fdp_endpoint = opt_field R d ''central_endpoint''\<rparr>"

text \<open>\<open>load_site_profile\<close> of the parsed document.\<close>

definition load_profile :: "pyrt \<Rightarrow> pyval \<Rightarrow> string + site_profile" where
  "load_profile R document =
     res_bind (or_dict document) (\<lambda>data. res_bind (or_dict (pget data ''site'')) (\<lambda>site.
     res_bind (or_dict (pget data ''runtime'')) (\<lambda>runtime. res_bind (or_dict (pget runtime ''ai'')) (\<lambda>ai.
     res_bind (or_dict (pget data ''backups'')) (\<lambda>backups. res_bind (or_dict (pget data ''federation'')) (\<lambda>federation.
     res_bind (int_field data ''schema_version'' 1) (\<lambda>version. res_bind (load_backups R backups) (\<lambda>b.
       let deployment = strip_field R data ''deployment_mode'' []
       in Inr \<lparr>spf_version = version, spf_id = strip_field R data ''profile_id'' [], spf_deployment = deployment,
               spf_site = load_identity R site, spf_runtime = load_runtime R deployment runtime ai, spf_backups = b,
               spf_federation = load_site_federation R federation\<rparr>))))))))"

text \<open>\<open>asdict\<close>.\<close>

definition opt_value :: "string option \<Rightarrow> pyval" where
  "opt_value x = (case x of None \<Rightarrow> PNone | Some s \<Rightarrow> PStr s)"

definition profile_dict :: "site_profile \<Rightarrow> pydict" where
  "profile_dict p =
     (let s = spf_site p; r = spf_runtime p; a = rtp_ai r; b = spf_backups p; f = spf_federation p in
      [(''schema_version'', PInt (spf_version p)), (''profile_id'', PStr (spf_id p)), (''deployment_mode'', PStr (spf_deployment p)),
       (''site'', PDict [(''id'', PStr (sit_id s)), (''name'', PStr (sit_name s)), (''region'', PStr (sit_region s)),
                         (''network_zone'', PStr (sit_zone s))]),
       (''runtime'', PDict [(''image_tag'', PStr (rtp_tag r)), (''mode'', PStr (rtp_mode r)), (''kafka_brokers'', PStr (rtp_brokers r)),
                            (''historian_backend'', PStr (rtp_historian r)),
                            (''ai'', PDict [(''provider'', PStr (aip_provider a)), (''endpoint_url'', PStr (aip_endpoint a)),
                                            (''model_id'', PStr (aip_model a)), (''local_only'', PBool (aip_local a))])]),
       (''backups'', PDict [(''directory'', PStr (bkp_directory b)), (''schedule'', PStr (bkp_schedule b)),
                            (''retention_days'', PInt (bkp_days b)), (''restore_test_database'', opt_value (bkp_database b)),
                            (''owner'', PStr (bkp_owner b)), (''restore_drill_owner'', PStr (bkp_drill_owner b))]),
       (''federation'', PDict [(''enabled'', PBool (fdp_enabled f)), (''export_mode'', PStr (fdp_mode f)),
                               (''central_endpoint'', opt_value (fdp_endpoint f))])])"

definition true_text :: "bool \<Rightarrow> string" where
  "true_text b = (if b then ''true'' else ''false'')"

definition to_env :: "site_profile \<Rightarrow> (string \<times> string) list" where
  "to_env p =
     (let s = spf_site p; r = spf_runtime p; a = rtp_ai r; b = spf_backups p; f = spf_federation p in
      [(''SITE_ID'', sit_id s), (''SITE_NAME'', sit_name s), (''REGION'', sit_region s), (''NETWORK_ZONE'', sit_zone s),
       (''DEPLOYMENT_MODE'', spf_deployment p), (''RUNTIME_MODE'', rtp_mode r), (''KAFKA_BROKERS'', rtp_brokers r),
       (''HISTORIAN_BACKEND'', rtp_historian r), (''LLM_PROVIDER'', aip_provider a), (''LLM_ENDPOINT_URL'', aip_endpoint a),
       (''LLM_MODEL_ID'', aip_model a), (''LLM_LOCAL_ONLY'', true_text (aip_local a)),
       (''SEMANTIC_STORE_BACKEND'', if spf_deployment p \<in> set [''plant-local'', ''federated''] then ''db'' else ''auto''),
       (''DATASTREAM_BACKUP_DIR'', bkp_directory b), (''DATASTREAM_BACKUP_SCHEDULE'', bkp_schedule b),
       (''DATASTREAM_BACKUP_RETENTION_DAYS'', int_str (bkp_days b)), (''DATASTREAM_BACKUP_OWNER'', bkp_owner b),
       (''DATASTREAM_RESTORE_DRILL_OWNER'', bkp_drill_owner b), (''DATASTREAM_FEDERATION_ENABLED'', true_text (fdp_enabled f)),
       (''DATASTREAM_FEDERATION_EXPORT_MODE'', fdp_mode f),
       (''DATASTREAM_CENTRAL_ENDPOINT'', case fdp_endpoint f of None \<Rightarrow> [] | Some e \<Rightarrow> e)])"

text \<open>An error list of a validator: each check adds its message when it fails.\<close>

definition complain :: "bool \<Rightarrow> 'a \<Rightarrow> 'a list" where
  "complain bad message = (if bad then [message] else [])"

definition text_list :: "pyrt \<Rightarrow> string list \<Rightarrow> string" where
  "text_list R xs = py_str R (PList (map PStr xs))"

definition validate_profile :: "pyrt \<Rightarrow> site_profile \<Rightarrow> string list" where
  "validate_profile R p =
     (let r = spf_runtime p; a = rtp_ai r; b = spf_backups p; f = spf_federation p in
      complain (spf_version p \<noteq> 1) (''unsupported schema_version: '' @ int_str (spf_version p))
      @ complain (spf_id p = []) ''profile_id is required''
      @ complain (spf_deployment p \<notin> set deployment_modes) (''deployment_mode must be one of '' @ text_list R (sort deployment_modes))
      @ complain (rtp_mode r \<notin> set runtime_modes) (''runtime.mode must be one of '' @ text_list R (sort runtime_modes))
      @ complain (sit_id (spf_site p) = []) ''site.id is required''
      @ complain (sit_name (spf_site p) = []) ''site.name is required''
      @ complain (rtp_brokers r = []) ''runtime.kafka_brokers is required''
      @ complain (rtp_historian r = []) ''runtime.historian_backend is required''
      @ complain (aip_provider a \<noteq> ''disabled'' \<and> aip_endpoint a = []) ''runtime.ai.endpoint_url is required unless the provider is disabled''
      @ complain (aip_provider a \<noteq> ''disabled'' \<and> aip_model a = []) ''runtime.ai.model_id is required unless the provider is disabled''
      @ complain (bkp_directory b = []) ''backups.directory is required''
      @ complain (bkp_schedule b = []) ''backups.schedule is required''
      @ complain (bkp_days b < 1) ''backups.retention_days must be >= 1''
      @ complain (spf_deployment p = ''federated'' \<and> \<not> fdp_enabled f) ''federation.enabled must be true for deployment_mode=federated''
      @ complain (fdp_enabled f \<and> fdp_endpoint f \<in> {None, Some []}) ''federation.central_endpoint is required when federation.enabled=true''
      @ complain (\<not> fdp_enabled f \<and> fdp_mode f \<notin> set [''none'', '''']) ''federation.export_mode must be \\'none\\' when federation is disabled'')"

section \<open>What validation accepts\<close>

lemma complain_Nil [simp]: "complain bad m = [] \<longleftrightarrow> \<not> bad"
  by (simp add: complain_def)

text \<open>A profile that validation accepts, stated without its error list.\<close>

definition profile_ok :: "site_profile \<Rightarrow> bool" where
  "profile_ok p \<longleftrightarrow>
     spf_version p = 1 \<and> spf_id p \<noteq> [] \<and> sit_id (spf_site p) \<noteq> [] \<and> sit_name (spf_site p) \<noteq> []
     \<and> spf_deployment p \<in> {''single-site'', ''plant-local'', ''federated''}
     \<and> rtp_mode (spf_runtime p) \<in> {''python-fallback'', ''flink-local'', ''flink-production''}
     \<and> rtp_brokers (spf_runtime p) \<noteq> [] \<and> rtp_historian (spf_runtime p) \<noteq> []
     \<and> (aip_provider (rtp_ai (spf_runtime p)) = ''disabled''
        \<or> aip_endpoint (rtp_ai (spf_runtime p)) \<noteq> [] \<and> aip_model (rtp_ai (spf_runtime p)) \<noteq> [])
     \<and> bkp_directory (spf_backups p) \<noteq> [] \<and> bkp_schedule (spf_backups p) \<noteq> [] \<and> 1 \<le> bkp_days (spf_backups p)
     \<and> (if fdp_enabled (spf_federation p) then (case fdp_endpoint (spf_federation p) of None \<Rightarrow> False | Some e \<Rightarrow> e \<noteq> [])
        else spf_deployment p \<noteq> ''federated'' \<and> fdp_mode (spf_federation p) \<in> {''none'', []})"

lemma endpoint_missing: "x \<notin> {None, Some []} \<longleftrightarrow> (case x of None \<Rightarrow> False | Some e \<Rightarrow> e \<noteq> [])"
  by (cases x) auto

lemma profile_accepted: "validate_profile R p = [] \<longleftrightarrow> profile_ok p"
  unfolding validate_profile_def profile_ok_def Let_def append_is_Nil_conv complain_Nil deployment_modes_def runtime_modes_def
    endpoint_missing de_Morgan_conj not_not list.set not_less
  by (cases "fdp_enabled (spf_federation p)"; simp only: if_True if_False; argo)

section \<open>Writing and reading a profile\<close>

lemma strip_field_dict: "map_of d k = Some (PStr s) \<Longrightarrow> strip_field R d k t = py_strip s"
  by (simp add: strip_field_def dict_getd_def)

lemma int_field_dict: "map_of d k = Some (PInt i) \<Longrightarrow> int_field d k n = Inr i"
  by (simp add: int_field_def dict_getd_def py_int_def)

lemma opt_field_dict:
  "map_of d k = Some (opt_value x) \<Longrightarrow> x \<noteq> Some [] \<Longrightarrow> opt_field R d k = map_option py_strip x"
  by (cases x) (auto simp: opt_field_def pget_def dict_getd_def opt_value_def)

lemma strip_field_stripped [simp]: "py_strip (strip_field R d k t) = strip_field R d k t"
  by (simp add: strip_field_def py_strip_idem)

lemma opt_field_stripped [simp]: "map_option py_strip (opt_field R d k) = opt_field R d k"
  by (simp add: opt_field_def py_strip_idem)

text \<open>What loading gives: every text stripped, a runtime mode.\<close>

definition profile_stripped :: "site_profile \<Rightarrow> bool" where
  "profile_stripped p \<longleftrightarrow>
     (let s = spf_site p; r = spf_runtime p; a = rtp_ai r; b = spf_backups p; f = spf_federation p in
      (\<forall>t \<in> set [spf_id p, spf_deployment p, sit_id s, sit_name s, sit_region s, sit_zone s, rtp_tag r, rtp_mode r, rtp_brokers r,
              rtp_historian r, aip_provider a, aip_endpoint a, aip_model a, bkp_directory b, bkp_schedule b, bkp_owner b,
              bkp_drill_owner b, fdp_mode f]. py_strip t = t)
      \<and> rtp_mode r \<noteq> [] \<and> map_option py_strip (bkp_database b) = bkp_database b
      \<and> map_option py_strip (fdp_endpoint f) = fdp_endpoint f)"

lemma default_mode_stripped: "py_strip (default_runtime_mode m) = default_runtime_mode m \<and> default_runtime_mode m \<noteq> []"
  unfolding default_runtime_mode_def dict_getd_def
  by (cases "m = ''single-site''"; cases "m = ''plant-local''"; cases "m = ''federated''") (simp; code_simp)+

lemma loaded_profile_stripped:
  assumes "load_profile R v = Inr p" shows "profile_stripped p"
proof -
  obtain data site runtime ai backups fed version b where
    b: "load_backups R backups = Inr b"
    and p: "p = \<lparr>spf_version = version, spf_id = strip_field R data ''profile_id'' [], spf_deployment = strip_field R data ''deployment_mode'' [],
               spf_site = load_identity R site, spf_runtime = load_runtime R (strip_field R data ''deployment_mode'' []) runtime ai,
               spf_backups = b, spf_federation = load_site_federation R fed\<rparr>"
    using assms unfolding load_profile_def Let_def by (elim res_bind_InrE) blast
  have "bkp_directory b = strip_field R backups ''directory'' ''backups''" "bkp_schedule b = strip_field R backups ''schedule'' ''daily''"
    "bkp_owner b = strip_field R backups ''owner'' []" "bkp_drill_owner b = strip_field R backups ''restore_drill_owner'' []"
    "bkp_database b = opt_field R backups ''restore_test_database''"
    using b unfolding load_backups_def by auto
  then show ?thesis
    unfolding profile_stripped_def p Let_def load_identity_def load_runtime_def load_ai_def load_site_federation_def or_text_def
    using default_mode_stripped by simp
qed

lemma load_profile_dict:
  assumes "profile_stripped p" "bkp_database (spf_backups p) \<noteq> Some []" "fdp_endpoint (spf_federation p) \<noteq> Some []"
  shows "load_profile R (PDict (profile_dict p)) = Inr p"
  using assms
  unfolding load_profile_def profile_dict_def profile_stripped_def Let_def load_identity_def load_runtime_def load_ai_def
    load_site_federation_def load_backups_def or_text_def
  by (simp add: or_dict_def pget_def dict_getd_def strip_field_dict int_field_dict opt_field_dict as_bool_def)

text \<open>A profile that was read and is written out is read back as it was, unless the name of the restore database or
  the central endpoint is a text of spaces.\<close>

theorem profile_roundtrip:
  assumes "load_profile R v = Inr p" "bkp_database (spf_backups p) \<noteq> Some []" "fdp_endpoint (spf_federation p) \<noteq> Some []"
  shows "load_profile R (PDict (profile_dict p)) = Inr p"
  using loaded_profile_stripped [OF assms(1)] assms(2,3) by (rule load_profile_dict)

definition plant_document :: pydict where
  "plant_document =
     [(''profile_id'', PStr ''p1''), (''deployment_mode'', PStr ''plant-local''), (''site'', PDict [(''id'', PStr ''s1''), (''name'', PStr ''Site'')]),
      (''runtime'', PDict [(''kafka_brokers'', PStr ''k:9092''), (''ai'', PDict [(''provider'', PStr ''disabled'')])])]"

definition plant_profile :: site_profile where
  "plant_profile =
     \<lparr>spf_version = 1, spf_id = ''p1'', spf_deployment = ''plant-local'', spf_site = \<lparr>sit_id = ''s1'', sit_name = ''Site'', sit_region = [], sit_zone = []\<rparr>,
      spf_runtime = \<lparr>rtp_tag = ''latest'', rtp_mode = ''flink-local'', rtp_brokers = ''k:9092'', rtp_historian = ''timescaledb'',
                     rtp_ai = \<lparr>aip_provider = ''disabled'', aip_endpoint = [], aip_model = [], aip_local = False\<rparr>\<rparr>,
      spf_backups = \<lparr>bkp_directory = ''backups'', bkp_schedule = ''daily'', bkp_days = 7, bkp_database = None, bkp_owner = [], bkp_drill_owner = []\<rparr>,
      spf_federation = \<lparr>fdp_enabled = False, fdp_mode = ''none'', fdp_endpoint = None\<rparr>\<rparr>"

lemma plant_loads: "load_profile demo_rt (PDict plant_document) = Inr plant_profile"
  by code_simp

lemma plant_ok: "profile_ok plant_profile"
  by code_simp

theorem profile_roundtrip_witness: "load_profile demo_rt (PDict (profile_dict plant_profile)) = Inr plant_profile"
  by (rule profile_roundtrip [OF plant_loads]) (simp_all add: plant_profile_def)

text \<open>An explicit null is the text \<open>None\<close>: a profile without a site identifier is accepted.\<close>

lemma null_identifier_accepted:
  "load_identity demo_rt [(''id'', PNone)] = \<lparr>sit_id = ''None'', sit_name = [], sit_region = [], sit_zone = []\<rparr>"
  by code_simp

end
