(* ===== verification/Project_Manifest.thy ===== *)
theory Project_Manifest
  imports Site_Profile
begin

text \<open>
  The project manifest (\<open>services/common/project_manifest.py\<close>): the paths of \<open>pathlib\<close> the loader
  and the exporter need, the records of a project, reading them from the parsed YAML document, \<open>to_dict\<close>,
  \<open>entity_id\<close>, the validation, the lint, and the environments of the sites. The YAML files of a disk are a function
  from a path to the document it parses to; \<open>None\<close> is a file that does not exist.
\<close>

section \<open>Paths\<close>

text \<open>A POSIX path of \<open>pathlib\<close>: the anchor (none, one slash, or two) and the parts, without empty ones and
  without single dots.\<close>

type_synonym pypath = "string \<times> string list"

definition path_of :: "string \<Rightarrow> pypath" where
  "path_of s =
     ((if starts_with s ''//'' \<and> \<not> starts_with s ''///'' then ''//'' else if starts_with s ''/'' then ''/'' else []),
      filter (\<lambda>x. x \<noteq> [] \<and> x \<noteq> ''.'') (split_on (CHR ''/'') s))"

definition path_str :: "pypath \<Rightarrow> string" where
  "path_str p = (if p = ([], []) then ''.'' else fst p @ join ''/'' (snd p))"

text \<open>\<open>a / b\<close> of two paths and of a path and a text, \<open>p.parent\<close>.\<close>

definition path_join :: "pypath \<Rightarrow> pypath \<Rightarrow> pypath" where
  "path_join a b = (if fst b \<noteq> [] then b else (fst a, snd a @ snd b))"

definition path_div :: "pypath \<Rightarrow> string \<Rightarrow> pypath" where
  "path_div p s = path_join p (path_of s)"

definition path_parent :: "pypath \<Rightarrow> pypath" where
  "path_parent p = (fst p, butlast (snd p))"

section \<open>Records\<close>

record project_site =
  pjs_id :: string
  pjs_path :: string
  pjs_label :: string
  pjs_notes :: string

record project_source =
  src_id :: string
  src_site :: string
  src_protocol :: string
  src_asset :: string
  src_line :: string
  src_tags :: "string list"
  src_topic :: string
  src_notes :: string

record bridge_rule =
  brl_name :: string
  brl_mode :: string
  brl_from :: "string list"
  brl_to :: "string list"
  brl_topic :: string
  brl_enabled :: bool
  brl_text :: string

record correlation_group =
  cgr_name :: string
  cgr_members :: "string list"
  cgr_strategy :: string
  cgr_window :: int
  cgr_text :: string

record project_retention =
  prt_historian :: int
  prt_raw :: int
  prt_compressed :: int
  prt_backup :: int

record federation_policy =
  fpo_enabled :: bool
  fpo_topics :: "string list"
  fpo_cluster :: string
  fpo_raw :: bool

record lakehouse_policy =
  lkp_layout :: string
  lkp_namespace :: string
  lkp_table :: string
  lkp_central :: bool

record quality_policy =
  qpo_clock :: string
  qpo_offset :: rat
  qpo_late :: rat

record project_manifest =
  pjm_version :: int
  pjm_id :: string
  pjm_name :: string
  pjm_text :: string
  pjm_sites :: "project_site list"
  pjm_sources :: "project_source list"
  pjm_rules :: "bridge_rule list"
  pjm_groups :: "correlation_group list"
  pjm_retention :: project_retention
  pjm_organization :: string
  pjm_federation :: federation_policy
  pjm_lakehouse :: lakehouse_policy
  pjm_quality :: quality_policy

definition bridge_modes :: "string list" where
  "bridge_modes = [''replicate'', ''fanout'', ''correlate'', ''rollup'']"

definition lakehouse_layouts :: "string list" where
  "lakehouse_layouts = [''single-table'', ''per-site'', ''shared-partitioned'']"

definition clock_policies :: "string list" where
  "clock_policies = [''observe'', ''warn'', ''reject'']"

section \<open>Reading a manifest\<close>

text \<open>\<open>for x in v\<close>, \<open>tuple(str(x).strip() for x in v if str(x).strip())\<close> and \<open>_load_tuple\<close>.\<close>

definition iter_values :: "pyval \<Rightarrow> string + pyval list" where
  "iter_values v =
     (case v of PList vs \<Rightarrow> Inr vs | PStr s \<Rightarrow> Inr (map (\<lambda>c. PStr [c]) s) | PDict d \<Rightarrow> Inr (map (PStr \<circ> fst) d)
      | _ \<Rightarrow> Inl ''TypeError'')"

definition strip_texts :: "pyrt \<Rightarrow> pyval \<Rightarrow> string + string list" where
  "strip_texts R v = res_bind (iter_values v) (\<lambda>vs. Inr (filter (\<lambda>s. s \<noteq> []) (map (py_strip \<circ> py_str R) vs)))"

fun each_item :: "(pydict \<Rightarrow> string + 'a) \<Rightarrow> pyval list \<Rightarrow> string + 'a list" where
  "each_item f [] = Inr []"
| "each_item f (v # vs) =
     (case v of
        PDict d \<Rightarrow> res_bind (f d) (\<lambda>x. res_bind (each_item f vs) (\<lambda>xs. Inr (x # xs)))
      | _ \<Rightarrow> Inl ''AttributeError'')"

definition load_tuple :: "(pydict \<Rightarrow> string + 'a) \<Rightarrow> pyval \<Rightarrow> string + 'a list" where
  "load_tuple f v = (if \<not> truthy v then Inr [] else res_bind (iter_values v) (each_item f))"

definition load_project_site :: "pyrt \<Rightarrow> pydict \<Rightarrow> string + project_site" where
  "load_project_site R d =
     Inr \<lparr>pjs_id = strip_field R d ''site_id'' [], pjs_path = strip_field R d ''profile_path'' [],
          pjs_label = strip_field R d ''label'' [], pjs_notes = strip_field R d ''notes'' []\<rparr>"

definition load_source :: "pyrt \<Rightarrow> pydict \<Rightarrow> string + project_source" where
  "load_source R d =
     res_bind (strip_texts R (dict_getd d ''tags'' (PList []))) (\<lambda>tags. Inr
     \<lparr>src_id = strip_field R d ''source_id'' [], src_site = strip_field R d ''site_id'' [],
      src_protocol = strip_field R d ''source_protocol'' [], src_asset = strip_field R d ''asset_id'' [],
      src_line = strip_field R d ''line'' [], src_tags = tags, src_topic = strip_field R d ''topic'' [],
      src_notes = strip_field R d ''notes'' []\<rparr>)"

definition load_bridge :: "pyrt \<Rightarrow> pydict \<Rightarrow> string + bridge_rule" where
  "load_bridge R d =
     res_bind (strip_texts R (dict_getd d ''from_sources'' (PList []))) (\<lambda>sources.
     res_bind (strip_texts R (dict_getd d ''to_sources'' (PList []))) (\<lambda>targets. Inr
     \<lparr>brl_name = strip_field R d ''name'' [], brl_mode = strip_field R d ''mode'' [], brl_from = sources, brl_to = targets,
      brl_topic = strip_field R d ''topic_template'' [], brl_enabled = truthy (dict_getd d ''enabled'' (PBool True)),
      brl_text = strip_field R d ''description'' []\<rparr>))"

definition load_group :: "pyrt \<Rightarrow> pydict \<Rightarrow> string + correlation_group" where
  "load_group R d =
     res_bind (strip_texts R (dict_getd d ''members'' (PList []))) (\<lambda>members.
     res_bind (int_field d ''window_minutes'' 60) (\<lambda>window. Inr
     \<lparr>cgr_name = strip_field R d ''name'' [], cgr_members = members, cgr_strategy = strip_field R d ''strategy'' ''site_asset_tag'',
      cgr_window = window, cgr_text = strip_field R d ''description'' []\<rparr>))"

definition default_topics :: "string list" where
  "default_topics = [''industrial.normalized'', ''industrial.operational'']"

definition load_federation_policy :: "pyrt \<Rightarrow> pydict \<Rightarrow> string + federation_policy" where
  "load_federation_policy R d =
     res_bind (strip_texts R (dict_getd d ''topics'' (PList (map PStr default_topics)))) (\<lambda>topics. Inr
     \<lparr>fpo_enabled = truthy (dict_getd d ''enabled'' (PBool False)), fpo_topics = topics,
      fpo_cluster = strip_field R d ''central_cluster'' [], fpo_raw = truthy (dict_getd d ''raw_enabled'' (PBool False))\<rparr>)"

definition load_lakehouse_policy :: "pyrt \<Rightarrow> pydict \<Rightarrow> string + lakehouse_policy" where
  "load_lakehouse_policy R d =
     Inr \<lparr>lkp_layout = strip_field R d ''layout'' ''single-table'', lkp_namespace = strip_field R d ''namespace_template'' ''industrial'',
          lkp_table = strip_field R d ''table_template'' ''events'', lkp_central = truthy (dict_getd d ''central_writer'' (PBool True))\<rparr>"

definition float_field :: "pyrt \<Rightarrow> pydict \<Rightarrow> string \<Rightarrow> rat \<Rightarrow> string + rat" where
  "float_field R d k x = (case py_float R (dict_getd d k (PFloat x)) of None \<Rightarrow> Inl ''ValueError'' | Some y \<Rightarrow> Inr y)"

definition load_quality :: "pyrt \<Rightarrow> pydict \<Rightarrow> string + quality_policy" where
  "load_quality R d =
     res_bind (float_field R d ''max_clock_offset_seconds'' 300) (\<lambda>offset. res_bind (float_field R d ''late_event_seconds'' 60) (\<lambda>late.
       Inr \<lparr>qpo_clock = strip_field R d ''clock_mode'' ''observe'', qpo_offset = offset, qpo_late = late\<rparr>))"

definition load_retention :: "pydict \<Rightarrow> string + project_retention" where
  "load_retention d =
     res_bind (int_field d ''historian_days'' 90) (\<lambda>h. res_bind (int_field d ''raw_days'' 30) (\<lambda>r.
     res_bind (int_field d ''compressed_days'' 7) (\<lambda>c. res_bind (int_field d ''backup_days'' 30) (\<lambda>b.
       Inr \<lparr>prt_historian = h, prt_raw = r, prt_compressed = c, prt_backup = b\<rparr>))))"

definition resolve_site :: "pypath \<Rightarrow> project_site \<Rightarrow> project_site" where
  "resolve_site base s =
     (if pjs_path s = [] then s
      else s\<lparr>pjs_path := path_str (if fst (path_of (pjs_path s)) \<noteq> [] then path_of (pjs_path s)
                                   else path_join base (path_of (pjs_path s)))\<rparr>)"

definition load_manifest :: "pyrt \<Rightarrow> string \<Rightarrow> pyval \<Rightarrow> string + project_manifest" where
  "load_manifest R path document =
     res_bind (or_dict document) (\<lambda>data. res_bind (or_dict (pget data ''retention'')) (\<lambda>retention.
     res_bind (load_tuple (load_project_site R) (pget data ''sites'')) (\<lambda>sites.
     res_bind (int_field data ''schema_version'' 1) (\<lambda>version.
     res_bind (load_tuple (load_source R) (pget data ''sources'')) (\<lambda>sources.
     res_bind (load_tuple (load_bridge R) (pget data ''bridge_rules'')) (\<lambda>rules.
     res_bind (load_tuple (load_group R) (pget data ''correlation_groups'')) (\<lambda>groups.
     res_bind (load_retention retention) (\<lambda>r.
     res_bind (or_dict (pget data ''federation'')) (\<lambda>fd. res_bind (load_federation_policy R fd) (\<lambda>f.
     res_bind (or_dict (pget data ''lakehouse'')) (\<lambda>ld. res_bind (load_lakehouse_policy R ld) (\<lambda>l.
     res_bind (or_dict (pget data ''quality'')) (\<lambda>qd. res_bind (load_quality R qd) (\<lambda>q.
       Inr \<lparr>pjm_version = version, pjm_id = strip_field R data ''project_id'' [], pjm_name = strip_field R data ''name'' [],
            pjm_text = strip_field R data ''description'' [],
            pjm_sites = map (resolve_site (path_parent (path_parent (path_of path)))) sites,
            pjm_sources = sources, pjm_rules = rules, pjm_groups = groups, pjm_retention = r,
            pjm_organization = py_strip (py_str R (dict_getd data ''organization_id'' (dict_getd data ''project_id'' (PStr [])))),
            pjm_federation = f, pjm_lakehouse = l, pjm_quality = q\<rparr>))))))))))))))"

definition load_project_manifest :: "pyrt \<Rightarrow> (string \<Rightarrow> pyval option) \<Rightarrow> string \<Rightarrow> string + project_manifest" where
  "load_project_manifest R files path =
     (case files (path_str (path_of path)) of None \<Rightarrow> Inl ''FileNotFoundError'' | Some v \<Rightarrow> load_manifest R path v)"

section \<open>Writing a manifest\<close>

definition texts :: "string list \<Rightarrow> pyval" where
  "texts xs = PList (map PStr xs)"

definition project_site_dict :: "project_site \<Rightarrow> pydict" where
  "project_site_dict s =
     [(''site_id'', PStr (pjs_id s)), (''profile_path'', PStr (pjs_path s)), (''label'', PStr (pjs_label s)), (''notes'', PStr (pjs_notes s))]"

definition source_dict :: "project_source \<Rightarrow> pydict" where
  "source_dict s =
     [(''source_id'', PStr (src_id s)), (''site_id'', PStr (src_site s)), (''source_protocol'', PStr (src_protocol s)),
      (''asset_id'', PStr (src_asset s)), (''line'', PStr (src_line s)), (''tags'', texts (src_tags s)), (''topic'', PStr (src_topic s)),
      (''notes'', PStr (src_notes s))]"

definition bridge_dict :: "bridge_rule \<Rightarrow> pydict" where
  "bridge_dict r =
     [(''name'', PStr (brl_name r)), (''mode'', PStr (brl_mode r)), (''from_sources'', texts (brl_from r)), (''to_sources'', texts (brl_to r)),
      (''topic_template'', PStr (brl_topic r)), (''enabled'', PBool (brl_enabled r)), (''description'', PStr (brl_text r))]"

definition group_dict :: "correlation_group \<Rightarrow> pydict" where
  "group_dict g =
     [(''name'', PStr (cgr_name g)), (''members'', texts (cgr_members g)), (''strategy'', PStr (cgr_strategy g)),
      (''window_minutes'', PInt (cgr_window g)), (''description'', PStr (cgr_text g))]"

definition retention_dict :: "project_retention \<Rightarrow> pydict" where
  "retention_dict r =
     [(''historian_days'', PInt (prt_historian r)), (''raw_days'', PInt (prt_raw r)), (''compressed_days'', PInt (prt_compressed r)),
      (''backup_days'', PInt (prt_backup r))]"

definition organization_of :: "project_manifest \<Rightarrow> string" where
  "organization_of m = or_text (pjm_organization m) (pjm_id m)"

definition manifest_dict :: "project_manifest \<Rightarrow> pydict" where
  "manifest_dict m =
     (let f = pjm_federation m; l = pjm_lakehouse m; q = pjm_quality m in
      [(''schema_version'', PInt (pjm_version m)), (''project_id'', PStr (pjm_id m)), (''name'', PStr (pjm_name m)),
       (''description'', PStr (pjm_text m)), (''sites'', PList (map (PDict \<circ> project_site_dict) (pjm_sites m))),
       (''sources'', PList (map (PDict \<circ> source_dict) (pjm_sources m))),
       (''bridge_rules'', PList (map (PDict \<circ> bridge_dict) (pjm_rules m))),
       (''correlation_groups'', PList (map (PDict \<circ> group_dict) (pjm_groups m))),
       (''retention'', PDict (retention_dict (pjm_retention m))), (''organization_id'', PStr (organization_of m)),
       (''federation'', PDict [(''enabled'', PBool (fpo_enabled f)), (''topics'', texts (fpo_topics f)), (''central_cluster'', PStr (fpo_cluster f)),
                               (''raw_enabled'', PBool (fpo_raw f))]),
       (''lakehouse'', PDict [(''layout'', PStr (lkp_layout l)), (''namespace_template'', PStr (lkp_namespace l)),
                              (''table_template'', PStr (lkp_table l)), (''central_writer'', PBool (lkp_central l))]),
       (''quality'', PDict [(''clock_mode'', PStr (qpo_clock q)), (''max_clock_offset_seconds'', PFloat (qpo_offset q)),
                            (''late_event_seconds'', PFloat (qpo_late q))])])"

text \<open>\<open>entity_id\<close>: organization, project, site and local identifier, those that are not blank.\<close>

definition entity_id :: "project_manifest \<Rightarrow> string \<Rightarrow> string \<Rightarrow> string" where
  "entity_id m site local_id =
     join '':'' (filter (\<lambda>x. x \<noteq> []) (map py_strip [organization_of m, pjm_id m, site, local_id]))"

definition source_site_map :: "project_manifest \<Rightarrow> (string \<times> string) list" where
  "source_site_map m = foldl (\<lambda>d s. if src_site s = [] then d else dict_set d (src_id s) (src_site s)) [] (pjm_sources m)"

text \<open>\<open>site_profile_paths\<close> as the texts of its paths.\<close>

definition site_profile_paths :: "project_manifest \<Rightarrow> (string \<times> string) list" where
  "site_profile_paths m = foldl (\<lambda>d s. dict_set d (pjs_id s) (path_str (path_of (pjs_path s)))) [] (pjm_sites m)"

section \<open>Validation\<close>

definition read_profile :: "pyrt \<Rightarrow> (string \<Rightarrow> pyval option) \<Rightarrow> string \<Rightarrow> string + site_profile" where
  "read_profile R files path =
     (case files (path_str (path_of path)) of None \<Rightarrow> Inl ''FileNotFoundError'' | Some v \<Rightarrow> load_profile R v)"

definition check_header :: "pyrt \<Rightarrow> project_manifest \<Rightarrow> string list" where
  "check_header R m =
     complain (pjm_version m \<notin> {1, 2}) (''unsupported schema_version: '' @ int_str (pjm_version m))
     @ complain (pjm_id m = []) ''project_id is required''
     @ complain (pjm_name m = []) ''name is required''
     @ complain (pjm_sites m = []) ''at least one site is required''
     @ complain (pjm_organization m = []) ''organization_id is required''
     @ complain (lkp_layout (pjm_lakehouse m) \<notin> set lakehouse_layouts) (''lakehouse.layout must be one of '' @ text_list R (sort lakehouse_layouts))
     @ complain (qpo_clock (pjm_quality m) \<notin> set clock_policies) (''quality.clock_mode must be one of '' @ text_list R (sort clock_policies))
     @ complain (qpo_offset (pjm_quality m) < 0 \<or> qpo_late (pjm_quality m) < 0) ''quality timing thresholds must be non-negative''
     @ complain (fpo_enabled (pjm_federation m) \<and> fpo_topics (pjm_federation m) = []) ''federation.topics is required when federation is enabled''
     @ complain (length (remdups (map pjs_id (pjm_sites m))) \<noteq> length (pjm_sites m)) ''site_id values must be unique''"

definition check_site :: "pyrt \<Rightarrow> (string \<Rightarrow> pyval option) \<Rightarrow> project_site \<Rightarrow> string + string list" where
  "check_site R files s =
     (let name = or_text (pjs_id s) ''site''; blank = complain (pjs_id s = []) ''site.site_id is required'' in
      if pjs_path s = [] then Inr (blank @ [name @ '': profile_path is required''])
      else if files (path_str (path_of (pjs_path s))) = None
      then Inr (blank @ [name @ '': profile_path does not exist: '' @ pjs_path s])
      else res_bind (read_profile R files (pjs_path s)) (\<lambda>p. Inr
        (blank @ map (\<lambda>e. pjs_id s @ '': '' @ e) (validate_profile R p)
         @ complain (sit_id (spf_site p) \<noteq> [] \<and> sit_id (spf_site p) \<noteq> pjs_id s)
             (pjs_id s @ '': site profile site.id '' @ sit_id (spf_site p) @ '' does not match manifest site_id '' @ pjs_id s))))"

fun check_sites :: "pyrt \<Rightarrow> (string \<Rightarrow> pyval option) \<Rightarrow> project_site list \<Rightarrow> string + string list" where
  "check_sites R files [] = Inr []"
| "check_sites R files (s # ss) =
     res_bind (check_site R files s) (\<lambda>es. res_bind (check_sites R files ss) (\<lambda>fs. Inr (es @ fs)))"

definition check_source :: "string list \<Rightarrow> project_source \<Rightarrow> string list" where
  "check_source sites s =
     complain (src_id s = []) ''source.source_id is required''
     @ complain (src_site s = []) (''source '' @ or_text (src_id s) ''?'' @ '': site_id is required'')
     @ complain (src_site s \<noteq> [] \<and> src_site s \<notin> set sites) (''source '' @ src_id s @ '': unknown site_id '' @ src_site s)
     @ complain (src_site s \<noteq> [] \<and> src_topic s \<noteq> [] \<and> src_site s \<notin> set (split_on (CHR ''/'') (src_topic s)))
         (''source '' @ src_id s @ '': topic must include site boundary for '' @ src_site s)
     @ complain (src_protocol s = []) (''source '' @ src_id s @ '': source_protocol is required'')
     @ complain (src_asset s = []) (''source '' @ src_id s @ '': asset_id is required'')
     @ complain (src_tags s = []) (''source '' @ src_id s @ '': at least one tag is required'')"

text \<open>The sites of the sources a rule or a group names.\<close>

definition sites_of :: "(string \<times> string) list \<Rightarrow> string list \<Rightarrow> string list" where
  "sites_of ssm xs = remdups (filter (\<lambda>s. s \<noteq> []) (map (\<lambda>x. dict_getd ssm x []) xs))"

definition check_rule :: "pyrt \<Rightarrow> string list \<Rightarrow> (string \<times> string) list \<Rightarrow> bridge_rule \<Rightarrow> string list" where
  "check_rule R sources ssm r =
     (let label = ''bridge rule '' @ or_text (brl_name r) ''?'';
          unknown_from = filter (\<lambda>x. x \<notin> set sources) (brl_from r);
          unknown_to = filter (\<lambda>x. x \<notin> set sources) (brl_to r) in
      complain (brl_name r = []) ''bridge rule name is required''
      @ complain (brl_mode r \<notin> set bridge_modes) (label @ '': mode must be one of '' @ text_list R (sort bridge_modes))
      @ complain (brl_from r = []) (label @ '': from_sources is required'')
      @ complain (brl_mode r \<in> set [''replicate'', ''fanout''] \<and> brl_to r = []) (label @ '': to_sources is required for '' @ brl_mode r)
      @ complain (unknown_from \<noteq> []) (label @ '': unknown from_sources '' @ text_list R unknown_from)
      @ complain (unknown_to \<noteq> []) (label @ '': unknown to_sources '' @ text_list R unknown_to)
      @ (if 1 < length (sites_of ssm (brl_from r @ brl_to r))
         then (if brl_topic r = [] then [label @ '': cross-site rules require topic_template'']
               else complain (\<not> contains (brl_topic r) ''{{site_id}}'' \<and> \<not> contains (brl_topic r) ''{{source_site_id}}'')
                      (label @ '': cross-site topic_template must include a site placeholder''))
         else []))"

definition check_group :: "pyrt \<Rightarrow> string list \<Rightarrow> (string \<times> string) list \<Rightarrow> correlation_group \<Rightarrow> string list" where
  "check_group R sources ssm g =
     (let label = ''correlation group '' @ or_text (cgr_name g) ''?'';
          unknown = filter (\<lambda>x. x \<notin> set sources) (cgr_members g) in
      complain (cgr_name g = []) ''correlation group name is required''
      @ complain (cgr_members g = []) (label @ '': members is required'')
      @ complain (unknown \<noteq> []) (label @ '': unknown members '' @ text_list R unknown)
      @ complain (cgr_window g < 1) (label @ '': window_minutes must be >= 1'')
      @ complain (1 < length (sites_of ssm (cgr_members g)) \<and> cgr_strategy g \<notin> set [''cross_site'', ''federated''])
          (label @ '': cross-site grouping requires explicit cross_site or federated strategy''))"

definition check_retention :: "project_retention \<Rightarrow> string list" where
  "check_retention r =
     complain (prt_historian r < prt_raw r) ''retention.historian_days must be >= retention.raw_days''
     @ complain (prt_raw r < prt_compressed r) ''retention.raw_days must be >= retention.compressed_days''
     @ complain (prt_backup r < 1) ''retention.backup_days must be >= 1''"

definition validate_project_manifest :: "pyrt \<Rightarrow> (string \<Rightarrow> pyval option) \<Rightarrow> project_manifest \<Rightarrow> string + string list" where
  "validate_project_manifest R files m =
     res_bind (check_sites R files (pjm_sites m)) (\<lambda>site_errors.
       let sources = map src_id (pjm_sources m); ssm = source_site_map m in Inr
       (check_header R m @ site_errors
        @ complain (length (remdups sources) \<noteq> length sources) ''source_id values must be unique''
        @ concat (map (check_source (map pjs_id (pjm_sites m))) (pjm_sources m))
        @ concat (map (check_rule R sources ssm) (pjm_rules m))
        @ concat (map (check_group R sources ssm) (pjm_groups m))
        @ check_retention (pjm_retention m)))"

section \<open>What validation accepts\<close>

text \<open>A project whose parts fit together, stated over its sources and sites and without error lists.\<close>

definition site_fits :: "pyrt \<Rightarrow> (string \<Rightarrow> pyval option) \<Rightarrow> project_site \<Rightarrow> bool" where
  "site_fits R files s \<longleftrightarrow>
     pjs_id s \<noteq> [] \<and> pjs_path s \<noteq> []
     \<and> (\<exists>p. read_profile R files (pjs_path s) = Inr p \<and> profile_ok p \<and> sit_id (spf_site p) = pjs_id s)"

definition source_fits :: "project_manifest \<Rightarrow> project_source \<Rightarrow> bool" where
  "source_fits m s \<longleftrightarrow>
     src_id s \<noteq> [] \<and> src_protocol s \<noteq> [] \<and> src_asset s \<noteq> [] \<and> src_tags s \<noteq> []
     \<and> (\<exists>site \<in> set (pjm_sites m). src_site s = pjs_id site)
     \<and> (src_topic s \<noteq> [] \<longrightarrow> src_site s \<in> set (split_on (CHR ''/'') (src_topic s)))"

text \<open>Two of the named sources lie at different sites.\<close>

definition spans_sites :: "project_manifest \<Rightarrow> string list \<Rightarrow> bool" where
  "spans_sites m xs \<longleftrightarrow>
     (\<exists>a \<in> set (pjm_sources m). \<exists>b \<in> set (pjm_sources m). src_id a \<in> set xs \<and> src_id b \<in> set xs \<and> src_site a \<noteq> src_site b)"

definition rule_fits :: "project_manifest \<Rightarrow> bridge_rule \<Rightarrow> bool" where
  "rule_fits m r \<longleftrightarrow>
     brl_name r \<noteq> [] \<and> brl_mode r \<in> set bridge_modes \<and> brl_from r \<noteq> []
     \<and> (brl_mode r \<in> set [''replicate'', ''fanout''] \<longrightarrow> brl_to r \<noteq> [])
     \<and> set (brl_from r @ brl_to r) \<subseteq> src_id ` set (pjm_sources m)
     \<and> (spans_sites m (brl_from r @ brl_to r)
        \<longrightarrow> contains (brl_topic r) ''{{site_id}}'' \<or> contains (brl_topic r) ''{{source_site_id}}'')"

definition group_fits :: "project_manifest \<Rightarrow> correlation_group \<Rightarrow> bool" where
  "group_fits m g \<longleftrightarrow>
     cgr_name g \<noteq> [] \<and> cgr_members g \<noteq> [] \<and> 1 \<le> cgr_window g
     \<and> set (cgr_members g) \<subseteq> src_id ` set (pjm_sources m)
     \<and> (spans_sites m (cgr_members g) \<longrightarrow> cgr_strategy g \<in> set [''cross_site'', ''federated''])"

definition header_fits :: "project_manifest \<Rightarrow> bool" where
  "header_fits m \<longleftrightarrow>
     (pjm_version m = 1 \<or> pjm_version m = 2) \<and> pjm_id m \<noteq> [] \<and> pjm_name m \<noteq> [] \<and> pjm_sites m \<noteq> [] \<and> pjm_organization m \<noteq> []
     \<and> lkp_layout (pjm_lakehouse m) \<in> set lakehouse_layouts \<and> qpo_clock (pjm_quality m) \<in> set clock_policies
     \<and> 0 \<le> qpo_offset (pjm_quality m) \<and> 0 \<le> qpo_late (pjm_quality m)
     \<and> (fpo_enabled (pjm_federation m) \<longrightarrow> fpo_topics (pjm_federation m) \<noteq> [])
     \<and> distinct (map pjs_id (pjm_sites m))"

definition manifest_fits :: "pyrt \<Rightarrow> (string \<Rightarrow> pyval option) \<Rightarrow> project_manifest \<Rightarrow> bool" where
  "manifest_fits R files m \<longleftrightarrow>
     header_fits m \<and> distinct (map src_id (pjm_sources m))
     \<and> (\<forall>s \<in> set (pjm_sites m). site_fits R files s) \<and> (\<forall>s \<in> set (pjm_sources m). source_fits m s)
     \<and> (\<forall>r \<in> set (pjm_rules m). rule_fits m r) \<and> (\<forall>g \<in> set (pjm_groups m). group_fits m g)
     \<and> prt_compressed (pjm_retention m) \<le> prt_raw (pjm_retention m) \<and> prt_raw (pjm_retention m) \<le> prt_historian (pjm_retention m)
     \<and> 1 \<le> prt_backup (pjm_retention m)"

lemma remdups_length: "length (remdups xs) \<noteq> length xs \<longleftrightarrow> \<not> distinct xs"
  by (metis length_remdups_card_conv card_distinct distinct_card)

lemma header_checked: "check_header R m = [] \<longleftrightarrow> header_fits m"
proof -
  have n: "length (remdups (map pjs_id (pjm_sites m))) \<noteq> length (pjm_sites m) \<longleftrightarrow> \<not> distinct (map pjs_id (pjm_sites m))"
    using remdups_length [of "map pjs_id (pjm_sites m)"] by simp
  have v: "pjm_version m \<notin> {1, 2} \<longleftrightarrow> \<not> (pjm_version m = 1 \<or> pjm_version m = 2)" by simp
  show ?thesis
    unfolding check_header_def header_fits_def append_is_Nil_conv complain_Nil n v not_not de_Morgan_conj de_Morgan_disj not_less by argo
qed

lemma site_checked: "check_site R files s = Inr [] \<longleftrightarrow> site_fits R files s"
proof (cases "pjs_path s = [] \<or> files (path_str (path_of (pjs_path s))) = None")
  case True
  then show ?thesis by (auto simp: check_site_def site_fits_def read_profile_def Let_def)
next
  case False
  then obtain v where v: "files (path_str (path_of (pjs_path s))) = Some v" by auto
  show ?thesis
  proof (cases "load_profile R v")
    case (Inl e)
    then show ?thesis using False v by (simp add: check_site_def site_fits_def read_profile_def Let_def)
  next
    case (Inr p)
    have "profile_ok p \<Longrightarrow> sit_id (spf_site p) \<noteq> []" by (simp add: profile_ok_def)
    then show ?thesis using False v Inr
      by (auto simp: check_site_def site_fits_def read_profile_def Let_def profile_accepted)
  qed
qed

lemma sites_checked: "check_sites R files ss = Inr [] \<longleftrightarrow> (\<forall>s \<in> set ss. site_fits R files s)"
proof (induction ss)
  case (Cons s ss)
  have "check_sites R files (s # ss) = Inr [] \<longleftrightarrow> check_site R files s = Inr [] \<and> check_sites R files ss = Inr []"
    by (cases "check_site R files s"; cases "check_sites R files ss") auto
  then show ?case using Cons by (simp add: site_checked)
qed simp

lemma source_checked:
  assumes "\<forall>s \<in> set (pjm_sites m). pjs_id s \<noteq> []"
  shows "check_source (map pjs_id (pjm_sites m)) s = [] \<longleftrightarrow> source_fits m s"
proof -
  have "src_site s \<in> set (map pjs_id (pjm_sites m)) \<longleftrightarrow> (\<exists>site \<in> set (pjm_sites m). src_site s = pjs_id site)" by auto
  moreover have "(\<exists>site \<in> set (pjm_sites m). src_site s = pjs_id site) \<Longrightarrow> src_site s \<noteq> []" using assms by auto
  ultimately show ?thesis unfolding check_source_def source_fits_def append_is_Nil_conv complain_Nil by argo
qed

subsection \<open>The sites of named sources\<close>

lemma site_map_fold:
  assumes "distinct (map src_id ss)" "\<forall>s \<in> set ss. src_site s \<noteq> [] \<and> src_id s \<notin> set (map fst d)"
  shows "map_of (foldl (\<lambda>d s. if src_site s = [] then d else dict_set d (src_id s) (src_site s)) d ss)
    = map_of d ++ map_of (map (\<lambda>s. (src_id s, src_site s)) ss)"
  using assms
proof (induction ss arbitrary: d)
  case (Cons s ss)
  let ?d = "dict_set d (src_id s) (src_site s)"
  have "\<forall>x \<in> set ss. src_site x \<noteq> [] \<and> src_id x \<notin> set (map fst ?d)"
    using Cons.prems by (simp add: dom_update) (metis image_eqI)
  then have "map_of (foldl (\<lambda>d s. if src_site s = [] then d else dict_set d (src_id s) (src_site s)) ?d ss)
    = map_of ?d ++ map_of (map (\<lambda>s. (src_id s, src_site s)) ss)" using Cons.IH [of ?d] Cons.prems(1) by (simp add: fun_upd_def)
  moreover have "map_of (map (\<lambda>s. (src_id s, src_site s)) ss) (src_id s) = None"
    using Cons.prems(1) by (auto simp: map_of_eq_None_iff)
  ultimately show ?case using Cons.prems(2) by (auto simp: map_add_def fun_eq_iff split: option.split)
qed simp

lemma source_site:
  assumes "distinct (map src_id (pjm_sources m))" "\<forall>s \<in> set (pjm_sources m). src_site s \<noteq> []" "s \<in> set (pjm_sources m)"
  shows "dict_getd (source_site_map m) (src_id s) [] = src_site s"
proof -
  have "map_of (source_site_map m) (src_id s) = map_of (map (\<lambda>s. (src_id s, src_site s)) (pjm_sources m)) (src_id s)"
    unfolding source_site_map_def using site_map_fold [of "pjm_sources m" "[]"] assms(1,2) by simp
  also have "\<dots> = Some (src_site s)"
    by (rule map_of_is_SomeI) (use assms(1,3) in \<open>auto simp: comp_def\<close>)
  finally show ?thesis by (simp add: dict_getd_def)
qed

lemma two_members: "1 < length (remdups xs) \<longleftrightarrow> (\<exists>a \<in> set xs. \<exists>b \<in> set xs. a \<noteq> b)"
proof -
  have "1 < length (remdups xs) \<longleftrightarrow> \<not> card (set xs) \<le> 1" by (simp add: length_remdups_card_conv not_le)
  then show ?thesis by (simp add: card_le_Suc0_iff_eq)
qed

lemma sites_of_spans:
  assumes "distinct (map src_id (pjm_sources m))" "\<forall>s \<in> set (pjm_sources m). src_site s \<noteq> []"
    "set xs \<subseteq> src_id ` set (pjm_sources m)"
  shows "1 < length (sites_of (source_site_map m) xs) \<longleftrightarrow> spans_sites m xs"
proof -
  let ?f = "\<lambda>x. dict_getd (source_site_map m) x []"
  have f: "?f (src_id s) = src_site s \<and> src_site s \<noteq> []" if "s \<in> set (pjm_sources m)" for s
    using source_site [OF assms(1,2) that] assms(2) that by simp
  have "1 < length (sites_of (source_site_map m) xs)
      \<longleftrightarrow> (\<exists>x \<in> set xs. \<exists>y \<in> set xs. ?f x \<noteq> [] \<and> ?f y \<noteq> [] \<and> ?f x \<noteq> ?f y)"
    unfolding sites_of_def two_members by auto
  also have "\<dots> \<longleftrightarrow> spans_sites m xs"
  proof
    assume "\<exists>x \<in> set xs. \<exists>y \<in> set xs. ?f x \<noteq> [] \<and> ?f y \<noteq> [] \<and> ?f x \<noteq> ?f y"
    then obtain x y where xy: "x \<in> set xs" "y \<in> set xs" "?f x \<noteq> ?f y" by blast
    then obtain a b where "a \<in> set (pjm_sources m)" "b \<in> set (pjm_sources m)" "x = src_id a" "y = src_id b" using assms(3) by blast
    then show "spans_sites m xs" unfolding spans_sites_def using f xy by metis
  next
    assume "spans_sites m xs"
    then show "\<exists>x \<in> set xs. \<exists>y \<in> set xs. ?f x \<noteq> [] \<and> ?f y \<noteq> [] \<and> ?f x \<noteq> ?f y"
      unfolding spans_sites_def using f by metis
  qed
  finally show ?thesis .
qed

lemma unknown_Nil: "filter (\<lambda>x. x \<notin> set ids) xs = [] \<longleftrightarrow> set xs \<subseteq> set ids"
  by (auto simp: filter_empty_conv)

lemma contains_Nil: "\<not> contains [] (c # p)"
  by simp

lemma rule_checked:
  assumes "distinct (map src_id (pjm_sources m))" "\<forall>s \<in> set (pjm_sources m). src_site s \<noteq> []"
  shows "check_rule R (map src_id (pjm_sources m)) (source_site_map m) r = [] \<longleftrightarrow> rule_fits m r"
proof (cases "set (brl_from r @ brl_to r) \<subseteq> src_id ` set (pjm_sources m)")
  case True
  have s: "1 < length (sites_of (source_site_map m) (brl_from r @ brl_to r)) \<longleftrightarrow> spans_sites m (brl_from r @ brl_to r)"
    by (rule sites_of_spans [OF assms True])
  have u: "filter (\<lambda>x. x \<notin> set (map src_id (pjm_sources m))) (brl_from r) = []"
    "filter (\<lambda>x. x \<notin> set (map src_id (pjm_sources m))) (brl_to r) = []"
    using True by (auto simp: filter_empty_conv)
  have e: "brl_topic r = [] \<Longrightarrow> \<not> contains (brl_topic r) ''{{site_id}}'' \<and> \<not> contains (brl_topic r) ''{{source_site_id}}''" by simp
  show ?thesis
    unfolding check_rule_def rule_fits_def Let_def append_is_Nil_conv complain_Nil u s
    using True e by (cases "spans_sites m (brl_from r @ brl_to r)"; cases "brl_topic r = []") auto
next
  case False
  then have "filter (\<lambda>x. x \<notin> set (map src_id (pjm_sources m))) (brl_from r) \<noteq> []
      \<or> filter (\<lambda>x. x \<notin> set (map src_id (pjm_sources m))) (brl_to r) \<noteq> []"
    by (auto simp: filter_empty_conv)
  then show ?thesis using False unfolding check_rule_def rule_fits_def Let_def append_is_Nil_conv complain_Nil by argo
qed

lemma group_checked:
  assumes "distinct (map src_id (pjm_sources m))" "\<forall>s \<in> set (pjm_sources m). src_site s \<noteq> []"
  shows "check_group R (map src_id (pjm_sources m)) (source_site_map m) g = [] \<longleftrightarrow> group_fits m g"
proof (cases "set (cgr_members g) \<subseteq> src_id ` set (pjm_sources m)")
  case True
  have u: "filter (\<lambda>x. x \<notin> set (map src_id (pjm_sources m))) (cgr_members g) = []"
    using True by (auto simp: filter_empty_conv)
  show ?thesis
    unfolding check_group_def group_fits_def Let_def append_is_Nil_conv complain_Nil u sites_of_spans [OF assms True] not_less
    using True by argo
next
  case False
  then have "filter (\<lambda>x. x \<notin> set (map src_id (pjm_sources m))) (cgr_members g) \<noteq> []" by (auto simp: filter_empty_conv)
  then show ?thesis using False unfolding check_group_def group_fits_def Let_def append_is_Nil_conv complain_Nil by argo
qed

text \<open>Validation accepts exactly the manifests whose parts fit together: unique sites with a valid profile of the
  same identifier, unique sources at existing sites, rules and groups that name existing sources and say so where they
  cross sites, and a descending retention.\<close>

theorem manifest_accepted: "(validate_project_manifest R files m = Inr []) = manifest_fits R files m"
proof (cases "check_sites R files (pjm_sites m)")
  case (Inl e)
  then have "\<not> (\<forall>s \<in> set (pjm_sites m). site_fits R files s)" using sites_checked [of R files "pjm_sites m"] by simp
  then show ?thesis using Inl unfolding validate_project_manifest_def manifest_fits_def by simp
next
  case (Inr es)
  have es: "es = [] \<longleftrightarrow> (\<forall>s \<in> set (pjm_sites m). site_fits R files s)" using sites_checked [of R files "pjm_sites m"] Inr by simp
  have n: "length (remdups (map src_id (pjm_sources m))) \<noteq> length (map src_id (pjm_sources m)) \<longleftrightarrow> \<not> distinct (map src_id (pjm_sources m))"
    by (rule remdups_length)
  have v: "(validate_project_manifest R files m = Inr []) \<longleftrightarrow>
      header_fits m \<and> es = [] \<and> distinct (map src_id (pjm_sources m))
      \<and> (\<forall>s \<in> set (pjm_sources m). check_source (map pjs_id (pjm_sites m)) s = [])
      \<and> (\<forall>r \<in> set (pjm_rules m). check_rule R (map src_id (pjm_sources m)) (source_site_map m) r = [])
      \<and> (\<forall>g \<in> set (pjm_groups m). check_group R (map src_id (pjm_sources m)) (source_site_map m) g = [])
      \<and> check_retention (pjm_retention m) = []"
    unfolding validate_project_manifest_def Inr res_bind_simps Let_def sum.inject append_is_Nil_conv complain_Nil n header_checked
    by auto
  have r: "check_retention (pjm_retention m) = [] \<longleftrightarrow> prt_compressed (pjm_retention m) \<le> prt_raw (pjm_retention m)
      \<and> prt_raw (pjm_retention m) \<le> prt_historian (pjm_retention m) \<and> 1 \<le> prt_backup (pjm_retention m)"
    unfolding check_retention_def append_is_Nil_conv complain_Nil not_less by argo
  show ?thesis
  proof (cases "\<forall>s \<in> set (pjm_sites m). site_fits R files s")
    case False
    then show ?thesis unfolding v manifest_fits_def using es by blast
  next
    case True
    then have ids: "\<forall>s \<in> set (pjm_sites m). pjs_id s \<noteq> []" by (simp add: site_fits_def)
    show ?thesis
    proof (cases "distinct (map src_id (pjm_sources m)) \<and> (\<forall>s \<in> set (pjm_sources m). source_fits m s)")
      case False
      then show ?thesis unfolding v manifest_fits_def source_checked [OF ids] by blast
    next
      case fits: True
      then have "\<forall>s \<in> set (pjm_sources m). src_site s \<noteq> []" using ids by (auto simp: source_fits_def)
      with fits show ?thesis
        unfolding v manifest_fits_def source_checked [OF ids] es r using True
        by (simp add: rule_checked group_checked)
    qed
  qed
qed

section \<open>Lint\<close>

text \<open>\<open>d.setdefault(k, []).append(v)\<close> over pairs.\<close>

definition collect :: "('k \<times> 'v) list \<Rightarrow> ('k \<times> 'v list) list" where
  "collect kvs = foldl (\<lambda>d (k, v). dict_set d k (dict_getd d k [] @ [v])) [] kvs"

definition topic_sources :: "project_manifest \<Rightarrow> (string \<times> string list) list" where
  "topic_sources m = collect (map (\<lambda>s. (src_topic s, src_id s)) (filter (\<lambda>s. src_topic s \<noteq> []) (pjm_sources m)))"

definition signal_pairs :: "project_manifest \<Rightarrow> ((string \<times> string \<times> string) \<times> string) list" where
  "signal_pairs m = concat (map (\<lambda>s. map (\<lambda>t. ((src_site s, src_asset s, t), src_id s)) (src_tags s)) (pjm_sources m))"

definition declared_correlation :: "project_manifest \<Rightarrow> string list \<Rightarrow> bool" where
  "declared_correlation m ids = list_ex (\<lambda>g. cgr_strategy g = ''site_asset_tag'' \<and> set (cgr_members g) = set ids) (pjm_groups m)"

definition rule_signature :: "bridge_rule \<Rightarrow> string \<times> string \<times> string list \<times> string list \<times> string" where
  "rule_signature r = (brl_mode r, brl_name r, brl_from r, brl_to r, brl_topic r)"

fun repeated_rules :: "(string \<times> string \<times> string list \<times> string list \<times> string) list \<Rightarrow> bridge_rule list \<Rightarrow> string list" where
  "repeated_rules seen [] = []"
| "repeated_rules seen (r # rs) =
     complain (rule_signature r \<in> set seen) (''duplicate bridge rule signature: '' @ brl_name r)
     @ repeated_rules (rule_signature r # seen) rs"

definition lint_group :: "pyrt \<Rightarrow> (string \<times> string) list \<Rightarrow> correlation_group \<Rightarrow> string list" where
  "lint_group R ssm g =
     complain (length (remdups (cgr_members g)) \<noteq> length (cgr_members g)) (''correlation group '' @ cgr_name g @ '': duplicate member entries'')
     @ complain (1 < length (cgr_members g) \<and> cgr_strategy g = ''site_asset_tag'' \<and> 1 < length (sites_of ssm (cgr_members g)))
         (''correlation group '' @ cgr_name g @ '': spans multiple sites '' @ text_list R (sort (sites_of ssm (cgr_members g))))"

fun lint_sites :: "pyrt \<Rightarrow> (string \<Rightarrow> pyval option) \<Rightarrow> project_manifest \<Rightarrow> project_site list \<Rightarrow> string + string list" where
  "lint_sites R files m [] = Inr []"
| "lint_sites R files m (s # ss) =
     res_bind (read_profile R files (pjs_path s)) (\<lambda>p. res_bind (lint_sites R files m ss) (\<lambda>es. Inr
       (complain (bkp_days (spf_backups p) \<noteq> prt_backup (pjm_retention m))
          (''retention mismatch for '' @ pjs_id s @ '': site backups.retention_days='' @ int_str (bkp_days (spf_backups p))
           @ '' project retention.backup_days='' @ int_str (prt_backup (pjm_retention m))) @ es)))"

definition lint :: "pyrt \<Rightarrow> (string \<Rightarrow> pyval option) \<Rightarrow> project_manifest \<Rightarrow> string + string list" where
  "lint R files m =
     res_bind (validate_project_manifest R files m) (\<lambda>issues. res_bind (lint_sites R files m (pjm_sites m)) (\<lambda>mismatches. Inr
       (issues
        @ concat (map (\<lambda>(t, ids). complain (1 < length ids) (''topic collision: '' @ t @ '' used by '' @ text_list R ids)) (topic_sources m))
        @ concat (map (\<lambda>((site, asset, tag), ids). complain (1 < length ids \<and> \<not> declared_correlation m ids)
            (''identity collision: '' @ site @ ''/'' @ asset @ ''/'' @ tag @ '' used by '' @ text_list R ids
             @ ''; declare a site_asset_tag correlation group'')) (collect (signal_pairs m)))
        @ repeated_rules [] (pjm_rules m)
        @ concat (map (lint_group R (source_site_map m)) (pjm_groups m))
        @ concat (map (\<lambda>s. complain (src_site s \<noteq> [] \<and> src_site s \<notin> set (map pjs_id (pjm_sites m)))
            (''source '' @ src_id s @ '': site_id '' @ src_site s @ '' not defined in sites'')) (pjm_sources m))
        @ mismatches)))"

lemma collect_snoc: "collect (kvs @ [(k, v)]) = dict_set (collect kvs) k (dict_getd (collect kvs) k [] @ [v])"
  by (simp add: collect_def)

lemma collect_wf: "wf_dict (collect kvs)"
proof (induction kvs rule: rev_induct)
  case (snoc kv kvs)
  then show ?case by (cases kv) (simp add: collect_snoc)
qed (simp add: collect_def)

lemma collect_lookup:
  "map_of (collect kvs) k = (let vs = map snd (filter (\<lambda>p. fst p = k) kvs) in if vs = [] then None else Some vs)"
proof (induction kvs rule: rev_induct)
  case (snoc kv kvs)
  obtain j v where kv: "kv = (j, v)" by fastforce
  show ?case
  proof (cases "j = k")
    case True
    have "dict_getd (collect kvs) k [] = map snd (filter (\<lambda>p. fst p = k) kvs)"
      using snoc by (simp add: dict_getd_def Let_def split: if_splits)
    then show ?thesis unfolding kv collect_snoc using True by (simp add: Let_def)
  next
    case False
    then show ?thesis unfolding kv collect_snoc using snoc by simp
  qed
qed (simp add: collect_def)

lemma collect_all:
  "(\<forall>(k, vs) \<in> set (collect kvs). P k vs)
    \<longleftrightarrow> (\<forall>k. map snd (filter (\<lambda>p. fst p = k) kvs) \<noteq> [] \<longrightarrow> P k (map snd (filter (\<lambda>p. fst p = k) kvs)))"
proof -
  have "(k, vs) \<in> set (collect kvs) \<longleftrightarrow> map_of (collect kvs) k = Some vs" for k vs
    by (rule map_of_eq_Some_iff [OF collect_wf, symmetric])
  then have "(k, vs) \<in> set (collect kvs)
      \<longleftrightarrow> map snd (filter (\<lambda>p. fst p = k) kvs) \<noteq> [] \<and> vs = map snd (filter (\<lambda>p. fst p = k) kvs)" for k vs
    unfolding collect_lookup Let_def by (simp only: split: if_split) auto
  then show ?thesis by (simp only: Ball_def split_paired_All case_prod_conv) blast
qed

text \<open>The sources that observe a signal, one entry per observation.\<close>

definition observers :: "project_manifest \<Rightarrow> string \<Rightarrow> string \<Rightarrow> string \<Rightarrow> string list" where
  "observers m site asset tag =
     concat (map (\<lambda>s. if src_site s = site \<and> src_asset s = asset then map (\<lambda>_. src_id s) (filter (\<lambda>t. t = tag) (src_tags s)) else [])
       (pjm_sources m))"

lemma observers_pairs: "map snd (filter (\<lambda>p. fst p = (site, asset, tag)) (signal_pairs m)) = observers m site asset tag"
proof -
  have "map snd (filter (\<lambda>p. fst p = (site, asset, tag)) (map (\<lambda>t. ((src_site s, src_asset s, t), src_id s)) ts))
    = (if src_site s = site \<and> src_asset s = asset then map (\<lambda>_. src_id s) (filter (\<lambda>t. t = tag) ts) else [])" for s :: project_source and ts
    by (induction ts) auto
  then show ?thesis unfolding signal_pairs_def observers_def filter_concat map_concat by (simp add: comp_def)
qed

lemma lint_sites_clean:
  "lint_sites R files m ss = Inr [] \<longleftrightarrow>
     (\<forall>s \<in> set ss. \<exists>p. read_profile R files (pjs_path s) = Inr p \<and> bkp_days (spf_backups p) = prt_backup (pjm_retention m))"
proof (induction ss)
  case (Cons s ss)
  then show ?case
    by (cases "read_profile R files (pjs_path s)"; cases "lint_sites R files m ss") auto
qed simp

lemma repeated_clean: "repeated_rules seen rs = [] \<longleftrightarrow> distinct (map rule_signature rs) \<and> set seen \<inter> rule_signature ` set rs = {}"
  by (induction rs arbitrary: seen) auto

lemma complain_map_Nil: "concat (map (\<lambda>(k, vs). complain (P k vs) (f k vs)) kvs) = [] \<longleftrightarrow> (\<forall>(k, vs) \<in> set kvs. \<not> P k vs)"
  by (auto simp: concat_eq_Nil_conv)

lemma short_list: "\<not> 1 < length xs \<longleftrightarrow> length xs \<le> 1"
  by (simp add: not_less)

lemma same_topic:
  "(\<forall>(t, ids) \<in> set (topic_sources m). \<not> 1 < length ids)
    \<longleftrightarrow> (\<forall>t. t \<noteq> [] \<longrightarrow> length (filter (\<lambda>s. src_topic s = t) (pjm_sources m)) \<le> 1)"
proof -
  have "map snd (filter (\<lambda>p. fst p = t) (map (\<lambda>s. (src_topic s, src_id s)) (filter (\<lambda>s. src_topic s \<noteq> []) ss)))
      = (if t = [] then [] else map src_id (filter (\<lambda>s. src_topic s = t) ss))" for t ss
    by (induction ss) auto
  note e = this
  have e2: "((if t = [] then [] else map src_id (filter (\<lambda>s. src_topic s = t) ss)) \<noteq> []
        \<longrightarrow> \<not> 1 < length (if t = [] then [] else map src_id (filter (\<lambda>s. src_topic s = t) ss)))
      \<longleftrightarrow> (t \<noteq> [] \<longrightarrow> length (filter (\<lambda>s. src_topic s = t) ss) \<le> 1)" for t ss
    by (cases "t = []"; cases "filter (\<lambda>s. src_topic s = t) ss = []") (simp_all add: not_less)
  show ?thesis unfolding topic_sources_def collect_all e e2 by (rule refl)
qed

text \<open>A manifest without lint issues is valid; no topic is shared; a signal that two sources observe (or one twice) is
  declared by a correlation group of exactly its observers; rules differ; members are listed once; and every site keeps
  backups as long as the project says.\<close>

definition lint_fits :: "pyrt \<Rightarrow> (string \<Rightarrow> pyval option) \<Rightarrow> project_manifest \<Rightarrow> bool" where
  "lint_fits R files m \<longleftrightarrow>
     (\<forall>t. t \<noteq> [] \<longrightarrow> length (filter (\<lambda>s. src_topic s = t) (pjm_sources m)) \<le> 1)
     \<and> (\<forall>site asset tag. 1 < length (observers m site asset tag) \<longrightarrow>
          (\<exists>g \<in> set (pjm_groups m). cgr_strategy g = ''site_asset_tag'' \<and> set (cgr_members g) = set (observers m site asset tag)))
     \<and> distinct (map rule_signature (pjm_rules m)) \<and> (\<forall>g \<in> set (pjm_groups m). distinct (cgr_members g))
     \<and> (\<forall>s \<in> set (pjm_sites m). \<exists>p. read_profile R files (pjs_path s) = Inr p \<and> bkp_days (spf_backups p) = prt_backup (pjm_retention m))"

lemma shared_signal:
  "(\<forall>(k, ids) \<in> set (collect (signal_pairs m)). \<not> (1 < length ids \<and> \<not> declared_correlation m ids))
    \<longleftrightarrow> (\<forall>site asset tag. 1 < length (observers m site asset tag) \<longrightarrow> declared_correlation m (observers m site asset tag))"
proof -
  have "(xs \<noteq> [] \<longrightarrow> \<not> (1 < length xs \<and> \<not> D)) = (1 < length xs \<longrightarrow> D)" for xs :: "string list" and D
    by (cases xs) auto
  then show ?thesis unfolding collect_all split_paired_All observers_pairs by (simp only:)
qed

lemma group_clean:
  assumes "manifest_fits R files m" "g \<in> set (pjm_groups m)"
  shows "lint_group R (source_site_map m) g = [] \<longleftrightarrow> distinct (cgr_members g)"
proof -
  have g: "group_fits m g" and d: "distinct (map src_id (pjm_sources m))"
    and s: "\<forall>s \<in> set (pjm_sites m). site_fits R files s" and f: "\<forall>s \<in> set (pjm_sources m). source_fits m s"
    using assms unfolding manifest_fits_def by simp_all
  have sites: "\<forall>s \<in> set (pjm_sources m). src_site s \<noteq> []" using s f by (auto simp: source_fits_def site_fits_def)
  have "set (cgr_members g) \<subseteq> src_id ` set (pjm_sources m)" using g by (simp add: group_fits_def)
  note span = sites_of_spans [OF d sites this]
  have "spans_sites m (cgr_members g) \<Longrightarrow> cgr_strategy g \<noteq> ''site_asset_tag''" using g by (auto simp: group_fits_def)
  then show ?thesis unfolding lint_group_def append_is_Nil_conv complain_Nil remdups_length span by blast
qed

text \<open>Claim C22. The lint of a project reports nothing exactly when the manifest is valid, that is, its parts fit together
  (unique sites with a valid profile of the same identifier, unique sources at existing sites, rules and groups over
  existing sources that say so where they cross sites, a descending retention), and every profile passes the further
  checks of the lint.\<close>

theorem lint_clean_iff: "(lint R files m = Inr []) = (manifest_fits R files m \<and> lint_fits R files m)"
proof (cases "validate_project_manifest R files m = Inr []")
  case False
  then have "lint R files m \<noteq> Inr []"
    by (cases "validate_project_manifest R files m"; cases "lint_sites R files m (pjm_sites m)") (auto simp: lint_def)
  then show ?thesis using False manifest_accepted [of R files m] by simp
next
  case True
  then have fits: "manifest_fits R files m" by (simp only: manifest_accepted)
  show ?thesis
  proof (cases "lint_sites R files m (pjm_sites m)")
    case (Inl e)
    then show ?thesis using lint_sites_clean [of R files m "pjm_sites m"] by (simp add: lint_def True lint_fits_def)
  next
    case (Inr es)
    have sources: "\<forall>s \<in> set (pjm_sources m). src_site s \<in> set (map pjs_id (pjm_sites m))"
      using fits by (auto simp: manifest_fits_def source_fits_def)
    have es: "es = [] \<longleftrightarrow> lint_sites R files m (pjm_sites m) = Inr []" by (simp add: Inr)
    have "(lint R files m = Inr []) \<longleftrightarrow>
        (\<forall>(t, ids) \<in> set (topic_sources m). \<not> 1 < length ids)
        \<and> (\<forall>(k, ids) \<in> set (collect (signal_pairs m)). \<not> (1 < length ids \<and> \<not> declared_correlation m ids))
        \<and> repeated_rules [] (pjm_rules m) = [] \<and> (\<forall>g \<in> set (pjm_groups m). lint_group R (source_site_map m) g = []) \<and> es = []"
      unfolding lint_def True Inr res_bind_simps sum.inject append_is_Nil_conv complain_map_Nil using sources
      by (auto simp: concat_eq_Nil_conv)
    also have "\<dots> \<longleftrightarrow> lint_fits R files m"
      unfolding same_topic shared_signal repeated_clean es lint_sites_clean lint_fits_def using group_clean [OF fits]
      by (auto simp: declared_correlation_def list_ex_iff)
    finally show ?thesis using fits by simp
  qed
qed

section \<open>Identifiers\<close>

lemma join_snoc2: "\<exists>pre. \<forall>a b. join '':'' (xs @ [a, b]) = pre @ a @ '':'' @ b"
proof (induction xs)
  case (Cons x xs)
  then obtain pre where "\<forall>a b. join '':'' (xs @ [a, b]) = pre @ a @ '':'' @ b" by blast
  moreover have "join '':'' ((x # xs) @ [a, b]) = x @ '':'' @ join '':'' (xs @ [a, b])" for a b
    by (cases xs) simp_all
  ultimately have "\<forall>a b. join '':'' ((x # xs) @ [a, b]) = (x @ '':'' @ pre) @ a @ '':'' @ b" by simp
  then show ?case by blast
qed auto

lemma colon_split:
  assumes "a @ '':'' @ b = c @ '':'' @ d" "CHR '':'' \<notin> set a" "CHR '':'' \<notin> set c"
  shows "a = c \<and> b = d"
  using assms
proof (induction a arbitrary: c)
  case Nil
  then show ?case by (cases c) auto
next
  case (Cons x a)
  then show ?case by (cases c) auto
qed

text \<open>Within a manifest the qualified identifier determines the site and the local identifier, when the site has no
  colon and neither is blank.\<close>

theorem entity_id_injective:
  assumes "entity_id m site k = entity_id m site' k'"
    and "py_strip site \<noteq> []" "py_strip k \<noteq> []" "py_strip site' \<noteq> []" "py_strip k' \<noteq> []"
    and "CHR '':'' \<notin> set (py_strip site)" "CHR '':'' \<notin> set (py_strip site')"
  shows "py_strip site = py_strip site' \<and> py_strip k = py_strip k'"
proof -
  obtain pre where pre: "\<forall>a b. join '':'' (filter (\<lambda>x. x \<noteq> []) (map py_strip [organization_of m, pjm_id m]) @ [a, b]) = pre @ a @ '':'' @ b"
    using join_snoc2 by blast
  have "entity_id m s l = pre @ py_strip s @ '':'' @ py_strip l" if "py_strip s \<noteq> []" "py_strip l \<noteq> []" for s l
  proof -
    have "filter (\<lambda>x. x \<noteq> []) (map py_strip [organization_of m, pjm_id m, s, l])
        = filter (\<lambda>x. x \<noteq> []) (map py_strip [organization_of m, pjm_id m]) @ [py_strip s, py_strip l]" using that by simp
    then show ?thesis unfolding entity_id_def using pre by (simp only:)
  qed
  then have "py_strip site @ '':'' @ py_strip k = py_strip site' @ '':'' @ py_strip k'" using assms(1-5) by simp
  then show ?thesis by (rule colon_split [OF _ assms(6,7)])
qed

definition empty_project :: project_manifest where
  "empty_project =
     \<lparr>pjm_version = 2, pjm_id = ''p'', pjm_name = ''Plant'', pjm_text = [], pjm_sites = [], pjm_sources = [], pjm_rules = [], pjm_groups = [],
      pjm_retention = \<lparr>prt_historian = 90, prt_raw = 30, prt_compressed = 7, prt_backup = 7\<rparr>, pjm_organization = ''o'',
      pjm_federation = \<lparr>fpo_enabled = False, fpo_topics = default_topics, fpo_cluster = [], fpo_raw = False\<rparr>,
      pjm_lakehouse = \<lparr>lkp_layout = ''single-table'', lkp_namespace = ''industrial'', lkp_table = ''events'', lkp_central = True\<rparr>,
      pjm_quality = \<lparr>qpo_clock = ''observe'', qpo_offset = 300, qpo_late = 60\<rparr>\<rparr>"

theorem entity_id_injective_witness:
  "py_strip '' s '' = py_strip ''s'' \<and> py_strip ''pump'' = py_strip ''pump''"
  by (rule entity_id_injective [where m = empty_project]) (code_simp+)

text \<open>A colon in the site identifier, which validation accepts, makes two assets of two sites share an identifier.\<close>

lemma entity_id_collision: "entity_id empty_project ''s:a'' ''b'' = entity_id empty_project ''s'' ''a:b''"
  by code_simp

section \<open>Writing and reading a manifest\<close>

text \<open>A resolved path is read back as it is.\<close>

definition path_ok :: "pypath \<Rightarrow> bool" where
  "path_ok p \<longleftrightarrow> fst p \<in> {[], ''/'', ''//''} \<and> (\<forall>x \<in> set (snd p). x \<noteq> [] \<and> x \<noteq> ''.'' \<and> CHR ''/'' \<notin> set x)"

lemma split_on_parts: "x \<in> set (split_on c s) \<Longrightarrow> c \<notin> set x"
  by (induction c s arbitrary: x rule: split_on.induct) (auto split: if_splits list.splits)

lemma path_of_ok: "path_ok (path_of s)"
  unfolding path_ok_def path_of_def by (auto dest: split_on_parts)

lemma split_on_prefix: "split_on c (c # s) = [] # split_on c s"
  by simp

lemma path_of_str:
  assumes "path_ok p" shows "path_of (path_str p) = p"
proof -
  obtain anchor parts where p: "p = (anchor, parts)" by fastforce
  have parts: "\<forall>x \<in> set parts. x \<noteq> [] \<and> x \<noteq> ''.'' \<and> CHR ''/'' \<notin> set x" and anchor: "anchor \<in> {[], ''/'', ''//''}"
    using assms by (simp_all add: path_ok_def p)
  have f: "filter (\<lambda>x. x \<noteq> [] \<and> x \<noteq> ''.'') (split_on (CHR ''/'') (join ''/'' parts)) = parts"
  proof (cases "parts = []")
    case False
    then have "split_on (CHR ''/'') (join ''/'' parts) = parts" using parts by (intro split_on_join) auto
    then show ?thesis using parts by (simp add: filter_id_conv)
  qed simp
  have h: "\<not> starts_with (join ''/'' parts) ''/''"
  proof (cases parts)
    case (Cons x xs)
    then obtain c cs where "x = c # cs" "c \<noteq> CHR ''/''" using parts by (cases x) auto
    then show ?thesis using Cons by (cases xs) simp_all
  qed simp
  show ?thesis
  proof (cases "anchor = [] \<and> parts = []")
    case True
    then show ?thesis by (simp add: p path_str_def path_of_def)
  next
    case False
    then have s: "path_str p = anchor @ join ''/'' parts" by (auto simp: p path_str_def)
    have h2: "\<not> starts_with (join ''/'' parts) ''//''" using h by (cases "join ''/'' parts") auto
    consider "anchor = []" | "anchor = ''/''" | "anchor = ''//''" using anchor by blast
    then show ?thesis
    proof cases
      case 1
      then show ?thesis unfolding s unfolding path_of_def p using f h h2 by simp
    next
      case 2
      then show ?thesis unfolding s unfolding path_of_def p using f h h2 by simp
    next
      case 3
      then show ?thesis unfolding s unfolding path_of_def p using f h h2 by simp
    qed
  qed
qed

lemma path_join_ok: "path_ok a \<Longrightarrow> path_ok b \<Longrightarrow> path_ok (path_join a b)"
  by (auto simp: path_ok_def path_join_def)

lemma path_parent_ok: "path_ok p \<Longrightarrow> path_ok (path_parent p)"
  by (auto simp: path_ok_def path_parent_def dest: in_set_butlastD)

text \<open>A part of the document: what reading it gives can be written and read back.\<close>

locale document_part =
  fixes read_part :: "pydict \<Rightarrow> string + 'a" and write_part :: "'a \<Rightarrow> pydict" and part_ok :: "'a \<Rightarrow> bool"
  assumes read_ok: "read_part d = Inr x \<Longrightarrow> part_ok x"
    and write_read: "part_ok x \<Longrightarrow> read_part (write_part x) = Inr x"
begin

lemma items_ok: "each_item read_part vs = Inr xs \<Longrightarrow> list_all part_ok xs"
proof (induction vs arbitrary: xs)
  case (Cons v vs)
  then show ?case by (cases v) (auto dest: read_ok)
qed simp

lemma tuple_ok: "load_tuple read_part v = Inr xs \<Longrightarrow> list_all part_ok xs"
  unfolding load_tuple_def by (auto split: if_splits dest: items_ok)

lemma items_read_back: "list_all part_ok xs \<Longrightarrow> each_item read_part (map (PDict \<circ> write_part) xs) = Inr xs"
  by (induction xs) (simp_all add: write_read)

lemma tuple_back: "list_all part_ok xs \<Longrightarrow> load_tuple read_part (PList (map (PDict \<circ> write_part) xs)) = Inr xs"
  unfolding load_tuple_def iter_values_def by (auto simp: items_read_back simp del: map_map list.map_comp)

end

definition stripped :: "string \<Rightarrow> bool" where
  "stripped s \<longleftrightarrow> py_strip s = s"

definition stripped_texts :: "string list \<Rightarrow> bool" where
  "stripped_texts xs \<longleftrightarrow> (\<forall>x \<in> set xs. stripped x \<and> x \<noteq> [])"

lemma stripped_field [simp]: "stripped (strip_field R d k t)"
  by (simp add: stripped_def)

lemma strip_texts_ok: "strip_texts R v = Inr xs \<Longrightarrow> stripped_texts xs"
  by (auto simp: strip_texts_def stripped_texts_def stripped_def py_strip_idem)

lemma strip_texts_back: "stripped_texts xs \<Longrightarrow> strip_texts R (texts xs) = Inr xs"
proof -
  assume "stripped_texts xs"
  then have "filter (\<lambda>s. s \<noteq> []) (map (py_strip \<circ> py_str R) (map PStr xs)) = xs"
    unfolding stripped_texts_def stripped_def by (induction xs) auto
  then show ?thesis by (simp add: strip_texts_def texts_def iter_values_def)
qed

lemma strip_field_back: "map_of d k = Some (PStr s) \<Longrightarrow> stripped s \<Longrightarrow> strip_field R d k t = s"
  by (simp add: strip_field_dict stripped_def)

definition site_stripped :: "project_site \<Rightarrow> bool" where
  "site_stripped s \<longleftrightarrow> stripped (pjs_id s) \<and> stripped (pjs_path s) \<and> stripped (pjs_label s) \<and> stripped (pjs_notes s)"

definition source_stripped :: "project_source \<Rightarrow> bool" where
  "source_stripped s \<longleftrightarrow>
     stripped (src_id s) \<and> stripped (src_site s) \<and> stripped (src_protocol s) \<and> stripped (src_asset s) \<and> stripped (src_line s)
     \<and> stripped_texts (src_tags s) \<and> stripped (src_topic s) \<and> stripped (src_notes s)"

definition bridge_stripped :: "bridge_rule \<Rightarrow> bool" where
  "bridge_stripped r \<longleftrightarrow>
     stripped (brl_name r) \<and> stripped (brl_mode r) \<and> stripped_texts (brl_from r) \<and> stripped_texts (brl_to r) \<and> stripped (brl_topic r)
     \<and> stripped (brl_text r)"

definition group_stripped :: "correlation_group \<Rightarrow> bool" where
  "group_stripped g \<longleftrightarrow> stripped (cgr_name g) \<and> stripped_texts (cgr_members g) \<and> stripped (cgr_strategy g) \<and> stripped (cgr_text g)"

lemmas back_simps = strip_field_back strip_texts_back int_field_dict dict_getd_def

interpretation site_part: document_part "load_project_site R" project_site_dict site_stripped for R
proof
  show "load_project_site R d = Inr x \<Longrightarrow> site_stripped x" for d x by (auto simp: load_project_site_def site_stripped_def)
  show "site_stripped x \<Longrightarrow> load_project_site R (project_site_dict x) = Inr x" for x
    by (simp add: load_project_site_def site_stripped_def project_site_dict_def back_simps)
qed

interpretation source_part: document_part "load_source R" source_dict source_stripped for R
proof
  show "load_source R d = Inr x \<Longrightarrow> source_stripped x" for d x
    by (auto simp: load_source_def source_stripped_def dest: strip_texts_ok)
  show "source_stripped x \<Longrightarrow> load_source R (source_dict x) = Inr x" for x
    by (simp add: load_source_def source_stripped_def source_dict_def back_simps)
qed

interpretation bridge_part: document_part "load_bridge R" bridge_dict bridge_stripped for R
proof
  show "load_bridge R d = Inr x \<Longrightarrow> bridge_stripped x" for d x
    by (auto simp: load_bridge_def bridge_stripped_def dest: strip_texts_ok)
  show "bridge_stripped x \<Longrightarrow> load_bridge R (bridge_dict x) = Inr x" for x
    by (simp add: load_bridge_def bridge_stripped_def bridge_dict_def back_simps)
qed

interpretation group_part: document_part "load_group R" group_dict group_stripped for R
proof
  show "load_group R d = Inr x \<Longrightarrow> group_stripped x" for d x
    by (auto simp: load_group_def group_stripped_def dest: strip_texts_ok)
  show "group_stripped x \<Longrightarrow> load_group R (group_dict x) = Inr x" for x
    by (simp add: load_group_def group_stripped_def group_dict_def back_simps)
qed

text \<open>A site whose path is resolved stays as it is under any base.\<close>

definition site_resolved :: "project_site \<Rightarrow> bool" where
  "site_resolved s \<longleftrightarrow> pjs_path s = [] \<or> (\<exists>p. path_ok p \<and> fst p \<noteq> [] \<and> pjs_path s = path_str p)"

lemma resolve_resolves:
  assumes "path_ok base" "fst base \<noteq> []" shows "site_resolved (resolve_site base s)"
proof (cases "pjs_path s = []")
  case False
  let ?p = "if fst (path_of (pjs_path s)) \<noteq> [] then path_of (pjs_path s) else path_join base (path_of (pjs_path s))"
  have "path_ok ?p" using path_join_ok [OF assms(1) path_of_ok] path_of_ok by simp
  moreover have "fst ?p \<noteq> []" using assms(2) by (simp add: path_join_def)
  ultimately show ?thesis unfolding site_resolved_def resolve_site_def using False by (intro disjI2 exI [of _ ?p]) simp
qed (simp add: site_resolved_def resolve_site_def)

lemma resolve_resolved: "site_resolved s \<Longrightarrow> resolve_site base s = s"
  unfolding site_resolved_def resolve_site_def by (auto simp: path_of_str)

lemma resolve_keeps: "pjs_id (resolve_site base s) = pjs_id s" "pjs_label (resolve_site base s) = pjs_label s" "pjs_notes (resolve_site base s) = pjs_notes s"
  by (simp_all add: resolve_site_def)

definition manifest_stripped :: "project_manifest \<Rightarrow> bool" where
  "manifest_stripped m \<longleftrightarrow>
     stripped (pjm_id m) \<and> stripped (pjm_name m) \<and> stripped (pjm_text m) \<and> stripped (pjm_organization m)
     \<and> list_all source_stripped (pjm_sources m) \<and> list_all bridge_stripped (pjm_rules m) \<and> list_all group_stripped (pjm_groups m)
     \<and> stripped_texts (fpo_topics (pjm_federation m)) \<and> stripped (fpo_cluster (pjm_federation m))
     \<and> stripped (lkp_layout (pjm_lakehouse m)) \<and> stripped (lkp_namespace (pjm_lakehouse m)) \<and> stripped (lkp_table (pjm_lakehouse m))
     \<and> stripped (qpo_clock (pjm_quality m))"

lemma loaded_manifest:
  assumes "load_manifest R path v = Inr m" "fst (path_of path) \<noteq> []"
  shows "manifest_stripped m \<and> list_all site_resolved (pjm_sites m)
    \<and> (\<forall>s \<in> set (pjm_sites m). stripped (pjs_id s) \<and> stripped (pjs_label s) \<and> stripped (pjs_notes s))"
proof -
  let ?base = "path_parent (path_parent (path_of path))"
  obtain data sites version sources rules groups r fd f ld l qd q where
    sites: "load_tuple (load_project_site R) (pget data ''sites'') = Inr sites"
    and sources: "load_tuple (load_source R) (pget data ''sources'') = Inr sources"
    and rules: "load_tuple (load_bridge R) (pget data ''bridge_rules'') = Inr rules"
    and groups: "load_tuple (load_group R) (pget data ''correlation_groups'') = Inr groups"
    and f: "load_federation_policy R fd = Inr f" and l: "load_lakehouse_policy R ld = Inr l" and q: "load_quality R qd = Inr q"
    and m: "m = \<lparr>pjm_version = version, pjm_id = strip_field R data ''project_id'' [], pjm_name = strip_field R data ''name'' [],
            pjm_text = strip_field R data ''description'' [], pjm_sites = map (resolve_site ?base) sites,
            pjm_sources = sources, pjm_rules = rules, pjm_groups = groups, pjm_retention = r,
            pjm_organization = py_strip (py_str R (dict_getd data ''organization_id'' (dict_getd data ''project_id'' (PStr [])))),
            pjm_federation = f, pjm_lakehouse = l, pjm_quality = q\<rparr>"
    using assms(1) unfolding load_manifest_def by (elim res_bind_InrE) blast
  have base: "path_ok ?base" "fst ?base \<noteq> []"
    using path_parent_ok [OF path_parent_ok [OF path_of_ok]] assms(2) by (simp, simp add: path_parent_def)
  have "stripped_texts (fpo_topics f)" "stripped (fpo_cluster f)"
    using f by (auto simp: load_federation_policy_def dest: strip_texts_ok)
  moreover have "stripped (lkp_layout l)" "stripped (lkp_namespace l)" "stripped (lkp_table l)"
    using l by (auto simp: load_lakehouse_policy_def)
  moreover have "stripped (qpo_clock q)" using q by (auto simp: load_quality_def)
  moreover note source_part.tuple_ok [OF sources] bridge_part.tuple_ok [OF rules] group_part.tuple_ok [OF groups]
  moreover have "list_all site_stripped sites" by (rule site_part.tuple_ok [OF sites])
  ultimately show ?thesis unfolding manifest_stripped_def m
    using resolve_resolves [OF base] by (auto simp: list_all_iff resolve_keeps site_stripped_def stripped_def py_strip_idem)
qed

lemma load_manifest_dict:
  assumes "manifest_stripped m" "list_all site_stripped (pjm_sites m)" "list_all site_resolved (pjm_sites m)"
  shows "load_manifest R path (PDict (manifest_dict m)) = Inr (m\<lparr>pjm_organization := organization_of m\<rparr>)"
proof -
  let ?d = "manifest_dict m" and ?base = "path_parent (path_parent (path_of path))"
  have keys: "map_of ?d ''schema_version'' = Some (PInt (pjm_version m))" "map_of ?d ''project_id'' = Some (PStr (pjm_id m))"
    "map_of ?d ''name'' = Some (PStr (pjm_name m))" "map_of ?d ''description'' = Some (PStr (pjm_text m))"
    "map_of ?d ''organization_id'' = Some (PStr (organization_of m))"
    "map_of ?d ''retention'' = Some (PDict (retention_dict (pjm_retention m)))"
    "map_of ?d ''sites'' = Some (PList (map (PDict \<circ> project_site_dict) (pjm_sites m)))"
    "map_of ?d ''sources'' = Some (PList (map (PDict \<circ> source_dict) (pjm_sources m)))"
    "map_of ?d ''bridge_rules'' = Some (PList (map (PDict \<circ> bridge_dict) (pjm_rules m)))"
    "map_of ?d ''correlation_groups'' = Some (PList (map (PDict \<circ> group_dict) (pjm_groups m)))"
    by (simp_all add: manifest_dict_def Let_def)
  have org: "stripped (organization_of m)" using assms(1) by (auto simp: manifest_stripped_def organization_of_def or_text_def)
  have org': "py_strip (organization_of m) = organization_of m" using org by (simp add: stripped_def)
  have f: "res_bind (or_dict (pget ?d ''federation'')) (load_federation_policy R) = Inr (pjm_federation m)"
    using assms(1) by (simp add: manifest_dict_def Let_def pget_def or_dict_def load_federation_policy_def manifest_stripped_def back_simps)
  have l: "res_bind (or_dict (pget ?d ''lakehouse'')) (load_lakehouse_policy R) = Inr (pjm_lakehouse m)"
    using assms(1) by (simp add: manifest_dict_def Let_def pget_def or_dict_def load_lakehouse_policy_def manifest_stripped_def back_simps)
  have q: "res_bind (or_dict (pget ?d ''quality'')) (load_quality R) = Inr (pjm_quality m)"
    using assms(1) by (simp add: manifest_dict_def Let_def pget_def or_dict_def load_quality_def float_field_def py_float_def
      manifest_stripped_def back_simps)
  have r: "load_retention (retention_dict (pjm_retention m)) = Inr (pjm_retention m)"
    by (simp add: load_retention_def retention_dict_def int_field_dict)
  have sites: "map (resolve_site ?base) (pjm_sites m) = pjm_sites m"
    using assms(3) by (simp add: list_all_iff resolve_resolved map_idI)
  have d: "or_dict (PDict ?d) = Inr ?d" "or_dict (PDict (retention_dict (pjm_retention m))) = Inr (retention_dict (pjm_retention m))"
    by (simp_all add: or_dict_def manifest_dict_def retention_dict_def Let_def)
  have part: "res_bind x (\<lambda>y. res_bind (g y) k) = res_bind (res_bind x g) k" for x :: "string + pydict" and g :: "pydict \<Rightarrow> string + 'b" and k :: "'b \<Rightarrow> string + project_manifest"
    by (cases x) simp_all
  show ?thesis
    using assms(1) unfolding load_manifest_def d res_bind_simps pget_def dict_getd_def keys option.case
    by (simp add: d part f [unfolded pget_def dict_getd_def] l [unfolded pget_def dict_getd_def] q [unfolded pget_def dict_getd_def] r sites assms(2)
      site_part.tuple_back source_part.tuple_back bridge_part.tuple_back group_part.tuple_back int_field_dict keys strip_field_back org
      manifest_stripped_def stripped_def org')
qed

text \<open>Under a relative path of the manifest the resolved profile paths stay relative, and loading what was written out
  puts the directory in front of them once more.\<close>

lemma relative_prefix_twice:
  "path_parent (path_parent (path_of ''x/config/p.yaml'')) = path_of ''x''"
  "pjs_path (resolve_site (path_of ''x'') (s\<lparr>pjs_path := ''sites/a''\<rparr>)) = ''x/sites/a''"
  "pjs_path (resolve_site (path_of ''x'') (s\<lparr>pjs_path := ''x/sites/a''\<rparr>)) = ''x/x/sites/a''"
proof -
  show "path_parent (path_parent (path_of ''x/config/p.yaml'')) = path_of ''x''" by code_simp
  have "fst (path_of ''sites/a'') = []" "path_str (path_join (path_of ''x'') (path_of ''sites/a'')) = ''x/sites/a''"
    "fst (path_of ''x/sites/a'') = []" "path_str (path_join (path_of ''x'') (path_of ''x/sites/a'')) = ''x/x/sites/a''"
    by (code_simp, code_simp, code_simp, code_simp)
  then show "pjs_path (resolve_site (path_of ''x'') (s\<lparr>pjs_path := ''sites/a''\<rparr>)) = ''x/sites/a''"
    "pjs_path (resolve_site (path_of ''x'') (s\<lparr>pjs_path := ''x/sites/a''\<rparr>)) = ''x/x/sites/a''"
    by (simp_all add: resolve_site_def)
qed

text \<open>Claim C27. A manifest that was read under an absolute path, with profile paths that neither begin nor end with a blank, and is
  written out is read back, under whatever path, as it was; only a blank organization becomes the project, as
  \<open>to_dict\<close> writes it. Under a relative path the profile paths are prefixed again (\<open>relative_prefix_twice\<close>).\<close>

theorem manifest_roundtrip:
  assumes "load_manifest R path v = Inr m" "fst (path_of path) \<noteq> []" "\<forall>s \<in> set (pjm_sites m). py_strip (pjs_path s) = pjs_path s"
  shows "load_manifest R path' (PDict (manifest_dict m)) = Inr (m\<lparr>pjm_organization := organization_of m\<rparr>)"
proof (rule load_manifest_dict)
  note m = loaded_manifest [OF assms(1,2)]
  show "manifest_stripped m" "list_all site_resolved (pjm_sites m)" using m by simp_all
  show "list_all site_stripped (pjm_sites m)"
    using m assms(3) by (auto simp: list_all_iff site_stripped_def stripped_def)
qed

section \<open>An example\<close>

definition plant_yaml :: pydict where
  "plant_yaml =
     [(''schema_version'', PInt 2), (''project_id'', PStr ''p''), (''name'', PStr ''Plant''),
      (''sites'', PList [PDict [(''site_id'', PStr ''s1''), (''profile_path'', PStr ''a.yaml'')]]),
      (''sources'', PList [PDict [(''source_id'', PStr ''x''), (''site_id'', PStr ''s1''), (''source_protocol'', PStr ''opcua''),
                                  (''asset_id'', PStr ''pump''), (''tags'', PList [PStr ''t''])]]),
      (''retention'', PDict [(''backup_days'', PInt 7)])]"

definition plant_files :: "string \<Rightarrow> pyval option" where
  "plant_files path = (if path = ''/etc/a.yaml'' then Some (PDict plant_document) else None)"

definition plant_manifest :: project_manifest where
  "plant_manifest =
     empty_project\<lparr>pjm_organization := ''p'',
       pjm_sites := [\<lparr>pjs_id = ''s1'', pjs_path = ''/etc/a.yaml'', pjs_label = [], pjs_notes = []\<rparr>],
       pjm_sources := [\<lparr>src_id = ''x'', src_site = ''s1'', src_protocol = ''opcua'', src_asset = ''pump'', src_line = [], src_tags = [''t''],
                        src_topic = [], src_notes = []\<rparr>]\<rparr>"

lemma plant_manifest_loads: "load_manifest demo_rt ''/etc/conf/m.yaml'' (PDict plant_yaml) = Inr plant_manifest"
  by code_simp

lemma plant_manifest_valid: "validate_project_manifest demo_rt plant_files plant_manifest = Inr []"
  by code_simp

lemma plant_manifest_lint: "lint demo_rt plant_files plant_manifest = Inr []"
  by code_simp

theorem manifest_roundtrip_witness:
  "load_manifest demo_rt ''m.yaml'' (PDict (manifest_dict plant_manifest)) = Inr (plant_manifest\<lparr>pjm_organization := ''p''\<rparr>)"
proof -
  have "load_manifest demo_rt ''m.yaml'' (PDict (manifest_dict plant_manifest))
      = Inr (plant_manifest\<lparr>pjm_organization := organization_of plant_manifest\<rparr>)"
    by (rule manifest_roundtrip [OF plant_manifest_loads]) (code_simp+)
  moreover have "organization_of plant_manifest = ''p''" by code_simp
  ultimately show ?thesis by simp
qed

section \<open>Where reading and linting surprise\<close>

text \<open>Lint does not report a missing profile, which validation names: it fails on it.\<close>

lemma lint_needs_profiles:
  assumes "s \<in> set (pjm_sites m)" "files (path_str (path_of (pjs_path s))) = None"
  shows "\<exists>e. lint R files m = Inl e"
proof -
  have "\<exists>e. lint_sites R files m ss = Inl e" if "s \<in> set ss" for ss
    using that
  proof (induction ss)
    case (Cons x ss)
    have r: "read_profile R files (pjs_path s) = Inl ''FileNotFoundError''" by (simp add: read_profile_def assms(2))
    show ?case
    proof (cases "x = s")
      case True
      then show ?thesis using r by simp
    next
      case False
      then obtain e where "lint_sites R files m ss = Inl e" using Cons by auto
      then show ?thesis by (cases "read_profile R files (pjs_path x)") simp_all
    qed
  qed simp
  then obtain e where e: "lint_sites R files m (pjm_sites m) = Inl e" using assms(1) by blast
  then show ?thesis by (cases "validate_project_manifest R files m") (auto simp: lint_def)
qed

text \<open>Tags written as one text are read as its characters, and an explicit null is the text \<open>None\<close>.\<close>

lemma text_tags_split: "strip_texts demo_rt (PStr ''temp'') = Inr [''t'', ''e'', ''m'', ''p'']"
  by code_simp

lemma null_site_accepted:
  "load_project_site demo_rt [(''site_id'', PNone), (''profile_path'', PStr ''a'')]
    = Inr \<lparr>pjs_id = ''None'', pjs_path = ''a'', pjs_label = [], pjs_notes = []\<rparr>"
  by code_simp

end
