(* ===== verification/Project_Export.thy ===== *)
theory Project_Export
  imports Project_Manifest "HOL-Library.List_Lexorder" "HOL-Library.Char_ord"
begin

text \<open>
  Exporting a project (\<open>services/common/project_manifest.py\<close>): the environments of the sites, the bundles, the
  rendered files of the five layouts, the writes of an export in their order, and the release with its checksums and
  signature. A disk is an association list from paths to contents; a write succeeds, and the exception of a rendering
  leaves the files written before it. The YAML and JSON writers, the digests and the clock are parameters; the
  profiles are read from files the export does not write.
\<close>

record export_env =
  ex_rt :: pyrt
  ex_files :: "string \<Rightarrow> pyval option"
  ex_yaml :: "pyval \<Rightarrow> string"
  ex_json :: "pyval \<Rightarrow> string"
  ex_sha :: "string \<Rightarrow> string"
  ex_hmac :: "string \<Rightarrow> string \<Rightarrow> string"
  ex_manifest_time :: string
  ex_signature_time :: string

definition newline :: string where
  "newline = [CHR 0x0A]"

definition quote :: string where
  "quote = [CHR 0x27]"

definition backslash :: string where
  "backslash = [CHR 0x5C]"

section \<open>Environments and bundles\<close>

definition site_env :: "project_manifest \<Rightarrow> project_site \<Rightarrow> site_profile \<Rightarrow> (string \<times> string) list" where
  "site_env m s p =
     dict_merge (to_env p)
       [(''DATASTREAM_PROJECT_ID'', pjm_id m), (''DATASTREAM_PROJECT_NAME'', pjm_name m),
        (''DATASTREAM_ORGANIZATION_ID'', organization_of m), (''DATASTREAM_SITE_ID'', pjs_id s),
        (''FEDERATION_ENABLED'', true_text (fpo_enabled (pjm_federation m))),
        (''FEDERATION_TOPICS'', join '','' (fpo_topics (pjm_federation m))),
        (''LAKEHOUSE_LAYOUT'', lkp_layout (pjm_lakehouse m)), (''QUALITY_CLOCK_MODE'', qpo_clock (pjm_quality m)),
        (''DATASTREAM_PROJECT_RETENTION_DAYS'', int_str (prt_historian (pjm_retention m)))]"

fun site_envs ::
    "export_env \<Rightarrow> project_manifest \<Rightarrow> (string \<times> (string \<times> string) list) list \<Rightarrow> project_site list
      \<Rightarrow> string + (string \<times> (string \<times> string) list) list" where
  "site_envs E m envs [] = Inr envs"
| "site_envs E m envs (s # ss) =
     res_bind (read_profile (ex_rt E) (ex_files E) (pjs_path s)) (\<lambda>p.
       if validate_profile (ex_rt E) p \<noteq> []
       then Inl (''invalid site profile '' @ pjs_path s @ '': '' @ join ''; '' (validate_profile (ex_rt E) p))
       else site_envs E m (dict_set envs (pjs_id s) (site_env m s p)) ss)"

definition to_site_envs :: "export_env \<Rightarrow> project_manifest \<Rightarrow> string + (string \<times> (string \<times> string) list) list" where
  "to_site_envs E m = site_envs E m [] (pjm_sites m)"

definition env_value :: "(string \<times> string) list \<Rightarrow> pyval" where
  "env_value env = PDict (map (\<lambda>(k, v). (k, PStr v)) env)"

definition profile_path :: "project_manifest \<Rightarrow> string \<Rightarrow> string + string" where
  "profile_path m site = (case map_of (site_profile_paths m) site of None \<Rightarrow> Inl ''KeyError'' | Some p \<Rightarrow> Inr p)"

definition bundle_for_site :: "export_env \<Rightarrow> project_manifest \<Rightarrow> string option \<Rightarrow> string + pydict" where
  "bundle_for_site E m target =
     res_bind (to_site_envs E m) (\<lambda>envs.
       let entry = (\<lambda>sid env path. [(''site_id'', PStr sid), (''site_profile'', PStr path), (''env'', env_value env)]);
           top = [(''project_id'', PStr (pjm_id m)), (''name'', PStr (pjm_name m))] in
       case target of
         Some (c # cs) \<Rightarrow>
           (case map_of envs (c # cs) of
              None \<Rightarrow> Inl (''site_id not found in manifest: '' @ c # cs)
            | Some env \<Rightarrow> res_bind (profile_path m (c # cs)) (\<lambda>path. Inr (top @ entry (c # cs) env path)))
       | _ \<Rightarrow>
           Inr (top @ [(''sites'', PList (map (\<lambda>(sid, env). PDict (entry sid env (dict_getd (site_profile_paths m) sid []))) envs))]))"

definition site_bundle :: "project_manifest \<Rightarrow> string \<Rightarrow> (string \<times> string) list \<Rightarrow> string + pydict" where
  "site_bundle m site env =
     res_bind (profile_path m site) (\<lambda>path. Inr
       [(''project_id'', PStr (pjm_id m)), (''project_name'', PStr (pjm_name m)), (''site_id'', PStr site), (''site_profile'', PStr path),
        (''env'', env_value env), (''sources'', PList (map (PDict \<circ> source_dict) (filter (\<lambda>s. src_site s = site) (pjm_sources m)))),
        (''bridge_rules'', PList (map (PDict \<circ> bridge_dict) (pjm_rules m))),
        (''correlation_groups'', PList (map (PDict \<circ> group_dict) (pjm_groups m))),
        (''retention'', PDict (retention_dict (pjm_retention m)))])"

definition render_env :: "(string \<times> string) list \<Rightarrow> string" where
  "render_env env = join newline (map (\<lambda>(k, v). k @ ''='' @ v) (sort_key fst env)) @ newline"

section \<open>Rendered files\<close>

definition profile_of :: "export_env \<Rightarrow> project_manifest \<Rightarrow> string \<Rightarrow> string + site_profile" where
  "profile_of E m site = res_bind (profile_path m site) (read_profile (ex_rt E) (ex_files E))"

definition render_site_profile_yaml :: "export_env \<Rightarrow> project_manifest \<Rightarrow> string \<Rightarrow> string + string" where
  "render_site_profile_yaml E m site = res_bind (profile_of E m site) (\<lambda>p. Inr (ex_yaml E (PDict (profile_dict p))))"

definition render_bundle_yaml :: "export_env \<Rightarrow> project_manifest \<Rightarrow> string \<Rightarrow> (string \<times> string) list \<Rightarrow> string + string" where
  "render_bundle_yaml E m site env = res_bind (site_bundle m site env) (\<lambda>d. Inr (ex_yaml E (PDict d)))"

definition render_systemd_unit :: "project_manifest \<Rightarrow> string \<Rightarrow> string" where
  "render_systemd_unit m site =
     (let site_root = ''/etc/datastream/'' @ pjm_id m @ ''/'' @ site in
     join newline
      [''[Unit]'',
       ''Description=Data Stream runtime for '' @ pjm_name m @ '' ('' @ site @ '')'',
       ''After=network-online.target'',
       ''Wants=network-online.target'',
       [],
       ''[Service]'',
       ''Type=simple'',
       ''Restart=always'',
       ''RestartSec=5'',
       ''EnvironmentFile='' @ site_root @ ''/env/site.env'',
       ''Environment=PYTHONPATH='' @ site_root @ ''/runtime'',
       ''Environment=DATASTREAM_PID_DIR='' @ site_root @ ''/.datastream'',
       ''WorkingDirectory='' @ site_root @ ''/runtime'',
       ''ExecStart='' @ site_root @ ''/runtime/.venv/bin/python -m services.cli.datastreamd supervise --site-profile '' @ site_root @ ''/site-profile.yaml'',
       [],
       ''[Install]'',
       ''WantedBy=multi-user.target'',
       []])"

definition render_systemd_readme :: "project_manifest \<Rightarrow> string \<Rightarrow> string" where
  "render_systemd_readme m site =
     join newline
      [''# '' @ pjm_name m @ '' - '' @ site,
       [],
       ''This directory is ready to be copied to /etc/datastream/<project>/<site>.'',
       [],
       ''Install steps:'',
       ''1. Copy the exported site directory to /etc/datastream/<project>/<site>.'',
       ''2. Run systemd/install.sh on the target host as root or with sudo.'',
       ''3. Reload systemd and enable the unit. The unit runs the foreground supervisor, which owns child processes and performs bounded restarts.'',
       ''4. The installer copies the sibling runtime bundle and creates runtime/.venv. Set RAVAN_SKIP_PIP_INSTALL=1 only when dependencies are already installed from an approved offline source.'',
       ''5. Kafka, TimescaleDB, Flink, and other infrastructure remain external dependencies for host-native mode; use the Compose bundle for the complete single-host stack.'',
       [],
       ''Secrets and external credentials are intentionally left to the operator to provide.'',
       []]"

definition render_systemd_install :: "project_manifest \<Rightarrow> string \<Rightarrow> string" where
  "render_systemd_install m site =
     (let unit_name = ''datastreamd-'' @ site @ ''.service'' in
     join newline
      [''#!/usr/bin/env bash'',
       ''set -euo pipefail'',
       [],
       ''SOURCE_DIR=\"${1:-$(pwd)}\"'',
       ''TARGET_DIR=\"${2:-/etc/datastream/'' @ pjm_id m @ ''/'' @ site @ ''}\"'',
       ''UNIT_NAME=\"${3:-'' @ unit_name @ ''}\"'',
       ''SERVICE_FILE=\"${4:-/etc/systemd/system/${UNIT_NAME}}\"'',
       ''PYTHON_BIN=\"${RAVAN_PYTHON:-python3}\"'',
       [],
       ''if [ -n \"${5:-}\" ]; then RUNTIME_DIR=\"$5\"; else RUNTIME_DIR=\"$(cd \"${SOURCE_DIR}/../../runtime\" && pwd)\"; fi'',
       ''if ! command -v \"${PYTHON_BIN}\" >/dev/null 2>&1; then echo \"Ravan requires Python 3.10+; set RAVAN_PYTHON to the approved interpreter.\" >&2; exit 1; fi'',
       ''\"${PYTHON_BIN}\" -c \"import sys; assert sys.version_info >= (3, 10), sys.version\" || { echo \"Ravan requires Python 3.10+\" >&2; exit 1; }'',
       ''if [ ! -f \"${RUNTIME_DIR}/requirements.txt\" ]; then echo \"Runtime bundle not found: ${RUNTIME_DIR}\" >&2; exit 1; fi'',
       ''install -d -m 0755 \"${TARGET_DIR}\"'',
       ''install -d -m 0755 \"${TARGET_DIR}/env\"'',
       ''install -d -m 0755 \"${TARGET_DIR}/systemd\"'',
       ''install -d -m 0755 \"${TARGET_DIR}/runtime\"'',
       ''cp -a \"${RUNTIME_DIR}/.\" \"${TARGET_DIR}/runtime/\"'',
       ''\"${PYTHON_BIN}\" -m venv \"${TARGET_DIR}/runtime/.venv\"'',
       ''if [ \"${RAVAN_SKIP_PIP_INSTALL:-0}\" != \"1\" ]; then \"${TARGET_DIR}/runtime/.venv/bin/python\" -m pip install --requirement \"${TARGET_DIR}/runtime/requirements.txt\"; fi'',
       ''install -m 0644 \"${SOURCE_DIR}/site-profile.yaml\" \"${TARGET_DIR}/site-profile.yaml\"'',
       ''install -m 0644 \"${SOURCE_DIR}/bundle.yaml\" \"${TARGET_DIR}/bundle.yaml\"'',
       ''install -m 0644 \"${SOURCE_DIR}/env/site.env\" \"${TARGET_DIR}/env/site.env\"'',
       ''install -m 0644 \"${SOURCE_DIR}/systemd/datastreamd.service\" \"${SERVICE_FILE}\"'',
       ''systemctl daemon-reload'',
       ''systemctl enable \"${UNIT_NAME}\"'',
       ''echo \"Installed ${UNIT_NAME} using ${TARGET_DIR}\"'',
       []])"

definition render_systemd_uninstall :: "project_manifest \<Rightarrow> string \<Rightarrow> string" where
  "render_systemd_uninstall m site =
     (let unit_name = ''datastreamd-'' @ site @ ''.service'' in
     join newline
      [''#!/usr/bin/env bash'',
       ''set -euo pipefail'',
       [],
       ''UNIT_NAME=\"${1:-'' @ unit_name @ ''}\"'',
       ''systemctl stop \"${UNIT_NAME}\" || true'',
       ''systemctl disable \"${UNIT_NAME}\" || true'',
       ''rm -f \"/etc/systemd/system/${UNIT_NAME}\"'',
       ''systemctl daemon-reload'',
       ''TARGET_DIR=\"/etc/datastream/'' @ pjm_id m @ ''/'' @ site @ ''\"'',
       ''if [ \"${2:-0}\" = \"1\" ]; then rm -rf \"${TARGET_DIR}\"; echo \"Removed ${UNIT_NAME} and purged ${TARGET_DIR}\"; else echo \"Removed ${UNIT_NAME}; preserved ${TARGET_DIR} for rollback and data retention\"; fi'',
       []])"

definition render_windows_readme :: "project_manifest \<Rightarrow> string \<Rightarrow> string" where
  "render_windows_readme m site =
     join newline
      [''# '' @ pjm_name m @ '' - '' @ site,
       [],
       ''This directory is ready to be copied to a native Windows host.'',
       [],
       ''Install steps:'',
       ''1. Copy the exported site directory to the target host.'',
       ''2. Run windows/install.ps1 as Administrator.'',
       ''3. The installer copies the sibling runtime bundle and creates runtime/.venv. Set RAVAN_SKIP_PIP_INSTALL=1 only when dependencies are already installed from an approved offline source.'',
       ''4. Start the datastreamd service and verify datastreamctl status. The service runs the foreground supervisor and performs bounded restarts.'',
       ''5. Kafka, TimescaleDB, Flink, and other infrastructure remain external dependencies for host-native mode; use the Compose bundle for the complete single-host stack.'',
       [],
       ''WSL2 is intentionally not required for production installs.'',
       []]"

definition render_windows_cmd :: "string \<Rightarrow> string \<Rightarrow> string" where
  "render_windows_cmd command extra_args =
     join newline
      [''@echo off'',
       ''setlocal'',
       ''set \"RAVAN_RUNTIME_DIR=%~dp0..'' @ backslash @ ''runtime\"'',
       ''if exist \"%RAVAN_RUNTIME_DIR%'' @ backslash @ ''.venv'' @ backslash @ ''Scripts'' @ backslash @ ''python.exe\" set \"RAVAN_PYTHON=%RAVAN_RUNTIME_DIR%'' @ backslash @ ''.venv'' @ backslash @ ''Scripts'' @ backslash @ ''python.exe\"'',
       ''if not defined RAVAN_PYTHON set \"RAVAN_PYTHON=python\"'',
       ''set \"PYTHONPATH=%RAVAN_RUNTIME_DIR%;%PYTHONPATH%\"'',
       ''cd /d \"%RAVAN_RUNTIME_DIR%\"'',
       ''\"%RAVAN_PYTHON%\" -m '' @ command @ '' '' @ extra_args @ '' %*'',
       ''endlocal'',
       []]"

definition render_windows_install :: "project_manifest \<Rightarrow> string \<Rightarrow> string" where
  "render_windows_install m site =
     (let target_root = ''C:'' @ backslash @ ''Datastream'' @ backslash @ pjm_id m @ backslash @ site; service_name = ''datastreamd-'' @ site in
     join newline
      [''param('',
       ''    [string]$SourceDir = $PSScriptRoot,'',
       ''    [string]$TargetDir = '' @ quote @ target_root @ quote @ '','',
       ''    [string]$ServiceName = '' @ quote @ service_name @ quote @ '','',
       ''    [string]$RuntimeDir = '' @ quote @ quote,
       '')'',
       [],
       ''$ErrorActionPreference = 'Stop'' @ quote,
       [],
       ''$binDir = Join-Path $TargetDir 'bin'' @ quote,
       ''$configDir = Join-Path $TargetDir 'config'' @ quote,
       ''$dataDir = Join-Path $TargetDir 'data'' @ quote,
       ''$logsDir = Join-Path $TargetDir 'logs'' @ quote,
       ''$modelsDir = Join-Path $TargetDir 'models'' @ quote,
       ''$backupsDir = Join-Path $TargetDir 'backups'' @ quote,
       ''$envDir = Join-Path $TargetDir 'env'' @ quote,
       ''$runtimeTarget = Join-Path $TargetDir 'runtime'' @ quote,
       [],
       ''if ([string]::IsNullOrWhiteSpace($RuntimeDir)) { $RuntimeDir = (Resolve-Path (Join-Path $SourceDir '..'' @ backslash @ ''..'' @ backslash @ ''runtime')).Path }'',
       ''if (-not (Test-Path (Join-Path $RuntimeDir 'requirements.txt'))) { throw ('Runtime bundle not found: ' + $RuntimeDir) }'',
       ''New-Item -ItemType Directory -Force -Path $binDir, $configDir, $dataDir, $logsDir, $modelsDir, $backupsDir, $envDir | Out-Null'',
       ''New-Item -ItemType Directory -Force -Path $runtimeTarget | Out-Null'',
       ''Copy-Item (Join-Path $RuntimeDir '*') $runtimeTarget -Recurse -Force'',
       ''$hostPython = (Get-Command python -ErrorAction Stop).Source'',
       ''& $hostPython -c \"import sys; assert sys.version_info >= (3, 10), sys.version\"'',
       ''& $hostPython -m venv (Join-Path $runtimeTarget '.venv')'',
       ''$pythonExe = Join-Path $runtimeTarget '.venv'' @ backslash @ ''Scripts'' @ backslash @ ''python.exe'' @ quote,
       ''if ($env:RAVAN_SKIP_PIP_INSTALL -ne '1') { & $pythonExe -m pip install --requirement (Join-Path $runtimeTarget 'requirements.txt') }'',
       ''Copy-Item (Join-Path $SourceDir 'site-profile.yaml') (Join-Path $TargetDir 'site-profile.yaml') -Force'',
       ''Copy-Item (Join-Path $SourceDir 'bundle.yaml') (Join-Path $TargetDir 'bundle.yaml') -Force'',
       ''Copy-Item (Join-Path $SourceDir 'env'' @ backslash @ ''site.env') (Join-Path $envDir 'site.env') -Force'',
       [],
       ''$ctlWrapper = @'' @ quote,
       render_windows_cmd ''services.cli.datastreamctl'' [],
       quote @ ''@'',
       ''Set-Content -Path (Join-Path $binDir 'datastreamctl.cmd') -Value $ctlWrapper -Encoding ASCII'',
       [],
       ''$dWrapper = @'' @ quote,
       render_windows_cmd ''services.cli.datastreamd'' (''up --site-profile \"%~dp0..'' @ backslash @ ''site-profile.yaml\"''),
       quote @ ''@'',
       ''Set-Content -Path (Join-Path $binDir 'datastreamd.cmd') -Value $dWrapper -Encoding ASCII'',
       [],
       ''$serviceLauncher = Join-Path $binDir 'datastreamd-service.cmd'' @ quote,
       ''$serviceContent = @\"'',
       ''@echo off'',
       ''set \"PYTHONPATH=$runtimeTarget\"'',
       ''set \"DATASTREAM_PID_DIR=$(Join-Path $TargetDir '.datastream')\"'',
       ''cd /d \"$runtimeTarget\"'',
       ''\"$pythonExe\" -m services.cli.datastreamd supervise --site-profile \"$(Join-Path $TargetDir 'site-profile.yaml')\"'',
       ''\"@'',
       ''Set-Content -Path $serviceLauncher -Value $serviceContent -Encoding ASCII'',
       ''$binaryPath = '{0} /d /c \"\"{1}\"\"' -f $env:ComSpec, $serviceLauncher'',
       ''if (Get-Service -Name $ServiceName -ErrorAction SilentlyContinue) {'',
       ''    Stop-Service -Name $ServiceName -ErrorAction SilentlyContinue'',
       ''    sc.exe delete $ServiceName | Out-Null'',
       ''}'',
       ''New-Service -Name $ServiceName -BinaryPathName $binaryPath -DisplayName $ServiceName -Description 'Ravan runtime' -StartupType Automatic | Out-Null'',
       ''Write-Host ('Installed ' + $ServiceName + ' into ' + $TargetDir)'',
       []])"

definition render_windows_uninstall :: "project_manifest \<Rightarrow> string \<Rightarrow> string" where
  "render_windows_uninstall m site =
     (let service_name = ''datastreamd-'' @ site in
     join newline
      [''param('',
       ''    [string]$ServiceName = '' @ quote @ service_name @ quote @ '','',
       ''    [string]$TargetDir = 'C:'' @ backslash @ ''Datastream'' @ backslash @ pjm_id m @ backslash @ site @ quote,
       '')'',
       [],
       ''$ErrorActionPreference = 'Stop'' @ quote,
       [],
       ''if (Get-Service -Name $ServiceName -ErrorAction SilentlyContinue) {'',
       ''    Stop-Service -Name $ServiceName -ErrorAction SilentlyContinue'',
       ''    sc.exe delete $ServiceName | Out-Null'',
       ''}'',
       ''Write-Host ('Removed ' + $ServiceName + '. Site files remain in ' + $TargetDir + ' for rollback unless you delete them manually.')'',
       []])"

definition render_kubernetes_configmap :: "export_env \<Rightarrow> project_manifest \<Rightarrow> string \<Rightarrow> (string \<times> string) list \<Rightarrow> string" where
  "render_kubernetes_configmap E m site env =
     ex_yaml E
         (PDict [(''apiVersion'', PStr ''v1''),
           (''kind'', PStr ''ConfigMap''),
           (''metadata'', PDict [(''name'', PStr (''datastream-'' @ site @ ''-config'')),
               (''labels'', PDict [(''app.kubernetes.io/name'', PStr ''datastream''),
                   (''app.kubernetes.io/instance'', PStr site),
                   (''datastream/project'', PStr (pjm_id m))])]),
           (''data'', env_value env)])"

definition render_kubernetes_site_profile_configmap :: "export_env \<Rightarrow> project_manifest \<Rightarrow> string \<Rightarrow> string + string" where
  "render_kubernetes_site_profile_configmap E m site =
     res_bind (profile_of E m site) (\<lambda>p. Inr (ex_yaml E
         (PDict [(''apiVersion'', PStr ''v1''),
           (''kind'', PStr ''ConfigMap''),
           (''metadata'', PDict [(''name'', PStr (''datastream-'' @ site @ ''-site-profile'')),
               (''labels'', PDict [(''app.kubernetes.io/name'', PStr ''datastream''),
                   (''app.kubernetes.io/instance'', PStr site),
                   (''datastream/project'', PStr (pjm_id m))])]),
           (''data'', PDict [(''site-profile.yaml'', PStr (ex_yaml E (PDict (profile_dict p))))])])))"

definition render_kubernetes_deployment :: "export_env \<Rightarrow> project_manifest \<Rightarrow> string \<Rightarrow> string" where
  "render_kubernetes_deployment E m site =
     ex_yaml E
         (PDict [(''apiVersion'', PStr ''apps/v1''),
           (''kind'', PStr ''Deployment''),
           (''metadata'', PDict [(''name'', PStr (''datastream-'' @ site)),
               (''labels'', PDict [(''app.kubernetes.io/name'', PStr ''datastream''),
                   (''app.kubernetes.io/instance'', PStr site),
                   (''datastream/project'', PStr (pjm_id m))])]),
           (''spec'', PDict [(''replicas'', PInt 1),
               (''selector'', PDict [(''matchLabels'', PDict [(''app.kubernetes.io/name'', PStr ''datastream''),
                       (''app.kubernetes.io/instance'', PStr site)])]),
               (''template'', PDict [(''metadata'', PDict [(''labels'', PDict [(''app.kubernetes.io/name'', PStr ''datastream''),
                           (''app.kubernetes.io/instance'', PStr site)])]),
                   (''spec'', PDict [(''containers'', PList [PDict [(''name'', PStr ''datastreamd''),
                               (''image'', PStr ''datastream:latest''),
                               (''imagePullPolicy'', PStr ''IfNotPresent''),
                               (''args'', PList [PStr ''up'', PStr ''--site-profile'', PStr ''/etc/datastream/site-profile.yaml'']),
                               (''envFrom'', PList [PDict [(''configMapRef'', PDict [(''name'', PStr (''datastream-'' @ site @ ''-config''))])]]),
                               (''volumeMounts'', PList [PDict [(''name'', PStr ''site-profile''),
                                       (''mountPath'', PStr ''/etc/datastream/site-profile.yaml''),
                                       (''subPath'', PStr ''site-profile.yaml''),
                                       (''readOnly'', PBool True)]]),
                               (''ports'', PList [PDict [(''containerPort'', PInt 8080),
                                       (''name'', PStr ''http'')]]),
                               (''resources'', PDict [(''requests'', PDict [(''cpu'', PStr ''250m''),
                                       (''memory'', PStr ''512Mi'')]),
                                   (''limits'', PDict [(''cpu'', PStr ''1000m''),
                                       (''memory'', PStr ''1Gi'')])])]]),
                       (''volumes'', PList [PDict [(''name'', PStr ''site-profile''),
                               (''configMap'', PDict [(''name'', PStr (''datastream-'' @ site @ ''-site-profile''))])]])])])])])"

definition render_kubernetes_service :: "export_env \<Rightarrow> project_manifest \<Rightarrow> string \<Rightarrow> string" where
  "render_kubernetes_service E m site =
     ex_yaml E
         (PDict [(''apiVersion'', PStr ''v1''),
           (''kind'', PStr ''Service''),
           (''metadata'', PDict [(''name'', PStr (''datastream-'' @ site)),
               (''labels'', PDict [(''app.kubernetes.io/name'', PStr ''datastream''),
                   (''app.kubernetes.io/instance'', PStr site),
                   (''datastream/project'', PStr (pjm_id m))])]),
           (''spec'', PDict [(''type'', PStr ''ClusterIP''),
               (''selector'', PDict [(''app.kubernetes.io/name'', PStr ''datastream''),
                   (''app.kubernetes.io/instance'', PStr site)]),
               (''ports'', PList [PDict [(''name'', PStr ''http''),
                       (''port'', PInt 8080),
                       (''targetPort'', PStr ''http'')]])])])"

definition render_kubernetes_readme :: "project_manifest \<Rightarrow> string \<Rightarrow> string" where
  "render_kubernetes_readme m site =
     join newline
      [''# '' @ pjm_name m @ '' - '' @ site,
       [],
       ''This directory contains a Kubernetes starter bundle.'',
       [],
       ''Run `kubectl apply -k .` after replacing the image tag with your release build.'',
       [],
       ''Secrets are intentionally not bundled. Provide broker credentials, external APIs, and model endpoints via your cluster secret workflow.'',
       []]"

definition render_kubernetes_helm_values :: "export_env \<Rightarrow> project_manifest \<Rightarrow> string \<Rightarrow> (string \<times> string) list \<Rightarrow> string + string" where
  "render_kubernetes_helm_values E m site env =
     res_bind (profile_of E m site) (\<lambda>p. Inr (ex_yaml E
         (PDict [(''fullnameOverride'', PStr (''datastream-'' @ site)),
           (''namespaceOverride'', PStr (''datastream-'' @ site)),
           (''image'', PDict [(''repository'', PStr ''data-stream''),
               (''tag'', PStr (rtp_tag (spf_runtime p))),
               (''pullPolicy'', PStr ''IfNotPresent'')]),
           (''processor'', PDict [(''enabled'', PBool (rtp_mode (spf_runtime p) = ''python-fallback'')),
               (''replicaCount'', PInt 1)]),
           (''flinkJob'', PDict [(''enabled'', PBool (rtp_mode (spf_runtime p) \<in> set [''flink-local'', ''flink-production''])),
               (''replicaCount'', PInt 1)]),
           (''env'', env_value env),
           (''secrets'', PDict [(''create'', PBool False),
               (''existingSecret'', PStr ''data-stream-secrets''),
               (''data'', PDict [(''TIMESCALE_PASSWORD'', PStr []),
                   (''JWT_SECRET'', PStr []),
                   (''LLM_API_KEY'', PStr [])])])])))"

definition render_kubernetes_helm_readme :: "project_manifest \<Rightarrow> string \<Rightarrow> string" where
  "render_kubernetes_helm_readme m site =
     join newline
      [''# Helm overlay for '' @ pjm_name m @ '' - '' @ site,
       [],
       ''Use this overlay with the chart in `k8s/helm`.'',
       [],
       ''Example:'',
       ''  helm upgrade --install datastream-demo-site ./k8s/helm --namespace datastream-demo-site -f kubernetes/helm/values.generated.yaml'',
       [],
       ''Run `kubernetes/helm/install.sh` to use the generated release and namespace defaults.'',
       [],
       ''Replace the generated image tag and provide secrets through your cluster secret workflow.'',
       []]"

definition render_kubernetes_helm_install :: "project_manifest \<Rightarrow> string \<Rightarrow> string" where
  "render_kubernetes_helm_install m site =
     (let release = ''datastream-'' @ site; namespace = ''datastream-'' @ site in
     join newline
      [''#!/usr/bin/env bash'',
       ''set -euo pipefail'',
       [],
       ''ROOT_DIR=\"${1:-$(cd \"$(dirname \"${BASH_SOURCE[0]}\")\" && pwd)}\"'',
       ''RELEASE_NAME=\"${2:-'' @ release @ ''}\"'',
       ''NAMESPACE=\"${3:-'' @ namespace @ ''}\"'',
       ''VALUES_FILE=\"${4:-${ROOT_DIR}/values.generated.yaml}\"'',
       [],
       ''helm upgrade --install \"${RELEASE_NAME}\" ./k8s/helm --namespace \"${NAMESPACE}\" -f \"${VALUES_FILE}\"'',
       []])"

definition render_kubernetes_kustomization :: "export_env \<Rightarrow> project_manifest \<Rightarrow> string \<Rightarrow> string" where
  "render_kubernetes_kustomization E m site =
     ex_yaml E
         (PDict [(''apiVersion'', PStr ''kustomize.config.k8s.io/v1beta1''),
           (''kind'', PStr ''Kustomization''),
           (''namespace'', PStr ''datastream''),
           (''resources'', PList [PStr ''configmap.yaml'', PStr ''site-profile-configmap.yaml'', PStr ''deployment.yaml'', PStr ''service.yaml'']),
           (''commonLabels'', PDict [(''app.kubernetes.io/name'', PStr ''datastream''),
               (''app.kubernetes.io/instance'', PStr site),
               (''datastream/project'', PStr (pjm_id m))])])"

definition render_package_readme :: "project_manifest \<Rightarrow> string \<Rightarrow> string" where
  "render_package_readme m site =
     join newline
      [''# Deployment package for '' @ pjm_name m @ '' - '' @ site,
       [],
       ''This directory contains all deployable outputs for one site:'',
       [],
       ''- `flat/` for quick inspection or CI artifacts'',
       ''- `systemd/` for host-based installation'',
       ''- `kubernetes/` for kustomize and Helm-based deployment'',
       [],
       ''The generated Helm wrapper uses site-specific release and namespace defaults.'',
       []]"

section \<open>The writes of an export\<close>

text \<open>A path below another, and \<open>with_suffix\<close>: the last part without its suffix, which starts at a dot that is neither
  first nor last.\<close>

definition under :: "pypath \<Rightarrow> string list \<Rightarrow> pypath" where
  "under dir parts = (fst dir, snd dir @ parts)"

definition name_stem :: "string \<Rightarrow> string" where
  "name_stem name =
     (let ext = takeWhile (\<lambda>c. c \<noteq> CHR ''.'') (rev name) in
      if ext \<noteq> [] \<and> length ext + 1 < length name then take (length name - length ext - 1) name else name)"

definition with_suffix :: "pypath \<Rightarrow> string \<Rightarrow> string + pypath" where
  "with_suffix p suffix =
     (if snd p = [] then Inl ''ValueError'' else Inr (fst p, butlast (snd p) @ [name_stem (last (snd p)) @ suffix]))"

type_synonym disk = "(pypath \<times> string) list"
type_synonym file_write = "(string + pypath) \<times> (string + string)"

fun run_writes :: "file_write list \<Rightarrow> disk \<Rightarrow> pypath list \<Rightarrow> string option \<times> disk \<times> pypath list" where
  "run_writes [] d written = (None, d, written)"
| "run_writes ((p, c) # ws) d written =
     (case p of
        Inl e \<Rightarrow> (Some e, d, written)
      | Inr path \<Rightarrow>
          (case c of
             Inl e \<Rightarrow> (Some e, d, written)
           | Inr content \<Rightarrow> run_writes ws (dict_set d path content) (written @ [path])))"

definition only_if :: "bool \<Rightarrow> 'a list \<Rightarrow> 'a list" where
  "only_if b xs = (if b then xs else [])"

definition export_flat_site ::
    "export_env \<Rightarrow> project_manifest \<Rightarrow> pypath \<Rightarrow> string \<Rightarrow> (string \<times> string) list \<Rightarrow> string \<Rightarrow> file_write list" where
  "export_flat_site E m base site env fmt =
     only_if (fmt \<in> set [''env'', ''both'']) [(with_suffix (path_div base site) ''.env'', Inr (render_env env))]
     @ only_if (fmt \<in> set [''yaml'', ''both'']) [(with_suffix (path_div base site) ''.yaml'', render_bundle_yaml E m site env)]"

definition systemd_files :: "project_manifest \<Rightarrow> string \<Rightarrow> (string list \<times> (string + string)) list" where
  "systemd_files m site =
     [([''systemd'', ''datastreamd.service''], Inr (render_systemd_unit m site)),
      ([''systemd'', ''README.md''], Inr (render_systemd_readme m site)),
      ([''systemd'', ''install.sh''], Inr (render_systemd_install m site)),
      ([''systemd'', ''uninstall.sh''], Inr (render_systemd_uninstall m site))]"

definition windows_files :: "project_manifest \<Rightarrow> string \<Rightarrow> (string list \<times> (string + string)) list" where
  "windows_files m site =
     [([''windows'', ''README.md''], Inr (render_windows_readme m site)),
      ([''windows'', ''install.ps1''], Inr (render_windows_install m site)),
      ([''windows'', ''uninstall.ps1''], Inr (render_windows_uninstall m site)),
      ([''windows'', ''bin'', ''datastreamctl.cmd''], Inr (render_windows_cmd ''services.cli.datastreamctl'' [])),
      ([''windows'', ''bin'', ''datastreamd.cmd''], Inr (render_windows_cmd ''services.cli.datastreamd'' ''up''))]"

definition kubernetes_files ::
    "export_env \<Rightarrow> project_manifest \<Rightarrow> string \<Rightarrow> (string \<times> string) list \<Rightarrow> (string list \<times> (string + string)) list" where
  "kubernetes_files E m site env =
     [([''kubernetes'', ''configmap.yaml''], Inr (render_kubernetes_configmap E m site env)),
      ([''kubernetes'', ''site-profile-configmap.yaml''], render_kubernetes_site_profile_configmap E m site),
      ([''kubernetes'', ''deployment.yaml''], Inr (render_kubernetes_deployment E m site)),
      ([''kubernetes'', ''service.yaml''], Inr (render_kubernetes_service E m site)),
      ([''kubernetes'', ''kustomization.yaml''], Inr (render_kubernetes_kustomization E m site)),
      ([''kubernetes'', ''README.md''], Inr (render_kubernetes_readme m site)),
      ([''kubernetes'', ''helm'', ''values.generated.yaml''], render_kubernetes_helm_values E m site env),
      ([''kubernetes'', ''helm'', ''README.md''], Inr (render_kubernetes_helm_readme m site)),
      ([''kubernetes'', ''helm'', ''install.sh''], Inr (render_kubernetes_helm_install m site))]"

definition below :: "pypath \<Rightarrow> (string list \<times> (string + string)) list \<Rightarrow> file_write list" where
  "below dir files = map (\<lambda>(parts, c). (Inr (under dir parts), c)) files"

definition structured_files ::
    "export_env \<Rightarrow> project_manifest \<Rightarrow> string \<Rightarrow> (string \<times> string) list \<Rightarrow> string \<Rightarrow> string \<Rightarrow> (string list \<times> (string + string)) list" where
  "structured_files E m site env fmt layout =
     [([''site-profile.yaml''], render_site_profile_yaml E m site), ([''bundle.yaml''], render_bundle_yaml E m site env)]
     @ only_if (fmt \<in> set [''env'', ''both'']) [([''env'', ''site.env''], Inr (render_env env))]
     @ (if layout = ''systemd'' then systemd_files m site else if layout = ''windows'' then windows_files m site
        else if layout = ''kubernetes'' then kubernetes_files E m site env else [])"

definition export_structured_site ::
    "export_env \<Rightarrow> project_manifest \<Rightarrow> pypath \<Rightarrow> string \<Rightarrow> (string \<times> string) list \<Rightarrow> string \<Rightarrow> string \<Rightarrow> file_write list" where
  "export_structured_site E m base site env fmt layout = below (path_div base site) (structured_files E m site env fmt layout)"

definition package_files ::
    "export_env \<Rightarrow> project_manifest \<Rightarrow> string \<Rightarrow> (string \<times> string) list \<Rightarrow> string \<Rightarrow> (string list \<times> (string + string)) list" where
  "package_files E m site env fmt =
     [([''README.md''], Inr (render_package_readme m site))]
     @ only_if (fmt \<in> set [''env'', ''both'']) [([''flat'', ''site.env''], Inr (render_env env))]
     @ only_if (fmt \<in> set [''yaml'', ''both'']) [([''flat'', ''bundle.yaml''], render_bundle_yaml E m site env)]
     @ [([''site-profile.yaml''], render_site_profile_yaml E m site), ([''bundle.yaml''], render_bundle_yaml E m site env),
        ([''env'', ''site.env''], Inr (render_env env))]
     @ systemd_files m site @ kubernetes_files E m site env"

definition export_package_site ::
    "export_env \<Rightarrow> project_manifest \<Rightarrow> pypath \<Rightarrow> string \<Rightarrow> (string \<times> string) list \<Rightarrow> string \<Rightarrow> file_write list" where
  "export_package_site E m base site env fmt = below (path_div base site) (package_files E m site env fmt)"

definition site_writes ::
    "export_env \<Rightarrow> project_manifest \<Rightarrow> pypath \<Rightarrow> string \<Rightarrow> (string \<times> string) list \<Rightarrow> string \<Rightarrow> string \<Rightarrow> file_write list" where
  "site_writes E m base site env fmt layout =
     (if layout = ''flat'' then export_flat_site E m base site env fmt
      else if layout \<in> set [''systemd'', ''windows'', ''kubernetes''] then export_structured_site E m base site env fmt layout
      else export_package_site E m base site env fmt)"

fun export_targets ::
    "export_env \<Rightarrow> project_manifest \<Rightarrow> pypath \<Rightarrow> (string \<times> (string \<times> string) list) list \<Rightarrow> string \<Rightarrow> string \<Rightarrow> string list
      \<Rightarrow> disk \<Rightarrow> pypath list \<Rightarrow> string option \<times> disk \<times> pypath list" where
  "export_targets E m base envs fmt layout [] d written = (None, d, written)"
| "export_targets E m base envs fmt layout (sid # sids) d written =
     (case map_of envs sid of
        None \<Rightarrow> (Some (''site_id not found in manifest: '' @ sid), d, written)
      | Some env \<Rightarrow>
          (case run_writes (site_writes E m base sid env fmt layout) d written of
             (Some e, d', written') \<Rightarrow> (Some e, d', written')
           | (None, d', written') \<Rightarrow> export_targets E m base envs fmt layout sids d' written'))"

definition export_bundles ::
    "export_env \<Rightarrow> project_manifest \<Rightarrow> string \<Rightarrow> string option \<Rightarrow> string \<Rightarrow> string \<Rightarrow> disk \<Rightarrow> string option \<times> disk \<times> pypath list" where
  "export_bundles E m output_dir target fmt layout d =
     (if fmt \<notin> set [''env'', ''yaml'', ''both''] then (Some (''invalid export format: '' @ fmt), d, [])
      else if layout \<notin> set [''flat'', ''systemd'', ''windows'', ''kubernetes'', ''package'']
      then (Some (''invalid export layout: '' @ layout), d, [])
      else (case to_site_envs E m of
              Inl e \<Rightarrow> (Some e, d, [])
            | Inr envs \<Rightarrow>
                export_targets E m (path_of output_dir) envs fmt layout
                  (case target of Some (c # cs) \<Rightarrow> [c # cs] | _ \<Rightarrow> map fst envs) d []))"

definition export_package :: "export_env \<Rightarrow> project_manifest \<Rightarrow> string \<Rightarrow> string option \<Rightarrow> string \<Rightarrow> disk \<Rightarrow> string option \<times> disk \<times> pypath list" where
  "export_package E m output_dir target fmt d = export_bundles E m output_dir target fmt ''package'' d"

section \<open>Releases\<close>

text \<open>\<open>site_root.rglob("*")\<close> of files, \<open>relative_to(site_root).as_posix()\<close>, and a line of the checksum file.\<close>

definition files_below :: "pypath \<Rightarrow> disk \<Rightarrow> pypath list" where
  "files_below dir d =
     filter (\<lambda>p. fst p = fst dir \<and> length (snd dir) < length (snd p) \<and> take (length (snd dir)) (snd p) = snd dir) (map fst d)"

definition relative_text :: "pypath \<Rightarrow> pypath \<Rightarrow> string" where
  "relative_text dir p = join ''/'' (drop (length (snd dir)) (snd p))"

definition checksum_line :: "export_env \<Rightarrow> pypath \<Rightarrow> disk \<Rightarrow> pypath \<Rightarrow> string" where
  "checksum_line E dir d p = ex_sha E (dict_getd d p []) @ ''  '' @ relative_text dir p"

definition release_payload :: "export_env \<Rightarrow> project_manifest \<Rightarrow> string \<Rightarrow> string \<Rightarrow> nat \<Rightarrow> pydict" where
  "release_payload E m site fmt file_count =
     [(''project_id'', PStr (pjm_id m)), (''project_name'', PStr (pjm_name m)), (''site_id'', PStr site),
      (''artifact_type'', PStr ''release-package''), (''generated_at'', PStr (ex_manifest_time E)), (''format'', PStr fmt),
      (''layout'', PStr ''package''), (''file_count'', PInt (int file_count)), (''checksums_file'', PStr ''checksums.sha256''),
      (''release_notes'', PList
         [PStr ''This is a self-hosted release skeleton.'',
          PStr ''Secrets, signing keys, and installer signing remain operator-owned.'',
          PStr ''Use the generated checksums file with your downstream signing workflow.''])]"

definition signature_payload ::
    "export_env \<Rightarrow> project_manifest \<Rightarrow> string \<Rightarrow> string \<Rightarrow> string \<Rightarrow> string \<Rightarrow> string \<Rightarrow> pydict" where
  "signature_payload E m site key key_id manifest_bytes checksum_bytes =
     [(''project_id'', PStr (pjm_id m)), (''project_name'', PStr (pjm_name m)), (''site_id'', PStr site),
      (''artifact_type'', PStr ''release-signature''), (''generated_at'', PStr (ex_signature_time E)),
      (''algorithm'', PStr ''HMAC-SHA256''), (''key_id'', PStr key_id), (''manifest_sha256'', PStr (ex_sha E manifest_bytes)),
      (''checksums_sha256'', PStr (ex_sha E checksum_bytes)),
      (''signature'', PStr (ex_hmac E key (manifest_bytes @ newline @ checksum_bytes)))]"

definition export_release_artifact ::
    "export_env \<Rightarrow> project_manifest \<Rightarrow> string \<Rightarrow> string \<Rightarrow> string \<Rightarrow> string option \<Rightarrow> string \<Rightarrow> disk
      \<Rightarrow> string option \<times> disk \<times> pypath list" where
  "export_release_artifact E m output_dir site fmt key key_id d =
     (case export_package E m output_dir (Some site) fmt d of
        (Some e, d1, written) \<Rightarrow> (Some e, d1, written)
      | (None, d1, written) \<Rightarrow>
          (let dir = path_div (path_of output_dir) site;
               files = files_below dir d1;
               checksums = map (checksum_line E dir d1) (sort_key snd files);
               manifest = ex_json E (PDict (release_payload E m site fmt (length files)));
               sum_text = join newline checksums @ newline;
               manifest_path = under dir [''release-manifest.json''];
               sums_path = under dir [''checksums.sha256''];
               d2 = dict_set (dict_set d1 manifest_path manifest) sums_path sum_text;
               written2 = written @ [manifest_path, sums_path] in
           (case key of
              Some (c # cs) \<Rightarrow>
                (let sig_path = under dir [''release-signature.json''] in
                 (None, dict_set d2 sig_path (ex_json E (PDict (signature_payload E m site (c # cs) key_id manifest sum_text))),
                  written2 @ [sig_path]))
            | _ \<Rightarrow> (None, d2, written2))))"

section \<open>A valid project is exported as rendered\<close>

definition profile_for :: "export_env \<Rightarrow> project_site \<Rightarrow> site_profile" where
  "profile_for E s = projr (read_profile (ex_rt E) (ex_files E) (pjs_path s))"

definition env_for :: "export_env \<Rightarrow> project_manifest \<Rightarrow> project_site \<Rightarrow> (string \<times> string) list" where
  "env_for E m s = site_env m s (profile_for E s)"

lemma fits_profile:
  assumes "site_fits (ex_rt E) (ex_files E) s"
  shows "read_profile (ex_rt E) (ex_files E) (pjs_path s) = Inr (profile_for E s) \<and> validate_profile (ex_rt E) (profile_for E s) = []"
  using assms by (auto simp: site_fits_def profile_for_def profile_accepted)

lemma site_envs_all:
  assumes "\<forall>s \<in> set ss. site_fits (ex_rt E) (ex_files E) s" "distinct (map pjs_id ss)" "\<forall>s \<in> set ss. pjs_id s \<notin> fst ` set envs"
  shows "site_envs E m envs ss = Inr (envs @ map (\<lambda>s. (pjs_id s, env_for E m s)) ss)"
  using assms
proof (induction ss arbitrary: envs)
  case (Cons s ss)
  have "dict_set envs (pjs_id s) (env_for E m s) = envs @ [(pjs_id s, env_for E m s)]"
    using Cons.prems(3) by (simp add: dict_set_fresh)
  moreover have "site_envs E m (envs @ [(pjs_id s, env_for E m s)]) ss
      = Inr ((envs @ [(pjs_id s, env_for E m s)]) @ map (\<lambda>s. (pjs_id s, env_for E m s)) ss)"
    by (rule Cons.IH) (use Cons.prems in \<open>simp_all, metis image_eqI\<close>)
  ultimately show ?case using fits_profile [of E s] Cons.prems(1) by (simp add: env_for_def)
qed simp

lemma profile_paths_fold:
  assumes "distinct (map pjs_id ss)" "\<forall>s \<in> set ss. pjs_id s \<notin> fst ` set d"
  shows "foldl (\<lambda>d s. dict_set d (pjs_id s) (f s)) d ss = d @ map (\<lambda>s. (pjs_id s, f s)) ss"
  using assms
proof (induction ss arbitrary: d)
  case (Cons s ss)
  have "foldl (\<lambda>d s. dict_set d (pjs_id s) (f s)) (d @ [(pjs_id s, f s)]) ss = (d @ [(pjs_id s, f s)]) @ map (\<lambda>s. (pjs_id s, f s)) ss"
    by (rule Cons.IH) (use Cons.prems in \<open>simp_all, metis image_eqI\<close>)
  then show ?case using Cons.prems(2) by (simp add: dict_set_fresh)
qed simp

lemma profile_path_site:
  assumes "distinct (map pjs_id (pjm_sites m))" "s \<in> set (pjm_sites m)"
  shows "profile_path m (pjs_id s) = Inr (path_str (path_of (pjs_path s)))"
proof -
  let ?f = "\<lambda>s. path_str (path_of (pjs_path s))"
  have "site_profile_paths m = map (\<lambda>s. (pjs_id s, ?f s)) (pjm_sites m)"
    unfolding site_profile_paths_def using profile_paths_fold [of "pjm_sites m" "[]" ?f] assms(1) by simp
  moreover have "map_of (map (\<lambda>s. (pjs_id s, ?f s)) (pjm_sites m)) (pjs_id s) = Some (?f s)"
    by (rule map_of_is_SomeI) (use assms in \<open>auto simp: comp_def\<close>)
  ultimately show ?thesis by (simp add: profile_path_def)
qed

lemma profile_of_site:
  assumes "manifest_fits (ex_rt E) (ex_files E) m" "s \<in> set (pjm_sites m)"
  shows "profile_of E m (pjs_id s) = Inr (profile_for E s)"
proof -
  have "distinct (map pjs_id (pjm_sites m))" and fits: "site_fits (ex_rt E) (ex_files E) s"
    using assms by (simp_all add: manifest_fits_def header_fits_def)
  then have "profile_of E m (pjs_id s) = read_profile (ex_rt E) (ex_files E) (path_str (path_of (pjs_path s)))"
    unfolding profile_of_def using profile_path_site [OF _ assms(2)] by simp
  also have "\<dots> = read_profile (ex_rt E) (ex_files E) (pjs_path s)"
    unfolding read_profile_def by (simp only: path_of_str [OF path_of_ok])
  finally show ?thesis using fits_profile [OF fits] by simp
qed

text \<open>Every write of a valid site has a path and a content.\<close>

definition rendered :: "file_write list \<Rightarrow> (pypath \<times> string) list" where
  "rendered ws = map (\<lambda>(p, c). (projr p, projr c)) ws"

definition renders :: "file_write list \<Rightarrow> bool" where
  "renders ws \<longleftrightarrow> (\<forall>(p, c) \<in> set ws. is_ok p \<and> is_ok c)"

lemma run_rendered:
  "renders ws \<Longrightarrow> run_writes ws d w = (None, dict_merge d (rendered ws), w @ map fst (rendered ws))"
  unfolding renders_def rendered_def dict_merge_def
proof (induction ws arbitrary: d w)
  case (Cons x ws)
  then show ?case by (cases x; cases "fst x"; cases "snd x") (auto simp: is_ok_def)
qed simp

lemma renders_append [simp]: "renders (xs @ ys) \<longleftrightarrow> renders xs \<and> renders ys"
  by (auto simp: renders_def)

lemma renders_only_if [simp]: "renders (only_if b xs) \<longleftrightarrow> (b \<longrightarrow> renders xs)"
  by (cases b) (simp_all add: only_if_def renders_def)

lemma renders_below: "renders (below dir files) \<longleftrightarrow> (\<forall>(parts, c) \<in> set files. is_ok c)"
  by (auto simp: renders_def below_def is_ok_def)

lemma is_ok_Inr [simp]: "is_ok (Inr x)" "is_ok (res_bind (Inr a) f) = is_ok (f a)"
  by (simp_all add: is_ok_def)

text \<open>A site identifier that is one part of a path and has no suffix.\<close>

definition plain_id :: "string \<Rightarrow> bool" where
  "plain_id s = (s \<noteq> [] \<and> CHR ''/'' \<notin> set s \<and> CHR ''.'' \<notin> set s)"

lemma split_on_plain: "c \<notin> set s \<Longrightarrow> split_on c s = [s]"
  by (induction s) auto

lemma plain_path: "plain_id s \<Longrightarrow> path_div base s = under base [s]"
proof -
  assume s: "plain_id s"
  then obtain c cs where c: "s = c # cs" "c \<noteq> CHR ''/''" by (cases s) (auto simp: plain_id_def)
  then have "\<not> starts_with s ''/''" "\<not> starts_with s ''//''" by simp_all
  moreover have "split_on (CHR ''/'') s = [s]" using s by (simp add: plain_id_def split_on_plain)
  moreover have "s \<noteq> ''.''" using s by (auto simp: plain_id_def)
  ultimately have "path_of s = ([], [s])" using s by (simp add: path_of_def plain_id_def)
  then show ?thesis by (simp add: path_div_def path_join_def under_def)
qed

lemma plain_suffix: "plain_id s \<Longrightarrow> with_suffix (path_div base s) suf = Inr (under base [s @ suf])"
proof -
  assume s: "plain_id s"
  then have "takeWhile (\<lambda>c. c \<noteq> CHR ''.'') (rev s) = rev s" by (auto simp: plain_id_def takeWhile_eq_all_conv)
  then have "name_stem s = s" unfolding name_stem_def Let_def by (simp only: length_rev) auto
  then show ?thesis by (simp add: plain_path [OF s] with_suffix_def under_def butlast_append)
qed

lemma bundle_renders:
  assumes "manifest_fits (ex_rt E) (ex_files E) m" "s \<in> set (pjm_sites m)"
  shows "is_ok (render_bundle_yaml E m (pjs_id s) env)" "is_ok (render_site_profile_yaml E m (pjs_id s))"
    "is_ok (render_kubernetes_site_profile_configmap E m (pjs_id s))" "is_ok (render_kubernetes_helm_values E m (pjs_id s) env)"
proof -
  have d: "distinct (map pjs_id (pjm_sites m))" using assms(1) by (simp add: manifest_fits_def header_fits_def)
  show "is_ok (render_bundle_yaml E m (pjs_id s) env)"
    unfolding render_bundle_yaml_def site_bundle_def profile_path_site [OF d assms(2)] by simp
  note p = profile_of_site [OF assms]
  show "is_ok (render_site_profile_yaml E m (pjs_id s))" unfolding render_site_profile_yaml_def p by simp
  show "is_ok (render_kubernetes_site_profile_configmap E m (pjs_id s))" unfolding render_kubernetes_site_profile_configmap_def p by simp
  show "is_ok (render_kubernetes_helm_values E m (pjs_id s) env)" unfolding render_kubernetes_helm_values_def p by simp
qed

text \<open>The parts of the files of a layout below the directory of the site.\<close>

definition layout_parts :: "string \<Rightarrow> string list list" where
  "layout_parts layout =
     (if layout = ''systemd''
      then [[''systemd'', ''datastreamd.service''], [''systemd'', ''README.md''], [''systemd'', ''install.sh''], [''systemd'', ''uninstall.sh'']]
      else if layout = ''windows''
      then [[''windows'', ''README.md''], [''windows'', ''install.ps1''], [''windows'', ''uninstall.ps1''],
            [''windows'', ''bin'', ''datastreamctl.cmd''], [''windows'', ''bin'', ''datastreamd.cmd'']]
      else if layout = ''kubernetes''
      then [[''kubernetes'', ''configmap.yaml''], [''kubernetes'', ''site-profile-configmap.yaml''], [''kubernetes'', ''deployment.yaml''],
            [''kubernetes'', ''service.yaml''], [''kubernetes'', ''kustomization.yaml''], [''kubernetes'', ''README.md''],
            [''kubernetes'', ''helm'', ''values.generated.yaml''], [''kubernetes'', ''helm'', ''README.md''], [''kubernetes'', ''helm'', ''install.sh'']]
      else [])"

definition structured_parts :: "string \<Rightarrow> string \<Rightarrow> string list list" where
  "structured_parts fmt layout =
     [[''site-profile.yaml''], [''bundle.yaml'']] @ only_if (fmt \<in> set [''env'', ''both'']) [[''env'', ''site.env'']] @ layout_parts layout"

definition package_parts :: "string \<Rightarrow> string list list" where
  "package_parts fmt =
     [[''README.md'']] @ only_if (fmt \<in> set [''env'', ''both'']) [[''flat'', ''site.env'']]
     @ only_if (fmt \<in> set [''yaml'', ''both'']) [[''flat'', ''bundle.yaml'']]
     @ [[''site-profile.yaml''], [''bundle.yaml''], [''env'', ''site.env'']] @ layout_parts ''systemd'' @ layout_parts ''kubernetes''"

lemma layout_parts_of:
  "map fst (systemd_files m site) = layout_parts ''systemd''" "map fst (windows_files m site) = layout_parts ''windows''"
  "map fst (kubernetes_files E m site env) = layout_parts ''kubernetes''"
  by (simp_all add: systemd_files_def windows_files_def kubernetes_files_def layout_parts_def)

lemma map_only_if: "map f (only_if b xs) = only_if b (map f xs)"
  by (simp add: only_if_def)

lemma structured_parts_of: "map fst (structured_files E m site env fmt layout) = structured_parts fmt layout"
proof -
  have "map fst (if layout = ''systemd'' then systemd_files m site else if layout = ''windows'' then windows_files m site
        else if layout = ''kubernetes'' then kubernetes_files E m site env else []) = layout_parts layout"
  proof -
    have none: "layout \<noteq> ''systemd'' \<Longrightarrow> layout \<noteq> ''windows'' \<Longrightarrow> layout \<noteq> ''kubernetes'' \<Longrightarrow> layout_parts layout = []"
      by (simp add: layout_parts_def)
    consider "layout = ''systemd''" | "layout = ''windows''" | "layout = ''kubernetes''"
      | "layout \<noteq> ''systemd''" "layout \<noteq> ''windows''" "layout \<noteq> ''kubernetes''" by blast
    then show ?thesis by cases (simp_all add: layout_parts_of none)
  qed
  then show ?thesis unfolding structured_files_def structured_parts_def map_append map_only_if by simp
qed

lemma package_parts_of: "map fst (package_files E m site env fmt) = package_parts fmt"
  unfolding package_files_def package_parts_def map_append map_only_if layout_parts_of by simp

lemma layout_parts_values: "\<forall>fmt \<in> {''env'', ''yaml'', ''both''}. distinct (package_parts fmt) \<and> [] \<notin> set (package_parts fmt)"
  "\<forall>fmt \<in> {''env'', ''yaml'', ''both''}. \<forall>layout \<in> {''systemd'', ''windows'', ''kubernetes''}.
     distinct (structured_parts fmt layout) \<and> [] \<notin> set (structured_parts fmt layout)"
  by code_simp+

lemma fst_rendered_below: "map fst (rendered (below dir files)) = map (under dir) (map fst files)"
  by (simp add: rendered_def below_def case_prod_beta' comp_def)

lemma under_inject [simp]: "under dir p = under dir q \<longleftrightarrow> p = q"
  by (simp add: under_def)

lemma distinct_under: "distinct (map (under dir) ps) = distinct ps"
  by (simp add: distinct_map inj_on_def)

text \<open>A path below a directory, and the site the path of an export belongs to.\<close>

definition inside :: "pypath \<Rightarrow> pypath \<Rightarrow> bool" where
  "inside dir p \<longleftrightarrow> fst p = fst dir \<and> length (snd dir) < length (snd p) \<and> take (length (snd dir)) (snd p) = snd dir"

definition owner :: "pypath \<Rightarrow> pypath \<Rightarrow> string" where
  "owner base p = takeWhile (\<lambda>c. c \<noteq> CHR ''.'') (snd p ! length (snd base))"

lemma inside_under: "inside dir (under dir ps) \<longleftrightarrow> ps \<noteq> []"
  by (simp add: inside_def under_def)

lemma takeWhile_plain: "plain_id s \<Longrightarrow> takeWhile (\<lambda>c. c \<noteq> CHR ''.'') s = s \<and> takeWhile (\<lambda>c. c \<noteq> CHR ''.'') (s @ CHR ''.'' # t) = s"
proof -
  assume "plain_id s"
  then have c: "\<And>c. c \<in> set s \<Longrightarrow> c \<noteq> CHR ''.''" by (auto simp: plain_id_def)
  then have "takeWhile (\<lambda>c. c \<noteq> CHR ''.'') s = s" by (simp add: takeWhile_eq_all_conv)
  moreover have "takeWhile (\<lambda>c. c \<noteq> CHR ''.'') (s @ CHR ''.'' # t) = s @ takeWhile (\<lambda>c. c \<noteq> CHR ''.'') (CHR ''.'' # t)"
    by (rule takeWhile_append2) (rule c)
  ultimately show ?thesis by simp
qed

definition writes_ok :: "pypath \<Rightarrow> string \<Rightarrow> file_write list \<Rightarrow> bool" where
  "writes_ok base site ws \<longleftrightarrow>
     renders ws \<and> distinct (map fst (rendered ws)) \<and> (\<forall>p \<in> set (map fst (rendered ws)). owner base p = site \<and> inside base p)"

lemma below_ok:
  assumes "\<forall>(parts, c) \<in> set files. is_ok c" "distinct (map fst files)" "plain_id site"
  shows "writes_ok base site (below (path_div base site) files)"
proof -
  have "owner base (under (under base [site]) ps) = site \<and> inside base (under (under base [site]) ps)" for ps
    using takeWhile_plain [OF assms(3)] by (simp add: owner_def inside_def under_def nth_append)
  then show ?thesis
    unfolding writes_ok_def renders_below plain_path [OF assms(3)] fst_rendered_below distinct_under using assms(1,2) by auto
qed

lemma flat_ok:
  assumes "is_ok (render_bundle_yaml E m site env)" "plain_id site"
  shows "writes_ok base site (export_flat_site E m base site env fmt)"
proof -
  have o: "owner base (under base [site @ CHR ''.'' # t]) = site \<and> inside base (under base [site @ CHR ''.'' # t])" for t
    using takeWhile_plain [OF assms(2)] by (simp add: owner_def inside_def under_def nth_append)
  have w: "export_flat_site E m base site env fmt =
      only_if (fmt \<in> set [''env'', ''both'']) [(Inr (under base [site @ ''.env'']), Inr (render_env env))]
      @ only_if (fmt \<in> set [''yaml'', ''both'']) [(Inr (under base [site @ ''.yaml'']), render_bundle_yaml E m site env)]"
    unfolding export_flat_site_def plain_suffix [OF assms(2)] by (rule refl)
  show ?thesis
    unfolding w writes_ok_def using assms(1) o
    by (cases "fmt \<in> set [''env'', ''both'']"; cases "fmt \<in> set [''yaml'', ''both'']") (auto simp: renders_def rendered_def only_if_def)
qed

lemma site_writes_ok:
  assumes "manifest_fits (ex_rt E) (ex_files E) m" "s \<in> set (pjm_sites m)" "plain_id (pjs_id s)"
    "fmt \<in> set [''env'', ''yaml'', ''both'']" "layout \<in> set [''flat'', ''systemd'', ''windows'', ''kubernetes'', ''package'']"
  shows "writes_ok base (pjs_id s) (site_writes E m base (pjs_id s) env fmt layout)"
proof -
  note r = bundle_renders [OF assms(1,2)]
  have k: "\<forall>(parts, c) \<in> set (kubernetes_files E m (pjs_id s) env). is_ok c"
    unfolding kubernetes_files_def using r by simp
  have sy: "\<forall>(parts, c) \<in> set (systemd_files m (pjs_id s)). is_ok c" "\<forall>(parts, c) \<in> set (windows_files m (pjs_id s)). is_ok c"
    unfolding systemd_files_def windows_files_def by simp_all
  have st: "\<forall>(parts, c) \<in> set (structured_files E m (pjs_id s) env fmt layout). is_ok c"
    unfolding structured_files_def using k sy r by (auto simp: only_if_def split: if_splits)
  have pk: "\<forall>(parts, c) \<in> set (package_files E m (pjs_id s) env fmt). is_ok c"
    unfolding package_files_def using k sy r by (auto simp: only_if_def split: if_splits)
  have fm: "fmt \<in> {''env'', ''yaml'', ''both''}" using assms(4) by simp
  have "layout = ''flat'' \<or> layout \<in> {''systemd'', ''windows'', ''kubernetes''} \<or> layout = ''package''"
    using assms(5) unfolding list.set insert_iff empty_iff by argo
  then consider "layout = ''flat''" | "layout \<in> {''systemd'', ''windows'', ''kubernetes''}" | "layout = ''package''" by (elim disjE)
  then show ?thesis
  proof cases
    case 1
    then show ?thesis unfolding site_writes_def using flat_ok [OF r(1) assms(3)] by simp
  next
    case 2
    then have "site_writes E m base (pjs_id s) env fmt layout = export_structured_site E m base (pjs_id s) env fmt layout"
      by (auto simp: site_writes_def)
    moreover have "distinct (structured_parts fmt layout)" using layout_parts_values(2) fm 2 by blast
    ultimately show ?thesis
      unfolding export_structured_site_def using below_ok [OF st _ assms(3)] by (simp only: structured_parts_of)
  next
    case 3
    then have "site_writes E m base (pjs_id s) env fmt layout = export_package_site E m base (pjs_id s) env fmt"
      by (simp add: site_writes_def)
    moreover have "distinct (package_parts fmt)" using layout_parts_values(1) fm by blast
    ultimately show ?thesis
      unfolding export_package_site_def using below_ok [OF pk _ assms(3)] by (simp only: package_parts_of)
  qed
qed

lemma targets_run:
  assumes "\<forall>s \<in> set ss. map_of envs (pjs_id s) = Some (f s) \<and> renders (site_writes E m base (pjs_id s) (f s) fmt layout)"
  shows "export_targets E m base envs fmt layout (map pjs_id ss) d w =
    (None, dict_merge d (concat (map (\<lambda>s. rendered (site_writes E m base (pjs_id s) (f s) fmt layout)) ss)),
     w @ map fst (concat (map (\<lambda>s. rendered (site_writes E m base (pjs_id s) (f s) fmt layout)) ss)))"
  using assms
proof (induction ss arbitrary: d w)
  case (Cons s ss)
  let ?r = "rendered (site_writes E m base (pjs_id s) (f s) fmt layout)"
  have "run_writes (site_writes E m base (pjs_id s) (f s) fmt layout) d w = (None, dict_merge d ?r, w @ map fst ?r)"
    by (rule run_rendered) (use Cons.prems in simp)
  moreover have "dict_merge (dict_merge d xs) ys = dict_merge d (xs @ ys)" for xs ys :: disk by (simp add: dict_merge_def)
  ultimately show ?case using Cons by simp
qed (simp add: dict_merge_def)

lemma owned_distinct:
  assumes "distinct (map g ss)" "\<forall>s \<in> set ss. distinct (map fst (h s)) \<and> (\<forall>p \<in> set (map fst (h s)). own p = g s)"
  shows "distinct (map fst (concat (map h ss)))"
  using assms
proof (induction ss)
  case (Cons s ss)
  have "set (map fst (h s)) \<inter> set (map fst (concat (map h ss))) = {}"
  proof (rule equals0I)
    fix p assume "p \<in> set (map fst (h s)) \<inter> set (map fst (concat (map h ss)))"
    then obtain t where t: "t \<in> set ss" "p \<in> set (map fst (h t))" and p: "p \<in> set (map fst (h s))" by auto
    have "own p = g s" using Cons.prems(2) p by auto
    moreover have "own p = g t" using Cons.prems(2) t by auto
    ultimately show False using Cons.prems(1) t(1) by (auto simp: image_iff)
  qed
  then show ?case using Cons by simp
qed simp

text \<open>Claim C16. A valid project whose site identifiers are plain is exported without an error, whatever the format and the
  layout: every file of every site has in the end the content rendered for it, all of them lie below the output
  directory, and no other file changes.\<close>

theorem valid_project_exports:
  assumes "manifest_fits (ex_rt E) (ex_files E) m" "\<forall>s \<in> set (pjm_sites m). plain_id (pjs_id s)"
    "fmt \<in> set [''env'', ''yaml'', ''both'']" "layout \<in> set [''flat'', ''systemd'', ''windows'', ''kubernetes'', ''package'']"
  shows "\<exists>d' written. export_bundles E m out None fmt layout d = (None, d', written) \<and> distinct written
    \<and> (\<forall>s \<in> set (pjm_sites m). \<exists>p. read_profile (ex_rt E) (ex_files E) (pjs_path s) = Inr p
          \<and> (\<forall>w \<in> set (site_writes E m (path_of out) (pjs_id s) (site_env m s p) fmt layout).
               \<exists>path content. w = (Inr path, Inr content) \<and> path \<in> set written \<and> map_of d' path = Some content))
    \<and> (\<forall>path. path \<notin> set written \<longrightarrow> map_of d' path = map_of d path) \<and> (\<forall>path \<in> set written. inside (path_of out) path)"
proof -
  let ?ss = "pjm_sites m" and ?base = "path_of out"
  let ?w = "\<lambda>s. site_writes E m ?base (pjs_id s) (env_for E m s) fmt layout"
  let ?all = "concat (map (\<lambda>s. rendered (?w s)) ?ss)"
  have ids: "distinct (map pjs_id ?ss)" and fits: "\<forall>s \<in> set ?ss. site_fits (ex_rt E) (ex_files E) s"
    using assms(1) by (simp_all add: manifest_fits_def header_fits_def)
  define envs where "envs = map (\<lambda>s. (pjs_id s, env_for E m s)) ?ss"
  have envs: "to_site_envs E m = Inr envs" unfolding to_site_envs_def envs_def using site_envs_all [OF fits ids] by simp
  have look: "map_of envs (pjs_id s) = Some (env_for E m s)" if "s \<in> set ?ss" for s
    unfolding envs_def by (rule map_of_is_SomeI) (use ids that in \<open>auto simp: comp_def\<close>)
  have ok: "writes_ok ?base (pjs_id s) (?w s)" if "s \<in> set ?ss" for s
    by (rule site_writes_ok [OF assms(1) that _ assms(3,4)]) (use assms(2) that in simp)
  have "map fst envs = map pjs_id ?ss" by (simp add: envs_def comp_def)
  then have "export_bundles E m out None fmt layout d = export_targets E m ?base envs fmt layout (map pjs_id ?ss) d []"
    unfolding export_bundles_def envs using assms(3,4) by (simp only: if_False simp_thms sum.case option.case)
  also have "\<dots> = (None, dict_merge d ?all, [] @ map fst ?all)"
    by (rule targets_run) (use look ok in \<open>simp add: writes_ok_def\<close>)
  finally have run: "export_bundles E m out None fmt layout d = (None, dict_merge d ?all, map fst ?all)" by simp
  have wf: "wf_dict ?all"
    by (rule owned_distinct [where own = "owner ?base" and g = pjs_id, OF ids]) (use ok in \<open>simp add: writes_ok_def\<close>)
  note merged = map_of_dict_merge [OF wf, of d]
  have files: "\<exists>path content. w = (Inr path, Inr content) \<and> path \<in> set (map fst ?all) \<and> map_of (dict_merge d ?all) path = Some content"
    if s: "s \<in> set ?ss" and w: "w \<in> set (?w s)" for s w
  proof -
    have "renders (?w s)" using ok [OF s] by (simp add: writes_ok_def)
    then obtain path content where pc: "w = (Inr path, Inr content)"
      using w unfolding renders_def by (cases w; cases "fst w"; cases "snd w") (auto simp: is_ok_def)
    then have "(path, content) \<in> set (rendered (?w s))" using w unfolding rendered_def by force
    then have i: "(path, content) \<in> set ?all" using s by auto
    then have "map_of ?all path = Some content" by (rule map_of_is_SomeI [OF wf])
    then have "map_of (dict_merge d ?all) path = Some content" unfolding merged by (simp add: map_add_def)
    moreover have "path \<in> set (map fst ?all)" using i by force
    ultimately show ?thesis using pc by blast
  qed
  have other: "map_of (dict_merge d ?all) path = map_of d path" if "path \<notin> set (map fst ?all)" for path
  proof -
    have "map_of ?all path = None" using that by (simp only: map_of_eq_None_iff set_map not_False_eq_True)
    then show ?thesis unfolding merged by (simp add: map_add_def)
  qed
  have "inside ?base path" if "path \<in> set (map fst ?all)" for path
    using that ok unfolding writes_ok_def by fastforce
  then show ?thesis
    using run wf files other fits_profile fits unfolding env_for_def by blast
qed

definition plant_env :: export_env where
  "plant_env =
     \<lparr>ex_rt = demo_rt, ex_files = plant_files, ex_yaml = (\<lambda>_. ''y''), ex_json = (\<lambda>v. ''j''), ex_sha = (\<lambda>s. s),
      ex_hmac = (\<lambda>k s. s @ k), ex_manifest_time = ''t1'', ex_signature_time = ''t2''\<rparr>"

theorem valid_project_exports_witness:
  "fst (export_bundles plant_env plant_manifest ''/out'' None ''both'' ''kubernetes'' []) = None"
proof -
  have "manifest_fits (ex_rt plant_env) (ex_files plant_env) plant_manifest"
    unfolding manifest_accepted [symmetric] using plant_manifest_valid by (simp add: plant_env_def)
  moreover have "\<forall>s \<in> set (pjm_sites plant_manifest). plain_id (pjs_id s)" by code_simp
  moreover have "''both'' \<in> set [''env'', ''yaml'', ''both'']" by code_simp
  moreover have "''kubernetes'' \<in> set [''flat'', ''systemd'', ''windows'', ''kubernetes'', ''package'']" by code_simp
  ultimately have "\<exists>d' written. export_bundles plant_env plant_manifest ''/out'' None ''both'' ''kubernetes'' [] = (None, d', written)"
    using valid_project_exports [of plant_env plant_manifest "''both''" "''kubernetes''" "''/out''" "[]"] by blast
  then show ?thesis by auto
qed

section \<open>Releases verify, the first time\<close>

lemma run_keys:
  "run_writes ws d w = (None, d', w') \<Longrightarrow> path \<in> fst ` set d' \<Longrightarrow> path \<in> fst ` set d \<or> (\<exists>c. (Inr path, c) \<in> set ws)"
proof (induction ws arbitrary: d w)
  case (Cons x ws)
  obtain p c where x: "x = (p, c)" by fastforce
  obtain q k where q: "p = Inr q" "c = Inr k" using Cons.prems(1) unfolding x by (auto split: sum.splits)
  have "path \<in> fst ` set (dict_set d q k) \<or> (\<exists>c. (Inr path, c) \<in> set ws)"
    by (rule Cons.IH) (use Cons.prems in \<open>simp_all add: x q\<close>)
  then show ?case unfolding dom_update by (auto simp: x q)
qed simp

lemma run_keeps:
  "run_writes ws d w = (None, d', w') \<Longrightarrow> \<forall>c. (Inr path, c) \<notin> set ws \<Longrightarrow> map_of d' path = map_of d path"
proof (induction ws arbitrary: d w)
  case (Cons x ws)
  obtain p c where x: "x = (p, c)" by fastforce
  obtain q k where q: "p = Inr q" "c = Inr k" using Cons.prems(1) unfolding x by (auto split: sum.splits)
  have "map_of d' path = map_of (dict_set d q k) path"
    by (rule Cons.IH) (use Cons.prems in \<open>simp_all add: x q\<close>)
  then show ?case using Cons.prems(2) by (auto simp: x q)
qed simp

definition release_names :: "string list list" where
  "release_names = [[''release-manifest.json''], [''checksums.sha256''], [''release-signature.json'']]"

lemma release_names_free: "\<forall>fmt \<in> {''env'', ''yaml'', ''both''}. \<forall>n \<in> set release_names. n \<notin> set (package_parts fmt)"
  by code_simp

lemma package_run:
  assumes "export_package E m out (Some site) fmt d = (None, d', written)" "site \<noteq> []"
  shows "\<exists>env w. run_writes (below (path_div (path_of out) site) (package_files E m site env fmt)) d [] = (None, d', w)
    \<and> (\<forall>n \<in> set release_names. n \<notin> set (package_parts fmt))"
proof -
  obtain c cs where site: "site = c # cs" using assms(2) by (cases site) auto
  have fmt: "fmt \<in> set [''env'', ''yaml'', ''both'']"
    using assms(1) unfolding export_package_def export_bundles_def by (auto simp del: list.set split: if_splits)
  have layout: "''package'' \<in> set [''flat'', ''systemd'', ''windows'', ''kubernetes'', ''package'']" by code_simp
  have run: "(case to_site_envs E m of Inl e \<Rightarrow> (Some e, d, [])
      | Inr envs \<Rightarrow> export_targets E m (path_of out) envs fmt ''package'' [site] d []) = (None, d', written)"
    using assms(1) fmt layout unfolding export_package_def export_bundles_def site
    by (simp only: not_True_eq_False simp_thms if_False option.case list.case)
  then obtain envs where "export_targets E m (path_of out) envs fmt ''package'' [site] d [] = (None, d', written)"
    by (cases "to_site_envs E m") simp_all
  then obtain env w where "run_writes (site_writes E m (path_of out) site env fmt ''package'') d [] = (None, d', w)"
    by (auto split: option.splits prod.splits)
  moreover have "site_writes E m (path_of out) site env fmt ''package''
      = below (path_div (path_of out) site) (package_files E m site env fmt)"
    by (simp add: site_writes_def export_package_site_def)
  moreover have "fmt \<in> {''env'', ''yaml'', ''both''}" using fmt by simp
  ultimately show ?thesis using release_names_free by metis
qed

lemma below_parts:
  "(Inr path, k) \<in> set (below dir (package_files E m site env fmt)) \<Longrightarrow> \<exists>parts \<in> set (package_parts fmt). path = under dir parts"
  unfolding package_parts_of [of E m site env fmt, symmetric] below_def by force

lemma package_keys:
  assumes "export_package E m out (Some site) fmt d = (None, d', written)" "site \<noteq> []" "path \<in> fst ` set d'"
  shows "path \<in> fst ` set d \<or> (\<exists>parts. path = under (path_div (path_of out) site) parts \<and> parts \<notin> set release_names)"
proof -
  obtain env w where run: "run_writes (below (path_div (path_of out) site) (package_files E m site env fmt)) d [] = (None, d', w)"
    and names: "\<forall>n \<in> set release_names. n \<notin> set (package_parts fmt)"
    using package_run [OF assms(1,2)] by blast
  show ?thesis using run_keys [OF run assms(3)] below_parts names by metis
qed

lemma package_keeps:
  assumes "export_package E m out (Some site) fmt d = (None, d', written)" "site \<noteq> []"
    "map_of d (under (path_div (path_of out) site) n) = Some old" "n \<in> set release_names"
  shows "map_of d' (under (path_div (path_of out) site) n) = Some old"
proof -
  obtain env w where run: "run_writes (below (path_div (path_of out) site) (package_files E m site env fmt)) d [] = (None, d', w)"
    and names: "\<forall>n \<in> set release_names. n \<notin> set (package_parts fmt)"
    using package_run [OF assms(1,2)] by blast
  have "\<forall>c. (Inr (under (path_div (path_of out) site) n), c) \<notin> set (below (path_div (path_of out) site) (package_files E m site env fmt))"
    using below_parts names assms(4) under_inject by metis
  from run_keeps [OF run this] assms(3) show ?thesis by simp
qed

lemma files_below_set: "set (files_below dir d) = {p \<in> fst ` set d. inside dir p}"
  by (auto simp: files_below_def inside_def)

text \<open>What the release adds to the package.\<close>

lemma release_result:
  assumes "export_release_artifact E m out site fmt key key_id d = (None, d', written)"
  shows "\<exists>d1 w. export_package E m out (Some site) fmt d = (None, d1, w)
    \<and> (let dir = path_div (path_of out) site; files = sort_key snd (files_below dir d1) in
       map_of d' (under dir [''checksums.sha256'']) = Some (join newline (map (checksum_line E dir d1) files) @ newline)
       \<and> map_of d' (under dir [''release-manifest.json'']) = Some (ex_json E (PDict (release_payload E m site fmt (length (files_below dir d1)))))
       \<and> (\<forall>p. p \<notin> under dir ` set release_names \<longrightarrow> map_of d' p = map_of d1 p))"
proof -
  let ?dir = "path_div (path_of out) site"
  obtain e d1 w where x: "export_package E m out (Some site) fmt d = (e, d1, w)" using prod_cases3 by blast
  have e: "e = None" using assms unfolding export_release_artifact_def x by (cases e) auto
  note r = assms [unfolded export_release_artifact_def x e prod.case option.case Let_def]
  have "map_of d' (under ?dir [''checksums.sha256'']) = Some (join newline (map (checksum_line E ?dir d1) (sort_key snd (files_below ?dir d1))) @ newline)
     \<and> map_of d' (under ?dir [''release-manifest.json'']) = Some (ex_json E (PDict (release_payload E m site fmt (length (files_below ?dir d1)))))
     \<and> (\<forall>p. p \<notin> under ?dir ` set release_names \<longrightarrow> map_of d' p = map_of d1 p)"
  proof (cases "key = None \<or> key = Some []")
    case True
    then show ?thesis using r by (auto simp: release_names_def)
  next
    case False
    then obtain c cs where "key = Some (c # cs)" by (metis neq_Nil_conv not_None_eq)
    then show ?thesis using r by (auto simp: release_names_def)
  qed
  then show ?thesis using x e unfolding Let_def by blast
qed

text \<open>Claim C24. The release of a site into a directory that holds none of its files: the checksum file names every file of the
  release with the digest of its final content, except the manifest, the signature and itself.\<close>

theorem release_verifies:
  assumes "export_release_artifact E m out site fmt key key_id d = (None, d', written)" "site \<noteq> []"
    "\<forall>p \<in> fst ` set d. \<not> inside (path_div (path_of out) site) p"
  shows "\<exists>files. map_of d' (under (path_div (path_of out) site) [''checksums.sha256''])
        = Some (join newline (map (\<lambda>p. ex_sha E (the (map_of d' p)) @ ''  '' @ relative_text (path_div (path_of out) site) p) files) @ newline)
    \<and> set files = {p. inside (path_div (path_of out) site) p \<and> map_of d' p \<noteq> None} - under (path_div (path_of out) site) ` set release_names"
proof -
  let ?dir = "path_div (path_of out) site"
  obtain d1 w where pkg: "export_package E m out (Some site) fmt d = (None, d1, w)"
    and sums: "map_of d' (under ?dir [''checksums.sha256'']) = Some (join newline (map (checksum_line E ?dir d1) (sort_key snd (files_below ?dir d1))) @ newline)"
    and other: "\<forall>p. p \<notin> under ?dir ` set release_names \<longrightarrow> map_of d' p = map_of d1 p"
    using release_result [OF assms(1)] unfolding Let_def by blast
  have free: "p \<notin> under ?dir ` set release_names" if "p \<in> fst ` set d1" "inside ?dir p" for p
    using package_keys [OF pkg assms(2) that(1)] assms(3) that(2) by auto
  have line: "checksum_line E ?dir d1 p = ex_sha E (the (map_of d' p)) @ ''  '' @ relative_text ?dir p"
    if "p \<in> set (files_below ?dir d1)" for p
  proof -
    have p: "p \<in> fst ` set d1" "inside ?dir p" using that unfolding files_below_set by auto
    then have "map_of d' p = map_of d1 p" using other free by blast
    moreover obtain c where "map_of d1 p = Some c" using p(1) by (meson map_of_eq_None_iff not_None_eq)
    ultimately show ?thesis unfolding checksum_line_def dict_getd_def by simp
  qed
  have lines: "map (checksum_line E ?dir d1) (sort_key snd (files_below ?dir d1))
      = map (\<lambda>p. ex_sha E (the (map_of d' p)) @ ''  '' @ relative_text ?dir p) (sort_key snd (files_below ?dir d1))"
    by (rule map_cong [OF refl]) (use line in simp)
  have "set (sort_key snd (files_below ?dir d1)) = {p. inside ?dir p \<and> map_of d' p \<noteq> None} - under ?dir ` set release_names"
  proof (intro set_eqI iffI)
    fix p assume "p \<in> set (sort_key snd (files_below ?dir d1))"
    then have p: "p \<in> fst ` set d1" "inside ?dir p" by (simp_all add: files_below_set)
    then have f: "p \<notin> under ?dir ` set release_names" by (rule free)
    then have "map_of d' p = map_of d1 p" using other by blast
    moreover note f
    moreover have "map_of d1 p \<noteq> None" using p(1) by (simp only: map_of_eq_None_iff not_not)
    ultimately show "p \<in> {p. inside ?dir p \<and> map_of d' p \<noteq> None} - under ?dir ` set release_names" using p(2) by simp
  next
    fix p assume p: "p \<in> {p. inside ?dir p \<and> map_of d' p \<noteq> None} - under ?dir ` set release_names"
    then have "map_of d' p = map_of d1 p" using other by blast
    then have "map_of d1 p \<noteq> None" using p by simp
    then have "p \<in> fst ` set d1" by (simp only: map_of_eq_None_iff not_not)
    then show "p \<in> set (sort_key snd (files_below ?dir d1))" using p by (simp add: files_below_set)
  qed
  with sums lines show ?thesis by (intro exI [of _ "sort_key snd (files_below ?dir d1)"]) simp
qed

lemma valid_site_packages:
  assumes "manifest_fits (ex_rt E) (ex_files E) m" "s \<in> set (pjm_sites m)" "plain_id (pjs_id s)" "fmt \<in> set [''env'', ''yaml'', ''both'']"
  shows "\<exists>d' w. export_package E m out (Some (pjs_id s)) fmt d = (None, d', w)"
proof -
  have ids: "distinct (map pjs_id (pjm_sites m))" and fits: "\<forall>s \<in> set (pjm_sites m). site_fits (ex_rt E) (ex_files E) s"
    using assms(1) by (simp_all add: manifest_fits_def header_fits_def)
  define envs where "envs = map (\<lambda>s. (pjs_id s, env_for E m s)) (pjm_sites m)"
  have envs: "to_site_envs E m = Inr envs" unfolding to_site_envs_def envs_def using site_envs_all [OF fits ids] by simp
  have look: "map_of envs (pjs_id s) = Some (env_for E m s)"
    unfolding envs_def by (rule map_of_is_SomeI) (use ids assms(2) in \<open>auto simp: comp_def\<close>)
  have layout: "''package'' \<in> set [''flat'', ''systemd'', ''windows'', ''kubernetes'', ''package'']" by code_simp
  have "renders (site_writes E m (path_of out) (pjs_id s) (env_for E m s) fmt ''package'')"
    using site_writes_ok [OF assms(1-4) layout] by (simp add: writes_ok_def)
  then have "\<exists>d' w. export_targets E m (path_of out) envs fmt ''package'' (map pjs_id [s]) d [] = (None, d', w)"
    using targets_run [of "[s]" envs "env_for E m"] look by auto
  moreover obtain c cs where "pjs_id s = c # cs" using assms(3) by (cases "pjs_id s") (auto simp: plain_id_def)
  ultimately show ?thesis
    using assms(4) layout unfolding export_package_def export_bundles_def envs by (simp del: list.set)
qed

lemma release_succeeds:
  assumes "export_package E m out (Some site) fmt d = (None, d1, w)"
  shows "\<exists>d' w'. export_release_artifact E m out site fmt key key_id d = (None, d', w')"
  unfolding export_release_artifact_def assms by (auto simp: Let_def split: option.split list.split)

lemma plant_releases: "\<exists>d' w. export_release_artifact plant_env plant_manifest ''/out'' ''s1'' ''env'' key key_id d = (None, d', w)"
proof -
  have fits: "manifest_fits (ex_rt plant_env) (ex_files plant_env) plant_manifest"
    unfolding manifest_accepted [symmetric] using plant_manifest_valid by (simp add: plant_env_def)
  have s: "hd (pjm_sites plant_manifest) \<in> set (pjm_sites plant_manifest)" by (simp add: plant_manifest_def)
  have i: "pjs_id (hd (pjm_sites plant_manifest)) = ''s1''" by (simp add: plant_manifest_def)
  have "plain_id ''s1''" "''env'' \<in> set [''env'', ''yaml'', ''both'']" by code_simp+
  then show ?thesis using valid_site_packages [OF fits s] release_succeeds unfolding i by metis
qed

theorem release_verifies_witness:
  "map_of (fst (snd (export_release_artifact plant_env plant_manifest ''/out'' ''s1'' ''env'' None ''k'' [])))
     (under (path_div (path_of ''/out'') ''s1'') [''checksums.sha256'']) \<noteq> None"
proof -
  obtain d' w where r: "export_release_artifact plant_env plant_manifest ''/out'' ''s1'' ''env'' None ''k'' [] = (None, d', w)"
    using plant_releases by blast
  have "''s1'' \<noteq> []" by simp
  from release_verifies [OF r this] show ?thesis unfolding r by auto
qed

text \<open>A second release into the same directory: the checksum file is computed while the manifest of the release before
  is still there, and names its digest.\<close>

theorem second_release_stale:
  assumes "export_release_artifact E m out site fmt key key_id d = (None, d', written)"
    "map_of d (under (path_div (path_of out) site) [''release-manifest.json'']) = Some old" "site \<noteq> []"
    "\<forall>n. ex_sha E (ex_json E (PDict (release_payload E m site fmt n))) \<noteq> ex_sha E old"
  shows "\<exists>lines. map_of d' (under (path_div (path_of out) site) [''checksums.sha256'']) = Some (join newline lines @ newline)
    \<and> ex_sha E old @ ''  release-manifest.json'' \<in> set lines
    \<and> ex_sha E (the (map_of d' (under (path_div (path_of out) site) [''release-manifest.json'']))) \<noteq> ex_sha E old"
proof -
  let ?dir = "path_div (path_of out) site"
  let ?m = "under ?dir [''release-manifest.json'']"
  obtain d1 w where pkg: "export_package E m out (Some site) fmt d = (None, d1, w)"
    and sums: "map_of d' (under ?dir [''checksums.sha256'']) = Some (join newline (map (checksum_line E ?dir d1) (sort_key snd (files_below ?dir d1))) @ newline)"
    and man: "map_of d' ?m = Some (ex_json E (PDict (release_payload E m site fmt (length (files_below ?dir d1)))))"
    using release_result [OF assms(1)] unfolding Let_def by blast
  have old: "map_of d1 ?m = Some old" by (rule package_keeps [OF pkg assms(3,2)]) (simp add: release_names_def)
  then have "?m \<in> fst ` set d1" by (metis map_of_eq_None_iff not_None_eq)
  then have "?m \<in> set (files_below ?dir d1)" by (simp add: files_below_set inside_under)
  moreover have "checksum_line E ?dir d1 ?m = ex_sha E old @ ''  release-manifest.json''"
  proof -
    have "relative_text ?dir ?m = ''release-manifest.json''" by (simp add: relative_text_def under_def)
    then show ?thesis unfolding checksum_line_def dict_getd_def old by simp
  qed
  ultimately have "ex_sha E old @ ''  release-manifest.json'' \<in> set (map (checksum_line E ?dir d1) (sort_key snd (files_below ?dir d1)))"
    by (metis (no_types) image_eqI set_map set_sort)
  then show ?thesis using sums man assms(4) by auto
qed

theorem second_release_stale_witness:
  "\<exists>lines. map_of (fst (snd (export_release_artifact plant_env plant_manifest ''/out'' ''s1'' ''env'' None ''k''
        [(under (path_div (path_of ''/out'') ''s1'') [''release-manifest.json''], ''old'')])))
      (under (path_div (path_of ''/out'') ''s1'') [''checksums.sha256'']) = Some (join newline lines @ newline)
    \<and> ''old  release-manifest.json'' \<in> set lines"
proof -
  let ?d = "[(under (path_div (path_of ''/out'') ''s1'') [''release-manifest.json''], ''old'')]"
  obtain d' w where r: "export_release_artifact plant_env plant_manifest ''/out'' ''s1'' ''env'' None ''k'' ?d = (None, d', w)"
    using plant_releases by blast
  have old: "map_of ?d (under (path_div (path_of ''/out'') ''s1'') [''release-manifest.json'']) = Some ''old''" by simp
  have site: "''s1'' \<noteq> []" by simp
  have "\<forall>n. ex_sha plant_env (ex_json plant_env (PDict (release_payload plant_env plant_manifest ''s1'' ''env'' n))) \<noteq> ex_sha plant_env ''old''"
    by (simp add: plant_env_def)
  from second_release_stale [OF r old site this] have
    "\<exists>lines. map_of d' (under (path_div (path_of ''/out'') ''s1'') [''checksums.sha256'']) = Some (join newline lines @ newline)
      \<and> ex_sha plant_env ''old'' @ ''  release-manifest.json'' \<in> set lines" by blast
  moreover have "ex_sha plant_env ''old'' @ ''  release-manifest.json'' = ''old  release-manifest.json''" by (simp add: plant_env_def)
  ultimately show ?thesis unfolding r fst_conv snd_conv by (simp only:)
qed

section \<open>Environment files\<close>

text \<open>What a reader of \<open>KEY=value\<close> lines sees.\<close>

definition read_env :: "string \<Rightarrow> (string \<times> string) list" where
  "read_env content =
     map (\<lambda>l. (takeWhile (\<lambda>c. c \<noteq> CHR ''='') l, drop 1 (dropWhile (\<lambda>c. c \<noteq> CHR ''='') l)))
       (filter (\<lambda>l. l \<noteq> []) (split_on (CHR 0x0A) content))"

lemma split_on_last: "split_on c (s @ [c]) = split_on c s @ [[]]"
  by (induction s) (auto split: list.splits)

lemma render_read:
  assumes "\<forall>(k, v) \<in> set env. CHR ''='' \<notin> set k \<and> CHR 0x0A \<notin> set k \<and> CHR 0x0A \<notin> set v"
  shows "read_env (render_env env) = sort_key fst env"
proof -
  let ?line = "\<lambda>(k, v). k @ ''='' @ v" and ?s = "sort_key fst env"
  have ok: "\<forall>x \<in> set (map ?line ?s). CHR 0x0A \<notin> set x \<and> x \<noteq> []" using assms by auto
  have f: "filter (\<lambda>l. l \<noteq> []) (split_on (CHR 0x0A) (join newline (map ?line ?s) @ newline)) = map ?line ?s"
  proof (cases "?s = []")
    case False
    then have "split_on (CHR 0x0A) (join [CHR 0x0A] (map ?line ?s)) = map ?line ?s"
      using ok by (intro split_on_join) auto
    then show ?thesis using ok unfolding newline_def split_on_last by (simp add: filter_id_conv)
  next
    case True
    show ?thesis unfolding True by (simp add: newline_def)
  qed
  have e: "(takeWhile (\<lambda>c. c \<noteq> CHR ''='') (?line x), drop 1 (dropWhile (\<lambda>c. c \<noteq> CHR ''='') (?line x))) = x"
    if "x \<in> set ?s" for x
  proof -
    obtain k v where x: "x = (k, v)" by fastforce
    then have k: "\<And>c. c \<in> set k \<Longrightarrow> c \<noteq> CHR ''=''" using assms that by auto
    show ?thesis unfolding x using takeWhile_append2 [of k "\<lambda>c. c \<noteq> CHR ''=''"] dropWhile_append2 [of k "\<lambda>c. c \<noteq> CHR ''=''"] k by simp
  qed
  show ?thesis unfolding read_env_def render_env_def f map_map by (rule map_idI) (unfold comp_def, rule e)
qed

definition env_keys :: "string list" where
  "env_keys =
     [''SITE_ID'', ''SITE_NAME'', ''REGION'', ''NETWORK_ZONE'', ''DEPLOYMENT_MODE'', ''RUNTIME_MODE'', ''KAFKA_BROKERS'', ''HISTORIAN_BACKEND'',
      ''LLM_PROVIDER'', ''LLM_ENDPOINT_URL'', ''LLM_MODEL_ID'', ''LLM_LOCAL_ONLY'', ''SEMANTIC_STORE_BACKEND'', ''DATASTREAM_BACKUP_DIR'',
      ''DATASTREAM_BACKUP_SCHEDULE'', ''DATASTREAM_BACKUP_RETENTION_DAYS'', ''DATASTREAM_BACKUP_OWNER'', ''DATASTREAM_RESTORE_DRILL_OWNER'',
      ''DATASTREAM_FEDERATION_ENABLED'', ''DATASTREAM_FEDERATION_EXPORT_MODE'', ''DATASTREAM_CENTRAL_ENDPOINT'', ''DATASTREAM_PROJECT_ID'',
      ''DATASTREAM_PROJECT_NAME'', ''DATASTREAM_ORGANIZATION_ID'', ''DATASTREAM_SITE_ID'', ''FEDERATION_ENABLED'', ''FEDERATION_TOPICS'',
      ''LAKEHOUSE_LAYOUT'', ''QUALITY_CLOCK_MODE'', ''DATASTREAM_PROJECT_RETENTION_DAYS'']"

lemma site_env_keys: "map fst (site_env m s p) = env_keys"
  unfolding site_env_def dict_merge_def to_env_def Let_def env_keys_def by simp

lemma env_keys_plain: "\<forall>k \<in> set env_keys. CHR ''='' \<notin> set k \<and> CHR 0x0A \<notin> set k" "distinct env_keys"
  by code_simp+

text \<open>The environment file of a site gives every variable its value, when no value has a line break.\<close>

theorem env_file_roundtrip:
  assumes "\<forall>v \<in> snd ` set (site_env m s p). CHR 0x0A \<notin> set v"
  shows "map_of (read_env (render_env (site_env m s p))) = map_of (site_env m s p)"
proof -
  have "\<forall>(k, v) \<in> set (site_env m s p). CHR ''='' \<notin> set k \<and> CHR 0x0A \<notin> set k \<and> CHR 0x0A \<notin> set v"
  proof (rule ballI)
    fix x assume x: "x \<in> set (site_env m s p)"
    then have "fst x \<in> set env_keys" unfolding site_env_keys [of m s p, symmetric] by simp
    then show "case x of (k, v) \<Rightarrow> CHR ''='' \<notin> set k \<and> CHR 0x0A \<notin> set k \<and> CHR 0x0A \<notin> set v"
      using env_keys_plain(1) assms x by (cases x) force
  qed
  from render_read [OF this] have r: "read_env (render_env (site_env m s p)) = sort_key fst (site_env m s p)" .
  have d: "distinct (map fst (site_env m s p))" unfolding site_env_keys by (rule env_keys_plain(2))
  then have "distinct (map fst (sort_key fst (site_env m s p)))" by (simp only: distinct_sort_map)
  then show ?thesis unfolding r using d by (intro map_of_inject_set [THEN iffD2]) simp_all
qed

theorem env_file_roundtrip_witness:
  "map_of (read_env (render_env (site_env plant_manifest (hd (pjm_sites plant_manifest)) plant_profile))) ''KAFKA_BROKERS'' = Some ''k:9092''"
proof -
  have "\<forall>v \<in> snd ` set (site_env plant_manifest (hd (pjm_sites plant_manifest)) plant_profile). CHR 0x0A \<notin> set v" by code_simp
  from env_file_roundtrip [OF this] show ?thesis
    by (simp add: site_env_def dict_merge_def to_env_def Let_def plant_profile_def)
qed

section \<open>Where an export goes wrong\<close>

text \<open>A value with a line break defines a second variable: a project name can set any variable of the services.\<close>

lemma name_sets_variable:
  "read_env (render_env [(''DATASTREAM_PROJECT_NAME'', ''Plant'' @ newline @ ''Z=1'')]) = [(''DATASTREAM_PROJECT_NAME'', ''Plant''), (''Z'', ''1'')]"
  by code_simp

text \<open>In the flat layout two sites whose identifiers differ after a dot share their files: the second replaces the first.\<close>

lemma flat_sites_collide:
  "with_suffix (path_div (path_of ''/out'') ''plant.north'') ''.env'' = with_suffix (path_div (path_of ''/out'') ''plant.south'') ''.env''"
  by code_simp

text \<open>An identifier with a slash leaves the output directory.\<close>

lemma export_escapes:
  "path_div (path_of ''/out'') ''/etc'' = path_of ''/etc''" "path_str (path_div (path_of ''/out'') ''../etc'') = ''/out/../etc''"
  by code_simp+

text \<open>The installer of the systemd layout copies \<open>env/site.env\<close>, which the format \<open>yaml\<close> does not write.\<close>

lemma installer_misses_env:
  "[''env'', ''site.env''] \<notin> set (structured_parts ''yaml'' ''systemd'')"
  by code_simp

end
