(* ===== verification/Supervisor.thy ===== *)
theory Supervisor
  imports Project_Manifest
begin

text \<open>
  The runtime supervisor (\<open>services/cli/datastreamd.py\<close>): the services and their order, the environment a
  site profile or a project manifest gives them, the detached processes of \<open>up\<close>, \<open>down\<close> and \<open>restart\<close> with
  their record file, and the foreground supervisor with its restart budget. The operating system is a parameter: which
  process a start gives, which processes are alive, when a child has exited, what the clock says, whether a signal
  arrived. What a call did to processes and to the record file is its trace.
\<close>

section \<open>Services\<close>

record service_spec =
  ssp_name :: string
  ssp_module :: string
  ssp_health :: string
  ssp_depends :: "string list"

text \<open>\<open>SERVICE_SPECS\<close>; the base URLs come from the environment.\<close>

definition service_specs :: "string \<Rightarrow> string \<Rightarrow> service_spec list" where
  "service_specs api_base ai_base =
     [\<lparr>ssp_name = ''api'', ssp_module = ''services.api_service.main'', ssp_health = api_base @ ''/health'', ssp_depends = []\<rparr>,
      \<lparr>ssp_name = ''ai'', ssp_module = ''services.ai_gateway.main'', ssp_health = ai_base @ ''/health'', ssp_depends = []\<rparr>,
      \<lparr>ssp_name = ''edge'', ssp_module = ''services.edge_ingest.main'', ssp_health = [], ssp_depends = []\<rparr>,
      \<lparr>ssp_name = ''processor'', ssp_module = ''services.processor.runtime_processor'', ssp_health = [], ssp_depends = []\<rparr>,
      \<lparr>ssp_name = ''flink-job'', ssp_module = ''services.processor.iot_anomaly_job'', ssp_health = [], ssp_depends = []\<rparr>,
      \<lparr>ssp_name = ''fanout'', ssp_module = ''services.processor.normalized_fanout'', ssp_health = [], ssp_depends = []\<rparr>,
      \<lparr>ssp_name = ''ai-fanout'', ssp_module = ''services.processor.ai_enriched_fanout'', ssp_health = [], ssp_depends = []\<rparr>]"

definition spec_by_name :: "service_spec list \<Rightarrow> (string \<times> service_spec) list" where
  "spec_by_name specs = map (\<lambda>s. (ssp_name s, s)) specs"

definition services_for_runtime_mode :: "string option \<Rightarrow> string list" where
  "services_for_runtime_mode runtime_mode =
     (let mode = py_lower (py_strip (case runtime_mode of Some (c # cs) \<Rightarrow> c # cs | _ \<Rightarrow> ''python-fallback'')) in
      if mode = ''flink-production'' then [''api'', ''ai'', ''edge'', ''fanout'', ''ai-fanout'', ''flink-job'']
      else if mode = ''flink-local'' then [''api'', ''ai'', ''edge'', ''fanout'', ''ai-fanout'', ''flink-job'']
      else [''api'', ''ai'', ''edge'', ''processor'', ''fanout'', ''ai-fanout''])"

text \<open>\<open>visit\<close> of \<open>_resolve_order\<close>, which follows the dependencies of a name it sees for the first time. The depth is
  bounded by the number of services, since a name is entered once.\<close>

fun visit :: "nat \<Rightarrow> (string \<times> service_spec) list \<Rightarrow> string \<Rightarrow> string list \<times> string list \<Rightarrow> string list \<times> string list"
and visit_all :: "nat \<Rightarrow> (string \<times> service_spec) list \<Rightarrow> string list \<Rightarrow> string list \<times> string list \<Rightarrow> string list \<times> string list" where
  "visit 0 table n st = st"
| "visit (Suc depth) table n (seen, ordered) =
     (case map_of table n of
        None \<Rightarrow> (seen, ordered)
      | Some s \<Rightarrow>
          if n \<in> set seen then (seen, ordered)
          else (let (seen', ordered') = visit_all depth table (ssp_depends s) (n # seen, ordered) in (seen', ordered' @ [n])))"
| "visit_all depth table [] st = st"
| "visit_all depth table (n # ns) st = visit_all depth table ns (visit depth table n st)"

definition resolve_order :: "(string \<times> service_spec) list \<Rightarrow> string list \<Rightarrow> string list" where
  "resolve_order table names = snd (visit_all (Suc (length table)) table names ([], []))"

text \<open>\<open>args.only.split(",")\<close> or the services of the runtime mode.\<close>

definition wanted_services :: "string option \<Rightarrow> string option \<Rightarrow> string list" where
  "wanted_services only runtime_mode =
     (case only of
        Some (c # cs) \<Rightarrow> filter (\<lambda>n. n \<noteq> []) (map py_strip (split_on (CHR '','') (c # cs)))
      | _ \<Rightarrow> services_for_runtime_mode runtime_mode)"

section \<open>The context of a profile or a manifest\<close>

type_synonym texts_dict = "(string \<times> string) list"

definition site_profile_context :: "pyrt \<Rightarrow> (string \<Rightarrow> pyval option) \<Rightarrow> string \<Rightarrow> string + texts_dict \<times> texts_dict" where
  "site_profile_context R files path =
     (if path = [] then Inr ([], [])
      else res_bind (read_profile R files path) (\<lambda>p.
        let errors = validate_profile R p in
        if errors \<noteq> [] then Inl (''invalid site profile '' @ path @ '': '' @ join ''; '' errors)
        else Inr (to_env p,
          [(''site_profile'', path), (''site_id'', sit_id (spf_site p)), (''deployment_mode'', spf_deployment p),
           (''runtime_mode'', rtp_mode (spf_runtime p))])))"

definition select_site :: "project_manifest \<Rightarrow> string \<Rightarrow> string option \<Rightarrow> string + project_site" where
  "select_site m path site_id =
     (case site_id of
        Some (c # cs) \<Rightarrow>
          (case filter (\<lambda>s. pjs_id s = c # cs) (pjm_sites m) of
             [] \<Rightarrow> Inl (''site_id '' @ (c # cs) @ '' not found in project manifest '' @ path)
           | s # _ \<Rightarrow> Inr s)
      | _ \<Rightarrow>
          (case pjm_sites m of
             [] \<Rightarrow> Inl (''project manifest '' @ path @ '' has no sites'')
           | s # _ \<Rightarrow> Inr s))"

definition manifest_context ::
    "pyrt \<Rightarrow> (string \<Rightarrow> pyval option) \<Rightarrow> string \<Rightarrow> string option \<Rightarrow> string + texts_dict \<times> texts_dict" where
  "manifest_context R files path site_id =
     (if path = [] then Inr ([], [])
      else res_bind (load_project_manifest R files path) (\<lambda>m. res_bind (validate_project_manifest R files m) (\<lambda>errors.
        if errors \<noteq> [] then Inl (''invalid project manifest '' @ path @ '': '' @ join ''; '' errors)
        else res_bind (select_site m path site_id) (\<lambda>s. res_bind (read_profile R files (pjs_path s)) (\<lambda>p.
          let profile_errors = validate_profile R p in
          if profile_errors \<noteq> [] then Inl (''invalid site profile '' @ pjs_path s @ '': '' @ join ''; '' profile_errors)
          else Inr
            (dict_merge (to_env p)
               [(''DATASTREAM_PROJECT_MANIFEST'', path), (''DATASTREAM_PROJECT_ID'', pjm_id m), (''DATASTREAM_PROJECT_NAME'', pjm_name m),
                (''DATASTREAM_PROJECT_RETENTION_DAYS'', int_str (prt_historian (pjm_retention m)))],
             [(''project_manifest'', path), (''project_id'', pjm_id m), (''site_profile'', pjs_path s), (''site_id'', pjs_id s),
              (''deployment_mode'', spf_deployment p), (''runtime_mode'', rtp_mode (spf_runtime p))]))))))"

record run_args =
  ra_only :: "string option"
  ra_profile :: string
  ra_manifest :: string
  ra_site :: "string option"

definition run_context :: "pyrt \<Rightarrow> (string \<Rightarrow> pyval option) \<Rightarrow> run_args \<Rightarrow> string + texts_dict \<times> texts_dict" where
  "run_context R files a =
     (if ra_manifest a \<noteq> [] then manifest_context R files (ra_manifest a) (ra_site a)
      else if ra_profile a \<noteq> [] then site_profile_context R files (ra_profile a) else Inr ([], []))"

section \<open>Processes and their records\<close>

record proc_record =
  prc_name :: string
  prc_pid :: int
  prc_module :: string
  prc_started :: rat
  prc_health :: string
  prc_meta :: texts_dict

type_synonym records = "(string \<times> proc_record) list"

text \<open>A record, with the six texts of the context.\<close>

definition make_record :: "service_spec \<Rightarrow> texts_dict \<Rightarrow> int \<Rightarrow> rat \<Rightarrow> proc_record" where
  "make_record s meta pid now =
     \<lparr>prc_name = ssp_name s, prc_pid = pid, prc_module = ssp_module s, prc_started = now, prc_health = ssp_health s,
      prc_meta = map (\<lambda>k. (k, dict_getd meta k []))
        [''site_profile'', ''site_id'', ''deployment_mode'', ''runtime_mode'', ''project_manifest'', ''project_id'']\<rparr>"

text \<open>The record file: absent, its records, or a content that does not parse.\<close>

datatype pid_file = NoFile | Records records | Garbled

definition load_records :: "pid_file \<Rightarrow> records" where
  "load_records f = (case f of Records r \<Rightarrow> r | _ \<Rightarrow> [])"

text \<open>What the system answers to \<open>up\<close> and \<open>down\<close>: the process a start gives (\<open>None\<close>: it raised), the processes that
  are alive (a positive identifier that can be signalled), the answer to a stop.\<close>

datatype stop_answer = Stopped | Vanished | StopError

record system =
  sy_spawn :: "string \<Rightarrow> int option"
  sy_alive :: "int \<Rightarrow> bool"
  sy_stop :: "int \<Rightarrow> stop_answer"
  sy_now :: rat

definition is_alive :: "system \<Rightarrow> proc_record \<Rightarrow> bool" where
  "is_alive S r = (0 < prc_pid r \<and> sy_alive S (prc_pid r))"

definition start_one :: "system \<Rightarrow> service_spec \<Rightarrow> texts_dict \<Rightarrow> proc_record option" where
  "start_one S s meta = map_option (\<lambda>pid. make_record s meta pid (sy_now S)) (sy_spawn S (ssp_name s))"

text \<open>The loop of \<open>cmd_up\<close>: the records and the number of services started.\<close>

fun up_loop :: "system \<Rightarrow> (string \<times> service_spec) list \<Rightarrow> texts_dict \<Rightarrow> string list \<Rightarrow> string list \<Rightarrow> records \<Rightarrow> records \<times> nat" where
  "up_loop S table meta order [] records = (records, 0)"
| "up_loop S table meta order (n # ns) records =
     (if dict_has records n then up_loop S table meta order ns records
      else (case map_of table n of
              None \<Rightarrow> up_loop S table meta order ns records
            | Some s \<Rightarrow>
                if list_ex (\<lambda>d. \<not> dict_has records d \<and> d \<notin> set order) (ssp_depends s)
                then up_loop S table meta order ns records
                else (case start_one S s meta of
                        None \<Rightarrow> up_loop S table meta order ns records
                      | Some r \<Rightarrow>
                          (let (records', k) = up_loop S table meta order ns (dict_set records n r) in (records', Suc k)))))"

definition cmd_up ::
    "pyrt \<Rightarrow> (string \<Rightarrow> pyval option) \<Rightarrow> (string \<times> service_spec) list \<Rightarrow> system \<Rightarrow> run_args \<Rightarrow> pid_file \<Rightarrow> string + pid_file \<times> nat" where
  "cmd_up R files table S a f =
     res_bind (run_context R files a) (\<lambda>(env, meta).
       let records = filter (\<lambda>(k, r). is_alive S r) (load_records f);
           order = resolve_order table (wanted_services (ra_only a) (map_of meta ''runtime_mode''));
           (records', started) = up_loop S table meta order order records
       in Inr (Records records', started))"

text \<open>\<open>cmd_down\<close>: a record is dropped whatever the stop gave.\<close>

fun down_loop :: "system \<Rightarrow> string list \<Rightarrow> records \<Rightarrow> records \<times> nat" where
  "down_loop S [] records = (records, 0)"
| "down_loop S (n # ns) records =
     (case map_of records n of
        None \<Rightarrow> down_loop S ns (dict_del records n)
      | Some r \<Rightarrow>
          if \<not> is_alive S r then down_loop S ns (dict_del records n)
          else (let (records', k) = down_loop S ns (dict_del records n) in
                (records', if sy_stop S (prc_pid r) = Stopped then Suc k else k)))"

definition cmd_down :: "system \<Rightarrow> string option \<Rightarrow> pid_file \<Rightarrow> pid_file \<times> nat" where
  "cmd_down S only f =
     (let records = load_records f;
          targets = (case only of Some (c # cs) \<Rightarrow> filter (\<lambda>n. n \<noteq> []) (map py_strip (split_on (CHR '','') (c # cs)))
                     | _ \<Rightarrow> map fst records);
          (records', k) = down_loop S targets records
      in (Records records', k))"

text \<open>\<open>cmd_restart\<close>: the exit code and the file; the system may have changed between the stop and the start.\<close>

definition cmd_restart ::
    "pyrt \<Rightarrow> (string \<Rightarrow> pyval option) \<Rightarrow> (string \<times> service_spec) list \<Rightarrow> system \<Rightarrow> system \<Rightarrow> string \<Rightarrow> run_args \<Rightarrow> pid_file \<Rightarrow> (string + int) \<times> pid_file" where
  "cmd_restart R files table S S' names a f =
     (let targets = filter (\<lambda>n. n \<noteq> []) (map py_strip (split_on (CHR '','') names)) in
      if list_ex (\<lambda>n. \<not> dict_has table n) targets then (Inr 2, f)
      else (let f1 = fst (cmd_down S (Some (join '','' targets)) f) in
            case cmd_up R files table S' (a\<lparr>ra_only := Some (join '','' targets)\<rparr>) f1 of
              Inl e \<Rightarrow> (Inl e, f1) | Inr (f2, _) \<Rightarrow> (Inr 0, f2)))"

text \<open>\<open>cmd_status\<close>: the JSON entries of the services and the exit code; \<open>cmd_logs\<close>: the exit code and the lines.\<close>

definition status_entry :: "system \<Rightarrow> records \<Rightarrow> service_spec \<Rightarrow> pydict" where
  "status_entry S records s =
     (let r = map_of records (ssp_name s); meta = (\<lambda>k. case r of None \<Rightarrow> [] | Some r \<Rightarrow> dict_getd (prc_meta r) k []) in
      [(''alive'', PBool (case r of None \<Rightarrow> False | Some r \<Rightarrow> is_alive S r)), (''pid'', case r of None \<Rightarrow> PNone | Some r \<Rightarrow> PInt (prc_pid r)),
       (''module'', PStr (ssp_module s)), (''site_id'', PStr (meta ''site_id'')), (''deployment_mode'', PStr (meta ''deployment_mode'')),
       (''runtime_mode'', PStr (meta ''runtime_mode'')), (''site_profile'', PStr (meta ''site_profile''))])"

definition profile_entry :: "pyrt \<Rightarrow> (string \<Rightarrow> pyval option) \<Rightarrow> string \<Rightarrow> pydict" where
  "profile_entry R files path =
     (case read_profile R files path of
        Inl e \<Rightarrow> [(''path'', PStr path), (''errors'', PList [PStr e]), (''valid'', PBool False)]
      | Inr p \<Rightarrow>
          [(''path'', PStr path), (''profile'', PDict (profile_dict p)), (''errors'', texts (validate_profile R p)),
           (''valid'', PBool (validate_profile R p = []))])"

definition cmd_status ::
    "pyrt \<Rightarrow> (string \<Rightarrow> pyval option) \<Rightarrow> service_spec list \<Rightarrow> system \<Rightarrow> string option \<Rightarrow> bool \<Rightarrow> pid_file \<Rightarrow> int \<times> pydict" where
  "cmd_status R files specs S profile fail_on_down f =
     (let records = load_records f;
          dead = list_ex (\<lambda>s. case map_of records (ssp_name s) of None \<Rightarrow> True | Some r \<Rightarrow> \<not> is_alive S r) specs
      in (if dead \<and> fail_on_down then 1 else 0,
          map (\<lambda>s. (ssp_name s, PDict (status_entry S records s))) specs
          @ (case profile of Some (c # cs) \<Rightarrow> [(''site_profile'', PDict (profile_entry R files (c # cs)))] | _ \<Rightarrow> [])))"

definition cmd_logs :: "(string \<times> service_spec) list \<Rightarrow> string \<Rightarrow> (string + string list) option \<Rightarrow> int \<Rightarrow> int \<times> string list" where
  "cmd_logs table service log_lines n =
     (if \<not> dict_has table service then (2, [])
      else (case log_lines of
              None \<Rightarrow> (1, []) | Some (Inl e) \<Rightarrow> (1, [])
            | Some (Inr ls) \<Rightarrow> (0, last_n (nat (if 0 < n then n else 50)) ls)))"

section \<open>The foreground supervisor\<close>

datatype sup_event =
    Launched string int
  | Exited string int rat
  | Terminated string int
  | Slept rat

record sup_args =
  su_max_restarts :: int
  su_window :: rat

record supervisor =
  sv_children :: records
  sv_history :: "(string \<times> rat list) list"
  sv_stop :: bool
  sv_exit :: int
  sv_file :: pid_file
  sv_trace :: "sup_event list"

text \<open>What happens to one child in one turn of the loop: whether \<open>poll\<close> gives an exit code, the clock at that moment,
  whether a signal arrives during the pause, and the process a new start gives, with its
  time.\<close>

record child_turn =
  ct_exited :: bool
  ct_now :: rat
  ct_signal :: bool
  ct_spawn :: "(int \<times> rat) option"

text \<open>A turn of the loop: the answers for each child, and whether a signal arrives afterwards.\<close>

type_synonym sup_turn = "(string \<Rightarrow> child_turn) \<times> bool"

definition launch :: "(string \<times> service_spec) list \<Rightarrow> texts_dict \<Rightarrow> (int \<times> rat) option \<Rightarrow> string \<Rightarrow> supervisor \<Rightarrow> bool \<times> supervisor" where
  "launch table meta spawned n sv =
     (case (map_of table n, spawned) of
        (Some s, Some (pid, now)) \<Rightarrow>
          (let children = dict_set (sv_children sv) n (make_record s meta pid now)
           in (True, sv\<lparr>sv_children := children, sv_file := Records children, sv_trace := sv_trace sv @ [Launched n pid]\<rparr>))
      | _ \<Rightarrow> (False, sv))"

text \<open>The pause before a restart; \<open>2 ** k\<close> of the source with \<open>k \<le> 3\<close>.\<close>

definition backoff :: "nat \<Rightarrow> rat" where
  "backoff restarts = min 5 (1/2 * 2 ^ min (restarts - 1) 3)"

definition failed :: "supervisor \<Rightarrow> supervisor" where
  "failed sv = sv\<lparr>sv_exit := 1, sv_stop := True\<rparr>"

text \<open>One child of a turn; the flag says that the loop over the children breaks.\<close>

definition visit_child ::
    "(string \<times> service_spec) list \<Rightarrow> texts_dict \<Rightarrow> sup_args \<Rightarrow> child_turn \<Rightarrow> string \<times> proc_record \<Rightarrow> supervisor \<Rightarrow> bool \<times> supervisor" where
  "visit_child table meta a t child sv =
     (let (n, r) = child in
      if \<not> ct_exited t then (False, sv)
      else
        (let history = filter (\<lambda>x. ct_now t - x < su_window a) (dict_getd (sv_history sv) n []) @ [ct_now t];
             sv1 = sv\<lparr>sv_children := dict_del (sv_children sv) n, sv_history := dict_set (sv_history sv) n history,
                      sv_trace := sv_trace sv @ [Exited n (prc_pid r) (ct_now t)]\<rparr>
         in if su_max_restarts a < int (length history) then (True, failed sv1)
            else
              (let sv2 = sv1\<lparr>sv_stop := sv_stop sv1 \<or> ct_signal t, sv_trace := sv_trace sv1 @ [Slept (backoff (length history))]\<rparr>
               in if sv_stop sv2 then (False, sv2)
                  else (let (ok, sv3) = launch table meta (ct_spawn t) n sv2
                        in if ok then (False, sv3) else (True, failed sv3)))))"

fun visit_children ::
    "(string \<times> service_spec) list \<Rightarrow> texts_dict \<Rightarrow> sup_args \<Rightarrow> (string \<Rightarrow> child_turn) \<Rightarrow> records \<Rightarrow> supervisor \<Rightarrow> supervisor" where
  "visit_children table meta a t [] sv = sv"
| "visit_children table meta a t (c # cs) sv =
     (let (broken, sv') = visit_child table meta a (t (fst c)) c sv
      in if broken then sv' else visit_children table meta a t cs sv')"

text \<open>A turn: the children listed at its start, the record file, the pause, in which a signal may arrive.\<close>

definition sup_turn_step :: "(string \<times> service_spec) list \<Rightarrow> texts_dict \<Rightarrow> sup_args \<Rightarrow> sup_turn \<Rightarrow> supervisor \<Rightarrow> supervisor" where
  "sup_turn_step table meta a turn sv =
     (let sv' = visit_children table meta a (fst turn) (sv_children sv) sv
      in sv'\<lparr>sv_file := Records (sv_children sv'), sv_stop := sv_stop sv' \<or> snd turn, sv_trace := sv_trace sv' @ [Slept (1/4)]\<rparr>)"

text \<open>The starts before the loop, during which a signal may arrive, and the loop as long as turns are given.\<close>

fun launch_all :: "(string \<times> service_spec) list \<Rightarrow> texts_dict \<Rightarrow> (string \<Rightarrow> (int \<times> rat) option) \<Rightarrow> string list \<Rightarrow> supervisor \<Rightarrow> supervisor" where
  "launch_all table meta spawn [] sv = sv"
| "launch_all table meta spawn (n # ns) sv =
     (let (ok, sv') = launch table meta (spawn n) n sv
      in if ok then launch_all table meta spawn ns sv' else failed sv')"

definition sup_running :: "supervisor \<Rightarrow> bool" where
  "sup_running sv = (sv_children sv \<noteq> [] \<and> \<not> sv_stop sv)"

fun sup_loop :: "(string \<times> service_spec) list \<Rightarrow> texts_dict \<Rightarrow> sup_args \<Rightarrow> sup_turn list \<Rightarrow> supervisor \<Rightarrow> supervisor" where
  "sup_loop table meta a [] sv = sv"
| "sup_loop table meta a (t # ts) sv = (if sup_running sv then sup_loop table meta a ts (sup_turn_step table meta a t sv) else sv)"

definition sup_start :: "string list \<Rightarrow> pid_file \<Rightarrow> supervisor" where
  "sup_start order f =
     \<lparr>sv_children = [], sv_history = map (\<lambda>n. (n, [])) order, sv_stop = False, sv_exit = 0, sv_file = f, sv_trace = []\<rparr>"

definition supervise_run ::
    "(string \<times> service_spec) list \<Rightarrow> texts_dict \<Rightarrow> sup_args \<Rightarrow> string list \<Rightarrow> (string \<Rightarrow> (int \<times> rat) option) \<Rightarrow> bool \<Rightarrow> sup_turn list
      \<Rightarrow> pid_file \<Rightarrow> supervisor" where
  "supervise_run table meta a order spawn early turns f =
     (let sv = launch_all table meta spawn order (sup_start order f)
      in sup_loop table meta a turns (sv\<lparr>sv_stop := sv_stop sv \<or> early\<rparr>))"

text \<open>The \<open>finally\<close> block: every child is terminated, or killed when it does not end in time. \<open>_terminate_process\<close> waits
  for a killed child too; \<open>False\<close> is a child that does not end then, whose \<open>TimeoutExpired\<close> leaves the block.\<close>

fun terminate_children :: "(int \<Rightarrow> bool) \<Rightarrow> records \<Rightarrow> sup_event list \<Rightarrow> bool \<times> sup_event list" where
  "terminate_children ends [] trace = (True, trace)"
| "terminate_children ends ((n, r) # cs) trace =
     (if ends (prc_pid r) then terminate_children ends cs (trace @ [Terminated n (prc_pid r)]) else (False, trace))"

definition sup_finish :: "(int \<Rightarrow> bool) \<Rightarrow> supervisor \<Rightarrow> (string + int) \<times> supervisor" where
  "sup_finish ends sv =
     (case terminate_children ends (sv_children sv) (sv_trace sv) of
        (False, trace) \<Rightarrow> (Inl ''TimeoutExpired'', sv\<lparr>sv_trace := trace\<rparr>)
      | (True, trace) \<Rightarrow> (Inr (sv_exit sv), sv\<lparr>sv_children := [], sv_file := Records [], sv_trace := trace\<rparr>))"

text \<open>\<open>cmd_supervise\<close> over a finite number of turns: the state of a supervisor that is still running, or its end.\<close>

definition cmd_supervise ::
    "pyrt \<Rightarrow> (string \<Rightarrow> pyval option) \<Rightarrow> (string \<times> service_spec) list \<Rightarrow> sup_args \<Rightarrow> run_args \<Rightarrow> (string \<Rightarrow> (int \<times> rat) option) \<Rightarrow> bool
      \<Rightarrow> sup_turn list \<Rightarrow> (int \<Rightarrow> bool) \<Rightarrow> pid_file \<Rightarrow> string + (string + int) option \<times> supervisor" where
  "cmd_supervise R files table a ra spawn early turns ends f =
     res_bind (run_context R files ra) (\<lambda>(env, meta).
       let order = resolve_order table (wanted_services (ra_only ra) (map_of meta ''runtime_mode''));
           sv = supervise_run table meta a order spawn early turns f
       in if sup_running sv then Inr (None, sv)
          else (let (code, sv') = sup_finish ends sv in Inr (Some code, sv')))"

section \<open>The order of the services\<close>

text \<open>A visit only adds names it has not seen, each once, and only known ones.\<close>

definition visited :: "(string \<times> service_spec) list \<Rightarrow> string list \<times> string list \<Rightarrow> string list \<times> string list \<Rightarrow> bool" where
  "visited table st st' \<longleftrightarrow>
     set (fst st) \<subseteq> set (fst st')
     \<and> (\<exists>new. snd st' = snd st @ new \<and> distinct new \<and> set new \<subseteq> set (fst st') - set (fst st) \<and> set new \<subseteq> fst ` set table)"

lemma visited_refl: "visited table st st"
  by (simp add: visited_def)

lemma visited_trans: "visited table st st' \<Longrightarrow> visited table st' st'' \<Longrightarrow> visited table st st''"
proof -
  assume a: "visited table st st'" and b: "visited table st' st''"
  obtain xs where xs: "snd st' = snd st @ xs" "distinct xs" "set xs \<subseteq> set (fst st') - set (fst st)" "set xs \<subseteq> fst ` set table"
    using a unfolding visited_def by blast
  obtain ys where ys: "snd st'' = snd st' @ ys" "distinct ys" "set ys \<subseteq> set (fst st'') - set (fst st')" "set ys \<subseteq> fst ` set table"
    using b unfolding visited_def by blast
  have s: "set (fst st) \<subseteq> set (fst st')" "set (fst st') \<subseteq> set (fst st'')" using a b by (simp_all add: visited_def)
  show ?thesis unfolding visited_def
  proof (intro conjI exI [of _ "xs @ ys"])
    show "set (fst st) \<subseteq> set (fst st'')" using s by blast
    show "snd st'' = snd st @ xs @ ys" using xs ys by simp
    show "distinct (xs @ ys)" using xs ys by auto
    show "set (xs @ ys) \<subseteq> set (fst st'') - set (fst st)" using xs ys s by auto
    show "set (xs @ ys) \<subseteq> fst ` set table" using xs ys by auto
  qed
qed

lemma visits:
  "visited table st (visit depth table n st)" "visited table st (visit_all depth table ns st)"
proof (induction depth table n st and depth table ns st rule: visit_visit_all.induct)
  case (2 depth table n seen ordered)
  show ?case
  proof (cases "map_of table n")
    case (Some s)
    show ?thesis
    proof (cases "n \<in> set seen")
      case False
      obtain seen' ordered' where v: "visit_all depth table (ssp_depends s) (n # seen, ordered) = (seen', ordered')" by fastforce
      have "visited table (n # seen, ordered) (seen', ordered')" using 2 [OF Some False] v by simp
      then obtain new where new: "ordered' = ordered @ new" "distinct new" "set new \<subseteq> set seen' - set (n # seen)" "set new \<subseteq> fst ` set table"
        and s: "set (n # seen) \<subseteq> set seen'" unfolding visited_def by auto
      have "n \<in> fst ` set table" using map_of_SomeD [OF Some] by force
      then have "visited table (seen, ordered) (seen', ordered' @ [n])"
        unfolding visited_def using new s False by (auto intro!: exI [of _ "new @ [n]"])
      then show ?thesis using Some False v by simp
    qed (use Some in \<open>simp add: visited_refl\<close>)
  qed (simp add: visited_refl)
next
  case (4 depth table n ns st)
  then show ?case using visited_trans by (metis visit_all.simps(2))
qed (simp_all add: visited_refl)

lemma order_distinct: "distinct (resolve_order table names) \<and> set (resolve_order table names) \<subseteq> fst ` set table"
  using visits(2) [of table "([], [])" "Suc (length table)" names] by (auto simp: resolve_order_def visited_def)

text \<open>Without dependencies, which is how the services are declared, the order is the known names.\<close>

lemma visit_flat:
  assumes "\<forall>s \<in> snd ` set table. ssp_depends s = []"
  shows "set (fst st) \<inter> fst ` set table = set (snd st) \<Longrightarrow>
    set (snd (visit_all (Suc depth) table ns st)) = set (snd st) \<union> (set ns \<inter> fst ` set table)"
proof (induction ns arbitrary: st)
  case (Cons n ns)
  obtain seen ordered where st: "st = (seen, ordered)" by fastforce
  have v: "set (fst (visit (Suc depth) table n st)) \<inter> fst ` set table = set (snd (visit (Suc depth) table n st))
      \<and> set (snd (visit (Suc depth) table n st)) = set ordered \<union> ({n} \<inter> fst ` set table)"
  proof (cases "map_of table n")
    case None
    then have "n \<notin> fst ` set table" by (simp add: map_of_eq_None_iff)
    then show ?thesis using None Cons.prems by (simp add: st)
  next
    case (Some s)
    then have s: "ssp_depends s = []" "n \<in> fst ` set table" using assms map_of_SomeD [OF Some] by force+
    show ?thesis
    proof (cases "n \<in> set seen")
      case True
      then have "n \<in> set ordered" using Cons.prems s(2) by (auto simp: st)
      then show ?thesis using Some True Cons.prems by (auto simp: st)
    next
      case False
      then show ?thesis using Some s Cons.prems by (auto simp: st)
    qed
  qed
  have "set (snd (visit_all (Suc depth) table ns (visit (Suc depth) table n st)))
      = set (snd (visit (Suc depth) table n st)) \<union> (set ns \<inter> fst ` set table)"
    by (rule Cons.IH) (use v in blast)
  then show ?case using v by (auto simp: st)
qed simp

lemma order_flat:
  assumes "\<forall>s \<in> snd ` set table. ssp_depends s = []"
  shows "set (resolve_order table names) = set names \<inter> fst ` set table"
  using visit_flat [OF assms, of "([], [])" "length table" names] by (simp add: resolve_order_def)

section \<open>Starting\<close>

text \<open>What one round of the loop does to the records.\<close>

definition up_one :: "system \<Rightarrow> (string \<times> service_spec) list \<Rightarrow> texts_dict \<Rightarrow> string list \<Rightarrow> string \<Rightarrow> records \<Rightarrow> proc_record option" where
  "up_one S table meta order n records =
     (if dict_has records n then None
      else (case map_of table n of
              None \<Rightarrow> None
            | Some s \<Rightarrow>
                if list_ex (\<lambda>d. \<not> dict_has records d \<and> d \<notin> set order) (ssp_depends s) then None else start_one S s meta))"

lemma up_loop_Cons:
  "up_loop S table meta order (n # ns) records =
     (case up_one S table meta order n records of
        None \<Rightarrow> up_loop S table meta order ns records
      | Some r \<Rightarrow> map_prod id Suc (up_loop S table meta order ns (dict_set records n r)))"
  by (simp add: up_one_def split: option.split prod.split)

declare up_loop.simps(2) [simp del]

lemma up_one_absent: "up_one S table meta order n records = Some r \<Longrightarrow> map_of records n = None"
  by (auto simp: up_one_def dict_has_iff split: if_splits)

lemma up_loop_keeps: "map_of records k = Some r \<Longrightarrow> map_of (fst (up_loop S table meta order ns records)) k = Some r"
proof (induction ns arbitrary: records)
  case (Cons n ns)
  show ?case
  proof (cases "up_one S table meta order n records")
    case (Some x)
    have "map_of (dict_set records n x) k = Some r" using Cons.prems up_one_absent [OF Some] by auto
    from Cons.IH [OF this] show ?thesis by (simp add: up_loop_Cons Some)
  qed (use Cons in \<open>simp add: up_loop_Cons\<close>)
qed simp

lemma up_loop_starts:
  assumes "n \<in> set ns" "map_of table n = Some s" "ssp_depends s = []" "sy_spawn S (ssp_name s) \<noteq> None"
  shows "map_of (fst (up_loop S table meta order ns records)) n \<noteq> None"
  using assms(1)
proof (induction ns arbitrary: records)
  case (Cons k ns)
  show ?case
  proof (cases "map_of records n")
    case (Some r)
    then show ?thesis using up_loop_keeps by (metis option.distinct(1))
  next
    case None
    show ?thesis
    proof (cases "k = n")
      case True
      obtain r where r: "start_one S s meta = Some r" using assms(4) by (auto simp: start_one_def)
      then have one: "up_one S table meta order k records = Some r"
        using None assms(2,3) True by (simp add: up_one_def dict_has_iff)
      have "map_of (fst (up_loop S table meta order ns (dict_set records k r))) n = Some r"
        by (rule up_loop_keeps) (simp add: True)
      then show ?thesis by (simp add: up_loop_Cons one)
    next
      case False
      then have "n \<in> set ns" using Cons.prems by simp
      then show ?thesis using Cons.IH by (cases "up_one S table meta order k records") (simp_all add: up_loop_Cons)
    qed
  qed
qed simp

lemma up_loop_idle: "\<forall>n \<in> set ns. map_of records n \<noteq> None \<Longrightarrow> up_loop S table meta order ns records = (records, 0)"
proof (induction ns)
  case (Cons n ns)
  then have "up_one S table meta order n records = None" by (auto simp: up_one_def dict_has_iff)
  then show ?case using Cons by (simp add: up_loop_Cons)
qed simp

lemma up_loop_keys: "fst ` set (fst (up_loop S table meta order ns records)) \<subseteq> fst ` set records \<union> set ns"
proof (induction ns arbitrary: records)
  case (Cons n ns)
  show ?case
  proof (cases "up_one S table meta order n records")
    case (Some r)
    then show ?thesis using Cons [of "dict_set records n r"] by (auto simp: up_loop_Cons dom_update)
  qed (use Cons in \<open>auto simp: up_loop_Cons\<close>)
qed simp

text \<open>The declared services: names differ and nothing depends on anything.\<close>

definition table_ok :: "(string \<times> service_spec) list \<Rightarrow> bool" where
  "table_ok table \<longleftrightarrow> wf_dict table \<and> (\<forall>(n, s) \<in> set table. ssp_name s = n \<and> ssp_depends s = [])"

lemma service_table_ok: "table_ok (spec_by_name (service_specs a b))"
  by (simp add: table_ok_def spec_by_name_def service_specs_def)

lemma up_complete:
  assumes "table_ok table" "n \<in> set (resolve_order table wanted)" "sy_spawn S n \<noteq> None"
  shows "map_of (fst (up_loop S table meta order (resolve_order table wanted) records)) n \<noteq> None"
proof -
  have "n \<in> fst ` set table" using assms(2) order_distinct by blast
  then obtain s where s: "(n, s) \<in> set table" by auto
  then have "map_of table n = Some s" using assms(1) by (simp add: table_ok_def)
  moreover have "ssp_depends s = []" "ssp_name s = n" using assms(1) s by (auto simp: table_ok_def)
  ultimately show ?thesis using up_loop_starts [OF assms(2)] assms(3) by simp
qed

text \<open>\<open>up\<close> keeps every process that is alive, has a record for every wanted service whose start does not fail and for
  no other new one; and repeating it while the processes are alive starts nothing.\<close>

theorem up_idempotent:
  assumes "table_ok table" "cmd_up R files table S a f = Inr (f', k)" "run_context R files a = Inr (env, meta)"
    "order = resolve_order table (wanted_services (ra_only a) (map_of meta ''runtime_mode''))"
    "\<forall>n \<in> set order. sy_spawn S n \<noteq> None" "\<forall>r \<in> snd ` set (load_records f'). is_alive S' r"
  shows "cmd_up R files table S' a f' = Inr (f', 0)
    \<and> (\<forall>n r. map_of (filter (\<lambda>(k, r). is_alive S r) (load_records f)) n = Some r \<longrightarrow> map_of (load_records f') n = Some r)
    \<and> fst ` set (load_records f') \<subseteq> fst ` set (load_records f) \<union> set order"
proof -
  let ?alive = "filter (\<lambda>(k, r). is_alive S r) (load_records f)"
  have f': "f' = Records (fst (up_loop S table meta order order ?alive))"
    using assms(2,3,4) by (simp add: cmd_up_def Let_def split: prod.splits)
  have present: "\<forall>n \<in> set order. map_of (load_records f') n \<noteq> None"
    unfolding f' load_records_def pid_file.case using up_complete [OF assms(1)] assms(4,5) by auto
  have "filter (\<lambda>(k, r). is_alive S' r) (load_records f') = load_records f'"
    using assms(6) by (auto simp: filter_id_conv)
  then have "cmd_up R files table S' a f' = Inr (Records (load_records f'), 0)"
    using up_loop_idle [OF present] assms(3,4) by (simp add: cmd_up_def Let_def)
  then have "cmd_up R files table S' a f' = Inr (f', 0)" by (simp add: f' load_records_def)
  moreover have "map_of ?alive n = Some r \<Longrightarrow> map_of (load_records f') n = Some r" for n r
    unfolding f' load_records_def pid_file.case by (rule up_loop_keeps)
  moreover have "fst ` set (load_records f') \<subseteq> fst ` set (load_records f) \<union> set order"
  proof -
    have r: "load_records f' = fst (up_loop S table meta order order ?alive)" by (simp add: f' load_records_def)
    have "fst ` set ?alive \<subseteq> fst ` set (load_records f)" by (rule image_mono) auto
    then show ?thesis unfolding r using up_loop_keys [of S table meta order order ?alive] by blast
  qed
  ultimately show ?thesis by blast
qed

section \<open>What the supervisor keeps\<close>

text \<open>The exits of a service in a trace, and those of them in the restart window that ends at the last one.\<close>

definition exit_times :: "string \<Rightarrow> sup_event list \<Rightarrow> rat list" where
  "exit_times n trace = concat (map (\<lambda>e. case e of Exited k _ t \<Rightarrow> if k = n then [t] else [] | _ \<Rightarrow> []) trace)"

definition recent :: "rat \<Rightarrow> rat list \<Rightarrow> rat list" where
  "recent window ts = filter (\<lambda>t. last ts - t < window) ts"

lemma exit_times_simps [simp]:
  "exit_times n [] = []" "exit_times n (xs @ ys) = exit_times n xs @ exit_times n ys"
  "exit_times n [Launched k pid] = []" "exit_times n [Slept x] = []" "exit_times n [Terminated k pid] = []"
  "exit_times n [Exited k pid t] = (if k = n then [t] else [])"
  by (simp_all add: exit_times_def)

lemma recent_snoc:
  assumes "sorted (ts @ [t])" "0 < window"
  shows "filter (\<lambda>x. t - x < window) (recent window ts) @ [t] = recent window (ts @ [t])"
proof (cases "ts = []")
  case False
  then have "last ts \<le> t" using assms(1) by (simp add: sorted_append)
  then have "filter (\<lambda>x. last ts - x < window \<and> t - x < window) ts = filter (\<lambda>x. t - x < window) ts"
    by (intro filter_cong) auto
  then show ?thesis using assms(2) by (simp add: recent_def)
qed (use assms(2) in \<open>simp add: recent_def\<close>)

text \<open>Every start after an exit happens while the window before it holds at most the allowed number of exits.\<close>

definition within_budget :: "sup_args \<Rightarrow> sup_event list \<Rightarrow> bool" where
  "within_budget a trace \<longleftrightarrow>
     (\<forall>pre n pid post. trace = pre @ Launched n pid # post \<longrightarrow>
        exit_times n pre = [] \<or> int (length (recent (su_window a) (exit_times n pre))) \<le> su_max_restarts a)"

text \<open>Every process started has exited or is a child.\<close>

definition child_pid :: "supervisor \<Rightarrow> string \<Rightarrow> int option" where
  "child_pid sv n = map_option prc_pid (map_of (sv_children sv) n)"

lemma child_pid_cong: "sv_children sv' = sv_children sv \<Longrightarrow> child_pid sv' = child_pid sv"
  by (simp add: child_pid_def fun_eq_iff)

definition accounted :: "supervisor \<Rightarrow> bool" where
  "accounted sv \<longleftrightarrow>
     (\<forall>n pid. Launched n pid \<in> set (sv_trace sv) \<longrightarrow>
        (\<exists>t. Exited n pid t \<in> set (sv_trace sv)) \<or> child_pid sv n = Some pid)"

text \<open>
  The invariant. The part about the budget needs a clock that does not go back and a positive window;
  it is asked for when the flag is set.
\<close>

definition sup_ok :: "bool \<Rightarrow> sup_args \<Rightarrow> string set \<Rightarrow> supervisor \<Rightarrow> bool" where
  "sup_ok c a names sv \<longleftrightarrow>
     (c \<longrightarrow> (\<forall>n. dict_getd (sv_history sv) n [] = recent (su_window a) (exit_times n (sv_trace sv)))
        \<and> within_budget a (sv_trace sv)) \<and> accounted sv \<and> wf_dict (sv_children sv)
     \<and> fst ` set (sv_children sv) \<subseteq> names \<and> (\<not> sv_stop sv \<longrightarrow> fst ` set (sv_children sv) = names)"

lemma within_budget_snoc:
  "within_budget a (trace @ [e]) \<longleftrightarrow>
     within_budget a trace \<and> (\<forall>n pid. e = Launched n pid \<longrightarrow>
        exit_times n trace = [] \<or> int (length (recent (su_window a) (exit_times n trace))) \<le> su_max_restarts a)"
proof -
  have "trace @ [e] = pre @ x # post \<longleftrightarrow> (\<exists>post'. post = post' @ [e] \<and> trace = pre @ x # post') \<or> (post = [] \<and> pre = trace \<and> x = e)"
    for pre post :: "sup_event list" and x by (cases post rule: rev_cases) auto
  note split = this
  let ?P = "\<lambda>pre n. exit_times n pre = [] \<or> int (length (recent (su_window a) (exit_times n pre))) \<le> su_max_restarts a"
  show ?thesis
  proof (intro iffI conjI allI impI)
    assume w: "within_budget a (trace @ [e])"
    show "within_budget a trace" unfolding within_budget_def
    proof (intro allI impI)
      fix pre n pid post assume "trace = pre @ Launched n pid # post"
      then have "trace @ [e] = pre @ Launched n pid # (post @ [e])" by simp
      then show "?P pre n" using w unfolding within_budget_def by blast
    qed
    show "?P trace n" if "e = Launched n pid" for n pid using w that unfolding within_budget_def by blast
  next
    assume w: "within_budget a trace \<and> (\<forall>n pid. e = Launched n pid \<longrightarrow> ?P trace n)"
    show "within_budget a (trace @ [e])" unfolding within_budget_def split using w unfolding within_budget_def by blast
  qed
qed

lemma sup_ok_stopped: "sup_ok c a ns sv \<Longrightarrow> ns \<subseteq> names \<Longrightarrow> sv_stop sv \<Longrightarrow> sup_ok c a names sv"
  by (auto simp: sup_ok_def)

lemma sup_ok_cong:
  "sup_ok c a names sv \<Longrightarrow> sv_history sv' = sv_history sv \<Longrightarrow> sv_children sv' = sv_children sv \<Longrightarrow> sv_trace sv' = sv_trace sv
    \<Longrightarrow> (sv_stop sv \<longrightarrow> sv_stop sv') \<Longrightarrow> sup_ok c a names sv'"
  using child_pid_cong [of sv' sv] unfolding sup_ok_def accounted_def by auto

lemma sup_ok_slept: "sup_ok c a names sv \<Longrightarrow> sup_ok c a names (sv\<lparr>sv_trace := sv_trace sv @ [Slept x]\<rparr>)"
  using child_pid_cong [of "sv\<lparr>sv_trace := sv_trace sv @ [Slept x]\<rparr>" sv] by (simp add: sup_ok_def accounted_def within_budget_snoc)

lemma sup_ok_launch:
  assumes "sup_ok c a names sv" "n \<notin> names" "launch table meta spawned n sv = (True, sv')"
    "c \<longrightarrow> exit_times n (sv_trace sv) = [] \<or> int (length (recent (su_window a) (exit_times n (sv_trace sv)))) \<le> su_max_restarts a"
  shows "sup_ok c a (insert n names) sv'"
proof -
  obtain s pid now where sv': "sv' = sv\<lparr>sv_children := dict_set (sv_children sv) n (make_record s meta pid now),
      sv_file := Records (dict_set (sv_children sv) n (make_record s meta pid now)), sv_trace := sv_trace sv @ [Launched n pid]\<rparr>"
    using assms(3) by (auto simp: launch_def Let_def split: option.splits)
  have absent: "map_of (sv_children sv) n = None" using assms(1,2) by (auto simp: sup_ok_def map_of_eq_None_iff)
  have "accounted sv'" unfolding accounted_def
  proof (intro allI impI)
    fix k p assume "Launched k p \<in> set (sv_trace sv')"
    then consider "Launched k p \<in> set (sv_trace sv)" | "k = n" "p = pid" by (auto simp: sv')
    then show "(\<exists>t. Exited k p t \<in> set (sv_trace sv')) \<or> child_pid sv' k = Some p"
    proof cases
      case 1
      then have "(\<exists>t. Exited k p t \<in> set (sv_trace sv)) \<or> child_pid sv k = Some p"
        using assms(1) unfolding sup_ok_def accounted_def by blast
      moreover have "child_pid sv n = None" using absent by (simp add: child_pid_def)
      moreover have "child_pid sv' k = (if k = n then Some pid else child_pid sv k)" by (simp add: child_pid_def sv' make_record_def)
      ultimately show ?thesis by (auto simp: sv')
    next
      case 2
      then show ?thesis by (simp add: sv' make_record_def child_pid_def)
    qed
  qed
  then show ?thesis using assms(1,4) by (auto simp: sup_ok_def sv' within_budget_snoc dom_update)
qed

lemma sup_ok_exit:
  assumes "sup_ok c a names sv" "map_of (sv_children sv) n = Some r" "c \<longrightarrow> sorted (exit_times n (sv_trace sv) @ [now]) \<and> 0 < su_window a"
  shows "sup_ok c a (names - {n})
    (sv\<lparr>sv_children := dict_del (sv_children sv) n,
        sv_history := dict_set (sv_history sv) n (filter (\<lambda>x. now - x < su_window a) (dict_getd (sv_history sv) n []) @ [now]),
        sv_trace := sv_trace sv @ [Exited n (prc_pid r) now]\<rparr>)"
proof -
  let ?sv = "sv\<lparr>sv_children := dict_del (sv_children sv) n,
        sv_history := dict_set (sv_history sv) n (filter (\<lambda>x. now - x < su_window a) (dict_getd (sv_history sv) n []) @ [now]),
        sv_trace := sv_trace sv @ [Exited n (prc_pid r) now]\<rparr>"
  have h: "dict_getd (sv_history sv) k [] = recent (su_window a) (exit_times k (sv_trace sv))" if c for k
    using assms(1) that by (simp add: sup_ok_def)
  have hist: "dict_getd (sv_history ?sv) k [] = recent (su_window a) (exit_times k (sv_trace ?sv))" if c for k
    using h [OF that] recent_snoc [of "exit_times n (sv_trace sv)" now "su_window a"] assms(3) that by simp
  have acc: "accounted ?sv" unfolding accounted_def
  proof (intro allI impI)
    fix k p assume "Launched k p \<in> set (sv_trace ?sv)"
    then have "(\<exists>t. Exited k p t \<in> set (sv_trace sv)) \<or> child_pid sv k = Some p"
      using assms(1) by (simp add: sup_ok_def accounted_def)
    moreover have "child_pid sv n = Some (prc_pid r)" using assms(2) by (simp only: child_pid_def option.map)
    moreover have "child_pid ?sv k = (if k = n then None else child_pid sv k)" by (simp add: child_pid_def map_of_dict_del)
    ultimately show "(\<exists>t. Exited k p t \<in> set (sv_trace ?sv)) \<or> child_pid ?sv k = Some p" by auto
  qed
  have keys: "fst ` set (sv_children ?sv) = fst ` set (sv_children sv) - {n}" by (auto simp: AList.delete_eq)
  have wb: "within_budget a (sv_trace ?sv)" if c using assms(1) that by (simp add: sup_ok_def within_budget_snoc)
  have wf: "wf_dict (sv_children ?sv)" using assms(1) by (simp add: sup_ok_def)
  have sub: "fst ` set (sv_children sv) \<subseteq> names" "sv_stop sv \<or> fst ` set (sv_children sv) = names"
    using assms(1) by (auto simp: sup_ok_def)
  show ?thesis unfolding sup_ok_def
  proof (intro conjI allI impI hist acc wb wf)
    show "fst ` set (sv_children ?sv) \<subseteq> names - {n}" unfolding keys using sub(1) by blast
    assume "\<not> sv_stop ?sv"
    then show "fst ` set (sv_children ?sv) = names - {n}" unfolding keys using sub(2) by simp
  qed
qed

definition clock_ok :: "supervisor \<Rightarrow> bool" where
  "clock_ok sv \<longleftrightarrow> (\<forall>n. sorted (exit_times n (sv_trace sv)))"

lemma clock_ok_prefix: "clock_ok sv' \<Longrightarrow> sv_trace sv' = sv_trace sv @ xs \<Longrightarrow> clock_ok sv"
  by (simp add: clock_ok_def sorted_append)

lemma launch_False: "launch table meta spawned n sv = (False, sv') \<Longrightarrow> sv' = sv"
  by (auto simp: launch_def Let_def split: option.splits)

lemma launch_trace: "launch table meta spawned n sv = (True, sv') \<Longrightarrow>
    (\<exists>pid. sv_trace sv' = sv_trace sv @ [Launched n pid]) \<and> (\<forall>k. k \<noteq> n \<longrightarrow> map_of (sv_children sv') k = map_of (sv_children sv) k)"
  by (auto simp: launch_def Let_def split: option.splits)

definition extends :: "supervisor \<Rightarrow> supervisor \<Rightarrow> bool" where
  "extends sv sv' \<longleftrightarrow> (\<exists>xs. sv_trace sv' = sv_trace sv @ xs)"

lemma extends_refl: "extends sv sv" by (simp add: extends_def)

lemma extends_trans: "extends sv sv' \<Longrightarrow> extends sv' sv'' \<Longrightarrow> extends sv sv''"
  by (auto simp: extends_def)

lemma extends_clock: "extends sv sv' \<Longrightarrow> clock_ok sv' \<Longrightarrow> clock_ok sv"
  by (auto simp: extends_def dest: clock_ok_prefix)

text \<open>The state after an exit and its pause, before the start.\<close>

definition after_exit :: "sup_args \<Rightarrow> child_turn \<Rightarrow> string \<Rightarrow> proc_record \<Rightarrow> supervisor \<Rightarrow> supervisor" where
  "after_exit a t n r sv =
     sv\<lparr>sv_children := dict_del (sv_children sv) n,
        sv_history := dict_set (sv_history sv) n (filter (\<lambda>x. ct_now t - x < su_window a) (dict_getd (sv_history sv) n []) @ [ct_now t]),
        sv_trace := sv_trace sv @ [Exited n (prc_pid r) (ct_now t)]\<rparr>"

definition exit_history :: "sup_args \<Rightarrow> child_turn \<Rightarrow> string \<Rightarrow> supervisor \<Rightarrow> rat list" where
  "exit_history a t n sv = filter (\<lambda>x. ct_now t - x < su_window a) (dict_getd (sv_history sv) n []) @ [ct_now t]"

definition after_pause :: "sup_args \<Rightarrow> child_turn \<Rightarrow> string \<Rightarrow> proc_record \<Rightarrow> supervisor \<Rightarrow> supervisor" where
  "after_pause a t n r sv =
     (let sv1 = after_exit a t n r sv
      in sv1\<lparr>sv_stop := sv_stop sv1 \<or> ct_signal t, sv_trace := sv_trace sv1 @ [Slept (backoff (length (exit_history a t n sv)))]\<rparr>)"

lemma visit_child_cases:
  "visit_child table meta a t (n, r) sv =
     (if \<not> ct_exited t then (False, sv)
      else if su_max_restarts a < int (length (exit_history a t n sv)) then (True, failed (after_exit a t n r sv))
      else if sv_stop (after_pause a t n r sv) then (False, after_pause a t n r sv)
      else (let (ok, sv3) = launch table meta (ct_spawn t) n (after_pause a t n r sv) in if ok then (False, sv3) else (True, failed sv3)))"
  unfolding visit_child_def after_pause_def after_exit_def exit_history_def Let_def by simp

lemma visit_child_extends:
  assumes "visit_child table meta a t (n, r) sv = (b, sv')"
  shows "extends sv sv' \<and> (\<forall>k. k \<noteq> n \<longrightarrow> map_of (sv_children sv') k = map_of (sv_children sv) k)"
proof -
  let ?p = "after_pause a t n r sv"
  have e: "extends sv (after_exit a t n r sv)" "extends sv ?p"
    by (auto simp: extends_def after_exit_def after_pause_def Let_def)
  have c: "k \<noteq> n \<Longrightarrow> map_of (sv_children (after_exit a t n r sv)) k = map_of (sv_children sv) k"
    "k \<noteq> n \<Longrightarrow> map_of (sv_children ?p) k = map_of (sv_children sv) k" for k
    by (simp_all add: after_exit_def after_pause_def Let_def map_of_dict_del)
  obtain ok sv3 where l: "launch table meta (ct_spawn t) n ?p = (ok, sv3)" by fastforce
  have l3: "extends ?p sv3 \<and> (\<forall>k. k \<noteq> n \<longrightarrow> map_of (sv_children sv3) k = map_of (sv_children ?p) k)"
  proof (cases ok)
    case True
    from launch_trace [OF l [unfolded eqTrueI [OF True]]] show ?thesis unfolding extends_def by blast
  next
    case False
    then show ?thesis using launch_False [of table meta "ct_spawn t" n ?p sv3] l by (simp add: extends_refl)
  qed
  have f: "extends x (failed y) = extends x y" "sv_children (failed y) = sv_children y" for x y
    by (simp_all add: extends_def failed_def)
  note v = assms [unfolded visit_child_cases l Let_def case_prod_conv]
  show ?thesis
  proof (cases "ct_exited t")
    case False
    then show ?thesis using v by (simp add: extends_refl)
  next
    case exited: True
    show ?thesis
    proof (cases "su_max_restarts a < int (length (exit_history a t n sv))")
      case True
      then have "sv' = failed (after_exit a t n r sv)" using v exited by simp
      then show ?thesis using e(1) c(1) f by simp
    next
      case budget: False
      show ?thesis
      proof (cases "sv_stop ?p")
        case True
        then have "sv' = ?p" using v exited budget by simp
        then show ?thesis using e(2) c(2) by simp
      next
        case False
        then have "sv' = sv3 \<or> sv' = failed sv3" using v exited budget by (cases ok) auto
        then show ?thesis using l3 e(2) c(2) f extends_trans by metis
      qed
    qed
  qed
qed

lemma visit_child_ok:
  assumes "visit_child table meta a t (n, r) sv = (b, sv')" "sup_ok c a names sv" "map_of (sv_children sv) n = Some r"
    "c \<longrightarrow> clock_ok sv' \<and> 0 < su_window a"
  shows "sup_ok c a names sv'"
proof (cases "ct_exited t")
  case False
  then show ?thesis using assms(1,2) by (simp add: visit_child_cases)
next
  case exited: True
  let ?e = "after_exit a t n r sv" and ?p = "after_pause a t n r sv"
  have n: "n \<in> names" using assms(2,3) unfolding sup_ok_def by (metis image_eqI fst_conv map_of_SomeD subsetD)
  have ep: "sv_trace ?p = sv_trace ?e @ [Slept (backoff (length (exit_history a t n sv)))]"
    by (simp add: after_pause_def Let_def)
  obtain ok sv3 where l: "launch table meta (ct_spawn t) n ?p = (ok, sv3)" by fastforce
  have te: "sv_trace ?e = sv_trace sv @ [Exited n (prc_pid r) (ct_now t)]" by (simp add: after_exit_def)
  have ext: "extends ?e sv'"
  proof -
    have "extends ?e ?p" by (simp add: extends_def ep)
    moreover have "extends ?p sv3"
      using launch_trace [of table meta "ct_spawn t" n ?p sv3] launch_False [of table meta "ct_spawn t" n ?p sv3] l
      by (cases ok) (auto simp: extends_def)
    moreover have "extends x (failed y) = extends x y" for x y by (simp add: extends_def failed_def)
    moreover have "sv' \<in> {failed ?e, ?p, sv3, failed sv3}"
      using assms(1) exited unfolding visit_child_cases l Let_def case_prod_conv by (auto split: if_splits)
    ultimately show ?thesis using extends_trans extends_refl by (metis empty_iff insert_iff)
  qed
  have "sorted (exit_times n (sv_trace sv) @ [ct_now t])" if c
    using extends_clock [OF ext] assms(4) that unfolding clock_ok_def te by (metis exit_times_simps(2,6))
  then have "c \<longrightarrow> sorted (exit_times n (sv_trace sv) @ [ct_now t]) \<and> 0 < su_window a" using assms(4) by blast
  then have e: "sup_ok c a (names - {n}) ?e" unfolding after_exit_def by (rule sup_ok_exit [OF assms(2,3)])
  have p: "sup_ok c a (names - {n}) ?p"
    unfolding after_pause_def Let_def
    by (rule sup_ok_cong [OF sup_ok_slept [OF e]]) simp_all
  have history: "exit_history a t n sv = recent (su_window a) (exit_times n (sv_trace ?p))" if c
  proof -
    have "dict_getd (sv_history ?e) n [] = recent (su_window a) (exit_times n (sv_trace ?e))" using e that unfolding sup_ok_def by blast
    moreover have "dict_getd (sv_history ?e) n [] = exit_history a t n sv" by (simp add: after_exit_def exit_history_def)
    ultimately show ?thesis unfolding ep by simp
  qed
  show ?thesis
  proof (cases "su_max_restarts a < int (length (exit_history a t n sv))")
    case True
    then have sv': "sv' = failed ?e" using assms(1) exited by (simp add: visit_child_cases)
    have "sup_ok c a (names - {n}) (failed ?e)" by (rule sup_ok_cong [OF e]) (simp_all add: failed_def)
    then show ?thesis unfolding sv' by (rule sup_ok_stopped) (auto simp: failed_def)
  next
    case budget: False
    show ?thesis
    proof (cases "sv_stop ?p")
      case True
      then have "sv' = ?p" using assms(1) exited budget by (simp add: visit_child_cases)
      then show ?thesis using sup_ok_stopped [OF p _ True] by blast
    next
      case False
      show ?thesis
      proof (cases ok)
        case True
        then have "sv' = sv3" using assms(1) exited budget False l by (simp add: visit_child_cases)
        moreover have "sup_ok c a (insert n (names - {n})) sv3"
          by (rule sup_ok_launch [OF p _ l [unfolded eqTrueI [OF True]]]) (use budget history in auto)
        ultimately show ?thesis using n by (simp add: insert_absorb)
      next
        case ok: False
        then have sv': "sv' = failed ?p" using assms(1) exited budget False l launch_False [of table meta "ct_spawn t" n ?p sv3]
          by (simp add: visit_child_cases)
        have "sup_ok c a (names - {n}) (failed ?p)" by (rule sup_ok_cong [OF p]) (simp_all add: failed_def)
        then show ?thesis unfolding sv' by (rule sup_ok_stopped) (auto simp: failed_def)
      qed
    qed
  qed
qed

lemma visit_children_extends: "extends sv (visit_children table meta a t cs sv)"
proof (induction cs arbitrary: sv)
  case (Cons c cs)
  obtain n r where c: "c = (n, r)" by fastforce
  obtain b sv' where v: "visit_child table meta a (t n) (n, r) sv = (b, sv')" by fastforce
  have e: "extends sv sv'" using visit_child_extends [OF v] by simp
  show ?case
  proof (cases b)
    case False
    then have "visit_children table meta a t (c # cs) sv = visit_children table meta a t cs sv'" by (simp add: c v)
    then show ?thesis using extends_trans [OF e Cons.IH [of sv']] by (simp only:)
  qed (use e in \<open>simp add: c v\<close>)
qed (simp add: extends_refl)

lemma visit_children_ok:
  assumes "sup_ok c a names sv" "distinct (map fst cs)" "\<And>n r. (n, r) \<in> set cs \<Longrightarrow> map_of (sv_children sv) n = Some r"
    "c \<longrightarrow> clock_ok (visit_children table meta a t cs sv) \<and> 0 < su_window a"
  shows "sup_ok c a names (visit_children table meta a t cs sv)"
  using assms
proof (induction cs arbitrary: sv)
  case (Cons x cs)
  obtain n r where x: "x = (n, r)" by fastforce
  obtain b sv' where v: "visit_child table meta a (t n) (n, r) sv = (b, sv')" by fastforce
  have r: "map_of (sv_children sv) n = Some r" using Cons.prems(3) x by (meson list.set_intros(1))
  have step: "visit_children table meta a t (x # cs) sv = (if b then sv' else visit_children table meta a t cs sv')"
    by (simp add: x v)
  have clock: "c \<longrightarrow> clock_ok sv' \<and> 0 < su_window a"
    using Cons.prems(4) extends_clock [OF visit_children_extends] unfolding step by (cases b) auto
  have ok: "sup_ok c a names sv'" by (rule visit_child_ok [OF v Cons.prems(1) r clock])
  show ?case
  proof (cases b)
    case True
    then show ?thesis using ok step by simp
  next
    case False
    have "map_of (sv_children sv') k = Some y" if k: "(k, y) \<in> set cs" for k y
    proof -
      have "k \<noteq> n" using Cons.prems(2) k x by force
      moreover have "map_of (sv_children sv) k = Some y" by (rule Cons.prems(3)) (use k in simp)
      ultimately show ?thesis using visit_child_extends [OF v] by metis
    qed
    then have "sup_ok c a names (visit_children table meta a t cs sv')"
      by (intro Cons.IH [OF ok]) (use Cons.prems(2,4) step False in auto)
    then show ?thesis using step False by simp
  qed
qed simp

lemma step_extends: "extends sv (sup_turn_step table meta a turn sv)"
  using visit_children_extends [of sv table meta a "fst turn" "sv_children sv"] unfolding sup_turn_step_def Let_def extends_def by auto

lemma sup_step_ok:
  assumes "sup_ok c a names sv" "c \<longrightarrow> clock_ok (sup_turn_step table meta a turn sv) \<and> 0 < su_window a"
  shows "sup_ok c a names (sup_turn_step table meta a turn sv)"
proof -
  let ?sv = "visit_children table meta a (fst turn) (sv_children sv) sv"
  have wf: "wf_dict (sv_children sv)" using assms(1) by (simp add: sup_ok_def)
  have "clock_ok (sup_turn_step table meta a turn sv) \<Longrightarrow> clock_ok ?sv"
    by (erule clock_ok_prefix [of _ _ "[Slept (1/4)]"]) (simp add: sup_turn_step_def Let_def)
  then have "c \<longrightarrow> clock_ok ?sv \<and> 0 < su_window a" using assms(2) by blast
  then have "sup_ok c a names ?sv"
    using wf by (intro visit_children_ok [OF assms(1)]) (simp_all add: map_of_is_SomeI)
  from sup_ok_slept [where x = "1/4", OF this] show ?thesis unfolding sup_turn_step_def Let_def
    by (rule sup_ok_cong) simp_all
qed

lemma loop_extends: "extends sv (sup_loop table meta a turns sv)"
proof (induction turns arbitrary: sv)
  case (Cons t ts)
  show ?case using extends_trans [OF step_extends Cons.IH] extends_refl by simp
qed (simp add: extends_refl)

lemma loop_ok:
  "sup_ok c a names sv \<Longrightarrow> c \<longrightarrow> clock_ok (sup_loop table meta a turns sv) \<and> 0 < su_window a
    \<Longrightarrow> sup_ok c a names (sup_loop table meta a turns sv)"
proof (induction turns arbitrary: sv)
  case (Cons t ts)
  show ?case
  proof (cases "sup_running sv")
    case True
    then have clock: "c \<longrightarrow> clock_ok (sup_loop table meta a ts (sup_turn_step table meta a t sv)) \<and> 0 < su_window a"
      using Cons.prems(2) by simp
    then have "c \<longrightarrow> clock_ok (sup_turn_step table meta a t sv) \<and> 0 < su_window a"
      using extends_clock [OF loop_extends] by blast
    then have "sup_ok c a names (sup_turn_step table meta a t sv)" by (rule sup_step_ok [OF Cons.prems(1)])
    then show ?thesis using Cons.IH [OF _ clock] True by simp
  qed (use Cons.prems in simp)
qed simp

lemma start_ok: "sup_ok c a {} (sup_start order f)"
proof -
  have "dict_getd (map (\<lambda>n. (n, [])) order) n [] = []" for n by (induction order) (auto simp: dict_getd_def)
  note h = this
  show ?thesis by (simp add: h sup_ok_def sup_start_def recent_def within_budget_def accounted_def)
qed

text \<open>Before the loop no service has exited, and each start takes a service that has no child yet.\<close>

lemma launch_all_ok:
  assumes "sup_ok c a names sv" "set ns \<inter> names = {}" "distinct ns" "\<And>n. exit_times n (sv_trace sv) = []"
  shows "sup_ok c a (names \<union> set ns) (launch_all table meta spawn ns sv)"
  using assms
proof (induction ns arbitrary: names sv)
  case (Cons n ns)
  obtain ok sv' where l: "launch table meta (spawn n) n sv = (ok, sv')" by fastforce
  show ?case
  proof (cases ok)
    case True
    note l = l [unfolded eqTrueI [OF True]]
    have ok': "sup_ok c a (insert n names) sv'" by (rule sup_ok_launch [OF Cons.prems(1) _ l]) (use Cons.prems(2,4) in auto)
    obtain pid where t: "sv_trace sv' = sv_trace sv @ [Launched n pid]" using launch_trace [OF l] by blast
    have "sup_ok c a (insert n names \<union> set ns) (launch_all table meta spawn ns sv')"
      by (rule Cons.IH [OF ok']) (use Cons.prems t in auto)
    then show ?thesis by (simp add: l)
  next
    case False
    note l = l [unfolded iffD2 [OF eq_False False]]
    have "sup_ok c a names (failed sv)" by (rule sup_ok_cong [OF Cons.prems(1)]) (simp_all add: failed_def)
    then have "sup_ok c a (names \<union> set (n # ns)) (failed sv)" by (rule sup_ok_stopped) (auto simp: failed_def)
    then show ?thesis using l launch_False [OF l] by simp
  qed
qed simp

text \<open>What holds of every state the supervisor reaches.\<close>

lemma supervise_ok:
  assumes "distinct order" "c \<longrightarrow> clock_ok (supervise_run table meta a order spawn early turns f) \<and> 0 < su_window a"
  shows "sup_ok c a (set order) (supervise_run table meta a order spawn early turns f)"
proof -
  let ?sv = "launch_all table meta spawn order (sup_start order f)"
  have "sup_ok c a ({} \<union> set order) ?sv"
    by (rule launch_all_ok [OF start_ok _ assms(1)]) (simp_all add: sup_start_def)
  then have "sup_ok c a (set order) ?sv" by simp
  then have "sup_ok c a (set order) (?sv\<lparr>sv_stop := sv_stop ?sv \<or> early\<rparr>)" by (rule sup_ok_cong) simp_all
  then show ?thesis using assms(2) unfolding supervise_run_def Let_def by (rule loop_ok)
qed

section \<open>The promises of a supervised run\<close>

lemma terminate_trace:
  "terminate_children ends cs trace = (b, trace') \<Longrightarrow>
     (\<exists>k. trace' = trace @ map (\<lambda>(n, r). Terminated n (prc_pid r)) (take k cs) \<and> (b \<longrightarrow> k = length cs))"
proof (induction ends cs trace rule: terminate_children.induct)
  case (2 ends n r cs trace)
  show ?case
  proof (cases "ends (prc_pid r)")
    case True
    then obtain k where "trace' = (trace @ [Terminated n (prc_pid r)]) @ map (\<lambda>(n, r). Terminated n (prc_pid r)) (take k cs)"
      "b \<longrightarrow> k = length cs" using 2 by auto
    then show ?thesis by (intro exI [of _ "Suc k"]) simp
  next
    case False
    then show ?thesis using 2 by (intro exI [of _ 0]) simp
  qed
qed simp

lemma within_budget_ends:
  "within_budget a trace \<Longrightarrow> within_budget a (trace @ map (\<lambda>(n, r). Terminated n (prc_pid r)) cs)"
proof (induction cs rule: rev_induct)
  case (snoc c cs)
  then have "within_budget a ((trace @ map (\<lambda>(n, r). Terminated n (prc_pid r)) cs) @ [Terminated (fst c) (prc_pid (snd c))])"
    by (simp only: within_budget_snoc) simp
  then show ?case by (cases c) simp
qed simp

text \<open>A result of the command comes from a run, ended or not.\<close>

lemma supervise_result:
  assumes "cmd_supervise R files table a ra spawn early turns ends f = Inr (res, sv)"
  obtains env meta order run where "run_context R files ra = Inr (env, meta)"
    "order = resolve_order table (wanted_services (ra_only ra) (map_of meta ''runtime_mode''))"
    "run = supervise_run table meta a order spawn early turns f"
    "(res = None \<and> sv = run \<and> sup_running run) \<or> (\<not> sup_running run \<and> (\<exists>code. res = Some code \<and> sup_finish ends run = (code, sv)))"
proof -
  obtain env meta where c: "run_context R files ra = Inr (env, meta)"
    using assms by (cases "run_context R files ra") (auto simp: cmd_supervise_def)
  let ?order = "resolve_order table (wanted_services (ra_only ra) (map_of meta ''runtime_mode''))"
  let ?run = "supervise_run table meta a ?order spawn early turns f"
  have "(res = None \<and> sv = ?run \<and> sup_running ?run) \<or> (\<not> sup_running ?run \<and> (\<exists>code. res = Some code \<and> sup_finish ends ?run = (code, sv)))"
    using assms by (simp add: cmd_supervise_def c Let_def split: if_splits prod.splits)
  then show thesis using that c by blast
qed

lemma finish_trace:
  assumes "sup_finish ends run = (code, sv)"
  shows "extends run sv \<and> (within_budget a (sv_trace run) \<longrightarrow> within_budget a (sv_trace sv))
    \<and> (\<forall>c. code = Inr c \<longrightarrow> sv_file sv = Records [] \<and> c = sv_exit run
          \<and> sv_trace sv = sv_trace run @ map (\<lambda>(n, r). Terminated n (prc_pid r)) (sv_children run))"
proof -
  obtain b trace where t: "terminate_children ends (sv_children run) (sv_trace run) = (b, trace)" by fastforce
  obtain k where k: "trace = sv_trace run @ map (\<lambda>(n, r). Terminated n (prc_pid r)) (take k (sv_children run))"
    "b \<longrightarrow> k = length (sv_children run)" using terminate_trace [OF t] by blast
  have sv: "sv_trace sv = trace" "\<forall>c. code = Inr c \<longrightarrow> b \<and> sv_file sv = Records [] \<and> c = sv_exit run"
    using assms t by (auto simp: sup_finish_def split: bool.splits)
  have "within_budget a (sv_trace run) \<Longrightarrow> within_budget a trace" unfolding k(1) by (rule within_budget_ends)
  moreover have "b \<Longrightarrow> trace = sv_trace run @ map (\<lambda>(n, r). Terminated n (prc_pid r)) (sv_children run)" using k by simp
  moreover have "extends run sv" using k(1) sv(1) by (simp add: extends_def)
  ultimately show ?thesis using sv by metis
qed

lemma run_invariant:
  assumes "order = resolve_order table wanted" "run = supervise_run table meta a order spawn early turns f"
    "extends run sv" "c \<longrightarrow> clock_ok sv \<and> 0 < su_window a"
  shows "sup_ok c a (set order) run"
  using supervise_ok [of order c table meta a spawn early turns f] order_distinct [of table wanted] assms(1,2,4)
    extends_clock [OF assms(3)] by simp

text \<open>Claim C12. The restart budget: whenever a service is started again, the exits of that service within the restart window
  that ends at its last exit are at most the allowed number, whatever the children, the launches and the signals do, provided
  that the exit times of each service do not go back and that the window is positive. The times are readings of \<open>time.time()\<close>:
  a clock that is set back or jumps ahead and back prunes exits from the history, and the bound is not claimed for it.\<close>

theorem restart_within_budget:
  assumes "cmd_supervise R files table a ra spawn early turns ends f = Inr (res, sv)" "clock_ok sv" "0 < su_window a"
    "sv_trace sv = pre @ Launched n pid # post" "exit_times n pre \<noteq> []"
  shows "int (length (filter (\<lambda>t. last (exit_times n pre) - t < su_window a) (exit_times n pre))) \<le> su_max_restarts a"
proof -
  obtain env meta order run where r: "order = resolve_order table (wanted_services (ra_only ra) (map_of meta ''runtime_mode''))"
    "run = supervise_run table meta a order spawn early turns f"
    "(res = None \<and> sv = run \<and> sup_running run) \<or> (\<not> sup_running run \<and> (\<exists>code. res = Some code \<and> sup_finish ends run = (code, sv)))"
    using supervise_result [OF assms(1)] by metis
  have e: "extends run sv" using r(3) finish_trace extends_refl by metis
  have "within_budget a (sv_trace run)" using run_invariant [OF r(1,2) e, of True] assms(2,3) by (simp add: sup_ok_def)
  then have "within_budget a (sv_trace sv)" using r(3) finish_trace by metis
  then show ?thesis using assms(4,5) unfolding within_budget_def recent_def by blast
qed

text \<open>Claim C19. No process outlives the supervisor: when the command returns a code, every process it started has exited or was
  terminated, and the record file is empty, whatever the clock reads, the window is and the children, launches and signals do.
  (A child that does not end after it was killed makes the command raise instead.)\<close>

theorem no_orphans:
  assumes "cmd_supervise R files table a ra spawn early turns ends f = Inr (Some (Inr code), sv)"
  shows "sv_file sv = Records [] \<and> (\<forall>n pid. Launched n pid \<in> set (sv_trace sv) \<longrightarrow>
      Terminated n pid \<in> set (sv_trace sv) \<or> (\<exists>t. Exited n pid t \<in> set (sv_trace sv)))"
proof -
  obtain env meta order run where r: "order = resolve_order table (wanted_services (ra_only ra) (map_of meta ''runtime_mode''))"
    "run = supervise_run table meta a order spawn early turns f" "sup_finish ends run = (Inr code, sv)"
    using supervise_result [OF assms(1)] by (metis option.distinct(1) option.inject)
  note fin = finish_trace [OF r(3), of a]
  have ok: "sup_ok False a (set order) run" using run_invariant [OF r(1,2), of sv False] fin by blast
  have t: "sv_trace sv = sv_trace run @ map (\<lambda>(n, r). Terminated n (prc_pid r)) (sv_children run)" using fin by blast
  have "Terminated n pid \<in> set (sv_trace sv) \<or> (\<exists>t. Exited n pid t \<in> set (sv_trace sv))"
    if "Launched n pid \<in> set (sv_trace sv)" for n pid
  proof -
    have "Launched n pid \<in> set (sv_trace run)" using that unfolding t by auto
    then have "(\<exists>t. Exited n pid t \<in> set (sv_trace run)) \<or> child_pid run n = Some pid"
      using ok by (simp add: sup_ok_def accounted_def)
    then show ?thesis
    proof
      assume "child_pid run n = Some pid"
      then obtain x where "(n, x) \<in> set (sv_children run)" "prc_pid x = pid" unfolding child_pid_def by (auto dest: map_of_SomeD)
      then have "Terminated n pid \<in> set (map (\<lambda>(n, r). Terminated n (prc_pid r)) (sv_children run))" by force
      then show ?thesis unfolding t by simp
    qed (auto simp: t)
  qed
  then show ?thesis using fin by blast
qed

text \<open>At the loop the record file holds the children, unless there are none.\<close>

definition file_current :: "supervisor \<Rightarrow> bool" where
  "file_current sv = (sv_children sv = [] \<or> sv_file sv = Records (sv_children sv))"

lemma launch_current: "file_current sv \<Longrightarrow> launch table meta spawned n sv = (ok, sv') \<Longrightarrow> file_current sv'"
  by (auto simp: launch_def Let_def file_current_def split: option.splits)

lemma launch_all_current: "file_current sv \<Longrightarrow> file_current (launch_all table meta spawn ns sv)"
proof (induction ns arbitrary: sv)
  case (Cons n ns)
  obtain ok sv' where l: "launch table meta (spawn n) n sv = (ok, sv')" by fastforce
  have c: "file_current sv'" by (rule launch_current [OF Cons.prems l])
  have "file_current (failed sv')" using c by (simp add: file_current_def failed_def)
  then show ?case using Cons.IH [OF c] by (simp add: l)
qed simp

lemma step_current: "file_current (sup_turn_step table meta a turn sv)"
  by (simp add: sup_turn_step_def Let_def file_current_def)

lemma loop_current: "file_current sv \<Longrightarrow> file_current (sup_loop table meta a turns sv)"
  by (induction turns arbitrary: sv) (simp_all add: step_current)

lemma run_current: "file_current (supervise_run table meta a order spawn early turns f)"
proof -
  let ?sv = "launch_all table meta spawn order (sup_start order f)"
  have "file_current ?sv" by (rule launch_all_current) (simp add: file_current_def sup_start_def)
  then have "file_current (?sv\<lparr>sv_stop := sv_stop ?sv \<or> early\<rparr>)" by (simp add: file_current_def)
  then show ?thesis unfolding supervise_run_def Let_def by (rule loop_current)
qed

text \<open>While the supervisor runs, each wanted service it knows has exactly one child, and the record file says so.\<close>

theorem all_services_supervised:
  assumes "cmd_supervise R files table a ra spawn early turns ends f = Inr (None, sv)"
    "run_context R files ra = Inr (env, meta)"
  shows "fst ` set (sv_children sv) = set (resolve_order table (wanted_services (ra_only ra) (map_of meta ''runtime_mode'')))
    \<and> wf_dict (sv_children sv) \<and> sv_file sv = Records (sv_children sv)"
proof -
  let ?order = "resolve_order table (wanted_services (ra_only ra) (map_of meta ''runtime_mode''))"
  have sv: "sv = supervise_run table meta a ?order spawn early turns f" and r: "sup_running sv"
    using supervise_result [OF assms(1)] assms(2) by (metis option.distinct(1) Pair_inject sum.inject(2))+
  have "sup_ok False a (set ?order) sv" by (rule run_invariant [OF refl sv extends_refl]) simp
  moreover have "file_current sv" unfolding sv by (rule run_current)
  ultimately show ?thesis using r by (auto simp: sup_ok_def sup_running_def file_current_def)
qed

text \<open>The pause before a restart lies between half a second and four seconds: its cap of five is never reached.\<close>

lemma backoff_bounds: "1/2 \<le> backoff n \<and> backoff n \<le> 4"
proof -
  have "min (n - 1) 3 \<le> (3 :: nat)" by simp
  then have "min (n - 1) 3 \<in> {0, 1, 2, 3 :: nat}" by (simp add: eval_nat_numeral le_Suc_eq)
  then show ?thesis by (auto simp: backoff_def)
qed

section \<open>Runs of the declared services\<close>

definition demo_table :: "(string \<times> service_spec) list" where
  "demo_table = spec_by_name (service_specs [] [])"

definition only_api :: run_args where
  "only_api = \<lparr>ra_only = Some ''api'', ra_profile = [], ra_manifest = [], ra_site = None\<rparr>"

definition crash_turn :: "rat \<Rightarrow> sup_turn" where
  "crash_turn now = (\<lambda>n. \<lparr>ct_exited = True, ct_now = now, ct_signal = False, ct_spawn = Some (12, now)\<rparr>, False)"

definition idle_turn :: "bool \<Rightarrow> sup_turn" where
  "idle_turn signal = (\<lambda>n. \<lparr>ct_exited = False, ct_now = 0, ct_signal = False, ct_spawn = None\<rparr>, signal)"

definition demo_supervise :: "sup_turn list \<Rightarrow> string + (string + int) option \<times> supervisor" where
  "demo_supervise turns =
     cmd_supervise demo_rt (\<lambda>_. None) demo_table \<lparr>su_max_restarts = 1, su_window = 60\<rparr> only_api (\<lambda>n. Some (11, 0)) False turns (\<lambda>_. True) NoFile"

definition demo_record :: "int \<Rightarrow> rat \<Rightarrow> proc_record" where
  "demo_record pid now = make_record (hd (service_specs [] [])) [] pid now"

text \<open>A crash, a restart and a signal; the second crash within the window ends the supervision with code 1.\<close>

definition one_crash :: supervisor where
  "one_crash =
     \<lparr>sv_children = [(''api'', demo_record 12 10)], sv_history = [(''api'', [10])], sv_stop = False, sv_exit = 0,
      sv_file = Records [(''api'', demo_record 12 10)],
      sv_trace = [Launched ''api'' 11, Exited ''api'' 11 10, Slept (1/2), Launched ''api'' 12, Slept (1/4)]\<rparr>"

definition two_crashes :: supervisor where
  "two_crashes =
     \<lparr>sv_children = [], sv_history = [(''api'', [10, 20])], sv_stop = True, sv_exit = 1, sv_file = Records [],
      sv_trace = [Launched ''api'' 11, Exited ''api'' 11 10, Slept (1/2), Launched ''api'' 12, Slept (1/4), Exited ''api'' 12 20, Slept (1/4)]\<rparr>"

lemma demo_runs:
  "demo_supervise [crash_turn 10] = Inr (None, one_crash)"
  "demo_supervise [crash_turn 10, crash_turn 20] = Inr (Some (Inr 1), two_crashes)"
  by (code_simp, code_simp)

lemma demo_clocks: "clock_ok one_crash" "clock_ok two_crashes"
  by (simp_all add: clock_ok_def one_crash_def two_crashes_def exit_times_def)

theorem restart_within_budget_witness:
  "int (length (filter (\<lambda>t. 10 - t < 60) [10 :: rat])) \<le> 1"
  using restart_within_budget [OF demo_runs(1) [unfolded demo_supervise_def] demo_clocks(1), of
    "[Launched ''api'' 11, Exited ''api'' 11 10, Slept (1/2)]" "''api''" 12 "[Slept (1/4)]"]
  by (simp add: one_crash_def)

theorem no_orphans_witness:
  "sv_file two_crashes = Records []
    \<and> (Terminated ''api'' 12 \<in> set (sv_trace two_crashes) \<or> (\<exists>t. Exited ''api'' 12 t \<in> set (sv_trace two_crashes)))"
proof -
  have "Launched ''api'' 12 \<in> set (sv_trace two_crashes)" by (simp add: two_crashes_def)
  then show ?thesis using no_orphans [OF demo_runs(2) [unfolded demo_supervise_def]] by simp
qed

theorem all_services_supervised_witness:
  "fst ` set (sv_children one_crash) = {''api''} \<and> sv_file one_crash = Records (sv_children one_crash)"
proof -
  have c: "run_context demo_rt (\<lambda>_. None) only_api = Inr ([], [])" by (simp add: run_context_def only_api_def)
  have o: "resolve_order demo_table (wanted_services (ra_only only_api) (map_of [] ''runtime_mode'')) = [''api'']" by code_simp
  show ?thesis using all_services_supervised [OF demo_runs(1) [unfolded demo_supervise_def] c]
    unfolding o by simp
qed

text \<open>A system in which every start succeeds and everything that was started is alive.\<close>

definition fresh_system :: "int list \<Rightarrow> stop_answer \<Rightarrow> system" where
  "fresh_system alive stop =
     \<lparr>sy_spawn = (\<lambda>n. Some (if n = ''api'' then 11 else 12)), sy_alive = (\<lambda>p. p \<in> set alive), sy_stop = (\<lambda>_. stop), sy_now = 5\<rparr>"

definition up_demo :: "int list \<Rightarrow> pid_file \<Rightarrow> string + pid_file \<times> nat" where
  "up_demo alive f = cmd_up demo_rt (\<lambda>_. None) demo_table (fresh_system alive Stopped) only_api f"

definition api_file :: pid_file where
  "api_file = Records [(''api'', demo_record 11 5)]"

lemma up_demo_run: "up_demo [] NoFile = Inr (api_file, 1)"
  by code_simp

theorem up_idempotent_witness:
  "up_demo [11] api_file = Inr (api_file, 0)"
proof -
  have c: "run_context demo_rt (\<lambda>_. None) only_api = Inr ([], [])" by (simp add: run_context_def only_api_def)
  have t: "table_ok demo_table" unfolding demo_table_def by (rule service_table_ok)
  have s: "\<forall>n \<in> set (resolve_order demo_table (wanted_services (ra_only only_api) (map_of [] ''runtime_mode''))).
      sy_spawn (fresh_system [] Stopped) n \<noteq> None" by (simp add: fresh_system_def)
  have l: "\<forall>r \<in> snd ` set (load_records api_file). is_alive (fresh_system [11] Stopped) r"
    by (simp add: api_file_def load_records_def is_alive_def demo_record_def make_record_def fresh_system_def)
  show ?thesis unfolding up_demo_def
    using up_idempotent [OF t up_demo_run [unfolded up_demo_def] c refl s l] by blast
qed

text \<open>What the code does at its edges. A record file that does not parse counts as no record, so \<open>up\<close> starts a second
  copy of a service that is running; a stop that fails drops the record of a process that is still running, so the next
  \<open>up\<close> starts a second copy too; a list of services that names none known starts nothing and succeeds; \<open>restart\<close> with a
  list of empty names stops every managed service and starts all of them.\<close>

lemma garbled_starts_twice: "up_demo [11] Garbled = Inr (api_file, 1)"
  by code_simp

lemma down_forgets:
  "cmd_down (fresh_system [11] StopError) None api_file = (Records [], 0)"
  by code_simp

lemma unknown_ignored:
  "cmd_up demo_rt (\<lambda>_. None) demo_table (fresh_system [] Stopped) (only_api\<lparr>ra_only := Some ''apii''\<rparr>) NoFile = Inr (Records [], 0)"
  by code_simp

lemma restart_of_none:
  "case cmd_restart demo_rt (\<lambda>_. None) demo_table (fresh_system [11] Stopped) (fresh_system [] Stopped) '','' only_api api_file of
     (code, Records r) \<Rightarrow> code = Inr 0 \<and> map fst r = [''api'', ''ai'', ''edge'', ''processor'', ''fanout'', ''ai-fanout'']
   | _ \<Rightarrow> False"
  by code_simp

text \<open>A restart does not wait for the process it signalled: the record of the stopped process is dropped at once and
  the new one starts while the old one may be alive.\<close>

lemma restart_overlaps:
  "cmd_restart demo_rt (\<lambda>_. None) demo_table (fresh_system [11] Stopped) (fresh_system [11] Stopped) ''api'' only_api
     (Records [(''api'', demo_record 11 1)]) = (Inr 0, api_file)"
  by code_simp

text \<open>A child that survives its kill leaves the final block: the children after it are neither terminated nor dropped,
  and the record file is kept.\<close>

lemma stuck_child_leaves_others:
  "ends (prc_pid r) = False \<Longrightarrow> terminate_children ends ((n, r) # cs) trace = (False, trace)"
  by simp

lemma stuck_child_keeps_file:
  "terminate_children ends (sv_children sv) (sv_trace sv) = (False, trace) \<Longrightarrow> sv_file (snd (sup_finish ends sv)) = sv_file sv"
  by (simp add: sup_finish_def)

end
