(* ===== verification/Historian_Backup.thy ===== *)
theory Historian_Backup
  imports Project_Manifest Edge_Model "HOL-Library.Sublist"
begin

text \<open>
  Backups of the historian (\<open>services/historian/backup.py\<close>), their HTTP routes
  (\<open>api_service/routers/backup.py\<close>) and the backup drill of the command line (\<open>cli/datastreamctl.py\<close>). The code
  drives the tools of PostgreSQL, on the host or in a container. A call is a function on the trace of what was done so
  far: the commands with their answers, and the list files of a restore. What a command answers is a parameter that may
  depend on everything before it.
\<close>

section \<open>Commands\<close>

record db_params =
  dbp_host :: string
  dbp_port :: string
  dbp_name :: string
  dbp_user :: string
  dbp_password :: string

text \<open>Where a tool runs: on the host or in the container of a service.\<close>

datatype place = OnHost | InDb string

datatype pg_command =
    ComposePs string
  | Query place bool string string
  | Script place string string
  | DropDb place string
  | CreateDb place string
  | CreateTarget string string
  | PgDump place string "string list" string
  | CopyIn string string string
  | DatabaseExists string string
  | PreRestore string string
  | RestoreList place string
  | PgRestore place string string string
  | RemoveIn string string
  | WalgVersion

text \<open>The answer of a command: its output, a non-zero exit with its output, its error output and the text of the
  exception, or a program that is not found.\<close>

datatype answer = Finished string | Exit string string string | Absent string

datatype shell_event =
    Ran db_params pg_command answer
  | TocWritten string string
  | TocRemoved string

datatype shell_exc = NotFound string | ProcError "string option" string

type_synonym 'a shell = "shell_event list \<Rightarrow> (shell_exc + 'a) \<times> shell_event list"

record backup_env =
  be_answer :: "shell_event list \<Rightarrow> pg_command \<Rightarrow> answer"
  be_params :: db_params
  be_preferred :: "string option"
  be_compose :: string
  be_toc :: "shell_event list \<Rightarrow> string"
  be_stamp :: "shell_event list \<Rightarrow> string"
  be_exists :: "shell_event list \<Rightarrow> string \<Rightarrow> bool"
  be_bytes :: "shell_event list \<Rightarrow> string \<Rightarrow> int"
  be_listing :: "shell_event list \<Rightarrow> string \<Rightarrow> (string \<times> int \<times> string) list option"
  be_clock :: "shell_event list \<Rightarrow> rat"
  be_home :: string

definition sh_return :: "'a \<Rightarrow> 'a shell" where
  "sh_return a t = (Inr a, t)"

definition sh_raise :: "shell_exc \<Rightarrow> 'a shell" where
  "sh_raise e t = (Inl e, t)"

definition sh_bind :: "'a shell \<Rightarrow> ('a \<Rightarrow> 'b shell) \<Rightarrow> 'b shell" where
  "sh_bind m f t = (case m t of (Inl e, t') \<Rightarrow> (Inl e, t') | (Inr a, t') \<Rightarrow> f a t')"

definition sh_try :: "'a shell \<Rightarrow> (shell_exc \<Rightarrow> 'a shell) \<Rightarrow> 'a shell" where
  "sh_try m h t = (case m t of (Inl e, t') \<Rightarrow> h e t' | (Inr a, t') \<Rightarrow> (Inr a, t'))"

definition sh_finally :: "'a shell \<Rightarrow> unit shell \<Rightarrow> 'a shell" where
  "sh_finally m f t = (case m t of (r, t') \<Rightarrow> (case f t' of (Inl e, t2) \<Rightarrow> (Inl e, t2) | (Inr _, t2) \<Rightarrow> (r, t2)))"

text \<open>What the environment says at this point of the trace.\<close>

definition sh_ask :: "(shell_event list \<Rightarrow> 'a) \<Rightarrow> 'a shell" where
  "sh_ask f t = (Inr (f t), t)"

definition sh_emit :: "shell_event \<Rightarrow> unit shell" where
  "sh_emit e t = (Inr (), t @ [e])"

text \<open>\<open>subprocess.run\<close> without and with \<open>check\<close>. The error output of \<open>docker cp\<close> is not captured.\<close>

definition run_any :: "backup_env \<Rightarrow> db_params \<Rightarrow> pg_command \<Rightarrow> (bool \<times> string) shell" where
  "run_any B c cmd t =
     (let a = be_answer B t cmd; t' = t @ [Ran c cmd a] in
      case a of Finished out \<Rightarrow> (Inr (True, out), t') | Exit out err msg \<Rightarrow> (Inr (False, out), t') | Absent msg \<Rightarrow> (Inl (NotFound msg), t'))"

definition captured :: "pg_command \<Rightarrow> string \<Rightarrow> string option" where
  "captured cmd err = (case cmd of CopyIn _ _ _ \<Rightarrow> None | _ \<Rightarrow> Some err)"

definition run_check :: "backup_env \<Rightarrow> db_params \<Rightarrow> pg_command \<Rightarrow> string shell" where
  "run_check B c cmd t =
     (let a = be_answer B t cmd; t' = t @ [Ran c cmd a] in
      case a of Finished out \<Rightarrow> (Inr out, t') | Exit out err msg \<Rightarrow> (Inl (ProcError (captured cmd err) msg), t')
      | Absent msg \<Rightarrow> (Inl (NotFound msg), t'))"

text \<open>\<open>e.stderr\<close> of a failed command, and \<open>getattr(exc, "stderr", None) or str(exc)\<close>.\<close>

definition stderr_of :: "shell_exc \<Rightarrow> pyval" where
  "stderr_of e = (case e of ProcError (Some err) _ \<Rightarrow> PStr err | _ \<Rightarrow> PNone)"

definition exc_text :: "shell_exc \<Rightarrow> string" where
  "exc_text e = (case e of NotFound msg \<Rightarrow> msg | ProcError (Some (x # xs)) _ \<Rightarrow> x # xs | ProcError _ msg \<Rightarrow> msg)"

definition sh_error :: "pyval \<Rightarrow> pydict" where
  "sh_error e = [(''status'', PStr ''error''), (''error'', e)]"

definition ran_well :: "pydict \<Rightarrow> bool" where
  "ran_well d = (pget d ''status'' = PStr ''success'')"

section \<open>Command lines\<close>

definition compose_base_cmd :: "backup_env \<Rightarrow> string list" where
  "compose_base_cmd B = [''docker'', ''compose'', ''-f'', be_compose B]"

definition docker_exec_env :: "db_params \<Rightarrow> string list" where
  "docker_exec_env c =
     [''-e'', ''PGPASSWORD='' @ dbp_password c, ''-e'', ''PGUSER='' @ dbp_user c, ''-e'', ''PGHOST=localhost'', ''-e'', ''PGPORT=5432'',
      ''-e'', ''PGDATABASE='' @ dbp_name c]"

definition host_args :: "db_params \<Rightarrow> string list" where
  "host_args c = [''--host='' @ dbp_host c, ''--port='' @ dbp_port c, ''--username='' @ dbp_user c]"

definition sql_quote :: "string \<Rightarrow> string" where
  "sql_quote s = CHR 0x27 # s @ [CHR 0x27]"

definition pre_restore_sql :: string where
  "pre_restore_sql = ''CREATE EXTENSION IF NOT EXISTS timescaledb CASCADE; SELECT timescaledb_pre_restore();''"

definition table_args :: "string list \<Rightarrow> string list" where
  "table_args tables = concat (map (\<lambda>t. [''--table'', t]) tables)"

definition exec_in :: "backup_env \<Rightarrow> string list" where
  "exec_in B = compose_base_cmd B @ [''exec'', ''-T'']"

definition argv :: "backup_env \<Rightarrow> db_params \<Rightarrow> pg_command \<Rightarrow> string list" where
  "argv B c cmd =
     (case cmd of
        ComposePs s \<Rightarrow> compose_base_cmd B @ [''ps'', ''-q'', s]
      | Query OnHost sep db sql \<Rightarrow>
          [''psql''] @ host_args c @ [''--dbname'', db, ''--no-align'', ''--tuples-only'']
          @ (if sep then [''--field-separator=|''] else []) @ [''--command'', sql]
      | Query (InDb s) sep db sql \<Rightarrow>
          exec_in B @ [s, ''psql'', ''-U'', dbp_user c, ''-d'', db, ''--no-align'', ''--tuples-only'']
          @ (if sep then [''--field-separator=|''] else []) @ [''--command'', sql]
      | Script OnHost db sql \<Rightarrow>
          [''psql''] @ host_args c @ [''--dbname'', db, ''-v'', ''ON_ERROR_STOP=1'', ''--command'', sql]
      | Script (InDb s) db sql \<Rightarrow>
          exec_in B @ docker_exec_env c @ [s, ''psql'', ''-v'', ''ON_ERROR_STOP=1'', ''--command'', sql, db]
      | PreRestore s db \<Rightarrow>
          exec_in B @ docker_exec_env c @ [s, ''psql'', ''-v'', ''ON_ERROR_STOP=1'', ''-c'', pre_restore_sql, db]
      | DropDb OnHost db \<Rightarrow> [''dropdb''] @ host_args c @ [''--if-exists'', ''--force'', db]
      | DropDb (InDb s) db \<Rightarrow> exec_in B @ docker_exec_env c @ [s, ''dropdb'', ''--if-exists'', ''--force'', db]
      | CreateDb OnHost db \<Rightarrow> [''createdb''] @ host_args c @ [''-O'', dbp_user c, db]
      | CreateDb (InDb s) db \<Rightarrow> exec_in B @ docker_exec_env c @ [s, ''createdb'', ''-O'', dbp_user c, db]
      | CreateTarget s db \<Rightarrow> exec_in B @ [s, ''createdb'', ''-U'', dbp_user c, ''-O'', dbp_user c, db]
      | PgDump OnHost path tables db \<Rightarrow>
          [''pg_dump''] @ host_args c @ [''--format=custom'', ''--blobs'', ''--file='' @ path] @ table_args tables @ [db]
      | PgDump (InDb s) path tables db \<Rightarrow>
          exec_in B @ docker_exec_env c @ [s, ''pg_dump'', ''--format=custom'', ''--blobs''] @ table_args tables @ [db]
      | CopyIn src container dst \<Rightarrow> [''docker'', ''cp'', src, container @ '':'' @ dst]
      | DatabaseExists s db \<Rightarrow>
          exec_in B @ [s, ''psql'', ''-U'', dbp_user c, ''-d'', ''postgres'', ''-tAc'', ''SELECT 1 FROM pg_database WHERE datname = '' @ sql_quote db]
      | RestoreList OnHost path \<Rightarrow> [''pg_restore'', ''--list'', path]
      | RestoreList (InDb s) path \<Rightarrow> exec_in B @ [s, ''pg_restore'', ''--list'', path]
      | PgRestore OnHost toc db path \<Rightarrow>
          [''pg_restore''] @ host_args c @ [''--dbname'', db, ''--verbose'', ''--clean'', ''--if-exists'', ''--no-owner'', ''--no-privileges'',
            ''--use-list'', toc, path]
      | PgRestore (InDb s) toc db path \<Rightarrow>
          exec_in B @ docker_exec_env c @ [s, ''pg_restore'', ''--verbose'', ''--clean'', ''--if-exists'', ''--no-owner'', ''--no-privileges'',
            ''--use-list'', toc, ''--dbname'', db, path]
      | RemoveIn s path \<Rightarrow> exec_in B @ [s, ''rm'', ''-f'', path]
      | WalgVersion \<Rightarrow> [''wal-g'', ''version''])"

text \<open>\<open>_detect_docker_db_service\<close>: the first candidate with a running container.\<close>

fun first_running :: "backup_env \<Rightarrow> db_params \<Rightarrow> string list \<Rightarrow> string option shell" where
  "first_running B c [] = sh_return None"
| "first_running B c (s # ss) =
     (if s = [] then first_running B c ss
      else sh_bind (run_any B c (ComposePs s)) (\<lambda>(ok, out). if ok \<and> py_strip out \<noteq> [] then sh_return (Some s) else first_running B c ss))"

definition detect_service :: "backup_env \<Rightarrow> db_params \<Rightarrow> string option shell" where
  "detect_service B c =
     sh_try (first_running B c (case be_preferred B of Some (x # xs) \<Rightarrow> [x # xs] | _ \<Rightarrow> [''timescaledb'', ''postgres'']))
       (\<lambda>e. case e of NotFound _ \<Rightarrow> sh_return None | _ \<Rightarrow> sh_raise e)"

text \<open>\<open>str.splitlines\<close>.\<close>

definition line_break :: "char \<Rightarrow> bool" where
  "line_break c = (c \<in> {CHR 10, CHR 11, CHR 12, CHR 13, CHR 28, CHR 29, CHR 30, CHR 133})"

definition skip_feed :: "char \<Rightarrow> string \<Rightarrow> string" where
  "skip_feed c cs = (case cs of d # ds \<Rightarrow> if c = CHR 13 \<and> d = CHR 10 then ds else cs | [] \<Rightarrow> [])"

lemma skip_feed_length: "length (skip_feed c cs) \<le> length cs"
  by (auto simp: skip_feed_def split: list.split)

function splitlines :: "string \<Rightarrow> string list" where
  "splitlines [] = []"
| "splitlines (c # cs) =
     (if line_break c then [] # splitlines (skip_feed c cs)
      else (case splitlines cs of [] \<Rightarrow> [[c]] | l # ls \<Rightarrow> (c # l) # ls))"
  by pat_completeness auto
termination by (relation "measure length") (auto simp: less_Suc_eq_le skip_feed_length)

text \<open>\<open>_without_public_schema_entries\<close>.\<close>

definition without_public_schema :: "string \<Rightarrow> string" where
  "without_public_schema toc =
     join [CHR 10] (filter (\<lambda>l. \<not> contains l ''SCHEMA - public'' \<and> \<not> contains l ''ACL - public'') (splitlines toc)) @ [CHR 10]"

section \<open>Hypertables\<close>

definition snapshot_tables :: "string list" where
  "snapshot_tables = [''industrial_events'', ''processed_events'', ''ai_enriched'', ''dead_letter_events'']"

definition time_columns :: "(string \<times> string) list" where
  "time_columns = map (\<lambda>t. (t, ''time'')) snapshot_tables"

definition hypertable_sql :: "string \<Rightarrow> string \<Rightarrow> string" where
  "hypertable_sql table column =
     ''SELECT create_hypertable('' @ sql_quote table @ '', '' @ sql_quote column @ '', if_not_exists => TRUE, migrate_data => TRUE)''"

definition timescale_restore_sql :: "string list option \<Rightarrow> string" where
  "timescale_restore_sql tables =
     join ''; ''
       ([''CREATE EXTENSION IF NOT EXISTS timescaledb CASCADE'', ''SELECT timescaledb_post_restore()'']
        @ concat (map (\<lambda>t. case map_of time_columns t of None \<Rightarrow> [] | Some c \<Rightarrow> [hypertable_sql t c])
            (case tables of None \<Rightarrow> snapshot_tables | Some ts \<Rightarrow> ts)))"

definition hypertable_query :: string where
  "hypertable_query =
     ''SELECT hypertable_name FROM timescaledb_information.hypertables '' @ ''WHERE hypertable_schema = '' @ sql_quote ''public''
     @ '' AND hypertable_name = ANY(ARRAY['' @ join '','' (map sql_quote snapshot_tables) @ '']) '' @ ''ORDER BY hypertable_name''"

text \<open>The names a query prints, and the answer of \<open>_list_hypertables\<close>.\<close>

definition listed_names :: "string \<Rightarrow> string list" where
  "listed_names out = filter (\<lambda>l. l \<noteq> []) (map py_strip (splitlines out))"

definition missing_hypertables :: "string list \<Rightarrow> string list" where
  "missing_hypertables names = filter (\<lambda>t. t \<notin> set names) (map fst time_columns)"

definition texts_value :: "string list \<Rightarrow> pyval" where
  "texts_value xs = PList (map PStr xs)"

definition hypertable_result :: "string \<Rightarrow> string list \<Rightarrow> string \<Rightarrow> pydict" where
  "hypertable_result db names transport =
     [(''status'', PStr ''success''), (''database'', PStr db), (''hypertables'', texts_value names),
      (''expected_hypertables'', texts_value (map fst time_columns)), (''missing_hypertables'', texts_value (missing_hypertables names)),
      (''hypertable_count'', PInt (int (length names))),
      (''matched'', PBool (missing_hypertables names = [] \<and> length names = length time_columns)), (''transport'', PStr transport)]"

definition docker_transport :: "string \<Rightarrow> string" where
  "docker_transport s = ''docker:'' @ s"

definition no_service :: "string \<Rightarrow> pydict" where
  "no_service tool = sh_error (PStr (tool @ '' not found on host and no running Docker database service detected.''))"

definition docker_failed :: "string \<Rightarrow> pyval \<Rightarrow> pydict" where
  "docker_failed s e = sh_error e @ [(''transport'', PStr (docker_transport s))]"

definition exit_error :: "backup_env \<Rightarrow> db_params \<Rightarrow> pg_command \<Rightarrow> shell_exc \<Rightarrow> pydict" where
  "exit_error B c cmd e = sh_error (stderr_of e) @ [(''command'', PStr (join '' '' (argv B c cmd)))]"

text \<open>The shape of every call: the tool on the host, and when it is not found the container of a running service, where
  every failure is an answer.\<close>

definition in_container :: "backup_env \<Rightarrow> db_params \<Rightarrow> pydict \<Rightarrow> (string \<Rightarrow> pydict shell) \<Rightarrow> pydict shell" where
  "in_container B c none body =
     sh_bind (detect_service B c) (\<lambda>s. case s of
        None \<Rightarrow> sh_return none
      | Some s \<Rightarrow> sh_try (body s) (\<lambda>e. sh_return (docker_failed s (PStr (exc_text e)))))"

definition list_hypertables :: "backup_env \<Rightarrow> string \<Rightarrow> db_params \<Rightarrow> pydict shell" where
  "list_hypertables B db c =
     sh_try
       (sh_bind (run_check B c (Query OnHost False db hypertable_query)) (\<lambda>out.
          sh_return (hypertable_result db (listed_names out) ''psql'')))
       (\<lambda>e. case e of
          NotFound _ \<Rightarrow>
            in_container B c (no_service ''psql'') (\<lambda>s.
              sh_bind (run_check B c (Query (InDb s) False db hypertable_query)) (\<lambda>out.
                sh_return (hypertable_result db (listed_names out) (docker_transport s))))
        | ProcError _ _ \<Rightarrow> sh_return (exit_error B c (Query OnHost False db hypertable_query) e))"

definition value_texts :: "pyval \<Rightarrow> string list" where
  "value_texts v = (case v of PList xs \<Rightarrow> concat (map (\<lambda>x. case x of PStr s \<Rightarrow> [s] | _ \<Rightarrow> []) xs) | _ \<Rightarrow> [])"

definition repair_sql :: "string list \<Rightarrow> string" where
  "repair_sql missing =
     join ''; '' (concat (map (\<lambda>t. case map_of time_columns t of None \<Rightarrow> [] | Some c \<Rightarrow> [hypertable_sql t c]) missing))"

definition verification_failed :: "pydict \<Rightarrow> (string \<times> pyval) list \<Rightarrow> string \<Rightarrow> pydict" where
  "verification_failed snapshot extra transport =
     sh_error (dict_getd snapshot ''error'' (PStr ''hypertable verification failed'')) @ extra @ [(''transport'', PStr transport)]"

text \<open>\<open>_run_timescale_restore_bootstrap\<close>: the same steps in both places.\<close>

definition bootstrap_ok :: "string \<Rightarrow> string \<Rightarrow> pydict \<Rightarrow> pydict \<Rightarrow> string \<Rightarrow> pydict" where
  "bootstrap_ok db out repair snapshot transport =
     [(''status'', PStr ''success''), (''database'', PStr db), (''bootstrap_output'', PStr out), (''repair'', PDict repair),
      (''hypertables'', PDict snapshot), (''hypertables_verified'', PBool (truthy (pget snapshot ''matched''))), (''transport'', PStr transport)]"

definition bootstrap_repair :: "backup_env \<Rightarrow> string \<Rightarrow> db_params \<Rightarrow> place \<Rightarrow> string \<Rightarrow> string \<Rightarrow> string list \<Rightarrow> pydict shell" where
  "bootstrap_repair B db c pl transport out missing =
     sh_bind (run_check B c (Script pl db (repair_sql missing))) (\<lambda>repaired.
       let repair = [(''status'', PStr ''success''), (''database'', PStr db), (''output'', PStr repaired),
                     (''missing_hypertables'', texts_value missing), (''transport'', PStr transport)] in
       sh_bind (list_hypertables B db c) (\<lambda>snapshot.
         if \<not> ran_well snapshot
         then sh_return (verification_failed snapshot [(''bootstrap_output'', PStr out), (''repair'', PDict repair)] transport)
         else sh_return (bootstrap_ok db out repair snapshot transport)))"

definition bootstrap_check :: "backup_env \<Rightarrow> string \<Rightarrow> db_params \<Rightarrow> place \<Rightarrow> string \<Rightarrow> string \<Rightarrow> pydict shell" where
  "bootstrap_check B db c pl transport out =
     sh_bind (list_hypertables B db c) (\<lambda>snapshot.
       if \<not> ran_well snapshot then sh_return (verification_failed snapshot [(''bootstrap_output'', PStr out)] transport)
       else
         (let missing = value_texts (pget snapshot ''missing_hypertables'');
              skipped = [(''status'', PStr ''skipped''), (''missing_hypertables'', texts_value missing)] in
          if missing = [] \<or> repair_sql missing = [] then sh_return (bootstrap_ok db out skipped snapshot transport)
          else bootstrap_repair B db c pl transport out missing))"

definition bootstrap_in :: "backup_env \<Rightarrow> string \<Rightarrow> db_params \<Rightarrow> place \<Rightarrow> string \<Rightarrow> pydict shell" where
  "bootstrap_in B db c pl transport =
     sh_bind (run_check B c (Script pl db (timescale_restore_sql (Some [])))) (bootstrap_check B db c pl transport)"

definition restore_bootstrap :: "backup_env \<Rightarrow> string \<Rightarrow> db_params \<Rightarrow> pydict shell" where
  "restore_bootstrap B db c =
     sh_try (bootstrap_in B db c OnHost ''psql'')
       (\<lambda>e. case e of
          NotFound _ \<Rightarrow> in_container B c (no_service ''psql'') (\<lambda>s. bootstrap_in B db c (InDb s) (docker_transport s))
        | ProcError _ _ \<Rightarrow> sh_raise e)"

section \<open>Reset, backup and restore\<close>

definition refusal :: "string \<Rightarrow> pydict" where
  "refusal db = sh_error (PStr (''refusing to reset live source database '' @ sql_quote db))"

definition reset_ok :: "string \<Rightarrow> string \<Rightarrow> pydict" where
  "reset_ok db transport = [(''status'', PStr ''success''), (''database'', PStr db), (''transport'', PStr transport)]"

definition recreate :: "backup_env \<Rightarrow> db_params \<Rightarrow> place \<Rightarrow> string \<Rightarrow> string \<Rightarrow> pydict shell" where
  "recreate B c pl db transport =
     sh_bind (run_check B c (DropDb pl db)) (\<lambda>_. sh_bind (run_check B c (CreateDb pl db)) (\<lambda>_. sh_return (reset_ok db transport)))"

definition reset_database :: "backup_env \<Rightarrow> string \<Rightarrow> db_params \<Rightarrow> pydict shell" where
  "reset_database B db c =
     (if db = dbp_name (be_params B) then sh_return (refusal db)
      else
        sh_try (recreate B c OnHost db ''psql'')
          (\<lambda>e. case e of
             NotFound _ \<Rightarrow> in_container B c (no_service ''dropdb/createdb'') (\<lambda>s. recreate B c (InDb s) db (docker_transport s))
           | ProcError _ _ \<Rightarrow> sh_return (exit_error B c (DropDb OnHost db) e)))"

text \<open>\<open>filepath.stem.removeprefix(...)\<close> of the file name \<open>create_backup\<close> builds is the time stamp.\<close>

definition backup_name :: "string \<Rightarrow> string" where
  "backup_name stamp = ''historian_backup_'' @ stamp @ ''.sql''"

definition backup_ok :: "string \<Rightarrow> string \<Rightarrow> string \<Rightarrow> string list option \<Rightarrow> int \<Rightarrow> pydict" where
  "backup_ok path name stamp tables bytes =
     [(''status'', PStr ''success''), (''path'', PStr path), (''filename'', PStr name), (''timestamp'', PStr stamp),
      (''tables'', texts_value (case tables of Some (x # xs) \<Rightarrow> x # xs | _ \<Rightarrow> [''all''])), (''size_bytes'', PInt bytes)]"

definition chosen_tables :: "string list option \<Rightarrow> string list" where
  "chosen_tables tables = (case tables of None \<Rightarrow> [] | Some ts \<Rightarrow> ts)"

definition dump_size :: "backup_env \<Rightarrow> string \<Rightarrow> int shell" where
  "dump_size B path = sh_ask (\<lambda>t. if be_exists B t path then be_bytes B t path else 0)"

text \<open>The fallback of a backup: only a failed dump is an answer, a missing docker leaves it as an exception.\<close>

definition create_backup_via_docker :: "backup_env \<Rightarrow> string \<Rightarrow> string \<Rightarrow> db_params \<Rightarrow> string list option \<Rightarrow> pydict shell" where
  "create_backup_via_docker B path stamp c tables =
     sh_bind (detect_service B c) (\<lambda>s. case s of
        None \<Rightarrow> sh_return (sh_error (PStr ''pg_dump not found and no running docker database service detected.''))
      | Some s \<Rightarrow>
          sh_try
            (sh_bind (run_check B c (PgDump (InDb s) path (chosen_tables tables) (dbp_name c))) (\<lambda>_.
             sh_bind (dump_size B path) (\<lambda>bytes.
               sh_return (backup_ok path (backup_name stamp) stamp tables bytes @ [(''transport'', PStr (docker_transport s))]))))
            (\<lambda>e. case e of
               ProcError _ _ \<Rightarrow> sh_return (docker_failed s (stderr_of e))
             | NotFound _ \<Rightarrow> sh_raise e))"

text \<open>The directory of the backups, by default one beside the sources.\<close>

definition backup_dir :: "backup_env \<Rightarrow> string option \<Rightarrow> string" where
  "backup_dir B dir = (case dir of None \<Rightarrow> be_home B | Some d \<Rightarrow> d)"

definition create_backup :: "backup_env \<Rightarrow> string option \<Rightarrow> string list option \<Rightarrow> pydict shell" where
  "create_backup B dir tables =
     sh_bind (sh_ask (be_stamp B)) (\<lambda>stamp.
       let c = be_params B;
           path = path_str (path_div (path_of (backup_dir B dir)) (backup_name stamp));
           cmd = PgDump OnHost path (chosen_tables tables) (dbp_name c) in
       sh_try
         (sh_bind (run_check B c cmd) (\<lambda>_. sh_bind (dump_size B path) (\<lambda>bytes.
            sh_return (backup_ok path (backup_name stamp) stamp tables bytes))))
         (\<lambda>e. case e of
            ProcError _ _ \<Rightarrow> sh_return (exit_error B c cmd e)
          | NotFound _ \<Rightarrow> create_backup_via_docker B path stamp c tables))"

text \<open>The list of entries that is written beside a restore, and its removal.\<close>

definition write_toc :: "backup_env \<Rightarrow> string \<Rightarrow> string shell" where
  "write_toc B toc = sh_bind (sh_ask (be_toc B)) (\<lambda>p. sh_bind (sh_emit (TocWritten p (without_public_schema toc))) (\<lambda>_. sh_return p))"

definition remove_toc :: "string \<Rightarrow> unit shell" where
  "remove_toc p = sh_emit (TocRemoved p)"

definition file_name :: "string \<Rightarrow> string" where
  "file_name path = (if snd (path_of path) = [] then [] else last (snd (path_of path)))"

definition restore_ok :: "db_params \<Rightarrow> string \<Rightarrow> string \<Rightarrow> pydict \<Rightarrow> pydict \<Rightarrow> pydict" where
  "restore_ok c path out boot snapshot =
     [(''status'', PStr ''success''), (''database'', PStr (dbp_name c)), (''backup_path'', PStr path), (''output'', PStr out),
      (''bootstrap'', PDict boot), (''hypertables'', PDict snapshot), (''hypertables_verified'', PBool (truthy (pget snapshot ''matched'')))]"

definition docker_prepare :: "backup_env \<Rightarrow> string \<Rightarrow> db_params \<Rightarrow> string \<Rightarrow> string \<Rightarrow> string shell" where
  "docker_prepare B path c s container =
     (let db = dbp_name c in
      sh_bind (run_check B c (CopyIn path container (''/tmp/'' @ file_name path))) (\<lambda>_.
      sh_bind (run_check B c (DatabaseExists s db)) (\<lambda>found.
      sh_bind (if py_strip found \<noteq> ''1'' then run_check B c (CreateTarget s db) else sh_return []) (\<lambda>_.
        run_check B c (PreRestore s db)))))"

definition docker_finish :: "backup_env \<Rightarrow> string \<Rightarrow> db_params \<Rightarrow> string \<Rightarrow> string \<Rightarrow> string \<Rightarrow> pydict shell" where
  "docker_finish B path c s p out =
     (let db = dbp_name c in
      sh_bind (restore_bootstrap B db c) (\<lambda>boot.
        if \<not> ran_well boot
        then sh_return (docker_failed s (dict_getd boot ''error'' (PStr ''timescale restore bootstrap failed'')))
        else sh_bind (list_hypertables B db c) (\<lambda>snapshot.
          if \<not> ran_well snapshot
          then sh_return (docker_failed s (dict_getd snapshot ''error'' (PStr ''hypertable verification failed'')))
          else
            sh_bind (run_any B c (RemoveIn s (''/tmp/'' @ file_name path))) (\<lambda>_.
            sh_bind (remove_toc p) (\<lambda>_.
            sh_bind (run_any B c (RemoveIn s (''/tmp/'' @ file_name p))) (\<lambda>_.
              sh_return (restore_ok c path out boot snapshot @ [(''transport'', PStr (docker_transport s))])))))))"

definition docker_load :: "backup_env \<Rightarrow> string \<Rightarrow> db_params \<Rightarrow> string \<Rightarrow> string \<Rightarrow> pydict shell" where
  "docker_load B path c s container =
     (let inside = ''/tmp/'' @ file_name path in
      sh_bind (run_check B c (RestoreList (InDb s) inside)) (\<lambda>toc.
      sh_bind (write_toc B toc) (\<lambda>p.
      sh_bind (run_check B c (CopyIn p container (''/tmp/'' @ file_name p))) (\<lambda>_.
      sh_bind (run_check B c (PgRestore (InDb s) (''/tmp/'' @ file_name p) (dbp_name c) inside)) (\<lambda>out.
        docker_finish B path c s p out)))))"

definition docker_restore_steps :: "backup_env \<Rightarrow> string \<Rightarrow> db_params \<Rightarrow> string \<Rightarrow> pydict shell" where
  "docker_restore_steps B path c s =
     sh_bind (run_check B c (ComposePs s)) (\<lambda>ids.
       if py_strip ids = []
       then sh_return (sh_error (PStr (''Docker database service '' @ sql_quote s @ '' is not running.'')))
       else sh_bind (docker_prepare B path c s (py_strip ids)) (\<lambda>_. docker_load B path c s (py_strip ids)))"

definition restore_backup_via_docker :: "backup_env \<Rightarrow> string \<Rightarrow> db_params \<Rightarrow> pydict shell" where
  "restore_backup_via_docker B path c =
     sh_bind (detect_service B c) (\<lambda>s. case s of
        None \<Rightarrow> sh_return (sh_error (PStr ''pg_restore not found and no running docker database service detected.''))
      | Some s \<Rightarrow>
          sh_try (docker_restore_steps B path c s)
            (\<lambda>e. case e of
               ProcError _ _ \<Rightarrow> sh_return (docker_failed s (stderr_of e))
             | NotFound _ \<Rightarrow> sh_return (sh_error (PStr ''docker not found. Install Docker Desktop or PostgreSQL client tools.''))))"

text \<open>The steps of a restore on the host after its list file was written, and what an exception gives.\<close>

definition host_finish :: "backup_env \<Rightarrow> string \<Rightarrow> db_params \<Rightarrow> string \<Rightarrow> pydict shell" where
  "host_finish B path c out =
     (let db = dbp_name c in
      sh_bind (restore_bootstrap B db c) (\<lambda>boot.
        if \<not> ran_well boot
        then sh_return (sh_error (dict_getd boot ''error'' (PStr ''timescale restore bootstrap failed''))
               @ [(''restore_output'', PStr out), (''bootstrap'', PDict boot)])
        else sh_bind (list_hypertables B db c) (\<lambda>snapshot.
          if \<not> ran_well snapshot
          then sh_return (sh_error (dict_getd snapshot ''error'' (PStr ''hypertable verification failed''))
                 @ [(''restore_output'', PStr out), (''bootstrap'', PDict boot), (''hypertables'', PDict snapshot)])
          else sh_return (restore_ok c path out boot snapshot))))"

definition host_restore_steps :: "backup_env \<Rightarrow> string \<Rightarrow> db_params \<Rightarrow> string \<Rightarrow> pydict shell" where
  "host_restore_steps B path c p = sh_bind (run_check B c (PgRestore OnHost p (dbp_name c) path)) (host_finish B path c)"

definition restore_excepted :: "backup_env \<Rightarrow> string \<Rightarrow> db_params \<Rightarrow> shell_exc \<Rightarrow> pydict shell" where
  "restore_excepted B path c e =
     (case e of ProcError _ _ \<Rightarrow> sh_return (sh_error (stderr_of e)) | NotFound _ \<Rightarrow> restore_backup_via_docker B path c)"

definition attempt :: "'a shell \<Rightarrow> (shell_exc + 'a) shell" where
  "attempt m t = (case m t of (r, t') \<Rightarrow> (Inr r, t'))"

definition restore_backup :: "backup_env \<Rightarrow> string \<Rightarrow> string option \<Rightarrow> pydict shell" where
  "restore_backup B backup_path target =
     sh_bind (sh_ask (\<lambda>t. be_exists B t (path_str (path_of backup_path)))) (\<lambda>found.
       let path = path_str (path_of backup_path);
           c = (case target of Some (x # xs) \<Rightarrow> (be_params B)\<lparr>dbp_name := x # xs\<rparr> | _ \<Rightarrow> be_params B) in
       if \<not> found then sh_return (sh_error (PStr (''Backup file not found: '' @ backup_path)))
       else sh_bind (attempt (run_check B c (RestoreList OnHost path))) (\<lambda>r. case r of
          Inl e \<Rightarrow> restore_excepted B path c e
        | Inr toc \<Rightarrow> sh_bind (write_toc B toc) (\<lambda>p.
            sh_finally (sh_try (host_restore_steps B path c p) (restore_excepted B path c)) (remove_toc p))))"

section \<open>Listings and snapshots\<close>

definition round_digits :: "nat \<Rightarrow> rat \<Rightarrow> rat" where
  "round_digits digits x = rat_of_int (round_half_even (x * 10 ^ digits)) / 10 ^ digits"

text \<open>\<open>list_backups\<close>: the files of the directory that match, the newest name first.\<close>

definition is_backup_name :: "string \<Rightarrow> bool" where
  "is_backup_name n = (starts_with n ''historian_backup_'' \<and> ends_with n ''.sql'' \<and> length ''historian_backup_.sql'' \<le> length n)"

definition backup_entry :: "string \<Rightarrow> string \<times> int \<times> string \<Rightarrow> pydict" where
  "backup_entry dir f =
     [(''filename'', PStr (fst f)), (''path'', PStr (path_str (path_div (path_of dir) (fst f)))), (''size_bytes'', PInt (fst (snd f))),
      (''size_mb'', PFloat (round_digits 2 (of_int (fst (snd f)) / (1024 * 1024)))), (''created'', PStr (snd (snd f)))]"

definition list_backups :: "backup_env \<Rightarrow> string option \<Rightarrow> pydict list shell" where
  "list_backups B dir =
     sh_ask (\<lambda>t. case be_listing B t (backup_dir B dir) of
       None \<Rightarrow> []
     | Some files \<Rightarrow> map (backup_entry (backup_dir B dir)) (rev (sort_key fst (filter (\<lambda>f. is_backup_name (fst f)) files))))"

definition walg_status :: "backup_env \<Rightarrow> pydict shell" where
  "walg_status B =
     sh_bind (sh_try (sh_bind (run_any B (be_params B) WalgVersion) (\<lambda>(ok, out). sh_return ok))
               (\<lambda>e. case e of NotFound _ \<Rightarrow> sh_return False | _ \<Rightarrow> sh_raise e)) (\<lambda>installed.
       sh_return
         [(''installed'', PBool installed), (''recommended_for'', PStr ''Production continuous archiving''),
          (''documentation'', PStr ''https://github.com/wal-g/wal-g''), (''installation'', PStr ''See docs/open-source-research.md'')])"

definition count_query :: "string list \<Rightarrow> string" where
  "count_query tables =
     join ''; '' (map (\<lambda>t. ''SELECT '' @ sql_quote t @ '' AS table_name, COUNT(*)::bigint AS row_count FROM '' @ t) tables)"

text \<open>The counts of a snapshot: lines of a name and a number; a number that does not parse counts as zero.\<close>

definition count_line :: "(string \<times> int) list \<Rightarrow> string \<Rightarrow> (string \<times> int) list" where
  "count_line counts line =
     (case map py_strip (split_on (CHR ''|'') line) of
        [n, v] \<Rightarrow> if n = [] then counts else dict_set counts n (case int_of_text v of Some i \<Rightarrow> i | None \<Rightarrow> 0)
      | _ \<Rightarrow> counts)"

definition parse_counts :: "string \<Rightarrow> (string \<times> int) list" where
  "parse_counts out = foldl count_line [] (splitlines out)"

definition snapshot_result :: "string \<Rightarrow> (string \<times> int) list \<Rightarrow> string \<Rightarrow> pydict" where
  "snapshot_result db counts transport =
     [(''status'', PStr ''success''), (''database'', PStr db), (''tables'', PDict (map (\<lambda>(t, n). (t, PInt n)) counts)),
      (''table_count'', PInt (int (length counts))), (''row_count_total'', PInt (sum_list (map snd counts))), (''transport'', PStr transport)]"

definition snapshot_via_docker :: "backup_env \<Rightarrow> string list \<Rightarrow> db_params \<Rightarrow> pydict shell" where
  "snapshot_via_docker B tables c =
     in_container B c (no_service ''psql'') (\<lambda>s.
       sh_bind (run_check B c (Query (InDb s) True (dbp_name c) (count_query tables))) (\<lambda>out.
         sh_return (snapshot_result (dbp_name c) (parse_counts out) (docker_transport s))))"

definition collect_snapshot :: "backup_env \<Rightarrow> string list \<Rightarrow> string option \<Rightarrow> pydict shell" where
  "collect_snapshot B names database =
     (let tables = (if names = [] then snapshot_tables else names);
          c = (case database of Some (x # xs) \<Rightarrow> (be_params B)\<lparr>dbp_name := x # xs\<rparr> | _ \<Rightarrow> be_params B);
          cmd = Query OnHost True (dbp_name c) (count_query tables) in
      sh_try
        (sh_bind (run_check B c cmd) (\<lambda>out. sh_return (snapshot_result (dbp_name c) (parse_counts out) ''psql'')))
        (\<lambda>e. case e of NotFound _ \<Rightarrow> snapshot_via_docker B tables c | ProcError _ _ \<Rightarrow> sh_return (exit_error B c cmd e)))"

text \<open>\<open>compare_historian_snapshots\<close> of two snapshots of \<open>collect_historian_snapshot\<close>, which are dictionaries with integer
  counts; a table that only one of them has counts as empty in the other.\<close>

definition counts_of :: "pydict \<Rightarrow> pydict" where
  "counts_of d = (case dict_getd d ''tables'' (PDict []) of PDict t \<Rightarrow> t | _ \<Rightarrow> [])"

definition count_in :: "pydict \<Rightarrow> string \<Rightarrow> int" where
  "count_in d t = (case dict_getd (counts_of d) t (PInt 0) of PInt i \<Rightarrow> i | _ \<Rightarrow> 0)"

definition all_tables :: "pydict \<Rightarrow> pydict \<Rightarrow> string list" where
  "all_tables before after = sort (remdups (map fst (counts_of before) @ map fst (counts_of after)))"

definition count_diffs :: "pydict \<Rightarrow> pydict \<Rightarrow> pydict" where
  "count_diffs before after =
     concat (map (\<lambda>t. if count_in before t = count_in after t then []
                      else [(t, PDict [(''before'', PInt (count_in before t)), (''after'', PInt (count_in after t)),
                                       (''delta'', PInt (count_in after t - count_in before t))])]) (all_tables before after))"

definition compare_snapshots :: "pydict \<Rightarrow> pydict \<Rightarrow> pydict" where
  "compare_snapshots before after =
     [(''matched'', PBool (count_diffs before after = [] \<and> ran_well before \<and> ran_well after)), (''before'', PDict before),
      (''after'', PDict after), (''diffs'', PDict (count_diffs before after)), (''table_count'', PInt (int (length (all_tables before after))))]"

section \<open>Routes and the drill\<close>

text \<open>An HTTP answer: a code with its detail, or the body.\<close>

definition backup_answer :: "string \<Rightarrow> pydict \<Rightarrow> int \<times> pyval" where
  "backup_answer fallback r =
     (if pget r ''status'' = PStr ''error'' then (500, dict_getd r ''error'' (PStr fallback)) else (200, PDict r))"

definition backup_historian :: "backup_env \<Rightarrow> string option \<Rightarrow> string list option \<Rightarrow> (int \<times> pyval) shell" where
  "backup_historian B dir tables =
     sh_bind (create_backup B dir tables) (\<lambda>r. sh_return (backup_answer ''Backup failed'' r))"

definition restore_historian :: "backup_env \<Rightarrow> string \<Rightarrow> string option \<Rightarrow> (int \<times> pyval) shell" where
  "restore_historian B path target = sh_bind (restore_backup B path target) (\<lambda>r. sh_return (backup_answer ''Restore failed'' r))"

definition elapsed_since :: "backup_env \<Rightarrow> rat \<Rightarrow> rat shell" where
  "elapsed_since B start = sh_ask (\<lambda>t. round_digits 4 (be_clock B t - start))"

definition drill_start :: "pydict \<Rightarrow> pydict \<Rightarrow> rat \<Rightarrow> pydict list \<Rightarrow> pydict \<Rightarrow> pydict \<Rightarrow> pydict" where
  "drill_start before backup elapsed files walg policy =
     [(''before_snapshot'', PDict before), (''backup'', PDict backup), (''backup_elapsed_seconds'', PFloat elapsed),
      (''restore_reset'', PNone), (''restore'', PNone), (''backups'', PList (map PDict files)), (''wal_g'', PDict walg),
      (''after_snapshot'', PNone), (''snapshot_comparison'', PNone), (''restore_elapsed_seconds'', PNone),
      (''total_elapsed_seconds'', PNone), (''backup_policy'', PDict policy)]"

definition drill_end :: "backup_env \<Rightarrow> rat \<Rightarrow> pydict \<Rightarrow> pydict shell" where
  "drill_end B start result =
     sh_bind (elapsed_since B start) (\<lambda>s. sh_return (dict_set result ''total_elapsed_seconds'' (PFloat s)))"

definition drill_restore :: "backup_env \<Rightarrow> rat \<Rightarrow> pydict \<Rightarrow> pydict \<Rightarrow> string \<Rightarrow> string \<Rightarrow> pydict shell" where
  "drill_restore B start before result path db =
     sh_bind (reset_database B db (be_params B)) (\<lambda>reset.
       let result = dict_set result ''restore_reset'' (PDict reset) in
       if \<not> ran_well reset
       then drill_end B start (dict_set (dict_set result ''restore'' (PDict reset)) ''restore_elapsed_seconds'' (PFloat 0))
       else
         sh_bind (sh_ask (be_clock B)) (\<lambda>began.
         sh_bind (restore_backup B path (Some db)) (\<lambda>restored.
         sh_bind (elapsed_since B began) (\<lambda>s.
           let result = dict_set (dict_set result ''restore'' (PDict restored)) ''restore_elapsed_seconds'' (PFloat s) in
           if \<not> ran_well restored then drill_end B start result
           else sh_bind (collect_snapshot B [] (Some db)) (\<lambda>after.
             drill_end B start
               (dict_set (dict_set (dict_set result ''hypertable_comparison'' (pget restored ''hypertables''))
                   ''after_snapshot'' (PDict after)) ''snapshot_comparison'' (PDict (compare_snapshots before after))))))))"

definition run_backup_drill ::
    "backup_env \<Rightarrow> string option \<Rightarrow> string list option \<Rightarrow> string option \<Rightarrow> pydict \<Rightarrow> pydict shell" where
  "run_backup_drill B dir tables restore_db policy =
     sh_bind (sh_ask (be_clock B)) (\<lambda>start.
     sh_bind (collect_snapshot B [] None) (\<lambda>before.
     sh_bind (sh_ask (be_clock B)) (\<lambda>began.
     sh_bind (create_backup B dir tables) (\<lambda>backup.
     sh_bind (elapsed_since B began) (\<lambda>s.
     sh_bind (list_backups B dir) (\<lambda>files.
     sh_bind (walg_status B) (\<lambda>walg.
       let result = drill_start before backup s files walg policy in
       if \<not> ran_well backup then drill_end B start result
       else (case restore_db of
               Some (x # xs) \<Rightarrow> drill_restore B start before result (case pget backup ''path'' of PStr p \<Rightarrow> p | _ \<Rightarrow> []) (x # xs)
             | _ \<Rightarrow> drill_end B start result))))))))"

section \<open>The drill of the command line\<close>

text \<open>A comma-separated option; no name at all is no option.\<close>

definition parse_tables :: "string option \<Rightarrow> string list option" where
  "parse_tables v =
     (case v of
        Some (c # cs) \<Rightarrow>
          (let tables = filter (\<lambda>x. x \<noteq> []) (map py_strip (split_on (CHR '','') (c # cs))) in if tables = [] then None else Some tables)
      | _ \<Rightarrow> None)"

definition restore_threshold :: "string \<Rightarrow> rat" where
  "restore_threshold mode =
     (if mode = ''single-site'' then 30 else if mode = ''plant-local'' then 60 else if mode = ''federated'' then 120 else 45)"

text \<open>\<open>float(d.get(k) or 0.0)\<close>, \<open>d.get(k).get("status")\<close> and \<open>bool(d.get(k) and d[k].get(f))\<close> of a drill.\<close>

definition seconds_of :: "pydict \<Rightarrow> string \<Rightarrow> rat" where
  "seconds_of d k = (case pget d k of PFloat r \<Rightarrow> r | PInt i \<Rightarrow> of_int i | _ \<Rightarrow> 0)"

definition part_of :: "pydict \<Rightarrow> string \<Rightarrow> pydict" where
  "part_of d k = (case pget d k of PDict x \<Rightarrow> x | _ \<Rightarrow> [])"

definition part_flag :: "pydict \<Rightarrow> string \<Rightarrow> string \<Rightarrow> bool" where
  "part_flag d k f = truthy (pget (part_of d k) f)"

definition no_restore :: "pydict \<Rightarrow> bool" where
  "no_restore d = (pget d ''restore'' = PNone)"

definition optional_text :: "string option \<Rightarrow> pyval" where
  "optional_text v = (case v of None \<Rightarrow> PNone | Some s \<Rightarrow> PStr s)"

definition policy_value :: "backup_policy \<Rightarrow> pyval" where
  "policy_value b =
     PDict [(''schedule'', PStr (bkp_schedule b)), (''retention_days'', PInt (bkp_days b)), (''owner'', PStr (bkp_owner b)),
            (''restore_drill_owner'', PStr (bkp_drill_owner b)), (''restore_test_database'', optional_text (bkp_database b)),
            (''directory'', PStr (bkp_directory b))]"

definition or_option :: "string option \<Rightarrow> string option \<Rightarrow> string option" where
  "or_option a b = (case a of Some (c # cs) \<Rightarrow> a | _ \<Rightarrow> b)"

definition rpo_seconds :: "pydict \<Rightarrow> rat" where
  "rpo_seconds d = (if part_flag d ''snapshot_comparison'' ''matched'' then 0 else 1)"

definition drill_accepted :: "string \<Rightarrow> pydict \<Rightarrow> bool" where
  "drill_accepted mode d =
     (let restore_limit = restore_threshold mode; backup_limit = max (restore_limit / 2) 10;
          snapshot_match = part_flag d ''snapshot_comparison'' ''matched'';
          restore_rto = (\<not> no_restore d \<and> seconds_of d ''restore_elapsed_seconds'' \<le> restore_limit);
          rpo_passed = (snapshot_match \<and> rpo_seconds d \<le> 0) in
      ran_well (part_of d ''backup'') \<and> (no_restore d \<or> ran_well (part_of d ''restore'')) \<and> snapshot_match
      \<and> part_flag d ''restore'' ''hypertables_verified'' \<and> seconds_of d ''backup_elapsed_seconds'' \<le> backup_limit
      \<and> (no_restore d \<or> restore_rto) \<and> rpo_passed)"

definition drill_status :: "pydict \<Rightarrow> string \<Rightarrow> pyval" where
  "drill_status d fallback = dict_getd d ''status'' (PStr fallback)"

definition drill_row :: "string \<Rightarrow> site_profile \<Rightarrow> string option \<Rightarrow> string option \<Rightarrow> pydict \<Rightarrow> pydict" where
  "drill_row path p dir db d =
     (let mode = spf_deployment p; b = spf_backups p; restore_limit = restore_threshold mode in
      [(''site_profile'', PStr path), (''profile_id'', PStr (spf_id p)), (''site_id'', PStr (sit_id (spf_site p))),
       (''deployment_mode'', PStr mode), (''backup_dir'', optional_text dir), (''restore_db'', optional_text db),
       (''backup_owner'', PStr (bkp_owner b)), (''restore_drill_owner'', PStr (bkp_drill_owner b)),
       (''backup_schedule'', PStr (bkp_schedule b)), (''backup_retention_days'', PInt (bkp_days b)),
       (''backup_status'', drill_status (part_of d ''backup'') ''unknown''),
       (''restore_status'', if no_restore d then PStr ''skipped'' else drill_status (part_of d ''restore'') ''skipped''),
       (''backup_elapsed_seconds'', PFloat (seconds_of d ''backup_elapsed_seconds'')),
       (''restore_elapsed_seconds'', PFloat (seconds_of d ''restore_elapsed_seconds'')),
       (''total_elapsed_seconds'', dict_getd d ''total_elapsed_seconds'' (PFloat 0)),
       (''snapshot_match'', PBool (part_flag d ''snapshot_comparison'' ''matched'')),
       (''hypertable_match'', PBool (part_flag d ''restore'' ''hypertables_verified'')),
       (''backup_rto_threshold_seconds'', PFloat (max (restore_limit / 2) 10)), (''restore_rto_threshold_seconds'', PFloat restore_limit),
       (''rpo_threshold_seconds'', PFloat 0), (''rpo_seconds'', PFloat (rpo_seconds d)),
       (''backup_rto_passed'', PBool (seconds_of d ''backup_elapsed_seconds'' \<le> max (restore_limit / 2) 10)),
       (''restore_rto_passed'', PBool (\<not> no_restore d \<and> seconds_of d ''restore_elapsed_seconds'' \<le> restore_limit)),
       (''rpo_passed'', PBool (part_flag d ''snapshot_comparison'' ''matched'')), (''accepted'', PBool (drill_accepted mode d)),
       (''details'', PDict d)])"

text \<open>\<open>_run_backup_drill_matrix\<close>: the rows; a profile that does not load ends the run.\<close>

fun drill_rows ::
    "backup_env \<Rightarrow> pyrt \<Rightarrow> (string \<Rightarrow> pyval option) \<Rightarrow> string option \<Rightarrow> string list option \<Rightarrow> string option \<Rightarrow> string list
      \<Rightarrow> (string + pydict list) shell" where
  "drill_rows B R files dir tables db [] = sh_return (Inr [])"
| "drill_rows B R files dir tables db (path # paths) =
     (case read_profile R files path of
        Inl e \<Rightarrow> sh_return (Inl e)
      | Inr p \<Rightarrow>
          (let dir' = or_option dir (Some (bkp_directory (spf_backups p))); db' = or_option db (bkp_database (spf_backups p)) in
           sh_bind (run_backup_drill B dir' tables db' []) (\<lambda>d.
             let row = drill_row path p dir' db' (dict_default d ''backup_policy'' (policy_value (spf_backups p))) in
             sh_bind (drill_rows B R files dir tables db paths) (\<lambda>rows. sh_return (map_sum id (\<lambda>rows. row # rows) rows)))))"

definition run_drill_matrix ::
    "backup_env \<Rightarrow> pyrt \<Rightarrow> (string \<Rightarrow> pyval option) \<Rightarrow> string option \<Rightarrow> string list option \<Rightarrow> string option \<Rightarrow> string list
      \<Rightarrow> (string + pydict) shell" where
  "run_drill_matrix B R files dir tables db paths =
     sh_bind (drill_rows B R files dir tables db paths) (\<lambda>rows. sh_return (map_sum id (\<lambda>rows.
       [(''site_profiles'', texts_value paths), (''runs'', PList (map PDict rows)),
        (''passed'', PBool (list_all (\<lambda>r. pget r ''accepted'' = PBool True) rows))]) rows))"

text \<open>The exit codes of \<open>backup-drill\<close> and \<open>backup-drill-matrix\<close>, and the two checks of a release gate.\<close>

definition drill_ok :: "pydict \<Rightarrow> bool" where
  "drill_ok d = (ran_well (part_of d ''backup'') \<and> (no_restore d \<or> ran_well (part_of d ''restore'')))"

definition cmd_backup_drill :: "backup_env \<Rightarrow> string option \<Rightarrow> string option \<Rightarrow> string option \<Rightarrow> (int \<times> pydict) shell" where
  "cmd_backup_drill B dir tables db =
     sh_bind (run_backup_drill B dir (parse_tables tables) db []) (\<lambda>d. sh_return (if drill_ok d then 0 else 2, d))"

definition cmd_drill_matrix ::
    "backup_env \<Rightarrow> pyrt \<Rightarrow> (string \<Rightarrow> pyval option) \<Rightarrow> string \<Rightarrow> string option \<Rightarrow> string option \<Rightarrow> string option
      \<Rightarrow> (string + int \<times> pydict) shell" where
  "cmd_drill_matrix B R files profiles dir tables db =
     (let paths = filter (\<lambda>x. x \<noteq> []) (map py_strip (split_on (CHR '','') profiles)) in
      if paths = [] then sh_return (Inl ''--site-profiles must contain at least one site profile path'')
      else sh_bind (run_drill_matrix B R files dir (parse_tables tables) db paths) (\<lambda>r.
        sh_return (map_sum id (\<lambda>d. (if pget d ''passed'' = PBool True then 0 else 2, d)) r)))"

definition gate_backup_checks :: "pydict \<Rightarrow> (string \<times> bool \<times> pyval) list" where
  "gate_backup_checks d =
     [(''backup drill'', ran_well (part_of d ''backup''), dict_getd (part_of d ''backup'') ''error'' (PStr ''ok'')),
      (''restore drill'', no_restore d \<or> ran_well (part_of d ''restore''),
       if no_restore d then PStr ''skipped'' else dict_getd (part_of d ''restore'') ''error'' (PStr ''ok''))]"

section \<open>What a call may do\<close>

text \<open>Every event a call adds has a property; the rules follow the shape of the call.\<close>

definition emits :: "(shell_event \<Rightarrow> bool) \<Rightarrow> 'a shell \<Rightarrow> bool" where
  "emits P m \<longleftrightarrow> (\<forall>t. \<exists>xs. snd (m t) = t @ xs \<and> (\<forall>e \<in> set xs. P e))"

named_theorems emitting

lemma emits_return [emitting]: "emits P (sh_return a)"
  by (simp add: emits_def sh_return_def)

lemma emits_raise [emitting]: "emits P (sh_raise e)"
  by (simp add: emits_def sh_raise_def)

lemma emits_ask [emitting]: "emits P (sh_ask f)"
  by (simp add: emits_def sh_ask_def)

lemma emits_emit [emitting]: "P e \<Longrightarrow> emits P (sh_emit e)"
  by (simp add: emits_def sh_emit_def)

lemma emitsI: "(\<And>t r t'. m t = (r, t') \<Longrightarrow> \<exists>xs. t' = t @ xs \<and> (\<forall>e \<in> set xs. P e)) \<Longrightarrow> emits P m"
  unfolding emits_def by (metis surjective_pairing)

lemma emitsD:
  assumes "emits P m" "m t = (r, t')"
  obtains xs where "t' = t @ xs" "\<forall>e \<in> set xs. P e"
  using assms unfolding emits_def by (metis snd_conv)

lemma emits_bind [emitting]:
  assumes "emits P m" "\<And>a. emits P (f a)"
  shows "emits P (sh_bind m f)"
proof (rule emitsI)
  fix t r t' assume b: "sh_bind m f t = (r, t')"
  obtain r1 t1 where m: "m t = (r1, t1)" by fastforce
  obtain xs where xs: "t1 = t @ xs" "\<forall>e \<in> set xs. P e" by (rule emitsD [OF assms(1) m])
  show "\<exists>xs. t' = t @ xs \<and> (\<forall>e \<in> set xs. P e)"
  proof (cases r1)
    case (Inl e)
    then show ?thesis using b m xs by (auto simp: sh_bind_def)
  next
    case (Inr a)
    then have "f a t1 = (r, t')" using b m by (simp add: sh_bind_def)
    then obtain ys where "t' = t1 @ ys" "\<forall>e \<in> set ys. P e" by (rule emitsD [OF assms(2)])
    then show ?thesis using xs by (intro exI [of _ "xs @ ys"]) auto
  qed
qed

lemma emits_try [emitting]:
  assumes "emits P m" "\<And>e. emits P (h e)"
  shows "emits P (sh_try m h)"
proof (rule emitsI)
  fix t r t' assume b: "sh_try m h t = (r, t')"
  obtain r1 t1 where m: "m t = (r1, t1)" by fastforce
  obtain xs where xs: "t1 = t @ xs" "\<forall>e \<in> set xs. P e" by (rule emitsD [OF assms(1) m])
  show "\<exists>xs. t' = t @ xs \<and> (\<forall>e \<in> set xs. P e)"
  proof (cases r1)
    case (Inr a)
    then show ?thesis using b m xs by (auto simp: sh_try_def)
  next
    case (Inl e)
    then have "h e t1 = (r, t')" using b m by (simp add: sh_try_def)
    then obtain ys where "t' = t1 @ ys" "\<forall>e \<in> set ys. P e" by (rule emitsD [OF assms(2)])
    then show ?thesis using xs by (intro exI [of _ "xs @ ys"]) auto
  qed
qed

lemma emits_finally [emitting]:
  assumes "emits P m" "emits P f"
  shows "emits P (sh_finally m f)"
proof (rule emitsI)
  fix t r t' assume b: "sh_finally m f t = (r, t')"
  obtain r1 t1 where m: "m t = (r1, t1)" by fastforce
  obtain r2 t2 where f: "f t1 = (r2, t2)" by fastforce
  obtain xs where xs: "t1 = t @ xs" "\<forall>e \<in> set xs. P e" by (rule emitsD [OF assms(1) m])
  obtain ys where ys: "t2 = t1 @ ys" "\<forall>e \<in> set ys. P e" by (rule emitsD [OF assms(2) f])
  have "t' = t2" using b m f by (auto simp: sh_finally_def split: sum.splits)
  then show "\<exists>xs. t' = t @ xs \<and> (\<forall>e \<in> set xs. P e)" using xs ys by (intro exI [of _ "xs @ ys"]) auto
qed

lemma emits_attempt [emitting]: "emits P m \<Longrightarrow> emits P (attempt m)"
  by (rule emitsI) (auto simp: attempt_def elim: emitsD split: prod.splits)

lemma emits_if [emitting]: "(b \<Longrightarrow> emits P m) \<Longrightarrow> (\<not> b \<Longrightarrow> emits P m') \<Longrightarrow> emits P (if b then m else m')"
  by simp

lemma emits_option [emitting]: "emits P n \<Longrightarrow> (\<And>a. emits P (f a)) \<Longrightarrow> emits P (case x of None \<Rightarrow> n | Some a \<Rightarrow> f a)"
  by (cases x) simp_all

lemma emits_exc [emitting]:
  "(\<And>a. emits P (f a)) \<Longrightarrow> (\<And>a b. emits P (g a b)) \<Longrightarrow> emits P (case x of NotFound a \<Rightarrow> f a | ProcError a b \<Rightarrow> g a b)"
  by (cases x) simp_all

lemma emits_sum [emitting]: "(\<And>a. emits P (f a)) \<Longrightarrow> (\<And>a. emits P (g a)) \<Longrightarrow> emits P (case x of Inl a \<Rightarrow> f a | Inr a \<Rightarrow> g a)"
  by (cases x) simp_all

lemma emits_prod [emitting]: "(\<And>a b. emits P (f a b)) \<Longrightarrow> emits P (case x of (a, b) \<Rightarrow> f a b)"
  by (cases x) simp_all

lemma emits_list [emitting]: "emits P n \<Longrightarrow> (\<And>y ys. emits P (f y ys)) \<Longrightarrow> emits P (case x of [] \<Rightarrow> n | y # ys \<Rightarrow> f y ys)"
  by (cases x) simp_all

lemma emits_run [emitting]: "(\<And>a. P (Ran c cmd a)) \<Longrightarrow> emits P (run_check B c cmd)"
  by (rule emitsI) (auto simp: run_check_def Let_def split: answer.splits)

lemma emits_run_any [emitting]: "(\<And>a. P (Ran c cmd a)) \<Longrightarrow> emits P (run_any B c cmd)"
  by (rule emitsI) (auto simp: run_any_def Let_def split: answer.splits)

section \<open>Which database a call writes\<close>

text \<open>The database a command can change.\<close>

definition writes :: "pg_command \<Rightarrow> string option" where
  "writes cmd =
     (case cmd of
        Script _ db _ \<Rightarrow> Some db | DropDb _ db \<Rightarrow> Some db | CreateDb _ db \<Rightarrow> Some db | CreateTarget _ db \<Rightarrow> Some db
      | PreRestore _ db \<Rightarrow> Some db | PgRestore _ _ db _ \<Rightarrow> Some db | _ \<Rightarrow> None)"

definition spares :: "string \<Rightarrow> shell_event \<Rightarrow> bool" where
  "spares db e = (case e of Ran c cmd a \<Rightarrow> writes cmd \<noteq> Some db | _ \<Rightarrow> True)"

lemma spares_simps [simp]:
  "spares db (Ran c cmd a) = (writes cmd \<noteq> Some db)" "spares db (TocWritten p x)" "spares db (TocRemoved p)"
  by (simp_all add: spares_def)

lemma first_running_emits [emitting]: "(\<And>s a. P (Ran c (ComposePs s) a)) \<Longrightarrow> emits P (first_running B c ss)"
  by (induction ss) (auto intro!: emitting)

lemma detect_emits [emitting]: "(\<And>s a. P (Ran c (ComposePs s) a)) \<Longrightarrow> emits P (detect_service B c)"
  unfolding detect_service_def by (intro emitting)

lemma in_container_emits [emitting]:
  "(\<And>s a. P (Ran c (ComposePs s) a)) \<Longrightarrow> (\<And>s. emits P (body s)) \<Longrightarrow> emits P (in_container B c none body)"
  unfolding in_container_def by (intro emitting)

lemma list_spares [emitting]: "emits (spares s) (list_hypertables B db c)"
  unfolding list_hypertables_def by (intro emitting) (simp_all add: writes_def)

lemma bootstrap_check_spares [emitting]: "db \<noteq> s \<Longrightarrow> emits (spares s) (bootstrap_check B db c pl transport out)"
  unfolding bootstrap_check_def bootstrap_repair_def Let_def by (intro emitting) (simp_all add: writes_def)

lemma bootstrap_in_spares: "db \<noteq> s \<Longrightarrow> emits (spares s) (bootstrap_in B db c pl transport)"
  unfolding bootstrap_in_def by (intro emitting) (simp_all add: writes_def)

lemma bootstrap_spares [emitting]: "db \<noteq> s \<Longrightarrow> emits (spares s) (restore_bootstrap B db c)"
  unfolding restore_bootstrap_def by (intro emitting bootstrap_in_spares) (simp_all add: writes_def)

lemma write_toc_spares [emitting]: "emits (spares s) (write_toc B toc)"
  unfolding write_toc_def by (intro emitting) simp

lemma remove_toc_spares [emitting]: "emits (spares s) (remove_toc p)"
  unfolding remove_toc_def by (intro emitting) simp

lemma docker_prepare_spares [emitting]: "dbp_name c \<noteq> s \<Longrightarrow> emits (spares s) (docker_prepare B path c svc container)"
  unfolding docker_prepare_def Let_def by (intro emitting) (simp_all add: writes_def)

lemma docker_finish_spares [emitting]: "dbp_name c \<noteq> s \<Longrightarrow> emits (spares s) (docker_finish B path c svc p out)"
  unfolding docker_finish_def Let_def by (intro emitting) (simp_all add: writes_def)

lemma docker_load_spares [emitting]: "dbp_name c \<noteq> s \<Longrightarrow> emits (spares s) (docker_load B path c svc container)"
  unfolding docker_load_def Let_def by (intro emitting) (simp_all add: writes_def)

lemma docker_steps_spare: "dbp_name c \<noteq> s \<Longrightarrow> emits (spares s) (docker_restore_steps B path c svc)"
  unfolding docker_restore_steps_def by (intro emitting) (simp_all add: writes_def)

lemma docker_restore_spares [emitting]: "dbp_name c \<noteq> s \<Longrightarrow> emits (spares s) (restore_backup_via_docker B path c)"
  unfolding restore_backup_via_docker_def by (intro emitting docker_steps_spare) (simp_all add: writes_def)

lemma excepted_spares [emitting]: "dbp_name c \<noteq> s \<Longrightarrow> emits (spares s) (restore_excepted B path c e)"
  unfolding restore_excepted_def by (intro emitting)

lemma host_finish_spares [emitting]: "dbp_name c \<noteq> s \<Longrightarrow> emits (spares s) (host_finish B path c out)"
  unfolding host_finish_def Let_def by (intro emitting) (simp_all add: writes_def)

lemma host_steps_spare [emitting]: "dbp_name c \<noteq> s \<Longrightarrow> emits (spares s) (host_restore_steps B path c p)"
  unfolding host_restore_steps_def by (intro emitting) (simp_all add: writes_def)

lemma restore_spares [emitting]: "db \<noteq> s \<Longrightarrow> db \<noteq> [] \<Longrightarrow> emits (spares s) (restore_backup B path (Some db))"
  unfolding restore_backup_def Let_def by (cases db) (auto intro!: emitting simp: writes_def)

lemma recreate_spares: "db \<noteq> s \<Longrightarrow> emits (spares s) (recreate B c pl db transport)"
  unfolding recreate_def by (intro emitting) (simp_all add: writes_def)

lemma reset_spares [emitting]: "emits (spares (dbp_name (be_params B))) (reset_database B db c)"
  unfolding reset_database_def by (intro emitting recreate_spares) (simp_all add: writes_def)

lemma create_via_docker_spares [emitting]: "emits (spares s) (create_backup_via_docker B path stamp c tables)"
  unfolding create_backup_via_docker_def dump_size_def by (intro emitting) (simp_all add: writes_def)

lemma create_spares [emitting]: "emits (spares s) (create_backup B dir tables)"
  unfolding create_backup_def Let_def dump_size_def by (intro emitting) (simp_all add: writes_def)

lemma collect_spares [emitting]: "emits (spares s) (collect_snapshot B names db)"
  unfolding collect_snapshot_def snapshot_via_docker_def Let_def by (intro emitting) (simp_all add: writes_def)

lemma walg_spares [emitting]: "emits (spares s) (walg_status B)"
  unfolding walg_status_def by (intro emitting) (simp_all add: writes_def)

lemma list_backups_spares [emitting]: "emits P (list_backups B dir)"
  unfolding list_backups_def by (intro emitting)

lemma drill_end_spares [emitting]: "emits P (drill_end B start result)"
  unfolding drill_end_def elapsed_since_def by (intro emitting)

lemma elapsed_spares [emitting]: "emits P (elapsed_since B start)"
  unfolding elapsed_since_def by (intro emitting)

lemma refused: "reset_database B (dbp_name (be_params B)) c t = (Inr (refusal (dbp_name (be_params B))), t)"
  by (simp add: reset_database_def sh_return_def)

lemma drill_restore_spares [emitting]:
  assumes "db \<noteq> []"
  shows "emits (spares (dbp_name (be_params B))) (drill_restore B start before result path db)"
proof (cases "db = dbp_name (be_params B)")
  case True
  have "\<not> ran_well (refusal db)" by (simp add: ran_well_def refusal_def sh_error_def pget_def dict_getd_def)
  then have "drill_restore B start before result path db
      = drill_end B start (dict_set (dict_set (dict_set result ''restore_reset'' (PDict (refusal db))) ''restore'' (PDict (refusal db)))
          ''restore_elapsed_seconds'' (PFloat 0))"
    using refused [of B "be_params B"] True by (simp add: fun_eq_iff drill_restore_def sh_bind_def Let_def)
  then show ?thesis by (simp add: drill_end_spares)
next
  case False
  then show ?thesis unfolding drill_restore_def Let_def using assms by (intro emitting)
qed


section \<open>What a reported success means\<close>

lemma bind_Inr: "sh_bind m f t = (Inr b, t') \<longleftrightarrow> (\<exists>a t1. m t = (Inr a, t1) \<and> f a t1 = (Inr b, t'))"
  by (auto simp: sh_bind_def split: prod.splits sum.splits)

lemma try_Inr:
  "sh_try m h t = (Inr b, t') \<longleftrightarrow> m t = (Inr b, t') \<or> (\<exists>e t1. m t = (Inl e, t1) \<and> h e t1 = (Inr b, t'))"
  by (auto simp: sh_try_def split: prod.splits sum.splits)

lemma return_Inr [simp]: "sh_return a t = (Inr b, t') \<longleftrightarrow> b = a \<and> t' = t"
  by (auto simp: sh_return_def)

lemma raise_Inr [simp]: "sh_raise e t \<noteq> (Inr b, t')"
  by (simp add: sh_raise_def)

lemma ask_Inr [simp]: "sh_ask f t = (Inr b, t') \<longleftrightarrow> b = f t \<and> t' = t"
  by (auto simp: sh_ask_def)

lemma emit_Inr [simp]: "sh_emit e t = (Inr u, t') \<longleftrightarrow> t' = t @ [e]"
  by (auto simp: sh_emit_def)

lemma run_check_Inr: "run_check B c cmd t = (Inr out, t') \<longleftrightarrow> be_answer B t cmd = Finished out \<and> t' = t @ [Ran c cmd (Finished out)]"
  by (auto simp: run_check_def Let_def split: answer.splits)

lemma not_succeeded [simp]:
  "\<not> ran_well (sh_error e)" "\<not> ran_well (sh_error e @ xs)" "\<not> ran_well (docker_failed s e)" "\<not> ran_well (exit_error B c cmd x)"
  "\<not> ran_well (no_service tool)" "\<not> ran_well (verification_failed d xs y)" "\<not> ran_well (refusal db)"
  by (simp_all add: ran_well_def pget_def dict_getd_def sh_error_def docker_failed_def exit_error_def no_service_def
      verification_failed_def refusal_def)

lemma succeeded_results [simp]:
  "ran_well (hypertable_result db names tr)" "ran_well (restore_ok c path out boot snapshot @ xs)" "ran_well (restore_ok c path out boot snapshot)"
  by (simp_all add: ran_well_def pget_def dict_getd_def hypertable_result_def restore_ok_def)

lemma in_container_succeeds:
  "in_container B c none body t = (Inr d, t') \<Longrightarrow> ran_well d \<Longrightarrow> \<not> ran_well none
    \<Longrightarrow> \<exists>s t1. detect_service B c t = (Inr (Some s), t1) \<and> body s t1 = (Inr d, t')"
  unfolding in_container_def bind_Inr try_Inr by (auto split: option.splits simp: try_Inr)

text \<open>A listing that succeeded is the answer of the query to that database.\<close>

lemma list_succeeds:
  assumes "list_hypertables B db c t = (Inr d, t')" "ran_well d"
  obtains xs pl names tr where "t' = t @ xs" "Ran c (Query pl False db hypertable_query) (Finished names) \<in> set xs"
    "d = hypertable_result db (listed_names names) tr"
proof -
  obtain xs where xs: "t' = t @ xs" using emitsD [OF list_spares assms(1)] by metis
  have "\<exists>pl names tr t1. t' = t1 @ [Ran c (Query pl False db hypertable_query) (Finished names)]
      \<and> length t \<le> length t1 \<and> d = hypertable_result db (listed_names names) tr"
    using assms(1) unfolding list_hypertables_def try_Inr
  proof (elim disjE exE conjE)
    assume "sh_bind (run_check B c (Query OnHost False db hypertable_query))
        (\<lambda>out. sh_return (hypertable_result db (listed_names out) ''psql'')) t = (Inr d, t')"
    then show ?thesis by (auto simp: bind_Inr run_check_Inr)
  next
    fix e t1
    assume h: "(case e of NotFound x \<Rightarrow> in_container B c (no_service ''psql'') (\<lambda>s. sh_bind (run_check B c (Query (InDb s) False db hypertable_query))
        (\<lambda>out. sh_return (hypertable_result db (listed_names out) (docker_transport s))))
        | ProcError a b \<Rightarrow> sh_return (exit_error B c (Query OnHost False db hypertable_query) e)) t1 = (Inr d, t')"
    assume m: "sh_bind (run_check B c (Query OnHost False db hypertable_query))
        (\<lambda>out. sh_return (hypertable_result db (listed_names out) ''psql'')) t = (Inl e, t1)"
    have t1: "length t \<le> length t1"
      using emitsD [OF emits_bind [OF emits_run emits_return] m, of "\<lambda>_. True"] by (metis length_append le_add1)
    obtain msg where e: "e = NotFound msg" using h assms(2) by (cases e) auto
    then obtain s t2 where d: "detect_service B c t1 = (Inr (Some s), t2)"
      and b: "sh_bind (run_check B c (Query (InDb s) False db hypertable_query))
        (\<lambda>out. sh_return (hypertable_result db (listed_names out) (docker_transport s))) t2 = (Inr d, t')"
      using in_container_succeeds [OF _ assms(2)] h by fastforce
    have "length t1 \<le> length t2" using emitsD [OF detect_emits d, of "\<lambda>_. True"] by (metis length_append le_add1)
    then show ?thesis using b t1 by (auto simp: bind_Inr run_check_Inr intro: le_trans)
  qed
  then obtain pl names tr t1 where l: "t' = t1 @ [Ran c (Query pl False db hypertable_query) (Finished names)]"
    "length t \<le> length t1" "d = hypertable_result db (listed_names names) tr" by blast
  have "Ran c (Query pl False db hypertable_query) (Finished names) \<in> set xs"
  proof -
    have "xs \<noteq> []" using l(1,2) xs by auto
    then have "last xs = last t'" by (simp add: xs)
    then show ?thesis using l(1) \<open>xs \<noteq> []\<close> by (metis last_in_set last_snoc)
  qed
  then show thesis using that xs l(3) by blast
qed

abbreviation anything :: "shell_event \<Rightarrow> bool" where
  "anything \<equiv> \<lambda>_. True"

lemma spares_anything: "emits (spares s) m \<Longrightarrow> emits anything m"
  unfolding emits_def by meson

lemma bind_split:
  assumes "sh_bind m f t = (Inr b, t @ xs)" "emits anything m" "\<And>a. emits anything (f a)"
  obtains a ys zs where "xs = ys @ zs" "m t = (Inr a, t @ ys)" "f a (t @ ys) = (Inr b, (t @ ys) @ zs)"
proof -
  obtain a t1 where a: "m t = (Inr a, t1)" "f a t1 = (Inr b, t @ xs)" using assms(1) by (auto simp: bind_Inr)
  obtain ys where ys: "t1 = t @ ys" using emitsD [OF assms(2) a(1)] by metis
  obtain zs where zs: "t @ xs = t1 @ zs" using emitsD [OF assms(3) a(2)] by metis
  have "xs = ys @ zs" using ys zs by simp
  then show thesis using that a ys zs by simp
qed

lemma run_split: "run_check B c cmd t = (Inr out, t @ xs) \<longleftrightarrow> be_answer B t cmd = Finished out \<and> xs = [Ran c cmd (Finished out)]"
  by (auto simp: run_check_Inr)

definition post_restore_sql :: string where
  "post_restore_sql = timescale_restore_sql (Some [])"

lemma list_anything: "emits anything (list_hypertables B db c)"
  by (rule spares_anything [OF list_spares])

lemma fresh_name: "db \<noteq> CHR ''x'' # db"
  by (metis length_Cons n_not_Suc_n)

lemma bootstrap_in_anything: "emits anything (bootstrap_in B db c pl tr)"
  by (rule spares_anything [OF bootstrap_in_spares [OF fresh_name]])

lemma bootstrap_anything: "emits anything (restore_bootstrap B db c)"
  by (rule spares_anything [OF bootstrap_spares [OF fresh_name]])

lemma bootstrap_check_anything: "emits anything (bootstrap_check B db c pl tr out)"
  by (rule spares_anything [OF bootstrap_check_spares [OF fresh_name]])

lemma run_anything: "emits anything (run_check B c cmd)"
  by (intro emitting) simp

lemma bootstrap_in_runs:
  assumes "bootstrap_in B db c pl tr t = (Inr d, t @ xs)"
  obtains out where "Ran c (Script pl db post_restore_sql) (Finished out) \<in> set xs"
  using assms unfolding bootstrap_in_def
  by (elim bind_split [OF _ run_anything bootstrap_check_anything]) (auto simp: run_split post_restore_sql_def)

lemma try_split:
  assumes "sh_try m h t = (Inr b, t @ xs)" "emits anything m" "\<And>e. emits anything (h e)"
  obtains "m t = (Inr b, t @ xs)"
  | e ys zs where "xs = ys @ zs" "m t = (Inl e, t @ ys)" "h e (t @ ys) = (Inr b, (t @ ys) @ zs)"
proof (cases "m t = (Inr b, t @ xs)")
  case False
  then obtain e t1 where m: "m t = (Inl e, t1)" "h e t1 = (Inr b, t @ xs)" using assms(1) by (auto simp: try_Inr)
  obtain ys where ys: "t1 = t @ ys" using emitsD [OF assms(2) m(1)] by metis
  obtain zs where zs: "t @ xs = t1 @ zs" using emitsD [OF assms(3) m(2)] by metis
  have "xs = ys @ zs" using ys zs by simp
  then show thesis using that(2) m ys zs by simp
qed (use that(1) in blast)

lemma detect_anything: "emits anything (detect_service B c)"
  by (intro emitting) simp

lemma in_container_anything: "(\<And>s. emits anything (body s)) \<Longrightarrow> emits anything (in_container B c none body)"
  by (intro emitting) simp

text \<open>In a container a call that succeeded ran its body to the end.\<close>

lemma in_container_split:
  assumes "in_container B c none body t = (Inr d, t @ xs)" "ran_well d" "\<not> ran_well none" "\<And>s. emits anything (body s)"
  obtains s ys zs where "xs = ys @ zs" "body s (t @ ys) = (Inr d, (t @ ys) @ zs)"
proof -
  obtain s t1 where s: "detect_service B c t = (Inr (Some s), t1)" "body s t1 = (Inr d, t @ xs)"
    using in_container_succeeds [OF assms(1-3)] by blast
  obtain ys where ys: "t1 = t @ ys" using emitsD [OF detect_anything s(1)] by metis
  obtain zs where zs: "t @ xs = t1 @ zs" using emitsD [OF assms(4) s(2)] by metis
  have "xs = ys @ zs" using ys zs by simp
  then show thesis using that s(2) ys zs by simp
qed

lemma bootstrap_runs:
  assumes "restore_bootstrap B db c t = (Inr d, t @ xs)" "ran_well d"
  obtains pl out where "Ran c (Script pl db post_restore_sql) (Finished out) \<in> set xs"
proof -
  have h: "emits anything (case e of NotFound _ \<Rightarrow> in_container B c (no_service ''psql'') (\<lambda>s. bootstrap_in B db c (InDb s) (docker_transport s))
      | ProcError _ _ \<Rightarrow> sh_raise e)" for e
    by (intro emitting bootstrap_in_anything) simp
  show thesis
    using assms(1) unfolding restore_bootstrap_def
  proof (rule try_split [OF _ bootstrap_in_anything h])
    assume "bootstrap_in B db c OnHost ''psql'' t = (Inr d, t @ xs)"
    then show thesis using that by (rule bootstrap_in_runs)
  next
    fix e ys zs
    assume xs: "xs = ys @ zs"
      and e: "(case e of NotFound _ \<Rightarrow> in_container B c (no_service ''psql'') (\<lambda>s. bootstrap_in B db c (InDb s) (docker_transport s))
      | ProcError _ _ \<Rightarrow> sh_raise e) (t @ ys) = (Inr d, (t @ ys) @ zs)"
    obtain msg where "e = NotFound msg" using e by (cases e) auto
    then have "in_container B c (no_service ''psql'') (\<lambda>s. bootstrap_in B db c (InDb s) (docker_transport s)) (t @ ys) = (Inr d, (t @ ys) @ zs)"
      using e by simp
    then obtain s us vs where zs: "zs = us @ vs" and b: "bootstrap_in B db c (InDb s) (docker_transport s) ((t @ ys) @ us) = (Inr d, ((t @ ys) @ us) @ vs)"
      by (rule in_container_split [OF _ assms(2) not_succeeded(5) bootstrap_in_anything])
    from b obtain out where "Ran c (Script (InDb s) db post_restore_sql) (Finished out) \<in> set vs" by (rule bootstrap_in_runs)
    then show thesis using that xs zs by auto
  qed
qed

definition hypertables_complete :: "string \<Rightarrow> bool" where
  "hypertables_complete names =
     (missing_hypertables (listed_names names) = [] \<and> length (listed_names names) = length time_columns)"

lemma hypertable_result_matched [simp]:
  "truthy (pget (hypertable_result db (listed_names names) tr) ''matched'') = hypertables_complete names"
  by (simp add: hypertable_result_def pget_def dict_getd_def hypertables_complete_def)

lemma restore_ok_verified [simp]:
  "pget (restore_ok c path out boot snapshot @ xs) ''hypertables_verified'' = PBool (truthy (pget snapshot ''matched''))"
  "pget (restore_ok c path out boot snapshot) ''hypertables_verified'' = PBool (truthy (pget snapshot ''matched''))"
  by (simp_all add: restore_ok_def pget_def dict_getd_def)

text \<open>The end of a restore, on the host and in a container, ran the two scripts and asked for the hypertables.\<close>

definition finish_trail :: "db_params \<Rightarrow> pyval \<Rightarrow> shell_event list \<Rightarrow> bool" where
  "finish_trail c verified xs \<longleftrightarrow>
     (\<exists>pl boot pl' names.
        subseq [Ran c (Script pl (dbp_name c) post_restore_sql) (Finished boot),
                Ran c (Query pl' False (dbp_name c) hypertable_query) (Finished names)] xs
        \<and> verified = PBool (hypertables_complete names))"

lemma subseq_pair: "x \<in> set xs \<Longrightarrow> y \<in> set ys \<Longrightarrow> subseq [x, y] (xs @ ys)"
  using list_emb_append_mono [of "(=)" "[x]" xs "[y]" ys] by (simp add: subseq_singleton_left)

lemma finish_trailI:
  assumes "Ran c (Script pl (dbp_name c) post_restore_sql) (Finished boot) \<in> set xs"
    "Ran c (Query pl' False (dbp_name c) hypertable_query) (Finished names) \<in> set ys"
  shows "finish_trail c (PBool (hypertables_complete names)) (xs @ ys @ zs)"
proof -
  have "subseq [Ran c (Script pl (dbp_name c) post_restore_sql) (Finished boot),
                Ran c (Query pl' False (dbp_name c) hypertable_query) (Finished names)] ((xs @ ys) @ zs)"
    by (rule list_emb_prefix [OF subseq_pair [OF assms]])
  then show ?thesis unfolding finish_trail_def by auto
qed

lemma if_fails:
  assumes "(if \<not> ok then sh_return bad else m) t = (Inr r, t')" "\<not> ran_well bad" "ran_well r"
  shows "ok \<and> m t = (Inr r, t')"
  using assms by (cases ok) auto

lemma finish_split:
  assumes "sh_bind (restore_bootstrap B (dbp_name c) c) (\<lambda>boot. if \<not> ran_well boot then sh_return (bad boot)
      else sh_bind (list_hypertables B (dbp_name c) c) (\<lambda>snapshot. if \<not> ran_well snapshot then sh_return (bad' boot snapshot)
      else rest boot snapshot)) t = (Inr r, t @ xs)" "ran_well r" "\<And>b. \<not> ran_well (bad b)" "\<And>b x. \<not> ran_well (bad' b x)"
    "\<And>b x. emits anything (rest b x)"
  obtains boot names tr t1 where "finish_trail c (PBool (hypertables_complete names)) xs"
    "rest boot (hypertable_result (dbp_name c) (listed_names names) tr) t1 = (Inr r, t @ xs)"
  using assms(1)
proof (rule bind_split [OF _ bootstrap_anything])
  show "emits anything (if \<not> ran_well boot then sh_return (bad boot)
      else sh_bind (list_hypertables B (dbp_name c) c) (\<lambda>snapshot. if \<not> ran_well snapshot then sh_return (bad' boot snapshot)
      else rest boot snapshot))" for boot by (intro emitting list_anything assms(5))
next
  fix boot ys zs
  assume xs: "xs = ys @ zs" and b: "restore_bootstrap B (dbp_name c) c t = (Inr boot, t @ ys)"
    and f: "(if \<not> ran_well boot then sh_return (bad boot)
      else sh_bind (list_hypertables B (dbp_name c) c) (\<lambda>snapshot. if \<not> ran_well snapshot then sh_return (bad' boot snapshot)
      else rest boot snapshot)) (t @ ys) = (Inr r, (t @ ys) @ zs)"
  note f = if_fails [OF f assms(3) assms(2)]
  obtain snapshot t1 where s: "list_hypertables B (dbp_name c) c (t @ ys) = (Inr snapshot, t1)"
      and g: "(if \<not> ran_well snapshot then sh_return (bad' boot snapshot) else rest boot snapshot) t1 = (Inr r, (t @ ys) @ zs)"
    using f unfolding bind_Inr by blast
  note g = if_fails [OF g assms(4) assms(2)]
  obtain vs where vs: "(t @ ys) @ zs = t1 @ vs" using emitsD [OF assms(5)] g by metis
  obtain pl o1 where p: "Ran c (Script pl (dbp_name c) post_restore_sql) (Finished o1) \<in> set ys"
    using b conjunct1 [OF f] by (rule bootstrap_runs)
  obtain us pl' names tr where q: "t1 = (t @ ys) @ us" "Ran c (Query pl' False (dbp_name c) hypertable_query) (Finished names) \<in> set us"
    "snapshot = hypertable_result (dbp_name c) (listed_names names) tr" using s conjunct1 [OF g] by (rule list_succeeds)
  have "zs = us @ vs" using q(1) vs by simp
  then have "finish_trail c (PBool (hypertables_complete names)) xs" using finish_trailI [OF p q(2), of vs] xs by simp
  then show thesis using that g q(3) xs by simp
qed

lemma host_finish_trail:
  assumes "host_finish B path c out t = (Inr r, t @ xs)" "ran_well r"
  shows "finish_trail c (pget r ''hypertables_verified'') xs"
  using assms(1) unfolding host_finish_def Let_def
proof (rule finish_split [OF _ assms(2)])
  fix boot names tr t1
  assume "finish_trail c (PBool (hypertables_complete names)) xs"
    "sh_return (restore_ok c path out boot (hypertable_result (dbp_name c) (listed_names names) tr)) t1 = (Inr r, t @ xs)"
  then show ?thesis by simp
qed (simp_all add: emits_return)

lemma docker_finish_trail:
  assumes "docker_finish B path c s p out t = (Inr r, t @ xs)" "ran_well r"
  shows "finish_trail c (pget r ''hypertables_verified'') xs"
  using assms(1) unfolding docker_finish_def Let_def
proof (rule finish_split [OF _ assms(2)])
  fix boot names tr t1
  assume f: "finish_trail c (PBool (hypertables_complete names)) xs"
    and r: "sh_bind (run_any B c (RemoveIn s (''/tmp/'' @ file_name path))) (\<lambda>_. sh_bind (remove_toc p) (\<lambda>_.
      sh_bind (run_any B c (RemoveIn s (''/tmp/'' @ file_name p))) (\<lambda>_.
        sh_return (restore_ok c path out boot (hypertable_result (dbp_name c) (listed_names names) tr)
          @ [(''transport'', PStr (docker_transport s))])))) t1 = (Inr r, t @ xs)"
  have "r = restore_ok c path out boot (hypertable_result (dbp_name c) (listed_names names) tr)
          @ [(''transport'', PStr (docker_transport s))]" using r unfolding bind_Inr by auto
  then show ?thesis using f by simp
next
  show "emits anything (sh_bind (run_any B c (RemoveIn s (''/tmp/'' @ file_name path))) (\<lambda>_. sh_bind (remove_toc p) (\<lambda>_.
      sh_bind (run_any B c (RemoveIn s (''/tmp/'' @ file_name p))) (\<lambda>_.
        sh_return (restore_ok c path out boot snapshot @ [(''transport'', PStr (docker_transport s))])))))" for boot snapshot
    unfolding remove_toc_def by (intro emitting) simp_all
qed simp_all

text \<open>The file at the path was loaded with success: it was listed, the list without the public schema was written, and
  \<open>pg_restore\<close> of that file with that list ran into the database. In a container the file was first copied there under
  its own name, and so was the list.\<close>

definition inside_path :: "string \<Rightarrow> string" where
  "inside_path path = ''/tmp/'' @ file_name path"

definition host_load :: "string \<Rightarrow> db_params \<Rightarrow> string \<Rightarrow> string \<Rightarrow> string \<Rightarrow> shell_event list" where
  "host_load path c toc p out =
     [Ran c (RestoreList OnHost path) (Finished toc), TocWritten p (without_public_schema toc),
      Ran c (PgRestore OnHost p (dbp_name c) path) (Finished out)]"

definition container_load ::
    "string \<Rightarrow> db_params \<Rightarrow> string \<Rightarrow> string \<Rightarrow> string \<Rightarrow> string \<Rightarrow> string \<Rightarrow> string \<Rightarrow> shell_event list" where
  "container_load path c s container toc p copied out =
     [Ran c (RestoreList (InDb s) (inside_path path)) (Finished toc), TocWritten p (without_public_schema toc),
      Ran c (CopyIn p container (inside_path p)) (Finished copied),
      Ran c (PgRestore (InDb s) (inside_path p) (dbp_name c) (inside_path path)) (Finished out)]"

definition load_trail :: "string \<Rightarrow> db_params \<Rightarrow> shell_event list \<Rightarrow> bool" where
  "load_trail path c xs \<longleftrightarrow>
     (\<exists>toc p out. subseq (host_load path c toc p out) xs)
     \<or> (\<exists>s container copied toc p copied' out.
          subseq (Ran c (CopyIn path container (inside_path path)) (Finished copied) # container_load path c s container toc p copied' out) xs)"

text \<open>A restore loaded the file at the path into the database before its end.\<close>

definition restore_trail :: "string \<Rightarrow> db_params \<Rightarrow> pyval \<Rightarrow> shell_event list \<Rightarrow> bool" where
  "restore_trail path c verified xs \<longleftrightarrow> (\<exists>ys zs. xs = ys @ zs \<and> load_trail path c ys \<and> finish_trail c verified zs)"

lemma load_trail_within: "load_trail path c xs \<Longrightarrow> load_trail path c (us @ xs)"
  unfolding load_trail_def by (metis list_emb_append2)

lemma restore_trail_within: "restore_trail path c v xs \<Longrightarrow> restore_trail path c v (us @ xs)"
  unfolding restore_trail_def by (metis append.assoc load_trail_within)

lemma finish_trail_more: "finish_trail c v xs \<Longrightarrow> finish_trail c v (xs @ us)"
  unfolding finish_trail_def by (metis list_emb_prefix)

lemma restore_trail_more: "restore_trail path c v xs \<Longrightarrow> restore_trail path c v (xs @ us)"
  unfolding restore_trail_def by (metis append.assoc finish_trail_more)

lemma docker_finish_anything: "emits anything (docker_finish B path c s p out)"
  by (rule spares_anything [OF docker_finish_spares [OF fresh_name]])

lemma host_finish_anything: "emits anything (host_finish B path c out)"
  by (rule spares_anything [OF host_finish_spares [OF fresh_name]])

lemma docker_load_trail:
  assumes "docker_load B path c s container t = (Inr r, t @ xs)" "ran_well r"
    "Ran c (CopyIn path container (inside_path path)) (Finished copied) \<in> set us"
  shows "restore_trail path c (pget r ''hypertables_verified'') (us @ xs)"
proof -
  obtain toc p o1 out where f: "docker_finish B path c s p out (t @ container_load path c s container toc p o1 out) = (Inr r, t @ xs)"
    (is "_ (t @ ?ys) = _")
    using assms(1) unfolding docker_load_def Let_def bind_Inr run_check_Inr write_toc_def inside_path_def container_load_def by auto
  obtain zs where z: "t @ xs = (t @ ?ys) @ zs" using emitsD [OF docker_finish_anything f] by metis
  have xs: "xs = ?ys @ zs" using z by simp
  have "finish_trail c (pget r ''hypertables_verified'') zs" using docker_finish_trail [OF _ assms(2)] f z by metis
  moreover have "subseq ([Ran c (CopyIn path container (inside_path path)) (Finished copied)] @ ?ys) (us @ ?ys)"
    using assms(3) by (intro list_emb_append_mono) (simp_all add: subseq_singleton_left)
  then have "load_trail path c (us @ ?ys)" unfolding load_trail_def by auto
  ultimately show ?thesis unfolding restore_trail_def xs by (metis append.assoc)
qed

lemma docker_load_anything: "emits anything (docker_load B path c s container)"
  by (rule spares_anything [OF docker_load_spares [OF fresh_name]])

text \<open>The preparation of a restore in a container copies the file into it.\<close>

lemma docker_prepare_copies:
  assumes "docker_prepare B path c s container t = (Inr x, t @ xs)"
  obtains copied where "Ran c (CopyIn path container (inside_path path)) (Finished copied) \<in> set xs"
proof -
  have e: "emits anything (sh_bind (run_check B c (DatabaseExists s (dbp_name c))) (\<lambda>found.
      sh_bind (if py_strip found \<noteq> ''1'' then run_check B c (CreateTarget s (dbp_name c)) else sh_return []) (\<lambda>_.
        run_check B c (PreRestore s (dbp_name c)))))"
    by (intro emitting) simp_all
  show thesis
    using assms that unfolding docker_prepare_def Let_def inside_path_def
    by (elim bind_split [OF _ run_anything e]) (auto simp: run_split)
qed

lemma docker_restore_trail:
  assumes "restore_backup_via_docker B path c t = (Inr r, t @ xs)" "ran_well r"
  shows "restore_trail path c (pget r ''hypertables_verified'') xs"
proof -
  obtain s t1 where s: "detect_service B c t = (Inr (Some s), t1)"
      and f: "sh_try (docker_restore_steps B path c s) (\<lambda>e. case e of ProcError _ _ \<Rightarrow> sh_return (docker_failed s (stderr_of e))
             | NotFound _ \<Rightarrow> sh_return (sh_error (PStr ''docker not found. Install Docker Desktop or PostgreSQL client tools.''))) t1
           = (Inr r, t @ xs)"
    using assms unfolding restore_backup_via_docker_def bind_Inr by (auto split: option.splits)
  have "docker_restore_steps B path c s t1 = (Inr r, t @ xs)"
    using f assms(2) unfolding try_Inr
    apply (elim disjE exE conjE)
     apply assumption
    subgoal for e t2 by (cases e) auto
    done
  then obtain ids t2 where ids: "run_check B c (ComposePs s) t1 = (Inr ids, t2)"
      and g: "(if py_strip ids = [] then sh_return (sh_error (PStr (''Docker database service '' @ sql_quote s @ '' is not running.'')))
       else sh_bind (docker_prepare B path c s (py_strip ids)) (\<lambda>_. docker_load B path c s (py_strip ids))) t2 = (Inr r, t @ xs)"
    unfolding docker_restore_steps_def bind_Inr by blast
  have "sh_bind (docker_prepare B path c s (py_strip ids)) (\<lambda>_. docker_load B path c s (py_strip ids)) t2 = (Inr r, t @ xs)"
    using g assms(2) by (auto split: if_splits)
  then obtain x t3 where x: "docker_prepare B path c s (py_strip ids) t2 = (Inr x, t3)"
      and l: "docker_load B path c s (py_strip ids) t3 = (Inr r, t @ xs)" unfolding bind_Inr by blast
  obtain us where us: "t1 = t @ us" using emitsD [OF detect_anything s] by metis
  obtain vs where vs: "t2 = t1 @ vs" using emitsD [OF run_anything ids] by metis
  obtain ws where ws: "t3 = t2 @ ws" using emitsD [OF spares_anything [OF docker_prepare_spares [OF fresh_name]] x] by metis
  obtain zs where zs: "t @ xs = t3 @ zs" using emitsD [OF docker_load_anything l] by metis
  obtain copied where copied: "Ran c (CopyIn path (py_strip ids) (inside_path path)) (Finished copied) \<in> set ws"
    using x unfolding ws by (rule docker_prepare_copies)
  have "restore_trail path c (pget r ''hypertables_verified'') (ws @ zs)" using docker_load_trail [OF _ assms(2) copied] l zs by metis
  then have "restore_trail path c (pget r ''hypertables_verified'') ((us @ vs) @ ws @ zs)" by (rule restore_trail_within)
  moreover have "xs = (us @ vs) @ ws @ zs" using us vs ws zs by simp
  ultimately show ?thesis by simp
qed

lemma excepted_trail:
  assumes "restore_excepted B path c e t = (Inr r, t @ xs)" "ran_well r"
  shows "restore_trail path c (pget r ''hypertables_verified'') xs"
proof (cases e)
  case NotFound
  then show ?thesis using assms docker_restore_trail by (simp add: restore_excepted_def)
next
  case ProcError
  then show ?thesis using assms by (auto simp: restore_excepted_def)
qed

lemma excepted_anything: "emits anything (restore_excepted B path c e)"
  by (rule spares_anything [OF excepted_spares [OF fresh_name]])

lemma host_steps_anything: "emits anything (host_restore_steps B path c p)"
  by (rule spares_anything [OF host_steps_spare [OF fresh_name]])

definition restore_params :: "backup_env \<Rightarrow> string option \<Rightarrow> db_params" where
  "restore_params B target = (case target of Some (x # xs) \<Rightarrow> (be_params B)\<lparr>dbp_name := x # xs\<rparr> | _ \<Rightarrow> be_params B)"

lemma finally_Inr: "sh_finally m (remove_toc p) t = (r, t') \<longleftrightarrow> (\<exists>t1. m t = (r, t1) \<and> t' = t1 @ [TocRemoved p])"
  by (auto simp: sh_finally_def remove_toc_def sh_emit_def split: prod.splits)

text \<open>A restore that reports success did restore: it wrote the filtered list of the dump, \<open>pg_restore\<close> of that dump
  into the asked database ended with success, the hooks of the extension ran after it, the hypertables were listed
  last, and the report says that they are verified exactly when all four and nothing else were listed.\<close>

theorem restore_reports_truth:
  assumes "restore_backup B backup_path target t = (Inr r, t')" "ran_well r"
  shows "\<exists>xs. t' = t @ xs \<and> restore_trail (path_str (path_of backup_path)) (restore_params B target) (pget r ''hypertables_verified'') xs"
proof -
  let ?path = "path_str (path_of backup_path)" and ?c = "restore_params B target"
  let ?body = "\<lambda>p. sh_try (host_restore_steps B ?path ?c p) (restore_excepted B ?path ?c)"
  have "sh_bind (attempt (run_check B ?c (RestoreList OnHost ?path))) (\<lambda>r. case r of
          Inl e \<Rightarrow> restore_excepted B ?path ?c e
        | Inr toc \<Rightarrow> sh_bind (write_toc B toc) (\<lambda>p. sh_finally (?body p) (remove_toc p))) t = (Inr r, t')"
    using assms unfolding restore_backup_def Let_def restore_params_def [symmetric]
      bind_Inr [of "sh_ask (\<lambda>t. be_exists B t ?path)"] ask_Inr by (auto split: if_splits)
  then obtain a t1 where a: "run_check B ?c (RestoreList OnHost ?path) t = (a, t1)"
      and f: "(case a of Inl e \<Rightarrow> restore_excepted B ?path ?c e
        | Inr toc \<Rightarrow> sh_bind (write_toc B toc) (\<lambda>p. sh_finally (?body p) (remove_toc p))) t1 = (Inr r, t')"
    unfolding bind_Inr attempt_def by (auto split: prod.splits)
  obtain us where us: "t1 = t @ us" using emitsD [OF run_anything a] by metis
  show ?thesis
  proof (cases a)
    case (Inl e)
    then have e: "restore_excepted B ?path ?c e t1 = (Inr r, t')" using f by simp
    obtain zs where zs: "t' = t1 @ zs" using emitsD [OF excepted_anything e] by metis
    have "restore_trail ?path ?c (pget r ''hypertables_verified'') zs" using excepted_trail [OF _ assms(2)] e zs by metis
    then have "restore_trail ?path ?c (pget r ''hypertables_verified'') (us @ zs)" by (rule restore_trail_within)
    then show ?thesis using us zs by (intro exI [of _ "us @ zs"]) simp
  next
    case (Inr toc)
    have us: "us = [Ran ?c (RestoreList OnHost ?path) (Finished toc)]" using a us Inr by (simp add: run_check_Inr)
    obtain p t2 where b: "?body p (t1 @ [TocWritten p (without_public_schema toc)]) = (Inr r, t2)" and t': "t' = t2 @ [TocRemoved p]"
      using f Inr unfolding bind_Inr write_toc_def by (auto simp: finally_Inr bind_Inr)
    let ?t = "t1 @ [TocWritten p (without_public_schema toc)]"
    obtain vs where vs: "t2 = ?t @ vs" using emitsD [OF emits_try [OF host_steps_anything excepted_anything] b] by metis
    have trail: "restore_trail ?path ?c (pget r ''hypertables_verified'') (us @ TocWritten p (without_public_schema toc) # vs)"
      using b [unfolded vs]
    proof (rule try_split [OF _ host_steps_anything excepted_anything])
      assume "host_restore_steps B ?path ?c p ?t = (Inr r, ?t @ vs)"
      then obtain out where h: "host_finish B ?path ?c out (?t @ [Ran ?c (PgRestore OnHost p (dbp_name ?c) ?path) (Finished out)]) = (Inr r, ?t @ vs)"
        unfolding host_restore_steps_def bind_Inr run_check_Inr by auto
      let ?r = "Ran ?c (PgRestore OnHost p (dbp_name ?c) ?path) (Finished out)"
      obtain zs where zs: "?t @ vs = (?t @ [?r]) @ zs" using emitsD [OF host_finish_anything h] by metis
      have "finish_trail ?c (pget r ''hypertables_verified'') zs" using host_finish_trail [OF _ assms(2)] h zs by metis
      moreover have "us @ TocWritten p (without_public_schema toc) # vs = (us @ [TocWritten p (without_public_schema toc), ?r]) @ zs"
        using zs by simp
      moreover have "load_trail ?path ?c (us @ [TocWritten p (without_public_schema toc), ?r])"
        unfolding load_trail_def host_load_def us by auto
      ultimately show ?thesis unfolding restore_trail_def by blast
    next
      fix e ys zs
      assume "vs = ys @ zs" and "restore_excepted B ?path ?c e (?t @ ys) = (Inr r, (?t @ ys) @ zs)"
      then show ?thesis
        using restore_trail_within [OF excepted_trail [OF _ assms(2)], of B ?path ?c e "?t @ ys" zs "us @ TocWritten p (without_public_schema toc) # ys"]
        by simp
    qed
    from restore_trail_more [OF this, of "[TocRemoved p]"] show ?thesis
      using t' vs \<open>t1 = t @ us\<close> by (intro exI [of _ "us @ TocWritten p (without_public_schema toc) # vs @ [TocRemoved p]"]) simp
  qed
qed

section \<open>Comparing snapshots\<close>

lemma count_in_absent: "t \<notin> set (all_tables before after) \<Longrightarrow> count_in before t = 0 \<and> count_in after t = 0"
  unfolding count_in_def all_tables_def dict_getd_def by (auto simp: map_of_eq_None_iff [THEN iffD2])

lemma concat_none: "concat (map (\<lambda>t. if P t then [] else [f t]) xs) = [] \<longleftrightarrow> (\<forall>t \<in> set xs. P t)"
  by (induction xs) auto

text \<open>A comparison matches exactly when both snapshots succeeded and every table has the same count in both, where a
  table that is not there counts as empty.\<close>

theorem comparison_matches_iff:
  "pget (compare_snapshots before after) ''matched'' = PBool True \<longleftrightarrow>
     ran_well before \<and> ran_well after \<and> count_in before = count_in after"
proof -
  have "count_diffs before after = [] \<longleftrightarrow> (\<forall>t \<in> set (all_tables before after). count_in before t = count_in after t)"
    unfolding count_diffs_def by (rule concat_none)
  also have "\<dots> \<longleftrightarrow> count_in before = count_in after" using count_in_absent by (metis ext)
  finally show ?thesis by (auto simp: compare_snapshots_def pget_def dict_getd_def)
qed

text \<open>So a restore that lost an empty table is not noticed.\<close>

lemma missing_table_matches:
  "pget (compare_snapshots (snapshot_result ''live'' [(''industrial_events'', 3), (''ai_enriched'', 0)] ''psql'')
     (snapshot_result ''copy'' [(''industrial_events'', 3)] ''psql'')) ''matched'' = PBool True"
  by code_simp

section \<open>Reading the counts\<close>

lemma int_of_text_int_str: "int_of_text (int_str i) = Some i"
proof -
  have d: "nat_str n \<noteq> []" "list_all digit (nat_str n)" for n using nat_str_digits [of n] by (auto simp: list_all_iff)
  have sp: "\<not> py_space c" if "digit c" for c using that by (auto simp: digit_def py_space_def)
  have strip: "py_strip s = s" if "s \<noteq> []" "\<not> py_space (hd s)" "\<not> py_space (last s)" for s
    using that lstrip_fix [of s] rstrip_fix [of s] by (simp add: py_strip_def)
  have hd_digit: "digit (hd (nat_str n))" "digit (last (nat_str n))" for n
    using d(1)[of n] nat_str_digits [of n] by auto
  have minus: "\<not> py_space (CHR ''-'')" by (simp add: py_space_def)
  have sgn: "c \<noteq> CHR ''-''" "c \<noteq> CHR ''+''" if "digit c" for c using that by (auto simp: digit_def)
  show ?thesis
  proof (cases "i < 0")
    case True
    have "py_strip (CHR ''-'' # nat_str (nat (- i))) = CHR ''-'' # nat_str (nat (- i))"
      by (rule strip) (use d hd_digit minus sp in auto)
    then show ?thesis using True d by (simp add: int_str_def int_of_text_def digits_val_nat_str)
  next
    case False
    obtain c cs where n: "nat_str (nat i) = c # cs" using d(1) [of "nat i"] by (cases "nat_str (nat i)") auto
    have c: "digit c" using hd_digit(1) [of "nat i"] n by simp
    have "py_strip (nat_str (nat i)) = nat_str (nat i)" by (rule strip) (use d hd_digit sp in auto)
    then show ?thesis using False n c d(2) [of "nat i"] sgn digits_val_nat_str [of "nat i"] by (simp add: int_str_def int_of_text_def)
  qed
qed

lemma splitlines_line: "\<forall>c \<in> set l. \<not> line_break c \<Longrightarrow> splitlines (l @ CHR 10 # rest) = l # splitlines rest"
proof (induction l)
  case Nil
  have "skip_feed (CHR 10) rest = rest" by (simp add: skip_feed_def split: list.split)
  then show ?case by (simp add: line_break_def)
qed simp

lemma splitlines_lines:
  "\<forall>l \<in> set ls. \<forall>c \<in> set l. \<not> line_break c \<Longrightarrow> splitlines (concat (map (\<lambda>l. l @ [CHR 10]) ls)) = ls"
  by (induction ls) (simp_all add: splitlines_line)

text \<open>A row of the query: the table, a bar, the count.\<close>

definition count_row :: "string \<times> int \<Rightarrow> string" where
  "count_row r = fst r @ CHR ''|'' # int_str (snd r)"

definition plain_table :: "string \<Rightarrow> bool" where
  "plain_table t = (t \<noteq> [] \<and> py_strip t = t \<and> CHR ''|'' \<notin> set t \<and> (\<forall>c \<in> set t. \<not> line_break c))"

lemma int_str_chars: "c \<in> set (int_str i) \<Longrightarrow> digit c \<or> c = CHR ''-''"
  using nat_str_digits by (auto simp: int_str_def split: if_splits)

lemma digit_no_break: "digit c \<Longrightarrow> \<not> line_break c"
  by (auto simp: line_break_def digit_def)

lemma int_str_no_break: "c \<in> set (int_str i) \<Longrightarrow> \<not> line_break c"
  using int_str_chars [of c i] digit_no_break [of c] by (auto simp: line_break_def)

lemma count_row_lines: "plain_table (fst r) \<Longrightarrow> \<forall>c \<in> set (count_row r). \<not> line_break c"
  using int_str_no_break [of _ "snd r"] unfolding count_row_def plain_table_def by (auto simp: line_break_def [of "CHR ''|''"])

lemma split_on_two: "c \<notin> set a \<Longrightarrow> c \<notin> set b \<Longrightarrow> split_on c (a @ c # b) = [a, b]"
proof (induction a)
  case Nil
  have "split_on c b = [b]" using Nil(2) by (induction b) auto
  then show ?case by simp
qed auto

lemma int_str_stripped: "int_of_text (py_strip (int_str i)) = Some i"
  using int_of_text_int_str [of i] by (simp add: int_of_text_def py_strip_idem)

lemma count_line_row:
  assumes "plain_table (fst r)" "fst r \<notin> fst ` set counts"
  shows "count_line counts (count_row r) = counts @ [r]"
proof -
  have bar: "CHR ''|'' \<notin> set (int_str (snd r))" using int_str_chars [of "CHR ''|''" "snd r"] by (auto simp: digit_def)
  have "split_on (CHR ''|'') (count_row r) = [fst r, int_str (snd r)]"
    unfolding count_row_def by (rule split_on_two) (use assms(1) bar in \<open>auto simp: plain_table_def\<close>)
  then have "count_line counts (count_row r) = dict_set counts (fst r) (snd r)"
    using assms(1) int_str_stripped [of "snd r"] by (simp add: count_line_def plain_table_def)
  then show ?thesis using dict_set_fresh [OF assms(2)] by simp
qed

text \<open>The rows a query prints are read back as they are, whatever the counts.\<close>

theorem counts_roundtrip:
  assumes "distinct (map fst rows)" "\<forall>r \<in> set rows. plain_table (fst r)"
  shows "parse_counts (concat (map (\<lambda>r. count_row r @ [CHR 10]) rows)) = rows"
proof -
  have "splitlines (concat (map (\<lambda>l. l @ [CHR 10]) (map count_row rows))) = map count_row rows"
    by (rule splitlines_lines) (use assms(2) count_row_lines in auto)
  then have "parse_counts (concat (map (\<lambda>r. count_row r @ [CHR 10]) rows)) = foldl count_line [] (map count_row rows)"
    by (simp add: parse_counts_def comp_def)
  also have "foldl count_line acc (map count_row rs) = acc @ rs"
    if "distinct (map fst (acc @ rs))" "\<forall>r \<in> set rs. plain_table (fst r)" for acc rs
    using that
  proof (induction rs arbitrary: acc)
    case (Cons r rs)
    have "plain_table (fst r)" using Cons.prems(2) by simp
    moreover have "fst r \<notin> fst ` set acc" using Cons.prems(1) by auto
    ultimately have "count_line acc (count_row r) = acc @ [r]" by (rule count_line_row)
    then show ?case using Cons.IH [of "acc @ [r]"] Cons.prems by simp
  qed simp
  from this [of "[]" rows] assms have "foldl count_line [] (map count_row rows) = rows" by simp
  finally show ?thesis .
qed

lemma plain_tableI:
  "t \<noteq> [] \<Longrightarrow> \<not> py_space (hd t) \<Longrightarrow> \<not> py_space (last t) \<Longrightarrow> CHR ''|'' \<notin> set t \<Longrightarrow> \<forall>c \<in> set t. \<not> line_break c \<Longrightarrow> plain_table t"
  by (simp add: plain_table_def py_strip_def lstrip_fix rstrip_fix)

lemma plain_demo: "plain_table ''ai_enriched''" "plain_table ''processed_events''"
  by (rule plain_tableI; simp add: py_space_def line_break_def)+

theorem counts_roundtrip_witness:
  "parse_counts (concat (map (\<lambda>r. count_row r @ [CHR 10]) [(''ai_enriched'', 0), (''processed_events'', 12)]))
     = [(''ai_enriched'', 0), (''processed_events'', 12)]"
proof -
  have "distinct (map fst [(''ai_enriched'', 0 :: int), (''processed_events'', 12)])" by simp
  moreover have "\<forall>r \<in> set [(''ai_enriched'', 0 :: int), (''processed_events'', 12)]. plain_table (fst r)"
    unfolding list.set ball_simps fst_conv using plain_demo by blast
  ultimately show ?thesis by (rule counts_roundtrip)
qed

section \<open>Accepted drills\<close>

lemma truthy_bool [simp]: "truthy (PBool b) = b"
  by simp

lemma part_flag_none: "pget d k = PNone \<Longrightarrow> \<not> part_flag d k f"
  by (simp add: part_flag_def part_of_def pget_def dict_getd_def)

lemma drill_end_Inr: "drill_end B start result t = (Inr d, t') \<longleftrightarrow> (\<exists>s. d = dict_set result ''total_elapsed_seconds'' (PFloat s) \<and> s = round_digits 4 (be_clock B t - start)) \<and> t' = t"
  by (auto simp: drill_end_def bind_Inr elapsed_since_def)

lemma elapsed_Inr: "elapsed_since B start t = (Inr s, t') \<longleftrightarrow> s = round_digits 4 (be_clock B t - start) \<and> t' = t"
  by (auto simp: elapsed_since_def)

lemma collect_anything: "emits anything (collect_snapshot B names db)"
  by (rule spares_anything [OF collect_spares])

lemma reset_anything: "emits anything (reset_database B db c)"
  by (rule spares_anything [OF reset_spares])

lemma reset_succeeds: "reset_database B db c t = (Inr r, t') \<Longrightarrow> ran_well r \<Longrightarrow> db \<noteq> dbp_name (be_params B)"
  by (auto simp: reset_database_def split: if_splits)

text \<open>A snapshot is the answer of the count query that ran last, against the named database.\<close>

definition counted :: "db_params \<Rightarrow> pydict \<Rightarrow> shell_event list \<Rightarrow> bool" where
  "counted c d xs \<longleftrightarrow>
     (\<exists>ys pl out transport. xs = ys @ [Ran c (Query pl True (dbp_name c) (count_query snapshot_tables)) (Finished out)]
        \<and> d = snapshot_result (dbp_name c) (parse_counts out) transport)"

text \<open>A backup is a dump of the chosen tables of the database into the file it names.\<close>

definition dumped :: "db_params \<Rightarrow> string \<Rightarrow> string list option \<Rightarrow> pydict \<Rightarrow> shell_event list \<Rightarrow> bool" where
  "dumped c path tables d xs \<longleftrightarrow>
     pget d ''path'' = PStr path
     \<and> (\<exists>ys pl out. xs = ys @ [Ran c (PgDump pl path (chosen_tables tables) (dbp_name c)) (Finished out)])"

text \<open>A reset dropped the database and created it again.\<close>

definition recreated :: "db_params \<Rightarrow> string \<Rightarrow> shell_event list \<Rightarrow> bool" where
  "recreated c db xs \<longleftrightarrow> (\<exists>ys pl o1 o2. xs = ys @ [Ran c (DropDb pl db) (Finished o1), Ran c (CreateDb pl db) (Finished o2)])"

lemma counted_within: "counted c d xs \<Longrightarrow> counted c d (us @ xs)"
  and dumped_within: "dumped c path tables d xs \<Longrightarrow> dumped c path tables d (us @ xs)"
  and recreated_within: "recreated c db xs \<Longrightarrow> recreated c db (us @ xs)"
  unfolding counted_def dumped_def recreated_def by (metis append.assoc)+

lemma snapshot_fails [simp]: "\<not> ran_well (exit_error B c cmd e)" "\<not> ran_well (docker_failed s v)"
  by (simp_all add: ran_well_def pget_def dict_getd_def exit_error_def docker_failed_def sh_error_def)

lemma collect_counts:
  assumes "collect_snapshot B [] database t = (Inr d, t @ xs)" "ran_well d"
  shows "counted (restore_params B database) d xs"
proof -
  let ?c = "restore_params B database" and ?q = "count_query snapshot_tables"
  have run: "emits anything (sh_bind (run_check B ?c (Query pl True (dbp_name ?c) ?q)) (\<lambda>out. sh_return (f out)))" for pl and f :: "string \<Rightarrow> pydict"
    by (intro emitting) simp
  have h: "emits anything (case e of NotFound _ \<Rightarrow> snapshot_via_docker B snapshot_tables ?c
      | ProcError _ _ \<Rightarrow> sh_return (exit_error B ?c (Query OnHost True (dbp_name ?c) ?q) e))" for e
    unfolding snapshot_via_docker_def by (intro emitting in_container_anything run) simp
  have "sh_try (sh_bind (run_check B ?c (Query OnHost True (dbp_name ?c) ?q)) (\<lambda>out. sh_return (snapshot_result (dbp_name ?c) (parse_counts out) ''psql'')))
        (\<lambda>e. case e of NotFound _ \<Rightarrow> snapshot_via_docker B snapshot_tables ?c
          | ProcError _ _ \<Rightarrow> sh_return (exit_error B ?c (Query OnHost True (dbp_name ?c) ?q) e)) t = (Inr d, t @ xs)"
    using assms(1) unfolding collect_snapshot_def Let_def restore_params_def [symmetric] if_P [OF refl] .
  then show ?thesis
  proof (rule try_split [OF _ run h])
    assume "sh_bind (run_check B ?c (Query OnHost True (dbp_name ?c) ?q)) (\<lambda>out. sh_return (snapshot_result (dbp_name ?c) (parse_counts out) ''psql'')) t = (Inr d, t @ xs)"
    then show ?thesis unfolding counted_def by (auto simp: bind_Inr run_check_Inr)
  next
    fix e ys zs
    assume xs: "xs = ys @ zs" and e: "(case e of NotFound _ \<Rightarrow> snapshot_via_docker B snapshot_tables ?c
      | ProcError _ _ \<Rightarrow> sh_return (exit_error B ?c (Query OnHost True (dbp_name ?c) ?q) e)) (t @ ys) = (Inr d, (t @ ys) @ zs)"
    obtain msg where "e = NotFound msg" using e assms(2) by (cases e) auto
    then have "snapshot_via_docker B snapshot_tables ?c (t @ ys) = (Inr d, (t @ ys) @ zs)" using e by simp
    then obtain s us vs where "zs = us @ vs"
        "sh_bind (run_check B ?c (Query (InDb s) True (dbp_name ?c) ?q)) (\<lambda>out.
          sh_return (snapshot_result (dbp_name ?c) (parse_counts out) (docker_transport s))) ((t @ ys) @ us) = (Inr d, ((t @ ys) @ us) @ vs)"
      unfolding snapshot_via_docker_def by (rule in_container_split [OF _ assms(2) not_succeeded(5) run])
    moreover from this have "counted ?c d vs" unfolding counted_def by (auto simp: bind_Inr run_check_Inr)
    ultimately show ?thesis using xs counted_within [of ?c d vs "ys @ us"] by simp
  qed
qed

lemma backup_ok_path [simp]: "pget (backup_ok path name stamp tables bytes @ xs) ''path'' = PStr path"
  "pget (backup_ok path name stamp tables bytes) ''path'' = PStr path"
  by (simp_all add: backup_ok_def pget_def dict_getd_def)

lemma path_div_ok: "path_ok (path_div (path_of a) b)"
  using path_of_ok [of a] path_of_ok [of b] unfolding path_div_def path_join_def path_ok_def by auto

lemma dump_size_Inr: "dump_size B path t = (Inr n, t') \<longleftrightarrow> n = (if be_exists B t path then be_bytes B t path else 0) \<and> t' = t"
  by (auto simp: dump_size_def)

lemma create_dumps:
  assumes "create_backup B dir tables t = (Inr d, t @ xs)" "ran_well d"
  obtains path where "dumped (be_params B) path tables d xs" "path_str (path_of path) = path"
proof -
  let ?c = "be_params B" and ?path = "path_str (path_div (path_of (backup_dir B dir)) (backup_name (be_stamp B t)))"
  let ?cmd = "\<lambda>pl. PgDump pl ?path (chosen_tables tables) (dbp_name ?c)"
  have run: "emits anything (sh_bind (run_check B ?c (?cmd pl)) (\<lambda>_. sh_bind (dump_size B ?path) (\<lambda>bytes. sh_return (f bytes))))"
    for pl and f :: "int \<Rightarrow> pydict" unfolding dump_size_def by (intro emitting) simp
  have ends: "\<exists>o1 bytes. us = [Ran ?c (?cmd pl) (Finished o1)] \<and> d = f bytes"
    if "sh_bind (run_check B ?c (?cmd pl)) (\<lambda>_. sh_bind (dump_size B ?path) (\<lambda>bytes. sh_return (f bytes))) t1 = (Inr d, t1 @ us)"
    for pl t1 us and f :: "int \<Rightarrow> pydict" using that by (auto simp: bind_Inr run_check_Inr dump_size_Inr)
  have dock: "emits anything (create_backup_via_docker B ?path (be_stamp B t) ?c tables)"
    unfolding create_backup_via_docker_def
    by (intro emitting run) (simp_all add: emits_return split: option.split shell_exc.split)
  have h: "emits anything (case e of ProcError _ _ \<Rightarrow> sh_return (exit_error B ?c (?cmd OnHost) e)
      | NotFound _ \<Rightarrow> create_backup_via_docker B ?path (be_stamp B t) ?c tables)" for e
    by (intro emitting dock)
  have "sh_try (sh_bind (run_check B ?c (?cmd OnHost)) (\<lambda>_. sh_bind (dump_size B ?path) (\<lambda>bytes.
            sh_return (backup_ok ?path (backup_name (be_stamp B t)) (be_stamp B t) tables bytes))))
         (\<lambda>e. case e of ProcError _ _ \<Rightarrow> sh_return (exit_error B ?c (?cmd OnHost) e)
          | NotFound _ \<Rightarrow> create_backup_via_docker B ?path (be_stamp B t) ?c tables) t = (Inr d, t @ xs)"
    using assms(1) unfolding create_backup_def Let_def bind_Inr [of "sh_ask (be_stamp B)"] ask_Inr by blast
  then have "dumped ?c ?path tables d xs"
  proof (rule try_split [OF _ run h])
    assume "sh_bind (run_check B ?c (?cmd OnHost)) (\<lambda>_. sh_bind (dump_size B ?path) (\<lambda>bytes.
            sh_return (backup_ok ?path (backup_name (be_stamp B t)) (be_stamp B t) tables bytes))) t = (Inr d, t @ xs)"
    from ends [OF this] show ?thesis unfolding dumped_def by auto
  next
    fix e ys zs
    assume xs: "xs = ys @ zs" and e: "(case e of ProcError _ _ \<Rightarrow> sh_return (exit_error B ?c (?cmd OnHost) e)
          | NotFound _ \<Rightarrow> create_backup_via_docker B ?path (be_stamp B t) ?c tables) (t @ ys) = (Inr d, (t @ ys) @ zs)"
    obtain msg where "e = NotFound msg" using e assms(2) by (cases e) auto
    then have "create_backup_via_docker B ?path (be_stamp B t) ?c tables (t @ ys) = (Inr d, (t @ ys) @ zs)" using e by simp
    then obtain found t1 where s: "detect_service B ?c (t @ ys) = (Inr found, t1)" and f: "(case found of
        None \<Rightarrow> sh_return (sh_error (PStr ''pg_dump not found and no running docker database service detected.''))
      | Some s \<Rightarrow> sh_try (sh_bind (run_check B ?c (?cmd (InDb s))) (\<lambda>_. sh_bind (dump_size B ?path) (\<lambda>bytes.
               sh_return (backup_ok ?path (backup_name (be_stamp B t)) (be_stamp B t) tables bytes @ [(''transport'', PStr (docker_transport s))]))))
            (\<lambda>e. case e of ProcError _ _ \<Rightarrow> sh_return (docker_failed s (stderr_of e)) | NotFound _ \<Rightarrow> sh_raise e)) t1 = (Inr d, (t @ ys) @ zs)"
      unfolding create_backup_via_docker_def bind_Inr [of "detect_service B ?c"] by blast
    have "found \<noteq> None"
    proof
      assume "found = None"
      then show False using f assms(2) by (simp add: ran_well_def pget_def dict_getd_def sh_error_def)
    qed
    then obtain s where found: "found = Some s" by blast
    obtain us where us: "t1 = (t @ ys) @ us" using emitsD [OF detect_anything s] by metis
    have f: "sh_bind (run_check B ?c (?cmd (InDb s))) (\<lambda>_. sh_bind (dump_size B ?path) (\<lambda>bytes.
               sh_return (backup_ok ?path (backup_name (be_stamp B t)) (be_stamp B t) tables bytes @ [(''transport'', PStr (docker_transport s))]))) t1 = (Inr d, (t @ ys) @ zs)"
      using f assms(2) unfolding found option.case try_Inr
      by (elim disjE exE conjE) (simp, auto split: shell_exc.splits)
    obtain vs where vs: "(t @ ys) @ zs = t1 @ vs" using emitsD [OF run f] by metis
    have "dumped ?c ?path tables d vs" using ends [OF f [unfolded vs]] unfolding dumped_def by auto
    moreover have "xs = (ys @ us) @ vs" using xs us vs by simp
    ultimately show ?thesis using dumped_within by metis
  qed
  then show thesis using that path_of_str [OF path_div_ok] by metis
qed

lemma reset_recreates:
  assumes "reset_database B db c t = (Inr r, t @ xs)" "ran_well r"
  shows "recreated c db xs"
proof -
  have run: "emits anything (recreate B c pl db tr)" for pl tr unfolding recreate_def by (intro emitting) simp_all
  have ends: "recreated c db us" if "recreate B c pl db tr t1 = (Inr r, t1 @ us)" for pl tr t1 us
    using that unfolding recreate_def recreated_def by (auto simp: bind_Inr run_check_Inr)
  have h: "emits anything (case e of NotFound _ \<Rightarrow> in_container B c (no_service ''dropdb/createdb'') (\<lambda>s. recreate B c (InDb s) db (docker_transport s))
      | ProcError _ _ \<Rightarrow> sh_return (exit_error B c (DropDb OnHost db) e))" for e by (intro emitting in_container_anything run)
  have "sh_try (recreate B c OnHost db ''psql'')
          (\<lambda>e. case e of NotFound _ \<Rightarrow> in_container B c (no_service ''dropdb/createdb'') (\<lambda>s. recreate B c (InDb s) db (docker_transport s))
           | ProcError _ _ \<Rightarrow> sh_return (exit_error B c (DropDb OnHost db) e)) t = (Inr r, t @ xs)"
    using assms unfolding reset_database_def by (auto split: if_splits)
  then show ?thesis
  proof (rule try_split [OF _ run h])
    fix e ys zs
    assume xs: "xs = ys @ zs" and e: "(case e of NotFound _ \<Rightarrow> in_container B c (no_service ''dropdb/createdb'') (\<lambda>s. recreate B c (InDb s) db (docker_transport s))
           | ProcError _ _ \<Rightarrow> sh_return (exit_error B c (DropDb OnHost db) e)) (t @ ys) = (Inr r, (t @ ys) @ zs)"
    obtain msg where "e = NotFound msg" using e assms(2) by (cases e) auto
    then have "in_container B c (no_service ''dropdb/createdb'') (\<lambda>s. recreate B c (InDb s) db (docker_transport s)) (t @ ys) = (Inr r, (t @ ys) @ zs)"
      using e by simp
    then obtain s us vs where "zs = us @ vs" "recreate B c (InDb s) db (docker_transport s) ((t @ ys) @ us) = (Inr r, ((t @ ys) @ us) @ vs)"
      by (rule in_container_split [OF _ assms(2) not_succeeded(5) run])
    then show ?thesis using ends [of "InDb s" _ "(t @ ys) @ us" vs] xs recreated_within [of c db vs "ys @ us"] by simp
  qed (rule ends)
qed

text \<open>What the end of a drill with a matching comparison records, for the backup at the path and the snapshot before it:
  another database than the live one was dropped and created again, the file at that path was loaded into it by a
  restore that succeeded, and its rows, counted after that, are as many as before.\<close>

definition restore_proof :: "backup_env \<Rightarrow> string \<Rightarrow> pydict \<Rightarrow> string \<Rightarrow> shell_event list \<Rightarrow> pydict \<Rightarrow> bool" where
  "restore_proof B path before db xs d \<longleftrightarrow>
     (\<exists>restored after us vs ws. db \<noteq> dbp_name (be_params B)
        \<and> pget d ''restore'' = PDict restored \<and> ran_well restored \<and> pget d ''after_snapshot'' = PDict after
        \<and> count_in before = count_in after \<and> xs = us @ vs @ ws \<and> recreated (be_params B) db us
        \<and> restore_trail path ((be_params B)\<lparr>dbp_name := db\<rparr>) (pget restored ''hypertables_verified'') vs
        \<and> counted ((be_params B)\<lparr>dbp_name := db\<rparr>) after ws)"

text \<open>The whole drill: first the rows of the live database are counted, then it is dumped into a file, then that file is
  restored.\<close>

definition drill_proof :: "backup_env \<Rightarrow> string list option \<Rightarrow> string \<Rightarrow> shell_event list \<Rightarrow> pydict \<Rightarrow> bool" where
  "drill_proof B tables db xs d \<longleftrightarrow>
     (\<exists>before path us vs ws zs. xs = us @ vs @ ws @ zs \<and> pget d ''before_snapshot'' = PDict before
        \<and> counted (be_params B) before us \<and> dumped (be_params B) path tables (part_of d ''backup'') vs
        \<and> restore_proof B path before db zs d)"

lemma restore_params_Some: "db \<noteq> [] \<Longrightarrow> restore_params B (Some db) = (be_params B)\<lparr>dbp_name := db\<rparr>"
  by (cases db) (simp_all add: restore_params_def)

lemma drill_restore_proof:
  assumes "drill_restore B start before result path db t = (Inr d, t @ xs)" "pget result ''snapshot_comparison'' = PNone"
    "part_flag d ''snapshot_comparison'' ''matched''" "db \<noteq> []" "path_str (path_of path) = path"
  shows "restore_proof B path before db xs d \<and> ran_well before
    \<and> (\<forall>k \<in> {''before_snapshot'', ''backup'', ''backup_elapsed_seconds''}. pget d k = pget result k)"
proof -
  let ?result = "\<lambda>reset. dict_set result ''restore_reset'' (PDict reset)"
  obtain reset t1 where reset: "reset_database B db (be_params B) t = (Inr reset, t1)"
      and f: "(if \<not> ran_well reset
       then drill_end B start (dict_set (dict_set (?result reset) ''restore'' (PDict reset)) ''restore_elapsed_seconds'' (PFloat 0))
       else
         sh_bind (sh_ask (be_clock B)) (\<lambda>began.
         sh_bind (restore_backup B path (Some db)) (\<lambda>restored.
         sh_bind (elapsed_since B began) (\<lambda>s.
           let result = dict_set (dict_set (?result reset) ''restore'' (PDict restored)) ''restore_elapsed_seconds'' (PFloat s) in
           if \<not> ran_well restored then drill_end B start result
           else sh_bind (collect_snapshot B [] (Some db)) (\<lambda>after.
             drill_end B start
               (dict_set (dict_set (dict_set result ''hypertable_comparison'' (pget restored ''hypertables''))
                   ''after_snapshot'' (PDict after)) ''snapshot_comparison'' (PDict (compare_snapshots before after)))))))) t1 = (Inr d, t @ xs)"
    using assms(1) unfolding drill_restore_def Let_def bind_Inr [of "reset_database B db (be_params B)"] by blast
  have ok: "ran_well reset"
  proof (rule ccontr)
    assume "\<not> ran_well reset"
    then have "pget d ''snapshot_comparison'' = PNone" using f assms(2) by (auto simp: drill_end_Inr)
    then show False using assms(3) part_flag_none by blast
  qed
  then obtain restored t2 s where r: "restore_backup B path (Some db) t1 = (Inr restored, t2)"
      and g: "(if \<not> ran_well restored then drill_end B start (dict_set (dict_set (?result reset) ''restore'' (PDict restored)) ''restore_elapsed_seconds'' (PFloat s))
           else sh_bind (collect_snapshot B [] (Some db)) (\<lambda>after.
             drill_end B start
               (dict_set (dict_set (dict_set (dict_set (dict_set (?result reset) ''restore'' (PDict restored)) ''restore_elapsed_seconds'' (PFloat s))
                   ''hypertable_comparison'' (pget restored ''hypertables''))
                   ''after_snapshot'' (PDict after)) ''snapshot_comparison'' (PDict (compare_snapshots before after))))) t2 = (Inr d, t @ xs)"
    using f unfolding Let_def by (auto simp: bind_Inr elapsed_Inr)
  have rok: "ran_well restored"
  proof (rule ccontr)
    assume "\<not> ran_well restored"
    then have "pget d ''snapshot_comparison'' = PNone" using g assms(2) by (auto simp: drill_end_Inr)
    then show False using assms(3) part_flag_none by blast
  qed
  then obtain after t3 s' where a: "collect_snapshot B [] (Some db) t2 = (Inr after, t3)" "t3 = t @ xs"
      and d: "d = dict_set (dict_set (dict_set (dict_set (dict_set (dict_set (?result reset) ''restore'' (PDict restored)) ''restore_elapsed_seconds'' (PFloat s))
                   ''hypertable_comparison'' (pget restored ''hypertables''))
                   ''after_snapshot'' (PDict after)) ''snapshot_comparison'' (PDict (compare_snapshots before after))) ''total_elapsed_seconds'' (PFloat s')"
    using g by (auto simp: bind_Inr drill_end_Inr)
  have m: "ran_well before \<and> ran_well after \<and> count_in before = count_in after"
  proof -
    have "truthy (pget (compare_snapshots before after) ''matched'')" using assms(3) by (simp add: d part_flag_def part_of_def)
    moreover obtain b where "pget (compare_snapshots before after) ''matched'' = PBool b"
      by (simp add: compare_snapshots_def pget_def dict_getd_def)
    ultimately show ?thesis using comparison_matches_iff [of before after] by simp
  qed
  obtain us where us: "t1 = t @ us" using emitsD [OF reset_anything reset] by metis
  obtain vs where vs: "t2 = t1 @ vs"
      "restore_trail path ((be_params B)\<lparr>dbp_name := db\<rparr>) (pget restored ''hypertables_verified'') vs"
    using restore_reports_truth [OF r rok] unfolding assms(5) restore_params_Some [OF assms(4)] by blast
  obtain ws where ws: "t3 = t2 @ ws" using emitsD [OF collect_anything a(1)] by metis
  have "counted ((be_params B)\<lparr>dbp_name := db\<rparr>) after ws"
    using collect_counts [OF a(1) [unfolded ws]] m unfolding restore_params_Some [OF assms(4)] by blast
  moreover have "recreated (be_params B) db us" using reset ok unfolding us by (rule reset_recreates)
  moreover have "xs = us @ vs @ ws" using us vs(1) ws a(2) by simp
  moreover have "db \<noteq> dbp_name (be_params B)" by (rule reset_succeeds [OF reset ok])
  moreover have "pget d ''restore'' = PDict restored" "pget d ''after_snapshot'' = PDict after" by (simp_all add: d)
  ultimately have "restore_proof B path before db xs d" unfolding restore_proof_def using m rok vs(2) by blast
  then show ?thesis using m by (simp add: d)
qed

lemma create_anything: "emits anything (create_backup B dir tables)"
  by (rule spares_anything [OF create_spares])

lemma walg_anything: "emits anything (walg_status B)"
  by (rule spares_anything [OF walg_spares])

lemma drill_start_gets:
  "pget (drill_start before backup s files walg policy) ''snapshot_comparison'' = PNone"
  "pget (drill_start before backup s files walg policy) ''before_snapshot'' = PDict before"
  "pget (drill_start before backup s files walg policy) ''backup'' = PDict backup"
  by (simp_all add: drill_start_def pget_def dict_getd_def)

lemma drill_accepted_parts:
  assumes "drill_accepted mode d"
  shows "part_flag d ''snapshot_comparison'' ''matched'' \<and> part_flag d ''restore'' ''hypertables_verified'' \<and> ran_well (part_of d ''backup'')
    \<and> seconds_of d ''backup_elapsed_seconds'' \<le> max (restore_threshold mode / 2) 10
    \<and> (no_restore d \<or> seconds_of d ''restore_elapsed_seconds'' \<le> restore_threshold mode)"
  using assms unfolding drill_accepted_def Let_def by blast


text \<open>On the host the list file of a restore is removed again, whatever the tools answer.\<close>

theorem host_list_removed:
  assumes "be_exists B t (path_str (path_of backup_path))"
    "be_answer B t (RestoreList OnHost (path_str (path_of backup_path))) = Finished toc"
    "restore_backup B backup_path target t = (r, t')"
  shows "\<exists>p xs. t' = t @ [Ran (restore_params B target) (RestoreList OnHost (path_str (path_of backup_path))) (Finished toc),
      TocWritten p (without_public_schema toc)] @ xs @ [TocRemoved p]"
proof -
  let ?path = "path_str (path_of backup_path)" and ?c = "restore_params B target"
  let ?t = "t @ [Ran ?c (RestoreList OnHost ?path) (Finished toc)]"
  let ?p = "be_toc B ?t"
  let ?body = "sh_try (host_restore_steps B ?path ?c ?p) (restore_excepted B ?path ?c)"
  have run: "run_check B ?c (RestoreList OnHost ?path) t = (Inr toc, ?t)" using assms(2) by (simp add: run_check_Inr)
  have "sh_finally ?body (remove_toc ?p) (?t @ [TocWritten ?p (without_public_schema toc)]) = (r, t')"
    using assms(1,3) run unfolding restore_backup_def Let_def restore_params_def [symmetric]
    by (simp add: sh_bind_def sh_ask_def attempt_def write_toc_def sh_emit_def sh_return_def)
  then obtain t1 where b: "?body (?t @ [TocWritten ?p (without_public_schema toc)]) = (r, t1)" and t': "t' = t1 @ [TocRemoved ?p]"
    by (auto simp: finally_Inr)
  obtain xs where "t1 = (?t @ [TocWritten ?p (without_public_schema toc)]) @ xs"
    using emitsD [OF emits_try [OF host_steps_anything excepted_anything] b] by metis
  then show ?thesis using t' by (intro exI [of _ ?p] exI [of _ xs]) simp
qed

section \<open>Example environments\<close>

definition all_hypertables :: string where
  "all_hypertables = concat (map (\<lambda>t. t @ [CHR 10]) (sort snapshot_tables))"

definition live_params :: db_params where
  "live_params = \<lparr>dbp_host = ''db'', dbp_port = ''5432'', dbp_name = ''live'', dbp_user = ''u'', dbp_password = ''secret''\<rparr>"

text \<open>Tools that work: the counts are given for each database, the wal-g tool is missing.\<close>

definition sunny_answer :: "(string \<Rightarrow> string) \<Rightarrow> pg_command \<Rightarrow> answer" where
  "sunny_answer counts cmd =
     (case cmd of
        Query _ True db _ \<Rightarrow> Finished (counts db) | Query _ False _ _ \<Rightarrow> Finished all_hypertables
      | RestoreList _ _ \<Rightarrow> Finished (''SCHEMA - public x'' @ [CHR 10] @ ''TABLE a'' @ [CHR 10])
      | WalgVersion \<Rightarrow> Absent ''wal-g'' | ComposePs _ \<Rightarrow> Finished ''c1'' | DatabaseExists _ _ \<Rightarrow> Finished ''1'' | _ \<Rightarrow> Finished [])"

definition sunny_env :: "(pg_command \<Rightarrow> answer) \<Rightarrow> backup_env" where
  "sunny_env answers =
     \<lparr>be_answer = (\<lambda>t. answers), be_params = live_params, be_preferred = None, be_compose = ''compose.yml'', be_toc = (\<lambda>t. ''/tmp/r.toc''),
      be_stamp = (\<lambda>t. ''20250101_000000''), be_exists = (\<lambda>t p. True), be_bytes = (\<lambda>t p. 7), be_listing = (\<lambda>t d. None), be_clock = (\<lambda>t. 0),
      be_home = ''backups''\<rparr>"

definition equal_counts :: "string \<Rightarrow> string" where
  "equal_counts db = ''industrial_events|3'' @ [CHR 10] @ ''ai_enriched|0'' @ [CHR 10]"

definition demo_drill :: "(shell_exc + pydict) \<times> shell_event list" where
  "demo_drill = run_backup_drill (sunny_env (sunny_answer equal_counts)) None None (Some ''copy'') [] []"

lemma demo_drill_runs: "case demo_drill of (Inr d, t) \<Rightarrow> drill_accepted ''plant-local'' d \<and> length t = 13 | _ \<Rightarrow> False"
  by code_simp

definition tools_env :: backup_env where
  "tools_env = sunny_env (sunny_answer equal_counts)"

definition result_of :: "(shell_exc + pydict) \<times> shell_event list \<Rightarrow> pydict" where
  "result_of x = (case fst x of Inr d \<Rightarrow> d | Inl _ \<Rightarrow> [])"

lemma case_run: "(case x of (Inr d, t) \<Rightarrow> P d t | _ \<Rightarrow> False) \<Longrightarrow> x = (Inr (result_of x), snd x) \<and> P (result_of x) (snd x)"
  by (cases x; cases "fst x") (simp_all add: result_of_def)

definition demo_result :: pydict where
  "demo_result = result_of demo_drill"

lemma demo_drill_result: "demo_drill = (Inr demo_result, snd demo_drill)" and demo_accepted: "drill_accepted ''plant-local'' demo_result"
  using case_run [OF demo_drill_runs] unfolding demo_result_def by blast+

lemma demo_drops: "Ran live_params (DropDb OnHost ''copy'') (Finished []) \<in> set (snd demo_drill)"
  by code_simp



definition demo_restore :: "(shell_exc + pydict) \<times> shell_event list" where
  "demo_restore = restore_backup tools_env ''b.sql'' (Some ''copy'') []"

definition restored_result :: pydict where
  "restored_result = result_of demo_restore"

lemma demo_restore_runs:
  "case demo_restore of (Inr d, t) \<Rightarrow> ran_well d \<and> pget d ''hypertables_verified'' = PBool True | _ \<Rightarrow> False"
  by code_simp

lemma demo_restore_result:
  "demo_restore = (Inr restored_result, snd demo_restore)" "ran_well restored_result" "pget restored_result ''hypertables_verified'' = PBool True"
  using case_run [OF demo_restore_runs] unfolding restored_result_def by blast+

theorem restore_reports_truth_witness:
  "restore_trail ''b.sql'' (live_params\<lparr>dbp_name := ''copy''\<rparr>) (PBool True) (snd demo_restore)"
proof -
  have c: "restore_params tools_env (Some ''copy'') = live_params\<lparr>dbp_name := ''copy''\<rparr>"
    by (simp add: restore_params_def tools_env_def sunny_env_def)
  have f: "path_str (path_of ''b.sql'') = ''b.sql''" by code_simp
  show ?thesis using restore_reports_truth [OF demo_restore_result(1) [unfolded demo_restore_def] demo_restore_result(2)]
    unfolding c f demo_restore_result(3) by (simp add: demo_restore_def)
qed

theorem host_list_removed_witness: "\<exists>p xs. snd demo_restore = xs @ [TocRemoved p]"
proof -
  have e: "be_exists tools_env [] (path_str (path_of ''b.sql''))" by (simp add: tools_env_def sunny_env_def)
  have "be_answer tools_env [] (RestoreList OnHost (path_str (path_of ''b.sql''))) = Finished (''SCHEMA - public x'' @ [CHR 10] @ ''TABLE a'' @ [CHR 10])"
    by (simp add: tools_env_def sunny_env_def sunny_answer_def)
  from host_list_removed [OF e this demo_restore_result(1) [unfolded demo_restore_def]] show ?thesis
    unfolding demo_restore_def [symmetric] by (metis append.assoc append_Nil)
qed

section \<open>Edges\<close>

text \<open>The exit code of a drill ignores the comparison: counts that differ give success.\<close>

definition lossy_counts :: "string \<Rightarrow> string" where
  "lossy_counts db = (if db = ''live'' then ''industrial_events|3'' else ''industrial_events|1'') @ [CHR 10]"

lemma mismatch_exits_zero:
  "case cmd_backup_drill (sunny_env (sunny_answer lossy_counts)) None None (Some ''copy'') [] of
     (Inr (code, d), t) \<Rightarrow> code = 0 \<and> \<not> part_flag d ''snapshot_comparison'' ''matched'' | _ \<Rightarrow> False"
  by code_simp

text \<open>The policy a matrix adds to a drill never arrives: the drill has an empty one already.\<close>

lemma policy_never_set:
  "pget (dict_default demo_result ''backup_policy'' (policy_value b)) ''backup_policy'' = PDict []"
proof -
  have "case demo_drill of (Inr d, t) \<Rightarrow> map_of d ''backup_policy'' = Some (PDict []) | _ \<Rightarrow> False" by code_simp
  from case_run [OF this] have "map_of demo_result ''backup_policy'' = Some (PDict [])" unfolding demo_result_def by (rule conjunct2)
  then have "map_of (dict_default demo_result ''backup_policy'' (policy_value b)) ''backup_policy'' = Some (PDict [])"
    by (rule dict_default_keeps)
  then show ?thesis by (simp add: pget_def dict_getd_def)
qed

text \<open>In a container a restore that fails leaves its list file, and the extension in its restoring mode: the hook before
  the restore ran, the hook after it did not.\<close>

definition container_answer :: "pg_command \<Rightarrow> answer" where
  "container_answer cmd =
     (case cmd of
        RestoreList OnHost _ \<Rightarrow> Absent ''pg_restore'' | PgRestore (InDb _) _ _ _ \<Rightarrow> Exit [] ''broken'' ''exit 1''
      | _ \<Rightarrow> sunny_answer equal_counts cmd)"

lemma failed_container_restore_leaks:
  "case restore_backup (sunny_env container_answer) ''b.sql'' (Some ''copy'') [] of
     (Inr d, t) \<Rightarrow> \<not> ran_well d \<and> list_ex (\<lambda>e. case e of TocWritten p _ \<Rightarrow> TocRemoved p \<notin> set t | _ \<Rightarrow> False) t
       \<and> list_ex (\<lambda>e. case e of Ran _ (PreRestore _ _) (Finished _) \<Rightarrow> True | _ \<Rightarrow> False) t
       \<and> \<not> list_ex (\<lambda>e. case e of Ran _ (Script _ _ _) _ \<Rightarrow> True | _ \<Rightarrow> False) t
   | _ \<Rightarrow> False"
  by code_simp

text \<open>The same hook never runs on the host.\<close>

lemma host_restore_without_hook:
  "\<not> list_ex (\<lambda>e. case e of Ran _ (PreRestore _ _) _ \<Rightarrow> True | _ \<Rightarrow> False) (snd demo_restore)"
  by code_simp

text \<open>A failed copy into the container is reported without a reason, and a reset whose second command failed names the
  first.\<close>

lemma copy_failure_unexplained:
  "case restore_backup (sunny_env (\<lambda>cmd. case cmd of RestoreList OnHost _ \<Rightarrow> Absent ''pg_restore''
       | CopyIn _ _ _ \<Rightarrow> Exit [] ''no space'' ''exit 1'' | _ \<Rightarrow> sunny_answer equal_counts cmd)) ''b.sql'' (Some ''copy'') [] of
     (Inr d, t) \<Rightarrow> pget d ''status'' = PStr ''error'' \<and> map_of d ''error'' = Some PNone | _ \<Rightarrow> False"
  by code_simp

lemma reset_blames_drop:
  "case reset_database (sunny_env (\<lambda>cmd. case cmd of CreateDb _ _ \<Rightarrow> Exit [] ''denied'' ''exit 1'' | _ \<Rightarrow> Finished [])) ''copy'' live_params [] of
     (Inr d, t) \<Rightarrow> (case pget d ''command'' of PStr s \<Rightarrow> starts_with s ''dropdb '' | _ \<Rightarrow> False) | _ \<Rightarrow> False"
  by code_simp

text \<open>On the host the password is no argument of any command; in a container it is one.\<close>

definition host_command :: "pg_command \<Rightarrow> bool" where
  "host_command cmd =
     (case cmd of Query pl _ _ _ \<Rightarrow> pl = OnHost | Script pl _ _ \<Rightarrow> pl = OnHost | DropDb pl _ \<Rightarrow> pl = OnHost | CreateDb pl _ \<Rightarrow> pl = OnHost
      | PgDump pl _ _ _ \<Rightarrow> pl = OnHost | RestoreList pl _ \<Rightarrow> pl = OnHost | PgRestore pl _ _ _ \<Rightarrow> pl = OnHost | WalgVersion \<Rightarrow> True | _ \<Rightarrow> False)"

lemma host_arguments_without_password: "host_command cmd \<Longrightarrow> argv B (c\<lparr>dbp_password := p\<rparr>) cmd = argv B c cmd"
  by (cases cmd) (auto simp: host_command_def argv_def host_args_def)

lemma container_arguments_show_password: "''PGPASSWORD='' @ dbp_password c \<in> set (argv B c (DropDb (InDb s) db))"
  by (simp add: argv_def docker_exec_env_def)

text \<open>A restore without a target goes into the live database, which the reset refuses to touch.\<close>

lemma untargeted_restore_overwrites:
  "list_ex (\<lambda>e. case e of Ran _ (PgRestore _ _ db _) _ \<Rightarrow> db = dbp_name live_params | _ \<Rightarrow> False)
     (snd (restore_backup tools_env ''b.sql'' None []))"
  by code_simp

text \<open>A backup that succeeded is among the listed ones when its file is in the directory, and newer stamps come first.\<close>

lemma backup_name_listed: "is_backup_name (backup_name stamp)"
proof -
  have "starts_with (backup_name stamp) ''historian_backup_''" unfolding starts_with_iff backup_name_def by blast
  moreover have "ends_with (backup_name stamp) ''.sql''" by (simp add: ends_with_def backup_name_def)
  ultimately show ?thesis by (simp add: is_backup_name_def backup_name_def)
qed

theorem backups_newest_first:
  assumes "list_backups B dir t = (Inr entries, t')" "be_listing B t (backup_dir B dir) = Some files"
  shows "sorted (rev (map (\<lambda>e. case pget e ''filename'' of PStr n \<Rightarrow> n | _ \<Rightarrow> []) entries))
    \<and> (\<forall>f \<in> set files. is_backup_name (fst f) \<longrightarrow> backup_entry (backup_dir B dir) f \<in> set entries)"
proof -
  have e: "entries = map (backup_entry (backup_dir B dir)) (rev (sort_key fst (filter (\<lambda>f. is_backup_name (fst f)) files)))"
    using assms by (simp add: list_backups_def)
  have n: "(case pget (backup_entry x f) ''filename'' of PStr n \<Rightarrow> n | _ \<Rightarrow> []) = fst f" for x f
    by (simp add: backup_entry_def pget_def dict_getd_def)
  have "sorted (map fst (sort_key fst (filter (\<lambda>f. is_backup_name (fst f)) files)))" by (rule sorted_sort_key)
  then have "sorted (rev (map (\<lambda>e. case pget e ''filename'' of PStr n \<Rightarrow> n | _ \<Rightarrow> []) entries))"
    unfolding e by (simp add: rev_map n comp_def)
  then show ?thesis unfolding e by auto
qed

end
