(* ===== verification/Assistant_Streams.thy ===== *)
theory Assistant_Streams
  imports Py_Prelude
begin

text \<open>
  The streams of the assistant (\<open>services/common/assistant_streams.py\<close>), in the process-local form that is used without
  Redis: the events of each stream, numbered and bounded, the owners, which live in the same table under keys of their
  own, the cancelled streams and the queue of jobs. Times come from the clock of the process.
\<close>

section \<open>State and operations\<close>

type_synonym bus_rows = "(string \<times> pydict) list"

record stream_bus =
  sb_events :: "(string \<times> bus_rows) list"
  sb_sequence :: "(string \<times> nat) list"
  sb_cancelled :: "string list"
  sb_jobs :: "pydict list"

definition empty_bus :: stream_bus where
  "empty_bus = \<lparr>sb_events = [], sb_sequence = [], sb_cancelled = [], sb_jobs = []\<rparr>"

definition bus_owner_key :: "string \<Rightarrow> string" where
  "bus_owner_key stream_id = ''ravan:assistant:owner:'' @ stream_id"

definition enqueue_job :: "pydict \<Rightarrow> stream_bus \<Rightarrow> stream_bus" where
  "enqueue_job payload b = b\<lparr>sb_jobs := sb_jobs b @ [payload]\<rparr>"

definition dequeue_job :: "stream_bus \<Rightarrow> pydict option \<times> stream_bus" where
  "dequeue_job b = (case sb_jobs b of [] \<Rightarrow> (None, b) | j # js \<Rightarrow> (Some j, b\<lparr>sb_jobs := js\<rparr>))"

text \<open>\<open>bind_owner\<close>: one row under the key of the owner; \<open>json\<close> is the text of the value, read back as it was.\<close>

definition owner_value :: "string \<Rightarrow> string \<Rightarrow> pydict" where
  "owner_value thread_id actor_id = [(''thread_id'', PStr thread_id), (''actor_id'', PStr actor_id)]"

definition bind_owner :: "pyrt \<Rightarrow> string \<Rightarrow> string \<Rightarrow> string \<Rightarrow> stream_bus \<Rightarrow> stream_bus" where
  "bind_owner R stream_id thread_id actor_id b =
     (let v = PDict (owner_value thread_id actor_id) in
      b\<lparr>sb_events := dict_set (sb_events b) (bus_owner_key stream_id) [(json_of R v, [(''owner'', v)])]\<rparr>)"

definition stream_rows :: "stream_bus \<Rightarrow> string \<Rightarrow> bus_rows" where
  "stream_rows b stream_id = dict_getd (sb_events b) stream_id []"

definition stream_owner :: "string \<Rightarrow> stream_bus \<Rightarrow> pyval" where
  "stream_owner stream_id b =
     (case stream_rows b (bus_owner_key stream_id) of [] \<Rightarrow> PNone | rows \<Rightarrow> pget (snd (last rows)) ''owner'')"

text \<open>\<open>f"{n:0wd}"\<close> and the identifier of an event.\<close>

definition padded :: "nat \<Rightarrow> nat \<Rightarrow> string" where
  "padded w n = replicate (w - length (nat_str n)) (CHR ''0'') @ nat_str n"

definition stream_event_id :: "nat \<Rightarrow> nat \<Rightarrow> string" where
  "stream_event_id now seq_no = padded 20 now @ CHR ''-'' # padded 6 seq_no"

definition stream_event :: "string \<Rightarrow> string \<Rightarrow> pydict \<Rightarrow> pydict" where
  "stream_event stream_id event_type payload =
     [(''event'', PStr event_type), (''data'', PDict payload), (''stream_id'', PStr stream_id)]"

definition stream_limit :: nat where
  "stream_limit = 1000"

definition publish_stream :: "nat \<Rightarrow> string \<Rightarrow> string \<Rightarrow> pydict \<Rightarrow> stream_bus \<Rightarrow> string \<times> stream_bus" where
  "publish_stream now stream_id event_type payload b =
     (let n = Suc (dict_getd (sb_sequence b) stream_id 0);
          event_id = stream_event_id now n;
          rows = stream_rows b stream_id @ [(event_id, stream_event stream_id event_type payload)]
      in (event_id, b\<lparr>sb_sequence := dict_set (sb_sequence b) stream_id n, sb_events := dict_set (sb_events b) stream_id (last_n stream_limit rows)\<rparr>))"

definition from_start :: "string \<Rightarrow> bool" where
  "from_start after_id = (after_id \<in> {[], ''-'', ''0''})"

definition replay_stream :: "string \<Rightarrow> string \<Rightarrow> stream_bus \<Rightarrow> bus_rows" where
  "replay_stream stream_id after_id b = filter (\<lambda>r. from_start after_id \<or> after_id < fst r) (stream_rows b stream_id)"

text \<open>\<open>wait_for_events\<close>: the replay after the pause, of whatever the bus is then.\<close>

definition wait_for_events :: "(stream_bus \<Rightarrow> stream_bus) \<Rightarrow> string \<Rightarrow> string \<Rightarrow> stream_bus \<Rightarrow> bus_rows" where
  "wait_for_events others stream_id after_id b = replay_stream stream_id after_id (others b)"

definition cancel_stream :: "string \<Rightarrow> stream_bus \<Rightarrow> stream_bus" where
  "cancel_stream stream_id b = b\<lparr>sb_cancelled := List.insert stream_id (sb_cancelled b)\<rparr>"

definition is_cancelled :: "string \<Rightarrow> stream_bus \<Rightarrow> bool" where
  "is_cancelled stream_id b = (stream_id \<in> set (sb_cancelled b))"

text \<open>The calls of a process, one after the other; the lock makes each of them one step.\<close>

datatype bus_op =
    Publish nat string string pydict
  | BindOwner string string string
  | Cancel string
  | Enqueue pydict
  | Dequeue

definition bus_step :: "pyrt \<Rightarrow> bus_op \<Rightarrow> stream_bus \<Rightarrow> stream_bus" where
  "bus_step R op b =
     (case op of
        Publish now s e p \<Rightarrow> snd (publish_stream now s e p b)
      | BindOwner s t a \<Rightarrow> bind_owner R s t a b
      | Cancel s \<Rightarrow> cancel_stream s b
      | Enqueue p \<Rightarrow> enqueue_job p b
      | Dequeue \<Rightarrow> snd (dequeue_job b))"

definition bus_run :: "pyrt \<Rightarrow> bus_op list \<Rightarrow> stream_bus \<Rightarrow> stream_bus" where
  "bus_run R ops b = fold (bus_step R) ops b"

section \<open>The order of the identifiers\<close>

text \<open>Padded numbers of one width are ordered as the numbers are.\<close>

fun fixed_digits :: "nat \<Rightarrow> nat \<Rightarrow> string" where
  "fixed_digits 0 n = []"
| "fixed_digits (Suc w) n = fixed_digits w (n div 10) @ [char_of (48 + n mod 10)]"

lemma fixed_digits_length [simp]: "length (fixed_digits w n) = w"
  by (induction w arbitrary: n) simp_all

lemma snoc_less: "length xs = length ys \<Longrightarrow> xs @ [a] < ys @ [b] \<longleftrightarrow> xs < ys \<or> xs = ys \<and> (a :: char) < b"
  by (induction xs ys rule: list_induct2) auto

lemma append_less: "length xs = length ys \<Longrightarrow> xs @ us < ys @ vs \<longleftrightarrow> xs < ys \<or> xs = ys \<and> us < (vs :: string)"
  by (induction xs ys rule: list_induct2) auto

lemma digit_less: "a < 10 \<Longrightarrow> b < 10 \<Longrightarrow> (char_of (48 + a) :: char) < char_of (48 + b) \<longleftrightarrow> a < (b :: nat)"
  by (simp add: less_char_def)

lemma digit_eq: "a < 10 \<Longrightarrow> b < 10 \<Longrightarrow> (char_of (48 + a) :: char) = char_of (48 + b) \<longleftrightarrow> a = (b :: nat)"
  using digit_less [of a b] digit_less [of b a] by (metis less_irrefl linorder_neqE_nat)

lemma last_digit_less: "m < n \<longleftrightarrow> m div 10 < n div 10 \<or> m div 10 = n div 10 \<and> m mod 10 < n mod 10" for m n :: nat
proof -
  have e: "m = m div 10 * 10 + m mod 10" "n = n div 10 * 10 + n mod 10" "m mod 10 < 10" "n mod 10 < 10" by simp_all
  consider "m div 10 < n div 10" | "m div 10 = n div 10" | "n div 10 < m div 10" by linarith
  then show ?thesis
  proof cases
    case 1
    then have "m < n" using e by linarith
    then show ?thesis using 1 by simp
  next
    case 2
    then have "m < n \<longleftrightarrow> m mod 10 < n mod 10" using e by linarith
    then show ?thesis using 2 by simp
  next
    case 3
    then have "\<not> m < n" using e by linarith
    then show ?thesis using 3 by simp
  qed
qed

lemma last_digit_eq: "m = n \<longleftrightarrow> m div 10 = n div 10 \<and> m mod 10 = n mod 10" for m n :: nat
  by (metis div_mult_mod_eq)

lemma fixed_digits_order:
  "m < 10 ^ w \<Longrightarrow> n < 10 ^ w \<Longrightarrow>
     (fixed_digits w m < fixed_digits w n \<longleftrightarrow> m < n) \<and> (fixed_digits w m = fixed_digits w n \<longleftrightarrow> m = n)"
proof (induction w arbitrary: m n)
  case (Suc w)
  have d: "m div 10 < 10 ^ w" "n div 10 < 10 ^ w" using Suc.prems by (simp_all add: less_mult_imp_div_less mult.commute)
  note IH = Suc.IH [OF d]
  have b: "m mod 10 < 10" "n mod 10 < 10" by simp_all
  show ?case using IH digit_less [OF b] digit_eq [OF b] last_digit_less [of m n] last_digit_eq [of m n] by (simp add: snoc_less)
qed simp

lemma nat_str_length: "n < 10 ^ w \<Longrightarrow> 0 < w \<Longrightarrow> length (nat_str n) \<le> w"
proof (induction n arbitrary: w rule: nat_str.induct)
  case (1 n)
  show ?case
  proof (cases "n < 10")
    case False
    then obtain v where w: "w = Suc v" "0 < v" using 1(2,3) by (cases w; cases "w - 1") auto
    have "n div 10 < 10 ^ v" using 1(2) w by (simp add: less_mult_imp_div_less mult.commute)
    then show ?thesis using 1(1) [OF False _ w(2)] False w by (simp add: nat_str.simps [of n])
  qed (use 1 in \<open>simp add: nat_str.simps [of n]\<close>)
qed

lemma padded_fixed: "n < 10 ^ w \<Longrightarrow> 0 < w \<Longrightarrow> padded w n = fixed_digits w n"
proof (induction w arbitrary: n)
  case (Suc w)
  have zeros: "fixed_digits v 0 = replicate v (CHR ''0'')" for v
  proof (induction v)
    case (Suc v)
    have "char_of (48 :: nat) = CHR ''0''" by code_simp
    then show ?case using Suc replicate_append_same [of v "CHR ''0''"] by simp
  qed simp
  show ?case
  proof (cases "n < 10")
    case True
    then show ?thesis by (simp add: padded_def nat_str.simps [of n] zeros)
  next
    case False
    then have w: "0 < w" using Suc.prems by (cases w) auto
    have d: "n div 10 < 10 ^ w" using Suc.prems by (simp add: less_mult_imp_div_less mult.commute)
    have "padded (Suc w) n = padded w (n div 10) @ [char_of (48 + n mod 10)]"
      using False by (simp add: padded_def nat_str.simps [of n])
    then show ?thesis using Suc.IH [OF d w] by simp
  qed
qed simp

text \<open>An identifier grows with the time and, at one time, with the number.\<close>

lemma event_id_less:
  assumes "a < 10 ^ 20" "b < 10 ^ 20" "m < 10 ^ 6" "n < 10 ^ 6" "a \<le> b" "m < n"
  shows "stream_event_id a m < stream_event_id b n"
proof -
  have p: "padded 20 a = fixed_digits 20 a" "padded 20 b = fixed_digits 20 b" "padded 6 m = fixed_digits 6 m" "padded 6 n = fixed_digits 6 n"
    using assms by (simp_all add: padded_fixed)
  show ?thesis
    unfolding stream_event_id_def p
    using fixed_digits_order [OF assms(1,2)] fixed_digits_order [OF assms(3,4)] assms(5,6)
    by (simp add: append_less le_less)
qed

section \<open>What a reader sees\<close>

definition publish_times :: "bus_op list \<Rightarrow> nat list" where
  "publish_times ops = concat (map (\<lambda>op. case op of Publish now _ _ _ \<Rightarrow> [now] | _ \<Rightarrow> []) ops)"

definition published_on :: "string \<Rightarrow> bus_op list \<Rightarrow> pydict list" where
  "published_on s ops = concat (map (\<lambda>op. case op of Publish _ s' e p \<Rightarrow> if s' = s then [stream_event s e p] else [] | _ \<Rightarrow> []) ops)"

lemma publish_simps [simp]:
  "publish_times [] = []" "publish_times (ops @ [op]) = publish_times ops @ (case op of Publish now _ _ _ \<Rightarrow> [now] | _ \<Rightarrow> [])"
  "published_on s [] = []"
  "published_on s (ops @ [op]) = published_on s ops @ (case op of Publish _ s' e p \<Rightarrow> if s' = s then [stream_event s e p] else [] | _ \<Rightarrow> [])"
  by (simp_all add: publish_times_def published_on_def)

lemma bus_run_snoc [simp]: "bus_run R (ops @ [op]) b = bus_step R op (bus_run R ops b)" "bus_run R [] b = b"
  by (simp_all add: bus_run_def)

text \<open>The clock does not go back and the numbers fit their widths; no stream is named like the key of an owner.\<close>

definition calm_ops :: "string \<Rightarrow> bus_op list \<Rightarrow> bool" where
  "calm_ops s ops \<longleftrightarrow> sorted (publish_times ops) \<and> (\<forall>t \<in> set (publish_times ops). t < 10 ^ 20) \<and> length (published_on s ops) < 10 ^ 6
     \<and> list_all (\<lambda>op. case op of BindOwner x _ _ \<Rightarrow> bus_owner_key x \<noteq> s | _ \<Rightarrow> True) ops"

definition seq_no :: "stream_bus \<Rightarrow> string \<Rightarrow> nat" where
  "seq_no b s = dict_getd (sb_sequence b) s 0"

text \<open>Everything ever published on a stream, with the identifiers given to it; the bus keeps the newest rows of it.\<close>

definition history_step :: "string \<Rightarrow> bus_op \<Rightarrow> bus_rows \<Rightarrow> bus_rows" where
  "history_step s op rows =
     (case op of
        Publish now s' e p \<Rightarrow> if s' = s then rows @ [(stream_event_id now (Suc (length rows)), stream_event s e p)] else rows
      | _ \<Rightarrow> rows)"

definition stream_history :: "string \<Rightarrow> bus_op list \<Rightarrow> bus_rows" where
  "stream_history s ops = fold (history_step s) ops []"

lemma history_simps [simp]:
  "stream_history s [] = []" "stream_history s (ops @ [op]) = history_step s op (stream_history s ops)"
  by (simp_all add: stream_history_def)

lemma history_append:
  "\<exists>rows. stream_history s (pre @ post) = stream_history s pre @ rows \<and> map snd rows = published_on s post"
proof (induction post rule: rev_induct)
  case (snoc op post)
  then obtain rows where rows: "stream_history s (pre @ post) = stream_history s pre @ rows" "map snd rows = published_on s post"
    by blast
  have "stream_history s (pre @ post @ [op]) = history_step s op (stream_history s pre @ rows)"
    using rows(1) history_simps(2) [of s "pre @ post" op] by simp
  then show ?case using rows(2) by (cases op) (auto simp: history_step_def)
qed simp

lemma history_events: "map snd (stream_history s ops) = published_on s ops"
  using history_append [of s "[]" ops] by auto

lemma last_n_map: "map f (last_n n xs) = last_n n (map f xs)"
  by (simp add: last_n_def drop_map)

lemma last_n_twice: "last_n n (last_n n xs @ [x]) = last_n n (xs @ [x])"
proof (cases n)
  case (Suc m)
  have "last_n m (last_n n xs) = last_n m xs"
  proof (cases "length xs \<le> n")
    case False
    then have "length xs - n + (n - m) = length xs - m" using Suc by simp
    then show ?thesis using False by (simp add: last_n_def Suc)
  qed simp
  then show ?thesis using Suc by (simp add: last_n_snoc)
qed (simp add: last_n_def)

lemma sorted_last_n: "sorted_wrt P xs \<Longrightarrow> sorted_wrt P (last_n n xs)"
  by (simp add: last_n_def sorted_wrt_drop)

text \<open>Calls on other streams and other parts leave the rows of a stream.\<close>

lemma step_elsewhere:
  assumes "case op of Publish _ s' _ _ \<Rightarrow> s' \<noteq> s | BindOwner x _ _ \<Rightarrow> bus_owner_key x \<noteq> s | _ \<Rightarrow> True"
  shows "stream_rows (bus_step R op b) s = stream_rows b s \<and> seq_no (bus_step R op b) s = seq_no b s"
  using assms
  by (cases op) (auto simp: bus_step_def publish_stream_def bind_owner_def cancel_stream_def enqueue_job_def dequeue_job_def
      stream_rows_def seq_no_def Let_def split: list.split)

lemma calm_prefix: "calm_ops s (ops @ [op]) \<Longrightarrow> calm_ops s ops"
  by (auto simp: calm_ops_def sorted_append)

lemma publish_rows:
  "stream_rows (bus_step R (Publish now s e p) b) s
     = last_n stream_limit (stream_rows b s @ [(stream_event_id now (Suc (seq_no b s)), stream_event s e p)])"
  "seq_no (bus_step R (Publish now s e p) b) s = Suc (seq_no b s)"
  by (simp_all add: bus_step_def publish_stream_def Let_def stream_rows_def seq_no_def)

text \<open>The rows of the stream are the newest of its history, and its number is their count.\<close>

lemma bus_run_rows:
  "list_all (\<lambda>op. case op of BindOwner x _ _ \<Rightarrow> bus_owner_key x \<noteq> s | _ \<Rightarrow> True) ops
   \<Longrightarrow> stream_rows (bus_run R ops empty_bus) s = last_n stream_limit (stream_history s ops)
     \<and> seq_no (bus_run R ops empty_bus) s = length (stream_history s ops)"
proof (induction ops rule: rev_induct)
  case Nil
  show ?case by (simp add: seq_no_def stream_rows_def empty_bus_def dict_getd_def last_n_def)
next
  case (snoc op ops)
  then have IH: "stream_rows (bus_run R ops empty_bus) s = last_n stream_limit (stream_history s ops)"
    "seq_no (bus_run R ops empty_bus) s = length (stream_history s ops)" by simp_all
  show ?case
  proof (cases "\<exists>now e p. op = Publish now s e p")
    case True
    then show ?thesis using IH by (auto simp: publish_rows history_step_def last_n_twice)
  next
    case False
    have e: "case op of Publish _ s' _ _ \<Rightarrow> s' \<noteq> s | BindOwner x _ _ \<Rightarrow> bus_owner_key x \<noteq> s | _ \<Rightarrow> True"
      using False snoc.prems by (cases op) auto
    have "history_step s op rows = rows" for rows using False by (cases op) (auto simp: history_step_def)
    then show ?thesis using IH step_elsewhere [OF e, of R "bus_run R ops empty_bus"] by simp
  qed
qed

lemma history_rows:
  "r \<in> set (stream_history s ops)
   \<Longrightarrow> \<exists>t n. fst r = stream_event_id t n \<and> t \<in> set (publish_times ops) \<and> n \<le> length (stream_history s ops)"
proof (induction ops rule: rev_induct)
  case (snoc op ops)
  show ?case
  proof (cases "r \<in> set (stream_history s ops)")
    case True
    then obtain t n where r: "fst r = stream_event_id t n" "t \<in> set (publish_times ops)" "n \<le> length (stream_history s ops)"
      using snoc.IH by blast
    have "length (stream_history s ops) \<le> length (stream_history s (ops @ [op]))"
      by (cases op) (simp_all add: history_step_def)
    then show ?thesis using r by (intro exI [of _ t] exI [of _ n]) simp
  next
    case False
    then obtain now e p where op: "op = Publish now s e p"
      using snoc.prems by (cases op) (auto simp: history_step_def split: if_splits)
    then have "fst r = stream_event_id now (Suc (length (stream_history s ops)))"
      using False snoc.prems by (auto simp: history_step_def)
    then show ?thesis using op by (intro exI [of _ now] exI [of _ "Suc (length (stream_history s ops))"]) (simp add: history_step_def)
  qed
qed simp

lemma history_sorted: "calm_ops s ops \<Longrightarrow> sorted_wrt (<) (map fst (stream_history s ops))"
proof (induction ops rule: rev_induct)
  case (snoc op ops)
  have IH: "sorted_wrt (<) (map fst (stream_history s ops))" by (rule snoc.IH [OF calm_prefix [OF snoc.prems]])
  show ?case
  proof (cases "\<exists>now e p. op = Publish now s e p")
    case False
    then have "history_step s op (stream_history s ops) = stream_history s ops" by (cases op) (auto simp: history_step_def)
    then show ?thesis using IH by simp
  next
    case True
    then obtain now e p where op: "op = Publish now s e p" by blast
    let ?h = "stream_history s ops"
    have t: "now < 10 ^ 20" "\<forall>t \<in> set (publish_times ops). t \<le> now \<and> t < 10 ^ 20"
      using snoc.prems op unfolding calm_ops_def by (simp_all add: sorted_append)
    have "length (published_on s ops) = length ?h" unfolding history_events [symmetric] by simp
    then have "length (published_on s (ops @ [op])) = Suc (length ?h)" using op by simp
    moreover have "length (published_on s (ops @ [op])) < 10 ^ 6" using snoc.prems unfolding calm_ops_def by blast
    ultimately have l: "Suc (length ?h) < 10 ^ 6" by (simp only:)
    have "fst r < stream_event_id now (Suc (length ?h))" if "r \<in> set ?h" for r
    proof -
      obtain t' k where r: "fst r = stream_event_id t' k" "t' \<in> set (publish_times ops)" "k \<le> length ?h"
        using history_rows [OF \<open>r \<in> set ?h\<close>] by blast
      have k: "k < 10 ^ 6" "k < Suc (length ?h)" using r(3) l by linarith+
      have t': "t' < 10 ^ 20" "t' \<le> now" using t(2) r(2) by blast+
      show ?thesis unfolding r(1) by (rule event_id_less [OF t'(1) t(1) k(1) l t'(2) k(2)])
    qed
    then show ?thesis using IH op by (auto simp: history_step_def sorted_wrt_append)
  qed
qed simp

lemma id_not_start: "\<not> from_start (stream_event_id t n)"
proof -
  have "20 \<le> length (padded 20 t)" by (simp add: padded_def)
  then have "20 < length (stream_event_id t n)" by (simp add: stream_event_id_def)
  then show ?thesis by (auto simp: from_start_def)
qed

lemma filter_after:
  "sorted_wrt (<) (map fst rows) \<Longrightarrow> i < length rows \<Longrightarrow> filter (\<lambda>r. fst (rows ! i) < fst r) rows = drop (Suc i) (rows :: (string \<times> 'a) list)"
proof (induction rows arbitrary: i)
  case (Cons r rows)
  show ?case
  proof (cases i)
    case 0
    then show ?thesis using Cons.prems by (auto simp: filter_id_conv)
  next
    case (Suc j)
    have "fst r < fst (rows ! j)" using Cons.prems Suc by simp
    then have "\<not> fst (rows ! j) < fst r" by (rule less_not_sym)
    then show ?thesis using Cons Suc by simp
  qed
qed simp

text \<open>After an identifier of the history the reader gets the newest of the rows behind it, rotated out or not.\<close>

lemma replay_after:
  assumes "sorted_wrt (<) (map fst h)" "h = xs @ (key, e) # ys" "\<not> from_start key" "stream_rows b s = last_n n h"
  shows "replay_stream s key b = last_n n ys"
proof -
  have all: "filter (\<lambda>r. key < fst r) h = ys"
    using filter_after [of h "length xs"] assms(1,2) by simp
  have split: "h = take (length h - n) h @ last_n n h" by (simp add: last_n_def)
  have "filter (\<lambda>r. key < fst r) (last_n n h) = last_n n ys"
  proof (cases "n \<le> length ys")
    case True
    then have "last_n n h = last_n n ys" by (simp add: assms(2) last_n_def Suc_diff_le)
    moreover have "\<forall>r \<in> set ys. key < fst r" unfolding all [symmetric] by simp
    then have "\<forall>r \<in> set (last_n n ys). key < fst r" using set_last_n [of n ys] by blast
    ultimately show ?thesis by (simp only: filter_True)
  next
    case False
    then have y: "last_n n ys = ys" by (simp add: last_n_def)
    have le: "length h - n \<le> Suc (length xs)" using False by (simp add: assms(2))
    have "\<forall>r \<in> set (take (Suc (length xs)) h). \<not> key < fst r"
      using assms(1,2) by (auto simp: sorted_wrt_append dest: less_not_sym)
    then have "\<forall>r \<in> set (take (length h - n) h). \<not> key < fst r"
      using set_take_subset_set_take [OF le, of h] by blast
    then have "filter (\<lambda>r. key < fst r) (take (length h - n) h) = []" by (simp add: filter_empty_conv)
    then show ?thesis using all split y by (metis append_Nil filter_append)
  qed
  then show ?thesis using assms(3,4) by (simp add: replay_stream_def)
qed

text \<open>Claim C23. A reader never misses or repeats an event the bus still has: whatever else happens on it, a reader from the start
  gets the last thousand events published on its stream, in order, and one that resumes after the identifier any publication of
  the stream was given gets the last thousand of the events published after that one, also when the one it resumes from was
  rotated out meanwhile. So it misses an event only when more than a thousand came after it. This holds as long as the
  clock does not go back and stays below \<open>10 ^ 20\<close>, fewer than a million events were published on the stream, and no
  owner is bound whose key is the name of the stream.\<close>

theorem replay_resumes:
  assumes "calm_ops s (pre @ Publish now s e p # post)"
  shows "map snd (replay_stream s [] (bus_run R (pre @ Publish now s e p # post) empty_bus))
      = last_n stream_limit (published_on s (pre @ Publish now s e p # post))
    \<and> map snd (replay_stream s (fst (publish_stream now s e p (bus_run R pre empty_bus)))
          (bus_run R (pre @ Publish now s e p # post) empty_bus))
      = last_n stream_limit (published_on s post)"
proof -
  let ?ops = "pre @ Publish now s e p # post" and ?key = "stream_event_id now (Suc (length (stream_history s pre)))"
  have calm: "list_all (\<lambda>op. case op of BindOwner x _ _ \<Rightarrow> bus_owner_key x \<noteq> s | _ \<Rightarrow> True) ?ops"
    "list_all (\<lambda>op. case op of BindOwner x _ _ \<Rightarrow> bus_owner_key x \<noteq> s | _ \<Rightarrow> True) pre"
    using assms by (simp_all add: calm_ops_def)
  note rows = conjunct1 [OF bus_run_rows [OF calm(1)]] and no = conjunct2 [OF bus_run_rows [OF calm(2)]]
  obtain ys where ys: "stream_history s ?ops = stream_history s (pre @ [Publish now s e p]) @ ys" "map snd ys = published_on s post"
    using history_append [of s "pre @ [Publish now s e p]" post] by auto
  have h: "stream_history s ?ops = stream_history s pre @ (?key, stream_event s e p) # ys"
    using ys(1) by (simp add: history_step_def)
  have key: "fst (publish_stream now s e p (bus_run R pre empty_bus)) = ?key"
    using no [of R] by (simp add: publish_stream_def Let_def seq_no_def)
  have "replay_stream s ?key (bus_run R ?ops empty_bus) = last_n stream_limit ys"
    by (rule replay_after [OF history_sorted [OF assms] h id_not_start rows])
  then have "map snd (replay_stream s ?key (bus_run R ?ops empty_bus)) = last_n stream_limit (published_on s post)"
    using ys(2) by (simp add: last_n_map)
  moreover have "map snd (replay_stream s [] (bus_run R ?ops empty_bus)) = last_n stream_limit (published_on s ?ops)"
    using rows [of R] history_events [of s ?ops] by (simp add: replay_stream_def from_start_def last_n_map)
  ultimately show ?thesis unfolding key by blast
qed

definition demo_ops :: "bus_op list" where
  "demo_ops = [Publish 5 ''s'' ''token'' [], BindOwner ''s'' ''t'' ''a'', Publish 5 ''s'' ''token'' [], Cancel ''s'', Publish 9 ''s'' ''end'' []]"

lemma demo_ops_calm: "calm_ops ''s'' demo_ops"
  by (simp add: calm_ops_def demo_ops_def publish_times_def published_on_def bus_owner_key_def)

theorem replay_resumes_witness:
  "map snd (replay_stream ''s'' (fst (publish_stream 5 ''s'' ''token'' [] empty_bus)) (bus_run demo_rt demo_ops empty_bus))
    = [stream_event ''s'' ''token'' [], stream_event ''s'' ''end'' []]"
proof -
  let ?post = "[BindOwner ''s'' ''t'' ''a'', Publish 5 ''s'' ''token'' [], Cancel ''s'', Publish 9 ''s'' ''end'' []]"
  have ops: "[] @ Publish 5 ''s'' ''token'' [] # ?post = demo_ops" by (simp add: demo_ops_def)
  have e: "last_n stream_limit (published_on ''s'' ?post) = [stream_event ''s'' ''token'' [], stream_event ''s'' ''end'' []]"
    by (simp add: last_n_def stream_limit_def published_on_def)
  have "calm_ops ''s'' ([] @ Publish 5 ''s'' ''token'' [] # ?post)" unfolding ops by (rule demo_ops_calm)
  note r = conjunct2 [OF replay_resumes [OF this, of demo_rt]]
  have "bus_run demo_rt [] empty_bus = empty_bus" by simp
  with r show ?thesis unfolding ops e by (simp only:)
qed

text \<open>Jobs are handed out in the order they were queued, each once.\<close>

fun dequeued_jobs :: "pyrt \<Rightarrow> bus_op list \<Rightarrow> stream_bus \<Rightarrow> pydict list" where
  "dequeued_jobs R [] b = []"
| "dequeued_jobs R (op # ops) b =
     (case op of Dequeue \<Rightarrow> (case fst (dequeue_job b) of Some j \<Rightarrow> [j] | None \<Rightarrow> []) | _ \<Rightarrow> []) @ dequeued_jobs R ops (bus_step R op b)"

definition bus_queue :: "bus_op list \<Rightarrow> pydict list" where
  "bus_queue ops = concat (map (\<lambda>op. case op of Enqueue p \<Rightarrow> [p] | _ \<Rightarrow> []) ops)"

lemma bus_run_Cons: "bus_run R (op # ops) b = bus_run R ops (bus_step R op b)"
  by (simp add: bus_run_def)

theorem jobs_in_order: "dequeued_jobs R ops b @ sb_jobs (bus_run R ops b) = sb_jobs b @ bus_queue ops"
proof (induction ops arbitrary: b)
  case (Cons op ops)
  have "(case op of Dequeue \<Rightarrow> (case fst (dequeue_job b) of Some j \<Rightarrow> [j] | None \<Rightarrow> []) | _ \<Rightarrow> []) @ sb_jobs (bus_step R op b)
      = sb_jobs b @ (case op of Enqueue p \<Rightarrow> [p] | _ \<Rightarrow> [])"
    by (cases op) (auto simp: bus_step_def publish_stream_def bind_owner_def cancel_stream_def enqueue_job_def dequeue_job_def Let_def
        split: list.split)
  then show ?case using Cons.IH [of "bus_step R op b"] by (simp add: bus_run_Cons bus_queue_def)
qed (simp add: bus_queue_def bus_run_def)

text \<open>The owner of a stream is the one bound last, unless a stream is named like its key.\<close>

lemma owner_bound: "stream_owner s (bind_owner R s thread_id actor_id b) = PDict (owner_value thread_id actor_id)"
  by (simp add: stream_owner_def bind_owner_def Let_def stream_rows_def pget_def dict_getd_def)

lemma owner_overwritten:
  "stream_owner ''s'' (bus_run demo_rt [BindOwner ''s'' ''t'' ''a'', Publish 1 (bus_owner_key ''s'') ''token'' []] empty_bus) = PNone"
  by code_simp

text \<open>A clock that goes back hides events from a reader who resumes; a cancelled stream stays cancelled.\<close>

lemma clock_back_hides:
  "(let b = bus_run demo_rt [Publish 5 ''s'' ''a'' [], Publish 3 ''s'' ''b'' []] empty_bus in
    length (replay_stream ''s'' [] b) = 2 \<and> replay_stream ''s'' (fst (replay_stream ''s'' [] b ! 0)) b = [])"
  by code_simp

lemma cancelled_forever: "is_cancelled s b \<Longrightarrow> is_cancelled s (bus_run R ops b)"
proof (induction ops arbitrary: b)
  case (Cons op ops)
  have "is_cancelled s (bus_step R op b)" using Cons.prems
    by (cases op) (auto simp: is_cancelled_def bus_step_def publish_stream_def bind_owner_def cancel_stream_def enqueue_job_def
        dequeue_job_def Let_def split: list.split)
  then show ?case using Cons.IH by (simp add: bus_run_Cons)
qed (simp add: bus_run_def)

end
