(* ===== verification/Historian_Client.thy ===== *)
theory Historian_Client
  imports Runtime_Event
begin

text \<open>
  The client of the historian (\<open>services/historian/client.py\<close>) with the sink that writes through it
  (\<open>services/sinks/historian_sink.py\<close>). A connection is the committed database, what its transaction sees, and whether
  a transaction is open or aborted, as PostgreSQL documents them; a statement is a function on the database, and what the
  network does to an attempt is an argument. A table is the list of its rows, a row the dictionary of its columns.
  The database's reading of a time, its verdict on a row and the \<open>uuid\<close> package are the record \<open>pg_env\<close>.
\<close>

section \<open>Connections and transactions\<close>

datatype db_error =
    Operational string
  | Interface string
  | Serialization string
  | OtherError string

record 'db hconn =
  hc_saved :: 'db
  hc_work :: 'db
  hc_open :: bool
  hc_aborted :: bool

type_synonym ('db, 'a) statement = "'db \<Rightarrow> (db_error + 'a) \<times> 'db"

definition fresh_conn :: "'db \<Rightarrow> 'db hconn" where
  "fresh_conn db = \<lparr>hc_saved = db, hc_work = db, hc_open = False, hc_aborted = False\<rparr>"

text \<open>A failed statement aborts the transaction: until a rollback every further one is refused.\<close>

definition run_statement :: "('db, 'a) statement \<Rightarrow> 'db hconn \<Rightarrow> (db_error + 'a) \<times> 'db hconn" where
  "run_statement f c =
     (if hc_aborted c then (Inl (OtherError ''InFailedSqlTransaction''), c)
      else (case f (hc_work c) of
          (Inl e, _) \<Rightarrow> (Inl e, c\<lparr>hc_open := True, hc_aborted := True\<rparr>)
        | (Inr a, w) \<Rightarrow> (Inr a, c\<lparr>hc_work := w, hc_open := True\<rparr>)))"

definition do_rollback :: "'db hconn \<Rightarrow> 'db hconn" where
  "do_rollback c = c\<lparr>hc_work := hc_saved c, hc_open := False, hc_aborted := False\<rparr>"

definition do_commit :: "'db hconn \<Rightarrow> 'db hconn" where
  "do_commit c = (if hc_aborted c then do_rollback c else c\<lparr>hc_saved := hc_work c, hc_open := False\<rparr>)"

text \<open>\<open>get_connection\<close>: a raising body is rolled back, and what a body leaves uncommitted is rolled back too.\<close>

definition with_connection :: "('db hconn \<Rightarrow> (db_error + 'a) \<times> 'db hconn) \<Rightarrow> 'db \<Rightarrow> (db_error + 'a) \<times> 'db" where
  "with_connection body db =
     (let (r, c1) = body (fresh_conn db);
          c2 = (case r of Inl _ \<Rightarrow> do_rollback c1 | Inr _ \<Rightarrow> c1);
          c3 = (if hc_open c2 then do_rollback c2 else c2)
      in (r, hc_saved c3))"

text \<open>Statements of a transaction in sequence, the first error ending it.\<close>

definition then_do :: "('c \<Rightarrow> ('e + 'a) \<times> 'c) \<Rightarrow> ('a \<Rightarrow> 'c \<Rightarrow> ('e + 'b) \<times> 'c) \<Rightarrow> 'c \<Rightarrow> ('e + 'b) \<times> 'c" where
  "then_do m k c = (case m c of (Inl e, c') \<Rightarrow> (Inl e, c') | (Inr a, c') \<Rightarrow> k a c')"

text \<open>What becomes of an attempt: no connection, a connection lost in the statement, a commit that failed, one that took
  effect although its answer was lost, or success.\<close>

datatype write_fate =
    NoConnection db_error
  | StatementLost db_error
  | CommitFailed db_error
  | CommitLost db_error
  | Committed

definition write_body :: "write_fate \<Rightarrow> ('db, unit) statement \<Rightarrow> 'db hconn \<Rightarrow> (db_error + unit) \<times> 'db hconn" where
  "write_body w f =
     then_do (case w of StatementLost e \<Rightarrow> run_statement (\<lambda>d. (Inl e, d)) | _ \<Rightarrow> run_statement f) (\<lambda>_ c.
       case w of
         CommitFailed e \<Rightarrow> (Inl e, c)
       | CommitLost e \<Rightarrow> (Inl e, do_commit c)
       | _ \<Rightarrow> (Inr (), do_commit c))"

definition attempt_write :: "('db, unit) statement \<Rightarrow> write_fate \<Rightarrow> 'db \<Rightarrow> (db_error + unit) \<times> 'db" where
  "attempt_write f w db = (case w of NoConnection e \<Rightarrow> (Inl e, db) | _ \<Rightarrow> with_connection (write_body w f) db)"

section \<open>Retries\<close>

text \<open>psycopg2 derives \<open>SerializationFailure\<close> from \<open>OperationalError\<close>, so the first handler catches it too.\<close>

fun is_connection_error :: "db_error \<Rightarrow> bool" where
  "is_connection_error (Operational _) = True"
| "is_connection_error (Interface _) = True"
| "is_connection_error (Serialization _) = True"
| "is_connection_error (OtherError _) = False"

fun is_serialization :: "db_error \<Rightarrow> bool" where
  "is_serialization (Serialization _) = True"
| "is_serialization _ = False"

record retry_log =
  rl_attempts :: nat
  rl_resets :: nat
  rl_pauses :: "rat list"

definition backoff_at :: "rat list \<Rightarrow> nat \<Rightarrow> rat" where
  "backoff_at backoffs attempt = backoffs ! min attempt (length backoffs - 1)"

text \<open>\<open>left\<close> counts the attempts of the range still to come; \<open>raise None\<close> of an empty range is a \<open>TypeError\<close>.\<close>

fun retry_loop ::
    "nat \<Rightarrow> rat list \<Rightarrow> (nat \<Rightarrow> 'db \<Rightarrow> (db_error + unit) \<times> 'db) \<Rightarrow> nat \<Rightarrow> db_error option \<Rightarrow> 'db \<Rightarrow> retry_log
      \<Rightarrow> (db_error + unit) \<times> 'db \<times> retry_log" where
  "retry_loop 0 backoffs op attempt last_exc db l =
     (Inl (case last_exc of None \<Rightarrow> OtherError ''TypeError'' | Some e \<Rightarrow> e), db, l)"
| "retry_loop (Suc left) backoffs op attempt last_exc db l =
     (let (r, db') = op attempt db;
          l1 = l\<lparr>rl_attempts := Suc (rl_attempts l)\<rparr>;
          pause = (\<lambda>l. if left \<noteq> 0 then l\<lparr>rl_pauses := rl_pauses l @ [backoff_at backoffs attempt]\<rparr> else l)
      in case r of
           Inr u \<Rightarrow> (Inr u, db', l1)
         | Inl e \<Rightarrow>
             if is_connection_error e then
               retry_loop left backoffs op (Suc attempt) (Some e) db' (pause (l1\<lparr>rl_resets := Suc (rl_resets l1)\<rparr>))
             else if is_serialization e then retry_loop left backoffs op (Suc attempt) (Some e) db' (pause l1)
             else (Inl e, db', l1))"

definition no_retries :: retry_log where
  "no_retries = \<lparr>rl_attempts = 0, rl_resets = 0, rl_pauses = []\<rparr>"

record retry_policy =
  rp_max :: int
  rp_backoffs :: "rat list"

definition default_retries :: retry_policy where
  "default_retries = \<lparr>rp_max = 3, rp_backoffs = [1/5, 3/5, 9/5]\<rparr>"

definition execute_with_retry ::
    "retry_policy \<Rightarrow> (nat \<Rightarrow> write_fate) \<Rightarrow> ('db, unit) statement \<Rightarrow> 'db \<Rightarrow> (db_error + unit) \<times> 'db \<times> retry_log" where
  "execute_with_retry P fates f db =
     retry_loop (nat (rp_max P + 1)) (rp_backoffs P) (\<lambda>n. attempt_write f (fates n)) 0 None db no_retries"

section \<open>Scalars and dimensions\<close>

record pg_env =
  pe_rt :: pyrt
  pe_instant :: "string \<Rightarrow> rat"                   \<comment> \<open>the instant a TIMESTAMPTZ column reads from a text\<close>
  pe_uuid :: "string \<Rightarrow> string option"            \<comment> \<open>\<open>str(uuid.UUID(text))\<close>\<close>
  pe_uuid5 :: "string \<Rightarrow> string"                  \<comment> \<open>\<open>str(uuid.uuid5(NAMESPACE_URL, text))\<close>\<close>
  pe_refuses :: "string \<Rightarrow> pydict \<Rightarrow> string option"  \<comment> \<open>constraint violations, by table and row\<close>

definition coalesce_timestamp :: "pyrt \<Rightarrow> string \<Rightarrow> pyval \<Rightarrow> string" where
  "coalesce_timestamp R now v = (if truthy v then py_str R v else now)"

record scalar_value =
  ty_number :: rat
  ty_text :: "string option"
  ty_bool :: "bool option"
  ty_kind :: string

definition number_value :: "rat \<Rightarrow> scalar_value" where
  "number_value r = \<lparr>ty_number = r, ty_text = None, ty_bool = None, ty_kind = ''number''\<rparr>"

definition composite_value :: scalar_value where
  "composite_value = \<lparr>ty_number = 0, ty_text = None, ty_bool = None, ty_kind = ''composite''\<rparr>"

definition typed_value :: "pyrt \<Rightarrow> pyval \<Rightarrow> scalar_value" where
  "typed_value R v =
     (case v of
        PBool b \<Rightarrow> \<lparr>ty_number = (if b then 1 else 0), ty_text = None, ty_bool = Some b, ty_kind = ''boolean''\<rparr>
      | PInt i \<Rightarrow> number_value (of_int i)
      | PFloat r \<Rightarrow> number_value r
      | _ \<Rightarrow>
          (let text = (if v = PNone then [] else py_str R v)
           in case float_of R text of
                Some r \<Rightarrow> number_value r
              | None \<Rightarrow> \<lparr>ty_number = 0, ty_text = Some text, ty_bool = None, ty_kind = ''string''\<rparr>))"

definition typed_event_value :: "pyrt \<Rightarrow> pydict \<Rightarrow> scalar_value" where
  "typed_event_value R event =
     (let kind = py_str R (dict_getd event ''value_type'' (PStr ''number'')) in
      if kind = ''string'' then typed_value R (pget event ''value_text_raw'')
      else if kind = ''boolean'' then typed_value R (pget event ''value_bool'')
      else if kind = ''composite'' then composite_value
      else typed_value R (dict_getd event ''value'' (PInt 0)))"

definition has_measurements :: "pydict \<Rightarrow> bool" where
  "has_measurements event = list_ex (dict_has event) [''temperature_c'', ''vibration_mm_s'', ''pressure_bar'']"

definition typed_industrial_value :: "pyrt \<Rightarrow> pydict \<Rightarrow> scalar_value" where
  "typed_industrial_value R event =
     (if \<not> dict_has event ''value'' \<and> has_measurements event then composite_value
      else typed_value R (dict_getd event ''value'' (PInt 0)))"

definition event_uuid :: "pg_env \<Rightarrow> pyval \<Rightarrow> string" where
  "event_uuid E v =
     (let text = py_str (pe_rt E) (py_or v (PStr []))
      in case pe_uuid E text of Some u \<Rightarrow> u | None \<Rightarrow> pe_uuid5 E (''local-stream-engine:event:'' @ text))"

definition industrial_dimensions :: "pyrt \<Rightarrow> pydict \<Rightarrow> string \<times> string \<times> string \<times> string" where
  "industrial_dimensions R event =
     (let protocol = py_str R (py_or (pget event ''source_protocol'') (PStr ''unknown''));
          source_id = py_str R (py_or (pget event ''source_id'') (py_or (pget event ''device_id'') (py_or (pget event ''asset_id'')
            (py_or (pget event ''event_id'') (PStr ''unknown'')))));
          asset_id = py_str R (py_or (pget event ''asset_id'') (py_or (pget event ''device_id'') (PStr source_id)));
          tag = py_str R (py_or (pget event ''tag'') (PStr (if has_measurements event then ''__composite__'' else ''value'')))
      in (protocol, source_id, asset_id, tag))"

definition value_columns :: "scalar_value \<Rightarrow> pydict" where
  "value_columns t =
     [(''value'', PFloat (ty_number t)), (''value_text_raw'', opt_val PStr (ty_text t)),
      (''value_bool'', opt_val PBool (ty_bool t)), (''value_type'', PStr (ty_kind t))]"

section \<open>Rows\<close>

text \<open>The two inserts of industrial events differ in where they look for the time.\<close>

definition industrial_columns :: "pg_env \<Rightarrow> string \<Rightarrow> pydict \<Rightarrow> pydict" where
  "industrial_columns E time_text event =
     (let R = pe_rt E; (protocol, source_id, asset_id, tag) = industrial_dimensions R event
      in [(''time'', PStr time_text), (''event_id'', PStr (event_uuid E (pget event ''event_id''))),
          (''source_protocol'', PStr protocol), (''source_id'', PStr source_id), (''asset_id'', PStr asset_id), (''tag'', PStr tag)]
         @ value_columns (typed_industrial_value R event)
         @ [(''quality'', dict_getd event ''quality'' (PStr ''good'')), (''unit'', pget event ''unit''),
            (''site'', py_or (pget event ''site'') (py_or (pget event ''site_id'') (PStr ''demo-site''))),
            (''line'', dict_getd event ''line'' (PStr ''line-01'')), (''schema_version'', dict_getd event ''schema_version'' (PInt 1)),
            (''fault_type'', dict_getd event ''fault_type'' (PStr ''normal'')), (''scenario_id'', dict_getd event ''scenario_id'' (PStr ''sc-000'')),
            (''ground_truth_severity'', dict_getd event ''ground_truth_severity'' (PStr ''normal'')), (''step'', dict_getd event ''step'' (PInt 0))])"

definition industrial_row :: "pg_env \<Rightarrow> string \<Rightarrow> pydict \<Rightarrow> pydict" where
  "industrial_row E now event =
     industrial_columns E (coalesce_timestamp (pe_rt E) now (py_or (pget event ''ts_source'') (pget event ''ts_ingest''))) event"

definition industrial_batch_row :: "pg_env \<Rightarrow> string \<Rightarrow> pydict \<Rightarrow> pydict" where
  "industrial_batch_row E now event =
     industrial_columns E (coalesce_timestamp (pe_rt E) now
       (py_or (pget event ''ts_source'') (py_or (pget event ''timestamp'') (pget event ''ts_ingest'')))) event"

definition float_column :: "pyrt \<Rightarrow> pydict \<Rightarrow> string \<Rightarrow> db_error + pyval" where
  "float_column R event k =
     (case py_float R (dict_getd event k (PInt 0)) of Some r \<Rightarrow> Inr (PFloat r) | None \<Rightarrow> Inl (OtherError ''TypeError''))"

definition list_column :: "pyval \<Rightarrow> db_error + pyval" where
  "list_column v =
     (case py_or v (PList []) of
        PList xs \<Rightarrow> Inr (PList xs) | PStr s \<Rightarrow> Inr (PList (map (\<lambda>c. PStr [c]) s)) | PDict d \<Rightarrow> Inr (PList (map (PStr \<circ> fst) d))
      | _ \<Rightarrow> Inl (OtherError ''TypeError''))"

definition processed_row :: "pg_env \<Rightarrow> string \<Rightarrow> pydict \<Rightarrow> db_error + pydict" where
  "processed_row E now event =
     (let R = pe_rt E;
          device_id = py_str R (py_or (pget event ''device_id'') (py_or (pget event ''asset_id'') (py_or (pget event ''event_id'') (PStr ''unknown''))));
          asset_id = py_str R (py_or (pget event ''asset_id'') (PStr device_id));
          tag = py_str R (py_or (pget event ''tag'') (PStr ''value''))
      in res_bind (float_column R event ''temperature_c'') (\<lambda>temperature.
         res_bind (float_column R event ''vibration_mm_s'') (\<lambda>vibration.
         res_bind (float_column R event ''pressure_bar'') (\<lambda>pressure.
         res_bind (list_column (pget event ''triggered_rules'')) (\<lambda>rules.
         Inr ([(''time'', PStr (coalesce_timestamp R now (pget event ''timestamp''))),
               (''event_id'', PStr (event_uuid E (pget event ''event_id''))),
               (''device_id'', PStr device_id), (''asset_id'', PStr asset_id), (''tag'', PStr tag)]
              @ value_columns (typed_event_value R event)
              @ [(''unit'', dict_getd event ''unit'' (PStr [])), (''site_id'', pget event ''site_id''),
                 (''source_protocol'', py_or (pget event ''source_protocol'') (PStr ''unknown'')),
                 (''quality'', py_or (pget event ''quality'') (PStr ''unknown'')), (''schema_version'', dict_getd event ''schema_version'' (PInt 1)),
                 (''temperature_c'', temperature), (''vibration_mm_s'', vibration), (''pressure_bar'', pressure),
                 (''processed_at'', pget event ''processed_at''), (''window_size'', dict_getd event ''window_size'' (PInt 0)),
                 (''temperature_avg_c'', dict_getd event ''temperature_avg_c'' (PInt 0)),
                 (''vibration_avg_mm_s'', dict_getd event ''vibration_avg_mm_s'' (PInt 0)),
                 (''anomaly_score'', dict_getd event ''anomaly_score'' (PInt 0)), (''severity'', dict_getd event ''severity'' (PStr ''normal'')),
                 (''threshold_severity'', dict_getd event ''threshold_severity'' (PStr ''normal'')),
                 (''threshold_status'', dict_getd event ''threshold_status'' (PStr ''unconfigured'')),
                 (''threshold_source'', dict_getd event ''threshold_source'' (PStr ''unconfigured'')),
                 (''threshold_policy_version'', dict_getd event ''threshold_policy_version'' (PInt 0)),
                 (''threshold_breached'', PBool (truthy (dict_getd event ''threshold_breached'' (PBool False)))),
                 (''triggered_rules'', rules), (''baseline'', pget event ''baseline''), (''evaluation'', pget event ''evaluation'')]))))))"

definition first_item :: "pyval \<Rightarrow> db_error + pyval" where
  "first_item v =
     (case py_or v (PList [PNone]) of
        PList (x # _) \<Rightarrow> Inr x | PStr (c # _) \<Rightarrow> Inr (PStr [c]) | PDict d \<Rightarrow> Inl (OtherError ''KeyError'')
      | _ \<Rightarrow> Inl (OtherError ''TypeError''))"

definition report_column :: "pyval \<Rightarrow> string \<Rightarrow> db_error + pyval" where
  "report_column v k = (case py_or v (PDict []) of PDict d \<Rightarrow> Inr (pget d k) | _ \<Rightarrow> Inl (OtherError ''AttributeError''))"

definition ai_row :: "pg_env \<Rightarrow> string \<Rightarrow> pydict \<Rightarrow> db_error + pydict" where
  "ai_row E now event =
     res_bind (first_item (pget event ''source_site_ids'')) (\<lambda>site.
     res_bind (report_column (pget event ''structured_report'') ''situation_status'') (\<lambda>status.
     Inr [(''time'', PStr (coalesce_timestamp (pe_rt E) now (pget event ''generated_at''))), (''source'', pget event ''source''),
          (''model'', pget event ''model''), (''batch_size'', dict_getd event ''batch_size'' (PInt 0)),
          (''summary'', dict_getd event ''summary'' (PStr [])), (''latency_seconds'', dict_getd event ''latency_seconds'' (PInt 0)),
          (''event_id'', PStr (event_uuid E (pget event ''event_id''))),
          (''report_id'', if truthy (pget event ''report_id'') then PStr (event_uuid E (pget event ''report_id'')) else PNone),
          (''site_id'', site), (''report_type'', pget event ''report_type''), (''trigger_reason'', pget event ''trigger_reason''),
          (''situation_status'', status), (''structured_report'', py_or (pget event ''structured_report'') (PDict [])),
          (''used_fallback'', PBool (truthy (pget event ''used_fallback''))), (''prompt_template_id'', pget event ''prompt_template_id''),
          (''prompt_version'', pget event ''prompt_version''), (''source_event_ids'', py_or (pget event ''source_event_ids'') (PList []))]))"

definition dead_letter_row :: "pg_env \<Rightarrow> string \<Rightarrow> pydict \<Rightarrow> pydict" where
  "dead_letter_row E now event =
     [(''time'', PStr (coalesce_timestamp (pe_rt E) now (pget event ''ts_ingest''))),
      (''event_id'', PStr (event_uuid E (pget event ''event_id''))), (''source_protocol'', pget event ''source_protocol''),
      (''source_id'', pget event ''source_id''), (''error'', pget event ''error''), (''payload'', pget event ''payload''),
      (''schema_version'', dict_getd event ''schema_version'' (PInt 1)), (''origin'', dict_getd event ''origin'' (PStr ''unknown''))]"

section \<open>Inserts\<close>

type_synonym tables = "(string \<times> pydict list) list"

definition table_rows :: "tables \<Rightarrow> string \<Rightarrow> pydict list" where
  "table_rows db t = dict_getd db t []"

text \<open>The unique index over \<open>(time, event_id)\<close>.\<close>

definition row_key :: "pg_env \<Rightarrow> pydict \<Rightarrow> rat \<times> pyval" where
  "row_key E r = (case pget r ''time'' of PStr t \<Rightarrow> pe_instant E t | _ \<Rightarrow> 0, pget r ''event_id'')"

text \<open>\<open>INSERT \<dots> ON CONFLICT (time, event_id) DO NOTHING\<close>, all rows or, with one the table refuses, none.\<close>

fun insert_ignore :: "pg_env \<Rightarrow> string \<Rightarrow> pydict list \<Rightarrow> pydict list \<Rightarrow> db_error + pydict list" where
  "insert_ignore E t [] rows = Inr rows"
| "insert_ignore E t (r # rs) rows =
     (case pe_refuses E t r of
        Some e \<Rightarrow> Inl (OtherError e)
      | None \<Rightarrow> insert_ignore E t rs (if list_ex (\<lambda>x. row_key E x = row_key E r) rows then rows else rows @ [r]))"

definition insert_into :: "pg_env \<Rightarrow> string \<Rightarrow> pydict list \<Rightarrow> (tables, unit) statement" where
  "insert_into E t rs db =
     (case insert_ignore E t rs (table_rows db t) of
        Inl e \<Rightarrow> (Inl e, db)
      | Inr rows \<Rightarrow> (Inr (), dict_set db t rows))"

text \<open>\<open>_execute_values_write\<close> and the writers; a row that cannot be built raises before the database is asked.\<close>

definition write_rows ::
    "retry_policy \<Rightarrow> pg_env \<Rightarrow> (nat \<Rightarrow> write_fate) \<Rightarrow> string \<Rightarrow> pydict list \<Rightarrow> tables \<Rightarrow> (db_error + unit) \<times> tables" where
  "write_rows P E fates t rs db =
     (let (r, db', _) = execute_with_retry P fates (insert_into E t rs) db in (r, db'))"

definition insert_industrial_event ::
    "retry_policy \<Rightarrow> pg_env \<Rightarrow> string \<Rightarrow> (nat \<Rightarrow> write_fate) \<Rightarrow> pydict \<Rightarrow> tables \<Rightarrow> (db_error + unit) \<times> tables" where
  "insert_industrial_event P E now fates event = write_rows P E fates ''industrial_events'' [industrial_row E now event]"

definition insert_industrial_events ::
    "retry_policy \<Rightarrow> pg_env \<Rightarrow> string \<Rightarrow> (nat \<Rightarrow> write_fate) \<Rightarrow> pydict list \<Rightarrow> tables \<Rightarrow> (db_error + unit) \<times> tables" where
  "insert_industrial_events P E now fates events db =
     (if events = [] then (Inr (), db)
      else write_rows P E fates ''industrial_events'' (map (industrial_batch_row E now) events) db)"

fun build_rows :: "(pydict \<Rightarrow> db_error + pydict) \<Rightarrow> pydict list \<Rightarrow> db_error + pydict list" where
  "build_rows f [] = Inr []"
| "build_rows f (x # xs) = res_bind (f x) (\<lambda>r. res_bind (build_rows f xs) (\<lambda>rs. Inr (r # rs)))"

definition insert_processed_event ::
    "retry_policy \<Rightarrow> pg_env \<Rightarrow> string \<Rightarrow> (nat \<Rightarrow> write_fate) \<Rightarrow> pydict \<Rightarrow> tables \<Rightarrow> (db_error + unit) \<times> tables" where
  "insert_processed_event P E now fates event db =
     (case processed_row E now event of
        Inl e \<Rightarrow> (Inl e, db)
      | Inr r \<Rightarrow> write_rows P E fates ''processed_events'' [r] db)"

definition insert_processed_events ::
    "retry_policy \<Rightarrow> pg_env \<Rightarrow> string \<Rightarrow> (nat \<Rightarrow> write_fate) \<Rightarrow> pydict list \<Rightarrow> tables \<Rightarrow> (db_error + unit) \<times> tables" where
  "insert_processed_events P E now fates events db =
     (if events = [] then (Inr (), db)
      else (case build_rows (processed_row E now) events of
              Inl e \<Rightarrow> (Inl e, db)
            | Inr rs \<Rightarrow> write_rows P E fates ''processed_events'' rs db))"

definition insert_ai_enriched ::
    "retry_policy \<Rightarrow> pg_env \<Rightarrow> string \<Rightarrow> (nat \<Rightarrow> write_fate) \<Rightarrow> pydict \<Rightarrow> tables \<Rightarrow> (db_error + unit) \<times> tables" where
  "insert_ai_enriched P E now fates event db =
     (case ai_row E now event of
        Inl e \<Rightarrow> (Inl e, db)
      | Inr r \<Rightarrow> write_rows P E fates ''ai_enriched'' [r] db)"

definition insert_dead_letter ::
    "retry_policy \<Rightarrow> pg_env \<Rightarrow> string \<Rightarrow> (nat \<Rightarrow> write_fate) \<Rightarrow> pydict \<Rightarrow> tables \<Rightarrow> (db_error + unit) \<times> tables" where
  "insert_dead_letter P E now fates event = write_rows P E fates ''dead_letter_events'' [dead_letter_row E now event]"

text \<open>The audit log has no unique index. Without a time the event calls \<open>_utc_now\<close>, which the module does not define.\<close>

definition audit_log_row :: "pydict \<Rightarrow> db_error + pydict" where
  "audit_log_row event =
     (if truthy (pget event ''time'') then
        Inr [(''time'', pget event ''time''), (''user_id'', dict_getd event ''user_id'' (PStr [])),
             (''action'', dict_getd event ''action'' (PStr [])), (''resource'', dict_getd event ''resource'' (PStr [])),
             (''details'', dict_getd event ''details'' (PDict []))]
      else Inl (OtherError ''NameError''))"

definition append_into :: "pg_env \<Rightarrow> string \<Rightarrow> pydict \<Rightarrow> (tables, unit) statement" where
  "append_into E t r db =
     (case pe_refuses E t r of
        Some e \<Rightarrow> (Inl (OtherError e), db)
      | None \<Rightarrow> (Inr (), dict_set db t (table_rows db t @ [r])))"

definition insert_audit_log ::
    "retry_policy \<Rightarrow> pg_env \<Rightarrow> (nat \<Rightarrow> write_fate) \<Rightarrow> pydict \<Rightarrow> tables \<Rightarrow> (db_error + pydict) \<times> tables" where
  "insert_audit_log P E fates event db =
     (case audit_log_row event of
        Inl e \<Rightarrow> (Inl e, db)
      | Inr r \<Rightarrow>
          (case execute_with_retry P fates (append_into E ''audit_logs'' r) db of
             (Inl e, db', _) \<Rightarrow> (Inl e, db')
           | (Inr _, db', _) \<Rightarrow> (Inr r, db')))"

section \<open>The sink\<close>

text \<open>\<open>TimescaleHistorianSink.write_batch\<close>: the batch, or its events one by one; \<open>fates n\<close> is the network of the \<open>n\<close>-th
  write. The catalog is updated besides and its errors are dropped.\<close>

fun write_singly ::
    "retry_policy \<Rightarrow> pg_env \<Rightarrow> string \<Rightarrow> (nat \<Rightarrow> nat \<Rightarrow> write_fate) \<Rightarrow> nat \<Rightarrow> pydict list \<Rightarrow> nat \<Rightarrow> tables \<Rightarrow> nat \<times> tables" where
  "write_singly P E now fates n [] accepted db = (accepted, db)"
| "write_singly P E now fates n (e # es) accepted db =
     (case insert_industrial_event P E now (fates n) e db of
        (Inl _, db') \<Rightarrow> write_singly P E now fates (Suc n) es accepted db'
      | (Inr _, db') \<Rightarrow> write_singly P E now fates (Suc n) es (Suc accepted) db')"

definition historian_write_batch ::
    "bool \<Rightarrow> retry_policy \<Rightarrow> pg_env \<Rightarrow> string \<Rightarrow> (nat \<Rightarrow> nat \<Rightarrow> write_fate) \<Rightarrow> pydict list \<Rightarrow> tables \<Rightarrow> (db_error + nat) \<times> tables" where
  "historian_write_batch batch_fallback P E now fates events db =
     (if events = [] then (Inr 0, db)
      else (case insert_industrial_events P E now (fates 0) events db of
              (Inr _, db') \<Rightarrow> (Inr (length events), db')
            | (Inl e, db') \<Rightarrow>
                if \<not> batch_fallback then (Inl e, db')
                else (let (n, db'') = write_singly P E now fates 1 events 0 db' in (Inr n, db''))))"

section \<open>An attempt and its retries\<close>

lemma attempt_write_cases:
  "attempt_write f w db =
     (case w of
        NoConnection e \<Rightarrow> (Inl e, db) | StatementLost e \<Rightarrow> (Inl e, db)
      | CommitFailed e \<Rightarrow> (case f db of (Inl e', _) \<Rightarrow> (Inl e', db) | (Inr _, d) \<Rightarrow> (Inl e, db))
      | CommitLost e \<Rightarrow> (case f db of (Inl e', _) \<Rightarrow> (Inl e', db) | (Inr _, d) \<Rightarrow> (Inl e, d))
      | Committed \<Rightarrow> (case f db of (Inl e', _) \<Rightarrow> (Inl e', db) | (Inr _, d) \<Rightarrow> (Inr (), d)))"
  by (cases w; cases "f db"; cases "fst (f db)")
    (auto simp: attempt_write_def with_connection_def write_body_def then_do_def run_statement_def fresh_conn_def do_commit_def do_rollback_def)

text \<open>What a statement must promise for its retries to be harmless: run again on its own result it changes nothing.\<close>

locale repeatable_write =
  fixes f :: "('db, unit) statement"
  assumes again: "f d = (Inr (), d') \<Longrightarrow> f d' = (Inr (), d')"
begin

definition write_settled :: "'db \<Rightarrow> 'db \<Rightarrow> bool" where
  "write_settled db db' \<longleftrightarrow> db' = db \<or> f db = (Inr (), db')"

lemma attempt_settled:
  assumes "write_settled db0 db" "attempt_write f w db = (r, db')"
  shows "write_settled db0 db' \<and> (r = Inr () \<longrightarrow> f db0 = (Inr (), db'))"
proof -
  consider "db = db0" | "f db0 = (Inr (), db)" using assms(1) by (auto simp: write_settled_def)
  then show ?thesis
  proof cases
    case 1
    then show ?thesis using assms(2)
      by (cases w; cases "f db"; cases "fst (f db)") (auto simp: attempt_write_cases write_settled_def)
  next
    case 2
    then show ?thesis using assms(2) again [OF 2] by (cases w) (auto simp: attempt_write_cases write_settled_def)
  qed
qed

lemma loop_settled:
  "write_settled db0 db \<Longrightarrow> retry_loop left bs (\<lambda>n. attempt_write f (fates n)) k e db l = (r, db', l') \<Longrightarrow>
     write_settled db0 db' \<and> (r = Inr () \<longrightarrow> f db0 = (Inr (), db'))"
proof (induction left arbitrary: k e db l)
  case (Suc left)
  obtain r1 db1 where a: "attempt_write f (fates k) db = (r1, db1)" by (cases "attempt_write f (fates k) db")
  have s: "write_settled db0 db1 \<and> (r1 = Inr () \<longrightarrow> f db0 = (Inr (), db1))" by (rule attempt_settled [OF Suc.prems(1) a])
  show ?case
  proof (cases r1)
    case (Inl e')
    then show ?thesis using Suc.prems(2) Suc.IH [of db1] s a by (auto simp: Let_def split: if_splits)
  next
    case (Inr u)
    then show ?thesis using Suc.prems(2) s a by (auto simp: Let_def)
  qed
qed auto

lemma retried_once:
  assumes "execute_with_retry P fates f db = (r, db', l)"
  shows "db' = db \<or> f db = (Inr (), db')" and "r = Inr () \<Longrightarrow> f db = (Inr (), db')"
  using loop_settled [of db db] assms by (auto simp: execute_with_retry_def write_settled_def)

end

text \<open>Attempts and pauses of the loop.\<close>

lemma loop_bounds:
  "retry_loop left bs op k e db l = (r, db', l') \<Longrightarrow>
     rl_attempts l' \<le> rl_attempts l + left \<and> length (rl_pauses l') \<le> length (rl_pauses l) + (left - 1)
     \<and> rl_resets l' \<le> rl_resets l + left \<and> set (rl_pauses l') \<subseteq> set (rl_pauses l) \<union> range (backoff_at bs)"
proof (induction left arbitrary: k e db l)
  case (Suc left)
  obtain r1 db1 where a: "op k db = (r1, db1)" by (cases "op k db")
  show ?case
  proof (cases r1)
    case (Inl e')
    then show ?thesis using Suc.prems Suc.IH a by (fastforce simp: Let_def split: if_splits)
  qed (use Suc.prems a in \<open>auto simp: Let_def\<close>)
qed auto

text \<open>The second handler is never reached: a serialization failure costs the whole pool its connections.\<close>

lemma serialization_resets_pool:
  "rl_resets (snd (snd (execute_with_retry default_retries (\<lambda>n. if n = 0 then CommitFailed (Serialization ''40001'') else Committed)
     (\<lambda>d. (Inr (), d)) ()))) = 1"
  by code_simp

lemma lost_audit_doubled:
  "execute_with_retry default_retries (\<lambda>n. if n = 0 then CommitLost (Operational ''reset'') else Committed) (\<lambda>d. (Inr (), d @ [x])) []
     = (Inr (), [x, x], \<lparr>rl_attempts = 2, rl_resets = 1, rl_pauses = [1/5]\<rparr>)"
  by (simp add: execute_with_retry_def default_retries_def attempt_write_cases no_retries_def backoff_at_def numeral_eq_Suc)

section \<open>Tables\<close>

definition keys_in :: "pg_env \<Rightarrow> pydict list \<Rightarrow> pydict list \<Rightarrow> bool" where
  "keys_in E rs rows \<longleftrightarrow> (\<forall>r \<in> set rs. row_key E r \<in> row_key E ` set rows)"

lemma insert_ignore_grows: "insert_ignore E t rs rows = Inr rows' \<Longrightarrow> set rows \<subseteq> set rows' \<and> keys_in E rs rows'"
proof (induction rs arbitrary: rows)
  case (Cons r rs)
  let ?rows = "if list_ex (\<lambda>x. row_key E x = row_key E r) rows then rows else rows @ [r]"
  have i: "insert_ignore E t rs ?rows = Inr rows'" using Cons.prems by (auto split: option.splits)
  note IH = Cons.IH [OF i]
  have "row_key E r \<in> row_key E ` set ?rows" by (auto simp: list_ex_iff image_iff) metis
  then show ?case using IH by (fastforce simp: keys_in_def split: if_splits)
qed (simp add: keys_in_def)

lemma insert_ignore_accepts: "insert_ignore E t rs rows = Inr rows' \<Longrightarrow> r \<in> set rs \<Longrightarrow> pe_refuses E t r = None"
  by (induction rs arbitrary: rows) (auto split: option.splits)

lemma insert_ignore_again:
  "keys_in E rs rows \<Longrightarrow> \<forall>r \<in> set rs. pe_refuses E t r = None \<Longrightarrow> insert_ignore E t rs rows = Inr rows"
proof (induction rs)
  case (Cons r rs)
  have "list_ex (\<lambda>x. row_key E x = row_key E r) rows" using Cons.prems(1) by (auto simp: keys_in_def list_ex_iff)
  then show ?case using Cons by (simp add: keys_in_def)
qed simp

lemma insert_into_iff:
  "insert_into E t rs db = (Inr (), db') \<longleftrightarrow> (\<exists>rows. insert_ignore E t rs (table_rows db t) = Inr rows \<and> db' = dict_set db t rows)"
  by (auto simp: insert_into_def split: sum.split)

lemma dict_set_same: "map_of d k = Some v \<Longrightarrow> dict_set d k v = d"
  by (rule AList.update_triv)

lemma table_rows_set [simp]: "table_rows (dict_set db t rows) u = (if u = t then rows else table_rows db u)"
  by (simp add: table_rows_def)

text \<open>An insert repeated with some of its rows, in any order, changes nothing.\<close>

lemma insert_into_absorbs:
  assumes "insert_into E t rs db = (Inr (), db')" "set rs' \<subseteq> set rs"
  shows "insert_into E t rs' db' = (Inr (), db')"
proof -
  obtain rows where i: "insert_ignore E t rs (table_rows db t) = Inr rows" and db': "db' = dict_set db t rows"
    using assms(1) by (auto simp: insert_into_iff)
  have "keys_in E rs' rows" using insert_ignore_grows [OF i] assms(2) by (auto simp: keys_in_def)
  moreover have "\<forall>r \<in> set rs'. pe_refuses E t r = None" using insert_ignore_accepts [OF i] assms(2) by blast
  ultimately have "insert_ignore E t rs' (table_rows db' t) = Inr rows" by (simp add: db' insert_ignore_again)
  then show ?thesis by (simp add: insert_into_iff db' dict_set_same)
qed

interpretation inserts: repeatable_write "insert_into E t rs" for E t rs
  by unfold_locales (blast intro: insert_into_absorbs)

lemma write_rows_once:
  assumes "write_rows P E fates t rs db = (r, db')"
  shows "db' = db \<or> insert_into E t rs db = (Inr (), db')" and "r = Inr () \<Longrightarrow> insert_into E t rs db = (Inr (), db')"
  using inserts.retried_once assms unfolding write_rows_def by (auto split: prod.splits)

section \<open>What is in the historian\<close>

definition has_time :: "pydict \<Rightarrow> bool" where
  "has_time e \<longleftrightarrow> truthy (pget e ''ts_source'') \<or> truthy (pget e ''timestamp'') \<or> truthy (pget e ''ts_ingest'')"

definition holds_row :: "pg_env \<Rightarrow> string \<Rightarrow> tables \<Rightarrow> pydict \<Rightarrow> bool" where
  "holds_row E t db r \<longleftrightarrow> row_key E r \<in> row_key E ` set (table_rows db t)"

lemma timed_row: "has_time e \<Longrightarrow> industrial_batch_row E now e = industrial_batch_row E now' e"
  by (auto simp: industrial_batch_row_def coalesce_timestamp_def has_time_def py_or_def)

lemma insert_into_holds:
  assumes "insert_into E t rs db = (Inr (), db')"
  shows "(\<forall>r \<in> set rs. holds_row E t db' r) \<and> set (table_rows db t) \<subseteq> set (table_rows db' t)"
    and "u \<noteq> t \<Longrightarrow> table_rows db' u = table_rows db u"
proof -
  obtain rows where i: "insert_ignore E t rs (table_rows db t) = Inr rows" and db': "db' = dict_set db t rows"
    using assms by (auto simp: insert_into_iff)
  show "(\<forall>r \<in> set rs. holds_row E t db' r) \<and> set (table_rows db t) \<subseteq> set (table_rows db' t)"
    using insert_ignore_grows [OF i] by (simp add: db' holds_row_def keys_in_def)
  show "u \<noteq> t \<Longrightarrow> table_rows db' u = table_rows db u" by (simp add: db')
qed

lemma holds_kept: "holds_row E t db r \<Longrightarrow> set (table_rows db t) \<subseteq> set (table_rows db' t) \<Longrightarrow> holds_row E t db' r"
  by (auto simp: holds_row_def)

text \<open>A batch of industrial events is written as a whole or not at all, whatever the connection does in each attempt:
  the rows present before and the other tables stay, and when the call returns, every event of the batch is in the historian.\<close>

theorem batch_atomic:
  assumes "insert_industrial_events P E now fates events db = (r, db')"
  shows "(db' = db \<or> list_all (\<lambda>e. holds_row E ''industrial_events'' db' (industrial_batch_row E now e)) events)
    \<and> (is_ok r \<longrightarrow> list_all (\<lambda>e. holds_row E ''industrial_events'' db' (industrial_batch_row E now e)) events)
    \<and> set (table_rows db ''industrial_events'') \<subseteq> set (table_rows db' ''industrial_events'')
    \<and> (u \<noteq> ''industrial_events'' \<longrightarrow> table_rows db' u = table_rows db u)"
proof (cases "events = []")
  case False
  then have w: "write_rows P E fates ''industrial_events'' (map (industrial_batch_row E now) events) db = (r, db')"
    using assms by (simp add: insert_industrial_events_def)
  have ok: "r = Inr ()" if "is_ok r" using that by (cases r) (simp_all add: is_ok_def)
  show ?thesis
    using write_rows_once [OF w] ok insert_into_holds [of E "''industrial_events''" "map (industrial_batch_row E now) events" db db']
    by (auto simp: list_all_iff)
qed (use assms in \<open>simp add: insert_industrial_events_def\<close>)

text \<open>Claim C6. A redelivered event is not stored twice: after a batch was written, writing any of its events again, in any
  order and batching, at any later time and with any failures on the way, leaves the historian as it is, as long as they carry a time.\<close>

theorem redelivery_absorbed:
  assumes "insert_industrial_events P E now fates events db = (Inr (), db1)"
    and "set again \<subseteq> set events" and "list_all has_time again"
    and "insert_industrial_events P E now' fates' again db1 = (r, db2)"
  shows "db2 = db1"
proof (cases "again = []")
  case False
  then have ne: "events \<noteq> []" using assms(2) by auto
  have f: "insert_into E ''industrial_events'' (map (industrial_batch_row E now) events) db = (Inr (), db1)"
    using write_rows_once(2) assms(1) ne by (metis insert_industrial_events_def)
  have rows: "map (industrial_batch_row E now') again = map (industrial_batch_row E now) again"
    using assms(3) timed_row by (auto simp: list_all_iff)
  have g: "insert_into E ''industrial_events'' (map (industrial_batch_row E now') again) db1 = (Inr (), db1)"
    unfolding rows by (rule insert_into_absorbs [OF f]) (use assms(2) in auto)
  have "write_rows P E fates' ''industrial_events'' (map (industrial_batch_row E now') again) db1 = (r, db2)"
    using assms(4) False by (simp add: insert_industrial_events_def)
  from write_rows_once(1) [OF this] g show ?thesis by auto
qed (use assms(4) in \<open>simp add: insert_industrial_events_def\<close>)

section \<open>The two tables agree\<close>

lemma typed_value_scalar:
  "v \<noteq> PNone \<Longrightarrow> typed_scalar R v = (ty_number (typed_value R v), ty_text (typed_value R v), ty_bool (typed_value R v), ty_kind (typed_value R v))"
  by (cases v) (auto simp: typed_scalar_def typed_value_def number_value_def Let_def split: option.split)

text \<open>Reading the four columns of a scalar back classifies it as before.\<close>

lemma typed_value_again:
  assumes "pget d ''value_text_raw'' = opt_val PStr (ty_text (typed_value R v))" "pget d ''value_bool'' = opt_val PBool (ty_bool (typed_value R v))"
    and "dict_getd d ''value_type'' (PStr ''number'') = PStr (ty_kind (typed_value R v))"
    and "dict_getd d ''value'' (PInt 0) = PFloat (ty_number (typed_value R v))"
  shows "typed_event_value R d = typed_value R v"
  using assms
  by (cases v) (auto simp: typed_event_value_def typed_value_def number_value_def opt_val_def Let_def split: option.splits)

definition record_after :: "pyrt \<Rightarrow> string \<Rightarrow> pydict \<Rightarrow> processing \<Rightarrow> runtime_event" where
  "record_after R now d p = mark_processed now (build_record R d) p"

lemma set_process_keeps [simp]:
  "re_value (set_process_value e f v) = re_value e" "re_value_text_raw (set_process_value e f v) = re_value_text_raw e"
  "re_value_bool (set_process_value e f v) = re_value_bool e" "re_value_type (set_process_value e f v) = re_value_type e"
  "re_timestamp (set_process_value e f v) = re_timestamp e" "re_event_id (set_process_value e f v) = re_event_id e"
  by (simp_all add: set_process_value_def)

lemma record_after_fields:
  "re_timestamp (record_after R now d p) = first_str R d [''ts_source'', ''timestamp'', ''ts_ingest''] []"
  "re_event_id (record_after R now d p) = str_get R d ''event_id'' []"
  "(re_value (record_after R now d p), re_value_text_raw (record_after R now d p), re_value_bool (record_after R now d p),
    re_value_type (record_after R now d p)) = (if dict_has d ''value'' then typed_scalar R (pget d ''value'') else (0, None, None, ''composite''))"
  by (simp_all add: record_after_def mark_processed_def build_record_def post_init_def raw_record_def Let_def case_prod_beta')

lemma dict_lookup_Cons: "dict_getd ((j, v) # d) k w = (if j = k then v else dict_getd d k w)"
  by (simp add: dict_getd_def)

lemma pget_first: "pget ((j, v) # d) k = (if j = k then v else pget d k)"
  by (simp add: pget_def dict_lookup_Cons)

definition event_extras :: "runtime_event \<Rightarrow> pydict" where
  "event_extras e = (case re_baseline e of None \<Rightarrow> [] | Some b \<Rightarrow> [(''baseline'', PDict b)])
      @ (case re_evaluation e of None \<Rightarrow> [] | Some v \<Rightarrow> [(''evaluation'', PDict v)])"

lemma event_to_dict_extras: "event_to_dict e = event_fields e @ event_extras e"
  by (simp add: event_to_dict_def event_extras_def Let_def split: option.split)

lemma dict_getd_append: "dict_has a k \<Longrightarrow> dict_getd (a @ b) k w = dict_getd a k w'"
  by (auto simp: dict_getd_def dict_has_def map_add_def split: option.splits)

lemma event_dict_lookup:
  "dict_getd (event_to_dict e) ''value'' w = PFloat (re_value e)"
  "dict_getd (event_to_dict e) ''value_type'' w = PStr (re_value_type e)"
  "dict_getd (event_to_dict e) ''value_text_raw'' w = opt_val PStr (re_value_text_raw e)"
  "dict_getd (event_to_dict e) ''value_bool'' w = opt_val PBool (re_value_bool e)"
  "dict_getd (event_to_dict e) ''timestamp'' w = PStr (re_timestamp e)"
  "dict_getd (event_to_dict e) ''event_id'' w = PStr (re_event_id e)"
  "dict_getd (event_to_dict e) ''temperature_c'' w = PFloat (re_temperature_c e)"
  "dict_getd (event_to_dict e) ''vibration_mm_s'' w = PFloat (re_vibration_mm_s e)"
  "dict_getd (event_to_dict e) ''pressure_bar'' w = PFloat (re_pressure_bar e)"
  "dict_getd (event_to_dict e) ''triggered_rules'' w = PList (map PStr (re_triggered_rules e))"
  unfolding event_to_dict_extras event_fields_def by (simp_all add: dict_getd_def)

lemma processed_shape:
  "\<exists>device asset tg rest. processed_row E now (event_to_dict e) = Inr (
     [(''time'', PStr (coalesce_timestamp (pe_rt E) now (PStr (re_timestamp e)))), (''event_id'', PStr (event_uuid E (PStr (re_event_id e)))),
      (''device_id'', device), (''asset_id'', asset), (''tag'', tg)]
     @ value_columns (typed_event_value (pe_rt E) (event_to_dict e)) @ rest)"
proof -
  have floats: "float_column (pe_rt E) (event_to_dict e) ''temperature_c'' = Inr (PFloat (re_temperature_c e))"
    "float_column (pe_rt E) (event_to_dict e) ''vibration_mm_s'' = Inr (PFloat (re_vibration_mm_s e))"
    "float_column (pe_rt E) (event_to_dict e) ''pressure_bar'' = Inr (PFloat (re_pressure_bar e))"
    by (simp_all add: float_column_def event_dict_lookup py_float_def)
  have rules: "list_column (pget (event_to_dict e) ''triggered_rules'') = Inr (PList (map PStr (re_triggered_rules e)))"
    unfolding pget_def event_dict_lookup by (cases "re_triggered_rules e") (simp_all add: list_column_def py_or_def)
  have keys: "pget (event_to_dict e) ''timestamp'' = PStr (re_timestamp e)" "pget (event_to_dict e) ''event_id'' = PStr (re_event_id e)"
    by (simp_all add: pget_def event_dict_lookup)
  show ?thesis
    unfolding processed_row_def Let_def floats rules res_bind_simps keys
    by (intro exI, rule refl)
qed

definition time_text :: "pyrt \<Rightarrow> pydict \<Rightarrow> string" where
  "time_text R d = first_str R d [''ts_source'', ''timestamp'', ''ts_ingest''] []"

definition scalar_columns :: "string list" where
  "scalar_columns = [''value'', ''value_text_raw'', ''value_bool'', ''value_type'']"

definition clear_scalar :: "pydict \<Rightarrow> bool" where
  "clear_scalar d \<longleftrightarrow> (if dict_has d ''value'' then pget d ''value'' \<noteq> PNone else has_measurements d)"

lemma industrial_lookup:
  "pget (industrial_columns E w d) ''time'' = PStr w"
  "pget (industrial_columns E w d) ''event_id'' = PStr (event_uuid E (pget d ''event_id''))"
  "pget (industrial_columns E w d) ''value'' = PFloat (ty_number (typed_industrial_value (pe_rt E) d))"
  "pget (industrial_columns E w d) ''value_text_raw'' = opt_val PStr (ty_text (typed_industrial_value (pe_rt E) d))"
  "pget (industrial_columns E w d) ''value_bool'' = opt_val PBool (ty_bool (typed_industrial_value (pe_rt E) d))"
  "pget (industrial_columns E w d) ''value_type'' = PStr (ty_kind (typed_industrial_value (pe_rt E) d))"
  by (simp_all add: industrial_columns_def Let_def case_prod_beta' value_columns_def pget_def dict_lookup_Cons)

lemma batch_time: "time_text (pe_rt E) d \<noteq> [] \<Longrightarrow> industrial_batch_row E now d = industrial_columns E (time_text (pe_rt E) d) d"
  by (auto simp: industrial_batch_row_def coalesce_timestamp_def time_text_def first_str_def py_or_def)

lemma uuid_text: "pget d ''event_id'' = PStr i \<Longrightarrow> event_uuid E (PStr (str_get (pe_rt E) d ''event_id'' [])) = event_uuid E (PStr i)"
  by (cases "map_of d ''event_id''") (auto simp: str_get_def pget_def dict_getd_def)

lemma scalars_agree:
  assumes "clear_scalar d"
  shows "typed_event_value R (event_to_dict (record_after R t d p)) = typed_industrial_value R d"
proof (cases "dict_has d ''value''")
  case True
  have v: "dict_getd d ''value'' (PInt 0) = pget d ''value''" using True by (auto simp: dict_has_def dict_getd_def pget_def split: option.splits)
  have n: "pget d ''value'' \<noteq> PNone" using assms True by (simp add: clear_scalar_def)
  have ty: "typed_industrial_value R d = typed_value R (pget d ''value'')" using True v by (simp add: typed_industrial_value_def)
  have f: "re_value (record_after R t d p) = ty_number (typed_value R (pget d ''value''))"
    "re_value_text_raw (record_after R t d p) = ty_text (typed_value R (pget d ''value''))"
    "re_value_bool (record_after R t d p) = ty_bool (typed_value R (pget d ''value''))"
    "re_value_type (record_after R t d p) = ty_kind (typed_value R (pget d ''value''))"
    using record_after_fields(3) [of R t d p] True typed_value_scalar [OF n] by simp_all
  show ?thesis unfolding ty
    by (rule typed_value_again) (simp_all add: pget_def event_dict_lookup f [unfolded pget_def])
next
  case False
  have "re_value_type (record_after R t d p) = ''composite''" using record_after_fields(3) [of R t d p] False by simp
  then have "typed_event_value R (event_to_dict (record_after R t d p)) = composite_value"
    by (simp add: typed_event_value_def event_dict_lookup Let_def)
  then show ?thesis using assms False by (simp add: clear_scalar_def typed_industrial_value_def)
qed

text \<open>Claim C17. The two tables describe the same event: what the processor writes for an event it has processed has the
  time and identifier under which the fan-out wrote the event itself, and the same scalar in its four columns,
  provided the event has an identifier and a time and its value is not null.\<close>

theorem processed_matches_industrial:
  assumes "pget d ''event_id'' = PStr i" "i \<noteq> []" "time_text (pe_rt E) d \<noteq> []" "clear_scalar d"
  shows "(case processed_row E now (event_to_dict (record_after (pe_rt E) t d p)) of
      Inr r \<Rightarrow> row_key E r = row_key E (industrial_batch_row E now' d)
        \<and> map (pget r) scalar_columns = map (pget (industrial_batch_row E now' d)) scalar_columns
    | Inl _ \<Rightarrow> False)"
proof -
  let ?e = "record_after (pe_rt E) t d p"
  obtain device asset tg rest where r: "processed_row E now (event_to_dict ?e) = Inr (
     [(''time'', PStr (coalesce_timestamp (pe_rt E) now (PStr (re_timestamp ?e)))), (''event_id'', PStr (event_uuid E (PStr (re_event_id ?e)))),
      (''device_id'', device), (''asset_id'', asset), (''tag'', tg)]
     @ value_columns (typed_event_value (pe_rt E) (event_to_dict ?e)) @ rest)"
    using processed_shape by blast
  have time: "coalesce_timestamp (pe_rt E) now (PStr (re_timestamp ?e)) = time_text (pe_rt E) d"
    using assms(3) by (simp add: record_after_fields time_text_def coalesce_timestamp_def)
  have id: "event_uuid E (PStr (re_event_id ?e)) = event_uuid E (PStr i)"
    unfolding record_after_fields(2) by (rule uuid_text [OF assms(1)])
  show ?thesis
    unfolding r time id scalars_agree [OF assms(4)] batch_time [OF assms(3)]
    by (simp add: row_key_def industrial_lookup assms(1) scalar_columns_def value_columns_def pget_first)
qed

section \<open>The sink counts what is stored\<close>

text \<open>The rows the two inserts build of an event, the event's own row in the table, and a key of it that is another's: of a row that
  was in the table before, or of a row of another event of the batch.\<close>

definition rows_of_event :: "pg_env \<Rightarrow> string \<Rightarrow> pydict \<Rightarrow> pydict set" where
  "rows_of_event E now e = {industrial_batch_row E now e, industrial_row E now e}"

definition own_row :: "pg_env \<Rightarrow> string \<Rightarrow> tables \<Rightarrow> pydict \<Rightarrow> bool" where
  "own_row E now db e \<longleftrightarrow> (\<exists>r \<in> rows_of_event E now e. r \<in> set (table_rows db ''industrial_events''))"

definition taken_key :: "pg_env \<Rightarrow> string \<Rightarrow> tables \<Rightarrow> pydict list \<Rightarrow> pydict \<Rightarrow> bool" where
  "taken_key E now db events e \<longleftrightarrow>
     (\<exists>r \<in> rows_of_event E now e. \<exists>x. row_key E x = row_key E r
        \<and> (x \<in> set (table_rows db ''industrial_events'') \<or> (\<exists>e' \<in> set events. e' \<noteq> e \<and> x \<in> rows_of_event E now e')))"

definition key_present :: "pg_env \<Rightarrow> string \<Rightarrow> tables \<Rightarrow> pydict \<Rightarrow> bool" where
  "key_present E now db e \<longleftrightarrow> (\<exists>r \<in> rows_of_event E now e. holds_row E ''industrial_events'' db r)"

definition rows_kept :: "tables \<Rightarrow> tables \<Rightarrow> bool" where
  "rows_kept db db' \<longleftrightarrow> set (table_rows db ''industrial_events'') \<subseteq> set (table_rows db' ''industrial_events'')"

definition rows_within :: "pydict set \<Rightarrow> tables \<Rightarrow> tables \<Rightarrow> bool" where
  "rows_within new db db' \<longleftrightarrow>
     set (table_rows db' ''industrial_events'') \<subseteq> set (table_rows db ''industrial_events'') \<union> new"

lemma present_kept: "key_present E now db e \<Longrightarrow> rows_kept db db' \<Longrightarrow> key_present E now db' e"
  unfolding key_present_def rows_kept_def using holds_kept by blast

lemma insert_ignore_within: "insert_ignore E t rs rows = Inr rows' \<Longrightarrow> set rows' \<subseteq> set rows \<union> set rs"
proof (induction E t rs rows rule: insert_ignore.induct)
  case (2 E t r rs rows)
  then have "pe_refuses E t r = None" by (simp split: option.splits)
  with 2 show ?case by (fastforce split: if_splits)
qed simp

lemma insert_into_within:
  "insert_into E ''industrial_events'' rs db = (Inr (), db') \<Longrightarrow> rows_within (set rs) db db'"
  by (auto simp: insert_into_iff rows_within_def dest!: insert_ignore_within)

lemma write_rows_kept:
  assumes "write_rows P E fates ''industrial_events'' rs db = (r, db')"
  shows "rows_kept db db' \<and> rows_within (set rs) db db' \<and> (r = Inr () \<longrightarrow> (\<forall>x \<in> set rs. holds_row E ''industrial_events'' db' x))"
proof (cases "insert_into E ''industrial_events'' rs db = (Inr (), db')")
  case True
  show ?thesis using insert_into_holds(1) [OF True] insert_into_within [OF True] unfolding rows_kept_def by blast
next
  case False
  then have "db' = db" "r \<noteq> Inr ()" using write_rows_once [OF assms] by blast+
  then show ?thesis unfolding rows_kept_def rows_within_def by blast
qed

lemma single_kept:
  assumes "insert_industrial_event P E now fates e db = (r, db')"
  shows "rows_kept db db' \<and> rows_within (rows_of_event E now e) db db' \<and> (r = Inr () \<longrightarrow> key_present E now db' e)"
proof -
  have "write_rows P E fates ''industrial_events'' [industrial_row E now e] db = (r, db')"
    using assms unfolding insert_industrial_event_def .
  from write_rows_kept [OF this] show ?thesis by (auto simp: key_present_def rows_of_event_def rows_within_def)
qed

lemma write_singly_counts:
  "write_singly P E now fates n es acc db = (k, db') \<Longrightarrow>
     k \<le> acc + length (filter (key_present E now db') es) \<and> rows_kept db db' \<and> rows_within (\<Union> (rows_of_event E now ` set es)) db db'"
proof (induction es arbitrary: n acc db)
  case (Cons e es)
  obtain r db1 where i: "insert_industrial_event P E now (fates n) e db = (r, db1)" by fastforce
  note one = single_kept [OF i]
  have trans: "rows_kept db db' \<and> rows_within (\<Union> (rows_of_event E now ` set (e # es))) db db'"
    if "rows_kept db1 db' \<and> rows_within (\<Union> (rows_of_event E now ` set es)) db1 db'"
    using one that unfolding rows_kept_def rows_within_def by auto
  show ?case
  proof (cases r)
    case (Inl x)
    then have w: "write_singly P E now fates (Suc n) es acc db1 = (k, db')" using Cons.prems i by simp
    from Cons.IH [OF w] trans show ?thesis by auto
  next
    case (Inr u)
    then have w: "write_singly P E now fates (Suc n) es (Suc acc) db1 = (k, db')" using Cons.prems i by simp
    note ih = Cons.IH [OF w]
    have "key_present E now db1 e" using one Inr by simp
    then have "key_present E now db' e" using ih present_kept by blast
    with ih trans show ?thesis by simp
  qed
qed (simp add: rows_kept_def rows_within_def)

lemma filter_count_mono: "(\<And>x. Q x \<Longrightarrow> P x) \<Longrightarrow> length (filter Q xs) \<le> length (filter P xs)"
  by (induction xs) (auto simp: le_SucI)

text \<open>A key in the table is the event's own row, or another's.\<close>

lemma present_own_or_taken:
  assumes "key_present E now db' e" "rows_within (\<Union> (rows_of_event E now ` set events)) db db'"
  shows "own_row E now db' e \<or> taken_key E now db events e"
proof -
  obtain r x where r: "r \<in> rows_of_event E now e" "x \<in> set (table_rows db' ''industrial_events'')" "row_key E x = row_key E r"
    using assms(1) by (auto simp: key_present_def holds_row_def)
  then consider "x \<in> set (table_rows db ''industrial_events'')" | e' where "e' \<in> set events" "x \<in> rows_of_event E now e'"
    using assms(2) unfolding rows_within_def by blast
  then show ?thesis
  proof cases
    case 1
    then show ?thesis using r unfolding taken_key_def by blast
  next
    case (2 e')
    then show ?thesis using r unfolding taken_key_def own_row_def by (cases "e' = e") blast+
  qed
qed

text \<open>Claim C11. The sink never counts an event it has not stored: the number it answers, whatever it is, is at most that of
  the events whose row is in the table, or whose key there belongs to a row that was in it before or to another event of the
  batch; so with new and distinct keys it is at most the number of events whose own row is there. Where the number is that of the
  events, as a strict write demands, this holds of all of them. It is so on the batch path and on the path of single inserts;
  every row that was there before stays, and no row appears that is not one of the events'.\<close>

theorem sink_counts_stored:
  assumes "historian_write_batch batch_fallback P E now fates events db = (Inr n, db')"
  shows "n \<le> length (filter (\<lambda>e. own_row E now db' e \<or> taken_key E now db events e \<and> key_present E now db' e) events)
    \<and> ((\<forall>e \<in> set events. \<not> taken_key E now db events e) \<longrightarrow> n \<le> length (filter (own_row E now db') events))
    \<and> (n = length events \<longrightarrow> list_all (\<lambda>e. own_row E now db' e \<or> taken_key E now db events e \<and> key_present E now db' e) events)
    \<and> rows_kept db db' \<and> rows_within (\<Union> (rows_of_event E now ` set events)) db db'"
proof -
  have main: "n \<le> length (filter (key_present E now db') events)
      \<and> rows_kept db db' \<and> rows_within (\<Union> (rows_of_event E now ` set events)) db db'"
  proof (cases "events = []")
    case True
    then show ?thesis using assms by (simp add: historian_write_batch_def rows_kept_def rows_within_def)
  next
    case False
    obtain r db1 where i: "insert_industrial_events P E now (fates 0) events db = (r, db1)" by fastforce
    have w: "write_rows P E (fates 0) ''industrial_events'' (map (industrial_batch_row E now) events) db = (r, db1)"
      using i False by (simp add: insert_industrial_events_def)
    have sub: "set (map (industrial_batch_row E now) events) \<subseteq> \<Union> (rows_of_event E now ` set events)"
      by (auto simp: rows_of_event_def)
    have one: "rows_kept db db1" "rows_within (\<Union> (rows_of_event E now ` set events)) db db1"
      using write_rows_kept [OF w] sub unfolding rows_within_def by blast+
    show ?thesis
    proof (cases r)
      case (Inr u)
      then have "n = length events" "db' = db1" using assms False i by (simp_all add: historian_write_batch_def)
      moreover have "\<forall>e \<in> set events. key_present E now db1 e"
        using write_rows_kept [OF w] Inr by (auto simp: key_present_def rows_of_event_def)
      ultimately show ?thesis using one by (simp add: filter_True)
    next
      case (Inl e)
      then obtain k db2 where s: "write_singly P E now fates 1 events 0 db1 = (k, db2)" and n: "n = k" "db' = db2"
        using assms False i by (auto simp: historian_write_batch_def split: prod.splits if_splits)
      from write_singly_counts [OF s] one n show ?thesis unfolding rows_kept_def rows_within_def by auto
    qed
  qed
  let ?P = "\<lambda>e. own_row E now db' e \<or> taken_key E now db events e \<and> key_present E now db' e"
  have "key_present E now db' e \<Longrightarrow> ?P e" for e using present_own_or_taken main by blast
  then have "length (filter (key_present E now db') events) \<le> length (filter ?P events)" by (rule filter_count_mono)
  then have n: "n \<le> length (filter ?P events)" using main by linarith
  have all: "n = length events \<Longrightarrow> list_all ?P events"
    using n by (metis (no_types, lifting) dual_order.antisym filter_id_conv length_filter_le length_filter_less less_irrefl list_all_iff)
  have "filter ?P events = filter (own_row E now db') events" if "\<forall>e \<in> set events. \<not> taken_key E now db events e"
    by (rule filter_cong [OF refl]) (use that in blast)
  then show ?thesis using n all main by auto
qed

section \<open>Runs\<close>

definition demo_pg :: pg_env where
  "demo_pg = \<lparr>pe_rt = demo_rt, pe_instant = (\<lambda>s. of_nat (length s)), pe_uuid = Some, pe_uuid5 = (\<lambda>s. s), pe_refuses = (\<lambda>_ _. None)\<rparr>"

definition demo_reading :: "string \<Rightarrow> string \<Rightarrow> pydict" where
  "demo_reading i tg = [(''event_id'', PStr i), (''ts_source'', PStr ''10:00''), (''tag'', PStr tg), (''value'', PInt 7)]"

definition all_fine :: "nat \<Rightarrow> write_fate" where
  "all_fine n = Committed"

definition one_lost :: "nat \<Rightarrow> write_fate" where
  "one_lost n = (if n = 0 then CommitLost (Operational ''reset'') else Committed)"

definition demo_events :: "pydict list" where
  "demo_events = [demo_reading ''a'' ''x'', demo_reading ''b'' ''y'']"

definition demo_written :: tables where
  "demo_written = snd (insert_industrial_events default_retries demo_pg ''now'' one_lost demo_events [])"

lemma demo_write: "insert_industrial_events default_retries demo_pg ''now'' one_lost demo_events [] = (Inr (), demo_written)"
proof -
  have "fst (insert_industrial_events default_retries demo_pg ''now'' one_lost demo_events []) = Inr ()" by code_simp
  then show ?thesis unfolding demo_written_def by (metis prod.collapse)
qed

theorem batch_atomic_witness:
  "list_all (\<lambda>e. holds_row demo_pg ''industrial_events'' demo_written (industrial_batch_row demo_pg ''now'' e)) demo_events"
  using batch_atomic [OF demo_write, of "[]"] by (simp add: is_ok_def)

theorem redelivery_absorbed_witness:
  "snd (insert_industrial_events default_retries demo_pg ''later'' all_fine [demo_reading ''b'' ''y''] demo_written) = demo_written"
proof -
  have s: "set [demo_reading ''b'' ''y''] \<subseteq> set demo_events" by (simp add: demo_events_def)
  have t: "list_all has_time [demo_reading ''b'' ''y'']" by code_simp
  obtain r db2 where w: "insert_industrial_events default_retries demo_pg ''later'' all_fine [demo_reading ''b'' ''y''] demo_written = (r, db2)"
    by fastforce
  from redelivery_absorbed [OF demo_write s t w] w show ?thesis by simp
qed

definition demo_processing :: processing where
  "demo_processing = \<lparr>pr_processed_at = None, pr_window_size = 1, pr_temperature_avg_c = 0, pr_vibration_avg_mm_s = 0, pr_anomaly_score = 0,
     pr_severity = ''normal'', pr_threshold_severity = ''normal'', pr_threshold_status = ''ok'', pr_threshold_source = ''user'',
     pr_threshold_policy_version = 1, pr_threshold_breached = False, pr_triggered_rules = None, pr_baseline = None, pr_evaluation = None\<rparr>"

theorem processed_matches_industrial_witness:
  "(case processed_row demo_pg ''now'' (event_to_dict (record_after (pe_rt demo_pg) ''t'' (demo_reading ''a'' ''x'') demo_processing)) of
      Inr r \<Rightarrow> row_key demo_pg r = row_key demo_pg (industrial_batch_row demo_pg ''later'' (demo_reading ''a'' ''x''))
        \<and> map (pget r) scalar_columns = map (pget (industrial_batch_row demo_pg ''later'' (demo_reading ''a'' ''x''))) scalar_columns
    | Inl _ \<Rightarrow> False)"
proof -
  have i: "pget (demo_reading ''a'' ''x'') ''event_id'' = PStr ''a''" "''a'' \<noteq> []" by (simp_all add: demo_reading_def pget_first)
  have t: "time_text (pe_rt demo_pg) (demo_reading ''a'' ''x'') \<noteq> []" by code_simp
  have c: "clear_scalar (demo_reading ''a'' ''x'')" by code_simp
  show ?thesis by (rule processed_matches_industrial [OF i t c])
qed

theorem sink_counts_stored_witness:
  "\<exists>db'. historian_write_batch True default_retries demo_pg ''now'' (\<lambda>_. one_lost) demo_events [] = (Inr 2, db')
     \<and> length (filter (own_row demo_pg ''now'' db') demo_events) = 2"
proof -
  obtain db' where w: "historian_write_batch True default_retries demo_pg ''now'' (\<lambda>_. one_lost) demo_events [] = (Inr 2, db')"
    using demo_write by (simp add: historian_write_batch_def) (simp add: demo_events_def)
  have "list_all (\<lambda>e. list_all (\<lambda>e'. e' = e \<or> row_key demo_pg (industrial_batch_row demo_pg ''now'' e') \<noteq> row_key demo_pg (industrial_batch_row demo_pg ''now'' e)) demo_events) demo_events"
    "list_all (\<lambda>e. industrial_row demo_pg ''now'' e = industrial_batch_row demo_pg ''now'' e) demo_events"
    by (code_simp, code_simp)
  then have "\<forall>e \<in> set demo_events. \<not> taken_key demo_pg ''now'' [] demo_events e"
    by (auto simp: taken_key_def rows_of_event_def list_all_iff table_rows_def dict_getd_def)
  with sink_counts_stored [OF w] have "2 \<le> length (filter (own_row demo_pg ''now'' db') demo_events)" by blast
  moreover have "length (filter (own_row demo_pg ''now'' db') demo_events) \<le> 2"
    using length_filter_le [of "own_row demo_pg ''now'' db'" demo_events] by (simp add: demo_events_def)
  ultimately show ?thesis using w by (intro exI [of _ db'] conjI) simp_all
qed

text \<open>Events without an identifier share one: the second of two with the same time is dropped, and the insert succeeds.\<close>

definition nameless :: "string \<Rightarrow> pydict" where
  "nameless tg = [(''ts_source'', PStr ''10:00''), (''tag'', PStr tg), (''value'', PInt 7)]"

lemma nameless_collide:
  "(case insert_industrial_events default_retries demo_pg ''now'' all_fine [nameless ''x'', nameless ''y''] [] of
      (Inr _, db) \<Rightarrow> length (table_rows db ''industrial_events'') = 1 | _ \<Rightarrow> False)"
  by code_simp

text \<open>The single insert does not look at \<open>timestamp\<close>: on the path of single inserts a redelivered event is stored again.\<close>

definition stamped :: pydict where
  "stamped = [(''event_id'', PStr ''a''), (''timestamp'', PStr ''10:00''), (''value'', PInt 7)]"

lemma fallback_duplicates:
  "(case insert_industrial_event default_retries demo_pg ''now'' all_fine stamped [] of
      (Inr _, db) \<Rightarrow> (case insert_industrial_event default_retries demo_pg ''later'' all_fine stamped db of
        (Inr _, db') \<Rightarrow> length (table_rows db' ''industrial_events'') = 2 | _ \<Rightarrow> False) | _ \<Rightarrow> False)
   \<and> has_time stamped"
  by (rule conjI; code_simp)

text \<open>A null value is the empty text in one table and \<open>None\<close> in the other.\<close>

lemma null_value_differs:
  "float_of R [] = None \<Longrightarrow> ty_text (typed_value R PNone) = Some []"
  "float_of R ''None'' = None \<Longrightarrow> fst (snd (typed_scalar R PNone)) = Some ''None''"
  by (simp_all add: typed_value_def typed_scalar_def py_str_def Let_def)

text \<open>An audit event without a time never reaches the log.\<close>

lemma untimed_audit_fails: "\<not> truthy (pget event ''time'') \<Longrightarrow> insert_audit_log P E fates event db = (Inl (OtherError ''NameError''), db)"
  by (simp add: insert_audit_log_def audit_log_row_def)

end
