(* ===== verification/Historian_Queries.thy ===== *)
theory Historian_Queries
  imports Historian_Client Query_Plan Scoring
begin

text \<open>
  Reading the historian and its maintenance (\<open>services/historian/client.py\<close>, \<open>retention.py\<close>): the registry of running
  queries, the connections of \<open>Historian_Client\<close> around a statement, the queries of reports and trends as
  texts with parameters (white space apart), and the policies of retention and compression as statements of one transaction.
\<close>

section \<open>Queries\<close>

text \<open>The registry of running queries: a later query under the same identifier takes the handle over, and the first to end
  removes it.\<close>

record query_handle =
  qh_query_id :: string
  qh_connection :: nat
  qh_timeout_ms :: int
  qh_operation :: string
  qh_sql :: string

type_synonym active_queries = "(string \<times> query_handle) list"

definition register_query_handle :: "query_handle \<Rightarrow> active_queries \<Rightarrow> active_queries" where
  "register_query_handle h q = dict_set q (qh_query_id h) h"

definition release_query_handle :: "string \<Rightarrow> active_queries \<Rightarrow> active_queries" where
  "release_query_handle i q = dict_del q i"

text \<open>The status of a cancellation and the connection it is sent to; \<open>fails\<close> is an exception of \<open>connection.cancel\<close>.\<close>

definition cancel_historian_query :: "(nat \<Rightarrow> string option) \<Rightarrow> string \<Rightarrow> active_queries \<Rightarrow> string \<times> nat option" where
  "cancel_historian_query fails i q =
     (case map_of q i of
        None \<Rightarrow> (''not_found'', None)
      | Some h \<Rightarrow> (if fails (qh_connection h) = None then (''cancel_requested'', Some (qh_connection h)) else (''cancel_failed'', None)))"

datatype query_error = QueryTimeout int | QueryCancelled string | QueryFailed db_error

definition query_timeout_ms :: "int option \<Rightarrow> int" where
  "query_timeout_ms t = (case t of None \<Rightarrow> 15000 | Some n \<Rightarrow> max 1 n)"

definition classify_query_error :: "string \<Rightarrow> int \<Rightarrow> string option \<Rightarrow> db_error \<Rightarrow> query_error" where
  "classify_query_error query_id timeout_ms cancelled e =
     (case cancelled of
        None \<Rightarrow> QueryFailed e
      | Some message \<Rightarrow> (if contains (py_lower message) ''timeout'' then QueryTimeout timeout_ms else QueryCancelled query_id))"

text \<open>\<open>_fetch_rows_with_timeout\<close>: the rows of a statement, which is rolled back with its connection;
  \<open>cancelled\<close> is the message of a \<open>QueryCanceled\<close>.\<close>

definition fetch_rows ::
    "nat \<Rightarrow> string \<Rightarrow> string \<Rightarrow> int option \<Rightarrow> (db_error \<Rightarrow> string option) \<Rightarrow> string \<Rightarrow> ('db, 'row list) statement \<Rightarrow> 'db \<times> active_queries
      \<Rightarrow> (query_error + 'row list) \<times> 'db \<times> active_queries" where
  "fetch_rows conn operation query_id timeout cancelled sql f s =
     (let ms = query_timeout_ms timeout;
          q = register_query_handle \<lparr>qh_query_id = query_id, qh_connection = conn, qh_timeout_ms = ms, qh_operation = operation, qh_sql = sql\<rparr> (snd s);
          (r, db) = with_connection (run_statement f) (fst s)
      in (case r of Inl e \<Rightarrow> Inl (classify_query_error query_id ms (cancelled e) e) | Inr rows \<Rightarrow> Inr rows, db, release_query_handle query_id q))"

definition query_sql where
  "query_sql conn query_id timeout cancelled sql f s = fetch_rows conn ''readwrite'' query_id timeout cancelled sql f s"

definition query_sql_readonly where
  "query_sql_readonly conn query_id timeout cancelled sql f s =
     (case validate_readonly_sql sql of
        Inl reason \<Rightarrow> (Inl (QueryFailed (OtherError reason)), fst s, snd s)
      | Inr _ \<Rightarrow> fetch_rows conn ''readonly'' query_id timeout cancelled sql f s)"

lemma with_statement: "with_connection (run_statement f) db = (fst (f db), db)"
  by (cases "f db"; cases "fst (f db)") (auto simp: with_connection_def run_statement_def fresh_conn_def do_rollback_def)

text \<open>No query changes the historian: whatever statement that does not end the transaction itself it is given, an insert included, and whether it answers, fails or
  is cancelled, \<open>query_sql\<close> leaves the committed database as it was, and it gives the handle of the query back.\<close>

theorem query_never_writes:
  "fst (snd (query_sql conn i timeout cancelled sql f (db, q))) = db
   \<and> fst (snd (query_sql_readonly conn i timeout cancelled sql f (db, q))) = db
   \<and> map_of (snd (snd (query_sql conn i timeout cancelled sql f (db, q)))) = (map_of q)(i := None)"
  by (simp add: query_sql_def query_sql_readonly_def fetch_rows_def Let_def with_statement release_query_handle_def register_query_handle_def
      dict_simps split: sum.split)

lemma same_id_loses_handle:
  "cancel_historian_query (\<lambda>_. None) i (release_query_handle i (register_query_handle h2 (register_query_handle h1 q))) = (''not_found'', None)"
  by (simp add: cancel_historian_query_def release_query_handle_def dict_simps)

section \<open>Query texts\<close>

definition ALLOWED_QUERY_TABLES :: "string list" where
  "ALLOWED_QUERY_TABLES = [''industrial_events'', ''processed_events'', ''ai_enriched'', ''dead_letter_events'']"

type_synonym sql_query = "string \<times> pyval list"

definition query_recent_events :: "string \<Rightarrow> pyval \<Rightarrow> string + sql_query" where
  "query_recent_events t limit =
     (if t \<notin> set ALLOWED_QUERY_TABLES then Inl (''unsupported table: '' @ t)
      else Inr (''SELECT * FROM '' @ t @ '' ORDER BY time DESC LIMIT %s'', [limit]))"

definition evidence_filters :: "string \<Rightarrow> pyval \<Rightarrow> pyval \<Rightarrow> (string \<times> pyval) list" where
  "evidence_filters site_id start finish =
     (if site_id \<noteq> [] \<and> site_id \<noteq> ''*'' then [(''site_id = %s'', PStr site_id)] else [])
     @ (if start \<noteq> PNone then [(''time >= %s'', start)] else []) @ (if finish \<noteq> PNone then [(''time <= %s'', finish)] else [])"

definition query_report_evidence :: "string \<Rightarrow> pyval \<Rightarrow> pyval \<Rightarrow> int \<Rightarrow> sql_query" where
  "query_report_evidence site_id start finish limit =
     (let fs = evidence_filters site_id start finish;
          where_text = (if fs \<noteq> [] then '' WHERE '' @ join '' AND '' (map fst fs) else [])
      in (''SELECT * FROM processed_events'' @ where_text @ '' ORDER BY time DESC LIMIT %s'', map snd fs @ [PInt (max 1 (min limit 1000))]))"

definition query_ai_report_projection :: "pg_env \<Rightarrow> string \<Rightarrow> sql_query" where
  "query_ai_report_projection E report_id =
     (''SELECT time, event_id, report_id, report_type, situation_status, used_fallback FROM ai_enriched WHERE report_id = %s ORDER BY time DESC LIMIT 1'',
      [PStr (event_uuid E (PStr report_id))])"

definition first_row :: "'row list \<Rightarrow> 'row option" where
  "first_row rows = (case rows of [] \<Rightarrow> None | r # _ \<Rightarrow> Some r)"

definition alarm_row :: "pyrt \<Rightarrow> pydict \<Rightarrow> pydict" where
  "alarm_row R row =
     [(''time'', pget row ''time''), (''asset_id'', pget row ''asset_id''), (''tag'', pget row ''tag''), (''value'', pget row ''value''),
      (''unit'', pget row ''unit''), (''severity'', pget row ''severity''),
      (''message'', PStr (''Anomaly detected on '' @ py_str R (pget row ''asset_id'') @ ''.'' @ py_str R (pget row ''tag''))),
      (''triggered_rules'', dict_getd row ''triggered_rules'' (PList [])), (''acknowledged'', PBool False)]"

definition query_alarms :: "pyrt \<Rightarrow> pydict list \<Rightarrow> pydict list" where
  "query_alarms R rows = map (alarm_row R) rows"

section \<open>Trends\<close>

text \<open>Times are seconds; \<open>start\<close> and \<open>finish\<close> default to the last hours. A query is its text with its parameters.\<close>

record trend_request =
  tr_asset :: string
  tr_tag :: string
  tr_hours :: int
  tr_site :: "string option"
  tr_start :: "rat option"
  tr_end :: "rat option"
  tr_max_points :: int
  tr_aggregation :: string

definition trend_points :: "int \<Rightarrow> int" where
  "trend_points n = max 1 (min (if n = 0 then 2000 else n) 2000)"

definition site_clause :: string where
  "site_clause = '' AND site = %s''"

definition site_text :: "string option \<Rightarrow> string" where
  "site_text site = (case site of Some (c # cs) \<Rightarrow> site_clause | _ \<Rightarrow> [])"

definition site_param :: "string option \<Rightarrow> pyval list" where
  "site_param site = (case site of Some (c # cs) \<Rightarrow> [PStr (c # cs)] | _ \<Rightarrow> [])"

definition trend_aggregate :: "string \<Rightarrow> string" where
  "trend_aggregate a = (if a = ''min'' then ''MIN(value)'' else if a = ''max'' then ''MAX(value)'' else ''AVG(value)'')"

definition from_tag :: string where
  "from_tag = '' FROM industrial_events WHERE asset_id = %s AND tag = %s''"

definition raw_columns :: string where
  "raw_columns = ''SELECT time, value, quality, fault_type, ground_truth_severity''"

definition raw_tail :: string where
  "raw_tail = '' AND time >= %s AND time <= %s ORDER BY time ASC LIMIT %s''"

definition bucket_column :: string where
  "bucket_column = ''SELECT time_bucket(%s::interval, time) AS time, ''"

definition bucket_columns :: string where
  "bucket_columns = '' AS value, '' @ [CHR 0x27] @ ''good'' @ [CHR 0x27] @ '' AS quality, NULL AS fault_type, NULL AS ground_truth_severity''"

definition bucket_tail :: string where
  "bucket_tail = '' AND time >= %s AND time <= %s GROUP BY 1 ORDER BY 1 ASC LIMIT %s''"

definition raw_trend_sql :: "string option \<Rightarrow> string" where
  "raw_trend_sql site = raw_columns @ from_tag @ site_text site @ raw_tail"

definition bucket_trend_sql :: "string \<Rightarrow> string option \<Rightarrow> string" where
  "bucket_trend_sql aggregate site = bucket_column @ aggregate @ bucket_columns @ from_tag @ site_text site @ bucket_tail"

definition trend_start :: "rat \<Rightarrow> trend_request \<Rightarrow> rat" where
  "trend_start now q = (case tr_start q of Some t \<Rightarrow> t | None \<Rightarrow> now - 3600 * of_int (max 1 (tr_hours q)))"

definition trend_end :: "rat \<Rightarrow> trend_request \<Rightarrow> rat" where
  "trend_end now q = (case tr_end q of Some t \<Rightarrow> t | None \<Rightarrow> now)"

definition trend_params :: "rat \<Rightarrow> rat \<Rightarrow> trend_request \<Rightarrow> pyval list" where
  "trend_params start finish q =
     [PStr (tr_asset q), PStr (tr_tag q)] @ site_param (tr_site q) @ [PFloat start, PFloat finish, PInt (trend_points (tr_max_points q))]"

definition raw_trend :: "rat \<Rightarrow> rat \<Rightarrow> trend_request \<Rightarrow> sql_query" where
  "raw_trend start finish q = (raw_trend_sql (tr_site q), trend_params start finish q)"

definition trend_seconds :: "rat \<Rightarrow> rat \<Rightarrow> trend_request \<Rightarrow> rat" where
  "trend_seconds start finish q = max 1 ((finish - start) / of_int (trend_points (tr_max_points q)))"

text \<open>The parameter for the width is the text of its number of seconds followed by \<open>seconds\<close>.\<close>

definition bucket_trend :: "pyrt \<Rightarrow> rat \<Rightarrow> rat \<Rightarrow> string \<Rightarrow> trend_request \<Rightarrow> sql_query" where
  "bucket_trend R start finish aggregation q =
     (bucket_trend_sql (trend_aggregate aggregation) (tr_site q),
      PStr (py_str R (PFloat (trend_seconds start finish q)) @ '' seconds'') # trend_params start finish q)"

definition trend_aggregations :: "string list" where
  "trend_aggregations = [''auto'', ''raw'', ''avg'', ''min'', ''max'']"

definition query_trend :: "pyrt \<Rightarrow> rat \<Rightarrow> rat \<Rightarrow> trend_request \<Rightarrow> string + sql_query" where
  "query_trend R now_start now_end q =
     (let aggregation = py_strip (py_lower (tr_aggregation q)); start = trend_start now_start q; finish = trend_end now_end q in
      if aggregation \<notin> set trend_aggregations then Inl ''aggregation must be auto, raw, avg, min, or max''
      else if aggregation = ''raw'' then Inr (raw_trend start finish q)
      else Inr (bucket_trend R start finish aggregation q))"

text \<open>What the database answers to a query of this form, read off its text: a placeholder is filled by the parameter whose number
  is that of the placeholders before it; a condition that is not in the text is no condition; the rows are sorted
  as the text says, in any order (\<open>unsorted\<close>) when it does not say, and cut at the limit. A sample stands for a row of the
  table; a row of the answer is its time, or the start of its bucket, where \<open>origin\<close> is that of \<open>time_bucket\<close> and \<open>interval\<close>
  reads the text of a width.\<close>

record trend_sample =
  sp_asset :: string
  sp_tag :: string
  sp_site :: string
  sp_time :: rat

fun placeholders_before :: "string \<Rightarrow> string \<Rightarrow> nat option" where
  "placeholders_before p [] = None"
| "placeholders_before p (c # cs) =
     (if starts_with (c # cs) p then Some 0
      else map_option (\<lambda>n. if c = CHR ''%'' then Suc n else n) (placeholders_before p cs))"

definition sql_param :: "string \<Rightarrow> sql_query \<Rightarrow> pyval option" where
  "sql_param p c =
     (case placeholders_before p (fst c) of None \<Rightarrow> None | Some n \<Rightarrow> if n < length (snd c) then Some (snd c ! n) else None)"

definition sql_condition :: "string \<Rightarrow> (pyval \<Rightarrow> bool) \<Rightarrow> sql_query \<Rightarrow> bool" where
  "sql_condition p test c = (case sql_param p c of None \<Rightarrow> True | Some v \<Rightarrow> test v)"

definition row_matches :: "sql_query \<Rightarrow> trend_sample \<Rightarrow> bool" where
  "row_matches c s \<longleftrightarrow>
     sql_condition ''asset_id = %s'' (\<lambda>v. v = PStr (sp_asset s)) c \<and> sql_condition ''tag = %s'' (\<lambda>v. v = PStr (sp_tag s)) c
     \<and> sql_condition ''site = %s'' (\<lambda>v. v = PStr (sp_site s)) c
     \<and> sql_condition ''time >= %s'' (\<lambda>v. case v of PFloat t \<Rightarrow> t \<le> sp_time s | _ \<Rightarrow> False) c
     \<and> sql_condition ''time <= %s'' (\<lambda>v. case v of PFloat t \<Rightarrow> sp_time s \<le> t | _ \<Rightarrow> False) c"

definition bucket_of :: "rat \<Rightarrow> rat \<Rightarrow> rat \<Rightarrow> int" where
  "bucket_of origin width t = \<lfloor>(t - origin) / width\<rfloor>"

definition bucket_start :: "rat \<Rightarrow> rat \<Rightarrow> rat \<Rightarrow> rat" where
  "bucket_start origin width t = origin + width * of_int (bucket_of origin width t)"

definition bucket_starts :: "rat \<Rightarrow> rat \<Rightarrow> rat list \<Rightarrow> rat list" where
  "bucket_starts origin width ts = sorted_list_of_set (set (map (bucket_start origin width) ts))"

definition sql_rows :: "(string \<Rightarrow> rat) \<Rightarrow> rat \<Rightarrow> sql_query \<Rightarrow> trend_sample list \<Rightarrow> rat list" where
  "sql_rows interval origin c samples =
     (let ts = map sp_time (filter (row_matches c) samples) in
      case sql_param ''SELECT time_bucket(%s::interval, time)'' c of
        Some (PStr w) \<Rightarrow> (if contains (fst c) ''GROUP BY 1 '' then bucket_starts origin (interval w) ts else [])
      | _ \<Rightarrow> sort ts)"

definition sql_sorted :: "(rat list \<Rightarrow> rat list) \<Rightarrow> string \<Rightarrow> rat list \<Rightarrow> rat list" where
  "sql_sorted unsorted sql xs =
     (if contains sql ''ORDER BY 1 ASC'' \<or> contains sql ''ORDER BY time ASC'' then xs
      else if contains sql ''ORDER BY 1 DESC'' \<or> contains sql ''ORDER BY time DESC'' then rev xs
      else unsorted xs)"

definition sql_answer ::
    "(string \<Rightarrow> rat) \<Rightarrow> rat \<Rightarrow> (rat list \<Rightarrow> rat list) \<Rightarrow> sql_query \<Rightarrow> trend_sample list \<Rightarrow> rat list" where
  "sql_answer interval origin unsorted c samples =
     (let xs = sql_sorted unsorted (fst c) (sql_rows interval origin c samples) in
      case sql_param ''LIMIT %s'' c of Some (PInt n) \<Rightarrow> take (nat n) xs | _ \<Rightarrow> xs)"

lemma marks_site: "marks (site_text s) = length (site_param s)"
  by (cases s; cases "the s") (simp_all add: site_text_def site_param_def site_clause_def marks_Cons)

lemma marks_aggregate_text: "marks (trend_aggregate a) = 0"
  by (simp add: trend_aggregate_def marks_Cons)

lemma marks_texts:
  "marks from_tag = 2" "marks raw_columns = 0" "marks raw_tail = 3" "marks bucket_column = 1" "marks bucket_columns = 0" "marks bucket_tail = 3"
  by code_simp+

lemma marks_sql:
  "marks (raw_trend_sql site) = 5 + length (site_param site)"
  "marks (bucket_trend_sql (trend_aggregate a) site) = 6 + length (site_param site)"
  unfolding raw_trend_sql_def bucket_trend_sql_def by (simp_all add: marks_site marks_aggregate_text marks_texts)

lemma trend_points_range: "1 \<le> trend_points n \<and> trend_points n \<le> 2000"
  by (simp add: trend_points_def)

lemma params_length: "length (trend_params start finish q) = 5 + length (site_param (tr_site q))"
  by (simp add: trend_params_def)

lemma trend_aligned: "query_trend R ns ne q = Inr c \<Longrightarrow> aligned c"
  by (auto simp: query_trend_def Let_def aligned_def marks_sql params_length raw_trend_def bucket_trend_def split: if_splits)

text \<open>Where the clauses of the texts stand: evaluated for each aggregate, with and without a site.\<close>

definition clause_positions :: "string \<Rightarrow> nat option list" where
  "clause_positions sql = map (\<lambda>p. placeholders_before p sql)
     [''SELECT time_bucket(%s::interval, time)'', ''asset_id = %s'', ''tag = %s'', ''site = %s'', ''time >= %s'', ''time <= %s'', ''LIMIT %s'']"

lemma raw_positions:
  "clause_positions (raw_columns @ from_tag @ raw_tail) = [None, Some 0, Some 1, None, Some 2, Some 3, Some 4]"
  "clause_positions (raw_columns @ from_tag @ site_clause @ raw_tail) = [None, Some 0, Some 1, Some 2, Some 3, Some 4, Some 5]"
  by (code_simp, code_simp)

lemma bucket_positions:
  "list_all (\<lambda>a. clause_positions (bucket_column @ a @ bucket_columns @ from_tag @ bucket_tail)
     = [Some 0, Some 1, Some 2, None, Some 3, Some 4, Some 5]) [''MIN(value)'', ''MAX(value)'', ''AVG(value)'']"
  "list_all (\<lambda>a. clause_positions (bucket_column @ a @ bucket_columns @ from_tag @ site_clause @ bucket_tail)
     = [Some 0, Some 1, Some 2, Some 3, Some 4, Some 5, Some 6]) [''MIN(value)'', ''MAX(value)'', ''AVG(value)'']"
  by (code_simp, code_simp)

lemma raw_orders:
  "contains (raw_columns @ from_tag @ raw_tail) ''ORDER BY time ASC''"
  "contains (raw_columns @ from_tag @ site_clause @ raw_tail) ''ORDER BY time ASC''"
  by (code_simp, code_simp)

lemma bucket_orders:
  "list_all (\<lambda>a. contains (bucket_column @ a @ bucket_columns @ from_tag @ bucket_tail) ''ORDER BY 1 ASC''
     \<and> contains (bucket_column @ a @ bucket_columns @ from_tag @ bucket_tail) ''GROUP BY 1 '') [''MIN(value)'', ''MAX(value)'', ''AVG(value)'']"
  "list_all (\<lambda>a. contains (bucket_column @ a @ bucket_columns @ from_tag @ site_clause @ bucket_tail) ''ORDER BY 1 ASC''
     \<and> contains (bucket_column @ a @ bucket_columns @ from_tag @ site_clause @ bucket_tail) ''GROUP BY 1 '')
     [''MIN(value)'', ''MAX(value)'', ''AVG(value)'']"
  by (code_simp, code_simp)

lemma aggregate_all: "list_all P [''MIN(value)'', ''MAX(value)'', ''AVG(value)''] \<Longrightarrow> P (trend_aggregate a)"
  by (simp add: trend_aggregate_def)

lemma site_cases:
  obtains "site_text site = []" "site_param site = []" "site = None \<or> site = Some []"
  | c cs where "site = Some (c # cs)" "site_text site = site_clause" "site_param site = [PStr (c # cs)]"
proof (cases "\<exists>c cs. site = Some (c # cs)")
  case True
  then show thesis using that(2) by (auto simp: site_text_def site_param_def)
next
  case False
  then have "site = None \<or> site = Some []" by (metis list.exhaust option.exhaust)
  then show thesis using that(1) by (auto simp: site_text_def site_param_def)
qed

text \<open>What was asked for, from the request alone.\<close>

definition asked_for :: "trend_request \<Rightarrow> rat \<Rightarrow> rat \<Rightarrow> trend_sample \<Rightarrow> bool" where
  "asked_for q start finish s \<longleftrightarrow> sp_asset s = tr_asset q \<and> sp_tag s = tr_tag q
     \<and> (case tr_site q of Some (c # cs) \<Rightarrow> sp_site s = c # cs | _ \<Rightarrow> True) \<and> start \<le> sp_time s \<and> sp_time s \<le> finish"

text \<open>Every query of a trend asks for what its request says, whatever its head: \<open>n\<close> parameters stand before those of the request.\<close>

lemma request_reads:
  assumes "clause_positions sql = [h, Some n, Some (n + 1), if site_param (tr_site q) = [] then None else Some (n + 2),
      Some (n + 2 + length (site_param (tr_site q))), Some (n + 3 + length (site_param (tr_site q))), Some (n + 4 + length (site_param (tr_site q)))]"
    and "length hd_params = n"
  shows "row_matches (sql, hd_params @ trend_params start finish q) = asked_for q start finish"
    and "sql_param ''LIMIT %s'' (sql, hd_params @ trend_params start finish q) = Some (PInt (trend_points (tr_max_points q)))"
    and "sql_param ''SELECT time_bucket(%s::interval, time)'' (sql, hd_params @ trend_params start finish q)
      = (case h of None \<Rightarrow> None | Some k \<Rightarrow> if k < length hd_params + length (trend_params start finish q) then Some ((hd_params @ trend_params start finish q) ! k) else None)"
proof -
  note pos = assms(1) [unfolded clause_positions_def list.map list.inject]
  have nth: "(hd_params @ xs) ! (n + k) = xs ! k" for xs k using nth_append_length_plus [of hd_params xs k] assms(2) by simp
  have par: "sql_param p (sql, hd_params @ trend_params start finish q)
      = (case placeholders_before p sql of None \<Rightarrow> None | Some m \<Rightarrow>
          if m < length hd_params + length (trend_params start finish q) then Some ((hd_params @ trend_params start finish q) ! m) else None)" for p
    by (simp add: sql_param_def split: option.split)
  have get: "sql_param p (sql, hd_params @ trend_params start finish q) = Some (trend_params start finish q ! k)"
    if "placeholders_before p sql = Some (n + k)" "k < length (trend_params start finish q)" for p k
    using that assms(2) nth unfolding par by simp
  have len: "length (trend_params start finish q) = 5 + length (site_param (tr_site q))" by (rule params_length)
  have asset: "sql_param ''asset_id = %s'' (sql, hd_params @ trend_params start finish q) = Some (PStr (tr_asset q))"
    using get [of "''asset_id = %s''" 0] pos len by (simp add: trend_params_def)
  have tg: "sql_param ''tag = %s'' (sql, hd_params @ trend_params start finish q) = Some (PStr (tr_tag q))"
    using get [of "''tag = %s''" 1] pos len by (simp add: trend_params_def)
  have lo: "sql_param ''time >= %s'' (sql, hd_params @ trend_params start finish q) = Some (PFloat start)"
    using get [of "''time >= %s''" "2 + length (site_param (tr_site q))"] pos len
    by (simp add: trend_params_def nth_append ac_simps)
  have hi: "sql_param ''time <= %s'' (sql, hd_params @ trend_params start finish q) = Some (PFloat finish)"
    using get [of "''time <= %s''" "3 + length (site_param (tr_site q))"] pos len
    by (simp add: trend_params_def nth_append ac_simps)
  have lim: "sql_param ''LIMIT %s'' (sql, hd_params @ trend_params start finish q) = Some (PInt (trend_points (tr_max_points q)))"
    using get [of "''LIMIT %s''" "4 + length (site_param (tr_site q))"] pos len
    by (simp add: trend_params_def nth_append ac_simps)
  show "sql_param ''LIMIT %s'' (sql, hd_params @ trend_params start finish q) = Some (PInt (trend_points (tr_max_points q)))" by (rule lim)
  have site: "sql_condition ''site = %s'' P (sql, hd_params @ trend_params start finish q)
      = (case tr_site q of Some (c # cs) \<Rightarrow> P (PStr (c # cs)) | _ \<Rightarrow> True)" for P
  proof (cases rule: site_cases [of "tr_site q"])
    case 1
    then have "placeholders_before ''site = %s'' sql = None" using pos by simp
    then show ?thesis using 1(3) by (auto simp: sql_condition_def par)
  next
    case (2 c cs)
    then have "placeholders_before ''site = %s'' sql = Some (n + 2)" using pos by simp
    from get [OF this] have "sql_param ''site = %s'' (sql, hd_params @ trend_params start finish q) = Some (PStr (c # cs))"
      using 2 len by (simp add: trend_params_def)
    then show ?thesis using 2(1) by (simp add: sql_condition_def)
  qed
  show "row_matches (sql, hd_params @ trend_params start finish q) = asked_for q start finish"
    unfolding fun_eq_iff row_matches_def asked_for_def site unfolding sql_condition_def asset tg lo hi option.case pyval.case
    by (auto split: option.splits list.splits)
  show "sql_param ''SELECT time_bucket(%s::interval, time)'' (sql, hd_params @ trend_params start finish q)
      = (case h of None \<Rightarrow> None | Some k \<Rightarrow> if k < length hd_params + length (trend_params start finish q) then Some ((hd_params @ trend_params start finish q) ! k) else None)"
    unfolding par using pos by simp
qed

lemma raw_reads:
  "row_matches (raw_trend start finish q) = asked_for q start finish"
  "sql_param ''SELECT time_bucket(%s::interval, time)'' (raw_trend start finish q) = None"
  "sql_param ''LIMIT %s'' (raw_trend start finish q) = Some (PInt (trend_points (tr_max_points q)))"
  "sql_sorted u (fst (raw_trend start finish q)) xs = xs"
proof -
  have pos: "clause_positions (raw_trend_sql (tr_site q)) = [None, Some 0, Some (0 + 1), if site_param (tr_site q) = [] then None else Some (0 + 2),
      Some (0 + 2 + length (site_param (tr_site q))), Some (0 + 3 + length (site_param (tr_site q))), Some (0 + 4 + length (site_param (tr_site q)))]"
    by (cases rule: site_cases [of "tr_site q"]) (simp_all add: raw_trend_sql_def raw_positions eval_nat_numeral)
  note r = request_reads [OF pos, of "[]" start finish, unfolded append_Nil, folded raw_trend_def]
  show "row_matches (raw_trend start finish q) = asked_for q start finish" by (rule r(1)) simp
  show "sql_param ''SELECT time_bucket(%s::interval, time)'' (raw_trend start finish q) = None" using r(3) by simp
  show "sql_param ''LIMIT %s'' (raw_trend start finish q) = Some (PInt (trend_points (tr_max_points q)))" by (rule r(2)) simp
  have "contains (raw_trend_sql (tr_site q)) ''ORDER BY time ASC''"
    by (cases rule: site_cases [of "tr_site q"]) (simp_all add: raw_trend_sql_def raw_orders)
  then show "sql_sorted u (fst (raw_trend start finish q)) xs = xs" by (simp add: raw_trend_def sql_sorted_def)
qed

text \<open>The buckets of a range of at most \<open>n\<close> widths, read with a width that is off by a microsecond at most.\<close>

lemma bucket_range:
  assumes "1 \<le> n" "n \<le> 2000" "\<bar>w - max 1 ((b - a) / of_int n)\<bar> \<le> 1 / 1000000" "a \<le> t" "t \<le> b"
  shows "bucket_of o0 w a \<le> bucket_of o0 w t \<and> bucket_of o0 w t \<le> bucket_of o0 w a + (n + 1)"
proof -
  have e: "max 1 ((b - a) / of_int n) \<le> w + 1 / 1000000" and w: "999999 / 1000000 \<le> w" using assms(3) by linarith+
  then have "(b - a) / of_int n \<le> w + 1 / 1000000" by simp
  then have "b - a \<le> (w + 1 / 1000000) * of_int n" using assms(1) by (simp add: divide_le_eq)
  moreover have "of_int n / 1000000 \<le> w" using assms(2) w by simp
  ultimately have "t - a \<le> of_int (n + 1) * w" using assms(5) by (simp add: algebra_simps)
  then have "(t - a) / w \<le> of_int (n + 1)" using w by (simp add: divide_le_eq)
  then have u: "(t - o0) / w \<le> (a - o0) / w + of_int (n + 1)" by (simp add: diff_divide_distrib)
  have l: "(a - o0) / w \<le> (t - o0) / w" using assms(4) w by (simp add: divide_right_mono)
  show ?thesis unfolding bucket_of_def using floor_mono [OF l] floor_mono [OF u] by simp
qed

lemma buckets_few:
  assumes "1 \<le> n" "n \<le> 2000" "\<bar>w - max 1 ((b - a) / of_int n)\<bar> \<le> 1 / 1000000" "\<forall>t \<in> set ts. a \<le> t \<and> t \<le> b"
  shows "length (bucket_starts o0 w ts) \<le> nat n + 2"
proof -
  let ?k = "bucket_of o0 w a"
  have "set (map (bucket_start o0 w) ts) \<subseteq> (\<lambda>i. o0 + w * of_int i) ` {?k .. ?k + (n + 1)}"
    using bucket_range [OF assms(1-3)] assms(4) by (auto simp: bucket_start_def)
  then have "card (set (map (bucket_start o0 w) ts)) \<le> card ((\<lambda>i. o0 + w * of_int i) ` {?k .. ?k + (n + 1)})"
    by (intro card_mono) simp_all
  also have "\<dots> \<le> card {?k .. ?k + (n + 1)}" by (intro card_image_le) simp
  finally show ?thesis using assms(1) by (simp add: bucket_starts_def)
qed

lemma take_all_but: "length xs \<le> n + 2 \<Longrightarrow> \<exists>k \<le> 2. take n xs = take (length xs - k) xs"
  by (cases "n \<le> length xs"; rule exI [of _ "length xs - n"]) simp_all

lemma bucket_reads:
  "row_matches (bucket_trend R start finish a q) = asked_for q start finish"
  "sql_param ''SELECT time_bucket(%s::interval, time)'' (bucket_trend R start finish a q)
     = Some (PStr (py_str R (PFloat (trend_seconds start finish q)) @ '' seconds''))"
  "sql_param ''LIMIT %s'' (bucket_trend R start finish a q) = Some (PInt (trend_points (tr_max_points q)))"
  "contains (fst (bucket_trend R start finish a q)) ''GROUP BY 1 ''"
  "sql_sorted u (fst (bucket_trend R start finish a q)) xs = xs"
proof -
  let ?sql = "bucket_trend_sql (trend_aggregate a) (tr_site q)" and ?w = "PStr (py_str R (PFloat (trend_seconds start finish q)) @ '' seconds'')"
  have pos: "clause_positions ?sql = [Some 0, Some 1, Some (1 + 1), if site_param (tr_site q) = [] then None else Some (1 + 2),
      Some (1 + 2 + length (site_param (tr_site q))), Some (1 + 3 + length (site_param (tr_site q))), Some (1 + 4 + length (site_param (tr_site q)))]"
    by (cases rule: site_cases [of "tr_site q"])
      (simp_all add: bucket_trend_sql_def aggregate_all [OF bucket_positions(1)] aggregate_all [OF bucket_positions(2)]
        eval_nat_numeral)
  have b: "bucket_trend R start finish a q = (?sql, [?w] @ trend_params start finish q)" by (simp add: bucket_trend_def)
  note r = request_reads [OF pos, of "[?w]" start finish, folded b]
  show "row_matches (bucket_trend R start finish a q) = asked_for q start finish" by (rule r(1)) simp
  show "sql_param ''SELECT time_bucket(%s::interval, time)'' (bucket_trend R start finish a q) = Some ?w" using r(3) by simp
  show "sql_param ''LIMIT %s'' (bucket_trend R start finish a q) = Some (PInt (trend_points (tr_max_points q)))" by (rule r(2)) simp
  have c: "contains ?sql ''ORDER BY 1 ASC'' \<and> contains ?sql ''GROUP BY 1 ''"
    by (cases rule: site_cases [of "tr_site q"])
      (simp_all only: bucket_trend_sql_def append_Nil aggregate_all [OF bucket_orders(1)] aggregate_all [OF bucket_orders(2)])
  then show "contains (fst (bucket_trend R start finish a q)) ''GROUP BY 1 ''"
    "sql_sorted u (fst (bucket_trend R start finish a q)) xs = xs" by (simp_all add: bucket_trend_def sql_sorted_def)
qed

text \<open>Claim C31. A trend is bounded and complete up to its newest end, as the database reads the text and the parameters of
  the query: there is a parameter for each placeholder, and the answer has at most as many rows as asked for and at most 2000. A
  raw trend has the oldest samples the request asks for, in ascending order. A trend of buckets has, in ascending order, the buckets of
  the samples the request asks for, all of them but at most the newest two, whatever origin the buckets are aligned to and
  however the database sorts what no clause sorts, provided that it reads the text of a width as that width up to a microsecond.\<close>

theorem trend_bounded:
  assumes "query_trend R ns ne q = Inr c"
    and "\<bar>interval (py_str R (PFloat (trend_seconds start finish q)) @ '' seconds'') - trend_seconds start finish q\<bar> \<le> 1 / 1000000"
    and "start = trend_start ns q" "finish = trend_end ne q" "ts = map sp_time (filter (asked_for q start finish) samples)"
    and "n = trend_points (tr_max_points q)" "rows = sql_answer interval o0 unsorted c samples"
  shows "aligned c \<and> length rows \<le> nat n \<and> n \<le> 2000
    \<and> (if py_strip (py_lower (tr_aggregation q)) = ''raw'' then rows = take (nat n) (sort ts)
       else \<exists>w k. \<bar>w - max 1 ((finish - start) / of_int n)\<bar> \<le> 1 / 1000000 \<and> k \<le> 2
         \<and> rows = take (length (bucket_starts o0 w ts) - k) (bucket_starts o0 w ts))"
proof -
  have n: "1 \<le> n" "n \<le> 2000" using trend_points_range assms(6) by simp_all
  have al: "aligned c" by (rule trend_aligned [OF assms(1)])
  show ?thesis
  proof (cases "py_strip (py_lower (tr_aggregation q)) = ''raw''")
    case True
    then have c: "c = raw_trend start finish q" using assms(1,3,4) by (simp add: query_trend_def Let_def split: if_splits)
    have "rows = take (nat n) (sort ts)"
      unfolding assms(7) sql_answer_def Let_def c raw_reads sql_rows_def using assms(5,6) by simp
    then show ?thesis using al n True by simp
  next
    case False
    then obtain a where c: "c = bucket_trend R start finish a q"
      using assms(1,3,4) by (auto simp: query_trend_def Let_def split: if_splits)
    let ?w = "interval (py_str R (PFloat (trend_seconds start finish q)) @ '' seconds'')"
    have w: "\<bar>?w - max 1 ((finish - start) / of_int n)\<bar> \<le> 1 / 1000000"
      using assms(2,6) by (simp add: trend_seconds_def)
    have rows: "rows = take (nat n) (bucket_starts o0 ?w ts)"
      unfolding assms(7) sql_answer_def Let_def c bucket_reads sql_rows_def using bucket_reads(4) assms(5,6) by simp
    have "\<forall>t \<in> set ts. start \<le> t \<and> t \<le> finish" using assms(5) by (auto simp: asked_for_def)
    from take_all_but [OF buckets_few [OF n w this, of o0]] obtain k where
      k: "k \<le> 2" "rows = take (length (bucket_starts o0 ?w ts) - k) (bucket_starts o0 ?w ts)" unfolding rows by blast
    moreover have "length rows \<le> nat n" unfolding rows by simp
    ultimately show ?thesis using al n False w by auto
  qed
qed

definition demo_trend :: trend_request where
  "demo_trend = \<lparr>tr_asset = ''pump'', tr_tag = ''rpm'', tr_hours = 1, tr_site = None, tr_start = Some 5, tr_end = Some 25, tr_max_points = 2,
     tr_aggregation = ''auto''\<rparr>"

definition demo_sample :: "rat \<Rightarrow> trend_sample" where
  "demo_sample t = \<lparr>sp_asset = ''pump'', sp_tag = ''rpm'', sp_site = ''s'', sp_time = t\<rparr>"

definition demo_samples :: "trend_sample list" where
  "demo_samples = map demo_sample [6, 12, 24]"

definition width_rt :: pyrt where
  "width_rt = demo_rt\<lparr>repr_of := \<lambda>_. ''10.0''\<rparr>"

definition read_width :: "string \<Rightarrow> rat" where
  "read_width s = (if s = ''10.0 seconds'' then 10 else 1)"

lemma demo_trend_ok: "query_trend width_rt 0 0 demo_trend = Inr (bucket_trend width_rt 5 25 ''auto'' demo_trend)"
proof -
  have a: "py_strip (py_lower (tr_aggregation demo_trend)) = ''auto''" "''auto'' \<in> set trend_aggregations" by code_simp+
  show ?thesis unfolding query_trend_def Let_def a(1) using a(2) by (simp add: trend_start_def trend_end_def demo_trend_def)
qed

lemma demo_width:
  "trend_seconds 5 25 demo_trend = 10" "read_width (py_str width_rt (PFloat 10) @ '' seconds'') = 10"
  by (simp_all add: trend_seconds_def demo_trend_def trend_points_def read_width_def py_str_def width_rt_def)

lemma demo_buckets: "bucket_starts 0 10 [6, 12, 24] = [0, 10, 20]"
proof -
  have f: "\<lfloor>(3 / 5 :: rat)\<rfloor> = 0" "\<lfloor>(6 / 5 :: rat)\<rfloor> = 1" "\<lfloor>(12 / 5 :: rat)\<rfloor> = 2" by (simp_all add: floor_eq_iff)
  have "{10, 20} - {0 :: rat} = {10, 20}" "{20} - {10 :: rat} = {20}" by auto
  then show ?thesis by (simp add: bucket_starts_def bucket_start_def bucket_of_def f)
qed

lemma demo_asked: "map sp_time (filter (asked_for demo_trend 5 25) demo_samples) = [6, 12, 24]"
  by (simp add: asked_for_def demo_samples_def demo_sample_def demo_trend_def)

theorem trend_bounded_witness:
  "length (sql_answer read_width 0 id (bucket_trend width_rt 5 25 ''auto'' demo_trend) demo_samples) \<le> 2
   \<and> (\<exists>w k. \<bar>w - 10\<bar> \<le> 1 / 1000000 \<and> k \<le> 2 \<and> sql_answer read_width 0 id (bucket_trend width_rt 5 25 ''auto'' demo_trend) demo_samples
        = take (length (bucket_starts 0 w [6, 12, 24]) - k) (bucket_starts 0 w [6, 12, 24]))"
proof -
  have st: "5 = trend_start 0 demo_trend" "25 = trend_end 0 demo_trend" by (simp_all add: trend_start_def trend_end_def demo_trend_def)
  have n: "2 = trend_points (tr_max_points demo_trend)" by (simp add: trend_points_def demo_trend_def)
  have w: "\<bar>read_width (py_str width_rt (PFloat (trend_seconds 5 25 demo_trend)) @ '' seconds'') - trend_seconds 5 25 demo_trend\<bar> \<le> 1 / 1000000"
    unfolding demo_width by simp
  have a: "py_strip (py_lower (tr_aggregation demo_trend)) = ''raw'' \<longleftrightarrow> False" by code_simp
  from trend_bounded [of width_rt 0 0 demo_trend _ read_width 5 25 "[6, 12, 24]" demo_samples 2 _ 0 id,
      OF demo_trend_ok w st demo_asked [symmetric] n refl] show ?thesis unfolding a by simp
qed

text \<open>The newest samples of a dense range can be missing: the buckets are aligned to the origin and not to the start.\<close>

lemma newest_bucket_dropped:
  "sql_answer read_width 0 id (bucket_trend width_rt 5 25 ''auto'' demo_trend) demo_samples = [0, 10]
   \<and> bucket_starts 0 10 (map sp_time demo_samples) = [0, 10, 20]"
proof -
  have n: "trend_points (tr_max_points demo_trend) = 2" by (simp add: trend_points_def demo_trend_def)
  have "sql_answer read_width 0 id (bucket_trend width_rt 5 25 ''auto'' demo_trend) demo_samples = [0, 10]"
    unfolding sql_answer_def Let_def bucket_reads sql_rows_def demo_asked demo_width n
    by (simp add: bucket_reads(4) demo_buckets demo_width)
  moreover have "map sp_time demo_samples = [6, 12, 24]" by (simp add: demo_samples_def demo_sample_def)
  ultimately show ?thesis by (simp add: demo_buckets)
qed

text \<open>The evidence of a report: bounded, and values only as parameters.\<close>

lemma evidence_aligned: "aligned (query_report_evidence site start finish limit)"
proof -
  have f: "sum_list (map marks (map fst (evidence_filters site start finish))) = length (evidence_filters site start finish)"
    by (simp add: evidence_filters_def marks_Cons)
  then show ?thesis
    unfolding aligned_def query_report_evidence_def Let_def
    by (simp add: marks_join [OF marks_sep(2)] marks_Cons del: map_map)
qed

section \<open>Retention and compression\<close>

datatype maintenance =
    EnableCompression string string
  | AddCompressionPolicy string
  | AddRetentionPolicy string nat
  | UniqueIndex string string
  | CompressChunk string

definition compress_segmentby :: "(string \<times> string) list" where
  "compress_segmentby = [(''industrial_events'', ''asset_id, tag''), (''processed_events'', ''asset_id, tag''), (''ai_enriched'', ''source, model'')]"

definition retention_days :: "string \<Rightarrow> nat" where
  "retention_days t = (if t = ''industrial_events'' then 90 else if t = ''processed_events'' then 365 else 730)"

definition policy_steps :: "maintenance list" where
  "policy_steps = concat (map (\<lambda>(t, segments). [EnableCompression t segments, AddCompressionPolicy t, AddRetentionPolicy t (retention_days t)])
      compress_segmentby)"

definition index_steps :: "maintenance list" where
  "index_steps = map (\<lambda>t. UniqueIndex t (t @ ''_event_id_uniq'')) [''industrial_events'', ''processed_events'', ''dead_letter_events'']"

text \<open>The settings in force; \<open>answers n\<close> is the error the \<open>n\<close>-th statement raises, if any.\<close>

type_synonym db_settings = "maintenance list"

definition apply_step :: "db_error option \<Rightarrow> maintenance \<Rightarrow> (db_settings, unit) statement" where
  "apply_step answer m db = (case answer of Some e \<Rightarrow> (Inl e, db) | None \<Rightarrow> (Inr (), db @ [m]))"

text \<open>Every statement in a \<open>try\<close> of its own: a failed one rolls the transaction back, a successful one is logged.
  The errors of a statement are those of \<open>psycopg2\<close>, which the code catches, and the rollback and the commit succeed.\<close>

fun try_steps :: "(nat \<Rightarrow> db_error option) \<Rightarrow> nat \<Rightarrow> maintenance list \<Rightarrow> db_settings hconn \<Rightarrow> maintenance list \<times> db_settings hconn" where
  "try_steps answers n [] c = ([], c)"
| "try_steps answers n (m # ms) c =
     (case run_statement (apply_step (answers n) m) c of
        (Inl _, c') \<Rightarrow> try_steps answers (Suc n) ms (do_rollback c')
      | (Inr _, c') \<Rightarrow> (let (logged, c'') = try_steps answers (Suc n) ms c' in (m # logged, c'')))"

definition steps_then_commit :: "(nat \<Rightarrow> db_error option) \<Rightarrow> maintenance list \<Rightarrow> db_settings hconn \<Rightarrow> (db_error + maintenance list) \<times> db_settings hconn" where
  "steps_then_commit answers ms c = (let (logged, c') = try_steps answers 0 ms c in (Inr logged, do_commit c'))"

definition setup_retention_policies :: "(nat \<Rightarrow> db_error option) \<Rightarrow> db_settings \<Rightarrow> (db_error + maintenance list) \<times> db_settings" where
  "setup_retention_policies answers db = with_connection (steps_then_commit answers policy_steps) db"

definition setup_unique_indexes :: "(nat \<Rightarrow> db_error option) \<Rightarrow> db_settings \<Rightarrow> (db_error + maintenance list) \<times> db_settings" where
  "setup_unique_indexes answers db = with_connection (steps_then_commit answers index_steps) db"

text \<open>\<open>manual_compress_chunk\<close>: the chunks its query found, one statement each, and the report.\<close>

definition manual_compress_chunk ::
    "(nat \<Rightarrow> db_error option) \<Rightarrow> string \<Rightarrow> (db_settings \<Rightarrow> db_error + string list) \<Rightarrow> db_settings \<Rightarrow> (db_error + (string \<times> nat \<times> nat)) \<times> db_settings" where
  "manual_compress_chunk answers t chunks_of db =
     with_connection
       (then_do (run_statement (\<lambda>d. (chunks_of d, d))) (\<lambda>chunks c.
          let (done_steps, c') = try_steps answers 0 (map CompressChunk chunks) c
          in (Inr (t, length chunks, length done_steps), do_commit c'))) db"

definition compression_ratio :: "(nat \<times> nat) list \<Rightarrow> rat" where
  "compression_ratio compressed =
     (if compressed = [] then 1
      else (let before = sum_list (map fst compressed); after = sum_list (map snd compressed)
            in if after = 0 then 1 else round_to 2 (of_nat before / of_nat after)))"

text \<open>\<open>RetentionPolicy.apply\<close>: the chunks older than the hot days are compressed and those beyond the warm days dropped; nothing is
  aggregated.\<close>

record retention_policy =
  rt_hot_days :: nat
  rt_warm_days :: nat
  rt_interval :: string

definition default_retention :: retention_policy where
  "default_retention = \<lparr>rt_hot_days = 7, rt_warm_days = 30, rt_interval = ''1 hour''\<rparr>"

record chunk =
  ck_age :: nat
  ck_compressed :: bool

definition retention_apply :: "retention_policy \<Rightarrow> chunk list \<Rightarrow> (nat \<times> nat \<times> nat) \<times> chunk list" where
  "retention_apply p cs =
     (let compressed = map (\<lambda>c. if rt_hot_days p < ck_age c then c\<lparr>ck_compressed := True\<rparr> else c) cs;
          kept = filter (\<lambda>c. ck_age c \<le> rt_warm_days p) compressed
      in ((length (filter (\<lambda>c. rt_hot_days p < ck_age c) cs), length (filter (\<lambda>c. rt_warm_days p < ck_age c) compressed), 0), kept))"

text \<open>The longest suffix of the statements without a failure.\<close>

fun all_answered :: "(nat \<Rightarrow> db_error option) \<Rightarrow> nat \<Rightarrow> maintenance list \<Rightarrow> bool" where
  "all_answered answers n [] = True"
| "all_answered answers n (m # ms) = (answers n = None \<and> all_answered answers (Suc n) ms)"

fun surviving :: "(nat \<Rightarrow> db_error option) \<Rightarrow> nat \<Rightarrow> maintenance list \<Rightarrow> maintenance list" where
  "surviving answers n [] = []"
| "surviving answers n (m # ms) = (if all_answered answers n (m # ms) then m # ms else surviving answers (Suc n) ms)"

lemma surviving_all: "all_answered answers n ms \<Longrightarrow> surviving answers n ms = ms"
  by (cases ms) simp_all

lemma try_steps_work:
  assumes "try_steps answers n ms c = (logged, c')" "\<not> hc_aborted c"
  shows "hc_work c' = (if all_answered answers n ms then hc_work c @ ms else hc_saved c @ surviving answers n ms)
    \<and> hc_saved c' = hc_saved c \<and> \<not> hc_aborted c'"
  using assms
proof (induction ms arbitrary: n c logged)
  case (Cons m ms)
  show ?case
  proof (cases "answers n")
    case None
    let ?c = "c\<lparr>hc_work := hc_work c @ [m], hc_open := True\<rparr>"
    have r: "run_statement (apply_step (answers n) m) c = (Inr (), ?c)" using Cons.prems(2) None by (simp add: run_statement_def apply_step_def)
    obtain l1 where t: "try_steps answers (Suc n) ms ?c = (l1, c')" using Cons.prems(1) r by (auto split: prod.splits)
    from Cons.IH [OF t] Cons.prems(2) None show ?thesis by simp
  next
    case (Some e)
    let ?c = "do_rollback (c\<lparr>hc_open := True, hc_aborted := True\<rparr>)"
    have r: "run_statement (apply_step (answers n) m) c = (Inl e, c\<lparr>hc_open := True, hc_aborted := True\<rparr>)"
      using Cons.prems(2) Some by (simp add: run_statement_def apply_step_def)
    have t: "try_steps answers (Suc n) ms ?c = (logged, c')" using Cons.prems(1) r by simp
    from Cons.IH [OF t] Some show ?thesis by (simp add: surviving_all do_rollback_def)
  qed
qed simp

lemma try_steps_logged: "try_steps answers n ms c = (logged, c') \<Longrightarrow> \<not> hc_aborted c \<Longrightarrow> set (surviving answers n ms) \<subseteq> set logged \<and>
    length (surviving answers n ms) \<le> length logged"
proof (induction ms arbitrary: n c logged)
  case (Cons m ms)
  show ?case
  proof (cases "answers n")
    case None
    let ?c = "c\<lparr>hc_work := hc_work c @ [m], hc_open := True\<rparr>"
    have r: "run_statement (apply_step (answers n) m) c = (Inr (), ?c)" using Cons.prems(2) None by (simp add: run_statement_def apply_step_def)
    obtain l1 where t: "try_steps answers (Suc n) ms ?c = (l1, c')" "logged = m # l1" using Cons.prems(1) r by (auto split: prod.splits)
    from Cons.IH [OF t(1)] Cons.prems(2) None t(2) show ?thesis by (auto simp: surviving_all)
  next
    case (Some e)
    let ?c = "do_rollback (c\<lparr>hc_open := True, hc_aborted := True\<rparr>)"
    have r: "run_statement (apply_step (answers n) m) c = (Inl e, c\<lparr>hc_open := True, hc_aborted := True\<rparr>)"
      using Cons.prems(2) Some by (simp add: run_statement_def apply_step_def)
    have t: "try_steps answers (Suc n) ms ?c = (logged, c')" using Cons.prems(1) r by simp
    from Cons.IH [OF t] Some show ?thesis by (simp add: do_rollback_def)
  qed
qed simp

lemma connection_saved:
  "with_connection body db = (r, db') \<Longrightarrow> body (fresh_conn db) = (Inr a, c) \<Longrightarrow> r = Inr a \<and> db' = hc_saved c"
  by (cases "hc_open c") (simp_all add: with_connection_def do_rollback_def)

lemma steps_settings:
  assumes "with_connection (steps_then_commit answers ms) db = (r, db')"
  shows "db' = (if all_answered answers 0 ms then db @ ms else db @ surviving answers 0 ms)"
proof -
  obtain logged c where t: "try_steps answers 0 ms (fresh_conn db) = (logged, c)" by fastforce
  have f: "\<not> hc_aborted (fresh_conn db)" "hc_work (fresh_conn db) = db" "hc_saved (fresh_conn db) = db" by (simp_all add: fresh_conn_def)
  have "steps_then_commit answers ms (fresh_conn db) = (Inr logged, do_commit c)" using t by (simp add: steps_then_commit_def)
  from connection_saved [OF assms this] try_steps_work [OF t f(1)] f(2,3) show ?thesis by (simp add: do_commit_def)
qed

text \<open>Claim C25. Of the retention policies, and of the unique indexes, exactly those are in force afterwards whose statements come after the
  last failed one: the rollback of a failure takes every earlier success of the call with it, although it was logged.\<close>

theorem last_failure_undoes:
  "snd (setup_retention_policies answers db) = db @ surviving answers 0 policy_steps
   \<and> snd (setup_unique_indexes answers db) = db @ surviving answers 0 index_steps"
proof -
  have "snd (with_connection (steps_then_commit answers ms) db) = db @ surviving answers 0 ms" for ms
    using steps_settings [of answers ms db] by (cases "with_connection (steps_then_commit answers ms) db") (auto simp: surviving_all)
  then show ?thesis by (simp add: setup_retention_policies_def setup_unique_indexes_def)
qed

text \<open>One failure at the end: eight successes are logged and nothing is in force. A report counts chunks that are not compressed.\<close>

lemma one_failure_loses_all:
  "setup_retention_policies (\<lambda>n. if n = 8 then Some (OtherError ''exists'') else None) []
     = (Inr (take 8 policy_steps), [])"
  by code_simp

lemma overcounted_chunks:
  "manual_compress_chunk (\<lambda>n. if n = 1 then Some (OtherError ''locked'') else None) ''industrial_events'' (\<lambda>_. Inr [''a'', ''b'']) []
     = (Inr (''industrial_events'', 2, 1), [])"
  by code_simp

text \<open>The reported number is never less than that of the chunks compressed.\<close>

lemma compress_report:
  assumes "manual_compress_chunk answers t chunks_of db = (Inr (u, found, compressed), db')"
  shows "\<exists>chunks. chunks_of db = Inr chunks \<and> found = length chunks \<and> db' = db @ surviving answers 0 (map CompressChunk chunks)
    \<and> length (surviving answers 0 (map CompressChunk chunks)) \<le> compressed"
proof -
  obtain chunks where ch: "chunks_of db = Inr chunks"
    using assms by (cases "chunks_of db") (auto simp: manual_compress_chunk_def with_connection_def then_do_def run_statement_def fresh_conn_def Let_def)
  let ?c = "(fresh_conn db)\<lparr>hc_open := True\<rparr>"
  obtain logged c' where t: "try_steps answers 0 (map CompressChunk chunks) ?c = (logged, c')" by fastforce
  have na: "\<not> hc_aborted ?c" by (simp add: fresh_conn_def)
  have eq: "found = length chunks" "compressed = length logged" "db' = hc_saved (do_commit c')"
    using assms ch t
    by (auto simp: manual_compress_chunk_def with_connection_def then_do_def run_statement_def fresh_conn_def Let_def do_commit_def do_rollback_def split: if_splits)
  have "db' = db @ surviving answers 0 (map CompressChunk chunks)"
    unfolding eq using try_steps_work [OF t na] by (auto simp: do_commit_def fresh_conn_def surviving_all)
  then show ?thesis using ch eq try_steps_logged [OF t na] by simp
qed

text \<open>\<open>RetentionPolicy\<close> keeps nothing beyond its warm days, and no aggregate of what it drops.\<close>

lemma retention_drops:
  "\<forall>c \<in> set (snd (retention_apply p cs)). ck_age c \<le> rt_warm_days p" "snd (snd (fst (retention_apply p cs))) = 0"
  by (simp_all add: retention_apply_def Let_def)

end
