(* ===== verification/Spec2Isabelle.thy ===== *)
theory Spec2Isabelle
  imports
    Disk_Spool Stream_Scope Edge_Model Edge_Publisher
    Threshold_Policy Threshold_Sync Threshold_Store
    Scoring Runtime_Event Runtime_Processor
    Federation Federation_Sync
    Schema_Registry Connection_Registry Replay_State Alerts
    Fanout Outbound_Bridge Modbus Sparkplug Source_Health Push_Ingress
    Semantic_Model Query_Plan Text_Chunks Model_Lifecycle Analytics
    Work_Claims Assistant_Store Model_Dataset Dataset_Builds
    Asset_Hierarchy External_Assets Semantic_Graph Semantic_Store Agent_Runtime
    Site_Profile Project_Manifest Project_Export Supervisor Historian_Backup Assistant_Streams Historian_Client Historian_Queries
begin

text \<open>
  A model of the data path and the control plane of an industrial streaming platform (the Python
  services under \<open>src/services\<close>), with the properties that make its parts correct.

  The program. Connectors read machines and hand payloads to the edge service, which maps and validates
  them, gives every event a stream key, and publishes it to Kafka through a publisher that buffers, retries
  and spools to disk. A stream processor consumes the normalized events, keeps a rolling window per stream,
  scores anomalies, evaluates alarm thresholds with debouncing, publishes the result, writes it to a
  historian and commits its offsets. Threshold policies are edited at the API, stored in PostgreSQL with a
  transactional outbox, relayed to a Kafka topic, and cached by every process. Sites forward events to a
  central deployment that deduplicates them, and copy tables to a cloud endpoint. The API owns the alerts
  and their escalation, the registries of schemas and of source connections, and the dataset replay. Consumers
  fan the topics out into the lakehouse and the historian, a bridge forwards results to MQTT and AMQP, sources
  may push events over HTTP, a planner turns questions into SQL over a semantic model, and a ledger promotes
  model versions.

  Theories and sources, in the order of the data path:
  \<^item> \<open>Py_Prelude\<close>: dynamic values, insertion-ordered dictionaries, string methods, conversions,
    results. The conversions of the standard library whose text no property inspects (\<open>repr\<close>,
    \<open>float(text)\<close>, \<open>fromisoformat\<close>, \<open>json.dumps\<close>) are the record \<open>pyrt\<close>, an argument
    of the definitions that use it; nothing is assumed of it unless a theorem says so.
  \<^item> \<open>Disk_Spool\<close> (\<open>edge_ingest/disk_spool.py\<close>): the spool file as its lines. Locale
    \<open>event_spool\<close> is what the publisher needs of it, interpreted on the model.
  \<^item> \<open>Stream_Scope\<close> (\<open>common/stream_scope.py\<close>, \<open>device_compat.py\<close>, \<open>normalize.py\<close>):
    scopes, partition keys, protocol profiles, the flattened event.
  \<^item> \<open>Edge_Model\<close> (\<open>edge_ingest/model.py\<close>, \<open>settings.py\<close>, \<open>common/clock_quality.py\<close>):
    source mapping, validation and dead letters, clock quality.
  \<^item> \<open>Edge_Publisher\<close> (\<open>edge_ingest/publisher.py\<close>): a record with buffer, in-flight table and
    spool; \<open>publish_event\<close>, \<open>service\<close>, \<open>replay_spool\<close> and \<open>final_flush\<close> are the methods.
  \<^item> \<open>Threshold_Policy\<close> (\<open>common/threshold_policy.py\<close>): validation, evaluation, the debounced
    transition and its runtime state; \<open>Threshold_Sync\<close> (\<open>threshold_policy_sync.py\<close>): the versioned
    cache and the consumer of the policy topic, with the locale \<open>versioned_store\<close>; \<open>Threshold_Store\<close>:
    manifest policies, the database with its outbox, resolution, upsert and relay, and the
    properties of the whole distribution.
  \<^item> \<open>Scoring\<close> (\<open>analytics/baseline.py\<close>, \<open>processor/scoring.py\<close>), \<open>Runtime_Event\<close>
    (\<open>common/runtime_event.py\<close>) and \<open>Runtime_Processor\<close> (\<open>processor/runtime_pipeline.py\<close>,
    \<open>runtime_processor.py\<close>): the record, the window with running sums, the enrichment, and the consumer
    loop \<open>run_processor\<close> as a fold over the turns of the loop.
  \<^item> \<open>Federation\<close> (\<open>common/federation_contract.py\<close>, \<open>federation/delivery_ledger.py\<close>,
    \<open>policy.py\<close>, \<open>kafka_lakehouse_bridge.py\<close>), with the locale \<open>claim_ledger\<close>, and
    \<open>Federation_Sync\<close> (\<open>federation/main.py\<close>).
  \<^item> \<open>Schema_Registry\<close> (\<open>common/schema_registry.py\<close>), \<open>Connection_Registry\<close>
    (\<open>common/connection_registry.py\<close>), \<open>Replay_State\<close> (\<open>api_service/replay_state.py\<close>) and
    \<open>Alerts\<close> (\<open>api_service/rbac.py\<close>, \<open>alert_manager.py\<close>, \<open>alert_escalation.py\<close>),
    with the locale \<open>alert_store\<close>.
  \<^item> \<open>Fanout\<close> (\<open>sinks/base.py\<close>, \<open>processor/normalized_fanout.py\<close>, \<open>processed_fanout.py\<close>,
    \<open>operational_fanout.py\<close>, \<open>artifact_fanout.py\<close>, \<open>ai_enriched_fanout.py\<close>,
    \<open>raw_lakehouse_archive.py\<close>): the composite sink and the six consumers as runs of inputs that
    also stop, kill and restart the process; the locales \<open>fan_flush\<close> and \<open>fan_loop\<close> are what the
    delivery proof needs of a flush and of a turn, interpreted for each consumer.
  \<^item> \<open>Outbound_Bridge\<close> (\<open>edge_ingest/outbound_bridge.py\<close>); \<open>Push_Ingress\<close>
    (\<open>api_service/http_push_idempotency.py\<close>, \<open>runtime.py\<close>, \<open>routers/historian.py\<close>): idempotency
    table, ingestion and push routes; \<open>Source_Health\<close> (\<open>edge_ingest/source_health.py\<close>,
    \<open>common/runtime_lifecycle.py\<close>, \<open>edge_ingest/delivery_history.py\<close>).
  \<^item> \<open>Modbus\<close> (\<open>edge_ingest/modbus_registers.py\<close>, \<open>modbus_rtu_client.py\<close>,
    \<open>connectors/modbus.py\<close>): registers are 16-bit words, bytes 8-bit words; \<open>Sparkplug\<close>
    (\<open>edge_ingest/mqtt_sparkplug_b.py\<close>).
  \<^item> \<open>Semantic_Model\<close> (\<open>common/semantic_model.py\<close>), \<open>Query_Plan\<close> (\<open>common/query_plan.py\<close>)
    and \<open>Text_Chunks\<close> (\<open>common/text_chunking.py\<close>); \<open>Model_Lifecycle\<close>
    (\<open>common/model_lifecycle.py\<close>) with the abstract table of active versions; \<open>Analytics\<close>
    (\<open>analytics/kpi_engine.py\<close>, \<open>oee_engine.py\<close>).
  \<^item> \<open>Work_Claims\<close>: the locale \<open>claimable\<close> of a step that hands out an item and of steps that
    never give it back, with the lemma that at most one claim succeeds; interpreted in
    \<open>Assistant_Store\<close>, \<open>Dataset_Builds\<close> and \<open>Agent_Runtime\<close>.
  \<^item> \<open>Assistant_Store\<close> (\<open>common/assistant_store.py\<close>, \<open>assistant_worker/main.py\<close>): threads,
    turns, memories and action intents with their ownership checks, one function per method.
  \<^item> \<open>Model_Dataset\<close> (\<open>common/model_dataset.py\<close>): manifests, episodes, nearest records, steps,
    transitions and splits; \<open>Dataset_Builds\<close> (the compilers of the other versions,
    \<open>common/dataset_registry.py\<close>, the build worker and its routes).
  \<^item> \<open>Asset_Hierarchy\<close> (\<open>assets/model.py\<close>, \<open>common/asset_registry.py\<close>,
    \<open>asset_tag_catalog.py\<close>, \<open>asset_hierarchy_projection.py\<close>): the plant as nested records, its tree, the
    table of observed tags and the catalog; \<open>External_Assets\<close> (the asset store of \<open>assets/model.py\<close>,
    \<open>api_service/routers/external.py\<close>, \<open>assets/digital_twin.py\<close>).
  \<^item> \<open>Semantic_Graph\<close> (\<open>common/semantic_core.py\<close>): ten kinds of item with their dictionaries, the locale
    \<open>item_codec\<close> interpreted for each kind, the graph of a hierarchy and the search;
    \<open>Semantic_Store\<close> (\<open>common/semantic_store.py\<close>, the file backend).
  \<^item> \<open>Agent_Runtime\<close> (\<open>common/agent_tools.py\<close>, \<open>agent_runtime.py\<close>): the read-only tools with
    their audit, and the ledger of supervised actions.
  \<^item> \<open>Site_Profile\<close> (\<open>common/site_profiles.py\<close>) and \<open>Project_Manifest\<close>
    (\<open>common/project_manifest.py\<close>): the deployment documents, loading, writing, validation and lint, with the
    locale \<open>document_part\<close> of a list that is read back, interpreted for the four kinds of part;
    \<open>Project_Export\<close> (the renderers and layouts of the same file): every file of a site as text, the writes of
    an export in order, packages and signed releases.
  \<^item> \<open>Supervisor\<close> (\<open>cli/datastreamd.py\<close>): the services, the record file with \<open>up\<close>, \<open>down\<close> and
    \<open>restart\<close>, and the foreground supervisor as a fold over the turns of its loop, with the trace of starts,
    exits and terminations.
  \<^item> \<open>Historian_Backup\<close> (\<open>historian/backup.py\<close>, \<open>api_service/routers/backup.py\<close>, the backup drill of
    \<open>cli/datastreamctl.py\<close>): calls that run commands, as functions on the trace of commands and answers, with
    rules that bound what a call may do.
  \<^item> \<open>Historian_Client\<close> (\<open>historian/client.py\<close>, \<open>sinks/historian_sink.py\<close>): connections
    with their transaction, retries, and the rows and inserts of the event tables, with the locale
    \<open>repeatable_write\<close> of what a retried statement must promise, interpreted for the inserts;
    \<open>Historian_Queries\<close> (the same file and \<open>retention.py\<close>): queries, trends, retention, compression.
  \<^item> \<open>Assistant_Streams\<close> (\<open>common/assistant_streams.py\<close>): the process-local events, owners,
    cancellations and jobs.

  How code becomes definitions. A class with state is a record and its methods are functions on it; a
  module's global state is a record too. A dictionary is an association list in insertion order. An
  exception is \<open>Inl\<close>, \<open>None\<close> or a constructor of its own, and the state a raised exception leaves
  behind is returned with it. A loop over data is recursion on the data; the loop that retries a full producer
  queue consumes one answer of the producer per turn, so running out of answers is the result \<open>Blocked\<close>
  of the call, and \<open>backpressure_returns\<close> shows that the first other answer ends it and keeps the message. Threads
  (\<open>Replay_State\<close>) are steps of an interleaving given as a list of actions; there is no other fuel.

  Environment. Kafka, PostgreSQL, the historian, the lakehouse sink, the clock and random identifiers are not code
  of the repository: their answers are arguments (a list of responses, a flag, a time), quantified in the
  theorems. A Kafka producer without a delivery callback may give a message up after its queue has emptied: the dead
  letters of \<open>Fanout\<close> and the relay of \<open>Threshold_Store\<close> have this answer too. \<open>Historian_Queries\<close> reads the conditions, the
  order and the limit of a trend from the text of the query. Local file writes succeed, except for the torn line of \<open>Disk_Spool\<close>. A \<open>float\<close> is
  the rational it denotes, and NaN and infinities are outside the value model.

  What the lemmas show.
  \<^item> Delivery: shutdown loses nothing, the spool round-trips, and committed offsets follow the results;
    where the code loses data, a theorem says which (\<open>partial_replay\<close>, \<open>replay_shortens\<close>,
    \<open>failed_delivery_committed\<close>, \<open>duplicate_commits_pending\<close>, \<open>sync_skips_ties\<close>).
  \<^item> Alarms: validated policies are well formed, debouncing is safe and live, severities are monotone,
    the payload carries the worse verdict.
  \<^item> Distribution: caches converge when equal versions are equal messages and never go back, an upsert resolves at once,
    the relay is safe and live.
  \<^item> Identity: the partition key identifies the stream and the processor agrees with the edge.
  \<^item> Registries: schema histories stay readable in the full mode; stored connections stay valid and a
    retired one retired; the ways a save or a load can fail afterwards.
  \<^item> Control: escalation does exactly what is due among the listed alerts; one replay at a time
    unless someone stops it.
  \<^item> Consumers and bridges: three fan-outs deliver at least once through failures and restarts, the other
    three lose data in the runs their theorems name; the outbound bridge forwards in order and unchanged, and commits
    nothing with the documented client; a push is idempotent, and what an unreleased claim costs.
  \<^item> Codecs: registers decode to what the device wrote, within the bounds of their type; Sparkplug payloads
    and the text of chunks round-trip.
  \<^item> Queries: planned queries are well typed for the compiler, and values only enter as parameters.
  \<^item> Models and figures: the ledger refines a table of active versions; indicator windows are bounded.
  \<^item> Datasets: a split never separates the steps of an episode, a value of a step was observed, the binary
    search agrees with the scan, an undisturbed worker settles its queue.
  \<^item> Assistants: actors are isolated, a turn is claimed once, a request is decided once, only audited
    read-only tools run.
  \<^item> Assets and semantics: configuration wins over discovery, the graph of a hierarchy is closed, a search is
    ranked, and a reopened store is the one in memory.
  \<^item> Deployment: manifests under an absolute path round-trip and manifests are accepted exactly when they fit, an export writes what it rendered
    and nothing outside its directory, a release verifies; the supervisor keeps its restart budget and leaves no
    process behind; a drill never writes the live database, and an accepted one proves a restore of the file
    it dumped, by the counts of both databases.
  \<^item> Historian: writes are atomic and redelivered events are absorbed, the sink counts what it stored, the two
    event tables agree, a trend misses at most its newest two buckets, and what a rollback takes back.
  \<^item> Streams: a reader that resumes gets the last thousand events after the one it has seen.

  Not modelled: the Flink job (it wires the same enrichment into a third-party framework), the lakehouse and
  Kafka sinks (package calls), the semantic tables of the historian, the MQTT, OPC UA and REST clients, the
  other HTTP routes, the AI gateway and the retrieval over embeddings (prompts and packages), the HTTP commands
  and reports of \<open>datastreamctl.py\<close>, datasets, benchmarks and release scripts, the native accelerator (the model
  is the pure Python path), gauges and histograms of the metrics package. What is left with logic of its own is
  listed with the components: the correlation engine and the token checks of the API.
\<close>

end
